(* ===== verification/Error_Code.thy ===== *)
theory Error_Code imports Main begin

text \<open>
  The error codes of the library (\<open>include/bitcoin/network/error.hpp\<close>).
  \<open>enum error_t : uint8_t\<close> numbers its enumerators from zero in declaration order, so
  \<open>error_t\<close> is a number and each enumerator \<open>x\<close> is the abbreviation \<open>e_x\<close>, which keeps
  the two hundred and twenty eight codes pairwise distinct by arithmetic.
  A \<open>code\<close> (a \<open>std::error_code\<close>) converts to \<open>true\<close> when its value is not zero:
  \<open>failed\<close> below.
\<close>

datatype error_t = Error_t (error_value: nat)

abbreviation e_success :: error_t where "e_success \<equiv> Error_t 0"
abbreviation e_unknown :: error_t where "e_unknown \<equiv> Error_t 1"
abbreviation e_upgrade :: error_t where "e_upgrade \<equiv> Error_t 2"
abbreviation e_upgraded :: error_t where "e_upgraded \<equiv> Error_t 3"
abbreviation e_address_invalid :: error_t where "e_address_invalid \<equiv> Error_t 4"
abbreviation e_address_not_found :: error_t where "e_address_not_found \<equiv> Error_t 5"
abbreviation e_address_disabled :: error_t where "e_address_disabled \<equiv> Error_t 6"
abbreviation e_address_unsupported :: error_t where "e_address_unsupported \<equiv> Error_t 7"
abbreviation e_address_insufficient :: error_t where "e_address_insufficient \<equiv> Error_t 8"
abbreviation e_seeding_unsuccessful :: error_t where "e_seeding_unsuccessful \<equiv> Error_t 9"
abbreviation e_seeding_complete :: error_t where "e_seeding_complete \<equiv> Error_t 10"
abbreviation e_file_load :: error_t where "e_file_load \<equiv> Error_t 11"
abbreviation e_file_save :: error_t where "e_file_save \<equiv> Error_t 12"
abbreviation e_file_system :: error_t where "e_file_system \<equiv> Error_t 13"
abbreviation e_file_exception :: error_t where "e_file_exception \<equiv> Error_t 14"
abbreviation e_bad_stream :: error_t where "e_bad_stream \<equiv> Error_t 15"
abbreviation e_not_allowed :: error_t where "e_not_allowed \<equiv> Error_t 16"
abbreviation e_peer_disconnect :: error_t where "e_peer_disconnect \<equiv> Error_t 17"
abbreviation e_peer_unsupported :: error_t where "e_peer_unsupported \<equiv> Error_t 18"
abbreviation e_peer_insufficient :: error_t where "e_peer_insufficient \<equiv> Error_t 19"
abbreviation e_peer_timestamp :: error_t where "e_peer_timestamp \<equiv> Error_t 20"
abbreviation e_protocol_violation :: error_t where "e_protocol_violation \<equiv> Error_t 21"
abbreviation e_channel_overflow :: error_t where "e_channel_overflow \<equiv> Error_t 22"
abbreviation e_channel_underflow :: error_t where "e_channel_underflow \<equiv> Error_t 23"
abbreviation e_channel_backlog :: error_t where "e_channel_backlog \<equiv> Error_t 24"
abbreviation e_message_dropped :: error_t where "e_message_dropped \<equiv> Error_t 25"
abbreviation e_listen_failed :: error_t where "e_listen_failed \<equiv> Error_t 26"
abbreviation e_accept_failed :: error_t where "e_accept_failed \<equiv> Error_t 27"
abbreviation e_oversubscribed :: error_t where "e_oversubscribed \<equiv> Error_t 28"
abbreviation e_address_blocked :: error_t where "e_address_blocked \<equiv> Error_t 29"
abbreviation e_address_in_use :: error_t where "e_address_in_use \<equiv> Error_t 30"
abbreviation e_resolve_failed :: error_t where "e_resolve_failed \<equiv> Error_t 31"
abbreviation e_connect_failed :: error_t where "e_connect_failed \<equiv> Error_t 32"
abbreviation e_net_unreachable :: error_t where "e_net_unreachable \<equiv> Error_t 33"
abbreviation e_host_unreachable :: error_t where "e_host_unreachable \<equiv> Error_t 34"
abbreviation e_connection_refused :: error_t where "e_connection_refused \<equiv> Error_t 35"
abbreviation e_invalid_heading :: error_t where "e_invalid_heading \<equiv> Error_t 36"
abbreviation e_invalid_magic :: error_t where "e_invalid_magic \<equiv> Error_t 37"
abbreviation e_oversized_payload :: error_t where "e_oversized_payload \<equiv> Error_t 38"
abbreviation e_invalid_checksum :: error_t where "e_invalid_checksum \<equiv> Error_t 39"
abbreviation e_invalid_message :: error_t where "e_invalid_message \<equiv> Error_t 40"
abbreviation e_unknown_message :: error_t where "e_unknown_message \<equiv> Error_t 41"
abbreviation e_invalid_configuration :: error_t where "e_invalid_configuration \<equiv> Error_t 42"
abbreviation e_insufficient_buffer :: error_t where "e_insufficient_buffer \<equiv> Error_t 43"
abbreviation e_operation_timeout :: error_t where "e_operation_timeout \<equiv> Error_t 44"
abbreviation e_operation_canceled :: error_t where "e_operation_canceled \<equiv> Error_t 45"
abbreviation e_operation_failed :: error_t where "e_operation_failed \<equiv> Error_t 46"
abbreviation e_channel_timeout :: error_t where "e_channel_timeout \<equiv> Error_t 47"
abbreviation e_channel_conflict :: error_t where "e_channel_conflict \<equiv> Error_t 48"
abbreviation e_channel_dropped :: error_t where "e_channel_dropped \<equiv> Error_t 49"
abbreviation e_channel_expired :: error_t where "e_channel_expired \<equiv> Error_t 50"
abbreviation e_channel_inactive :: error_t where "e_channel_inactive \<equiv> Error_t 51"
abbreviation e_channel_stopped :: error_t where "e_channel_stopped \<equiv> Error_t 52"
abbreviation e_service_stopped :: error_t where "e_service_stopped \<equiv> Error_t 53"
abbreviation e_service_suspended :: error_t where "e_service_suspended \<equiv> Error_t 54"
abbreviation e_subscriber_exists :: error_t where "e_subscriber_exists \<equiv> Error_t 55"
abbreviation e_subscriber_stopped :: error_t where "e_subscriber_stopped \<equiv> Error_t 56"
abbreviation e_desubscribed :: error_t where "e_desubscribed \<equiv> Error_t 57"
abbreviation e_socks_method :: error_t where "e_socks_method \<equiv> Error_t 58"
abbreviation e_socks_username :: error_t where "e_socks_username \<equiv> Error_t 59"
abbreviation e_socks_password :: error_t where "e_socks_password \<equiv> Error_t 60"
abbreviation e_socks_host_name :: error_t where "e_socks_host_name \<equiv> Error_t 61"
abbreviation e_socks_authentication :: error_t where "e_socks_authentication \<equiv> Error_t 62"
abbreviation e_socks_failure :: error_t where "e_socks_failure \<equiv> Error_t 63"
abbreviation e_socks_disallowed :: error_t where "e_socks_disallowed \<equiv> Error_t 64"
abbreviation e_socks_net_unreachable :: error_t where "e_socks_net_unreachable \<equiv> Error_t 65"
abbreviation e_socks_host_unreachable :: error_t where "e_socks_host_unreachable \<equiv> Error_t 66"
abbreviation e_socks_connection_refused :: error_t where "e_socks_connection_refused \<equiv> Error_t 67"
abbreviation e_socks_connection_expired :: error_t where "e_socks_connection_expired \<equiv> Error_t 68"
abbreviation e_socks_unsupported_command :: error_t where "e_socks_unsupported_command \<equiv> Error_t 69"
abbreviation e_socks_unsupported_address :: error_t where "e_socks_unsupported_address \<equiv> Error_t 70"
abbreviation e_socks_unassigned_failure :: error_t where "e_socks_unassigned_failure \<equiv> Error_t 71"
abbreviation e_socks_response_invalid :: error_t where "e_socks_response_invalid \<equiv> Error_t 72"
abbreviation e_sam_response_invalid :: error_t where "e_sam_response_invalid \<equiv> Error_t 73"
abbreviation e_sam_no_version :: error_t where "e_sam_no_version \<equiv> Error_t 74"
abbreviation e_sam_cant_reach_peer :: error_t where "e_sam_cant_reach_peer \<equiv> Error_t 75"
abbreviation e_sam_duplicated_dest :: error_t where "e_sam_duplicated_dest \<equiv> Error_t 76"
abbreviation e_sam_duplicated_id :: error_t where "e_sam_duplicated_id \<equiv> Error_t 77"
abbreviation e_sam_i2p_error :: error_t where "e_sam_i2p_error \<equiv> Error_t 78"
abbreviation e_sam_invalid_id :: error_t where "e_sam_invalid_id \<equiv> Error_t 79"
abbreviation e_sam_invalid_key :: error_t where "e_sam_invalid_key \<equiv> Error_t 80"
abbreviation e_sam_key_not_found :: error_t where "e_sam_key_not_found \<equiv> Error_t 81"
abbreviation e_sam_peer_not_found :: error_t where "e_sam_peer_not_found \<equiv> Error_t 82"
abbreviation e_sam_timeout :: error_t where "e_sam_timeout \<equiv> Error_t 83"
abbreviation e_sam_unassigned_failure :: error_t where "e_sam_unassigned_failure \<equiv> Error_t 84"
abbreviation e_tls_use_certificate :: error_t where "e_tls_use_certificate \<equiv> Error_t 85"
abbreviation e_tls_use_private_key :: error_t where "e_tls_use_private_key \<equiv> Error_t 86"
abbreviation e_tls_set_add_verify :: error_t where "e_tls_set_add_verify \<equiv> Error_t 87"
abbreviation e_tls_stream_truncated :: error_t where "e_tls_stream_truncated \<equiv> Error_t 88"
abbreviation e_tls_alert_unexpected_message :: error_t where "e_tls_alert_unexpected_message \<equiv> Error_t 89"
abbreviation e_tls_alert_bad_record_mac :: error_t where "e_tls_alert_bad_record_mac \<equiv> Error_t 90"
abbreviation e_tls_alert_record_overflow :: error_t where "e_tls_alert_record_overflow \<equiv> Error_t 91"
abbreviation e_tls_alert_handshake_failure :: error_t where "e_tls_alert_handshake_failure \<equiv> Error_t 92"
abbreviation e_tls_alert_bad_certificate :: error_t where "e_tls_alert_bad_certificate \<equiv> Error_t 93"
abbreviation e_tls_alert_unsupported_certificate :: error_t where "e_tls_alert_unsupported_certificate \<equiv> Error_t 94"
abbreviation e_tls_alert_certificate_expired :: error_t where "e_tls_alert_certificate_expired \<equiv> Error_t 95"
abbreviation e_tls_alert_certificate_unknown :: error_t where "e_tls_alert_certificate_unknown \<equiv> Error_t 96"
abbreviation e_tls_alert_illegal_parameter :: error_t where "e_tls_alert_illegal_parameter \<equiv> Error_t 97"
abbreviation e_tls_alert_unknown_ca :: error_t where "e_tls_alert_unknown_ca \<equiv> Error_t 98"
abbreviation e_tls_alert_decode_error :: error_t where "e_tls_alert_decode_error \<equiv> Error_t 99"
abbreviation e_tls_alert_decrypt_error :: error_t where "e_tls_alert_decrypt_error \<equiv> Error_t 100"
abbreviation e_tls_alert_protocol_version :: error_t where "e_tls_alert_protocol_version \<equiv> Error_t 101"
abbreviation e_tls_alert_internal_error :: error_t where "e_tls_alert_internal_error \<equiv> Error_t 102"
abbreviation e_tls_alert_missing_extension :: error_t where "e_tls_alert_missing_extension \<equiv> Error_t 103"
abbreviation e_tls_alert_certificate_required :: error_t where "e_tls_alert_certificate_required \<equiv> Error_t 104"
abbreviation e_tls_alert_unknown :: error_t where "e_tls_alert_unknown \<equiv> Error_t 105"
abbreviation e_bad_request :: error_t where "e_bad_request \<equiv> Error_t 106"
abbreviation e_unauthorized :: error_t where "e_unauthorized \<equiv> Error_t 107"
abbreviation e_forbidden :: error_t where "e_forbidden \<equiv> Error_t 108"
abbreviation e_not_found :: error_t where "e_not_found \<equiv> Error_t 109"
abbreviation e_method_not_allowed :: error_t where "e_method_not_allowed \<equiv> Error_t 110"
abbreviation e_not_acceptable :: error_t where "e_not_acceptable \<equiv> Error_t 111"
abbreviation e_internal_server_error :: error_t where "e_internal_server_error \<equiv> Error_t 112"
abbreviation e_not_implemented :: error_t where "e_not_implemented \<equiv> Error_t 113"
abbreviation e_end_of_stream :: error_t where "e_end_of_stream \<equiv> Error_t 114"
abbreviation e_partial_message :: error_t where "e_partial_message \<equiv> Error_t 115"
abbreviation e_need_more :: error_t where "e_need_more \<equiv> Error_t 116"
abbreviation e_unexpected_body :: error_t where "e_unexpected_body \<equiv> Error_t 117"
abbreviation e_need_buffer :: error_t where "e_need_buffer \<equiv> Error_t 118"
abbreviation e_end_of_chunk :: error_t where "e_end_of_chunk \<equiv> Error_t 119"
abbreviation e_buffer_overflow :: error_t where "e_buffer_overflow \<equiv> Error_t 120"
abbreviation e_header_limit :: error_t where "e_header_limit \<equiv> Error_t 121"
abbreviation e_body_limit :: error_t where "e_body_limit \<equiv> Error_t 122"
abbreviation e_bad_alloc :: error_t where "e_bad_alloc \<equiv> Error_t 123"
abbreviation e_bad_line_ending :: error_t where "e_bad_line_ending \<equiv> Error_t 124"
abbreviation e_bad_method :: error_t where "e_bad_method \<equiv> Error_t 125"
abbreviation e_bad_target :: error_t where "e_bad_target \<equiv> Error_t 126"
abbreviation e_bad_version :: error_t where "e_bad_version \<equiv> Error_t 127"
abbreviation e_bad_status :: error_t where "e_bad_status \<equiv> Error_t 128"
abbreviation e_bad_reason :: error_t where "e_bad_reason \<equiv> Error_t 129"
abbreviation e_bad_field :: error_t where "e_bad_field \<equiv> Error_t 130"
abbreviation e_bad_value :: error_t where "e_bad_value \<equiv> Error_t 131"
abbreviation e_bad_content_length :: error_t where "e_bad_content_length \<equiv> Error_t 132"
abbreviation e_bad_transfer_encoding :: error_t where "e_bad_transfer_encoding \<equiv> Error_t 133"
abbreviation e_bad_chunk :: error_t where "e_bad_chunk \<equiv> Error_t 134"
abbreviation e_bad_chunk_extension :: error_t where "e_bad_chunk_extension \<equiv> Error_t 135"
abbreviation e_bad_obs_fold :: error_t where "e_bad_obs_fold \<equiv> Error_t 136"
abbreviation e_multiple_content_length :: error_t where "e_multiple_content_length \<equiv> Error_t 137"
abbreviation e_stale_parser :: error_t where "e_stale_parser \<equiv> Error_t 138"
abbreviation e_short_read :: error_t where "e_short_read \<equiv> Error_t 139"
abbreviation e_http_unknown :: error_t where "e_http_unknown \<equiv> Error_t 140"
abbreviation e_websocket_closed :: error_t where "e_websocket_closed \<equiv> Error_t 141"
abbreviation e_websocket_buffer_overflow :: error_t where "e_websocket_buffer_overflow \<equiv> Error_t 142"
abbreviation e_partial_deflate_block :: error_t where "e_partial_deflate_block \<equiv> Error_t 143"
abbreviation e_message_too_big :: error_t where "e_message_too_big \<equiv> Error_t 144"
abbreviation e_bad_http_version :: error_t where "e_bad_http_version \<equiv> Error_t 145"
abbreviation e_websocket_bad_method :: error_t where "e_websocket_bad_method \<equiv> Error_t 146"
abbreviation e_no_host :: error_t where "e_no_host \<equiv> Error_t 147"
abbreviation e_no_connection :: error_t where "e_no_connection \<equiv> Error_t 148"
abbreviation e_no_connection_upgrade :: error_t where "e_no_connection_upgrade \<equiv> Error_t 149"
abbreviation e_no_upgrade :: error_t where "e_no_upgrade \<equiv> Error_t 150"
abbreviation e_no_upgrade_websocket :: error_t where "e_no_upgrade_websocket \<equiv> Error_t 151"
abbreviation e_no_sec_key :: error_t where "e_no_sec_key \<equiv> Error_t 152"
abbreviation e_bad_sec_key :: error_t where "e_bad_sec_key \<equiv> Error_t 153"
abbreviation e_no_sec_version :: error_t where "e_no_sec_version \<equiv> Error_t 154"
abbreviation e_bad_sec_version :: error_t where "e_bad_sec_version \<equiv> Error_t 155"
abbreviation e_no_sec_accept :: error_t where "e_no_sec_accept \<equiv> Error_t 156"
abbreviation e_bad_sec_accept :: error_t where "e_bad_sec_accept \<equiv> Error_t 157"
abbreviation e_upgrade_declined :: error_t where "e_upgrade_declined \<equiv> Error_t 158"
abbreviation e_bad_opcode :: error_t where "e_bad_opcode \<equiv> Error_t 159"
abbreviation e_bad_data_frame :: error_t where "e_bad_data_frame \<equiv> Error_t 160"
abbreviation e_bad_continuation :: error_t where "e_bad_continuation \<equiv> Error_t 161"
abbreviation e_bad_reserved_bits :: error_t where "e_bad_reserved_bits \<equiv> Error_t 162"
abbreviation e_bad_control_fragment :: error_t where "e_bad_control_fragment \<equiv> Error_t 163"
abbreviation e_bad_control_size :: error_t where "e_bad_control_size \<equiv> Error_t 164"
abbreviation e_bad_unmasked_frame :: error_t where "e_bad_unmasked_frame \<equiv> Error_t 165"
abbreviation e_bad_masked_frame :: error_t where "e_bad_masked_frame \<equiv> Error_t 166"
abbreviation e_bad_size :: error_t where "e_bad_size \<equiv> Error_t 167"
abbreviation e_bad_frame_payload :: error_t where "e_bad_frame_payload \<equiv> Error_t 168"
abbreviation e_bad_close_code :: error_t where "e_bad_close_code \<equiv> Error_t 169"
abbreviation e_bad_close_size :: error_t where "e_bad_close_size \<equiv> Error_t 170"
abbreviation e_bad_close_payload :: error_t where "e_bad_close_payload \<equiv> Error_t 171"
abbreviation e_syntax :: error_t where "e_syntax \<equiv> Error_t 172"
abbreviation e_extra_data :: error_t where "e_extra_data \<equiv> Error_t 173"
abbreviation e_incomplete :: error_t where "e_incomplete \<equiv> Error_t 174"
abbreviation e_too_deep :: error_t where "e_too_deep \<equiv> Error_t 175"
abbreviation e_invalid_escape :: error_t where "e_invalid_escape \<equiv> Error_t 176"
abbreviation e_expected_hex_digit :: error_t where "e_expected_hex_digit \<equiv> Error_t 177"
abbreviation e_expected_utf16_escape :: error_t where "e_expected_utf16_escape \<equiv> Error_t 178"
abbreviation e_illegal_leading_surrogate :: error_t where "e_illegal_leading_surrogate \<equiv> Error_t 179"
abbreviation e_illegal_trailing_surrogate :: error_t where "e_illegal_trailing_surrogate \<equiv> Error_t 180"
abbreviation e_invalid_utf8 :: error_t where "e_invalid_utf8 \<equiv> Error_t 181"
abbreviation e_exponent_overflow :: error_t where "e_exponent_overflow \<equiv> Error_t 182"
abbreviation e_number_too_large :: error_t where "e_number_too_large \<equiv> Error_t 183"
abbreviation e_string_too_large :: error_t where "e_string_too_large \<equiv> Error_t 184"
abbreviation e_key_too_large :: error_t where "e_key_too_large \<equiv> Error_t 185"
abbreviation e_array_too_large :: error_t where "e_array_too_large \<equiv> Error_t 186"
abbreviation e_object_too_large :: error_t where "e_object_too_large \<equiv> Error_t 187"
abbreviation e_not_null :: error_t where "e_not_null \<equiv> Error_t 188"
abbreviation e_not_bool :: error_t where "e_not_bool \<equiv> Error_t 189"
abbreviation e_not_number :: error_t where "e_not_number \<equiv> Error_t 190"
abbreviation e_not_int64 :: error_t where "e_not_int64 \<equiv> Error_t 191"
abbreviation e_not_uint64 :: error_t where "e_not_uint64 \<equiv> Error_t 192"
abbreviation e_not_double :: error_t where "e_not_double \<equiv> Error_t 193"
abbreviation e_not_string :: error_t where "e_not_string \<equiv> Error_t 194"
abbreviation e_not_array :: error_t where "e_not_array \<equiv> Error_t 195"
abbreviation e_not_object :: error_t where "e_not_object \<equiv> Error_t 196"
abbreviation e_not_exact :: error_t where "e_not_exact \<equiv> Error_t 197"
abbreviation e_out_of_range :: error_t where "e_out_of_range \<equiv> Error_t 198"
abbreviation e_size_mismatch :: error_t where "e_size_mismatch \<equiv> Error_t 199"
abbreviation e_exhausted_variants :: error_t where "e_exhausted_variants \<equiv> Error_t 200"
abbreviation e_json_unknown :: error_t where "e_json_unknown \<equiv> Error_t 201"
abbreviation e_undefined_type :: error_t where "e_undefined_type \<equiv> Error_t 202"
abbreviation e_unexpected_method :: error_t where "e_unexpected_method \<equiv> Error_t 203"
abbreviation e_unexpected_type :: error_t where "e_unexpected_type \<equiv> Error_t 204"
abbreviation e_extra_positional :: error_t where "e_extra_positional \<equiv> Error_t 205"
abbreviation e_extra_named :: error_t where "e_extra_named \<equiv> Error_t 206"
abbreviation e_missing_array :: error_t where "e_missing_array \<equiv> Error_t 207"
abbreviation e_missing_object :: error_t where "e_missing_object \<equiv> Error_t 208"
abbreviation e_missing_parameter :: error_t where "e_missing_parameter \<equiv> Error_t 209"
abbreviation e_jsonrpc_invalid_version :: error_t where "e_jsonrpc_invalid_version \<equiv> Error_t 210"
abbreviation e_jsonrpc_requires_method :: error_t where "e_jsonrpc_requires_method \<equiv> Error_t 211"
abbreviation e_jsonrpc_v1_requires_params :: error_t where "e_jsonrpc_v1_requires_params \<equiv> Error_t 212"
abbreviation e_jsonrpc_v1_requires_array_params :: error_t where "e_jsonrpc_v1_requires_array_params \<equiv> Error_t 213"
abbreviation e_jsonrpc_v1_requires_id :: error_t where "e_jsonrpc_v1_requires_id \<equiv> Error_t 214"
abbreviation e_jsonrpc_params_not_collection :: error_t where "e_jsonrpc_params_not_collection \<equiv> Error_t 215"
abbreviation e_jsonrpc_reader_stall :: error_t where "e_jsonrpc_reader_stall \<equiv> Error_t 216"
abbreviation e_jsonrpc_reader_exception :: error_t where "e_jsonrpc_reader_exception \<equiv> Error_t 217"
abbreviation e_jsonrpc_writer_exception :: error_t where "e_jsonrpc_writer_exception \<equiv> Error_t 218"
abbreviation e_jsonrpc_batch_empty :: error_t where "e_jsonrpc_batch_empty \<equiv> Error_t 219"
abbreviation e_jsonrpc_batch_malformed :: error_t where "e_jsonrpc_batch_malformed \<equiv> Error_t 220"
abbreviation e_jsonrpc_batch_requires_v2 :: error_t where "e_jsonrpc_batch_requires_v2 \<equiv> Error_t 221"
abbreviation e_jsonrpc_batch_unsupported :: error_t where "e_jsonrpc_batch_unsupported \<equiv> Error_t 222"
abbreviation e_zmtp_unexpected_command :: error_t where "e_zmtp_unexpected_command \<equiv> Error_t 223"
abbreviation e_zmtp_unexpected_message :: error_t where "e_zmtp_unexpected_message \<equiv> Error_t 224"
abbreviation e_zmtp_excessive_parts :: error_t where "e_zmtp_excessive_parts \<equiv> Error_t 225"
abbreviation e_zmtp_unserializable :: error_t where "e_zmtp_unserializable \<equiv> Error_t 226"
abbreviation e_would_block :: error_t where "e_would_block \<equiv> Error_t 227"

text \<open>The conversion of a code to \<open>bool\<close>.\<close>

definition failed :: "error_t \<Rightarrow> bool" where
  "failed ec \<longleftrightarrow> error_value ec \<noteq> 0"

lemma failed_iff [simp]: "failed ec \<longleftrightarrow> ec \<noteq> e_success"
  by (cases ec) (simp add: failed_def)

text \<open>
  The ternary \<open>socket->stopped() ? error::channel_stopped : ec\<close> that every completion
  handler of the library starts with.
\<close>

definition stopped_or :: "bool \<Rightarrow> error_t \<Rightarrow> error_t" where
  "stopped_or stopped ec = (if stopped then e_channel_stopped else ec)"

lemma stopped_or_success [simp]: "stopped_or s ec = e_success \<longleftrightarrow> \<not> s \<and> ec = e_success"
  by (simp add: stopped_or_def)

text \<open>
  The errors of the http codec, a category of its own. A code that is either clear or of this
  category is an option of the error.
\<close>

datatype http_error_t =
    http_end_of_stream | http_partial_message | http_need_more | http_unexpected_body | http_need_buffer
  | http_end_of_chunk | http_buffer_overflow | http_header_limit | http_body_limit | http_bad_alloc
  | http_bad_line_ending | http_bad_method | http_bad_target | http_bad_version | http_bad_status
  | http_bad_reason | http_bad_field | http_bad_value | http_bad_content_length | http_bad_transfer_encoding
  | http_bad_chunk | http_bad_chunk_extension | http_bad_obs_fold | http_multiple_content_length | http_stale_parser
  | http_short_read

type_synonym http_code = "http_error_t option"

fun http_to_error_code :: "http_code \<Rightarrow> error_t" where
  "http_to_error_code None = e_success"
| "http_to_error_code (Some http_end_of_stream) = e_end_of_stream"
| "http_to_error_code (Some http_partial_message) = e_partial_message"
| "http_to_error_code (Some http_need_more) = e_need_more"
| "http_to_error_code (Some http_unexpected_body) = e_unexpected_body"
| "http_to_error_code (Some http_need_buffer) = e_need_buffer"
| "http_to_error_code (Some http_end_of_chunk) = e_end_of_chunk"
| "http_to_error_code (Some http_buffer_overflow) = e_buffer_overflow"
| "http_to_error_code (Some http_header_limit) = e_header_limit"
| "http_to_error_code (Some http_body_limit) = e_body_limit"
| "http_to_error_code (Some http_bad_alloc) = e_bad_alloc"
| "http_to_error_code (Some http_bad_line_ending) = e_bad_line_ending"
| "http_to_error_code (Some http_bad_method) = e_bad_method"
| "http_to_error_code (Some http_bad_target) = e_bad_target"
| "http_to_error_code (Some http_bad_version) = e_bad_version"
| "http_to_error_code (Some http_bad_status) = e_bad_status"
| "http_to_error_code (Some http_bad_reason) = e_bad_reason"
| "http_to_error_code (Some http_bad_field) = e_bad_field"
| "http_to_error_code (Some http_bad_value) = e_bad_value"
| "http_to_error_code (Some http_bad_content_length) = e_bad_content_length"
| "http_to_error_code (Some http_bad_transfer_encoding) = e_bad_transfer_encoding"
| "http_to_error_code (Some http_bad_chunk) = e_bad_chunk"
| "http_to_error_code (Some http_bad_chunk_extension) = e_bad_chunk_extension"
| "http_to_error_code (Some http_bad_obs_fold) = e_bad_obs_fold"
| "http_to_error_code (Some http_multiple_content_length) = e_multiple_content_length"
| "http_to_error_code (Some http_stale_parser) = e_stale_parser"
| "http_to_error_code (Some http_short_read) = e_short_read"

lemma http_to_error_code_failed: "failed (http_to_error_code c) \<longleftrightarrow> c \<noteq> None"
  by (cases c rule: http_to_error_code.cases) (simp_all add: failed_def)

end
