(* ===== verification/Prelude.thy ===== *)
theory Prelude imports Main "HOL-Library.Word" "HOL-Library.Monad_Syntax" begin

text \<open>
  Shared vocabulary of the development: bytes and byte strings, big and little endian
  byte strings of machine words, the bounded arithmetic of \<open>size_t\<close> and \<open>uint64_t\<close>, and
  the generic lemmas on lists and words that the component theories rely on.
  The collection \<open>wire_simps\<close> gathers the length and decoding facts of byte strings,
  \<open>word_nat\<close> the facts that move an unsigned comparison or a guarded subtraction of
  machine words to natural numbers.
\<close>

unbundle bit_operations_syntax

named_theorems wire_simps
named_theorems word_nat

type_synonym byte = "8 word"
type_synonym bytes = "byte list"
type_synonym uint16 = "16 word"
type_synonym uint32 = "32 word"
type_synonym uint64 = "64 word"

section \<open>Machine words as natural numbers\<close>

lemma word_sub_nat [word_nat]:
  fixes a b :: "'a::len word"
  assumes "b \<le> a"
  shows "unat (a - b) = unat a - unat b"
  using assms by (simp add: unat_sub)

lemma word_of_nat_unat_le [word_nat]:
  fixes a :: "'a::len word"
  assumes "n \<le> unat a"
  shows "unat (of_nat n :: 'a word) = n"
  using assms by (metis le_unat_uoi)

lemma word_add_nat:
  fixes a :: "'a::len word"
  assumes "unat a + n < 2 ^ LENGTH('a)"
  shows "unat (a + of_nat n) = unat a + n"
  using assms by (simp add: unat_word_ariths unat_of_nat mod_add_right_eq)

lemma word_add_nat_le:
  fixes a b :: "'a::len word"
  assumes "unat a + n \<le> unat b"
  shows "unat (a + of_nat n) = unat a + n"
proof -
  have "unat b < 2 ^ LENGTH('a)" by (rule unsigned_less)
  with assms have "unat a + n < 2 ^ LENGTH('a)" by (rule le_less_trans)
  then show ?thesis by (rule word_add_nat)
qed

lemma word_max_sub_min [word_nat]:
  fixes m s :: "'a::len word"
  shows "unat (m - min m s) = unat m - unat s"
  by (cases "m \<le> s") (auto simp: min_def word_sub_nat word_le_nat_alt unat_sub)

lemma ucast_byte64 [simp]:
  fixes b :: byte
  shows "unat (ucast b :: uint64) = unat b" "ucast (ucast b :: uint64) = b"
proof -
  have "unat b < 2 ^ LENGTH(8)" by (rule unsigned_less)
  then have "unat b < 2 ^ 64" by simp
  then show "unat (ucast b :: uint64) = unat b"
    by (simp add: unsigned_ucast_eq take_bit_nat_eq_self)
  show "ucast (ucast b :: uint64) = b"
    by (rule bit_word_eqI) (simp add: bit_simps)
qed

text \<open>
  Sizes are natural numbers; a subtraction of sizes that the code does not guard wraps
  around at the width of \<open>size_t\<close>.
\<close>

definition size_t_sub :: "nat \<Rightarrow> nat \<Rightarrow> nat" where
  "size_t_sub a b = (a + 2 ^ 64 - b) mod 2 ^ 64"

lemma size_t_sub_le: "b \<le> a \<Longrightarrow> a < 2 ^ 64 \<Longrightarrow> size_t_sub a b = a - b"
  by (simp add: size_t_sub_def mod_if)

text \<open>The saturating addition of sizes.\<close>

definition ceilinged_add :: "nat \<Rightarrow> nat \<Rightarrow> nat" where
  "ceilinged_add a b = min (a + b) (2 ^ 64 - 1)"

section \<open>Big endian byte strings\<close>

text \<open>The loop \<open>value = (value << 8) | byte\<close> over a range of bytes.\<close>

fun be_accumulate :: "'a::len word \<Rightarrow> bytes \<Rightarrow> 'a word" where
  "be_accumulate value [] = value"
| "be_accumulate value (b # bs) = be_accumulate (push_bit 8 value OR ucast b) bs"

lemma be_accumulate_append:
  "be_accumulate v (xs @ ys) = be_accumulate (be_accumulate v xs) ys"
  by (induction v xs rule: be_accumulate.induct) simp_all

definition be_bytes16 :: "uint16 \<Rightarrow> bytes" where
  "be_bytes16 w = [ucast (drop_bit 8 w), ucast w]"

definition be_bytes64 :: "uint64 \<Rightarrow> bytes" where
  "be_bytes64 w = map (\<lambda>shift. ucast (drop_bit shift w)) [56, 48, 40, 32, 24, 16, 8, 0]"

lemma length_be_bytes [simp, wire_simps]:
  "length (be_bytes16 a) = 2" "length (be_bytes64 b) = 8"
  by (simp_all add: be_bytes16_def be_bytes64_def)

lemma be_accumulate16: "be_accumulate (0 :: uint16) (be_bytes16 w) = w"
  by (rule bit_word_eqI) (auto simp: be_bytes16_def bit_simps)

text \<open>One turn of the loop extends the bytes already read by the next lower byte.\<close>

lemma be_accumulate_step:
  fixes w :: uint64
  shows "push_bit 8 (drop_bit (n + 8) w) OR ucast (ucast (drop_bit n w) :: byte) = drop_bit n w"
  by (rule bit_word_eqI) (auto simp: bit_simps)

lemma be_accumulate_descending:
  fixes w :: uint64
  shows "be_accumulate (drop_bit (8 * k) w)
    (map (\<lambda>i. ucast (drop_bit (8 * i) w)) (rev [0..<k])) = w"
proof (induction k)
  case (Suc k)
  have "push_bit 8 (drop_bit (8 * Suc k) w) OR ucast (ucast (drop_bit (8 * k) w) :: byte) =
    drop_bit (8 * k) w"
    using be_accumulate_step [of "8 * k" w] by (simp add: add.commute)
  with Suc show ?case by simp
qed simp

lemma be_bytes64_descending:
  "be_bytes64 w = map (\<lambda>i. ucast (drop_bit (8 * i) w)) (rev [0..<8])"
  by (simp add: be_bytes64_def upt_rec)

lemma drop_bit_64: "drop_bit 64 (w :: uint64) = 0"
  by (rule bit_word_eqI) (simp add: bit_simps)

lemma be_accumulate64: "be_accumulate (0 :: uint64) (be_bytes64 w) = w"
proof -
  have "8 * 8 = (64 :: nat)" by simp
  with be_accumulate_descending [of 8 w] show ?thesis
    by (simp only: be_bytes64_descending drop_bit_64)
qed

text \<open>The converse: up to eight bytes are recovered from the accumulated value.\<close>

lemma accumulate_low_byte: "ucast (push_bit 8 v OR ucast b :: uint64) = (b :: byte)"
  by (rule bit_word_eqI) (auto simp: bit_simps)

lemma accumulate_high:
  fixes v :: uint64
  assumes "drop_bit 56 v = 0"
  shows "drop_bit 8 (push_bit 8 v OR ucast (b :: byte)) = v"
proof (rule bit_word_eqI)
  fix n assume "n < LENGTH(64)"
  have "bit (drop_bit 56 v) (n - 56) = bit v (56 + (n - 56))"
    by (simp only: bit_drop_bit_eq o_apply)
  then have "bit v n \<Longrightarrow> n < 56" using assms by (cases "56 \<le> n") auto
  then show "bit (drop_bit 8 (push_bit 8 v OR ucast b)) n = bit v n"
    by (auto simp: bit_simps dest: bit_imp_le_length)
qed

lemma drop_bit_Suc_byte: "drop_bit (8 * Suc i) (x :: uint64) = drop_bit (8 * i) (drop_bit 8 x)"
  by (simp add: add.commute)

lemma descending_accumulate:
  "length bs \<le> 8 \<Longrightarrow>
    map (\<lambda>i. ucast (drop_bit (8 * i) (be_accumulate 0 bs :: uint64))) (rev [0..<length bs]) = bs \<and>
    drop_bit (8 * length bs) (be_accumulate 0 bs :: uint64) = 0"
proof (induction bs rule: rev_induct)
  case (snoc b bs)
  let ?v = "be_accumulate 0 bs :: uint64"
  let ?w = "push_bit 8 ?v OR ucast b"
  have IH: "map (\<lambda>i. ucast (drop_bit (8 * i) ?v)) (rev [0..<length bs]) = bs"
    "drop_bit (8 * length bs) ?v = 0" using snoc by simp_all
  have "drop_bit 56 ?v = drop_bit (56 - 8 * length bs) (drop_bit (8 * length bs) ?v)"
    using snoc.prems by (simp add: drop_bit_drop_bit)
  then have "drop_bit 56 ?v = 0" using IH(2) by simp
  then have w: "drop_bit 8 ?w = ?v" by (rule accumulate_high)
  have shift: "drop_bit (8 * Suc i) ?w = drop_bit (8 * i) ?v" for i
    by (simp only: drop_bit_Suc_byte w)
  have "rev [0..<Suc (length bs)] = map Suc (rev [0..<length bs]) @ [0]"
    by (simp add: rev_map upt_conv_Cons map_Suc_upt flip: rev_map del: upt_Suc)
  then show ?case
    using IH shift by (simp add: be_accumulate_append accumulate_low_byte comp_def del: upt_Suc)
qed simp

lemma be_bytes64_accumulate: "length bs = 8 \<Longrightarrow> be_bytes64 (be_accumulate 0 bs) = bs"
  using descending_accumulate [of bs] by (simp add: be_bytes64_descending)

section \<open>Lists\<close>

lemma take_append_length [simp]: "n = length xs \<Longrightarrow> take n (xs @ ys) = xs"
  by simp

lemma drop_append_length [simp]: "n = length xs \<Longrightarrow> drop n (xs @ ys) = ys"
  by simp

end
