(* ===== verification/Utf8.thy ===== *)
theory Utf8 imports Prelude begin

text \<open>
  The incremental UTF-8 validator of websocket text messages and close reasons
  (\<open>utf8_validator\<close> in \<open>src/ws/frame.cpp\<close>), and its specification: the encodings of
  Unicode scalar values.
  \<open>utf8_write\<close> is the loop over the received bytes, with the three state bytes of the class,
  and \<open>utf8_finish\<close> the check at the end of a message.
  The main facts are that writing two pieces is writing their concatenation, and that the
  validator accepts exactly the concatenations of encoded scalar values.
\<close>

record utf8_validator =
  needed :: byte
  lower :: byte
  upper :: byte

definition utf8_init :: utf8_validator where
  "utf8_init = \<lparr>needed = 0, lower = 0x80, upper = 0xbf\<rparr>"

text \<open>The lead byte of a character: \<open>None\<close> is the \<open>return false\<close> of the loop.\<close>

definition utf8_lead :: "byte \<Rightarrow> utf8_validator option" where
  "utf8_lead b =
     (if b \<le> 0x7f then Some utf8_init
      else if 0xc2 \<le> b \<and> b \<le> 0xdf then Some (utf8_init\<lparr>needed := 1\<rparr>)
      else if 0xe0 \<le> b \<and> b \<le> 0xef then
        Some \<lparr>needed = 2, lower = (if b = 0xe0 then 0xa0 else 0x80),
          upper = (if b = 0xed then 0x9f else 0xbf)\<rparr>
      else if 0xf0 \<le> b \<and> b \<le> 0xf4 then
        Some \<lparr>needed = 3, lower = (if b = 0xf0 then 0x90 else 0x80),
          upper = (if b = 0xf4 then 0x8f else 0xbf)\<rparr>
      else None)"

fun utf8_write :: "utf8_validator \<Rightarrow> bytes \<Rightarrow> bool \<times> utf8_validator" where
  "utf8_write s [] = (True, s)"
| "utf8_write s (b # bs) =
     (if needed s = 0 then
        (case utf8_lead b of
           Some s' \<Rightarrow> utf8_write s' bs
         | None \<Rightarrow> (False, s\<lparr>lower := 0x80, upper := 0xbf\<rparr>))
      else if b < lower s \<or> upper s < b then (False, s)
      else utf8_write (s\<lparr>lower := 0x80, upper := 0xbf, needed := needed s - 1\<rparr>) bs)"

definition utf8_finish :: "utf8_validator \<Rightarrow> bool \<times> utf8_validator" where
  "utf8_finish s = (needed s = 0, s\<lparr>needed := 0\<rparr>)"

text \<open>The validation of one whole text, as a close reason is validated.\<close>

definition utf8_valid :: "bytes \<Rightarrow> bool" where
  "utf8_valid text =
     (let (ok, s) = utf8_write utf8_init text in ok \<and> fst (utf8_finish s))"

section \<open>Specification: encoded scalar values\<close>

definition is_scalar :: "nat \<Rightarrow> bool" where
  "is_scalar cp \<longleftrightarrow> cp < 0xd800 \<or> 0xe000 \<le> cp \<and> cp \<le> 0x10ffff"

definition tail_byte :: "nat \<Rightarrow> byte" where
  "tail_byte n = of_nat (0x80 + n mod 64)"

definition utf8_encode :: "nat \<Rightarrow> bytes" where
  "utf8_encode cp =
     (if cp < 0x80 then [of_nat cp]
      else if cp < 0x800 then [of_nat (0xc0 + cp div 64), tail_byte cp]
      else if cp < 0x10000 then [of_nat (0xe0 + cp div 4096), tail_byte (cp div 64), tail_byte cp]
      else [of_nat (0xf0 + cp div 262144), tail_byte (cp div 4096), tail_byte (cp div 64),
        tail_byte cp])"

section \<open>Incremental validation\<close>

lemma utf8_write_append:
  "utf8_write s (xs @ ys) =
     (case utf8_write s xs of (True, s') \<Rightarrow> utf8_write s' ys | r \<Rightarrow> r)"
  by (induction s xs rule: utf8_write.induct) (auto split: option.splits)

section \<open>Encoded characters by their six bit groups\<close>

text \<open>Comparisons of bytes are comparisons of their values.\<close>

lemmas byte_nat = word_le_nat_alt word_less_nat_alt word_unat_eq_iff

lemma unat_byte_of_nat: "n < 256 \<Longrightarrow> unat (of_nat n :: byte) = n"
  by (simp add: unat_of_nat)

lemma encode1: "a < 0x80 \<Longrightarrow> utf8_encode a = [of_nat a]"
  by (simp add: utf8_encode_def)

text \<open>
  A code point is read off its six bit groups by division by 64, written in Horner form so
  that each division peels one group.
\<close>

lemma div_4096: "n div 4096 = n div 64 div (64 :: nat)"
  by (simp flip: div_mult2_eq)

lemma div_262144: "n div 262144 = n div 64 div 64 div (64 :: nat)"
  by (simp flip: div_mult2_eq)

lemmas div_64 = div_4096 div_262144

lemma encode2:
  assumes "2 \<le> a" "a < 32" "b < 64"
  shows "utf8_encode (64 * a + b) = [of_nat (0xc0 + a), of_nat (0x80 + b)]"
  using assms by (simp add: utf8_encode_def tail_byte_def)

lemma encode3:
  assumes "32 \<le> 64 * a + b" "a < 16" "b < 64" "c < 64"
  shows "utf8_encode (64 * (64 * a + b) + c) =
    [of_nat (0xe0 + a), of_nat (0x80 + b), of_nat (0x80 + c)]"
proof -
  have "\<not> 64 * (64 * a + b) + c < 0x800" "64 * (64 * a + b) + c < 0x10000"
    using assms by simp_all
  with assms show ?thesis
    by (simp add: utf8_encode_def tail_byte_def div_64 del: distrib_left_numeral)
qed

lemma encode4:
  assumes "16 \<le> 64 * a + b" "b < 64" "c < 64" "d < 64"
  shows "utf8_encode (64 * (64 * (64 * a + b) + c) + d) =
    [of_nat (0xf0 + a), of_nat (0x80 + b), of_nat (0x80 + c), of_nat (0x80 + d)]"
proof -
  have "\<not> 64 * (64 * (64 * a + b) + c) + d < 0x10000" using assms by simp
  with assms show ?thesis
    by (simp add: utf8_encode_def tail_byte_def div_64 del: distrib_left_numeral)
qed

lemma six_bit_groups:
  obtains a b c d :: nat
  where "n = 64 * (64 * (64 * a + b) + c) + d" "b < 64" "c < 64" "d < 64"
proof
  show "n = 64 * (64 * (64 * (n div 64 div 64 div 64) + n div 64 div 64 mod 64) + n div 64 mod 64)
      + n mod 64"
    by (simp only: mult_div_mod_eq)
qed simp_all

section \<open>Soundness and completeness\<close>

text \<open>After a whole encoded character the validator is back in its initial state.\<close>

lemma utf8_write_encode:
  assumes "is_scalar cp"
  shows "utf8_write utf8_init (utf8_encode cp @ rest) = utf8_write utf8_init rest"
proof -
  obtain a b c d where cp: "cp = 64 * (64 * (64 * a + b) + c) + d" and bs: "b < 64" "c < 64" "d < 64"
    by (rule six_bit_groups)
  note simps = utf8_lead_def utf8_init_def byte_nat unat_byte_of_nat
  consider (one) "cp < 0x80" | (two) "0x80 \<le> cp" "cp < 0x800" | (three) "0x800 \<le> cp" "cp < 0x10000"
    | (four) "0x10000 \<le> cp" by linarith
  then show ?thesis
  proof cases
    case one
    then show ?thesis by (simp add: encode1 simps)
  next
    case two
    then have ab: "a = 0" "b = 0" using cp by simp_all
    with two cp bs have "2 \<le> c" "c < 32" by simp_all
    with ab cp bs show ?thesis by (simp add: encode2 simps del: of_nat_add)
  next
    case three
    then have "a = 0" using cp by simp
    moreover from this three have "b < 16" "32 \<le> 64 * b + c" using cp bs by simp_all
    moreover have "b = 13 \<Longrightarrow> c < 32" using assms cp bs \<open>a = 0\<close> by (auto simp: is_scalar_def)
    moreover have "utf8_encode cp = [of_nat (0xe0 + b), of_nat (0x80 + c), of_nat (0x80 + d)]"
      using calculation cp bs encode3 [of b c d] by simp
    ultimately show ?thesis using bs by (auto simp: simps simp del: of_nat_add)
  next
    case four
    then have "16 \<le> 64 * a + b" using cp bs by simp
    moreover have "a < 5" "a = 4 \<Longrightarrow> b < 16" using assms cp bs by (auto simp: is_scalar_def)
    moreover have "utf8_encode cp =
        [of_nat (0xf0 + a), of_nat (0x80 + b), of_nat (0x80 + c), of_nat (0x80 + d)]"
      using calculation cp bs encode4 [of a b c d] by simp
    ultimately show ?thesis using bs by (auto simp: simps simp del: of_nat_add)
  qed
qed

lemma utf8_write_encodes:
  assumes "list_all is_scalar cps"
  shows "utf8_write utf8_init (concat (map utf8_encode cps)) = (True, utf8_init)"
  using assms by (induction cps) (simp_all add: utf8_write_encode)

text \<open>
  Conversely a text that the validator accepts starts with an encoded scalar value and the
  validator accepts the rest.
\<close>

definition accepted :: "bool \<times> utf8_validator \<Rightarrow> bool" where
  "accepted r \<longleftrightarrow> fst r \<and> needed (snd r) = 0"

lemma byte_value: "\<exists>n < 256. b = (of_nat n :: byte)"
proof (intro exI conjI)
  show "unat b < 256" using unsigned_less [of b] by simp
qed simp

lemma accepted_tail:
  assumes "accepted (utf8_write \<lparr>needed = of_nat (Suc n), lower = l, upper = u\<rparr> bs)" "n < 3"
  obtains t rest where "bs = t # rest" "l \<le> t" "t \<le> u"
    "accepted (utf8_write \<lparr>needed = of_nat n, lower = 0x80, upper = 0xbf\<rparr> rest)"
proof -
  have "of_nat (Suc n) \<noteq> (0 :: byte)"
    using assms(2) by (simp add: word_unat_eq_iff unat_of_nat del: of_nat_Suc)
  with assms that show thesis
    by (cases bs) (auto simp: accepted_def not_less split: if_splits)
qed

lemma tail_group:
  assumes "(0x80 :: byte) \<le> t" "t \<le> 0xbf"
  obtains n where "n < 64" "t = of_nat (0x80 + n)" "unat t = 0x80 + n"
proof
  show "unat t - 0x80 < 64" "t = of_nat (0x80 + (unat t - 0x80))" "unat t = 0x80 + (unat t - 0x80)"
    using assms by (simp_all add: byte_nat)
qed

text \<open>One lemma per length of the encoding, then the induction over the text.\<close>

definition splits_char :: "bytes \<Rightarrow> bool" where
  "splits_char bs \<longleftrightarrow> (\<exists>cp rest. is_scalar cp \<and> bs = utf8_encode cp @ rest \<and>
     accepted (utf8_write utf8_init rest))"

lemma splits_one:
  assumes "b \<le> 0x7f" "accepted (utf8_write utf8_init (b # bs))"
  shows "splits_char (b # bs)"
proof -
  have "is_scalar (unat b)" "b # bs = utf8_encode (unat b) @ bs"
    using assms(1) by (simp_all add: is_scalar_def byte_nat encode1)
  moreover have "accepted (utf8_write utf8_init bs)"
    using assms by (simp add: utf8_lead_def utf8_init_def)
  ultimately show ?thesis unfolding splits_char_def by blast
qed

lemma splits_two:
  assumes b: "0xc2 \<le> b" "b \<le> 0xdf" and acc: "accepted (utf8_write utf8_init (b # bs))"
  shows "splits_char (b # bs)"
proof -
  have "\<not> b \<le> 0x7f" using b by (simp add: byte_nat)
  with b acc have "accepted (utf8_write \<lparr>needed = of_nat (Suc 0), lower = 0x80, upper = 0xbf\<rparr> bs)"
    by (simp add: utf8_lead_def utf8_init_def)
  then obtain t rest where t: "bs = t # rest" "0x80 \<le> t" "t \<le> 0xbf"
    and rest: "accepted (utf8_write \<lparr>needed = of_nat 0, lower = 0x80, upper = 0xbf\<rparr> rest)"
    by (rule accepted_tail) simp
  obtain c where c: "c < 64" "t = of_nat (0x80 + c)" using t(2,3) by (rule tail_group)
  define a where "a = unat b - 0xc0"
  have a: "2 \<le> a" "a < 32" "b = of_nat (0xc0 + a)" using b by (simp_all add: a_def byte_nat)
  have "is_scalar (64 * a + c)" using a c by (simp add: is_scalar_def)
  moreover have "b # bs = utf8_encode (64 * a + c) @ rest"
    using a c t(1) encode2 [of a c] by simp
  ultimately show ?thesis using rest by (auto simp: splits_char_def utf8_init_def)
qed

lemma splits_three:
  assumes b: "0xe0 \<le> b" "b \<le> 0xef" and acc: "accepted (utf8_write utf8_init (b # bs))"
  shows "splits_char (b # bs)"
proof -
  define l :: byte where "l = (if b = 0xe0 then 0xa0 else 0x80)"
  define u :: byte where "u = (if b = 0xed then 0x9f else 0xbf)"
  have "\<not> b \<le> 0x7f" "\<not> b \<le> 0xdf" using b by (simp_all add: byte_nat)
  with b acc have "accepted (utf8_write \<lparr>needed = of_nat (Suc 1), lower = l, upper = u\<rparr> bs)"
    by (simp add: utf8_lead_def utf8_init_def l_def u_def)
  then obtain s bs' where s: "bs = s # bs'" "l \<le> s" "s \<le> u"
    and acc': "accepted (utf8_write \<lparr>needed = of_nat (Suc 0), lower = 0x80, upper = 0xbf\<rparr> bs')"
    by (rule accepted_tail) simp_all
  obtain t rest where t: "bs' = t # rest" "0x80 \<le> t" "t \<le> 0xbf"
    and rest: "accepted (utf8_write \<lparr>needed = of_nat 0, lower = 0x80, upper = 0xbf\<rparr> rest)"
    using acc' by (rule accepted_tail) simp
  have "0x80 \<le> s" "s \<le> 0xbf"
    using s by (auto simp: l_def u_def byte_nat split: if_splits)
  then obtain c where c: "c < 64" "s = of_nat (0x80 + c)" "unat s = 0x80 + c" by (rule tail_group)
  obtain d where d: "d < 64" "t = of_nat (0x80 + d)" using t(2,3) by (rule tail_group)
  define a where "a = unat b - 0xe0"
  have a: "a < 16" "b = of_nat (0xe0 + a)" using b by (simp_all add: a_def byte_nat)
  have range: "32 \<le> 64 * a + c" "a = 13 \<Longrightarrow> c < 32"
    using s c b by (auto simp: a_def l_def u_def byte_nat split: if_splits)
  then have "is_scalar (64 * (64 * a + c) + d)" using a c d
    by (cases a "13 :: nat" rule: linorder_cases) (auto simp: is_scalar_def)
  moreover have "b # bs = utf8_encode (64 * (64 * a + c) + d) @ rest"
    using a c d range s(1) t(1) encode3 [of a c d] by simp
  ultimately show ?thesis using rest by (auto simp: splits_char_def utf8_init_def)
qed

lemma splits_four:
  assumes b: "0xf0 \<le> b" "b \<le> 0xf4" and acc: "accepted (utf8_write utf8_init (b # bs))"
  shows "splits_char (b # bs)"
proof -
  define l :: byte where "l = (if b = 0xf0 then 0x90 else 0x80)"
  define u :: byte where "u = (if b = 0xf4 then 0x8f else 0xbf)"
  have "\<not> b \<le> 0x7f" "\<not> b \<le> 0xdf" "\<not> b \<le> 0xef" using b by (simp_all add: byte_nat)
  with b acc have "accepted (utf8_write \<lparr>needed = of_nat (Suc 2), lower = l, upper = u\<rparr> bs)"
    by (simp add: utf8_lead_def utf8_init_def l_def u_def)
  then obtain r bs' where r: "bs = r # bs'" "l \<le> r" "r \<le> u"
    and acc': "accepted (utf8_write \<lparr>needed = of_nat (Suc 1), lower = 0x80, upper = 0xbf\<rparr> bs')"
    by (rule accepted_tail) (simp_all add: numeral_2_eq_2)
  obtain s bs'' where s: "bs' = s # bs''" "0x80 \<le> s" "s \<le> 0xbf"
    and acc'': "accepted (utf8_write \<lparr>needed = of_nat (Suc 0), lower = 0x80, upper = 0xbf\<rparr> bs'')"
    using acc' by (rule accepted_tail) simp_all
  obtain t rest where t: "bs'' = t # rest" "0x80 \<le> t" "t \<le> 0xbf"
    and rest: "accepted (utf8_write \<lparr>needed = of_nat 0, lower = 0x80, upper = 0xbf\<rparr> rest)"
    using acc'' by (rule accepted_tail) simp
  have "0x80 \<le> r" "r \<le> 0xbf"
    using r by (auto simp: l_def u_def byte_nat split: if_splits)
  then obtain x where x: "x < 64" "r = of_nat (0x80 + x)" "unat r = 0x80 + x" by (rule tail_group)
  obtain c where c: "c < 64" "s = of_nat (0x80 + c)" using s(2,3) by (rule tail_group)
  obtain d where d: "d < 64" "t = of_nat (0x80 + d)" using t(2,3) by (rule tail_group)
  define a where "a = unat b - 0xf0"
  have a: "a < 5" "b = of_nat (0xf0 + a)" using b by (simp_all add: a_def byte_nat)
  have range: "16 \<le> 64 * a + x" "a = 4 \<Longrightarrow> x < 16"
    using r x b by (auto simp: a_def l_def u_def byte_nat split: if_splits)
  then have "is_scalar (64 * (64 * (64 * a + x) + c) + d)"
    using a x c d by (cases a "4 :: nat" rule: linorder_cases) (auto simp: is_scalar_def)
  moreover have "b # bs = utf8_encode (64 * (64 * (64 * a + x) + c) + d) @ rest"
    using x c d a range r(1) s(1) t(1) encode4 [of a x c d] by simp
  ultimately show ?thesis using rest by (auto simp: splits_char_def utf8_init_def)
qed

lemma accepted_splits:
  assumes "accepted (utf8_write utf8_init (b # bs))"
  shows "splits_char (b # bs)"
proof -
  have "utf8_lead b \<noteq> None" using assms by (auto simp: accepted_def utf8_init_def split: option.splits)
  then consider "b \<le> 0x7f" | "0xc2 \<le> b" "b \<le> 0xdf" | "0xe0 \<le> b" "b \<le> 0xef" | "0xf0 \<le> b" "b \<le> 0xf4"
    by (auto simp: utf8_lead_def split: if_splits)
  then show ?thesis
    using assms by cases (blast intro: splits_one splits_two splits_three splits_four)+
qed

lemma accepted_encoded:
  "accepted (utf8_write utf8_init bs) \<Longrightarrow>
     \<exists>cps. list_all is_scalar cps \<and> bs = concat (map utf8_encode cps)"
proof (induction "length bs" arbitrary: bs rule: less_induct)
  case less
  show ?case
  proof (cases bs)
    case Nil
    then show ?thesis by (intro exI [of _ "[]"]) simp
  next
    case (Cons b bs')
    with less.prems have "splits_char bs" by (simp only: accepted_splits)
    then obtain cp rest where cp: "is_scalar cp" "bs = utf8_encode cp @ rest"
      and rest: "accepted (utf8_write utf8_init rest)"
      unfolding splits_char_def by blast
    have "utf8_encode cp \<noteq> []" by (simp add: utf8_encode_def)
    with cp have "length rest < length bs" by simp
    with rest obtain cps where "list_all is_scalar cps" "rest = concat (map utf8_encode cps)"
      using less.hyps by blast
    with cp show ?thesis by (intro exI [of _ "cp # cps"]) simp
  qed
qed

lemma utf8_valid_accepted: "utf8_valid text \<longleftrightarrow> accepted (utf8_write utf8_init text)"
  by (auto simp: utf8_valid_def utf8_finish_def accepted_def split: prod.splits)

text \<open>
  C9. A text passes the websocket UTF-8 validation (\<open>utf8_validator::write\<close> followed by
  \<open>finish\<close>) exactly when it is a concatenation of UTF-8 encodings of Unicode scalar values:
  overlong forms, surrogates, values above U+10FFFF and truncated characters are all refused.
\<close>

theorem utf8_valid_iff_encoded:
  "utf8_valid text \<longleftrightarrow> (\<exists>cps. list_all is_scalar cps \<and> text = concat (map utf8_encode cps))"
  using accepted_encoded utf8_write_encodes
  by (fastforce simp: utf8_valid_accepted accepted_def utf8_init_def)

end
