(* ===== verification/Ws_Frame.thy ===== *)
theory Ws_Frame imports Prelude Error_Code Utf8 begin

text \<open>
  Websocket frames (\<open>src/ws/frame.cpp\<close>, \<open>include/bitcoin/network/ws/frame.hpp\<close>): the
  frame header parser and serializer, payload masking, and close payloads.
  \<open>parse_header\<close> follows the guards of the source in order; its result is the consumed
  size, the (partly) assigned header and the code, as the reference parameters of the source.
  The lemmas show that parsing inverts serialization, that an accepted header is the canonical
  (shortest) encoding of what was parsed, and that masking is an involution which can be
  applied piecewise.
\<close>

datatype opcode = op_continuation | op_text | op_binary | op_close | op_ping | op_pong

fun opcode_value :: "opcode \<Rightarrow> byte" where
  "opcode_value op_continuation = 0x0"
| "opcode_value op_text = 0x1"
| "opcode_value op_binary = 0x2"
| "opcode_value op_close = 0x8"
| "opcode_value op_ping = 0x9"
| "opcode_value op_pong = 0xa"

datatype close_code = close_normal | close_going_away | close_protocol_error | close_unknown_data
  | close_bad_payload | close_policy_error | close_too_big | close_needs_extension
  | close_internal_error

fun close_value :: "close_code \<Rightarrow> uint16" where
  "close_value close_normal = 1000"
| "close_value close_going_away = 1001"
| "close_value close_protocol_error = 1002"
| "close_value close_unknown_data = 1003"
| "close_value close_bad_payload = 1007"
| "close_value close_policy_error = 1008"
| "close_value close_too_big = 1009"
| "close_value close_needs_extension = 1010"
| "close_value close_internal_error = 1011"

text \<open>The masking key is an array of four bytes, zero initialized.\<close>

type_synonym mask = bytes

record frame_header =
  fh_fin :: bool
  fh_code :: opcode
  fh_masked :: bool
  fh_length :: uint64
  fh_key :: mask

definition frame_header_init :: frame_header where
  "frame_header_init = \<lparr>fh_fin = False, fh_code = op_continuation, fh_masked = False,
     fh_length = 0, fh_key = [0, 0, 0, 0]\<rparr>"

definition maximum_header :: nat where "maximum_header = 14"
definition maximum_control :: nat where "maximum_control = 125"

definition fin_bit :: byte where "fin_bit = 0x80"
definition reserved_bits :: byte where "reserved_bits = 0x70"
definition opcode_bits :: byte where "opcode_bits = 0x0f"
definition mask_bit :: byte where "mask_bit = 0x80"
definition length_bits :: byte where "length_bits = 0x7f"
definition length16 :: byte where "length16 = 126"
definition length64 :: byte where "length64 = 127"

lemmas frame_consts = fin_bit_def reserved_bits_def opcode_bits_def mask_bit_def length_bits_def
  length16_def length64_def maximum_control_def maximum_header_def

definition is_control :: "opcode \<Rightarrow> bool" where
  "is_control c \<longleftrightarrow> opcode_value op_close \<le> opcode_value c"

lemma is_control_simps [simp]:
  "\<not> is_control op_continuation" "\<not> is_control op_text" "\<not> is_control op_binary"
  "is_control op_close" "is_control op_ping" "is_control op_pong"
  by (simp_all add: is_control_def word_le_nat_alt)

text \<open>The cast of a value to \<open>opcode\<close>, \<open>None\<close> where \<open>is_defined\<close> is false.\<close>

definition to_opcode :: "byte \<Rightarrow> opcode option" where
  "to_opcode v =
     (if v = 0x0 then Some op_continuation
      else if v = 0x1 then Some op_text
      else if v = 0x2 then Some op_binary
      else if v = 0x8 then Some op_close
      else if v = 0x9 then Some op_ping
      else if v = 0xa then Some op_pong
      else None)"

definition is_defined :: "byte \<Rightarrow> bool" where
  "is_defined v \<longleftrightarrow> to_opcode v \<noteq> None"

text \<open>
  The two part of the parser: the checks on the first two bytes, and the extended length
  and key that follow them.
\<close>

definition parse_extended ::
    "frame_header \<Rightarrow> bytes \<Rightarrow> byte \<Rightarrow> nat \<times> frame_header \<times> error_t" where
  "parse_extended out data len =
     (let extended = (if len = length16 then 2 else if len = length64 then 8 else 0);
          size = 2 + extended + (if fh_masked out then 4 else 0)
      in if length data < size then (0, out, e_need_more)
      else let out = out\<lparr>fh_length :=
             (if extended = 0 then ucast len
              else be_accumulate 0 (take extended (drop 2 data)))\<rparr>
      in if extended \<noteq> 0 \<and>
           (len = length16 \<and> fh_length out < ucast length16 \<or>
            len = length64 \<and> (fh_length out \<le> 0xffff \<or> drop_bit 63 (fh_length out) \<noteq> 0))
         then (0, out, e_bad_size)
      else let out = (if fh_masked out then out\<lparr>fh_key := take 4 (drop (2 + extended) data)\<rparr> else out)
      in (size, out, e_success))"

definition parse_header :: "frame_header \<Rightarrow> bytes \<Rightarrow> bool \<Rightarrow> nat \<times> frame_header \<times> error_t" where
  "parse_header out data server =
     (if length data < 2 then (0, out, e_need_more)
      else let first = data ! 0; second = data ! 1
      in if first AND reserved_bits \<noteq> 0 then (0, out, e_bad_reserved_bits)
      else case to_opcode (first AND opcode_bits) of
        None \<Rightarrow> (0, out, e_bad_opcode)
      | Some c \<Rightarrow>
        (let out = out\<lparr>fh_fin := first AND fin_bit \<noteq> 0, fh_code := c,
               fh_masked := second AND mask_bit \<noteq> 0\<rparr>;
             len = second AND length_bits
         in if is_control c \<and> \<not> fh_fin out then (0, out, e_bad_control_fragment)
         else if is_control c \<and> maximum_control < unat len then (0, out, e_bad_control_size)
         else if server \<and> \<not> fh_masked out then (0, out, e_bad_unmasked_frame)
         else if \<not> server \<and> fh_masked out then (0, out, e_bad_masked_frame)
         else parse_extended out data len))"

definition serialize_header :: "opcode \<Rightarrow> bool \<Rightarrow> uint64 \<Rightarrow> mask option \<Rightarrow> bytes" where
  "serialize_header c fin len key =
     (let masked = (if key \<noteq> None then mask_bit else 0x00)
      in [(if fin then fin_bit else 0x00) OR opcode_value c] @
         (if len < ucast length16 then [masked OR ucast len]
          else if len \<le> 0xffff then
            [masked OR length16, ucast (drop_bit 8 len), ucast len]
          else (masked OR length64) # be_bytes64 len) @
         (case key of Some k \<Rightarrow> k | None \<Rightarrow> []))"

text \<open>The loop of \<open>apply_mask\<close> from the key position \<open>start\<close>.\<close>

fun mask_from :: "nat \<Rightarrow> mask \<Rightarrow> bytes \<Rightarrow> bytes" where
  "mask_from start key [] = []"
| "mask_from start key (b # bs) = (b XOR key ! (start mod 4)) # mask_from (Suc start) key bs"

definition apply_mask :: "bytes \<Rightarrow> mask \<Rightarrow> uint64 \<Rightarrow> bytes" where
  "apply_mask data key offset = mask_from (unat offset mod 4) key data"

definition is_valid_close_code :: "uint16 \<Rightarrow> bool" where
  "is_valid_close_code v =
     (if v \<in> {1000, 1001, 1002, 1003, 1007, 1008, 1009, 1010, 1011, 1012, 1013} then True
      else if v \<in> {1004, 1005, 1006, 1014, 1015} then False
      else 999 < v \<and> (v < 1016 \<or> 2999 < v))"

text \<open>The result, the close code, the reason and the code.\<close>

definition parse_close :: "bytes \<Rightarrow> bool \<times> uint16 \<times> bytes \<times> error_t" where
  "parse_close payload =
     (if payload = [] then (True, 0, [], e_success)
      else if length payload = 1 then (False, 0, [], e_bad_close_size)
      else let v = push_bit 8 (ucast (payload ! 0)) OR ucast (payload ! 1)
      in if \<not> is_valid_close_code v then (False, v, [], e_bad_close_code)
      else let text = drop 2 payload
      in if \<not> utf8_valid text then (False, v, [], e_bad_close_payload)
      else (True, v, text, e_success))"

definition close_payload :: "close_code \<Rightarrow> bytes" where
  "close_payload c = [ucast (drop_bit 8 (close_value c)), ucast (close_value c)]"

section \<open>Masking\<close>

lemma length_mask_from [simp]: "length (mask_from n key bs) = length bs"
  by (induction n key bs rule: mask_from.induct) simp_all

lemma length_apply_mask [simp]: "length (apply_mask bs key off) = length bs"
  by (simp add: apply_mask_def)

lemma apply_mask_Nil [simp]: "apply_mask [] key off = []"
  by (simp add: apply_mask_def)

lemma parse_close_Nil [simp]: "parse_close [] = (True, 0, [], e_success)"
  by (simp add: parse_close_def)

lemma mask_from_mod: "n mod 4 = m mod 4 \<Longrightarrow> mask_from n key bs = mask_from m key bs"
proof (induction bs arbitrary: n m)
  case (Cons b bs)
  from Cons.prems have "Suc n mod 4 = Suc m mod 4" by (metis mod_Suc_eq)
  from Cons.IH [OF this] Cons.prems show ?case by simp
qed simp

lemma mask_from_involution [simp]: "mask_from n key (mask_from n key bs) = bs"
  by (induction n key bs rule: mask_from.induct) (simp_all add: xor.assoc)

lemma mask_from_append:
  "mask_from n key (xs @ ys) = mask_from n key xs @ mask_from (n + length xs) key ys"
  by (induction n key xs rule: mask_from.induct) simp_all

lemma unat_add_mod4: "unat (off + of_nat n :: uint64) mod 4 = (unat off + n) mod 4"
proof -
  have "unat (off + of_nat n :: uint64) = (unat off + n) mod 2 ^ 64"
    by (simp add: unat_word_ariths unat_of_nat mod_add_right_eq)
  moreover have "(4 :: nat) dvd 2 ^ 64" by simp
  ultimately show ?thesis by (simp add: mod_mod_cancel)
qed

lemma apply_mask_involution [simp]: "apply_mask (apply_mask data key off) key off = data"
  by (simp add: apply_mask_def)

lemma apply_mask_append:
  "apply_mask (xs @ ys) key off =
     apply_mask xs key off @ apply_mask ys key (off + of_nat (length xs))"
proof -
  have "mask_from (unat off mod 4 + length xs) key ys =
    mask_from (unat (off + of_nat (length xs)) mod 4) key ys"
    by (rule mask_from_mod) (simp add: unat_add_mod4 mod_add_left_eq)
  then show ?thesis by (simp add: apply_mask_def mask_from_append)
qed

text \<open>
  Masking is an involution, and masking a payload is masking its pieces at their
  offsets, for any offset: a payload that arrives in pieces unmasks to the same bytes.
\<close>

theorem apply_mask_piecewise:
  "apply_mask (apply_mask data key off) key off = data \<and>
   apply_mask (xs @ ys) key off =
     apply_mask xs key off @ apply_mask ys key (off + of_nat (length xs))"
  by (simp add: apply_mask_append)

section \<open>Header round trip\<close>

text \<open>The fields of the two fixed bytes.\<close>

lemma byte_low7:
  assumes "(x :: byte) < 0x80"
  shows "(0x80 OR x) AND 0x7f = x" "x AND 0x7f = x" "(0x80 OR x) AND 0x80 = 0x80" "x AND 0x80 = 0"
proof -
  have x: "take_bit 7 x = x"
    using assms by (simp add: byte_nat take_bit_eq_mod unat_mod_distrib)
  have seven: "(0x7f :: byte) = mask 7" by (simp add: mask_eq_exp_minus_1)
  have low: "y AND 0x7f = take_bit 7 y" for y :: byte
    by (simp only: seven take_bit_eq_mask)
  have "x AND 0x80 = (x AND 0x7f) AND 0x80" by (simp only: low x)
  also have "\<dots> = x AND (0x7f AND 0x80)" by (simp only: and.assoc)
  also have "\<dots> = 0" by simp
  finally have high: "x AND 0x80 = 0" .
  show "x AND 0x7f = x" "x AND 0x80 = 0" using x high by (simp_all add: low)
  show "(0x80 OR x) AND 0x7f = x" by (simp add: low take_bit_or x)
  show "(0x80 OR x) AND 0x80 = 0x80" using high by (simp add: bit.conj_disj_distrib2)
qed

lemma first_byte [simp]:
  "((if fin then fin_bit else 0) OR opcode_value c) AND reserved_bits = 0"
  "to_opcode (((if fin then fin_bit else 0) OR opcode_value c) AND opcode_bits) = Some c"
  "((if fin then fin_bit else 0) OR opcode_value c) AND fin_bit \<noteq> 0 \<longleftrightarrow> fin"
  by (cases c; cases fin; simp add: frame_consts to_opcode_def)+

text \<open>The header that a parse of a serialized header yields.\<close>

definition parsed_header :: "frame_header \<Rightarrow> opcode \<Rightarrow> bool \<Rightarrow> uint64 \<Rightarrow> mask option \<Rightarrow> frame_header" where
  "parsed_header out c fin len key = \<lparr>fh_fin = fin, fh_code = c, fh_masked = (key \<noteq> None),
     fh_length = len, fh_key = (case key of Some k \<Rightarrow> k | None \<Rightarrow> fh_key out)\<rparr>"

lemma parsed_header_update [simp]:
  "parsed_header (out\<lparr>fh_fin := f, fh_code := d, fh_masked := m\<rparr>) c fin len key =
    parsed_header out c fin len key"
  by (simp add: parsed_header_def split: option.splits)

definition header_ok :: "opcode \<Rightarrow> bool \<Rightarrow> uint64 \<Rightarrow> mask option \<Rightarrow> bool" where
  "header_ok c fin len key \<longleftrightarrow> (is_control c \<longrightarrow> fin \<and> unat len \<le> maximum_control) \<and>
     unat len < 2 ^ 63 \<and> (case key of Some k \<Rightarrow> length k = 4 | None \<Rightarrow> True)"

lemma parse_fixed:
  assumes "second AND mask_bit \<noteq> 0 \<longleftrightarrow> masked" "second AND length_bits = len"
    "is_control c \<Longrightarrow> fin \<and> unat len \<le> maximum_control" "server \<longleftrightarrow> masked"
  shows "parse_header out (((if fin then fin_bit else 0) OR opcode_value c) # second # rest) server =
    parse_extended (out\<lparr>fh_fin := fin, fh_code := c, fh_masked := masked\<rparr>)
      (((if fin then fin_bit else 0) OR opcode_value c) # second # rest) len"
  using assms by (auto simp: parse_header_def Let_def simp del: first_byte(3) simp: first_byte(3))

lemma ucast_byte_small:
  assumes "unat (w :: uint64) < 256"
  shows "ucast (ucast w :: byte) = w" "unat (ucast w :: byte) = unat w"
proof -
  show u: "unat (ucast w :: byte) = unat w" using assms by (simp add: unsigned_ucast_eq take_bit_eq_mod)
  then show "ucast (ucast w :: byte) = w" by (simp add: word_unat_eq_iff unsigned_ucast_eq take_bit_eq_mod unat_mod_distrib)
qed

lemma accumulate_length16:
  assumes "(w :: uint64) \<le> 0xffff"
  shows "be_accumulate 0 [ucast (drop_bit 8 w), ucast w] = w"
proof -
  have "unat (drop_bit 8 w) < 256"
    using assms by (simp add: drop_bit_eq_div unat_div_distrib word_le_nat_alt)
  then have "ucast (ucast (drop_bit 8 w) :: byte) = drop_bit 8 w" by (rule ucast_byte_small)
  then show ?thesis using be_accumulate_step [of 0 w] by simp
qed

lemma drop_bit_63: "unat (w :: uint64) < 2 ^ 63 \<Longrightarrow> drop_bit 63 w = 0"
  by (simp add: word_unat_eq_iff drop_bit_eq_div unat_div_distrib)

definition key_bytes :: "mask option \<Rightarrow> bytes" where
  "key_bytes key = (case key of Some k \<Rightarrow> k | None \<Rightarrow> [])"

lemma parse_extended_short:
  assumes "unat len < 126" "case key of Some k \<Rightarrow> length k = 4 | None \<Rightarrow> True"
    "fh_masked out \<longleftrightarrow> key \<noteq> None" "length fixed = 2"
  shows "parse_extended out (fixed @ key_bytes key @ payload) (ucast len) =
    (2 + length (key_bytes key), parsed_header out (fh_code out) (fh_fin out) len key, e_success)"
proof -
  have "ucast len \<noteq> (126 :: byte)" "ucast len \<noteq> (127 :: byte)" "ucast (ucast len :: byte) = len"
    using assms(1) by (simp_all add: word_unat_eq_iff ucast_byte_small)
  with assms show ?thesis
    by (cases key) (auto simp: parse_extended_def Let_def frame_consts parsed_header_def key_bytes_def)
qed

lemma parse_extended_long:
  assumes ext: "len16 = length16 \<and> length ext = 2 \<and> 126 \<le> len \<or>
      len16 = length64 \<and> length ext = 8 \<and> 0xffff < len \<and> unat len < 2 ^ 63"
    and acc: "be_accumulate 0 ext = len"
    and "case key of Some k \<Rightarrow> length k = 4 | None \<Rightarrow> True"
    and "fh_masked out \<longleftrightarrow> key \<noteq> None" "length fixed = 2"
  shows "parse_extended out (fixed @ ext @ key_bytes key @ payload) len16 =
    (2 + length ext + length (key_bytes key),
     parsed_header out (fh_code out) (fh_fin out) len key, e_success)"
  using assms drop_bit_63 [of len]
  by (cases key) (auto simp: parse_extended_def Let_def frame_consts parsed_header_def key_bytes_def
      not_less not_le)

text \<open>Parsing a serialized header, by the three encodings of the length.\<close>

lemma second_byte:
  assumes "(x :: byte) < 0x80"
  shows "((if m then mask_bit else 0) OR x) AND mask_bit \<noteq> 0 \<longleftrightarrow> m"
    "((if m then mask_bit else 0) OR x) AND length_bits = x"
  using byte_low7 [OF assms] by (auto simp: frame_consts)

lemma parse_serialized:
  assumes ok: "header_ok c fin len key" and server: "server \<longleftrightarrow> key \<noteq> None"
  shows "parse_header out (serialize_header c fin len key @ payload) server =
    (length (serialize_header c fin len key), parsed_header out c fin len key, e_success)"
proof -
  let ?first = "(if fin then fin_bit else 0) OR opcode_value c"
  let ?m = "if key \<noteq> None then mask_bit else 0"
  let ?out = "out\<lparr>fh_fin := fin, fh_code := c, fh_masked := key \<noteq> None\<rparr>"
  have keyok: "case key of Some k \<Rightarrow> length k = 4 | None \<Rightarrow> True" using ok by (simp add: header_ok_def)
  consider (short) "unat len < 126" | (mid) "126 \<le> len" "len \<le> 0xffff" | (long) "0xffff < len"
    by (force simp: word_le_nat_alt word_less_nat_alt)
  then show ?thesis
  proof cases
    case short
    then have x: "(ucast len :: byte) < 0x80" by (simp add: byte_nat ucast_byte_small)
    have ser: "serialize_header c fin len key = [?first, ?m OR ucast len] @ key_bytes key"
      using short by (simp add: serialize_header_def key_bytes_def word_less_nat_alt frame_consts)
    have ctl: "is_control c \<Longrightarrow> fin \<and> unat (ucast len :: byte) \<le> maximum_control"
      using ok short by (simp add: header_ok_def ucast_byte_small)
    show ?thesis
      using parse_fixed [OF second_byte [OF x, of "key \<noteq> None"] ctl server]
        parse_extended_short [OF short keyok, of ?out "[?first, ?m OR ucast len]"]
      by (simp add: ser split del: if_split)
  next
    case mid
    then have nc: "\<not> is_control c" using ok
      by (auto simp: header_ok_def word_le_nat_alt frame_consts)
    let ?ext = "[ucast (drop_bit 8 len), ucast len]"
    have ser: "serialize_header c fin len key = [?first, ?m OR length16] @ ?ext @ key_bytes key"
      using mid by (auto simp: serialize_header_def key_bytes_def frame_consts dest: leD)
    have x: "length16 < 0x80" by (simp add: frame_consts)
    have ctl: "is_control c \<Longrightarrow> fin \<and> unat length16 \<le> maximum_control" using nc by simp
    show ?thesis
      using parse_fixed [OF second_byte [OF x, of "key \<noteq> None"] ctl server] mid
        parse_extended_long [of length16 ?ext len key ?out "[?first, ?m OR length16]", OF _
          accumulate_length16 [OF mid(2)] keyok]
      by (simp add: ser split del: if_split)
  next
    case long
    then have nc: "\<not> is_control c" and big: "unat len < 2 ^ 63" using ok
      by (auto simp: header_ok_def word_less_nat_alt frame_consts)
    have ser: "serialize_header c fin len key = [?first, ?m OR length64] @ be_bytes64 len @ key_bytes key"
      using long by (auto simp: serialize_header_def key_bytes_def frame_consts word_less_nat_alt
          word_le_nat_alt)
    have x: "length64 < 0x80" by (simp add: frame_consts)
    have ctl: "is_control c \<Longrightarrow> fin \<and> unat length64 \<le> maximum_control" using nc by simp
    show ?thesis
      using parse_fixed [OF second_byte [OF x, of "key \<noteq> None"] ctl server] long big
        parse_extended_long [of length64 "be_bytes64 len" len key ?out "[?first, ?m OR length64]", OF _
          be_accumulate64 keyok]
      by (simp add: ser split del: if_split)
  qed
qed

text \<open>
  C8. A serialized frame header followed by any payload parses, at the receiving role, to the
  header that was serialized, consuming exactly the header: for every opcode, fragment bit,
  payload length below \<open>2 ^ 63\<close> (at most 125 for an unfragmented control frame) and masking key.
\<close>

theorem parse_serialize_header:
  assumes "header_ok c fin len key" and "server \<longleftrightarrow> key \<noteq> None"
  shows "parse_header out (serialize_header c fin len key @ payload) server =
    (length (serialize_header c fin len key), parsed_header out c fin len key, e_success)"
  using assms by (rule parse_serialized)

theorem parse_serialize_header_witness:
  "header_ok op_binary True 70000 (Some [1, 2, 3, 4]) \<and>
   parse_header frame_header_init (serialize_header op_binary True 70000 (Some [1, 2, 3, 4]) @ [9]) True =
     (14, parsed_header frame_header_init op_binary True 70000 (Some [1, 2, 3, 4]), e_success)"
proof -
  have ok: "header_ok op_binary True 70000 (Some [1, 2, 3, 4])"
    by (simp add: header_ok_def is_control_def)
  have "length (serialize_header op_binary True 70000 (Some [1, 2, 3, 4])) = 14"
    by (simp add: serialize_header_def frame_consts)
  with ok parse_serialize_header [OF ok, of True frame_header_init "[9]"] show ?thesis by simp
qed

section \<open>What an accepted header guarantees\<close>


lemma to_opcode_value: "to_opcode v = Some c \<Longrightarrow> opcode_value c = v"
  by (auto simp: to_opcode_def split: if_splits)

lemma byte_and_0x80: "(b :: byte) AND 0x80 = (if b AND 0x80 \<noteq> 0 then 0x80 else 0)"
proof -
  have e: "(0x80 :: byte) = 2 ^ 7" by simp
  have "b AND 0x80 = (if bit b 7 then 0x80 else 0)"
    unfolding e by (rule bit_word_eqI) (auto simp only: bit_simps bit_0_eq bot_apply bot_bool_def split: if_splits)
  then show ?thesis by (cases "bit b 7") simp_all
qed

lemma byte_fields:
  "(b :: byte) = (b AND 0x80) OR (b AND 0x7f)"
  "(b :: byte) = (b AND 0x80) OR (b AND 0x70) OR (b AND 0x0f)"
proof -
  have "(0xff :: byte) = - 1" by simp
  then have ff: "b AND 0xff = b" by (simp only: and.right_neutral)
  have "b AND 0xff = b AND (0x80 OR 0x7f)" "b AND 0xff = b AND (0x80 OR 0x70 OR 0x0f)" by simp_all
  then show "b = (b AND 0x80) OR (b AND 0x7f)" "b = (b AND 0x80) OR (b AND 0x70) OR (b AND 0x0f)"
    by (simp_all only: ff bit.conj_disj_distrib)
qed

lemma byte_first:
  assumes "(f :: byte) AND 0x70 = 0"
  shows "(if f AND 0x80 \<noteq> 0 then 0x80 else 0) OR (f AND 0x0f) = f"
proof -
  have "(f AND 0x80) OR (f AND 0x0f) = (f AND 0x80) OR (f AND 0x70) OR (f AND 0x0f)"
    using assms by simp
  also have "\<dots> = f" by (rule byte_fields(2) [symmetric])
  finally show ?thesis by (simp only: byte_and_0x80 [symmetric])
qed

lemma byte_second: "(if s AND 0x80 \<noteq> 0 then 0x80 else 0) OR ((s :: byte) AND 0x7f) = s"
  by (simp only: byte_and_0x80 [symmetric] byte_fields(1) [symmetric])

definition key_of :: "frame_header \<Rightarrow> mask option" where
  "key_of h = (if fh_masked h then Some (fh_key h) else None)"

lemma key_of_Some [simp]: "(\<exists>k. key_of h = Some k) \<longleftrightarrow> fh_masked h"
  by (simp add: key_of_def)

text \<open>The bytes after the two fixed ones.\<close>

definition length_bytes :: "uint64 \<Rightarrow> bytes" where
  "length_bytes len =
     (if len < 126 then [] else if len \<le> 0xffff then [ucast (drop_bit 8 len), ucast len]
      else be_bytes64 len)"

definition length_field :: "uint64 \<Rightarrow> byte" where
  "length_field len =
     (if len < 126 then ucast len else if len \<le> 0xffff then length16 else length64)"

lemma serialize_header_parts:
  "serialize_header c fin len key =
    [(if fin then fin_bit else 0) OR opcode_value c,
     (if key \<noteq> None then mask_bit else 0) OR length_field len] @ length_bytes len @ key_bytes key"
  by (simp add: serialize_header_def length_field_def length_bytes_def key_bytes_def frame_consts)

lemma length16_bytes:
  fixes a b :: byte
  shows "[ucast (drop_bit 8 (be_accumulate 0 [a, b] :: uint64)),
    ucast (be_accumulate 0 [a, b] :: uint64)] = [a, b]" "(be_accumulate 0 [a, b] :: uint64) \<le> 0xffff"
proof -
  show "[ucast (drop_bit 8 (be_accumulate 0 [a, b] :: uint64)),
    ucast (be_accumulate 0 [a, b] :: uint64)] = [a, b]"
    using descending_accumulate [of "[a, b]"] by simp
  have "drop_bit 16 (be_accumulate 0 [a, b] :: uint64) = 0"
    using descending_accumulate [of "[a, b]"] by simp
  then show "(be_accumulate 0 [a, b] :: uint64) \<le> 0xffff"
    by (simp add: drop_bit_eq_div word_unat_eq_iff unat_div_distrib word_le_nat_alt div_eq_0_iff)
qed

lemma parse_extended_success:
  assumes "parse_extended out (f # s # rest) len = (sz, h, e_success)" "len < 0x80"
  shows "len = length_field (fh_length h) \<and>
    take sz (f # s # rest) = f # s # length_bytes (fh_length h) @ key_bytes (key_of h) \<and>
    fh_code h = fh_code out \<and> fh_fin h = fh_fin out \<and> fh_masked h = fh_masked out \<and>
    sz \<le> length rest + 2 \<and> drop_bit 63 (fh_length h) = 0 \<and> (fh_masked h \<longrightarrow> length (fh_key h) = 4)"
proof -
  have "unat len < 126 \<or> unat len = 126 \<or> unat len = 127"
    using assms(2) by (auto simp: byte_nat)
  then consider (short) "len < 126" | (mid) "len = length16" | (long) "len = length64"
    by (auto simp: byte_nat frame_consts)
  then show ?thesis
  proof cases
    case short
    then have "len \<noteq> length16" "len \<noteq> length64" by (auto simp: frame_consts)
    moreover have "(ucast len :: uint64) < 126" "ucast (ucast len :: uint64) = len"
      "drop_bit 63 (ucast len :: uint64) = 0"
      using short by (simp_all add: byte_nat drop_bit_eq_div unat_div_distrib)
    ultimately show ?thesis using assms(1)
      by (auto simp: parse_extended_def Let_def length_field_def length_bytes_def key_of_def
          key_bytes_def split: if_splits)
  next
    case mid
    then obtain a b rest' where rest: "rest = a # b # rest'"
      using assms(1) by (cases rest; cases "tl rest") (auto simp: parse_extended_def Let_def frame_consts
        split: if_splits)
    let ?n = "be_accumulate 0 [a, b] :: uint64"
    have "unat ?n < 2 ^ 63" using length16_bytes(2) [of a b] by (simp add: word_le_nat_alt)
    then have "drop_bit 63 ?n = 0" by (rule drop_bit_63)
    with mid rest assms(1) length16_bytes [of a b] show ?thesis
      by (auto simp: parse_extended_def Let_def length_field_def length_bytes_def key_of_def
          key_bytes_def frame_consts not_less split: if_splits simp del: be_accumulate.simps)
  next
    case long
    let ?n = "be_accumulate 0 (take 8 rest) :: uint64"
    have n: "8 \<le> length rest" "\<not> ?n \<le> 0xffff" "drop_bit 63 ?n = 0"
      using long assms(1) by (auto simp: parse_extended_def Let_def frame_consts split: if_splits)
    then have b: "be_bytes64 ?n = take 8 rest" by (intro be_bytes64_accumulate) simp
    have big: "\<not> ?n < 126" using n(2) by (auto simp: word_le_nat_alt word_less_nat_alt)
    have "take 12 rest = take 8 rest @ take 4 (drop 8 rest)" using take_add [of 8 4 rest] by simp
    with long n b big assms(1) show ?thesis
      by (auto simp: parse_extended_def Let_def length_field_def length_bytes_def key_of_def
          key_bytes_def frame_consts split: if_splits)
  qed
qed

lemma parse_header_success:
  assumes "parse_header out data server = (sz, h, e_success)"
  obtains f s rest c where "data = f # s # rest" "f AND reserved_bits = 0"
    "to_opcode (f AND opcode_bits) = Some c"
    "is_control c \<longrightarrow> f AND fin_bit \<noteq> 0 \<and> unat (s AND length_bits) \<le> maximum_control"
    "server \<longleftrightarrow> s AND mask_bit \<noteq> 0"
    "parse_extended (out\<lparr>fh_fin := f AND fin_bit \<noteq> 0, fh_code := c, fh_masked := s AND mask_bit \<noteq> 0\<rparr>)
      data (s AND length_bits) = (sz, h, e_success)"
proof -
  obtain f s rest where data: "data = f # s # rest"
    using assms by (cases data; cases "tl data") (auto simp: parse_header_def)
  with assms obtain c where c: "to_opcode (f AND opcode_bits) = Some c"
    by (auto simp: parse_header_def Let_def split: if_splits option.splits)
  show thesis
  proof (rule that [OF data])
    show "to_opcode (f AND opcode_bits) = Some c" by fact
  qed (use assms data c in \<open>auto simp: parse_header_def Let_def split: if_splits\<close>)
qed

lemma byte_low7_less: "(b :: byte) AND 0x7f < 0x80"
proof -
  have "(0x7f :: byte) = mask 7" by (simp add: mask_eq_exp_minus_1)
  then have "b AND 0x7f = take_bit 7 b" by (simp only: take_bit_eq_mask)
  then show ?thesis by (simp add: byte_nat take_bit_eq_mod unat_mod_distrib)
qed

lemma drop_bit_63_less: "drop_bit 63 (w :: uint64) = 0 \<Longrightarrow> unat w < 2 ^ 63"
  by (simp add: word_unat_eq_iff drop_bit_eq_div unat_div_distrib div_eq_0_iff)

lemma length_field_control: "unat (length_field len) \<le> maximum_control \<Longrightarrow> unat len \<le> maximum_control"
  by (auto simp: length_field_def frame_consts word_less_nat_alt split: if_splits)

lemma parse_header_size:
  assumes "parse_header out data server = (sz, h, e_success)"
  shows "sz \<le> length data"
  using assms
proof (rule parse_header_success)
  fix f s rest c
  assume "data = f # s # rest" and "parse_extended (out\<lparr>fh_fin := f AND fin_bit \<noteq> 0, fh_code := c,
      fh_masked := s AND mask_bit \<noteq> 0\<rparr>) data (s AND length_bits) = (sz, h, e_success)"
  then show ?thesis by (auto simp: parse_extended_def Let_def split: if_splits)
qed

text \<open>
  A header that the parser accepts is the serialization of what was parsed (so the parser
  accepts the shortest encoding of a length only), is within the received bytes, satisfies the
  limits of the protocol (an unfragmented control frame of at most 125 bytes, a length
  below \<open>2 ^ 63\<close>), and is masked exactly when it is received by a server.
\<close>

theorem parse_header_canonical:
  assumes "parse_header out data server = (sz, h, e_success)"
  shows "sz \<le> length data \<and>
    take sz data = serialize_header (fh_code h) (fh_fin h) (fh_length h) (key_of h) \<and>
    header_ok (fh_code h) (fh_fin h) (fh_length h) (key_of h) \<and> (fh_masked h \<longleftrightarrow> server)"
proof -
  from assms obtain f s rest c where data: "data = f # s # rest" and res: "f AND reserved_bits = 0"
    and op: "to_opcode (f AND opcode_bits) = Some c"
    and ctl: "is_control c \<longrightarrow> f AND fin_bit \<noteq> 0 \<and> unat (s AND length_bits) \<le> maximum_control"
    and srv: "server \<longleftrightarrow> s AND mask_bit \<noteq> 0"
    and ext: "parse_extended (out\<lparr>fh_fin := f AND fin_bit \<noteq> 0, fh_code := c,
      fh_masked := s AND mask_bit \<noteq> 0\<rparr>) data (s AND length_bits) = (sz, h, e_success)"
    by (rule parse_header_success)
  have low: "s AND length_bits < 0x80" by (simp add: frame_consts byte_low7_less)
  note h = parse_extended_success [OF ext [unfolded data] low]
  have f: "(if f AND fin_bit \<noteq> 0 then fin_bit else 0) OR opcode_value c = f"
    using byte_first [of f] res to_opcode_value [OF op] unfolding frame_consts by (simp split del: if_split)
  have s: "(if s AND mask_bit \<noteq> 0 then mask_bit else 0) OR (s AND length_bits) = s"
    using byte_second [of s] unfolding frame_consts by (simp split del: if_split)
  have "header_ok (fh_code h) (fh_fin h) (fh_length h) (key_of h)"
    using h ctl drop_bit_63_less [of "fh_length h"] length_field_control [of "fh_length h"]
    by (auto simp: header_ok_def key_of_def)
  then show ?thesis
    using h f s srv data by (simp add: serialize_header_parts split del: if_split)
qed

theorem parse_header_canonical_witness:
  "take 6 [0x82, 0x81, 1, 2, 3, 4, 7] = serialize_header op_binary True 1 (Some [1, 2, 3, 4])"
proof -
  have "parse_header frame_header_init [0x82, 0x81, 1, 2, 3, 4, 7] True =
    (6, \<lparr>fh_fin = True, fh_code = op_binary, fh_masked = True, fh_length = 1, fh_key = [1, 2, 3, 4]\<rparr>,
     e_success)"
    by (simp add: parse_header_def parse_extended_def frame_consts to_opcode_def is_control_def
        frame_header_init_def)
  from parse_header_canonical [OF this] show ?thesis by (simp add: key_of_def)
qed

section \<open>Close payloads\<close>

lemma be_bytes16_pair: "be_bytes16 (push_bit 8 (ucast a) OR ucast b) = [a, b]"
  by (auto simp: be_bytes16_def intro!: bit_word_eqI) (auto simp: bit_simps dest: bit_imp_le_length)

lemma pair_be_bytes16:
  "push_bit 8 (ucast (ucast (drop_bit 8 v) :: byte)) OR ucast (ucast v :: byte) = (v :: uint16)"
  using be_accumulate16 [of v] by (simp add: be_bytes16_def)

text \<open>
  A close payload is accepted exactly when it is empty, or the big endian form of a code
  that may appear on the wire followed by a UTF-8 reason; the code and the reason are then
  the ones reported. In particular the payload written for each close code is accepted.
\<close>

theorem parse_close_iff:
  "(parse_close payload = (True, v, reason, e_success) \<longleftrightarrow>
     payload = [] \<and> v = 0 \<and> reason = [] \<or>
     payload = be_bytes16 v @ reason \<and> is_valid_close_code v \<and> utf8_valid reason) \<and>
   parse_close (close_payload c) = (True, close_value c, [], e_success)"
proof -
  have empty: "utf8_valid []" by (simp add: utf8_valid_def utf8_finish_def utf8_init_def)
  have own: "parse_close (close_payload c) = (True, close_value c, [], e_success)"
    by (cases c) (simp_all add: parse_close_def close_payload_def is_valid_close_code_def empty)
  consider "payload = []" | a where "payload = [a]" | a b rest where "payload = a # b # rest"
    by (cases payload; cases "tl payload") auto
  then have "parse_close payload = (True, v, reason, e_success) \<longleftrightarrow>
     payload = [] \<and> v = 0 \<and> reason = [] \<or>
     payload = be_bytes16 v @ reason \<and> is_valid_close_code v \<and> utf8_valid reason"
  proof cases
    case (3 a b rest)
    then show ?thesis
      using be_bytes16_pair [of a b]
      by (auto simp: parse_close_def Let_def be_bytes16_def pair_be_bytes16)
  qed (auto simp: parse_close_def be_bytes16_def)
  with own show ?thesis by blast
qed

end
