(* ===== verification/Flat_Buffer.thy ===== *)
theory Flat_Buffer imports Prelude begin

text \<open>
  The contiguous dynamic buffer of the http and websocket readers
  (\<open>src/messages/http/flat_buffer.cpp\<close>): readable bytes followed by writable bytes in one
  allocation, with a limit on the readable size.
  The record is the class with its allocation (\<open>begin_\<close> and \<open>end_\<close> are the fields \<open>first_at\<close> and
  \<open>last_at\<close>); \<open>flat_prepare\<close> returns \<open>None\<close> where the source
  throws \<open>std::length_error\<close>.
  The locale \<open>dynamic_buffer\<close> is what a reader relies on: preparing, filling and committing
  appends to the readable bytes, or fails exactly when the limit would be exceeded.
\<close>

record flat_buffer =
  buffer :: bytes
  first_at :: nat
  last_at :: nat
  limit :: nat

definition flat_init :: "nat \<Rightarrow> flat_buffer" where
  "flat_init lim = \<lparr>buffer = [], first_at = 0, last_at = 0, limit = lim\<rparr>"

definition flat_data :: "flat_buffer \<Rightarrow> bytes" where
  "flat_data b = take (last_at b - first_at b) (drop (first_at b) (buffer b))"

definition flat_size :: "flat_buffer \<Rightarrow> nat" where
  "flat_size b = last_at b - first_at b"

definition flat_max_size :: "flat_buffer \<Rightarrow> nat" where
  "flat_max_size b = limit b"

definition flat_capacity :: "flat_buffer \<Rightarrow> nat" where
  "flat_capacity b = length (buffer b)"

text \<open>\<open>std::vector::resize\<close>: truncate, or extend with zero bytes.\<close>

definition resize :: "nat \<Rightarrow> bytes \<Rightarrow> bytes" where
  "resize n bs = take n bs @ replicate (n - length bs) 0"

text \<open>Move the readable bytes to the front of the allocation.\<close>

definition flat_front :: "flat_buffer \<Rightarrow> flat_buffer" where
  "flat_front b = b\<lparr>buffer := flat_data b @ drop (last_at b - first_at b) (buffer b),
     last_at := last_at b - first_at b, first_at := 0\<rparr>"

definition flat_prepare :: "nat \<Rightarrow> flat_buffer \<Rightarrow> flat_buffer option" where
  "flat_prepare n b =
     (if size_t_sub (limit b) (flat_size b) < n then None
      else let b = (if length (buffer b) - last_at b < n \<and> first_at b \<noteq> 0 then flat_front b else b);
               b = (if length (buffer b) - last_at b < n
                    then b\<lparr>buffer := resize (last_at b + n) (buffer b)\<rparr> else b)
           in Some b)"

text \<open>The caller's copy into the writable bytes that \<open>prepare\<close> returned.\<close>

definition flat_write :: "bytes \<Rightarrow> flat_buffer \<Rightarrow> flat_buffer" where
  "flat_write bs b = b\<lparr>buffer :=
     take (last_at b) (buffer b) @ bs @ drop (last_at b + length bs) (buffer b)\<rparr>"

definition flat_commit :: "nat \<Rightarrow> flat_buffer \<Rightarrow> flat_buffer" where
  "flat_commit n b = b\<lparr>last_at := last_at b + min n (length (buffer b) - last_at b)\<rparr>"

definition flat_clear :: "flat_buffer \<Rightarrow> flat_buffer" where
  "flat_clear b = b\<lparr>first_at := 0, last_at := 0\<rparr>"

definition flat_consume :: "nat \<Rightarrow> flat_buffer \<Rightarrow> flat_buffer" where
  "flat_consume n b = (if flat_size b \<le> n then flat_clear b else b\<lparr>first_at := first_at b + n\<rparr>)"

definition flat_reserve :: "nat \<Rightarrow> flat_buffer \<Rightarrow> flat_buffer" where
  "flat_reserve n b = (if length (buffer b) < n then b\<lparr>buffer := resize n (buffer b)\<rparr> else b)"

definition flat_shrink_to_fit :: "flat_buffer \<Rightarrow> flat_buffer" where
  "flat_shrink_to_fit b =
     (let b = (if first_at b \<noteq> 0 then flat_front b else b)
      in b\<lparr>buffer := resize (last_at b) (buffer b)\<rparr>)"

section \<open>The interface\<close>

text \<open>
  \<open>room n b\<close> says that \<open>b\<close> has \<open>n\<close> writable bytes, which is what \<open>prepare\<close> establishes.
\<close>

locale dynamic_buffer =
  fixes readable :: "'b \<Rightarrow> bytes"
    and bound :: "'b \<Rightarrow> nat"
    and invar :: "'b \<Rightarrow> bool"
    and room :: "nat \<Rightarrow> 'b \<Rightarrow> bool"
    and prepare :: "nat \<Rightarrow> 'b \<Rightarrow> 'b option"
    and fill :: "bytes \<Rightarrow> 'b \<Rightarrow> 'b"
    and commit :: "nat \<Rightarrow> 'b \<Rightarrow> 'b"
    and consume :: "nat \<Rightarrow> 'b \<Rightarrow> 'b"
  assumes invar_bound: "invar b \<Longrightarrow> length (readable b) \<le> bound b"
    and prepare_None: "invar b \<Longrightarrow> prepare n b = None \<longleftrightarrow> bound b < length (readable b) + n"
    and prepare_Some: "invar b \<Longrightarrow> prepare n b = Some b' \<Longrightarrow>
      invar b' \<and> room n b' \<and> readable b' = readable b \<and> bound b' = bound b"
    and fill_law: "invar b \<Longrightarrow> room n b \<Longrightarrow> length bs = n \<Longrightarrow>
      invar (fill bs b) \<and> readable (fill bs b) = readable b \<and> bound (fill bs b) = bound b"
    and commit_law: "invar b \<Longrightarrow> room n b \<Longrightarrow> length bs = n \<Longrightarrow>
      length (readable b) + n \<le> bound b \<Longrightarrow>
      invar (commit n (fill bs b)) \<and> readable (commit n (fill bs b)) = readable b @ bs \<and>
      bound (commit n (fill bs b)) = bound b"
    and consume_law: "invar b \<Longrightarrow>
      invar (consume n b) \<and> readable (consume n b) = drop n (readable b) \<and> bound (consume n b) = bound b"
begin

lemma append_law:
  assumes "invar b" "prepare (length bs) b = Some b'"
  shows "invar (commit (length bs) (fill bs b'))"
    "readable (commit (length bs) (fill bs b')) = readable b @ bs"
    "bound (commit (length bs) (fill bs b')) = bound b"
proof -
  have b': "invar b'" "room (length bs) b'" "readable b' = readable b" "bound b' = bound b"
    using prepare_Some [OF assms] by simp_all
  have "length (readable b') + length bs \<le> bound b'"
    using prepare_None [OF assms(1), of "length bs"] assms(2) b' by simp
  from commit_law [OF b'(1,2) refl this] b'
  show "invar (commit (length bs) (fill bs b'))"
    "readable (commit (length bs) (fill bs b')) = readable b @ bs"
    "bound (commit (length bs) (fill bs b')) = bound b" by simp_all
qed

lemma append_fits:
  assumes "invar b" "length (readable b) + length bs \<le> bound b"
  obtains b' where "prepare (length bs) b = Some b'"
  using prepare_None [OF assms(1), of "length bs"] assms(2) by (cases "prepare (length bs) b") auto

end

section \<open>The flat buffer implements it\<close>

definition flat_invar :: "flat_buffer \<Rightarrow> bool" where
  "flat_invar b \<longleftrightarrow> first_at b \<le> last_at b \<and> last_at b \<le> length (buffer b) \<and>
     last_at b - first_at b \<le> limit b \<and> limit b < 2 ^ 64"

definition flat_room :: "nat \<Rightarrow> flat_buffer \<Rightarrow> bool" where
  "flat_room n b \<longleftrightarrow> n \<le> length (buffer b) - last_at b"

lemma length_flat_data: "flat_invar b \<Longrightarrow> length (flat_data b) = flat_size b"
  by (auto simp: flat_data_def flat_invar_def flat_size_def)

lemma length_resize [simp]: "length (resize n bs) = n"
  by (simp add: resize_def)

lemma take_resize: "n \<le> length bs \<Longrightarrow> n \<le> m \<Longrightarrow> take n (resize m bs) = take n bs"
  by (simp add: resize_def)

lemma flat_front_law:
  assumes "flat_invar b"
  shows "flat_invar (flat_front b)" "flat_data (flat_front b) = flat_data b"
    "limit (flat_front b) = limit b" "first_at (flat_front b) = 0"
proof -
  have len: "length (flat_data b) = last_at b - first_at b"
    using length_flat_data [OF assms] by (simp add: flat_size_def)
  show "flat_data (flat_front b) = flat_data b"
    using len by (simp add: flat_front_def flat_data_def [of "flat_front b", unfolded flat_front_def])
  show "flat_invar (flat_front b)" using assms len by (auto simp: flat_front_def flat_invar_def)
qed (simp_all add: flat_front_def)

lemma flat_extend_law:
  assumes "flat_invar b" "last_at b \<le> m"
  shows "flat_invar (b\<lparr>buffer := resize m (buffer b)\<rparr>)"
    "flat_data (b\<lparr>buffer := resize m (buffer b)\<rparr>) = flat_data b"
proof -
  have "take (last_at b) (resize m (buffer b)) = take (last_at b) (buffer b)"
    using assms by (intro take_resize) (simp_all add: flat_invar_def)
  then show "flat_data (b\<lparr>buffer := resize m (buffer b)\<rparr>) = flat_data b"
    using assms by (simp add: flat_data_def flat_invar_def take_drop)
qed (use assms in \<open>simp add: flat_invar_def\<close>)

lemma flat_prepare_law:
  assumes "flat_invar b" "flat_prepare n b = Some b'"
  shows "flat_invar b' \<and> flat_room n b' \<and> flat_data b' = flat_data b \<and> limit b' = limit b"
proof -
  define c where "c = (if length (buffer b) - last_at b < n \<and> first_at b \<noteq> 0 then flat_front b else b)"
  have c: "flat_invar c" "flat_data c = flat_data b" "limit c = limit b"
    using flat_front_law [OF assms(1)] assms(1) by (simp_all add: c_def)
  have b': "b' = (if length (buffer c) - last_at c < n
      then c\<lparr>buffer := resize (last_at c + n) (buffer c)\<rparr> else c)"
    using assms(2) by (auto simp: flat_prepare_def c_def Let_def split: if_splits)
  show ?thesis
    using flat_extend_law [OF c(1), of "last_at c + n"] c by (simp add: b' flat_room_def)
qed

lemma flat_fill_data:
  assumes "flat_invar b"
  shows "flat_data (flat_write bs b) = flat_data b"
  using assms by (simp add: flat_data_def flat_write_def flat_invar_def take_drop)

interpretation flat: dynamic_buffer flat_data flat_max_size flat_invar flat_room flat_prepare
  flat_write flat_commit flat_consume
proof unfold_locales
  fix b n
  assume inv: "flat_invar b"
  then have size: "length (flat_data b) = flat_size b" "flat_size b \<le> limit b" "limit b < 2 ^ 64"
    by (simp_all add: length_flat_data flat_invar_def flat_size_def)
  show "length (flat_data b) \<le> flat_max_size b" using size by (simp add: flat_max_size_def)
  show "flat_prepare n b = None \<longleftrightarrow> flat_max_size b < length (flat_data b) + n"
    using size by (auto simp: flat_prepare_def Let_def flat_max_size_def size_t_sub_le)
next
  fix b n b'
  assume "flat_invar b" "flat_prepare n b = Some b'"
  then show "flat_invar b' \<and> flat_room n b' \<and> flat_data b' = flat_data b \<and>
      flat_max_size b' = flat_max_size b"
    by (simp add: flat_prepare_law flat_max_size_def)
next
  fix b n and bs :: bytes
  assume "flat_invar b" "flat_room n b" "length bs = n"
  then show "flat_invar (flat_write bs b) \<and> flat_data (flat_write bs b) = flat_data b \<and>
      flat_max_size (flat_write bs b) = flat_max_size b"
    by (simp add: flat_fill_data) (simp add: flat_invar_def flat_room_def flat_write_def flat_max_size_def)
next
  fix b n and bs :: bytes
  assume inv: "flat_invar b" "flat_room n b" "length bs = n"
    and fits: "length (flat_data b) + n \<le> flat_max_size b"
  have "flat_size b + n \<le> limit b"
    using fits inv by (simp add: length_flat_data flat_max_size_def)
  with inv show "flat_invar (flat_commit n (flat_write bs b)) \<and>
      flat_data (flat_commit n (flat_write bs b)) = flat_data b @ bs \<and>
      flat_max_size (flat_commit n (flat_write bs b)) = flat_max_size b"
    by (auto simp: flat_invar_def flat_room_def flat_write_def flat_commit_def flat_max_size_def
        flat_data_def flat_size_def take_drop min_def)
next
  fix b n
  assume "flat_invar b"
  then show "flat_invar (flat_consume n b) \<and> flat_data (flat_consume n b) = drop n (flat_data b) \<and>
      flat_max_size (flat_consume n b) = flat_max_size b"
    by (auto simp: flat_invar_def flat_consume_def flat_clear_def flat_max_size_def flat_data_def
        flat_size_def drop_take add.commute)
qed

lemma flat_reserve_law:
  assumes "flat_invar b"
  shows "flat_invar (flat_reserve n b)" "flat_data (flat_reserve n b) = flat_data b"
proof -
  have "length (buffer b) < n \<Longrightarrow> last_at b \<le> n" using assms by (simp add: flat_invar_def)
  with flat_extend_law [OF assms, of n] assms
  show "flat_invar (flat_reserve n b)" "flat_data (flat_reserve n b) = flat_data b"
    by (simp_all add: flat_reserve_def)
qed

lemma flat_shrink_law:
  assumes "flat_invar b"
  shows "flat_invar (flat_shrink_to_fit b)" "flat_data (flat_shrink_to_fit b) = flat_data b"
    "flat_capacity (flat_shrink_to_fit b) = flat_size b"
proof -
  define c where "c = (if first_at b \<noteq> 0 then flat_front b else b)"
  have c: "flat_invar c" "flat_data c = flat_data b" "last_at c = flat_size b"
    using flat_front_law [OF assms] assms by (simp_all add: c_def flat_front_def flat_size_def)
  have shrink: "flat_shrink_to_fit b = c\<lparr>buffer := resize (last_at c) (buffer c)\<rparr>"
    by (simp add: flat_shrink_to_fit_def c_def Let_def)
  show "flat_invar (flat_shrink_to_fit b)" "flat_data (flat_shrink_to_fit b) = flat_data b"
    "flat_capacity (flat_shrink_to_fit b) = flat_size b"
    using flat_extend_law [OF c(1), of "last_at c"] c by (simp_all add: shrink flat_capacity_def)
qed

text \<open>
  C10. The flat buffer is a bounded byte queue. Preparing \<open>n\<close> bytes fails exactly when the
  readable size would pass the limit; otherwise copying \<open>n\<close> bytes and committing them appends
  them to the readable bytes, whatever moves or reallocations \<open>prepare\<close> makes. Consuming
  removes from the front, and reserving or shrinking leaves the readable bytes unchanged.
\<close>

theorem flat_buffer_queue:
  assumes "flat_invar b"
  shows "(flat_prepare (length bs) b = None \<longleftrightarrow> limit b < length (flat_data b) + length bs) \<and>
    (\<forall>b'. flat_prepare (length bs) b = Some b' \<longrightarrow>
       flat_data (flat_commit (length bs) (flat_write bs b')) = flat_data b @ bs \<and>
       flat_invar (flat_commit (length bs) (flat_write bs b'))) \<and>
    flat_data (flat_consume n b) = drop n (flat_data b) \<and>
    flat_data (flat_reserve n b) = flat_data b \<and> flat_data (flat_shrink_to_fit b) = flat_data b"
  using flat.prepare_None [OF assms] flat.append_law [OF assms] flat.consume_law [OF assms]
    flat_reserve_law [OF assms] flat_shrink_law [OF assms]
  by (simp add: flat_max_size_def)

theorem flat_buffer_queue_witness:
  "flat_prepare 3 \<lparr>buffer = [9, 8, 7, 6], first_at = 2, last_at = 4, limit = 4\<rparr> = None \<and>
   flat_data (flat_consume 1 \<lparr>buffer = [9, 8, 7, 6], first_at = 2, last_at = 4, limit = 4\<rparr>) = [6]"
proof -
  have inv: "flat_invar \<lparr>buffer = [9, 8, 7, 6], first_at = 2, last_at = 4, limit = 4\<rparr>"
    by (simp add: flat_invar_def)
  have "flat_data \<lparr>buffer = [9, 8, 7, 6], first_at = 2, last_at = 4, limit = 4\<rparr> = [7, 6]"
    by (simp add: flat_data_def)
  with flat_buffer_queue [OF inv, of "[1, 2, 3]" 1] show ?thesis by (simp add: numeral_3_eq_3)
qed

end
