(* ===== verification/Ws_Reader.thy ===== *)
theory Ws_Reader imports Ws_Frame Flat_Buffer begin

text \<open>
  The websocket message reader (\<open>src/ws/reader.cpp\<close>): received bytes are parsed into frames,
  data payloads are unmasked into the message buffer as they arrive, and control frames are
  surfaced when complete.
  \<open>put_payload\<close> and \<open>put_header\<close> are the two private steps and \<open>reader_put\<close> the loop over
  them, whose termination is proved from the progress of each step. A step returns the bytes
  consumed, the reader, the message buffer, the event and the code.
\<close>

datatype ws_event = ev_none | ev_message | ev_ping | ev_pong | ev_close

record ws_reader =
  rd_maximum :: uint64
  rd_server :: bool
  rd_frame :: frame_header
  rd_offset :: uint64
  rd_payload :: bool
  rd_continuing :: bool
  rd_binary :: bool
  rd_size :: uint64
  rd_utf8 :: utf8_validator
  rd_control :: bytes

definition reader_init :: "uint64 \<Rightarrow> bool \<Rightarrow> ws_reader" where
  "reader_init lim srv = \<lparr>rd_maximum = lim, rd_server = srv, rd_frame = frame_header_init, rd_offset = 0,
     rd_payload = False, rd_continuing = False, rd_binary = False, rd_size = 0, rd_utf8 = utf8_init,
     rd_control = []\<rparr>"

type_synonym ws_step = "nat \<times> ws_reader \<times> flat_buffer \<times> ws_event \<times> error_t"

text \<open>The completion of a control frame.\<close>

definition put_control :: "ws_reader \<Rightarrow> flat_buffer \<Rightarrow> bytes \<Rightarrow> ws_step" where
  "put_control r msg data =
     (let remaining = fh_length (rd_frame r) - rd_offset r
      in if length data < unat remaining then (0, r, msg, ev_none, e_success)
      else let sz = unat remaining;
               text = take sz data;
               r = r\<lparr>rd_control := (if fh_masked (rd_frame r) then apply_mask text (fh_key (rd_frame r)) 0
                                 else text), rd_payload := False\<rparr>
      in case fh_code (rd_frame r) of
           op_ping \<Rightarrow> (sz, r, msg, ev_ping, e_success)
         | op_pong \<Rightarrow> (sz, r, msg, ev_pong, e_success)
         | _ \<Rightarrow> (case parse_close (rd_control r) of
                  (ok, value, reason, ec) \<Rightarrow>
                    (sz, r, msg, if ok then ev_close else ev_none, ec)))"

text \<open>The unmasked bytes are copied to the message, validated if text, and committed.\<close>

definition put_bytes :: "ws_reader \<Rightarrow> flat_buffer \<Rightarrow> bytes \<Rightarrow> ws_reader \<times> flat_buffer \<times> error_t" where
  "put_bytes r msg text =
     (if text = [] then (r, msg, e_success)
      else case flat_prepare (length text) msg of
        None \<Rightarrow> (r, msg, e_websocket_buffer_overflow)
      | Some msg \<Rightarrow>
        (let target = (if fh_masked (rd_frame r) then apply_mask text (fh_key (rd_frame r)) (rd_offset r)
                       else text);
             msg = flat_write target msg
         in if rd_binary r then (r, flat_commit (length text) msg, e_success)
         else (case utf8_write (rd_utf8 r) target of
           (ok, u) \<Rightarrow>
             if ok then (r\<lparr>rd_utf8 := u\<rparr>, flat_commit (length text) msg, e_success)
             else (r\<lparr>rd_utf8 := u\<rparr>, msg, e_bad_frame_payload))))"

text \<open>The end of a data frame, and of the message if it is final.\<close>

definition end_frame :: "ws_reader \<Rightarrow> ws_reader \<times> ws_event \<times> error_t" where
  "end_frame r =
     (let r = r\<lparr>rd_payload := False, rd_continuing := \<not> fh_fin (rd_frame r)\<rparr>
      in if \<not> fh_fin (rd_frame r) then (r, ev_none, e_success)
      else if rd_binary r then (r, ev_message, e_success)
      else case utf8_finish (rd_utf8 r) of
        (ok, u) \<Rightarrow> if ok then (r\<lparr>rd_utf8 := u\<rparr>, ev_message, e_success)
                   else (r\<lparr>rd_utf8 := u\<rparr>, ev_none, e_bad_frame_payload))"

definition put_payload :: "ws_reader \<Rightarrow> flat_buffer \<Rightarrow> bytes \<Rightarrow> ws_step" where
  "put_payload r msg data =
     (if is_control (fh_code (rd_frame r)) then put_control r msg data
      else let sz = min (unat (fh_length (rd_frame r) - rd_offset r)) (length data)
      in case put_bytes r msg (take sz data) of
        (r, msg, ec) \<Rightarrow>
          if failed ec then (0, r, msg, ev_none, ec)
          else let r = r\<lparr>rd_offset := rd_offset r + of_nat sz, rd_size := rd_size r + of_nat sz\<rparr>
          in if rd_offset r < fh_length (rd_frame r) then (sz, r, msg, ev_none, e_success)
          else case end_frame r of (r, out, ec) \<Rightarrow> (sz, r, msg, out, ec))"

text \<open>The guards on the opcode of a new frame.\<close>

definition open_frame :: "ws_reader \<Rightarrow> ws_reader \<times> error_t" where
  "open_frame r =
     (case fh_code (rd_frame r) of
        op_continuation \<Rightarrow> if \<not> rd_continuing r then (r, e_bad_continuation) else (r, e_success)
      | op_text \<Rightarrow>
          if rd_continuing r then (r, e_bad_data_frame)
          else (r\<lparr>rd_binary := False, rd_utf8 := utf8_init, rd_size := 0\<rparr>, e_success)
      | op_binary \<Rightarrow>
          if rd_continuing r then (r, e_bad_data_frame)
          else (r\<lparr>rd_binary := True, rd_utf8 := utf8_init, rd_size := 0\<rparr>, e_success)
      | _ \<Rightarrow> (r\<lparr>rd_control := []\<rparr>, e_success))"

definition put_header :: "ws_reader \<Rightarrow> flat_buffer \<Rightarrow> bytes \<Rightarrow> ws_step" where
  "put_header r msg data =
     (case parse_header (rd_frame r) data (rd_server r) of
        (sz, h, ec) \<Rightarrow>
          (let r = r\<lparr>rd_frame := h\<rparr>
           in if failed ec then
             (0, r, msg, ev_none, if ec = e_need_more then e_success else ec)
           else case open_frame r of
             (r, ec) \<Rightarrow>
               if failed ec then (0, r, msg, ev_none, ec)
               else if \<not> is_control (fh_code (rd_frame r)) \<and>
                   rd_maximum r - min (rd_maximum r) (rd_size r) < fh_length (rd_frame r)
                 then (0, r, msg, ev_none, e_message_too_big)
               else let r = r\<lparr>rd_offset := 0, rd_payload := True\<rparr>
               in if fh_length (rd_frame r) = 0 then
                 (case put_payload r msg [] of (_, r, msg, out, ec) \<Rightarrow> (sz, r, msg, out, ec))
               else (sz, r, msg, ev_none, e_success)))"

definition reader_step :: "ws_reader \<Rightarrow> flat_buffer \<Rightarrow> bytes \<Rightarrow> ws_step" where
  "reader_step r msg data =
     (if rd_payload r then put_payload r msg data else put_header r msg data)"

section \<open>Progress and termination\<close>

lemma put_payload_le: "put_payload r msg data = (n, r', msg', out, ec) \<Longrightarrow> n \<le> length data"
  by (auto simp: put_payload_def put_control_def Let_def split: if_splits prod.splits opcode.splits)

lemma put_header_le:
  assumes "put_header r msg data = (n, r', msg', out, ec)"
  shows "n \<le> length data"
proof -
  obtain sz h ec' where p: "parse_header (rd_frame r) data (rd_server r) = (sz, h, ec')"
    by (cases "parse_header (rd_frame r) data (rd_server r)")
  have "ec' = e_success \<Longrightarrow> sz \<le> length data" using parse_header_size p by blast
  with assms p show ?thesis
    by (auto simp: put_header_def Let_def split: if_splits prod.splits)
qed

lemma reader_step_le: "reader_step r msg data = (n, r', msg', out, ec) \<Longrightarrow> n \<le> length data"
  by (auto simp: reader_step_def dest: put_payload_le put_header_le split: if_splits)

function reader_put :: "ws_reader \<Rightarrow> flat_buffer \<Rightarrow> bytes \<Rightarrow> nat \<Rightarrow> ws_step" where
  "reader_put r msg data used =
     (case reader_step r msg data of
        (n, r', msg', out, ec) \<Rightarrow>
          if failed ec \<or> out \<noteq> ev_none then (used + n, r', msg', out, ec)
          else if n = 0 then (used, r', msg', out, e_need_more)
          else reader_put r' msg' (drop n data) (used + n))"
  by pat_completeness auto
termination
  by (relation "measure (\<lambda>(r, msg, data, used). length data)")
    (auto dest!: reader_step_le [OF sym])

declare reader_put.simps [simp del]

section \<open>The reader invariant\<close>

text \<open>
  The size of the message so far is within the maximum, and so is that size with what remains
  of the current data frame. The reader is mid message between the fragments of a message and
  within its data frames.
\<close>

definition reader_inv :: "ws_reader \<Rightarrow> bool" where
  "reader_inv r \<longleftrightarrow> rd_size r \<le> rd_maximum r \<and>
     (rd_payload r \<longrightarrow> rd_offset r \<le> fh_length (rd_frame r) \<and>
       (is_control (fh_code (rd_frame r)) \<or>
        unat (rd_size r) + (unat (fh_length (rd_frame r)) - unat (rd_offset r)) \<le> unat (rd_maximum r)))"

definition rd_mid :: "ws_reader \<Rightarrow> bool" where
  "rd_mid r \<longleftrightarrow> rd_continuing r \<or> rd_payload r \<and> \<not> is_control (fh_code (rd_frame r))"

definition unmasked :: "ws_reader \<Rightarrow> bytes \<Rightarrow> bytes" where
  "unmasked r text =
     (if fh_masked (rd_frame r) then apply_mask text (fh_key (rd_frame r)) (rd_offset r) else text)"

lemma length_unmasked [simp]: "length (unmasked r text) = length text"
  by (simp add: unmasked_def)

lemma put_bytes_law:
  assumes "flat_invar msg" "put_bytes r msg text = (r', msg', ec)"
  shows "flat_invar msg' \<and> (\<exists>u. r' = r\<lparr>rd_utf8 := u\<rparr>) \<and>
    flat_data msg' = flat_data msg @ (if failed ec then [] else unmasked r text)"
proof (cases "text = []")
  case True
  then show ?thesis using assms by (auto simp: put_bytes_def unmasked_def apply_mask_def intro: exI [of _ "rd_utf8 r"])
next
  case False
  show ?thesis
  proof (cases "flat_prepare (length text) msg")
    case None
    then show ?thesis using assms False by (auto simp: put_bytes_def intro: exI [of _ "rd_utf8 r"])
  next
    case (Some m)
    let ?t = "unmasked r text"
    have m: "flat_prepare (length ?t) msg = Some m" using Some by simp
    note app = flat.append_law [OF assms(1) m]
    have fill: "flat_invar (flat_write ?t m)" "flat_data (flat_write ?t m) = flat_data msg"
      using flat.prepare_Some [OF assms(1) m] flat.fill_law [of m "length ?t" ?t] by simp_all
    show ?thesis
    proof (cases "rd_binary r")
      case True
      then show ?thesis using assms False Some app
        by (auto simp: put_bytes_def Let_def unmasked_def [symmetric] intro: exI [of _ "rd_utf8 r"])
    next
      case bin: False
      then show ?thesis using assms False Some app fill
        by (auto simp: put_bytes_def Let_def unmasked_def [symmetric] split: prod.splits if_splits)
    qed
  qed
qed

lemma end_frame_law:
  assumes "end_frame r = (r', out, ec)"
  shows "rd_size r' = rd_size r \<and> rd_maximum r' = rd_maximum r \<and> rd_server r' = rd_server r \<and>
    \<not> rd_payload r' \<and> (rd_continuing r' \<longleftrightarrow> \<not> fh_fin (rd_frame r)) \<and> rd_frame r' = rd_frame r \<and>
    (ec = e_success \<and> out = ev_none \<longrightarrow> rd_continuing r')"
  using assms by (auto simp: end_frame_def Let_def split: if_splits prod.splits)

text \<open>One step appends what it consumed of a data frame and keeps the invariant.\<close>

definition step_law :: "ws_reader \<Rightarrow> flat_buffer \<Rightarrow> ws_reader \<Rightarrow> flat_buffer \<Rightarrow> bool \<Rightarrow> bool" where
  "step_law r msg r' msg' go \<longleftrightarrow> reader_inv r' \<and> flat_invar msg' \<and> rd_maximum r' = rd_maximum r \<and>
     rd_server r' = rd_server r \<and>
     (\<exists>app. flat_data msg' = flat_data msg @ app \<and>
       (rd_mid r \<longrightarrow> unat (rd_size r') = unat (rd_size r) + length app \<and> (go \<longrightarrow> rd_mid r')) \<and>
       (\<not> rd_mid r \<longrightarrow> app = [] \<and> (go \<and> rd_mid r' \<longrightarrow> rd_size r' = 0)))"

lemma put_control_law:
  assumes "reader_inv r" "flat_invar msg" "is_control (fh_code (rd_frame r))"
    "put_control r msg data = (n, r', msg', out, ec)"
  shows "step_law r msg r' msg' (ec = e_success \<and> out = ev_none \<and> n \<noteq> 0)"
  using assms
  by (auto simp: put_control_def Let_def step_law_def reader_inv_def rd_mid_def is_control_def
      parse_close_def split: if_splits opcode.splits prod.splits)

lemma put_data_law:
  assumes inv: "reader_inv r" "flat_invar msg" "rd_payload r" "\<not> is_control (fh_code (rd_frame r))"
    and put: "put_payload r msg data = (n, r', msg', out, ec)"
  shows "step_law r msg r' msg' (ec = e_success \<and> out = ev_none \<and> n \<noteq> 0)"
proof -
  define len off where "len = fh_length (rd_frame r)" and "off = rd_offset r"
  define sz where "sz = min (unat len - unat off) (length data)"
  have le: "off \<le> len" and fits: "unat (rd_size r) + (unat len - unat off) \<le> unat (rd_maximum r)"
    using inv by (auto simp: reader_inv_def len_def off_def)
  have offn: "unat off \<le> unat len" using le by (simp add: word_le_nat_alt)
  have sz_fits: "unat off + sz \<le> unat len" "unat (rd_size r) + sz \<le> unat (rd_maximum r)"
    using offn fits by (auto simp: sz_def)
  then have unat_sz: "unat (off + of_nat sz) = unat off + sz"
    "unat (rd_size r + of_nat sz) = unat (rd_size r) + sz"
    by (blast intro: word_add_nat_le)+
  have rem: "min (unat (fh_length (rd_frame r) - rd_offset r)) (length data) = sz"
    using le by (simp add: sz_def len_def off_def word_sub_nat)
  obtain r1 msg1 ec1 where b: "put_bytes r msg (take sz data) = (r1, msg1, ec1)"
    by (cases "put_bytes r msg (take sz data)")
  note law = put_bytes_law [OF inv(2) b]
  then obtain u where r1: "r1 = r\<lparr>rd_utf8 := u\<rparr>" by blast
  have mid: "rd_mid r" using inv by (simp add: rd_mid_def)
  show ?thesis
  proof (cases "failed ec1")
    case True
    then show ?thesis
      using put b law rem inv mid r1
      by (auto simp: put_payload_def step_law_def reader_inv_def rd_mid_def)
  next
    case False
    let ?r = "r1\<lparr>rd_offset := rd_offset r1 + of_nat sz, rd_size := rd_size r1 + of_nat sz\<rparr>"
    have data: "flat_data msg1 = flat_data msg @ unmasked r (take sz data)" "flat_invar msg1"
      "length (unmasked r (take sz data)) = sz"
      using law False by (simp_all add: sz_def)
    have size_max: "rd_size r + of_nat sz \<le> rd_maximum r"
      using unat_sz sz_fits by (simp add: word_le_nat_alt)
    show ?thesis
    proof (cases "off + of_nat sz < len")
      case more: True
      then have "out = ev_none" "ec = e_success" "r' = ?r" "msg' = msg1"
        using put b rem False inv(4) r1 by (auto simp: put_payload_def len_def off_def)
      moreover have "reader_inv ?r"
        using more size_max unat_sz fits offn r1
        by (auto simp: reader_inv_def len_def off_def word_le_nat_alt word_less_nat_alt)
      ultimately show ?thesis
        using data mid unat_sz inv r1
        by (auto simp: step_law_def rd_mid_def intro!: exI [of _ "unmasked r (take sz data)"])
    next
      case False': False
      obtain r2 out2 ec2 where e: "end_frame ?r = (r2, out2, ec2)" by (cases "end_frame ?r")
      note law2 = end_frame_law [OF e]
      have "out = out2" "ec = ec2" "r' = r2" "msg' = msg1"
        using put b rem False False' inv(4) r1 e by (auto simp: put_payload_def len_def off_def)
      moreover have "reader_inv r2" using law2 size_max r1 by (simp add: reader_inv_def)
      ultimately show ?thesis
        using data mid unat_sz law2 r1
        by (auto simp: step_law_def rd_mid_def intro!: exI [of _ "unmasked r (take sz data)"])
    qed
  qed
qed

lemma open_frame_law:
  assumes "open_frame r = (r', ec)" "rd_size r \<le> rd_maximum r" "\<not> rd_payload r"
  shows "rd_size r' \<le> rd_maximum r' \<and> rd_maximum r' = rd_maximum r \<and> rd_server r' = rd_server r \<and>
    rd_frame r' = rd_frame r \<and> rd_payload r' = rd_payload r \<and> rd_continuing r' = rd_continuing r \<and>
    (rd_continuing r \<longrightarrow> rd_size r' = rd_size r) \<and>
    (ec = e_success \<and> \<not> rd_continuing r \<and> \<not> is_control (fh_code (rd_frame r)) \<longrightarrow> rd_size r' = 0)"
  using assms by (auto simp: open_frame_def is_control_def split: opcode.splits if_splits)

text \<open>A frame without payload completes at once.\<close>

lemma put_empty_law:
  assumes "fh_length (rd_frame r) = 0" "rd_offset r = 0" "put_payload r msg [] = (m, r', msg', out, ec)"
  shows "msg' = msg \<and> rd_size r' = rd_size r \<and> rd_maximum r' = rd_maximum r \<and>
    rd_server r' = rd_server r \<and> \<not> rd_payload r' \<and>
    (ec = e_success \<and> out = ev_none \<longrightarrow> \<not> is_control (fh_code (rd_frame r)) \<and> rd_continuing r') \<and>
    (is_control (fh_code (rd_frame r)) \<longrightarrow> rd_continuing r' = rd_continuing r)"
proof (cases "is_control (fh_code (rd_frame r))")
  case True
  then show ?thesis using assms
    by (auto simp: put_payload_def put_control_def Let_def split: opcode.splits prod.splits if_splits)
next
  case False
  with assms show ?thesis
    by (auto simp: put_payload_def put_bytes_def split: prod.splits dest!: end_frame_law)
qed

lemma put_header_law:
  assumes inv: "reader_inv r" "flat_invar msg" "\<not> rd_payload r"
    and put: "put_header r msg data = (n, r', msg', out, ec)"
  shows "step_law r msg r' msg' (ec = e_success \<and> out = ev_none \<and> n \<noteq> 0)"
proof -
  obtain sz h ec1 where p: "parse_header (rd_frame r) data (rd_server r) = (sz, h, ec1)"
    by (cases "parse_header (rd_frame r) data (rd_server r)")
  have same: "step_law r msg (r\<lparr>rd_frame := h\<rparr>) msg False"
    using inv by (auto simp: step_law_def reader_inv_def rd_mid_def)
  show ?thesis
  proof (cases "failed ec1")
    case True
    then show ?thesis using put p same by (auto simp: put_header_def step_law_def rd_mid_def)
  next
    case False
    obtain r1 ec2 where o: "open_frame (r\<lparr>rd_frame := h\<rparr>) = (r1, ec2)"
      by (cases "open_frame (r\<lparr>rd_frame := h\<rparr>)")
    have law: "rd_size r1 \<le> rd_maximum r1" "rd_maximum r1 = rd_maximum r" "rd_server r1 = rd_server r"
      "rd_frame r1 = h" "\<not> rd_payload r1" "rd_continuing r1 = rd_continuing r"
      "rd_continuing r \<Longrightarrow> rd_size r1 = rd_size r"
      "ec2 = e_success \<Longrightarrow> \<not> rd_continuing r \<Longrightarrow> \<not> is_control (fh_code h) \<Longrightarrow> rd_size r1 = 0"
      using open_frame_law [OF o] inv by (auto simp: reader_inv_def)
    let ?big = "\<not> is_control (fh_code h) \<and> rd_maximum r1 - min (rd_maximum r1) (rd_size r1) < fh_length h"
    let ?r = "r1\<lparr>rd_offset := 0, rd_payload := True\<rparr>"
    show ?thesis
    proof (cases "failed ec2 \<or> ?big")
      case True
      then have "r' = r1" "msg' = msg" "n = 0" using put p False o law(4)
        by (auto simp: put_header_def split: if_splits)
      then show ?thesis using law inv by (auto simp: step_law_def reader_inv_def rd_mid_def)
    next
      case ok: False
      then have "is_control (fh_code h) \<or> unat (fh_length h) \<le> unat (rd_maximum r1) - unat (rd_size r1)"
        by (auto simp: not_less word_le_nat_alt word_max_sub_min)
      then have invr: "reader_inv ?r" using law by (auto simp: reader_inv_def word_le_nat_alt)
      show ?thesis
      proof (cases "fh_length h = 0")
        case nonzero: False
        then have "r' = ?r" "msg' = msg" using put p False o ok law by (auto simp: put_header_def)
        then show ?thesis using invr inv law ok by (auto simp: step_law_def rd_mid_def)
      next
        case True
        then obtain m where m: "put_payload ?r msg [] = (m, r', msg', out, ec)"
          using put p False o ok law by (auto simp: put_header_def split: prod.splits)
        have "msg' = msg" "rd_size r' = rd_size r1" "rd_maximum r' = rd_maximum r1"
          "rd_server r' = rd_server r1" "\<not> rd_payload r'"
          "ec = e_success \<Longrightarrow> out = ev_none \<Longrightarrow> \<not> is_control (fh_code h) \<and> rd_continuing r'"
          using put_empty_law [OF _ _ m] True law(4) by simp_all
        then show ?thesis
          using law inv ok by (auto simp: step_law_def reader_inv_def rd_mid_def)
      qed
    qed
  qed
qed

lemma reader_step_law:
  assumes "reader_inv r" "flat_invar msg" "reader_step r msg data = (n, r', msg', out, ec)"
  shows "step_law r msg r' msg' (ec = e_success \<and> out = ev_none \<and> n \<noteq> 0)"
  using assms put_header_law put_data_law put_control_law
  by (cases "is_control (fh_code (rd_frame r))") (auto simp: reader_step_def put_payload_def split: if_splits)

text \<open>What a call of \<open>put\<close> leaves: the bytes appended are the growth of the message size.\<close>

definition put_law :: "ws_reader \<Rightarrow> flat_buffer \<Rightarrow> ws_reader \<Rightarrow> flat_buffer \<Rightarrow> bool" where
  "put_law r msg r' msg' \<longleftrightarrow> reader_inv r' \<and> flat_invar msg' \<and> rd_maximum r' = rd_maximum r \<and>
     rd_server r' = rd_server r \<and>
     (\<exists>app. flat_data msg' = flat_data msg @ app \<and>
       (if rd_mid r then unat (rd_size r') = unat (rd_size r) + length app
        else app = [] \<or> unat (rd_size r') = length app))"

lemma step_law_stop: "step_law r msg r' msg' go \<Longrightarrow> put_law r msg r' msg'"
  by (auto simp: step_law_def put_law_def)

lemma step_law_go:
  "step_law r msg r1 msg1 True \<Longrightarrow> put_law r1 msg1 r' msg' \<Longrightarrow> put_law r msg r' msg'"
  by (auto simp: step_law_def put_law_def split: if_splits)

lemma reader_put_law:
  assumes "reader_inv r" "flat_invar msg" "reader_put r msg data used = (n, r', msg', out, ec)"
  shows "put_law r msg r' msg' \<and> used \<le> n \<and> n \<le> used + length data"
  using assms
proof (induction r msg data used rule: reader_put.induct)
  case (1 r msg data used)
  obtain k r1 msg1 out1 ec1 where s: "reader_step r msg data = (k, r1, msg1, out1, ec1)"
    by (cases "reader_step r msg data")
  note law = reader_step_law [OF "1.prems"(1,2) s]
  have k: "k \<le> length data" using s by (rule reader_step_le)
  show ?case
  proof (cases "failed ec1 \<or> out1 \<noteq> ev_none \<or> k = 0")
    case True
    then show ?thesis using "1.prems"(3) s k step_law_stop [OF law]
      by (auto simp: reader_put.simps [of r] split: if_splits)
  next
    case False
    then have go: "step_law r msg r1 msg1 True" using law by simp
    then have inv: "reader_inv r1" "flat_invar msg1" by (simp_all add: step_law_def)
    have "reader_put r1 msg1 (drop k data) (used + k) = (n, r', msg', out, ec)"
      using "1.prems"(3) s False by (simp add: reader_put.simps [of r])
    then have "put_law r1 msg1 r' msg' \<and> used + k \<le> n \<and> n \<le> used + k + length (drop k data)"
      using "1.IH" [OF s [symmetric] refl refl refl] inv False by simp
    then show ?thesis using step_law_go [OF go] k by simp
  qed
qed

text \<open>
  C33. The websocket reader never consumes more than it is given, and never lets a message grow
  past the configured maximum, for any received bytes and however they are divided over
  calls. From a reader that satisfies the invariant (a new one does), a call of \<open>put\<close> appends
  to the message buffer exactly the growth of the tracked message size, and the tracked
  size stays at most the maximum.
\<close>

theorem ws_reader_bounded:
  assumes "reader_inv r" "flat_invar msg" "reader_put r msg data 0 = (n, r', msg', out, ec)"
  shows "n \<le> length data \<and> reader_inv r' \<and> flat_invar msg' \<and> rd_maximum r' = rd_maximum r \<and>
    (\<exists>app. flat_data msg' = flat_data msg @ app \<and> length app \<le> unat (rd_maximum r) \<and>
      (if rd_mid r then unat (rd_size r') = unat (rd_size r) + length app
       else app = [] \<or> unat (rd_size r') = length app))"
proof -
  have law: "put_law r msg r' msg'" "n \<le> length data" using reader_put_law [OF assms] by simp_all
  then have "unat (rd_size r') \<le> unat (rd_maximum r)"
    by (auto simp: put_law_def reader_inv_def word_le_nat_alt)
  with law show ?thesis by (fastforce simp: put_law_def split: if_splits)
qed

lemma reader_init_inv: "reader_inv (reader_init lim srv)"
  by (simp add: reader_inv_def reader_init_def)

lemma flat_init_inv: "lim < 2 ^ 64 \<Longrightarrow> flat_invar (flat_init lim)"
  by (simp add: flat_invar_def flat_init_def)

theorem ws_reader_bounded_witness:
  "\<exists>n r' msg' out ec. reader_put (reader_init 100 True) (flat_init 1000) [0x81, 0x81, 0, 0, 0, 0, 0x41] 0 =
     (n, r', msg', out, ec) \<and> n \<le> 7 \<and> reader_inv r'"
proof -
  obtain n r' msg' out ec where put: "reader_put (reader_init 100 True) (flat_init 1000)
      [0x81, 0x81, 0, 0, 0, 0, 0x41] 0 = (n, r', msg', out, ec)"
    by (cases "reader_put (reader_init 100 True) (flat_init 1000) [0x81, 0x81, 0, 0, 0, 0, 0x41] 0")
  have "flat_invar (flat_init 1000)" by (simp add: flat_init_inv)
  from ws_reader_bounded [OF reader_init_inv this put] put show ?thesis by auto
qed

section \<open>Reassembly of fragmented messages\<close>

definition frame_bytes :: "opcode \<Rightarrow> bool \<Rightarrow> mask \<Rightarrow> bytes \<Rightarrow> bytes" where
  "frame_bytes c fin key text =
     serialize_header c fin (of_nat (length text)) (Some key) @ apply_mask text key 0"

text \<open>A message as its sender fragments it, each fragment with a key of its own.\<close>

fun message_bytes :: "opcode \<Rightarrow> (mask \<times> bytes) list \<Rightarrow> bytes" where
  "message_bytes c [] = []"
| "message_bytes c [(key, text)] = frame_bytes c True key text"
| "message_bytes c ((key, text) # f # fs) =
     frame_bytes c False key text @ message_bytes op_continuation (f # fs)"

text \<open>The reader as \<open>open_frame\<close> leaves it for a data frame, and the frame that it reads.\<close>

definition opened :: "ws_reader \<Rightarrow> opcode \<Rightarrow> ws_reader" where
  "opened r c =
     (if c = op_continuation then r
      else r\<lparr>rd_binary := (c = op_binary), rd_utf8 := utf8_init, rd_size := 0\<rparr>)"

lemma opened_simps [simp]:
  "rd_server (opened r c) = rd_server r" "rd_maximum (opened r c) = rd_maximum r"
  by (simp_all add: opened_def)

definition reading :: "ws_reader \<Rightarrow> opcode \<Rightarrow> bool \<Rightarrow> uint64 \<Rightarrow> mask \<Rightarrow> ws_reader" where
  "reading r c fin len key = (opened r c)\<lparr>rd_frame := parsed_header (rd_frame r) c fin len (Some key),
     rd_offset := 0, rd_payload := True\<rparr>"

definition ready_for :: "ws_reader \<Rightarrow> opcode \<Rightarrow> bytes \<Rightarrow> bool" where
  "ready_for r c text \<longleftrightarrow> \<not> rd_payload r \<and> rd_server r \<and> \<not> is_control c \<and>
     (rd_continuing r \<longleftrightarrow> c = op_continuation) \<and> length text < 2 ^ 63 \<and>
     unat (rd_size (opened r c)) + length text \<le> unat (rd_maximum r)"

lemma put_header_frame:
  assumes "ready_for r c text" "length key = 4"
  shows "put_header r msg (serialize_header c fin (of_nat (length text)) (Some key) @ body) =
    (let sz = length (serialize_header c fin (of_nat (length text)) (Some key));
         r' = reading r c fin (of_nat (length text)) key
     in if text = [] then
       (case put_payload r' msg [] of (_, r, msg, out, ec) \<Rightarrow> (sz, r, msg, out, ec))
     else (sz, r', msg, ev_none, e_success))"
proof -
  let ?len = "of_nat (length text) :: uint64"
  have len: "unat ?len = length text" using assms by (simp add: ready_for_def unat_of_nat)
  have ok: "header_ok c fin ?len (Some key)"
    using assms len by (simp add: header_ok_def ready_for_def)
  have zero: "?len = 0 \<longleftrightarrow> text = []" using len by (simp add: word_unat_eq_iff)
  have opn: "open_frame (r\<lparr>rd_frame := h\<rparr>) = ((opened r c)\<lparr>rd_frame := h\<rparr>, e_success)"
    if "fh_code h = c" for h
    using assms that by (cases c) (auto simp: ready_for_def open_frame_def opened_def)
  have fits: "\<not> rd_maximum r - min (rd_maximum r) (rd_size (opened r c)) < ?len"
    using assms len by (auto simp: ready_for_def word_less_nat_alt word_max_sub_min)
  have same: "rd_maximum (opened r c) = rd_maximum r" by (simp add: opened_def)
  show ?thesis
    using parse_serialized [OF ok, of True "rd_frame r" body] assms(1) fits same zero
    by (simp add: put_header_def ready_for_def opn reading_def Let_def parsed_header_def
        split: prod.splits)
qed

text \<open>The reader and the buffer after a whole data frame.\<close>

definition frame_read :: "ws_reader \<Rightarrow> opcode \<Rightarrow> bool \<Rightarrow> bytes \<Rightarrow> flat_buffer \<Rightarrow> ws_reader \<Rightarrow> flat_buffer \<Rightarrow> bool" where
  "frame_read r c fin text msg r' msg' \<longleftrightarrow>
     flat_invar msg' \<and> flat_data msg' = flat_data msg @ text \<and> limit msg' = limit msg \<and>
     \<not> rd_payload r' \<and> (rd_continuing r' \<longleftrightarrow> \<not> fin) \<and> rd_server r' = rd_server r \<and>
     rd_maximum r' = rd_maximum r \<and> rd_binary r' = rd_binary (opened r c) \<and>
     unat (rd_size r') = unat (rd_size (opened r c)) + length text \<and>
     (\<not> fin \<and> \<not> rd_binary r' \<longrightarrow> rd_utf8 r' = snd (utf8_write (rd_utf8 (opened r c)) text))"

definition text_ok :: "ws_reader \<Rightarrow> opcode \<Rightarrow> bool \<Rightarrow> bytes \<Rightarrow> bool" where
  "text_ok r c fin text \<longleftrightarrow> rd_binary (opened r c) \<or>
     (case utf8_write (rd_utf8 (opened r c)) text of (ok, u) \<Rightarrow> ok \<and> (fin \<longrightarrow> needed u = 0))"

lemma put_bytes_frame:
  assumes "flat_invar msg" "length (flat_data msg) + length text \<le> limit msg" "text_ok r c fin text"
  shows "\<exists>msg' u. put_bytes (reading r c fin len key) msg (apply_mask text key 0) =
      ((reading r c fin len key)\<lparr>rd_utf8 := u\<rparr>, msg', e_success) \<and>
    flat_invar msg' \<and> flat_data msg' = flat_data msg @ text \<and> limit msg' = limit msg \<and>
    (\<not> rd_binary (opened r c) \<longrightarrow> u = snd (utf8_write (rd_utf8 (opened r c)) text))"
proof (cases "text = []")
  case True
  then show ?thesis using assms
    by (auto simp: put_bytes_def reading_def intro!: exI [of _ "rd_utf8 (opened r c)"])
next
  case False
  then have ne: "apply_mask text key 0 \<noteq> []" by (metis length_0_conv length_apply_mask)
  obtain m where m: "flat_prepare (length text) msg = Some m"
    using flat.append_fits [OF assms(1)] assms(2) by (auto simp: flat_max_size_def)
  note app = flat.append_law [OF assms(1) m]
  let ?r = "reading r c fin len key"
  have un: "(if fh_masked (rd_frame ?r) then apply_mask (apply_mask text key 0) (fh_key (rd_frame ?r)) (rd_offset ?r)
      else apply_mask text key 0) = text"
    by (simp add: reading_def parsed_header_def)
  have bin: "rd_binary ?r = rd_binary (opened r c)" and u8: "rd_utf8 ?r = rd_utf8 (opened r c)"
    by (simp_all add: reading_def)
  show ?thesis
  proof (cases "rd_binary (opened r c)")
    case True
    then have "put_bytes ?r msg (apply_mask text key 0) =
      (?r\<lparr>rd_utf8 := rd_utf8 ?r\<rparr>, flat_commit (length text) (flat_write text m), e_success)"
      using m ne un bin by (simp add: put_bytes_def)
    then show ?thesis using app True
      by (intro exI [of _ "flat_commit (length text) (flat_write text m)"] exI [of _ "rd_utf8 ?r"])
        (simp add: flat_max_size_def)
  next
    case False
    then obtain u where u: "utf8_write (rd_utf8 (opened r c)) text = (True, u)"
      using assms(3) by (auto simp: text_ok_def split: prod.splits)
    then have "put_bytes ?r msg (apply_mask text key 0) =
      (?r\<lparr>rd_utf8 := u\<rparr>, flat_commit (length text) (flat_write text m), e_success)"
      using m ne un bin u8 False by (simp add: put_bytes_def)
    then show ?thesis using app u by (auto simp: flat_max_size_def)
  qed
qed

lemma put_payload_frame:
  assumes ready: "ready_for r c text" and msg: "flat_invar msg"
    "length (flat_data msg) + length text \<le> limit msg" and ok: "text_ok r c fin text"
  shows "\<exists>r' msg'. put_payload (reading r c fin (of_nat (length text)) key) msg (apply_mask text key 0 @ rest) =
      (length text, r', msg', if fin then ev_message else ev_none, e_success) \<and>
    frame_read r c fin text msg r' msg'"
proof -
  let ?len = "of_nat (length text) :: uint64"
  let ?r = "reading r c fin ?len key"
  have len: "unat ?len = length text" using ready by (simp add: ready_for_def unat_of_nat)
  obtain msg' u where put: "put_bytes ?r msg (apply_mask text key 0) = (?r\<lparr>rd_utf8 := u\<rparr>, msg', e_success)"
    and m: "flat_invar msg'" "flat_data msg' = flat_data msg @ text" "limit msg' = limit msg"
    and u: "\<not> rd_binary (opened r c) \<Longrightarrow> u = snd (utf8_write (rd_utf8 (opened r c)) text)"
    using put_bytes_frame [OF msg ok, of ?len key] by blast
  have nc: "\<not> is_control (fh_code (rd_frame ?r))" and flen: "fh_length (rd_frame ?r) = ?len"
    and off: "rd_offset ?r = 0"
    using ready by (simp_all add: reading_def parsed_header_def ready_for_def)
  have size: "unat (rd_size (opened r c) + ?len) = unat (rd_size (opened r c)) + length text"
    using ready by (intro word_add_nat_le [where b = "rd_maximum r"]) (simp add: ready_for_def)
  let ?r' = "?r\<lparr>rd_utf8 := u, rd_offset := ?len, rd_size := rd_size (opened r c) + ?len\<rparr>"
  have "put_payload ?r msg (apply_mask text key 0 @ rest) =
      (case end_frame ?r' of (r, out, ec) \<Rightarrow> (length text, r, msg', out, ec))"
    using put nc flen off len
    by (simp add: put_payload_def Let_def) (simp add: reading_def split: prod.split)
  moreover have "\<exists>r'. end_frame ?r' = (r', if fin then ev_message else ev_none, e_success) \<and>
      frame_read r c fin text msg r' msg'"
    using ok u m size
    by (auto simp: end_frame_def Let_def reading_def parsed_header_def text_ok_def utf8_finish_def
        frame_read_def split: prod.splits)
  ultimately show ?thesis by auto
qed

lemma serialize_header_nonempty: "length (serialize_header c fin len key) \<noteq> 0"
  by (simp add: serialize_header_def)

lemma reader_put_frame:
  assumes ready: "ready_for r c text" and key: "length key = 4" and msg: "flat_invar msg"
    "length (flat_data msg) + length text \<le> limit msg" and ok: "text_ok r c fin text"
  shows "\<exists>r' msg'. frame_read r c fin text msg r' msg' \<and>
    reader_put r msg (frame_bytes c fin key text @ rest) used =
      (if fin then (used + length (frame_bytes c fin key text), r', msg', ev_message, e_success)
       else reader_put r' msg' rest (used + length (frame_bytes c fin key text)))"
proof -
  let ?len = "of_nat (length text) :: uint64"
  let ?h = "serialize_header c fin ?len (Some key)"
  let ?r = "reading r c fin ?len key"
  have idle: "\<not> rd_payload r" and busy: "rd_payload ?r"
    using ready by (simp_all add: ready_for_def reading_def)
  note pay = put_payload_frame [OF ready msg ok, of key]
  show ?thesis
  proof (cases "text = []")
    case True
    obtain r' msg' where p: "put_payload ?r msg [] =
        (0, r', msg', if fin then ev_message else ev_none, e_success)"
      and law: "frame_read r c fin text msg r' msg'"
      using pay [of "[]"] True by auto
    have "reader_step r msg (frame_bytes c fin key text @ rest) =
        (length ?h, r', msg', if fin then ev_message else ev_none, e_success)"
      using put_header_frame [OF ready key, of msg fin rest] p True idle
      by (simp add: reader_step_def frame_bytes_def)
    then show ?thesis using law True serialize_header_nonempty
      by (intro exI [of _ r'] exI [of _ msg']) (simp add: reader_put.simps [of r] frame_bytes_def)
  next
    case False
    obtain r' msg' where p: "put_payload ?r msg (apply_mask text key 0 @ rest) =
        (length text, r', msg', if fin then ev_message else ev_none, e_success)"
      and law: "frame_read r c fin text msg r' msg'"
      using pay [of rest] by blast
    have "reader_step r msg (frame_bytes c fin key text @ rest) = (length ?h, ?r, msg, ev_none, e_success)"
      using put_header_frame [OF ready key, of msg fin "apply_mask text key 0 @ rest"] False idle
      by (simp add: reader_step_def frame_bytes_def Let_def)
    then have "reader_put r msg (frame_bytes c fin key text @ rest) used =
        reader_put ?r msg (apply_mask text key 0 @ rest) (used + length ?h)"
      using serialize_header_nonempty by (simp add: reader_put.simps [of r] frame_bytes_def)
    moreover have "reader_step ?r msg (apply_mask text key 0 @ rest) =
        (length text, r', msg', if fin then ev_message else ev_none, e_success)"
      using p busy by (simp add: reader_step_def)
    ultimately show ?thesis using law False
      by (intro exI [of _ r'] exI [of _ msg'])
        (simp add: reader_put.simps [of ?r] frame_bytes_def add.assoc)
  qed
qed

lemma next_fragment:
  assumes "ready_for r c (text @ later)" "text_ok r c True (text @ later)"
    "frame_read r c False text msg r' msg'"
  shows "ready_for r c text" "text_ok r c False text"
    "ready_for r' op_continuation later" "text_ok r' op_continuation True later"
proof -
  show "ready_for r c text" "text_ok r c False text"
    using assms by (auto simp: ready_for_def text_ok_def utf8_write_append split: prod.splits bool.splits)
  have "opened r' op_continuation = r'" by (simp add: opened_def)
  then show "ready_for r' op_continuation later" "text_ok r' op_continuation True later"
    using assms
    by (auto simp: ready_for_def text_ok_def frame_read_def utf8_write_append split: prod.splits bool.splits)
qed

lemma fragment_prefix:
  assumes "ready_for r c (text @ later)" "text_ok r c True (text @ later)"
  shows "ready_for r c text" "text_ok r c False text"
  using assms by (auto simp: ready_for_def text_ok_def utf8_write_append split: prod.splits bool.splits)

lemma reader_put_message:
  assumes "fs \<noteq> []" "list_all (\<lambda>(key, _). length key = 4) fs"
    "ready_for r c (concat (map snd fs))" "text_ok r c True (concat (map snd fs))"
    "flat_invar msg" "length (flat_data msg) + length (concat (map snd fs)) \<le> limit msg"
  shows "\<exists>r' msg'. reader_put r msg (message_bytes c fs @ rest) used =
      (used + length (message_bytes c fs), r', msg', ev_message, e_success) \<and>
    flat_data msg' = flat_data msg @ concat (map snd fs) \<and> flat_invar msg' \<and>
    \<not> rd_payload r' \<and> \<not> rd_continuing r' \<and> rd_binary r' = rd_binary (opened r c)"
  using assms
proof (induction c fs arbitrary: r msg used rule: message_bytes.induct)
  case (2 c key t)
  then show ?case
    using reader_put_frame [of r c t key msg True rest used] by (auto simp: frame_read_def)
next
  case (3 c key t f fs)
  let ?later = "concat (map snd (f # fs))"
  have pre: "ready_for r c (t @ ?later)" "text_ok r c True (t @ ?later)" using 3 by simp_all
  obtain r1 msg1 where law: "frame_read r c False t msg r1 msg1"
    and put: "reader_put r msg (frame_bytes c False key t @ message_bytes op_continuation (f # fs) @ rest) used =
      reader_put r1 msg1 (message_bytes op_continuation (f # fs) @ rest)
        (used + length (frame_bytes c False key t))"
    using reader_put_frame [OF fragment_prefix(1) [OF pre] _ _ _ fragment_prefix(2) [OF pre], of key msg]
      "3.prems" by fastforce
  have buf: "flat_invar msg1" "length (flat_data msg1) + length ?later \<le> limit msg1"
    using law "3.prems"(6) by (simp_all add: frame_read_def)
  have "list_all (\<lambda>(key, _). length key = 4) (f # fs)" using "3.prems"(2) by simp
  from "3.IH" [OF _ this next_fragment(3,4) [OF pre law] buf,
      of "used + length (frame_bytes c False key t)"]
  obtain r' msg' where IH: "reader_put r1 msg1 (message_bytes op_continuation (f # fs) @ rest)
        (used + length (frame_bytes c False key t)) =
      (used + length (frame_bytes c False key t) + length (message_bytes op_continuation (f # fs)),
        r', msg', ev_message, e_success)"
    "flat_data msg' = flat_data msg1 @ ?later" "flat_invar msg'" "\<not> rd_payload r'" "\<not> rd_continuing r'"
    "rd_binary r' = rd_binary (opened r1 op_continuation)"
    by blast
  then show ?case using put law
    by (intro exI [of _ r'] exI [of _ msg']) (simp add: frame_read_def opened_def)
qed simp

text \<open>
  C5. A server reader reassembles a fragmented message. For any division of a message into
  masked fragments (the first with the data opcode, the others continuations, the last final)
  followed by any further bytes, one call of \<open>put\<close> consumes exactly the fragments, reports the
  message event, and has appended the concatenated plain payloads to the message buffer: provided
  the reader is between messages, the message is within the reader maximum and the buffer limit,
  and it is binary or valid UTF-8 as a whole (a character may span fragments).
\<close>

theorem ws_reader_reassembles:
  assumes "fs \<noteq> []" "list_all (\<lambda>(key, _). length key = 4) fs"
    and whole: "text = concat (map snd fs)" "length text \<le> unat (rd_maximum r)" "length text < 2 ^ 63"
    and "\<not> rd_payload r" "\<not> rd_continuing r" "rd_server r"
    and c: "c = op_binary \<or> c = op_text \<and> utf8_valid text"
    and "flat_invar msg" "length (flat_data msg) + length text \<le> limit msg"
  shows "\<exists>r' msg'. reader_put r msg (message_bytes c fs @ rest) 0 =
      (length (message_bytes c fs), r', msg', ev_message, e_success) \<and>
    flat_data msg' = flat_data msg @ text \<and> flat_invar msg' \<and> (rd_binary r' \<longleftrightarrow> c = op_binary) \<and>
    \<not> rd_payload r' \<and> \<not> rd_continuing r'"
proof -
  have "ready_for r c text" using assms by (auto simp: ready_for_def opened_def)
  moreover have "text_ok r c True text"
    using c by (auto simp: text_ok_def opened_def utf8_valid_def utf8_finish_def split: prod.splits)
  ultimately show ?thesis
    using reader_put_message [of fs r c msg rest 0] assms
    by (auto simp: opened_def)
qed

theorem ws_reader_reassembles_witness:
  "\<exists>r' msg'. reader_put (reader_init 100 True) (flat_init 1000)
      (message_bytes op_binary [([1, 2, 3, 4], [0x41]), ([5, 6, 7, 8], [0x42, 0x43])] @ [0x89]) 0 =
      (length (message_bytes op_binary [([1, 2, 3, 4], [0x41]), ([5, 6, 7, 8], [0x42, 0x43])]),
       r', msg', ev_message, e_success) \<and> flat_data msg' = [0x41, 0x42, 0x43]"
proof -
  have lim: "limit (flat_init 1000) = 1000" "flat_data (flat_init 1000) = []"
    by (simp_all add: flat_init_def flat_data_def)
  have rd: "\<not> rd_payload (reader_init 100 True)" "\<not> rd_continuing (reader_init 100 True)"
    "rd_server (reader_init 100 True)" "rd_maximum (reader_init 100 True) = 100"
    by (simp_all add: reader_init_def)
  show ?thesis
    using ws_reader_reassembles [of "[([1, 2, 3, 4], [0x41]), ([5, 6, 7, 8], [0x42, 0x43])]"
        "[0x41, 0x42, 0x43]" "reader_init 100 True" op_binary "flat_init 1000" "[0x89]"]
    by (auto simp: lim rd flat_init_inv simp del: message_bytes.simps)
qed

end
