(* ===== verification/Races.thy ===== *)
theory Races
  imports Error_Code
begin

text \<open>
  The completion races of \<open>src/include/bitcoin/network/impl/async/races\<close>. A race is started with
  a completion handler and is finished by a number of competing operations; the handler is
  invoked once, with the arguments of the operation that the kind of race selects. A state is the
  object's members; an operation returns its result, the new state and the handler invocations it
  makes, in order. \<open>args_\<close> is None while it holds the value-initialised tuple. A handler runs to
  completion within the call that invokes it and is assumed not to call back into the race.

  The three tuple races (speed, quality, unity) share one contract, the locale \<open>race\<close>, from which
  the behaviour of a whole race is derived once and instantiated for each.
\<close>

section \<open>Race state and invocation\<close>

record ('h, 'a) race =
  race_args :: "'a option"
  race_runners :: nat
  race_complete :: "'h option"

definition race_running :: "('h, 'a, 'z) race_scheme \<Rightarrow> bool" where
  "race_running r \<longleftrightarrow> race_runners r \<noteq> 0"

definition race_invoke :: "('h, 'a, 'z) race_scheme \<Rightarrow>
    bool \<times> ('h, 'a, 'z) race_scheme \<times> ('h \<times> 'a option) list" where
  "race_invoke r =
    (if \<not> race_running r then (False, r, [])
     else let r1 = r\<lparr>race_runners := race_runners r - 1\<rparr> in
       if race_running r1 then (True, r1, [])
       else (case race_complete r1 of
           None \<Rightarrow> (False, r1, [])
         | Some complete \<Rightarrow>
             (True, r1\<lparr>race_complete := None, race_args := None\<rparr>, [(complete, race_args r1)])))"

section \<open>Speed: the first to finish wins\<close>

type_synonym ('h, 'a) race_speed = "('h, 'a) race"

definition speed_init :: "('h, 'a) race_speed" where
  "speed_init = \<lparr>race_args = None, race_runners = 0, race_complete = None\<rparr>"

definition speed_start :: "nat \<Rightarrow> 'h \<Rightarrow> ('h, 'a) race_speed \<Rightarrow> bool \<times> ('h, 'a) race_speed" where
  "speed_start size_t complete r =
    (if race_running r then (False, r)
     else (True, r\<lparr>race_complete := Some complete, race_runners := size_t\<rparr>))"

definition speed_is_winner :: "nat \<Rightarrow> ('h, 'a) race_speed \<Rightarrow> bool" where
  "speed_is_winner size_t r \<longleftrightarrow> race_runners r = size_t"

definition speed_finish :: "nat \<Rightarrow> 'a \<Rightarrow> ('h, 'a) race_speed \<Rightarrow>
    bool \<times> ('h, 'a) race_speed \<times> ('h \<times> 'a option) list" where
  "speed_finish size_t args r =
    (if \<not> race_running r then (False, r, [])
     else let winner = speed_is_winner size_t r;
              r1 = (if winner then r\<lparr>race_args := Some args\<rparr> else r);
              (invoked, r2, calls) = race_invoke r1
          in (invoked \<and> winner, r2, calls))"

section \<open>Quality: the first success wins\<close>

record ('h, 'a) race_quality = "('h, 'a) race" +
  quality_size :: nat
  quality_success :: bool

definition quality_init :: "nat \<Rightarrow> ('h, 'a) race_quality" where
  "quality_init size_t = \<lparr>race_args = None, race_runners = 0, race_complete = None,
     quality_size = size_t, quality_success = False\<rparr>"

definition quality_start :: "'h \<Rightarrow> ('h, 'a) race_quality \<Rightarrow> bool \<times> ('h, 'a) race_quality" where
  "quality_start complete r =
    (if race_running r then (False, r)
     else (True, r\<lparr>race_complete := Some complete, quality_success := False,
                   race_runners := quality_size r\<rparr>))"

definition set_winner :: "bool \<Rightarrow> ('h, 'a) race_quality \<Rightarrow> bool \<times> ('h, 'a) race_quality" where
  "set_winner success r =
    (let winner = (success \<and> \<not> quality_success r)
     in (winner, r\<lparr>quality_success := quality_success r \<or> winner\<rparr>))"

definition quality_finish :: "error_t \<times> 'a \<Rightarrow> ('h, error_t \<times> 'a) race_quality \<Rightarrow>
    bool \<times> ('h, error_t \<times> 'a) race_quality \<times> ('h \<times> (error_t \<times> 'a) option) list" where
  "quality_finish args r =
    (if \<not> race_running r then (False, r, [])
     else let (winner, r1) = set_winner (\<not> failed (fst args)) r;
              last_one = (race_runners r1 = 1);
              r2 = (if winner \<or> (last_one \<and> \<not> quality_success r1)
                    then r1\<lparr>race_args := Some args\<rparr> else r1);
              (invoked, r3, calls) = race_invoke r2
          in (invoked \<and> winner, r3, calls))"

section \<open>Unity: the first failure wins\<close>

record ('h, 'a) race_unity = "('h, 'a) race" +
  unity_size :: nat
  unity_failure :: bool

definition unity_init :: "nat \<Rightarrow> ('h, 'a) race_unity" where
  "unity_init size_t = \<lparr>race_args = None, race_runners = 0, race_complete = None,
     unity_size = size_t, unity_failure = False\<rparr>"

definition unity_start :: "'h \<Rightarrow> ('h, 'a) race_unity \<Rightarrow> bool \<times> ('h, 'a) race_unity" where
  "unity_start complete r =
    (if race_running r then (False, r)
     else (True, r\<lparr>race_complete := Some complete, unity_failure := False,
                   race_runners := unity_size r\<rparr>))"

definition set_failure :: "bool \<Rightarrow> ('h, 'a) race_unity \<Rightarrow> bool \<times> ('h, 'a) race_unity" where
  "set_failure failure r =
    (let failer = (failure \<and> \<not> unity_failure r)
     in (failer, r\<lparr>unity_failure := unity_failure r \<or> failer\<rparr>))"

definition unity_finish :: "error_t \<times> 'a \<Rightarrow> ('h, error_t \<times> 'a) race_unity \<Rightarrow>
    bool \<times> ('h, error_t \<times> 'a) race_unity \<times> ('h \<times> (error_t \<times> 'a) option) list" where
  "unity_finish args r =
    (if \<not> race_running r then (False, r, [])
     else let (failer, r1) = set_failure (failed (fst args)) r;
              last_one = (race_runners r1 = 1);
              r2 = (if failer \<or> (last_one \<and> \<not> unity_failure r1)
                    then r1\<lparr>race_args := Some args\<rparr> else r1);
              (invoked, r3, calls) = race_invoke r2
          in (invoked \<and> last_one \<and> \<not> unity_failure r3, r3, calls))"

section \<open>Volume: the first sufficient count\<close>

record 'h race_volume =
  volume_size :: nat
  volume_required :: nat
  volume_runners :: nat
  volume_sufficient :: "'h option"
  volume_complete :: "'h option"

definition volume_init :: "nat \<Rightarrow> nat \<Rightarrow> 'h race_volume" where
  "volume_init size_t required = \<lparr>volume_size = size_t, volume_required = required,
     volume_runners = 0, volume_sufficient = None, volume_complete = None\<rparr>"

definition volume_running :: "'h race_volume \<Rightarrow> bool" where
  "volume_running r \<longleftrightarrow> volume_runners r \<noteq> 0"

definition volume_start :: "'h \<Rightarrow> 'h \<Rightarrow> 'h race_volume \<Rightarrow> bool \<times> 'h race_volume" where
  "volume_start sufficient complete r =
    (if volume_running r then (False, r)
     else (True, r\<lparr>volume_sufficient := Some sufficient, volume_complete := Some complete,
                   volume_runners := volume_size r\<rparr>))"

definition volume_invoke :: "error_t \<Rightarrow> 'h race_volume \<Rightarrow> bool \<times> 'h race_volume \<times> ('h \<times> error_t) list" where
  "volume_invoke success r =
    (if \<not> volume_running r then (False, r, [])
     else let r1 = r\<lparr>volume_runners := volume_runners r - 1\<rparr> in
       if volume_running r1 then (True, r1, [])
       else (case volume_complete r1 of
           None \<Rightarrow> (False, r1, [])
         | Some complete \<Rightarrow> (True, r1\<lparr>volume_complete := None\<rparr>, [(complete, success)])))"

definition volume_finish :: "error_t \<Rightarrow> error_t \<Rightarrow> nat \<Rightarrow> 'h race_volume \<Rightarrow>
    bool \<times> 'h race_volume \<times> ('h \<times> error_t) list" where
  "volume_finish success fail count r =
    (if \<not> volume_running r then (False, r, [])
     else let (winner, r1, calls) =
         (case volume_sufficient r of
            None \<Rightarrow> (False, r, [])
          | Some sufficient \<Rightarrow>
              if volume_required r \<le> count
              then (True, r\<lparr>volume_sufficient := None\<rparr>, [(sufficient, success)])
              else if volume_runners r = 1
              then (False, r\<lparr>volume_sufficient := None\<rparr>, [(sufficient, fail)])
              else (False, r, []));
         (invoked, r2, calls2) = volume_invoke success r1
       in (invoked \<and> winner, r2, calls @ calls2))"

section \<open>Any: the first finisher, or failure when released\<close>

record 'h race_any =
  any_finished :: bool
  any_complete :: "'h option"

definition any_init :: "'h \<Rightarrow> 'h race_any" where
  "any_init complete = \<lparr>any_finished = False, any_complete = Some complete\<rparr>"

definition any_finish :: "'a \<Rightarrow> 'h race_any \<Rightarrow> bool \<times> 'h race_any \<times> ('h option \<times> 'a) list" where
  "any_finish args r =
    (if any_finished r then (False, r, [])
     else (True, r\<lparr>any_finished := True, any_complete := None\<rparr>, [(any_complete r, args)]))"

text \<open>The destructor: \<open>failure\<close> is the tuple that \<open>complete_(error::operation_failed)\<close> passes.\<close>

definition any_release :: "'a \<Rightarrow> 'h race_any \<Rightarrow> ('h option \<times> 'a) list" where
  "any_release failure r = (if any_finished r then [] else [(any_complete r, failure)])"

text \<open>The completions made by the calls \<open>argss\<close> of \<open>finish\<close>, in any order, then the release.\<close>

fun any_run :: "'a \<Rightarrow> 'a list \<Rightarrow> 'h race_any \<Rightarrow> ('h option \<times> 'a) list" where
  "any_run failure [] r = any_release failure r"
| "any_run failure (args # argss) r =
    (let (_, r1, calls) = any_finish args r in calls @ any_run failure argss r1)"

section \<open>The contract of a race\<close>

fun run_finish :: "('a \<Rightarrow> 's \<Rightarrow> bool \<times> 's \<times> 'c list) \<Rightarrow> 'a list \<Rightarrow> 's \<Rightarrow> bool list \<times> 's \<times> 'c list list" where
  "run_finish finish [] s = ([], s, [])"
| "run_finish finish (a # as) s =
    (let (winner, s1, calls) = finish a s; (ws, s2, css) = run_finish finish as s1
     in (winner # ws, s2, calls # css))"

locale race =
  fixes start :: "'h \<Rightarrow> 's \<Rightarrow> bool \<times> 's"
    and finish :: "'a \<Rightarrow> 's \<Rightarrow> bool \<times> 's \<times> ('h \<times> 'a option) list"
    and entrants :: "'s \<Rightarrow> nat"
    and idle :: "'s \<Rightarrow> bool"
    and holding :: "'h \<Rightarrow> 'a list \<Rightarrow> 's \<Rightarrow> bool"
    and chosen :: "'a list \<Rightarrow> 'a"
    and won :: "nat \<Rightarrow> 'a list \<Rightarrow> 'a \<Rightarrow> bool"
  assumes start_law: "idle s \<Longrightarrow> 0 < entrants s \<Longrightarrow>
      \<exists>s'. start h s = (True, s') \<and> holding h [] s' \<and> entrants s' = entrants s"
    and start_refused: "holding h xs s \<Longrightarrow> length xs < entrants s \<Longrightarrow> start g s = (False, s)"
    and finish_law: "holding h xs s \<Longrightarrow> Suc (length xs) < entrants s \<Longrightarrow>
      \<exists>s'. finish a s = (won (entrants s) xs a, s', []) \<and> holding h (xs @ [a]) s' \<and>
        entrants s' = entrants s"
    and last_law: "holding h xs s \<Longrightarrow> Suc (length xs) = entrants s \<Longrightarrow>
      \<exists>s'. finish a s = (won (entrants s) xs a, s', [(h, Some (chosen (xs @ [a])))]) \<and> idle s' \<and>
        entrants s' = entrants s"
    and idle_finish: "idle s \<Longrightarrow> finish a s = (False, s, [])"
begin

lemma run_rest:
  assumes "holding h xs s" "entrants s = length xs + length ys" "ys \<noteq> []"
  shows "\<exists>s'. run_finish finish ys s =
      (map (\<lambda>i. won (entrants s) (take i (xs @ ys)) ((xs @ ys) ! i)) [length xs..<entrants s], s',
       replicate (length ys - 1) [] @ [[(h, Some (chosen (xs @ ys)))]]) \<and>
    idle s' \<and> entrants s' = entrants s"
  using assms
proof (induction ys arbitrary: xs s)
  case (Cons y ys)
  show ?case
  proof (cases "ys = []")
    case True
    then show ?thesis using last_law [OF Cons.prems(1), of y] Cons.prems(2) by (auto simp: Let_def)
  next
    case False
    then have "Suc (length xs) < entrants s" using Cons.prems(2) by (cases ys) simp_all
    from finish_law [OF Cons.prems(1) this, of y]
    obtain s1 where one: "finish y s = (won (entrants s) xs y, s1, [])" "holding h (xs @ [y]) s1"
      "entrants s1 = entrants s" by blast
    from Cons.IH [OF one(2)] one(3) Cons.prems(2) False
    obtain s' where rest: "run_finish finish ys s1 =
        (map (\<lambda>i. won (entrants s) (take i (xs @ y # ys)) ((xs @ y # ys) ! i))
           [Suc (length xs)..<entrants s], s',
         replicate (length ys - 1) [] @ [[(h, Some (chosen (xs @ y # ys)))]])"
      "idle s'" "entrants s' = entrants s" by auto
    have "[length xs..<entrants s] = length xs # [Suc (length xs)..<entrants s]"
      using Cons.prems(2) by (intro upt_conv_Cons) simp
    moreover have "replicate (length ys) ([] :: ('h \<times> 'a option) list) = [] # replicate (length ys - 1) []"
      using False by (cases ys) simp_all
    ultimately show ?thesis using one rest by simp
  qed
qed simp

text \<open>A whole race: one completion, by the last finisher, with the chosen arguments.\<close>

lemma whole_race:
  assumes "idle s" "xs \<noteq> []" "length xs = entrants s"
  shows "\<exists>s0 s'. start h s = (True, s0) \<and> run_finish finish xs s0 =
      (map (\<lambda>i. won (length xs) (take i xs) (xs ! i)) [0..<length xs], s',
       replicate (length xs - 1) [] @ [[(h, Some (chosen xs))]]) \<and> idle s'"
proof -
  obtain s0 where s0: "start h s = (True, s0)" "holding h [] s0" "entrants s0 = entrants s"
    using start_law [OF assms(1)] assms(2,3) by (metis length_greater_0_conv)
  from run_rest [OF this(2), of xs] assms(2,3) this(3) obtain s' where
    "run_finish finish xs s0 =
      (map (\<lambda>i. won (length xs) (take i xs) (xs ! i)) [0..<length xs], s',
       replicate (length xs - 1) [] @ [[(h, Some (chosen xs))]])" "idle s'" by auto
  with s0(1) show ?thesis by blast
qed

end

section \<open>The races keep the contract\<close>

definition race_idle :: "('h, 'a, 'z) race_scheme \<Rightarrow> bool" where
  "race_idle r \<longleftrightarrow> race_runners r = 0 \<and> race_complete r = None"

definition speed_holding :: "nat \<Rightarrow> 'h \<Rightarrow> 'a list \<Rightarrow> ('h, 'a) race_speed \<Rightarrow> bool" where
  "speed_holding size_t h xs r \<longleftrightarrow> race_runners r + length xs = size_t \<and> race_complete r = Some h \<and>
     (xs \<noteq> [] \<longrightarrow> race_args r = Some (hd xs))"

definition first_success :: "(error_t \<times> 'a) list \<Rightarrow> (error_t \<times> 'a) option" where
  "first_success = find (\<lambda>a. \<not> failed (fst a))"

definition first_failure :: "(error_t \<times> 'a) list \<Rightarrow> (error_t \<times> 'a) option" where
  "first_failure = find (\<lambda>a. failed (fst a))"

definition or_last :: "'a option \<Rightarrow> 'a list \<Rightarrow> 'a" where
  "or_last found xs = (case found of Some a \<Rightarrow> a | None \<Rightarrow> last xs)"

definition quality_holding :: "'h \<Rightarrow> (error_t \<times> 'a) list \<Rightarrow> ('h, error_t \<times> 'a) race_quality \<Rightarrow> bool" where
  "quality_holding h xs r \<longleftrightarrow> race_runners r + length xs = quality_size r \<and> race_complete r = Some h \<and>
     (quality_success r \<longleftrightarrow> first_success xs \<noteq> None) \<and>
     (quality_success r \<longrightarrow> race_args r = first_success xs)"

definition unity_holding :: "'h \<Rightarrow> (error_t \<times> 'a) list \<Rightarrow> ('h, error_t \<times> 'a) race_unity \<Rightarrow> bool" where
  "unity_holding h xs r \<longleftrightarrow> race_runners r + length xs = unity_size r \<and> race_complete r = Some h \<and>
     (unity_failure r \<longleftrightarrow> first_failure xs \<noteq> None) \<and>
     (unity_failure r \<longrightarrow> race_args r = first_failure xs)"

lemma find_snoc: "find P (xs @ [a]) = (if find P xs = None \<and> P a then Some a else find P xs)"
  by (induction xs) simp_all

lemma first_snoc:
  "first_success (xs @ [a]) = (if first_success xs = None \<and> \<not> failed (fst a) then Some a else first_success xs)"
  "first_failure (xs @ [a]) = (if first_failure xs = None \<and> failed (fst a) then Some a else first_failure xs)"
  by (simp_all add: first_success_def first_failure_def find_snoc)

lemma first_Nil [simp]: "first_success [] = None" "first_failure [] = None"
  by (simp_all add: first_success_def first_failure_def)

lemmas race_defs = race_running_def race_invoke_def race_idle_def Let_def

interpretation speed: race "speed_start n" "speed_finish n" "\<lambda>_. n" race_idle "speed_holding n" hd
  "\<lambda>_ xs _. xs = []" for n
proof
  fix s :: "('a, 'b) race_speed" and h xs a
  assume "speed_holding n h xs s"
  then show "Suc (length xs) < n \<Longrightarrow> \<exists>s'. speed_finish n a s = (xs = [], s', []) \<and>
      speed_holding n h (xs @ [a]) s' \<and> n = n"
    and "Suc (length xs) = n \<Longrightarrow> \<exists>s'. speed_finish n a s = (xs = [], s', [(h, Some (hd (xs @ [a])))]) \<and>
      race_idle s' \<and> n = n"
    by (auto simp: speed_finish_def speed_holding_def speed_is_winner_def race_defs)
qed (auto simp: speed_start_def speed_finish_def speed_holding_def race_defs)

interpretation quality: race quality_start quality_finish quality_size race_idle quality_holding
  "\<lambda>xs. or_last (first_success xs) xs" "\<lambda>_ xs a. first_success xs = None \<and> \<not> failed (fst a)"
proof
  fix s :: "('a, error_t \<times> 'b) race_quality" and h xs a
  assume "quality_holding h xs s"
  then show "Suc (length xs) < quality_size s \<Longrightarrow> \<exists>s'. quality_finish a s =
      (first_success xs = None \<and> \<not> failed (fst a), s', []) \<and>
      quality_holding h (xs @ [a]) s' \<and> quality_size s' = quality_size s"
    and "Suc (length xs) = quality_size s \<Longrightarrow> \<exists>s'. quality_finish a s =
      (first_success xs = None \<and> \<not> failed (fst a), s',
       [(h, Some (or_last (first_success (xs @ [a])) (xs @ [a])))]) \<and>
      race_idle s' \<and> quality_size s' = quality_size s"
    by (cases "first_success xs"; auto simp: quality_finish_def quality_holding_def set_winner_def race_defs
        first_snoc or_last_def)+
qed (auto simp: quality_start_def quality_finish_def quality_holding_def race_defs)

interpretation unity: race unity_start unity_finish unity_size race_idle unity_holding
  "\<lambda>xs. or_last (first_failure xs) xs"
  "\<lambda>n xs a. Suc (length xs) = n \<and> first_failure xs = None \<and> \<not> failed (fst a)"
proof
  fix s :: "('a, error_t \<times> 'b) race_unity" and h xs a
  assume "unity_holding h xs s"
  then show "Suc (length xs) < unity_size s \<Longrightarrow> \<exists>s'. unity_finish a s =
      (Suc (length xs) = unity_size s \<and> first_failure xs = None \<and> \<not> failed (fst a), s', []) \<and>
      unity_holding h (xs @ [a]) s' \<and> unity_size s' = unity_size s"
    and "Suc (length xs) = unity_size s \<Longrightarrow> \<exists>s'. unity_finish a s =
      (Suc (length xs) = unity_size s \<and> first_failure xs = None \<and> \<not> failed (fst a), s',
       [(h, Some (or_last (first_failure (xs @ [a])) (xs @ [a])))]) \<and>
      race_idle s' \<and> unity_size s' = unity_size s"
    by (cases "first_failure xs"; auto simp: unity_finish_def unity_holding_def set_failure_def race_defs
        first_snoc or_last_def)+
qed (auto simp: unity_start_def unity_finish_def unity_holding_def race_defs)

section \<open>Volume\<close>

fun volume_run :: "error_t \<Rightarrow> error_t \<Rightarrow> nat list \<Rightarrow> 'h race_volume \<Rightarrow> 'h race_volume \<times> ('h \<times> error_t) list" where
  "volume_run success fail [] r = (r, [])"
| "volume_run success fail (c # cs) r =
    (let (_, r1, calls) = volume_finish success fail c r; (r2, more_calls) = volume_run success fail cs r1
     in (r2, calls @ more_calls))"

lemmas volume_defs = volume_running_def volume_invoke_def volume_finish_def Let_def

lemma volume_run_decided:
  assumes "volume_sufficient r = None" "volume_complete r = Some complete"
    "volume_runners r = length cs" "cs \<noteq> []"
  shows "snd (volume_run success fail cs r) = [(complete, success)] \<and>
    (let r' = fst (volume_run success fail cs r) in
       volume_runners r' = 0 \<and> volume_sufficient r' = None \<and> volume_complete r' = None)"
  using assms
proof (induction cs arbitrary: r)
  case (Cons c cs)
  then show ?case
    by (cases "cs = []") (auto simp: volume_defs split: prod.splits)
qed simp

lemma volume_run_undecided:
  assumes "volume_sufficient r = Some sufficient" "volume_complete r = Some complete"
    "volume_runners r = length cs" "cs \<noteq> []"
  shows "snd (volume_run success fail cs r) =
      [(sufficient, if \<exists>c\<in>set cs. volume_required r \<le> c then success else fail), (complete, success)] \<and>
    (let r' = fst (volume_run success fail cs r) in
       volume_runners r' = 0 \<and> volume_sufficient r' = None \<and> volume_complete r' = None)"
  using assms
proof (induction cs arbitrary: r)
  case (Cons c cs)
  show ?case
  proof (cases "cs = []")
    case True
    then show ?thesis using Cons.prems by (auto simp: volume_defs)
  next
    case False
    show ?thesis
    proof (cases "volume_required r \<le> c")
      case True
      let ?r = "r\<lparr>volume_sufficient := None, volume_runners := length cs\<rparr>"
      have "volume_finish success fail c r = (True, ?r, [(sufficient, success)])"
        using True False Cons.prems by (simp add: volume_defs)
      then show ?thesis using volume_run_decided [of ?r complete cs success fail] False True Cons.prems
        by (auto split: prod.splits)
    next
      case small: False
      let ?r = "r\<lparr>volume_runners := length cs\<rparr>"
      have "volume_finish success fail c r = (False, ?r, [])"
        using small False Cons.prems by (simp add: volume_defs)
      then show ?thesis using Cons.IH [of ?r] False small Cons.prems
        by (auto split: prod.splits)
    qed
  qed
qed simp

section \<open>Properties\<close>

text \<open>
  A quality race of \<open>n\<close> entrants invokes its completion handler exactly once, in the last
  of the \<open>n\<close> finishes, with the arguments of the first successful finish, or of the last finish
  when all failed. The call that is the first success is the only one told that it won. The
  race is then idle and can be started again.
\<close>

theorem race_quality_completes:
  assumes "race_idle r" "xs \<noteq> []" "length xs = quality_size r"
  shows "\<exists>r0 r'. quality_start h r = (True, r0) \<and> run_finish quality_finish xs r0 =
      (map (\<lambda>i. first_success (take i xs) = None \<and> \<not> failed (fst (xs ! i))) [0..<length xs], r',
       replicate (length xs - 1) [] @ [[(h, Some (or_last (first_success xs) xs))]]) \<and> race_idle r'"
  using quality.whole_race [OF assms] by blast

theorem race_quality_completes_witness:
  "\<exists>r0 r'. quality_start ''h'' (quality_init 3) = (True, r0) \<and>
    run_finish quality_finish [(e_bad_stream, 1 :: nat), (e_success, 2), (e_success, 3)] r0 =
      ([False, True, False], r', [[], [], [(''h'', Some (e_success, 2))]]) \<and> race_idle r'"
  using race_quality_completes [of "quality_init 3" "[(e_bad_stream, 1 :: nat), (e_success, 2), (e_success, 3)]" "''h''"]
  by (simp add: race_idle_def quality_init_def first_success_def or_last_def upt_rec numeral_2_eq_2)

text \<open>
  A unity race of \<open>n\<close> entrants invokes its completion handler exactly once, in the last of
  the \<open>n\<close> finishes, with the arguments of the first failed finish, or of the last finish when all
  succeeded; the last finish is told that it won in that case only.
\<close>

theorem race_unity_completes:
  assumes "race_idle r" "xs \<noteq> []" "length xs = unity_size r"
  shows "\<exists>r0 r'. unity_start h r = (True, r0) \<and> run_finish unity_finish xs r0 =
      (map (\<lambda>i. Suc (length (take i xs)) = length xs \<and> first_failure (take i xs) = None \<and>
         \<not> failed (fst (xs ! i))) [0..<length xs], r',
       replicate (length xs - 1) [] @ [[(h, Some (or_last (first_failure xs) xs))]]) \<and> race_idle r'"
  using unity.whole_race [OF assms] by blast

theorem race_unity_completes_witness:
  "\<exists>r0 r'. unity_start ''h'' (unity_init 2) = (True, r0) \<and>
    run_finish unity_finish [(e_success, 1 :: nat), (e_success, 2)] r0 =
      ([False, True], r', [[], [(''h'', Some (e_success, 2))]]) \<and> race_idle r'"
  using race_unity_completes [of "unity_init 2" "[(e_success, 1 :: nat), (e_success, 2)]" "''h''"]
  by (simp add: race_idle_def unity_init_def first_failure_def or_last_def upt_rec numeral_2_eq_2)

text \<open>
  A speed race of \<open>n\<close> entrants invokes its completion handler exactly once, in the last of
  the \<open>n\<close> finishes, with the arguments of the first; only the first finish is told that it won.
  The read and connect timers of the channel rely on it.
\<close>

theorem race_speed_completes:
  assumes "race_idle r" "xs \<noteq> []" "length xs = n"
  shows "\<exists>r0 r'. speed_start n h r = (True, r0) \<and> run_finish (speed_finish n) xs r0 =
      (True # replicate (n - 1) False, r', replicate (n - 1) [] @ [[(h, Some (hd xs))]]) \<and> race_idle r'"
proof -
  have "map (\<lambda>i. take i xs = []) [0..<length xs] = True # replicate (n - 1) False"
    using assms(2,3) by (intro nth_equalityI) (auto simp: nth_Cons split: nat.split)
  then show ?thesis using speed.whole_race [of r xs n h] assms by auto
qed

theorem race_speed_completes_witness:
  "\<exists>r0 r'. speed_start 2 ''h'' speed_init = (True, r0) \<and> run_finish (speed_finish 2) [7 :: nat, 8] r0 =
    ([True, False], r', [[], [(''h'', Some 7)]]) \<and> race_idle r'"
  using race_speed_completes [of speed_init "[7 :: nat, 8]" 2 "''h''"]
  by (simp add: race_idle_def speed_init_def numeral_2_eq_2)

text \<open>
  A volume race invokes its sufficient handler exactly once, with the success code if some
  count reaches the required count and with the failure code otherwise, and afterwards its
  completion handler exactly once, with the success code, whatever the counts.
\<close>

theorem race_volume_completes:
  assumes "volume_runners r = 0" "cs \<noteq> []" "length cs = volume_size r"
  shows "\<exists>r0 r'. volume_start sufficient complete r = (True, r0) \<and>
    volume_run success fail cs r0 = (r',
      [(sufficient, if \<exists>c\<in>set cs. volume_required r \<le> c then success else fail), (complete, success)]) \<and>
    volume_runners r' = 0 \<and> volume_sufficient r' = None \<and> volume_complete r' = None"
proof -
  let ?r = "r\<lparr>volume_sufficient := Some sufficient, volume_complete := Some complete,
    volume_runners := volume_size r\<rparr>"
  have "volume_start sufficient complete r = (True, ?r)"
    using assms(1) by (simp add: volume_start_def volume_running_def)
  then show ?thesis
    using volume_run_undecided [of ?r sufficient complete cs success fail] assms(2,3)
    by (cases "volume_run success fail cs ?r") (simp add: Let_def)
qed

theorem race_volume_completes_witness:
  "\<exists>r0 r'. volume_start ''s'' ''c'' (volume_init 2 5) = (True, r0) \<and>
    volume_run e_success e_operation_failed [3, 9] r0 = (r', [(''s'', e_success), (''c'', e_success)]) \<and>
    volume_runners r' = 0"
  using race_volume_completes [of "volume_init 2 5" "[3, 9]" "''s''" "''c''" e_success e_operation_failed]
  by (auto simp: volume_init_def)

text \<open>
  A race for any result completes exactly once over its life, however many operations
  finish it: with the arguments of the first, or with the failure when it is released unfinished.
\<close>

theorem race_any_completes:
  "any_run failure argss (any_init complete) =
     [(Some complete, case argss of [] \<Rightarrow> failure | args # _ \<Rightarrow> args)]"
proof -
  have done_run: "any_run failure argss r = []" if "any_finished r" for r :: "'a race_any" and argss
    using that by (induction argss) (simp_all add: any_release_def any_finish_def)
  show ?thesis
    by (cases argss) (simp_all add: any_init_def any_release_def any_finish_def done_run)
qed

end
