(* ===== verification/Subscribers.thy ===== *)
theory Subscribers
  imports Error_Code
begin

text \<open>
  The subscriber classes of \<open>src/include/bitcoin/network/impl/async\<close>: \<open>subscriber\<close>,
  \<open>unsubscriber\<close> and \<open>desubscriber\<close>. All calls are made on the strand of the owner, so an operation
  is a function on the members and on a world \<open>'w\<close> that the invoked handlers change. What a
  handler does is the parameter \<open>call\<close> (for the two classes that desubscribe, its result says
  whether the subscription stays). A handler does not call back into the same subscriber. Default
  arguments \<open>Args{}...\<close> are the parameter \<open>none\<close>.

  The locale \<open>notifier\<close> states the contract that \<open>subscriber\<close> and \<open>unsubscriber\<close> share, with the
  calls logged, and derives from it what one handler sees over any sequence of operations.
\<close>

section \<open>Subscriber\<close>

record 'h subscriber =
  sub_stopped :: bool
  sub_queue :: "'h list"

definition sub_init :: "'h subscriber" where
  "sub_init = \<lparr>sub_stopped = False, sub_queue = []\<rparr>"

definition sub_subscribe :: "('h \<Rightarrow> error_t \<Rightarrow> 'a \<Rightarrow> 'w \<Rightarrow> 'w) \<Rightarrow> 'a \<Rightarrow> 'h \<Rightarrow> 'h subscriber \<Rightarrow> 'w \<Rightarrow>
    error_t \<times> 'h subscriber \<times> 'w" where
  "sub_subscribe call none handler s w =
    (if sub_stopped s then (e_subscriber_stopped, s, call handler e_subscriber_stopped none w)
     else (e_success, s\<lparr>sub_queue := sub_queue s @ [handler]\<rparr>, w))"

definition sub_notify :: "('h \<Rightarrow> error_t \<Rightarrow> 'a \<Rightarrow> 'w \<Rightarrow> 'w) \<Rightarrow> error_t \<Rightarrow> 'a \<Rightarrow> 'h subscriber \<Rightarrow> 'w \<Rightarrow> 'w" where
  "sub_notify call ec args s w =
    (if sub_stopped s then w else fold (\<lambda>handler. call handler ec args) (sub_queue s) w)"

definition sub_stop :: "('h \<Rightarrow> error_t \<Rightarrow> 'a \<Rightarrow> 'w \<Rightarrow> 'w) \<Rightarrow> error_t \<Rightarrow> 'a \<Rightarrow> 'h subscriber \<Rightarrow> 'w \<Rightarrow>
    'h subscriber \<times> 'w" where
  "sub_stop call ec args s w =
    (if sub_stopped s then (s, w)
     else (s\<lparr>sub_stopped := True, sub_queue := []\<rparr>, sub_notify call ec args s w))"

definition sub_size :: "'h subscriber \<Rightarrow> nat" where
  "sub_size s = length (sub_queue s)"

section \<open>Unsubscriber\<close>

record 'h unsubscriber =
  uns_stopped :: bool
  uns_queue :: "'h list"

definition uns_init :: "'h unsubscriber" where
  "uns_init = \<lparr>uns_stopped = False, uns_queue = []\<rparr>"

definition uns_subscribe :: "('h \<Rightarrow> error_t \<Rightarrow> 'a \<Rightarrow> 'w \<Rightarrow> bool \<times> 'w) \<Rightarrow> 'a \<Rightarrow> 'h \<Rightarrow> 'h unsubscriber \<Rightarrow> 'w \<Rightarrow>
    error_t \<times> 'h unsubscriber \<times> 'w" where
  "uns_subscribe call none handler s w =
    (if uns_stopped s then (e_subscriber_stopped, s, snd (call handler e_subscriber_stopped none w))
     else (e_success, s\<lparr>uns_queue := uns_queue s @ [handler]\<rparr>, w))"

text \<open>The loop over the queue: a handler that returns false is erased.\<close>

fun notify_each :: "('h \<Rightarrow> 'w \<Rightarrow> bool \<times> 'w) \<Rightarrow> 'h list \<Rightarrow> 'w \<Rightarrow> 'h list \<times> 'w" where
  "notify_each call [] w = ([], w)"
| "notify_each call (handler # queue) w =
    (let (kept, w1) = call handler w; (rest, w2) = notify_each call queue w1
     in (if kept then handler # rest else rest, w2))"

definition uns_notify :: "('h \<Rightarrow> error_t \<Rightarrow> 'a \<Rightarrow> 'w \<Rightarrow> bool \<times> 'w) \<Rightarrow> error_t \<Rightarrow> 'a \<Rightarrow> 'h unsubscriber \<Rightarrow> 'w \<Rightarrow>
    'h unsubscriber \<times> 'w" where
  "uns_notify call ec args s w =
    (if uns_stopped s then (s, w)
     else let (queue, w1) = notify_each (\<lambda>handler. call handler ec args) (uns_queue s) w
          in (s\<lparr>uns_queue := queue\<rparr>, w1))"

definition uns_stop :: "('h \<Rightarrow> error_t \<Rightarrow> 'a \<Rightarrow> 'w \<Rightarrow> bool \<times> 'w) \<Rightarrow> error_t \<Rightarrow> 'a \<Rightarrow> 'h unsubscriber \<Rightarrow> 'w \<Rightarrow>
    'h unsubscriber \<times> 'w" where
  "uns_stop call ec args s w =
    (if uns_stopped s then (s, w)
     else let (s1, w1) = uns_notify call ec args s w
          in (s1\<lparr>uns_stopped := True, uns_queue := []\<rparr>, w1))"

section \<open>Desubscriber\<close>

text \<open>\<open>map_\<close> is a \<open>std::map\<close>: an association list in ascending key order.\<close>

record ('k, 'h) desubscriber =
  des_stopped :: bool
  des_map :: "('k \<times> 'h) list"

definition des_init :: "('k, 'h) desubscriber" where
  "des_init = \<lparr>des_stopped = False, des_map = []\<rparr>"

fun map_emplace :: "'k :: linorder \<Rightarrow> 'h \<Rightarrow> ('k \<times> 'h) list \<Rightarrow> ('k \<times> 'h) list" where
  "map_emplace k h [] = [(k, h)]"
| "map_emplace k h ((k', h') # m) =
    (if k < k' then (k, h) # (k', h') # m else if k = k' then (k', h') # m
     else (k', h') # map_emplace k h m)"

fun map_erase :: "'k \<Rightarrow> ('k \<times> 'h) list \<Rightarrow> ('k \<times> 'h) list" where
  "map_erase k [] = []"
| "map_erase k ((k', h') # m) = (if k = k' then m else (k', h') # map_erase k m)"

definition des_subscribe :: "('h \<Rightarrow> error_t \<Rightarrow> 'a \<Rightarrow> 'w \<Rightarrow> bool \<times> 'w) \<Rightarrow> 'a \<Rightarrow> 'h \<Rightarrow> 'k :: linorder \<Rightarrow>
    ('k, 'h) desubscriber \<Rightarrow> 'w \<Rightarrow> error_t \<times> ('k, 'h) desubscriber \<times> 'w" where
  "des_subscribe call none handler key s w =
    (if des_stopped s then (e_subscriber_stopped, s, snd (call handler e_subscriber_stopped none w))
     else if map_of (des_map s) key \<noteq> None
     then (e_subscriber_exists, s, snd (call handler e_subscriber_exists none w))
     else (e_success, s\<lparr>des_map := map_emplace key handler (des_map s)\<rparr>, w))"

definition des_notify :: "('h \<Rightarrow> error_t \<Rightarrow> 'a \<Rightarrow> 'w \<Rightarrow> bool \<times> 'w) \<Rightarrow> error_t \<Rightarrow> 'a \<Rightarrow> ('k, 'h) desubscriber \<Rightarrow> 'w \<Rightarrow>
    ('k, 'h) desubscriber \<times> 'w" where
  "des_notify call ec args s w =
    (if des_stopped s then (s, w)
     else let (m, w1) = notify_each (\<lambda>entry. call (snd entry) ec args) (des_map s) w
          in (s\<lparr>des_map := m\<rparr>, w1))"

definition des_notify_one :: "('h \<Rightarrow> error_t \<Rightarrow> 'a \<Rightarrow> 'w \<Rightarrow> bool \<times> 'w) \<Rightarrow> 'k \<Rightarrow> error_t \<Rightarrow> 'a \<Rightarrow>
    ('k, 'h) desubscriber \<Rightarrow> 'w \<Rightarrow> bool \<times> ('k, 'h) desubscriber \<times> 'w" where
  "des_notify_one call key ec args s w =
    (if des_stopped s then (False, s, w)
     else case map_of (des_map s) key of
         None \<Rightarrow> (False, s, w)
       | Some handler \<Rightarrow>
           let (kept, w1) = call handler ec args w
           in (True, if kept then s else s\<lparr>des_map := map_erase key (des_map s)\<rparr>, w1))"

definition des_stop :: "('h \<Rightarrow> error_t \<Rightarrow> 'a \<Rightarrow> 'w \<Rightarrow> bool \<times> 'w) \<Rightarrow> error_t \<Rightarrow> 'a \<Rightarrow> ('k, 'h) desubscriber \<Rightarrow> 'w \<Rightarrow>
    ('k, 'h) desubscriber \<times> 'w" where
  "des_stop call ec args s w =
    (if des_stopped s then (s, w)
     else let (s1, w1) = des_notify call ec args s w
          in (s1\<lparr>des_stopped := True, des_map := []\<rparr>, w1))"

section \<open>The contract: what one handler sees\<close>

text \<open>
  A world that logs the calls, with handlers whose result is a function \<open>keep\<close> of the call.
\<close>

type_synonym ('h, 'a) call_log = "('h \<times> error_t \<times> 'a) list"

definition log_call :: "'h \<Rightarrow> error_t \<Rightarrow> 'a \<Rightarrow> ('h, 'a) call_log \<Rightarrow> ('h, 'a) call_log" where
  "log_call handler ec args w = w @ [(handler, ec, args)]"

definition log_result :: "('h \<Rightarrow> error_t \<Rightarrow> 'a \<Rightarrow> bool) \<Rightarrow> 'h \<Rightarrow> error_t \<Rightarrow> 'a \<Rightarrow> ('h, 'a) call_log \<Rightarrow>
    bool \<times> ('h, 'a) call_log" where
  "log_result keep handler ec args w = (keep handler ec args, log_call handler ec args w)"

datatype ('h, 'a) sub_op = Subscribe 'h | Notify error_t 'a | Stop error_t 'a

text \<open>The operations of a subscriber, in sequence.\<close>

fun run_ops :: "('h \<Rightarrow> 's \<Rightarrow> 'w \<Rightarrow> error_t \<times> 's \<times> 'w) \<Rightarrow> (error_t \<Rightarrow> 'a \<Rightarrow> 's \<Rightarrow> 'w \<Rightarrow> 's \<times> 'w) \<Rightarrow>
    (error_t \<Rightarrow> 'a \<Rightarrow> 's \<Rightarrow> 'w \<Rightarrow> 's \<times> 'w) \<Rightarrow> ('h, 'a) sub_op list \<Rightarrow> 's \<Rightarrow> 'w \<Rightarrow> 's \<times> 'w" where
  "run_ops subscribe notify stop [] s w = (s, w)"
| "run_ops subscribe notify stop (Subscribe h # ops) s w =
    (let (_, s1, w1) = subscribe h s w in run_ops subscribe notify stop ops s1 w1)"
| "run_ops subscribe notify stop (Notify ec a # ops) s w =
    (let (s1, w1) = notify ec a s w in run_ops subscribe notify stop ops s1 w1)"
| "run_ops subscribe notify stop (Stop ec a # ops) s w =
    (let (s1, w1) = stop ec a s w in run_ops subscribe notify stop ops s1 w1)"

text \<open>
  The specification: the calls one handler receives, which no other handler affects. \<open>n\<close> is the
  number of its live subscriptions.
\<close>

fun handler_view :: "('h \<Rightarrow> error_t \<Rightarrow> 'a \<Rightarrow> bool) \<Rightarrow> 'a \<Rightarrow> 'h \<Rightarrow> ('h, 'a) sub_op list \<Rightarrow> bool \<Rightarrow> nat \<Rightarrow>
    (error_t \<times> 'a) list" where
  "handler_view keep none h [] stopped n = []"
| "handler_view keep none h (Subscribe g # ops) stopped n =
    (if g \<noteq> h then handler_view keep none h ops stopped n
     else if stopped then (e_subscriber_stopped, none) # handler_view keep none h ops stopped n
     else handler_view keep none h ops stopped (Suc n))"
| "handler_view keep none h (Notify ec a # ops) stopped n =
    (if stopped then handler_view keep none h ops stopped n
     else replicate n (ec, a) @ handler_view keep none h ops stopped (if keep h ec a then n else 0))"
| "handler_view keep none h (Stop ec a # ops) stopped n =
    (if stopped then handler_view keep none h ops stopped n
     else replicate n (ec, a) @ handler_view keep none h ops True 0)"

definition calls_to :: "'h \<Rightarrow> ('h, 'a) call_log \<Rightarrow> (error_t \<times> 'a) list" where
  "calls_to h w = map snd (filter (\<lambda>c. fst c = h) w)"

lemma calls_to_append: "calls_to h (w @ v) = calls_to h w @ calls_to h v"
  by (simp add: calls_to_def)

lemma calls_to_queue: "calls_to h (map (\<lambda>g. (g, ec, a)) q) = replicate (count_list q h) (ec, a)"
  by (induction q) (simp_all add: calls_to_def)

lemma count_list_filter_view: "count_list (filter P q) h = (if P h then count_list q h else 0)"
  by (induction q) auto

locale notifier =
  fixes subscribe :: "'h \<Rightarrow> 's \<Rightarrow> ('h, 'a) call_log \<Rightarrow> error_t \<times> 's \<times> ('h, 'a) call_log"
    and notify :: "error_t \<Rightarrow> 'a \<Rightarrow> 's \<Rightarrow> ('h, 'a) call_log \<Rightarrow> 's \<times> ('h, 'a) call_log"
    and stop :: "error_t \<Rightarrow> 'a \<Rightarrow> 's \<Rightarrow> ('h, 'a) call_log \<Rightarrow> 's \<times> ('h, 'a) call_log"
    and stopped :: "'s \<Rightarrow> bool"
    and queue :: "'s \<Rightarrow> 'h list"
    and keep :: "'h \<Rightarrow> error_t \<Rightarrow> 'a \<Rightarrow> bool"
    and none :: 'a
  assumes stopped_law: "stopped s \<Longrightarrow>
      subscribe h s w = (e_subscriber_stopped, s, w @ [(h, e_subscriber_stopped, none)]) \<and>
      notify ec a s w = (s, w) \<and> stop ec a s w = (s, w)"
    and subscribe_law: "\<not> stopped s \<Longrightarrow>
      \<exists>s'. subscribe h s w = (e_success, s', w) \<and> \<not> stopped s' \<and> queue s' = queue s @ [h]"
    and notify_law: "\<not> stopped s \<Longrightarrow>
      \<exists>s'. notify ec a s w = (s', w @ map (\<lambda>h. (h, ec, a)) (queue s)) \<and> \<not> stopped s' \<and>
        queue s' = filter (\<lambda>h. keep h ec a) (queue s)"
    and stop_law: "\<not> stopped s \<Longrightarrow>
      \<exists>s'. stop ec a s w = (s', w @ map (\<lambda>h. (h, ec, a)) (queue s)) \<and> stopped s' \<and> queue s' = []"
begin

lemma stopped_view:
  assumes "stopped s"
  shows "calls_to h (snd (run_ops subscribe notify stop ops s w)) =
    calls_to h w @ handler_view keep none h ops True n"
  using assms
proof (induction ops arbitrary: w)
  case (Cons op ops)
  then show ?case
    by (cases op) (simp_all add: stopped_law calls_to_append, simp_all add: calls_to_def)
qed simp

lemma run_view:
  assumes "\<not> stopped s"
  shows "calls_to h (snd (run_ops subscribe notify stop ops s w)) =
    calls_to h w @ handler_view keep none h ops False (count_list (queue s) h)"
  using assms
proof (induction ops arbitrary: s w)
  case (Cons op ops)
  show ?case
  proof (cases op)
    case (Subscribe g)
    then show ?thesis using subscribe_law [OF Cons.prems, of g w] Cons.IH by auto
  next
    case (Notify ec a)
    then show ?thesis using notify_law [OF Cons.prems, of ec a w] Cons.IH
      by (auto simp: calls_to_append calls_to_queue count_list_filter_view)
  next
    case (Stop ec a)
    then show ?thesis using stop_law [OF Cons.prems, of ec a w]
      by (auto simp: calls_to_append calls_to_queue stopped_view [of _ _ _ _ 0])
  qed
qed simp

end

section \<open>The subscribers keep the contract\<close>

lemma fold_log: "fold (\<lambda>h. log_call h ec a) q w = w @ map (\<lambda>h. (h, ec, a)) q"
  by (induction q arbitrary: w) (simp_all add: log_call_def)

lemma notify_each_log:
  "notify_each (\<lambda>x. log_result keep (f x) ec a) q w =
     (filter (\<lambda>x. keep (f x) ec a) q, w @ map (\<lambda>x. (f x, ec, a)) q)"
  by (induction q arbitrary: w) (simp_all add: log_result_def log_call_def Let_def)

lemmas sub_defs = sub_subscribe_def sub_notify_def sub_stop_def fold_log log_call_def
lemmas uns_defs = uns_subscribe_def uns_notify_def uns_stop_def

interpretation sub: notifier "sub_subscribe log_call none"
  "\<lambda>ec a s w. (s, sub_notify log_call ec a s w)" "sub_stop log_call" sub_stopped sub_queue
  "\<lambda>_ _ _. True" none for none
  by unfold_locales (auto simp: sub_defs)

interpretation uns: notifier "uns_subscribe (log_result keep) none" "uns_notify (log_result keep)"
  "uns_stop (log_result keep)" uns_stopped uns_queue keep none for keep none
  by unfold_locales
    (auto simp: uns_defs notify_each_log [where f = "\<lambda>x. x"], auto simp: log_result_def log_call_def)

text \<open>
  Over any sequence of operations on a new subscriber, what a handler receives is determined
  by the operations and its own subscriptions alone: each notification after it subscribed and
  before the stop, in order, then the stop code, and nothing more; a subscription made after the
  stop receives the stopped code at once.
\<close>

theorem subscriber_view:
  "calls_to h (snd (run_ops (sub_subscribe log_call none) (\<lambda>ec a s w. (s, sub_notify log_call ec a s w))
      (sub_stop log_call) ops sub_init [])) =
   handler_view (\<lambda>_ _ _. True) none h ops False 0"
  using sub.run_view [of sub_init h none ops "[]"] by (simp add: sub_init_def calls_to_def)

text \<open>
  The same for the unsubscriber, whose handlers leave by returning false: a handler
  receives each notification up to and including the one it declines, and never hears of the
  others' leaving.
\<close>

theorem unsubscriber_view:
  "calls_to h (snd (run_ops (uns_subscribe (log_result keep) none) (uns_notify (log_result keep))
      (uns_stop (log_result keep)) ops uns_init [])) =
   handler_view keep none h ops False 0"
  using uns.run_view [of uns_init h keep none ops "[]"] by (simp add: uns_init_def calls_to_def)

section \<open>The desubscriber is a map of handlers\<close>

definition des_inv :: "('k :: linorder, 'h) desubscriber \<Rightarrow> bool" where
  "des_inv s \<longleftrightarrow> sorted_wrt (<) (map fst (des_map s)) \<and> (des_stopped s \<longrightarrow> des_map s = [])"

definition des_handlers :: "('k, 'h) desubscriber \<Rightarrow> 'k \<Rightarrow> 'h option" where
  "des_handlers s = map_of (des_map s)"

lemma map_of_emplace:
  "map_of m k = None \<Longrightarrow> map_of (map_emplace k h m) = (map_of m)(k \<mapsto> h)"
  by (induction k h m rule: map_emplace.induct) (auto simp: fun_eq_iff)

lemma set_emplace: "fst ` set (map_emplace k h m) = insert k (fst ` set m)"
  by (induction k h m rule: map_emplace.induct) auto

lemma sorted_emplace:
  "sorted_wrt (<) (map fst m) \<Longrightarrow> sorted_wrt (<) (map fst (map_emplace k h m))"
proof (induction k h m rule: map_emplace.induct)
  case (2 k h k' h' m)
  have "fst ` set (map_emplace k h m) = insert k (fst ` set m)" by (rule set_emplace)
  with 2 show ?case by fastforce
qed simp

lemma sorted_distinct: "sorted_wrt (<) (map fst m) \<Longrightarrow> distinct (map fst (m :: ('k :: linorder \<times> 'h) list))"
  by (simp add: strict_sorted_iff)

lemma map_of_erase:
  "distinct (map fst m) \<Longrightarrow> map_of (map_erase k m) = (map_of m)(k := None)"
  by (induction k m rule: map_erase.induct) (auto simp: fun_eq_iff map_of_eq_None_iff)

lemma set_erase: "set (map_erase k m) \<subseteq> set m"
  by (induction k m rule: map_erase.induct) auto

lemma sorted_erase: "sorted_wrt (<) (map fst m) \<Longrightarrow> sorted_wrt (<) (map fst (map_erase k m))"
proof (induction k m rule: map_erase.induct)
  case (2 k k' h' m)
  then show ?case using set_erase [of k m] by auto
qed simp

lemma map_of_filter_kept:
  "distinct (map fst m) \<Longrightarrow>
    map_of (filter (\<lambda>x. P (snd x)) m) k = (case map_of m k of None \<Rightarrow> None | Some h \<Rightarrow> if P h then Some h else None)"
  by (induction m) (auto simp: image_iff split: option.splits dest: map_of_SomeD)

lemma sorted_filter_kept:
  "sorted_wrt (<) (map fst m) \<Longrightarrow> sorted_wrt (<) (map fst (filter P m))"
  by (induction m) auto

lemma des_subscribe_law:
  assumes "des_inv s" "\<not> des_stopped s" "des_handlers s key = None"
  shows "\<exists>s'. des_subscribe call none h key s w = (e_success, s', w) \<and> des_inv s' \<and>
    des_handlers s' = (des_handlers s)(key \<mapsto> h)"
  using assms by (simp add: des_subscribe_def des_inv_def des_handlers_def map_of_emplace sorted_emplace)

lemma des_notify_law:
  assumes "des_inv s" "\<not> des_stopped s"
  shows "\<exists>s'. des_notify (log_result keep) ec a s w =
      (s', w @ map (\<lambda>x. (snd x, ec, a)) (des_map s)) \<and> des_inv s' \<and> \<not> des_stopped s' \<and>
    (\<forall>k. des_handlers s' k =
      (case des_handlers s k of None \<Rightarrow> None | Some h \<Rightarrow> if keep h ec a then Some h else None))"
  using assms
  by (simp add: des_notify_def notify_each_log des_inv_def des_handlers_def sorted_filter_kept
      map_of_filter_kept [where P = "\<lambda>h. keep h ec a"] sorted_distinct)

lemma des_notify_one_law:
  assumes "des_inv s" "\<not> des_stopped s" "des_handlers s key = Some h" "call h ec a w = (kept, w')"
  shows "\<exists>s'. des_notify_one call key ec a s w = (True, s', w') \<and> des_inv s' \<and>
    des_handlers s' = (if kept then des_handlers s else (des_handlers s)(key := None))"
  using assms
  by (simp add: des_notify_one_def des_inv_def des_handlers_def sorted_erase map_of_erase sorted_distinct)

text \<open>
  The desubscriber implements a finite map from keys to handlers, in ascending key order.
  A subscription is retained exactly when the key is free and the desubscriber is running
  (otherwise the handler is told so once); a notification calls every handler once in key order
  and drops those that decline; notifying one key calls that handler alone, and is true exactly
  when the key is subscribed; after a stop nothing is retained or called.
\<close>

theorem desubscriber_map:
  assumes "des_inv s"
  shows "(\<not> des_stopped s \<and> des_handlers s key = None \<longrightarrow>
      (\<exists>s'. des_subscribe (log_result keep) none h key s w = (e_success, s', w) \<and> des_inv s' \<and>
        des_handlers s' = (des_handlers s)(key \<mapsto> h))) \<and>
    (\<not> des_stopped s \<and> des_handlers s key \<noteq> None \<longrightarrow>
      des_subscribe (log_result keep) none h key s w = (e_subscriber_exists, s, w @ [(h, e_subscriber_exists, none)])) \<and>
    (\<not> des_stopped s \<longrightarrow>
      (\<exists>s'. des_notify (log_result keep) ec a s w = (s', w @ map (\<lambda>x. (snd x, ec, a)) (des_map s)) \<and> des_inv s' \<and>
        (\<forall>k. des_handlers s' k =
          (case des_handlers s k of None \<Rightarrow> None | Some g \<Rightarrow> if keep g ec a then Some g else None)))) \<and>
    (fst (des_notify_one (log_result keep) key ec a s w) \<longleftrightarrow> \<not> des_stopped s \<and> des_handlers s key \<noteq> None) \<and>
    (\<forall>g. \<not> des_stopped s \<and> des_handlers s key = Some g \<longrightarrow>
      (\<exists>s'. des_notify_one (log_result keep) key ec a s w = (True, s', w @ [(g, ec, a)]) \<and> des_inv s' \<and>
        des_handlers s' = (if keep g ec a then des_handlers s else (des_handlers s)(key := None)))) \<and>
    (\<exists>s'. des_stop (log_result keep) ec a s w = (s', w @ map (\<lambda>x. (snd x, ec, a)) (des_map s)) \<and>
      des_inv s' \<and> des_stopped s' \<and> des_subscribe (log_result keep) none h key s' w =
        (e_subscriber_stopped, s', w @ [(h, e_subscriber_stopped, none)]))"
proof (intro conjI impI allI)
  show "\<exists>s'. des_subscribe (log_result keep) none h key s w = (e_success, s', w) \<and> des_inv s' \<and>
      des_handlers s' = (des_handlers s)(key \<mapsto> h)" if "\<not> des_stopped s \<and> des_handlers s key = None"
    using that by (intro des_subscribe_law [OF assms]) simp_all
  show "des_subscribe (log_result keep) none h key s w = (e_subscriber_exists, s, w @ [(h, e_subscriber_exists, none)])"
    if "\<not> des_stopped s \<and> des_handlers s key \<noteq> None"
    using that by (simp add: des_subscribe_def des_handlers_def log_result_def log_call_def)
  show "\<exists>s'. des_notify (log_result keep) ec a s w = (s', w @ map (\<lambda>x. (snd x, ec, a)) (des_map s)) \<and> des_inv s' \<and>
      (\<forall>k. des_handlers s' k =
        (case des_handlers s k of None \<Rightarrow> None | Some g \<Rightarrow> if keep g ec a then Some g else None))"
    if "\<not> des_stopped s" using des_notify_law [OF assms that, of keep ec a w] by blast
  show "fst (des_notify_one (log_result keep) key ec a s w) \<longleftrightarrow> \<not> des_stopped s \<and> des_handlers s key \<noteq> None"
    by (auto simp: des_notify_one_def des_handlers_def log_result_def split: option.splits)
  show "\<exists>s'. des_notify_one (log_result keep) key ec a s w = (True, s', w @ [(g, ec, a)]) \<and> des_inv s' \<and>
      des_handlers s' = (if keep g ec a then des_handlers s else (des_handlers s)(key := None))"
    if "\<not> des_stopped s \<and> des_handlers s key = Some g" for g
    using des_notify_one_law [OF assms, of key g "log_result keep" ec a w] that
    by (simp add: log_result_def log_call_def)
  show "\<exists>s'. des_stop (log_result keep) ec a s w = (s', w @ map (\<lambda>x. (snd x, ec, a)) (des_map s)) \<and>
      des_inv s' \<and> des_stopped s' \<and> des_subscribe (log_result keep) none h key s' w =
        (e_subscriber_stopped, s', w @ [(h, e_subscriber_stopped, none)])"
    using assms des_notify_law [OF assms, of keep ec a w]
    by (cases "des_stopped s")
      (auto simp: des_stop_def des_subscribe_def des_inv_def log_result_def log_call_def)
qed

theorem desubscriber_map_witness:
  "fst (des_notify_one (log_result (\<lambda>_ _ _. False)) (2 :: nat) e_success ()
     \<lparr>des_stopped = False, des_map = [(1, ''a''), (2, ''b'')]\<rparr> []) \<and>
   (\<exists>s'. des_notify_one (log_result (\<lambda>_ _ _. False)) (2 :: nat) e_success ()
     \<lparr>des_stopped = False, des_map = [(1, ''a''), (2, ''b'')]\<rparr> [] = (True, s', [(''b'', e_success, ())]) \<and>
     des_handlers s' 2 = None)"
proof -
  let ?s = "\<lparr>des_stopped = False, des_map = [(1 :: nat, ''a''), (2, ''b'')]\<rparr>"
  have "des_inv ?s" by (simp add: des_inv_def)
  from desubscriber_map [OF this, of 2 "\<lambda>_ _ _. False" "()" "''c''" "[]" e_success "()"]
  show ?thesis by (auto simp: des_handlers_def)
qed

end
