(* ===== verification/Address.thy ===== *)
theory Address
  imports Prelude
begin

text \<open>
  Network addresses: the BIP155 variant \<open>address_t\<close> and \<open>address_item\<close> of
  \<open>messages/peer/detail/address_item\<close>, the matching operators of \<open>config::address\<close> and
  \<open>config::authority\<close>, and the address predicates of \<open>settings\<close>. The ip map prefix
  (\<open>system::ip::mapped_prefix\<close>) and the ip subnet functions belong to libbitcoin-system and are
  parameters.
\<close>

section \<open>Internet addresses\<close>

type_synonym ip_address = bytes

definition ip_address_size :: nat where "ip_address_size = 16"

definition has_prefix :: "bytes \<Rightarrow> bytes \<Rightarrow> bool" where
  "has_prefix prefix bs \<longleftrightarrow> take (length prefix) bs = prefix"

definition is_v4_ip :: "bytes \<Rightarrow> ip_address \<Rightarrow> bool" where
  "is_v4_ip mapped ip \<longleftrightarrow> has_prefix mapped ip"

definition torv2_map_prefix :: bytes where
  "torv2_map_prefix = [0xfd, 0x87, 0xd8, 0x7e, 0xeb, 0x43]"

definition cjdns_prefix :: byte where "cjdns_prefix = 0xfc"

definition is_torv2_ip :: "ip_address \<Rightarrow> bool" where
  "is_torv2_ip ip \<longleftrightarrow> has_prefix torv2_map_prefix ip"

definition is_cjdns_ip :: "ip_address \<Rightarrow> bool" where
  "is_cjdns_ip ip \<longleftrightarrow> hd ip = cjdns_prefix"

definition is_documentation :: "bytes \<Rightarrow> ip_address \<Rightarrow> bool" where
  "is_documentation mapped ip =
    (let net = drop (length mapped) ip in
     if is_v4_ip mapped ip
     then has_prefix [192, 0, 2] net \<or> has_prefix [198, 51, 100] net \<or> has_prefix [203, 0, 113] net
     else has_prefix [0x20, 0x01, 0x0d, 0xb8] ip \<or> (has_prefix [0x3f, 0xff] ip \<and> ip ! 2 < 0x10))"

section \<open>The address variant\<close>

datatype address_t = monostate | ipv4_t bytes | ipv6_t bytes | torv2_t bytes | torv3_t bytes
  | i2p_t bytes | cjdns_t bytes

fun address_index :: "address_t \<Rightarrow> nat" where
  "address_index monostate = 0"
| "address_index (ipv4_t _) = 1"
| "address_index (ipv6_t _) = 2"
| "address_index (torv2_t _) = 3"
| "address_index (torv3_t _) = 4"
| "address_index (i2p_t _) = 5"
| "address_index (cjdns_t _) = 6"

definition address_types :: nat where "address_types = 7"

text \<open>The storage and wire sizes of the alternatives, by network identifier.\<close>

definition stored_size :: "nat \<Rightarrow> nat" where
  "stored_size n = [0, 16, 16, 10, 32, 32, 16] ! n"

definition wire_size :: "nat \<Rightarrow> nat" where
  "wire_size n = [0, 4, 16, 10, 32, 32, 16] ! n"

fun address_value :: "address_t \<Rightarrow> bytes" where
  "address_value monostate = []"
| "address_value (ipv4_t v) = v"
| "address_value (ipv6_t v) = v"
| "address_value (torv2_t v) = v"
| "address_value (torv3_t v) = v"
| "address_value (i2p_t v) = v"
| "address_value (cjdns_t v) = v"

text \<open>What the array types of the alternatives guarantee.\<close>

definition address_wf :: "address_t \<Rightarrow> bool" where
  "address_wf a \<longleftrightarrow> length (address_value a) = stored_size (address_index a)"

definition is_v4 :: "address_t \<Rightarrow> bool" where "is_v4 a \<longleftrightarrow> address_index a = 1"
definition is_v6 :: "address_t \<Rightarrow> bool" where "is_v6 a \<longleftrightarrow> address_index a = 2"
definition is_v1 :: "address_t \<Rightarrow> bool" where "is_v1 a \<longleftrightarrow> is_v4 a \<or> is_v6 a"
definition is_cjdns :: "address_t \<Rightarrow> bool" where "is_cjdns a \<longleftrightarrow> address_index a = 6"
definition is_named :: "address_t \<Rightarrow> bool" where
  "is_named a \<longleftrightarrow> address_index a = 4 \<or> address_index a = 5"

definition is_unspecified :: "address_t \<Rightarrow> bool" where
  "is_unspecified a = (case a of monostate \<Rightarrow> True
     | _ \<Rightarrow> address_value a = replicate (stored_size (address_index a)) 0)"

lemma address_index_less [simp]: "address_index a < address_types"
  by (cases a) (simp_all add: address_types_def)

definition to_address :: "bytes \<Rightarrow> ip_address \<Rightarrow> address_t" where
  "to_address mapped ip =
    (if is_v4_ip mapped ip then ipv4_t ip else if is_torv2_ip ip then monostate else ipv6_t ip)"

definition unspecified_ip_address :: ip_address where
  "unspecified_ip_address = replicate 16 0"

definition to_ip_address :: "address_t \<Rightarrow> ip_address" where
  "to_ip_address a = (case a of monostate \<Rightarrow> unspecified_ip_address
     | _ \<Rightarrow> if stored_size (address_index a) = ip_address_size then address_value a
           else unspecified_ip_address)"

section \<open>Address items\<close>

record address_item =
  ai_timestamp :: uint32
  ai_services :: uint64
  ai_address :: address_t
  ai_port :: uint16

text \<open>\<open>operator==\<close>, which ignores the timestamp and the services.\<close>

definition item_eq :: "address_item \<Rightarrow> address_item \<Rightarrow> bool" where
  "item_eq left right \<longleftrightarrow> ai_address left = ai_address right \<and> ai_port left = ai_port right"

definition is_specified :: "address_item \<Rightarrow> bool" where
  "is_specified item \<longleftrightarrow> \<not> is_unspecified (ai_address item) \<and>
     (ai_port item \<noteq> 0 \<or> address_index (ai_address item) = 5)"

lemma item_eq_refl [simp]: "item_eq x x"
  by (simp add: item_eq_def)

lemma item_eq_sym: "item_eq x y \<longleftrightarrow> item_eq y x"
  by (auto simp: item_eq_def)

lemma item_eq_trans: "item_eq x y \<Longrightarrow> item_eq y z \<Longrightarrow> item_eq x z"
  by (simp add: item_eq_def)

section \<open>Settings\<close>

record 'ip authority =
  auth_ip :: 'ip
  auth_port :: uint16
  auth_cidr :: byte

text \<open>
  \<open>system::ip\<close>: \<open>host_ip\<close> is \<open>denormalize\<close> of \<open>from_address\<close>, \<open>member_ip\<close> is \<open>is_member\<close>.
\<close>

record 'ip ip_ops =
  host_ip :: "ip_address \<Rightarrow> 'ip"
  member_ip :: "'ip \<Rightarrow> 'ip \<Rightarrow> byte \<Rightarrow> bool"

definition authority_matches :: "'ip ip_ops \<Rightarrow> 'ip authority \<Rightarrow> address_item \<Rightarrow> bool" where
  "authority_matches ops a other =
    (if (auth_port a \<noteq> 0 \<and> ai_port other \<noteq> 0) \<and> auth_port a \<noteq> ai_port other then False
     else let host = host_ip ops (to_ip_address (ai_address other)) in
       if auth_cidr a = 0 then host = auth_ip a else member_ip ops host (auth_ip a) (auth_cidr a))"

definition address_matches :: "address_item \<Rightarrow> address_item \<Rightarrow> bool" where
  "address_matches a other \<longleftrightarrow> ai_address a = ai_address other \<and>
     (ai_port a = ai_port other \<or> (ai_port a = 0 \<or> ai_port other = 0))"

record 'ip settings =
  gossip_ipv4 :: bool
  gossip_ipv6 :: bool
  gossip_tor :: bool
  gossip_i2p :: bool
  outbound_proxied :: bool
  invalid_services :: uint64
  friends :: "address_item list"
  blacklists :: "'ip authority list"
  whitelists :: "'ip authority list"
  host_pool_capacity :: nat

definition connectable :: "'ip settings \<Rightarrow> address_item \<Rightarrow> bool" where
  "connectable s item \<longleftrightarrow> is_v4 (ai_address item) \<or> is_v6 (ai_address item) \<or>
     is_cjdns (ai_address item) \<or> (outbound_proxied s \<and> is_named (ai_address item))"

definition gossiped :: "'ip settings \<Rightarrow> address_item \<Rightarrow> bool" where
  "gossiped s item =
    (let index = address_index (ai_address item) in
     if index = 1 then gossip_ipv4 s
     else if index = 2 \<or> index = 6 then gossip_ipv6 s
     else if index = 4 then gossip_tor s
     else if index = 5 then gossip_i2p s
     else False)"

unbundle bit_operations_syntax

definition unsupported :: "'ip settings \<Rightarrow> address_item \<Rightarrow> bool" where
  "unsupported s item \<longleftrightarrow> ai_services item AND invalid_services s \<noteq> 0"

definition peered :: "'ip settings \<Rightarrow> address_item \<Rightarrow> bool" where
  "peered s item \<longleftrightarrow> (\<exists>a\<in>set (friends s). address_matches a item)"

definition blacklisted :: "'ip ip_ops \<Rightarrow> 'ip settings \<Rightarrow> address_item \<Rightarrow> bool" where
  "blacklisted ops s item \<longleftrightarrow> (\<exists>a\<in>set (blacklists s). authority_matches ops a item)"

definition whitelisted :: "'ip ip_ops \<Rightarrow> 'ip settings \<Rightarrow> address_item \<Rightarrow> bool" where
  "whitelisted ops s item \<longleftrightarrow> whitelists s = [] \<or> (\<exists>a\<in>set (whitelists s). authority_matches ops a item)"

definition excluded :: "'ip ip_ops \<Rightarrow> 'ip settings \<Rightarrow> address_item \<Rightarrow> bool" where
  "excluded ops s item \<longleftrightarrow> \<not> is_specified item \<or> \<not> gossiped s item \<or> unsupported s item \<or>
     peered s item \<or> blacklisted ops s item \<or> \<not> whitelisted ops s item"


section \<open>Classification of ip addresses\<close>

lemma to_address_wf: "length ip = 16 \<Longrightarrow> address_wf (to_address mapped ip)"
  by (simp add: to_address_def address_wf_def stored_size_def)

lemma to_ip_address_length: "address_wf a \<Longrightarrow> length (to_ip_address a) = 16"
  by (cases a) (simp_all add: to_ip_address_def address_wf_def stored_size_def ip_address_size_def
      unspecified_ip_address_def)

lemma to_ip_to_address:
  "length ip = 16 \<Longrightarrow> to_ip_address (to_address mapped ip) =
    (if is_torv2_ip ip \<and> \<not> is_v4_ip mapped ip then unspecified_ip_address else ip)"
  by (simp add: to_address_def to_ip_address_def stored_size_def ip_address_size_def)

end
