(* ===== verification/Hosts.thy ===== *)
theory Hosts
  imports Address Error_Code "HOL-Library.Sublist"
begin

text \<open>
  The address pool, \<open>src/src/net/hosts.cpp\<close>. The members of \<open>hosts\<close> are a record; the atomic
  counters are 64 bit words that wrap. Parameters of the pool are gathered in \<open>hosts_env\<close>: the
  settings, the endpoint of an address item (a libbitcoin-system type) and the parser of a line of
  the hosts file. File access is an input of \<open>start\<close> and \<open>stop\<close> (what was read, and how it ended),
  the random numbers are inputs of \<open>fetch\<close>, and the arguments passed to a completion handler are
  results.
\<close>

section \<open>State\<close>

record ('ip, 'e) hosts_env =
  env_settings :: "'ip settings"
  env_ip :: "'ip ip_ops"
  env_required :: uint64
  env_endpoint :: "address_item \<Rightarrow> 'e"
  env_parse :: "string \<Rightarrow> address_item option"

record 'e hosts =
  hosts_count :: uint64
  endpoints_count :: uint64
  host_counts :: "uint64 list"
  pool :: "address_item list"
  hosts_stopped :: bool
  endpoints :: "'e set"

datatype family = family_any | family_ipv4 | family_ipv6

definition capacity :: "('ip, 'e) hosts_env \<Rightarrow> nat" where
  "capacity env = host_pool_capacity (env_settings env)"

definition hosts_init :: "'e hosts" where
  "hosts_init = \<lparr>hosts_count = 0, endpoints_count = 0, host_counts = replicate address_types 0,
     pool = [], hosts_stopped = True, endpoints = {}\<rparr>"

section \<open>Pool operations\<close>

definition increment :: "address_t \<Rightarrow> 'e hosts \<Rightarrow> 'e hosts" where
  "increment a h = h\<lparr>host_counts := (host_counts h)[address_index a := host_counts h ! address_index a + 1]\<rparr>"

definition decrement :: "address_t \<Rightarrow> 'e hosts \<Rightarrow> 'e hosts" where
  "decrement a h = h\<lparr>host_counts := (host_counts h)[address_index a := host_counts h ! address_index a - 1]\<rparr>"

text \<open>\<open>push(address_item)\<close>: the oldest address is evicted when the pool is full.\<close>

definition push :: "nat \<Rightarrow> address_item \<Rightarrow> 'e hosts \<Rightarrow> 'e hosts" where
  "push cap host h =
    (let h1 = (if length (pool h) = cap
               then (decrement (ai_address (hd (pool h))) h)\<lparr>pool := tl (pool h)\<rparr> else h)
     in increment (ai_address host) (h1\<lparr>pool := pool h1 @ [host]\<rparr>))"

definition store_count :: "'e hosts \<Rightarrow> 'e hosts" where
  "store_count h = h\<lparr>hosts_count := of_nat (length (pool h))\<rparr>"

unbundle bit_operations_syntax

definition insufficient :: "('ip, 'e) hosts_env \<Rightarrow> address_item \<Rightarrow> bool" where
  "insufficient env item \<longleftrightarrow> ai_services item AND env_required env \<noteq> env_required env"


definition is_reserved :: "('ip, 'e) hosts_env \<Rightarrow> 'e hosts \<Rightarrow> address_item \<Rightarrow> bool" where
  "is_reserved env h item \<longleftrightarrow> env_endpoint env item \<in> endpoints h"

definition is_pooled :: "'e hosts \<Rightarrow> address_item \<Rightarrow> bool" where
  "is_pooled h item \<longleftrightarrow> (\<exists>x\<in>set (pool h). item_eq x item)"

text \<open>\<open>push(string)\<close>: a line of the hosts file; one that does not parse is ignored.\<close>

definition push_line :: "('ip, 'e) hosts_env \<Rightarrow> string \<Rightarrow> 'e hosts \<Rightarrow> 'e hosts" where
  "push_line env line h =
    (case env_parse env line of
       None \<Rightarrow> h
     | Some item \<Rightarrow>
         let s = env_settings env in
         if \<not> is_specified item then h
         else if \<not> gossiped s item then h
         else if insufficient env item then h
         else if unsupported s item then h
         else if peered s item then h
         else if blacklisted (env_ip env) s item then h
         else if \<not> whitelisted (env_ip env) s item then h
         else push (capacity env) item h)"

section \<open>Start and stop\<close>

text \<open>
  Reading the file: it may not open, and after some lines the stream ends, goes bad or throws.
  Writing the file: it may not open, go bad or throw.
\<close>

datatype file_end = file_eof | file_bad | file_throws
datatype file_in = file_missing | file_lines "string list" file_end

text \<open>The effect on the file: untouched, removed, left partly written, or replaced by the addresses.\<close>

datatype file_effect = file_kept | file_removed | file_partial | file_saved "address_item list"

definition hosts_start :: "('ip, 'e) hosts_env \<Rightarrow> file_in \<Rightarrow> 'e hosts \<Rightarrow> error_t \<times> 'e hosts \<times> file_effect" where
  "hosts_start env file h =
    (if capacity env = 0 then (e_success, h, file_kept)
     else if \<not> hosts_stopped h then (e_operation_failed, h, file_kept)
     else let h1 = h\<lparr>hosts_stopped := False\<rparr> in
       case file of
         file_missing \<Rightarrow> (e_success, h1, file_kept)
       | file_lines lines ended \<Rightarrow>
           let h2 = fold (push_line env) lines h1 in
           (case ended of
              file_bad \<Rightarrow> (e_file_load, h2, file_kept)
            | file_throws \<Rightarrow> (e_file_exception, h2, file_kept)
            | file_eof \<Rightarrow>
                (e_success, store_count h2, if pool h2 = [] then file_removed else file_kept)))"


section \<open>Usage\<close>

definition in_family :: "family \<Rightarrow> address_item \<Rightarrow> bool" where
  "in_family f item = (case f of
     family_ipv4 \<Rightarrow> is_v4 (ai_address item)
   | family_ipv6 \<Rightarrow> is_v6 (ai_address item) \<or> is_cjdns (ai_address item)
   | family_any \<Rightarrow> True)"

text \<open>
  The loop of \<open>take\<close> with the iterator between \<open>before\<close> and \<open>after\<close>: an address that is not
  connectable or not of the family is passed over, any other is removed, and the first one removed
  that is not reserved is the result.
\<close>

fun take_from :: "('ip, 'e) hosts_env \<Rightarrow> family \<Rightarrow> address_item list \<Rightarrow> address_item list \<Rightarrow> 'e hosts \<Rightarrow>
    address_item option \<times> 'e hosts" where
  "take_from env f before [] h = (None, h)"
| "take_from env f before (item # after) h =
    (if \<not> connectable (env_settings env) item \<or> \<not> in_family f item
     then take_from env f (before @ [item]) after h
     else let h1 = store_count ((decrement (ai_address item) h)\<lparr>pool := before @ after\<rparr>) in
       if \<not> is_reserved env h1 item then (Some item, h1)
       else take_from env f before after h1)"

definition hosts_take :: "('ip, 'e) hosts_env \<Rightarrow> family \<Rightarrow> 'e hosts \<Rightarrow> (error_t \<times> address_item option) \<times> 'e hosts" where
  "hosts_take env f h =
    (if hosts_stopped h then ((e_service_stopped, None), h)
     else case take_from env f [] (pool h) h of
         (Some host, h1) \<Rightarrow> ((e_success, Some host), h1)
       | (None, h1) \<Rightarrow> ((e_address_not_found, None), h1))"

text \<open>\<open>*find(host) = host\<close>: the first equal address is replaced.\<close>

fun replace_first :: "address_item \<Rightarrow> address_item list \<Rightarrow> address_item list" where
  "replace_first host [] = []"
| "replace_first host (x # xs) = (if item_eq x host then host # xs else x # replace_first host xs)"

definition hosts_restore :: "('ip, 'e) hosts_env \<Rightarrow> address_item \<Rightarrow> 'e hosts \<Rightarrow> error_t \<times> 'e hosts" where
  "hosts_restore env host h =
    (if hosts_stopped h then (e_service_stopped, h)
     else if is_pooled h host then (e_success, h\<lparr>pool := replace_first host (pool h)\<rparr>)
     else (e_success, store_count (push (capacity env) host h)))"

section \<open>Negotiation\<close>

definition max_address :: nat where "max_address = 1000"

text \<open>\<open>divisor\<close> (\<open>divide\<close>) and \<open>index\<close> are the random numbers drawn from the configured ranges.\<close>

definition hosts_fetch :: "nat \<Rightarrow> nat \<Rightarrow> 'e hosts \<Rightarrow> error_t \<times> address_item list" where
  "hosts_fetch divisor index h =
    (if hosts_stopped h then (e_service_stopped, [])
     else if pool h = [] then (e_address_not_found, [])
     else let pooled = length (pool h); size = min max_address (pooled div divisor)
       in (e_success, map (\<lambda>count. pool h ! ((index + count) mod pooled)) [0..<size]))"

definition save_one :: "('ip, 'e) hosts_env \<Rightarrow> address_item \<Rightarrow> 'e hosts \<Rightarrow> 'e hosts" where
  "save_one env host h =
    (if \<not> insufficient env host \<and> \<not> is_reserved env h host \<and> \<not> is_pooled h host
     then store_count (push (capacity env) host h) else h)"

definition hosts_save :: "('ip, 'e) hosts_env \<Rightarrow> address_item list \<Rightarrow> 'e hosts \<Rightarrow> (error_t \<times> uint64) \<times> 'e hosts" where
  "hosts_save env addresses h =
    (if hosts_stopped h then ((e_service_stopped, 0), h)
     else if addresses = [] then ((e_address_not_found, 0), h)
     else let h1 = fold (save_one env) addresses h
       in ((e_success, of_nat (length (pool h1)) - of_nat (length (pool h))), h1))"

section \<open>Reservation\<close>



section \<open>The invariant\<close>

text \<open>The number of pooled addresses of each network, as the counters hold it.\<close>

definition network_count :: "nat \<Rightarrow> address_item list \<Rightarrow> uint64" where
  "network_count i items = of_nat (length (filter (\<lambda>x. address_index (ai_address x) = i) items))"

definition hosts_inv :: "('ip, 'e) hosts_env \<Rightarrow> 'e hosts \<Rightarrow> bool" where
  "hosts_inv env h \<longleftrightarrow> length (pool h) \<le> capacity env \<and> (hosts_stopped h \<or> 0 < capacity env) \<and>
     host_counts h = map (\<lambda>i. network_count i (pool h)) [0..<address_types] \<and>
     finite (endpoints h) \<and> endpoints_count h = of_nat (card (endpoints h))"

text \<open>No two pooled addresses are equal (up to timestamp and services).\<close>

definition unique_pool :: "'e hosts \<Rightarrow> bool" where
  "unique_pool h \<longleftrightarrow> sorted_wrt (\<lambda>x y. \<not> item_eq x y) (pool h)"

lemma network_count_simps:
  "network_count i [] = 0"
  "network_count i (xs @ ys) = network_count i xs + network_count i ys"
  "network_count i (x # xs) = (if address_index (ai_address x) = i then 1 else 0) + network_count i xs"
  by (simp_all add: network_count_def)

lemma counts_update:
  assumes "i < address_types" "\<And>j. j < address_types \<Longrightarrow> g j = (if j = i then v else f j)"
  shows "(map f [0..<address_types])[i := v] = map g [0..<address_types]"
  using assms by (intro nth_equalityI) (simp_all add: nth_list_update)


lemma decrement_inv:
  "host_counts h = map (\<lambda>i. network_count i (xs @ x # ys)) [0..<address_types] \<Longrightarrow>
   host_counts (decrement (ai_address x) h) = map (\<lambda>i. network_count i (xs @ ys)) [0..<address_types]"
  by (auto simp: decrement_def network_count_simps intro!: counts_update)

lemma count_fields [simp]:
  "pool (increment a h) = pool h" "hosts_stopped (increment a h) = hosts_stopped h"
  "endpoints (increment a h) = endpoints h" "endpoints_count (increment a h) = endpoints_count h"
  "pool (decrement a h) = pool h" "hosts_stopped (decrement a h) = hosts_stopped h"
  "endpoints (decrement a h) = endpoints h" "endpoints_count (decrement a h) = endpoints_count h"
  by (simp_all add: increment_def decrement_def)

lemma store_count_fields [simp]:
  "pool (store_count h) = pool h" "hosts_stopped (store_count h) = hosts_stopped h"
  "endpoints (store_count h) = endpoints h" "endpoints_count (store_count h) = endpoints_count h"
  "host_counts (store_count h) = host_counts h"
  "hosts_count (store_count h) = of_nat (length (pool h))"
  by (simp_all add: store_count_def)

lemma hosts_inv_store [simp]: "hosts_inv env (store_count h) \<longleftrightarrow> hosts_inv env h"
  by (simp add: hosts_inv_def)

lemma push_pool: "pool (push cap x h) = (if length (pool h) = cap then tl (pool h) else pool h) @ [x]"
  by (simp add: push_def Let_def)

lemma push_fields [simp]:
  "hosts_stopped (push cap x h) = hosts_stopped h" "endpoints (push cap x h) = endpoints h"
  "endpoints_count (push cap x h) = endpoints_count h"
  by (simp_all add: push_def Let_def)



lemma push_line_fields [simp]: "hosts_stopped (push_line env line h) = hosts_stopped h"
  by (simp add: push_line_def Let_def split: option.split)




lemma take_from_law:
  assumes "hosts_inv env h" "pool h = before @ after"
    "take_from env f before after h = (found, h')"
  shows "hosts_inv env h' \<and> (\<exists>kept. pool h' = before @ kept \<and> subseq kept after) \<and>
    (hosts_count h = of_nat (length (pool h)) \<longrightarrow> hosts_count h' = of_nat (length (pool h'))) \<and>
    hosts_stopped h' = hosts_stopped h \<and> endpoints h' = endpoints h \<and>
    (\<forall>x. found = Some x \<longrightarrow> x \<in> set after \<and> connectable (env_settings env) x \<and> in_family f x \<and>
       \<not> is_reserved env h x) \<and>
    (found = None \<longrightarrow> (\<forall>x\<in>set after. connectable (env_settings env) x \<and> in_family f x \<longrightarrow> is_reserved env h x))"
  using assms
proof (induction env f before after h arbitrary: h' rule: take_from.induct)
  case (2 env f before item after h)
  show ?case
  proof (cases "\<not> connectable (env_settings env) item \<or> \<not> in_family f item")
    case True
    then have "take_from env f (before @ [item]) after h = (found, h')" using "2.prems"(3) by auto
    from "2.IH"(1) [OF True "2.prems"(1) _ this] "2.prems"(2)
    show ?thesis using True by fastforce
  next
    case False
    let ?h = "store_count ((decrement (ai_address item) h)\<lparr>pool := before @ after\<rparr>)"
    have inv: "hosts_inv env ?h"
      using "2.prems"(1,2) decrement_inv [of h before item after]
      by (simp add: hosts_inv_def decrement_def)
    have same: "is_reserved env ?h = is_reserved env h" by (simp add: is_reserved_def fun_eq_iff)
    show ?thesis
    proof (cases "is_reserved env h item")
      case True
      then have "take_from env f before after ?h = (found, h')"
        using "2.prems"(3) False same by (auto simp: Let_def)
      from "2.IH"(2) [OF False refl _ inv _ this] True same show ?thesis by auto
    next
      case free: False
      then have "found = Some item" "h' = ?h" using "2.prems"(3) False same by (auto simp: Let_def)
      then show ?thesis using inv free False by auto
    qed
  qed
qed simp


lemma replace_first_length [simp]: "length (replace_first host xs) = length xs"
  by (induction xs) simp_all

lemma replace_first_networks [simp]: "network_count i (replace_first host xs) = network_count i xs"
  by (induction xs) (auto simp: network_count_simps item_eq_def)







section \<open>The pool as a state machine\<close>





lemma hosts_init_inv: "hosts_inv env hosts_init"
  by (simp add: hosts_inv_def hosts_init_def network_count_def map_replicate_const)






lemma push_count [simp]: "hosts_count (push cap x h) = hosts_count h" "hosts_count (push_line env line h) = hosts_count h"
  by (simp_all add: push_line_def push_def increment_def decrement_def Let_def split: option.split)

lemma push_lines_count [simp]: "hosts_count (fold (push_line env) lines h) = hosts_count h"
  by (induction lines arbitrary: h) simp_all








definition example_env :: "nat \<Rightarrow> (unit, address_item) hosts_env" where
  "example_env n = \<lparr>env_settings = \<lparr>gossip_ipv4 = True, gossip_ipv6 = True, gossip_tor = False,
       gossip_i2p = False, outbound_proxied = False, invalid_services = 0, friends = [],
       blacklists = [], whitelists = [], host_pool_capacity = n\<rparr>,
     env_ip = \<lparr>host_ip = \<lambda>_. (), member_ip = \<lambda>_ _ _. False\<rparr>,
     env_required = 0, env_endpoint = \<lambda>x. x,
     env_parse = \<lambda>line. if line = ''a'' then Some \<lparr>ai_timestamp = 0, ai_services = 0,
       ai_address = ipv4_t (replicate 16 1), ai_port = 8333\<rparr> else None\<rparr>"

definition example_hosts :: "address_item hosts" where
  "example_hosts = hosts_init\<lparr>hosts_stopped := False\<rparr>"

lemma example_hosts_inv: "hosts_inv (example_env 3) example_hosts" "\<not> hosts_stopped example_hosts"
  using hosts_init_inv [of "example_env 3"]
  by (simp_all add: hosts_inv_def capacity_def example_env_def hosts_init_def example_hosts_def)

lemma example_hosts_unique: "unique_pool example_hosts"
  by (simp add: unique_pool_def example_hosts_def hosts_init_def)


text \<open>A load that fails after its first line: an address is pooled and counted for its network, and the count is zero.\<close>

lemma failed_load_unpublished:
  "\<exists>h. hosts_start (example_env 3) (file_lines [''a''] file_bad) hosts_init = (e_file_load, h, file_kept) \<and>
    length (pool h) = 1 \<and> hosts_count h = 0"
proof -
  let ?item = "\<lparr>ai_timestamp = 0, ai_services = 0, ai_address = ipv4_t (replicate 16 1), ai_port = 8333\<rparr>"
  have "\<not> is_unspecified (ai_address ?item)"
    by (simp add: is_unspecified_def stored_size_def replicate_eq_replicate)
  then show ?thesis
    by (simp add: hosts_start_def Let_def push_line_def push_pool hosts_init_def capacity_def example_env_def insufficient_def
        is_specified_def gossiped_def unsupported_def peered_def blacklisted_def whitelisted_def)
qed

section \<open>Taking and saving\<close>

text \<open>
  Taking an address from a running pool: an address that is returned was pooled, is
  connectable, of the requested family and not reserved; none is returned only when every such
  address in the pool is reserved. What is left is a subsequence of the pool, the published count
  stays exact, and nothing is reserved or unreserved.
\<close>

theorem hosts_take_sound:
  assumes "hosts_inv env h" "\<not> hosts_stopped h" "hosts_take env f h = ((ec, found), h')"
  shows "(ec = e_success \<longleftrightarrow> found \<noteq> None) \<and>
    (\<forall>x. found = Some x \<longrightarrow> x \<in> set (pool h) \<and> connectable (env_settings env) x \<and> in_family f x \<and>
       \<not> is_reserved env h x) \<and>
    (found = None \<longrightarrow> ec = e_address_not_found \<and> (\<forall>x\<in>set (pool h).
       connectable (env_settings env) x \<and> in_family f x \<longrightarrow> is_reserved env h x)) \<and>
    subseq (pool h') (pool h) \<and> endpoints h' = endpoints h \<and>
    (hosts_count h = of_nat (length (pool h)) \<longrightarrow> hosts_count h' = of_nat (length (pool h')))"
  using assms(2,3) take_from_law [OF assms(1), of "[]" "pool h" f]
  by (auto simp: hosts_take_def split: prod.splits option.splits)

theorem hosts_take_sound_witness:
  "\<exists>ec found h'. hosts_take (example_env 3) family_ipv6 example_hosts = ((ec, found), h') \<and>
     (ec = e_success \<longleftrightarrow> found \<noteq> None) \<and> subseq (pool h') (pool example_hosts)"
proof -
  obtain ec found h' where t: "hosts_take (example_env 3) family_ipv6 example_hosts = ((ec, found), h')"
    by (metis surj_pair)
  from t hosts_take_sound [OF example_hosts_inv t] show ?thesis by auto
qed

lemma unique_subseq: "subseq xs ys \<Longrightarrow> sorted_wrt P ys \<Longrightarrow> sorted_wrt P xs"
proof (induction rule: list_emb.induct)
  case (list_emb_Cons2 x y xs ys)
  then show ?case using list_emb_set [OF list_emb_Cons2(2)] by auto
qed simp_all

lemma push_unique:
  assumes "unique_pool h" "\<not> is_pooled h x"
  shows "unique_pool (push cap x h)"
  using assms
  by (cases "pool h") (auto simp: unique_pool_def push_pool is_pooled_def sorted_wrt_append item_eq_sym)

lemma save_one_unique: "unique_pool h \<Longrightarrow> unique_pool (save_one env x h)"
  using push_unique [of h x "capacity env"] by (simp add: save_one_def unique_pool_def)

lemma save_fold_unique: "unique_pool h \<Longrightarrow> unique_pool (fold (save_one env) hs h)"
  by (induction hs arbitrary: h) (simp_all add: save_one_unique)

lemma replace_first_unique:
  "sorted_wrt (\<lambda>x y. \<not> item_eq x y) xs \<Longrightarrow> sorted_wrt (\<lambda>x y. \<not> item_eq x y) (replace_first host xs)"
proof (induction xs)
  case (Cons x xs)
  have sub: "\<exists>z\<in>set xs. item_eq z y" if "y \<in> set (replace_first host xs)" for y
    using that by (induction xs) (auto split: if_splits simp: item_eq_def)
  have "\<not> item_eq x y" if "y \<in> set (replace_first host xs)" for y
    using sub [OF that] Cons.prems by (auto simp: item_eq_def)
  moreover have "\<not> item_eq host y" if "y \<in> set xs" "item_eq x host" for y
    using that Cons.prems by (auto simp: item_eq_def)
  ultimately show ?case using Cons by simp
qed simp

text \<open>
  Duplicates never enter the pool by use or negotiation: taking, restoring and saving keep
  the pooled addresses pairwise unequal (up to timestamp and services, as \<open>operator==\<close> compares).
\<close>

theorem hosts_unique:
  assumes "unique_pool h" "hosts_inv env h"
  shows "unique_pool (snd (hosts_take env f h)) \<and> unique_pool (snd (hosts_restore env host h)) \<and>
    unique_pool (snd (hosts_save env addresses h))"
proof (intro conjI)
  show "unique_pool (snd (hosts_take env f h))"
  proof (cases "take_from env f [] (pool h) h")
    case (Pair found h')
    with take_from_law [OF assms(2) _ Pair] have "subseq (pool h') (pool h)" by auto
    from unique_subseq [OF this] assms(1) Pair show ?thesis
      by (auto simp: hosts_take_def unique_pool_def split: option.split)
  qed
  show "unique_pool (snd (hosts_restore env host h))"
    using assms(1) push_unique [of h host] replace_first_unique
    by (auto simp: hosts_restore_def unique_pool_def)
  show "unique_pool (snd (hosts_save env addresses h))"
    using assms(1) save_fold_unique by (auto simp: hosts_save_def Let_def)
qed

theorem hosts_unique_witness:
  "unique_pool (snd (hosts_save (example_env 3) [\<lparr>ai_timestamp = 1, ai_services = 0, ai_address = monostate,
     ai_port = 1\<rparr>, \<lparr>ai_timestamp = 2, ai_services = 0, ai_address = monostate, ai_port = 1\<rparr>] example_hosts))"
  using hosts_unique [OF example_hosts_unique example_hosts_inv(1)] by blast

lemma mod_positions:
  assumes "i < j" "j < (n :: nat)"
  shows "(k + i) mod n \<noteq> (k + j) mod n"
proof
  assume "(k + i) mod n = (k + j) mod n"
  then have "n dvd (k + j) - (k + i)" using assms(1) by (metis add_le_mono le_refl less_imp_le mod_eq_dvd_iff_nat)
  then have "n dvd j - i" by simp
  with assms show False by (auto dest: dvd_imp_le)
qed

lemma sorted_wrt_positions:
  assumes "sorted_wrt (\<lambda>x y. \<not> item_eq x y) xs" "m \<le> length xs"
  shows "sorted_wrt (\<lambda>x y. \<not> item_eq x y) (map (\<lambda>c. xs ! ((k + c) mod length xs)) [0..<m])"
proof -
  have "\<not> item_eq (xs ! p) (xs ! q)" if "p < length xs" "q < length xs" "p \<noteq> q" for p q
    using that assms(1) item_eq_sym [of "xs ! p"] by (cases "p < q") (auto simp: sorted_wrt_iff_nth_less)
  moreover have "(k + i) mod length xs \<noteq> (k + j) mod length xs" if "i < j" "j < m" for i j
    using mod_positions [of i j "length xs" k] that assms(2) by simp
  moreover have "(k + i) mod length xs < length xs" if "i < m" for i
    using that assms(2) by (intro mod_less_divisor) linarith
  ultimately show ?thesis by (auto simp: sorted_wrt_iff_nth_less)
qed

text \<open>
  Fetching from a running, nonempty pool yields the configured fraction of the pool, at most
  a thousand addresses, all of them pooled, and without repetition when the pool has none:
  whatever the random start position, the positions read wrap around but never overlap.
\<close>

theorem hosts_fetch_subset:
  assumes "\<not> hosts_stopped h" "pool h \<noteq> []" "0 < divisor"
  shows "fst (hosts_fetch divisor index h) = e_success \<and>
    length (snd (hosts_fetch divisor index h)) = min 1000 (length (pool h) div divisor) \<and>
    set (snd (hosts_fetch divisor index h)) \<subseteq> set (pool h) \<and>
    (unique_pool h \<longrightarrow> sorted_wrt (\<lambda>x y. \<not> item_eq x y) (snd (hosts_fetch divisor index h)))"
proof -
  have "min max_address (length (pool h) div divisor) \<le> length (pool h)"
    using div_le_dividend [of "length (pool h)" divisor] by linarith
  then show ?thesis using assms sorted_wrt_positions [of "pool h" _ index]
    by (auto simp: hosts_fetch_def Let_def max_address_def unique_pool_def)
qed

theorem hosts_fetch_subset_witness:
  "length (snd (hosts_fetch 2 5 (example_hosts\<lparr>pool := replicate 4 undefined\<rparr>))) = 2"
  using hosts_fetch_subset [of "example_hosts\<lparr>pool := replicate 4 undefined\<rparr>" 2 5] example_hosts_inv
  by simp

lemma save_fold_grows:
  assumes "length (pool h) + length hs \<le> capacity env"
  shows "(\<exists>new. pool (fold (save_one env) hs h) = pool h @ new \<and> length new \<le> length hs) \<and>
    endpoints (fold (save_one env) hs h) = endpoints h \<and>
    (\<forall>x\<in>set hs. insufficient env x \<or> is_reserved env h x \<or> is_pooled (fold (save_one env) hs h) x)"
  using assms
proof (induction hs arbitrary: h)
  case (Cons x hs)
  let ?h = "save_one env x h"
  have one: "pool ?h = (if \<not> insufficient env x \<and> \<not> is_reserved env h x \<and> \<not> is_pooled h x
      then pool h @ [x] else pool h)" "endpoints ?h = endpoints h"
    using Cons.prems by (simp_all add: save_one_def push_pool)
  then have "length (pool ?h) + length hs \<le> capacity env" using Cons.prems by auto
  from Cons.IH [OF this] obtain new where new: "pool (fold (save_one env) hs ?h) = pool ?h @ new"
    "length new \<le> length hs" and ends: "endpoints (fold (save_one env) hs ?h) = endpoints ?h"
    and rest: "\<forall>y\<in>set hs. insufficient env y \<or> is_reserved env ?h y \<or> is_pooled (fold (save_one env) hs ?h) y"
    by blast
  have "is_reserved env ?h = is_reserved env h" by (simp add: is_reserved_def fun_eq_iff one(2))
  moreover have "is_pooled (fold (save_one env) hs ?h) x" if "\<not> insufficient env x" "\<not> is_reserved env h x"
    using that new(1) one(1) by (auto simp: is_pooled_def)
  ultimately show ?case using new ends rest one
    by (cases "\<not> insufficient env x \<and> \<not> is_reserved env h x \<and> \<not> is_pooled h x") auto
qed simp

text \<open>
  Saving a message of addresses into a running pool that has room for them: the pooled
  addresses are kept in place, every address of the message is afterwards pooled unless it lacks
  the required services or is reserved, and the reported count is the number of addresses added.
\<close>

theorem hosts_save_complete:
  assumes "\<not> hosts_stopped h" "addresses \<noteq> []" "length (pool h) + length addresses \<le> capacity env"
  shows "\<exists>new h'. hosts_save env addresses h = ((e_success, of_nat (length new)), h') \<and>
    pool h' = pool h @ new \<and> length new \<le> length addresses \<and>
    (\<forall>x\<in>set addresses. insufficient env x \<or> is_reserved env h x \<or> is_pooled h' x)"
proof -
  obtain new where new: "pool (fold (save_one env) addresses h) = pool h @ new"
    "length new \<le> length addresses"
    "\<forall>x\<in>set addresses. insufficient env x \<or> is_reserved env h x \<or> is_pooled (fold (save_one env) addresses h) x"
    using save_fold_grows [OF assms(3)] by blast
  then show ?thesis using assms(1,2)
    by (intro exI [of _ new] exI [of _ "fold (save_one env) addresses h"]) (simp add: hosts_save_def Let_def)
qed

theorem hosts_save_complete_witness:
  "\<exists>new h'. hosts_save (example_env 3) [undefined] example_hosts = ((e_success, of_nat (length new)), h') \<and>
     pool h' = pool example_hosts @ new"
  using hosts_save_complete [of example_hosts "[undefined]" "example_env 3"] example_hosts_inv
  by (auto simp: capacity_def example_env_def example_hosts_def hosts_init_def)

text \<open>
  When the pool is full the count that \<open>save\<close> reports is not the count of accepted addresses:
  a new sufficient, unreserved address is pooled (the oldest one is evicted) and the reported
  count is zero.
\<close>

theorem hosts_save_full:
  assumes "\<not> hosts_stopped h" "length (pool h) = capacity env" "0 < capacity env"
    "\<not> insufficient env x" "\<not> is_reserved env h x" "\<not> is_pooled h x"
  shows "\<exists>h'. hosts_save env [x] h = ((e_success, 0), h') \<and> pool h' = tl (pool h) @ [x] \<and> is_pooled h' x"
  using assms
  by (cases "pool h") (auto simp: hosts_save_def save_one_def push_pool is_pooled_def Let_def)

theorem hosts_save_full_witness:
  "\<exists>h'. hosts_save (example_env 1) [\<lparr>ai_timestamp = 0, ai_services = 0, ai_address = monostate, ai_port = 2\<rparr>]
      (example_hosts\<lparr>pool := [\<lparr>ai_timestamp = 0, ai_services = 0, ai_address = monostate, ai_port = 1\<rparr>]\<rparr>) =
      ((e_success, 0), h') \<and>
    pool h' = [\<lparr>ai_timestamp = 0, ai_services = 0, ai_address = monostate, ai_port = 2\<rparr>]"
  using hosts_save_full [of "example_hosts\<lparr>pool := [\<lparr>ai_timestamp = 0, ai_services = 0,
      ai_address = monostate, ai_port = 1\<rparr>]\<rparr>" "example_env 1"
      "\<lparr>ai_timestamp = 0, ai_services = 0, ai_address = monostate, ai_port = 2\<rparr>"]
  by (auto simp: example_hosts_def hosts_init_def capacity_def example_env_def insufficient_def
      is_reserved_def is_pooled_def item_eq_def)

text \<open>
  Loading does not discard duplicates: an acceptable line that the hosts file repeats is pooled
  as often as the file has it, up to the capacity.
\<close>

theorem hosts_start_duplicates:
  assumes "hosts_stopped h" "pool h = []" "n \<le> capacity env" "0 < n"
    "env_parse env line = Some item" "\<not> insufficient env item"
    "\<not> excluded (env_ip env) (env_settings env) item"
  shows "\<exists>h'. hosts_start env (file_lines (replicate n line) file_eof) h = (e_success, h', file_kept) \<and>
    pool h' = replicate n item"
proof -
  have "pool (fold (push_line env) (replicate m line) g) = pool g @ replicate m item"
    if "length (pool g) + m \<le> capacity env" for m g
    using that
  proof (induction m arbitrary: g)
    case (Suc m)
    have "pool (push_line env line g) = pool g @ [item]"
      using Suc.prems assms(5-7) by (simp add: push_line_def excluded_def Let_def push_pool)
    with Suc show ?case by simp
  qed simp
  from this [of "h\<lparr>hosts_stopped := False\<rparr>" n] assms(1-4) show ?thesis
    by (simp add: hosts_start_def Let_def)
qed

theorem hosts_start_duplicates_witness:
  "\<exists>h'. hosts_start (example_env 3) (file_lines (replicate 2 ''a'') file_eof) hosts_init = (e_success, h', file_kept) \<and>
     \<not> unique_pool h'"
proof -
  let ?item = "\<lparr>ai_timestamp = 0, ai_services = 0, ai_address = ipv4_t (replicate 16 1), ai_port = 8333\<rparr>"
  have "\<not> is_unspecified (ai_address ?item)"
    by (simp add: is_unspecified_def stored_size_def replicate_eq_replicate)
  then have "\<not> excluded (env_ip (example_env 3)) (env_settings (example_env 3)) ?item"
    by (simp add: excluded_def is_specified_def gossiped_def unsupported_def peered_def
        blacklisted_def whitelisted_def example_env_def)
  with hosts_start_duplicates [of hosts_init 2 "example_env 3" "''a''" ?item]
  show ?thesis
    by (auto simp: hosts_init_def capacity_def example_env_def insufficient_def unique_pool_def numeral_2_eq_2)
qed

end
