(* ===== verification/Wire.thy ===== *)
theory Wire
  imports Prelude "HOL-Library.State_Monad"
begin

text \<open>
  The byte reader and byte writer that the message codecs are written against. They belong to
  libbitcoin-system, so their operations are a record of parameters, \<open>wire\<close>; the codecs are state
  monad programs over it. The locale \<open>byte_wire\<close> states what the codecs rely on, the documented
  encodings of the primitive operations, through two views: the bytes a reader has left (None once
  it is invalid) and the bytes a writer holds with the room it has left (None once it is invalid).

  \<open>decodes\<close>, \<open>strict\<close> and \<open>encodes\<close> are the specifications that compose: a program reads a value
  from a given encoding, leaves an invalid reader invalid, writes a given encoding or overflows.
  The in-memory reader and writer at the end show that the contract can be met.
\<close>

section \<open>Encodings\<close>

primrec le_bytes :: "nat \<Rightarrow> 'a :: len word \<Rightarrow> bytes" where
  "le_bytes 0 w = []"
| "le_bytes (Suc n) w = ucast w # le_bytes n (drop_bit 8 w)"

text \<open>The variable length integer of the protocol (CompactSize).\<close>

definition variable_bytes :: "uint64 \<Rightarrow> bytes" where
  "variable_bytes v =
    (if v < 0xfd then [ucast v]
     else if v \<le> 0xffff then 0xfd # le_bytes 2 v
     else if v \<le> 0xffffffff then 0xfe # le_bytes 4 v
     else 0xff # le_bytes 8 v)"

abbreviation size_bytes :: "nat \<Rightarrow> bytes" where
  "size_bytes n \<equiv> variable_bytes (of_nat n)"

definition char_byte :: "char \<Rightarrow> byte" where
  "char_byte c = of_nat (of_char c)"

definition string_bytes :: "string \<Rightarrow> bytes" where
  "string_bytes s = map char_byte s"

definition prefixed_string :: "string \<Rightarrow> bytes" where
  "prefixed_string s = size_bytes (length s) @ string_bytes s"

text \<open>A string in a fixed buffer, truncated or padded with zeros.\<close>

definition string_buffer :: "nat \<Rightarrow> string \<Rightarrow> bytes" where
  "string_buffer n s = take n (string_bytes s) @ replicate (n - length s) 0"

lemma length_le_bytes [simp]: "length (le_bytes n w) = n"
  by (induction n arbitrary: w) simp_all

lemma length_string_bytes [simp]: "length (string_bytes s) = length s"
  by (simp add: string_bytes_def)

lemma length_string_buffer [simp]: "length (string_buffer n s) = n"
  by (simp add: string_buffer_def)

lemma length_variable_bytes:
  "length (variable_bytes v) = (if v < 0xfd then 1 else if v \<le> 0xffff then 3
     else if v \<le> 0xffffffff then 5 else 9)"
  by (simp add: variable_bytes_def)

section \<open>The operations\<close>

record ('r, 'w) wire =
  open_reader :: "bytes \<Rightarrow> 'r"
  reader_valid :: "'r \<Rightarrow> bool"
  invalidate :: "('r, unit) state"
  is_exhausted :: "('r, bool) state"
  get_read_position :: "('r, nat) state"
  set_position :: "nat \<Rightarrow> ('r, unit) state"
  set_limit :: "nat \<Rightarrow> ('r, unit) state"
  clear_limit :: "('r, unit) state"
  skip_bytes :: "nat \<Rightarrow> ('r, unit) state"
  read_byte :: "('r, byte) state"
  read_2_bytes_big_endian :: "('r, uint16) state"
  read_4_bytes_little_endian :: "('r, uint32) state"
  read_8_bytes_little_endian :: "('r, uint64) state"
  read_variable :: "('r, uint64) state"
  read_size :: "nat \<Rightarrow> ('r, nat) state"
  read_bytes :: "nat \<Rightarrow> ('r, bytes) state"
  read_all_bytes :: "('r, bytes) state"
  read_string :: "nat \<Rightarrow> ('r, string) state"
  read_string_buffer :: "nat \<Rightarrow> ('r, string) state"
  variable_size :: "uint64 \<Rightarrow> nat"
  open_writer :: "nat \<Rightarrow> 'w"
  writer_valid :: "'w \<Rightarrow> bool"
  written :: "'w \<Rightarrow> bytes"
  write_byte :: "byte \<Rightarrow> ('w, unit) state"
  write_2_bytes_big_endian :: "uint16 \<Rightarrow> ('w, unit) state"
  write_4_bytes_little_endian :: "uint32 \<Rightarrow> ('w, unit) state"
  write_8_bytes_little_endian :: "uint64 \<Rightarrow> ('w, unit) state"
  write_variable :: "uint64 \<Rightarrow> ('w, unit) state"
  write_bytes :: "bytes \<Rightarrow> ('w, unit) state"
  write_string :: "string \<Rightarrow> ('w, unit) state"
  write_string_buffer :: "nat \<Rightarrow> string \<Rightarrow> ('w, unit) state"

text \<open>
  The idioms every codec shares: the reader over the data, null unless it stays valid; the writer
  over a slab of the size, false unless it stays valid.
\<close>

definition from_data :: "('r, 'w) wire \<Rightarrow> ('r, 'm) state \<Rightarrow> bytes \<Rightarrow> 'm option" where
  "from_data io deserialize data =
    (let (message, reader) = run_state deserialize (open_reader io data)
     in if reader_valid io reader then Some message else None)"

definition to_slab :: "('r, 'w) wire \<Rightarrow> ('w, unit) state \<Rightarrow> nat \<Rightarrow> bytes option" where
  "to_slab io serialize n =
    (let writer = snd (run_state serialize (open_writer io n))
     in if writer_valid io writer then Some (written io writer) else None)"

text \<open>Loops that read a number of items (an invalid reader is read on) and that write items.\<close>

fun read_items :: "nat \<Rightarrow> ('r, 'a) state \<Rightarrow> ('r, 'a list) state" where
  "read_items 0 item = State_Monad.return []"
| "read_items (Suc n) item = do { x \<leftarrow> item; xs \<leftarrow> read_items n item; State_Monad.return (x # xs) }"

fun write_items :: "('a \<Rightarrow> ('w, unit) state) \<Rightarrow> 'a list \<Rightarrow> ('w, unit) state" where
  "write_items item [] = State_Monad.return ()"
| "write_items item (x # xs) = do { item x; write_items item xs }"

text \<open>The loop \<open>for (n = 0; n < size && source; ++n)\<close>, which stops at an invalid reader.\<close>

fun read_items_valid :: "('r, 'w) wire \<Rightarrow> nat \<Rightarrow> ('r, 'a) state \<Rightarrow> ('r, 'a list) state" where
  "read_items_valid io 0 item = State_Monad.return []"
| "read_items_valid io (Suc n) item = State (\<lambda>r.
    if reader_valid io r
    then run_state (do { x \<leftarrow> item; xs \<leftarrow> read_items_valid io n item; State_Monad.return (x # xs) }) r
    else ([], r))"

definition invalidate_if :: "('r, 'w) wire \<Rightarrow> bool \<Rightarrow> ('r, unit) state" where
  "invalidate_if io b = (if b then invalidate io else State_Monad.return ())"

section \<open>Composable specifications\<close>

named_theorems strict_rules \<open>rules for strict, by the shape of the program\<close>
named_theorems frame_rules \<open>rules for frames, by the shape of the program\<close>
named_theorems encode_rules \<open>rules for encodes, by the shape of the program\<close>

definition decodes :: "('r \<Rightarrow> bytes option) \<Rightarrow> ('r, 'a) state \<Rightarrow> 'a \<Rightarrow> bytes \<Rightarrow> bool" where
  "decodes v d x bs \<longleftrightarrow> (\<forall>r tl. v r = Some (bs @ tl) \<longrightarrow>
     fst (run_state d r) = x \<and> v (snd (run_state d r)) = Some tl)"

definition strict :: "('r \<Rightarrow> bytes option) \<Rightarrow> ('r, 'a) state \<Rightarrow> bool" where
  "strict v d \<longleftrightarrow> (\<forall>r. v r = None \<longrightarrow> v (snd (run_state d r)) = None)"

definition encodes :: "('w \<Rightarrow> (bytes \<times> nat) option) \<Rightarrow> ('w, unit) state \<Rightarrow> bytes \<Rightarrow> bool" where
  "encodes v e bs \<longleftrightarrow> (\<forall>w. v (snd (run_state e w)) =
     (case v w of None \<Rightarrow> None
      | Some (acc, n) \<Rightarrow> if length bs \<le> n then Some (acc @ bs, n - length bs) else None))"

lemma decodes_return: "decodes v (State_Monad.return x) x []"
  by (simp add: decodes_def)

lemma decodes_bind:
  "decodes v d x bs \<Longrightarrow> decodes v (f x) y cs \<Longrightarrow> decodes v (State_Monad.bind d f) y (bs @ cs)"
  unfolding decodes_def by (auto split: prod.split) (metis fst_conv snd_conv)+

text \<open>One step of a program whose remaining part depends on what is left.\<close>

lemma decodes_step:
  assumes "decodes v d x bs" "v r = Some (bs @ rest)"
  shows "\<exists>r'. v r' = Some rest \<and> run_state (State_Monad.bind d f) r = run_state (f x) r'"
proof -
  have "fst (run_state d r) = x" "v (snd (run_state d r)) = Some rest"
    using assms by (simp_all add: decodes_def)
  then show ?thesis by (cases "run_state d r") auto
qed

lemma decodes_finish:
  "decodes v d x bs \<Longrightarrow> f x = State_Monad.return y \<Longrightarrow> decodes v (State_Monad.bind d f) y bs"
  using decodes_bind [of v d x bs f y "[]"] decodes_return [of v y] by simp

lemma decodes_guard:
  "decodes v f y bs \<Longrightarrow> \<not> b \<Longrightarrow> decodes v (State_Monad.bind (invalidate_if io b) (\<lambda>_. f)) y bs"
  by (simp add: invalidate_if_def)

lemma return_inject [simp]: "State_Monad.return x = State_Monad.return y \<longleftrightarrow> x = y"
  by (metis run_state_return prod.inject)

lemma decodes_if:
  "(b \<Longrightarrow> decodes v d x bs) \<Longrightarrow> (\<not> b \<Longrightarrow> decodes v e x cs) \<Longrightarrow>
   decodes v (if b then d else e) x (if b then bs else cs)"
  by simp

lemma decodes_items:
  assumes "\<And>x. x \<in> set xs \<Longrightarrow> decodes v item x (enc x)" "n = length xs"
  shows "decodes v (read_items n item) xs (concat (map enc xs))"
  using assms
proof (induction xs arbitrary: n)
  case (Cons x xs)
  have "decodes v item x (enc x)" using Cons.prems(1) by simp
  moreover have "decodes v (do { ys \<leftarrow> read_items (length xs) item; State_Monad.return (x # ys) }) (x # xs)
      (concat (map enc xs))"
    by (rule decodes_finish [OF Cons.IH]) (simp_all add: Cons.prems(1))
  ultimately have "decodes v (do { y \<leftarrow> item; ys \<leftarrow> read_items (length xs) item; State_Monad.return (y # ys) })
      (x # xs) (enc x @ concat (map enc xs))"
    by (rule decodes_bind)
  then show ?case using Cons.prems(2) by simp
qed (simp add: decodes_return)

text \<open>In the order the rules have to be tried.\<close>

lemmas decode_rules = decodes_guard decodes_bind decodes_finish decodes_return

lemma strict_return [strict_rules]: "strict v (State_Monad.return x)"
  by (simp add: strict_def)

lemma strict_bind [strict_rules]:
  "strict v d \<Longrightarrow> (\<And>x. strict v (f x)) \<Longrightarrow> strict v (State_Monad.bind d f)"
  unfolding strict_def by (auto split: prod.split) (metis snd_conv)

lemma strict_if [strict_rules]:
  "(b \<Longrightarrow> strict v d) \<Longrightarrow> (\<not> b \<Longrightarrow> strict v e) \<Longrightarrow> strict v (if b then d else e)"
  by simp

lemma strict_items [strict_rules]: "strict v item \<Longrightarrow> strict v (read_items n item)"
  by (induction n) (simp_all add: strict_rules)

text \<open>A program that leaves a part of the reader as it is.\<close>

definition frames :: "('r \<Rightarrow> 'b) \<Rightarrow> ('r, 'a) state \<Rightarrow> bool" where
  "frames h d \<longleftrightarrow> (\<forall>r. h (snd (run_state d r)) = h r)"

lemma frames_return [frame_rules]: "frames h (State_Monad.return x)"
  by (simp add: frames_def)

lemma frames_bind [frame_rules]:
  "frames h d \<Longrightarrow> (\<And>x. frames h (f x)) \<Longrightarrow> frames h (State_Monad.bind d f)"
  unfolding frames_def by (auto split: prod.split) (metis snd_conv)

lemma frames_items [frame_rules]: "frames h item \<Longrightarrow> frames h (read_items n item)"
  by (induction n) (simp_all add: frame_rules)

lemma encodes_return [encode_rules]: "encodes v (State_Monad.return ()) []"
  by (auto simp: encodes_def split: option.split)

lemma encodes_bind [encode_rules]:
  assumes "encodes v d bs" "encodes v e cs"
  shows "encodes v (State_Monad.bind d (\<lambda>_. e)) (bs @ cs)"
  unfolding encodes_def
proof
  fix w
  have "v (snd (run_state (State_Monad.bind d (\<lambda>_. e)) w)) = v (snd (run_state e (snd (run_state d w))))"
    by (simp split: prod.split)
  then show "v (snd (run_state (State_Monad.bind d (\<lambda>_. e)) w)) =
      (case v w of None \<Rightarrow> None
       | Some (acc, n) \<Rightarrow> if length (bs @ cs) \<le> n then Some (acc @ bs @ cs, n - length (bs @ cs)) else None)"
    using assms by (auto simp: encodes_def split: option.split)
qed

lemma encodes_if [encode_rules]:
  "(b \<Longrightarrow> encodes v d bs) \<Longrightarrow> (\<not> b \<Longrightarrow> encodes v e cs) \<Longrightarrow>
   encodes v (if b then d else e) (if b then bs else cs)"
  by simp

lemma encodes_items [encode_rules]:
  "(\<And>x. x \<in> set xs \<Longrightarrow> encodes v (item x) (enc x)) \<Longrightarrow>
   encodes v (write_items item xs) (concat (map enc xs))"
proof (induction xs)
  case (Cons x xs)
  then show ?case using encodes_bind [of v "item x" "enc x"] by simp
qed (simp add: encodes_return)

section \<open>What the codecs rely on\<close>

locale byte_wire =
  fixes io :: "('r, 'w) wire"
    and rview :: "'r \<Rightarrow> bytes option"
    and wview :: "'w \<Rightarrow> (bytes \<times> nat) option"
  assumes open_reader_law: "rview (open_reader io bs) = Some bs"
    and reader_valid_law: "reader_valid io r \<longleftrightarrow> rview r \<noteq> None"
    and invalidate_law: "rview (snd (run_state (invalidate io) r)) = None"
    and exhausted_law: "rview r = Some bs \<Longrightarrow> run_state (is_exhausted io) r = (bs = [], r)"
    and position_law: "rview (snd (run_state (get_read_position io) r)) = rview r"
    and rewind_law: "run_state (get_read_position io) r = (p, r1) \<Longrightarrow> rview r = Some bs \<Longrightarrow> length bs < n \<Longrightarrow>
      rview (snd (run_state (set_position io p) (snd (run_state (read_bytes io n) r1)))) = Some bs"
    and skip_law: "length bs = n \<Longrightarrow> decodes rview (skip_bytes io n) () bs"
    and byte_law: "decodes rview (read_byte io) b [b]"
    and big2_law: "decodes rview (read_2_bytes_big_endian io) x2 (be_bytes16 x2)"
    and little4_law: "decodes rview (read_4_bytes_little_endian io) x4 (le_bytes 4 x4)"
    and little8_law: "decodes rview (read_8_bytes_little_endian io) x8 (le_bytes 8 x8)"
    and variable_law: "decodes rview (read_variable io) x8 (variable_bytes x8)"
    and size_law: "n \<le> limit \<Longrightarrow> n < 2 ^ 64 \<Longrightarrow> decodes rview (read_size io limit) n (size_bytes n)"
    and oversize_law: "rview r = Some (size_bytes n @ bs) \<Longrightarrow> limit < n \<Longrightarrow> n < 2 ^ 64 \<Longrightarrow>
      rview (snd (run_state (read_size io limit) r)) = None"
    and size_bound_law: "fst (run_state (read_size io limit) r) \<le> limit"
    and bytes_law: "length bs = n \<Longrightarrow> decodes rview (read_bytes io n) bs bs"
    and short_bytes_law: "rview r = Some bs \<Longrightarrow> length bs < n \<Longrightarrow>
      rview (snd (run_state (read_bytes io n) r)) = None"
    and bytes_size_law: "length (fst (run_state (read_bytes io n) r)) = n"
    and all_bytes_law: "rview r = Some bs \<Longrightarrow> fst (run_state (read_all_bytes io) r) = bs \<and>
      rview (snd (run_state (read_all_bytes io) r)) = Some []"
    and string_law: "length s \<le> limit \<Longrightarrow> length s < 2 ^ 64 \<Longrightarrow>
      decodes rview (read_string io limit) s (prefixed_string s)"
    and string_buffer_law: "length s \<le> n \<Longrightarrow> CHR 0x00 \<notin> set s \<Longrightarrow>
      decodes rview (read_string_buffer io n) s (string_buffer n s)"
    and strict_law: "strict rview (is_exhausted io)" "strict rview (skip_bytes io n)"
      "strict rview (read_byte io)" "strict rview (read_2_bytes_big_endian io)"
      "strict rview (read_4_bytes_little_endian io)" "strict rview (read_8_bytes_little_endian io)"
      "strict rview (read_variable io)" "strict rview (read_size io limit)" "strict rview (read_bytes io n)"
      "strict rview (read_all_bytes io)" "strict rview (read_string io limit)"
      "strict rview (read_string_buffer io n)"
    and variable_size_law: "variable_size io x8 = length (variable_bytes x8)"
    and open_writer_law: "wview (open_writer io n) = Some ([], n)"
    and writer_valid_law: "writer_valid io w \<longleftrightarrow> wview w \<noteq> None"
    and written_law: "wview w = Some (bs, n) \<Longrightarrow> written io w = bs"
    and write_law: "encodes wview (write_byte io b) [b]"
      "encodes wview (write_2_bytes_big_endian io x2) (be_bytes16 x2)"
      "encodes wview (write_4_bytes_little_endian io x4) (le_bytes 4 x4)"
      "encodes wview (write_8_bytes_little_endian io x8) (le_bytes 8 x8)"
      "encodes wview (write_variable io x8) (variable_bytes x8)"
      "encodes wview (write_bytes io bs) bs"
      "encodes wview (write_string io s) (prefixed_string s)"
      "encodes wview (write_string_buffer io n s) (string_buffer n s)"
begin

lemma size_rule: "n \<le> limit \<Longrightarrow> limit < 2 ^ 64 \<Longrightarrow> decodes rview (read_size io limit) n (size_bytes n)"
  by (rule size_law) simp_all

lemma string_rule: "length s \<le> limit \<Longrightarrow> limit < 2 ^ 64 \<Longrightarrow>
    decodes rview (read_string io limit) s (prefixed_string s)"
  by (rule string_law) simp_all

lemmas read_rules = skip_law byte_law big2_law little4_law little8_law variable_law size_rule bytes_law
  string_rule string_buffer_law

lemma strict_invalidate: "strict rview (invalidate io)"
  by (simp add: strict_def invalidate_law)

lemma strict_invalidate_if: "strict rview (invalidate_if io b)"
  by (simp add: invalidate_if_def strict_invalidate strict_return)

lemma from_data_decodes:
  assumes "decodes rview d m bs"
  shows "from_data io d (bs @ rest) = Some m"
proof -
  have "fst (run_state d (open_reader io (bs @ rest))) = m \<and>
      rview (snd (run_state d (open_reader io (bs @ rest)))) = Some rest"
    using assms open_reader_law by (simp add: decodes_def)
  then show ?thesis by (auto simp: from_data_def reader_valid_law split: prod.split)
qed

lemma from_data_invalid:
  assumes "\<And>r. rview (snd (run_state d r)) = None"
  shows "from_data io d data = None"
  using assms [of "open_reader io data"]
  by (cases "run_state d (open_reader io data)") (simp add: from_data_def reader_valid_law)

text \<open>A program that starts by invalidating and then stays strict never succeeds.\<close>

lemma invalid_start:
  assumes "b" "strict rview d"
  shows "rview (snd (run_state (State_Monad.bind (invalidate_if io b) (\<lambda>_. d)) r)) = None"
proof -
  obtain u r1 where "run_state (invalidate io) r = (u, r1)" by (metis surj_pair)
  moreover then have "rview r1 = None" using invalidate_law [of r] by simp
  ultimately show ?thesis using assms by (simp add: invalidate_if_def strict_def)
qed

lemma to_slab_encodes:
  assumes "encodes wview e bs"
  shows "to_slab io e n = (if length bs \<le> n then Some bs else None)"
proof -
  have "wview (snd (run_state e (open_writer io n))) = (if length bs \<le> n then Some (bs, n - length bs) else None)"
    using assms by (simp add: encodes_def open_writer_law)
  then show ?thesis by (auto simp: to_slab_def writer_valid_law Let_def dest: written_law)
qed

lemma decodes_items_valid:
  assumes "\<And>x. x \<in> set xs \<Longrightarrow> decodes rview item x (enc x)" "n = length xs"
  shows "decodes rview (read_items_valid io n item) xs (concat (map enc xs))"
  using assms
proof (induction xs arbitrary: n)
  case (Cons x xs)
  have item: "decodes rview item x (enc x)" using Cons.prems(1) by simp
  have "decodes rview (do { ys \<leftarrow> read_items_valid io (length xs) item; State_Monad.return (x # ys) }) (x # xs)
      (concat (map enc xs))"
    by (rule decodes_finish [OF Cons.IH]) (simp_all add: Cons.prems(1))
  with item have "decodes rview (do { y \<leftarrow> item; ys \<leftarrow> read_items_valid io (length xs) item;
      State_Monad.return (y # ys) }) (x # xs) (enc x @ concat (map enc xs))"
    by (rule decodes_bind)
  then show ?case using Cons.prems(2) by (simp add: decodes_def reader_valid_law)
qed (simp add: decodes_return)

lemma strict_items_valid: "strict rview (read_items_valid io n item)"
  by (cases n) (simp_all add: strict_def reader_valid_law)

end

text \<open>A limit hides the bytes after it until it is cleared.\<close>

locale limit_wire = byte_wire io rview wview
  for io :: "('r, 'w) wire" and rview and wview +
  fixes rhidden :: "'r \<Rightarrow> bytes"
  assumes open_hidden_law: "rhidden (open_reader io bs) = []"
    and limit_law: "rview r = Some (visible @ hidden) \<Longrightarrow> length visible = n \<Longrightarrow> rhidden r = [] \<Longrightarrow>
      rview (snd (run_state (set_limit io n) r)) = Some visible \<and>
      rhidden (snd (run_state (set_limit io n) r)) = hidden"
    and clear_law: "rview r = Some visible \<Longrightarrow>
      rview (snd (run_state (clear_limit io) r)) = Some (visible @ rhidden r)"
    and frame_law: "frames rhidden (invalidate io)" "frames rhidden (read_4_bytes_little_endian io)"
      "frames rhidden (read_8_bytes_little_endian io)" "frames rhidden (read_size io limit)"
      "frames rhidden (read_string io limit)"
    and limit_strict: "strict rview (set_limit io n)" "strict rview (clear_limit io)"
begin

text \<open>A program that reads all of what the limit leaves visible.\<close>

lemma limited_decodes:
  assumes d: "decodes rview d x bs" "frames rhidden d" and r: "rview r = Some (bs @ rest)" "rhidden r = []"
  shows "\<exists>r'. rview r' = Some rest \<and>
    run_state (do { set_limit io (length bs); y \<leftarrow> d; clear_limit io; f y }) r = run_state (f x) r'"
proof -
  obtain u1 r1 where r1: "run_state (set_limit io (length bs)) r = (u1, r1)" by (metis surj_pair)
  then have v1: "rview r1 = Some bs" "rhidden r1 = rest" using limit_law [OF r(1) refl r(2)] by simp_all
  obtain y r2 where r2: "run_state d r1 = (y, r2)" by (metis surj_pair)
  then have v2: "y = x" "rview r2 = Some []" "rhidden r2 = rest"
    using d v1 unfolding decodes_def frames_def by (metis append_Nil2 fst_conv, metis append_Nil2 snd_conv, metis snd_conv)
  obtain u3 r3 where r3: "run_state (clear_limit io) r2 = (u3, r3)" by (metis surj_pair)
  then have "rview r3 = Some rest" using clear_law [OF v2(2)] v2(3) by simp
  moreover have "run_state (do { set_limit io (length bs); y \<leftarrow> d; clear_limit io; f y }) r = run_state (f x) r3"
    using r1 r2 r3 v2(1) by simp
  ultimately show ?thesis by blast
qed

end

section \<open>A reader and a writer in memory\<close>

primrec le_value :: "bytes \<Rightarrow> 'a :: len word" where
  "le_value [] = 0"
| "le_value (b # bs) = or (ucast b) (push_bit 8 (le_value bs))"

lemma le_value_bytes: "le_value (le_bytes n w) = take_bit (8 * n) w"
proof (induction n arbitrary: w)
  case (Suc n)
  show ?case
    by (rule bit_word_eqI) (auto simp: Suc bit_simps)
qed simp

definition byte_char :: "byte \<Rightarrow> char" where
  "byte_char b = char_of (unat b)"

lemma unat_char_byte: "unat (char_byte c) = of_char c"
proof -
  have "(of_char c :: nat) < 2 ^ 8" by simp
  then show ?thesis by (simp add: char_byte_def unsigned_of_nat take_bit_nat_eq_self)
qed

lemma byte_char_byte [simp]: "byte_char (char_byte c) = c"
  by (simp add: byte_char_def unat_char_byte)

record mem_reader =
  mem_data :: bytes
  mem_at :: nat
  mem_good :: bool
  mem_hidden :: bytes

definition mem_rview :: "mem_reader \<Rightarrow> bytes option" where
  "mem_rview r = (if mem_good r \<and> mem_at r \<le> length (mem_data r) then Some (drop (mem_at r) (mem_data r)) else None)"

text \<open>Reading a fixed number of bytes (zeros when there are too few), then converting them.\<close>

definition mem_take :: "nat \<Rightarrow> (mem_reader, bytes) state" where
  "mem_take n = State (\<lambda>r.
     if mem_good r \<and> mem_at r + n \<le> length (mem_data r)
     then (take n (drop (mem_at r) (mem_data r)), r\<lparr>mem_at := mem_at r + n\<rparr>)
     else (replicate n 0, r\<lparr>mem_good := False\<rparr>))"

definition mem_invalidate :: "(mem_reader, unit) state" where
  "mem_invalidate = State (\<lambda>r. ((), r\<lparr>mem_good := False\<rparr>))"

definition mem_read :: "nat \<Rightarrow> (bytes \<Rightarrow> 'a) \<Rightarrow> (mem_reader, 'a) state" where
  "mem_read n f = do { bs \<leftarrow> mem_take n; State_Monad.return (f bs) }"

definition mem_variable :: "(mem_reader, uint64) state" where
  "mem_variable = do {
     b \<leftarrow> mem_read 1 hd;
     if b < 0xfd then State_Monad.return (ucast b)
     else if b = 0xfd then mem_read 2 le_value
     else if b = 0xfe then mem_read 4 le_value
     else mem_read 8 le_value }"

definition mem_size :: "nat \<Rightarrow> (mem_reader, nat) state" where
  "mem_size limit = do {
     v \<leftarrow> mem_variable;
     if limit < unat v then do { mem_invalidate; State_Monad.return 0 }
     else State_Monad.return (unat v) }"

definition mem_string :: "nat \<Rightarrow> (mem_reader, string) state" where
  "mem_string limit = do { n \<leftarrow> mem_size limit; mem_read n (map byte_char) }"

definition mem_write :: "bytes \<Rightarrow> ((bytes \<times> nat) option, unit) state" where
  "mem_write bs = State (\<lambda>w. ((), case w of None \<Rightarrow> None
     | Some (acc, n) \<Rightarrow> if length bs \<le> n then Some (acc @ bs, n - length bs) else None))"

definition memory_wire :: "(mem_reader, (bytes \<times> nat) option) wire" where
  "memory_wire = \<lparr>
     open_reader = \<lambda>bs. \<lparr>mem_data = bs, mem_at = 0, mem_good = True, mem_hidden = []\<rparr>,
     reader_valid = \<lambda>r. mem_good r \<and> mem_at r \<le> length (mem_data r),
     invalidate = mem_invalidate,
     is_exhausted = State (\<lambda>r. (length (mem_data r) \<le> mem_at r, r)),
     get_read_position = State (\<lambda>r. (mem_at r, r)),
     set_position = \<lambda>p. State (\<lambda>r. ((), r\<lparr>mem_at := p, mem_good := True\<rparr>)),
     set_limit = \<lambda>n. State (\<lambda>r. ((), r\<lparr>mem_data := take (mem_at r + n) (mem_data r),
       mem_hidden := drop (mem_at r + n) (mem_data r) @ mem_hidden r\<rparr>)),
     clear_limit = State (\<lambda>r. ((), r\<lparr>mem_data := mem_data r @ mem_hidden r, mem_hidden := [],
       mem_good := mem_good r \<and> mem_at r \<le> length (mem_data r)\<rparr>)),
     skip_bytes = \<lambda>n. mem_read n (\<lambda>_. ()),
     read_byte = mem_read 1 hd,
     read_2_bytes_big_endian = mem_read 2 (be_accumulate 0),
     read_4_bytes_little_endian = mem_read 4 le_value,
     read_8_bytes_little_endian = mem_read 8 le_value,
     read_variable = mem_variable,
     read_size = mem_size,
     read_bytes = mem_take,
     read_all_bytes = State (\<lambda>r. (drop (mem_at r) (mem_data r), r\<lparr>mem_at := length (mem_data r),
       mem_good := mem_good r \<and> mem_at r \<le> length (mem_data r)\<rparr>)),
     read_string = mem_string,
     read_string_buffer = \<lambda>n. mem_read n (\<lambda>bs. map byte_char (takeWhile (\<lambda>b. b \<noteq> 0) bs)),
     variable_size = \<lambda>v. length (variable_bytes v),
     open_writer = \<lambda>n. Some ([], n),
     writer_valid = \<lambda>w. w \<noteq> None,
     written = \<lambda>w. case w of None \<Rightarrow> [] | Some (bs, _) \<Rightarrow> bs,
     write_byte = \<lambda>b. mem_write [b],
     write_2_bytes_big_endian = \<lambda>x. mem_write (be_bytes16 x),
     write_4_bytes_little_endian = \<lambda>x. mem_write (le_bytes 4 x),
     write_8_bytes_little_endian = \<lambda>x. mem_write (le_bytes 8 x),
     write_variable = \<lambda>x. mem_write (variable_bytes x),
     write_bytes = mem_write,
     write_string = \<lambda>s. mem_write (prefixed_string s),
     write_string_buffer = \<lambda>n s. mem_write (string_buffer n s)\<rparr>"

lemma mem_take_decodes: "length bs = n \<Longrightarrow> decodes mem_rview (mem_take n) bs bs"
  unfolding decodes_def
proof (intro allI impI)
  fix r rest
  assume n: "length bs = n" and "mem_rview r = Some (bs @ rest)"
  then have good: "mem_good r" and d: "drop (mem_at r) (mem_data r) = bs @ rest"
    by (auto simp: mem_rview_def split: if_splits)
  moreover have "mem_at r \<le> length (mem_data r)" using \<open>mem_rview r = _\<close> by (simp add: mem_rview_def split: if_splits)
  ultimately have len: "mem_at r + n \<le> length (mem_data r)"
    using n by (metis add_le_cancel_left le_add_diff_inverse length_append length_drop le_add1)
  moreover have "drop (mem_at r + n) (mem_data r) = rest"
    using d n by (metis append_eq_conv_conj drop_drop add.commute)
  ultimately show "fst (run_state (mem_take n) r) = bs \<and> mem_rview (snd (run_state (mem_take n) r)) = Some rest"
    using n good d by (simp add: mem_take_def mem_rview_def)
qed

lemma mem_take_strict: "strict mem_rview (mem_take n)"
  by (simp add: strict_def mem_take_def mem_rview_def)

lemma mem_read_decodes: "length bs = n \<Longrightarrow> f bs = x \<Longrightarrow> decodes mem_rview (mem_read n f) x bs"
  unfolding mem_read_def by (rule decodes_finish [OF mem_take_decodes]) simp_all

lemma mem_read_strict: "strict mem_rview (mem_read n f)"
  unfolding mem_read_def by (intro strict_rules mem_take_strict)

lemma mem_write_encodes: "encodes (\<lambda>w. w) (mem_write bs) bs"
  by (simp add: encodes_def mem_write_def)

lemma mem_invalidate_strict: "strict mem_rview mem_invalidate"
  by (simp add: strict_def mem_invalidate_def mem_rview_def)

lemma mem_variable_strict: "strict mem_rview mem_variable"
  unfolding mem_variable_def by (intro strict_rules mem_read_strict)

lemma mem_size_strict: "strict mem_rview (mem_size limit)"
  unfolding mem_size_def by (intro strict_rules mem_variable_strict mem_invalidate_strict)

lemma take_bit_word_self: "unat w < 2 ^ n \<Longrightarrow> take_bit n w = w"
  by (simp add: word_unat_eq_iff unsigned_take_bit_eq take_bit_nat_eq_self)

lemma le_value_low: "unat w < 2 ^ (8 * n) \<Longrightarrow> le_value (le_bytes n (w :: 'a :: len word)) = w"
  by (simp add: le_value_bytes take_bit_word_self)

lemma le_value_full:
  "le_value (le_bytes 4 (a :: uint32)) = a" "le_value (le_bytes 8 (b :: uint64)) = b"
proof -
  have "unat a < 2 ^ 32" "unat b < 2 ^ 64" using unsigned_less [of a] unsigned_less [of b] by simp_all
  then show "le_value (le_bytes 4 a) = a" "le_value (le_bytes 8 b) = b"
    by (simp_all add: le_value_bytes take_bit_word_self)
qed

lemma mem_variable_decodes: "decodes mem_rview mem_variable v (variable_bytes v)"
proof -
  have byte: "decodes mem_rview (mem_read 1 hd) b [b]" for b by (rule mem_read_decodes) simp_all
  have "decodes mem_rview mem_variable v ([ucast v] @ [])" if "v < 0xfd"
    unfolding mem_variable_def
  proof (rule decodes_bind [OF byte])
    have "unat v < 253" using that by (simp add: word_less_nat_alt)
    then have "(ucast v :: byte) < 0xfd" "ucast (ucast v :: byte) = v"
      by (simp_all add: word_less_nat_alt unsigned_ucast_eq take_bit_nat_eq_self take_bit_word_self)
    then show "decodes mem_rview (if (ucast v :: byte) < 0xfd then State_Monad.return (ucast (ucast v :: byte))
        else if (ucast v :: byte) = 0xfd then mem_read 2 le_value
        else if (ucast v :: byte) = 0xfe then mem_read 4 le_value else mem_read 8 le_value) v []"
      by (simp add: decodes_return)
  qed
  moreover have "decodes mem_rview mem_variable v ([0xfd] @ le_bytes 2 v)" if "v \<le> 0xffff"
    unfolding mem_variable_def
    by (rule decodes_bind [OF byte])
      (use that in \<open>simp add: mem_read_decodes le_value_low word_le_nat_alt\<close>)
  moreover have "decodes mem_rview mem_variable v ([0xfe] @ le_bytes 4 v)" if "v \<le> 0xffffffff"
    unfolding mem_variable_def
    by (rule decodes_bind [OF byte])
      (use that in \<open>simp add: mem_read_decodes le_value_low word_le_nat_alt\<close>)
  moreover have "decodes mem_rview mem_variable v ([0xff] @ le_bytes 8 v)"
    unfolding mem_variable_def
    by (rule decodes_bind [OF byte]) (simp add: mem_read_decodes le_value_full)
  ultimately show ?thesis by (simp add: variable_bytes_def)
qed

lemma mem_size_decodes:
  assumes "n \<le> limit" "n < 2 ^ 64"
  shows "decodes mem_rview (mem_size limit) n (size_bytes n)"
  unfolding mem_size_def
  by (rule decodes_finish [OF mem_variable_decodes]) (use assms in \<open>simp add: unsigned_of_nat take_bit_nat_eq_self\<close>)

lemma mem_string_strict: "strict mem_rview (mem_string limit)"
  unfolding mem_string_def by (intro strict_rules mem_size_strict mem_read_strict)

lemma mem_string_decodes:
  assumes "length s \<le> limit" "length s < 2 ^ 64"
  shows "decodes mem_rview (mem_string limit) s (prefixed_string s)"
  unfolding mem_string_def prefixed_string_def
  by (rule decodes_bind [OF mem_size_decodes [OF assms]], rule mem_read_decodes)
    (simp_all add: string_bytes_def comp_def)

lemma mem_string_buffer_decodes:
  assumes "length s \<le> n" "CHR 0x00 \<notin> set s"
  shows "map byte_char (takeWhile (\<lambda>b. b \<noteq> 0) (string_buffer n s)) = s"
proof -
  have "char_byte c \<noteq> 0" if "c \<in> set s" for c
  proof
    assume "char_byte c = 0"
    then have "byte_char 0 = c" by (metis byte_char_byte)
    moreover have "byte_char 0 = CHR 0x00" by (simp add: byte_char_def char_of_def)
    ultimately show False using that assms(2) by simp
  qed
  then have "takeWhile (\<lambda>b. b \<noteq> 0) (string_bytes s @ replicate (n - length s) 0) = string_bytes s"
    by (subst takeWhile_append2) (auto simp: string_bytes_def takeWhile_replicate)
  then show ?thesis using assms(1) by (simp add: string_buffer_def string_bytes_def comp_def)
qed

lemma mem_rview_rewind:
  "mem_rview r = Some bs \<Longrightarrow> length bs < n \<Longrightarrow>
   mem_rview (snd (run_state (mem_take n) r)\<lparr>mem_at := mem_at r, mem_good := True\<rparr>) = Some bs"
  by (auto simp: mem_rview_def mem_take_def split: if_splits)

lemma mem_size_bound: "fst (run_state (mem_size limit) r) \<le> limit"
  by (auto simp: mem_size_def split: prod.split)

lemma mem_oversize:
  assumes "mem_rview r = Some (size_bytes n @ bs)" "limit < n" "n < 2 ^ 64"
  shows "mem_rview (snd (run_state (mem_size limit) r)) = None"
proof -
  have "fst (run_state mem_variable r) = of_nat n"
    using mem_variable_decodes [of "of_nat n"] assms(1) by (simp add: decodes_def)
  moreover have "unat (of_nat n :: uint64) = n"
    using assms(3) by (simp add: unsigned_of_nat take_bit_nat_eq_self)
  ultimately show ?thesis using assms(2)
    by (cases "run_state mem_variable r") (simp add: mem_size_def mem_invalidate_def mem_rview_def)
qed

interpretation memory: byte_wire memory_wire mem_rview "\<lambda>w. w"
proof
  show "decodes mem_rview (read_2_bytes_big_endian memory_wire) x2 (be_bytes16 x2)" for x2
    by (simp add: memory_wire_def mem_read_decodes be_accumulate16)
  show "decodes mem_rview (read_string_buffer memory_wire n) s (string_buffer n s)"
    if "length s \<le> n" "CHR 0x00 \<notin> set s" for s n
    using that by (simp add: memory_wire_def mem_read_decodes mem_string_buffer_decodes)
  show "length (fst (run_state (read_bytes memory_wire n) r)) = n" for n r
    by (auto simp: memory_wire_def mem_take_def min_def)
  show "mem_rview (snd (run_state (set_position memory_wire p) (snd (run_state (read_bytes memory_wire n) r1)))) = Some bs"
    if "run_state (get_read_position memory_wire) r = (p, r1)" "mem_rview r = Some bs" "length bs < n" for r p r1 bs n
    using that mem_rview_rewind [of r bs n] by (auto simp: memory_wire_def)
  show "mem_rview (snd (run_state (read_bytes memory_wire n) r)) = None"
    if "mem_rview r = Some bs" "length bs < n" for r bs n
    using that by (auto simp: memory_wire_def mem_rview_def mem_take_def split: if_splits)
qed (auto simp: memory_wire_def mem_read_decodes mem_variable_decodes mem_size_decodes mem_take_decodes
    mem_string_decodes le_value_full mem_oversize mem_size_bound mem_read_strict mem_variable_strict
    mem_size_strict mem_take_strict mem_string_strict mem_write_encodes,
  auto simp: mem_rview_def mem_invalidate_def strict_def split: if_splits)

lemma mem_take_frames: "frames mem_hidden (mem_take n)"
  by (simp add: frames_def mem_take_def)

lemma mem_read_frames: "frames mem_hidden (mem_read n f)"
  unfolding mem_read_def by (intro frame_rules mem_take_frames)

lemma mem_size_frames: "frames mem_hidden (mem_size limit)"
proof -
  have if_frames: "frames mem_hidden (if b then d else e)"
    if "frames mem_hidden d" "frames mem_hidden e" for b and d e :: "(mem_reader, 'a) state" using that by simp
  have "frames mem_hidden mem_invalidate" by (simp add: frames_def mem_invalidate_def)
  then show ?thesis
    unfolding mem_size_def mem_variable_def by (intro frame_rules if_frames mem_read_frames)
qed

lemma mem_string_frames: "frames mem_hidden (mem_string limit)"
  unfolding mem_string_def by (intro frame_rules mem_size_frames mem_read_frames)

interpretation memory_limit: limit_wire memory_wire mem_rview "\<lambda>w. w" mem_hidden
proof
  show "mem_rview (snd (run_state (set_limit memory_wire n) r)) = Some visible \<and>
      mem_hidden (snd (run_state (set_limit memory_wire n) r)) = hidden"
    if "mem_rview r = Some (visible @ hidden)" "length visible = n" "mem_hidden r = []" for r visible hidden n
  proof -
    have d: "mem_good r" "mem_at r \<le> length (mem_data r)" "drop (mem_at r) (mem_data r) = visible @ hidden"
      using that(1) by (auto simp: mem_rview_def split: if_splits)
    have "drop (mem_at r) (take (mem_at r + n) (mem_data r)) = take n (drop (mem_at r) (mem_data r))"
      by (simp add: drop_take)
    moreover have "drop (mem_at r + n) (mem_data r) = drop n (drop (mem_at r) (mem_data r))"
      by (simp add: add.commute)
    ultimately show ?thesis using d that(2,3) by (simp add: memory_wire_def mem_rview_def)
  qed
  show "mem_rview (snd (run_state (clear_limit memory_wire) r)) = Some (visible @ mem_hidden r)"
    if "mem_rview r = Some visible" for r visible
    using that by (auto simp: memory_wire_def mem_rview_def split: if_splits)
  show "frames mem_hidden (invalidate memory_wire)"
    by (simp add: memory_wire_def frames_def mem_invalidate_def)
qed (auto simp: memory_wire_def mem_read_frames mem_size_frames mem_string_frames,
  auto simp: strict_def mem_rview_def)

end
