(* ===== verification/Messages_Simple.thy ===== *)
theory Messages_Simple
  imports Wire
begin

text \<open>
  The peer messages whose fields are integers, byte strings, hashes and lists of them
  (\<open>src/src/messages/peer/detail\<close>). Per message: its members as a record, \<open>deserialize\<close> and
  \<open>serialize\<close> as programs over the wire operations, \<open>size\<close>, the overloads of the two over a byte
  span, then the wire format as a specification (\<open>_bytes\<close>), the messages it represents (\<open>_wf\<close>) and
  the facts that relate them under the contract of the wire. A static \<open>size\<close> ignores its message
  argument. Message members of array type have the array's length in \<open>_wf\<close>.
\<close>

section \<open>Protocol constants\<close>

type_synonym hash_digest = bytes

definition hash_size :: nat where "hash_size = 32"

definition address_timestamp :: uint32 where "address_timestamp = 31402"
definition headers_protocol :: uint32 where "headers_protocol = 31800"
definition bip31 :: uint32 where "bip31 = 60001"
definition bip35 :: uint32 where "bip35 = 60002"
definition bip37 :: uint32 where "bip37 = 70001"
definition bip61 :: uint32 where "bip61 = 70002"
definition bip130 :: uint32 where "bip130 = 70012"
definition bip133 :: uint32 where "bip133 = 70013"
definition bip152 :: uint32 where "bip152 = 70014"
definition bip157 :: uint32 where "bip157 = 70015"
definition bip155 :: uint32 where "bip155 = 70016"
definition bip330 :: uint32 where "bip330 = 70016"
definition bip339 :: uint32 where "bip339 = 70016"
definition minimum_protocol :: uint32 where "minimum_protocol = address_timestamp"
definition maximum_protocol :: uint32 where "maximum_protocol = bip155"

definition max_bloom_filter_add :: nat where "max_bloom_filter_add = 520"
definition max_bloom_filter_functions :: nat where "max_bloom_filter_functions = 50"
definition max_bloom_filter_load :: nat where "max_bloom_filter_load = 36000"
definition max_client_filter_headers :: nat where "max_client_filter_headers = 2000"
definition max_inventory :: nat where "max_inventory = 50000"

text \<open>\<open>10 + floored_log2(max_size_t)\<close>.\<close>

definition max_locator :: nat where "max_locator = 73"

lemmas limits = max_bloom_filter_add_def max_bloom_filter_functions_def max_bloom_filter_load_def
  max_client_filter_headers_def max_inventory_def max_locator_def hash_size_def list_all_iff

lemma concat_length: "list_all (\<lambda>x. length (f x) = n) xs \<Longrightarrow> length (concat (map f xs)) = n * length xs"
  by (induction xs) (simp_all add: list_all_iff)

lemma concat_hashes: "list_all (\<lambda>x. length x = hash_size) xs \<Longrightarrow> length (concat xs) = hash_size * length xs"
  using concat_length [of "\<lambda>x. x"] by simp

lemma concat_items: "list_all (\<lambda>x. length (f x) = 36) xs \<Longrightarrow> length (concat (map f xs)) = 36 * length xs"
  using concat_length [of f] by simp

section \<open>Messages\<close>

record ping =
  ping_nonce :: uint64

definition ping_deserialize :: "('r, 'w) wire \<Rightarrow> uint32 \<Rightarrow> ('r, ping) state" where
  "ping_deserialize io version = do {
     invalidate_if io (version < minimum_protocol \<or> maximum_protocol < version);
     nonce \<leftarrow> (if version < bip31 then State_Monad.return 0 else read_8_bytes_little_endian io);
     State_Monad.return \<lparr>ping_nonce = nonce\<rparr> }"

definition ping_serialize :: "('r, 'w) wire \<Rightarrow> uint32 \<Rightarrow> ping \<Rightarrow> ('w, unit) state" where
  "ping_serialize io version m = (if bip31 \<le> version then write_8_bytes_little_endian io (ping_nonce m) else State_Monad.return ())"

definition ping_size :: "('r, 'w) wire \<Rightarrow> uint32 \<Rightarrow> ping \<Rightarrow> nat" where
  "ping_size io version m = (if version < bip31 then 0 else 8)"

definition ping_from_data :: "('r, 'w) wire \<Rightarrow> uint32 \<Rightarrow> bytes \<Rightarrow> ping option" where
  "ping_from_data io version data = from_data io (ping_deserialize io version) data"

definition ping_to_data :: "('r, 'w) wire \<Rightarrow> uint32 \<Rightarrow> ping \<Rightarrow> nat \<Rightarrow> bytes option" where
  "ping_to_data io version m slab = to_slab io (ping_serialize io version m) slab"

record pong =
  pong_nonce :: uint64

definition pong_deserialize :: "('r, 'w) wire \<Rightarrow> uint32 \<Rightarrow> ('r, pong) state" where
  "pong_deserialize io version = do {
     invalidate_if io (version < bip31 \<or> maximum_protocol < version);
     nonce \<leftarrow> read_8_bytes_little_endian io;
     State_Monad.return \<lparr>pong_nonce = nonce\<rparr> }"

definition pong_serialize :: "('r, 'w) wire \<Rightarrow> uint32 \<Rightarrow> pong \<Rightarrow> ('w, unit) state" where
  "pong_serialize io version m = write_8_bytes_little_endian io (pong_nonce m)"

definition pong_size :: "('r, 'w) wire \<Rightarrow> uint32 \<Rightarrow> pong \<Rightarrow> nat" where
  "pong_size io version m = 8"

definition pong_from_data :: "('r, 'w) wire \<Rightarrow> uint32 \<Rightarrow> bytes \<Rightarrow> pong option" where
  "pong_from_data io version data = from_data io (pong_deserialize io version) data"

definition pong_to_data :: "('r, 'w) wire \<Rightarrow> uint32 \<Rightarrow> pong \<Rightarrow> nat \<Rightarrow> bytes option" where
  "pong_to_data io version m slab = to_slab io (pong_serialize io version m) slab"

record fee_filter =
  minimum_fee :: uint64

definition fee_filter_deserialize :: "('r, 'w) wire \<Rightarrow> uint32 \<Rightarrow> ('r, fee_filter) state" where
  "fee_filter_deserialize io version = do {
     invalidate_if io (version < bip133 \<or> maximum_protocol < version);
     fee \<leftarrow> read_8_bytes_little_endian io;
     State_Monad.return \<lparr>minimum_fee = fee\<rparr> }"

definition fee_filter_serialize :: "('r, 'w) wire \<Rightarrow> uint32 \<Rightarrow> fee_filter \<Rightarrow> ('w, unit) state" where
  "fee_filter_serialize io version m = write_8_bytes_little_endian io (minimum_fee m)"

definition fee_filter_size :: "('r, 'w) wire \<Rightarrow> uint32 \<Rightarrow> fee_filter \<Rightarrow> nat" where
  "fee_filter_size io version m = 8"

definition fee_filter_from_data :: "('r, 'w) wire \<Rightarrow> uint32 \<Rightarrow> bytes \<Rightarrow> fee_filter option" where
  "fee_filter_from_data io version data = from_data io (fee_filter_deserialize io version) data"

definition fee_filter_to_data :: "('r, 'w) wire \<Rightarrow> uint32 \<Rightarrow> fee_filter \<Rightarrow> nat \<Rightarrow> bytes option" where
  "fee_filter_to_data io version m slab = to_slab io (fee_filter_serialize io version m) slab"

record send_compact =
  high_bandwidth :: bool
  compact_version :: uint64

definition send_compact_deserialize :: "('r, 'w) wire \<Rightarrow> uint32 \<Rightarrow> ('r, send_compact) state" where
  "send_compact_deserialize io version = do {
     invalidate_if io (version < bip152 \<or> maximum_protocol < version);
     mode \<leftarrow> read_byte io;
     protocol \<leftarrow> read_8_bytes_little_endian io;
     invalidate_if io (1 < mode);
     State_Monad.return \<lparr>high_bandwidth = (mode \<noteq> 0), compact_version = protocol\<rparr> }"

definition send_compact_serialize :: "('r, 'w) wire \<Rightarrow> uint32 \<Rightarrow> send_compact \<Rightarrow> ('w, unit) state" where
  "send_compact_serialize io version m = do {
     write_byte io (of_bool (high_bandwidth m));
     write_8_bytes_little_endian io (compact_version m) }"

definition send_compact_size :: "('r, 'w) wire \<Rightarrow> uint32 \<Rightarrow> send_compact \<Rightarrow> nat" where
  "send_compact_size io version m = 1 + 8"

definition send_compact_from_data :: "('r, 'w) wire \<Rightarrow> uint32 \<Rightarrow> bytes \<Rightarrow> send_compact option" where
  "send_compact_from_data io version data = from_data io (send_compact_deserialize io version) data"

definition send_compact_to_data :: "('r, 'w) wire \<Rightarrow> uint32 \<Rightarrow> send_compact \<Rightarrow> nat \<Rightarrow> bytes option" where
  "send_compact_to_data io version m slab = to_slab io (send_compact_serialize io version m) slab"

record send_transaction_reconciliation =
  reconciliation_value :: uint32
  reconciliation_salt :: uint64

definition send_transaction_reconciliation_deserialize :: "('r, 'w) wire \<Rightarrow> uint32 \<Rightarrow> ('r, send_transaction_reconciliation) state" where
  "send_transaction_reconciliation_deserialize io version = do {
     invalidate_if io (version < bip330 \<or> maximum_protocol < version);
     value \<leftarrow> read_4_bytes_little_endian io;
     salt \<leftarrow> read_8_bytes_little_endian io;
     State_Monad.return \<lparr>reconciliation_value = value, reconciliation_salt = salt\<rparr> }"

definition send_transaction_reconciliation_serialize :: "('r, 'w) wire \<Rightarrow> uint32 \<Rightarrow> send_transaction_reconciliation \<Rightarrow> ('w, unit) state" where
  "send_transaction_reconciliation_serialize io version m = do {
     write_4_bytes_little_endian io (reconciliation_value m);
     write_8_bytes_little_endian io (reconciliation_salt m) }"

definition send_transaction_reconciliation_size :: "('r, 'w) wire \<Rightarrow> uint32 \<Rightarrow> send_transaction_reconciliation \<Rightarrow> nat" where
  "send_transaction_reconciliation_size io version m = 4 + 8"

definition send_transaction_reconciliation_from_data :: "('r, 'w) wire \<Rightarrow> uint32 \<Rightarrow> bytes \<Rightarrow> send_transaction_reconciliation option" where
  "send_transaction_reconciliation_from_data io version data = from_data io (send_transaction_reconciliation_deserialize io version) data"

definition send_transaction_reconciliation_to_data :: "('r, 'w) wire \<Rightarrow> uint32 \<Rightarrow> send_transaction_reconciliation \<Rightarrow> nat \<Rightarrow> bytes option" where
  "send_transaction_reconciliation_to_data io version m slab = to_slab io (send_transaction_reconciliation_serialize io version m) slab"

definition bloom_filter_clear_deserialize :: "('r, 'w) wire \<Rightarrow> uint32 \<Rightarrow> ('r, unit) state" where
  "bloom_filter_clear_deserialize io version = do {
     invalidate_if io (version < bip37 \<or> maximum_protocol < version);
     State_Monad.return () }"

definition bloom_filter_clear_serialize :: "('r, 'w) wire \<Rightarrow> uint32 \<Rightarrow> unit \<Rightarrow> ('w, unit) state" where
  "bloom_filter_clear_serialize io version m = State_Monad.return ()"

definition bloom_filter_clear_size :: "('r, 'w) wire \<Rightarrow> uint32 \<Rightarrow> unit \<Rightarrow> nat" where
  "bloom_filter_clear_size io version m = 0"

definition bloom_filter_clear_from_data :: "('r, 'w) wire \<Rightarrow> uint32 \<Rightarrow> bytes \<Rightarrow> unit option" where
  "bloom_filter_clear_from_data io version data = from_data io (bloom_filter_clear_deserialize io version) data"

definition bloom_filter_clear_to_data :: "('r, 'w) wire \<Rightarrow> uint32 \<Rightarrow> unit \<Rightarrow> nat \<Rightarrow> bytes option" where
  "bloom_filter_clear_to_data io version m slab = to_slab io (bloom_filter_clear_serialize io version m) slab"

definition get_address_deserialize :: "('r, 'w) wire \<Rightarrow> uint32 \<Rightarrow> ('r, unit) state" where
  "get_address_deserialize io version = do {
     invalidate_if io (version < minimum_protocol \<or> maximum_protocol < version);
     State_Monad.return () }"

definition get_address_serialize :: "('r, 'w) wire \<Rightarrow> uint32 \<Rightarrow> unit \<Rightarrow> ('w, unit) state" where
  "get_address_serialize io version m = State_Monad.return ()"

definition get_address_size :: "('r, 'w) wire \<Rightarrow> uint32 \<Rightarrow> unit \<Rightarrow> nat" where
  "get_address_size io version m = 0"

definition get_address_from_data :: "('r, 'w) wire \<Rightarrow> uint32 \<Rightarrow> bytes \<Rightarrow> unit option" where
  "get_address_from_data io version data = from_data io (get_address_deserialize io version) data"

definition get_address_to_data :: "('r, 'w) wire \<Rightarrow> uint32 \<Rightarrow> unit \<Rightarrow> nat \<Rightarrow> bytes option" where
  "get_address_to_data io version m slab = to_slab io (get_address_serialize io version m) slab"

definition memory_pool_deserialize :: "('r, 'w) wire \<Rightarrow> uint32 \<Rightarrow> ('r, unit) state" where
  "memory_pool_deserialize io version = do {
     invalidate_if io (version < bip35 \<or> maximum_protocol < version);
     State_Monad.return () }"

definition memory_pool_serialize :: "('r, 'w) wire \<Rightarrow> uint32 \<Rightarrow> unit \<Rightarrow> ('w, unit) state" where
  "memory_pool_serialize io version m = State_Monad.return ()"

definition memory_pool_size :: "('r, 'w) wire \<Rightarrow> uint32 \<Rightarrow> unit \<Rightarrow> nat" where
  "memory_pool_size io version m = 0"

definition memory_pool_from_data :: "('r, 'w) wire \<Rightarrow> uint32 \<Rightarrow> bytes \<Rightarrow> unit option" where
  "memory_pool_from_data io version data = from_data io (memory_pool_deserialize io version) data"

definition memory_pool_to_data :: "('r, 'w) wire \<Rightarrow> uint32 \<Rightarrow> unit \<Rightarrow> nat \<Rightarrow> bytes option" where
  "memory_pool_to_data io version m slab = to_slab io (memory_pool_serialize io version m) slab"

definition send_address_v2_deserialize :: "('r, 'w) wire \<Rightarrow> uint32 \<Rightarrow> ('r, unit) state" where
  "send_address_v2_deserialize io version = do {
     invalidate_if io (version < bip155 \<or> maximum_protocol < version);
     State_Monad.return () }"

definition send_address_v2_serialize :: "('r, 'w) wire \<Rightarrow> uint32 \<Rightarrow> unit \<Rightarrow> ('w, unit) state" where
  "send_address_v2_serialize io version m = State_Monad.return ()"

definition send_address_v2_size :: "('r, 'w) wire \<Rightarrow> uint32 \<Rightarrow> unit \<Rightarrow> nat" where
  "send_address_v2_size io version m = 0"

definition send_address_v2_from_data :: "('r, 'w) wire \<Rightarrow> uint32 \<Rightarrow> bytes \<Rightarrow> unit option" where
  "send_address_v2_from_data io version data = from_data io (send_address_v2_deserialize io version) data"

definition send_address_v2_to_data :: "('r, 'w) wire \<Rightarrow> uint32 \<Rightarrow> unit \<Rightarrow> nat \<Rightarrow> bytes option" where
  "send_address_v2_to_data io version m slab = to_slab io (send_address_v2_serialize io version m) slab"

definition send_headers_deserialize :: "('r, 'w) wire \<Rightarrow> uint32 \<Rightarrow> ('r, unit) state" where
  "send_headers_deserialize io version = do {
     invalidate_if io (version < bip130 \<or> maximum_protocol < version);
     State_Monad.return () }"

definition send_headers_serialize :: "('r, 'w) wire \<Rightarrow> uint32 \<Rightarrow> unit \<Rightarrow> ('w, unit) state" where
  "send_headers_serialize io version m = State_Monad.return ()"

definition send_headers_size :: "('r, 'w) wire \<Rightarrow> uint32 \<Rightarrow> unit \<Rightarrow> nat" where
  "send_headers_size io version m = 0"

definition send_headers_from_data :: "('r, 'w) wire \<Rightarrow> uint32 \<Rightarrow> bytes \<Rightarrow> unit option" where
  "send_headers_from_data io version data = from_data io (send_headers_deserialize io version) data"

definition send_headers_to_data :: "('r, 'w) wire \<Rightarrow> uint32 \<Rightarrow> unit \<Rightarrow> nat \<Rightarrow> bytes option" where
  "send_headers_to_data io version m slab = to_slab io (send_headers_serialize io version m) slab"

definition version_acknowledge_deserialize :: "('r, 'w) wire \<Rightarrow> uint32 \<Rightarrow> ('r, unit) state" where
  "version_acknowledge_deserialize io version = do {
     invalidate_if io (version < minimum_protocol \<or> maximum_protocol < version);
     State_Monad.return () }"

definition version_acknowledge_serialize :: "('r, 'w) wire \<Rightarrow> uint32 \<Rightarrow> unit \<Rightarrow> ('w, unit) state" where
  "version_acknowledge_serialize io version m = State_Monad.return ()"

definition version_acknowledge_size :: "('r, 'w) wire \<Rightarrow> uint32 \<Rightarrow> unit \<Rightarrow> nat" where
  "version_acknowledge_size io version m = 0"

definition version_acknowledge_from_data :: "('r, 'w) wire \<Rightarrow> uint32 \<Rightarrow> bytes \<Rightarrow> unit option" where
  "version_acknowledge_from_data io version data = from_data io (version_acknowledge_deserialize io version) data"

definition version_acknowledge_to_data :: "('r, 'w) wire \<Rightarrow> uint32 \<Rightarrow> unit \<Rightarrow> nat \<Rightarrow> bytes option" where
  "version_acknowledge_to_data io version m slab = to_slab io (version_acknowledge_serialize io version m) slab"

definition witness_tx_id_relay_deserialize :: "('r, 'w) wire \<Rightarrow> uint32 \<Rightarrow> ('r, unit) state" where
  "witness_tx_id_relay_deserialize io version = do {
     invalidate_if io (version < bip339 \<or> maximum_protocol < version);
     State_Monad.return () }"

definition witness_tx_id_relay_serialize :: "('r, 'w) wire \<Rightarrow> uint32 \<Rightarrow> unit \<Rightarrow> ('w, unit) state" where
  "witness_tx_id_relay_serialize io version m = State_Monad.return ()"

definition witness_tx_id_relay_size :: "('r, 'w) wire \<Rightarrow> uint32 \<Rightarrow> unit \<Rightarrow> nat" where
  "witness_tx_id_relay_size io version m = 0"

definition witness_tx_id_relay_from_data :: "('r, 'w) wire \<Rightarrow> uint32 \<Rightarrow> bytes \<Rightarrow> unit option" where
  "witness_tx_id_relay_from_data io version data = from_data io (witness_tx_id_relay_deserialize io version) data"

definition witness_tx_id_relay_to_data :: "('r, 'w) wire \<Rightarrow> uint32 \<Rightarrow> unit \<Rightarrow> nat \<Rightarrow> bytes option" where
  "witness_tx_id_relay_to_data io version m slab = to_slab io (witness_tx_id_relay_serialize io version m) slab"

record get_client_filter_checkpoint =
  gcfc_filter_type :: byte
  gcfc_stop_hash :: hash_digest

definition get_client_filter_checkpoint_deserialize :: "('r, 'w) wire \<Rightarrow> uint32 \<Rightarrow> ('r, get_client_filter_checkpoint) state" where
  "get_client_filter_checkpoint_deserialize io version = do {
     invalidate_if io (version < bip157 \<or> maximum_protocol < version);
     filter_type \<leftarrow> read_byte io;
     stop_hash \<leftarrow> read_bytes io hash_size;
     State_Monad.return \<lparr>gcfc_filter_type = filter_type, gcfc_stop_hash = stop_hash\<rparr> }"

definition get_client_filter_checkpoint_serialize :: "('r, 'w) wire \<Rightarrow> uint32 \<Rightarrow> get_client_filter_checkpoint \<Rightarrow> ('w, unit) state" where
  "get_client_filter_checkpoint_serialize io version m = do {
     write_byte io (gcfc_filter_type m);
     write_bytes io (gcfc_stop_hash m) }"

definition get_client_filter_checkpoint_size :: "('r, 'w) wire \<Rightarrow> uint32 \<Rightarrow> get_client_filter_checkpoint \<Rightarrow> nat" where
  "get_client_filter_checkpoint_size io version m = 1 + hash_size"

definition get_client_filter_checkpoint_from_data :: "('r, 'w) wire \<Rightarrow> uint32 \<Rightarrow> bytes \<Rightarrow> get_client_filter_checkpoint option" where
  "get_client_filter_checkpoint_from_data io version data = from_data io (get_client_filter_checkpoint_deserialize io version) data"

definition get_client_filter_checkpoint_to_data :: "('r, 'w) wire \<Rightarrow> uint32 \<Rightarrow> get_client_filter_checkpoint \<Rightarrow> nat \<Rightarrow> bytes option" where
  "get_client_filter_checkpoint_to_data io version m slab = to_slab io (get_client_filter_checkpoint_serialize io version m) slab"

record get_client_filter_headers =
  gcfh_filter_type :: byte
  gcfh_start_height :: uint32
  gcfh_stop_hash :: hash_digest

definition get_client_filter_headers_deserialize :: "('r, 'w) wire \<Rightarrow> uint32 \<Rightarrow> ('r, get_client_filter_headers) state" where
  "get_client_filter_headers_deserialize io version = do {
     invalidate_if io (version < bip157 \<or> maximum_protocol < version);
     filter_type \<leftarrow> read_byte io;
     start_height \<leftarrow> read_4_bytes_little_endian io;
     stop_hash \<leftarrow> read_bytes io hash_size;
     State_Monad.return \<lparr>gcfh_filter_type = filter_type, gcfh_start_height = start_height,
       gcfh_stop_hash = stop_hash\<rparr> }"

definition get_client_filter_headers_serialize :: "('r, 'w) wire \<Rightarrow> uint32 \<Rightarrow> get_client_filter_headers \<Rightarrow> ('w, unit) state" where
  "get_client_filter_headers_serialize io version m = do {
     write_byte io (gcfh_filter_type m);
     write_4_bytes_little_endian io (gcfh_start_height m);
     write_bytes io (gcfh_stop_hash m) }"

definition get_client_filter_headers_size :: "('r, 'w) wire \<Rightarrow> uint32 \<Rightarrow> get_client_filter_headers \<Rightarrow> nat" where
  "get_client_filter_headers_size io version m = 1 + 4 + hash_size"

definition get_client_filter_headers_from_data :: "('r, 'w) wire \<Rightarrow> uint32 \<Rightarrow> bytes \<Rightarrow> get_client_filter_headers option" where
  "get_client_filter_headers_from_data io version data = from_data io (get_client_filter_headers_deserialize io version) data"

definition get_client_filter_headers_to_data :: "('r, 'w) wire \<Rightarrow> uint32 \<Rightarrow> get_client_filter_headers \<Rightarrow> nat \<Rightarrow> bytes option" where
  "get_client_filter_headers_to_data io version m slab = to_slab io (get_client_filter_headers_serialize io version m) slab"

record get_client_filters =
  gcf_filter_type :: byte
  gcf_start_height :: uint32
  gcf_stop_hash :: hash_digest

definition get_client_filters_deserialize :: "('r, 'w) wire \<Rightarrow> uint32 \<Rightarrow> ('r, get_client_filters) state" where
  "get_client_filters_deserialize io version = do {
     invalidate_if io (version < bip157 \<or> maximum_protocol < version);
     filter_type \<leftarrow> read_byte io;
     start_height \<leftarrow> read_4_bytes_little_endian io;
     stop_hash \<leftarrow> read_bytes io hash_size;
     State_Monad.return \<lparr>gcf_filter_type = filter_type, gcf_start_height = start_height,
       gcf_stop_hash = stop_hash\<rparr> }"

definition get_client_filters_serialize :: "('r, 'w) wire \<Rightarrow> uint32 \<Rightarrow> get_client_filters \<Rightarrow> ('w, unit) state" where
  "get_client_filters_serialize io version m = do {
     write_byte io (gcf_filter_type m);
     write_4_bytes_little_endian io (gcf_start_height m);
     write_bytes io (gcf_stop_hash m) }"

definition get_client_filters_size :: "('r, 'w) wire \<Rightarrow> uint32 \<Rightarrow> get_client_filters \<Rightarrow> nat" where
  "get_client_filters_size io version m = 1 + 4 + hash_size"

definition get_client_filters_from_data :: "('r, 'w) wire \<Rightarrow> uint32 \<Rightarrow> bytes \<Rightarrow> get_client_filters option" where
  "get_client_filters_from_data io version data = from_data io (get_client_filters_deserialize io version) data"

definition get_client_filters_to_data :: "('r, 'w) wire \<Rightarrow> uint32 \<Rightarrow> get_client_filters \<Rightarrow> nat \<Rightarrow> bytes option" where
  "get_client_filters_to_data io version m slab = to_slab io (get_client_filters_serialize io version m) slab"

record client_filter_headers =
  cfh_filter_type :: byte
  cfh_stop_hash :: hash_digest
  cfh_previous :: hash_digest
  cfh_hashes :: "hash_digest list"

definition client_filter_headers_deserialize :: "('r, 'w) wire \<Rightarrow> uint32 \<Rightarrow> ('r, client_filter_headers) state" where
  "client_filter_headers_deserialize io version = do {
     invalidate_if io (version < bip157 \<or> maximum_protocol < version);
     filter_type \<leftarrow> read_byte io;
     stop_hash \<leftarrow> read_bytes io hash_size;
     previous \<leftarrow> read_bytes io hash_size;
     n \<leftarrow> read_size io max_client_filter_headers;
     hashes \<leftarrow> read_items_valid io n (read_bytes io hash_size);
     State_Monad.return \<lparr>cfh_filter_type = filter_type, cfh_stop_hash = stop_hash,
       cfh_previous = previous, cfh_hashes = hashes\<rparr> }"

definition client_filter_headers_serialize :: "('r, 'w) wire \<Rightarrow> uint32 \<Rightarrow> client_filter_headers \<Rightarrow> ('w, unit) state" where
  "client_filter_headers_serialize io version m = do {
     write_byte io (cfh_filter_type m);
     write_bytes io (cfh_stop_hash m);
     write_bytes io (cfh_previous m);
     write_variable io (of_nat (length (cfh_hashes m)));
     write_items (write_bytes io) (cfh_hashes m) }"

definition client_filter_headers_size :: "('r, 'w) wire \<Rightarrow> uint32 \<Rightarrow> client_filter_headers \<Rightarrow> nat" where
  "client_filter_headers_size io version m = 1 + hash_size + hash_size + variable_size io (of_nat (length (cfh_hashes m))) +
     length (cfh_hashes m) * hash_size"

definition client_filter_headers_from_data :: "('r, 'w) wire \<Rightarrow> uint32 \<Rightarrow> bytes \<Rightarrow> client_filter_headers option" where
  "client_filter_headers_from_data io version data = from_data io (client_filter_headers_deserialize io version) data"

definition client_filter_headers_to_data :: "('r, 'w) wire \<Rightarrow> uint32 \<Rightarrow> client_filter_headers \<Rightarrow> nat \<Rightarrow> bytes option" where
  "client_filter_headers_to_data io version m slab = to_slab io (client_filter_headers_serialize io version m) slab"

record bloom_filter_add =
  filter_add_data :: bytes

definition bloom_filter_add_deserialize :: "('r, 'w) wire \<Rightarrow> uint32 \<Rightarrow> ('r, bloom_filter_add) state" where
  "bloom_filter_add_deserialize io version = do {
     invalidate_if io (version < bip37 \<or> maximum_protocol < version);
     n \<leftarrow> read_size io max_bloom_filter_add;
     data \<leftarrow> read_bytes io n;
     State_Monad.return \<lparr>filter_add_data = data\<rparr> }"

definition bloom_filter_add_serialize :: "('r, 'w) wire \<Rightarrow> uint32 \<Rightarrow> bloom_filter_add \<Rightarrow> ('w, unit) state" where
  "bloom_filter_add_serialize io version m = do {
     write_variable io (of_nat (length (filter_add_data m)));
     write_bytes io (filter_add_data m) }"

definition bloom_filter_add_size :: "('r, 'w) wire \<Rightarrow> uint32 \<Rightarrow> bloom_filter_add \<Rightarrow> nat" where
  "bloom_filter_add_size io version m = variable_size io (of_nat (length (filter_add_data m))) + length (filter_add_data m)"

definition bloom_filter_add_from_data :: "('r, 'w) wire \<Rightarrow> uint32 \<Rightarrow> bytes \<Rightarrow> bloom_filter_add option" where
  "bloom_filter_add_from_data io version data = from_data io (bloom_filter_add_deserialize io version) data"

definition bloom_filter_add_to_data :: "('r, 'w) wire \<Rightarrow> uint32 \<Rightarrow> bloom_filter_add \<Rightarrow> nat \<Rightarrow> bytes option" where
  "bloom_filter_add_to_data io version m slab = to_slab io (bloom_filter_add_serialize io version m) slab"

record bloom_filter_load =
  load_filter :: bytes
  load_functions :: uint32
  load_tweak :: uint32
  load_flags :: byte

definition bloom_filter_load_deserialize :: "('r, 'w) wire \<Rightarrow> uint32 \<Rightarrow> ('r, bloom_filter_load) state" where
  "bloom_filter_load_deserialize io version = do {
     invalidate_if io (version < bip37 \<or> maximum_protocol < version);
     n \<leftarrow> read_size io max_bloom_filter_load;
     filter \<leftarrow> read_bytes io n;
     functions \<leftarrow> read_4_bytes_little_endian io;
     invalidate_if io (of_nat max_bloom_filter_functions < functions);
     tweak \<leftarrow> read_4_bytes_little_endian io;
     flags \<leftarrow> read_byte io;
     State_Monad.return \<lparr>load_filter = filter, load_functions = functions,
       load_tweak = tweak, load_flags = flags\<rparr> }"

definition bloom_filter_load_serialize :: "('r, 'w) wire \<Rightarrow> uint32 \<Rightarrow> bloom_filter_load \<Rightarrow> ('w, unit) state" where
  "bloom_filter_load_serialize io version m = do {
     write_variable io (of_nat (length (load_filter m)));
     write_bytes io (load_filter m);
     write_4_bytes_little_endian io (load_functions m);
     write_4_bytes_little_endian io (load_tweak m);
     write_byte io (load_flags m) }"

definition bloom_filter_load_size :: "('r, 'w) wire \<Rightarrow> uint32 \<Rightarrow> bloom_filter_load \<Rightarrow> nat" where
  "bloom_filter_load_size io version m = variable_size io (of_nat (length (load_filter m))) + length (load_filter m) + 4 + 4 + 1"

definition bloom_filter_load_from_data :: "('r, 'w) wire \<Rightarrow> uint32 \<Rightarrow> bytes \<Rightarrow> bloom_filter_load option" where
  "bloom_filter_load_from_data io version data = from_data io (bloom_filter_load_deserialize io version) data"

definition bloom_filter_load_to_data :: "('r, 'w) wire \<Rightarrow> uint32 \<Rightarrow> bloom_filter_load \<Rightarrow> nat \<Rightarrow> bytes option" where
  "bloom_filter_load_to_data io version m slab = to_slab io (bloom_filter_load_serialize io version m) slab"

record get_blocks =
  gb_start_hashes :: "hash_digest list"
  gb_stop_hash :: hash_digest

definition get_blocks_deserialize :: "('r, 'w) wire \<Rightarrow> uint32 \<Rightarrow> ('r, get_blocks) state" where
  "get_blocks_deserialize io version = do {
     invalidate_if io (version < minimum_protocol \<or> maximum_protocol < version);
     skip_bytes io 4;
     n \<leftarrow> read_size io max_locator;
     start_hashes \<leftarrow> read_items n (read_bytes io hash_size);
     stop_hash \<leftarrow> read_bytes io hash_size;
     State_Monad.return \<lparr>gb_start_hashes = start_hashes, gb_stop_hash = stop_hash\<rparr> }"

definition get_blocks_serialize :: "('r, 'w) wire \<Rightarrow> uint32 \<Rightarrow> get_blocks \<Rightarrow> ('w, unit) state" where
  "get_blocks_serialize io version m = do {
     write_4_bytes_little_endian io version;
     write_variable io (of_nat (length (gb_start_hashes m)));
     write_items (write_bytes io) (gb_start_hashes m);
     write_bytes io (gb_stop_hash m) }"

definition get_blocks_size :: "('r, 'w) wire \<Rightarrow> uint32 \<Rightarrow> get_blocks \<Rightarrow> nat" where
  "get_blocks_size io version m = 4 + hash_size + variable_size io (of_nat (length (gb_start_hashes m))) +
     hash_size * length (gb_start_hashes m)"

definition get_blocks_from_data :: "('r, 'w) wire \<Rightarrow> uint32 \<Rightarrow> bytes \<Rightarrow> get_blocks option" where
  "get_blocks_from_data io version data = from_data io (get_blocks_deserialize io version) data"

definition get_blocks_to_data :: "('r, 'w) wire \<Rightarrow> uint32 \<Rightarrow> get_blocks \<Rightarrow> nat \<Rightarrow> bytes option" where
  "get_blocks_to_data io version m slab = to_slab io (get_blocks_serialize io version m) slab"

record get_headers =
  gh_start_hashes :: "hash_digest list"
  gh_stop_hash :: hash_digest

definition get_headers_deserialize :: "('r, 'w) wire \<Rightarrow> uint32 \<Rightarrow> ('r, get_headers) state" where
  "get_headers_deserialize io version = do {
     invalidate_if io (version < headers_protocol \<or> maximum_protocol < version);
     skip_bytes io 4;
     n \<leftarrow> read_size io max_locator;
     start_hashes \<leftarrow> read_items n (read_bytes io hash_size);
     stop_hash \<leftarrow> read_bytes io hash_size;
     State_Monad.return \<lparr>gh_start_hashes = start_hashes, gh_stop_hash = stop_hash\<rparr> }"

definition get_headers_serialize :: "('r, 'w) wire \<Rightarrow> uint32 \<Rightarrow> get_headers \<Rightarrow> ('w, unit) state" where
  "get_headers_serialize io version m = do {
     write_4_bytes_little_endian io version;
     write_variable io (of_nat (length (gh_start_hashes m)));
     write_items (write_bytes io) (gh_start_hashes m);
     write_bytes io (gh_stop_hash m) }"

definition get_headers_size :: "('r, 'w) wire \<Rightarrow> uint32 \<Rightarrow> get_headers \<Rightarrow> nat" where
  "get_headers_size io version m = 4 + hash_size + variable_size io (of_nat (length (gh_start_hashes m))) +
     hash_size * length (gh_start_hashes m)"

definition get_headers_from_data :: "('r, 'w) wire \<Rightarrow> uint32 \<Rightarrow> bytes \<Rightarrow> get_headers option" where
  "get_headers_from_data io version data = from_data io (get_headers_deserialize io version) data"

definition get_headers_to_data :: "('r, 'w) wire \<Rightarrow> uint32 \<Rightarrow> get_headers \<Rightarrow> nat \<Rightarrow> bytes option" where
  "get_headers_to_data io version m slab = to_slab io (get_headers_serialize io version m) slab"

record inventory_item =
  item_type :: uint32
  item_hash :: hash_digest

definition inventory_item_deserialize :: "('r, 'w) wire \<Rightarrow> uint32 \<Rightarrow> ('r, inventory_item) state" where
  "inventory_item_deserialize io version = do {
     type \<leftarrow> read_4_bytes_little_endian io;
     hash \<leftarrow> read_bytes io hash_size;
     State_Monad.return \<lparr>item_type = type, item_hash = hash\<rparr> }"

definition inventory_item_serialize :: "('r, 'w) wire \<Rightarrow> uint32 \<Rightarrow> inventory_item \<Rightarrow> ('w, unit) state" where
  "inventory_item_serialize io version m = do {
     write_4_bytes_little_endian io (item_type m);
     write_bytes io (item_hash m) }"

definition inventory_item_size :: "('r, 'w) wire \<Rightarrow> uint32 \<Rightarrow> inventory_item \<Rightarrow> nat" where
  "inventory_item_size io version m = hash_size + 4"

record inventory =
  inventory_items :: "inventory_item list"

definition inventory_deserialize :: "('r, 'w) wire \<Rightarrow> uint32 \<Rightarrow> ('r, inventory) state" where
  "inventory_deserialize io version = do {
     invalidate_if io (version < minimum_protocol \<or> maximum_protocol < version);
     n \<leftarrow> read_size io max_inventory;
     items \<leftarrow> read_items n (inventory_item_deserialize io version);
     State_Monad.return \<lparr>inventory_items = items\<rparr> }"

definition inventory_serialize :: "('r, 'w) wire \<Rightarrow> uint32 \<Rightarrow> inventory \<Rightarrow> ('w, unit) state" where
  "inventory_serialize io version m = do {
     write_variable io (of_nat (length (inventory_items m)));
     write_items (inventory_item_serialize io version) (inventory_items m) }"

definition inventory_size :: "('r, 'w) wire \<Rightarrow> uint32 \<Rightarrow> inventory \<Rightarrow> nat" where
  "inventory_size io version m = variable_size io (of_nat (length (inventory_items m))) +
     length (inventory_items m) * inventory_item_size io version undefined"

definition inventory_from_data :: "('r, 'w) wire \<Rightarrow> uint32 \<Rightarrow> bytes \<Rightarrow> inventory option" where
  "inventory_from_data io version data = from_data io (inventory_deserialize io version) data"

definition inventory_to_data :: "('r, 'w) wire \<Rightarrow> uint32 \<Rightarrow> inventory \<Rightarrow> nat \<Rightarrow> bytes option" where
  "inventory_to_data io version m slab = to_slab io (inventory_serialize io version m) slab"

record get_data =
  get_data_items :: "inventory_item list"

definition get_data_deserialize :: "('r, 'w) wire \<Rightarrow> uint32 \<Rightarrow> ('r, get_data) state" where
  "get_data_deserialize io version = do {
     invalidate_if io (version < minimum_protocol \<or> maximum_protocol < version);
     n \<leftarrow> read_size io max_inventory;
     items \<leftarrow> read_items n (inventory_item_deserialize io version);
     State_Monad.return \<lparr>get_data_items = items\<rparr> }"

definition get_data_serialize :: "('r, 'w) wire \<Rightarrow> uint32 \<Rightarrow> get_data \<Rightarrow> ('w, unit) state" where
  "get_data_serialize io version m = do {
     write_variable io (of_nat (length (get_data_items m)));
     write_items (inventory_item_serialize io version) (get_data_items m) }"

definition get_data_size :: "('r, 'w) wire \<Rightarrow> uint32 \<Rightarrow> get_data \<Rightarrow> nat" where
  "get_data_size io version m = variable_size io (of_nat (length (get_data_items m))) +
     length (get_data_items m) * inventory_item_size io version undefined"

definition get_data_from_data :: "('r, 'w) wire \<Rightarrow> uint32 \<Rightarrow> bytes \<Rightarrow> get_data option" where
  "get_data_from_data io version data = from_data io (get_data_deserialize io version) data"

definition get_data_to_data :: "('r, 'w) wire \<Rightarrow> uint32 \<Rightarrow> get_data \<Rightarrow> nat \<Rightarrow> bytes option" where
  "get_data_to_data io version m slab = to_slab io (get_data_serialize io version m) slab"

record not_found =
  not_found_items :: "inventory_item list"

definition not_found_deserialize :: "('r, 'w) wire \<Rightarrow> uint32 \<Rightarrow> ('r, not_found) state" where
  "not_found_deserialize io version = do {
     invalidate_if io (version < bip37 \<or> maximum_protocol < version);
     n \<leftarrow> read_size io max_inventory;
     items \<leftarrow> read_items n (inventory_item_deserialize io version);
     State_Monad.return \<lparr>not_found_items = items\<rparr> }"

definition not_found_serialize :: "('r, 'w) wire \<Rightarrow> uint32 \<Rightarrow> not_found \<Rightarrow> ('w, unit) state" where
  "not_found_serialize io version m = do {
     write_variable io (of_nat (length (not_found_items m)));
     write_items (inventory_item_serialize io version) (not_found_items m) }"

definition not_found_size :: "('r, 'w) wire \<Rightarrow> uint32 \<Rightarrow> not_found \<Rightarrow> nat" where
  "not_found_size io version m = variable_size io (of_nat (length (not_found_items m))) +
     length (not_found_items m) * inventory_item_size io version undefined"

definition not_found_from_data :: "('r, 'w) wire \<Rightarrow> uint32 \<Rightarrow> bytes \<Rightarrow> not_found option" where
  "not_found_from_data io version data = from_data io (not_found_deserialize io version) data"

definition not_found_to_data :: "('r, 'w) wire \<Rightarrow> uint32 \<Rightarrow> not_found \<Rightarrow> nat \<Rightarrow> bytes option" where
  "not_found_to_data io version m slab = to_slab io (not_found_serialize io version m) slab"

section \<open>Wire formats\<close>

definition ping_bytes :: "uint32 \<Rightarrow> ping \<Rightarrow> bytes" where
  "ping_bytes version m = (if bip31 \<le> version then le_bytes 8 (ping_nonce m) else [])"

definition ping_wf :: "uint32 \<Rightarrow> ping \<Rightarrow> bool" where
  "ping_wf version m \<longleftrightarrow> minimum_protocol \<le> version \<and> version \<le> maximum_protocol \<and> (version < bip31 \<longrightarrow> ping_nonce m = 0)"

definition pong_bytes :: "uint32 \<Rightarrow> pong \<Rightarrow> bytes" where
  "pong_bytes version m = le_bytes 8 (pong_nonce m)"

definition pong_wf :: "uint32 \<Rightarrow> pong \<Rightarrow> bool" where
  "pong_wf version m \<longleftrightarrow> bip31 \<le> version \<and> version \<le> maximum_protocol"

definition fee_filter_bytes :: "uint32 \<Rightarrow> fee_filter \<Rightarrow> bytes" where
  "fee_filter_bytes version m = le_bytes 8 (minimum_fee m)"

definition fee_filter_wf :: "uint32 \<Rightarrow> fee_filter \<Rightarrow> bool" where
  "fee_filter_wf version m \<longleftrightarrow> bip133 \<le> version \<and> version \<le> maximum_protocol"

definition send_compact_bytes :: "uint32 \<Rightarrow> send_compact \<Rightarrow> bytes" where
  "send_compact_bytes version m = [of_bool (high_bandwidth m)] @ le_bytes 8 (compact_version m)"

definition send_compact_wf :: "uint32 \<Rightarrow> send_compact \<Rightarrow> bool" where
  "send_compact_wf version m \<longleftrightarrow> bip152 \<le> version \<and> version \<le> maximum_protocol"

definition send_transaction_reconciliation_bytes :: "uint32 \<Rightarrow> send_transaction_reconciliation \<Rightarrow> bytes" where
  "send_transaction_reconciliation_bytes version m = le_bytes 4 (reconciliation_value m) @ le_bytes 8 (reconciliation_salt m)"

definition send_transaction_reconciliation_wf :: "uint32 \<Rightarrow> send_transaction_reconciliation \<Rightarrow> bool" where
  "send_transaction_reconciliation_wf version m \<longleftrightarrow> bip330 \<le> version \<and> version \<le> maximum_protocol"

definition bloom_filter_clear_bytes :: "uint32 \<Rightarrow> unit \<Rightarrow> bytes" where
  "bloom_filter_clear_bytes version m = []"

definition bloom_filter_clear_wf :: "uint32 \<Rightarrow> unit \<Rightarrow> bool" where
  "bloom_filter_clear_wf version m \<longleftrightarrow> bip37 \<le> version \<and> version \<le> maximum_protocol"

definition get_address_bytes :: "uint32 \<Rightarrow> unit \<Rightarrow> bytes" where
  "get_address_bytes version m = []"

definition get_address_wf :: "uint32 \<Rightarrow> unit \<Rightarrow> bool" where
  "get_address_wf version m \<longleftrightarrow> minimum_protocol \<le> version \<and> version \<le> maximum_protocol"

definition memory_pool_bytes :: "uint32 \<Rightarrow> unit \<Rightarrow> bytes" where
  "memory_pool_bytes version m = []"

definition memory_pool_wf :: "uint32 \<Rightarrow> unit \<Rightarrow> bool" where
  "memory_pool_wf version m \<longleftrightarrow> bip35 \<le> version \<and> version \<le> maximum_protocol"

definition send_address_v2_bytes :: "uint32 \<Rightarrow> unit \<Rightarrow> bytes" where
  "send_address_v2_bytes version m = []"

definition send_address_v2_wf :: "uint32 \<Rightarrow> unit \<Rightarrow> bool" where
  "send_address_v2_wf version m \<longleftrightarrow> bip155 \<le> version \<and> version \<le> maximum_protocol"

definition send_headers_bytes :: "uint32 \<Rightarrow> unit \<Rightarrow> bytes" where
  "send_headers_bytes version m = []"

definition send_headers_wf :: "uint32 \<Rightarrow> unit \<Rightarrow> bool" where
  "send_headers_wf version m \<longleftrightarrow> bip130 \<le> version \<and> version \<le> maximum_protocol"

definition version_acknowledge_bytes :: "uint32 \<Rightarrow> unit \<Rightarrow> bytes" where
  "version_acknowledge_bytes version m = []"

definition version_acknowledge_wf :: "uint32 \<Rightarrow> unit \<Rightarrow> bool" where
  "version_acknowledge_wf version m \<longleftrightarrow> minimum_protocol \<le> version \<and> version \<le> maximum_protocol"

definition witness_tx_id_relay_bytes :: "uint32 \<Rightarrow> unit \<Rightarrow> bytes" where
  "witness_tx_id_relay_bytes version m = []"

definition witness_tx_id_relay_wf :: "uint32 \<Rightarrow> unit \<Rightarrow> bool" where
  "witness_tx_id_relay_wf version m \<longleftrightarrow> bip339 \<le> version \<and> version \<le> maximum_protocol"

definition get_client_filter_checkpoint_bytes :: "uint32 \<Rightarrow> get_client_filter_checkpoint \<Rightarrow> bytes" where
  "get_client_filter_checkpoint_bytes version m = [gcfc_filter_type m] @ gcfc_stop_hash m"

definition get_client_filter_checkpoint_wf :: "uint32 \<Rightarrow> get_client_filter_checkpoint \<Rightarrow> bool" where
  "get_client_filter_checkpoint_wf version m \<longleftrightarrow> bip157 \<le> version \<and> version \<le> maximum_protocol \<and> length (gcfc_stop_hash m) = hash_size"

definition get_client_filter_headers_bytes :: "uint32 \<Rightarrow> get_client_filter_headers \<Rightarrow> bytes" where
  "get_client_filter_headers_bytes version m = [gcfh_filter_type m] @ le_bytes 4 (gcfh_start_height m) @ gcfh_stop_hash m"

definition get_client_filter_headers_wf :: "uint32 \<Rightarrow> get_client_filter_headers \<Rightarrow> bool" where
  "get_client_filter_headers_wf version m \<longleftrightarrow> bip157 \<le> version \<and> version \<le> maximum_protocol \<and> length (gcfh_stop_hash m) = hash_size"

definition get_client_filters_bytes :: "uint32 \<Rightarrow> get_client_filters \<Rightarrow> bytes" where
  "get_client_filters_bytes version m = [gcf_filter_type m] @ le_bytes 4 (gcf_start_height m) @ gcf_stop_hash m"

definition get_client_filters_wf :: "uint32 \<Rightarrow> get_client_filters \<Rightarrow> bool" where
  "get_client_filters_wf version m \<longleftrightarrow> bip157 \<le> version \<and> version \<le> maximum_protocol \<and> length (gcf_stop_hash m) = hash_size"

definition client_filter_headers_bytes :: "uint32 \<Rightarrow> client_filter_headers \<Rightarrow> bytes" where
  "client_filter_headers_bytes version m = [cfh_filter_type m] @ cfh_stop_hash m @ cfh_previous m @ size_bytes (length (cfh_hashes m)) @
     concat (map (\<lambda>h. h) (cfh_hashes m))"

definition client_filter_headers_wf :: "uint32 \<Rightarrow> client_filter_headers \<Rightarrow> bool" where
  "client_filter_headers_wf version m \<longleftrightarrow> bip157 \<le> version \<and> version \<le> maximum_protocol \<and> length (cfh_stop_hash m) = hash_size \<and> length (cfh_previous m) = hash_size \<and> list_all (\<lambda>h. length h = hash_size) (cfh_hashes m) \<and> length (cfh_hashes m) \<le> max_client_filter_headers"

definition bloom_filter_add_bytes :: "uint32 \<Rightarrow> bloom_filter_add \<Rightarrow> bytes" where
  "bloom_filter_add_bytes version m = size_bytes (length (filter_add_data m)) @ filter_add_data m"

definition bloom_filter_add_wf :: "uint32 \<Rightarrow> bloom_filter_add \<Rightarrow> bool" where
  "bloom_filter_add_wf version m \<longleftrightarrow> bip37 \<le> version \<and> version \<le> maximum_protocol \<and> length (filter_add_data m) \<le> max_bloom_filter_add"

definition bloom_filter_load_bytes :: "uint32 \<Rightarrow> bloom_filter_load \<Rightarrow> bytes" where
  "bloom_filter_load_bytes version m = size_bytes (length (load_filter m)) @ load_filter m @ le_bytes 4 (load_functions m) @
     le_bytes 4 (load_tweak m) @ [load_flags m]"

definition bloom_filter_load_wf :: "uint32 \<Rightarrow> bloom_filter_load \<Rightarrow> bool" where
  "bloom_filter_load_wf version m \<longleftrightarrow> bip37 \<le> version \<and> version \<le> maximum_protocol \<and> length (load_filter m) \<le> max_bloom_filter_load \<and> load_functions m \<le> 50"

definition get_blocks_bytes :: "uint32 \<Rightarrow> get_blocks \<Rightarrow> bytes" where
  "get_blocks_bytes version m = le_bytes 4 version @ size_bytes (length (gb_start_hashes m)) @
     concat (map (\<lambda>h. h) (gb_start_hashes m)) @ gb_stop_hash m"

definition get_blocks_wf :: "uint32 \<Rightarrow> get_blocks \<Rightarrow> bool" where
  "get_blocks_wf version m \<longleftrightarrow> minimum_protocol \<le> version \<and> version \<le> maximum_protocol \<and> list_all (\<lambda>h. length h = hash_size) (gb_start_hashes m) \<and> length (gb_start_hashes m) \<le> max_locator \<and> length (gb_stop_hash m) = hash_size"

definition get_headers_bytes :: "uint32 \<Rightarrow> get_headers \<Rightarrow> bytes" where
  "get_headers_bytes version m = le_bytes 4 version @ size_bytes (length (gh_start_hashes m)) @
     concat (map (\<lambda>h. h) (gh_start_hashes m)) @ gh_stop_hash m"

definition get_headers_wf :: "uint32 \<Rightarrow> get_headers \<Rightarrow> bool" where
  "get_headers_wf version m \<longleftrightarrow> headers_protocol \<le> version \<and> version \<le> maximum_protocol \<and> list_all (\<lambda>h. length h = hash_size) (gh_start_hashes m) \<and> length (gh_start_hashes m) \<le> max_locator \<and> length (gh_stop_hash m) = hash_size"

definition inventory_item_bytes :: "uint32 \<Rightarrow> inventory_item \<Rightarrow> bytes" where
  "inventory_item_bytes version m = le_bytes 4 (item_type m) @ item_hash m"

definition inventory_item_wf :: "uint32 \<Rightarrow> inventory_item \<Rightarrow> bool" where
  "inventory_item_wf version m \<longleftrightarrow> length (item_hash m) = hash_size"

definition inventory_bytes :: "uint32 \<Rightarrow> inventory \<Rightarrow> bytes" where
  "inventory_bytes version m = size_bytes (length (inventory_items m)) @ concat (map (inventory_item_bytes version) (inventory_items m))"

definition inventory_wf :: "uint32 \<Rightarrow> inventory \<Rightarrow> bool" where
  "inventory_wf version m \<longleftrightarrow> minimum_protocol \<le> version \<and> version \<le> maximum_protocol \<and> list_all (inventory_item_wf version) (inventory_items m) \<and> length (inventory_items m) \<le> max_inventory"

definition get_data_bytes :: "uint32 \<Rightarrow> get_data \<Rightarrow> bytes" where
  "get_data_bytes version m = size_bytes (length (get_data_items m)) @ concat (map (inventory_item_bytes version) (get_data_items m))"

definition get_data_wf :: "uint32 \<Rightarrow> get_data \<Rightarrow> bool" where
  "get_data_wf version m \<longleftrightarrow> minimum_protocol \<le> version \<and> version \<le> maximum_protocol \<and> list_all (inventory_item_wf version) (get_data_items m) \<and> length (get_data_items m) \<le> max_inventory"

definition not_found_bytes :: "uint32 \<Rightarrow> not_found \<Rightarrow> bytes" where
  "not_found_bytes version m = size_bytes (length (not_found_items m)) @ concat (map (inventory_item_bytes version) (not_found_items m))"

definition not_found_wf :: "uint32 \<Rightarrow> not_found \<Rightarrow> bool" where
  "not_found_wf version m \<longleftrightarrow> bip37 \<le> version \<and> version \<le> maximum_protocol \<and> list_all (inventory_item_wf version) (not_found_items m) \<and> length (not_found_items m) \<le> max_inventory"

section \<open>The codecs implement the formats\<close>

context byte_wire
begin

lemmas read_strict = strict_law strict_invalidate_if strict_items_valid
lemmas guards = not_less invalidate_if_def
lemmas lengths = variable_size_law concat_hashes [unfolded hash_size_def] hash_size_def

lemma ping_encodes:
  "encodes wview (ping_serialize io version m) (ping_bytes version m)"
  unfolding ping_serialize_def ping_bytes_def by (intro encode_rules write_law)

lemma ping_decodes:
  assumes "ping_wf version m"
  shows "decodes rview (ping_deserialize io version) m (ping_bytes version m)"
  unfolding ping_deserialize_def ping_bytes_def
  by (rule decodes_guard, rule decodes_finish [of _ _ "ping_nonce m"])
    (use assms little8_law decodes_return [of rview 0] in \<open>auto simp: ping_wf_def not_le not_less\<close>)

lemma ping_length:
  assumes "ping_wf version m"
  shows "ping_size io version m = length (ping_bytes version m)"
  using assms by (auto simp: ping_size_def ping_bytes_def)

lemma ping_unsupported:
  assumes "version < minimum_protocol \<or> maximum_protocol < version"
  shows "from_data io (ping_deserialize io version) data = None"
  unfolding ping_deserialize_def
  by (rule from_data_invalid, rule invalid_start [OF assms]) (intro strict_rules read_strict )

lemma pong_encodes:
  "encodes wview (pong_serialize io version m) (pong_bytes version m)"
  unfolding pong_serialize_def pong_bytes_def by (intro encode_rules write_law)

lemma pong_decodes:
  assumes "pong_wf version m"
  shows "decodes rview (pong_deserialize io version) m (pong_bytes version m)"
  unfolding pong_deserialize_def pong_bytes_def
  by (rule decode_rules decodes_items decodes_items_valid read_rules |
      simp add: assms [unfolded pong_wf_def limits] limits guards)+

lemma pong_length:
  assumes "pong_wf version m"
  shows "pong_size io version m = length (pong_bytes version m)"
  using assms by (simp add: pong_size_def pong_bytes_def pong_wf_def lengths)

lemma pong_unsupported:
  assumes "version < bip31 \<or> maximum_protocol < version"
  shows "from_data io (pong_deserialize io version) data = None"
  unfolding pong_deserialize_def
  by (rule from_data_invalid, rule invalid_start [OF assms]) (intro strict_rules read_strict )

lemma fee_filter_encodes:
  "encodes wview (fee_filter_serialize io version m) (fee_filter_bytes version m)"
  unfolding fee_filter_serialize_def fee_filter_bytes_def by (intro encode_rules write_law)

lemma fee_filter_decodes:
  assumes "fee_filter_wf version m"
  shows "decodes rview (fee_filter_deserialize io version) m (fee_filter_bytes version m)"
  unfolding fee_filter_deserialize_def fee_filter_bytes_def
  by (rule decode_rules decodes_items decodes_items_valid read_rules |
      simp add: assms [unfolded fee_filter_wf_def limits] limits guards)+

lemma fee_filter_length:
  assumes "fee_filter_wf version m"
  shows "fee_filter_size io version m = length (fee_filter_bytes version m)"
  using assms by (simp add: fee_filter_size_def fee_filter_bytes_def fee_filter_wf_def lengths)

lemma fee_filter_unsupported:
  assumes "version < bip133 \<or> maximum_protocol < version"
  shows "from_data io (fee_filter_deserialize io version) data = None"
  unfolding fee_filter_deserialize_def
  by (rule from_data_invalid, rule invalid_start [OF assms]) (intro strict_rules read_strict )

lemma send_compact_encodes:
  "encodes wview (send_compact_serialize io version m) (send_compact_bytes version m)"
  unfolding send_compact_serialize_def send_compact_bytes_def by (intro encode_rules write_law)

lemma send_compact_decodes:
  assumes "send_compact_wf version m"
  shows "decodes rview (send_compact_deserialize io version) m (send_compact_bytes version m)"
  unfolding send_compact_deserialize_def send_compact_bytes_def
  by (rule decode_rules decodes_items decodes_items_valid read_rules |
      simp add: assms [unfolded send_compact_wf_def limits] limits guards)+

lemma send_compact_length:
  assumes "send_compact_wf version m"
  shows "send_compact_size io version m = length (send_compact_bytes version m)"
  using assms by (simp add: send_compact_size_def send_compact_bytes_def send_compact_wf_def lengths)

lemma send_compact_unsupported:
  assumes "version < bip152 \<or> maximum_protocol < version"
  shows "from_data io (send_compact_deserialize io version) data = None"
  unfolding send_compact_deserialize_def
  by (rule from_data_invalid, rule invalid_start [OF assms]) (intro strict_rules read_strict )

lemma send_transaction_reconciliation_encodes:
  "encodes wview (send_transaction_reconciliation_serialize io version m) (send_transaction_reconciliation_bytes version m)"
  unfolding send_transaction_reconciliation_serialize_def send_transaction_reconciliation_bytes_def by (intro encode_rules write_law)

lemma send_transaction_reconciliation_decodes:
  assumes "send_transaction_reconciliation_wf version m"
  shows "decodes rview (send_transaction_reconciliation_deserialize io version) m (send_transaction_reconciliation_bytes version m)"
  unfolding send_transaction_reconciliation_deserialize_def send_transaction_reconciliation_bytes_def
  by (rule decode_rules decodes_items decodes_items_valid read_rules |
      simp add: assms [unfolded send_transaction_reconciliation_wf_def limits] limits guards)+

lemma send_transaction_reconciliation_length:
  assumes "send_transaction_reconciliation_wf version m"
  shows "send_transaction_reconciliation_size io version m = length (send_transaction_reconciliation_bytes version m)"
  using assms by (simp add: send_transaction_reconciliation_size_def send_transaction_reconciliation_bytes_def send_transaction_reconciliation_wf_def lengths)

lemma send_transaction_reconciliation_unsupported:
  assumes "version < bip330 \<or> maximum_protocol < version"
  shows "from_data io (send_transaction_reconciliation_deserialize io version) data = None"
  unfolding send_transaction_reconciliation_deserialize_def
  by (rule from_data_invalid, rule invalid_start [OF assms]) (intro strict_rules read_strict )

lemma bloom_filter_clear_encodes:
  "encodes wview (bloom_filter_clear_serialize io version m) (bloom_filter_clear_bytes version m)"
  unfolding bloom_filter_clear_serialize_def bloom_filter_clear_bytes_def by (intro encode_rules write_law)

lemma bloom_filter_clear_decodes:
  assumes "bloom_filter_clear_wf version m"
  shows "decodes rview (bloom_filter_clear_deserialize io version) m (bloom_filter_clear_bytes version m)"
  unfolding bloom_filter_clear_deserialize_def bloom_filter_clear_bytes_def
  by (rule decode_rules decodes_items decodes_items_valid read_rules |
      simp add: assms [unfolded bloom_filter_clear_wf_def limits] limits guards)+

lemma bloom_filter_clear_length:
  assumes "bloom_filter_clear_wf version m"
  shows "bloom_filter_clear_size io version m = length (bloom_filter_clear_bytes version m)"
  using assms by (simp add: bloom_filter_clear_size_def bloom_filter_clear_bytes_def bloom_filter_clear_wf_def lengths)

lemma bloom_filter_clear_unsupported:
  assumes "version < bip37 \<or> maximum_protocol < version"
  shows "from_data io (bloom_filter_clear_deserialize io version) data = None"
  unfolding bloom_filter_clear_deserialize_def
  by (rule from_data_invalid, rule invalid_start [OF assms]) (intro strict_rules read_strict )

lemma get_address_encodes:
  "encodes wview (get_address_serialize io version m) (get_address_bytes version m)"
  unfolding get_address_serialize_def get_address_bytes_def by (intro encode_rules write_law)

lemma get_address_decodes:
  assumes "get_address_wf version m"
  shows "decodes rview (get_address_deserialize io version) m (get_address_bytes version m)"
  unfolding get_address_deserialize_def get_address_bytes_def
  by (rule decode_rules decodes_items decodes_items_valid read_rules |
      simp add: assms [unfolded get_address_wf_def limits] limits guards)+

lemma get_address_length:
  assumes "get_address_wf version m"
  shows "get_address_size io version m = length (get_address_bytes version m)"
  using assms by (simp add: get_address_size_def get_address_bytes_def get_address_wf_def lengths)

lemma get_address_unsupported:
  assumes "version < minimum_protocol \<or> maximum_protocol < version"
  shows "from_data io (get_address_deserialize io version) data = None"
  unfolding get_address_deserialize_def
  by (rule from_data_invalid, rule invalid_start [OF assms]) (intro strict_rules read_strict )

lemma memory_pool_encodes:
  "encodes wview (memory_pool_serialize io version m) (memory_pool_bytes version m)"
  unfolding memory_pool_serialize_def memory_pool_bytes_def by (intro encode_rules write_law)

lemma memory_pool_decodes:
  assumes "memory_pool_wf version m"
  shows "decodes rview (memory_pool_deserialize io version) m (memory_pool_bytes version m)"
  unfolding memory_pool_deserialize_def memory_pool_bytes_def
  by (rule decode_rules decodes_items decodes_items_valid read_rules |
      simp add: assms [unfolded memory_pool_wf_def limits] limits guards)+

lemma memory_pool_length:
  assumes "memory_pool_wf version m"
  shows "memory_pool_size io version m = length (memory_pool_bytes version m)"
  using assms by (simp add: memory_pool_size_def memory_pool_bytes_def memory_pool_wf_def lengths)

lemma memory_pool_unsupported:
  assumes "version < bip35 \<or> maximum_protocol < version"
  shows "from_data io (memory_pool_deserialize io version) data = None"
  unfolding memory_pool_deserialize_def
  by (rule from_data_invalid, rule invalid_start [OF assms]) (intro strict_rules read_strict )

lemma send_address_v2_encodes:
  "encodes wview (send_address_v2_serialize io version m) (send_address_v2_bytes version m)"
  unfolding send_address_v2_serialize_def send_address_v2_bytes_def by (intro encode_rules write_law)

lemma send_address_v2_decodes:
  assumes "send_address_v2_wf version m"
  shows "decodes rview (send_address_v2_deserialize io version) m (send_address_v2_bytes version m)"
  unfolding send_address_v2_deserialize_def send_address_v2_bytes_def
  by (rule decode_rules decodes_items decodes_items_valid read_rules |
      simp add: assms [unfolded send_address_v2_wf_def limits] limits guards)+

lemma send_address_v2_length:
  assumes "send_address_v2_wf version m"
  shows "send_address_v2_size io version m = length (send_address_v2_bytes version m)"
  using assms by (simp add: send_address_v2_size_def send_address_v2_bytes_def send_address_v2_wf_def lengths)

lemma send_address_v2_unsupported:
  assumes "version < bip155 \<or> maximum_protocol < version"
  shows "from_data io (send_address_v2_deserialize io version) data = None"
  unfolding send_address_v2_deserialize_def
  by (rule from_data_invalid, rule invalid_start [OF assms]) (intro strict_rules read_strict )

lemma send_headers_encodes:
  "encodes wview (send_headers_serialize io version m) (send_headers_bytes version m)"
  unfolding send_headers_serialize_def send_headers_bytes_def by (intro encode_rules write_law)

lemma send_headers_decodes:
  assumes "send_headers_wf version m"
  shows "decodes rview (send_headers_deserialize io version) m (send_headers_bytes version m)"
  unfolding send_headers_deserialize_def send_headers_bytes_def
  by (rule decode_rules decodes_items decodes_items_valid read_rules |
      simp add: assms [unfolded send_headers_wf_def limits] limits guards)+

lemma send_headers_length:
  assumes "send_headers_wf version m"
  shows "send_headers_size io version m = length (send_headers_bytes version m)"
  using assms by (simp add: send_headers_size_def send_headers_bytes_def send_headers_wf_def lengths)

lemma send_headers_unsupported:
  assumes "version < bip130 \<or> maximum_protocol < version"
  shows "from_data io (send_headers_deserialize io version) data = None"
  unfolding send_headers_deserialize_def
  by (rule from_data_invalid, rule invalid_start [OF assms]) (intro strict_rules read_strict )

lemma version_acknowledge_encodes:
  "encodes wview (version_acknowledge_serialize io version m) (version_acknowledge_bytes version m)"
  unfolding version_acknowledge_serialize_def version_acknowledge_bytes_def by (intro encode_rules write_law)

lemma version_acknowledge_decodes:
  assumes "version_acknowledge_wf version m"
  shows "decodes rview (version_acknowledge_deserialize io version) m (version_acknowledge_bytes version m)"
  unfolding version_acknowledge_deserialize_def version_acknowledge_bytes_def
  by (rule decode_rules decodes_items decodes_items_valid read_rules |
      simp add: assms [unfolded version_acknowledge_wf_def limits] limits guards)+

lemma version_acknowledge_length:
  assumes "version_acknowledge_wf version m"
  shows "version_acknowledge_size io version m = length (version_acknowledge_bytes version m)"
  using assms by (simp add: version_acknowledge_size_def version_acknowledge_bytes_def version_acknowledge_wf_def lengths)

lemma version_acknowledge_unsupported:
  assumes "version < minimum_protocol \<or> maximum_protocol < version"
  shows "from_data io (version_acknowledge_deserialize io version) data = None"
  unfolding version_acknowledge_deserialize_def
  by (rule from_data_invalid, rule invalid_start [OF assms]) (intro strict_rules read_strict )

lemma witness_tx_id_relay_encodes:
  "encodes wview (witness_tx_id_relay_serialize io version m) (witness_tx_id_relay_bytes version m)"
  unfolding witness_tx_id_relay_serialize_def witness_tx_id_relay_bytes_def by (intro encode_rules write_law)

lemma witness_tx_id_relay_decodes:
  assumes "witness_tx_id_relay_wf version m"
  shows "decodes rview (witness_tx_id_relay_deserialize io version) m (witness_tx_id_relay_bytes version m)"
  unfolding witness_tx_id_relay_deserialize_def witness_tx_id_relay_bytes_def
  by (rule decode_rules decodes_items decodes_items_valid read_rules |
      simp add: assms [unfolded witness_tx_id_relay_wf_def limits] limits guards)+

lemma witness_tx_id_relay_length:
  assumes "witness_tx_id_relay_wf version m"
  shows "witness_tx_id_relay_size io version m = length (witness_tx_id_relay_bytes version m)"
  using assms by (simp add: witness_tx_id_relay_size_def witness_tx_id_relay_bytes_def witness_tx_id_relay_wf_def lengths)

lemma witness_tx_id_relay_unsupported:
  assumes "version < bip339 \<or> maximum_protocol < version"
  shows "from_data io (witness_tx_id_relay_deserialize io version) data = None"
  unfolding witness_tx_id_relay_deserialize_def
  by (rule from_data_invalid, rule invalid_start [OF assms]) (intro strict_rules read_strict )

lemma get_client_filter_checkpoint_encodes:
  "encodes wview (get_client_filter_checkpoint_serialize io version m) (get_client_filter_checkpoint_bytes version m)"
  unfolding get_client_filter_checkpoint_serialize_def get_client_filter_checkpoint_bytes_def by (intro encode_rules write_law)

lemma get_client_filter_checkpoint_decodes:
  assumes "get_client_filter_checkpoint_wf version m"
  shows "decodes rview (get_client_filter_checkpoint_deserialize io version) m (get_client_filter_checkpoint_bytes version m)"
  unfolding get_client_filter_checkpoint_deserialize_def get_client_filter_checkpoint_bytes_def
  by (rule decode_rules decodes_items decodes_items_valid read_rules |
      simp add: assms [unfolded get_client_filter_checkpoint_wf_def limits] limits guards)+

lemma get_client_filter_checkpoint_length:
  assumes "get_client_filter_checkpoint_wf version m"
  shows "get_client_filter_checkpoint_size io version m = length (get_client_filter_checkpoint_bytes version m)"
  using assms by (simp add: get_client_filter_checkpoint_size_def get_client_filter_checkpoint_bytes_def get_client_filter_checkpoint_wf_def lengths)

lemma get_client_filter_checkpoint_unsupported:
  assumes "version < bip157 \<or> maximum_protocol < version"
  shows "from_data io (get_client_filter_checkpoint_deserialize io version) data = None"
  unfolding get_client_filter_checkpoint_deserialize_def
  by (rule from_data_invalid, rule invalid_start [OF assms]) (intro strict_rules read_strict )

lemma get_client_filter_headers_encodes:
  "encodes wview (get_client_filter_headers_serialize io version m) (get_client_filter_headers_bytes version m)"
  unfolding get_client_filter_headers_serialize_def get_client_filter_headers_bytes_def by (intro encode_rules write_law)

lemma get_client_filter_headers_decodes:
  assumes "get_client_filter_headers_wf version m"
  shows "decodes rview (get_client_filter_headers_deserialize io version) m (get_client_filter_headers_bytes version m)"
  unfolding get_client_filter_headers_deserialize_def get_client_filter_headers_bytes_def
  by (rule decode_rules decodes_items decodes_items_valid read_rules |
      simp add: assms [unfolded get_client_filter_headers_wf_def limits] limits guards)+

lemma get_client_filter_headers_length:
  assumes "get_client_filter_headers_wf version m"
  shows "get_client_filter_headers_size io version m = length (get_client_filter_headers_bytes version m)"
  using assms by (simp add: get_client_filter_headers_size_def get_client_filter_headers_bytes_def get_client_filter_headers_wf_def lengths)

lemma get_client_filter_headers_unsupported:
  assumes "version < bip157 \<or> maximum_protocol < version"
  shows "from_data io (get_client_filter_headers_deserialize io version) data = None"
  unfolding get_client_filter_headers_deserialize_def
  by (rule from_data_invalid, rule invalid_start [OF assms]) (intro strict_rules read_strict )

lemma get_client_filters_encodes:
  "encodes wview (get_client_filters_serialize io version m) (get_client_filters_bytes version m)"
  unfolding get_client_filters_serialize_def get_client_filters_bytes_def by (intro encode_rules write_law)

lemma get_client_filters_decodes:
  assumes "get_client_filters_wf version m"
  shows "decodes rview (get_client_filters_deserialize io version) m (get_client_filters_bytes version m)"
  unfolding get_client_filters_deserialize_def get_client_filters_bytes_def
  by (rule decode_rules decodes_items decodes_items_valid read_rules |
      simp add: assms [unfolded get_client_filters_wf_def limits] limits guards)+

lemma get_client_filters_length:
  assumes "get_client_filters_wf version m"
  shows "get_client_filters_size io version m = length (get_client_filters_bytes version m)"
  using assms by (simp add: get_client_filters_size_def get_client_filters_bytes_def get_client_filters_wf_def lengths)

lemma get_client_filters_unsupported:
  assumes "version < bip157 \<or> maximum_protocol < version"
  shows "from_data io (get_client_filters_deserialize io version) data = None"
  unfolding get_client_filters_deserialize_def
  by (rule from_data_invalid, rule invalid_start [OF assms]) (intro strict_rules read_strict )

lemma client_filter_headers_encodes:
  "encodes wview (client_filter_headers_serialize io version m) (client_filter_headers_bytes version m)"
  unfolding client_filter_headers_serialize_def client_filter_headers_bytes_def by (intro encode_rules write_law)

lemma client_filter_headers_decodes:
  assumes "client_filter_headers_wf version m"
  shows "decodes rview (client_filter_headers_deserialize io version) m (client_filter_headers_bytes version m)"
  unfolding client_filter_headers_deserialize_def client_filter_headers_bytes_def
  by (rule decode_rules decodes_items decodes_items_valid read_rules |
      simp add: assms [unfolded client_filter_headers_wf_def limits] limits guards)+

lemma client_filter_headers_length:
  assumes "client_filter_headers_wf version m"
  shows "client_filter_headers_size io version m = length (client_filter_headers_bytes version m)"
  using assms by (simp add: client_filter_headers_size_def client_filter_headers_bytes_def client_filter_headers_wf_def lengths)

lemma client_filter_headers_unsupported:
  assumes "version < bip157 \<or> maximum_protocol < version"
  shows "from_data io (client_filter_headers_deserialize io version) data = None"
  unfolding client_filter_headers_deserialize_def
  by (rule from_data_invalid, rule invalid_start [OF assms]) (intro strict_rules read_strict )

lemma bloom_filter_add_encodes:
  "encodes wview (bloom_filter_add_serialize io version m) (bloom_filter_add_bytes version m)"
  unfolding bloom_filter_add_serialize_def bloom_filter_add_bytes_def by (intro encode_rules write_law)

lemma bloom_filter_add_decodes:
  assumes "bloom_filter_add_wf version m"
  shows "decodes rview (bloom_filter_add_deserialize io version) m (bloom_filter_add_bytes version m)"
  unfolding bloom_filter_add_deserialize_def bloom_filter_add_bytes_def
  by (rule decode_rules decodes_items decodes_items_valid read_rules |
      simp add: assms [unfolded bloom_filter_add_wf_def limits] limits guards)+

lemma bloom_filter_add_length:
  assumes "bloom_filter_add_wf version m"
  shows "bloom_filter_add_size io version m = length (bloom_filter_add_bytes version m)"
  using assms by (simp add: bloom_filter_add_size_def bloom_filter_add_bytes_def bloom_filter_add_wf_def lengths)

lemma bloom_filter_add_unsupported:
  assumes "version < bip37 \<or> maximum_protocol < version"
  shows "from_data io (bloom_filter_add_deserialize io version) data = None"
  unfolding bloom_filter_add_deserialize_def
  by (rule from_data_invalid, rule invalid_start [OF assms]) (intro strict_rules read_strict )

lemma bloom_filter_load_encodes:
  "encodes wview (bloom_filter_load_serialize io version m) (bloom_filter_load_bytes version m)"
  unfolding bloom_filter_load_serialize_def bloom_filter_load_bytes_def by (intro encode_rules write_law)

lemma bloom_filter_load_decodes:
  assumes "bloom_filter_load_wf version m"
  shows "decodes rview (bloom_filter_load_deserialize io version) m (bloom_filter_load_bytes version m)"
  unfolding bloom_filter_load_deserialize_def bloom_filter_load_bytes_def
  by (rule decode_rules decodes_items decodes_items_valid read_rules |
      simp add: assms [unfolded bloom_filter_load_wf_def limits] limits guards)+

lemma bloom_filter_load_length:
  assumes "bloom_filter_load_wf version m"
  shows "bloom_filter_load_size io version m = length (bloom_filter_load_bytes version m)"
  using assms by (simp add: bloom_filter_load_size_def bloom_filter_load_bytes_def bloom_filter_load_wf_def lengths)

lemma bloom_filter_load_unsupported:
  assumes "version < bip37 \<or> maximum_protocol < version"
  shows "from_data io (bloom_filter_load_deserialize io version) data = None"
  unfolding bloom_filter_load_deserialize_def
  by (rule from_data_invalid, rule invalid_start [OF assms]) (intro strict_rules read_strict )

lemma get_blocks_encodes:
  "encodes wview (get_blocks_serialize io version m) (get_blocks_bytes version m)"
  unfolding get_blocks_serialize_def get_blocks_bytes_def by (intro encode_rules write_law)

lemma get_blocks_decodes:
  assumes "get_blocks_wf version m"
  shows "decodes rview (get_blocks_deserialize io version) m (get_blocks_bytes version m)"
  unfolding get_blocks_deserialize_def get_blocks_bytes_def
  by (rule decode_rules decodes_items decodes_items_valid read_rules |
      simp add: assms [unfolded get_blocks_wf_def limits] limits guards)+

lemma get_blocks_length:
  assumes "get_blocks_wf version m"
  shows "get_blocks_size io version m = length (get_blocks_bytes version m)"
  using assms by (simp add: get_blocks_size_def get_blocks_bytes_def get_blocks_wf_def lengths)

lemma get_blocks_unsupported:
  assumes "version < minimum_protocol \<or> maximum_protocol < version"
  shows "from_data io (get_blocks_deserialize io version) data = None"
  unfolding get_blocks_deserialize_def
  by (rule from_data_invalid, rule invalid_start [OF assms]) (intro strict_rules read_strict )

lemma get_headers_encodes:
  "encodes wview (get_headers_serialize io version m) (get_headers_bytes version m)"
  unfolding get_headers_serialize_def get_headers_bytes_def by (intro encode_rules write_law)

lemma get_headers_decodes:
  assumes "get_headers_wf version m"
  shows "decodes rview (get_headers_deserialize io version) m (get_headers_bytes version m)"
  unfolding get_headers_deserialize_def get_headers_bytes_def
  by (rule decode_rules decodes_items decodes_items_valid read_rules |
      simp add: assms [unfolded get_headers_wf_def limits] limits guards)+

lemma get_headers_length:
  assumes "get_headers_wf version m"
  shows "get_headers_size io version m = length (get_headers_bytes version m)"
  using assms by (simp add: get_headers_size_def get_headers_bytes_def get_headers_wf_def lengths)

lemma get_headers_unsupported:
  assumes "version < headers_protocol \<or> maximum_protocol < version"
  shows "from_data io (get_headers_deserialize io version) data = None"
  unfolding get_headers_deserialize_def
  by (rule from_data_invalid, rule invalid_start [OF assms]) (intro strict_rules read_strict )

lemma inventory_item_encodes:
  "encodes wview (inventory_item_serialize io version m) (inventory_item_bytes version m)"
  unfolding inventory_item_serialize_def inventory_item_bytes_def by (intro encode_rules write_law)

lemma inventory_item_decodes:
  assumes "inventory_item_wf version m"
  shows "decodes rview (inventory_item_deserialize io version) m (inventory_item_bytes version m)"
  unfolding inventory_item_deserialize_def inventory_item_bytes_def
  by (rule decode_rules decodes_items decodes_items_valid read_rules |
      simp add: assms [unfolded inventory_item_wf_def limits] limits guards)+

lemma inventory_item_length:
  assumes "inventory_item_wf version m"
  shows "inventory_item_size io version m = length (inventory_item_bytes version m)"
  using assms by (simp add: inventory_item_size_def inventory_item_bytes_def inventory_item_wf_def lengths)

lemma inventory_item_strict: "strict rview (inventory_item_deserialize io version)"
  unfolding inventory_item_deserialize_def by (intro strict_rules read_strict )

lemma inventory_encodes:
  "encodes wview (inventory_serialize io version m) (inventory_bytes version m)"
  unfolding inventory_serialize_def inventory_bytes_def by (intro encode_rules write_law inventory_item_encodes)

lemma inventory_decodes:
  assumes "inventory_wf version m"
  shows "decodes rview (inventory_deserialize io version) m (inventory_bytes version m)"
  unfolding inventory_deserialize_def inventory_bytes_def
  by (rule decode_rules decodes_items read_rules inventory_item_decodes |
      simp add: assms [unfolded inventory_wf_def limits] limits guards)+

lemma inventory_length:
  assumes "inventory_wf version m"
  shows "inventory_size io version m = length (inventory_bytes version m)"
  using assms by (simp add: inventory_size_def inventory_bytes_def inventory_wf_def inventory_item_bytes_def
      inventory_item_size_def inventory_item_wf_def lengths concat_items list_all_iff)

lemma inventory_unsupported:
  assumes "version < minimum_protocol \<or> maximum_protocol < version"
  shows "from_data io (inventory_deserialize io version) data = None"
  unfolding inventory_deserialize_def
  by (rule from_data_invalid, rule invalid_start [OF assms]) (intro strict_rules read_strict inventory_item_strict)

lemma get_data_encodes:
  "encodes wview (get_data_serialize io version m) (get_data_bytes version m)"
  unfolding get_data_serialize_def get_data_bytes_def by (intro encode_rules write_law inventory_item_encodes)

lemma get_data_decodes:
  assumes "get_data_wf version m"
  shows "decodes rview (get_data_deserialize io version) m (get_data_bytes version m)"
  unfolding get_data_deserialize_def get_data_bytes_def
  by (rule decode_rules decodes_items read_rules inventory_item_decodes |
      simp add: assms [unfolded get_data_wf_def limits] limits guards)+

lemma get_data_length:
  assumes "get_data_wf version m"
  shows "get_data_size io version m = length (get_data_bytes version m)"
  using assms by (simp add: get_data_size_def get_data_bytes_def get_data_wf_def inventory_item_bytes_def
      inventory_item_size_def inventory_item_wf_def lengths concat_items list_all_iff)

lemma get_data_unsupported:
  assumes "version < minimum_protocol \<or> maximum_protocol < version"
  shows "from_data io (get_data_deserialize io version) data = None"
  unfolding get_data_deserialize_def
  by (rule from_data_invalid, rule invalid_start [OF assms]) (intro strict_rules read_strict inventory_item_strict)

lemma not_found_encodes:
  "encodes wview (not_found_serialize io version m) (not_found_bytes version m)"
  unfolding not_found_serialize_def not_found_bytes_def by (intro encode_rules write_law inventory_item_encodes)

lemma not_found_decodes:
  assumes "not_found_wf version m"
  shows "decodes rview (not_found_deserialize io version) m (not_found_bytes version m)"
  unfolding not_found_deserialize_def not_found_bytes_def
  by (rule decode_rules decodes_items read_rules inventory_item_decodes |
      simp add: assms [unfolded not_found_wf_def limits] limits guards)+

lemma not_found_length:
  assumes "not_found_wf version m"
  shows "not_found_size io version m = length (not_found_bytes version m)"
  using assms by (simp add: not_found_size_def not_found_bytes_def not_found_wf_def inventory_item_bytes_def
      inventory_item_size_def inventory_item_wf_def lengths concat_items list_all_iff)

lemma not_found_unsupported:
  assumes "version < bip37 \<or> maximum_protocol < version"
  shows "from_data io (not_found_deserialize io version) data = None"
  unfolding not_found_deserialize_def
  by (rule from_data_invalid, rule invalid_start [OF assms]) (intro strict_rules read_strict inventory_item_strict)

end

end
