(* ===== verification/Messages_Address.thy ===== *)
theory Messages_Address
  imports Messages_Simple Address
begin

text \<open>
  The peer messages that carry network addresses or text: \<open>address_item\<close> in its two encodings,
  \<open>address\<close>, \<open>address_v2\<close>, \<open>version\<close>, \<open>reject\<close>, and the message \<open>heading\<close>
  (\<open>src/src/messages/peer/detail\<close>). \<open>mapped\<close> is the parameter \<open>system::ip::mapped_prefix\<close>, of
  which only the length (twelve bytes) is relied on.
\<close>

section \<open>Address items\<close>

definition address_item_size :: "uint32 \<Rightarrow> bool \<Rightarrow> nat" where
  "address_item_size version with_timestamp = (if with_timestamp then 4 else 0) + 8 + ip_address_size + 2"

definition address_item_deserialize :: "('r, 'w) wire \<Rightarrow> bytes \<Rightarrow> uint32 \<Rightarrow> bool \<Rightarrow> ('r, address_item) state" where
  "address_item_deserialize io mapped version with_timestamp = do {
     timestamp \<leftarrow> (if with_timestamp then read_4_bytes_little_endian io else State_Monad.return 0);
     services \<leftarrow> read_8_bytes_little_endian io;
     ip \<leftarrow> read_bytes io ip_address_size;
     port \<leftarrow> read_2_bytes_big_endian io;
     invalidate_if io (is_torv2_ip ip);
     State_Monad.return \<lparr>ai_timestamp = timestamp, ai_services = services,
       ai_address = (if is_documentation mapped ip then monostate else to_address mapped ip),
       ai_port = port\<rparr> }"

definition address_item_serialize :: "('r, 'w) wire \<Rightarrow> uint32 \<Rightarrow> bool \<Rightarrow> address_item \<Rightarrow> ('w, unit) state" where
  "address_item_serialize io version with_timestamp m = do {
     (if with_timestamp then write_4_bytes_little_endian io (ai_timestamp m) else State_Monad.return ());
     write_8_bytes_little_endian io (ai_services m);
     write_bytes io (to_ip_address (ai_address m));
     write_2_bytes_big_endian io (ai_port m) }"

subsection \<open>BIP155\<close>

definition max_address_bytes :: nat where "max_address_bytes = 512"
definition max_addresses :: nat where "max_addresses = 1000"

text \<open>The alternative of the variant with the network identifier.\<close>

definition address_at :: "nat \<Rightarrow> bytes \<Rightarrow> address_t" where
  "address_at n value = [monostate, ipv4_t value, ipv6_t value, torv2_t value, torv3_t value,
     i2p_t value, cjdns_t value] ! n"

definition read_address_at :: "('r, 'w) wire \<Rightarrow> bytes \<Rightarrow> nat \<Rightarrow> nat \<Rightarrow> ('r, address_t) state" where
  "read_address_at io mapped n size_t =
    (if size_t \<noteq> wire_size n then do { invalidate io; State_Monad.return monostate }
     else do {
       value \<leftarrow> read_bytes io (wire_size n);
       (let out = take (stored_size n - wire_size n) mapped @ value in
        if (n = 1 \<or> n = 2) \<and> is_documentation mapped out then State_Monad.return monostate
        else if n = 2 \<and> is_v4_ip mapped out then State_Monad.return (ipv4_t out)
        else if n = 2 \<and> is_torv2_ip out then do { invalidate io; State_Monad.return monostate }
        else if n = 6 \<and> \<not> is_cjdns_ip out then do { invalidate io; State_Monad.return monostate }
        else State_Monad.return (address_at n out)) })"

definition read_address :: "('r, 'w) wire \<Rightarrow> bytes \<Rightarrow> ('r, address_t) state" where
  "read_address io mapped = do {
     network \<leftarrow> read_byte io;
     n \<leftarrow> read_size io max_address_bytes;
     (if network \<in> {1, 2, 4, 5, 6} then read_address_at io mapped (unat network) n
      else if network = 3 then do { invalidate io; State_Monad.return monostate }
      else do { skip_bytes io n; State_Monad.return monostate }) }"

definition write_address :: "('r, 'w) wire \<Rightarrow> address_t \<Rightarrow> ('w, unit) state" where
  "write_address io a = do {
     write_byte io (of_nat (address_index a));
     (case a of monostate \<Rightarrow> write_variable io 0
      | _ \<Rightarrow>
          let offset = stored_size (address_index a) - wire_size (address_index a) in do {
            write_variable io (of_nat (wire_size (address_index a)));
            write_bytes io (drop offset (address_value a)) }) }"

definition address_size :: "('r, 'w) wire \<Rightarrow> address_t \<Rightarrow> nat" where
  "address_size io a = (case a of monostate \<Rightarrow> variable_size io 0
     | _ \<Rightarrow> variable_size io (of_nat (wire_size (address_index a))) + wire_size (address_index a))"

definition address_item_size_v2 :: "('r, 'w) wire \<Rightarrow> uint32 \<Rightarrow> address_item \<Rightarrow> nat" where
  "address_item_size_v2 io version m =
     4 + variable_size io (ai_services m) + 1 + address_size io (ai_address m) + 2"

definition address_item_deserialize_v2 :: "('r, 'w) wire \<Rightarrow> bytes \<Rightarrow> uint32 \<Rightarrow> ('r, address_item) state" where
  "address_item_deserialize_v2 io mapped version = do {
     timestamp \<leftarrow> read_4_bytes_little_endian io;
     services \<leftarrow> read_variable io;
     address \<leftarrow> read_address io mapped;
     port \<leftarrow> read_2_bytes_big_endian io;
     State_Monad.return \<lparr>ai_timestamp = timestamp, ai_services = services,
       ai_address = address, ai_port = port\<rparr> }"

definition address_item_serialize_v2 :: "('r, 'w) wire \<Rightarrow> uint32 \<Rightarrow> address_item \<Rightarrow> ('w, unit) state" where
  "address_item_serialize_v2 io version m = do {
     write_4_bytes_little_endian io (ai_timestamp m);
     write_variable io (ai_services m);
     write_address io (ai_address m);
     write_2_bytes_big_endian io (ai_port m) }"

section \<open>Address messages\<close>

record address_message =
  addresses :: "address_item list"

definition address_deserialize :: "('r, 'w) wire \<Rightarrow> bytes \<Rightarrow> uint32 \<Rightarrow> ('r, address_message) state" where
  "address_deserialize io mapped version = do {
     invalidate_if io (version < minimum_protocol \<or> maximum_protocol < version);
     n \<leftarrow> read_size io max_addresses;
     items \<leftarrow> read_items n (address_item_deserialize io mapped version (address_timestamp \<le> version));
     State_Monad.return \<lparr>addresses = items\<rparr> }"

definition address_serialize :: "('r, 'w) wire \<Rightarrow> uint32 \<Rightarrow> address_message \<Rightarrow> ('w, unit) state" where
  "address_serialize io version m = do {
     write_variable io (of_nat (length (addresses m)));
     write_items (address_item_serialize io version (address_timestamp \<le> version)) (addresses m) }"

definition address_message_size :: "('r, 'w) wire \<Rightarrow> uint32 \<Rightarrow> address_message \<Rightarrow> nat" where
  "address_message_size io version m = variable_size io (of_nat (length (addresses m))) +
     length (addresses m) * address_item_size version (address_timestamp \<le> version)"

definition address_v2_deserialize :: "('r, 'w) wire \<Rightarrow> bytes \<Rightarrow> uint32 \<Rightarrow> ('r, address_message) state" where
  "address_v2_deserialize io mapped version = do {
     invalidate_if io (version < bip155 \<or> maximum_protocol < version);
     n \<leftarrow> read_size io max_addresses;
     items \<leftarrow> read_items n (address_item_deserialize_v2 io mapped version);
     State_Monad.return \<lparr>addresses = items\<rparr> }"

definition address_v2_serialize :: "('r, 'w) wire \<Rightarrow> uint32 \<Rightarrow> address_message \<Rightarrow> ('w, unit) state" where
  "address_v2_serialize io version m = do {
     write_variable io (of_nat (length (addresses m)));
     write_items (address_item_serialize_v2 io version) (addresses m) }"

definition address_v2_size :: "('r, 'w) wire \<Rightarrow> uint32 \<Rightarrow> address_message \<Rightarrow> nat" where
  "address_v2_size io version m = variable_size io (of_nat (length (addresses m))) +
     sum_list (map (address_item_size_v2 io version) (addresses m))"

definition address_from_data :: "('r, 'w) wire \<Rightarrow> bytes \<Rightarrow> uint32 \<Rightarrow> bytes \<Rightarrow> address_message option" where
  "address_from_data io mapped version data = from_data io (address_deserialize io mapped version) data"

definition address_to_data :: "('r, 'w) wire \<Rightarrow> uint32 \<Rightarrow> address_message \<Rightarrow> nat \<Rightarrow> bytes option" where
  "address_to_data io version m slab = to_slab io (address_serialize io version m) slab"

definition address_v2_from_data :: "('r, 'w) wire \<Rightarrow> bytes \<Rightarrow> uint32 \<Rightarrow> bytes \<Rightarrow> address_message option" where
  "address_v2_from_data io mapped version data = from_data io (address_v2_deserialize io mapped version) data"

definition address_v2_to_data :: "('r, 'w) wire \<Rightarrow> uint32 \<Rightarrow> address_message \<Rightarrow> nat \<Rightarrow> bytes option" where
  "address_v2_to_data io version m slab = to_slab io (address_v2_serialize io version m) slab"

section \<open>Version\<close>

record version_message =
  ver_value :: uint32
  ver_services :: uint64
  ver_timestamp :: uint64
  address_receiver :: address_item
  address_sender :: address_item
  ver_nonce :: uint64
  user_agent :: string
  start_height :: uint32
  relay :: bool

definition max_user_agent :: nat where "max_user_agent = 255"

text \<open>
  \<open>read_relay\<close>: \<open>(value < bip37) || source.is_exhausted() || to_bool(source.read_byte())\<close>, with
  the short circuit evaluation.
\<close>

definition read_relay :: "('r, 'w) wire \<Rightarrow> uint32 \<Rightarrow> ('r, bool) state" where
  "read_relay io value =
    (if value < bip37 then State_Monad.return True
     else do {
       exhausted \<leftarrow> is_exhausted io;
       (if exhausted then State_Monad.return True
        else do { b \<leftarrow> read_byte io; State_Monad.return (b \<noteq> 0) }) })"

definition version_deserialize :: "('r, 'w) wire \<Rightarrow> bytes \<Rightarrow> uint32 \<Rightarrow> ('r, version_message) state" where
  "version_deserialize io mapped version = do {
     value \<leftarrow> read_4_bytes_little_endian io;
     services \<leftarrow> read_8_bytes_little_endian io;
     timestamp \<leftarrow> read_8_bytes_little_endian io;
     receiver \<leftarrow> address_item_deserialize io mapped version False;
     sender \<leftarrow> address_item_deserialize io mapped version False;
     nonce \<leftarrow> read_8_bytes_little_endian io;
     agent \<leftarrow> read_string io max_user_agent;
     height \<leftarrow> read_4_bytes_little_endian io;
     relayed \<leftarrow> read_relay io value;
     State_Monad.return \<lparr>ver_value = value, ver_services = services, ver_timestamp = timestamp,
       address_receiver = receiver, address_sender = sender, ver_nonce = nonce,
       user_agent = agent, start_height = height, relay = relayed\<rparr> }"

definition version_serialize :: "('r, 'w) wire \<Rightarrow> uint32 \<Rightarrow> version_message \<Rightarrow> ('w, unit) state" where
  "version_serialize io version m = do {
     write_4_bytes_little_endian io (ver_value m);
     write_8_bytes_little_endian io (ver_services m);
     write_8_bytes_little_endian io (ver_timestamp m);
     address_item_serialize io version False (address_receiver m);
     address_item_serialize io version False (address_sender m);
     write_8_bytes_little_endian io (ver_nonce m);
     write_string io (user_agent m);
     write_4_bytes_little_endian io (start_height m);
     (if bip37 \<le> ver_value m then write_byte io (of_bool (relay m)) else State_Monad.return ()) }"

definition version_size :: "('r, 'w) wire \<Rightarrow> uint32 \<Rightarrow> version_message \<Rightarrow> nat" where
  "version_size io version m = 4 + 8 + 8 + address_item_size version False + address_item_size version False +
     8 + variable_size io (of_nat (length (user_agent m))) + length (user_agent m) + 4 +
     (if version < bip37 then 0 else 1)"

definition version_from_data :: "('r, 'w) wire \<Rightarrow> bytes \<Rightarrow> uint32 \<Rightarrow> bytes \<Rightarrow> version_message option" where
  "version_from_data io mapped version data = from_data io (version_deserialize io mapped version) data"

definition version_to_data :: "('r, 'w) wire \<Rightarrow> uint32 \<Rightarrow> version_message \<Rightarrow> nat \<Rightarrow> bytes option" where
  "version_to_data io version m slab = to_slab io (version_serialize io version m) slab"

section \<open>Reject\<close>

datatype reason_code = undefined_reason | malformed | invalid | obsolete | duplicate | nonstandard
  | dust | insufficient_fee | checkpoint

record reject =
  reject_message :: string
  reject_code :: reason_code
  reject_reason :: string
  reject_hash :: hash_digest

definition is_chain :: "string \<Rightarrow> bool" where
  "is_chain message \<longleftrightarrow> message = ''block'' \<or> message = ''tx''"

fun reason_to_byte :: "reason_code \<Rightarrow> byte" where
  "reason_to_byte undefined_reason = 0x00"
| "reason_to_byte malformed = 0x01"
| "reason_to_byte invalid = 0x10"
| "reason_to_byte obsolete = 0x11"
| "reason_to_byte duplicate = 0x12"
| "reason_to_byte nonstandard = 0x40"
| "reason_to_byte dust = 0x41"
| "reason_to_byte insufficient_fee = 0x42"
| "reason_to_byte checkpoint = 0x43"

definition byte_to_reason :: "byte \<Rightarrow> reason_code" where
  "byte_to_reason b =
    (if b = 0x01 then malformed else if b = 0x10 then invalid else if b = 0x11 then obsolete
     else if b = 0x12 then duplicate else if b = 0x40 then nonstandard else if b = 0x41 then dust
     else if b = 0x42 then insufficient_fee else if b = 0x43 then checkpoint else undefined_reason)"

definition null_hash :: hash_digest where "null_hash = replicate hash_size 0"

definition max_reject_message :: nat where "max_reject_message = 65535"

text \<open>The hash, read back to the position before it when the source has none.\<close>

definition read_reject_hash :: "('r, 'w) wire \<Rightarrow> ('r, hash_digest) state" where
  "read_reject_hash io = do {
     position \<leftarrow> get_read_position io;
     hash \<leftarrow> read_bytes io hash_size;
     State (\<lambda>r. if reader_valid io r then (hash, r)
        else run_state (do { set_position io position; State_Monad.return null_hash }) r) }"

definition reject_deserialize :: "('r, 'w) wire \<Rightarrow> uint32 \<Rightarrow> ('r, reject) state" where
  "reject_deserialize io version = do {
     message \<leftarrow> read_string io max_reject_message;
     code \<leftarrow> read_byte io;
     reason \<leftarrow> read_string io max_reject_message;
     hash \<leftarrow> State (\<lambda>r. if reader_valid io r \<and> is_chain message
        then run_state (read_reject_hash io) r else (null_hash, r));
     State_Monad.return \<lparr>reject_message = message, reject_code = byte_to_reason code,
       reject_reason = reason, reject_hash = hash\<rparr> }"

definition reject_serialize :: "('r, 'w) wire \<Rightarrow> uint32 \<Rightarrow> reject \<Rightarrow> ('w, unit) state" where
  "reject_serialize io version m = do {
     write_string io (reject_message m);
     write_byte io (reason_to_byte (reject_code m));
     write_string io (reject_reason m);
     (if is_chain (reject_message m) then write_bytes io (reject_hash m) else State_Monad.return ()) }"

definition reject_size :: "('r, 'w) wire \<Rightarrow> uint32 \<Rightarrow> reject \<Rightarrow> nat" where
  "reject_size io version m =
     variable_size io (of_nat (length (reject_message m))) + length (reject_message m) + 1 +
     variable_size io (of_nat (length (reject_reason m))) + length (reject_reason m) +
     (if is_chain (reject_message m) then hash_size else 0)"

definition reject_from_data :: "('r, 'w) wire \<Rightarrow> uint32 \<Rightarrow> bytes \<Rightarrow> reject option" where
  "reject_from_data io version data = from_data io (reject_deserialize io version) data"

definition reject_to_data :: "('r, 'w) wire \<Rightarrow> uint32 \<Rightarrow> reject \<Rightarrow> nat \<Rightarrow> bytes option" where
  "reject_to_data io version m slab = to_slab io (reject_serialize io version m) slab"

section \<open>Heading\<close>

record heading =
  magic :: uint32
  command :: string
  payload_size :: uint32
  checksum :: uint32

definition command_size :: nat where "command_size = 12"

definition heading_size :: nat where "heading_size = 4 + command_size + 4 + 4"

definition heading_deserialize :: "('r, 'w) wire \<Rightarrow> ('r, heading) state" where
  "heading_deserialize io = do {
     magic_number \<leftarrow> read_4_bytes_little_endian io;
     name \<leftarrow> read_string_buffer io command_size;
     payload \<leftarrow> read_4_bytes_little_endian io;
     check \<leftarrow> read_4_bytes_little_endian io;
     State_Monad.return \<lparr>magic = magic_number, command = name, payload_size = payload, checksum = check\<rparr> }"

definition heading_serialize :: "('r, 'w) wire \<Rightarrow> heading \<Rightarrow> ('w, unit) state" where
  "heading_serialize io m = do {
     write_4_bytes_little_endian io (magic m);
     write_string_buffer io command_size (command m);
     write_4_bytes_little_endian io (payload_size m);
     write_4_bytes_little_endian io (checksum m) }"

definition heading_from_data :: "('r, 'w) wire \<Rightarrow> bytes \<Rightarrow> heading option" where
  "heading_from_data io data = from_data io (heading_deserialize io) data"

definition heading_to_data :: "('r, 'w) wire \<Rightarrow> heading \<Rightarrow> nat \<Rightarrow> bytes option" where
  "heading_to_data io m slab = to_slab io (heading_serialize io m) slab"

section \<open>Wire formats\<close>

definition address_item_bytes :: "bool \<Rightarrow> address_item \<Rightarrow> bytes" where
  "address_item_bytes with_timestamp m =
     (if with_timestamp then le_bytes 4 (ai_timestamp m) else []) @ le_bytes 8 (ai_services m) @
     to_ip_address (ai_address m) @ be_bytes16 (ai_port m)"

text \<open>
  The addresses an encoding represents. The first encodes ip addresses only; documentation and
  tor v2 addresses are discarded or refused by the reader. The second encodes every network, and
  tor v2 is refused.
\<close>

definition wf_v1 :: "bytes \<Rightarrow> address_t \<Rightarrow> bool" where
  "wf_v1 mapped a = (case a of
     ipv4_t v \<Rightarrow> length v = 16 \<and> is_v4_ip mapped v \<and> \<not> is_torv2_ip v \<and> \<not> is_documentation mapped v
   | ipv6_t v \<Rightarrow> length v = 16 \<and> \<not> is_v4_ip mapped v \<and> \<not> is_torv2_ip v \<and> \<not> is_documentation mapped v
   | _ \<Rightarrow> False)"

definition wf_v2 :: "bytes \<Rightarrow> address_t \<Rightarrow> bool" where
  "wf_v2 mapped a = (case a of
     monostate \<Rightarrow> True
   | ipv4_t v \<Rightarrow> length v = 16 \<and> is_v4_ip mapped v \<and> \<not> is_documentation mapped v
   | ipv6_t v \<Rightarrow> length v = 16 \<and> \<not> is_v4_ip mapped v \<and> \<not> is_torv2_ip v \<and> \<not> is_documentation mapped v
   | torv2_t v \<Rightarrow> False
   | torv3_t v \<Rightarrow> length v = 32
   | i2p_t v \<Rightarrow> length v = 32
   | cjdns_t v \<Rightarrow> length v = 16 \<and> is_cjdns_ip v)"

definition address_item_wf :: "bytes \<Rightarrow> bool \<Rightarrow> address_item \<Rightarrow> bool" where
  "address_item_wf mapped with_timestamp m \<longleftrightarrow> wf_v1 mapped (ai_address m) \<and>
     (with_timestamp \<or> ai_timestamp m = 0)"

definition address_bytes_v2 :: "address_t \<Rightarrow> bytes" where
  "address_bytes_v2 a = [of_nat (address_index a)] @
     (case a of monostate \<Rightarrow> variable_bytes 0
      | _ \<Rightarrow> size_bytes (wire_size (address_index a)) @
          drop (stored_size (address_index a) - wire_size (address_index a)) (address_value a))"

definition address_item_bytes_v2 :: "address_item \<Rightarrow> bytes" where
  "address_item_bytes_v2 m = le_bytes 4 (ai_timestamp m) @ variable_bytes (ai_services m) @
     address_bytes_v2 (ai_address m) @ be_bytes16 (ai_port m)"

definition address_bytes :: "uint32 \<Rightarrow> address_message \<Rightarrow> bytes" where
  "address_bytes version m = size_bytes (length (addresses m)) @
     concat (map (address_item_bytes (address_timestamp \<le> version)) (addresses m))"

definition address_message_wf :: "bytes \<Rightarrow> uint32 \<Rightarrow> address_message \<Rightarrow> bool" where
  "address_message_wf mapped version m \<longleftrightarrow> minimum_protocol \<le> version \<and> version \<le> maximum_protocol \<and>
     length (addresses m) \<le> max_addresses \<and>
     list_all (address_item_wf mapped (address_timestamp \<le> version)) (addresses m)"

definition address_v2_bytes :: "uint32 \<Rightarrow> address_message \<Rightarrow> bytes" where
  "address_v2_bytes version m = size_bytes (length (addresses m)) @
     concat (map address_item_bytes_v2 (addresses m))"

definition address_v2_wf :: "bytes \<Rightarrow> uint32 \<Rightarrow> address_message \<Rightarrow> bool" where
  "address_v2_wf mapped version m \<longleftrightarrow> bip155 \<le> version \<and> version \<le> maximum_protocol \<and>
     length (addresses m) \<le> max_addresses \<and> list_all (\<lambda>x. wf_v2 mapped (ai_address x)) (addresses m)"

definition version_bytes :: "uint32 \<Rightarrow> version_message \<Rightarrow> bytes" where
  "version_bytes version m = le_bytes 4 (ver_value m) @ le_bytes 8 (ver_services m) @
     le_bytes 8 (ver_timestamp m) @ address_item_bytes False (address_receiver m) @
     address_item_bytes False (address_sender m) @ le_bytes 8 (ver_nonce m) @
     prefixed_string (user_agent m) @ le_bytes 4 (start_height m) @
     (if bip37 \<le> ver_value m then [of_bool (relay m)] else [])"

text \<open>
  The sizing presumes that the version it is given and the advertised value agree on the relay
  field, which is absent (read as true) below BIP37.
\<close>

definition version_wf :: "bytes \<Rightarrow> uint32 \<Rightarrow> version_message \<Rightarrow> bool" where
  "version_wf mapped version m \<longleftrightarrow> address_item_wf mapped False (address_receiver m) \<and>
     address_item_wf mapped False (address_sender m) \<and> length (user_agent m) \<le> max_user_agent \<and>
     (bip37 \<le> ver_value m \<longleftrightarrow> bip37 \<le> version) \<and> (ver_value m < bip37 \<longrightarrow> relay m)"

definition reject_bytes :: "uint32 \<Rightarrow> reject \<Rightarrow> bytes" where
  "reject_bytes version m = prefixed_string (reject_message m) @ [reason_to_byte (reject_code m)] @
     prefixed_string (reject_reason m) @ (if is_chain (reject_message m) then reject_hash m else [])"

definition reject_wf :: "uint32 \<Rightarrow> reject \<Rightarrow> bool" where
  "reject_wf version m \<longleftrightarrow> length (reject_message m) \<le> max_reject_message \<and>
     length (reject_reason m) \<le> max_reject_message \<and>
     (if is_chain (reject_message m) then length (reject_hash m) = hash_size
      else reject_hash m = null_hash)"

definition heading_bytes :: "heading \<Rightarrow> bytes" where
  "heading_bytes m = le_bytes 4 (magic m) @ string_buffer command_size (command m) @
     le_bytes 4 (payload_size m) @ le_bytes 4 (checksum m)"

definition heading_wf :: "heading \<Rightarrow> bool" where
  "heading_wf m \<longleftrightarrow> length (command m) \<le> command_size \<and> CHR 0x00 \<notin> set (command m)"

lemma byte_to_reason_to_byte [simp]: "byte_to_reason (reason_to_byte c) = c"
  by (cases c) (simp_all add: byte_to_reason_def)

lemma wf_v1_ip:
  assumes "wf_v1 mapped a"
  shows "length (to_ip_address a) = ip_address_size" "to_address mapped (to_ip_address a) = a"
    "\<not> is_torv2_ip (to_ip_address a)" "\<not> is_documentation mapped (to_ip_address a)"
  using assms
  by (auto simp: wf_v1_def to_ip_address_def to_address_def stored_size_def ip_address_size_def
      split: address_t.splits)

lemma wf_v2_split:
  assumes "wf_v2 mapped a" "length mapped = 12" "a \<noteq> monostate"
  shows "take (stored_size (address_index a) - wire_size (address_index a)) mapped @
      drop (stored_size (address_index a) - wire_size (address_index a)) (address_value a) = address_value a"
    "length (drop (stored_size (address_index a) - wire_size (address_index a)) (address_value a)) =
      wire_size (address_index a)"
  using assms
  by (auto simp: wf_v2_def stored_size_def wire_size_def is_v4_ip_def has_prefix_def
      split: address_t.splits)

lemma address_at_value: "a \<noteq> monostate \<Longrightarrow> address_at (address_index a) (address_value a) = a"
  by (cases a) (simp_all add: address_at_def)

section \<open>The codecs implement the formats\<close>

context byte_wire
begin

lemma address_item_encodes:
  "encodes wview (address_item_serialize io version ts m) (address_item_bytes ts m)"
  unfolding address_item_serialize_def address_item_bytes_def by (intro encode_rules write_law)

lemma address_item_decodes:
  assumes "address_item_wf mapped ts m"
  shows "decodes rview (address_item_deserialize io mapped version ts) m (address_item_bytes ts m)"
proof -
  have wf: "wf_v1 mapped (ai_address m)" "ts \<or> ai_timestamp m = 0"
    using assms by (simp_all add: address_item_wf_def)
  have stamp: "decodes rview (if ts then read_4_bytes_little_endian io else State_Monad.return 0)
      (ai_timestamp m) (if ts then le_bytes 4 (ai_timestamp m) else [])"
    using wf(2) by (auto intro: little4_law decodes_return)
  show ?thesis
    unfolding address_item_deserialize_def address_item_bytes_def
    by (rule decodes_bind [OF stamp])
      (rule decode_rules read_rules | simp add: wf_v1_ip [OF wf(1)] guards)+
qed

lemma address_item_strict: "strict rview (address_item_deserialize io mapped version ts)"
  unfolding address_item_deserialize_def by (intro strict_rules read_strict)

lemma address_item_length:
  "address_item_wf mapped ts m \<Longrightarrow> length (address_item_bytes ts m) = address_item_size version ts"
  using wf_v1_ip(1) [of mapped "ai_address m"]
  by (simp add: address_item_bytes_def address_item_size_def address_item_wf_def)

lemma write_address_encodes: "encodes wview (write_address io a) (address_bytes_v2 a)"
  unfolding write_address_def address_bytes_v2_def Let_def
  by (cases a) (simp_all only: address_t.case, (intro encode_rules write_law)+)

lemma read_address_at_decodes:
  assumes "wf_v2 mapped a" "length mapped = 12" "a \<noteq> monostate"
  shows "decodes rview (read_address_at io mapped (address_index a) (wire_size (address_index a))) a
    (drop (stored_size (address_index a) - wire_size (address_index a)) (address_value a))"
proof -
  let ?d = "drop (stored_size (address_index a) - wire_size (address_index a)) (address_value a)"
  have "decodes rview (read_bytes io (wire_size (address_index a))) ?d ?d"
    by (rule bytes_law) (rule wf_v2_split(2) [OF assms])
  then show ?thesis
    unfolding read_address_at_def
    by (simp, rule decodes_finish)
      (use assms(1,3) wf_v2_split(1) [OF assms] address_at_value [of a] in
        \<open>auto simp: wf_v2_def Let_def split: address_t.splits\<close>)
qed

lemma wire_size_small: "wire_size (address_index a) \<le> max_address_bytes"
  by (cases a) (simp_all add: wire_size_def max_address_bytes_def)

lemma read_address_decodes:
  assumes "wf_v2 mapped a" "length mapped = 12"
  shows "decodes rview (read_address io mapped) a (address_bytes_v2 a)"
proof (cases "a = monostate")
  case True
  have size0: "decodes rview (read_size io max_address_bytes) 0 (variable_bytes 0)"
    using size_rule [of 0 max_address_bytes] by (simp add: max_address_bytes_def)
  have "decodes rview (skip_bytes io 0) () []" by (rule skip_law) simp
  then have "decodes rview (do { skip_bytes io 0; State_Monad.return monostate }) monostate []"
    by (rule decodes_finish) simp
  then have "decodes rview (read_address io mapped) monostate ([0] @ variable_bytes 0 @ [])"
    unfolding read_address_def by (intro decodes_bind [OF byte_law] decodes_bind [OF size0]) simp
  then show ?thesis using True by (simp add: address_bytes_v2_def)
next
  case False
  let ?n = "address_index a"
  have net: "(of_nat ?n :: byte) \<in> {1, 2, 4, 5, 6}" "unat (of_nat ?n :: byte) = ?n"
    using assms(1) False by (cases a; simp add: wf_v2_def)+
  have "decodes rview (read_size io max_address_bytes) (wire_size ?n) (size_bytes (wire_size ?n))"
    by (rule size_rule) (simp_all add: wire_size_small, simp add: max_address_bytes_def)
  then have "decodes rview (read_address io mapped) a ([of_nat ?n] @ size_bytes (wire_size ?n) @
      drop (stored_size ?n - wire_size ?n) (address_value a))"
    unfolding read_address_def
    by (intro decodes_bind [OF byte_law] decodes_bind)
      (use net read_address_at_decodes [OF assms False] in simp_all)
  then show ?thesis using False by (cases a) (simp_all add: address_bytes_v2_def)
qed

lemma address_item_v2_encodes:
  "encodes wview (address_item_serialize_v2 io version m) (address_item_bytes_v2 m)"
  unfolding address_item_serialize_v2_def address_item_bytes_v2_def
  by (intro encode_rules write_law write_address_encodes)

lemma address_item_v2_decodes:
  assumes "wf_v2 mapped (ai_address m)" "length mapped = 12"
  shows "decodes rview (address_item_deserialize_v2 io mapped version) m (address_item_bytes_v2 m)"
  unfolding address_item_deserialize_v2_def address_item_bytes_v2_def
  by (rule decode_rules read_rules read_address_decodes [OF assms] | simp)+

lemma read_address_at_strict: "strict rview (read_address_at io mapped n size_t)"
  unfolding read_address_at_def Let_def by (intro strict_rules read_strict strict_invalidate)

lemma read_address_strict: "strict rview (read_address io mapped)"
  unfolding read_address_def
  by (intro strict_rules read_strict strict_invalidate read_address_at_strict)

lemma address_item_v2_strict: "strict rview (address_item_deserialize_v2 io mapped version)"
  unfolding address_item_deserialize_v2_def by (intro strict_rules read_strict read_address_strict)

lemma address_item_v2_length:
  assumes "wf_v2 mapped (ai_address m)" "length mapped = 12"
  shows "address_item_size_v2 io version m = length (address_item_bytes_v2 m)"
  using wf_v2_split(2) [OF assms]
  by (cases "ai_address m")
    (simp_all add: address_item_size_v2_def address_item_bytes_v2_def address_size_def address_bytes_v2_def
      variable_size_law)

lemma address_encodes: "encodes wview (address_serialize io version m) (address_bytes version m)"
  unfolding address_serialize_def address_bytes_def
  by (intro encode_rules write_law address_item_encodes)

lemma address_decodes:
  assumes "address_message_wf mapped version m"
  shows "decodes rview (address_deserialize io mapped version) m (address_bytes version m)"
  unfolding address_deserialize_def address_bytes_def
  by (rule decode_rules decodes_items read_rules address_item_decodes |
      simp add: assms [unfolded address_message_wf_def max_addresses_def list_all_iff] max_addresses_def guards)+

lemma address_length:
  assumes "address_message_wf mapped version m"
  shows "address_message_size io version m = length (address_bytes version m)"
proof -
  have "list_all (\<lambda>x. length (address_item_bytes (address_timestamp \<le> version) x) =
      address_item_size version (address_timestamp \<le> version)) (addresses m)"
    using assms by (auto simp: address_message_wf_def list_all_iff dest: address_item_length)
  from concat_length [OF this] show ?thesis
    by (simp add: address_message_size_def address_bytes_def variable_size_law)
qed

lemma address_unsupported:
  assumes "version < minimum_protocol \<or> maximum_protocol < version"
  shows "from_data io (address_deserialize io mapped version) data = None"
  unfolding address_deserialize_def
  by (rule from_data_invalid, rule invalid_start [OF assms])
    (intro strict_rules read_strict address_item_strict)

lemma address_v2_encodes: "encodes wview (address_v2_serialize io version m) (address_v2_bytes version m)"
  unfolding address_v2_serialize_def address_v2_bytes_def
  by (intro encode_rules write_law address_item_v2_encodes)

lemma address_v2_decodes:
  assumes "address_v2_wf mapped version m" "length mapped = 12"
  shows "decodes rview (address_v2_deserialize io mapped version) m (address_v2_bytes version m)"
  unfolding address_v2_deserialize_def address_v2_bytes_def
  by (rule decode_rules decodes_items read_rules address_item_v2_decodes |
      simp add: assms(1) [unfolded address_v2_wf_def max_addresses_def list_all_iff] assms(2)
        max_addresses_def guards)+

lemma address_v2_length:
  assumes "address_v2_wf mapped version m" "length mapped = 12"
  shows "address_v2_size io version m = length (address_v2_bytes version m)"
proof -
  have "map (address_item_size_v2 io version) (addresses m) =
      map (\<lambda>x. length (address_item_bytes_v2 x)) (addresses m)"
    using assms by (auto simp: address_v2_wf_def list_all_iff address_item_v2_length)
  from arg_cong [OF this, of sum_list] show ?thesis
    by (simp add: address_v2_size_def address_v2_bytes_def variable_size_law length_concat comp_def)
qed

lemma address_v2_unsupported:
  assumes "version < bip155 \<or> maximum_protocol < version"
  shows "from_data io (address_v2_deserialize io mapped version) data = None"
  unfolding address_v2_deserialize_def
  by (rule from_data_invalid, rule invalid_start [OF assms])
    (intro strict_rules read_strict address_item_v2_strict)

lemma version_encodes: "encodes wview (version_serialize io version m) (version_bytes version m)"
  unfolding version_serialize_def version_bytes_def
  by (intro encode_rules write_law address_item_encodes)

lemma read_relay_decodes:
  assumes "value < bip37 \<longrightarrow> b"
  shows "decodes rview (read_relay io value) b (if bip37 \<le> value then [of_bool b] else [])"
proof (cases "value < bip37")
  case True
  then have "\<not> bip37 \<le> value" by (simp add: not_le)
  with True show ?thesis using assms by (simp add: read_relay_def decodes_return)
next
  case False
  have "decodes rview (do { x \<leftarrow> read_byte io; State_Monad.return (x \<noteq> 0) }) b [of_bool b]"
    by (rule decodes_finish [OF byte_law]) simp
  then have "decodes rview (do { e \<leftarrow> is_exhausted io; if e then State_Monad.return True
      else do { x \<leftarrow> read_byte io; State_Monad.return (x \<noteq> 0) } }) b [of_bool b]"
    unfolding decodes_def by (auto simp: exhausted_law)
  moreover have "bip37 \<le> value" using False by (simp add: not_less)
  ultimately show ?thesis using False by (simp add: read_relay_def)
qed

lemma version_decodes:
  assumes "version_wf mapped version m"
  shows "decodes rview (version_deserialize io mapped version) m (version_bytes version m)"
  unfolding version_deserialize_def version_bytes_def
  by (rule decode_rules read_rules address_item_decodes read_relay_decodes |
      simp add: assms [unfolded version_wf_def max_user_agent_def] max_user_agent_def)+

lemma version_length:
  assumes "version_wf mapped version m"
  shows "version_size io version m = length (version_bytes version m)"
  using assms address_item_length [of mapped False "address_receiver m" version]
    address_item_length [of mapped False "address_sender m" version]
  by (auto simp: version_size_def version_bytes_def version_wf_def variable_size_law prefixed_string_def not_less)

lemma reject_encodes: "encodes wview (reject_serialize io version m) (reject_bytes version m)"
  unfolding reject_serialize_def reject_bytes_def by (intro encode_rules write_law)

lemma read_reject_hash_decodes:
  assumes "length h = hash_size"
  shows "decodes rview (read_reject_hash io) h h"
  unfolding decodes_def
proof (intro allI impI)
  fix r rest
  assume r: "rview r = Some (h @ rest)"
  obtain p r1 where p: "run_state (get_read_position io) r = (p, r1)" by (metis surj_pair)
  then have "rview r1 = Some (h @ rest)" using position_law [of r] r by simp
  then have "fst (run_state (read_bytes io hash_size) r1) = h"
    "rview (snd (run_state (read_bytes io hash_size) r1)) = Some rest"
    using bytes_law [OF assms] by (simp_all add: decodes_def)
  then show "fst (run_state (read_reject_hash io) r) = h \<and> rview (snd (run_state (read_reject_hash io) r)) = Some rest"
    using p by (cases "run_state (read_bytes io hash_size) r1") (simp add: read_reject_hash_def reader_valid_law)
qed

lemma reject_decodes:
  assumes "reject_wf version m"
  shows "decodes rview (reject_deserialize io version) m (reject_bytes version m)"
proof -
  have hash: "decodes rview (State (\<lambda>r. if reader_valid io r \<and> is_chain (reject_message m)
        then run_state (read_reject_hash io) r else (null_hash, r))) (reject_hash m)
      (if is_chain (reject_message m) then reject_hash m else [])"
    using assms read_reject_hash_decodes [of "reject_hash m"]
    by (auto simp: reject_wf_def decodes_def reader_valid_law split: if_splits)
  show ?thesis
    unfolding reject_deserialize_def reject_bytes_def
    by (rule decode_rules read_rules hash |
        simp add: assms [unfolded reject_wf_def max_reject_message_def] max_reject_message_def)+
qed

lemma reject_length: "reject_wf version m \<Longrightarrow> reject_size io version m = length (reject_bytes version m)"
  by (simp add: reject_size_def reject_bytes_def reject_wf_def variable_size_law prefixed_string_def)

lemma read_reject_hash_short:
  assumes "rview r = Some rest" "length rest < hash_size"
  shows "fst (run_state (read_reject_hash io) r) = null_hash \<and>
    rview (snd (run_state (read_reject_hash io) r)) = Some rest"
proof -
  obtain p r1 where p: "run_state (get_read_position io) r = (p, r1)" by (metis surj_pair)
  then have r1: "rview r1 = Some rest" using position_law [of r] assms(1) by simp
  obtain h r2 where h: "run_state (read_bytes io hash_size) r1 = (h, r2)" by (metis surj_pair)
  have "rview r2 = None" using short_bytes_law [OF r1 assms(2)] h by simp
  moreover have "rview (snd (run_state (set_position io p) r2)) = Some rest"
    using rewind_law [OF p assms] h by simp
  ultimately show ?thesis using p h
    by (cases "run_state (set_position io p) r2") (simp add: read_reject_hash_def reader_valid_law)
qed

lemma reject_hashless:
  assumes "reject_wf version m" "is_chain (reject_message m)" "length rest < hash_size"
  shows "from_data io (reject_deserialize io version)
      (prefixed_string (reject_message m) @ [reason_to_byte (reject_code m)] @
       prefixed_string (reject_reason m) @ rest) = Some (m\<lparr>reject_hash := null_hash\<rparr>)"
proof -
  let ?data = "prefixed_string (reject_message m) @ [reason_to_byte (reject_code m)] @
       prefixed_string (reject_reason m) @ rest"
  have str: "decodes rview (read_string io max_reject_message) s (prefixed_string s)"
    if "length s \<le> max_reject_message" for s
    using that by (rule string_rule) (simp add: max_reject_message_def)
  have wf: "length (reject_message m) \<le> max_reject_message" "length (reject_reason m) \<le> max_reject_message"
    using assms(1) by (simp_all add: reject_wf_def)
  obtain r1 where r1: "rview r1 = Some ([reason_to_byte (reject_code m)] @ prefixed_string (reject_reason m) @ rest)"
    and s1: "run_state (reject_deserialize io version) (open_reader io ?data) = run_state (do {
        code \<leftarrow> read_byte io; reason \<leftarrow> read_string io max_reject_message;
        hash \<leftarrow> State (\<lambda>r. if reader_valid io r \<and> is_chain (reject_message m)
           then run_state (read_reject_hash io) r else (null_hash, r));
        State_Monad.return \<lparr>reject_message = reject_message m, reject_code = byte_to_reason code,
          reject_reason = reason, reject_hash = hash\<rparr> }) r1"
    unfolding reject_deserialize_def using decodes_step [OF str [OF wf(1)] open_reader_law] by blast
  obtain r2 where r2: "rview r2 = Some (prefixed_string (reject_reason m) @ rest)"
    and s2: "run_state (reject_deserialize io version) (open_reader io ?data) = run_state (do {
        reason \<leftarrow> read_string io max_reject_message;
        hash \<leftarrow> State (\<lambda>r. if reader_valid io r \<and> is_chain (reject_message m)
           then run_state (read_reject_hash io) r else (null_hash, r));
        State_Monad.return \<lparr>reject_message = reject_message m,
          reject_code = byte_to_reason (reason_to_byte (reject_code m)),
          reject_reason = reason, reject_hash = hash\<rparr> }) r2"
    unfolding s1 using decodes_step [OF byte_law r1] by blast
  obtain r3 where r3: "rview r3 = Some rest"
    and s3: "run_state (reject_deserialize io version) (open_reader io ?data) = run_state (do {
        hash \<leftarrow> State (\<lambda>r. if reader_valid io r \<and> is_chain (reject_message m)
           then run_state (read_reject_hash io) r else (null_hash, r));
        State_Monad.return \<lparr>reject_message = reject_message m,
          reject_code = byte_to_reason (reason_to_byte (reject_code m)),
          reject_reason = reject_reason m, reject_hash = hash\<rparr> }) r3"
    unfolding s2 using decodes_step [OF str [OF wf(2)] r2] by blast
  show ?thesis
    using read_reject_hash_short [OF r3 assms(3)] r3 assms(2)
    by (cases "run_state (read_reject_hash io) r3") (simp add: from_data_def s3 [simplified] reader_valid_law)
qed

lemma heading_encodes: "encodes wview (heading_serialize io m) (heading_bytes m)"
  unfolding heading_serialize_def heading_bytes_def by (intro encode_rules write_law)

lemma heading_decodes:
  assumes "heading_wf m"
  shows "decodes rview (heading_deserialize io) m (heading_bytes m)"
  unfolding heading_deserialize_def heading_bytes_def
  by (rule decode_rules read_rules | simp add: assms [unfolded heading_wf_def])+

lemma heading_length: "length (heading_bytes m) = heading_size"
  by (simp add: heading_bytes_def heading_size_def)

end

end
