(* ===== verification/Messages_Chain.thy ===== *)
theory Messages_Chain
  imports Messages_Simple
begin

text \<open>
  The peer messages that carry blockchain objects or are limited by consensus constants:
  client filters, compact blocks, headers, merkle blocks, blocks and transactions
  (\<open>src/src/messages/peer/detail\<close>). The objects belong to libbitcoin-system: their codecs are the
  record \<open>chain_ops\<close>, their encodings the record \<open>chain_format\<close>, and the locale \<open>chain_wire\<close>
  relates them. A nullable pointer is an option. The byte span overloads of \<open>headers\<close> and
  \<open>transaction\<close> cache the hashes of the objects they read, which is an update of the object; an
  object is well formed (\<open>header_ok\<close>, \<open>transaction_ok\<close>) as the reader returns it.
  The chain in memory at the end shows that the contract can be met.
\<close>

section \<open>Blockchain objects\<close>

record limits =
  max_block_size :: nat
  min_transaction_size :: nat
  max_block_weight :: nat

record ('h, 't, 'b, 'r, 'w) chain_ops =
  chain_limits :: limits
  read_header :: "('r, 'h) state"
  write_header :: "'h \<Rightarrow> ('w, unit) state"
  header_size :: nat
  read_transaction :: "bool \<Rightarrow> ('r, 't) state"
  write_transaction :: "bool \<Rightarrow> 't \<Rightarrow> ('w, unit) state"
  transaction_size :: "bool \<Rightarrow> 't \<Rightarrow> nat"
  block_view :: "bytes \<Rightarrow> bool \<Rightarrow> 'b"
  block_is_valid :: "'b \<Rightarrow> bool"
  block_to_data :: "bool \<Rightarrow> 'b \<Rightarrow> bytes"
  block_serialized_size :: "bool \<Rightarrow> 'b \<Rightarrow> nat"
  bitcoin_hash :: "bytes \<Rightarrow> hash_digest"
  size_variable :: "byte \<Rightarrow> nat"
  set_header_hash :: "hash_digest \<Rightarrow> 'h \<Rightarrow> 'h"
  is_segregated :: "'t \<Rightarrow> bool"
  set_witness_hash :: "hash_digest \<Rightarrow> 't \<Rightarrow> 't"
  set_nominal_hash :: "hash_digest \<Rightarrow> 't \<Rightarrow> 't"
  desegregated_hash :: "nat \<Rightarrow> nat \<Rightarrow> bytes \<Rightarrow> hash_digest"
  transaction_hash :: "bool \<Rightarrow> 't \<Rightarrow> hash_digest"

record ('h, 't, 'b) chain_format =
  format_limits :: limits
  header_bytes :: "'h \<Rightarrow> bytes"
  header_ok :: "'h \<Rightarrow> bool"
  transaction_bytes :: "bool \<Rightarrow> 't \<Rightarrow> bytes"
  transaction_ok :: "bool \<Rightarrow> 't \<Rightarrow> bool"
  block_bytes :: "bool \<Rightarrow> 'b \<Rightarrow> bytes"
  block_ok :: "bool \<Rightarrow> 'b \<Rightarrow> bool"

definition max_payload :: "limits \<Rightarrow> nat" where
  "max_payload l = max_block_weight l"

definition max_block_transactions :: "limits \<Rightarrow> nat" where
  "max_block_transactions l = max_block_size l div min_transaction_size l"

definition max_get_headers :: nat where "max_get_headers = 2000"
definition mini_hash_size :: nat where "mini_hash_size = 6"
definition trail :: byte where "trail = 0x00"

text \<open>\<open>read_size()\<close> without a limit, kept as a 64 bit index.\<close>

definition read_index :: "('r, 'w) wire \<Rightarrow> ('r, uint64) state" where
  "read_index io = do { n \<leftarrow> read_size io (2 ^ 64 - 1); State_Monad.return (of_nat n) }"

text \<open>The loop body of \<open>headers::deserialize\<close>.\<close>

definition read_trailed_header :: "('r, 'w) wire \<Rightarrow> ('h, 't, 'b, 'r, 'w) chain_ops \<Rightarrow> ('r, 'h) state" where
  "read_trailed_header io ch = do {
     header \<leftarrow> read_header ch;
     b \<leftarrow> read_byte io;
     invalidate_if io (b \<noteq> trail);
     State_Monad.return header }"

section \<open>Messages\<close>

record client_filter =
  cf_filter_type :: byte
  cf_block_hash :: hash_digest
  cf_filter :: bytes

definition client_filter_deserialize :: "('r, 'w) wire \<Rightarrow> ('h, 't, 'b, 'r, 'w) chain_ops \<Rightarrow> uint32 \<Rightarrow> ('r, client_filter) state" where
  "client_filter_deserialize io ch version = do {
     invalidate_if io (version < bip157 \<or> maximum_protocol < version);
     filter_type \<leftarrow> read_byte io;
     block_hash \<leftarrow> read_bytes io hash_size;
     n \<leftarrow> read_size io (max_block_size (chain_limits ch));
     filter \<leftarrow> read_bytes io n;
     State_Monad.return \<lparr>cf_filter_type = filter_type, cf_block_hash = block_hash, cf_filter = filter\<rparr> }"

definition client_filter_serialize :: "('r, 'w) wire \<Rightarrow> ('h, 't, 'b, 'r, 'w) chain_ops \<Rightarrow> uint32 \<Rightarrow> client_filter \<Rightarrow> ('w, unit) state" where
  "client_filter_serialize io ch version m = do {
     write_byte io (cf_filter_type m);
     write_bytes io (cf_block_hash m);
     write_variable io (of_nat (length (cf_filter m)));
     write_bytes io (cf_filter m) }"

definition client_filter_size :: "('r, 'w) wire \<Rightarrow> ('h, 't, 'b, 'r, 'w) chain_ops \<Rightarrow> uint32 \<Rightarrow> client_filter \<Rightarrow> nat" where
  "client_filter_size io ch version m = 1 + hash_size + variable_size io (of_nat (length (cf_filter m))) + length (cf_filter m)"

definition client_filter_from_data :: "('r, 'w) wire \<Rightarrow> ('h, 't, 'b, 'r, 'w) chain_ops \<Rightarrow> uint32 \<Rightarrow> bytes \<Rightarrow> client_filter option" where
  "client_filter_from_data io ch version data = from_data io (client_filter_deserialize io ch version) data"

definition client_filter_to_data :: "('r, 'w) wire \<Rightarrow> ('h, 't, 'b, 'r, 'w) chain_ops \<Rightarrow> uint32 \<Rightarrow> client_filter \<Rightarrow> nat \<Rightarrow> bytes option" where
  "client_filter_to_data io ch version m slab = to_slab io (client_filter_serialize io ch version m) slab"

record client_filter_checkpoint =
  cfc_filter_type :: byte
  cfc_stop_hash :: hash_digest
  cfc_headers :: "hash_digest list"

definition client_filter_checkpoint_deserialize :: "('r, 'w) wire \<Rightarrow> ('h, 't, 'b, 'r, 'w) chain_ops \<Rightarrow> uint32 \<Rightarrow> ('r, client_filter_checkpoint) state" where
  "client_filter_checkpoint_deserialize io ch version = do {
     invalidate_if io (version < bip157 \<or> maximum_protocol < version);
     filter_type \<leftarrow> read_byte io;
     stop_hash \<leftarrow> read_bytes io hash_size;
     n \<leftarrow> read_size io (max_payload (chain_limits ch) div hash_size);
     headers \<leftarrow> read_items_valid io n (read_bytes io hash_size);
     State_Monad.return \<lparr>cfc_filter_type = filter_type, cfc_stop_hash = stop_hash, cfc_headers = headers\<rparr> }"

definition client_filter_checkpoint_serialize :: "('r, 'w) wire \<Rightarrow> ('h, 't, 'b, 'r, 'w) chain_ops \<Rightarrow> uint32 \<Rightarrow> client_filter_checkpoint \<Rightarrow> ('w, unit) state" where
  "client_filter_checkpoint_serialize io ch version m = do {
     write_byte io (cfc_filter_type m);
     write_bytes io (cfc_stop_hash m);
     write_variable io (of_nat (length (cfc_headers m)));
     write_items (write_bytes io) (cfc_headers m) }"

definition client_filter_checkpoint_size :: "('r, 'w) wire \<Rightarrow> ('h, 't, 'b, 'r, 'w) chain_ops \<Rightarrow> uint32 \<Rightarrow> client_filter_checkpoint \<Rightarrow> nat" where
  "client_filter_checkpoint_size io ch version m = 1 + hash_size + variable_size io (of_nat (length (cfc_headers m))) +
     length (cfc_headers m) * hash_size"

definition client_filter_checkpoint_from_data :: "('r, 'w) wire \<Rightarrow> ('h, 't, 'b, 'r, 'w) chain_ops \<Rightarrow> uint32 \<Rightarrow> bytes \<Rightarrow> client_filter_checkpoint option" where
  "client_filter_checkpoint_from_data io ch version data = from_data io (client_filter_checkpoint_deserialize io ch version) data"

definition client_filter_checkpoint_to_data :: "('r, 'w) wire \<Rightarrow> ('h, 't, 'b, 'r, 'w) chain_ops \<Rightarrow> uint32 \<Rightarrow> client_filter_checkpoint \<Rightarrow> nat \<Rightarrow> bytes option" where
  "client_filter_checkpoint_to_data io ch version m slab = to_slab io (client_filter_checkpoint_serialize io ch version m) slab"

record get_compact_transactions =
  gct_block_hash :: hash_digest
  gct_indexes :: "uint64 list"

definition get_compact_transactions_deserialize :: "('r, 'w) wire \<Rightarrow> ('h, 't, 'b, 'r, 'w) chain_ops \<Rightarrow> uint32 \<Rightarrow> ('r, get_compact_transactions) state" where
  "get_compact_transactions_deserialize io ch version = do {
     invalidate_if io (version < bip152 \<or> maximum_protocol < version);
     block_hash \<leftarrow> read_bytes io hash_size;
     n \<leftarrow> read_size io (max_block_transactions (chain_limits ch));
     indexes \<leftarrow> read_items_valid io n (read_index io);
     State_Monad.return \<lparr>gct_block_hash = block_hash, gct_indexes = indexes\<rparr> }"

definition get_compact_transactions_serialize :: "('r, 'w) wire \<Rightarrow> ('h, 't, 'b, 'r, 'w) chain_ops \<Rightarrow> uint32 \<Rightarrow> get_compact_transactions \<Rightarrow> ('w, unit) state" where
  "get_compact_transactions_serialize io ch version m = do {
     write_bytes io (gct_block_hash m);
     write_variable io (of_nat (length (gct_indexes m)));
     write_items (write_variable io) (gct_indexes m) }"

definition get_compact_transactions_size :: "('r, 'w) wire \<Rightarrow> ('h, 't, 'b, 'r, 'w) chain_ops \<Rightarrow> uint32 \<Rightarrow> get_compact_transactions \<Rightarrow> nat" where
  "get_compact_transactions_size io ch version m = hash_size + variable_size io (of_nat (length (gct_indexes m))) +
     sum_list (map (variable_size io) (gct_indexes m))"

definition get_compact_transactions_from_data :: "('r, 'w) wire \<Rightarrow> ('h, 't, 'b, 'r, 'w) chain_ops \<Rightarrow> uint32 \<Rightarrow> bytes \<Rightarrow> get_compact_transactions option" where
  "get_compact_transactions_from_data io ch version data = from_data io (get_compact_transactions_deserialize io ch version) data"

definition get_compact_transactions_to_data :: "('r, 'w) wire \<Rightarrow> ('h, 't, 'b, 'r, 'w) chain_ops \<Rightarrow> uint32 \<Rightarrow> get_compact_transactions \<Rightarrow> nat \<Rightarrow> bytes option" where
  "get_compact_transactions_to_data io ch version m slab = to_slab io (get_compact_transactions_serialize io ch version m) slab"

record 'h merkle_block =
  mb_header :: "'h option"
  mb_transactions :: uint32
  mb_hashes :: "hash_digest list"
  mb_flags :: bytes

definition merkle_block_deserialize :: "('r, 'w) wire \<Rightarrow> ('h, 't, 'b, 'r, 'w) chain_ops \<Rightarrow> uint32 \<Rightarrow> ('r, 'h merkle_block) state" where
  "merkle_block_deserialize io ch version = do {
     header \<leftarrow> read_header ch;
     transactions \<leftarrow> read_4_bytes_little_endian io;
     n \<leftarrow> read_size io (max_block_transactions (chain_limits ch));
     hashes \<leftarrow> read_items_valid io n (read_bytes io hash_size);
     k \<leftarrow> read_size io (max_block_size (chain_limits ch));
     flags \<leftarrow> read_bytes io k;
     State_Monad.return \<lparr>mb_header = Some header, mb_transactions = transactions,
       mb_hashes = hashes, mb_flags = flags\<rparr> }"

definition merkle_block_serialize :: "('r, 'w) wire \<Rightarrow> ('h, 't, 'b, 'r, 'w) chain_ops \<Rightarrow> uint32 \<Rightarrow> 'h merkle_block \<Rightarrow> ('w, unit) state" where
  "merkle_block_serialize io ch version m = do {
     (case mb_header m of None \<Rightarrow> State_Monad.return () | Some header \<Rightarrow> write_header ch header);
     write_4_bytes_little_endian io (mb_transactions m);
     write_variable io (of_nat (length (mb_hashes m)));
     write_items (write_bytes io) (mb_hashes m);
     write_variable io (of_nat (length (mb_flags m)));
     write_bytes io (mb_flags m) }"

definition merkle_block_size :: "('r, 'w) wire \<Rightarrow> ('h, 't, 'b, 'r, 'w) chain_ops \<Rightarrow> uint32 \<Rightarrow> 'h merkle_block \<Rightarrow> nat" where
  "merkle_block_size io ch version m = (case mb_header m of None \<Rightarrow> 0 | Some _ \<Rightarrow> header_size ch) + 4 +
     variable_size io (of_nat (length (mb_hashes m))) + length (mb_hashes m) * hash_size +
     variable_size io (of_nat (length (mb_flags m))) + length (mb_flags m)"

definition merkle_block_from_data :: "('r, 'w) wire \<Rightarrow> ('h, 't, 'b, 'r, 'w) chain_ops \<Rightarrow> uint32 \<Rightarrow> bytes \<Rightarrow> 'h merkle_block option" where
  "merkle_block_from_data io ch version data = from_data io (merkle_block_deserialize io ch version) data"

definition merkle_block_to_data :: "('r, 'w) wire \<Rightarrow> ('h, 't, 'b, 'r, 'w) chain_ops \<Rightarrow> uint32 \<Rightarrow> 'h merkle_block \<Rightarrow> nat \<Rightarrow> bytes option" where
  "merkle_block_to_data io ch version m slab = to_slab io (merkle_block_serialize io ch version m) slab"

record 'h headers =
  header_ptrs :: "'h list"

definition headers_deserialize :: "('r, 'w) wire \<Rightarrow> ('h, 't, 'b, 'r, 'w) chain_ops \<Rightarrow> uint32 \<Rightarrow> ('r, 'h headers) state" where
  "headers_deserialize io ch version = do {
     invalidate_if io (version < headers_protocol \<or> maximum_protocol < version);
     n \<leftarrow> read_size io max_get_headers;
     hs \<leftarrow> read_items n (read_trailed_header io ch);
     State_Monad.return \<lparr>header_ptrs = hs\<rparr> }"

definition headers_serialize :: "('r, 'w) wire \<Rightarrow> ('h, 't, 'b, 'r, 'w) chain_ops \<Rightarrow> uint32 \<Rightarrow> 'h headers \<Rightarrow> ('w, unit) state" where
  "headers_serialize io ch version m = do {
     write_variable io (of_nat (length (header_ptrs m)));
     write_items (\<lambda>header. do { write_header ch header; write_byte io trail }) (header_ptrs m) }"

definition headers_size :: "('r, 'w) wire \<Rightarrow> ('h, 't, 'b, 'r, 'w) chain_ops \<Rightarrow> uint32 \<Rightarrow> 'h headers \<Rightarrow> nat" where
  "headers_size io ch version m = variable_size io (of_nat (length (header_ptrs m))) + length (header_ptrs m) * (header_size ch + 1)"

text \<open>The loop that caches the hash of each header of the data it was read from.\<close>

fun cache_hashes :: "('h, 't, 'b, 'r, 'w) chain_ops \<Rightarrow> bytes \<Rightarrow> 'h list \<Rightarrow> 'h list" where
  "cache_hashes ch data [] = []"
| "cache_hashes ch data (header # rest) =
     set_header_hash ch (bitcoin_hash ch (take (header_size ch) data)) header #
     cache_hashes ch (drop (header_size ch + 1) data) rest"

definition headers_from_data :: "('r, 'w) wire \<Rightarrow> ('h, 't, 'b, 'r, 'w) chain_ops \<Rightarrow> uint32 \<Rightarrow> bytes \<Rightarrow> 'h headers option" where
  "headers_from_data io ch version data =
    (case from_data io (headers_deserialize io ch version) data of
       None \<Rightarrow> None
     | Some m \<Rightarrow> Some (m\<lparr>header_ptrs :=
         cache_hashes ch (drop (size_variable ch (hd data)) data) (header_ptrs m)\<rparr>))"

definition headers_to_data :: "('r, 'w) wire \<Rightarrow> ('h, 't, 'b, 'r, 'w) chain_ops \<Rightarrow> uint32 \<Rightarrow> 'h headers \<Rightarrow> nat \<Rightarrow> bytes option" where
  "headers_to_data io ch version m slab = to_slab io (headers_serialize io ch version m) slab"

record 't compact_block_item =
  cbi_index :: uint64
  cbi_transaction :: "'t option"

definition compact_block_item_deserialize :: "('r, 'w) wire \<Rightarrow> ('h, 't, 'b, 'r, 'w) chain_ops \<Rightarrow> uint32 \<Rightarrow> bool \<Rightarrow> ('r, 't compact_block_item) state" where
  "compact_block_item_deserialize io ch version witness = do {
     index \<leftarrow> read_variable io;
     tx \<leftarrow> read_transaction ch witness;
     State_Monad.return \<lparr>cbi_index = index, cbi_transaction = Some tx\<rparr> }"

definition compact_block_item_serialize :: "('r, 'w) wire \<Rightarrow> ('h, 't, 'b, 'r, 'w) chain_ops \<Rightarrow> uint32 \<Rightarrow> bool \<Rightarrow> 't compact_block_item \<Rightarrow> ('w, unit) state" where
  "compact_block_item_serialize io ch version witness m = do {
     write_variable io (cbi_index m);
     (case cbi_transaction m of None \<Rightarrow> State_Monad.return () | Some tx \<Rightarrow> write_transaction ch witness tx) }"

definition compact_block_item_size :: "('r, 'w) wire \<Rightarrow> ('h, 't, 'b, 'r, 'w) chain_ops \<Rightarrow> uint32 \<Rightarrow> bool \<Rightarrow> 't compact_block_item \<Rightarrow> nat" where
  "compact_block_item_size io ch version witness m = variable_size io (cbi_index m) +
     (case cbi_transaction m of None \<Rightarrow> 0 | Some tx \<Rightarrow> transaction_size ch witness tx)"

record ('h, 't) compact_block =
  cb_header :: "'h"
  cb_nonce :: uint64
  cb_short_ids :: "bytes list"
  cb_transactions :: "'t compact_block_item list"

definition compact_block_deserialize :: "('r, 'w) wire \<Rightarrow> ('h, 't, 'b, 'r, 'w) chain_ops \<Rightarrow> uint32 \<Rightarrow> bool \<Rightarrow> ('r, ('h, 't) compact_block) state" where
  "compact_block_deserialize io ch version witness = do {
     invalidate_if io (version < bip152 \<or> maximum_protocol < version);
     header \<leftarrow> read_header ch;
     nonce \<leftarrow> read_8_bytes_little_endian io;
     n \<leftarrow> read_size io (max_block_transactions (chain_limits ch));
     short_ids \<leftarrow> read_items_valid io n (read_bytes io mini_hash_size);
     k \<leftarrow> read_size io (max_block_transactions (chain_limits ch));
     txs \<leftarrow> read_items_valid io k (compact_block_item_deserialize io ch version witness);
     State_Monad.return \<lparr>cb_header = header, cb_nonce = nonce, cb_short_ids = short_ids,
       cb_transactions = txs\<rparr> }"

definition compact_block_serialize :: "('r, 'w) wire \<Rightarrow> ('h, 't, 'b, 'r, 'w) chain_ops \<Rightarrow> uint32 \<Rightarrow> bool \<Rightarrow> ('h, 't) compact_block \<Rightarrow> ('w, unit) state" where
  "compact_block_serialize io ch version witness m = do {
     write_header ch (cb_header m);
     write_8_bytes_little_endian io (cb_nonce m);
     write_variable io (of_nat (length (cb_short_ids m)));
     write_items (write_bytes io) (cb_short_ids m);
     write_variable io (of_nat (length (cb_transactions m)));
     write_items (compact_block_item_serialize io ch version witness) (cb_transactions m) }"

definition compact_block_size :: "('r, 'w) wire \<Rightarrow> ('h, 't, 'b, 'r, 'w) chain_ops \<Rightarrow> uint32 \<Rightarrow> bool \<Rightarrow> ('h, 't) compact_block \<Rightarrow> nat" where
  "compact_block_size io ch version witness m = header_size ch + 8 + variable_size io (of_nat (length (cb_short_ids m))) +
     length (cb_short_ids m) * mini_hash_size + variable_size io (of_nat (length (cb_transactions m))) +
     sum_list (map (compact_block_item_size io ch version witness) (cb_transactions m))"

definition compact_block_from_data :: "('r, 'w) wire \<Rightarrow> ('h, 't, 'b, 'r, 'w) chain_ops \<Rightarrow> uint32 \<Rightarrow> bool \<Rightarrow> bytes \<Rightarrow> ('h, 't) compact_block option" where
  "compact_block_from_data io ch version witness data = from_data io (compact_block_deserialize io ch version witness) data"

definition compact_block_to_data :: "('r, 'w) wire \<Rightarrow> ('h, 't, 'b, 'r, 'w) chain_ops \<Rightarrow> uint32 \<Rightarrow> bool \<Rightarrow> ('h, 't) compact_block \<Rightarrow> nat \<Rightarrow> bytes option" where
  "compact_block_to_data io ch version witness m slab = to_slab io (compact_block_serialize io ch version witness m) slab"

record 't compact_transactions =
  ct_block_hash :: hash_digest
  ct_transactions :: "'t list"

definition compact_transactions_deserialize :: "('r, 'w) wire \<Rightarrow> ('h, 't, 'b, 'r, 'w) chain_ops \<Rightarrow> uint32 \<Rightarrow> bool \<Rightarrow> ('r, 't compact_transactions) state" where
  "compact_transactions_deserialize io ch version witness = do {
     invalidate_if io (version < bip152 \<or> maximum_protocol < version);
     block_hash \<leftarrow> read_bytes io hash_size;
     n \<leftarrow> read_size io (max_block_transactions (chain_limits ch));
     txs \<leftarrow> read_items_valid io n (read_transaction ch witness);
     State_Monad.return \<lparr>ct_block_hash = block_hash, ct_transactions = txs\<rparr> }"

definition compact_transactions_serialize :: "('r, 'w) wire \<Rightarrow> ('h, 't, 'b, 'r, 'w) chain_ops \<Rightarrow> uint32 \<Rightarrow> bool \<Rightarrow> 't compact_transactions \<Rightarrow> ('w, unit) state" where
  "compact_transactions_serialize io ch version witness m = do {
     write_bytes io (ct_block_hash m);
     write_variable io (of_nat (length (ct_transactions m)));
     write_items (write_transaction ch witness) (ct_transactions m) }"

definition compact_transactions_size :: "('r, 'w) wire \<Rightarrow> ('h, 't, 'b, 'r, 'w) chain_ops \<Rightarrow> uint32 \<Rightarrow> bool \<Rightarrow> 't compact_transactions \<Rightarrow> nat" where
  "compact_transactions_size io ch version witness m = hash_size + variable_size io (of_nat (length (ct_transactions m))) +
     sum_list (map (transaction_size ch witness) (ct_transactions m))"

definition compact_transactions_from_data :: "('r, 'w) wire \<Rightarrow> ('h, 't, 'b, 'r, 'w) chain_ops \<Rightarrow> uint32 \<Rightarrow> bool \<Rightarrow> bytes \<Rightarrow> 't compact_transactions option" where
  "compact_transactions_from_data io ch version witness data = from_data io (compact_transactions_deserialize io ch version witness) data"

definition compact_transactions_to_data :: "('r, 'w) wire \<Rightarrow> ('h, 't, 'b, 'r, 'w) chain_ops \<Rightarrow> uint32 \<Rightarrow> bool \<Rightarrow> 't compact_transactions \<Rightarrow> nat \<Rightarrow> bytes option" where
  "compact_transactions_to_data io ch version witness m slab = to_slab io (compact_transactions_serialize io ch version witness m) slab"

record 't transaction_message =
  transaction_ptr :: "'t option"

definition tx_deserialize :: "('r, 'w) wire \<Rightarrow> ('h, 't, 'b, 'r, 'w) chain_ops \<Rightarrow> uint32 \<Rightarrow> bool \<Rightarrow> ('r, 't transaction_message) state" where
  "tx_deserialize io ch version witness = do {
     invalidate_if io (version < minimum_protocol \<or> maximum_protocol < version);
     tx \<leftarrow> read_transaction ch witness;
     State_Monad.return \<lparr>transaction_ptr = Some tx\<rparr> }"

definition tx_serialize :: "('r, 'w) wire \<Rightarrow> ('h, 't, 'b, 'r, 'w) chain_ops \<Rightarrow> uint32 \<Rightarrow> bool \<Rightarrow> 't transaction_message \<Rightarrow> ('w, unit) state" where
  "tx_serialize io ch version witness m = (case transaction_ptr m of None \<Rightarrow> State_Monad.return () | Some tx \<Rightarrow> write_transaction ch witness tx)"

definition tx_size :: "('r, 'w) wire \<Rightarrow> ('h, 't, 'b, 'r, 'w) chain_ops \<Rightarrow> uint32 \<Rightarrow> bool \<Rightarrow> 't transaction_message \<Rightarrow> nat" where
  "tx_size io ch version witness m = (case transaction_ptr m of None \<Rightarrow> 0 | Some tx \<Rightarrow> transaction_size ch witness tx)"

definition cache_tx_hashes :: "('h, 't, 'b, 'r, 'w) chain_ops \<Rightarrow> bytes \<Rightarrow> 't \<Rightarrow> 't" where
  "cache_tx_hashes ch data tx =
    (if is_segregated ch tx then
       let true_size = transaction_size ch True tx;
           false_size = transaction_size ch False tx
       in set_nominal_hash ch (desegregated_hash ch true_size false_size data)
            (set_witness_hash ch (bitcoin_hash ch (take true_size data)) tx)
     else
       let false_size = transaction_size ch False tx
       in set_nominal_hash ch (bitcoin_hash ch (take false_size data)) tx)"

definition tx_from_data :: "('r, 'w) wire \<Rightarrow> ('h, 't, 'b, 'r, 'w) chain_ops \<Rightarrow> uint32 \<Rightarrow> bool \<Rightarrow> bytes \<Rightarrow> 't transaction_message option" where
  "tx_from_data io ch version witness data =
    (case from_data io (tx_deserialize io ch version witness) data of
       None \<Rightarrow> None
     | Some m \<Rightarrow> Some (m\<lparr>transaction_ptr := map_option (cache_tx_hashes ch data) (transaction_ptr m)\<rparr>))"

definition tx_to_data :: "('r, 'w) wire \<Rightarrow> ('h, 't, 'b, 'r, 'w) chain_ops \<Rightarrow> uint32 \<Rightarrow> bool \<Rightarrow> 't transaction_message \<Rightarrow> nat \<Rightarrow> bytes option" where
  "tx_to_data io ch version witness m slab = to_slab io (tx_serialize io ch version witness m) slab"

record 'b block_message =
  message_block :: 'b

definition block_deserialize :: "('r, 'w) wire \<Rightarrow> ('h, 't, 'b, 'r, 'w) chain_ops \<Rightarrow> uint32 \<Rightarrow> bool \<Rightarrow>
    ('r, 'b block_message) state" where
  "block_deserialize io ch version witness =
    (if version < minimum_protocol \<or> maximum_protocol < version
     then do { invalidate io; State_Monad.return \<lparr>message_block = block_view ch [] witness\<rparr> }
     else do {
       data \<leftarrow> read_all_bytes io;
       invalidate_if io (\<not> block_is_valid ch (block_view ch data witness));
       State_Monad.return \<lparr>message_block = block_view ch data witness\<rparr> })"

definition block_serialize :: "('r, 'w) wire \<Rightarrow> ('h, 't, 'b, 'r, 'w) chain_ops \<Rightarrow> uint32 \<Rightarrow> bool \<Rightarrow>
    'b block_message \<Rightarrow> ('w, unit) state" where
  "block_serialize io ch version witness m = write_bytes io (block_to_data ch witness (message_block m))"

definition block_size :: "('r, 'w) wire \<Rightarrow> ('h, 't, 'b, 'r, 'w) chain_ops \<Rightarrow> uint32 \<Rightarrow> bool \<Rightarrow>
    'b block_message \<Rightarrow> nat" where
  "block_size io ch version witness m =
    (if block_is_valid ch (message_block m) then block_serialized_size ch witness (message_block m) else 0)"

definition block_from_data :: "('h, 't, 'b, 'r, 'w) chain_ops \<Rightarrow> uint32 \<Rightarrow> bool \<Rightarrow> bytes \<Rightarrow>
    'b block_message option" where
  "block_from_data ch version witness data =
    (if version < minimum_protocol \<or> maximum_protocol < version then None
     else if block_is_valid ch (block_view ch data witness) then Some \<lparr>message_block = block_view ch data witness\<rparr>
     else None)"

definition block_to_data_slab :: "('r, 'w) wire \<Rightarrow> ('h, 't, 'b, 'r, 'w) chain_ops \<Rightarrow> uint32 \<Rightarrow> bool \<Rightarrow>
    'b block_message \<Rightarrow> nat \<Rightarrow> bytes option" where
  "block_to_data_slab io ch version witness m slab = to_slab io (block_serialize io ch version witness m) slab"


section \<open>Wire formats\<close>

definition client_filter_bytes :: "('h, 't, 'b) chain_format \<Rightarrow> uint32 \<Rightarrow> client_filter \<Rightarrow> bytes" where
  "client_filter_bytes fmt version m = [cf_filter_type m] @ cf_block_hash m @ size_bytes (length (cf_filter m)) @ cf_filter m"

definition client_filter_wf :: "('h, 't, 'b) chain_format \<Rightarrow> uint32 \<Rightarrow> client_filter \<Rightarrow> bool" where
  "client_filter_wf fmt version m \<longleftrightarrow> bip157 \<le> version \<and> version \<le> maximum_protocol \<and> length (cf_block_hash m) = hash_size \<and> length (cf_filter m) \<le> max_block_size (format_limits fmt)"

definition client_filter_checkpoint_bytes :: "('h, 't, 'b) chain_format \<Rightarrow> uint32 \<Rightarrow> client_filter_checkpoint \<Rightarrow> bytes" where
  "client_filter_checkpoint_bytes fmt version m = [cfc_filter_type m] @ cfc_stop_hash m @ size_bytes (length (cfc_headers m)) @
     concat (map (\<lambda>h. h) (cfc_headers m))"

definition client_filter_checkpoint_wf :: "('h, 't, 'b) chain_format \<Rightarrow> uint32 \<Rightarrow> client_filter_checkpoint \<Rightarrow> bool" where
  "client_filter_checkpoint_wf fmt version m \<longleftrightarrow> bip157 \<le> version \<and> version \<le> maximum_protocol \<and> length (cfc_stop_hash m) = hash_size \<and> list_all (\<lambda>h. length h = hash_size) (cfc_headers m) \<and> length (cfc_headers m) \<le> max_payload (format_limits fmt) div hash_size"

definition get_compact_transactions_bytes :: "('h, 't, 'b) chain_format \<Rightarrow> uint32 \<Rightarrow> get_compact_transactions \<Rightarrow> bytes" where
  "get_compact_transactions_bytes fmt version m = gct_block_hash m @ size_bytes (length (gct_indexes m)) @ concat (map variable_bytes (gct_indexes m))"

definition get_compact_transactions_wf :: "('h, 't, 'b) chain_format \<Rightarrow> uint32 \<Rightarrow> get_compact_transactions \<Rightarrow> bool" where
  "get_compact_transactions_wf fmt version m \<longleftrightarrow> bip152 \<le> version \<and> version \<le> maximum_protocol \<and> length (gct_block_hash m) = hash_size \<and> length (gct_indexes m) \<le> max_block_transactions (format_limits fmt)"

definition merkle_block_bytes :: "('h, 't, 'b) chain_format \<Rightarrow> uint32 \<Rightarrow> 'h merkle_block \<Rightarrow> bytes" where
  "merkle_block_bytes fmt version m = (case mb_header m of None \<Rightarrow> [] | Some header \<Rightarrow> header_bytes fmt header) @ le_bytes 4 (mb_transactions m) @
     size_bytes (length (mb_hashes m)) @ concat (map (\<lambda>h. h) (mb_hashes m)) @
     size_bytes (length (mb_flags m)) @ mb_flags m"

definition merkle_block_wf :: "('h, 't, 'b) chain_format \<Rightarrow> uint32 \<Rightarrow> 'h merkle_block \<Rightarrow> bool" where
  "merkle_block_wf fmt version m \<longleftrightarrow> (case mb_header m of None \<Rightarrow> False | Some header \<Rightarrow> header_ok fmt header) \<and> list_all (\<lambda>h. length h = hash_size) (mb_hashes m) \<and> length (mb_hashes m) \<le> max_block_transactions (format_limits fmt) \<and> length (mb_flags m) \<le> max_block_size (format_limits fmt)"

definition headers_bytes :: "('h, 't, 'b) chain_format \<Rightarrow> uint32 \<Rightarrow> 'h headers \<Rightarrow> bytes" where
  "headers_bytes fmt version m = size_bytes (length (header_ptrs m)) @ concat (map (\<lambda>h. header_bytes fmt h @ [trail]) (header_ptrs m))"

definition headers_wf :: "('h, 't, 'b) chain_format \<Rightarrow> uint32 \<Rightarrow> 'h headers \<Rightarrow> bool" where
  "headers_wf fmt version m \<longleftrightarrow> headers_protocol \<le> version \<and> version \<le> maximum_protocol \<and> list_all (header_ok fmt) (header_ptrs m) \<and> length (header_ptrs m) \<le> max_get_headers"

definition compact_block_item_bytes :: "('h, 't, 'b) chain_format \<Rightarrow> uint32 \<Rightarrow> bool \<Rightarrow> 't compact_block_item \<Rightarrow> bytes" where
  "compact_block_item_bytes fmt version witness m = variable_bytes (cbi_index m) @
     (case cbi_transaction m of None \<Rightarrow> [] | Some tx \<Rightarrow> transaction_bytes fmt witness tx)"

definition compact_block_item_wf :: "('h, 't, 'b) chain_format \<Rightarrow> uint32 \<Rightarrow> bool \<Rightarrow> 't compact_block_item \<Rightarrow> bool" where
  "compact_block_item_wf fmt version witness m \<longleftrightarrow> (case cbi_transaction m of None \<Rightarrow> False | Some tx \<Rightarrow> transaction_ok fmt witness tx)"

definition compact_block_bytes :: "('h, 't, 'b) chain_format \<Rightarrow> uint32 \<Rightarrow> bool \<Rightarrow> ('h, 't) compact_block \<Rightarrow> bytes" where
  "compact_block_bytes fmt version witness m = header_bytes fmt (cb_header m) @ le_bytes 8 (cb_nonce m) @ size_bytes (length (cb_short_ids m)) @
     concat (map (\<lambda>h. h) (cb_short_ids m)) @ size_bytes (length (cb_transactions m)) @
     concat (map (compact_block_item_bytes fmt version witness) (cb_transactions m))"

definition compact_block_wf :: "('h, 't, 'b) chain_format \<Rightarrow> uint32 \<Rightarrow> bool \<Rightarrow> ('h, 't) compact_block \<Rightarrow> bool" where
  "compact_block_wf fmt version witness m \<longleftrightarrow> bip152 \<le> version \<and> version \<le> maximum_protocol \<and> header_ok fmt (cb_header m) \<and> list_all (\<lambda>h. length h = mini_hash_size) (cb_short_ids m) \<and> length (cb_short_ids m) \<le> max_block_transactions (format_limits fmt) \<and> length (cb_transactions m) \<le> max_block_transactions (format_limits fmt) \<and> list_all (compact_block_item_wf fmt version witness) (cb_transactions m)"

definition compact_transactions_bytes :: "('h, 't, 'b) chain_format \<Rightarrow> uint32 \<Rightarrow> bool \<Rightarrow> 't compact_transactions \<Rightarrow> bytes" where
  "compact_transactions_bytes fmt version witness m = ct_block_hash m @ size_bytes (length (ct_transactions m)) @
     concat (map (transaction_bytes fmt witness) (ct_transactions m))"

definition compact_transactions_wf :: "('h, 't, 'b) chain_format \<Rightarrow> uint32 \<Rightarrow> bool \<Rightarrow> 't compact_transactions \<Rightarrow> bool" where
  "compact_transactions_wf fmt version witness m \<longleftrightarrow> bip152 \<le> version \<and> version \<le> maximum_protocol \<and> length (ct_block_hash m) = hash_size \<and> length (ct_transactions m) \<le> max_block_transactions (format_limits fmt) \<and> list_all (transaction_ok fmt witness) (ct_transactions m)"

definition tx_bytes :: "('h, 't, 'b) chain_format \<Rightarrow> uint32 \<Rightarrow> bool \<Rightarrow> 't transaction_message \<Rightarrow> bytes" where
  "tx_bytes fmt version witness m = (case transaction_ptr m of None \<Rightarrow> [] | Some tx \<Rightarrow> transaction_bytes fmt witness tx)"

definition tx_wf :: "('h, 't, 'b) chain_format \<Rightarrow> uint32 \<Rightarrow> bool \<Rightarrow> 't transaction_message \<Rightarrow> bool" where
  "tx_wf fmt version witness m \<longleftrightarrow> minimum_protocol \<le> version \<and> version \<le> maximum_protocol \<and> (case transaction_ptr m of None \<Rightarrow> False | Some tx \<Rightarrow> transaction_ok fmt witness tx)"

text \<open>The objects of a message as the byte span overloads return them, with their hashes cached.\<close>

definition received_header :: "('h, 't, 'b, 'r, 'w) chain_ops \<Rightarrow> ('h, 't, 'b) chain_format \<Rightarrow> 'h \<Rightarrow> 'h" where
  "received_header ch fmt h = set_header_hash ch (bitcoin_hash ch (header_bytes fmt h)) h"

definition received_tx :: "('h, 't, 'b, 'r, 'w) chain_ops \<Rightarrow> ('h, 't, 'b) chain_format \<Rightarrow> 't \<Rightarrow> 't" where
  "received_tx ch fmt t =
    (if is_segregated ch t
     then set_nominal_hash ch (desegregated_hash ch (transaction_size ch True t) (transaction_size ch False t)
       (transaction_bytes fmt True t)) (set_witness_hash ch (bitcoin_hash ch (transaction_bytes fmt True t)) t)
     else set_nominal_hash ch (bitcoin_hash ch (transaction_bytes fmt True t)) t)"

section \<open>The codecs implement the formats\<close>

locale chain_wire = byte_wire io rview wview
  for io :: "('r, 'w) wire" and rview and wview +
  fixes ch :: "('h, 't, 'b, 'r, 'w) chain_ops"
    and fmt :: "('h, 't, 'b) chain_format"
  assumes limits_law: "chain_limits ch = format_limits fmt"
    and limits_small: "max_block_size (format_limits fmt) < 2 ^ 64" "max_block_weight (format_limits fmt) < 2 ^ 64"
    and header_read_law: "header_ok fmt h \<Longrightarrow> decodes rview (read_header ch) h (header_bytes fmt h)"
    and header_write_law: "encodes wview (write_header ch h) (header_bytes fmt h)"
    and header_size_law: "header_ok fmt h \<Longrightarrow> length (header_bytes fmt h) = header_size ch"
    and transaction_read_law: "transaction_ok fmt witness t \<Longrightarrow>
      decodes rview (read_transaction ch witness) t (transaction_bytes fmt witness t)"
    and transaction_write_law: "encodes wview (write_transaction ch witness t) (transaction_bytes fmt witness t)"
    and transaction_size_law: "transaction_ok fmt witness t \<Longrightarrow>
      length (transaction_bytes fmt witness t) = transaction_size ch witness t"
    and chain_strict: "strict rview (read_header ch)" "strict rview (read_transaction ch witness)"
    and block_law: "block_ok fmt witness b \<Longrightarrow> block_view ch (block_bytes fmt witness b) witness = b \<and>
      block_is_valid ch b \<and> block_to_data ch witness b = block_bytes fmt witness b \<and>
      block_serialized_size ch witness b = length (block_bytes fmt witness b)"
    and size_variable_law: "size_variable ch (hd (variable_bytes x8)) = length (variable_bytes x8)"
    and unsegregated_law: "transaction_ok fmt True t \<Longrightarrow> \<not> is_segregated ch t \<Longrightarrow>
      transaction_size ch False t = transaction_size ch True t"
    and transaction_hash_law: "transaction_ok fmt True t \<Longrightarrow> \<not> is_segregated ch t \<Longrightarrow>
      transaction_hash ch False t = bitcoin_hash ch (transaction_bytes fmt True t)"
    and hash_size_law: "length (bitcoin_hash ch bs) = hash_size"
begin

lemmas chain_read_rules = header_read_law transaction_read_law
lemmas chain_write_rules = header_write_law transaction_write_law

lemma div_small: "max_block_transactions (format_limits fmt) < 2 ^ 64" "max_payload (format_limits fmt) div n < 2 ^ 64"
  unfolding max_block_transactions_def max_payload_def
  by (rule le_less_trans [OF div_le_dividend limits_small(1)], rule le_less_trans [OF div_le_dividend limits_small(2)])

lemmas small = limits_small [simplified] div_small [simplified]

lemma variable_size_fun: "variable_size io = (\<lambda>x. length (variable_bytes x))"
  by (rule ext) (rule variable_size_law)

lemma read_index_decodes: "decodes rview (read_index io) x (variable_bytes x)"
proof -
  have "unat x < 2 ^ 64" using unsigned_less [of x] by simp
  then have "decodes rview (read_size io (2 ^ 64 - 1)) (unat x) (size_bytes (unat x))"
    by (intro size_law) simp_all
  from decodes_finish [OF this, of "\<lambda>n. State_Monad.return (of_nat n)" x]
  show ?thesis by (simp add: read_index_def)
qed

lemma read_index_strict: "strict rview (read_index io)"
  unfolding read_index_def by (intro strict_rules read_strict)

lemma read_trailed_decodes:
  assumes "header_ok fmt h"
  shows "decodes rview (read_trailed_header io ch) h (header_bytes fmt h @ [trail])"
  unfolding read_trailed_header_def
  by (rule decodes_bind [OF header_read_law [OF assms]], rule decodes_finish [OF byte_law])
    (simp add: invalidate_if_def)

lemma read_trailed_strict: "strict rview (read_trailed_header io ch)"
  unfolding read_trailed_header_def by (intro strict_rules read_strict chain_strict)

lemma encodes_option:
  "(\<And>y. x = Some y \<Longrightarrow> encodes wview (f y) (g y)) \<Longrightarrow>
   encodes wview (case x of None \<Rightarrow> State_Monad.return () | Some y \<Rightarrow> f y) (case x of None \<Rightarrow> [] | Some y \<Rightarrow> g y)"
  by (cases x) (simp_all add: encodes_return)

lemma headers_concat: "list_all (header_ok fmt) hs \<Longrightarrow>
    length (concat (map (\<lambda>h. header_bytes fmt h @ [trail]) hs)) = length hs * (header_size ch + 1)"
  by (induction hs) (simp_all add: header_size_law)

lemma transactions_length: "list_all (transaction_ok fmt witness) ts \<Longrightarrow>
    sum_list (map (transaction_size ch witness) ts) = length (concat (map (transaction_bytes fmt witness) ts))"
  by (induction ts) (simp_all add: transaction_size_law)

lemma concat_minis: "list_all (\<lambda>h. length h = mini_hash_size) xs \<Longrightarrow> length (concat xs) = 6 * length xs"
  by (induction xs) (simp_all add: mini_hash_size_def)

lemma client_filter_encodes:
  "encodes wview (client_filter_serialize io ch version m) (client_filter_bytes fmt version m)"
  unfolding client_filter_serialize_def client_filter_bytes_def by (intro encode_rules write_law)

lemma client_filter_decodes:
  assumes "client_filter_wf fmt version m"
  shows "decodes rview (client_filter_deserialize io ch version) m (client_filter_bytes fmt version m)"
  unfolding client_filter_deserialize_def client_filter_bytes_def
  by (rule decode_rules decodes_items decodes_items_valid read_rules chain_read_rules  |
      simp add: assms [unfolded client_filter_wf_def limits] limits guards limits_law small)+

lemma client_filter_length:
  assumes "client_filter_wf fmt version m"
  shows "client_filter_size io ch version m = length (client_filter_bytes fmt version m)"
  using assms by (simp add: client_filter_size_def client_filter_bytes_def client_filter_wf_def lengths)

lemma client_filter_unsupported:
  assumes "version < bip157 \<or> maximum_protocol < version"
  shows "from_data io (client_filter_deserialize io ch version) data = None"
  unfolding client_filter_deserialize_def
  by (rule from_data_invalid, rule invalid_start [OF assms]) (intro strict_rules read_strict )

lemma client_filter_checkpoint_encodes:
  "encodes wview (client_filter_checkpoint_serialize io ch version m) (client_filter_checkpoint_bytes fmt version m)"
  unfolding client_filter_checkpoint_serialize_def client_filter_checkpoint_bytes_def by (intro encode_rules write_law)

lemma client_filter_checkpoint_decodes:
  assumes "client_filter_checkpoint_wf fmt version m"
  shows "decodes rview (client_filter_checkpoint_deserialize io ch version) m (client_filter_checkpoint_bytes fmt version m)"
  unfolding client_filter_checkpoint_deserialize_def client_filter_checkpoint_bytes_def
  by (rule decode_rules decodes_items decodes_items_valid read_rules chain_read_rules  |
      simp add: assms [unfolded client_filter_checkpoint_wf_def limits] limits guards limits_law small)+

lemma client_filter_checkpoint_length:
  assumes "client_filter_checkpoint_wf fmt version m"
  shows "client_filter_checkpoint_size io ch version m = length (client_filter_checkpoint_bytes fmt version m)"
  using assms by (simp add: client_filter_checkpoint_size_def client_filter_checkpoint_bytes_def client_filter_checkpoint_wf_def lengths)

lemma client_filter_checkpoint_unsupported:
  assumes "version < bip157 \<or> maximum_protocol < version"
  shows "from_data io (client_filter_checkpoint_deserialize io ch version) data = None"
  unfolding client_filter_checkpoint_deserialize_def
  by (rule from_data_invalid, rule invalid_start [OF assms]) (intro strict_rules read_strict )

lemma get_compact_transactions_encodes:
  "encodes wview (get_compact_transactions_serialize io ch version m) (get_compact_transactions_bytes fmt version m)"
  unfolding get_compact_transactions_serialize_def get_compact_transactions_bytes_def by (intro encode_rules write_law)

lemma get_compact_transactions_decodes:
  assumes "get_compact_transactions_wf fmt version m"
  shows "decodes rview (get_compact_transactions_deserialize io ch version) m (get_compact_transactions_bytes fmt version m)"
  unfolding get_compact_transactions_deserialize_def get_compact_transactions_bytes_def
  by (rule decode_rules decodes_items decodes_items_valid read_rules chain_read_rules read_index_decodes |
      simp add: assms [unfolded get_compact_transactions_wf_def limits] limits guards limits_law small)+

lemma get_compact_transactions_length:
  assumes "get_compact_transactions_wf fmt version m"
  shows "get_compact_transactions_size io ch version m = length (get_compact_transactions_bytes fmt version m)"
  using assms by (simp add: get_compact_transactions_size_def get_compact_transactions_bytes_def
      get_compact_transactions_wf_def variable_size_fun length_concat comp_def)

lemma get_compact_transactions_unsupported:
  assumes "version < bip152 \<or> maximum_protocol < version"
  shows "from_data io (get_compact_transactions_deserialize io ch version) data = None"
  unfolding get_compact_transactions_deserialize_def
  by (rule from_data_invalid, rule invalid_start [OF assms]) (intro strict_rules read_strict read_index_strict)

lemma merkle_block_encodes:
  "encodes wview (merkle_block_serialize io ch version m) (merkle_block_bytes fmt version m)"
  unfolding merkle_block_serialize_def merkle_block_bytes_def by (intro encode_rules write_law chain_write_rules encodes_option)

lemma merkle_block_decodes:
  assumes "merkle_block_wf fmt version m"
  shows "decodes rview (merkle_block_deserialize io ch version) m (merkle_block_bytes fmt version m)"
  proof -
  obtain h where h: "mb_header m = Some h" "header_ok fmt h"
    using assms by (auto simp: merkle_block_wf_def split: option.splits)
  note wf = assms [unfolded merkle_block_wf_def limits, simplified h option.case]
  show ?thesis
    unfolding merkle_block_deserialize_def merkle_block_bytes_def h option.case
    by (rule decode_rules decodes_items_valid read_rules chain_read_rules |
        simp add: wf h limits limits_law small)+
qed

lemma merkle_block_length:
  assumes "merkle_block_wf fmt version m"
  shows "merkle_block_size io ch version m = length (merkle_block_bytes fmt version m)"
  using assms by (auto simp: merkle_block_size_def merkle_block_bytes_def merkle_block_wf_def lengths header_size_law
      split: option.splits)

lemma merkle_block_strict: "strict rview (merkle_block_deserialize io ch version)"
  unfolding merkle_block_deserialize_def by (intro strict_rules read_strict chain_strict)

lemma headers_encodes:
  "encodes wview (headers_serialize io ch version m) (headers_bytes fmt version m)"
  unfolding headers_serialize_def headers_bytes_def by (intro encode_rules write_law chain_write_rules )

lemma headers_decodes:
  assumes "headers_wf fmt version m"
  shows "decodes rview (headers_deserialize io ch version) m (headers_bytes fmt version m)"
  unfolding headers_deserialize_def headers_bytes_def
  by (rule decode_rules decodes_items read_rules read_trailed_decodes |
      simp add: assms [unfolded headers_wf_def limits max_get_headers_def] limits max_get_headers_def guards)+

lemma headers_length:
  assumes "headers_wf fmt version m"
  shows "headers_size io ch version m = length (headers_bytes fmt version m)"
  using assms by (simp add: headers_size_def headers_bytes_def headers_wf_def variable_size_law headers_concat)

lemma headers_unsupported:
  assumes "version < headers_protocol \<or> maximum_protocol < version"
  shows "from_data io (headers_deserialize io ch version) data = None"
  unfolding headers_deserialize_def
  by (rule from_data_invalid, rule invalid_start [OF assms]) (intro strict_rules read_strict read_trailed_strict)

lemma compact_block_item_encodes:
  "encodes wview (compact_block_item_serialize io ch version witness m) (compact_block_item_bytes fmt version witness m)"
  unfolding compact_block_item_serialize_def compact_block_item_bytes_def by (intro encode_rules write_law chain_write_rules encodes_option)

lemma compact_block_item_decodes:
  assumes "compact_block_item_wf fmt version witness m"
  shows "decodes rview (compact_block_item_deserialize io ch version witness) m (compact_block_item_bytes fmt version witness m)"
  proof -
  obtain t where t: "cbi_transaction m = Some t" "transaction_ok fmt witness t"
    using assms by (auto simp: compact_block_item_wf_def split: option.splits)
  show ?thesis
    unfolding compact_block_item_deserialize_def compact_block_item_bytes_def t option.case
    by (rule decode_rules read_rules chain_read_rules | simp add: t)+
qed

lemma compact_block_item_length:
  assumes "compact_block_item_wf fmt version witness m"
  shows "compact_block_item_size io ch version witness m = length (compact_block_item_bytes fmt version witness m)"
  using assms by (auto simp: compact_block_item_size_def compact_block_item_bytes_def compact_block_item_wf_def
      variable_size_law transaction_size_law split: option.splits)

lemma compact_block_item_strict: "strict rview (compact_block_item_deserialize io ch version witness)"
  unfolding compact_block_item_deserialize_def by (intro strict_rules read_strict chain_strict)

lemma compact_items_length: "list_all (compact_block_item_wf fmt version witness) ts \<Longrightarrow>
    sum_list (map (compact_block_item_size io ch version witness) ts) =
    length (concat (map (compact_block_item_bytes fmt version witness) ts))"
  by (induction ts) (simp_all add: compact_block_item_length)

lemma compact_block_encodes:
  "encodes wview (compact_block_serialize io ch version witness m) (compact_block_bytes fmt version witness m)"
  unfolding compact_block_serialize_def compact_block_bytes_def by (intro encode_rules write_law chain_write_rules compact_block_item_encodes)

lemma compact_block_decodes:
  assumes "compact_block_wf fmt version witness m"
  shows "decodes rview (compact_block_deserialize io ch version witness) m (compact_block_bytes fmt version witness m)"
  unfolding compact_block_deserialize_def compact_block_bytes_def
  by (rule decode_rules decodes_items decodes_items_valid read_rules chain_read_rules compact_block_item_decodes |
      simp add: assms [unfolded compact_block_wf_def limits] limits guards limits_law small)+

lemma compact_block_length:
  assumes "compact_block_wf fmt version witness m"
  shows "compact_block_size io ch version witness m = length (compact_block_bytes fmt version witness m)"
  using assms compact_items_length [of version witness "cb_transactions m"]
  by (simp add: compact_block_size_def compact_block_bytes_def compact_block_wf_def lengths
      header_size_law concat_minis mini_hash_size_def)

lemma compact_block_unsupported:
  assumes "version < bip152 \<or> maximum_protocol < version"
  shows "from_data io (compact_block_deserialize io ch version witness) data = None"
  unfolding compact_block_deserialize_def
  by (rule from_data_invalid, rule invalid_start [OF assms]) (intro strict_rules read_strict chain_strict compact_block_item_strict)

lemma compact_transactions_encodes:
  "encodes wview (compact_transactions_serialize io ch version witness m) (compact_transactions_bytes fmt version witness m)"
  unfolding compact_transactions_serialize_def compact_transactions_bytes_def by (intro encode_rules write_law chain_write_rules )

lemma compact_transactions_decodes:
  assumes "compact_transactions_wf fmt version witness m"
  shows "decodes rview (compact_transactions_deserialize io ch version witness) m (compact_transactions_bytes fmt version witness m)"
  unfolding compact_transactions_deserialize_def compact_transactions_bytes_def
  by (rule decode_rules decodes_items decodes_items_valid read_rules chain_read_rules  |
      simp add: assms [unfolded compact_transactions_wf_def limits] limits guards limits_law small)+

lemma compact_transactions_length:
  assumes "compact_transactions_wf fmt version witness m"
  shows "compact_transactions_size io ch version witness m = length (compact_transactions_bytes fmt version witness m)"
  using assms transactions_length [of witness "ct_transactions m"]
  by (simp add: compact_transactions_size_def compact_transactions_bytes_def compact_transactions_wf_def lengths)

lemma compact_transactions_unsupported:
  assumes "version < bip152 \<or> maximum_protocol < version"
  shows "from_data io (compact_transactions_deserialize io ch version witness) data = None"
  unfolding compact_transactions_deserialize_def
  by (rule from_data_invalid, rule invalid_start [OF assms]) (intro strict_rules read_strict chain_strict)

lemma tx_encodes:
  "encodes wview (tx_serialize io ch version witness m) (tx_bytes fmt version witness m)"
  unfolding tx_serialize_def tx_bytes_def by (intro encode_rules write_law chain_write_rules encodes_option)

lemma tx_decodes:
  assumes "tx_wf fmt version witness m"
  shows "decodes rview (tx_deserialize io ch version witness) m (tx_bytes fmt version witness m)"
  proof -
  obtain t where t: "transaction_ptr m = Some t" "transaction_ok fmt witness t"
    using assms by (auto simp: tx_wf_def split: option.splits)
  show ?thesis
    unfolding tx_deserialize_def tx_bytes_def t option.case
    by (rule decode_rules chain_read_rules | simp add: t assms [unfolded tx_wf_def] guards)+
qed

lemma tx_length:
  assumes "tx_wf fmt version witness m"
  shows "tx_size io ch version witness m = length (tx_bytes fmt version witness m)"
  using assms by (auto simp: tx_size_def tx_bytes_def tx_wf_def transaction_size_law split: option.splits)

lemma tx_unsupported:
  assumes "version < minimum_protocol \<or> maximum_protocol < version"
  shows "from_data io (tx_deserialize io ch version witness) data = None"
  unfolding tx_deserialize_def
  by (rule from_data_invalid, rule invalid_start [OF assms]) (intro strict_rules read_strict chain_strict)

text \<open>A block is the rest of the data.\<close>

lemma block_encodes:
  "block_ok fmt witness (message_block m) \<Longrightarrow>
   encodes wview (block_serialize io ch version witness m) (block_bytes fmt witness (message_block m))"
  unfolding block_serialize_def using block_law write_law(6) by fastforce

text \<open>The two overloads of \<open>block::deserialize\<close>, over the data and over a reader of it, agree.\<close>

lemma block_overloads: "from_data io (block_deserialize io ch version witness) data = block_from_data ch version witness data"
proof (cases "version < minimum_protocol \<or> maximum_protocol < version")
  case True
  have "rview (snd (run_state (block_deserialize io ch version witness) r)) = None" for r
    using True invalidate_law [of r]
    by (cases "run_state (invalidate io) r") (simp add: block_deserialize_def)
  from from_data_invalid [OF this] show ?thesis using True by (simp add: block_from_data_def)
next
  case False
  obtain r where r: "run_state (read_all_bytes io) (open_reader io data) = (data, r)" "rview r = Some []"
    using all_bytes_law [OF open_reader_law [of data]] by (metis prod.collapse)
  with False invalidate_law [of r] show ?thesis
    by (cases "run_state (invalidate io) r")
      (simp add: block_from_data_def from_data_def block_deserialize_def invalidate_if_def reader_valid_law)
qed

lemma block_roundtrip:
  assumes "block_ok fmt witness (message_block m)" "minimum_protocol \<le> version" "version \<le> maximum_protocol"
  shows "block_from_data ch version witness (block_bytes fmt witness (message_block m)) = Some m"
  using assms block_law [OF assms(1)] by (simp add: block_from_data_def not_less [symmetric])

lemma block_length:
  "block_ok fmt witness (message_block m) \<Longrightarrow>
   block_size io ch version witness m = length (block_bytes fmt witness (message_block m))"
  using block_law by (simp add: block_size_def)

lemma block_unsupported:
  "version < minimum_protocol \<or> maximum_protocol < version \<Longrightarrow> block_from_data ch version witness data = None"
  by (simp add: block_from_data_def)

text \<open>Each header caches the hash of its own bytes, a transaction the hashes of its serializations.\<close>

lemma cache_hashes_own:
  "list_all (header_ok fmt) hs \<Longrightarrow>
   cache_hashes ch (concat (map (\<lambda>h. header_bytes fmt h @ [trail]) hs) @ rest) hs =
   map (received_header ch fmt) hs"
  by (induction hs) (simp_all add: header_size_law received_header_def)

lemma variable_bytes_hd: "hd (variable_bytes v @ bs) = hd (variable_bytes v)"
  by (simp add: variable_bytes_def)

lemma headers_cached:
  assumes "headers_wf fmt version m"
  shows "headers_from_data io ch version (headers_bytes fmt version m @ rest) =
    Some (m\<lparr>header_ptrs := map (received_header ch fmt) (header_ptrs m)\<rparr>)"
proof -
  have "list_all (header_ok fmt) (header_ptrs m)" using assms by (simp add: headers_wf_def)
  moreover have "size_variable ch (hd (headers_bytes fmt version m @ rest)) = length (size_bytes (length (header_ptrs m)))"
    by (simp add: headers_bytes_def variable_bytes_hd size_variable_law)
  ultimately show ?thesis
    using from_data_decodes [OF headers_decodes [OF assms], of rest]
    by (simp add: headers_from_data_def headers_bytes_def cache_hashes_own)
qed

lemma tx_cached:
  assumes "tx_wf fmt version True m"
  shows "tx_from_data io ch version True (tx_bytes fmt version True m) =
    Some (m\<lparr>transaction_ptr := map_option (received_tx ch fmt) (transaction_ptr m)\<rparr>)"
proof -
  obtain t where t: "transaction_ptr m = Some t" "transaction_ok fmt True t"
    using assms by (auto simp: tx_wf_def split: option.splits)
  have "from_data io (tx_deserialize io ch version True) (tx_bytes fmt version True m) = Some m"
    using from_data_decodes [OF tx_decodes [OF assms], of "[]"] by simp
  then show ?thesis
    using t transaction_size_law [OF t(2)] unsegregated_law [OF t(2)]
    by (simp add: tx_from_data_def tx_bytes_def cache_tx_hashes_def received_tx_def)
qed

end

section \<open>A chain in memory\<close>

text \<open>
  Headers of eighty bytes and transactions with an optional witness, each with its cached hashes,
  over the memory reader and writer.
\<close>

record mem_header =
  mem_header_data :: bytes
  mem_header_hash :: "hash_digest option"

record mem_tx =
  mem_tx_body :: bytes
  mem_tx_witness :: bytes
  mem_tx_nominal :: "hash_digest option"
  mem_tx_full :: "hash_digest option"

definition mem_tx_bytes :: "bool \<Rightarrow> mem_tx \<Rightarrow> bytes" where
  "mem_tx_bytes witness t =
    (let w = (if witness then mem_tx_witness t else [])
     in le_bytes 4 (of_nat (length (mem_tx_body t)) :: uint32) @ mem_tx_body t @
        le_bytes 4 (of_nat (length w) :: uint32) @ w)"

definition mem_tx_ok :: "bool \<Rightarrow> mem_tx \<Rightarrow> bool" where
  "mem_tx_ok witness t \<longleftrightarrow> length (mem_tx_body t) < 2 ^ 32 \<and> length (mem_tx_witness t) < 2 ^ 32 \<and>
     (witness \<or> mem_tx_witness t = []) \<and> mem_tx_nominal t = None \<and> mem_tx_full t = None"

definition mem_header_ok :: "mem_header \<Rightarrow> bool" where
  "mem_header_ok h \<longleftrightarrow> length (mem_header_data h) = 80 \<and> mem_header_hash h = None"

definition mem_hash :: "bytes \<Rightarrow> hash_digest" where
  "mem_hash bs = take hash_size (bs @ replicate hash_size 0)"

definition mem_chunk :: "(mem_reader, bytes) state" where
  "mem_chunk = do { n \<leftarrow> mem_read 4 le_value; mem_take (unat (n :: uint32)) }"

definition mem_limits :: limits where
  "mem_limits = \<lparr>max_block_size = 1000000, min_transaction_size = 61, max_block_weight = 4000000\<rparr>"

definition memory_chain ::
    "(mem_header, mem_tx, bytes, mem_reader, (bytes \<times> nat) option) chain_ops" where
  "memory_chain = \<lparr>
     chain_limits = mem_limits,
     read_header = mem_read 80 (\<lambda>bs. \<lparr>mem_header_data = bs, mem_header_hash = None\<rparr>),
     write_header = \<lambda>h. mem_write (mem_header_data h),
     header_size = 80,
     read_transaction = \<lambda>_. do {
       body \<leftarrow> mem_chunk;
       w \<leftarrow> mem_chunk;
       State_Monad.return \<lparr>mem_tx_body = body, mem_tx_witness = w, mem_tx_nominal = None, mem_tx_full = None\<rparr> },
     write_transaction = \<lambda>witness t. mem_write (mem_tx_bytes witness t),
     transaction_size = \<lambda>witness t. length (mem_tx_bytes witness t),
     block_view = \<lambda>data witness. data,
     block_is_valid = \<lambda>b. b \<noteq> [],
     block_to_data = \<lambda>witness b. b,
     block_serialized_size = \<lambda>witness b. length b,
     bitcoin_hash = mem_hash,
     size_variable = \<lambda>b. if b < 0xfd then 1 else if b = 0xfd then 3 else if b = 0xfe then 5 else 9,
     set_header_hash = \<lambda>x h. h\<lparr>mem_header_hash := Some x\<rparr>,
     is_segregated = \<lambda>t. mem_tx_witness t \<noteq> [],
     set_witness_hash = \<lambda>x t. t\<lparr>mem_tx_full := Some x\<rparr>,
     set_nominal_hash = \<lambda>x t. t\<lparr>mem_tx_nominal := Some x\<rparr>,
     desegregated_hash = \<lambda>n k data. mem_hash (take k data),
     transaction_hash = \<lambda>witness t. mem_hash (mem_tx_bytes witness t)\<rparr>"

definition memory_format :: "(mem_header, mem_tx, bytes) chain_format" where
  "memory_format = \<lparr>
     format_limits = mem_limits,
     header_bytes = mem_header_data,
     header_ok = mem_header_ok,
     transaction_bytes = mem_tx_bytes,
     transaction_ok = mem_tx_ok,
     block_bytes = \<lambda>witness b. b,
     block_ok = \<lambda>witness b. b \<noteq> []\<rparr>"

lemma mem_chunk_decodes:
  assumes "length bs < 2 ^ 32"
  shows "decodes mem_rview mem_chunk bs (le_bytes 4 (of_nat (length bs) :: uint32) @ bs)"
  unfolding mem_chunk_def
  by (rule decodes_bind [OF mem_read_decodes], simp, rule le_value_full, rule mem_take_decodes)
    (use assms in \<open>simp add: unsigned_of_nat take_bit_nat_eq_self\<close>)

lemma mem_chunk_strict: "strict mem_rview mem_chunk"
  unfolding mem_chunk_def by (intro strict_rules mem_read_strict mem_take_strict)

lemma mem_tx_decodes:
  assumes "mem_tx_ok witness t"
  shows "decodes mem_rview (read_transaction memory_chain witness) t (mem_tx_bytes witness t)"
proof -
  define w where "w = (if witness then mem_tx_witness t else [])"
  have "decodes mem_rview (read_transaction memory_chain witness) t
      ((le_bytes 4 (of_nat (length (mem_tx_body t)) :: uint32) @ mem_tx_body t) @
       (le_bytes 4 (of_nat (length w) :: uint32) @ w))"
    unfolding memory_chain_def chain_ops.simps
    by (rule decodes_bind [OF mem_chunk_decodes], use assms in \<open>simp add: mem_tx_ok_def\<close>,
        rule decodes_finish [OF mem_chunk_decodes])
      (use assms in \<open>auto simp: mem_tx_ok_def w_def\<close>)
  then show ?thesis by (simp add: mem_tx_bytes_def w_def Let_def)
qed

lemma mem_size_variable: "size_variable memory_chain (hd (variable_bytes v)) = length (variable_bytes v)"
proof -
  have "(ucast v :: byte) < 0xfd" if "v < 0xfd"
  proof -
    have "unat v < 253" using that by (simp add: word_less_nat_alt)
    then show ?thesis by (simp add: word_less_nat_alt unsigned_ucast_eq take_bit_nat_eq_self)
  qed
  then have "(ucast v :: byte) \<noteq> 0xfd \<and> (ucast v :: byte) < 0xfd" if "v < 0xfd" using that by auto
  then show ?thesis by (simp add: memory_chain_def variable_bytes_def)
qed

interpretation memory_chain: chain_wire memory_wire mem_rview "\<lambda>w. w" memory_chain memory_format
proof
  show "decodes mem_rview (read_transaction memory_chain witness) t (transaction_bytes memory_format witness t)"
    if "transaction_ok memory_format witness t" for witness t
    using that mem_tx_decodes by (simp add: memory_format_def)
  show "strict mem_rview (read_transaction memory_chain witness)" for witness
    unfolding memory_chain_def chain_ops.simps by (intro strict_rules mem_chunk_strict)
  show "size_variable memory_chain (hd (variable_bytes x8)) = length (variable_bytes x8)" for x8
    by (rule mem_size_variable)
qed (auto simp: memory_chain_def memory_format_def mem_limits_def mem_header_ok_def mem_read_decodes
    mem_read_strict mem_write_encodes mem_tx_bytes_def mem_hash_def)

end
