(* ===== verification/Messages_Alert.thy ===== *)
theory Messages_Alert
  imports Messages_Chain
begin

text \<open>
  The \<open>alert\<close> message and its \<open>alert_item\<close> payload (\<open>src/src/messages/peer/detail\<close>). The payload is
  read under a stream limit set from its size prefix, so the codec relies on the contract
  \<open>limit_wire\<close>: the limit hides the bytes after the payload until it is cleared.
\<close>

section \<open>Alert item\<close>

record alert_item =
  alert_version :: uint32
  relay_until :: uint64
  expiration :: uint64
  alert_id :: uint32
  alert_cancel :: uint32
  cancels :: "uint32 list"
  min_version :: uint32
  max_version :: uint32
  sub_versions :: "string list"
  alert_priority :: uint32
  alert_comment :: string
  status_bar :: string
  reserved :: string

definition max_message :: nat where "max_message = max_inventory"
definition max_messages :: nat where "max_messages = max_inventory"

definition read_cans :: "('r, 'w) wire \<Rightarrow> ('r, uint32 list) state" where
  "read_cans io = do { n \<leftarrow> read_size io max_messages; read_items n (read_4_bytes_little_endian io) }"

definition read_subs :: "('r, 'w) wire \<Rightarrow> ('r, string list) state" where
  "read_subs io = do { n \<leftarrow> read_size io max_messages; read_items n (read_string io max_message) }"

definition alert_item_deserialize :: "('r, 'w) wire \<Rightarrow> uint32 \<Rightarrow> ('r, alert_item) state" where
  "alert_item_deserialize io version = do {
     v \<leftarrow> read_4_bytes_little_endian io;
     relay \<leftarrow> read_8_bytes_little_endian io;
     expires \<leftarrow> read_8_bytes_little_endian io;
     ident \<leftarrow> read_4_bytes_little_endian io;
     cancel \<leftarrow> read_4_bytes_little_endian io;
     cans \<leftarrow> read_cans io;
     low \<leftarrow> read_4_bytes_little_endian io;
     high \<leftarrow> read_4_bytes_little_endian io;
     subs \<leftarrow> read_subs io;
     priority \<leftarrow> read_4_bytes_little_endian io;
     comment \<leftarrow> read_string io max_message;
     status \<leftarrow> read_string io max_message;
     rest \<leftarrow> read_string io max_message;
     State_Monad.return \<lparr>alert_version = v, relay_until = relay, expiration = expires, alert_id = ident,
       alert_cancel = cancel, cancels = cans, min_version = low, max_version = high, sub_versions = subs,
       alert_priority = priority, alert_comment = comment, status_bar = status, reserved = rest\<rparr> }"

definition alert_item_serialize :: "('r, 'w) wire \<Rightarrow> uint32 \<Rightarrow> alert_item \<Rightarrow> ('w, unit) state" where
  "alert_item_serialize io version m = do {
     write_4_bytes_little_endian io (alert_version m);
     write_8_bytes_little_endian io (relay_until m);
     write_8_bytes_little_endian io (expiration m);
     write_4_bytes_little_endian io (alert_id m);
     write_4_bytes_little_endian io (alert_cancel m);
     write_variable io (of_nat (length (cancels m)));
     write_items (write_4_bytes_little_endian io) (cancels m);
     write_4_bytes_little_endian io (min_version m);
     write_4_bytes_little_endian io (max_version m);
     write_variable io (of_nat (length (sub_versions m)));
     write_items (write_string io) (sub_versions m);
     write_4_bytes_little_endian io (alert_priority m);
     write_string io (alert_comment m);
     write_string io (status_bar m);
     write_string io (reserved m) }"

definition string_size :: "('r, 'w) wire \<Rightarrow> string \<Rightarrow> nat" where
  "string_size io s = variable_size io (of_nat (length s)) + length s"

definition alert_item_size :: "('r, 'w) wire \<Rightarrow> uint32 \<Rightarrow> alert_item \<Rightarrow> nat" where
  "alert_item_size io version m = 4 + 8 + 8 + 4 + 4 +
     variable_size io (of_nat (length (cancels m))) + length (cancels m) * 4 + 4 + 4 +
     variable_size io (of_nat (length (sub_versions m))) +
       foldl (\<lambda>total sub. total + variable_size io (of_nat (length sub)) + length sub) 0 (sub_versions m) +
     4 + string_size io (alert_comment m) + string_size io (status_bar m) + string_size io (reserved m)"

section \<open>Alert\<close>

record alert =
  alert_payload :: alert_item
  alert_signature :: bytes

definition alert_deserialize :: "('r, 'w) wire \<Rightarrow> limits \<Rightarrow> uint32 \<Rightarrow> ('r, alert) state" where
  "alert_deserialize io l version = do {
     invalidate_if io (version < minimum_protocol \<or> maximum_protocol < version);
     n \<leftarrow> read_size io (max_block_size l);
     set_limit io n;
     item \<leftarrow> alert_item_deserialize io minimum_protocol;
     clear_limit io;
     k \<leftarrow> read_size io (max_block_size l);
     signature \<leftarrow> read_bytes io k;
     State_Monad.return \<lparr>alert_payload = item, alert_signature = signature\<rparr> }"

definition alert_serialize :: "('r, 'w) wire \<Rightarrow> uint32 \<Rightarrow> alert \<Rightarrow> ('w, unit) state" where
  "alert_serialize io version m = do {
     write_variable io (of_nat (alert_item_size io version (alert_payload m)));
     alert_item_serialize io version (alert_payload m);
     write_variable io (of_nat (length (alert_signature m)));
     write_bytes io (alert_signature m) }"

definition alert_size :: "('r, 'w) wire \<Rightarrow> uint32 \<Rightarrow> alert \<Rightarrow> nat" where
  "alert_size io version m =
    (let signature_size = length (alert_signature m);
         payload_size = alert_item_size io version (alert_payload m)
     in variable_size io (of_nat payload_size) + payload_size +
        variable_size io (of_nat signature_size) + signature_size)"

definition alert_from_data :: "('r, 'w) wire \<Rightarrow> limits \<Rightarrow> uint32 \<Rightarrow> bytes \<Rightarrow> alert option" where
  "alert_from_data io l version data = from_data io (alert_deserialize io l version) data"

definition alert_to_data :: "('r, 'w) wire \<Rightarrow> uint32 \<Rightarrow> alert \<Rightarrow> nat \<Rightarrow> bytes option" where
  "alert_to_data io version m slab = to_slab io (alert_serialize io version m) slab"

section \<open>Wire formats\<close>

definition alert_item_bytes :: "alert_item \<Rightarrow> bytes" where
  "alert_item_bytes m = le_bytes 4 (alert_version m) @ le_bytes 8 (relay_until m) @ le_bytes 8 (expiration m) @
     le_bytes 4 (alert_id m) @ le_bytes 4 (alert_cancel m) @
     (size_bytes (length (cancels m)) @ concat (map (le_bytes 4) (cancels m))) @
     le_bytes 4 (min_version m) @ le_bytes 4 (max_version m) @
     (size_bytes (length (sub_versions m)) @ concat (map prefixed_string (sub_versions m))) @
     le_bytes 4 (alert_priority m) @ prefixed_string (alert_comment m) @ prefixed_string (status_bar m) @
     prefixed_string (reserved m)"

definition alert_item_wf :: "alert_item \<Rightarrow> bool" where
  "alert_item_wf m \<longleftrightarrow> length (cancels m) \<le> max_messages \<and> length (sub_versions m) \<le> max_messages \<and>
     list_all (\<lambda>s. length s \<le> max_message) (sub_versions m) \<and> length (alert_comment m) \<le> max_message \<and>
     length (status_bar m) \<le> max_message \<and> length (reserved m) \<le> max_message"

definition alert_bytes :: "alert \<Rightarrow> bytes" where
  "alert_bytes m = size_bytes (length (alert_item_bytes (alert_payload m))) @ alert_item_bytes (alert_payload m) @
     size_bytes (length (alert_signature m)) @ alert_signature m"

definition alert_wf :: "limits \<Rightarrow> uint32 \<Rightarrow> alert \<Rightarrow> bool" where
  "alert_wf l version m \<longleftrightarrow> minimum_protocol \<le> version \<and> version \<le> maximum_protocol \<and>
     alert_item_wf (alert_payload m) \<and> length (alert_item_bytes (alert_payload m)) \<le> max_block_size l \<and>
     length (alert_signature m) \<le> max_block_size l"

section \<open>The codecs implement the formats\<close>

context limit_wire
begin

lemmas alert_limits = max_message_def max_messages_def max_inventory_def

lemma read_cans_decodes:
  assumes "length xs \<le> max_messages"
  shows "decodes rview (read_cans io) xs (size_bytes (length xs) @ concat (map (le_bytes 4) xs))"
  unfolding read_cans_def
  by (rule decodes_bind [OF size_rule decodes_items])
    (use assms in \<open>simp_all add: alert_limits little4_law\<close>)

lemma read_subs_decodes:
  assumes "length xs \<le> max_messages" "list_all (\<lambda>s. length s \<le> max_message) xs"
  shows "decodes rview (read_subs io) xs (size_bytes (length xs) @ concat (map prefixed_string xs))"
  unfolding read_subs_def
  by (rule decodes_bind [OF size_rule decodes_items])
    (use assms in \<open>simp_all add: alert_limits string_rule list_all_iff\<close>)

lemma alert_item_decodes:
  assumes "alert_item_wf m"
  shows "decodes rview (alert_item_deserialize io version) m (alert_item_bytes m)"
proof -
  note wf = assms [unfolded alert_item_wf_def]
  show ?thesis
    unfolding alert_item_deserialize_def alert_item_bytes_def
    by (rule decodes_bind decodes_finish little4_law little8_law string_rule read_cans_decodes read_subs_decodes |
        simp add: wf wf [unfolded alert_limits] alert_limits)+
qed

lemma alert_item_frames: "frames rhidden (alert_item_deserialize io version)"
  unfolding alert_item_deserialize_def read_cans_def read_subs_def by (intro frame_rules frame_law)

lemma alert_item_strict: "strict rview (alert_item_deserialize io version)"
  unfolding alert_item_deserialize_def read_cans_def read_subs_def by (intro strict_rules read_strict)

lemma alert_item_encodes: "encodes wview (alert_item_serialize io version m) (alert_item_bytes m)"
  unfolding alert_item_serialize_def alert_item_bytes_def append_assoc by (intro encode_rules write_law)

lemma string_size_length: "string_size io s = length (prefixed_string s)"
  by (simp add: string_size_def prefixed_string_def variable_size_law)

lemma subs_size:
  "foldl (\<lambda>total sub. total + variable_size io (of_nat (length sub)) + length sub) n xs =
   n + length (concat (map prefixed_string xs))"
  unfolding variable_size_law by (induction xs arbitrary: n) (simp_all add: prefixed_string_def)

lemma alert_item_length: "alert_item_size io version m = length (alert_item_bytes m)"
proof -
  have "length (concat (map (le_bytes 4) (xs :: uint32 list))) = length xs * 4" for xs
    by (induction xs) simp_all
  then show ?thesis
    unfolding alert_item_size_def subs_size
    by (simp add: alert_item_bytes_def string_size_length variable_size_law)
qed

lemma alert_encodes: "encodes wview (alert_serialize io version m) (alert_bytes m)"
  unfolding alert_serialize_def alert_bytes_def alert_item_length
  by (intro encode_rules write_law alert_item_encodes)

lemma alert_length: "alert_size io version m = length (alert_bytes m)"
  by (simp add: alert_size_def alert_bytes_def alert_item_length variable_size_law Let_def)

lemma alert_roundtrip:
  assumes wf: "alert_wf l version m" and l: "max_block_size l < 2 ^ 64"
  shows "alert_from_data io l version (alert_bytes m @ rest) = Some m"
proof -
  let ?item = "alert_item_bytes (alert_payload m)"
  let ?tail = "size_bytes (length (alert_signature m)) @ alert_signature m"
  let ?r = "open_reader io (alert_bytes m @ rest)"
  have guard: "\<not> (version < minimum_protocol \<or> maximum_protocol < version)"
    using wf by (simp add: alert_wf_def not_less)
  define next_step where "next_step n = do { set_limit io n; item \<leftarrow> alert_item_deserialize io minimum_protocol;
     clear_limit io; k \<leftarrow> read_size io (max_block_size l); signature \<leftarrow> read_bytes io k;
     State_Monad.return \<lparr>alert_payload = item, alert_signature = signature\<rparr> }" for n
  obtain r1 where r1: "rview r1 = Some (?item @ ?tail @ rest)" "rhidden r1 = []"
    "run_state (alert_deserialize io l version) ?r = run_state (next_step (length ?item)) r1"
  proof -
    have s: "decodes rview (read_size io (max_block_size l)) (length ?item) (size_bytes (length ?item))"
      by (rule size_rule [OF _ l]) (use wf in \<open>simp add: alert_wf_def\<close>)
    obtain x r1 where r1: "run_state (read_size io (max_block_size l)) ?r = (x, r1)" by (metis surj_pair)
    moreover have "x = length ?item \<and> rview r1 = Some (?item @ ?tail @ rest)"
      using s [unfolded decodes_def, rule_format, of ?r "?item @ ?tail @ rest"] open_reader_law r1
      by (simp add: alert_bytes_def)
    moreover have "rhidden r1 = []"
      using frame_law(4) [unfolded frames_def] open_hidden_law r1 by (metis snd_conv)
    ultimately show thesis
      using that [of r1] guard by (simp add: alert_deserialize_def next_step_def invalidate_if_def)
  qed
  have item: "decodes rview (alert_item_deserialize io minimum_protocol) (alert_payload m) ?item"
    using wf by (intro alert_item_decodes) (simp add: alert_wf_def)
  obtain r2 where r2: "rview r2 = Some (?tail @ rest)"
    "run_state (next_step (length ?item)) r1 = run_state (do { k \<leftarrow> read_size io (max_block_size l);
       signature \<leftarrow> read_bytes io k;
       State_Monad.return \<lparr>alert_payload = alert_payload m, alert_signature = signature\<rparr> }) r2"
    using limited_decodes [OF item alert_item_frames r1(1,2), of "\<lambda>item. do {
       k \<leftarrow> read_size io (max_block_size l); signature \<leftarrow> read_bytes io k;
       State_Monad.return \<lparr>alert_payload = item, alert_signature = signature\<rparr> }"]
    unfolding next_step_def by blast
  have "decodes rview (do { k \<leftarrow> read_size io (max_block_size l); signature \<leftarrow> read_bytes io k;
       State_Monad.return \<lparr>alert_payload = alert_payload m, alert_signature = signature\<rparr> }) m ?tail"
    by (rule decodes_bind [OF size_rule [OF _ l]], use wf in \<open>simp add: alert_wf_def\<close>,
        rule decodes_finish [OF bytes_law]) simp_all
  then have "fst (run_state (alert_deserialize io l version) ?r) = m \<and>
      rview (snd (run_state (alert_deserialize io l version) ?r)) = Some rest"
    unfolding r1(3) r2(2) decodes_def using r2(1) by (metis append_assoc)
  then show ?thesis
    by (cases "run_state (alert_deserialize io l version) ?r")
      (simp add: alert_from_data_def from_data_def reader_valid_law)
qed

lemma alert_unsupported:
  assumes "version < minimum_protocol \<or> maximum_protocol < version"
  shows "alert_from_data io l version data = None"
  unfolding alert_from_data_def alert_deserialize_def
  by (rule from_data_invalid, rule invalid_start [OF assms])
    (intro strict_rules read_strict alert_item_strict limit_strict)

end

end
