(* ===== verification/Registry.thy ===== *)
theory Registry
  imports Messages_Address Messages_Alert
begin

text \<open>
  The registry of the peer messages (\<open>src/include/bitcoin/network/messages/peer/registry.hpp\<close>,
  \<open>interfaces/peer_dispatch.hpp\<close>), the serialization of a message to its frame
  (\<open>messages/peer/message.hpp\<close> and \<open>message.cpp\<close>) and \<open>heading::factory\<close>. The type erased
  \<open>rpc::any_t\<close> is the disjoint union \<open>any_message\<close> of the message types in the order of the registry.
  Messages are serialized with their witnesses, the default of the \<open>witness\<close> parameter.
\<close>

section \<open>Registry\<close>

datatype ('h, 't, 'b) any_message =
    any_version version_message
  | any_version_acknowledge unit
  | any_send_address_v2 unit
  | any_send_transaction_reconciliation send_transaction_reconciliation
  | any_witness_tx_id_relay unit
  | any_address address_message
  | any_address_v2 address_message
  | any_alert alert
  | any_block "'b block_message"
  | any_bloom_filter_add bloom_filter_add
  | any_bloom_filter_clear unit
  | any_bloom_filter_load bloom_filter_load
  | any_client_filter client_filter
  | any_client_filter_checkpoint client_filter_checkpoint
  | any_client_filter_headers client_filter_headers
  | any_compact_block "('h, 't) compact_block"
  | any_compact_transactions "'t compact_transactions"
  | any_fee_filter fee_filter
  | any_get_address unit
  | any_get_blocks get_blocks
  | any_get_client_filter_checkpoint get_client_filter_checkpoint
  | any_get_client_filter_headers get_client_filter_headers
  | any_get_client_filters get_client_filters
  | any_get_compact_transactions get_compact_transactions
  | any_get_data get_data
  | any_get_headers get_headers
  | any_headers "'h headers"
  | any_inventory inventory
  | any_memory_pool unit
  | any_merkle_block "'h merkle_block"
  | any_not_found not_found
  | any_ping ping
  | any_pong pong
  | any_reject reject
  | any_send_compact send_compact
  | any_send_headers unit
  | any_tx "'t transaction_message"

fun index_of :: "('h, 't, 'b) any_message \<Rightarrow> nat" where
  "index_of (any_version m) = 0"
| "index_of (any_version_acknowledge m) = 1"
| "index_of (any_send_address_v2 m) = 2"
| "index_of (any_send_transaction_reconciliation m) = 3"
| "index_of (any_witness_tx_id_relay m) = 4"
| "index_of (any_address m) = 5"
| "index_of (any_address_v2 m) = 6"
| "index_of (any_alert m) = 7"
| "index_of (any_block m) = 8"
| "index_of (any_bloom_filter_add m) = 9"
| "index_of (any_bloom_filter_clear m) = 10"
| "index_of (any_bloom_filter_load m) = 11"
| "index_of (any_client_filter m) = 12"
| "index_of (any_client_filter_checkpoint m) = 13"
| "index_of (any_client_filter_headers m) = 14"
| "index_of (any_compact_block m) = 15"
| "index_of (any_compact_transactions m) = 16"
| "index_of (any_fee_filter m) = 17"
| "index_of (any_get_address m) = 18"
| "index_of (any_get_blocks m) = 19"
| "index_of (any_get_client_filter_checkpoint m) = 20"
| "index_of (any_get_client_filter_headers m) = 21"
| "index_of (any_get_client_filters m) = 22"
| "index_of (any_get_compact_transactions m) = 23"
| "index_of (any_get_data m) = 24"
| "index_of (any_get_headers m) = 25"
| "index_of (any_headers m) = 26"
| "index_of (any_inventory m) = 27"
| "index_of (any_memory_pool m) = 28"
| "index_of (any_merkle_block m) = 29"
| "index_of (any_not_found m) = 30"
| "index_of (any_ping m) = 31"
| "index_of (any_pong m) = 32"
| "index_of (any_reject m) = 33"
| "index_of (any_send_compact m) = 34"
| "index_of (any_send_headers m) = 35"
| "index_of (any_tx m) = 36"

text \<open>The commands that the messages declare, and those that the dispatch interface registers.\<close>

fun message_command :: "('h, 't, 'b) any_message \<Rightarrow> string" where
  "message_command (any_version m) = ''version''"
| "message_command (any_version_acknowledge m) = ''verack''"
| "message_command (any_send_address_v2 m) = ''sendaddrv2''"
| "message_command (any_send_transaction_reconciliation m) = ''sendtxrcncl''"
| "message_command (any_witness_tx_id_relay m) = ''wtxidrelay''"
| "message_command (any_address m) = ''addr''"
| "message_command (any_address_v2 m) = ''addrv2''"
| "message_command (any_alert m) = ''alert''"
| "message_command (any_block m) = ''block''"
| "message_command (any_bloom_filter_add m) = ''filteradd''"
| "message_command (any_bloom_filter_clear m) = ''filterclear''"
| "message_command (any_bloom_filter_load m) = ''filterload''"
| "message_command (any_client_filter m) = ''cfilter''"
| "message_command (any_client_filter_checkpoint m) = ''cfcheckpt''"
| "message_command (any_client_filter_headers m) = ''cfheaders''"
| "message_command (any_compact_block m) = ''cmpctblock''"
| "message_command (any_compact_transactions m) = ''blocktxn''"
| "message_command (any_fee_filter m) = ''feefilter''"
| "message_command (any_get_address m) = ''getaddr''"
| "message_command (any_get_blocks m) = ''getblocks''"
| "message_command (any_get_client_filter_checkpoint m) = ''getcfcheckpt''"
| "message_command (any_get_client_filter_headers m) = ''getcfheaders''"
| "message_command (any_get_client_filters m) = ''getcfilters''"
| "message_command (any_get_compact_transactions m) = ''getblocktxn''"
| "message_command (any_get_data m) = ''getdata''"
| "message_command (any_get_headers m) = ''getheaders''"
| "message_command (any_headers m) = ''headers''"
| "message_command (any_inventory m) = ''inv''"
| "message_command (any_memory_pool m) = ''mempool''"
| "message_command (any_merkle_block m) = ''merkleblock''"
| "message_command (any_not_found m) = ''notfound''"
| "message_command (any_ping m) = ''ping''"
| "message_command (any_pong m) = ''pong''"
| "message_command (any_reject m) = ''reject''"
| "message_command (any_send_compact m) = ''sendcmpct''"
| "message_command (any_send_headers m) = ''sendheaders''"
| "message_command (any_tx m) = ''tx''"

definition handshake_methods :: "string list" where
  "handshake_methods = [''version'', ''verack'', ''sendaddrv2'', ''sendtxrcncl'', ''wtxidrelay'']"

definition message_methods :: "string list" where
  "message_methods = [
     ''addr'', ''addrv2'', ''alert'', ''block'', ''filteradd'', ''filterclear'',
     ''filterload'', ''cfilter'', ''cfcheckpt'', ''cfheaders'', ''cmpctblock'', ''blocktxn'',
     ''feefilter'', ''getaddr'', ''getblocks'', ''getcfcheckpt'', ''getcfheaders'', ''getcfilters'',
     ''getblocktxn'', ''getdata'', ''getheaders'', ''headers'', ''inv'', ''mempool'',
     ''merkleblock'', ''notfound'', ''ping'', ''pong'', ''reject'', ''sendcmpct'',
     ''sendheaders'', ''tx'']"

definition methods :: "string list" where
  "methods = handshake_methods @ message_methods"

definition identifiers :: "nat list" where
  "identifiers = [0, 0, 0, 0, 0, 1, 28, 0, 2, 6, 7, 8, 23, 27, 25, 4, 3, 5, 0, 9,
     26, 24, 22, 10, 11, 12, 13, 14, 15, 16, 17, 18, 19, 0, 20, 0, 21]"

text \<open>The folds \<open>(match(Index, ...) || ...)\<close>: the first index that matches, else \<open>unknown\<close>.\<close>

definition registry_size :: nat where "registry_size = length methods"
definition unknown :: nat where "unknown = registry_size"

fun first_match :: "('a \<Rightarrow> bool) \<Rightarrow> nat \<Rightarrow> 'a list \<Rightarrow> nat" where
  "first_match match at [] = unknown"
| "first_match match at (x # xs) = (if match x then at else first_match match (Suc at) xs)"

definition index_of_command :: "string \<Rightarrow> nat" where
  "index_of_command name = first_match (\<lambda>registered. registered = name) 0 methods"

definition index_of_identifier :: "byte \<Rightarrow> nat" where
  "index_of_identifier i = first_match (\<lambda>assigned. assigned \<noteq> 0 \<and> assigned = unat i) 0 identifiers"

section \<open>Codec\<close>

definition deserializers :: "('r, 'w) wire \<Rightarrow> ('h, 't, 'b, 'r, 'w) chain_ops \<Rightarrow> bytes \<Rightarrow>
    (bytes \<Rightarrow> uint32 \<Rightarrow> bool \<Rightarrow> ('h, 't, 'b) any_message option) list" where
  "deserializers io ch mapped = [
     \<lambda>data version witness. map_option any_version (version_from_data io mapped version data),
     \<lambda>data version witness. map_option any_version_acknowledge (version_acknowledge_from_data io version data),
     \<lambda>data version witness. map_option any_send_address_v2 (send_address_v2_from_data io version data),
     \<lambda>data version witness. map_option any_send_transaction_reconciliation (send_transaction_reconciliation_from_data io version data),
     \<lambda>data version witness. map_option any_witness_tx_id_relay (witness_tx_id_relay_from_data io version data),
     \<lambda>data version witness. map_option any_address (address_from_data io mapped version data),
     \<lambda>data version witness. map_option any_address_v2 (address_v2_from_data io mapped version data),
     \<lambda>data version witness. map_option any_alert (alert_from_data io (chain_limits ch) version data),
     \<lambda>data version witness. map_option any_block (block_from_data ch version witness data),
     \<lambda>data version witness. map_option any_bloom_filter_add (bloom_filter_add_from_data io version data),
     \<lambda>data version witness. map_option any_bloom_filter_clear (bloom_filter_clear_from_data io version data),
     \<lambda>data version witness. map_option any_bloom_filter_load (bloom_filter_load_from_data io version data),
     \<lambda>data version witness. map_option any_client_filter (client_filter_from_data io ch version data),
     \<lambda>data version witness. map_option any_client_filter_checkpoint (client_filter_checkpoint_from_data io ch version data),
     \<lambda>data version witness. map_option any_client_filter_headers (client_filter_headers_from_data io version data),
     \<lambda>data version witness. map_option any_compact_block (compact_block_from_data io ch version witness data),
     \<lambda>data version witness. map_option any_compact_transactions (compact_transactions_from_data io ch version witness data),
     \<lambda>data version witness. map_option any_fee_filter (fee_filter_from_data io version data),
     \<lambda>data version witness. map_option any_get_address (get_address_from_data io version data),
     \<lambda>data version witness. map_option any_get_blocks (get_blocks_from_data io version data),
     \<lambda>data version witness. map_option any_get_client_filter_checkpoint (get_client_filter_checkpoint_from_data io version data),
     \<lambda>data version witness. map_option any_get_client_filter_headers (get_client_filter_headers_from_data io version data),
     \<lambda>data version witness. map_option any_get_client_filters (get_client_filters_from_data io version data),
     \<lambda>data version witness. map_option any_get_compact_transactions (get_compact_transactions_from_data io ch version data),
     \<lambda>data version witness. map_option any_get_data (get_data_from_data io version data),
     \<lambda>data version witness. map_option any_get_headers (get_headers_from_data io version data),
     \<lambda>data version witness. map_option any_headers (headers_from_data io ch version data),
     \<lambda>data version witness. map_option any_inventory (inventory_from_data io version data),
     \<lambda>data version witness. map_option any_memory_pool (memory_pool_from_data io version data),
     \<lambda>data version witness. map_option any_merkle_block (merkle_block_from_data io ch version data),
     \<lambda>data version witness. map_option any_not_found (not_found_from_data io version data),
     \<lambda>data version witness. map_option any_ping (ping_from_data io version data),
     \<lambda>data version witness. map_option any_pong (pong_from_data io version data),
     \<lambda>data version witness. map_option any_reject (reject_from_data io version data),
     \<lambda>data version witness. map_option any_send_compact (send_compact_from_data io version data),
     \<lambda>data version witness. map_option any_send_headers (send_headers_from_data io version data),
     \<lambda>data version witness. map_option any_tx (tx_from_data io ch version witness data)]"

fun message_size :: "('r, 'w) wire \<Rightarrow> ('h, 't, 'b, 'r, 'w) chain_ops \<Rightarrow> uint32 \<Rightarrow> ('h, 't, 'b) any_message \<Rightarrow> nat" where
  "message_size io ch version (any_version m) = version_size io version m"
| "message_size io ch version (any_version_acknowledge m) = version_acknowledge_size io version m"
| "message_size io ch version (any_send_address_v2 m) = send_address_v2_size io version m"
| "message_size io ch version (any_send_transaction_reconciliation m) = send_transaction_reconciliation_size io version m"
| "message_size io ch version (any_witness_tx_id_relay m) = witness_tx_id_relay_size io version m"
| "message_size io ch version (any_address m) = address_message_size io version m"
| "message_size io ch version (any_address_v2 m) = address_v2_size io version m"
| "message_size io ch version (any_alert m) = alert_size io version m"
| "message_size io ch version (any_block m) = block_size io ch version True m"
| "message_size io ch version (any_bloom_filter_add m) = bloom_filter_add_size io version m"
| "message_size io ch version (any_bloom_filter_clear m) = bloom_filter_clear_size io version m"
| "message_size io ch version (any_bloom_filter_load m) = bloom_filter_load_size io version m"
| "message_size io ch version (any_client_filter m) = client_filter_size io ch version m"
| "message_size io ch version (any_client_filter_checkpoint m) = client_filter_checkpoint_size io ch version m"
| "message_size io ch version (any_client_filter_headers m) = client_filter_headers_size io version m"
| "message_size io ch version (any_compact_block m) = compact_block_size io ch version True m"
| "message_size io ch version (any_compact_transactions m) = compact_transactions_size io ch version True m"
| "message_size io ch version (any_fee_filter m) = fee_filter_size io version m"
| "message_size io ch version (any_get_address m) = get_address_size io version m"
| "message_size io ch version (any_get_blocks m) = get_blocks_size io version m"
| "message_size io ch version (any_get_client_filter_checkpoint m) = get_client_filter_checkpoint_size io version m"
| "message_size io ch version (any_get_client_filter_headers m) = get_client_filter_headers_size io version m"
| "message_size io ch version (any_get_client_filters m) = get_client_filters_size io version m"
| "message_size io ch version (any_get_compact_transactions m) = get_compact_transactions_size io ch version m"
| "message_size io ch version (any_get_data m) = get_data_size io version m"
| "message_size io ch version (any_get_headers m) = get_headers_size io version m"
| "message_size io ch version (any_headers m) = headers_size io ch version m"
| "message_size io ch version (any_inventory m) = inventory_size io version m"
| "message_size io ch version (any_memory_pool m) = memory_pool_size io version m"
| "message_size io ch version (any_merkle_block m) = merkle_block_size io ch version m"
| "message_size io ch version (any_not_found m) = not_found_size io version m"
| "message_size io ch version (any_ping m) = ping_size io version m"
| "message_size io ch version (any_pong m) = pong_size io version m"
| "message_size io ch version (any_reject m) = reject_size io version m"
| "message_size io ch version (any_send_compact m) = send_compact_size io version m"
| "message_size io ch version (any_send_headers m) = send_headers_size io version m"
| "message_size io ch version (any_tx m) = tx_size io ch version True m"

fun message_serialize :: "('r, 'w) wire \<Rightarrow> ('h, 't, 'b, 'r, 'w) chain_ops \<Rightarrow> uint32 \<Rightarrow> ('h, 't, 'b) any_message \<Rightarrow> ('w, unit) state" where
  "message_serialize io ch version (any_version m) = version_serialize io version m"
| "message_serialize io ch version (any_version_acknowledge m) = version_acknowledge_serialize io version m"
| "message_serialize io ch version (any_send_address_v2 m) = send_address_v2_serialize io version m"
| "message_serialize io ch version (any_send_transaction_reconciliation m) = send_transaction_reconciliation_serialize io version m"
| "message_serialize io ch version (any_witness_tx_id_relay m) = witness_tx_id_relay_serialize io version m"
| "message_serialize io ch version (any_address m) = address_serialize io version m"
| "message_serialize io ch version (any_address_v2 m) = address_v2_serialize io version m"
| "message_serialize io ch version (any_alert m) = alert_serialize io version m"
| "message_serialize io ch version (any_block m) = block_serialize io ch version True m"
| "message_serialize io ch version (any_bloom_filter_add m) = bloom_filter_add_serialize io version m"
| "message_serialize io ch version (any_bloom_filter_clear m) = bloom_filter_clear_serialize io version m"
| "message_serialize io ch version (any_bloom_filter_load m) = bloom_filter_load_serialize io version m"
| "message_serialize io ch version (any_client_filter m) = client_filter_serialize io ch version m"
| "message_serialize io ch version (any_client_filter_checkpoint m) = client_filter_checkpoint_serialize io ch version m"
| "message_serialize io ch version (any_client_filter_headers m) = client_filter_headers_serialize io version m"
| "message_serialize io ch version (any_compact_block m) = compact_block_serialize io ch version True m"
| "message_serialize io ch version (any_compact_transactions m) = compact_transactions_serialize io ch version True m"
| "message_serialize io ch version (any_fee_filter m) = fee_filter_serialize io version m"
| "message_serialize io ch version (any_get_address m) = get_address_serialize io version m"
| "message_serialize io ch version (any_get_blocks m) = get_blocks_serialize io version m"
| "message_serialize io ch version (any_get_client_filter_checkpoint m) = get_client_filter_checkpoint_serialize io version m"
| "message_serialize io ch version (any_get_client_filter_headers m) = get_client_filter_headers_serialize io version m"
| "message_serialize io ch version (any_get_client_filters m) = get_client_filters_serialize io version m"
| "message_serialize io ch version (any_get_compact_transactions m) = get_compact_transactions_serialize io ch version m"
| "message_serialize io ch version (any_get_data m) = get_data_serialize io version m"
| "message_serialize io ch version (any_get_headers m) = get_headers_serialize io version m"
| "message_serialize io ch version (any_headers m) = headers_serialize io ch version m"
| "message_serialize io ch version (any_inventory m) = inventory_serialize io version m"
| "message_serialize io ch version (any_memory_pool m) = memory_pool_serialize io version m"
| "message_serialize io ch version (any_merkle_block m) = merkle_block_serialize io ch version m"
| "message_serialize io ch version (any_not_found m) = not_found_serialize io version m"
| "message_serialize io ch version (any_ping m) = ping_serialize io version m"
| "message_serialize io ch version (any_pong m) = pong_serialize io version m"
| "message_serialize io ch version (any_reject m) = reject_serialize io version m"
| "message_serialize io ch version (any_send_compact m) = send_compact_serialize io version m"
| "message_serialize io ch version (any_send_headers m) = send_headers_serialize io version m"
| "message_serialize io ch version (any_tx m) = tx_serialize io ch version True m"

definition to_any :: "('r, 'w) wire \<Rightarrow> ('h, 't, 'b, 'r, 'w) chain_ops \<Rightarrow> bytes \<Rightarrow> nat \<Rightarrow> bytes \<Rightarrow> uint32 \<Rightarrow> bool \<Rightarrow>
    ('h, 't, 'b) any_message option" where
  "to_any io ch mapped index data version witness =
    (if index < registry_size then (deserializers io ch mapped ! index) data version witness else None)"

definition network_checksum :: "hash_digest \<Rightarrow> uint32" where
  "network_checksum hash = le_value (take 4 hash)"

definition heading_factory_hash :: "uint32 \<Rightarrow> string \<Rightarrow> nat \<Rightarrow> hash_digest \<Rightarrow> heading" where
  "heading_factory_hash mag name n hash =
    (if 2 ^ 32 - 1 < n then \<lparr>magic = 0, command = '''', payload_size = 0, checksum = 0\<rparr>
     else \<lparr>magic = mag, command = name, payload_size = of_nat n, checksum = network_checksum hash\<rparr>)"

definition heading_factory :: "('h, 't, 'b, 'r, 'w) chain_ops \<Rightarrow> uint32 \<Rightarrow> string \<Rightarrow> bytes \<Rightarrow> heading" where
  "heading_factory ch mag name payload =
     heading_factory_hash mag name (length payload) (bitcoin_hash ch payload)"

text \<open>The contents of a zeroed buffer after a writer has written to it from its start.\<close>

definition fill_slab :: "nat \<Rightarrow> bytes \<Rightarrow> bytes" where
  "fill_slab n bs = bs @ replicate (n - length bs) 0"

definition serialize_payload :: "('r, 'w) wire \<Rightarrow> ('h, 't, 'b, 'r, 'w) chain_ops \<Rightarrow> uint32 \<Rightarrow>
    ('h, 't, 'b) any_message \<Rightarrow> bytes option" where
  "serialize_payload io ch version m =
    (let n = message_size io ch version m
     in map_option (fill_slab n) (to_slab io (message_serialize io ch version m) n))"

text \<open>The body is written after the room for the heading, then the heading into the room.\<close>

definition place_heading :: "('r, 'w) wire \<Rightarrow> heading \<Rightarrow> bytes \<Rightarrow> nat \<Rightarrow> bytes option" where
  "place_heading io head body frame_total =
    (case heading_to_data io head frame_total of
       None \<Rightarrow> None
     | Some bs \<Rightarrow> Some (bs @ drop (length bs) (replicate heading_size 0 @ body)))"

definition serialize_frame :: "('r, 'w) wire \<Rightarrow> ('h, 't, 'b, 'r, 'w) chain_ops \<Rightarrow> uint32 \<Rightarrow> uint32 \<Rightarrow>
    ('h, 't, 'b) any_message \<Rightarrow> bytes option" where
  "serialize_frame io ch mag version m =
    (let frame_total = ceilinged_add heading_size (message_size io ch version m);
         room = frame_total - heading_size
     in case to_slab io (message_serialize io ch version m) room of
          None \<Rightarrow> None
        | Some bs \<Rightarrow>
            let body = fill_slab room bs
            in place_heading io (heading_factory ch mag (message_command m) body) body frame_total)"

text \<open>
  The specialization for transactions, which takes the hash of the heading from the transaction
  when it has no witness. A null transaction is dereferenced there, which is excluded (None).
\<close>

definition serialize_tx_frame :: "('r, 'w) wire \<Rightarrow> ('h, 't, 'b, 'r, 'w) chain_ops \<Rightarrow> uint32 \<Rightarrow> uint32 \<Rightarrow>
    't transaction_message \<Rightarrow> bytes option" where
  "serialize_tx_frame io ch mag version m =
    (case transaction_ptr m of None \<Rightarrow> None | Some t \<Rightarrow>
       (let body_size = tx_size io ch version True m;
            frame_total = ceilinged_add heading_size body_size;
            room = frame_total - heading_size
        in case to_slab io (tx_serialize io ch version True m) room of
             None \<Rightarrow> None
           | Some bs \<Rightarrow>
               let body = fill_slab room bs
               in if is_segregated ch t
                  then place_heading io (heading_factory ch mag ''tx'' body) body frame_total
                  else place_heading io (heading_factory_hash mag ''tx'' body_size (transaction_hash ch False t))
                    body frame_total))"

definition message_frame :: "('r, 'w) wire \<Rightarrow> ('h, 't, 'b, 'r, 'w) chain_ops \<Rightarrow> uint32 \<Rightarrow> uint32 \<Rightarrow>
    ('h, 't, 'b) any_message \<Rightarrow> bytes option" where
  "message_frame io ch mag version m =
    (case m of any_tx t \<Rightarrow> serialize_tx_frame io ch mag version t | _ \<Rightarrow> serialize_frame io ch mag version m)"

text \<open>The message is null unless its type is the type registered at the index.\<close>

definition to_frame :: "('r, 'w) wire \<Rightarrow> ('h, 't, 'b, 'r, 'w) chain_ops \<Rightarrow> nat \<Rightarrow> ('h, 't, 'b) any_message \<Rightarrow> uint32 \<Rightarrow>
    uint32 \<Rightarrow> bytes option" where
  "to_frame io ch index m mag version =
    (if index < registry_size \<and> index_of m = index then message_frame io ch mag version m else None)"

definition to_payload :: "('r, 'w) wire \<Rightarrow> ('h, 't, 'b, 'r, 'w) chain_ops \<Rightarrow> nat \<Rightarrow> ('h, 't, 'b) any_message \<Rightarrow>
    uint32 \<Rightarrow> bytes option" where
  "to_payload io ch index m version =
    (if index < registry_size \<and> index_of m = index then serialize_payload io ch version m else None)"

section \<open>Wire formats\<close>

fun message_bytes :: "('h, 't, 'b) chain_format \<Rightarrow> uint32 \<Rightarrow> ('h, 't, 'b) any_message \<Rightarrow> bytes" where
  "message_bytes fmt version (any_version m) = version_bytes version m"
| "message_bytes fmt version (any_version_acknowledge m) = version_acknowledge_bytes version m"
| "message_bytes fmt version (any_send_address_v2 m) = send_address_v2_bytes version m"
| "message_bytes fmt version (any_send_transaction_reconciliation m) = send_transaction_reconciliation_bytes version m"
| "message_bytes fmt version (any_witness_tx_id_relay m) = witness_tx_id_relay_bytes version m"
| "message_bytes fmt version (any_address m) = address_bytes version m"
| "message_bytes fmt version (any_address_v2 m) = address_v2_bytes version m"
| "message_bytes fmt version (any_alert m) = alert_bytes m"
| "message_bytes fmt version (any_block m) = block_bytes fmt True (message_block m)"
| "message_bytes fmt version (any_bloom_filter_add m) = bloom_filter_add_bytes version m"
| "message_bytes fmt version (any_bloom_filter_clear m) = bloom_filter_clear_bytes version m"
| "message_bytes fmt version (any_bloom_filter_load m) = bloom_filter_load_bytes version m"
| "message_bytes fmt version (any_client_filter m) = client_filter_bytes fmt version m"
| "message_bytes fmt version (any_client_filter_checkpoint m) = client_filter_checkpoint_bytes fmt version m"
| "message_bytes fmt version (any_client_filter_headers m) = client_filter_headers_bytes version m"
| "message_bytes fmt version (any_compact_block m) = compact_block_bytes fmt version True m"
| "message_bytes fmt version (any_compact_transactions m) = compact_transactions_bytes fmt version True m"
| "message_bytes fmt version (any_fee_filter m) = fee_filter_bytes version m"
| "message_bytes fmt version (any_get_address m) = get_address_bytes version m"
| "message_bytes fmt version (any_get_blocks m) = get_blocks_bytes version m"
| "message_bytes fmt version (any_get_client_filter_checkpoint m) = get_client_filter_checkpoint_bytes version m"
| "message_bytes fmt version (any_get_client_filter_headers m) = get_client_filter_headers_bytes version m"
| "message_bytes fmt version (any_get_client_filters m) = get_client_filters_bytes version m"
| "message_bytes fmt version (any_get_compact_transactions m) = get_compact_transactions_bytes fmt version m"
| "message_bytes fmt version (any_get_data m) = get_data_bytes version m"
| "message_bytes fmt version (any_get_headers m) = get_headers_bytes version m"
| "message_bytes fmt version (any_headers m) = headers_bytes fmt version m"
| "message_bytes fmt version (any_inventory m) = inventory_bytes version m"
| "message_bytes fmt version (any_memory_pool m) = memory_pool_bytes version m"
| "message_bytes fmt version (any_merkle_block m) = merkle_block_bytes fmt version m"
| "message_bytes fmt version (any_not_found m) = not_found_bytes version m"
| "message_bytes fmt version (any_ping m) = ping_bytes version m"
| "message_bytes fmt version (any_pong m) = pong_bytes version m"
| "message_bytes fmt version (any_reject m) = reject_bytes version m"
| "message_bytes fmt version (any_send_compact m) = send_compact_bytes version m"
| "message_bytes fmt version (any_send_headers m) = send_headers_bytes version m"
| "message_bytes fmt version (any_tx m) = tx_bytes fmt version True m"

text \<open>The messages that a version represents.\<close>

fun message_wf :: "('h, 't, 'b) chain_format \<Rightarrow> bytes \<Rightarrow> uint32 \<Rightarrow> ('h, 't, 'b) any_message \<Rightarrow> bool" where
  "message_wf fmt mapped version (any_version m) = (version_wf mapped version m)"
| "message_wf fmt mapped version (any_version_acknowledge m) = (version_acknowledge_wf version m)"
| "message_wf fmt mapped version (any_send_address_v2 m) = (send_address_v2_wf version m)"
| "message_wf fmt mapped version (any_send_transaction_reconciliation m) = (send_transaction_reconciliation_wf version m)"
| "message_wf fmt mapped version (any_witness_tx_id_relay m) = (witness_tx_id_relay_wf version m)"
| "message_wf fmt mapped version (any_address m) = (address_message_wf mapped version m)"
| "message_wf fmt mapped version (any_address_v2 m) = (address_v2_wf mapped version m)"
| "message_wf fmt mapped version (any_alert m) = (alert_wf (format_limits fmt) version m)"
| "message_wf fmt mapped version (any_block m) = (block_ok fmt True (message_block m) \<and> minimum_protocol \<le> version \<and> version \<le> maximum_protocol)"
| "message_wf fmt mapped version (any_bloom_filter_add m) = (bloom_filter_add_wf version m)"
| "message_wf fmt mapped version (any_bloom_filter_clear m) = (bloom_filter_clear_wf version m)"
| "message_wf fmt mapped version (any_bloom_filter_load m) = (bloom_filter_load_wf version m)"
| "message_wf fmt mapped version (any_client_filter m) = (client_filter_wf fmt version m)"
| "message_wf fmt mapped version (any_client_filter_checkpoint m) = (client_filter_checkpoint_wf fmt version m)"
| "message_wf fmt mapped version (any_client_filter_headers m) = (client_filter_headers_wf version m)"
| "message_wf fmt mapped version (any_compact_block m) = (compact_block_wf fmt version True m)"
| "message_wf fmt mapped version (any_compact_transactions m) = (compact_transactions_wf fmt version True m)"
| "message_wf fmt mapped version (any_fee_filter m) = (fee_filter_wf version m)"
| "message_wf fmt mapped version (any_get_address m) = (get_address_wf version m)"
| "message_wf fmt mapped version (any_get_blocks m) = (get_blocks_wf version m)"
| "message_wf fmt mapped version (any_get_client_filter_checkpoint m) = (get_client_filter_checkpoint_wf version m)"
| "message_wf fmt mapped version (any_get_client_filter_headers m) = (get_client_filter_headers_wf version m)"
| "message_wf fmt mapped version (any_get_client_filters m) = (get_client_filters_wf version m)"
| "message_wf fmt mapped version (any_get_compact_transactions m) = (get_compact_transactions_wf fmt version m)"
| "message_wf fmt mapped version (any_get_data m) = (get_data_wf version m)"
| "message_wf fmt mapped version (any_get_headers m) = (get_headers_wf version m)"
| "message_wf fmt mapped version (any_headers m) = (headers_wf fmt version m)"
| "message_wf fmt mapped version (any_inventory m) = (inventory_wf version m)"
| "message_wf fmt mapped version (any_memory_pool m) = (memory_pool_wf version m)"
| "message_wf fmt mapped version (any_merkle_block m) = (merkle_block_wf fmt version m)"
| "message_wf fmt mapped version (any_not_found m) = (not_found_wf version m)"
| "message_wf fmt mapped version (any_ping m) = (ping_wf version m)"
| "message_wf fmt mapped version (any_pong m) = (pong_wf version m)"
| "message_wf fmt mapped version (any_reject m) = (reject_wf version m)"
| "message_wf fmt mapped version (any_send_compact m) = (send_compact_wf version m)"
| "message_wf fmt mapped version (any_send_headers m) = (send_headers_wf version m)"
| "message_wf fmt mapped version (any_tx m) = (tx_wf fmt version True m)"

text \<open>The messages that hold no transaction, and are read alike with and without witnesses.\<close>

fun witness_free :: "('h, 't, 'b) any_message \<Rightarrow> bool" where
  "witness_free (any_block _) = False"
| "witness_free (any_compact_block _) = False"
| "witness_free (any_compact_transactions _) = False"
| "witness_free (any_tx _) = False"
| "witness_free _ = True"

text \<open>A message as it is received, with the hashes of its headers or transaction cached.\<close>

definition received :: "('h, 't, 'b, 'r, 'w) chain_ops \<Rightarrow> ('h, 't, 'b) chain_format \<Rightarrow> ('h, 't, 'b) any_message \<Rightarrow>
    ('h, 't, 'b) any_message" where
  "received ch fmt m = (case m of
     any_headers x \<Rightarrow> any_headers (x\<lparr>header_ptrs := map (received_header ch fmt) (header_ptrs x)\<rparr>)
   | any_tx x \<Rightarrow> any_tx (x\<lparr>transaction_ptr := map_option (received_tx ch fmt) (transaction_ptr x)\<rparr>)
   | _ \<Rightarrow> m)"

text \<open>
  The lowest versions that the messages enforce when they are deserialized: all but the version,
  reject and merkle block messages, which ignore the version.
\<close>

definition enforced_minimums :: "uint32 option list" where
  "enforced_minimums = [
     None, Some minimum_protocol, Some bip155, Some bip330, Some bip339, Some minimum_protocol,
     Some bip155, Some minimum_protocol, Some minimum_protocol, Some bip37, Some bip37, Some bip37,
     Some bip157, Some bip157, Some bip157, Some bip152, Some bip152, Some bip133,
     Some minimum_protocol, Some minimum_protocol, Some bip157, Some bip157, Some bip157, Some bip152,
     Some minimum_protocol, Some headers_protocol, Some headers_protocol, Some minimum_protocol, Some bip35, None,
     Some bip37, Some minimum_protocol, Some bip31, None, Some bip152, Some bip130,
     Some minimum_protocol]"

text \<open>The frame of a message.\<close>

definition message_heading :: "('h, 't, 'b, 'r, 'w) chain_ops \<Rightarrow> ('h, 't, 'b) chain_format \<Rightarrow> uint32 \<Rightarrow> uint32 \<Rightarrow>
    ('h, 't, 'b) any_message \<Rightarrow> heading" where
  "message_heading ch fmt mag version m = \<lparr>magic = mag, command = message_command m,
     payload_size = of_nat (length (message_bytes fmt version m)),
     checksum = network_checksum (bitcoin_hash ch (message_bytes fmt version m))\<rparr>"

section \<open>The registry is consistent\<close>

lemma registry_size_eq [simp]: "registry_size = 37"
  by (simp add: registry_size_def methods_def handshake_methods_def message_methods_def)

lemma length_deserializers [simp]: "length (deserializers io ch mapped) = 37"
  by (simp add: deserializers_def)

lemma index_of_bound: "index_of m < registry_size"
  by (cases m) simp_all

lemma index_of_message_command [simp]: "index_of_command (message_command m) = index_of m"
  by (cases m) (simp_all add: index_of_command_def methods_def handshake_methods_def message_methods_def)

lemma message_command_registered: "methods ! index_of m = message_command m"
  by (cases m) (simp_all add: methods_def handshake_methods_def message_methods_def)

lemma methods_distinct: "distinct methods"
  by (simp add: methods_def handshake_methods_def message_methods_def)

lemma message_command_size:
  "length (message_command m) \<le> command_size" "CHR 0x00 \<notin> set (message_command m)"
  by (cases m; simp add: command_size_def)+

lemma first_match_index:
  assumes "i < length xs" "match (xs ! i)" "\<And>j. j < i \<Longrightarrow> \<not> match (xs ! j)"
  shows "first_match match at xs = at + i"
  using assms
proof (induction xs arbitrary: at i)
  case (Cons x xs)
  show ?case
  proof (cases i)
    case (Suc k)
    then have "first_match match (Suc at) xs = Suc at + k"
      using Cons.prems Cons.IH [of k "Suc at"] by (metis Suc_less_eq length_Cons nth_Cons_Suc)
    moreover have "\<not> match x" using Cons.prems(3) [of 0] Suc by simp
    ultimately show ?thesis using Suc by simp
  qed (use Cons.prems in simp)
qed simp

lemma first_match_none: "(\<And>x. x \<in> set xs \<Longrightarrow> \<not> match x) \<Longrightarrow> first_match match at xs = unknown"
  by (induction xs arbitrary: at) simp_all

section \<open>The contract of the peer codec\<close>

locale peer_wire = chain_wire io rview wview ch fmt + limit_wire io rview wview rhidden
  for io :: "('r, 'w) wire" and rview and wview
    and ch :: "('h, 't, 'b, 'r, 'w) chain_ops" and fmt :: "('h, 't, 'b) chain_format" and rhidden +
  fixes mapped :: bytes
  assumes mapped_law: "length mapped = 12"
begin

lemmas message_roundtrips =
  version_decodes [THEN from_data_decodes, where rest = "[]", unfolded append_Nil2]
  version_acknowledge_decodes [THEN from_data_decodes, where rest = "[]", unfolded append_Nil2]
  send_address_v2_decodes [THEN from_data_decodes, where rest = "[]", unfolded append_Nil2]
  send_transaction_reconciliation_decodes [THEN from_data_decodes, where rest = "[]", unfolded append_Nil2]
  witness_tx_id_relay_decodes [THEN from_data_decodes, where rest = "[]", unfolded append_Nil2]
  address_decodes [THEN from_data_decodes, where rest = "[]", unfolded append_Nil2]
  address_v2_decodes [THEN from_data_decodes, where rest = "[]", unfolded append_Nil2]
  bloom_filter_add_decodes [THEN from_data_decodes, where rest = "[]", unfolded append_Nil2]
  bloom_filter_clear_decodes [THEN from_data_decodes, where rest = "[]", unfolded append_Nil2]
  bloom_filter_load_decodes [THEN from_data_decodes, where rest = "[]", unfolded append_Nil2]
  client_filter_decodes [THEN from_data_decodes, where rest = "[]", unfolded append_Nil2]
  client_filter_checkpoint_decodes [THEN from_data_decodes, where rest = "[]", unfolded append_Nil2]
  client_filter_headers_decodes [THEN from_data_decodes, where rest = "[]", unfolded append_Nil2]
  compact_block_decodes [THEN from_data_decodes, where rest = "[]", unfolded append_Nil2]
  compact_transactions_decodes [THEN from_data_decodes, where rest = "[]", unfolded append_Nil2]
  fee_filter_decodes [THEN from_data_decodes, where rest = "[]", unfolded append_Nil2]
  get_address_decodes [THEN from_data_decodes, where rest = "[]", unfolded append_Nil2]
  get_blocks_decodes [THEN from_data_decodes, where rest = "[]", unfolded append_Nil2]
  get_client_filter_checkpoint_decodes [THEN from_data_decodes, where rest = "[]", unfolded append_Nil2]
  get_client_filter_headers_decodes [THEN from_data_decodes, where rest = "[]", unfolded append_Nil2]
  get_client_filters_decodes [THEN from_data_decodes, where rest = "[]", unfolded append_Nil2]
  get_compact_transactions_decodes [THEN from_data_decodes, where rest = "[]", unfolded append_Nil2]
  get_data_decodes [THEN from_data_decodes, where rest = "[]", unfolded append_Nil2]
  get_headers_decodes [THEN from_data_decodes, where rest = "[]", unfolded append_Nil2]
  inventory_decodes [THEN from_data_decodes, where rest = "[]", unfolded append_Nil2]
  memory_pool_decodes [THEN from_data_decodes, where rest = "[]", unfolded append_Nil2]
  merkle_block_decodes [THEN from_data_decodes, where rest = "[]", unfolded append_Nil2]
  not_found_decodes [THEN from_data_decodes, where rest = "[]", unfolded append_Nil2]
  ping_decodes [THEN from_data_decodes, where rest = "[]", unfolded append_Nil2]
  pong_decodes [THEN from_data_decodes, where rest = "[]", unfolded append_Nil2]
  reject_decodes [THEN from_data_decodes, where rest = "[]", unfolded append_Nil2]
  send_compact_decodes [THEN from_data_decodes, where rest = "[]", unfolded append_Nil2]
  send_headers_decodes [THEN from_data_decodes, where rest = "[]", unfolded append_Nil2]

lemmas from_data_defs =
  version_from_data_def
  version_acknowledge_from_data_def
  send_address_v2_from_data_def
  send_transaction_reconciliation_from_data_def
  witness_tx_id_relay_from_data_def
  address_from_data_def
  address_v2_from_data_def
  bloom_filter_add_from_data_def
  bloom_filter_clear_from_data_def
  bloom_filter_load_from_data_def
  client_filter_from_data_def
  client_filter_checkpoint_from_data_def
  client_filter_headers_from_data_def
  compact_block_from_data_def
  compact_transactions_from_data_def
  fee_filter_from_data_def
  get_address_from_data_def
  get_blocks_from_data_def
  get_client_filter_checkpoint_from_data_def
  get_client_filter_headers_from_data_def
  get_client_filters_from_data_def
  get_compact_transactions_from_data_def
  get_data_from_data_def
  get_headers_from_data_def
  inventory_from_data_def
  memory_pool_from_data_def
  merkle_block_from_data_def
  not_found_from_data_def
  ping_from_data_def
  pong_from_data_def
  reject_from_data_def
  send_compact_from_data_def
  send_headers_from_data_def

lemmas message_lengths =
  version_length version_acknowledge_length send_address_v2_length send_transaction_reconciliation_length witness_tx_id_relay_length address_length address_v2_length alert_length block_length bloom_filter_add_length bloom_filter_clear_length bloom_filter_load_length client_filter_length client_filter_checkpoint_length client_filter_headers_length compact_block_length compact_transactions_length fee_filter_length get_address_length get_blocks_length get_client_filter_checkpoint_length get_client_filter_headers_length get_client_filters_length get_compact_transactions_length get_data_length get_headers_length headers_length inventory_length memory_pool_length merkle_block_length not_found_length ping_length pong_length reject_length send_compact_length send_headers_length tx_length

lemmas message_encodings =
  version_encodes version_acknowledge_encodes send_address_v2_encodes send_transaction_reconciliation_encodes witness_tx_id_relay_encodes address_encodes address_v2_encodes alert_encodes block_encodes bloom_filter_add_encodes bloom_filter_clear_encodes bloom_filter_load_encodes client_filter_encodes client_filter_checkpoint_encodes client_filter_headers_encodes compact_block_encodes compact_transactions_encodes fee_filter_encodes get_address_encodes get_blocks_encodes get_client_filter_checkpoint_encodes get_client_filter_headers_encodes get_client_filters_encodes get_compact_transactions_encodes get_data_encodes get_headers_encodes headers_encodes inventory_encodes memory_pool_encodes merkle_block_encodes not_found_encodes ping_encodes pong_encodes reject_encodes send_compact_encodes send_headers_encodes tx_encodes

lemma to_any_index:
  "to_any io ch mapped (index_of m) data version witness = (deserializers io ch mapped ! index_of m) data version witness"
  using index_of_bound [of m] by (simp add: to_any_def)

lemma message_roundtrip:
  assumes "message_wf fmt mapped version m" "witness \<or> witness_free m"
  shows "to_any io ch mapped (index_of m) (message_bytes fmt version m) version witness = Some (received ch fmt m)"
  unfolding to_any_index
  using assms mapped_law limits_small limits_law headers_cached [where rest = "[]", unfolded append_Nil2] tx_cached
    alert_roundtrip [where rest = "[]", unfolded append_Nil2] block_roundtrip
  by (cases m) (simp_all add: deserializers_def received_def from_data_defs message_roundtrips)

lemma message_length:
  "message_wf fmt mapped version m \<Longrightarrow> message_size io ch version m = length (message_bytes fmt version m)"
  using mapped_law by (cases m) (simp_all add: message_lengths)

lemma message_encodes:
  "message_wf fmt mapped version m \<Longrightarrow> encodes wview (message_serialize io ch version m) (message_bytes fmt version m)"
  by (cases m) (simp_all add: message_encodings)

lemma payload_bytes:
  "message_wf fmt mapped version m \<Longrightarrow> serialize_payload io ch version m = Some (message_bytes fmt version m)"
  by (simp add: serialize_payload_def message_length to_slab_encodes [OF message_encodes] fill_slab_def)

lemma place_heading_bytes:
  "heading_size \<le> n \<Longrightarrow> place_heading io head body n = Some (heading_bytes head @ body)"
  by (simp add: place_heading_def heading_to_data_def to_slab_encodes [OF heading_encodes] heading_length)

lemma frame_bytes:
  assumes wf: "message_wf fmt mapped version m" and small: "length (message_bytes fmt version m) < 2 ^ 32"
  shows "serialize_frame io ch mag version m =
    Some (heading_bytes (message_heading ch fmt mag version m) @ message_bytes fmt version m)"
proof -
  let ?body = "message_bytes fmt version m"
  have n: "ceilinged_add heading_size (message_size io ch version m) = heading_size + length ?body"
    using small by (simp add: message_length [OF wf] ceilinged_add_def heading_size_def command_size_def)
  have "heading_factory ch mag (message_command m) ?body = message_heading ch fmt mag version m"
    using small by (simp add: heading_factory_def heading_factory_hash_def message_heading_def)
  then show ?thesis
    unfolding serialize_frame_def n
    by (simp add: to_slab_encodes [OF message_encodes [OF wf]] fill_slab_def place_heading_bytes)
qed

text \<open>The specialization for transactions writes the same frame.\<close>

lemma tx_frame_bytes:
  assumes wf: "tx_wf fmt version True m" and small: "length (tx_bytes fmt version True m) < 2 ^ 32"
  shows "serialize_tx_frame io ch mag version m = serialize_frame io ch mag version (any_tx m)"
proof -
  obtain t where t: "transaction_ptr m = Some t" "transaction_ok fmt True t"
    using wf by (auto simp: tx_wf_def split: option.splits)
  let ?body = "tx_bytes fmt version True m"
  have n: "ceilinged_add heading_size (length ?body) = heading_size + length ?body"
    using small by (simp add: ceilinged_add_def heading_size_def command_size_def)
  have hash: "\<not> is_segregated ch t \<Longrightarrow> transaction_hash ch False t = bitcoin_hash ch ?body"
    using transaction_hash_law [OF t(2)] t(1) by (simp add: tx_bytes_def)
  show ?thesis
    using t(1) hash
    by (simp add: serialize_frame_def serialize_tx_frame_def Let_def tx_length [OF wf] n fill_slab_def
        to_slab_encodes [OF tx_encodes] heading_factory_def)
qed

lemma to_frame_bytes:
  assumes wf: "message_wf fmt mapped version m" and small: "length (message_bytes fmt version m) < 2 ^ 32"
  shows "to_frame io ch (index_of m) m mag version =
    Some (heading_bytes (message_heading ch fmt mag version m) @ message_bytes fmt version m)"
proof -
  have "message_frame io ch mag version m = serialize_frame io ch mag version m"
    using tx_frame_bytes wf small by (cases m) (simp_all add: message_frame_def)
  then show ?thesis using index_of_bound [of m] frame_bytes [OF assms] by (simp add: to_frame_def)
qed

lemma heading_message_wf: "heading_wf (message_heading ch fmt mag version m)"
  using message_command_size [of m] by (simp add: heading_wf_def message_heading_def)

lemmas message_unsupported =
  version_acknowledge_unsupported send_address_v2_unsupported send_transaction_reconciliation_unsupported witness_tx_id_relay_unsupported address_unsupported address_v2_unsupported alert_unsupported block_unsupported bloom_filter_add_unsupported bloom_filter_clear_unsupported bloom_filter_load_unsupported client_filter_unsupported client_filter_checkpoint_unsupported client_filter_headers_unsupported compact_block_unsupported compact_transactions_unsupported fee_filter_unsupported get_address_unsupported get_blocks_unsupported get_client_filter_checkpoint_unsupported get_client_filter_headers_unsupported get_client_filters_unsupported get_compact_transactions_unsupported get_data_unsupported get_headers_unsupported headers_unsupported inventory_unsupported memory_pool_unsupported not_found_unsupported ping_unsupported pong_unsupported send_compact_unsupported send_headers_unsupported tx_unsupported

lemma unsupported_rejected:
  assumes "i < registry_size" "enforced_minimums ! i = Some low" "version < low \<or> maximum_protocol < version"
  shows "to_any io ch mapped i data version witness = None"
proof -
  have "list_all2 (\<lambda>d minimum. \<forall>low. minimum = Some low \<longrightarrow> version < low \<or> maximum_protocol < version \<longrightarrow>
      d data version witness = None) (deserializers io ch mapped) enforced_minimums"
    by (simp add: deserializers_def enforced_minimums_def message_unsupported from_data_defs
        headers_from_data_def tx_from_data_def)
  from list_all2_nthD [OF this, of i] have "(deserializers io ch mapped ! i) data version witness = None"
    using assms by auto
  then show ?thesis by (simp add: to_any_def)
qed

end

interpretation memory_peer: peer_wire memory_wire mem_rview "\<lambda>w. w" memory_chain memory_format mem_hidden
    "[0, 0, 0, 0, 0, 0, 0, 0, 0, 0, 0xff, 0xff]"
  by unfold_locales simp

end
