(* ===== verification/Peer_Body.thy ===== *)
theory Peer_Body
  imports Registry Error_Code
begin

text \<open>
  The body of a peer message (\<open>src/src/messages/peer/body.cpp\<close>): the reader that parses a heading and
  then the payload it announces, its second entry for identified messages (v2 transport), and the
  writer; and the exact reads of the socket that drive it (\<open>src/src/net/socket_peer.cpp\<close>). The
  value that the channel stamps and the reader fills is the record \<open>frame\<close>. The bytes the socket
  receives are a list; a read of more bytes than it holds fails with the code given.
\<close>

section \<open>Body\<close>

record ('h, 't, 'b) frame =
  frame_magic :: uint32
  frame_version :: uint32
  frame_witness :: bool
  frame_checksum :: bool
  frame_maximum :: nat
  frame_fault :: error_t
  frame_head :: heading
  frame_payload :: "('h, 't, 'b) any_message option"
  frame_message :: "('h, 't, 'b) any_message option"
  frame_index :: nat
  frame_data :: "bytes option"

record body_reader =
  reader_need :: nat
  reader_headed :: bool
  reader_done :: bool

type_synonym ('h, 't, 'b) reading = "('h, 't, 'b) frame \<times> body_reader \<times> http_code"

definition set_fault :: "error_t \<Rightarrow> ('h, 't, 'b) frame \<Rightarrow> body_reader \<Rightarrow> ('h, 't, 'b) reading" where
  "set_fault fault fr rd = (fr\<lparr>frame_fault := fault\<rparr>, rd, Some http_bad_value)"

definition body_reader_init :: "('h, 't, 'b) frame \<Rightarrow> ('h, 't, 'b) reading" where
  "body_reader_init fr = (fr\<lparr>frame_fault := e_success\<rparr>,
     \<lparr>reader_need = heading_size, reader_headed = False, reader_done = False\<rparr>, None)"

definition body_accept :: "('r, 'w) wire \<Rightarrow> ('h, 't, 'b, 'r, 'w) chain_ops \<Rightarrow> bytes \<Rightarrow> bytes \<Rightarrow>
    ('h, 't, 'b) frame \<Rightarrow> body_reader \<Rightarrow> bool \<times> ('h, 't, 'b) reading" where
  "body_accept io ch mapped payload fr rd =
    (if frame_checksum fr \<and> checksum (frame_head fr) \<noteq> network_checksum (bitcoin_hash ch payload)
     then (False, set_fault e_invalid_checksum fr rd)
     else
       let parsed = to_any io ch mapped (index_of_command (command (frame_head fr))) payload
             (frame_version fr) (frame_witness fr);
           fr = fr\<lparr>frame_payload := parsed\<rparr>
       in case parsed of
            None \<Rightarrow> (False, set_fault e_invalid_message fr rd)
          | Some _ \<Rightarrow> (True, fr, rd\<lparr>reader_need := 0, reader_done := True\<rparr>, None))"

text \<open>
  \<open>put\<close> with the payload buffer that the reader may have been constructed with. The heading is read
  from a slice of its size. The result is the number of bytes consumed.
\<close>

definition body_put :: "('r, 'w) wire \<Rightarrow> ('h, 't, 'b, 'r, 'w) chain_ops \<Rightarrow> bytes \<Rightarrow> bytes option \<Rightarrow> bytes \<Rightarrow>
    ('h, 't, 'b) frame \<Rightarrow> body_reader \<Rightarrow> nat \<times> ('h, 't, 'b) reading" where
  "body_put io ch mapped source data fr rd =
    (if reader_headed rd then
       if length data < reader_need rd then (0, fr, rd, None)
       else
         let payload = (case source of None \<Rightarrow> take (reader_need rd) data | Some buffer \<Rightarrow> buffer);
             (accepted, reading) = body_accept io ch mapped payload fr rd
         in (if accepted then unat (payload_size (frame_head fr)) else 0, reading)
     else if length data < heading_size then (0, fr, rd, None)
     else
       let (head, reader) = run_state (heading_deserialize io) (open_reader io (take heading_size data));
           fr = fr\<lparr>frame_head := head\<rparr>
       in if \<not> reader_valid io reader then (0, set_fault e_invalid_heading fr rd)
          else if magic head \<noteq> frame_magic fr then (0, set_fault e_invalid_magic fr rd)
          else if frame_maximum fr < unat (payload_size head) then (0, set_fault e_oversized_payload fr rd)
          else
            let rd = rd\<lparr>reader_headed := True, reader_need := unat (payload_size head)\<rparr>
            in if reader_need rd = 0
               then (let (accepted, reading) = body_accept io ch mapped [] fr rd
                     in (if accepted then heading_size else 0, reading))
               else (heading_size, fr, rd, None))"

text \<open>The second \<open>put\<close>, for a message identified by number or by command.\<close>

definition body_put_identified :: "('r, 'w) wire \<Rightarrow> ('h, 't, 'b, 'r, 'w) chain_ops \<Rightarrow> bytes \<Rightarrow> byte \<Rightarrow> string \<Rightarrow>
    bytes \<Rightarrow> ('h, 't, 'b) frame \<Rightarrow> body_reader \<Rightarrow> ('h, 't, 'b) reading" where
  "body_put_identified io ch mapped identifier name payload fr rd =
    (let index = (if identifier = 0 then index_of_command name else index_of_identifier identifier)
     in if index = unknown then set_fault e_unknown_message fr rd
        else if frame_maximum fr < length payload then set_fault e_oversized_payload fr rd
        else
          let parsed = to_any io ch mapped index payload (frame_version fr) (frame_witness fr);
              fr = fr\<lparr>frame_head := \<lparr>magic = frame_magic fr, command = methods ! index,
                 payload_size = of_nat (length payload), checksum = 0\<rparr>, frame_payload := parsed\<rparr>
          in case parsed of
               None \<Rightarrow> set_fault e_invalid_message fr rd
             | Some _ \<Rightarrow> (fr, rd\<lparr>reader_need := 0, reader_headed := True, reader_done := True\<rparr>, None))"

definition body_finish :: "body_reader \<Rightarrow> http_code" where
  "body_finish rd = (if reader_done rd then None else Some http_need_more)"

definition body_writer_init :: "('r, 'w) wire \<Rightarrow> ('h, 't, 'b, 'r, 'w) chain_ops \<Rightarrow> ('h, 't, 'b) frame \<Rightarrow>
    ('h, 't, 'b) frame \<times> bool \<times> http_code" where
  "body_writer_init io ch fr =
    (let data = (case frame_message fr of None \<Rightarrow> None
           | Some m \<Rightarrow> to_frame io ch (frame_index fr) m (frame_magic fr) (frame_version fr))
     in (fr\<lparr>frame_data := data\<rparr>, False, case data of None \<Rightarrow> Some http_bad_value | Some _ \<Rightarrow> None))"

text \<open>The buffer to write (null once it has been returned) and the done flag.\<close>

definition body_writer_get :: "('h, 't, 'b) frame \<Rightarrow> bool \<Rightarrow> bytes option \<times> bool" where
  "body_writer_get fr finished = (if finished then (None, True) else (frame_data fr, True))"

section \<open>Socket\<close>

text \<open>An exact read of the bytes received, which fails when there are too few.\<close>

definition async_read :: "error_t \<Rightarrow> nat \<Rightarrow> bytes \<Rightarrow> error_t \<times> bytes \<times> bytes" where
  "async_read eof n stream =
    (if n \<le> length stream then (e_success, take n stream, drop n stream) else (eof, stream, []))"

record peer_input =
  detection :: bytes
  stream :: bytes

text \<open>
  The read of \<open>do_peer_read\<close>: the bytes retained from the detection of the transport are drained
  first. The bytes read are those drained and those received.
\<close>

definition fetch :: "error_t \<Rightarrow> nat \<Rightarrow> peer_input \<Rightarrow> error_t \<times> bytes \<times> peer_input" where
  "fetch eof need input =
    (let residue = min (length (detection input)) need;
         (ec, arrived, rest) = async_read eof (need - residue) (stream input)
     in (ec, take residue (detection input) @ arrived,
         \<lparr>detection = drop residue (detection input), stream = rest\<rparr>))"

text \<open>
  \<open>do_peer_read\<close> with \<open>handle_peer_read\<close> as its continuation. One unit of fuel is one read; None is
  the loop not ended. The counts add at the ceiling of \<open>size_t\<close>.
\<close>

fun do_peer_read :: "('r, 'w) wire \<Rightarrow> ('h, 't, 'b, 'r, 'w) chain_ops \<Rightarrow> bytes \<Rightarrow> error_t \<Rightarrow> nat \<Rightarrow> nat \<Rightarrow> bool \<Rightarrow>
    peer_input \<Rightarrow> ('h, 't, 'b) frame \<Rightarrow> body_reader \<Rightarrow>
    (error_t \<times> nat \<times> ('h, 't, 'b) frame \<times> body_reader \<times> peer_input) option" where
  "do_peer_read io ch mapped eof 0 count headed input fr rd = None"
| "do_peer_read io ch mapped eof (Suc fuel) count headed input fr rd =
    (case fetch eof (reader_need rd) input of (ec, data, input) \<Rightarrow>
       let count = ceilinged_add count (length data)
       in if failed ec then Some (ec, count, fr, rd, input)
          else
            case body_put io ch mapped (Some (if headed then data else [])) data fr rd of
              (_, fr, rd, result) \<Rightarrow>
                if result \<noteq> None then Some (http_to_error_code result, count, fr, rd, input)
                else if reader_done rd then Some (http_to_error_code (body_finish rd), count, fr, rd, input)
                else do_peer_read io ch mapped eof fuel count True input fr rd)"

definition peer_read :: "('r, 'w) wire \<Rightarrow> ('h, 't, 'b, 'r, 'w) chain_ops \<Rightarrow> bytes \<Rightarrow> error_t \<Rightarrow> nat \<Rightarrow>
    peer_input \<Rightarrow> ('h, 't, 'b) frame \<Rightarrow>
    (error_t \<times> nat \<times> ('h, 't, 'b) frame \<times> body_reader \<times> peer_input) option" where
  "peer_read io ch mapped eof fuel input fr =
    (let (fr, rd, _) = body_reader_init fr in do_peer_read io ch mapped eof fuel 0 False input fr rd)"

section \<open>What a read accepts\<close>

abbreviation input_bytes :: "peer_input \<Rightarrow> bytes" where
  "input_bytes input \<equiv> detection input @ stream input"

lemma fetch_exact:
  assumes "input_bytes input = a @ rest" "length a = need"
  obtains input' where "fetch eof need input = (e_success, a, input')" "input_bytes input' = rest"
proof -
  let ?k = "min (length (detection input)) need"
  have "length a \<le> length (detection input) + length (stream input)"
    using arg_cong [OF assms(1), of length] by simp
  then have fits: "need - ?k \<le> length (stream input)" using assms(2) by linarith
  have "take ?k (detection input) @ take (need - ?k) (stream input) = take need (input_bytes input)"
    by (auto simp: min_def)
  moreover have "drop ?k (detection input) @ drop (need - ?k) (stream input) = drop need (input_bytes input)"
    by (auto simp: min_def)
  ultimately show thesis
    using that assms fits by (simp add: fetch_def async_read_def Let_def)
qed

lemma fetch_length:
  "fetch eof need input = (ec, data, input') \<Longrightarrow> \<not> failed ec \<Longrightarrow> failed eof \<Longrightarrow> length data = need"
  by (auto simp: fetch_def async_read_def Let_def min_def split: if_splits)

text \<open>The payload that is accepted under a heading, and the frame it gives.\<close>

definition accepts :: "('r, 'w) wire \<Rightarrow> ('h, 't, 'b, 'r, 'w) chain_ops \<Rightarrow> bytes \<Rightarrow> bytes \<Rightarrow>
    ('h, 't, 'b) frame \<Rightarrow> ('h, 't, 'b) frame \<Rightarrow> bool" where
  "accepts io ch mapped payload fr fr' \<longleftrightarrow>
    (frame_checksum fr \<longrightarrow> checksum (frame_head fr) = network_checksum (bitcoin_hash ch payload)) \<and>
    (\<exists>m. to_any io ch mapped (index_of_command (command (frame_head fr))) payload
       (frame_version fr) (frame_witness fr) = Some m \<and> fr' = fr\<lparr>frame_payload := Some m\<rparr>)"

lemma body_accept_clear:
  "body_accept io ch mapped payload fr rd = (b, fr', rd', None) \<Longrightarrow>
   b \<and> accepts io ch mapped payload fr fr' \<and> rd' = rd\<lparr>reader_need := 0, reader_done := True\<rparr>"
  by (auto simp: body_accept_def accepts_def set_fault_def Let_def split: option.splits if_splits)

text \<open>The heading that the reader takes from its bytes, when it is valid for the frame.\<close>

definition admits :: "('r, 'w) wire \<Rightarrow> bytes \<Rightarrow> ('h, 't, 'b) frame \<Rightarrow> heading \<Rightarrow> bool" where
  "admits io data fr head \<longleftrightarrow> heading_from_data io data = Some head \<and> magic head = frame_magic fr \<and>
     unat (payload_size head) \<le> frame_maximum fr"

lemma put_heading_clear:
  assumes "body_put io ch mapped source data fr rd = (n, fr', rd', None)"
    and "\<not> reader_headed rd" "length data = heading_size"
  obtains head where "admits io data fr head"
    "if payload_size head = 0
     then accepts io ch mapped [] (fr\<lparr>frame_head := head\<rparr>) fr' \<and> reader_done rd'
     else fr' = fr\<lparr>frame_head := head\<rparr> \<and>
       rd' = rd\<lparr>reader_headed := True, reader_need := unat (payload_size head)\<rparr>"
proof -
  obtain head r where h: "run_state (heading_deserialize io) (open_reader io data) = (head, r)" by (metis surj_pair)
  let ?rd = "rd\<lparr>reader_headed := True, reader_need := unat (payload_size head)\<rparr>"
  obtain b f2 r2 c2 where a: "body_accept io ch mapped [] (fr\<lparr>frame_head := head\<rparr>)
      (rd\<lparr>reader_headed := True, reader_need := 0\<rparr>) = (b, f2, r2, c2)"
    by (metis prod.exhaust)
  have "admits io data fr head"
    using assms h
    by (auto simp: body_put_def admits_def heading_from_data_def from_data_def set_fault_def Let_def
        split: if_splits)
  moreover have "if payload_size head = 0
     then accepts io ch mapped [] (fr\<lparr>frame_head := head\<rparr>) fr' \<and> reader_done rd'
     else fr' = fr\<lparr>frame_head := head\<rparr> \<and> rd' = ?rd"
    using assms h a
    by (auto simp: body_put_def set_fault_def Let_def unat_eq_zero split: if_splits dest: body_accept_clear)
  ultimately show thesis by (rule that)
qed

lemma put_payload_clear:
  assumes "body_put io ch mapped (Some data) data fr rd = (n, fr', rd', None)"
    and "reader_headed rd" "length data = reader_need rd"
  shows "accepts io ch mapped data fr fr' \<and> reader_done rd'"
  using assms by (auto simp: body_put_def split: prod.splits dest: body_accept_clear)

lemma fetch_split:
  assumes "fetch eof need input = (ec, data, input')" "\<not> failed ec" "failed eof"
  shows "input_bytes input = data @ input_bytes input'" "length data = need"
proof -
  let ?k = "min (length (detection input)) need"
  have "detection input = take ?k (detection input) @ drop ?k (detection input)" by simp
  moreover have "?k < need \<Longrightarrow> drop ?k (detection input) = []" by simp
  ultimately show "input_bytes input = data @ input_bytes input'"
    using assms by (cases "?k < need") (auto simp: fetch_def async_read_def Let_def split: if_splits)
  show "length data = need" using fetch_length assms by blast
qed

text \<open>One read of the heading, then one of the payload unless it is empty.\<close>

lemma peer_read_cases:
  assumes "failed eof" "peer_read io ch mapped eof fuel input fr = Some (e_success, count, fr', rd', input')"
  obtains head payload data where "input_bytes input = data @ payload @ input_bytes input'"
    "length data = heading_size" "admits io data fr head" "length payload = unat (payload_size head)"
    "accepts io ch mapped payload (fr\<lparr>frame_fault := e_success, frame_head := head\<rparr>) fr'"
proof -
  let ?fr = "fr\<lparr>frame_fault := e_success\<rparr>"
  let ?rd = "\<lparr>reader_need = heading_size, reader_headed = False, reader_done = False\<rparr>"
  obtain k where fuel: "fuel = Suc k"
    using assms(2) by (cases fuel) (simp_all add: peer_read_def body_reader_init_def)
  obtain ec data input1 where f1: "fetch eof heading_size input = (ec, data, input1)" by (metis surj_pair)
  obtain n fr1 rd1 c1 where p1: "body_put io ch mapped (Some []) data ?fr ?rd = (n, fr1, rd1, c1)"
    by (metis surj_pair)
  note run = assms(2) [unfolded peer_read_def body_reader_init_def fuel]
  have "\<not> failed ec" using run f1 by (auto simp: Let_def split: if_splits)
  note s1 = fetch_split [OF f1 this assms(1)]
  have "c1 = None"
    using run f1 p1 \<open>\<not> failed ec\<close> http_to_error_code_failed [of c1] by (auto simp: Let_def split: if_splits)
  from put_heading_clear [OF p1 [unfolded this]] s1(2) obtain head where
    head: "admits io data ?fr head"
      "if payload_size head = 0
       then accepts io ch mapped [] (?fr\<lparr>frame_head := head\<rparr>) fr1 \<and> reader_done rd1
       else fr1 = ?fr\<lparr>frame_head := head\<rparr> \<and>
         rd1 = ?rd\<lparr>reader_headed := True, reader_need := unat (payload_size head)\<rparr>" by auto
  have adm: "admits io data fr head" using head(1) by (simp add: admits_def)
  show thesis
  proof (cases "payload_size head = 0")
    case True
    then have "fr' = fr1" "input' = input1"
      using run f1 p1 head(2) \<open>\<not> failed ec\<close> \<open>c1 = None\<close> by (auto simp: Let_def split: if_splits)
    then show thesis using that [OF _ s1(2) adm, of "[]"] s1(1) head(2) True by simp
  next
    case False
    then have rd1: "fr1 = ?fr\<lparr>frame_head := head\<rparr>" "reader_headed rd1" "\<not> reader_done rd1"
      "reader_need rd1 = unat (payload_size head)" using head(2) by simp_all
    have run2: "do_peer_read io ch mapped eof k (ceilinged_add 0 (length data)) True input1 fr1 rd1 =
        Some (e_success, count, fr', rd', input')"
      using run f1 p1 \<open>\<not> failed ec\<close> \<open>c1 = None\<close> rd1(3) by (simp add: Let_def)
    then obtain j where k: "k = Suc j" by (cases k) simp_all
    obtain ec2 payload input2 where f2: "fetch eof (reader_need rd1) input1 = (ec2, payload, input2)"
      by (metis surj_pair)
    obtain n2 fr2 rd2 c2 where p2: "body_put io ch mapped (Some payload) payload fr1 rd1 = (n2, fr2, rd2, c2)"
      by (metis surj_pair)
    have "\<not> failed ec2" using run2 f2 k by (auto simp: Let_def split: if_splits)
    note s2 = fetch_split [OF f2 this assms(1)]
    have "c2 = None"
      using run2 k f2 p2 \<open>\<not> failed ec2\<close> http_to_error_code_failed [of c2] by (auto simp: Let_def split: if_splits)
    note a2 = put_payload_clear [OF p2 [unfolded this] rd1(2) s2(2)]
    then have "fr' = fr2" "input' = input2"
      using run2 k f2 p2 \<open>\<not> failed ec2\<close> \<open>c2 = None\<close> by (auto simp: Let_def split: if_splits)
    then show thesis using that [OF _ s1(2) adm, of payload] s1(1) s2 a2 rd1(1,4) by simp
  qed
qed

text \<open>After a heading the payload is read, and its bytes decide the message.\<close>

lemma put_payload_decides:
  assumes "reader_headed rd" "length data = reader_need rd"
    "body_put io ch mapped (Some data) data fr rd = (n, fr', rd', c)"
  shows "c \<noteq> None \<or> reader_done rd'"
  using assms put_payload_clear [of io ch mapped data fr rd n fr' rd'] by (cases c) auto

lemma peer_read_total:
  assumes "failed eof"
  shows "\<exists>result. peer_read io ch mapped eof (Suc (Suc fuel)) input fr = Some result"
proof -
  let ?fr = "fr\<lparr>frame_fault := e_success\<rparr>"
  let ?rd = "\<lparr>reader_need = heading_size, reader_headed = False, reader_done = False\<rparr>"
  obtain ec data input1 where f1: "fetch eof heading_size input = (ec, data, input1)" by (metis surj_pair)
  obtain n fr1 rd1 c1 where p1: "body_put io ch mapped (Some []) data ?fr ?rd = (n, fr1, rd1, c1)"
    by (metis surj_pair)
  show ?thesis
  proof (cases "failed ec \<or> c1 \<noteq> None \<or> reader_done rd1")
    case True
    then show ?thesis using f1 p1 by (auto simp: peer_read_def body_reader_init_def Let_def)
  next
    case False
    then have len: "length data = heading_size" using fetch_split(2) [OF f1 _ assms] by simp
    have "body_put io ch mapped (Some []) data ?fr ?rd = (n, fr1, rd1, None)" using p1 False by simp
    then have headed: "reader_headed rd1"
      by (rule put_heading_clear) (use len False in \<open>auto split: if_splits\<close>)
    obtain ec2 payload input2 where f2: "fetch eof (reader_need rd1) input1 = (ec2, payload, input2)"
      by (metis surj_pair)
    obtain n2 fr2 rd2 c2 where p2: "body_put io ch mapped (Some payload) payload fr1 rd1 = (n2, fr2, rd2, c2)"
      by (metis surj_pair)
    have "failed ec2 \<or> c2 \<noteq> None \<or> reader_done rd2"
      using put_payload_decides [OF headed _ p2] fetch_split(2) [OF f2 _ assms] by blast
    then show ?thesis
      using False f1 p1 f2 p2 by (auto simp: peer_read_def body_reader_init_def Let_def)
  qed
qed

section \<open>A frame is read back\<close>

context peer_wire
begin

lemma body_put_heading:
  assumes head: "heading_wf head" "magic head = frame_magic fr" "unat (payload_size head) \<le> frame_maximum fr"
    and rd: "\<not> reader_headed rd"
  shows "body_put io ch mapped source (heading_bytes head) fr rd =
    (let fr = fr\<lparr>frame_head := head\<rparr>;
         rd = rd\<lparr>reader_headed := True, reader_need := unat (payload_size head)\<rparr>
     in if payload_size head = 0
        then (let (accepted, reading) = body_accept io ch mapped [] fr rd
              in (if accepted then heading_size else 0, reading))
        else (heading_size, fr, rd, None))"
proof -
  obtain r where "run_state (heading_deserialize io) (open_reader io (heading_bytes head)) = (head, r)"
    "rview r = Some []"
    using heading_decodes [OF head(1), unfolded decodes_def, rule_format, of _ "[]"] open_reader_law
    by (metis append_Nil2 prod.collapse)
  then show ?thesis
    using rd head(2,3)
    by (simp add: body_put_def heading_length reader_valid_law not_less [symmetric] unat_eq_zero Let_def)
qed

lemma body_accept_message:
  assumes "message_wf fmt mapped (frame_version fr) m" "frame_witness fr \<or> witness_free m"
    and "frame_head fr = message_heading ch fmt (frame_magic fr) (frame_version fr) m"
  shows "body_accept io ch mapped (message_bytes fmt (frame_version fr) m) fr rd =
    (True, fr\<lparr>frame_payload := Some (received ch fmt m)\<rparr>, rd\<lparr>reader_need := 0, reader_done := True\<rparr>, None)"
  using message_roundtrip [OF assms(1,2)] assms(3)
  by (simp add: body_accept_def message_heading_def Let_def)

lemma peer_read_frame:
  fixes fr :: "('h, 't, 'b) frame"
  assumes wf: "message_wf fmt mapped (frame_version fr) m"
    and small: "length (message_bytes fmt (frame_version fr) m) < 2 ^ 32"
      "length (message_bytes fmt (frame_version fr) m) \<le> frame_maximum fr"
    and witness: "frame_witness fr \<or> witness_free m"
    and input: "input_bytes input = heading_bytes (message_heading ch fmt (frame_magic fr) (frame_version fr) m) @
      message_bytes fmt (frame_version fr) m @ rest"
  shows "\<exists>input'. input_bytes input' = rest \<and>
    peer_read io ch mapped eof (Suc (Suc fuel)) input fr =
      Some (e_success, heading_size + length (message_bytes fmt (frame_version fr) m),
        fr\<lparr>frame_fault := e_success, frame_head := message_heading ch fmt (frame_magic fr) (frame_version fr) m,
          frame_payload := Some (received ch fmt m)\<rparr>,
        \<lparr>reader_need = 0, reader_headed = True, reader_done = True\<rparr>, input')"
proof -
  define head where "head = message_heading ch fmt (frame_magic fr) (frame_version fr) m"
  note input = input [folded head_def]
  let ?body = "message_bytes fmt (frame_version fr) m"
  let ?rd = "\<lparr>reader_need = heading_size, reader_headed = False, reader_done = False\<rparr>"
  define fr0 where "fr0 = fr\<lparr>frame_fault := e_success\<rparr>"
  define fr1 where "fr1 = fr0\<lparr>frame_head := head\<rparr>"
  have size: "unat (payload_size head) = length ?body"
    using small(1) by (simp add: head_def message_heading_def unsigned_of_nat take_bit_nat_eq_self)
  obtain input1 where in1: "fetch eof heading_size input = (e_success, heading_bytes head, input1)"
    "input_bytes input1 = ?body @ rest"
    using fetch_exact [OF input heading_length] by blast
  have put1: "body_put io ch mapped source (heading_bytes head) fr0 ?rd =
      (let rd = ?rd\<lparr>reader_headed := True, reader_need := length ?body\<rparr>
       in if payload_size head = 0
          then (let (accepted, reading) = body_accept io ch mapped [] fr1 rd
                in (if accepted then heading_size else 0, reading))
          else (heading_size, fr1, rd, None))" for source
  proof -
    have "heading_wf head" "magic head = frame_magic fr0"
      by (simp_all add: head_def heading_message_wf) (simp add: message_heading_def fr0_def)
    from body_put_heading [OF this, of ?rd] show ?thesis
      using small(2) size by (simp add: fr0_def fr1_def Let_def)
  qed
  have accept: "body_accept io ch mapped ?body fr1 rd =
      (True, fr1\<lparr>frame_payload := Some (received ch fmt m)\<rparr>, rd\<lparr>reader_need := 0, reader_done := True\<rparr>, None)" for rd
    using body_accept_message [of fr1 m rd] wf witness by (simp add: fr0_def fr1_def head_def)
  have counts: "ceilinged_add 0 heading_size = heading_size"
    "ceilinged_add heading_size (length ?body) = heading_size + length ?body"
    using small(1) by (simp_all add: ceilinged_add_def heading_size_def command_size_def)
  show ?thesis
  proof (cases "payload_size head = 0")
    case True
    then have "?body = []" using size by simp
    with True put1 in1 accept counts show ?thesis
      by (simp add: peer_read_def body_reader_init_def fr0_def [symmetric] heading_length body_finish_def Let_def)
        (simp add: fr0_def fr1_def head_def)
  next
    case False
    obtain input2 where in2: "fetch eof (length ?body) input1 = (e_success, ?body, input2)" "input_bytes input2 = rest"
      using fetch_exact [OF in1(2) refl] by blast
    with False put1 in1 accept counts show ?thesis
      by (simp add: peer_read_def body_reader_init_def fr0_def [symmetric] heading_length body_finish_def Let_def
          body_put_def [of _ _ _ _ ?body])
        (simp add: fr0_def fr1_def head_def)
  qed
qed

end

section \<open>Properties\<close>

text \<open>
  C1. A message of any registered type that the version represents is serialized to a frame of its
  heading and its payload, and a socket that receives the frame, however it is split between the
  bytes retained from the transport detection and those still to arrive, reads back the message
  (with the hashes of its headers or its transaction cached) in at most two reads, with success,
  the frame's length as the count and the bytes after the frame left for the next read.
\<close>

theorem peer_frame_roundtrip:
  assumes "peer_wire io rview wview ch fmt rhidden mapped"
    and "message_wf fmt mapped (frame_version fr) m"
    and "length (message_bytes fmt (frame_version fr) m) < 2 ^ 32"
    and "length (message_bytes fmt (frame_version fr) m) \<le> frame_maximum fr"
    and "frame_witness fr \<or> witness_free m"
  shows "\<exists>data. to_frame io ch (index_of m) m (frame_magic fr) (frame_version fr) = Some data \<and>
    length data = heading_size + message_size io ch (frame_version fr) m \<and>
    (\<forall>before after rest. before @ after = data @ rest \<longrightarrow>
      (\<exists>input fr' rd. detection input @ stream input = rest \<and>
        peer_read io ch mapped eof 2 \<lparr>detection = before, stream = after\<rparr> fr =
          Some (e_success, length data, fr', rd, input) \<and>
        frame_payload fr' = Some (received ch fmt m) \<and> frame_fault fr' = e_success))"
proof -
  note wire = assms(1)
  let ?body = "message_bytes fmt (frame_version fr) m"
  let ?head = "heading_bytes (message_heading ch fmt (frame_magic fr) (frame_version fr) m)"
  have "to_frame io ch (index_of m) m (frame_magic fr) (frame_version fr) = Some (?head @ ?body)"
    by (rule peer_wire.to_frame_bytes [OF wire assms(2,3)])
  moreover have "length (?head @ ?body) = heading_size + message_size io ch (frame_version fr) m"
    using peer_wire.message_length [OF wire assms(2)] by (simp add: heading_bytes_def heading_size_def)
  moreover have "\<exists>input fr' rd. detection input @ stream input = rest \<and>
        peer_read io ch mapped eof 2 \<lparr>detection = before, stream = after\<rparr> fr =
          Some (e_success, length (?head @ ?body), fr', rd, input) \<and>
        frame_payload fr' = Some (received ch fmt m) \<and> frame_fault fr' = e_success"
    if "before @ after = (?head @ ?body) @ rest" for before after rest
    using peer_wire.peer_read_frame [OF wire assms(2,3,4,5), of "\<lparr>detection = before, stream = after\<rparr>" rest eof 0] that
    by (auto simp: numeral_2_eq_2 heading_bytes_def heading_size_def)
  ultimately show ?thesis by blast
qed

definition sample_frame :: "(mem_header, mem_tx, bytes) frame" where
  "sample_frame = \<lparr>frame_magic = 0xd9b4bef9, frame_version = 70015, frame_witness = False, frame_checksum = True,
     frame_maximum = 4000000, frame_fault = e_unknown,
     frame_head = \<lparr>magic = 0, command = [], payload_size = 0, checksum = 0\<rparr>, frame_payload = None,
     frame_message = None, frame_index = 0, frame_data = None\<rparr>"

definition sample_ping :: "(mem_header, mem_tx, bytes) any_message" where
  "sample_ping = any_ping \<lparr>ping_nonce = 42\<rparr>"

lemma sample_ping_wf:
  "message_wf memory_format mapped (frame_version sample_frame) sample_ping"
  "length (message_bytes memory_format (frame_version sample_frame) sample_ping) = 8"
  by (simp_all add: sample_frame_def sample_ping_def ping_wf_def ping_bytes_def minimum_protocol_def
      maximum_protocol_def address_timestamp_def bip155_def bip31_def)

lemma sample_witness_free [simp]: "witness_free sample_ping"
  by (simp add: sample_ping_def)

definition sample_mapped :: bytes where
  "sample_mapped = [0, 0, 0, 0, 0, 0, 0, 0, 0, 0, 0xff, 0xff]"

theorem peer_frame_roundtrip_witness:
  "\<exists>data. to_frame memory_wire memory_chain (index_of sample_ping) sample_ping
      (frame_magic sample_frame) (frame_version sample_frame) = Some data \<and>
    length data = heading_size + message_size memory_wire memory_chain (frame_version sample_frame) sample_ping \<and>
    (\<forall>before after rest. before @ after = data @ rest \<longrightarrow>
      (\<exists>input fr' rd. detection input @ stream input = rest \<and>
        peer_read memory_wire memory_chain sample_mapped e_operation_failed 2
          \<lparr>detection = before, stream = after\<rparr> sample_frame = Some (e_success, length data, fr', rd, input) \<and>
        frame_payload fr' = Some (received memory_chain memory_format sample_ping) \<and> frame_fault fr' = e_success))"
proof (rule peer_frame_roundtrip)
  show "peer_wire memory_wire mem_rview (\<lambda>w. w) memory_chain memory_format mem_hidden sample_mapped"
    unfolding sample_mapped_def by (rule memory_peer.peer_wire_axioms)
  show "message_wf memory_format sample_mapped (frame_version sample_frame) sample_ping"
    by (rule sample_ping_wf)
qed (simp_all only: sample_ping_wf, simp_all add: sample_frame_def)

text \<open>
  C3. A read that succeeds has accepted a whole frame and nothing more: the bytes it took are a
  heading and a payload, the heading parses and bears the magic of the network, the payload has the
  announced size, at most the maximum, and the announced checksum when checksums are verified, and
  the message delivered is what the registry parses the payload to under the command of the heading.
\<close>

theorem peer_read_sound:
  assumes "failed eof" "peer_read io ch mapped eof fuel input fr = Some (e_success, count, fr', rd', input')"
  shows "\<exists>head data payload m.
    detection input @ stream input = data @ payload @ detection input' @ stream input' \<and>
    length data = heading_size \<and> heading_from_data io data = Some head \<and> magic head = frame_magic fr \<and>
    length payload = unat (payload_size head) \<and> length payload \<le> frame_maximum fr \<and>
    (frame_checksum fr \<longrightarrow> checksum head = network_checksum (bitcoin_hash ch payload)) \<and>
    to_any io ch mapped (index_of_command (command head)) payload (frame_version fr) (frame_witness fr) = Some m \<and>
    fr' = fr\<lparr>frame_fault := e_success, frame_head := head, frame_payload := Some m\<rparr>"
proof (rule peer_read_cases [OF assms])
  fix head payload data
  assume split: "input_bytes input = data @ payload @ input_bytes input'" "length data = heading_size"
    and "admits io data fr head" "length payload = unat (payload_size head)"
    and "accepts io ch mapped payload (fr\<lparr>frame_fault := e_success, frame_head := head\<rparr>) fr'"
  then obtain m where "to_any io ch mapped (index_of_command (command head)) payload (frame_version fr)
      (frame_witness fr) = Some m" "fr' = fr\<lparr>frame_fault := e_success, frame_head := head, frame_payload := Some m\<rparr>"
    "frame_checksum fr \<longrightarrow> checksum head = network_checksum (bitcoin_hash ch payload)"
    by (auto simp: accepts_def)
  then show ?thesis
    using split \<open>admits io data fr head\<close> \<open>length payload = _\<close>
    by (intro exI [of _ head] exI [of _ data] exI [of _ payload] exI [of _ m]) (simp add: admits_def)
qed

definition sample_input :: peer_input where
  "sample_input = \<lparr>detection = [], stream = heading_bytes (message_heading memory_chain memory_format
     (frame_magic sample_frame) (frame_version sample_frame) sample_ping) @
     message_bytes memory_format (frame_version sample_frame) sample_ping @ [1, 2, 3]\<rparr>"

lemma sample_read:
  "\<exists>fr' rd' input'. peer_read memory_wire memory_chain sample_mapped e_operation_failed 2 sample_input sample_frame =
    Some (e_success, heading_size + 8, fr', rd', input') \<and> detection input' @ stream input' = [1, 2, 3]"
  using memory_peer.peer_read_frame [OF sample_ping_wf(1), where eof = e_operation_failed and
      input = sample_input and rest = "[1, 2, 3]" and fuel = 0,
      folded numeral_2_eq_2]
  by (simp add: sample_ping_wf(2) sample_input_def sample_mapped_def) (auto simp: sample_frame_def)

theorem peer_read_sound_witness:
  "\<exists>head data payload m.
    detection sample_input @ stream sample_input = data @ payload @ [1, 2, 3] \<and>
    length data = heading_size \<and> heading_from_data memory_wire data = Some head \<and>
    magic head = 0xd9b4bef9 \<and> length payload = unat (payload_size head) \<and>
    checksum head = network_checksum (bitcoin_hash memory_chain payload) \<and>
    to_any memory_wire memory_chain sample_mapped (index_of_command (command head)) payload 70015 False = Some m"
proof -
  obtain fr' rd' input' where "peer_read memory_wire memory_chain sample_mapped e_operation_failed 2 sample_input
      sample_frame = Some (e_success, heading_size + 8, fr', rd', input')"
    "detection input' @ stream input' = [1, 2, 3]"
    using sample_read by blast
  with peer_read_sound [OF _ this(1)] show ?thesis by (auto simp: sample_frame_def)
qed

text \<open>
  Reading a message ends: at most two reads complete it, with a result, whatever bytes the peer
  sends.
\<close>

theorem peer_read_terminates:
  assumes "failed eof"
  shows "\<exists>result. peer_read io ch mapped eof 2 input fr = Some result"
  using peer_read_total [OF assms, of io ch mapped 0] by (simp add: numeral_2_eq_2)

theorem peer_read_terminates_witness:
  "\<exists>result. peer_read memory_wire memory_chain sample_mapped e_operation_failed 2
     \<lparr>detection = [1, 2, 3], stream = [4]\<rparr> sample_frame = Some result"
  by (rule peer_read_terminates) simp

text \<open>
  C34. The registry is consistent: the commands are distinct, each message type declares the command
  that is registered at its index, a command finds its index and any other string is unknown, and
  an assigned short identifier finds the index of its message while zero finds none.
\<close>

theorem registry_consistent:
  "distinct methods \<and> index_of m < registry_size \<and> methods ! index_of m = message_command m \<and>
   index_of_command (message_command m) = index_of m \<and>
   (name \<notin> set methods \<longrightarrow> index_of_command name = unknown) \<and>
   (identifiers ! index_of m \<noteq> 0 \<longrightarrow> index_of_identifier (of_nat (identifiers ! index_of m)) = index_of m) \<and>
   index_of_identifier 0 = unknown"
proof -
  have "index_of_command name = unknown" if "name \<notin> set methods"
    using that by (auto simp: index_of_command_def intro!: first_match_none)
  moreover have "identifiers ! index_of m \<noteq> 0 \<longrightarrow>
      index_of_identifier (of_nat (identifiers ! index_of m)) = index_of m"
    by (cases m) (simp_all add: index_of_identifier_def identifiers_def)
  moreover have "index_of_identifier 0 = unknown"
    by (auto simp: index_of_identifier_def intro!: first_match_none)
  ultimately show ?thesis
    using methods_distinct index_of_bound [of m] message_command_registered [of m] by simp
qed

theorem registry_consistent_witness:
  "index_of_command ''bogus'' = unknown \<and> index_of_identifier 18 = index_of sample_ping"
  using registry_consistent [of sample_ping "''bogus''"]
  by (simp add: sample_ping_def identifiers_def methods_def handshake_methods_def message_methods_def)

text \<open>
  A message payload written for the encrypted transport and put to the reader under its
  identifier, or under its command when it has none, is read back, up to the cached hashes.
\<close>

theorem identified_roundtrip:
  assumes "peer_wire io rview wview ch fmt rhidden mapped"
    and "message_wf fmt mapped (frame_version fr) m"
    and "length (message_bytes fmt (frame_version fr) m) \<le> frame_maximum fr"
    and "frame_witness fr \<or> witness_free m"
    and "identifier = of_nat (identifiers ! index_of m)"
  shows "\<exists>payload fr' rd'. to_payload io ch (index_of m) m (frame_version fr) = Some payload \<and>
    body_put_identified io ch mapped identifier (methods ! index_of m) payload fr rd = (fr', rd', None) \<and>
    reader_done rd' \<and> frame_payload fr' = Some (received ch fmt m) \<and> command (frame_head fr') = message_command m"
proof -
  let ?body = "message_bytes fmt (frame_version fr) m"
  have "index_of_identifier identifier = index_of m" if "identifiers ! index_of m \<noteq> 0"
    using that assms(5) by (cases m) (simp_all add: index_of_identifier_def identifiers_def)
  then have index: "(if identifier = 0 then index_of_command (methods ! index_of m)
      else index_of_identifier identifier) = index_of m"
    using assms(5) by (cases "identifiers ! index_of m = 0") (auto simp: message_command_registered)
  have "to_payload io ch (index_of m) m (frame_version fr) = Some ?body"
    using peer_wire.payload_bytes [OF assms(1,2)] index_of_bound [of m] by (simp add: to_payload_def)
  moreover have "index_of m \<noteq> unknown" using index_of_bound [of m] by (simp add: unknown_def)
  ultimately show ?thesis
    using peer_wire.message_roundtrip [OF assms(1,2,4)] assms(3)
    unfolding body_put_identified_def index by (simp add: Let_def message_command_registered)
qed

theorem identified_roundtrip_witness:
  "\<exists>payload fr' rd'. to_payload memory_wire memory_chain (index_of sample_ping) sample_ping
      (frame_version sample_frame) = Some payload \<and>
    body_put_identified memory_wire memory_chain sample_mapped 18 (methods ! index_of sample_ping) payload sample_frame
      \<lparr>reader_need = 24, reader_headed = False, reader_done = False\<rparr> = (fr', rd', None) \<and>
    reader_done rd' \<and> frame_payload fr' = Some (received memory_chain memory_format sample_ping) \<and>
    command (frame_head fr') = message_command sample_ping"
proof (rule identified_roundtrip)
  show "peer_wire memory_wire mem_rview (\<lambda>w. w) memory_chain memory_format mem_hidden sample_mapped"
    unfolding sample_mapped_def by (rule memory_peer.peer_wire_axioms)
  show "message_wf memory_format sample_mapped (frame_version sample_frame) sample_ping"
    by (rule sample_ping_wf)
  show "length (message_bytes memory_format (frame_version sample_frame) sample_ping) \<le> frame_maximum sample_frame"
    by (simp only: sample_ping_wf) (simp add: sample_frame_def)
  show "frame_witness sample_frame \<or> witness_free sample_ping" by simp
  show "18 = (of_nat (identifiers ! index_of sample_ping) :: byte)" by (simp add: sample_ping_def identifiers_def)
qed

text \<open>
  A message is not parsed under a protocol version below the one that introduced it, nor above
  the highest supported version, whatever its payload.
\<close>

theorem unsupported_version_rejected:
  assumes "peer_wire io rview wview ch fmt rhidden mapped"
    and "i < registry_size" "enforced_minimums ! i = Some low" "version < low \<or> maximum_protocol < version"
  shows "to_any io ch mapped i data version witness = None"
  by (rule peer_wire.unsupported_rejected [OF assms])

theorem unsupported_version_rejected_witness:
  "to_any memory_wire memory_chain sample_mapped (index_of_command ''sendaddrv2'') [] 70015 True = None"
proof (rule unsupported_version_rejected)
  show "peer_wire memory_wire mem_rview (\<lambda>w. w) memory_chain memory_format mem_hidden sample_mapped"
    unfolding sample_mapped_def by (rule memory_peer.peer_wire_axioms)
  show "enforced_minimums ! index_of_command ''sendaddrv2'' = Some bip155"
    by (simp add: enforced_minimums_def index_of_command_def methods_def handshake_methods_def message_methods_def)
qed (simp_all add: index_of_command_def methods_def handshake_methods_def message_methods_def bip155_def)

text \<open>
  The specialization of the serialization for transactions, which takes the hash of a transaction
  without witness from the transaction instead of hashing the payload, writes the same frame as the
  general serialization.
\<close>

theorem transaction_frame_equivalence:
  assumes "peer_wire io rview wview ch fmt rhidden mapped"
    and "tx_wf fmt version True m" "length (tx_bytes fmt version True m) < 2 ^ 32"
  shows "serialize_tx_frame io ch mag version m = serialize_frame io ch mag version (any_tx m)"
  by (rule peer_wire.tx_frame_bytes [OF assms])

theorem transaction_frame_equivalence_witness:
  "serialize_tx_frame memory_wire memory_chain 7 70015 \<lparr>transaction_ptr = Some \<lparr>mem_tx_body = [1, 2, 3],
     mem_tx_witness = [], mem_tx_nominal = None, mem_tx_full = None\<rparr>\<rparr> =
   serialize_frame memory_wire memory_chain 7 70015 (any_tx \<lparr>transaction_ptr = Some \<lparr>mem_tx_body = [1, 2, 3],
     mem_tx_witness = [], mem_tx_nominal = None, mem_tx_full = None\<rparr>\<rparr>)"
proof (rule transaction_frame_equivalence)
  show "peer_wire memory_wire mem_rview (\<lambda>w. w) memory_chain memory_format mem_hidden sample_mapped"
    unfolding sample_mapped_def by (rule memory_peer.peer_wire_axioms)
qed (simp_all add: tx_wf_def tx_bytes_def memory_format_def mem_tx_ok_def mem_tx_bytes_def minimum_protocol_def
    maximum_protocol_def address_timestamp_def bip155_def)

end
