(* ===== verification/Locator.thy ===== *)
theory Locator
  imports Messages_Simple
begin

text \<open>
  The block locator of \<open>get_blocks\<close> (\<open>src/src/messages/peer/detail/get_blocks.cpp\<close>): the heights
  whose hashes a peer sends, and the prediction of their number. A \<open>size_t\<close> is a natural number
  below \<open>2 ^ 64\<close> and the shift of the step discards the high bit, after which the step would be zero
  and the loop would not end: the loops take fuel, one unit for each test of the loop condition, and
  the bound below shows that the shift never overflows.
\<close>

section \<open>Heights\<close>

definition floored_subtract :: "nat \<Rightarrow> nat \<Rightarrow> nat" where
  "floored_subtract a b = (if a \<le> b then 0 else a - b)"

definition shift_left_one :: "nat \<Rightarrow> nat" where
  "shift_left_one n = (2 * n) mod 2 ^ 64"

fun heights_loop :: "nat \<Rightarrow> nat \<Rightarrow> nat \<Rightarrow> nat list \<Rightarrow> nat list option" where
  "heights_loop 0 step height heights = None"
| "heights_loop (Suc fuel) step height heights =
    (if height > 0 then
       let heights = heights @ [height];
           step = (if length heights > 9 then shift_left_one step else step)
       in heights_loop fuel step (floored_subtract height step) heights
     else Some (heights @ [0]))"

definition heights :: "nat \<Rightarrow> nat \<Rightarrow> nat list option" where
  "heights fuel top_height = heights_loop fuel 1 top_height []"

fun locator_size_loop :: "nat \<Rightarrow> nat \<Rightarrow> nat \<Rightarrow> nat \<Rightarrow> nat option" where
  "locator_size_loop 0 step height n = None"
| "locator_size_loop (Suc fuel) step height n =
    (if height > 0 then
       let n = Suc n;
           step = (if n > 9 then shift_left_one step else step)
       in locator_size_loop fuel step (floored_subtract height step) n
     else Some (Suc n))"

definition locator_size :: "nat \<Rightarrow> nat \<Rightarrow> nat option" where
  "locator_size fuel top_height = locator_size_loop fuel 1 top_height 0"

section \<open>Bounds\<close>

text \<open>The step after a number of heights, and the distance covered by then.\<close>

definition step_after :: "nat \<Rightarrow> nat" where
  "step_after n = (if n \<le> 9 then 1 else 2 ^ (n - 9))"

definition covered :: "nat \<Rightarrow> nat" where
  "covered n = (if n \<le> 9 then n else 2 ^ (n - 8) + 7)"

lemma covered_Suc: "covered (Suc n) = covered n + step_after (Suc n)"
proof (cases "n \<le> 9")
  case True
  then consider "n < 9" | "n = 9" by linarith
  then show ?thesis by cases (simp_all add: covered_def step_after_def)
next
  case False
  then obtain k where "n = k + 10" by (metis add.commute le_add_diff_inverse not_less_eq_eq Suc_numeral semiring_norm(5,8))
  then show ?thesis by (simp add: covered_def step_after_def power_add)
qed

lemma covered_room:
  assumes "0 < h" "h + covered n < 2 ^ 64"
  shows "n < 72"
proof (rule ccontr)
  assume "\<not> n < 72"
  then have "(2 :: nat) ^ 64 \<le> 2 ^ (n - 8)" by (intro power_increasing) simp_all
  then show False using assms \<open>\<not> n < 72\<close> by (simp add: covered_def)
qed

lemma step_shift:
  assumes "n < 72"
  shows "(if Suc n > 9 then shift_left_one (step_after n) else step_after n) = step_after (Suc n)"
proof -
  consider "n < 9" | "n = 9" | "9 < n" by linarith
  then show ?thesis
  proof cases
    case 3
    have "(2 :: nat) ^ (Suc n - 9) < 2 ^ 64" by (rule power_strict_increasing) (use assms in auto)
    moreover have "2 * (2 :: nat) ^ (n - 9) = 2 ^ (Suc n - 9)"
      using 3 by (simp add: Suc_diff_le del: diff_Suc_numeral flip: power_Suc)
    ultimately show ?thesis using 3 by (simp add: step_after_def shift_left_one_def)
  qed (simp_all add: step_after_def shift_left_one_def)
qed

lemma heights_loop_result:
  assumes "h = 0 \<or> h + covered (length hs) < 2 ^ 64" "length hs \<le> 72" "73 \<le> fuel + length hs"
  shows "\<exists>rest. heights_loop fuel (step_after (length hs)) h hs = Some (hs @ h # rest) \<and>
    locator_size_loop fuel (step_after (length hs)) h (length hs) = Some (length (hs @ h # rest)) \<and>
    length (hs @ h # rest) \<le> 73 \<and> sorted_wrt (>) (h # rest) \<and> last (h # rest) = 0"
  using assms
proof (induction fuel arbitrary: h hs)
  case (Suc fuel)
  show ?case
  proof (cases "h = 0")
    case False
    let ?n = "length hs"
    let ?h = "floored_subtract h (step_after (Suc ?n))"
    have room: "?n < 72" using covered_room [of h ?n] Suc.prems(1) False by simp
    note step = step_shift [OF room]
    have less: "?h < h" using False by (simp add: floored_subtract_def step_after_def)
    have "?h = 0 \<or> ?h + covered (length (hs @ [h])) < 2 ^ 64"
      using Suc.prems(1) False covered_Suc [of ?n] by (simp add: floored_subtract_def)
    then obtain rest where rest:
      "heights_loop fuel (step_after (Suc ?n)) ?h (hs @ [h]) = Some ((hs @ [h]) @ ?h # rest)"
      "locator_size_loop fuel (step_after (Suc ?n)) ?h (Suc ?n) = Some (length ((hs @ [h]) @ ?h # rest))"
      "length ((hs @ [h]) @ ?h # rest) \<le> 73" "sorted_wrt (>) (?h # rest)" "last (?h # rest) = 0"
      using Suc.IH [of ?h "hs @ [h]"] Suc.prems(3) room by auto
    have "sorted_wrt (>) (h # ?h # rest)" using rest(4) less by (auto intro: less_trans)
    moreover have "heights_loop (Suc fuel) (step_after ?n) h hs = Some (hs @ h # ?h # rest)"
      using False rest(1) step by (simp add: Let_def)
    moreover have "locator_size_loop (Suc fuel) (step_after ?n) h ?n = Some (length (hs @ h # ?h # rest))"
      using False rest(2) step by (simp add: Let_def)
    ultimately show ?thesis using rest(3,5) by (intro exI [of _ "?h # rest"]) simp
  qed (use Suc.prems in simp)
qed simp

text \<open>
  For every height of a chain the locator loops end, within 73 tests, without overflow of the
  step; the heights strictly decrease from the top to the genesis block, their number is the one
  that \<open>locator_size\<close> predicts, and it is at most \<open>max_locator\<close>, the limit of the peer that reads them.
\<close>

theorem locator_bounded:
  assumes "top_height < 2 ^ 64"
  shows "\<exists>hs. heights 73 top_height = Some hs \<and> locator_size 73 top_height = Some (length hs) \<and> length hs \<le> max_locator \<and>
    sorted_wrt (>) hs \<and> hd hs = top_height \<and> last hs = 0"
  using heights_loop_result [of top_height "[]" 73] assms
  by (auto simp: heights_def locator_size_def step_after_def covered_def max_locator_def)

theorem locator_bounded_witness:
  "\<exists>hs. heights 73 (2 ^ 64 - 1) = Some hs \<and> locator_size 73 (2 ^ 64 - 1) = Some (length hs) \<and>
    length hs \<le> max_locator \<and> sorted_wrt (>) hs \<and> hd hs = 2 ^ 64 - 1 \<and> last hs = 0"
  by (rule locator_bounded) simp

end
