(* ===== verification/Handshake.thy ===== *)
theory Handshake
  imports Registry Error_Code
begin

text \<open>
  The version handshake of a peer channel: the protocols \<open>protocol_version_106\<close>, \<open>70001\<close>, \<open>70002\<close>,
  \<open>70014\<close> and \<open>70016\<close> (\<open>src/src/protocols\<close>), which derive from one another, and the selection of the
  one to attach (\<open>session_peer::attach_handshake\<close>). The class attached is a parameter, by which the
  virtual methods are selected. The state is that of the protocol and the parts of the channel it
  sets; a subscription ends when its handler returns false. The handlers run on one strand, so the
  interleavings are the sequences of the steps \<open>handshake_step\<close>.
  The clock is a parameter: the deviation of a timestamp from it, in minutes.
\<close>

section \<open>State\<close>

type_synonym handshake_message = "(unit, unit, unit) any_message"

datatype version_class = V106 | V70001 | V70002 | V70014 | V70016

fun class_level :: "version_class \<Rightarrow> nat" where
  "class_level V106 = 106"
| "class_level V70001 = 70001"
| "class_level V70002 = 70002"
| "class_level V70014 = 70014"
| "class_level V70016 = 70016"

definition derives :: "version_class \<Rightarrow> version_class \<Rightarrow> bool" where
  "derives c base \<longleftrightarrow> class_level base \<le> class_level c"

record handshake_settings =
  protocol_minimum :: uint32
  protocol_maximum :: uint32
  services_required :: uint64
  services_provided :: uint64
  invalid_services :: uint64
  maximum_skew_minutes :: nat
  enable_relay :: bool
  enable_reject :: bool
  enable_compact :: bool
  enable_address :: bool
  enable_address_v2 :: bool
  gossip_v2 :: bool
  enable_witness_tx :: bool
  handshake_timeout :: nat

text \<open>What the protocol reads of its channel and the system: clock, addresses, nonce, height.\<close>

record handshake_context =
  unix_time :: uint32
  deviation :: "uint64 \<Rightarrow> int"
  outbound_address :: address_t
  opposite_port :: uint16
  self_address :: address_t
  self_port :: uint16
  channel_nonce :: uint64
  configured_agent :: string
  chain_height :: nat

record handshake =
  started :: bool
  received_version :: bool
  received_acknowledge :: bool
  pending_handler :: bool
  completions :: "error_t list"
  timer_armed :: bool
  complete_flag :: bool
  version_sending :: bool
  acknowledge_sending :: bool
  on_version :: bool
  on_acknowledge :: bool
  on_reject :: bool
  on_compact :: bool
  on_address_v2 :: bool
  on_witness_tx :: bool
  channel_stopped :: "error_t option"
  channel_held :: bool
  negotiated_version :: uint32
  peer_version :: "version_message option"
  wants_address_v2 :: bool
  accepts_compact_blocks :: bool
  wants_compact_blocks :: bool
  wants_witness_tx :: bool
  sent :: "handshake_message list"

definition handshake_init :: "handshake_settings \<Rightarrow> handshake" where
  "handshake_init cfg = \<lparr>started = False, received_version = False, received_acknowledge = False,
     pending_handler = False, completions = [], timer_armed = False, complete_flag = False,
     version_sending = False, acknowledge_sending = False, on_version = False, on_acknowledge = False,
     on_reject = False, on_compact = False, on_address_v2 = False, on_witness_tx = False,
     channel_stopped = None, channel_held = False, negotiated_version = protocol_maximum cfg,
     peer_version = None, wants_address_v2 = False, accepts_compact_blocks = False,
     wants_compact_blocks = False, wants_witness_tx = False, sent = []\<rparr>"

section \<open>Utilities\<close>

definition protocol_stopped :: "handshake \<Rightarrow> error_t \<Rightarrow> bool" where
  "protocol_stopped s ec \<longleftrightarrow> channel_stopped s \<noteq> None \<or> failed ec"

definition stop_channel :: "error_t \<Rightarrow> handshake \<Rightarrow> handshake" where
  "stop_channel ec s = (if channel_stopped s = None then s\<lparr>channel_stopped := Some ec\<rparr> else s)"

definition send :: "handshake_message \<Rightarrow> handshake \<Rightarrow> handshake" where
  "send m s = s\<lparr>sent := sent s @ [m]\<rparr>"

definition pause :: "handshake \<Rightarrow> handshake" where
  "pause s = (if channel_stopped s = None then s\<lparr>channel_held := True\<rparr> else s)"

definition callback :: "error_t \<Rightarrow> handshake \<Rightarrow> handshake" where
  "callback ec s =
    (let s = s\<lparr>timer_armed := False\<rparr>
     in if pending_handler s then s\<lparr>completions := completions s @ [ec], pending_handler := False\<rparr> else s)"

definition complete :: "handshake \<Rightarrow> bool" where
  "complete s \<longleftrightarrow> received_version s \<and> received_acknowledge s"

definition version_factory_106 :: "handshake_settings \<Rightarrow> handshake_context \<Rightarrow> bool \<Rightarrow> version_message" where
  "version_factory_106 cfg ctx relays =
    (let port = (if is_unspecified (self_address ctx) then 0 else self_port ctx)
     in \<lparr>ver_value = protocol_maximum cfg, ver_services = services_provided cfg,
       ver_timestamp = ucast (unix_time ctx),
       address_receiver = \<lparr>ai_timestamp = unix_time ctx, ai_services = 0,
         ai_address = outbound_address ctx, ai_port = opposite_port ctx\<rparr>,
       address_sender = \<lparr>ai_timestamp = unix_time ctx, ai_services = services_provided cfg,
         ai_address = self_address ctx, ai_port = port\<rparr>,
       ver_nonce = channel_nonce ctx, user_agent = configured_agent ctx,
       start_height = of_nat (chain_height ctx), relay = relays\<rparr>)"

definition version_factory :: "version_class \<Rightarrow> handshake_settings \<Rightarrow> handshake_context \<Rightarrow> version_message" where
  "version_factory c cfg ctx = version_factory_106 cfg ctx (derives c V70001 \<and> enable_relay cfg)"

definition rejected :: "reason_code \<Rightarrow> string \<Rightarrow> handshake_message" where
  "rejected code reason = any_reject \<lparr>reject_message = ''version'', reject_code = code,
     reject_reason = reason, reject_hash = null_hash\<rparr>"

definition rejection :: "version_class \<Rightarrow> handshake_settings \<Rightarrow> error_t \<Rightarrow> handshake \<Rightarrow> handshake" where
  "rejection c cfg ec s =
    (let s = (if derives c V70002 \<and> enable_reject cfg then
        if ec = e_peer_insufficient then send (rejected obsolete []) s
        else if ec = e_peer_unsupported then send (rejected undefined_reason ''services'') s
        else if ec = e_protocol_violation then send (rejected duplicate []) s
        else if ec = e_peer_timestamp then send (rejected undefined_reason ''timestamp'') s
        else s
      else s)
     in callback ec s)"

text \<open>The feature signals of \<open>protocol_version_70016\<close>, sent before the acknowledgement.\<close>

definition signals :: "version_class \<Rightarrow> handshake_settings \<Rightarrow> uint32 \<Rightarrow> handshake_message list" where
  "signals c cfg negotiated =
    (if derives c V70016 then
       (if enable_address cfg \<and> enable_address_v2 cfg \<and> gossip_v2 cfg \<and> bip155 \<le> negotiated
        then [any_send_address_v2 ()] else []) @
       (if enable_witness_tx cfg \<and> bip339 \<le> negotiated then [any_witness_tx_id_relay ()] else [])
     else [])"

definition signal :: "version_class \<Rightarrow> handshake_settings \<Rightarrow> handshake \<Rightarrow> handshake" where
  "signal c cfg s = fold send (signals c cfg (negotiated_version s)) s"

section \<open>Start and stop\<close>

definition configuration_valid :: "handshake_settings \<Rightarrow> bool" where
  "configuration_valid cfg \<longleftrightarrow> minimum_protocol \<le> protocol_minimum cfg \<and>
     protocol_maximum cfg \<le> maximum_protocol \<and> protocol_minimum cfg \<le> protocol_maximum cfg"

text \<open>
  The result is the state and, when the protocol was started already, the code passed to the new
  handler (which the derived classes from 70002 drop).
\<close>

definition shake_106 :: "version_class \<Rightarrow> handshake_settings \<Rightarrow> handshake_context \<Rightarrow> handshake \<Rightarrow>
    handshake \<times> error_t option" where
  "shake_106 c cfg ctx s =
    (if started s then (s, Some e_operation_failed)
     else
       let s = s\<lparr>pending_handler := True\<rparr>
       in if \<not> configuration_valid cfg then (callback e_invalid_configuration s, None)
          else (send (any_version (version_factory c cfg ctx))
                  (s\<lparr>on_version := True, on_acknowledge := True, version_sending := True, started := True\<rparr>), None))"

definition shake :: "version_class \<Rightarrow> handshake_settings \<Rightarrow> handshake_context \<Rightarrow> handshake \<Rightarrow>
    handshake \<times> error_t option" where
  "shake c cfg ctx s =
    (if derives c V70002 \<and> started s then (s, None)
     else
       let s = (if derives c V70016 then s\<lparr>on_address_v2 := True, on_witness_tx := True\<rparr> else s);
           s = (if derives c V70014 then s\<lparr>on_compact := True\<rparr> else s);
           s = (if derives c V70002 \<and> enable_reject cfg then s\<lparr>on_reject := True\<rparr> else s)
       in shake_106 c cfg ctx s)"

definition stopping :: "error_t \<Rightarrow> handshake \<Rightarrow> handshake" where
  "stopping ec s = callback ec s"

definition handle_timer :: "error_t \<Rightarrow> handshake \<Rightarrow> handshake" where
  "handle_timer ec s =
    (if channel_stopped s \<noteq> None then s
     else if failed ec then callback ec s
     else callback e_channel_timeout s)"

section \<open>Messages\<close>

definition handle_send_version :: "handshake_settings \<Rightarrow> error_t \<Rightarrow> handshake \<Rightarrow> handshake" where
  "handle_send_version cfg ec s =
    (if protocol_stopped s ec \<or> complete s then s
     else if handshake_timeout cfg \<noteq> 0 then s\<lparr>timer_armed := True\<rparr>
     else s)"

definition handle_receive_acknowledge_106 :: "version_class \<Rightarrow> handshake_settings \<Rightarrow> error_t \<Rightarrow> handshake \<Rightarrow>
    bool \<times> handshake" where
  "handle_receive_acknowledge_106 c cfg ec s =
    (if protocol_stopped s ec then (False, s)
     else if received_acknowledge s then
       (False, if complete s then stop_channel e_protocol_violation s
               else rejection c cfg e_protocol_violation s)
     else
       let s = s\<lparr>received_acknowledge := True\<rparr>;
           s = (if received_version s then pause s else s);
           s = (if complete s then callback e_success s else s)
       in (True, s))"

definition compact_version_2 :: uint64 where "compact_version_2 = 2"

definition handle_receive_acknowledge_70014 :: "version_class \<Rightarrow> handshake_settings \<Rightarrow> error_t \<Rightarrow> handshake \<Rightarrow>
    bool \<times> handshake" where
  "handle_receive_acknowledge_70014 c cfg ec s =
    (let (keep, s) = handle_receive_acknowledge_106 c cfg ec s
     in if keep \<and> enable_compact cfg \<and> bip152 \<le> negotiated_version s
        then (keep, send (any_send_compact \<lparr>high_bandwidth = False, compact_version = compact_version_2\<rparr>) s)
        else (keep, s))"

definition handle_receive_acknowledge :: "version_class \<Rightarrow> handshake_settings \<Rightarrow> error_t \<Rightarrow> handshake \<Rightarrow>
    bool \<times> handshake" where
  "handle_receive_acknowledge c cfg ec s =
    (if derives c V70016 then handle_receive_acknowledge_70014 c cfg ec (s\<lparr>complete_flag := True\<rparr>)
     else if derives c V70014 then handle_receive_acknowledge_70014 c cfg ec s
     else handle_receive_acknowledge_106 c cfg ec s)"

text \<open>The checks of the peer's version message in order, as the code of the first that fails.\<close>

definition version_fault :: "handshake_settings \<Rightarrow> handshake_context \<Rightarrow> version_message \<Rightarrow> error_t" where
  "version_fault cfg ctx m =
    (if and (ver_services m) (invalid_services cfg) \<noteq> 0 then e_peer_unsupported
     else if and (ver_services m) (services_required cfg) \<noteq> services_required cfg then e_peer_insufficient
     else if ver_value m < protocol_minimum cfg then e_peer_insufficient
     else if int (maximum_skew_minutes cfg) < \<bar>deviation ctx (ver_timestamp m)\<bar> then e_peer_timestamp
     else e_success)"

definition handle_receive_version :: "version_class \<Rightarrow> handshake_settings \<Rightarrow> handshake_context \<Rightarrow> error_t \<Rightarrow>
    version_message \<Rightarrow> handshake \<Rightarrow> bool \<times> handshake" where
  "handle_receive_version c cfg ctx ec m s =
    (if protocol_stopped s ec then (True, s)
     else if received_version s then
       (False, if complete s then stop_channel e_protocol_violation s
               else rejection c cfg e_protocol_violation s)
     else if version_fault cfg ctx m \<noteq> e_success then (False, rejection c cfg (version_fault cfg ctx m) s)
     else
       let s = s\<lparr>negotiated_version := min (ver_value m) (protocol_maximum cfg), peer_version := Some m\<rparr>;
           s = send (any_version_acknowledge ()) (signal c cfg s);
           s = s\<lparr>acknowledge_sending := True, received_version := True\<rparr>;
           s = (if received_acknowledge s then pause s else s)
       in (True, s))"

definition handle_send_acknowledge :: "error_t \<Rightarrow> handshake \<Rightarrow> handshake" where
  "handle_send_acknowledge ec s =
    (if protocol_stopped s ec then s else if complete s then callback e_success s else s)"

definition handle_receive_reject :: "error_t \<Rightarrow> handshake \<Rightarrow> bool \<times> handshake" where
  "handle_receive_reject ec s = (if protocol_stopped s ec then (False, s) else (True, s))"

definition set_compact_blocks :: "bool \<Rightarrow> handshake \<Rightarrow> handshake" where
  "set_compact_blocks high s = s\<lparr>accepts_compact_blocks := True, wants_compact_blocks := high\<rparr>"

definition handle_receive_send_compact :: "error_t \<Rightarrow> send_compact \<Rightarrow> handshake \<Rightarrow> bool \<times> handshake" where
  "handle_receive_send_compact ec m s =
    (if protocol_stopped s ec then (False, s)
     else (True, if compact_version m = compact_version_2 then set_compact_blocks (high_bandwidth m) s else s))"

text \<open>The value of the peer's version, zero when it has not been received.\<close>

definition peer_value :: "handshake \<Rightarrow> uint32" where
  "peer_value s = (case peer_version s of None \<Rightarrow> 0 | Some m \<Rightarrow> ver_value m)"

definition handle_receive_send_address_v2 :: "error_t \<Rightarrow> handshake \<Rightarrow> bool \<times> handshake" where
  "handle_receive_send_address_v2 ec s =
    (if protocol_stopped s ec then (False, s)
     else if peer_value s = 0 then (False, stop_channel e_protocol_violation s)
     else if complete_flag s then (False, stop_channel e_protocol_violation s)
     else (True, s\<lparr>wants_address_v2 := True\<rparr>))"

definition handle_receive_witness_tx_id_relay :: "error_t \<Rightarrow> handshake \<Rightarrow> bool \<times> handshake" where
  "handle_receive_witness_tx_id_relay ec s =
    (if protocol_stopped s ec then (False, s)
     else if peer_value s = 0 then (False, stop_channel e_protocol_violation s)
     else if complete_flag s then (False, stop_channel e_protocol_violation s)
     else (True, if bip339 \<le> negotiated_version s then s\<lparr>wants_witness_tx := True\<rparr> else s))"

section \<open>Attachment\<close>

definition version_message_level :: uint32 where "version_message_level = 106"

definition is_configured :: "handshake_settings \<Rightarrow> uint32 \<Rightarrow> bool" where
  "is_configured cfg level \<longleftrightarrow> level \<le> protocol_maximum cfg"

definition attach_handshake :: "handshake_settings \<Rightarrow> version_class option" where
  "attach_handshake cfg =
    (if is_configured cfg bip155 \<and> (enable_address_v2 cfg \<or> enable_witness_tx cfg) then Some V70016
     else if is_configured cfg bip152 \<and> enable_compact cfg then Some V70014
     else if is_configured cfg bip61 \<and> enable_reject cfg then Some V70002
     else if is_configured cfg bip37 then Some V70001
     else if is_configured cfg version_message_level then Some V106
     else None)"

section \<open>Steps\<close>

inductive handshake_step :: "version_class \<Rightarrow> handshake_settings \<Rightarrow> handshake \<Rightarrow> handshake \<Rightarrow> bool"
  for c cfg where
  step_version: "on_version s \<Longrightarrow> handle_receive_version c cfg ctx ec m s = (keep, s') \<Longrightarrow>
    handshake_step c cfg s (s'\<lparr>on_version := keep\<rparr>)"
| step_acknowledge: "on_acknowledge s \<Longrightarrow> handle_receive_acknowledge c cfg ec s = (keep, s') \<Longrightarrow>
    handshake_step c cfg s (s'\<lparr>on_acknowledge := keep\<rparr>)"
| step_reject: "on_reject s \<Longrightarrow> handle_receive_reject ec s = (keep, s') \<Longrightarrow>
    handshake_step c cfg s (s'\<lparr>on_reject := keep\<rparr>)"
| step_compact: "on_compact s \<Longrightarrow> handle_receive_send_compact ec sc s = (keep, s') \<Longrightarrow>
    handshake_step c cfg s (s'\<lparr>on_compact := keep\<rparr>)"
| step_address_v2: "on_address_v2 s \<Longrightarrow> handle_receive_send_address_v2 ec s = (keep, s') \<Longrightarrow>
    handshake_step c cfg s (s'\<lparr>on_address_v2 := keep\<rparr>)"
| step_witness_tx: "on_witness_tx s \<Longrightarrow> handle_receive_witness_tx_id_relay ec s = (keep, s') \<Longrightarrow>
    handshake_step c cfg s (s'\<lparr>on_witness_tx := keep\<rparr>)"
| step_send_version: "version_sending s \<Longrightarrow>
    handshake_step c cfg s (handle_send_version cfg ec (s\<lparr>version_sending := False\<rparr>))"
| step_send_acknowledge: "acknowledge_sending s \<Longrightarrow>
    handshake_step c cfg s (handle_send_acknowledge ec (s\<lparr>acknowledge_sending := False\<rparr>))"
| step_timer: "handshake_step c cfg s (handle_timer ec s)"
| step_stop: "failed ec \<Longrightarrow> handshake_step c cfg s (stop_channel ec s)"
| step_stopping: "channel_stopped s = Some ec \<Longrightarrow> failed ec \<Longrightarrow> handshake_step c cfg s (stopping ec s)"

inductive handshaking :: "version_class \<Rightarrow> handshake_settings \<Rightarrow> handshake \<Rightarrow> bool" for c cfg where
  shaken: "handshaking c cfg (fst (shake c cfg ctx (handshake_init cfg)))"
| stepped: "handshaking c cfg s \<Longrightarrow> handshake_step c cfg s s' \<Longrightarrow> handshaking c cfg s'"

section \<open>The invariant\<close>

text \<open>The messages whose order the protocol fixes: the feature signals and the acknowledgement.\<close>

fun is_signal :: "handshake_message \<Rightarrow> bool" where
  "is_signal (any_send_address_v2 _) = True"
| "is_signal (any_witness_tx_id_relay _) = True"
| "is_signal (any_version_acknowledge _) = True"
| "is_signal _ = False"

text \<open>What the checks admit of a peer: no invalid service, every required one, a version in range.\<close>

definition peer_admitted :: "handshake_settings \<Rightarrow> version_message \<Rightarrow> bool" where
  "peer_admitted cfg m \<longleftrightarrow> and (ver_services m) (invalid_services cfg) = 0 \<and>
     and (ver_services m) (services_required cfg) = services_required cfg \<and>
     protocol_minimum cfg \<le> ver_value m"

definition completion_ok :: "handshake \<Rightarrow> bool" where
  "completion_ok s \<longleftrightarrow> (pending_handler s \<longrightarrow> completions s = []) \<and> length (completions s) \<le> 1 \<and>
     (e_success \<in> set (completions s) \<longrightarrow> complete s) \<and> (complete s \<longrightarrow> channel_held s)"

definition subscription_ok :: "handshake_settings \<Rightarrow> handshake \<Rightarrow> bool" where
  "subscription_ok cfg s \<longleftrightarrow>
     (on_version s \<or> on_acknowledge s \<or> received_version s \<or> received_acknowledge s \<longrightarrow> configuration_valid cfg)"

definition negotiation_ok :: "handshake_settings \<Rightarrow> handshake \<Rightarrow> bool" where
  "negotiation_ok cfg s \<longleftrightarrow>
    (case peer_version s of
       None \<Rightarrow> \<not> received_version s \<and> negotiated_version s = protocol_maximum cfg \<and>
         \<not> wants_address_v2 s \<and> \<not> wants_witness_tx s
     | Some m \<Rightarrow> received_version s \<and> peer_admitted cfg m \<and>
         negotiated_version s = min (ver_value m) (protocol_maximum cfg))"

definition signals_ok :: "version_class \<Rightarrow> handshake_settings \<Rightarrow> handshake \<Rightarrow> bool" where
  "signals_ok c cfg s \<longleftrightarrow> filter is_signal (sent s) =
    (if received_version s then signals c cfg (negotiated_version s) @ [any_version_acknowledge ()] else [])"

definition handshake_ok :: "version_class \<Rightarrow> handshake_settings \<Rightarrow> handshake \<Rightarrow> bool" where
  "handshake_ok c cfg s \<longleftrightarrow> completion_ok s \<and> subscription_ok cfg s \<and> negotiation_ok cfg s \<and> signals_ok c cfg s"

named_theorems handshake_def

lemmas [handshake_def] = handshake_ok_def completion_ok_def subscription_ok_def negotiation_ok_def
  signals_ok_def complete_def protocol_stopped_def

lemmas handshake_utility = callback_def send_def pause_def stop_channel_def

lemma fold_send [simp]: "fold send ms s = s\<lparr>sent := sent s @ ms\<rparr>"
  by (induction ms arbitrary: s) (simp_all add: send_def)

lemma signal_sends: "signal c cfg s = s\<lparr>sent := sent s @ signals c cfg (negotiated_version s)\<rparr>"
  by (simp add: signal_def)

lemma filter_signals [simp]: "filter is_signal (signals c cfg v) = signals c cfg v"
  by (simp add: signals_def)

lemma version_fault_admits: "version_fault cfg ctx m = e_success \<Longrightarrow> peer_admitted cfg m"
  by (auto simp: version_fault_def peer_admitted_def split: if_splits)

text \<open>The members the invariant does not constrain.\<close>

lemma unconstrained [simp]:
  "handshake_ok c cfg (s\<lparr>complete_flag := b\<rparr>) = handshake_ok c cfg s"
  "handshake_ok c cfg (s\<lparr>on_reject := b\<rparr>) = handshake_ok c cfg s"
  "handshake_ok c cfg (s\<lparr>on_compact := b\<rparr>) = handshake_ok c cfg s"
  "handshake_ok c cfg (s\<lparr>on_address_v2 := b\<rparr>) = handshake_ok c cfg s"
  "handshake_ok c cfg (s\<lparr>on_witness_tx := b\<rparr>) = handshake_ok c cfg s"
  "handshake_ok c cfg (s\<lparr>version_sending := b\<rparr>) = handshake_ok c cfg s"
  "handshake_ok c cfg (s\<lparr>acknowledge_sending := b\<rparr>) = handshake_ok c cfg s"
  "handshake_ok c cfg (s\<lparr>timer_armed := b\<rparr>) = handshake_ok c cfg s"
  by (cases "peer_version s"; simp add: handshake_def)+

lemma callback_ok:
  assumes "handshake_ok c cfg s" "ec = e_success \<longrightarrow> complete s"
  shows "handshake_ok c cfg (callback ec s)"
  using assms by (auto simp: handshake_def callback_def Let_def split: option.splits)

lemma sent_ok:
  assumes "handshake_ok c cfg s" "\<not> is_signal m"
  shows "handshake_ok c cfg (send m s)"
  using assms by (auto simp: handshake_def send_def split: option.splits)

lemma stop_channel_ok: "handshake_ok c cfg s \<Longrightarrow> handshake_ok c cfg (stop_channel ec s)"
  by (auto simp: handshake_def stop_channel_def split: option.splits)

lemma rejection_ok:
  assumes "handshake_ok c cfg s" "ec \<noteq> e_success"
  shows "handshake_ok c cfg (rejection c cfg ec s)"
  unfolding rejection_def Let_def rejected_def
  by (rule callback_ok) (use assms in \<open>auto intro!: sent_ok\<close>)

lemma shake_ok: "handshake_ok c cfg (fst (shake c cfg ctx (handshake_init cfg)))"
  by (auto simp: shake_def shake_106_def handshake_init_def handshake_def handshake_utility Let_def)

lemma handle_receive_version_ok:
  assumes "handshake_ok c cfg s" "on_version s"
  shows "handshake_ok c cfg (snd (handle_receive_version c cfg ctx ec m s))"
proof (cases "protocol_stopped s ec \<or> received_version s \<or> version_fault cfg ctx m \<noteq> e_success")
  case True
  then show ?thesis
    using assms by (auto simp: handle_receive_version_def intro: stop_channel_ok rejection_ok)
next
  case False
  then have "peer_admitted cfg m" by (blast intro: version_fault_admits)
  with False assms show ?thesis
    by (auto simp: handle_receive_version_def handshake_def signal_sends send_def pause_def Let_def
        split: option.splits)
qed

lemma handle_receive_acknowledge_106_ok:
  assumes "handshake_ok c cfg s" "on_acknowledge s"
  shows "handshake_ok c cfg (snd (handle_receive_acknowledge_106 c cfg ec s))"
proof (cases "protocol_stopped s ec \<or> received_acknowledge s")
  case True
  then show ?thesis
    using assms by (auto simp: handle_receive_acknowledge_106_def intro: stop_channel_ok rejection_ok)
next
  case False
  with assms show ?thesis
    by (auto simp: handle_receive_acknowledge_106_def handshake_def pause_def callback_def Let_def
        split: option.splits)
qed

lemma handle_receive_acknowledge_70014_ok:
  assumes "handshake_ok c cfg s" "on_acknowledge s"
  shows "handshake_ok c cfg (snd (handle_receive_acknowledge_70014 c cfg ec s))"
  using handle_receive_acknowledge_106_ok [OF assms, of ec]
  by (auto simp: handle_receive_acknowledge_70014_def split: prod.splits intro!: sent_ok)

lemma handle_receive_acknowledge_ok:
  assumes "handshake_ok c cfg s" "on_acknowledge s"
  shows "handshake_ok c cfg (snd (handle_receive_acknowledge c cfg ec s))"
  using assms by (simp add: handle_receive_acknowledge_def handle_receive_acknowledge_70014_ok
      handle_receive_acknowledge_106_ok)

lemma handle_receive_features_ok:
  assumes "handshake_ok c cfg s"
  shows "handshake_ok c cfg (snd (handle_receive_send_compact ec sc s))"
    and "handshake_ok c cfg (snd (handle_receive_reject ec s))"
    and "handshake_ok c cfg (snd (handle_receive_send_address_v2 ec s))"
    and "handshake_ok c cfg (snd (handle_receive_witness_tx_id_relay ec s))"
  using assms
  by (auto simp: handle_receive_send_compact_def handle_receive_reject_def handle_receive_send_address_v2_def
      handle_receive_witness_tx_id_relay_def set_compact_blocks_def peer_value_def stop_channel_ok
      handshake_def stop_channel_def split: option.splits)

lemma handle_send_ok:
  assumes "handshake_ok c cfg s"
  shows "handshake_ok c cfg (handle_send_version cfg ec s)"
    and "handshake_ok c cfg (handle_send_acknowledge ec s)"
    and "handshake_ok c cfg (handle_timer ec s)"
  using assms by (simp_all add: handle_send_version_def handle_send_acknowledge_def handle_timer_def callback_ok)

lemma subscribed_configuration:
  assumes "handshake_ok c cfg s" "on_version s \<or> on_acknowledge s"
  shows "configuration_valid cfg"
  using assms by (auto simp: handshake_ok_def subscription_ok_def)

lemma unsubscribe_ok:
  assumes "handshake_ok c cfg s" "configuration_valid cfg"
  shows "handshake_ok c cfg (s\<lparr>on_version := b\<rparr>)" "handshake_ok c cfg (s\<lparr>on_acknowledge := b\<rparr>)"
  using assms by (cases "peer_version s"; simp add: handshake_def)+

lemma handshake_step_ok:
  assumes "handshake_step c cfg s s'" "handshake_ok c cfg s"
  shows "handshake_ok c cfg s'"
  using assms(1)
proof cases
  case (step_version ctx ec m keep t)
  then show ?thesis
    using assms(2) handle_receive_version_ok [of c cfg s ctx ec m] subscribed_configuration [of c cfg s]
    by (simp add: unsubscribe_ok)
next
  case (step_acknowledge ec keep t)
  then show ?thesis
    using assms(2) handle_receive_acknowledge_ok [of c cfg s ec] subscribed_configuration [of c cfg s]
    by (simp add: unsubscribe_ok)
next
  case (step_stopping ec)
  then show ?thesis
    using assms(2) by (auto simp: stopping_def intro!: callback_ok)
next
  case (step_reject ec keep t)
  then show ?thesis using handle_receive_features_ok(2) [OF assms(2), of ec] by simp
next
  case (step_compact ec sc keep t)
  then show ?thesis using handle_receive_features_ok(1) [OF assms(2), of ec sc] by simp
next
  case (step_address_v2 ec keep t)
  then show ?thesis using handle_receive_features_ok(3) [OF assms(2), of ec] by simp
next
  case (step_witness_tx ec keep t)
  then show ?thesis using handle_receive_features_ok(4) [OF assms(2), of ec] by simp
qed (use assms(2) in \<open>simp_all add: handle_send_ok stop_channel_ok\<close>)

lemma handshaking_ok: "handshaking c cfg s \<Longrightarrow> handshake_ok c cfg s"
  by (induction rule: handshaking.induct) (auto simp: shake_ok intro: handshake_step_ok)

section \<open>Outcome\<close>

lemma success_admitted:
  assumes ok: "handshake_ok c cfg s" and "e_success \<in> set (completions s)"
  obtains m where "configuration_valid cfg" "complete s" "channel_held s"
    "any_version_acknowledge () \<in> set (sent s)" "peer_version s = Some m" "peer_admitted cfg m"
    "negotiated_version s = min (ver_value m) (protocol_maximum cfg)"
proof -
  from assms have flags: "complete s" "channel_held s" and cfg: "configuration_valid cfg"
    by (auto simp: handshake_ok_def completion_ok_def subscription_ok_def complete_def)
  with ok obtain m where "peer_version s = Some m" "peer_admitted cfg m"
      "negotiated_version s = min (ver_value m) (protocol_maximum cfg)"
    by (auto simp: handshake_ok_def negotiation_ok_def complete_def split: option.splits)
  moreover have "any_version_acknowledge () \<in> set (filter is_signal (sent s))"
    using ok flags by (simp add: handshake_ok_def signals_ok_def complete_def)
  ultimately show thesis using flags cfg that by simp
qed

text \<open>
  C2. In every reachable state of the handshake the completion handler has been invoked at most once,
  and not while it is pending. If it was invoked with success then the configuration is valid, the
  peer's version and acknowledgement were both received, the gate of the channel is held, the
  acknowledgement was sent, and the peer was admitted (its services and version satisfy the settings)
  at a negotiated version between the configured minimum and maximum.
\<close>

theorem handshake_outcome:
  assumes "handshaking c cfg s"
  shows "length (completions s) \<le> 1 \<and> (pending_handler s \<longrightarrow> completions s = []) \<and>
    (completions s = [e_success] \<longrightarrow>
      configuration_valid cfg \<and> complete s \<and> channel_held s \<and> any_version_acknowledge () \<in> set (sent s) \<and>
      (\<exists>m. peer_version s = Some m \<and> peer_admitted cfg m \<and>
        negotiated_version s = min (ver_value m) (protocol_maximum cfg)) \<and>
      protocol_minimum cfg \<le> negotiated_version s \<and> negotiated_version s \<le> protocol_maximum cfg)"
proof (intro conjI impI)
  have ok: "handshake_ok c cfg s" using assms by (rule handshaking_ok)
  then show "length (completions s) \<le> 1" by (simp add: handshake_ok_def completion_ok_def)
  show "completions s = []" if "pending_handler s"
    using ok that by (simp add: handshake_ok_def completion_ok_def)
  assume "completions s = [e_success]"
  then have "e_success \<in> set (completions s)" by simp
  then obtain m where m: "configuration_valid cfg" "complete s" "channel_held s"
      "any_version_acknowledge () \<in> set (sent s)" "peer_version s = Some m" "peer_admitted cfg m"
      "negotiated_version s = min (ver_value m) (protocol_maximum cfg)"
    by (rule success_admitted [OF ok])
  show "configuration_valid cfg" "complete s" "channel_held s" "any_version_acknowledge () \<in> set (sent s)"
    using m by simp_all
  show "\<exists>m. peer_version s = Some m \<and> peer_admitted cfg m \<and>
      negotiated_version s = min (ver_value m) (protocol_maximum cfg)"
    using m by blast
  show "protocol_minimum cfg \<le> negotiated_version s" "negotiated_version s \<le> protocol_maximum cfg"
    using m by (auto simp: configuration_valid_def peer_admitted_def)
qed

text \<open>
  C30. The order of the outgoing messages: before the peer's version was accepted no acknowledgement and
  no feature signal has been sent; after it exactly the signals that the negotiated version allows were
  sent, each once, then the acknowledgement, once. The wishes of the peer are recorded only after its
  version.
\<close>

theorem handshake_ordering:
  assumes "handshaking c cfg s"
  shows "filter is_signal (sent s) =
      (if received_version s then signals c cfg (negotiated_version s) @ [any_version_acknowledge ()] else [])
    \<and> (wants_address_v2 s \<or> wants_witness_tx s \<longrightarrow> received_version s)"
  using handshaking_ok [OF assms]
  by (auto simp: handshake_ok_def negotiation_ok_def signals_ok_def split: option.splits)

section \<open>Progress\<close>

lemma started_handshake:
  assumes "configuration_valid cfg" "s = fst (shake c cfg ctx (handshake_init cfg))"
  shows "on_version s" "on_acknowledge s" "pending_handler s" "completions s = []" "channel_stopped s = None"
    "\<not> received_version s" "\<not> received_acknowledge s" "negotiated_version s = protocol_maximum cfg"
    "peer_version s = None" "sent s = [any_version (version_factory c cfg ctx)]"
  using assms by (simp_all add: shake_def shake_106_def handshake_init_def send_def Let_def)

lemmas receive_acknowledge_def = handle_receive_acknowledge_def handle_receive_acknowledge_70014_def
  handle_receive_acknowledge_106_def

text \<open>
  C31. The handshake completes: with a valid configuration and a peer version that passes the checks, the
  handler is invoked with success, whether the peer's version or its acknowledgement arrives first (in
  the second case upon the completion of the send of the own acknowledgement).
\<close>

theorem handshake_completes:
  assumes "configuration_valid cfg" and "version_fault cfg ctx m = e_success"
    and "s = fst (shake c cfg ctx (handshake_init cfg))"
  shows "completions (snd (handle_receive_acknowledge c cfg e_success
        (snd (handle_receive_version c cfg ctx e_success m s)))) = [e_success]
    \<and> completions (handle_send_acknowledge e_success (snd (handle_receive_version c cfg ctx e_success m
        (snd (handle_receive_acknowledge c cfg e_success s))))) = [e_success]"
  using assms(2) started_handshake [OF assms(1,3)]
  by (simp add: handle_receive_version_def receive_acknowledge_def handle_send_acknowledge_def
      signal_sends handshake_utility complete_def protocol_stopped_def Let_def)

text \<open>
  What is asked of the version message of a peer, in the order in which it is asked, with the code that the handler
  gets and the reject that is sent when it is not met: no service that is invalid here, every service that is required,
  the minimum version, and a clock within the configured skew in either direction.
\<close>

definition refusal :: "handshake_settings \<Rightarrow> handshake_context \<Rightarrow> version_message \<Rightarrow> (error_t \<times> reason_code \<times> string) option" where
  "refusal cfg ctx m =
    (let skew = int (maximum_skew_minutes cfg) in
     if \<exists>i<64. bit (ver_services m) i \<and> bit (invalid_services cfg) i
       then Some (e_peer_unsupported, undefined_reason, ''services'')
     else if \<exists>i<64. bit (services_required cfg) i \<and> \<not> bit (ver_services m) i
       then Some (e_peer_insufficient, obsolete, [])
     else if unat (ver_value m) < unat (protocol_minimum cfg) then Some (e_peer_insufficient, obsolete, [])
     else if deviation ctx (ver_timestamp m) \<notin> {- skew..skew} then Some (e_peer_timestamp, undefined_reason, ''timestamp'')
     else None)"

lemma shared_bits:
  fixes a b :: uint64
  shows "(\<exists>i<64. bit a i \<and> bit b i) \<longleftrightarrow> and a b \<noteq> 0"
    and "(\<exists>i<64. bit b i \<and> \<not> bit a i) \<longleftrightarrow> and a b \<noteq> b"
proof -
  have small: "bit x i \<Longrightarrow> i < 64" for x :: uint64 and i using bit_imp_le_length [of x i] by simp
  show "(\<exists>i<64. bit a i \<and> bit b i) \<longleftrightarrow> and a b \<noteq> 0"
    using small by (auto simp: bit_eq_iff bit_simps)
  show "(\<exists>i<64. bit b i \<and> \<not> bit a i) \<longleftrightarrow> and a b \<noteq> b"
    using small by (auto simp: bit_eq_iff bit_simps)
qed

lemma refusal_words:
  "refusal cfg ctx m =
    (if and (ver_services m) (invalid_services cfg) \<noteq> 0 then Some (e_peer_unsupported, undefined_reason, ''services'')
     else if and (ver_services m) (services_required cfg) \<noteq> services_required cfg then Some (e_peer_insufficient, obsolete, [])
     else if ver_value m < protocol_minimum cfg then Some (e_peer_insufficient, obsolete, [])
     else if int (maximum_skew_minutes cfg) < \<bar>deviation ctx (ver_timestamp m)\<bar>
       then Some (e_peer_timestamp, undefined_reason, ''timestamp'')
     else None)"
proof -
  have skew: "deviation ctx (ver_timestamp m) \<notin> {- int (maximum_skew_minutes cfg)..int (maximum_skew_minutes cfg)} \<longleftrightarrow>
      int (maximum_skew_minutes cfg) < \<bar>deviation ctx (ver_timestamp m)\<bar>" by auto
  show ?thesis unfolding refusal_def Let_def shared_bits skew word_less_nat_alt ..
qed

lemma version_fault_refusal:
  "version_fault cfg ctx m = (case refusal cfg ctx m of None \<Rightarrow> e_success | Some (ec, _) \<Rightarrow> ec)"
  by (simp add: version_fault_def refusal_words)

lemma refused_rejection:
  assumes "refusal cfg ctx m = Some (ec, code, reason)"
  shows "rejection c cfg ec s = callback ec (if derives c V70002 \<and> enable_reject cfg then send (rejected code reason) s else s)"
    and "ec \<noteq> e_success"
  using assms by (auto simp: refusal_words rejection_def split: if_splits)

text \<open>
  C32. What becomes of a peer by its version message is decided by the first requirement that it misses. Then the
  handler is invoked with the code of that requirement, the subscription ends, neither the negotiated version nor the
  peer's version is set, and nothing is sent but, by the classes that signal rejection, the reject of the version
  message with the code and the reason of the requirement. A peer that misses none is acknowledged after the feature
  signals and its version bounds the negotiated one.
\<close>

theorem handshake_refuses:
  assumes "configuration_valid cfg" and "s = fst (shake c cfg ctx (handshake_init cfg))"
    and "handle_receive_version c cfg ctx e_success m s = (keep, s')"
  shows "case refusal cfg ctx m of
      Some (ec, code, reason) \<Rightarrow>
        \<not> keep \<and> completions s' = [ec] \<and> \<not> received_version s' \<and> peer_version s' = None \<and>
        negotiated_version s' = protocol_maximum cfg \<and>
        sent s' = any_version (version_factory c cfg ctx) #
          (if derives c V70002 \<and> enable_reject cfg
           then [any_reject \<lparr>reject_message = ''version'', reject_code = code, reject_reason = reason, reject_hash = null_hash\<rparr>]
           else [])
    | None \<Rightarrow>
        keep \<and> completions s' = [] \<and> received_version s' \<and> peer_version s' = Some m \<and>
        negotiated_version s' = min (ver_value m) (protocol_maximum cfg) \<and>
        sent s' = any_version (version_factory c cfg ctx) # signals c cfg (negotiated_version s') @ [any_version_acknowledge ()]"
proof (cases "refusal cfg ctx m")
  case None
  then have "version_fault cfg ctx m = e_success" by (simp add: version_fault_refusal)
  with None started_handshake [OF assms(1,2)] assms(3) show ?thesis
    by (auto simp: handle_receive_version_def protocol_stopped_def signal_sends handshake_utility Let_def)
next
  case (Some r)
  obtain ec code reason where r: "refusal cfg ctx m = Some (ec, code, reason)" using Some by (metis surj_pair)
  then have "version_fault cfg ctx m = ec" by (simp add: version_fault_refusal)
  with assms(3) refused_rejection [OF r] started_handshake [OF assms(1,2)]
  have "keep = False" "s' = callback ec (if derives c V70002 \<and> enable_reject cfg then send (rejected code reason) s else s)"
    by (simp_all add: handle_receive_version_def protocol_stopped_def)
  then show ?thesis
    using started_handshake [OF assms(1,2)] r by (auto simp: handshake_utility rejected_def Let_def)
qed

text \<open>
  With an acknowledgement that precedes the version, the classes from 70014 offer compact blocks at the
  configured maximum version, before the version of the peer is known.
\<close>

lemma compact_before_version:
  assumes "configuration_valid cfg" "derives c V70014" "enable_compact cfg" "bip152 \<le> protocol_maximum cfg"
    and "s = snd (handle_receive_acknowledge c cfg e_success (fst (shake c cfg ctx (handshake_init cfg))))"
  shows "peer_version s = None"
    and "any_send_compact \<lparr>high_bandwidth = False, compact_version = compact_version_2\<rparr> \<in> set (sent s)"
  using assms(2-5) started_handshake [OF assms(1) refl, of c ctx]
  by (auto simp: receive_acknowledge_def handshake_utility complete_def protocol_stopped_def Let_def)

text \<open>
  The class attached has a level at or below the configured maximum version, and none is attached
  exactly when that maximum is below the level of the version message (the handler is then not invoked).
\<close>

lemma attach_handshake_level:
  "attach_handshake cfg = Some c \<Longrightarrow> class_level c \<le> unat (protocol_maximum cfg)"
  by (auto simp: attach_handshake_def is_configured_def word_le_nat_alt bip155_def bip152_def bip61_def
      bip37_def version_message_level_def split: if_splits)

lemma attach_handshake_none:
  "attach_handshake cfg = None \<longleftrightarrow> protocol_maximum cfg < version_message_level"
proof -
  have "\<not> is_configured cfg v" if "protocol_maximum cfg < version_message_level" "version_message_level \<le> v" for v
    using that by (simp add: is_configured_def)
  moreover have "version_message_level \<le> bip155" "version_message_level \<le> bip152"
      "version_message_level \<le> bip61" "version_message_level \<le> bip37"
    by (simp_all add: bip155_def bip152_def bip61_def bip37_def version_message_level_def)
  ultimately show ?thesis
    by (simp add: attach_handshake_def not_le [symmetric] is_configured_def)
qed

section \<open>Witnesses\<close>

definition example_settings :: handshake_settings where
  "example_settings = \<lparr>protocol_minimum = 70001, protocol_maximum = 70016, services_required = 1,
     services_provided = 9, invalid_services = 176, maximum_skew_minutes = 120, enable_relay = True,
     enable_reject = False, enable_compact = True, enable_address = True, enable_address_v2 = True,
     gossip_v2 = True, enable_witness_tx = True, handshake_timeout = 15\<rparr>"

definition example_context :: handshake_context where
  "example_context = \<lparr>unix_time = 1700000000, deviation = (\<lambda>t. (int (unat t) - 1700000000) div 60),
     outbound_address = ipv4_t [1, 2, 3, 4], opposite_port = 8333, self_address = monostate, self_port = 8333,
     channel_nonce = 42, configured_agent = ''/node/'', chain_height = 0\<rparr>"

definition example_version :: "uint64 \<Rightarrow> version_message" where
  "example_version services = version_factory_106 (example_settings\<lparr>services_provided := services\<rparr>)
     example_context True"

definition example_start :: handshake where
  "example_start = fst (shake V70016 example_settings example_context (handshake_init example_settings))"

lemmas example_defs = example_settings_def example_context_def example_version_def version_factory_106_def

lemma example_valid: "configuration_valid example_settings"
  by (simp add: example_settings_def configuration_valid_def minimum_protocol_def maximum_protocol_def
      address_timestamp_def bip155_def)

lemma example_accepted: "version_fault example_settings example_context (example_version 9) = e_success"
  by (simp add: version_fault_def example_defs Let_def)

lemma example_refused: "version_fault example_settings example_context (example_version 8) = e_peer_insufficient"
  by (simp add: version_fault_def example_defs Let_def)

text \<open>A complete run: the version of the peer, then its acknowledgement.\<close>

definition example_done :: handshake where
  "example_done =
    (let (keep, s) = handle_receive_version V70016 example_settings example_context e_success (example_version 9)
           example_start;
         (kept, t) = handle_receive_acknowledge V70016 example_settings e_success (s\<lparr>on_version := keep\<rparr>)
     in t\<lparr>on_acknowledge := kept\<rparr>)"

lemma example_handshaking:
  "handshaking V70016 example_settings example_start" "handshaking V70016 example_settings example_done"
proof -
  obtain keep s where s: "handle_receive_version V70016 example_settings example_context e_success
      (example_version 9) example_start = (keep, s)" by (metis surj_pair)
  obtain kept t where t: "handle_receive_acknowledge V70016 example_settings e_success (s\<lparr>on_version := keep\<rparr>)
      = (kept, t)" by (metis surj_pair)
  show start: "handshaking V70016 example_settings example_start"
    unfolding example_start_def by (rule shaken)
  have "on_acknowledge s"
    using s started_handshake [OF example_valid example_start_def] example_accepted
    by (auto simp: handle_receive_version_def signal_sends handshake_utility protocol_stopped_def Let_def
        split: if_splits)
  moreover have "handshaking V70016 example_settings (s\<lparr>on_version := keep\<rparr>)"
    by (rule stepped [OF start step_version [OF started_handshake(1) [OF example_valid example_start_def] s]])
  ultimately show "handshaking V70016 example_settings example_done"
    using t stepped [OF _ step_acknowledge [OF _ t]] by (simp add: example_done_def s)
qed

lemma example_success: "completions example_done = [e_success]" "received_version example_done"
  using started_handshake [OF example_valid example_start_def] example_accepted
  by (simp_all add: example_done_def handle_receive_version_def receive_acknowledge_def signal_sends
      handshake_utility complete_def protocol_stopped_def Let_def derives_def)

theorem handshake_outcome_witness:
  "completions example_done = [e_success] \<and> channel_held example_done \<and>
   70001 \<le> negotiated_version example_done \<and> negotiated_version example_done \<le> 70016"
  using handshake_outcome [OF example_handshaking(2)] example_success
  by (simp add: example_settings_def)

theorem handshake_ordering_witness:
  "filter is_signal (sent example_start) = [] \<and>
   filter is_signal (sent example_done) =
     signals V70016 example_settings (negotiated_version example_done) @ [any_version_acknowledge ()]"
  using handshake_ordering [OF example_handshaking(1)] handshake_ordering [OF example_handshaking(2)]
    started_handshake [OF example_valid example_start_def] example_success by simp

theorem handshake_completes_witness:
  "completions (snd (handle_receive_acknowledge V70016 example_settings e_success
     (snd (handle_receive_version V70016 example_settings example_context e_success (example_version 9)
        example_start)))) = [e_success]"
  using handshake_completes [OF example_valid example_accepted example_start_def] by simp

lemma example_refusals:
  "refusal example_settings example_context (example_version 8) = Some (e_peer_insufficient, obsolete, [])"
  "refusal (example_settings\<lparr>enable_reject := True\<rparr>) example_context ((example_version 9)\<lparr>ver_timestamp := 0\<rparr>) =
    Some (e_peer_timestamp, undefined_reason, ''timestamp'')"
  "configuration_valid (example_settings\<lparr>enable_reject := True\<rparr>)"
  using example_valid by (simp_all add: refusal_words example_defs configuration_valid_def Let_def)

theorem handshake_refuses_witness:
  "completions (snd (handle_receive_version V70016 example_settings example_context e_success (example_version 8)
     example_start)) = [e_peer_insufficient] \<and>
   last (sent (snd (handle_receive_version V70016 (example_settings\<lparr>enable_reject := True\<rparr>) example_context e_success
     ((example_version 9)\<lparr>ver_timestamp := 0\<rparr>)
     (fst (shake V70016 (example_settings\<lparr>enable_reject := True\<rparr>) example_context
        (handshake_init (example_settings\<lparr>enable_reject := True\<rparr>))))))) =
     any_reject \<lparr>reject_message = ''version'', reject_code = undefined_reason, reject_reason = ''timestamp'', reject_hash = null_hash\<rparr>"
  using handshake_refuses [OF example_valid example_start_def surjective_pairing, of "example_version 8"]
    handshake_refuses [OF example_refusals(3) refl surjective_pairing, of V70016 example_context "(example_version 9)\<lparr>ver_timestamp := 0\<rparr>"]
    example_refusals(1,2)
  by (simp add: derives_def)

end
