(* ===== verification/Proxy.thy ===== *)
theory Proxy
  imports Prelude Subscribers
begin

text \<open>
  The proxy of a channel (\<open>src/src/net/proxy.cpp\<close>, \<open>proxy_queue.cpp\<close>, \<open>proxy_actions.cpp\<close>): the
  queue by which all writes of a channel are serialized, the charge of unsolicited writes against a
  backlog, the throttle, the batch state of json-rpc messages, the reads and the stop.

  The members are a record; the socket is the log of the calls made to it, the operations it has in
  progress and its flags. All methods but a stop from another thread run on the strand, so the
  behaviours are the sequences of the steps \<open>proxy_step\<close>: an action of the client, or the completion
  of an operation in progress. A handler of the client is a number, and what it does when it is
  invoked by a write completion is a list of actions, run where the code invokes it. The codes, sizes,
  elapsed times and parsed messages of completions are inputs.
\<close>

section \<open>Messages\<close>

datatype 'v rpc_value = rpc_null | rpc_some 'v

datatype 'v rpc_params = array_params "'v rpc_value list" | object_params "(string \<times> 'v rpc_value) list"

record 'v rpc_message =
  rpc_method :: string
  rpc_params :: "'v rpc_params option"

record 'v rpc_request =
  request_message :: "'v rpc_message"
  request_batch :: bool
  request_changed :: bool

text \<open>A response, with no message where it is default constructed.\<close>

record 'm rpc_part =
  part_message :: "'m option"
  part_batch :: bool
  part_changed :: bool

datatype ('m, 'v) http_body = http_part "'m rpc_part" | http_request "'v rpc_message" | http_other 'm

text \<open>The writers that the queue entries bind.\<close>

datatype ('m, 'v) call =
    ws_call 'm bool
  | tcp_call 'm
  | peer_call 'm
  | response_call "'m rpc_part"
  | notification_call "'v rpc_message"
  | http_call "('m, 'v) http_body"

text \<open>The handlers: of the client, none, the continuations of a batch close, and of a stop.\<close>

datatype handler = user_handler nat | no_handler | close_handler nat | http_close_handler nat | stop_handler error_t

record ('m, 'v) pending =
  cost :: nat
  writer :: "('m, 'v) call"
  handler :: handler

text \<open>The calls to the socket.\<close>

datatype ('m, 'v) socket_call =
    ws_write 'm bool
  | tcp_write 'm
  | peer_write 'm
  | rpc_write "'m rpc_part"
  | rpc_notify "'v rpc_message"
  | rpc_write_chunk "'m rpc_part"
  | http_write_header
  | http_write "('m, 'v) http_body"
  | rpc_read bool
  | ws_read
  | tcp_read
  | peer_read_call
  | http_read
  | http_read_header
  | http_read_body
  | http_read_some
  | detect_call
  | stop_call
  | lazy_stop_call

text \<open>What follows a write that is in progress, and a read.\<close>

datatype 'm write_next = next_write | next_header "'m rpc_part"

datatype read_next = next_counted nat | next_rpc nat | next_detect nat | next_http_header nat | next_http_body nat

record ('m, 'v) proxy_config =
  rate_limit :: uint32
  maximum_backlog :: nat
  size_of :: "('m, 'v) call \<Rightarrow> nat"
  never_lazy :: bool

record ('m, 'v) proxy =
  pqueue :: "('m, 'v) pending list"
  deferred :: "('m, 'v) pending list"
  backlog :: nat
  writing :: bool
  batched :: bool
  parted :: bool
  parser :: bool
  bytes_sent :: nat
  bytes_received :: nat
  stop_subscriber :: "nat subscriber"
  throttled :: "('m write_next \<times> error_t \<times> nat) option"
  socket_stopped :: bool
  zeromq :: bool
  websocket :: bool
  downgraded :: bool
  detected :: bool
  calls :: "('m, 'v) socket_call list"
  write_progress :: "'m write_next list"
  read_progress :: "read_next list"
  posted_stops :: "error_t list"
  invoked :: "(nat \<times> error_t \<times> nat) list"
  stop_notices :: "(nat \<times> error_t) list"
  accepted :: "('m, 'v) pending list"
  issued :: "('m, 'v) pending list"
  completed :: "('m, 'v) pending list"

text \<open>
  The last three members are history: the entries accepted to the queue, those whose write was issued
  and those whose write completed.
\<close>

definition proxy_init :: "bool \<Rightarrow> ('m, 'v) proxy" where
  "proxy_init zmq = \<lparr>pqueue = [], deferred = [], backlog = 0, writing = False, batched = False, parted = False,
     parser = False, bytes_sent = 0, bytes_received = 0, stop_subscriber = sub_init, throttled = None,
     socket_stopped = False, zeromq = zmq, websocket = False, downgraded = False, detected = False,
     calls = [], write_progress = [], read_progress = [], posted_stops = [], invoked = [], stop_notices = [],
     accepted = [], issued = [], completed = []\<rparr>"

section \<open>Calls to the socket\<close>

definition make_call :: "('m, 'v) socket_call \<Rightarrow> ('m, 'v) proxy \<Rightarrow> ('m, 'v) proxy" where
  "make_call c s = s\<lparr>calls := calls s @ [c]\<rparr>"

definition start_write :: "('m, 'v) socket_call \<Rightarrow> 'm write_next \<Rightarrow> ('m, 'v) proxy \<Rightarrow> ('m, 'v) proxy" where
  "start_write c next s = (make_call c s)\<lparr>write_progress := write_progress s @ [next]\<rparr>"

definition start_read :: "('m, 'v) socket_call \<Rightarrow> read_next \<Rightarrow> ('m, 'v) proxy \<Rightarrow> ('m, 'v) proxy" where
  "start_read c next s = (make_call c s)\<lparr>read_progress := read_progress s @ [next]\<rparr>"

definition invoke_user :: "nat \<Rightarrow> error_t \<Rightarrow> nat \<Rightarrow> ('m, 'v) proxy \<Rightarrow> ('m, 'v) proxy" where
  "invoke_user n ec count s = s\<lparr>invoked := invoked s @ [(n, ec, count)]\<rparr>"

definition do_http_write :: "('m, 'v) http_body \<Rightarrow> ('m, 'v) proxy \<Rightarrow> ('m, 'v) proxy" where
  "do_http_write body s =
    (case body of
       http_part part \<Rightarrow>
         if websocket s then start_write (http_write body) next_write s
         else if part_batch part then start_write (rpc_write_chunk part) next_write s
         else if part_changed part then start_write http_write_header (next_header part) s
         else start_write (http_write body) next_write s
     | _ \<Rightarrow> start_write (http_write body) next_write s)"

fun call_writer :: "('m, 'v) call \<Rightarrow> ('m, 'v) proxy \<Rightarrow> ('m, 'v) proxy" where
  "call_writer (ws_call m binary) s = start_write (ws_write m binary) next_write s"
| "call_writer (tcp_call m) s = start_write (tcp_write m) next_write s"
| "call_writer (peer_call m) s = start_write (peer_write m) next_write s"
| "call_writer (response_call part) s = start_write (rpc_write part) next_write s"
| "call_writer (notification_call m) s = start_write (rpc_notify m) next_write s"
| "call_writer (http_call body) s = do_http_write body s"

section \<open>Queue\<close>

definition entry_size :: nat where "entry_size = 256"

definition proxy_write :: "('m, 'v) proxy \<Rightarrow> ('m, 'v) proxy" where
  "proxy_write s =
    (case pqueue s of [] \<Rightarrow> s
     | front # _ \<Rightarrow> call_writer (writer front) (s\<lparr>writing := True, issued := issued s @ [front]\<rparr>))"

text \<open>The end of \<open>do_write\<close>: the push, and the start of the loop.\<close>

definition push_write :: "('m, 'v) pending \<Rightarrow> ('m, 'v) proxy \<Rightarrow> ('m, 'v) proxy" where
  "push_write w s =
    (let s' = s\<lparr>pqueue := pqueue s @ [w], accepted := accepted s @ [w]\<rparr>
     in if pqueue s \<noteq> [] then s' else proxy_write s')"

text \<open>\<open>do_write\<close> of a solicited write.\<close>

definition do_solicited :: "('m, 'v) pending \<Rightarrow> ('m, 'v) proxy \<Rightarrow> ('m, 'v) proxy" where
  "do_solicited w s = (if socket_stopped s then s else push_write (w\<lparr>cost := 0\<rparr>) s)"

definition close_part :: "'m rpc_part" where
  "close_part = \<lparr>part_message = None, part_batch = True, part_changed = True\<rparr>"

definition queue_close :: "handler \<Rightarrow> ('m, 'v) proxy \<Rightarrow> ('m, 'v) proxy" where
  "queue_close h s =
    (let s = s\<lparr>batched := False, parted := False\<rparr>;
         w = (if parser s then http_call (http_part close_part) else response_call close_part)
     in do_solicited \<lparr>cost = 0, writer = w, handler = h\<rparr> s)"

section \<open>Stop\<close>

definition lazy :: "('m, 'v) proxy_config \<Rightarrow> error_t \<Rightarrow> bool" where
  "lazy cfg ec \<longleftrightarrow> \<not> never_lazy cfg \<and> ec \<notin> {e_service_stopped, e_channel_stopped, e_operation_canceled,
     e_operation_failed, e_operation_timeout, e_peer_disconnect, e_bad_stream, e_end_of_stream,
     e_partial_message, e_short_read, e_tls_stream_truncated}"

definition finish_stop :: "('m, 'v) proxy_config \<Rightarrow> error_t \<Rightarrow> ('m, 'v) proxy \<Rightarrow> ('m, 'v) proxy" where
  "finish_stop cfg ec s = (make_call (if lazy cfg ec then lazy_stop_call else stop_call) s)
     \<lparr>socket_stopped := True, posted_stops := posted_stops s @ [ec]\<rparr>"

definition do_stop :: "error_t \<Rightarrow> ('m, 'v) proxy \<Rightarrow> ('m, 'v) proxy" where
  "do_stop ec s = queue_close (stop_handler ec) s"

definition proxy_stop :: "('m, 'v) proxy_config \<Rightarrow> bool \<Rightarrow> error_t \<Rightarrow> ('m, 'v) proxy \<Rightarrow> ('m, 'v) proxy" where
  "proxy_stop cfg stranded ec s =
    (if socket_stopped s then make_call stop_call s
     else if stranded \<and> batched s \<and> parted s then do_stop ec s
     else finish_stop cfg ec s)"

definition log_stop :: "nat \<Rightarrow> error_t \<Rightarrow> unit \<Rightarrow> (nat \<times> error_t) list \<Rightarrow> (nat \<times> error_t) list" where
  "log_stop n ec _ w = w @ [(n, ec)]"

definition proxy_stopping :: "error_t \<Rightarrow> ('m, 'v) proxy \<Rightarrow> ('m, 'v) proxy" where
  "proxy_stopping ec s =
    (let (subscribers, notices) = sub_stop log_stop ec () (stop_subscriber s) (stop_notices s)
     in s\<lparr>parser := False, pqueue := [], deferred := [], stop_subscriber := subscribers, stop_notices := notices\<rparr>)"

definition subscribe_stop :: "nat \<Rightarrow> nat \<Rightarrow> ('m, 'v) proxy \<Rightarrow> ('m, 'v) proxy" where
  "subscribe_stop n complete s =
    (if socket_stopped s then
       (invoke_user complete e_channel_stopped 0 s)\<lparr>stop_notices := stop_notices s @ [(n, e_channel_stopped)]\<rparr>
     else
       let (_, subscribers, notices) = sub_subscribe log_stop () n (stop_subscriber s) (stop_notices s)
       in invoke_user complete e_success 0 (s\<lparr>stop_subscriber := subscribers, stop_notices := notices\<rparr>))"

section \<open>Charge\<close>

definition charge :: "('m, 'v) proxy_config \<Rightarrow> ('m, 'v) pending \<Rightarrow> ('m, 'v) proxy \<Rightarrow>
    bool \<times> ('m, 'v) pending \<times> ('m, 'v) proxy" where
  "charge cfg w s =
    (let w = w\<lparr>cost := ceilinged_add (cost w) entry_size\<rparr>;
         idle = (pqueue s = [] \<and> deferred s = [])
     in if \<not> idle \<and> maximum_backlog cfg < ceilinged_add (backlog s) (cost w) then
          (False, w,
           if zeromq s then (case handler w of user_handler n \<Rightarrow> invoke_user n e_message_dropped 0 s | _ \<Rightarrow> s)
           else proxy_stop cfg True e_channel_backlog s)
        else (True, w, s\<lparr>backlog := ceilinged_add (backlog s) (cost w)\<rparr>))"

definition do_write :: "('m, 'v) proxy_config \<Rightarrow> ('m, 'v) pending \<Rightarrow> bool \<Rightarrow> ('m, 'v) proxy \<Rightarrow> ('m, 'v) proxy" where
  "do_write cfg w notification s =
    (if socket_stopped s then s
     else if notification then
       (let (ok, w, s) = charge cfg w s in if ok then push_write w s else s)
     else push_write (w\<lparr>cost := 0\<rparr>) s)"

definition do_defer_write :: "('m, 'v) proxy_config \<Rightarrow> ('m, 'v) pending \<Rightarrow> ('m, 'v) proxy \<Rightarrow> ('m, 'v) proxy" where
  "do_defer_write cfg w s =
    (if batched s then
       (let (ok, w, s) = charge cfg w s in if ok then s\<lparr>deferred := deferred s @ [w]\<rparr> else s)
     else do_write cfg w True s)"

section \<open>Reads\<close>

definition count_received :: "nat \<Rightarrow> ('m, 'v) proxy \<Rightarrow> ('m, 'v) proxy" where
  "count_received n s = s\<lparr>bytes_received := ceilinged_add (bytes_received s) n\<rparr>"

definition handle_counted :: "error_t \<Rightarrow> nat \<Rightarrow> nat \<Rightarrow> ('m, 'v) proxy \<Rightarrow> ('m, 'v) proxy" where
  "handle_counted ec count n s = invoke_user n ec count (count_received count s)"

definition do_rpc_request_read :: "nat \<Rightarrow> ('m, 'v) proxy \<Rightarrow> ('m, 'v) proxy" where
  "do_rpc_request_read n s = start_read (rpc_read (batched s)) (next_rpc n) s"

definition batch_open :: "'v rpc_request \<Rightarrow> bool" where
  "batch_open r \<longleftrightarrow> request_changed r \<and> \<not> request_batch r"

definition batch_close :: "'v rpc_request \<Rightarrow> bool" where
  "batch_close r \<longleftrightarrow> request_changed r \<and> request_batch r"

definition to_context :: "'v rpc_params option \<Rightarrow> 'v rpc_value" where
  "to_context params = (case params of
     Some (array_params values) \<Rightarrow> if 1 < length values then values ! 1 else rpc_null
   | _ \<Rightarrow> rpc_null)"

definition absorb_keepalive :: "('m, 'v) proxy_config \<Rightarrow> 'v rpc_request \<Rightarrow> ('m, 'v) proxy \<Rightarrow>
    bool \<times> ('m, 'v) proxy" where
  "absorb_keepalive cfg r s =
    (let m = request_message r
     in if rpc_method m = ''ping'' then
          (True, do_write cfg \<lparr>cost = 0,
             writer = notification_call \<lparr>rpc_method = ''pong'', rpc_params = Some (array_params [to_context (rpc_params m)])\<rparr>,
             handler = no_handler\<rparr> True s)
        else (rpc_method m = ''pong'', s))"

definition handle_rpc_read :: "('m, 'v) proxy_config \<Rightarrow> error_t \<Rightarrow> nat \<Rightarrow> 'v rpc_request \<Rightarrow> nat \<Rightarrow>
    ('m, 'v) proxy \<Rightarrow> ('m, 'v) proxy" where
  "handle_rpc_read cfg ec count r n s =
    (let s = count_received count s
     in if failed ec then invoke_user n ec count s
        else if zeromq s then
          (let (absorbed, s) = absorb_keepalive cfg r s
           in if absorbed then do_rpc_request_read n s else invoke_user n ec count s)
        else
          let s = (if batch_open r then s\<lparr>batched := True\<rparr> else s)
          in if batch_close r then queue_close (close_handler n) s
             else invoke_user n ec count s)"

definition handle_close_write :: "error_t \<Rightarrow> nat \<Rightarrow> nat \<Rightarrow> ('m, 'v) proxy \<Rightarrow> ('m, 'v) proxy" where
  "handle_close_write ec count n s =
    (if failed ec then invoke_user n ec count s
     else
       let started = (pqueue s \<noteq> []);
           s = s\<lparr>pqueue := pqueue s @ deferred s, accepted := accepted s @ deferred s, deferred := []\<rparr>;
           s = (if \<not> started \<and> pqueue s \<noteq> [] then proxy_write s else s)
       in do_rpc_request_read n s)"

definition do_http_body_read :: "nat \<Rightarrow> ('m, 'v) proxy \<Rightarrow> ('m, 'v) proxy" where
  "do_http_body_read n s = start_read http_read_some (next_http_body n) s"

definition do_http_request_read :: "nat \<Rightarrow> ('m, 'v) proxy \<Rightarrow> ('m, 'v) proxy" where
  "do_http_request_read n s = start_read http_read_header (next_http_header n) (s\<lparr>parser := True\<rparr>)"

definition do_downgrade_read :: "nat \<Rightarrow> ('m, 'v) proxy \<Rightarrow> ('m, 'v) proxy" where
  "do_downgrade_read n s = do_rpc_request_read n s"

definition handle_detect :: "error_t \<Rightarrow> nat \<Rightarrow> nat \<Rightarrow> ('m, 'v) proxy \<Rightarrow> ('m, 'v) proxy" where
  "handle_detect ec count n s =
    (if failed ec then invoke_user n ec count s
     else if downgraded s then do_downgrade_read n s
     else do_http_request_read n s)"

definition handle_http_header :: "error_t \<Rightarrow> nat \<Rightarrow> nat \<Rightarrow> ('m, 'v) proxy \<Rightarrow> ('m, 'v) proxy" where
  "handle_http_header ec count n s =
    (let s = count_received count s
     in if \<not> parser s then invoke_user n e_channel_stopped count s
        else if failed ec then invoke_user n ec count (s\<lparr>parser := False\<rparr>)
        else start_read http_read_body (next_http_body n) s)"

definition handle_http_element :: "nat \<Rightarrow> 'v rpc_request \<Rightarrow> nat \<Rightarrow> ('m, 'v) proxy \<Rightarrow> ('m, 'v) proxy" where
  "handle_http_element count r n s =
    (let s = (if batch_open r then s\<lparr>batched := True\<rparr> else s)
     in if batch_close r then queue_close (http_close_handler n) s
        else invoke_user n e_success count s)"

text \<open>The parser is given by whether it is done and by the json-rpc request its body holds, if any.\<close>

definition handle_http_body :: "error_t \<Rightarrow> nat \<Rightarrow> bool \<Rightarrow> 'v rpc_request option \<Rightarrow> nat \<Rightarrow>
    ('m, 'v) proxy \<Rightarrow> ('m, 'v) proxy" where
  "handle_http_body ec count is_done body n s =
    (let s = count_received count s
     in if \<not> parser s then invoke_user n e_channel_stopped count s
        else if ec = e_need_buffer then
          (case body of Some r \<Rightarrow> handle_http_element count r n s | None \<Rightarrow> s)
        else if failed ec then invoke_user n ec count (s\<lparr>parser := False\<rparr>)
        else if \<not> is_done then do_http_body_read n s
        else case body of
          Some r \<Rightarrow> if batch_close r then do_http_request_read n (s\<lparr>parser := False\<rparr>)
            else invoke_user n e_success count (s\<lparr>parser := False\<rparr>)
        | None \<Rightarrow> invoke_user n e_success count (s\<lparr>parser := False\<rparr>))"

definition handle_http_close_write :: "error_t \<Rightarrow> nat \<Rightarrow> nat \<Rightarrow> ('m, 'v) proxy \<Rightarrow> ('m, 'v) proxy" where
  "handle_http_close_write ec count n s =
    (if \<not> parser s then invoke_user n e_channel_stopped count s
     else if failed ec then invoke_user n ec count (s\<lparr>parser := False\<rparr>)
     else do_http_body_read n s)"

section \<open>Actions of the client\<close>

definition do_response_queue :: "('m, 'v) proxy_config \<Rightarrow> 'm \<Rightarrow> nat \<Rightarrow> ('m, 'v) proxy \<Rightarrow> ('m, 'v) proxy" where
  "do_response_queue cfg m n s =
    (let part = \<lparr>part_message = Some m, part_batch = batched s \<and> parted s, part_changed = batched s \<and> \<not> parted s\<rparr>;
         s = (if batched s then s\<lparr>parted := True\<rparr> else s)
     in do_write cfg \<lparr>cost = size_of cfg (response_call part), writer = response_call part,
          handler = user_handler n\<rparr> False s)"

definition notify_rpc :: "('m, 'v) proxy_config \<Rightarrow> 'v rpc_message \<Rightarrow> nat \<Rightarrow> ('m, 'v) proxy \<Rightarrow> ('m, 'v) proxy" where
  "notify_rpc cfg m n s = do_defer_write cfg
     \<lparr>cost = size_of cfg (notification_call m), writer = notification_call m, handler = user_handler n\<rparr> s"

text \<open>The body of an http response as the client gives it: a json-rpc response is not yet stamped.\<close>

datatype ('m, 'v) http_content = content_response 'm | content_request "'v rpc_message" | content_other 'm

fun stamp :: "bool \<Rightarrow> bool \<Rightarrow> ('m, 'v) http_content \<Rightarrow> ('m, 'v) http_body" where
  "stamp batch changed (content_response m) =
     http_part \<lparr>part_message = Some m, part_batch = batch, part_changed = changed\<rparr>"
| "stamp batch changed (content_request m) = http_request m"
| "stamp batch changed (content_other m) = http_other m"

fun is_response :: "('m, 'v) http_content \<Rightarrow> bool" where
  "is_response (content_response m) = True"
| "is_response _ = False"

definition do_http_queue :: "('m, 'v) proxy_config \<Rightarrow> ('m, 'v) http_content \<Rightarrow> bool \<Rightarrow> nat \<Rightarrow>
    ('m, 'v) proxy \<Rightarrow> ('m, 'v) proxy" where
  "do_http_queue cfg content bounded n s =
    (if batched s \<and> \<not> websocket s then
       if \<not> is_response content then invoke_user n e_bad_stream 0 s
       else let body = stamp (parted s) (\<not> parted s) content
            in do_write cfg \<lparr>cost = size_of cfg (http_call body), writer = http_call body, handler = user_handler n\<rparr>
                 bounded (s\<lparr>parted := True\<rparr>)
     else let body = stamp False False content
          in do_write cfg \<lparr>cost = size_of cfg (http_call body), writer = http_call body, handler = user_handler n\<rparr>
               bounded s)"

definition write_http :: "('m, 'v) proxy_config \<Rightarrow> ('m, 'v) http_content \<Rightarrow> bool \<Rightarrow> nat \<Rightarrow>
    ('m, 'v) proxy \<Rightarrow> ('m, 'v) proxy" where
  "write_http cfg content bounded n s =
    (if downgraded s then
       (case content of
          content_response m \<Rightarrow> do_response_queue cfg m n s
        | content_request m \<Rightarrow> notify_rpc cfg m n s
        | content_other m \<Rightarrow> invoke_user n e_bad_stream 0 s)
     else do_http_queue cfg content bounded n s)"

definition read_http :: "bool \<Rightarrow> nat \<Rightarrow> ('m, 'v) proxy \<Rightarrow> ('m, 'v) proxy" where
  "read_http rpc_body n s =
    (if websocket s then start_read http_read (next_counted n) s
     else if downgraded s then do_downgrade_read n s
     else if \<not> detected s \<and> rpc_body then start_read detect_call (next_detect n) s
     else if parser s then do_http_body_read n s
     else do_http_request_read n s)"

datatype ('m, 'v) action =
    act_ws_write 'm bool nat
  | act_tcp_write 'm nat
  | act_peer_write 'm bool nat
  | act_response 'm nat
  | act_notify "'v rpc_message" nat
  | act_http_write "('m, 'v) http_content" bool nat
  | act_stop bool error_t
  | act_subscribe_stop nat nat
  | act_ws_read nat
  | act_tcp_read nat
  | act_peer_read nat
  | act_rpc_read nat
  | act_http_read bool nat

definition unsolicited :: "('m, 'v) proxy_config \<Rightarrow> ('m, 'v) call \<Rightarrow> nat \<Rightarrow> ('m, 'v) pending" where
  "unsolicited cfg c n = \<lparr>cost = size_of cfg c, writer = c, handler = user_handler n\<rparr>"

fun act :: "('m, 'v) proxy_config \<Rightarrow> ('m, 'v) action \<Rightarrow> ('m, 'v) proxy \<Rightarrow> ('m, 'v) proxy" where
  "act cfg (act_ws_write m binary n) s = do_write cfg (unsolicited cfg (ws_call m binary) n) True s"
| "act cfg (act_tcp_write m n) s = do_write cfg (unsolicited cfg (tcp_call m) n) True s"
| "act cfg (act_peer_write m bounded n) s = do_write cfg (unsolicited cfg (peer_call m) n) bounded s"
| "act cfg (act_response m n) s = do_response_queue cfg m n s"
| "act cfg (act_notify m n) s = notify_rpc cfg m n s"
| "act cfg (act_http_write content bounded n) s = write_http cfg content bounded n s"
| "act cfg (act_stop stranded ec) s = proxy_stop cfg stranded ec s"
| "act cfg (act_subscribe_stop n complete) s = subscribe_stop n complete s"
| "act cfg (act_ws_read n) s = start_read ws_read (next_counted n) s"
| "act cfg (act_tcp_read n) s = start_read tcp_read (next_counted n) s"
| "act cfg (act_peer_read n) s = start_read peer_read_call (next_counted n) s"
| "act cfg (act_rpc_read n) s = do_rpc_request_read n s"
| "act cfg (act_http_read rpc_body n) s = read_http rpc_body n s"

section \<open>Write completion\<close>

fun invoke_handler :: "('m, 'v) proxy_config \<Rightarrow> handler \<Rightarrow> error_t \<Rightarrow> nat \<Rightarrow> ('m, 'v) proxy \<Rightarrow> ('m, 'v) proxy" where
  "invoke_handler cfg (user_handler n) ec count s = invoke_user n ec count s"
| "invoke_handler cfg no_handler ec count s = s"
| "invoke_handler cfg (close_handler n) ec count s = handle_close_write ec count n s"
| "invoke_handler cfg (http_close_handler n) ec count s = handle_http_close_write ec count n s"
| "invoke_handler cfg (stop_handler reason) ec count s = finish_stop cfg reason s"

text \<open>The removal of the front.\<close>

definition pop :: "('m, 'v) proxy \<Rightarrow> ('m, 'v) proxy" where
  "pop s = s\<lparr>backlog := backlog s - cost (hd (pqueue s)), pqueue := tl (pqueue s),
     completed := completed s @ take 1 (pqueue s)\<rparr>"

text \<open>The actions are those of the client's handler, which is invoked before the entry is removed.\<close>

definition handle_write :: "('m, 'v) proxy_config \<Rightarrow> ('m, 'v) action list \<Rightarrow> error_t \<Rightarrow> nat \<Rightarrow>
    ('m, 'v) proxy \<Rightarrow> ('m, 'v) proxy" where
  "handle_write cfg acts ec count s =
    (case pqueue s of [] \<Rightarrow> s
     | front # _ \<Rightarrow>
       let s = pop (fold (act cfg) acts (invoke_handler cfg (handler front) ec count s))
       in if socket_stopped s then s else proxy_write s)"

definition handle_http_header_write :: "('m, 'v) proxy_config \<Rightarrow> ('m, 'v) action list \<Rightarrow> error_t \<Rightarrow> nat \<Rightarrow>
    'm rpc_part \<Rightarrow> ('m, 'v) proxy \<Rightarrow> ('m, 'v) proxy" where
  "handle_http_header_write cfg acts ec count part s =
    (if failed ec then handle_write cfg acts ec count s
     else start_write (rpc_write_chunk part) next_write s)"

definition continue_write :: "('m, 'v) proxy_config \<Rightarrow> ('m, 'v) action list \<Rightarrow> 'm write_next \<Rightarrow> error_t \<Rightarrow> nat \<Rightarrow>
    ('m, 'v) proxy \<Rightarrow> ('m, 'v) proxy" where
  "continue_write cfg acts next ec count s =
    (case next of next_write \<Rightarrow> handle_write cfg acts ec count s
     | next_header part \<Rightarrow> handle_http_header_write cfg acts ec count part s)"

section \<open>Throttle\<close>

definition nanos :: nat where "nanos = 1000000000"

definition ceilinged_multiply :: "nat \<Rightarrow> nat \<Rightarrow> nat" where
  "ceilinged_multiply a b = min (a * b) (2 ^ 64 - 1)"

definition to_allocation :: "nat \<Rightarrow> uint32 \<Rightarrow> nat" where
  "to_allocation count rate = min (ceilinged_multiply count nanos div unat rate) (2 ^ 63 - 1)"

definition unconsumed :: "('m, 'v) proxy_config \<Rightarrow> nat \<Rightarrow> nat \<Rightarrow> ('m, 'v) proxy \<Rightarrow> nat" where
  "unconsumed cfg count consumed s =
    (if rate_limit cfg = 0 \<or> socket_stopped s then 0
     else let allocated = to_allocation count (rate_limit cfg)
          in if consumed < allocated then allocated - consumed else 0)"

definition handle_metered :: "('m, 'v) proxy_config \<Rightarrow> ('m, 'v) action list \<Rightarrow> 'm write_next \<Rightarrow> error_t \<Rightarrow> nat \<Rightarrow>
    nat \<Rightarrow> ('m, 'v) proxy \<Rightarrow> ('m, 'v) proxy" where
  "handle_metered cfg acts next ec count consumed s =
    (let s = s\<lparr>bytes_sent := ceilinged_add (bytes_sent s) count, writing := False\<rparr>
     in if unconsumed cfg count consumed s = 0 then continue_write cfg acts next ec count s
        else s\<lparr>throttled := Some (next, ec, count)\<rparr>)"

definition handle_charge :: "('m, 'v) proxy_config \<Rightarrow> ('m, 'v) action list \<Rightarrow> 'm write_next \<Rightarrow> error_t \<Rightarrow> nat \<Rightarrow>
    ('m, 'v) proxy \<Rightarrow> ('m, 'v) proxy" where
  "handle_charge cfg acts next ec count s = continue_write cfg acts next ec count s"

section \<open>Steps\<close>

fun is_read :: "('m, 'v) action \<Rightarrow> bool" where
  "is_read (act_ws_read _) = True"
| "is_read (act_tcp_read _) = True"
| "is_read (act_peer_read _) = True"
| "is_read (act_rpc_read _) = True"
| "is_read (act_http_read _ _) = True"
| "is_read _ = False"

fun is_close :: "handler \<Rightarrow> bool" where
  "is_close (close_handler _) = True"
| "is_close (http_close_handler _) = True"
| "is_close _ = False"

fun is_stop :: "handler \<Rightarrow> bool" where
  "is_stop (stop_handler _) = True"
| "is_stop _ = False"

text \<open>A read is in progress until its handler is invoked, also while a batch close is written for it.\<close>

definition reading :: "('m, 'v) proxy \<Rightarrow> bool" where
  "reading s \<longleftrightarrow> read_progress s \<noteq> [] \<or> (\<exists>w\<in>set (pqueue s). is_close (handler w))"

text \<open>
  The channel keeps one read at a time and arms it by a job of its own (not within a write handler);
  the predicate \<open>allowed\<close> restricts its actions; it answers each element of a batch before it reads on, and the reader yields no empty batch, so a
  batch closes only after a part was queued (or in the course of a stop).
\<close>

definition closes_answered :: "'v rpc_request option \<Rightarrow> ('m, 'v) proxy \<Rightarrow> bool" where
  "closes_answered body s \<longleftrightarrow> (\<forall>r. body = Some r \<and> batch_close r \<longrightarrow>
     parted s \<and> batched s \<or> (\<exists>w\<in>set (pqueue s). is_stop (handler w)))"

inductive proxy_step :: "(('m, 'v) action \<Rightarrow> bool) \<Rightarrow> ('m, 'v) proxy_config \<Rightarrow> ('m, 'v) proxy \<Rightarrow> ('m, 'v) proxy \<Rightarrow> bool" for allowed cfg where
  step_act: "allowed a \<Longrightarrow> (is_read a \<longrightarrow> \<not> reading s) \<Longrightarrow> proxy_step allowed cfg s (act cfg a s)"
| step_metered: "write_progress s = next # rest \<Longrightarrow> \<forall>a\<in>set acts. allowed a \<and> \<not> is_read a \<Longrightarrow>
    proxy_step allowed cfg s (handle_metered cfg acts next ec count consumed (s\<lparr>write_progress := rest\<rparr>))"
| step_charge: "throttled s = Some (next, ec, count) \<Longrightarrow> \<forall>a\<in>set acts. allowed a \<and> \<not> is_read a \<Longrightarrow>
    proxy_step allowed cfg s (handle_charge cfg acts next ec count (s\<lparr>throttled := None\<rparr>))"
| step_counted: "read_progress s = next_counted n # rest \<Longrightarrow>
    proxy_step allowed cfg s (handle_counted ec count n (s\<lparr>read_progress := rest\<rparr>))"
| step_rpc_read: "read_progress s = next_rpc n # rest \<Longrightarrow> closes_answered (Some r) s \<Longrightarrow>
    proxy_step allowed cfg s (handle_rpc_read cfg ec count r n (s\<lparr>read_progress := rest\<rparr>))"
| step_detect: "read_progress s = next_detect n # rest \<Longrightarrow>
    proxy_step allowed cfg s (handle_detect ec count n (s\<lparr>read_progress := rest, detected := True, downgraded := d\<rparr>))"
| step_http_header: "read_progress s = next_http_header n # rest \<Longrightarrow>
    proxy_step allowed cfg s (handle_http_header ec count n (s\<lparr>read_progress := rest\<rparr>))"
| step_http_body: "read_progress s = next_http_body n # rest \<Longrightarrow> closes_answered body s \<Longrightarrow>
    (ec = e_need_buffer \<longrightarrow> body \<noteq> None) \<Longrightarrow>
    proxy_step allowed cfg s (handle_http_body ec count is_done body n (s\<lparr>read_progress := rest\<rparr>))"
| step_stopping: "posted_stops s = ec # rest \<Longrightarrow> proxy_step allowed cfg s (proxy_stopping ec (s\<lparr>posted_stops := rest\<rparr>))"

inductive proxying :: "(('m, 'v) action \<Rightarrow> bool) \<Rightarrow> ('m, 'v) proxy_config \<Rightarrow> bool \<Rightarrow> ('m, 'v) proxy \<Rightarrow> bool" for allowed cfg zmq where
  proxy_started: "proxying allowed cfg zmq (proxy_init zmq)"
| proxy_stepped: "proxying allowed cfg zmq s \<Longrightarrow> proxy_step allowed cfg s s' \<Longrightarrow> proxying allowed cfg zmq s'"

end
