(* ===== verification/Proxy_Queue.thy ===== *)
theory Proxy_Queue
  imports Proxy "HOL-Library.Sublist"
begin

text \<open>
  The write queue of the proxy: writes are issued one at a time in the order in which they were
  accepted, and the charges of the queued entries are bounded. Both are invariants of the steps of
  \<open>Proxy\<close>, with lemmas for each operation.
\<close>

section \<open>The queue discipline\<close>

text \<open>The writes in progress at the socket or deferred by the throttle.\<close>

definition outstanding :: "('m, 'v) proxy \<Rightarrow> nat" where
  "outstanding s = length (write_progress s) + (if throttled s = None then 0 else 1)"

text \<open>
  The discipline: one write is outstanding while the queue is not empty, writes are issued and complete
  in the order in which they were accepted. Within a write completion (\<open>executing\<close>) none is outstanding
  and the entry is still at the front.
\<close>

definition queue_ok :: "bool \<Rightarrow> ('m, 'v) proxy \<Rightarrow> bool" where
  "queue_ok executing s \<longleftrightarrow> (posted_stops s \<noteq> [] \<longrightarrow> socket_stopped s) \<and>
     outstanding s \<le> 1 \<and> (executing \<longrightarrow> outstanding s = 0 \<and> pqueue s \<noteq> []) \<and>
     prefix (completed s) (issued s) \<and> length (issued s) \<le> length (completed s) + 1 \<and>
     prefix (issued s) (accepted s) \<and>
     (pqueue s \<noteq> [] \<and> (executing \<or> outstanding s = 1) \<longrightarrow> issued s = completed s @ [hd (pqueue s)]) \<and>
     (\<not> socket_stopped s \<longrightarrow> accepted s = completed s @ pqueue s \<and>
        (\<not> executing \<longrightarrow> outstanding s = (if pqueue s = [] then 0 else 1)) \<and>
        (pqueue s = [] \<longrightarrow> issued s = completed s))"

definition cost_sum :: "('m, 'v) pending list \<Rightarrow> nat" where
  "cost_sum ws = sum_list (map cost ws)"

text \<open>The charges, and their bound: the maximum, or the one entry admitted to an idle channel.\<close>

definition within :: "('m, 'v) proxy_config \<Rightarrow> nat \<Rightarrow> ('m, 'v) pending list \<Rightarrow> bool" where
  "within cfg total_cost ws \<longleftrightarrow> total_cost \<le> maximum_backlog cfg \<or> (\<exists>w\<in>set ws. total_cost = cost w)"

lemma within_mono: "within cfg n ws \<Longrightarrow> set ws \<subseteq> set vs \<Longrightarrow> within cfg n vs"
  by (auto simp: within_def)

definition backlog_ok :: "('m, 'v) proxy_config \<Rightarrow> ('m, 'v) proxy \<Rightarrow> bool" where
  "backlog_ok cfg s \<longleftrightarrow> (\<not> socket_stopped s \<longrightarrow>
     backlog s = cost_sum (pqueue s) + cost_sum (deferred s) \<and> within cfg (backlog s) (pqueue s @ deferred s))"

text \<open>The members that the discipline does not constrain.\<close>

lemma discipline_unconstrained [simp]:
  "queue_ok e (s\<lparr>writing := x_writing\<rparr>) = queue_ok e s" "backlog_ok cfg (s\<lparr>writing := x_writing\<rparr>) = backlog_ok cfg s"
  "queue_ok e (s\<lparr>batched := x_batched\<rparr>) = queue_ok e s" "backlog_ok cfg (s\<lparr>batched := x_batched\<rparr>) = backlog_ok cfg s"
  "queue_ok e (s\<lparr>parted := x_parted\<rparr>) = queue_ok e s" "backlog_ok cfg (s\<lparr>parted := x_parted\<rparr>) = backlog_ok cfg s"
  "queue_ok e (s\<lparr>parser := x_parser\<rparr>) = queue_ok e s" "backlog_ok cfg (s\<lparr>parser := x_parser\<rparr>) = backlog_ok cfg s"
  "queue_ok e (s\<lparr>bytes_sent := x_bytes_sent\<rparr>) = queue_ok e s" "backlog_ok cfg (s\<lparr>bytes_sent := x_bytes_sent\<rparr>) = backlog_ok cfg s"
  "queue_ok e (s\<lparr>bytes_received := x_bytes_received\<rparr>) = queue_ok e s" "backlog_ok cfg (s\<lparr>bytes_received := x_bytes_received\<rparr>) = backlog_ok cfg s"
  "queue_ok e (s\<lparr>stop_subscriber := x_stop_subscriber\<rparr>) = queue_ok e s" "backlog_ok cfg (s\<lparr>stop_subscriber := x_stop_subscriber\<rparr>) = backlog_ok cfg s"
  "queue_ok e (s\<lparr>zeromq := x_zeromq\<rparr>) = queue_ok e s" "backlog_ok cfg (s\<lparr>zeromq := x_zeromq\<rparr>) = backlog_ok cfg s"
  "queue_ok e (s\<lparr>websocket := x_websocket\<rparr>) = queue_ok e s" "backlog_ok cfg (s\<lparr>websocket := x_websocket\<rparr>) = backlog_ok cfg s"
  "queue_ok e (s\<lparr>downgraded := x_downgraded\<rparr>) = queue_ok e s" "backlog_ok cfg (s\<lparr>downgraded := x_downgraded\<rparr>) = backlog_ok cfg s"
  "queue_ok e (s\<lparr>detected := x_detected\<rparr>) = queue_ok e s" "backlog_ok cfg (s\<lparr>detected := x_detected\<rparr>) = backlog_ok cfg s"
  "queue_ok e (s\<lparr>calls := x_calls\<rparr>) = queue_ok e s" "backlog_ok cfg (s\<lparr>calls := x_calls\<rparr>) = backlog_ok cfg s"
  "queue_ok e (s\<lparr>read_progress := x_read_progress\<rparr>) = queue_ok e s" "backlog_ok cfg (s\<lparr>read_progress := x_read_progress\<rparr>) = backlog_ok cfg s"
  "backlog_ok cfg (s\<lparr>posted_stops := x_posted_stops\<rparr>) = backlog_ok cfg s"
  "queue_ok e (s\<lparr>invoked := x_invoked\<rparr>) = queue_ok e s" "backlog_ok cfg (s\<lparr>invoked := x_invoked\<rparr>) = backlog_ok cfg s"
  "queue_ok e (s\<lparr>stop_notices := x_stop_notices\<rparr>) = queue_ok e s" "backlog_ok cfg (s\<lparr>stop_notices := x_stop_notices\<rparr>) = backlog_ok cfg s"
  by (simp_all add: queue_ok_def backlog_ok_def outstanding_def)

lemma backlog_ok_writes [simp]:
  "backlog_ok cfg (s\<lparr>write_progress := x\<rparr>) = backlog_ok cfg s" "backlog_ok cfg (s\<lparr>throttled := y\<rparr>) = backlog_ok cfg s"
  "backlog_ok cfg (s\<lparr>issued := ws\<rparr>) = backlog_ok cfg s" "backlog_ok cfg (s\<lparr>accepted := ws\<rparr>) = backlog_ok cfg s"
  "backlog_ok cfg (s\<lparr>completed := ws\<rparr>) = backlog_ok cfg s"
  by (simp_all add: backlog_ok_def)

lemma cost_sum_simps [simp]:
  "cost_sum [] = 0" "cost_sum (w # ws) = cost w + cost_sum ws" "cost_sum (ws @ vs) = cost_sum ws + cost_sum vs"
  by (simp_all add: cost_sum_def)

text \<open>A writer starts exactly one write.\<close>

lemma call_writer_starts:
  "\<exists>call next. call_writer w s = start_write call next s"
  by (cases "(w, s)" rule: call_writer.cases)
    (auto simp: do_http_write_def split: http_body.splits)

lemma call_writer_core:
  "pqueue (call_writer w s) = pqueue s" "deferred (call_writer w s) = deferred s" "backlog (call_writer w s) = backlog s"
  "socket_stopped (call_writer w s) = socket_stopped s" "throttled (call_writer w s) = throttled s"
  "accepted (call_writer w s) = accepted s" "issued (call_writer w s) = issued s"
  "completed (call_writer w s) = completed s" "batched (call_writer w s) = batched s"
  "parted (call_writer w s) = parted s" "parser (call_writer w s) = parser s"
  "zeromq (call_writer w s) = zeromq s" "websocket (call_writer w s) = websocket s"
  "read_progress (call_writer w s) = read_progress s"
  "posted_stops (call_writer w s) = posted_stops s"
  "length (write_progress (call_writer w s)) = Suc (length (write_progress s))"
  using call_writer_starts [of w s] by (auto simp: start_write_def make_call_def)

lemma proxy_write_ok:
  assumes "accepted s = completed s @ pqueue s" "issued s = completed s" "outstanding s = 0"
    "posted_stops s \<noteq> [] \<longrightarrow> socket_stopped s"
  shows "queue_ok False (proxy_write s)" "backlog_ok cfg (proxy_write s) = backlog_ok cfg s"
  using assms
  by (auto simp: proxy_write_def queue_ok_def backlog_ok_def outstanding_def call_writer_core split: list.splits if_splits)

lemma push_write_ok:
  assumes "queue_ok e s" "\<not> socket_stopped s"
  shows "queue_ok e (push_write w s)"
proof (cases "pqueue s = []")
  case True
  with assms show ?thesis
    using proxy_write_ok(1) [of "s\<lparr>pqueue := [w], accepted := accepted s @ [w]\<rparr>"]
    by (cases e) (simp_all add: push_write_def queue_ok_def outstanding_def Let_def)
next
  case False
  with assms show ?thesis
    by (auto simp: push_write_def queue_ok_def outstanding_def Let_def)
qed

lemma push_write_core:
  "pqueue (push_write w s) = pqueue s @ [w]" "deferred (push_write w s) = deferred s"
  "backlog (push_write w s) = backlog s" "socket_stopped (push_write w s) = socket_stopped s"
  "accepted (push_write w s) = accepted s @ [w]" "completed (push_write w s) = completed s"
  "batched (push_write w s) = batched s" "parted (push_write w s) = parted s" "parser (push_write w s) = parser s"
  "zeromq (push_write w s) = zeromq s" "websocket (push_write w s) = websocket s"
  "read_progress (push_write w s) = read_progress s"
  by (simp_all add: push_write_def proxy_write_def call_writer_core Let_def split: list.splits)

lemma push_write_backlog:
  assumes "backlog s = cost_sum (pqueue s) + cost w + cost_sum (deferred s)"
    "within cfg (backlog s) (w # pqueue s @ deferred s)"
  shows "backlog_ok cfg (push_write w s)"
  using assms(1) within_mono [OF assms(2), of "pqueue s @ w # deferred s"]
  by (auto simp: backlog_ok_def push_write_core)

lemma do_solicited_queue: "queue_ok e s \<Longrightarrow> queue_ok e (do_solicited w s)"
  by (simp add: do_solicited_def push_write_ok)

lemma push_zero_backlog:
  assumes "backlog_ok cfg s"
  shows "backlog_ok cfg (push_write (w\<lparr>cost := 0\<rparr>) s)"
proof (cases "socket_stopped s")
  case False
  show ?thesis
    by (rule push_write_backlog) (use assms False in \<open>auto simp: backlog_ok_def elim!: within_mono\<close>)
qed (simp add: backlog_ok_def push_write_core)

lemma do_solicited_backlog: "backlog_ok cfg s \<Longrightarrow> backlog_ok cfg (do_solicited w s)"
  by (simp add: do_solicited_def push_zero_backlog)

lemma queue_close_queue: "queue_ok e s \<Longrightarrow> queue_ok e (queue_close h s)"
  by (simp add: queue_close_def do_solicited_queue Let_def)

lemma queue_close_backlog: "backlog_ok cfg s \<Longrightarrow> backlog_ok cfg (queue_close h s)"
  by (simp add: queue_close_def do_solicited_backlog Let_def)

lemma finish_stop_queue: "queue_ok e s \<Longrightarrow> queue_ok e (finish_stop cfg ec s)"
  by (auto simp: finish_stop_def make_call_def queue_ok_def outstanding_def)

lemma finish_stop_backlog: "backlog_ok cfg' (finish_stop cfg ec s)"
  by (simp add: finish_stop_def make_call_def backlog_ok_def)

lemma proxy_stop_queue: "queue_ok e s \<Longrightarrow> queue_ok e (proxy_stop cfg stranded ec s)"
  by (simp add: proxy_stop_def do_stop_def queue_close_queue finish_stop_queue make_call_def)

lemma proxy_stop_backlog: "backlog_ok cfg s \<Longrightarrow> backlog_ok cfg (proxy_stop cfg stranded ec s)"
  by (simp add: proxy_stop_def do_stop_def queue_close_backlog finish_stop_backlog make_call_def)

text \<open>An accepted charge leaves a state from which the entry can be queued or deferred.\<close>

lemma charge_accepted:
  assumes "charge cfg w s = (True, w', s')"
  shows "s' = s\<lparr>backlog := ceilinged_add (backlog s) (cost w')\<rparr>"
    and "w' = w\<lparr>cost := ceilinged_add (cost w) entry_size\<rparr>"
    and "pqueue s = [] \<and> deferred s = [] \<or> ceilinged_add (backlog s) (cost w') \<le> maximum_backlog cfg"
  using assms by (auto simp: charge_def Let_def split: if_splits)

lemma charge_accepted_ok:
  assumes "charge cfg w s = (True, w', s')" "backlog_ok cfg s" "maximum_backlog cfg < 2 ^ 64 - 1" "\<not> socket_stopped s"
  shows "backlog s' = cost_sum (pqueue s) + cost w' + cost_sum (deferred s)"
    and "within cfg (backlog s') (w' # pqueue s @ deferred s)"
proof -
  note accepted = charge_accepted [OF assms(1)]
  have sum: "backlog s = cost_sum (pqueue s) + cost_sum (deferred s)"
    using assms(2,4) by (simp add: backlog_ok_def)
  have "cost w' \<le> 2 ^ 64 - 1" by (simp add: accepted(2) ceilinged_add_def)
  then show total: "backlog s' = cost_sum (pqueue s) + cost w' + cost_sum (deferred s)"
    using accepted(3) sum assms(3) unfolding accepted(1) by (auto simp: ceilinged_add_def)
  show "within cfg (backlog s') (w' # pqueue s @ deferred s)"
    using accepted(3) total unfolding accepted(1) by (auto simp: within_def)
qed

lemma charge_refused:
  assumes "charge cfg w s = (False, w', s')"
  shows "queue_ok e s \<Longrightarrow> queue_ok e s'" "backlog_ok cfg s \<Longrightarrow> backlog_ok cfg s'"
  using assms by (auto simp: charge_def invoke_user_def proxy_stop_queue proxy_stop_backlog Let_def
      split: if_splits handler.splits)

lemma queue_ok_charges [simp]:
  "queue_ok e (s\<lparr>backlog := b\<rparr>) = queue_ok e s" "queue_ok e (s\<lparr>deferred := ws\<rparr>) = queue_ok e s"
  by (simp_all add: queue_ok_def outstanding_def)

lemma charge_accepted_core:
  assumes "charge cfg w s = (True, w', s')"
  shows "pqueue s' = pqueue s" "deferred s' = deferred s" "socket_stopped s' = socket_stopped s"
    "batched s' = batched s" "parted s' = parted s" "accepted s' = accepted s" "issued s' = issued s"
    "completed s' = completed s" "read_progress s' = read_progress s" "queue_ok e s' = queue_ok e s"
  by (subst charge_accepted(1) [OF assms], simp)+

lemma do_write_queue:
  assumes "queue_ok e s"
  shows "queue_ok e (do_write cfg w notification s)"
proof -
  obtain ok w' s' where charge: "charge cfg w s = (ok, w', s')" by (metis surj_pair)
  show ?thesis
  proof (cases ok)
    case True
    with charge assms show ?thesis
      by (simp add: do_write_def push_write_ok charge_accepted_core)
  next
    case False
    with charge assms show ?thesis
      by (auto simp: do_write_def push_write_ok intro: charge_refused(1))
  qed
qed

lemma do_write_backlog:
  assumes "backlog_ok cfg s" "maximum_backlog cfg < 2 ^ 64 - 1"
  shows "backlog_ok cfg (do_write cfg w notification s)"
proof -
  obtain ok w' s' where charge: "charge cfg w s = (ok, w', s')" by (metis surj_pair)
  show ?thesis
  proof (cases "ok \<and> \<not> socket_stopped s")
    case True
    with charge have accepted: "charge cfg w s = (True, w', s')" by simp
    have "backlog_ok cfg (push_write w' s')"
      by (rule push_write_backlog)
        (use charge_accepted_ok [OF accepted assms] charge_accepted_core [OF accepted] True in simp_all)
    with True charge assms show ?thesis by (simp add: do_write_def push_zero_backlog)
  next
    case False
    with charge assms show ?thesis
      by (auto simp: do_write_def push_zero_backlog intro: charge_refused(2))
  qed
qed

lemma do_defer_write_queue:
  assumes "queue_ok e s"
  shows "queue_ok e (do_defer_write cfg w s)"
proof -
  obtain ok w' s' where charge: "charge cfg w s = (ok, w', s')" by (metis surj_pair)
  with assms show ?thesis
    by (cases ok) (auto simp: do_defer_write_def do_write_queue charge_accepted_core intro: charge_refused(1))
qed

lemma do_defer_write_backlog:
  assumes "backlog_ok cfg s" "maximum_backlog cfg < 2 ^ 64 - 1"
  shows "backlog_ok cfg (do_defer_write cfg w s)"
proof -
  obtain ok w' s' where charge: "charge cfg w s = (ok, w', s')" by (metis surj_pair)
  show ?thesis
  proof (cases ok)
    case True
    with charge have accepted: "charge cfg w s = (True, w', s')" by simp
    have "backlog_ok cfg (s'\<lparr>deferred := deferred s' @ [w']\<rparr>)"
      using charge_accepted_ok [OF accepted assms] charge_accepted_core [OF accepted]
      by (cases "socket_stopped s") (auto simp: backlog_ok_def elim!: within_mono)
    with True charge assms show ?thesis by (simp add: do_defer_write_def do_write_backlog)
  next
    case False
    with charge assms show ?thesis
      by (auto simp: do_defer_write_def do_write_backlog intro: charge_refused(2))
  qed
qed

named_theorems proxy_read_defs

lemmas [proxy_read_defs] = start_read_def make_call_def invoke_user_def count_received_def handle_counted_def
  do_rpc_request_read_def do_http_body_read_def do_http_request_read_def do_downgrade_read_def handle_detect_def
  handle_http_header_def read_http_def subscribe_stop_def Let_def

lemma act_queue: "queue_ok e s \<Longrightarrow> queue_ok e (act cfg a s)"
  by (cases a) (auto simp: do_response_queue_def notify_rpc_def write_http_def do_http_queue_def do_write_queue
      do_defer_write_queue proxy_stop_queue proxy_read_defs split: http_content.splits prod.splits)

lemma act_backlog:
  assumes "backlog_ok cfg s" "maximum_backlog cfg < 2 ^ 64 - 1"
  shows "backlog_ok cfg (act cfg a s)"
  using assms
  by (cases a) (auto simp: do_response_queue_def notify_rpc_def write_http_def do_http_queue_def do_write_backlog
      do_defer_write_backlog proxy_stop_backlog proxy_read_defs split: http_content.splits prod.splits)

lemma acts_ok:
  "queue_ok e s \<Longrightarrow> queue_ok e (fold (act cfg) acts s)"
  "backlog_ok cfg s \<Longrightarrow> maximum_backlog cfg < 2 ^ 64 - 1 \<Longrightarrow> backlog_ok cfg (fold (act cfg) acts s)"
  by (induction acts arbitrary: s) (simp_all add: act_queue act_backlog)

text \<open>The drain of the deferred entries extends the queue, which is not empty within a completion.\<close>

lemma drain_queue:
  "queue_ok True s \<Longrightarrow> queue_ok True (s\<lparr>pqueue := pqueue s @ ws, accepted := accepted s @ ws\<rparr>)"
  by (auto simp: queue_ok_def outstanding_def)

lemma drain_backlog:
  "backlog_ok cfg s \<Longrightarrow> backlog_ok cfg (s\<lparr>pqueue := pqueue s @ deferred s, accepted := ws, deferred := []\<rparr>)"
  by (auto simp: backlog_ok_def)

lemma handle_close_write_ok:
  assumes "queue_ok True s"
  shows "queue_ok True (handle_close_write ec count n s)"
    and "backlog_ok cfg s \<Longrightarrow> backlog_ok cfg (handle_close_write ec count n s)"
proof -
  have nonempty: "pqueue s \<noteq> []" using assms by (simp add: queue_ok_def)
  let ?s = "s\<lparr>pqueue := pqueue s @ deferred s, accepted := accepted s @ deferred s, deferred := []\<rparr>"
  have "queue_ok True ?s" using queue_ok_charges(2) [THEN iffD2, OF drain_queue [OF assms]] by simp
  then show "queue_ok True (handle_close_write ec count n s)"
    using assms nonempty by (simp add: handle_close_write_def proxy_read_defs)
  show "backlog_ok cfg (handle_close_write ec count n s)" if "backlog_ok cfg s"
    using that drain_backlog [OF that] nonempty by (simp add: handle_close_write_def proxy_read_defs)
qed

lemma invoke_handler_ok:
  assumes "queue_ok True s"
  shows "queue_ok True (invoke_handler cfg h ec count s)"
    and "backlog_ok cfg s \<Longrightarrow> backlog_ok cfg (invoke_handler cfg h ec count s)"
  using assms
  by (cases h; simp add: handle_close_write_ok finish_stop_queue finish_stop_backlog handle_http_close_write_def
      proxy_read_defs)+

lemma pop_queue:
  assumes "queue_ok True s"
  shows "queue_ok False (if socket_stopped (pop s) then pop s else proxy_write (pop s))"
proof (cases "socket_stopped s")
  case True
  with assms show ?thesis by (cases "pqueue s") (auto simp: queue_ok_def pop_def outstanding_def)
next
  case False
  have "queue_ok False (proxy_write (pop s))"
    by (rule proxy_write_ok(1); use assms False in \<open>cases "pqueue s"\<close>)
      (auto simp: queue_ok_def pop_def outstanding_def)
  with False show ?thesis by (simp add: pop_def)
qed

lemma cost_le_sum: "w \<in> set ws \<Longrightarrow> cost w \<le> cost_sum ws"
  by (induction ws) auto

lemma pop_within:
  assumes "within cfg (cost w + cost_sum ws) (w # ws)"
  shows "within cfg (cost_sum ws) ws"
proof (cases "cost_sum ws \<le> maximum_backlog cfg")
  case False
  with assms obtain v where "v \<in> set (w # ws)" "cost w + cost_sum ws = cost v" by (auto simp: within_def)
  moreover from this False have "v \<in> set ws \<Longrightarrow> cost_sum ws = cost v" using cost_le_sum [of v ws] by simp
  ultimately show ?thesis using False by (auto simp: within_def)
qed (simp add: within_def)

lemma pop_backlog:
  assumes "backlog_ok cfg s" "pqueue s \<noteq> []"
  shows "backlog_ok cfg (pop s)"
  using assms pop_within [of cfg "hd (pqueue s)" "tl (pqueue s) @ deferred s"]
  by (cases "pqueue s") (auto simp: backlog_ok_def pop_def add.assoc)

lemma proxy_write_backlog: "backlog_ok cfg (proxy_write s) = backlog_ok cfg s"
  by (simp add: proxy_write_def backlog_ok_def call_writer_core split: list.splits)

text \<open>A completion returns the discipline from the state in which its write has just ended.\<close>

definition ended :: "('m, 'v) proxy \<Rightarrow> bool" where
  "ended s \<longleftrightarrow> (if pqueue s = [] then queue_ok False s \<and> outstanding s = 0 \<and> socket_stopped s
     else queue_ok True s)"

lemma handle_write_queue:
  assumes "ended s"
  shows "queue_ok False (handle_write cfg acts ec count s)"
proof (cases "pqueue s")
  case Nil
  with assms show ?thesis by (simp add: handle_write_def ended_def)
next
  case (Cons front rest)
  with assms have "queue_ok True (fold (act cfg) acts (invoke_handler cfg (handler front) ec count s))"
    by (simp add: ended_def acts_ok invoke_handler_ok)
  from pop_queue [OF this] Cons show ?thesis by (simp add: handle_write_def Let_def)
qed

lemma handle_write_backlog:
  assumes "ended s" "backlog_ok cfg s" "maximum_backlog cfg < 2 ^ 64 - 1"
  shows "backlog_ok cfg (handle_write cfg acts ec count s)"
proof (cases "pqueue s")
  case Nil
  with assms show ?thesis by (simp add: handle_write_def)
next
  case (Cons front rest)
  let ?s = "fold (act cfg) acts (invoke_handler cfg (handler front) ec count s)"
  from Cons assms have "queue_ok True ?s" "backlog_ok cfg ?s"
    by (simp_all add: ended_def acts_ok invoke_handler_ok)
  then have "backlog_ok cfg (pop ?s)" by (simp add: pop_backlog queue_ok_def)
  with Cons show ?thesis by (simp add: handle_write_def proxy_write_backlog Let_def)
qed

lemma continue_write_ok:
  assumes "ended s"
  shows "queue_ok False (continue_write cfg acts next ec count s)"
    and "backlog_ok cfg s \<Longrightarrow> maximum_backlog cfg < 2 ^ 64 - 1 \<Longrightarrow>
      backlog_ok cfg (continue_write cfg acts next ec count s)"
proof -
  have "queue_ok False (start_write call kind s)" for call kind
    using assms by (cases "pqueue s = []")
      (auto simp: ended_def queue_ok_def outstanding_def start_write_def make_call_def split: if_splits)
  then show "queue_ok False (continue_write cfg acts next ec count s)"
    using assms by (simp add: continue_write_def handle_http_header_write_def handle_write_queue split: write_next.split)
  show "backlog_ok cfg s \<Longrightarrow> maximum_backlog cfg < 2 ^ 64 - 1 \<Longrightarrow>
      backlog_ok cfg (continue_write cfg acts next ec count s)"
    using assms by (simp add: continue_write_def handle_http_header_write_def handle_write_backlog start_write_def
        make_call_def split: write_next.split)
qed

lemma write_ended:
  assumes "queue_ok False s"
  shows "write_progress s = next # rest \<Longrightarrow> ended (s\<lparr>write_progress := rest\<rparr>)"
    and "throttled s = Some c \<Longrightarrow> ended (s\<lparr>throttled := None\<rparr>)"
  using assms by (auto simp: ended_def queue_ok_def outstanding_def split: if_splits)

lemma ended_unconstrained [simp]:
  "ended (s\<lparr>bytes_sent := n\<rparr>) = ended s" "ended (s\<lparr>writing := b\<rparr>) = ended s"
  by (simp_all add: ended_def outstanding_def)

lemma handle_metered_ok:
  assumes "ended s"
  shows "queue_ok False (handle_metered cfg acts next ec count consumed s)"
    and "backlog_ok cfg s \<Longrightarrow> maximum_backlog cfg < 2 ^ 64 - 1 \<Longrightarrow>
      backlog_ok cfg (handle_metered cfg acts next ec count consumed s)"
proof -
  have "queue_ok False (t\<lparr>throttled := Some c\<rparr>)" if "ended t" for c and t :: "('a, 'b) proxy"
    using that by (auto simp: ended_def queue_ok_def outstanding_def split: if_splits)
  then show "queue_ok False (handle_metered cfg acts next ec count consumed s)"
    using assms by (simp add: handle_metered_def continue_write_ok Let_def)
  show "backlog_ok cfg s \<Longrightarrow> maximum_backlog cfg < 2 ^ 64 - 1 \<Longrightarrow>
      backlog_ok cfg (handle_metered cfg acts next ec count consumed s)"
    using assms by (simp add: handle_metered_def continue_write_ok Let_def)
qed

lemma handle_rpc_read_ok:
  "queue_ok e s \<Longrightarrow> queue_ok e (handle_rpc_read cfg ec count r n s)"
  "backlog_ok cfg s \<Longrightarrow> maximum_backlog cfg < 2 ^ 64 - 1 \<Longrightarrow> backlog_ok cfg (handle_rpc_read cfg ec count r n s)"
  by (auto simp: handle_rpc_read_def absorb_keepalive_def do_write_queue do_write_backlog queue_close_queue
      queue_close_backlog proxy_read_defs)

lemma handle_http_body_ok:
  "queue_ok e s \<Longrightarrow> queue_ok e (handle_http_body ec count is_done body n s)"
  "backlog_ok cfg s \<Longrightarrow> backlog_ok cfg (handle_http_body ec count is_done body n s)"
  by (auto simp: handle_http_body_def handle_http_element_def queue_close_queue queue_close_backlog proxy_read_defs
      split: option.splits)

lemma proxy_stopping_ok:
  assumes "queue_ok False s" "socket_stopped s"
  shows "queue_ok False (proxy_stopping ec s)" "backlog_ok cfg (proxy_stopping ec s)"
  using assms by (auto simp: proxy_stopping_def queue_ok_def backlog_ok_def outstanding_def split: prod.splits)

lemma proxy_step_queue:
  assumes "proxy_step allowed cfg s s'" "queue_ok False s"
  shows "queue_ok False s'"
  using assms(1)
proof cases
  case (step_act a)
  then show ?thesis using assms(2) by (simp add: act_queue)
next
  case (step_metered "next" rest acts ec count consumed)
  then show ?thesis using write_ended(1) [OF assms(2)] by (simp add: handle_metered_ok)
next
  case (step_charge "next" ec count acts)
  then show ?thesis using write_ended(2) [OF assms(2)] by (simp add: handle_charge_def continue_write_ok)
next
  case (step_stopping ec rest)
  then have "queue_ok False (s\<lparr>posted_stops := rest\<rparr>)" "socket_stopped s"
    using assms(2) by (auto simp: queue_ok_def outstanding_def)
  then show ?thesis using step_stopping by (simp add: proxy_stopping_ok)
qed (use assms(2) in \<open>simp_all add: handle_rpc_read_ok handle_http_body_ok proxy_read_defs\<close>)

lemma proxy_step_backlog:
  assumes "proxy_step allowed cfg s s'" "queue_ok False s" "backlog_ok cfg s" "maximum_backlog cfg < 2 ^ 64 - 1"
  shows "backlog_ok cfg s'"
  using assms(1)
proof cases
  case (step_act a)
  then show ?thesis using assms(3,4) by (simp add: act_backlog)
next
  case (step_metered "next" rest acts ec count consumed)
  then show ?thesis using write_ended(1) [OF assms(2)] assms(3,4) by (simp add: handle_metered_ok)
next
  case (step_charge "next" ec count acts)
  then show ?thesis using write_ended(2) [OF assms(2)] assms(3,4) by (simp add: handle_charge_def continue_write_ok)
next
  case (step_stopping ec rest)
  then have "queue_ok False (s\<lparr>posted_stops := rest\<rparr>)" "socket_stopped s"
    using assms(2) by (auto simp: queue_ok_def outstanding_def)
  then show ?thesis using step_stopping by (simp add: proxy_stopping_ok)
qed (use assms(3,4) in \<open>simp_all add: handle_rpc_read_ok handle_http_body_ok proxy_read_defs\<close>)

lemma proxying_queue: "proxying allowed cfg zmq s \<Longrightarrow> queue_ok False s"
proof (induction rule: proxying.induct)
  case proxy_started
  show ?case by (simp add: proxy_init_def queue_ok_def outstanding_def)
qed (rule proxy_step_queue)

lemma proxying_backlog:
  assumes "proxying allowed cfg zmq s" "maximum_backlog cfg < 2 ^ 64 - 1"
  shows "backlog_ok cfg s"
  using assms(1)
proof (induction rule: proxying.induct)
  case proxy_started
  show ?case by (simp add: proxy_init_def backlog_ok_def within_def)
next
  case (proxy_stepped s s')
  then show ?case using proxy_step_backlog [OF _ proxying_queue _ assms(2)] by blast
qed

section \<open>Properties\<close>

text \<open>
  C4. The writes of a channel do not interleave: in every reachable state at most one write is in progress
  (at the socket or deferred by the throttle), the writes are issued and complete in the order in which
  they were accepted to the queue, each once, and as long as the socket is not stopped none is lost (the
  entries accepted are those completed and those queued) and one is in progress whenever the queue is
  not empty, also when the handlers of the client write, notify or stop within a completion.
\<close>

theorem proxy_writes_ordered:
  assumes "proxying allowed cfg zmq s"
  shows "prefix (completed s) (issued s) \<and> prefix (issued s) (accepted s) \<and>
    length (issued s) \<le> length (completed s) + 1 \<and> outstanding s \<le> 1 \<and>
    (\<not> socket_stopped s \<longrightarrow> accepted s = completed s @ pqueue s \<and> (outstanding s = 1 \<longleftrightarrow> pqueue s \<noteq> []))"
  using proxying_queue [OF assms] by (auto simp: queue_ok_def)

text \<open>
  The memory retained for unsolicited writes is bounded: unless the socket is stopped, the backlog is
  the exact sum of the charges of the queued and deferred entries, and is at most the configured maximum
  or the charge of the single entry that was admitted when the channel was idle.
\<close>

theorem proxy_backlog_bounded:
  assumes "proxying allowed cfg zmq s" "maximum_backlog cfg < 2 ^ 64 - 1" "\<not> socket_stopped s"
  shows "backlog s = cost_sum (pqueue s) + cost_sum (deferred s) \<and>
    (backlog s \<le> maximum_backlog cfg \<or> (\<exists>w\<in>set (pqueue s @ deferred s). backlog s = cost w))"
  using proxying_backlog [OF assms(1,2)] assms(3) unfolding backlog_ok_def within_def by metis

text \<open>
  The throttle holds the configured rate: the time consumed by a send and the time by which its
  completion is deferred together allow the bytes sent at the rate limit, for any size that does not
  saturate the allocation.
\<close>

theorem throttle_rate:
  assumes "rate_limit cfg \<noteq> 0" "\<not> socket_stopped s" "count * nanos < 2 ^ 63"
  shows "count * nanos < (consumed + unconsumed cfg count consumed s + 1) * unat (rate_limit cfg)"
proof -
  have "count * nanos \<le> 2 ^ 64 - 1" using assms(3) by simp
  moreover have "count * nanos div unat (rate_limit cfg) \<le> 2 ^ 63 - 1"
    using assms(3) div_le_dividend [of "count * nanos" "unat (rate_limit cfg)"] by linarith
  ultimately have "to_allocation count (rate_limit cfg) = count * nanos div unat (rate_limit cfg)"
    by (simp add: to_allocation_def ceilinged_multiply_def min_absorb1)
  then have "count * nanos div unat (rate_limit cfg) \<le> consumed + unconsumed cfg count consumed s"
    using assms(1,2) by (simp add: unconsumed_def Let_def)
  moreover have "unat (rate_limit cfg) \<noteq> 0" using assms(1) by (simp add: unat_eq_zero)
  ultimately show ?thesis
    by (metis Suc_eq_plus1 div_less_iff_less_mult less_Suc_eq_le not_gr_zero)
qed

section \<open>Witnesses\<close>

definition example_config :: "(nat, nat) proxy_config" where
  "example_config = \<lparr>rate_limit = 1000, maximum_backlog = 100000, size_of = (\<lambda>_. 100), never_lazy = True\<rparr>"

definition example_writes :: "(nat, nat) proxy" where
  "example_writes = act example_config (act_peer_write 8 True 1) (act example_config (act_peer_write 7 True 0)
     (proxy_init False))"

lemma example_proxying: "proxying (\<lambda>_. True) example_config False example_writes"
  unfolding example_writes_def
  by (rule proxy_stepped [OF proxy_stepped [OF proxy_started step_act] step_act]) simp_all

lemma example_state:
  "map writer (pqueue example_writes) = [peer_call 7, peer_call 8]" "map writer (issued example_writes) = [peer_call 7]"
  "\<not> socket_stopped example_writes" "backlog example_writes = 712"
  by (simp_all add: example_writes_def example_config_def unsolicited_def do_write_def charge_def push_write_def
      proxy_write_def start_write_def make_call_def proxy_init_def ceilinged_add_def entry_size_def Let_def)

theorem proxy_writes_ordered_witness:
  "prefix (issued example_writes) (accepted example_writes) \<and> outstanding example_writes = 1"
  using proxy_writes_ordered [OF example_proxying] example_state by fastforce

theorem proxy_backlog_bounded_witness:
  "cost_sum (pqueue example_writes) + cost_sum (deferred example_writes) = 712"
  using proxy_backlog_bounded [OF example_proxying _ example_state(3)] example_state(4)
  by (simp add: example_config_def)

theorem throttle_rate_witness:
  "5000 * nanos < (1000 + unconsumed example_config 5000 1000 example_writes + 1) * 1000"
  using throttle_rate [of example_config example_writes 5000 1000] example_state(3)
  by (simp add: example_config_def nanos_def)

end
