(* ===== verification/Proxy_Batch.thy ===== *)
theory Proxy_Batch
  imports Proxy_Queue
begin

text \<open>
  The json-rpc batches of the proxy: the writes issued frame well formed batches, into which neither
  single responses nor notifications fall.
\<close>

section \<open>Batch framing\<close>

text \<open>What a queued write contributes to the json-rpc output of the channel.\<close>

datatype framing = f_single | f_open | f_part | f_close | f_note

fun frame_of_part :: "'m rpc_part \<Rightarrow> framing" where
  "frame_of_part p =
    (if part_batch p then if part_changed p then f_close else f_part
     else if part_changed p then f_open else f_single)"

fun frames_of :: "('m, 'v) call \<Rightarrow> framing list" where
  "frames_of (response_call p) = [frame_of_part p]"
| "frames_of (http_call (http_part p)) = [frame_of_part p]"
| "frames_of (http_call (http_request m)) = [f_note]"
| "frames_of (notification_call m) = [f_note]"
| "frames_of _ = []"

definition frames :: "('m, 'v) pending list \<Rightarrow> framing list" where
  "frames ws = concat (map (\<lambda>w. frames_of (writer w)) ws)"

text \<open>The framings of a well formed output, with whether a batch is open: outside a batch single responses and
  notifications, within it parts up to its close.\<close>

fun run_framing :: "bool \<Rightarrow> framing list \<Rightarrow> bool option" where
  "run_framing b [] = Some b"
| "run_framing b (f # fs) = (case f of
     f_single \<Rightarrow> if b then None else run_framing b fs
   | f_note \<Rightarrow> if b then None else run_framing b fs
   | f_open \<Rightarrow> if b then None else run_framing True fs
   | f_part \<Rightarrow> if b then run_framing b fs else None
   | f_close \<Rightarrow> if b then run_framing False fs else None)"

definition well_framed :: "framing list \<Rightarrow> bool" where
  "well_framed fs \<longleftrightarrow> run_framing False fs \<noteq> None"

lemma run_framing_append: "run_framing b (fs @ gs) = Option.bind (run_framing b fs) (\<lambda>b. run_framing b gs)"
  by (induction b fs rule: run_framing.induct) (simp_all split: framing.split)

lemma frames_simps [simp]: "frames [] = []" "frames (w # ws) = frames_of (writer w) @ frames ws"
  "frames (ws @ vs) = frames ws @ frames vs"
  by (simp_all add: frames_def)

lemma run_notes: "run_framing False (replicate k f_note) = Some False"
  by (induction k) simp_all

text \<open>The entries up to the one that ends in a stop, after which nothing is written.\<close>

fun until_stop :: "('m, 'v) pending list \<Rightarrow> ('m, 'v) pending list" where
  "until_stop [] = []"
| "until_stop (w # ws) = (if is_stop (handler w) then [w] else w # until_stop ws)"

definition has_stop :: "('m, 'v) pending list \<Rightarrow> bool" where
  "has_stop ws \<longleftrightarrow> (\<exists>w\<in>set ws. is_stop (handler w))"

lemma has_stop_simps [simp]: "\<not> has_stop []" "has_stop (w # ws) \<longleftrightarrow> is_stop (handler w) \<or> has_stop ws"
  "has_stop (ws @ vs) \<longleftrightarrow> has_stop ws \<or> has_stop vs"
  by (auto simp: has_stop_def)

lemma until_stop_append:
  "until_stop (ws @ vs) = (if has_stop ws then until_stop ws else ws @ until_stop vs)"
  by (induction ws) auto

lemma until_stop_free: "\<not> has_stop ws \<Longrightarrow> until_stop ws = ws"
  by (induction ws) auto

text \<open>The responses of a client are solicited.\<close>

fun rpc_action :: "('m, 'v) action \<Rightarrow> bool" where
  "rpc_action (act_http_write (content_response m) bounded n) \<longleftrightarrow> \<not> bounded"
| "rpc_action _ \<longleftrightarrow> True"

definition close_count :: "('m, 'v) pending list \<Rightarrow> nat" where
  "close_count ws = length (filter (\<lambda>w. is_close (handler w)) ws)"

lemma close_count_simps [simp]: "close_count [] = 0"
  "close_count (w # ws) = (if is_close (handler w) then Suc (close_count ws) else close_count ws)"
  "close_count (ws @ vs) = close_count ws + close_count vs"
  by (simp_all add: close_count_def)

text \<open>One read is in progress, or the close of a batch is pending for it, with the batch ended.\<close>

definition reads_ok :: "bool \<Rightarrow> ('m, 'v) proxy \<Rightarrow> bool" where
  "reads_ok executing s \<longleftrightarrow>
    (let ws = (if executing then tl (pqueue s) else pqueue s)
     in close_count ws + length (read_progress s) \<le> 1 \<and> (close_count ws \<noteq> 0 \<longrightarrow> \<not> batched s))"

definition deferred_ok :: "('m, 'v) proxy \<Rightarrow> bool" where
  "deferred_ok s \<longleftrightarrow> (\<forall>w\<in>set (deferred s). frames_of (writer w) = [f_note] \<and> \<not> is_close (handler w) \<and> \<not> is_stop (handler w))"

definition framing_ok :: "('m, 'v) proxy \<Rightarrow> bool" where
  "framing_ok s \<longleftrightarrow> \<not> zeromq s \<and> \<not> websocket s \<and> (parted s \<longrightarrow> batched s) \<and>
    (if socket_stopped s then well_framed (frames (issued s))
     else \<not> has_stop (completed s) \<and>
       run_framing False (frames (until_stop (accepted s))) = Some (\<not> has_stop (accepted s) \<and> batched s \<and> parted s))"

text \<open>The framing of the writes issued is a prefix of that of the writes accepted.\<close>

lemma well_framed_prefix: "prefix fs gs \<Longrightarrow> run_framing False gs = Some b \<Longrightarrow> well_framed fs"
  by (auto simp: prefix_def well_framed_def run_framing_append bind_eq_Some_conv)

lemma prefix_until_stop [simp]: "prefix [w] (if b then [w] else w # ws)"
  by simp

lemma issued_well_framed:
  assumes "queue_ok e s" "framing_ok s"
  shows "well_framed (frames (issued s))"
proof (cases "socket_stopped s")
  case False
  have "issued s = completed s \<or> (\<exists>w ws. pqueue s = w # ws \<and> issued s = completed s @ [w])"
    using assms(1) False by (cases "pqueue s"; cases e) (auto simp: queue_ok_def outstanding_def)
  then have "prefix (issued s) (until_stop (accepted s))"
    using assms False by (auto simp: queue_ok_def framing_ok_def until_stop_append)
  then have "prefix (frames (issued s)) (frames (until_stop (accepted s)))" by (auto simp: prefix_def)
  then show ?thesis using assms(2) False well_framed_prefix by (auto simp: framing_ok_def)
qed (use assms(2) in \<open>simp add: framing_ok_def\<close>)

text \<open>The members that the invariants do not constrain.\<close>

lemma framing_unconstrained [simp]:
  "framing_ok (s\<lparr>writing := x_writing\<rparr>) = framing_ok s"
  "framing_ok (s\<lparr>parser := x_parser\<rparr>) = framing_ok s"
  "framing_ok (s\<lparr>bytes_sent := x_bytes_sent\<rparr>) = framing_ok s"
  "framing_ok (s\<lparr>bytes_received := x_bytes_received\<rparr>) = framing_ok s"
  "framing_ok (s\<lparr>stop_subscriber := x_stop_subscriber\<rparr>) = framing_ok s"
  "framing_ok (s\<lparr>downgraded := x_downgraded\<rparr>) = framing_ok s"
  "framing_ok (s\<lparr>detected := x_detected\<rparr>) = framing_ok s"
  "framing_ok (s\<lparr>calls := x_calls\<rparr>) = framing_ok s"
  "framing_ok (s\<lparr>read_progress := x_read_progress\<rparr>) = framing_ok s"
  "framing_ok (s\<lparr>posted_stops := x_posted_stops\<rparr>) = framing_ok s"
  "framing_ok (s\<lparr>invoked := x_invoked\<rparr>) = framing_ok s"
  "framing_ok (s\<lparr>stop_notices := x_stop_notices\<rparr>) = framing_ok s"
  "framing_ok (s\<lparr>write_progress := x_write_progress\<rparr>) = framing_ok s"
  "framing_ok (s\<lparr>throttled := x_throttled\<rparr>) = framing_ok s"
  "framing_ok (s\<lparr>backlog := x_backlog\<rparr>) = framing_ok s"
  "framing_ok (s\<lparr>deferred := x_deferred\<rparr>) = framing_ok s"
  "framing_ok (s\<lparr>pqueue := x_pqueue\<rparr>) = framing_ok s"
  by (simp_all add: framing_ok_def)

lemma reads_unconstrained [simp]:
  "reads_ok e (s\<lparr>writing := x_writing\<rparr>) = reads_ok e s"
  "reads_ok e (s\<lparr>parser := x_parser\<rparr>) = reads_ok e s"
  "reads_ok e (s\<lparr>bytes_sent := x_bytes_sent\<rparr>) = reads_ok e s"
  "reads_ok e (s\<lparr>bytes_received := x_bytes_received\<rparr>) = reads_ok e s"
  "reads_ok e (s\<lparr>stop_subscriber := x_stop_subscriber\<rparr>) = reads_ok e s"
  "reads_ok e (s\<lparr>downgraded := x_downgraded\<rparr>) = reads_ok e s"
  "reads_ok e (s\<lparr>detected := x_detected\<rparr>) = reads_ok e s"
  "reads_ok e (s\<lparr>calls := x_calls\<rparr>) = reads_ok e s"
  "reads_ok e (s\<lparr>posted_stops := x_posted_stops\<rparr>) = reads_ok e s"
  "reads_ok e (s\<lparr>invoked := x_invoked\<rparr>) = reads_ok e s"
  "reads_ok e (s\<lparr>stop_notices := x_stop_notices\<rparr>) = reads_ok e s"
  "reads_ok e (s\<lparr>write_progress := x_write_progress\<rparr>) = reads_ok e s"
  "reads_ok e (s\<lparr>throttled := x_throttled\<rparr>) = reads_ok e s"
  "reads_ok e (s\<lparr>backlog := x_backlog\<rparr>) = reads_ok e s"
  "reads_ok e (s\<lparr>deferred := x_deferred\<rparr>) = reads_ok e s"
  "reads_ok e (s\<lparr>accepted := x_accepted\<rparr>) = reads_ok e s"
  "reads_ok e (s\<lparr>issued := x_issued\<rparr>) = reads_ok e s"
  "reads_ok e (s\<lparr>completed := x_completed\<rparr>) = reads_ok e s"
  "reads_ok e (s\<lparr>parted := x_parted\<rparr>) = reads_ok e s"
  "reads_ok e (s\<lparr>zeromq := x_zeromq\<rparr>) = reads_ok e s"
  "reads_ok e (s\<lparr>websocket := x_websocket\<rparr>) = reads_ok e s"
  "reads_ok e (s\<lparr>socket_stopped := x_socket_stopped\<rparr>) = reads_ok e s"
  by (simp_all add: reads_ok_def)

lemma deferred_unconstrained [simp]:
  "deferred_ok (s\<lparr>writing := x_writing\<rparr>) = deferred_ok s"
  "deferred_ok (s\<lparr>batched := x_batched\<rparr>) = deferred_ok s"
  "deferred_ok (s\<lparr>parted := x_parted\<rparr>) = deferred_ok s"
  "deferred_ok (s\<lparr>parser := x_parser\<rparr>) = deferred_ok s"
  "deferred_ok (s\<lparr>bytes_sent := x_bytes_sent\<rparr>) = deferred_ok s"
  "deferred_ok (s\<lparr>bytes_received := x_bytes_received\<rparr>) = deferred_ok s"
  "deferred_ok (s\<lparr>stop_subscriber := x_stop_subscriber\<rparr>) = deferred_ok s"
  "deferred_ok (s\<lparr>downgraded := x_downgraded\<rparr>) = deferred_ok s"
  "deferred_ok (s\<lparr>detected := x_detected\<rparr>) = deferred_ok s"
  "deferred_ok (s\<lparr>calls := x_calls\<rparr>) = deferred_ok s"
  "deferred_ok (s\<lparr>read_progress := x_read_progress\<rparr>) = deferred_ok s"
  "deferred_ok (s\<lparr>posted_stops := x_posted_stops\<rparr>) = deferred_ok s"
  "deferred_ok (s\<lparr>invoked := x_invoked\<rparr>) = deferred_ok s"
  "deferred_ok (s\<lparr>stop_notices := x_stop_notices\<rparr>) = deferred_ok s"
  "deferred_ok (s\<lparr>write_progress := x_write_progress\<rparr>) = deferred_ok s"
  "deferred_ok (s\<lparr>throttled := x_throttled\<rparr>) = deferred_ok s"
  "deferred_ok (s\<lparr>backlog := x_backlog\<rparr>) = deferred_ok s"
  "deferred_ok (s\<lparr>pqueue := x_pqueue\<rparr>) = deferred_ok s"
  "deferred_ok (s\<lparr>accepted := x_accepted\<rparr>) = deferred_ok s"
  "deferred_ok (s\<lparr>issued := x_issued\<rparr>) = deferred_ok s"
  "deferred_ok (s\<lparr>completed := x_completed\<rparr>) = deferred_ok s"
  "deferred_ok (s\<lparr>zeromq := x_zeromq\<rparr>) = deferred_ok s"
  "deferred_ok (s\<lparr>websocket := x_websocket\<rparr>) = deferred_ok s"
  "deferred_ok (s\<lparr>socket_stopped := x_socket_stopped\<rparr>) = deferred_ok s"
  by (simp_all add: deferred_ok_def)

text \<open>The three invariants of the framing.\<close>

definition batch_ok :: "bool \<Rightarrow> ('m, 'v) proxy \<Rightarrow> bool" where
  "batch_ok executing s \<longleftrightarrow> queue_ok executing s \<and> framing_ok s \<and> reads_ok executing s \<and> deferred_ok s"

lemma push_framing:
  assumes "framing_ok s" "\<not> socket_stopped s" "p \<longrightarrow> b"
    and "\<not> has_stop (accepted s) \<Longrightarrow> run_framing (batched s \<and> parted s) (frames_of (writer w)) =
      Some (\<not> is_stop (handler w) \<and> b \<and> p)"
  shows "framing_ok (push_write w (s\<lparr>batched := b, parted := p\<rparr>))"
  using assms by (auto simp: framing_ok_def push_write_core until_stop_append until_stop_free run_framing_append)

lemma push_reads:
  assumes "reads_ok e s" "e \<longrightarrow> pqueue s \<noteq> []" "b \<longrightarrow> batched s"
    and "is_close (handler w) \<longrightarrow> \<not> b \<and> \<not> e \<and> close_count (pqueue s) = 0 \<and> read_progress s = []"
  shows "reads_ok e (push_write w (s\<lparr>batched := b, parted := p\<rparr>))"
  using assms by (auto simp: reads_ok_def push_write_core Let_def)

lemma deferred_push [simp]: "deferred_ok (push_write w s) = deferred_ok s"
  by (simp add: deferred_ok_def push_write_core)

lemma executing_nonempty: "queue_ok e s \<Longrightarrow> e \<longrightarrow> pqueue s \<noteq> []"
  by (simp add: queue_ok_def)

text \<open>A write that is queued, with the batch state it leaves.\<close>

lemma push_batch:
  assumes "batch_ok e s" "\<not> socket_stopped s" "b \<longrightarrow> batched s" "p \<longrightarrow> b"
    and "is_close (handler w) \<longrightarrow> \<not> b \<and> \<not> e \<and> close_count (pqueue s) = 0 \<and> read_progress s = []"
    and "\<not> has_stop (accepted s) \<Longrightarrow> run_framing (batched s \<and> parted s) (frames_of (writer w)) =
      Some (\<not> is_stop (handler w) \<and> b \<and> p)"
  shows "batch_ok e (push_write w (s\<lparr>batched := b, parted := p\<rparr>))"
  using assms push_framing [of s p b w] push_reads [of e s b w p] push_write_ok [of e "s\<lparr>batched := b, parted := p\<rparr>" w]
    executing_nonempty [of e s]
  by (simp add: batch_ok_def)

text \<open>A write of the client outside a batch, or that the framing ignores.\<close>

lemma push_batch_user:
  assumes "batch_ok e s" "\<not> socket_stopped s" "\<not> is_close (handler w)" "\<not> is_stop (handler w)"
    and "run_framing (batched s \<and> parted s) (frames_of (writer w)) = Some (batched s \<and> parted s)"
  shows "batch_ok e (push_write w s)"
  using push_batch [of e s "batched s" "parted s" w] assms by (simp add: batch_ok_def framing_ok_def)

lemma finish_stop_batch:
  assumes "batch_ok e s"
  shows "batch_ok e (finish_stop cfg ec s)"
proof -
  have "framing_ok (finish_stop cfg ec s)"
    using assms issued_well_framed [of e s]
    by (auto simp: batch_ok_def framing_ok_def finish_stop_def make_call_def)
  with assms show ?thesis
    by (simp add: batch_ok_def finish_stop_queue) (simp add: finish_stop_def make_call_def)
qed

text \<open>The close of a batch with parts, or one that follows a pending stop.\<close>

lemma queue_close_batch:
  assumes "batch_ok e s" "socket_stopped s \<or> parted s \<and> batched s \<or> has_stop (accepted s)"
    and "is_close h \<longrightarrow> \<not> e \<and> close_count (pqueue s) = 0 \<and> read_progress s = []"
  shows "batch_ok e (queue_close h s)"
proof (cases "socket_stopped s")
  case True
  with assms show ?thesis
    by (auto simp: queue_close_def do_solicited_def batch_ok_def framing_ok_def reads_ok_def Let_def)
next
  case False
  define w :: "('a, 'b) pending" where
    "w = \<lparr>cost = 0, writer = (if parser s then http_call (http_part close_part) else response_call close_part), handler = h\<rparr>"
  have "queue_close h s = push_write w (s\<lparr>batched := False, parted := False\<rparr>)"
    using False by (simp add: queue_close_def do_solicited_def w_def Let_def)
  moreover have "batch_ok e (push_write w (s\<lparr>batched := False, parted := False\<rparr>))"
    by (rule push_batch) (use assms False in \<open>auto simp: w_def close_part_def\<close>)
  ultimately show ?thesis by simp
qed

lemma batch_not_zeromq: "batch_ok e s \<Longrightarrow> \<not> zeromq s"
  by (simp add: batch_ok_def framing_ok_def)

lemma make_call_batch [simp]: "batch_ok e (make_call c s) = batch_ok e s"
  by (simp add: batch_ok_def make_call_def)

lemma proxy_stop_batch: "batch_ok e s \<Longrightarrow> batch_ok e (proxy_stop cfg stranded ec s)"
  by (auto simp: proxy_stop_def do_stop_def finish_stop_batch intro!: queue_close_batch)

lemma charge_refused_batch:
  assumes "charge cfg w s = (False, w', s')" "batch_ok e s"
  shows "batch_ok e s'"
  using assms batch_not_zeromq [OF assms(2)] by (auto simp: charge_def proxy_stop_batch Let_def split: if_splits)

lemma charge_accepted_batch:
  assumes "charge cfg w s = (True, w', s')" "batch_ok e s"
  shows "batch_ok e s'" "writer w' = writer w" "handler w' = handler w"
proof -
  show "batch_ok e s'"
    using assms(2) by (subst charge_accepted(1) [OF assms(1)]) (simp add: batch_ok_def)
  show "writer w' = writer w" "handler w' = handler w"
    by (subst charge_accepted(2) [OF assms(1)], simp)+
qed

lemma do_write_batch:
  assumes "batch_ok e s" "\<not> is_close (handler w)" "\<not> is_stop (handler w)"
    and "run_framing (batched s \<and> parted s) (frames_of (writer w)) = Some (batched s \<and> parted s)"
  shows "batch_ok e (do_write cfg w notification s)"
proof -
  obtain ok w' s' where charge: "charge cfg w s = (ok, w', s')" by (metis surj_pair)
  have "batch_ok e (push_write w' s')" if "ok" "\<not> socket_stopped s"
  proof -
    from charge that have accepted: "charge cfg w s = (True, w', s')" by simp
    show ?thesis
      by (rule push_batch_user)
        (use charge_accepted_batch [OF accepted assms(1)] charge_accepted_core [OF accepted] assms that in simp_all)
  qed
  then show ?thesis
    using charge assms charge_refused_batch [of cfg w s w' s' e] push_batch_user [of e s "w\<lparr>cost := 0\<rparr>"]
    by (cases ok) (simp_all add: do_write_def)
qed

lemma do_defer_write_batch:
  assumes "batch_ok e s" "frames_of (writer w) = [f_note]" "\<not> is_close (handler w)" "\<not> is_stop (handler w)"
  shows "batch_ok e (do_defer_write cfg w s)"
proof (cases "batched s")
  case True
  obtain ok w' s' where charge: "charge cfg w s = (ok, w', s')" by (metis surj_pair)
  have "batch_ok e (s'\<lparr>deferred := deferred s' @ [w']\<rparr>)" if "ok"
  proof -
    from charge that have accepted: "charge cfg w s = (True, w', s')" by simp
    show ?thesis using charge_accepted_batch [OF accepted assms(1)] assms by (auto simp: batch_ok_def deferred_ok_def)
  qed
  with True charge assms charge_refused_batch [of cfg w s w' s' e] show ?thesis
    by (cases ok) (simp_all add: do_defer_write_def)
next
  case False
  with assms show ?thesis by (simp add: do_defer_write_def do_write_batch)
qed

text \<open>A response within a batch is stamped as its first part or a further one.\<close>

lemma push_part_batch:
  assumes "batch_ok e s" "batched s" "frames_of c = [if parted s then f_part else f_open]"
  shows "batch_ok e (do_write cfg \<lparr>cost = k, writer = c, handler = user_handler n\<rparr> False (s\<lparr>parted := True\<rparr>))"
proof (cases "socket_stopped s")
  case True
  with assms show ?thesis by (simp add: do_write_def batch_ok_def framing_ok_def)
next
  case False
  let ?w = "\<lparr>cost = 0, writer = c, handler = user_handler n\<rparr>"
  have "batch_ok e (push_write ?w (s\<lparr>batched := batched s, parted := True\<rparr>))"
    by (rule push_batch) (use assms False in auto)
  with False show ?thesis by (simp add: do_write_def)
qed

lemma do_response_queue_batch:
  assumes "batch_ok e s"
  shows "batch_ok e (do_response_queue cfg m n s)"
proof (cases "batched s")
  case True
  with assms show ?thesis by (simp add: do_response_queue_def push_part_batch Let_def)
next
  case False
  with assms show ?thesis by (simp add: do_response_queue_def do_write_batch Let_def)
qed

lemma notify_rpc_batch: "batch_ok e s \<Longrightarrow> batch_ok e (notify_rpc cfg m n s)"
  by (simp add: notify_rpc_def do_defer_write_batch)

lemma invoke_user_batch [simp]: "batch_ok e (invoke_user n ec count s) = batch_ok e s"
  by (simp add: batch_ok_def invoke_user_def)

lemma do_http_queue_batch:
  assumes "batch_ok e s" "is_response content \<longrightarrow> \<not> bounded"
  shows "batch_ok e (do_http_queue cfg content bounded n s)"
proof (cases "batched s")
  case True
  have "\<not> websocket s" using assms(1) by (simp add: batch_ok_def framing_ok_def)
  with True assms show ?thesis
    by (cases content) (simp_all add: do_http_queue_def push_part_batch Let_def)
next
  case False
  with assms show ?thesis
    by (cases content) (simp_all add: do_http_queue_def do_write_batch Let_def)
qed

lemma act_batch:
  assumes "batch_ok e s" "rpc_action a" "\<not> is_read a"
  shows "batch_ok e (act cfg a s)"
proof (cases a)
  case (act_http_write content bounded n)
  with assms have "is_response content \<longrightarrow> \<not> bounded" by (cases content) simp_all
  with act_http_write assms show ?thesis
    by (auto simp: write_http_def do_http_queue_batch do_response_queue_batch notify_rpc_batch split: http_content.splits)
next
  case (act_subscribe_stop n complete)
  with assms show ?thesis
    by (auto simp: subscribe_stop_def batch_ok_def invoke_user_def split: prod.splits)
qed (use assms in \<open>simp_all add: unsolicited_def do_write_batch do_response_queue_batch notify_rpc_batch proxy_stop_batch\<close>)

lemma acts_batch:
  assumes "batch_ok e s" "\<forall>a\<in>set acts. rpc_action a \<and> \<not> is_read a"
  shows "batch_ok e (fold (act cfg) acts s)"
  using assms by (induction acts arbitrary: s) (simp_all add: act_batch)

lemma start_read_batch:
  assumes "batch_ok e s" "close_count (if e then tl (pqueue s) else pqueue s) = 0" "read_progress s = []"
  shows "batch_ok e (start_read c kind s)"
  using assms by (cases e) (simp_all add: batch_ok_def start_read_def make_call_def reads_ok_def Let_def)

lemma not_reading:
  "\<not> reading s \<Longrightarrow> close_count (pqueue s) = 0 \<and> read_progress s = []"
  by (auto simp: reading_def close_count_def filter_empty_conv)

lemma act_read_batch:
  assumes "batch_ok False s" "is_read a" "\<not> reading s"
  shows "batch_ok False (act cfg a s)"
proof -
  have "batch_ok False (s\<lparr>parser := True\<rparr>)" using assms(1) by (simp add: batch_ok_def)
  then show ?thesis
    using assms not_reading [OF assms(3)]
    by (cases a) (simp_all add: start_read_batch read_http_def do_rpc_request_read_def do_http_body_read_def
        do_http_request_read_def do_downgrade_read_def)
qed

section \<open>Reads within batches\<close>

text \<open>A read that completes leaves no other pending.\<close>

definition unread :: "('m, 'v) proxy \<Rightarrow> bool" where
  "unread s \<longleftrightarrow> batch_ok False s \<and> close_count (pqueue s) = 0 \<and> read_progress s = []"

lemma read_completes:
  assumes "batch_ok False s" "read_progress s = r # rest"
  shows "unread (s\<lparr>read_progress := rest\<rparr>)"
  using assms by (auto simp: unread_def batch_ok_def reads_ok_def Let_def)

lemma unread_updates [simp]:
  "unread (s\<lparr>bytes_received := k\<rparr>) = unread s" "unread (s\<lparr>parser := b\<rparr>) = unread s"
  "unread (s\<lparr>downgraded := b\<rparr>) = unread s" "unread (s\<lparr>detected := b\<rparr>) = unread s"
  by (simp_all add: unread_def batch_ok_def)

lemma unread_open: "unread s \<Longrightarrow> unread (s\<lparr>batched := True\<rparr>)"
  by (auto simp: unread_def batch_ok_def framing_ok_def reads_ok_def split: if_splits)

lemma unread_results:
  assumes "unread s"
  shows "batch_ok False s" "batch_ok False (start_read c kind s)"
    "socket_stopped s \<or> parted s \<and> batched s \<or> has_stop (accepted s) \<Longrightarrow> batch_ok False (queue_close h s)"
  using assms by (simp_all add: unread_def start_read_batch queue_close_batch)

lemma closes_answered_stop:
  assumes "batch_ok False s" "closes_answered (Some r) s" "batch_close r"
  shows "socket_stopped s \<or> parted s \<and> batched s \<or> has_stop (accepted s)"
  using assms by (auto simp: closes_answered_def batch_ok_def queue_ok_def has_stop_def)

lemma handle_rpc_read_batch:
  assumes "unread s" "closes_answered (Some r) s"
  shows "batch_ok False (handle_rpc_read cfg ec count r n s)"
proof -
  have "\<not> zeromq s" using assms(1) by (auto simp: unread_def dest: batch_not_zeromq)
  moreover have "socket_stopped s \<or> parted s \<and> batched s \<or> has_stop (accepted s)" if "batch_close r"
    using closes_answered_stop assms that by (auto simp: unread_def)
  moreover have "\<not> batch_open r" if "batch_close r" using that by (simp add: batch_open_def batch_close_def)
  ultimately show ?thesis
    using assms(1) unread_open [of "count_received count s"]
    by (simp add: handle_rpc_read_def count_received_def unread_results Let_def)
qed

lemma handle_http_element_batch:
  assumes "unread s" "closes_answered (Some r) s"
  shows "batch_ok False (handle_http_element count r n s)"
proof -
  have "socket_stopped s \<or> parted s \<and> batched s \<or> has_stop (accepted s)" if "batch_close r"
    using closes_answered_stop assms that by (auto simp: unread_def)
  moreover have "\<not> batch_open r" if "batch_close r" using that by (simp add: batch_open_def batch_close_def)
  ultimately show ?thesis
    using assms(1) unread_open [OF assms(1)] by (simp add: handle_http_element_def unread_results Let_def)
qed

lemma handle_http_body_batch:
  assumes "unread s" "closes_answered body s"
  shows "batch_ok False (handle_http_body ec count is_done body n s)"
proof -
  have "unread (s\<lparr>bytes_received := k\<rparr>)" "closes_answered body (s\<lparr>bytes_received := k\<rparr>)" for k
    using assms by (simp_all add: closes_answered_def)
  then show ?thesis
    by (auto simp: handle_http_body_def count_received_def do_http_body_read_def do_http_request_read_def unread_results
        handle_http_element_batch Let_def split: option.splits)
qed

lemma handle_read_batch:
  assumes "unread s"
  shows "batch_ok False (handle_counted ec count n s)" "batch_ok False (handle_detect ec count n s)"
    "batch_ok False (handle_http_header ec count n s)"
  using assms by (simp_all add: handle_counted_def handle_detect_def handle_http_header_def count_received_def
      do_downgrade_read_def do_rpc_request_read_def do_http_request_read_def unread_results Let_def)

section \<open>Completions within batches\<close>

text \<open>The state in which the handler of a completed write is invoked.\<close>

definition batch_ended :: "('m, 'v) proxy \<Rightarrow> bool" where
  "batch_ended s \<longleftrightarrow> ended s \<and> framing_ok s \<and> reads_ok False s \<and> deferred_ok s"

lemma reads_enter: "reads_ok False s \<Longrightarrow> reads_ok True s"
  by (cases "pqueue s") (auto simp: reads_ok_def Let_def split: if_splits)

lemma batch_enter:
  assumes "batch_ended s" "pqueue s \<noteq> []"
  shows "batch_ok True s"
  using assms reads_enter by (auto simp: batch_ended_def ended_def batch_ok_def)

lemma frames_deferred: "deferred_ok s \<Longrightarrow> frames (deferred s) = replicate (length (deferred s)) f_note"
proof -
  have "\<forall>w\<in>set ws. frames_of (writer w) = [f_note] \<Longrightarrow> frames ws = replicate (length ws) f_note" for ws :: "('a, 'b) pending list"
    by (induction ws) simp_all
  then show "deferred_ok s \<Longrightarrow> ?thesis" by (simp add: deferred_ok_def)
qed

lemma deferred_plain:
  assumes "deferred_ok s"
  shows "\<not> has_stop (deferred s)" "close_count (deferred s) = 0"
  using assms by (auto simp: deferred_ok_def has_stop_def close_count_def filter_empty_conv)

lemma drain_framing:
  assumes "framing_ok s" "deferred_ok s" "\<not> batched s"
  shows "framing_ok (s\<lparr>pqueue := ws, accepted := accepted s @ deferred s, deferred := vs\<rparr>)"
  using assms deferred_plain [OF assms(2)]
  by (auto simp: framing_ok_def until_stop_append until_stop_free run_framing_append frames_deferred run_notes)

lemma handle_close_write_batch:
  assumes "batch_ended s" "pqueue s \<noteq> []" "is_close (handler (hd (pqueue s)))"
  shows "batch_ok True (handle_close_write ec count n s)"
proof -
  have reads: "\<not> batched s" "close_count (tl (pqueue s)) = 0" "read_progress s = []"
    using assms by (cases "pqueue s"; auto simp: batch_ended_def reads_ok_def Let_def)+
  let ?s = "s\<lparr>pqueue := pqueue s @ deferred s, accepted := accepted s @ deferred s, deferred := []\<rparr>"
  have deferred: "deferred_ok s" using assms(1) by (simp add: batch_ended_def)
  have "queue_ok True ?s"
    using batch_enter [OF assms(1,2)] drain_queue [of s "deferred s"] by (simp add: batch_ok_def)
  moreover have "framing_ok ?s"
    using drain_framing [OF _ deferred reads(1)] assms(1) by (simp add: batch_ended_def)
  moreover have "reads_ok True ?s" "deferred_ok ?s"
    using reads assms(2) deferred_plain [OF deferred] by (simp_all add: reads_ok_def deferred_ok_def)
  ultimately have "batch_ok True ?s" by (simp add: batch_ok_def)
  moreover have "close_count (tl (pqueue s @ deferred s)) = 0"
    using reads assms(2) deferred_plain [OF deferred] by simp
  ultimately show ?thesis
    using assms(2) reads batch_enter [OF assms(1,2)]
    by (simp add: handle_close_write_def do_rpc_request_read_def start_read_batch Let_def)
qed

lemma invoke_handler_batch:
  assumes "batch_ended s" "pqueue s \<noteq> []" "h = handler (hd (pqueue s))"
  shows "batch_ok True (invoke_handler cfg h ec count s)"
proof (cases h)
  case (close_handler n)
  with assms show ?thesis using handle_close_write_batch [of s ec count n] by (cases "handler (hd (pqueue s))") simp_all
next
  case (http_close_handler n)
  have "batch_ok True (s\<lparr>parser := b\<rparr>)" for b
    using batch_enter [OF assms(1,2)] by (simp add: batch_ok_def)
  moreover have "close_count (tl (pqueue s)) = 0 \<and> read_progress s = []"
    using assms http_close_handler
    by (cases "pqueue s"; cases "handler (hd (pqueue s))") (auto simp: batch_ended_def reads_ok_def Let_def)
  ultimately show ?thesis
    using http_close_handler batch_enter [OF assms(1,2)]
    by (simp add: handle_http_close_write_def do_http_body_read_def start_read_batch)
qed (use batch_enter [OF assms(1,2)] in \<open>simp_all add: finish_stop_batch\<close>)

text \<open>Actions extend the queue at its end and do not start a stopped socket.\<close>

definition extends :: "('m, 'v) proxy \<Rightarrow> ('m, 'v) proxy \<Rightarrow> bool" where
  "extends s t \<longleftrightarrow> prefix (pqueue s) (pqueue t) \<and> (socket_stopped s \<longrightarrow> socket_stopped t)"

lemma extends_trans: "extends s t \<Longrightarrow> extends t u \<Longrightarrow> extends s u"
  by (auto simp: extends_def)

lemma queue_close_extends: "extends s (queue_close h s)"
  by (auto simp: queue_close_def do_solicited_def extends_def push_write_core Let_def)

lemma proxy_stop_extends: "extends s (proxy_stop cfg stranded ec s)"
  using queue_close_extends by (auto simp: proxy_stop_def do_stop_def finish_stop_def make_call_def extends_def)

lemma charge_extends: "charge cfg w s = (ok, w', s') \<Longrightarrow> extends s s'"
  using proxy_stop_extends [of s cfg True e_channel_backlog]
  by (auto simp: charge_def invoke_user_def extends_def Let_def split: if_splits handler.splits)

lemma do_write_extends: "extends s (do_write cfg w notification s)"
proof -
  obtain ok w' s' where charge: "charge cfg w s = (ok, w', s')" by (metis surj_pair)
  with charge_extends [OF charge] show ?thesis
    by (auto simp: do_write_def extends_def push_write_core)
qed

lemma do_defer_write_extends: "extends s (do_defer_write cfg w s)"
proof -
  obtain ok w' s' where charge: "charge cfg w s = (ok, w', s')" by (metis surj_pair)
  with charge_extends [OF charge] do_write_extends show ?thesis
    by (auto simp: do_defer_write_def extends_def)
qed

lemma extends_parted: "extends (s\<lparr>parted := b\<rparr>) t = extends s t"
  by (simp add: extends_def)

lemma act_extends: "extends s (act cfg a s)"
proof -
  have "extends s (do_write cfg w notification (s\<lparr>parted := True\<rparr>))" for w notification
    using do_write_extends [of "s\<lparr>parted := True\<rparr>"] by (simp add: extends_parted)
  then show ?thesis
    by (cases a) (auto simp: do_write_extends do_defer_write_extends proxy_stop_extends do_response_queue_def
        notify_rpc_def write_http_def do_http_queue_def Let_def split: http_content.splits,
        auto simp: extends_def proxy_read_defs split: prod.splits)
qed

lemma acts_extend: "extends s (fold (act cfg) acts s)"
proof (induction acts arbitrary: s)
  case (Cons a acts)
  then show ?case using extends_trans [OF act_extends] by fastforce
qed (simp add: extends_def)

lemma extends_front:
  assumes "extends s t" "pqueue s \<noteq> []"
  shows "hd (pqueue t) = hd (pqueue s)" "pqueue t \<noteq> []"
  using assms by (auto simp: extends_def prefix_def)

text \<open>A completion of a write that ends in a stop leaves the socket stopped.\<close>

lemma invoke_handler_front:
  assumes "pqueue s \<noteq> []"
  shows "hd (pqueue (invoke_handler cfg h ec count s)) = hd (pqueue s)"
    "pqueue (invoke_handler cfg h ec count s) \<noteq> []"
    "is_stop h \<Longrightarrow> socket_stopped (invoke_handler cfg h ec count s)"
  using assms
  by (cases h; simp add: handle_close_write_def handle_http_close_write_def finish_stop_def proxy_read_defs)+

lemma pop_batch:
  assumes "batch_ok True s" "is_stop (handler (hd (pqueue s))) \<longrightarrow> socket_stopped s"
  shows "batch_ok False (if socket_stopped (pop s) then pop s else proxy_write (pop s))"
proof -
  obtain w ws where q: "pqueue s = w # ws" using assms(1) by (cases "pqueue s") (auto simp: batch_ok_def queue_ok_def)
  have pop: "framing_ok (pop s)" "reads_ok False (pop s)" "deferred_ok (pop s)"
    using assms q by (auto simp: batch_ok_def pop_def framing_ok_def reads_ok_def deferred_ok_def Let_def)
  moreover have "framing_ok (proxy_write (pop s))" if "\<not> socket_stopped (pop s)"
    using pop(1) that by (auto simp: proxy_write_def framing_ok_def call_writer_core split: list.splits)
  moreover have "reads_ok False (proxy_write t) = reads_ok False t" "deferred_ok (proxy_write t) = deferred_ok t"
      for t :: "('a, 'b) proxy"
    by (simp_all add: proxy_write_def reads_ok_def deferred_ok_def call_writer_core split: list.splits)
  ultimately show ?thesis
    using pop_queue [of s] assms(1) by (simp add: batch_ok_def)
qed

lemma handle_write_batch:
  assumes "batch_ended s" "\<forall>a\<in>set acts. rpc_action a \<and> \<not> is_read a"
  shows "batch_ok False (handle_write cfg acts ec count s)"
proof (cases "pqueue s")
  case Nil
  with assms(1) show ?thesis by (simp add: handle_write_def batch_ended_def ended_def batch_ok_def)
next
  case (Cons front rest)
  let ?t = "invoke_handler cfg (handler front) ec count s"
  let ?u = "fold (act cfg) acts ?t"
  have "batch_ok True ?u"
    using invoke_handler_batch [of s "handler front"] Cons assms by (simp add: acts_batch)
  moreover have "is_stop (handler (hd (pqueue ?u))) \<longrightarrow> socket_stopped ?u"
    using invoke_handler_front [where s = s and cfg = cfg and h = "handler front" and ec = ec and count = count] Cons extends_front [OF acts_extend, of ?t]
      acts_extend [of ?t cfg acts] by (auto simp: extends_def)
  ultimately show ?thesis using pop_batch [of ?u] Cons by (simp add: handle_write_def Let_def)
qed

lemma batch_ended_unconstrained [simp]:
  "batch_ended (s\<lparr>bytes_sent := n\<rparr>) = batch_ended s" "batch_ended (s\<lparr>writing := b\<rparr>) = batch_ended s"
  by (simp_all add: batch_ended_def)

lemma continue_write_batch:
  assumes "batch_ended s" "\<forall>a\<in>set acts. rpc_action a \<and> \<not> is_read a"
  shows "batch_ok False (continue_write cfg acts kind ec count s)"
proof -
  have "queue_ok False (continue_write cfg acts kind ec count s)"
    using assms(1) by (simp add: continue_write_ok batch_ended_def)
  then show ?thesis
    using assms handle_write_batch [OF assms, of cfg ec count]
    by (auto simp: continue_write_def handle_http_header_write_def start_write_def make_call_def batch_ok_def
        batch_ended_def split: write_next.splits if_splits)
qed

lemma handle_metered_batch:
  assumes "batch_ended s" "\<forall>a\<in>set acts. rpc_action a \<and> \<not> is_read a"
  shows "batch_ok False (handle_metered cfg acts kind ec count consumed s)"
proof -
  have "queue_ok False (handle_metered cfg acts kind ec count consumed s)"
    using assms(1) by (simp add: handle_metered_ok batch_ended_def)
  then show ?thesis
    using assms continue_write_batch [OF _ assms(2), of "s\<lparr>bytes_sent := ceilinged_add (bytes_sent s) count, writing := False\<rparr>"]
    by (auto simp: handle_metered_def batch_ok_def batch_ended_def Let_def)
qed

lemma write_batch_ended:
  assumes "batch_ok False s"
  shows "write_progress s = next # rest \<Longrightarrow> batch_ended (s\<lparr>write_progress := rest\<rparr>)"
    and "throttled s = Some c \<Longrightarrow> batch_ended (s\<lparr>throttled := None\<rparr>)"
  using assms write_ended [of s] by (simp_all add: batch_ok_def batch_ended_def)

lemma proxy_stopping_batch:
  assumes "batch_ok False s" "posted_stops s = ec # rest"
  shows "batch_ok False (proxy_stopping ec (s\<lparr>posted_stops := rest\<rparr>))"
proof -
  have "socket_stopped s" "queue_ok False (s\<lparr>posted_stops := rest\<rparr>)"
    using assms by (auto simp: batch_ok_def queue_ok_def outstanding_def)
  then show ?thesis
    using assms(1) proxy_stopping_ok(1) [of "s\<lparr>posted_stops := rest\<rparr>" ec]
    by (auto simp: batch_ok_def proxy_stopping_def framing_ok_def reads_ok_def deferred_ok_def Let_def split: prod.splits)
qed

lemma proxy_step_batch:
  assumes "proxy_step rpc_action cfg s s'" "batch_ok False s"
  shows "batch_ok False s'"
  using assms(1)
proof cases
  case (step_act a)
  then show ?thesis using assms(2) by (cases "is_read a") (simp_all add: act_batch act_read_batch)
next
  case (step_metered "next" rest acts ec count consumed)
  then show ?thesis using write_batch_ended(1) [OF assms(2)] by (simp add: handle_metered_batch)
next
  case (step_charge "next" ec count acts)
  then show ?thesis using write_batch_ended(2) [OF assms(2)] by (simp add: handle_charge_def continue_write_batch)
next
  case (step_rpc_read n rest r ec count)
  then show ?thesis using read_completes [OF assms(2)] by (simp add: handle_rpc_read_batch closes_answered_def)
next
  case (step_http_body n rest body ec count is_done)
  then show ?thesis using read_completes [OF assms(2)] by (simp add: handle_http_body_batch closes_answered_def)
next
  case (step_detect n rest ec count d)
  then show ?thesis using read_completes [OF assms(2)]
    by (metis handle_read_batch(2) unread_updates(3,4))
next
  case (step_stopping ec rest)
  then show ?thesis using assms(2) by (simp add: proxy_stopping_batch)
qed (use read_completes [OF assms(2)] in \<open>simp_all add: handle_read_batch\<close>)

lemma proxying_batch: "proxying rpc_action cfg False s \<Longrightarrow> batch_ok False s"
proof (induction rule: proxying.induct)
  case proxy_started
  show ?case
    by (simp add: proxy_init_def batch_ok_def queue_ok_def outstanding_def framing_ok_def reads_ok_def deferred_ok_def)
qed (rule proxy_step_batch)

section \<open>Properties\<close>

text \<open>
  C7. The json-rpc output of a channel is well framed: in every reachable state, the writes issued form
  single responses and notifications outside of batches, and batches of an opening part, further parts
  and a close, into which nothing else falls, also when a stop closes an open batch. It is assumed that
  the channel keeps one read, answers the elements of a batch before it reads its end, and writes its
  responses solicited.
\<close>

theorem batch_well_framed:
  assumes "proxying rpc_action cfg False s"
  shows "well_framed (frames (issued s))"
  using issued_well_framed proxying_batch [OF assms] by (auto simp: batch_ok_def)

text \<open>A batch of one element, with a notification during the batch and one after its end was read.\<close>

definition named :: "string \<Rightarrow> nat rpc_message" where
  "named name = \<lparr>rpc_method = name, rpc_params = None\<rparr>"

definition example_open :: "nat rpc_request" where
  "example_open = \<lparr>request_message = named ''first'', request_batch = False, request_changed = True\<rparr>"

definition example_close :: "nat rpc_request" where
  "example_close = \<lparr>request_message = named [], request_batch = True, request_changed = True\<rparr>"

abbreviation example_part :: "(nat, nat) pending" where
  "example_part \<equiv> \<lparr>cost = 0, writer = response_call \<lparr>part_message = Some 5, part_batch = False, part_changed = True\<rparr>,
     handler = user_handler 2\<rparr>"

abbreviation example_end :: "(nat, nat) pending" where
  "example_end \<equiv> \<lparr>cost = 0, writer = response_call close_part, handler = close_handler 0\<rparr>"

abbreviation example_note :: "string \<Rightarrow> nat \<Rightarrow> (nat, nat) pending" where
  "example_note name n \<equiv> \<lparr>cost = 356, writer = notification_call (named name), handler = user_handler n\<rparr>"

definition batch_1 :: "(nat, nat) proxy" where
  "batch_1 = handle_rpc_read example_config e_success 10 example_open 0
     ((do_rpc_request_read 0 (proxy_init False))\<lparr>read_progress := []\<rparr>)"

definition batch_2 :: "(nat, nat) proxy" where
  "batch_2 = do_response_queue example_config 5 2 (notify_rpc example_config (named ''early'') 1 batch_1)"

definition batch_3 :: "(nat, nat) proxy" where
  "batch_3 = handle_rpc_read example_config e_success 2 example_close 0
     ((do_rpc_request_read 0 batch_2)\<lparr>read_progress := []\<rparr>)"

definition example_batch :: "(nat, nat) proxy" where
  "example_batch = notify_rpc example_config (named ''late'') 3 batch_3"

lemmas batch_read_defs = handle_rpc_read_def do_rpc_request_read_def start_read_def make_call_def count_received_def
  batch_open_def batch_close_def invoke_user_def queue_close_def do_solicited_def example_open_def example_close_def

lemmas batch_write_defs = notify_rpc_def do_response_queue_def do_defer_write_def do_write_def charge_def push_write_def
  proxy_write_def start_write_def make_call_def ceilinged_add_def entry_size_def example_config_def

lemma batch_1: "batch_1 = (proxy_init False)\<lparr>batched := True, bytes_received := 10, calls := [rpc_read False],
    invoked := [(0, e_success, 10)]\<rparr>"
  by (simp add: batch_1_def batch_read_defs proxy_init_def ceilinged_add_def Let_def)

lemma batch_2: "batch_2 = (proxy_init False)\<lparr>batched := True, parted := True, bytes_received := 10, backlog := 356,
    deferred := [example_note ''early'' 1], pqueue := [example_part], accepted := [example_part],
    issued := [example_part], writing := True, write_progress := [next_write],
    calls := [rpc_read False, rpc_write \<lparr>part_message = Some 5, part_batch = False, part_changed = True\<rparr>],
    invoked := [(0, e_success, 10)]\<rparr>"
  unfolding batch_2_def batch_1 by (simp add: batch_write_defs proxy_init_def Let_def)

lemma batch_3: "batch_3 = batch_2\<lparr>batched := False, parted := False, bytes_received := 12,
    pqueue := [example_part, example_end], accepted := [example_part, example_end],
    calls := calls batch_2 @ [rpc_read True]\<rparr>"
  unfolding batch_3_def batch_2
  by (simp add: batch_read_defs batch_write_defs proxy_init_def Let_def)

lemma example_batch: "example_batch = batch_3\<lparr>backlog := 712,
    pqueue := [example_part, example_end, example_note ''late'' 3],
    accepted := [example_part, example_end, example_note ''late'' 3]\<rparr>"
  unfolding example_batch_def batch_3 batch_2 by (simp add: batch_write_defs proxy_init_def Let_def)

lemma example_batch_proxying: "proxying rpc_action example_config False example_batch"
proof -
  let ?cfg = example_config
  have read: "proxying rpc_action ?cfg False (handle_rpc_read ?cfg e_success k r 0 ((do_rpc_request_read 0 s)\<lparr>read_progress := []\<rparr>))"
    if "proxying rpc_action ?cfg False s" "\<not> reading s" "closes_answered (Some r) s" for s k r
  proof -
    have "proxying rpc_action ?cfg False (do_rpc_request_read 0 s)"
      using proxy_stepped [OF that(1) step_act [of rpc_action "act_rpc_read 0" s ?cfg]] that(2) by simp
    then show ?thesis
      by (rule proxy_stepped, intro step_rpc_read)
        (use that in \<open>simp_all add: reading_def closes_answered_def do_rpc_request_read_def start_read_def make_call_def\<close>)
  qed
  have notify: "proxying rpc_action ?cfg False (notify_rpc ?cfg m n s)" if "proxying rpc_action ?cfg False s" for m n s
    using proxy_stepped [OF that step_act [of rpc_action "act_notify m n" s ?cfg]] by simp
  have response: "proxying rpc_action ?cfg False (do_response_queue ?cfg m n s)" if "proxying rpc_action ?cfg False s" for m n s
    using proxy_stepped [OF that step_act [of rpc_action "act_response m n" s ?cfg]] by simp
  have "proxying rpc_action ?cfg False batch_1"
    unfolding batch_1_def
    by (rule read [OF proxy_started])
      (simp_all add: reading_def closes_answered_def proxy_init_def batch_close_def example_open_def)
  then have 2: "proxying rpc_action ?cfg False batch_2"
    unfolding batch_2_def by (intro response notify)
  have "proxying rpc_action ?cfg False batch_3"
    unfolding batch_3_def by (rule read [OF 2]) (simp_all add: batch_2 reading_def closes_answered_def proxy_init_def)
  then show ?thesis unfolding example_batch_def by (rule notify)
qed

theorem batch_well_framed_witness:
  "well_framed (frames (issued example_batch)) \<and> frames (pqueue example_batch) = [f_open, f_close, f_note]"
  using batch_well_framed [OF example_batch_proxying] by (simp add: example_batch close_part_def)

text \<open>
  The drain of the deferred notifications puts them after those that were queued between the read of the
  end of the batch and the completion of the write of its close: notifications are reordered.
\<close>

lemma notifications_reordered:
  "map writer (pqueue (handle_write example_config [] e_success 1 (handle_write example_config [] e_success 9 example_batch)))
     = [notification_call (named ''late''), notification_call (named ''early'')]"
  by (simp add: example_batch batch_3 batch_2 proxy_init_def handle_write_def pop_def handle_close_write_def
      proxy_write_def start_write_def start_read_def make_call_def do_rpc_request_read_def invoke_user_def Let_def)

end
