(* ===== verification/Channel.thy ===== *)
theory Channel
  imports Peer_Body
begin

text \<open>
  The channel (\<open>src/src/channels/channel.cpp\<close>) and the peer channel (\<open>channel_peer.cpp\<close>): the gate by
  which the next read is deferred until the handlers of a message are done, the hold of the gate (pause
  and resume), the read cycle, the watch for close, the timers, the counters and the ping times.

  A gate is a shared object whose destruction posts a job that arms the read. Gates are numbers, and a
  gate is alive while the channel, the hold or a requestor refers to it. The handlers that a message is
  dispatched to are a list of actions, run where the code notifies the dispatcher. The jobs of the
  strand are the steps \<open>channel_step\<close>. The proxy below the channel is represented by whether it is
  stopped and by the reads in progress; the clock is an input.
\<close>

section \<open>State\<close>

record channel =
  ch_stopped :: "error_t option"
  posted_stopping :: "error_t list"
  gate :: "nat option"
  held :: "nat option"
  retained :: "nat list"
  next_gate :: nat
  ch_reading :: bool
  reads :: nat
  posted_receives :: nat
  ch_started :: bool
  monitored :: bool
  polling :: bool
  expiration_on :: bool
  inactivity_on :: bool
  last_read :: nat
  received_by_message :: "nat list"
  sent_by_message :: "nat list"
  dispatched :: "nat list"
  pinged :: nat
  ping_time :: nat
  minimum_ping :: nat

record channel_options =
  inactivity_span :: nat
  expiration_span :: nat

definition channel_init :: "nat \<Rightarrow> channel" where
  "channel_init created = \<lparr>ch_stopped = None, posted_stopping = [], gate = None, held = None, retained = [],
     next_gate = 0, ch_reading = False, reads = 0, posted_receives = 0, ch_started = False, monitored = False,
     polling = False, expiration_on = False, inactivity_on = False, last_read = created,
     received_by_message = replicate registry_size 0, sent_by_message = replicate registry_size 0,
     dispatched = [], pinged = 0, ping_time = 0, minimum_ping = 0\<rparr>"

section \<open>Stop\<close>

text \<open>The stop of the proxy, which posts \<open>stopping\<close> to the strand.\<close>

definition channel_stop :: "error_t \<Rightarrow> channel \<Rightarrow> channel" where
  "channel_stop ec s =
    (if ch_stopped s \<noteq> None then s
     else s\<lparr>ch_stopped := Some ec, posted_stopping := posted_stopping s @ [ec]\<rparr>)"

section \<open>Gate\<close>

definition references :: "channel \<Rightarrow> nat set" where
  "references s = set_option (gate s) \<union> set_option (held s) \<union> set (retained s)"

text \<open>The end of a reference, which destroys the gate if it is the last: \<open>handle_gate\<close>.\<close>

definition drop_reference :: "nat option \<Rightarrow> channel \<Rightarrow> channel" where
  "drop_reference g s = (case g of None \<Rightarrow> s
     | Some g \<Rightarrow> if g \<in> references s then s else s\<lparr>posted_receives := posted_receives s + 1\<rparr>)"

definition make_gate :: "channel \<Rightarrow> nat \<times> channel" where
  "make_gate s = (next_gate s, s\<lparr>next_gate := next_gate s + 1\<rparr>)"

definition open_gate :: "channel \<Rightarrow> channel" where
  "open_gate s = (let (g, t) = make_gate s in drop_reference (gate s) (t\<lparr>gate := Some g\<rparr>))"

definition close_gate :: "channel \<Rightarrow> channel" where
  "close_gate s = drop_reference (gate s) (s\<lparr>gate := None\<rparr>)"

section \<open>Watch for close\<close>

definition start_monitor :: "channel \<Rightarrow> channel" where
  "start_monitor s = s\<lparr>polling := True\<rparr>"

definition monitor :: "bool \<Rightarrow> channel \<Rightarrow> channel" where
  "monitor value s =
    (let s = s\<lparr>monitored := value\<rparr> in if monitored s \<and> \<not> polling s then start_monitor s else s)"

definition handle_monitor :: "error_t \<Rightarrow> channel \<Rightarrow> channel" where
  "handle_monitor ec s =
    (let s = s\<lparr>polling := False\<rparr>
     in if failed ec then channel_stop ec s
        else if monitored s \<and> ch_stopped s = None then start_monitor s
        else s)"

section \<open>Timers\<close>

definition stop_expiration :: "channel \<Rightarrow> channel" where
  "stop_expiration s = s\<lparr>expiration_on := False\<rparr>"

definition stop_inactivity :: "channel \<Rightarrow> channel" where
  "stop_inactivity s = s\<lparr>inactivity_on := False\<rparr>"

definition start_expiration :: "channel_options \<Rightarrow> channel \<Rightarrow> channel" where
  "start_expiration opt s = (if ch_stopped s \<noteq> None then s
     else if expiration_span opt \<noteq> 0 then s\<lparr>expiration_on := True\<rparr> else s)"

definition start_inactivity :: "channel_options \<Rightarrow> channel \<Rightarrow> channel" where
  "start_inactivity opt s = (if ch_stopped s \<noteq> None then s
     else if inactivity_span opt \<noteq> 0 then s\<lparr>inactivity_on := True\<rparr> else s)"

definition handle_expiration :: "error_t \<Rightarrow> channel \<Rightarrow> channel" where
  "handle_expiration ec s =
    (if ch_stopped s \<noteq> None \<or> ec = e_operation_canceled then s
     else if failed ec then channel_stop ec s
     else channel_stop e_channel_expired s)"

definition handle_inactivity :: "channel_options \<Rightarrow> nat \<Rightarrow> error_t \<Rightarrow> channel \<Rightarrow> channel" where
  "handle_inactivity opt now ec s =
    (if ch_stopped s \<noteq> None \<or> ec = e_operation_canceled then s
     else if failed ec then channel_stop ec s
     else if now - last_read s < inactivity_span opt then s\<lparr>inactivity_on := True\<rparr>
     else channel_stop e_channel_inactive s)"

definition note_reading :: "nat \<Rightarrow> channel \<Rightarrow> channel" where
  "note_reading now s = s\<lparr>last_read := now\<rparr>"

definition remaining :: "channel_options \<Rightarrow> nat \<Rightarrow> channel \<Rightarrow> nat" where
  "remaining opt now s = inactivity_span opt - (now - last_read s)"

section \<open>Read cycle\<close>

text \<open>The frame a read is given: the witness flag is not set by the channel.\<close>

definition create_frame :: "uint32 \<Rightarrow> uint32 \<Rightarrow> bool \<Rightarrow> nat \<Rightarrow> ('h, 't, 'b) frame" where
  "create_frame identifier negotiated validate_checksum maximum_request =
    \<lparr>frame_magic = identifier, frame_version = negotiated, frame_witness = False,
     frame_checksum = validate_checksum, frame_maximum = maximum_request, frame_fault = e_success,
     frame_head = \<lparr>magic = 0, command = [], payload_size = 0, checksum = 0\<rparr>,
     frame_payload = None, frame_message = None, frame_index = 0, frame_data = None\<rparr>"

definition receive :: "channel \<Rightarrow> channel" where
  "receive s = (if ch_stopped s \<noteq> None \<or> ch_reading s then s else s\<lparr>ch_reading := True, reads := reads s + 1\<rparr>)"

definition do_receive :: "channel \<Rightarrow> channel" where
  "do_receive s = receive (monitor False s)"

definition count_message :: "nat \<Rightarrow> nat \<Rightarrow> nat list \<Rightarrow> nat list" where
  "count_message index amount counts =
    (if index < registry_size then counts[index := ceilinged_add (counts ! index) amount] else counts)"

section \<open>Pause and resume\<close>

definition pause_channel :: "channel \<Rightarrow> channel" where
  "pause_channel s =
    (let s = stop_inactivity (stop_expiration s)
     in if ch_stopped s \<noteq> None then s
        else case gate s of
          Some g \<Rightarrow> drop_reference (held s) (s\<lparr>held := Some g\<rparr>)
        | None \<Rightarrow> let (g, t) = make_gate s in drop_reference (held s) (t\<lparr>held := Some g\<rparr>))"

definition resume_channel :: "channel_options \<Rightarrow> channel \<Rightarrow> channel" where
  "resume_channel opt s =
    (let s = start_inactivity opt (start_expiration opt (s\<lparr>ch_started := True\<rparr>))
     in if held s \<noteq> None then drop_reference (held s) (s\<lparr>held := None\<rparr>) else receive s)"

definition channel_stopping :: "channel \<Rightarrow> channel" where
  "channel_stopping s =
    (let s = stop_inactivity (stop_expiration s) in drop_reference (held s) (s\<lparr>held := None\<rparr>))"

section \<open>Dispatch\<close>

definition retain_gate :: "channel \<Rightarrow> channel" where
  "retain_gate s = (case gate s of None \<Rightarrow> s | Some g \<Rightarrow> (monitor True s)\<lparr>retained := g # retained s\<rparr>)"

definition release_gate :: "nat \<Rightarrow> channel \<Rightarrow> channel" where
  "release_gate g s = (if g \<in> set (retained s) then drop_reference (Some g) (s\<lparr>retained := remove1 g (retained s)\<rparr>) else s)"

datatype dispatch_action = retains | releases nat | pauses | stops error_t

fun dispatch_act :: "dispatch_action \<Rightarrow> channel \<Rightarrow> channel" where
  "dispatch_act retains s = retain_gate s"
| "dispatch_act (releases g) s = release_gate g s"
| "dispatch_act pauses s = pause_channel s"
| "dispatch_act (stops ec) s = channel_stop ec s"

definition handle_receive :: "error_t \<Rightarrow> error_t \<Rightarrow> nat \<Rightarrow> nat \<Rightarrow> dispatch_action list \<Rightarrow> error_t \<Rightarrow> channel \<Rightarrow> channel" where
  "handle_receive ec fault amount index acts result s =
    (if ch_stopped s \<noteq> None then s
     else if failed ec then channel_stop (if failed fault then fault else ec) s
     else
       let s = s\<lparr>received_by_message := count_message index amount (received_by_message s), ch_reading := False\<rparr>;
           s = open_gate s;
           s = fold dispatch_act acts (s\<lparr>dispatched := dispatched s @ [index]\<rparr>);
           s = close_gate s
       in if failed result then channel_stop result s else s)"

definition channel_handle_send :: "error_t \<Rightarrow> nat \<Rightarrow> nat \<Rightarrow> channel \<Rightarrow> channel" where
  "channel_handle_send ec amount index s =
    (let s = s\<lparr>sent_by_message := count_message index amount (sent_by_message s)\<rparr>
     in if failed ec then channel_stop ec s else s)"

section \<open>Ping times\<close>

definition pending_ping_time :: "nat \<Rightarrow> channel \<Rightarrow> nat" where
  "pending_ping_time now s = (if pinged s = 0 then 0 else now - pinged s)"

definition set_ping :: "nat \<Rightarrow> channel \<Rightarrow> channel" where
  "set_ping now s = s\<lparr>pinged := now\<rparr>"

definition set_pong :: "nat \<Rightarrow> channel \<Rightarrow> channel" where
  "set_pong now s =
    (if pinged s = 0 then s
     else let s = s\<lparr>ping_time := now - pinged s, pinged := 0\<rparr>
          in if minimum_ping s = 0 \<or> ping_time s < minimum_ping s then s\<lparr>minimum_ping := ping_time s\<rparr> else s)"

definition get_updated_address :: "uint32 \<Rightarrow> version_message option \<Rightarrow> address_item \<Rightarrow> address_item" where
  "get_updated_address now peer item =
    (let item = item\<lparr>ai_timestamp := now\<rparr>
     in case peer of None \<Rightarrow> item | Some m \<Rightarrow> item\<lparr>ai_services := ver_services m\<rparr>)"

section \<open>Steps\<close>

text \<open>
  A session resumes a channel to start it, and after it was held; a protocol pauses within the dispatch
  of a message.
\<close>

inductive channel_step :: "channel_options \<Rightarrow> channel \<Rightarrow> channel \<Rightarrow> bool" for opt where
  step_resume: "\<not> ch_started s \<or> held s \<noteq> None \<Longrightarrow> channel_step opt s (resume_channel opt s)"
| step_receive: "posted_receives s = Suc n \<Longrightarrow> channel_step opt s (do_receive (s\<lparr>posted_receives := n\<rparr>))"
| step_read: "reads s = Suc n \<Longrightarrow>
    channel_step opt s (handle_receive ec fault amount index acts result (s\<lparr>reads := n\<rparr>))"
| step_reading: "channel_step opt s (note_reading now s)"
| step_release: "channel_step opt s (release_gate g s)"
| step_sent: "channel_step opt s (channel_handle_send ec amount index s)"
| step_monitor: "polling s \<Longrightarrow> channel_step opt s (handle_monitor ec s)"
| step_expiration: "channel_step opt s (handle_expiration ec (s\<lparr>expiration_on := False\<rparr>))"
| step_inactivity: "channel_step opt s (handle_inactivity opt now ec (s\<lparr>inactivity_on := False\<rparr>))"
| step_ping: "channel_step opt s (set_ping now s)"
| step_pong: "channel_step opt s (set_pong now s)"
| step_stop: "channel_step opt s (channel_stop ec s)"
| step_stopping: "posted_stopping s = ec # rest \<Longrightarrow>
    channel_step opt s (channel_stopping (s\<lparr>posted_stopping := rest\<rparr>))"

inductive channeling :: "channel_options \<Rightarrow> channel \<Rightarrow> bool" for opt where
  channel_created: "channeling opt (channel_init created)"
| channel_stepped: "channeling opt s \<Longrightarrow> channel_step opt s s' \<Longrightarrow> channeling opt s'"

section \<open>The read token\<close>

text \<open>
  Outside of a dispatch exactly one of these holds once the channel was started: a read is in progress,
  a job that arms it is posted, or a gate is alive, to which all references refer.
\<close>

definition idle :: "channel \<Rightarrow> bool" where
  "idle s \<longleftrightarrow> \<not> ch_reading s \<and> posted_receives s = 0"

definition token_ok :: "channel \<Rightarrow> bool" where
  "token_ok s \<longleftrightarrow> gate s = None \<and> (posted_stopping s \<noteq> [] \<longrightarrow> ch_stopped s \<noteq> None) \<and>
    (if ch_stopped s \<noteq> None then reads s \<le> 1
     else reads s = (if ch_reading s then 1 else 0) \<and>
       (if ch_started s then
          ch_reading s \<and> posted_receives s = 0 \<and> references s = {} \<or>
          \<not> ch_reading s \<and> posted_receives s = 1 \<and> references s = {} \<or>
          idle s \<and> (\<exists>g. references s = {g})
        else idle s \<and> references s = {}))"

text \<open>Within a dispatch the gate is open, and all references are to it.\<close>

definition dispatch_ok :: "nat \<Rightarrow> channel \<Rightarrow> bool" where
  "dispatch_ok g s \<longleftrightarrow> gate s = Some g \<and> reads s = 0 \<and> (posted_stopping s \<noteq> [] \<longrightarrow> ch_stopped s \<noteq> None) \<and>
    ch_started s \<and> idle s \<and> references s = {g}"

text \<open>Members the token does not depend on.\<close>

lemma token_unconstrained [simp]:
  "token_ok (s\<lparr>monitored := b\<rparr>) = token_ok s" "token_ok (s\<lparr>polling := b\<rparr>) = token_ok s"
  "token_ok (s\<lparr>expiration_on := b\<rparr>) = token_ok s" "token_ok (s\<lparr>inactivity_on := b\<rparr>) = token_ok s"
  "token_ok (s\<lparr>last_read := n\<rparr>) = token_ok s" "token_ok (s\<lparr>sent_by_message := ns\<rparr>) = token_ok s"
  "token_ok (s\<lparr>pinged := n\<rparr>) = token_ok s" "token_ok (s\<lparr>ping_time := n\<rparr>) = token_ok s"
  "token_ok (s\<lparr>minimum_ping := n\<rparr>) = token_ok s"
  by (simp_all add: token_ok_def idle_def references_def)

lemma channel_stop_token: "token_ok s \<Longrightarrow> token_ok (channel_stop ec s)"
  by (auto simp: token_ok_def channel_stop_def split: if_splits)

lemma dispatch_unconstrained [simp]:
  "dispatch_ok g (s\<lparr>monitored := b\<rparr>) = dispatch_ok g s" "dispatch_ok g (s\<lparr>polling := b\<rparr>) = dispatch_ok g s"
  "dispatch_ok g (s\<lparr>expiration_on := b\<rparr>) = dispatch_ok g s" "dispatch_ok g (s\<lparr>inactivity_on := b\<rparr>) = dispatch_ok g s"
  by (simp_all add: dispatch_ok_def idle_def references_def)

lemma monitor_simps [simp]:
  "dispatch_ok g (monitor b s) = dispatch_ok g s" "token_ok (monitor b s) = token_ok s"
  "retained (monitor b s) = retained s" "ch_stopped (monitor b s) = ch_stopped s"
  by (simp_all add: monitor_def start_monitor_def Let_def)

lemma drop_live [simp]: "g \<in> references s \<Longrightarrow> drop_reference (Some g) s = s" "drop_reference None s = s"
  by (simp_all add: drop_reference_def)

lemma drop_dead: "g \<notin> references s \<Longrightarrow> drop_reference (Some g) s = s\<lparr>posted_receives := posted_receives s + 1\<rparr>"
  by (simp add: drop_reference_def)

lemma references_posted [simp]: "references (s\<lparr>posted_receives := n\<rparr>) = references s"
  by (simp add: references_def)

lemma references_within:
  assumes "gate s = Some g" "references s = {g}"
  shows "set (retained s) \<subseteq> {g}" "set_option (held s) \<subseteq> {g}"
  using assms unfolding references_def by blast+

lemma dispatch_act_ok:
  assumes "dispatch_ok g s"
  shows "dispatch_ok g (dispatch_act a s)"
proof (cases a)
  case retains
  have "dispatch_ok g (monitor True s)" using assms by simp
  then show ?thesis
    using assms retains by (auto simp: retain_gate_def dispatch_ok_def idle_def references_def)
next
  case (releases h)
  let ?t = "s\<lparr>retained := remove1 h (retained s)\<rparr>"
  have g: "gate s = Some g" "references s = {g}" using assms by (simp_all add: dispatch_ok_def)
  then have "references ?t = {g}"
    using references_within [OF g] set_remove1_subset [of h "retained s"] by (auto simp: references_def)
  moreover have "h \<in> set (retained s) \<Longrightarrow> h = g" using references_within(1) [OF g] by blast
  ultimately show ?thesis
    using assms releases by (simp add: release_gate_def) (simp add: dispatch_ok_def idle_def)
next
  case pauses
  have s: "dispatch_ok g (stop_inactivity (stop_expiration s))" (is "dispatch_ok g ?s")
    using assms by (simp add: stop_inactivity_def stop_expiration_def)
  then have g: "gate ?s = Some g" "references ?s = {g}" by (simp_all add: dispatch_ok_def)
  then have t: "references (?s\<lparr>held := Some g\<rparr>) = {g}"
    using references_within [OF g] by (auto simp: references_def)
  have "drop_reference (held ?s) (?s\<lparr>held := Some g\<rparr>) = ?s\<lparr>held := Some g\<rparr>"
    using references_within(2) [OF g] t by (cases "held ?s") simp_all
  with s g t pauses show ?thesis
    by (simp add: pause_channel_def Let_def) (auto simp: dispatch_ok_def idle_def)
next
  case (stops ec)
  with assms show ?thesis
    by (auto simp: channel_stop_def dispatch_ok_def idle_def references_def)
qed

lemma dispatch_acts_ok: "dispatch_ok g s \<Longrightarrow> dispatch_ok g (fold dispatch_act acts s)"
  by (induction acts arbitrary: s) (simp_all add: dispatch_act_ok)

lemma close_gate_token:
  assumes "dispatch_ok g s"
  shows "token_ok (close_gate s)"
proof -
  have g: "gate s = Some g" "references s = {g}" using assms by (simp_all add: dispatch_ok_def)
  have "references (s\<lparr>gate := None\<rparr>) \<subseteq> {g}" using references_within [OF g] by (auto simp: references_def)
  then consider "references (s\<lparr>gate := None\<rparr>) = {}" | "references (s\<lparr>gate := None\<rparr>) = {g}" by blast
  then show ?thesis
  proof cases
    case 1
    then show ?thesis
      using assms g by (auto simp: close_gate_def drop_dead dispatch_ok_def token_ok_def idle_def)
  next
    case 2
    then show ?thesis
      using assms g by (auto simp: close_gate_def dispatch_ok_def token_ok_def idle_def)
  qed
qed

lemma handle_receive_token:
  assumes "token_ok s" "reads s = Suc n"
  shows "token_ok (handle_receive ec fault amount index acts result (s\<lparr>reads := n\<rparr>))"
proof (cases "ch_stopped s \<noteq> None \<or> failed ec")
  case True
  with assms show ?thesis
    by (auto simp: handle_receive_def token_ok_def channel_stop_def split: if_splits)
next
  case False
  let ?s = "open_gate (s\<lparr>reads := n, received_by_message := count_message index amount (received_by_message s),
    ch_reading := False\<rparr>)"
  have "gate s = None" "references s = {}" "ch_started s" "posted_receives s = 0" "n = 0" "posted_stopping s = []"
    using assms False by (auto simp: token_ok_def idle_def split: if_splits)
  then have "dispatch_ok (next_gate s) (?s\<lparr>dispatched := dispatched ?s @ [index]\<rparr>)"
    by (simp add: dispatch_ok_def open_gate_def make_gate_def idle_def references_def)
  from close_gate_token [OF dispatch_acts_ok [OF this, of acts]] False show ?thesis
    by (simp add: handle_receive_def channel_stop_token Let_def)
qed

text \<open>The end of a reference to the one gate alive.\<close>

lemma drop_token:
  assumes "token_ok s" "ch_stopped s = None" "g \<in> references s" "references (s\<lparr>held := h, retained := r\<rparr>) \<subseteq> references s"
  shows "token_ok (drop_reference (Some g) (s\<lparr>held := h, retained := r\<rparr>))"
proof -
  have s: "idle s" "references s = {g}" "ch_started s" "reads s = 0" "gate s = None" "posted_stopping s = []"
    using assms(1-3) by (auto simp: token_ok_def idle_def split: if_splits)
  from assms(4) s(2) consider "references (s\<lparr>held := h, retained := r\<rparr>) = {}"
    | "references (s\<lparr>held := h, retained := r\<rparr>) = {g}" by auto
  then show ?thesis
    by cases (use s assms(2) in \<open>simp_all add: drop_dead token_ok_def idle_def\<close>)
qed

lemma drop_stopped:
  "token_ok s \<Longrightarrow> ch_stopped s \<noteq> None \<Longrightarrow> token_ok (drop_reference g (s\<lparr>held := h, retained := r\<rparr>))"
  by (auto simp: drop_reference_def token_ok_def split: option.splits)

lemma release_gate_token:
  assumes "token_ok s"
  shows "token_ok (release_gate g s)"
proof -
  have "token_ok (drop_reference (Some g) (s\<lparr>held := held s, retained := remove1 g (retained s)\<rparr>))"
    if "g \<in> set (retained s)"
  proof (cases "ch_stopped s = None")
    case True
    show ?thesis
      by (rule drop_token [OF assms True])
        (use that set_remove1_subset [of g "retained s"] in \<open>auto simp: references_def\<close>)
  next
    case False
    then show ?thesis by (rule drop_stopped [OF assms])
  qed
  then show ?thesis using assms by (simp add: release_gate_def)
qed

lemma drop_held_token:
  assumes "token_ok s"
  shows "token_ok (drop_reference (held s) (s\<lparr>held := None\<rparr>))"
proof (cases "ch_stopped s = None")
  case True
  show ?thesis
  proof (cases "held s")
    case None
    then have "s\<lparr>held := None\<rparr> = s" by (cases s) simp
    then show ?thesis unfolding None drop_live using assms by (rule ssubst)
  next
    case (Some g)
    have "token_ok (drop_reference (Some g) (s\<lparr>held := None, retained := retained s\<rparr>))"
      by (rule drop_token [OF assms True]) (auto simp: references_def Some)
    then show ?thesis by (simp add: Some)
  qed
next
  case False
  then show ?thesis using drop_stopped [OF assms, where h = None and r = "retained s" and g = "held s"] by simp
qed

lemma timers_token [simp]:
  "token_ok (stop_inactivity s) = token_ok s" "token_ok (stop_expiration s) = token_ok s"
  "token_ok (start_inactivity opt s) = token_ok s" "token_ok (start_expiration opt s) = token_ok s"
  "held (start_inactivity opt s) = held s" "held (start_expiration opt s) = held s"
  by (simp_all add: stop_inactivity_def stop_expiration_def start_inactivity_def start_expiration_def)

lemma receive_token:
  assumes "gate s = None" "held s = None" "retained s = []" "posted_receives s = 0" "posted_stopping s \<noteq> [] \<longrightarrow> ch_stopped s \<noteq> None"
    "reads s \<le> 1" "ch_stopped s = None \<longrightarrow> ch_started s \<and> \<not> ch_reading s \<and> reads s = 0"
  shows "token_ok (receive s)"
  using assms by (auto simp: receive_def token_ok_def references_def)

lemma timers_core [simp]:
  "gate (start_inactivity opt s) = gate s" "gate (start_expiration opt s) = gate s"
  "retained (start_inactivity opt s) = retained s" "retained (start_expiration opt s) = retained s"
  "posted_receives (start_inactivity opt s) = posted_receives s" "posted_receives (start_expiration opt s) = posted_receives s"
  "posted_stopping (start_inactivity opt s) = posted_stopping s" "posted_stopping (start_expiration opt s) = posted_stopping s"
  "ch_stopped (start_inactivity opt s) = ch_stopped s" "ch_stopped (start_expiration opt s) = ch_stopped s"
  "reads (start_inactivity opt s) = reads s" "reads (start_expiration opt s) = reads s"
  "ch_reading (start_inactivity opt s) = ch_reading s" "ch_reading (start_expiration opt s) = ch_reading s"
  "ch_started (start_inactivity opt s) = ch_started s" "ch_started (start_expiration opt s) = ch_started s"
  by (simp_all add: start_inactivity_def start_expiration_def)

lemma resume_token:
  assumes "token_ok s" "\<not> ch_started s \<or> held s \<noteq> None"
  shows "token_ok (resume_channel opt s)"
proof (cases "held s")
  case None
  let ?t = "start_inactivity opt (start_expiration opt (s\<lparr>ch_started := True\<rparr>))"
  have "token_ok (receive ?t)"
    using assms None by (auto simp: token_ok_def receive_def references_def idle_def split: if_splits)
  with None show ?thesis by (simp add: resume_channel_def Let_def)
next
  case (Some g)
  let ?t = "start_inactivity opt (start_expiration opt (s\<lparr>ch_started := True\<rparr>))"
  have "references s \<noteq> {}" using Some by (simp add: references_def)
  then have "token_ok (s\<lparr>ch_started := True\<rparr>)"
    using assms(1) by (auto simp: token_ok_def references_def idle_def split: if_splits)
  then have "token_ok (drop_reference (held ?t) (?t\<lparr>held := None\<rparr>))" by (intro drop_held_token) simp
  with Some show ?thesis by (simp add: resume_channel_def Let_def)
qed

lemma do_receive_token:
  assumes "token_ok s" "posted_receives s = Suc n"
  shows "token_ok (do_receive (s\<lparr>posted_receives := n\<rparr>))"
proof -
  have "token_ok (receive (t\<lparr>posted_receives := n\<rparr>))" if "token_ok t" "posted_receives t = Suc n" for t
    using that by (auto simp: receive_def token_ok_def references_def idle_def split: if_splits)
  moreover have "monitor False (s\<lparr>posted_receives := n\<rparr>) = (s\<lparr>monitored := False\<rparr>)\<lparr>posted_receives := n\<rparr>"
    by (simp add: monitor_def Let_def)
  ultimately show ?thesis using assms by (simp add: do_receive_def)
qed

lemma channel_step_token:
  assumes "channel_step opt s s'" "token_ok s"
  shows "token_ok s'"
  using assms(1)
proof cases
  case (step_stopping ec rest)
  have "token_ok (s\<lparr>posted_stopping := rest\<rparr>)"
    using assms(2) step_stopping by (auto simp: token_ok_def split: if_splits)
  then show ?thesis
    using step_stopping drop_held_token [of "stop_inactivity (stop_expiration (s\<lparr>posted_stopping := rest\<rparr>))"]
    by (simp add: channel_stopping_def Let_def)
qed (use assms(2) in \<open>simp_all add: resume_token do_receive_token handle_receive_token release_gate_token
    channel_stop_token channel_handle_send_def handle_monitor_def start_monitor_def handle_expiration_def
    handle_inactivity_def note_reading_def set_ping_def set_pong_def Let_def\<close>)

lemma channeling_token: "channeling opt s \<Longrightarrow> token_ok s"
proof (induction rule: channeling.induct)
  case (channel_created created)
  show ?case by (simp add: channel_init_def token_ok_def idle_def references_def)
qed (rule channel_step_token)

section \<open>Properties\<close>

text \<open>
  C6. The read cycle of a channel: once it was started, and until it is stopped, exactly one of three
  holds between the jobs of its strand: one read is in progress and no gate is alive; or none is and
  exactly one job that arms it is posted; or neither, and the references of the hold and of requestors
  are to one gate. So there is never more than one read, no message is read while the channel is held
  or a requestor retains the gate, and the cycle does not stall, since the release of the last reference
  posts the job.
\<close>

theorem channel_read_token:
  assumes "channeling opt s" "ch_stopped s = None" "ch_started s"
  shows "reads s = (if ch_reading s then 1 else 0) \<and>
    (ch_reading s \<and> posted_receives s = 0 \<and> references s = {} \<or>
     \<not> ch_reading s \<and> posted_receives s = 1 \<and> references s = {} \<or>
     \<not> ch_reading s \<and> posted_receives s = 0 \<and> (\<exists>g. references s = {g}))"
  using channeling_token [OF assms(1)] assms(2,3) by (auto simp: token_ok_def idle_def)

text \<open>
  The cycle on a channel that is started, receives a message whose handler pauses it, and is resumed.
\<close>

definition example_options :: channel_options where
  "example_options = \<lparr>inactivity_span = 600, expiration_span = 0\<rparr>"

definition example_started :: channel where
  "example_started = resume_channel example_options (channel_init 100)"

definition example_paused :: channel where
  "example_paused = handle_receive e_success e_success 24 1 [pauses] e_success (example_started\<lparr>reads := 0\<rparr>)"

lemma example_channel:
  "channeling example_options example_paused" "held example_paused = Some 0" "ch_stopped example_paused = None"
  "ch_started example_paused"
proof -
  have started: "channeling example_options example_started"
    unfolding example_started_def
    by (rule channel_stepped [OF channel_created step_resume]) (simp add: channel_init_def)
  have state: "example_started = (channel_init 100)\<lparr>ch_started := True, inactivity_on := True, ch_reading := True, reads := 1\<rparr>"
    by (simp add: example_started_def resume_channel_def start_inactivity_def start_expiration_def receive_def
        channel_init_def example_options_def Let_def)
  have "reads example_started = Suc 0" by (simp add: state)
  from channel_stepped [OF started step_read [OF this]]
  show "channeling example_options example_paused" unfolding example_paused_def .
  show "held example_paused = Some 0" "ch_stopped example_paused = None" "ch_started example_paused"
    by (simp_all add: example_paused_def state handle_receive_def open_gate_def make_gate_def pause_channel_def
        stop_expiration_def stop_inactivity_def close_gate_def drop_reference_def references_def channel_init_def Let_def)
qed

theorem channel_read_token_witness:
  "reads example_paused = 0 \<and> posted_receives example_paused = 0 \<and> references example_paused \<noteq> {}"
proof -
  have "references example_paused \<noteq> {}" using example_channel(2) by (simp add: references_def)
  then show ?thesis using channel_read_token [OF example_channel(1,3,4)] by auto
qed

end
