(* ===== verification/Socks.thy ===== *)
theory Socks
  imports Address Error_Code
begin

text \<open>
  The SOCKS5 negotiation of an outbound connection (\<open>src/src/net/connector_socks.cpp\<close>, RFC 1928 and RFC
  1929). Each handler of the negotiation is a function from the completion of the pending socket
  operation to the next one. \<open>socks_run\<close> executes them against the bytes that the proxy server sends.
  The textual host of the target (of its address and of its endpoint) is an input, as is the code of a read
  beyond the end of the stream.
\<close>

section \<open>Messages\<close>

definition socks_version :: byte where "socks_version = 0x05"
definition socks_reserved :: byte where "socks_reserved = 0x00"
definition method_clear :: byte where "method_clear = 0x00"
definition method_basic :: byte where "method_basic = 0x02"
definition method_basic_version :: byte where "method_basic_version = 0x01"
definition method_basic_success :: byte where "method_basic_success = 0x00"
definition command_connect :: byte where "command_connect = 0x01"
definition address_ipv4 :: byte where "address_ipv4 = 0x01"
definition address_fqdn :: byte where "address_fqdn = 0x03"
definition address_ipv6 :: byte where "address_ipv6 = 0x04"
definition port_size :: nat where "port_size = 2"

lemmas socks_values = socks_version_def socks_reserved_def method_clear_def method_basic_def method_basic_version_def
  method_basic_success_def command_connect_def address_ipv4_def address_fqdn_def address_ipv6_def port_size_def

definition socks_response :: "byte \<Rightarrow> error_t" where
  "socks_response v =
    (if v = 0x00 then e_success
     else if v = 0x01 then e_socks_failure
     else if v = 0x02 then e_socks_disallowed
     else if v = 0x03 then e_socks_net_unreachable
     else if v = 0x04 then e_socks_host_unreachable
     else if v = 0x05 then e_socks_connection_refused
     else if v = 0x06 then e_socks_connection_expired
     else if v = 0x07 then e_socks_unsupported_command
     else if v = 0x08 then e_socks_unsupported_address
     else e_socks_unassigned_failure)"

record socks_settings =
  socks_port :: uint16
  username :: bytes
  password :: bytes

text \<open>
  The address and the endpoint of the socket: the address item (unspecified when the connection is to an
  endpoint), its textual host, and the host and port of the endpoint.
\<close>

record socks_target =
  target_item :: address_item
  address_host :: bytes
  endpoint_host :: bytes
  endpoint_port :: uint16

abbreviation target_address :: "socks_target \<Rightarrow> address_t" where
  "target_address tgt \<equiv> ai_address (target_item tgt)"

definition target_name :: "socks_target \<Rightarrow> bytes" where
  "target_name tgt = (if is_specified (target_item tgt) then address_host tgt else endpoint_host tgt)"

definition proxied :: "socks_settings \<Rightarrow> bool" where
  "proxied cfg \<longleftrightarrow> socks_port cfg \<noteq> 0"

definition authenticated :: "socks_settings \<Rightarrow> bool" where
  "authenticated cfg \<longleftrightarrow> \<not> (username cfg = [] \<and> password cfg = [])"

definition socks_method :: "socks_settings \<Rightarrow> byte" where
  "socks_method cfg = (if authenticated cfg then method_basic else method_clear)"

section \<open>Handlers\<close>

datatype socks_call = tcp_write bytes | tcp_read nat | start_handshake | finish error_t

datatype socks_stage = greeting_write | method_read | authentication_write nat | authentication_read
  | connect_write nat | response_read | length_read | address_read nat | handshake_stage | finished

text \<open>The code with which the handlers are entered.\<close>

definition entry_code :: "bool \<Rightarrow> error_t \<Rightarrow> error_t" where
  "entry_code stopped ec = (if stopped then e_channel_stopped else ec)"

definition do_socks_finish :: "error_t \<Rightarrow> socks_stage \<times> socks_call" where
  "do_socks_finish ec = (if failed ec then (finished, finish ec) else (handshake_stage, start_handshake))"

definition greeting :: "socks_settings \<Rightarrow> bytes" where
  "greeting cfg = [socks_version, 1, socks_method cfg]"

definition do_socks_greeting_write :: "socks_settings \<Rightarrow> bool \<Rightarrow> error_t \<Rightarrow> socks_stage \<times> socks_call" where
  "do_socks_greeting_write cfg stopped ec =
    (if failed (entry_code stopped ec) then (finished, finish (entry_code stopped ec))
     else (greeting_write, tcp_write (greeting cfg)))"

definition handle_socks_greeting_write :: "bool \<Rightarrow> error_t \<Rightarrow> nat \<Rightarrow> socks_stage \<times> socks_call" where
  "handle_socks_greeting_write stopped ec count =
    (if failed (entry_code stopped ec) then do_socks_finish (entry_code stopped ec)
     else if count \<noteq> 3 then do_socks_finish e_operation_failed
     else (method_read, tcp_read 2))"

definition host_bytes :: "socks_target \<Rightarrow> bytes" where
  "host_bytes tgt =
    (if is_v4 (target_address tgt) then address_ipv4 # drop 12 (address_value (target_address tgt))
     else if is_v6 (target_address tgt) then address_ipv6 # address_value (target_address tgt)
     else address_fqdn # of_nat (length (target_name tgt)) # target_name tgt)"

definition host_length :: "socks_target \<Rightarrow> nat" where
  "host_length tgt =
    (if is_v4 (target_address tgt) then 4 else if is_v6 (target_address tgt) then 16
     else length (target_name tgt) + 1)"

definition connect_request :: "socks_target \<Rightarrow> bytes" where
  "connect_request tgt = [socks_version, command_connect, socks_reserved] @ host_bytes tgt @ be_bytes16 (endpoint_port tgt)"

definition do_socks_connect_write :: "socks_target \<Rightarrow> socks_stage \<times> socks_call" where
  "do_socks_connect_write tgt =
    (if 255 < host_length tgt then do_socks_finish e_socks_host_name
     else (connect_write (length (connect_request tgt)), tcp_write (connect_request tgt)))"

definition authenticator :: "socks_settings \<Rightarrow> bytes" where
  "authenticator cfg = method_basic_version # of_nat (length (username cfg)) # username cfg @
     of_nat (length (password cfg)) # password cfg"

definition handle_socks_method_read :: "socks_settings \<Rightarrow> socks_target \<Rightarrow> bool \<Rightarrow> error_t \<Rightarrow> bytes \<Rightarrow>
    socks_stage \<times> socks_call" where
  "handle_socks_method_read cfg tgt stopped ec response =
    (if failed (entry_code stopped ec) then do_socks_finish (entry_code stopped ec)
     else if length response \<noteq> 2 \<or> response ! 0 \<noteq> socks_version \<or> response ! 1 \<noteq> socks_method cfg
     then do_socks_finish e_socks_method
     else if socks_method cfg = method_clear then do_socks_connect_write tgt
     else if 255 < length (username cfg) then do_socks_finish e_socks_username
     else if 255 < length (password cfg) then do_socks_finish e_socks_password
     else (authentication_write (length (authenticator cfg)), tcp_write (authenticator cfg)))"

definition handle_socks_authentication_write :: "nat \<Rightarrow> bool \<Rightarrow> error_t \<Rightarrow> nat \<Rightarrow> socks_stage \<times> socks_call" where
  "handle_socks_authentication_write n stopped ec count =
    (if failed (entry_code stopped ec) then do_socks_finish (entry_code stopped ec)
     else if count \<noteq> n then do_socks_finish e_operation_failed
     else (authentication_read, tcp_read 2))"

definition handle_socks_authentication_read :: "socks_target \<Rightarrow> bool \<Rightarrow> error_t \<Rightarrow> bytes \<Rightarrow> socks_stage \<times> socks_call" where
  "handle_socks_authentication_read tgt stopped ec response =
    (if failed (entry_code stopped ec) then do_socks_finish (entry_code stopped ec)
     else if length response \<noteq> 2 \<or> response ! 0 \<noteq> method_basic_version \<or> response ! 1 \<noteq> method_basic_success
     then do_socks_finish e_socks_authentication
     else do_socks_connect_write tgt)"

definition handle_socks_connect_write :: "nat \<Rightarrow> bool \<Rightarrow> error_t \<Rightarrow> nat \<Rightarrow> socks_stage \<times> socks_call" where
  "handle_socks_connect_write n stopped ec count =
    (if failed (entry_code stopped ec) then do_socks_finish (entry_code stopped ec)
     else if count \<noteq> n then do_socks_finish e_operation_failed
     else (response_read, tcp_read 4))"

definition handle_socks_response_read :: "bool \<Rightarrow> error_t \<Rightarrow> bytes \<Rightarrow> socks_stage \<times> socks_call" where
  "handle_socks_response_read stopped ec response =
    (if failed (entry_code stopped ec) then do_socks_finish (entry_code stopped ec)
     else if length response \<noteq> 4 \<or> response ! 0 \<noteq> socks_version \<or> response ! 2 \<noteq> socks_reserved
     then do_socks_finish e_socks_response_invalid
     else if failed (socks_response (response ! 1)) then do_socks_finish (socks_response (response ! 1))
     else if response ! 3 = address_ipv4 then (address_read (4 + port_size), tcp_read (4 + port_size))
     else if response ! 3 = address_ipv6 then (address_read (16 + port_size), tcp_read (16 + port_size))
     else if response ! 3 = address_fqdn then (length_read, tcp_read 1)
     else do_socks_finish e_socks_response_invalid)"

definition handle_socks_length_read :: "bool \<Rightarrow> error_t \<Rightarrow> bytes \<Rightarrow> socks_stage \<times> socks_call" where
  "handle_socks_length_read stopped ec response =
    (if failed (entry_code stopped ec) then do_socks_finish (entry_code stopped ec)
     else if length response \<noteq> 1 then do_socks_finish e_socks_response_invalid
     else let n = unat (response ! 0) + port_size in (address_read n, tcp_read n))"

definition handle_socks_address_read :: "nat \<Rightarrow> bool \<Rightarrow> error_t \<Rightarrow> bytes \<Rightarrow> socks_stage \<times> socks_call" where
  "handle_socks_address_read n stopped ec address =
    (if failed (entry_code stopped ec) then do_socks_finish (entry_code stopped ec)
     else if length address \<noteq> n then do_socks_finish e_socks_response_invalid
     else do_socks_finish e_success)"

text \<open>The handler bound to the pending operation, for a write with its count, for a read with its bytes.\<close>

fun socks_step :: "socks_settings \<Rightarrow> socks_target \<Rightarrow> bool \<Rightarrow> error_t \<Rightarrow> nat \<Rightarrow> bytes \<Rightarrow> socks_stage \<Rightarrow>
    socks_stage \<times> socks_call" where
  "socks_step cfg tgt stopped ec count data greeting_write = handle_socks_greeting_write stopped ec count"
| "socks_step cfg tgt stopped ec count data method_read = handle_socks_method_read cfg tgt stopped ec data"
| "socks_step cfg tgt stopped ec count data (authentication_write n) = handle_socks_authentication_write n stopped ec count"
| "socks_step cfg tgt stopped ec count data authentication_read = handle_socks_authentication_read tgt stopped ec data"
| "socks_step cfg tgt stopped ec count data (connect_write n) = handle_socks_connect_write n stopped ec count"
| "socks_step cfg tgt stopped ec count data response_read = handle_socks_response_read stopped ec data"
| "socks_step cfg tgt stopped ec count data length_read = handle_socks_length_read stopped ec data"
| "socks_step cfg tgt stopped ec count data (address_read n) = handle_socks_address_read n stopped ec data"
| "socks_step cfg tgt stopped ec count data handshake_stage = (finished, finish ec)"
| "socks_step cfg tgt stopped ec count data finished = (finished, finish ec)"

section \<open>Execution\<close>

text \<open>
  The negotiation on the bytes that the server sends, while the socket is not stopped and writes succeed:
  the code at its end, or the start of the handshake with the peer; with the bytes written and the
  bytes not consumed.
\<close>

primrec socks_run :: "nat \<Rightarrow> socks_settings \<Rightarrow> socks_target \<Rightarrow> error_t \<Rightarrow> socks_stage \<times> socks_call \<Rightarrow> bytes \<Rightarrow> bytes \<Rightarrow>
    (error_t \<times> bytes \<times> bytes) option" where
  "socks_run 0 cfg tgt eof state written stream = None"
| "socks_run (Suc fuel) cfg tgt eof state written stream =
    (case snd state of
       finish ec \<Rightarrow> Some (ec, written, stream)
     | start_handshake \<Rightarrow> Some (e_success, written, stream)
     | tcp_write bs \<Rightarrow>
         socks_run fuel cfg tgt eof (socks_step cfg tgt False e_success (length bs) [] (fst state)) (written @ bs) stream
     | tcp_read n \<Rightarrow>
         if n \<le> length stream
         then socks_run fuel cfg tgt eof (socks_step cfg tgt False e_success n (take n stream) (fst state)) written (drop n stream)
         else socks_run fuel cfg tgt eof (socks_step cfg tgt False eof 0 [] (fst state)) written stream)"

definition socks_connect :: "nat \<Rightarrow> socks_settings \<Rightarrow> socks_target \<Rightarrow> error_t \<Rightarrow> bytes \<Rightarrow>
    (error_t \<times> bytes \<times> bytes) option" where
  "socks_connect fuel cfg tgt eof stream =
    socks_run fuel cfg tgt eof (do_socks_greeting_write cfg False e_success) [] stream"

section \<open>Specification\<close>

text \<open>The address bound by the server: a type, an address of the length of the type, and a port.\<close>

inductive bound_address :: "bytes \<Rightarrow> bool" where
  bound_ipv4: "length a = 4 \<Longrightarrow> length p = 2 \<Longrightarrow> bound_address (0x01 # a @ p)"
| bound_ipv6: "length a = 16 \<Longrightarrow> length p = 2 \<Longrightarrow> bound_address (0x04 # a @ p)"
| bound_name: "length a = unat n \<Longrightarrow> length p = 2 \<Longrightarrow> bound_address (0x03 # n # a @ p)"

text \<open>The dialogue: the bytes the client writes and those it is answered with.\<close>

definition client_bytes :: "socks_settings \<Rightarrow> socks_target \<Rightarrow> bytes" where
  "client_bytes cfg tgt = [0x05, 1, if authenticated cfg then 0x02 else 0x00] @
     (if authenticated cfg then authenticator cfg else []) @ connect_request tgt"

definition server_bytes :: "socks_settings \<Rightarrow> bytes \<Rightarrow> bytes" where
  "server_bytes cfg bound = [0x05, if authenticated cfg then 0x02 else 0x00] @
     (if authenticated cfg then [0x01, 0x00] else []) @ [0x05, 0x00, 0x00] @ bound"

definition representable :: "socks_settings \<Rightarrow> socks_target \<Rightarrow> bool" where
  "representable cfg tgt \<longleftrightarrow> host_length tgt \<le> 255 \<and>
     (authenticated cfg \<longrightarrow> length (username cfg) \<le> 255 \<and> length (password cfg) \<le> 255)"

section \<open>Termination\<close>

fun stage_rank :: "socks_stage \<Rightarrow> nat" where
  "stage_rank greeting_write = 8"
| "stage_rank method_read = 7"
| "stage_rank (authentication_write n) = 6"
| "stage_rank authentication_read = 5"
| "stage_rank (connect_write n) = 4"
| "stage_rank response_read = 3"
| "stage_rank length_read = 2"
| "stage_rank (address_read n) = 1"
| "stage_rank handshake_stage = 1"
| "stage_rank finished = 1"

definition socks_rank :: "socks_stage \<times> socks_call \<Rightarrow> nat" where
  "socks_rank state = (case snd state of tcp_write _ \<Rightarrow> stage_rank (fst state) | tcp_read _ \<Rightarrow> stage_rank (fst state) | _ \<Rightarrow> 0)"

lemmas socks_handlers = handle_socks_greeting_write_def handle_socks_method_read_def handle_socks_authentication_write_def
  handle_socks_authentication_read_def handle_socks_connect_write_def handle_socks_response_read_def
  handle_socks_length_read_def handle_socks_address_read_def do_socks_connect_write_def do_socks_finish_def

lemma socks_step_rank: "socks_rank (socks_step cfg tgt stopped ec count data st) < stage_rank st"
  by (cases st) (simp_all add: socks_rank_def socks_handlers Let_def)

lemma socks_run_returns: "socks_rank state < fuel \<Longrightarrow> \<exists>e w r. socks_run fuel cfg tgt eof state written stream = Some (e, w, r)"
proof (induction fuel arbitrary: state written stream)
  case (Suc fuel)
  have "socks_rank (socks_step cfg tgt stopped ec count data (fst state)) < fuel"
    if "socks_rank state = stage_rank (fst state)" for stopped ec count data
    using socks_step_rank [of cfg tgt stopped ec count data "fst state"] Suc.prems that by simp
  with Suc.IH show ?case by (cases "snd state") (auto simp: socks_rank_def)
qed simp

section \<open>The dialogue\<close>

lemma run_call [simp]:
  "socks_run (Suc k) cfg tgt eof (st, finish ec) w s = Some (ec, w, s)"
  "socks_run (Suc k) cfg tgt eof (st, start_handshake) w s = Some (e_success, w, s)"
  "socks_run (Suc k) cfg tgt eof (st, tcp_write bs) w s =
     socks_run k cfg tgt eof (socks_step cfg tgt False e_success (length bs) [] st) (w @ bs) s"
  "socks_run (Suc k) cfg tgt eof (st, tcp_read n) w s =
     (if n \<le> length s then socks_run k cfg tgt eof (socks_step cfg tgt False e_success n (take n s) st) w (drop n s)
      else socks_run k cfg tgt eof (socks_step cfg tgt False eof 0 [] st) w s)"
  by simp_all

declare socks_run.simps(2) [simp del]

lemma run_address:
  "eof \<noteq> e_success \<Longrightarrow> socks_run (Suc (Suc k)) cfg tgt eof (address_read n, tcp_read n) w s =
     Some (if n \<le> length s then (e_success, w, drop n s) else (eof, w, s))"
  by (simp add: socks_handlers entry_code_def)

lemma run_length:
  "eof \<noteq> e_success \<Longrightarrow> socks_run (Suc (Suc (Suc k))) cfg tgt eof (length_read, tcp_read 1) w s =
     (case s of [] \<Rightarrow> Some (eof, w, []) | n # r \<Rightarrow>
        Some (if unat n + 2 \<le> length r then (e_success, w, drop (unat n + 2) r) else (eof, w, r)))"
  by (cases s) (simp_all add: socks_handlers entry_code_def Let_def port_size_def)

lemma socks_response_success: "socks_response v = e_success \<longleftrightarrow> v = 0"
  by (simp add: socks_response_def)

lemma run_response:
  assumes "eof \<noteq> e_success"
  shows "socks_run (Suc (Suc (Suc (Suc k)))) cfg tgt eof (response_read, tcp_read 4) w (a # b # c # d # r) =
     Some (if a \<noteq> 0x05 \<or> c \<noteq> 0x00 then (e_socks_response_invalid, w, r)
           else if b \<noteq> 0x00 then (socks_response b, w, r)
           else if d = 0x01 then (if 6 \<le> length r then (e_success, w, drop 6 r) else (eof, w, r))
           else if d = 0x04 then (if 18 \<le> length r then (e_success, w, drop 18 r) else (eof, w, r))
           else if d = 0x03 then
             (case r of [] \<Rightarrow> (eof, w, []) | n # q \<Rightarrow>
               if unat n + 2 \<le> length q then (e_success, w, drop (unat n + 2) q) else (eof, w, q))
           else (e_socks_response_invalid, w, r))"
  using assms by (cases r) (simp_all add: socks_handlers entry_code_def Let_def socks_values socks_response_success)

lemma run_response_short:
  "eof \<noteq> e_success \<Longrightarrow> length s < 4 \<Longrightarrow>
   socks_run (Suc (Suc k)) cfg tgt eof (response_read, tcp_read 4) w s = Some (eof, w, s)"
  by (simp add: socks_handlers entry_code_def)

lemma response_accepts:
  "bound_address bound \<Longrightarrow> eof \<noteq> e_success \<Longrightarrow>
   socks_run (Suc (Suc (Suc (Suc k)))) cfg tgt eof (response_read, tcp_read 4) w ([0x05, 0x00, 0x00] @ bound @ r) =
     Some (e_success, w, r)"
  by (cases bound rule: bound_address.cases) (auto simp: run_response simp del: run_call)

lemma bound_take:
  "6 \<le> length r \<Longrightarrow> bound_address (0x01 # take 6 r)"
  "18 \<le> length r \<Longrightarrow> bound_address (0x04 # take 18 r)"
  "Suc (Suc (unat n)) \<le> length r \<Longrightarrow> bound_address (0x03 # n # take (Suc (Suc (unat n))) r)"
  using bound_ipv4 [of "take 4 r" "take 2 (drop 4 r)"] bound_ipv6 [of "take 16 r" "take 2 (drop 16 r)"]
    bound_name [of "take (unat n) r" n "take 2 (drop (unat n) r)"]
  by (simp_all flip: take_add)

lemma response_accepted:
  assumes "socks_run (Suc (Suc (Suc (Suc k)))) cfg tgt eof (response_read, tcp_read 4) w s = Some (e_success, w', r)"
    "eof \<noteq> e_success"
  shows "w' = w \<and> (\<exists>bound. bound_address bound \<and> s = [0x05, 0x00, 0x00] @ bound @ r)"
proof (cases "length s < 4")
  case False
  then have "Suc (Suc (Suc (Suc 0))) \<le> length s" by simp
  then obtain a b c d q where s: "s = a # b # c # d # q" unfolding Suc_le_length_iff by blast
  from assms(1) have head: "a = 0x05 \<and> b = 0x00 \<and> c = 0x00 \<and> w' = w"
    by (auto simp: s run_response [OF assms(2)] assms(2) socks_response_success simp del: run_call split: if_splits list.splits)
  from assms(1) consider "d = 0x01" "6 \<le> length q" "r = drop 6 q" | "d = 0x04" "18 \<le> length q" "r = drop 18 q"
    | n p where "d = 0x03" "q = n # p" "unat n + 2 \<le> length p" "r = drop (unat n + 2) p"
    by (auto simp: s run_response [OF assms(2)] assms(2) head simp del: run_call split: if_splits list.splits)
  then have "\<exists>bound. bound_address bound \<and> d # q = bound @ r"
  proof cases
    case 1
    then show ?thesis by (intro exI [of _ "0x01 # take 6 q"]) (simp add: bound_take)
  next
    case 2
    then show ?thesis by (intro exI [of _ "0x04 # take 18 q"]) (simp add: bound_take)
  next
    case 3
    then show ?thesis by (intro exI [of _ "0x03 # n # take (unat n + 2) p"]) (simp add: bound_take)
  qed
  with head s show ?thesis by simp
qed (use assms run_response_short in simp)

lemma run_request:
  assumes "eof \<noteq> e_success"
  shows "socks_run (Suc (Suc (Suc (Suc (Suc k))))) cfg tgt eof (do_socks_connect_write tgt) w s = Some (e_success, w', r) \<longleftrightarrow>
    host_length tgt \<le> 255 \<and> w' = w @ connect_request tgt \<and> (\<exists>bound. bound_address bound \<and> s = [0x05, 0x00, 0x00] @ bound @ r)"
proof (cases "host_length tgt \<le> 255")
  case True
  then have "socks_run (Suc (Suc (Suc (Suc (Suc k))))) cfg tgt eof (do_socks_connect_write tgt) w s =
      socks_run (Suc (Suc (Suc (Suc k)))) cfg tgt eof (response_read, tcp_read 4) (w @ connect_request tgt) s"
    by (simp add: do_socks_connect_write_def handle_socks_connect_write_def entry_code_def del: run_call(4))
  with True response_accepts [OF _ assms] response_accepted [OF _ assms] show ?thesis by (metis (no_types, lifting))
qed (simp add: do_socks_connect_write_def do_socks_finish_def)

lemma run_authentication:
  assumes "eof \<noteq> e_success"
  shows "socks_run (Suc (Suc (Suc (Suc (Suc (Suc k)))))) cfg tgt eof (authentication_read, tcp_read 2) w s =
      Some (e_success, w', r) \<longleftrightarrow>
    host_length tgt \<le> 255 \<and> w' = w @ connect_request tgt \<and>
    (\<exists>bound. bound_address bound \<and> s = [0x01, 0x00, 0x05, 0x00, 0x00] @ bound @ r)"
proof -
  consider "length s < 2" | a b q where "s = a # b # q" by (cases s; cases "tl s") auto
  then show ?thesis
    by cases (use assms in \<open>auto simp: handle_socks_authentication_read_def entry_code_def do_socks_finish_def run_request
        socks_values simp del: run_call(3)\<close>)
qed

lemma run_method:
  assumes "eof \<noteq> e_success"
  shows "socks_run (Suc (Suc (Suc (Suc (Suc (Suc (Suc (Suc k)))))))) cfg tgt eof (method_read, tcp_read 2) w s =
      Some (e_success, w', r) \<longleftrightarrow>
    representable cfg tgt \<and> w' = w @ (if authenticated cfg then authenticator cfg else []) @ connect_request tgt \<and>
    (\<exists>bound. bound_address bound \<and> s = server_bytes cfg bound @ r)"
proof -
  have read: "socks_run (Suc k) cfg tgt eof (method_read, tcp_read 2) w (a # b # q) =
      socks_run k cfg tgt eof (handle_socks_method_read cfg tgt False e_success [a, b]) w q" for k a b q
    by simp
  consider "length s < 2" | a b q where "s = a # b # q" by (cases s; cases "tl s") auto
  then show ?thesis
  proof cases
    case 1
    then show ?thesis using assms
      by (auto simp: handle_socks_method_read_def entry_code_def do_socks_finish_def server_bytes_def)
  next
    case 2
    show ?thesis
      by (cases "authenticated cfg"; cases "representable cfg tgt")
        (use assms in \<open>auto simp: 2 read handle_socks_method_read_def handle_socks_authentication_write_def entry_code_def
          do_socks_finish_def server_bytes_def run_authentication run_request socks_method_def socks_values
          representable_def simp del: run_call(4)\<close>)
  qed
qed

lemma socks_connect_method:
  "socks_connect 9 cfg tgt eof stream =
     socks_run (Suc (Suc (Suc (Suc (Suc (Suc (Suc (Suc 0)))))))) cfg tgt eof (method_read, tcp_read 2) (greeting cfg) stream"
  by (simp add: socks_connect_def eval_nat_numeral do_socks_greeting_write_def greeting_def entry_code_def
      handle_socks_greeting_write_def del: run_call(4))

lemma client_bytes_greeting:
  "client_bytes cfg tgt = greeting cfg @ (if authenticated cfg then authenticator cfg else []) @ connect_request tgt"
  by (simp add: client_bytes_def greeting_def socks_method_def socks_values)

text \<open>A name of 255 octets fits the length octet of the request, and is refused.\<close>

lemma longest_name_refused:
  assumes "\<not> is_v4 (target_address tgt)" "\<not> is_v6 (target_address tgt)" "length (target_name tgt) = 255"
  shows "unat (of_nat (length (target_name tgt)) :: byte) = length (target_name tgt)"
    "do_socks_connect_write tgt = (finished, finish e_socks_host_name)"
  using assms by (simp_all add: unat_of_nat do_socks_connect_write_def host_length_def do_socks_finish_def)

text \<open>
  C28. The SOCKS5 negotiation on the bytes the server sends (a read beyond them fails) always returns. It
  reaches the handshake with the peer exactly when the target and the credentials are representable and the
  server answers with the configured method, with a successful authentication when credentials are
  configured, and with a success reply that has a well-formed bound address; then it has written
  exactly the dialogue for the target and consumed exactly those answers.
\<close>

theorem socks_negotiation:
  assumes "failed eof"
  shows "(\<exists>ec w r. socks_connect 9 cfg tgt eof stream = Some (ec, w, r)) \<and>
    (socks_connect 9 cfg tgt eof stream = Some (e_success, written, rest) \<longleftrightarrow>
      representable cfg tgt \<and> written = client_bytes cfg tgt \<and>
      (\<exists>bound. bound_address bound \<and> stream = server_bytes cfg bound @ rest))"
proof
  show "\<exists>ec w r. socks_connect 9 cfg tgt eof stream = Some (ec, w, r)"
    unfolding socks_connect_method by (rule socks_run_returns) (simp add: socks_rank_def)
qed (use assms run_method [of eof 0] in \<open>simp add: socks_connect_method client_bytes_greeting\<close>)

definition sample_settings :: socks_settings where
  "sample_settings = \<lparr>socks_port = 9050, username = [0x75], password = [0x70, 0x77]\<rparr>"

definition sample_target :: socks_target where
  "sample_target = \<lparr>target_item = \<lparr>ai_timestamp = 0, ai_services = 0, ai_address = torv3_t (replicate 32 7), ai_port = 8333\<rparr>,
     address_host = [0x61, 0x2e, 0x62], endpoint_host = [], endpoint_port = 0x208d\<rparr>"

lemmas sample_simps = sample_settings_def sample_target_def authenticated_def host_length_def target_name_def is_specified_def
  is_unspecified_def stored_size_def is_v4_def is_v6_def

theorem socks_negotiation_witness:
  "socks_connect 9 sample_settings sample_target e_peer_disconnect
      [0x05, 0x02, 0x01, 0x00, 0x05, 0x00, 0x00, 0x03, 0x01, 0x78, 0x00, 0x50, 0xff] =
    Some (e_success, [0x05, 0x01, 0x02, 0x01, 0x01, 0x75, 0x02, 0x70, 0x77,
      0x05, 0x01, 0x00, 0x03, 0x03, 0x61, 0x2e, 0x62, 0x20, 0x8d], [0xff])"
proof -
  have "bound_address [0x03, 0x01, 0x78, 0x00, 0x50]" using bound_name [of "[0x78]" 1 "[0x00, 0x50]"] by simp
  moreover have "representable sample_settings sample_target" by (simp add: representable_def sample_simps)
  moreover have "server_bytes sample_settings [0x03, 0x01, 0x78, 0x00, 0x50] @ [0xff] =
      [0x05, 0x02, 0x01, 0x00, 0x05, 0x00, 0x00, 0x03, 0x01, 0x78, 0x00, 0x50, 0xff]"
    by (simp add: server_bytes_def sample_simps)
  moreover have "client_bytes sample_settings sample_target = [0x05, 0x01, 0x02, 0x01, 0x01, 0x75, 0x02, 0x70, 0x77,
      0x05, 0x01, 0x00, 0x03, 0x03, 0x61, 0x2e, 0x62, 0x20, 0x8d]"
    by (simp add: client_bytes_def authenticator_def connect_request_def host_bytes_def socks_values be_bytes16_def sample_simps
        replicate_eq_replicate)
  ultimately show ?thesis
    using socks_negotiation [of e_peer_disconnect sample_settings sample_target
        "server_bytes sample_settings [0x03, 0x01, 0x78, 0x00, 0x50] @ [0xff]" "client_bytes sample_settings sample_target" "[0xff]"]
    by (metis failed_iff error_t.inject zero_neq_numeral)
qed

end
