(* ===== verification/Connector.thy ===== *)
theory Connector
  imports Races Socks "HOL-Library.Multiset"
begin

text \<open>
  The creation of outbound connections (\<open>src/src/net/connector.cpp\<close>, with the overrides of
  \<open>connector_socks.cpp\<close>). A connection is a race (of speed, between two) of a timer with a
  chain of operations: resolve, connect and, for a proxied connection, the SOCKS5
  negotiation of theory \<open>Socks\<close>. A state holds the members of the connector and of the context that its
  handlers share (the finish flag and the socket), with the operation of each contender that is
  pending; an operation gives the new state and its effects in order. The socket argument of a handler is
  True for the socket of the connection and False for the null pointer.
\<close>

section \<open>State\<close>

datatype conn_chain = No_operation | Resolving | Connecting | Connect_posted error_t
  | Negotiating socks_stage | Socks_posted error_t

datatype 'h conn_effect = Refuse 'h error_t | Invoke 'h "(error_t \<times> bool) option"
  | Async_resolve bytes uint16 | Socket_connect | Socket_operation socks_call | Socket_stop | Timer_start | Timer_stop
  | Resolver_cancel

record ('h, 'c) connector =
  conn_racer :: "('h, error_t \<times> bool) race_speed"
  conn_suspended :: bool
  conn_parameters :: "'c option"
  conn_socks5 :: "socks_settings option"
  conn_proxy_host :: bytes
  conn_finish :: bool
  conn_target :: socks_target
  conn_context :: "'c option"
  conn_stopped :: bool
  conn_timer :: bool
  conn_chain :: conn_chain

type_synonym ('h, 'c) conn_result = "('h, 'c) connector \<times> 'h conn_effect list"

definition racer_finish :: "error_t \<times> bool \<Rightarrow> ('h, 'c) connector \<Rightarrow> ('h, 'c) conn_result" where
  "racer_finish args c = (let (_, r, calls) = speed_finish 2 args (conn_racer c)
     in (c\<lparr>conn_racer := r\<rparr>, map (\<lambda>(h, a). Invoke h a) calls))"

definition emits :: "'h conn_effect list \<Rightarrow> ('h, 'c) conn_result \<Rightarrow> ('h, 'c) conn_result" where
  "emits fx result = (fst result, fx @ snd result)"

section \<open>Operations\<close>

definition node_encrypted_transport :: nat where "node_encrypted_transport = 11"

definition is_advertised :: "nat \<Rightarrow> address_item \<Rightarrow> bool" where
  "is_advertised service_bit item \<longleftrightarrow> bit (ai_services item) service_bit"

text \<open>\<open>connector::proxied\<close>, overridden by \<open>connector_socks::proxied\<close>.\<close>

definition conn_proxied :: "('h, 'c) connector \<Rightarrow> bool" where
  "conn_proxied c = (case conn_socks5 c of None \<Rightarrow> False | Some cfg \<Rightarrow> proxied cfg)"

definition base_start :: "bytes \<Rightarrow> uint16 \<Rightarrow> socks_target \<Rightarrow> 'h \<Rightarrow> ('h, 'c) connector \<Rightarrow> ('h, 'c) conn_result" where
  "base_start hostname port tgt handler c =
    (if race_running (conn_racer c) then (c, [Refuse handler e_operation_failed])
     else if conn_suspended c then (c, [Refuse handler e_service_suspended])
     else (c\<lparr>conn_racer := snd (speed_start 2 handler (conn_racer c)),
             conn_finish := False, conn_target := tgt,
             conn_context := (if is_advertised node_encrypted_transport (target_item tgt) then conn_parameters c else None),
             conn_stopped := False, conn_timer := True, conn_chain := Resolving\<rparr>,
           [Timer_start, Async_resolve hostname port]))"

definition conn_start :: "bytes \<Rightarrow> uint16 \<Rightarrow> socks_target \<Rightarrow> 'h \<Rightarrow> ('h, 'c) connector \<Rightarrow> ('h, 'c) conn_result" where
  "conn_start hostname port tgt handler c =
    (case conn_socks5 c of
       None \<Rightarrow> base_start hostname port tgt handler c
     | Some cfg \<Rightarrow> if proxied cfg then base_start (conn_proxy_host c) (socks_port cfg) tgt handler c
         else base_start hostname port tgt handler c)"

definition connect_address :: "address_item \<Rightarrow> bytes \<Rightarrow> 'h \<Rightarrow> ('h, 'c) connector \<Rightarrow> ('h, 'c) conn_result" where
  "connect_address item host handler c =
    conn_start host (ai_port item)
      \<lparr>target_item = item, address_host = host, endpoint_host = host, endpoint_port = ai_port item\<rparr> handler c"

definition default_item :: address_item where
  "default_item = \<lparr>ai_timestamp = 0, ai_services = 0, ai_address = monostate, ai_port = 0\<rparr>"

definition connect_endpoint :: "bytes \<Rightarrow> uint16 \<Rightarrow> 'h \<Rightarrow> ('h, 'c) connector \<Rightarrow> ('h, 'c) conn_result" where
  "connect_endpoint host port handler c =
    conn_start host port
      \<lparr>target_item = default_item, address_host = [], endpoint_host = host, endpoint_port = port\<rparr> handler c"

definition conn_stop :: "('h, 'c) connector \<Rightarrow> ('h, 'c) conn_result" where
  "conn_stop c = (if \<not> race_running (conn_racer c) then (c, []) else (c, [Timer_stop]))"

definition handle_resolve :: "error_t \<Rightarrow> ('h, 'c) connector \<Rightarrow> ('h, 'c) conn_result" where
  "handle_resolve ec c =
    (if conn_stopped c then racer_finish (e_operation_canceled, False) (c\<lparr>conn_chain := No_operation\<rparr>)
     else if conn_suspended c then emits [Timer_stop, Socket_stop]
       (racer_finish (e_service_suspended, False) (c\<lparr>conn_chain := No_operation, conn_stopped := True\<rparr>))
     else if failed ec then emits [Timer_stop, Socket_stop]
       (racer_finish (ec, False) (c\<lparr>conn_chain := No_operation, conn_stopped := True\<rparr>))
     else (c\<lparr>conn_chain := Connecting\<rparr>, [Socket_connect]))"

definition do_handle_connect :: "error_t \<Rightarrow> ('h, 'c) connector \<Rightarrow> ('h, 'c) conn_result" where
  "do_handle_connect ec c = (c\<lparr>conn_chain := Connect_posted ec\<rparr>, [])"

definition base_handle_connect :: "error_t \<Rightarrow> ('h, 'c) connector \<Rightarrow> ('h, 'c) conn_result" where
  "base_handle_connect ec c =
    (if conn_stopped c then racer_finish (e_operation_canceled, False) (c\<lparr>conn_chain := No_operation\<rparr>)
     else if conn_suspended c then emits [Socket_stop, Timer_stop]
       (racer_finish (e_service_suspended, False) (c\<lparr>conn_chain := No_operation, conn_stopped := True\<rparr>))
     else if failed ec then emits [Socket_stop, Timer_stop]
       (racer_finish (ec, False) (c\<lparr>conn_chain := No_operation, conn_stopped := True\<rparr>))
     else emits [Timer_stop] (racer_finish (e_success, True) (c\<lparr>conn_chain := No_operation, conn_finish := True\<rparr>)))"

text \<open>
  The override for a proxied connection: the greeting is written, or fails to \<open>socks_finish\<close>, which
  calls the base handler.
\<close>

definition handle_connect :: "error_t \<Rightarrow> ('h, 'c) connector \<Rightarrow> ('h, 'c) conn_result" where
  "handle_connect ec c =
    (case conn_socks5 c of
       None \<Rightarrow> base_handle_connect ec c
     | Some cfg \<Rightarrow> if proxied cfg
         then (case do_socks_greeting_write cfg (conn_stopped c) ec of
             (_, finish result) \<Rightarrow> base_handle_connect result c
           | (st, call) \<Rightarrow> (c\<lparr>conn_chain := Negotiating st\<rparr>, [Socket_operation call]))
         else base_handle_connect ec c)"

text \<open>
  The completion of the pending operation of the negotiation: its handler, which continues or (by
  \<open>handle_socks_handshake\<close>) posts the result.
\<close>

definition socks_completed :: "error_t \<Rightarrow> nat \<Rightarrow> bytes \<Rightarrow> socks_stage \<Rightarrow> socks_settings \<Rightarrow> ('h, 'c) connector \<Rightarrow>
    ('h, 'c) conn_result" where
  "socks_completed ec moved data st cfg c =
    (case socks_step cfg (conn_target c) (conn_stopped c) ec moved data st of
       (_, finish result) \<Rightarrow> (c\<lparr>conn_chain := Socks_posted result\<rparr>, [])
     | (st', call) \<Rightarrow> (c\<lparr>conn_chain := Negotiating st'\<rparr>, [Socket_operation call]))"

definition conn_handle_timer :: "error_t \<Rightarrow> ('h, 'c) connector \<Rightarrow> ('h, 'c) conn_result" where
  "conn_handle_timer ec c =
    (if conn_finish c then racer_finish (e_operation_canceled, False) (c\<lparr>conn_timer := False\<rparr>)
     else if failed ec then emits [Socket_stop, Resolver_cancel]
       (racer_finish (ec, True) (c\<lparr>conn_timer := False, conn_stopped := True\<rparr>))
     else emits [Socket_stop, Resolver_cancel]
       (racer_finish (e_operation_timeout, True) (c\<lparr>conn_timer := False, conn_stopped := True\<rparr>)))"

section \<open>Events\<close>

text \<open>
  The calls of a user and the completions of pending operations, in any order and with any code (a
  cancelled timer may have fired). Nothing else stops the socket of a connection that is not
  complete: an outbound socket has no handshake timer.
\<close>

datatype 'h conn_event = Connect_address address_item bytes 'h | Connect_endpoint bytes uint16 'h | Stop_connector
  | Set_suspended bool | Resolved error_t | Connected error_t | Post | Socks_operation error_t nat bytes | Timer error_t

fun conn_step :: "'h conn_event \<Rightarrow> ('h, 'c) connector \<Rightarrow> ('h, 'c) conn_result option" where
  "conn_step (Connect_address item host h) c = Some (connect_address item host h c)"
| "conn_step (Connect_endpoint host port h) c = Some (connect_endpoint host port h c)"
| "conn_step Stop_connector c = Some (conn_stop c)"
| "conn_step (Set_suspended b) c = Some (c\<lparr>conn_suspended := b\<rparr>, [])"
| "conn_step (Resolved ec) c = (if conn_chain c = Resolving then Some (handle_resolve ec c) else None)"
| "conn_step (Connected ec) c = (if conn_chain c = Connecting then Some (do_handle_connect ec c) else None)"
| "conn_step Post c =
    (case conn_chain c of Connect_posted ec \<Rightarrow> Some (handle_connect ec c)
       | Socks_posted ec \<Rightarrow> Some (base_handle_connect ec c) | _ \<Rightarrow> None)"
| "conn_step (Socks_operation ec moved data) c =
    (case (conn_chain c, conn_socks5 c) of
       (Negotiating st, Some cfg) \<Rightarrow> Some (socks_completed ec moved data st cfg c) | _ \<Rightarrow> None)"
| "conn_step (Timer ec) c = (if conn_timer c then Some (conn_handle_timer ec c) else None)"

fun started :: "'h conn_event \<Rightarrow> 'h list" where
  "started (Connect_address _ _ h) = [h]"
| "started (Connect_endpoint _ _ h) = [h]"
| "started _ = []"

fun handled :: "'h conn_effect \<Rightarrow> 'h list" where
  "handled (Refuse h _) = [h]"
| "handled (Invoke h _) = [h]"
| "handled _ = []"

definition conn_idle :: "('h, 'c) connector \<Rightarrow> bool" where
  "conn_idle c \<longleftrightarrow> race_idle (conn_racer c) \<and> \<not> conn_timer c \<and> conn_chain c = No_operation"

text \<open>The handlers started and the effects, each with the state of the socket then, of a run from an idle connector.\<close>

inductive conn_reach :: "('h, 'c) connector \<Rightarrow> 'h list \<Rightarrow> ('h conn_effect \<times> bool) list \<Rightarrow> bool" where
  conn_init: "conn_idle c \<Longrightarrow> conn_reach c [] []"
| conn_event: "conn_reach c hs log \<Longrightarrow> conn_step ev c = Some (c', fx) \<Longrightarrow>
    conn_reach c' (hs @ started ev) (log @ map (\<lambda>f. (f, conn_stopped c')) fx)"

fun sound_call :: "'h conn_effect \<Rightarrow> bool \<Rightarrow> bool" where
  "sound_call (Refuse h ec) stopped = failed ec"
| "sound_call (Invoke h args) stopped =
    (case args of None \<Rightarrow> False
     | Some (ec, sock) \<Rightarrow> if failed ec then stopped else sock \<and> \<not> stopped)"
| "sound_call _ stopped = True"

definition pending_handlers :: "('h, 'c) connector \<Rightarrow> 'h list" where
  "pending_handlers c = (case race_complete (conn_racer c) of None \<Rightarrow> [] | Some h \<Rightarrow> [h])"

section \<open>Invariant\<close>

definition conn_inv :: "('h, 'c) connector \<Rightarrow> bool" where
  "conn_inv c \<longleftrightarrow> conn_idle c \<or>
     (\<exists>h. speed_holding 2 h [] (conn_racer c) \<and> conn_timer c \<and> conn_chain c \<noteq> No_operation \<and> \<not> conn_finish c \<and>
        \<not> conn_stopped c) \<or>
     (\<exists>h ec. speed_holding 2 h [(ec, conn_finish c)] (conn_racer c) \<and> conn_timer c \<and> conn_chain c = No_operation \<and>
        (conn_finish c \<longleftrightarrow> \<not> failed ec) \<and> (conn_stopped c \<longleftrightarrow> failed ec)) \<or>
     (\<exists>h ec. speed_holding 2 h [(ec, True)] (conn_racer c) \<and> \<not> conn_timer c \<and> conn_chain c \<noteq> No_operation \<and>
        failed ec \<and> conn_stopped c \<and> \<not> conn_finish c)"


lemma racer_first:
  "speed_holding 2 h [] (conn_racer c) \<Longrightarrow>
   \<exists>r. racer_finish args c = (c\<lparr>conn_racer := r\<rparr>, []) \<and> speed_holding 2 h [args] r"
  using speed.finish_law [of 2 h "[]" "conn_racer c" args] by (auto simp: racer_finish_def)

lemma racer_second:
  "speed_holding 2 h [a] (conn_racer c) \<Longrightarrow>
   \<exists>r. racer_finish args c = (c\<lparr>conn_racer := r\<rparr>, [Invoke h (Some a)]) \<and> race_idle r"
  using speed.last_law [of 2 h "[a]" "conn_racer c" args] by (auto simp: racer_finish_def)

lemma racer_start:
  "race_idle r \<Longrightarrow> speed_holding 2 h [] (snd (speed_start 2 h r))"
  using speed.start_law [of r 2 h] by auto

lemma race_state:
  "speed_holding 2 h xs r \<Longrightarrow> length xs < 2 \<Longrightarrow> race_running r" "speed_holding 2 h xs r \<Longrightarrow> race_complete r = Some h"
  "race_idle r \<Longrightarrow> \<not> race_running r" "race_idle r \<Longrightarrow> race_complete r = None"
  by (auto simp: speed_holding_def race_running_def race_idle_def)

text \<open>A step keeps the invariant, calls soundly, and accounts for each handler.\<close>

definition conn_kept :: "'h list \<Rightarrow> ('h, 'c) connector \<Rightarrow> ('h, 'c) conn_result \<Rightarrow> bool" where
  "conn_kept hs c result \<longleftrightarrow> conn_inv (fst result) \<and> (\<forall>f\<in>set (snd result). sound_call f (conn_stopped (fst result))) \<and>
     mset (pending_handlers c) + mset hs = mset (concat (map handled (snd result))) + mset (pending_handlers (fst result))"

lemma base_start_kept:
  assumes "conn_inv c"
  shows "conn_kept [h] c (base_start hostname port tgt h c)"
proof (cases "race_running (conn_racer c) \<or> conn_suspended c")
  case True
  with assms show ?thesis by (auto simp: conn_kept_def base_start_def)
next
  case False
  with assms have "race_idle (conn_racer c)" by (auto simp: conn_inv_def conn_idle_def race_state)
  with False racer_start [OF this, of h] show ?thesis
    by (auto simp: conn_kept_def base_start_def conn_inv_def pending_handlers_def race_state)
qed

lemma chain_end_kept:
  assumes "conn_inv c" "conn_chain c \<noteq> No_operation" "\<not> conn_stopped c" "failed ec" "\<forall>f\<in>set fx. handled f = [] \<and> (\<forall>b. sound_call f b)"
  shows "conn_kept [] c (emits fx (racer_finish (ec, False) (c\<lparr>conn_chain := No_operation, conn_stopped := True\<rparr>)))"
proof -
  from assms obtain h where h: "speed_holding 2 h [] (conn_racer c)" "conn_timer c" "\<not> conn_finish c"
    by (auto simp: conn_inv_def conn_idle_def)
  with racer_first [of h "c\<lparr>conn_chain := No_operation, conn_stopped := True\<rparr>" "(ec, False)"] obtain r where
    "racer_finish (ec, False) (c\<lparr>conn_chain := No_operation, conn_stopped := True\<rparr>) =
       (c\<lparr>conn_chain := No_operation, conn_stopped := True, conn_racer := r\<rparr>, [])" "speed_holding 2 h [(ec, False)] r" by auto
  with h assms(4,5) show ?thesis
    by (auto simp: conn_kept_def emits_def conn_inv_def pending_handlers_def race_state)
qed

lemma chain_late_kept:
  assumes "conn_inv c" "conn_chain c \<noteq> No_operation" "conn_stopped c"
  shows "conn_kept [] c (racer_finish args (c\<lparr>conn_chain := No_operation\<rparr>))"
proof -
  from assms obtain h ec where h: "speed_holding 2 h [(ec, True)] (conn_racer c)" "\<not> conn_timer c" "failed ec"
    by (auto simp: conn_inv_def conn_idle_def)
  with racer_second [of h "(ec, True)" "c\<lparr>conn_chain := No_operation\<rparr>" args] obtain r where
    "racer_finish args (c\<lparr>conn_chain := No_operation\<rparr>) =
       (c\<lparr>conn_chain := No_operation, conn_racer := r\<rparr>, [Invoke h (Some (ec, True))])" "race_idle r" by auto
  with h assms(3) show ?thesis
    by (auto simp: conn_kept_def conn_inv_def conn_idle_def pending_handlers_def race_state)
qed

lemma base_handle_connect_kept:
  assumes "conn_inv c" "conn_chain c \<noteq> No_operation"
  shows "conn_kept [] c (base_handle_connect ec c)"
proof (cases "conn_stopped c \<or> conn_suspended c \<or> failed ec")
  case True
  with assms show ?thesis by (auto simp: base_handle_connect_def intro!: chain_late_kept chain_end_kept)
next
  case False
  with assms obtain h where h: "speed_holding 2 h [] (conn_racer c)" "conn_timer c"
    by (auto simp: conn_inv_def conn_idle_def)
  with racer_first [of h "c\<lparr>conn_chain := No_operation, conn_finish := True\<rparr>" "(e_success, True)"] obtain r where
    "racer_finish (e_success, True) (c\<lparr>conn_chain := No_operation, conn_finish := True\<rparr>) =
       (c\<lparr>conn_chain := No_operation, conn_finish := True, conn_racer := r\<rparr>, [])" "speed_holding 2 h [(e_success, True)] r"
    by auto
  with False h show ?thesis
    by (auto simp: conn_kept_def base_handle_connect_def emits_def conn_inv_def pending_handlers_def race_state)
qed

lemma chain_continue_kept:
  assumes "conn_inv c" "conn_chain c \<noteq> No_operation" "next_chain \<noteq> No_operation"
    "\<forall>f\<in>set fx. handled f = [] \<and> (\<forall>b. sound_call f b)"
  shows "conn_kept [] c (c\<lparr>conn_chain := next_chain\<rparr>, fx)"
  using assms by (auto simp: conn_kept_def conn_inv_def conn_idle_def pending_handlers_def)

lemma handle_resolve_kept:
  "conn_inv c \<Longrightarrow> conn_chain c = Resolving \<Longrightarrow> conn_kept [] c (handle_resolve ec c)"
  by (auto simp: handle_resolve_def intro!: chain_late_kept chain_end_kept chain_continue_kept)

lemma handle_connect_kept:
  "conn_inv c \<Longrightarrow> conn_chain c \<noteq> No_operation \<Longrightarrow> conn_kept [] c (handle_connect ec c)"
  by (auto simp: handle_connect_def intro!: base_handle_connect_kept chain_continue_kept
      split: option.splits prod.splits socks_call.splits)

lemma socks_completed_kept:
  "conn_inv c \<Longrightarrow> conn_chain c \<noteq> No_operation \<Longrightarrow> conn_kept [] c (socks_completed ec moved data st cfg c)"
  by (auto simp: socks_completed_def intro!: chain_continue_kept split: prod.splits socks_call.splits)

lemma timer_late_kept:
  assumes "conn_inv c" "conn_timer c" "conn_chain c = No_operation"
  shows "conn_kept [] c (racer_finish args (c\<lparr>conn_timer := False\<rparr>))"
proof -
  from assms have "\<exists>h ec. speed_holding 2 h [(ec, conn_finish c)] (conn_racer c) \<and>
    (conn_finish c \<longleftrightarrow> \<not> failed ec) \<and> (conn_stopped c \<longleftrightarrow> failed ec)"
    by (simp add: conn_inv_def conn_idle_def)
  then obtain h ec where h: "speed_holding 2 h [(ec, conn_finish c)] (conn_racer c)"
    "conn_finish c \<longleftrightarrow> \<not> failed ec" "conn_stopped c \<longleftrightarrow> failed ec" by blast
  with racer_second [of h "(ec, conn_finish c)" "c\<lparr>conn_timer := False\<rparr>" args] obtain r where
    "racer_finish args (c\<lparr>conn_timer := False\<rparr>) =
       (c\<lparr>conn_timer := False, conn_racer := r\<rparr>, [Invoke h (Some (ec, conn_finish c))])" "race_idle r" by auto
  with h assms(3) show ?thesis
    by (auto simp: conn_kept_def conn_inv_def conn_idle_def pending_handlers_def race_state)
qed

lemma emits_kept:
  "conn_kept hs c result \<Longrightarrow> \<forall>f\<in>set fx. handled f = [] \<and> (\<forall>b. sound_call f b) \<Longrightarrow> conn_kept hs c (emits fx result)"
  by (auto simp: conn_kept_def emits_def)

lemma timer_first_kept:
  assumes "conn_inv c" "conn_timer c" "\<not> conn_finish c" "failed ec"
  shows "conn_kept [] c (racer_finish (ec, True) (c\<lparr>conn_timer := False, conn_stopped := True\<rparr>))"
proof (cases "conn_chain c = No_operation")
  case True
  with assms have "conn_stopped c" by (auto simp: conn_inv_def conn_idle_def)
  then have "c\<lparr>conn_timer := False, conn_stopped := True\<rparr> = c\<lparr>conn_timer := False\<rparr>" by (cases c) simp
  with timer_late_kept [OF assms(1,2) True] show ?thesis by simp
next
  case False
  with assms obtain h where h: "speed_holding 2 h [] (conn_racer c)"
    by (auto simp: conn_inv_def conn_idle_def)
  with racer_first [of h "c\<lparr>conn_timer := False, conn_stopped := True\<rparr>" "(ec, True)"] obtain r where
    "racer_finish (ec, True) (c\<lparr>conn_timer := False, conn_stopped := True\<rparr>) =
       (c\<lparr>conn_timer := False, conn_stopped := True, conn_racer := r\<rparr>, [])" "speed_holding 2 h [(ec, True)] r" by auto
  with False h assms(3,4) show ?thesis
    by (auto simp: conn_kept_def conn_inv_def pending_handlers_def race_state)
qed

lemma conn_handle_timer_kept:
  assumes "conn_inv c" "conn_timer c"
  shows "conn_kept [] c (conn_handle_timer ec c)"
proof (cases "conn_finish c")
  case True
  with assms have "conn_chain c = No_operation" by (auto simp: conn_inv_def conn_idle_def)
  with True timer_late_kept [OF assms] show ?thesis by (simp add: conn_handle_timer_def)
next
  case False
  with assms show ?thesis by (auto simp: conn_handle_timer_def intro!: emits_kept timer_first_kept)
qed

lemma conn_same_kept: "conn_inv c \<Longrightarrow> \<forall>f\<in>set fx. handled f = [] \<and> (\<forall>b. sound_call f b) \<Longrightarrow> conn_kept [] c (c, fx)"
  by (auto simp: conn_kept_def)

lemma conn_step_kept:
  assumes "conn_inv c" "conn_step ev c = Some result"
  shows "conn_kept (started ev) c result"
proof (cases ev)
  case (Set_suspended b)
  with assms show ?thesis by (auto simp: conn_kept_def conn_inv_def conn_idle_def pending_handlers_def)
qed (use assms in \<open>auto simp: connect_address_def connect_endpoint_def conn_start_def conn_stop_def do_handle_connect_def
    intro!: base_start_kept conn_same_kept handle_resolve_kept chain_continue_kept handle_connect_kept
      base_handle_connect_kept socks_completed_kept conn_handle_timer_kept
    split: option.splits if_splits conn_chain.splits\<close>)

lemma conn_reach_inv:
  "conn_reach c hs log \<Longrightarrow> conn_inv c \<and> (\<forall>(f, stopped)\<in>set log. sound_call f stopped) \<and>
     mset hs = mset (concat (map (handled \<circ> fst) log)) + mset (pending_handlers c)"
proof (induction rule: conn_reach.induct)
  case (conn_init c)
  then show ?case by (simp add: conn_inv_def conn_idle_def pending_handlers_def race_state)
next
  case (conn_event c hs log ev c' fx)
  with conn_step_kept [of c ev "(c', fx)"] show ?case by (auto simp: conn_kept_def comp_def)
qed

section \<open>Progress\<close>

fun is_completion :: "'h conn_event \<Rightarrow> bool" where
  "is_completion (Resolved _) = True"
| "is_completion (Connected _) = True"
| "is_completion Post = True"
| "is_completion (Socks_operation _ _ _) = True"
| "is_completion (Timer _) = True"
| "is_completion _ = False"

fun chain_rank :: "conn_chain \<Rightarrow> nat" where
  "chain_rank No_operation = 0"
| "chain_rank (Socks_posted _) = 1"
| "chain_rank (Negotiating st) = (if st = handshake_stage then 2 else stage_rank st + 2)"
| "chain_rank (Connect_posted _) = 11"
| "chain_rank Connecting = 12"
| "chain_rank Resolving = 13"

definition conn_rank :: "('h, 'c) connector \<Rightarrow> nat" where
  "conn_rank c = chain_rank (conn_chain c) + (if conn_timer c then 1 else 0)"

lemma racer_finish_rank [simp]:
  "conn_rank (fst (racer_finish args c)) = conn_rank c" "conn_socks5 (fst (racer_finish args c)) = conn_socks5 c"
  "conn_chain (fst (racer_finish args c)) = conn_chain c"
  by (simp_all add: racer_finish_def conn_rank_def split: prod.splits)

lemma emits_fst [simp]: "fst (emits fx result) = fst result"
  by (simp add: emits_def)

lemma base_handle_connect_rank: "conn_rank (fst (base_handle_connect ec c)) = (if conn_timer c then 1 else 0)"
  by (simp add: base_handle_connect_def) (simp add: conn_rank_def)

lemma stage_rank_bound: "0 < stage_rank st" "stage_rank st \<le> 8"
  by (cases st; simp)+

lemma negotiation_decreases:
  assumes "socks_step cfg tgt b ec n data st = (st', call)" "\<forall>e. call \<noteq> finish e"
  shows "chain_rank (Negotiating st') < chain_rank (Negotiating st)"
  using assms by (cases st) (auto simp: socks_handlers Let_def split: if_splits)

lemma greeting_stage: "do_socks_greeting_write cfg b ec = (st, call) \<Longrightarrow> st = greeting_write \<or> (\<exists>e. call = finish e)"
  by (auto simp: do_socks_greeting_write_def split: if_splits)

lemma handle_connect_rank:
  assumes "conn_chain c = Connect_posted e"
  shows "conn_rank (fst (handle_connect ec c)) < conn_rank c"
proof -
  have base: "conn_rank (fst (base_handle_connect x c)) < conn_rank c" for x
    using assms by (simp add: base_handle_connect_rank) (simp add: conn_rank_def)
  have greet: "conn_rank (c\<lparr>conn_chain := Negotiating greeting_write\<rparr>) < conn_rank c"
    using assms by (simp add: conn_rank_def)
  show ?thesis
    by (auto simp: handle_connect_def base greet dest: greeting_stage split: option.splits prod.splits socks_call.splits)
qed

lemma socks_completed_rank:
  "conn_chain c = Negotiating st \<Longrightarrow> conn_rank (fst (socks_completed ec n data st cfg c)) < conn_rank c"
  using negotiation_decreases [of cfg "conn_target c" "conn_stopped c" ec n data st]
  by (auto simp: socks_completed_def conn_rank_def stage_rank_bound split: prod.splits socks_call.splits)

lemma handle_resolve_rank:
  "conn_chain c = Resolving \<Longrightarrow> conn_rank (fst (handle_resolve ec c)) < conn_rank c"
  by (simp add: handle_resolve_def) (simp add: conn_rank_def)

lemma conn_handle_timer_rank:
  "conn_timer c \<Longrightarrow> conn_rank (fst (conn_handle_timer ec c)) < conn_rank c"
  by (simp add: conn_handle_timer_def) (simp add: conn_rank_def)

lemma completion_decreases:
  assumes "conn_step ev c = Some (c', fx)" "is_completion ev"
  shows "conn_rank c' < conn_rank c"
proof -
  have base: "conn_rank (fst (base_handle_connect x c)) < conn_rank c" if "conn_chain c = Socks_posted e" for x e
    using that by (simp add: base_handle_connect_rank) (simp add: conn_rank_def)
  have "conn_rank (fst (c', fx)) < conn_rank c"
  proof (cases ev)
    case (Connected ec)
    with assms(1) show ?thesis by (auto simp: do_handle_connect_def conn_rank_def split: if_splits)
  qed (use assms handle_resolve_rank handle_connect_rank socks_completed_rank conn_handle_timer_rank base
      in \<open>auto split: if_splits conn_chain.splits option.splits simp: prod_eq_iff\<close>)
  then show ?thesis by simp
qed

text \<open>A negotiation is pending only when the proxy is configured.\<close>

definition negotiation_configured :: "('h, 'c) connector \<Rightarrow> bool" where
  "negotiation_configured c \<longleftrightarrow> (\<forall>st. conn_chain c = Negotiating st \<longrightarrow> conn_socks5 c \<noteq> None)"

lemma base_handle_connect_chain [simp]: "conn_chain (fst (base_handle_connect ec c)) = No_operation"
  by (simp add: base_handle_connect_def)

lemma conn_step_configured:
  assumes "conn_step ev c = Some (c', fx)" "negotiation_configured c"
  shows "negotiation_configured c'"
proof -
  have "negotiation_configured (fst (c', fx))"
    by (cases ev) (use assms in \<open>auto simp: negotiation_configured_def connect_address_def connect_endpoint_def conn_start_def
      base_start_def conn_stop_def handle_resolve_def do_handle_connect_def handle_connect_def socks_completed_def
      conn_handle_timer_def prod_eq_iff split: if_splits option.splits conn_chain.splits prod.splits socks_call.splits\<close>)
  then show ?thesis by simp
qed

lemma conn_reach_configured: "conn_reach c hs log \<Longrightarrow> negotiation_configured c"
  by (induction rule: conn_reach.induct)
    (auto simp: conn_idle_def conn_step_configured, simp add: negotiation_configured_def)

lemma pending_rank: "conn_inv c \<Longrightarrow> length (pending_handlers c) = (if conn_rank c = 0 then 0 else 1)"
  using stage_rank_bound by (cases "conn_chain c")
    (auto simp: conn_inv_def conn_idle_def pending_handlers_def conn_rank_def race_state)

lemma completion_enabled:
  assumes "negotiation_configured c" "conn_rank c \<noteq> 0"
  shows "\<exists>ev. is_completion ev \<and> conn_step ev c \<noteq> None"
proof (cases "conn_timer c")
  case True
  then show ?thesis by (intro exI [of _ "Timer e_success"]) simp
next
  case False
  with assms show ?thesis
    by (cases "conn_chain c")
      (auto simp: negotiation_configured_def conn_rank_def intro: exI [of _ "Resolved e_success"] exI [of _ "Connected e_success"]
        exI [of _ Post] exI [of _ "Socks_operation e_success 0 []"])
qed

section \<open>Completion\<close>

text \<open>
  C27. In every run of a connector, plain or proxied, in any interleaving of calls, completions and the
  timer: each handler started is called exactly once, or is the one that is pending; a
  call with success passes a socket that is not stopped, and when a connection fails its socket is stopped;
  a handler is pending exactly while an operation is, some completion is then possible, and each
  completion decreases the rank (at most 14), so that the handler is called after finitely many.
\<close>

theorem connector_completes:
  assumes "conn_reach c hs log"
  shows "mset hs = mset (concat (map (handled \<circ> fst) log)) + mset (pending_handlers c) \<and>
    (\<forall>(f, stopped)\<in>set log. sound_call f stopped) \<and>
    length (pending_handlers c) = (if conn_rank c = 0 then 0 else 1) \<and> conn_rank c \<le> 14 \<and>
    (conn_rank c \<noteq> 0 \<longrightarrow> (\<exists>ev. is_completion ev \<and> conn_step ev c \<noteq> None)) \<and>
    (\<forall>ev c' fx. is_completion ev \<longrightarrow> conn_step ev c = Some (c', fx) \<longrightarrow> conn_rank c' < conn_rank c)"
proof (intro conjI allI impI)
  show "conn_rank c \<le> 14"
  proof (cases "conn_chain c")
    case (Negotiating st)
    then show ?thesis using stage_rank_bound(2) [of st] by (auto simp: conn_rank_def)
  qed (auto simp: conn_rank_def)
qed (use conn_reach_inv [OF assms] conn_reach_configured [OF assms] pending_rank [of c] completion_enabled [of c] completion_decreases in auto)

definition sample_connector :: "(nat, unit) connector" where
  "sample_connector = \<lparr>conn_racer = speed_init, conn_suspended = False, conn_parameters = None, conn_socks5 = None,
     conn_proxy_host = [], conn_finish = False, conn_target = sample_target, conn_context = None, conn_stopped = False,
     conn_timer = False, conn_chain = No_operation\<rparr>"

definition sample_resolving :: "(nat, unit) connector" where
  "sample_resolving = fst (connect_endpoint [0x61] 8333 7 sample_connector)"

lemmas sample_run = sample_connector_def sample_resolving_def connect_endpoint_def conn_start_def base_start_def speed_init_def
  speed_start_def race_running_def speed_finish_def race_invoke_def speed_is_winner_def racer_finish_def emits_def
  handle_resolve_def do_handle_connect_def handle_connect_def base_handle_connect_def conn_handle_timer_def

definition sample_connected :: "(nat, unit) connector" where
  "sample_connected = fst (conn_handle_timer e_operation_canceled
     (fst (base_handle_connect e_success (sample_resolving\<lparr>conn_chain := Connect_posted e_success\<rparr>))))"

definition sample_log :: "(nat conn_effect \<times> bool) list" where
  "sample_log = [(Timer_start, False), (Async_resolve [0x61] 8333, False), (Socket_connect, False), (Timer_stop, False),
     (Invoke 7 (Some (e_success, True)), False)]"

lemma sample_reach: "conn_reach sample_connected [7] sample_log"
proof -
  let ?c2 = "sample_resolving\<lparr>conn_chain := Connecting\<rparr>"
  let ?c3 = "sample_resolving\<lparr>conn_chain := Connect_posted e_success\<rparr>"
  have "conn_reach sample_connector [] []" by (rule conn_init) (simp add: sample_run conn_idle_def race_idle_def)
  from conn_event [OF this, of "Connect_endpoint [0x61] 8333 7" sample_resolving "[Timer_start, Async_resolve [0x61] 8333]"]
  have "conn_reach sample_resolving [7] (take 2 sample_log)" by (simp add: sample_run sample_log_def)
  from conn_event [OF this, of "Resolved e_success" ?c2 "[Socket_connect]"]
  have "conn_reach ?c2 [7] (take 3 sample_log)" by (simp add: sample_run sample_log_def)
  from conn_event [OF this, of "Connected e_success" ?c3 "[]"]
  have "conn_reach ?c3 [7] (take 3 sample_log)" by (simp add: sample_run)
  from conn_event [OF this, of Post "fst (base_handle_connect e_success ?c3)" "[Timer_stop]"]
  have "conn_reach (fst (base_handle_connect e_success ?c3)) [7] (take 4 sample_log)"
    by (simp add: sample_run sample_log_def)
  from conn_event [OF this, of "Timer e_operation_canceled" sample_connected "[Invoke 7 (Some (e_success, True))]"]
  show ?thesis by (simp add: sample_run sample_log_def sample_connected_def)
qed

theorem connector_completes_witness:
  "mset [7] = mset (concat (map (handled \<circ> fst) sample_log)) + mset (pending_handlers sample_connected) \<and>
   list_all (\<lambda>(f, stopped). sound_call f stopped) sample_log \<and> conn_rank sample_connected = 0"
  using connector_completes [OF sample_reach] by (simp add: sample_connected_def sample_run conn_rank_def list_all_iff)

end
