(* ===== verification/Http_Enums.thy ===== *)
theory Http_Enums
  imports Main
begin

text \<open>
  The enumerations of the http messages (\<open>src/src/messages/http/enums\<close>): methods, field names and status
  codes with the tables that relate them to text. Text is a list of characters. Enumerators are prefixed
  by \<open>verb_\<close>, \<open>field_\<close> and \<open>status_\<close>.
\<close>

section \<open>Text\<close>

definition lower :: "char \<Rightarrow> char" where
  "lower c = (if 65 \<le> (of_char c :: nat) \<and> (of_char c :: nat) \<le> 90 then char_of ((of_char c :: nat) + 32) else c)"

definition iequals :: "string \<Rightarrow> string \<Rightarrow> bool" where
  "iequals left right \<longleftrightarrow> length left = length right \<and> list_all2 (\<lambda>first second. lower first = lower second) left right"

lemma iequals_map: "iequals a b \<longleftrightarrow> map lower a = map lower b"
  by (auto simp: iequals_def list_all2_conv_all_nth list_eq_iff_nth_eq)

lemma iequals_refl [simp]: "iequals a a"
  by (simp add: iequals_map)

lemma iequals_sym: "iequals a b \<Longrightarrow> iequals b a"
  by (simp add: iequals_map)

lemma iequals_trans: "iequals a b \<Longrightarrow> iequals b c \<Longrightarrow> iequals a c"
  by (simp add: iequals_map)

section \<open>Methods\<close>

datatype verb = verb_unknown |
    verb_delete | verb_get | verb_head | verb_post | verb_put | verb_connect | verb_options | verb_trace |
    verb_copy | verb_lock | verb_mkcol | verb_move | verb_propfind | verb_proppatch | verb_search | verb_unlock |
    verb_bind | verb_rebind | verb_unbind | verb_acl | verb_report | verb_mkactivity | verb_checkout | verb_merge |
    verb_msearch | verb_notify | verb_subscribe | verb_unsubscribe | verb_patch | verb_purge | verb_mkcalendar |
    verb_link | verb_unlink | verb_websocket | verb_stream

definition verbs :: "(verb \<times> string) list" where
  "verbs = [
    (verb_delete, ''DELETE''), (verb_get, ''GET''), (verb_head, ''HEAD''), (verb_post, ''POST''),
    (verb_put, ''PUT''), (verb_connect, ''CONNECT''), (verb_options, ''OPTIONS''), (verb_trace, ''TRACE''),
    (verb_copy, ''COPY''), (verb_lock, ''LOCK''), (verb_mkcol, ''MKCOL''), (verb_move, ''MOVE''),
    (verb_propfind, ''PROPFIND''), (verb_proppatch, ''PROPPATCH''), (verb_search, ''SEARCH''),
    (verb_unlock, ''UNLOCK''), (verb_bind, ''BIND''), (verb_rebind, ''REBIND''), (verb_unbind, ''UNBIND''),
    (verb_acl, ''ACL''), (verb_report, ''REPORT''), (verb_mkactivity, ''MKACTIVITY''), (verb_checkout, ''CHECKOUT''),
    (verb_merge, ''MERGE''), (verb_msearch, ''M-SEARCH''), (verb_notify, ''NOTIFY''),
    (verb_subscribe, ''SUBSCRIBE''), (verb_unsubscribe, ''UNSUBSCRIBE''), (verb_patch, ''PATCH''),
    (verb_purge, ''PURGE''), (verb_mkcalendar, ''MKCALENDAR''), (verb_link, ''LINK''), (verb_unlink, ''UNLINK'')]"

definition to_verb :: "string \<Rightarrow> verb" where
  "to_verb token = (case find (\<lambda>item. snd item = token) verbs of None \<Rightarrow> verb_unknown | Some item \<Rightarrow> fst item)"

definition verb_string :: "verb \<Rightarrow> string" where
  "verb_string v = (case find (\<lambda>item. fst item = v) verbs of None \<Rightarrow> [] | Some item \<Rightarrow> snd item)"

section \<open>Fields\<close>

datatype field = field_unknown |
    field_accept | field_access_control_allow_headers | field_access_control_allow_methods |
    field_access_control_allow_origin | field_access_control_max_age | field_access_control_request_headers |
    field_access_control_request_method | field_authorization | field_connection | field_content_disposition |
    field_content_length | field_content_type | field_date | field_host | field_keep_alive | field_location |
    field_origin | field_sec_websocket_accept | field_sec_websocket_extensions | field_sec_websocket_key |
    field_sec_websocket_protocol | field_sec_websocket_version | field_server | field_transfer_encoding |
    field_upgrade | field_user_agent | field_vary

definition field_names :: "(field \<times> string) list" where
  "field_names = [
    (field_accept, ''Accept''), (field_access_control_allow_headers, ''Access-Control-Allow-Headers''),
    (field_access_control_allow_methods, ''Access-Control-Allow-Methods''),
    (field_access_control_allow_origin, ''Access-Control-Allow-Origin''),
    (field_access_control_max_age, ''Access-Control-Max-Age''),
    (field_access_control_request_headers, ''Access-Control-Request-Headers''),
    (field_access_control_request_method, ''Access-Control-Request-Method''),
    (field_authorization, ''Authorization''), (field_connection, ''Connection''),
    (field_content_disposition, ''Content-Disposition''), (field_content_length, ''Content-Length''),
    (field_content_type, ''Content-Type''), (field_date, ''Date''), (field_host, ''Host''),
    (field_keep_alive, ''Keep-Alive''), (field_location, ''Location''), (field_origin, ''Origin''),
    (field_sec_websocket_accept, ''Sec-WebSocket-Accept''),
    (field_sec_websocket_extensions, ''Sec-WebSocket-Extensions''), (field_sec_websocket_key, ''Sec-WebSocket-Key''),
    (field_sec_websocket_protocol, ''Sec-WebSocket-Protocol''),
    (field_sec_websocket_version, ''Sec-WebSocket-Version''), (field_server, ''Server''),
    (field_transfer_encoding, ''Transfer-Encoding''), (field_upgrade, ''Upgrade''),
    (field_user_agent, ''User-Agent''), (field_vary, ''Vary'')]"

definition to_field :: "string \<Rightarrow> field" where
  "to_field name = (case find (\<lambda>item. iequals (snd item) name) field_names of None \<Rightarrow> field_unknown | Some item \<Rightarrow> fst item)"

definition field_string :: "field \<Rightarrow> string" where
  "field_string f = (case find (\<lambda>item. fst item = f) field_names of None \<Rightarrow> [] | Some item \<Rightarrow> snd item)"

section \<open>Status\<close>

text \<open>A status is the value of its enumerator; the table lists the enumerators, without \<open>unknown\<close> (0).\<close>

type_synonym status = nat

definition status_unknown :: status where "status_unknown = 0"
definition status_ok :: status where "status_ok = 200"
definition status_no_content :: status where "status_no_content = 204"
definition status_not_modified :: status where "status_not_modified = 304"

definition statuses :: "(status \<times> string) list" where
  "statuses = [
    (100, ''Continue''), (101, ''Switching Protocols''), (102, ''Processing''), (103, ''Early Hints''),
    (200, ''OK''), (201, ''Created''), (202, ''Accepted''), (203, ''Non-Authoritative Information''),
    (204, ''No Content''), (205, ''Reset Content''), (206, ''Partial Content''), (207, ''Multi-Status''),
    (208, ''Already Reported''), (226, ''IM Used''), (300, ''Multiple Choices''), (301, ''Moved Permanently''),
    (302, ''Found''), (303, ''See Other''), (304, ''Not Modified''), (305, ''Use Proxy''),
    (307, ''Temporary Redirect''), (308, ''Permanent Redirect''), (400, ''Bad Request''), (401, ''Unauthorized''),
    (402, ''Payment Required''), (403, ''Forbidden''), (404, ''Not Found''), (405, ''Method Not Allowed''),
    (406, ''Not Acceptable''), (407, ''Proxy Authentication Required''), (408, ''Request Timeout''),
    (409, ''Conflict''), (410, ''Gone''), (411, ''Length Required''), (412, ''Precondition Failed''),
    (413, ''Payload Too Large''), (414, ''URI Too Long''), (415, ''Unsupported Media Type''),
    (416, ''Range Not Satisfiable''), (417, ''Expectation Failed''), (421, ''Misdirected Request''),
    (422, ''Unprocessable Entity''), (423, ''Locked''), (424, ''Failed Dependency''), (425, ''Too Early''),
    (426, ''Upgrade Required''), (428, ''Precondition Required''), (429, ''Too Many Requests''),
    (431, ''Request Header Fields Too Large''), (444, ''Connection Closed Without Response''),
    (451, ''Unavailable For Legal Reasons''), (499, ''Client Closed Request''), (500, ''Internal Server Error''),
    (501, ''Not Implemented''), (502, ''Bad Gateway''), (503, ''Service Unavailable''), (504, ''Gateway Timeout''),
    (505, ''HTTP Version Not Supported''), (506, ''Variant Also Negotiates''), (507, ''Insufficient Storage''),
    (508, ''Loop Detected''), (510, ''Not Extended''), (511, ''Network Authentication Required''),
    (599, ''Network Connect Timeout Error'')]"

definition to_status :: "nat \<Rightarrow> status" where
  "to_status code = (case find (\<lambda>item. fst item = code) statuses of None \<Rightarrow> status_unknown | Some item \<Rightarrow> fst item)"

definition status_string :: "status \<Rightarrow> string" where
  "status_string s = (case find (\<lambda>item. fst item = s) statuses of None \<Rightarrow> ''<unknown-status>'' | Some item \<Rightarrow> snd item)"

section \<open>The tables are inverse\<close>

lemma find_fst: "distinct (map fst xs) \<Longrightarrow> (a, b) \<in> set xs \<Longrightarrow> find (\<lambda>item. fst item = a) xs = Some (a, b)"
  by (induction xs) force+

lemma find_snd: "distinct (map snd xs) \<Longrightarrow> (a, b) \<in> set xs \<Longrightarrow> find (\<lambda>item. snd item = b) xs = Some (a, b)"
  by (induction xs) force+

lemma find_name:
  "distinct (map (map lower \<circ> snd) xs) \<Longrightarrow> (a, b) \<in> set xs \<Longrightarrow> iequals b name \<Longrightarrow>
   find (\<lambda>item. iequals (snd item) name) xs = Some (a, b)"
  by (induction xs) (force simp: iequals_map)+

lemma find_Some: "find P xs = Some x \<Longrightarrow> P x \<and> x \<in> set xs"
  by (auto simp: find_Some_iff)

lemma verbs_distinct: "distinct (map fst verbs)" "distinct (map snd verbs)"
  by (simp_all add: verbs_def)

lemma verb_string_listed: "(v, t) \<in> set verbs \<Longrightarrow> verb_string v = t \<and> to_verb t = v"
  using find_fst [OF verbs_distinct(1), of v t] find_snd [OF verbs_distinct(2), of v t]
  by (simp add: verb_string_def to_verb_def)

lemma verb_string_to_verb: "to_verb token \<noteq> verb_unknown \<Longrightarrow> verb_string (to_verb token) = token"
  using verb_string_listed by (force simp: to_verb_def dest!: find_Some split: option.splits)

lemma to_verb_verb_string: "verb_string v \<noteq> [] \<Longrightarrow> to_verb (verb_string v) = v"
  using verb_string_listed by (force simp: verb_string_def dest!: find_Some split: option.splits)

lemma field_names_distinct: "distinct (map (map lower \<circ> snd) field_names)" "distinct (map fst field_names)"
  by (simp_all add: field_names_def lower_def)

lemma field_listed: "f \<noteq> field_unknown \<Longrightarrow> (f, field_string f) \<in> set field_names"
  by (cases f) (simp_all add: field_string_def field_names_def)

lemma to_field_iff:
  assumes "f \<noteq> field_unknown"
  shows "to_field name = f \<longleftrightarrow> iequals (field_string f) name"
proof
  assume "to_field name = f"
  with assms obtain t where t: "(f, t) \<in> set field_names" "iequals t name"
    by (auto simp: to_field_def dest!: find_Some split: option.splits)
  from find_fst [OF field_names_distinct(2) t(1)] t(2) show "iequals (field_string f) name" by (simp add: field_string_def)
next
  assume "iequals (field_string f) name"
  from find_name [OF field_names_distinct(1) field_listed [OF assms] this] show "to_field name = f"
    by (simp add: to_field_def)
qed

end
