(* ===== verification/Http_Fields.thy ===== *)
theory Http_Fields
  imports Http_Enums
begin

text \<open>
  The header of an http message (\<open>src/src/messages/http/fields.cpp\<close>, \<open>header.cpp\<close>, \<open>message.hpp\<close>): the list of
  fields, which refines a map from names (ignoring case) to lists of values, and the accessors of the
  framing and connection fields. \<open>split\<close> and \<open>serialize\<close> are functions of libbitcoin-system: the parts of a
  text between occurrences of a delimiter, without surrounding whitespace, and the decimal form of a
  number. Their laws are the assumptions of the locale \<open>http_text\<close>.
\<close>

section \<open>Fields\<close>

record entry =
  entry_id :: field
  entry_name :: string
  entry_value :: string

type_synonym fields = "entry list"

definition names :: "string \<Rightarrow> entry \<Rightarrow> bool" where
  "names name item \<longleftrightarrow> iequals (entry_name item) name"

text \<open>The position after the last of the name, or zero when there is none.\<close>

definition last_base :: "string \<Rightarrow> fields \<Rightarrow> nat" where
  "last_base name fs = length (dropWhile (\<lambda>item. \<not> names name item) (rev fs))"

definition fields_add :: "field \<Rightarrow> string \<Rightarrow> string \<Rightarrow> fields \<Rightarrow> fields" where
  "fields_add fid name val fs =
    (let item = \<lparr>entry_id = fid, entry_name = name, entry_value = val\<rparr>; at = last_base name fs
     in if at = 0 then fs @ [item] else take at fs @ item # drop at fs)"

definition fields_erase :: "string \<Rightarrow> fields \<Rightarrow> fields" where
  "fields_erase name fs = filter (\<lambda>item. \<not> names name item) fs"

definition fields_insert :: "string \<Rightarrow> string \<Rightarrow> fields \<Rightarrow> fields" where
  "fields_insert name val fs = fields_add (to_field name) name val fs"

definition fields_set :: "string \<Rightarrow> string \<Rightarrow> fields \<Rightarrow> fields" where
  "fields_set name val fs = fields_add (to_field name) name val (fields_erase name fs)"

definition field_insert :: "field \<Rightarrow> string \<Rightarrow> fields \<Rightarrow> fields" where
  "field_insert f val fs = fields_add f (field_string f) val fs"

definition field_erase :: "field \<Rightarrow> fields \<Rightarrow> fields" where
  "field_erase f fs = fields_erase (field_string f) fs"

definition field_set :: "field \<Rightarrow> string \<Rightarrow> fields \<Rightarrow> fields" where
  "field_set f val fs = fields_add f (field_string f) val (field_erase f fs)"

definition fields_find :: "string \<Rightarrow> fields \<Rightarrow> entry option" where
  "fields_find name fs = find (names name) fs"

definition field_find :: "field \<Rightarrow> fields \<Rightarrow> entry option" where
  "field_find f fs = fields_find (field_string f) fs"

definition fields_count :: "string \<Rightarrow> fields \<Rightarrow> nat" where
  "fields_count name fs = length (filter (names name) fs)"

definition fields_at :: "string \<Rightarrow> fields \<Rightarrow> string" where
  "fields_at name fs = (case fields_find name fs of None \<Rightarrow> [] | Some item \<Rightarrow> entry_value item)"

definition field_at :: "field \<Rightarrow> fields \<Rightarrow> string" where
  "field_at f fs = fields_at (field_string f) fs"

section \<open>Lists of tokens\<close>

record http_ops =
  split :: "char \<Rightarrow> string \<Rightarrow> string list"
  serialize :: "nat \<Rightarrow> string"
  ascii_to_lower :: "string \<Rightarrow> string"

definition has_token :: "http_ops \<Rightarrow> string \<Rightarrow> string \<Rightarrow> bool" where
  "has_token ops xs token \<longleftrightarrow> (\<exists>item\<in>set (split ops (CHR '','') xs). iequals item token)"

text \<open>\<open>out\<close> accumulates the tokens that are kept, each after \<open>", "\<close> once it is not empty.\<close>

fun join_tokens :: "string \<Rightarrow> string list \<Rightarrow> string" where
  "join_tokens out [] = out"
| "join_tokens out (t # ts) = join_tokens (if out = [] then t else out @ '', '' @ t) ts"

definition filter_tokens :: "http_ops \<Rightarrow> string \<Rightarrow> (string \<Rightarrow> bool) \<Rightarrow> string" where
  "filter_tokens ops xs matches = join_tokens [] (filter (\<lambda>t. \<not> (t = [] \<or> matches t)) (split ops (CHR '','') xs))"

definition append_token :: "http_ops \<Rightarrow> string \<Rightarrow> string \<Rightarrow> string" where
  "append_token ops xs token = (if has_token ops xs token then xs else if xs = [] then token else xs @ '', '' @ token)"

section \<open>Headers\<close>

definition version_1_1 :: nat where "version_1_1 = 11"
definition version_1_0 :: nat where "version_1_0 = 10"

record header_base =
  version :: nat
  header_fields :: fields

definition get_keep_alive :: "http_ops \<Rightarrow> 'z header_base_scheme \<Rightarrow> bool" where
  "get_keep_alive ops h =
    (if version h < version_1_1
     then (case field_find field_connection (header_fields h) of None \<Rightarrow> False | Some item \<Rightarrow> has_token ops (entry_value item) ''keep-alive'')
     else (case field_find field_connection (header_fields h) of None \<Rightarrow> True | Some item \<Rightarrow> \<not> has_token ops (entry_value item) ''close''))"

definition set_keep_alive :: "http_ops \<Rightarrow> bool \<Rightarrow> 'z header_base_scheme \<Rightarrow> 'z header_base_scheme" where
  "set_keep_alive ops val h =
    (let xs = field_at field_connection (header_fields h);
         is_close = (\<lambda>item. iequals item ''close''); is_keep = (\<lambda>item. iequals item ''keep-alive'');
         out = (if version h < version_1_1
                then (if val then append_token ops (filter_tokens ops xs is_close) ''keep-alive''
                      else filter_tokens ops xs (\<lambda>item. is_close item \<or> is_keep item))
                else (if val then filter_tokens ops xs (\<lambda>item. is_close item \<or> is_keep item)
                      else append_token ops (filter_tokens ops xs is_keep) ''close''))
     in h\<lparr>header_fields := (if out = [] then field_erase field_connection (header_fields h) else field_set field_connection out (header_fields h))\<rparr>)"

definition get_chunked :: "http_ops \<Rightarrow> 'z header_base_scheme \<Rightarrow> bool" where
  "get_chunked ops h =
    (let codings = split ops (CHR '','') (field_at field_transfer_encoding (header_fields h))
     in codings \<noteq> [] \<and> iequals (last codings) ''chunked'')"

definition set_chunked :: "http_ops \<Rightarrow> bool \<Rightarrow> 'z header_base_scheme \<Rightarrow> 'z header_base_scheme" where
  "set_chunked ops val h =
    (let xs = field_at field_transfer_encoding (header_fields h);
         out = filter_tokens ops xs (\<lambda>item. iequals item ''chunked'');
         fs = (if val then field_erase field_content_length (header_fields h) else header_fields h);
         out = (if val then (if out = [] then ''chunked'' else out @ '', '' @ ''chunked'') else out)
     in h\<lparr>header_fields := (if out = [] then field_erase field_transfer_encoding fs else field_set field_transfer_encoding out fs)\<rparr>)"

text \<open>\<open>std::from_chars\<close> to an unsigned integer of 64 bits: the digits at the front, and the rest.\<close>

definition is_digit :: "char \<Rightarrow> bool" where
  "is_digit c \<longleftrightarrow> 48 \<le> (of_char c :: nat) \<and> (of_char c :: nat) \<le> 57"

definition digit_value :: "char \<Rightarrow> nat" where
  "digit_value c = of_char c - 48"

definition decimal_value :: "string \<Rightarrow> nat" where
  "decimal_value = foldl (\<lambda>n c. 10 * n + digit_value c) 0"

definition max_uint64 :: nat where "max_uint64 = 2 ^ 64 - 1"

definition from_chars :: "string \<Rightarrow> (nat \<times> string) option" where
  "from_chars str =
    (let digits = takeWhile is_digit str
     in if digits = [] \<or> max_uint64 < decimal_value digits then None
        else Some (decimal_value digits, dropWhile is_digit str))"

definition get_content_length :: "'z header_base_scheme \<Rightarrow> nat option" where
  "get_content_length h =
    (case field_find field_content_length (header_fields h) of None \<Rightarrow> None
     | Some item \<Rightarrow> (case from_chars (entry_value item) of
         Some (n, []) \<Rightarrow> Some n | _ \<Rightarrow> None))"

definition set_content_length :: "http_ops \<Rightarrow> nat option \<Rightarrow> 'z header_base_scheme \<Rightarrow> 'z header_base_scheme" where
  "set_content_length ops val h =
    (let h1 = set_chunked ops False h in
     case val of Some n \<Rightarrow> h1\<lparr>header_fields := field_set field_content_length (serialize ops n) (header_fields h1)\<rparr>
     | None \<Rightarrow> h1\<lparr>header_fields := field_erase field_content_length (header_fields h1)\<rparr>)"

record request_header = header_base +
  request_verb :: verb
  unknown_method :: string
  request_target :: string

definition request_init :: request_header where
  "request_init = \<lparr>version = version_1_1, header_fields = [], request_verb = verb_unknown, unknown_method = [], request_target = []\<rparr>"

definition get_method_string :: "request_header \<Rightarrow> string" where
  "get_method_string h = (if request_verb h = verb_unknown then unknown_method h else verb_string (request_verb h))"

definition set_method_string :: "string \<Rightarrow> request_header \<Rightarrow> request_header" where
  "set_method_string val h = h\<lparr>request_verb := to_verb val, unknown_method := (if to_verb val = verb_unknown then val else [])\<rparr>"

definition set_method :: "verb \<Rightarrow> request_header \<Rightarrow> request_header" where
  "set_method v h = h\<lparr>request_verb := v, unknown_method := []\<rparr>"

definition request_need_eof :: "http_ops \<Rightarrow> request_header \<Rightarrow> bool" where
  "request_need_eof ops h \<longleftrightarrow> \<not> get_keep_alive ops h"

record response_header = header_base +
  status_code :: nat
  reason_text :: string
  standard :: string

definition response_init :: response_header where
  "response_init = \<lparr>version = version_1_1, header_fields = [], status_code = status_ok, reason_text = [], standard = status_string status_ok\<rparr>"

definition get_result :: "response_header \<Rightarrow> status" where
  "get_result h = to_status (status_code h)"

definition set_result :: "nat \<Rightarrow> response_header \<Rightarrow> response_header" where
  "set_result code h = h\<lparr>status_code := code, standard := status_string (to_status code)\<rparr>"

definition get_reason :: "response_header \<Rightarrow> string" where
  "get_reason h = (if reason_text h = [] then standard h else reason_text h)"

definition bodiless :: "response_header \<Rightarrow> bool" where
  "bodiless h \<longleftrightarrow> 100 \<le> status_code h \<and> status_code h < 200 \<or> status_code h = status_no_content \<or>
     status_code h = status_not_modified"

definition response_need_eof :: "http_ops \<Rightarrow> response_header \<Rightarrow> bool" where
  "response_need_eof ops h \<longleftrightarrow>
     (if bodiless h \<or> get_content_length h \<noteq> None \<or> get_chunked ops h then \<not> get_keep_alive ops h else True)"

text \<open>\<open>message::prepare_payload\<close>.\<close>

definition prepare_request :: "http_ops \<Rightarrow> request_header \<Rightarrow> request_header" where
  "prepare_request ops h = set_chunked ops (version_1_1 \<le> version h) h"

definition prepare_response :: "http_ops \<Rightarrow> response_header \<Rightarrow> response_header" where
  "prepare_response ops h =
    (if bodiless h then let h1 = set_chunked ops False h in h1\<lparr>header_fields := field_erase field_content_length (header_fields h1)\<rparr>
     else set_chunked ops (version_1_1 \<le> version h) h)"

definition is_upgrade :: "http_ops \<Rightarrow> request_header \<Rightarrow> bool" where
  "is_upgrade ops h \<longleftrightarrow> version_1_1 \<le> version h \<and> request_verb h = verb_get \<and>
     has_token ops (field_at field_connection (header_fields h)) ''upgrade'' \<and>
     has_token ops (field_at field_upgrade (header_fields h)) ''websocket''"

definition has_attachment :: "http_ops \<Rightarrow> fields \<Rightarrow> bool" where
  "has_attachment ops fs \<longleftrightarrow>
     (\<exists>token\<in>set (split ops (CHR '';'') (ascii_to_lower ops (field_at field_content_disposition fs))). take 8 token = ''filename'')"

definition is_websocket_upgrade :: "http_ops \<Rightarrow> fields \<Rightarrow> bool" where
  "is_websocket_upgrade ops fs \<longleftrightarrow> field_at field_sec_websocket_key fs \<noteq> [] \<and> field_at field_upgrade fs = ''websocket'' \<and>
     has_token ops (field_at field_connection fs) ''upgrade''"

section \<open>Fields as a map\<close>

definition field_values :: "string \<Rightarrow> fields \<Rightarrow> string list" where
  "field_values name fs = map entry_value (filter (names name) fs)"

text \<open>The values of a name are adjacent.\<close>

fun grouped :: "fields \<Rightarrow> bool" where
  "grouped [] = True"
| "grouped (x # xs) = (grouped xs \<and> (\<forall>y\<in>set (dropWhile (names (entry_name x)) xs). \<not> names (entry_name x) y))"

lemma names_trans: "names n x \<Longrightarrow> names (entry_name x) y \<Longrightarrow> names n y" "names n x \<Longrightarrow> names n y \<Longrightarrow> names (entry_name x) y"
  by (simp_all add: names_def iequals_map)

lemma names_self [simp]: "names (entry_name x) x"
  by (simp add: names_def)

lemma fields_add_Nil [simp]: "fields_add f n v [] = [\<lparr>entry_id = f, entry_name = n, entry_value = v\<rparr>]"
  by (simp add: fields_add_def last_base_def)

lemma last_base_none: "\<forall>y\<in>set xs. \<not> names n y \<Longrightarrow> last_base n xs = 0"
  by (simp add: last_base_def)

lemma last_base_pos: "y \<in> set xs \<Longrightarrow> names n y \<Longrightarrow> 0 < last_base n xs"
  by (auto simp: last_base_def)

lemma last_base_Cons:
  "last_base n (x # xs) = (if \<exists>y\<in>set xs. names n y then Suc (last_base n xs) else if names n x then 1 else 0)"
  by (auto simp: last_base_def dropWhile_append)

lemma fields_add_Cons:
  "fields_add f n v (x # xs) =
    (if names n x \<and> (\<forall>y\<in>set xs. \<not> names n y) then x # \<lparr>entry_id = f, entry_name = n, entry_value = v\<rparr> # xs
     else x # fields_add f n v xs)"
proof (cases "\<exists>y\<in>set xs. names n y")
  case True
  then have "0 < last_base n xs" using last_base_pos by blast
  with True show ?thesis by (auto simp: fields_add_def Let_def last_base_Cons)
next
  case False
  then have "last_base n xs = 0" using last_base_none by blast
  with False show ?thesis by (auto simp: fields_add_def Let_def last_base_Cons)
qed

lemma field_values_simps:
  "field_values n [] = []"
  "field_values n (x # xs) = (if names n x then entry_value x # field_values n xs else field_values n xs)"
  by (simp_all add: field_values_def)

lemma field_values_none: "\<forall>y\<in>set xs. \<not> names n y \<Longrightarrow> field_values n xs = []"
  by (simp add: field_values_def)

lemma names_iequals: "iequals n m \<Longrightarrow> names n x = names m x"
  by (simp add: names_def iequals_map)

lemma field_values_add:
  "field_values m (fields_add f n v fs) = field_values m fs @ (if iequals n m then [v] else [])"
proof (induction fs)
  case Nil
  show ?case by (simp add: field_values_simps names_def)
next
  case (Cons x xs)
  show ?case
  proof (cases "names n x \<and> (\<forall>y\<in>set xs. \<not> names n y)")
    case True
    then have "iequals n m \<Longrightarrow> field_values m xs = []" using names_iequals field_values_none by blast
    with True show ?thesis by (auto simp: fields_add_Cons field_values_simps names_iequals) (auto simp: names_def)
  qed (use Cons in \<open>auto simp: fields_add_Cons field_values_simps\<close>)
qed

lemma field_values_erase:
  "field_values m (fields_erase n fs) = (if iequals n m then [] else field_values m fs)"
  by (induction fs) (auto simp: fields_erase_def field_values_simps names_def iequals_map)

lemma set_fields_add: "set (fields_add f n v fs) = insert \<lparr>entry_id = f, entry_name = n, entry_value = v\<rparr> (set fs)"
  by (induction fs) (auto simp: fields_add_Cons)

lemma grouped_erase: "grouped fs \<Longrightarrow> grouped (fields_erase n fs)"
proof (induction fs)
  case (Cons x xs)
  have "set (dropWhile P (filter Q ys)) \<subseteq> set (dropWhile P ys)" for P Q and ys :: fields
    by (induction ys) (auto dest: set_dropWhileD)
  with Cons show ?case by (fastforce simp: fields_erase_def)
qed (simp add: fields_erase_def)

lemma run_add_same:
  assumes "\<exists>y\<in>set xs. names m y" "\<forall>y\<in>set (dropWhile (names m) xs). \<not> names m y"
  shows "dropWhile (names m) (fields_add f m v xs) = dropWhile (names m) xs"
  using assms
proof (induction xs)
  case (Cons z xs)
  have "dropWhile (names m) (z # xs) = z # xs" if "\<not> names m z" using that by simp
  with Cons.prems have z: "names m z" by metis
  show ?case
  proof (cases "\<exists>y\<in>set xs. names m y")
    case True
    have "dropWhile (names m) (z # xs) = dropWhile (names m) xs" using z by simp
    with Cons.prems(2) have "\<forall>y\<in>set (dropWhile (names m) xs). \<not> names m y" by metis
    from Cons.IH [OF True this] z True show ?thesis by (simp add: fields_add_Cons)
  next
    case False
    then have "dropWhile (names m) xs = xs" by (cases xs) auto
    with z False show ?thesis by (simp add: fields_add_Cons) (simp add: names_def)
  qed
qed simp

lemma run_add_other:
  assumes "\<not> iequals n m" "\<forall>y\<in>set (dropWhile (names m) xs). \<not> names m y"
  shows "\<forall>y\<in>set (dropWhile (names m) (fields_add f n v xs)). \<not> names m y"
  using assms(2)
proof (induction xs)
  case Nil
  then show ?case using assms(1) by (simp add: names_def)
next
  case (Cons z xs)
  show ?case
  proof (cases "names m z")
    case True
    then have "\<not> names n z" using assms(1) by (auto simp: names_def iequals_map)
    moreover have "\<forall>y\<in>set (dropWhile (names m) (fields_add f n v xs)). \<not> names m y"
      by (rule Cons.IH) (use Cons.prems True in simp)
    ultimately show ?thesis using True by (simp add: fields_add_Cons)
  next
    case False
    then have "dropWhile (names m) (z # xs) = z # xs" by simp
    with Cons.prems have none: "\<forall>y\<in>set (z # xs). \<not> names m y" by metis
    have "set (fields_add f n v (z # xs)) = insert \<lparr>entry_id = f, entry_name = n, entry_value = v\<rparr> (set (z # xs))"
      by (rule set_fields_add)
    with none assms(1) have "\<forall>y\<in>set (fields_add f n v (z # xs)). \<not> names m y" by (simp add: names_def)
    then show ?thesis by (meson set_dropWhileD)
  qed
qed

lemma grouped_add: "grouped fs \<Longrightarrow> grouped (fields_add f n v fs)"
proof (induction fs)
  case (Cons x xs)
  then have IH: "grouped (fields_add f n v xs)" and run: "\<forall>y\<in>set (dropWhile (names (entry_name x)) xs). \<not> names (entry_name x) y"
    by simp_all
  consider "names n x \<and> (\<forall>y\<in>set xs. \<not> names n y)" | "names n x" "\<exists>y\<in>set xs. names n y" | "\<not> names n x" by blast
  then show ?case
  proof cases
    case 1
    then show ?thesis using Cons.prems by (auto simp: fields_add_Cons names_def iequals_map dest!: set_dropWhileD)
  next
    case 2
    then have "iequals n (entry_name x)" by (simp add: names_def iequals_map)
    then have eq: "names (entry_name x) = names n" using names_iequals by blast
    from 2 run have "dropWhile (names n) (fields_add f n v xs) = dropWhile (names n) xs"
      using run_add_same [of xs n] by (simp add: eq)
    with 2 run IH show ?thesis by (auto simp: fields_add_Cons eq)
  next
    case 3
    then have "\<not> iequals n (entry_name x)" by (simp add: names_def iequals_map)
    from run_add_other [OF this run] 3 IH show ?thesis by (auto simp: fields_add_Cons)
  qed
qed simp

lemma find_filter: "find P xs = (case filter P xs of [] \<Rightarrow> None | x # _ \<Rightarrow> Some x)"
  by (induction xs) simp_all

lemma fields_at_values: "fields_at n fs = (case field_values n fs of [] \<Rightarrow> [] | v # _ \<Rightarrow> v)"
  by (simp add: fields_at_def fields_find_def field_values_def find_filter split: list.splits)

lemma fields_find_value: "map_option entry_value (fields_find n fs) = (case field_values n fs of [] \<Rightarrow> None | v # _ \<Rightarrow> Some v)"
  by (simp add: fields_find_def field_values_def find_filter split: list.splits)

text \<open>
  C39. The fields of a header refine a map from names, ignoring case, to lists of values. Adding a value
  appends it to the values of its name, setting replaces them, erasing removes them, and no
  operation changes the values of another name; lookup gives the first value. The values of a name stay
  adjacent.
\<close>

theorem fields_refine_map:
  "field_values m (fields_insert n v fs) = field_values m fs @ (if iequals n m then [v] else []) \<and>
   field_values m (fields_set n v fs) = (if iequals n m then [v] else field_values m fs) \<and>
   field_values m (fields_erase n fs) = (if iequals n m then [] else field_values m fs) \<and>
   fields_at m fs = (case field_values m fs of [] \<Rightarrow> [] | w # _ \<Rightarrow> w) \<and>
   fields_count m fs = length (field_values m fs) \<and>
   (grouped fs \<longrightarrow> grouped (fields_insert n v fs) \<and> grouped (fields_set n v fs) \<and> grouped (fields_erase n fs))"
  by (simp add: fields_insert_def fields_set_def field_values_add field_values_erase fields_at_values fields_count_def
      grouped_add grouped_erase) (simp add: field_values_def)

theorem fields_refine_map_witness:
  "grouped (fields_insert ''host'' ''b'' (fields_insert ''Via'' ''c'' (fields_insert ''Host'' ''a'' []))) \<and>
   field_values ''HOST'' (fields_insert ''host'' ''b'' (fields_insert ''Via'' ''c'' (fields_insert ''Host'' ''a'' []))) = [''a'', ''b'']"
proof -
  have "grouped (fields_insert ''Host'' ''a'' [])" using fields_refine_map [where fs = "[]"] by simp
  then have "grouped (fields_insert ''Via'' ''c'' (fields_insert ''Host'' ''a'' []))" using fields_refine_map by blast
  moreover have "iequals ''host'' ''HOST''" "iequals ''Host'' ''HOST''" "\<not> iequals ''Via'' ''HOST''" by code_simp+
  ultimately show ?thesis using fields_refine_map by (simp add: field_values_simps)
qed

section \<open>Connection and framing fields\<close>

lemma field_names_differ:
  assumes "f \<noteq> g" "f \<noteq> field_unknown" "g \<noteq> field_unknown"
  shows "\<not> iequals (field_string f) (field_string g)"
  using to_field_iff [OF assms(2), of "field_string g"] to_field_iff [OF assms(3), of "field_string g"] assms(1) by auto

lemma field_values_set: "field_values m (field_set f v fs) = (if iequals (field_string f) m then [v] else field_values m fs)"
  by (simp add: field_set_def field_erase_def field_values_add field_values_erase)

lemma field_at_set: "f \<noteq> field_unknown \<Longrightarrow> g \<noteq> field_unknown \<Longrightarrow>
    field_at g (field_set f v fs) = (if f = g then v else field_at g fs)"
  using field_names_differ by (auto simp: field_at_def fields_at_values field_values_set)

lemma field_at_erase: "f \<noteq> field_unknown \<Longrightarrow> g \<noteq> field_unknown \<Longrightarrow>
    field_at g (field_erase f fs) = (if f = g then [] else field_at g fs)"
  using field_names_differ by (auto simp: field_at_def fields_at_values field_erase_def field_values_erase)

lemma field_find_set: "f \<noteq> field_unknown \<Longrightarrow> g \<noteq> field_unknown \<Longrightarrow>
    map_option entry_value (field_find g (field_set f v fs)) =
      (if f = g then Some v else map_option entry_value (field_find g fs))"
  using field_names_differ by (auto simp: field_find_def fields_find_value field_values_set)

lemma field_find_erase: "f \<noteq> field_unknown \<Longrightarrow> g \<noteq> field_unknown \<Longrightarrow>
    map_option entry_value (field_find g (field_erase f fs)) =
      (if f = g then None else map_option entry_value (field_find g fs))"
  using field_names_differ by (auto simp: field_find_def fields_find_value field_erase_def field_values_erase)

definition is_whitespace :: "char \<Rightarrow> bool" where
  "is_whitespace c \<longleftrightarrow> c = CHR '' '' \<or> c = CHR 0x09"

definition trimmed :: "string \<Rightarrow> bool" where
  "trimmed t \<longleftrightarrow> (t \<noteq> [] \<longrightarrow> \<not> is_whitespace (hd t) \<and> \<not> is_whitespace (last t))"

definition list_items :: "string list \<Rightarrow> bool" where
  "list_items ts \<longleftrightarrow> (\<forall>t\<in>set ts. t \<noteq> [] \<and> trimmed t \<and> CHR '','' \<notin> set t)"

lemma join_tokens_out: "out \<noteq> [] \<Longrightarrow> join_tokens out ts = out @ concat (map (\<lambda>t. '', '' @ t) ts)"
  by (induction ts arbitrary: out) simp_all

lemma join_tokens_Cons: "t \<noteq> [] \<Longrightarrow> join_tokens [] (t # ts) = t @ concat (map (\<lambda>t. '', '' @ t) ts)"
  by (simp add: join_tokens_out)

lemma join_tokens_snoc: "list_items ts \<Longrightarrow> ts \<noteq> [] \<Longrightarrow> join_tokens [] (ts @ [t]) = join_tokens [] ts @ '', '' @ t"
  by (cases ts) (simp_all add: list_items_def join_tokens_out)

lemma join_tokens_empty: "list_items ts \<Longrightarrow> join_tokens [] ts = [] \<longleftrightarrow> ts = []"
  by (cases ts) (simp_all add: list_items_def join_tokens_out)

fun length_value :: "string option \<Rightarrow> nat option" where
  "length_value None = None"
| "length_value (Some v) = (case from_chars v of Some (n, []) \<Rightarrow> Some n | _ \<Rightarrow> None)"

text \<open>The documented behaviour of the text functions of libbitcoin-system.\<close>

locale http_text =
  fixes ops :: http_ops
  assumes split_parts: "t \<in> set (split ops d str) \<Longrightarrow> trimmed t \<and> d \<notin> set t"
    and split_join: "ts \<noteq> [] \<Longrightarrow> list_items ts \<Longrightarrow> split ops (CHR '','') (join_tokens [] ts) = ts"
    and split_empty: "t \<in> set (split ops d []) \<Longrightarrow> t = []"
    and serialize_digits: "serialize ops n \<noteq> []" "c \<in> set (serialize ops n) \<Longrightarrow> is_digit c"
    and serialize_value: "decimal_value (serialize ops n) = n"
    and serialize_front: "hd (serialize ops n) = CHR ''0'' \<Longrightarrow> n = 0 \<and> length (serialize ops n) = 1"
begin

lemma kept_items: "list_items (filter (\<lambda>t. \<not> (t = [] \<or> matches t)) (split ops (CHR '','') str))"
  using split_parts [of _ "CHR '',''" str] by (auto simp: list_items_def)

lemma has_token_empty: "token \<noteq> [] \<Longrightarrow> \<not> has_token ops [] token"
  using split_empty by (fastforce simp: has_token_def iequals_def)

lemma has_token_items: "list_items ts \<Longrightarrow> token \<noteq> [] \<Longrightarrow> has_token ops (join_tokens [] ts) token \<longleftrightarrow> (\<exists>t\<in>set ts. iequals t token)"
  using split_join [of ts] has_token_empty by (cases "ts = []") (auto simp: has_token_def)

lemma append_items:
  assumes "list_items ts" "list_items [token]"
  shows "\<exists>us. append_token ops (join_tokens [] ts) token = join_tokens [] us \<and> list_items us \<and>
    (\<exists>t\<in>set us. iequals t token)"
proof (cases "has_token ops (join_tokens [] ts) token")
  case True
  with assms has_token_items [of ts token] show ?thesis by (auto simp: append_token_def list_items_def)
next
  case False
  have "append_token ops (join_tokens [] ts) token = join_tokens [] (ts @ [token])"
    using False assms join_tokens_empty [of ts] join_tokens_snoc [of ts token] by (cases "ts = []") (auto simp: append_token_def)
  moreover have "list_items (ts @ [token])" using assms by (auto simp: list_items_def)
  ultimately show ?thesis by (intro exI [of _ "ts @ [token]"]) simp
qed

lemma filtered_token:
  assumes "matches token" "token \<noteq> []" "\<And>t. iequals t token \<Longrightarrow> matches t"
  shows "\<not> has_token ops (filter_tokens ops str matches) token"
  using has_token_items [OF kept_items assms(2), of matches str] assms(3) by (auto simp: filter_tokens_def)

lemma appended_token:
  assumes "list_items [token]"
  shows "has_token ops (append_token ops (filter_tokens ops str matches) token) token"
    "append_token ops (filter_tokens ops str matches) token \<noteq> []"
proof -
  obtain us where us: "append_token ops (filter_tokens ops str matches) token = join_tokens [] us" "list_items us"
    "\<exists>t\<in>set us. iequals t token"
    using append_items [OF kept_items assms] unfolding filter_tokens_def by blast
  then show "has_token ops (append_token ops (filter_tokens ops str matches) token) token"
    using has_token_items [of us token] assms by (simp add: list_items_def)
  show "append_token ops (filter_tokens ops str matches) token \<noteq> []" using us join_tokens_empty [of us] by auto
qed

lemma keep_alive_find:
  "get_keep_alive ops h = (case map_option entry_value (field_find field_connection (header_fields h)) of
     None \<Rightarrow> \<not> version h < version_1_1
   | Some v \<Rightarrow> if version h < version_1_1 then has_token ops v ''keep-alive'' else \<not> has_token ops v ''close'')"
  by (simp add: get_keep_alive_def split: option.splits)

lemma connection_items: "list_items [''close'']" "list_items [''keep-alive'']" "list_items [''chunked'']"
  by (simp_all add: list_items_def trimmed_def is_whitespace_def)

lemma keep_alive_set: "get_keep_alive ops (set_keep_alive ops val h) = val"
proof -
  have find: "map_option entry_value (field_find field_connection
      (if out = [] then field_erase field_connection fs else field_set field_connection out fs)) =
    (if out = [] then None else Some out)" for out fs
    by (simp add: field_find_set field_find_erase)
  have drop: "\<not> has_token ops (filter_tokens ops str (\<lambda>item. iequals item ''close'' \<or> iequals item ''keep-alive'')) ''close''"
    "\<not> has_token ops (filter_tokens ops str (\<lambda>item. iequals item ''close'' \<or> iequals item ''keep-alive'')) ''keep-alive''" for str
    by (rule filtered_token; simp)+
  show ?thesis
    by (simp add: keep_alive_find set_keep_alive_def Let_def find drop appended_token connection_items)
qed

lemma last_kept:
  assumes "\<And>t. iequals t ''chunked'' \<Longrightarrow> matches t"
  shows "\<not> (split ops (CHR '','') (filter_tokens ops str matches) \<noteq> [] \<and>
    iequals (last (split ops (CHR '','') (filter_tokens ops str matches))) ''chunked'')"
  using filtered_token [of matches "''chunked''" str] assms last_in_set
  by (auto simp: has_token_def)

lemma content_length_find:
  "get_content_length h = length_value (map_option entry_value (field_find field_content_length (header_fields h)))"
  by (simp add: get_content_length_def split: option.splits)

lemma chunked_set_True: "get_chunked ops (set_chunked ops True h)"
proof -
  define ts where "ts = filter (\<lambda>t. \<not> (t = [] \<or> iequals t ''chunked''))
    (split ops (CHR '','') (field_at field_transfer_encoding (header_fields h)))"
  have ts: "list_items ts" unfolding ts_def by (rule kept_items)
  then have items: "list_items (ts @ [''chunked''])" using connection_items(3) by (auto simp: list_items_def)
  have kept: "filter_tokens ops (field_at field_transfer_encoding (header_fields h)) (\<lambda>item. iequals item ''chunked'') = join_tokens [] ts"
    unfolding filter_tokens_def ts_def ..
  have out: "(if join_tokens [] ts = [] then ''chunked'' else join_tokens [] ts @ '', '' @ ''chunked'') = join_tokens [] (ts @ [''chunked''])"
    using join_tokens_empty [OF ts] join_tokens_snoc [OF ts] by auto
  have "join_tokens [] (ts @ [''chunked'']) \<noteq> []" using join_tokens_empty [OF items] by simp
  then have "header_fields (set_chunked ops True h) =
      field_set field_transfer_encoding (join_tokens [] (ts @ [''chunked''])) (field_erase field_content_length (header_fields h))"
    unfolding set_chunked_def Let_def if_True kept out by simp
  moreover have "split ops (CHR '','') (join_tokens [] (ts @ [''chunked''])) = ts @ [''chunked'']" using split_join [OF _ items] by simp
  ultimately show ?thesis by (simp add: get_chunked_def field_at_set)
qed

lemma chunked_set: "get_chunked ops (set_chunked ops val h) = val"
proof -
  let ?out = "filter_tokens ops (field_at field_transfer_encoding (header_fields h)) (\<lambda>item. iequals item ''chunked'')"
  have "field_at field_transfer_encoding (header_fields (set_chunked ops False h)) = ?out"
    by (simp add: set_chunked_def Let_def field_at_set field_at_erase)
  then have "\<not> get_chunked ops (set_chunked ops False h)"
    using last_kept [of "\<lambda>t. iequals t ''chunked''" "field_at field_transfer_encoding (header_fields h)"]
    unfolding get_chunked_def Let_def by simp
  with chunked_set_True show ?thesis by (cases val) simp_all
qed

lemma chunked_set_length: "get_content_length (set_chunked ops True h) = None"
  by (simp add: content_length_find set_chunked_def Let_def field_find_set field_find_erase)

lemma from_chars_serialize:
  assumes "n \<le> max_uint64"
  shows "from_chars (serialize ops n) = Some (n, [])"
proof -
  have "takeWhile is_digit (serialize ops n) = serialize ops n" "dropWhile is_digit (serialize ops n) = []"
    using serialize_digits(2) [of _ n] by auto
  with assms show ?thesis using serialize_digits(1) [of n] serialize_value [of n] unfolding from_chars_def Let_def by presburger
qed

lemma content_length_set:
  assumes "case val of None \<Rightarrow> True | Some n \<Rightarrow> n \<le> max_uint64"
  shows "get_content_length (set_content_length ops val h) = val" "\<not> get_chunked ops (set_content_length ops val h)"
proof -
  show "get_content_length (set_content_length ops val h) = val"
    using assms by (cases val) (simp_all add: content_length_find set_content_length_def Let_def from_chars_serialize
        field_find_set field_find_erase)
  have "get_chunked ops (h1\<lparr>header_fields := fs\<rparr>) = get_chunked ops h1"
    if "field_at field_transfer_encoding fs = field_at field_transfer_encoding (header_fields h1)" for h1 :: "'a header_base_scheme" and fs
    using that by (simp add: get_chunked_def)
  then show "\<not> get_chunked ops (set_content_length ops val h)"
    using chunked_set [of False h] by (cases val) (simp_all add: set_content_length_def Let_def field_at_set field_at_erase)
qed

end

section \<open>Text functions in memory\<close>

fun parts :: "char \<Rightarrow> string \<Rightarrow> string list" where
  "parts d [] = [[]]"
| "parts d (c # cs) = (if c = d then [] # parts d cs else (c # hd (parts d cs)) # tl (parts d cs))"

definition trim :: "string \<Rightarrow> string" where
  "trim t = rev (dropWhile is_whitespace (rev (dropWhile is_whitespace t)))"

fun decimal :: "nat \<Rightarrow> string" where
  "decimal n = (if n < 10 then [char_of (48 + n)] else decimal (n div 10) @ [char_of (48 + n mod 10)])"

declare decimal.simps [simp del]

definition memory_text :: http_ops where
  "memory_text = \<lparr>split = \<lambda>d str. filter (\<lambda>t. t \<noteq> []) (map trim (parts d str)), serialize = decimal, ascii_to_lower = map lower\<rparr>"

lemma parts_nonempty [simp]: "parts d str \<noteq> []"
  by (induction str) simp_all

lemma parts_free: "t \<in> set (parts d str) \<Longrightarrow> d \<notin> set t"
proof (induction str arbitrary: t)
  case (Cons c cs)
  then show ?case by (cases "parts d cs") (auto split: if_splits)
qed simp

lemma parts_append: "d \<notin> set xs \<Longrightarrow> parts d (xs @ d # ys) = xs # parts d ys"
  by (induction xs) auto

lemma parts_none: "d \<notin> set xs \<Longrightarrow> parts d xs = [xs]"
  by (induction xs) auto

lemma trim_trimmed: "trimmed (trim t)"
proof (cases "trim t = []")
  case False
  let ?u = "dropWhile is_whitespace t"
  have last: "\<not> is_whitespace (last (trim t))" using False hd_dropWhile [of is_whitespace "rev ?u"]
    by (auto simp: trim_def last_rev)
  obtain w where "?u = trim t @ w"
    unfolding trim_def by (metis rev_append rev_rev_ident takeWhile_dropWhile_id)
  with False have "hd (trim t) = hd ?u" "?u \<noteq> []" by auto
  with hd_dropWhile [of is_whitespace t] last show ?thesis by (simp add: trimmed_def)
qed (simp add: trimmed_def)

lemma set_trim: "set (trim t) \<subseteq> set t"
  by (auto simp: trim_def dest!: set_dropWhileD)

lemma dropWhile_hd: "xs = [] \<or> \<not> P (hd xs) \<Longrightarrow> dropWhile P xs = xs"
  by (cases xs) auto

lemma trim_id: "trimmed t \<Longrightarrow> trim t = t"
  using dropWhile_hd [of t is_whitespace] dropWhile_hd [of "rev t" is_whitespace]
  by (cases "t = []") (simp_all add: trimmed_def trim_def hd_rev)

lemma trim_space: "trim (CHR '' '' # t) = trim t"
  by (simp add: trim_def is_whitespace_def)

lemma parts_items: "list_items (t # ts) \<Longrightarrow>
    map trim (parts (CHR '','') (t @ concat (map (\<lambda>t. '', '' @ t) ts))) = t # ts"
proof (induction ts arbitrary: t)
  case Nil
  then show ?case by (simp add: list_items_def parts_none trim_id)
next
  case (Cons u us)
  from Cons have "map trim (parts (CHR '','') (u @ concat (map (\<lambda>t. '', '' @ t) us))) = u # us" by (simp add: list_items_def)
  with Cons.prems show ?case
    by (simp add: list_items_def parts_append trim_id)
      (cases "parts (CHR '','') (u @ concat (map (\<lambda>t. '', '' @ t) us))"; simp add: trim_space)
qed

lemma decimal_digits: "decimal n \<noteq> [] \<and> (\<forall>c\<in>set (decimal n). is_digit c)"
proof (induction n rule: decimal.induct)
  case (1 n)
  show ?case
  proof (cases "n < 10")
    case True
    then have "decimal n = [char_of (48 + n)]" by (subst decimal.simps) simp
    with True show ?thesis by (simp add: is_digit_def)
  next
    case False
    then have "decimal n = decimal (n div 10) @ [char_of (48 + n mod 10)]" by (subst decimal.simps) simp
    with 1 False show ?thesis by (auto simp: is_digit_def)
  qed
qed

lemma decimal_value_snoc: "decimal_value (ds @ [c]) = 10 * decimal_value ds + digit_value c"
  by (simp add: decimal_value_def)

lemma decimal_value_decimal: "decimal_value (decimal n) = n"
proof (induction n rule: decimal.induct)
  case (1 n)
  show ?case
  proof (cases "n < 10")
    case True
    then show ?thesis by (subst decimal.simps) (simp add: decimal_value_def digit_value_def)
  next
    case False
    then show ?thesis using 1 by (subst decimal.simps) (simp add: decimal_value_snoc digit_value_def)
  qed
qed

lemma decimal_front: "decimal n \<noteq> [] \<and> (hd (decimal n) = CHR ''0'' \<longrightarrow> n = 0 \<and> length (decimal n) = 1)"
proof (induction n rule: decimal.induct)
  case (1 n)
  have zero: "char_of (48 + n) = CHR ''0'' \<Longrightarrow> n < 10 \<Longrightarrow> n = 0"
    by (drule arg_cong [of _ _ "of_char :: char \<Rightarrow> nat"]) simp
  show ?case
  proof (cases "n < 10")
    case True
    then show ?thesis using zero by (subst (1 2 3) decimal.simps) simp
  next
    case False
    then have "decimal n = decimal (n div 10) @ [char_of (48 + n mod 10)]" by (subst decimal.simps) simp
    with 1 False show ?thesis by auto
  qed
qed

interpretation mem_text: http_text memory_text
proof
  fix t d str
  show "t \<in> set (split memory_text d str) \<Longrightarrow> trimmed t \<and> d \<notin> set t"
    using set_trim parts_free by (fastforce simp: memory_text_def trim_trimmed)
  show "t \<in> set (split memory_text d []) \<Longrightarrow> t = []" by (simp add: memory_text_def trim_def)
next
  fix ts :: "string list"
  assume "ts \<noteq> []" and items: "list_items ts"
  then obtain u us where ts: "ts = u # us" by (cases ts) auto
  from items have "u \<noteq> []" "\<forall>t\<in>set ts. t \<noteq> []" by (simp_all add: ts list_items_def)
  then show "split memory_text (CHR '','') (join_tokens [] ts) = ts"
    using parts_items [of u us] items unfolding ts by (simp add: memory_text_def join_tokens_out)
qed (auto simp: memory_text_def decimal_digits decimal_value_decimal dest: decimal_front [THEN conjunct2, rule_format])

text \<open>
  What the setters of a header set, its getters return, whatever the fields were before: keep-alive for
  either version, chunked, and the content length; setting chunked removes the content length and
  setting the content length removes chunked, so that a header set by the program never carries
  both framings.
\<close>

theorem header_accessors:
  assumes "http_text ops" "case len of None \<Rightarrow> True | Some n \<Rightarrow> n \<le> max_uint64"
  shows "get_keep_alive ops (set_keep_alive ops val h) = val \<and> get_chunked ops (set_chunked ops val h) = val \<and>
    get_content_length (set_chunked ops True h) = None \<and>
    get_content_length (set_content_length ops len h) = len \<and> \<not> get_chunked ops (set_content_length ops len h)"
  using http_text.keep_alive_set [OF assms(1)] http_text.chunked_set [OF assms(1)] http_text.chunked_set_length [OF assms(1)]
    http_text.content_length_set [OF assms] by (intro conjI)

theorem header_accessors_witness:
  "get_keep_alive memory_text (set_keep_alive memory_text False request_init) = False \<and>
   get_content_length (set_content_length memory_text (Some 5) request_init) = Some 5"
  using header_accessors [OF mem_text.http_text_axioms, of "Some 5" False request_init] by (simp add: max_uint64_def)

end
