(* ===== verification/Http_Parser.thy ===== *)
theory Http_Parser
  imports Http_Fields Error_Code
begin

text \<open>
  The parse functions of http messages (\<open>src/src/messages/http/parser.cpp\<close>). An element is parsed from the
  front of a text. The functions give the remaining text where the code keeps an index into it; the number of
  characters consumed is the difference of the lengths. A result is \<open>Inl\<close> an error (\<open>need_more\<close> if the text
  ends before the element does) or \<open>Inr\<close> what was parsed.
\<close>

section \<open>Characters\<close>

abbreviation CR :: char where "CR \<equiv> CHR 0x0D"
abbreviation LF :: char where "LF \<equiv> CHR 0x0A"

definition is_tchar :: "char \<Rightarrow> bool" where
  "is_tchar c \<longleftrightarrow> is_digit c \<or> 97 \<le> (of_char c :: nat) \<and> (of_char c :: nat) \<le> 122 \<or>
     65 \<le> (of_char c :: nat) \<and> (of_char c :: nat) \<le> 90 \<or> c \<in> set ''!#$%&'' \<or> c = CHR 39 \<or> c \<in> set ''*+-.^_`|~''"

definition is_target_char :: "char \<Rightarrow> bool" where
  "is_target_char c \<longleftrightarrow> 0x20 < (of_char c :: nat) \<and> (of_char c :: nat) \<noteq> 0x7f"

definition is_control_char :: "char \<Rightarrow> bool" where
  "is_control_char c \<longleftrightarrow> (of_char c :: nat) < 0x20 \<and> c \<noteq> CHR 0x09 \<or> (of_char c :: nat) = 0x7f"

definition to_nibble :: "char \<Rightarrow> nat option" where
  "to_nibble c =
    (if is_digit c then Some (digit_value c)
     else if 97 \<le> (of_char c :: nat) \<and> (of_char c :: nat) \<le> 102 then Some (10 + (of_char c - 97))
     else if 65 \<le> (of_char c :: nat) \<and> (of_char c :: nat) \<le> 70 then Some (10 + (of_char c - 65))
     else None)"

section \<open>Lines\<close>

text \<open>
  The line without its end, and the text that follows its end. \<open>Inl None\<close> stands for a control character (false
  with the code clear).
\<close>

fun find_line :: "string \<Rightarrow> http_error_t option + string \<times> string" where
  "find_line [] = Inl (Some http_need_more)"
| "find_line (c # cs) =
    (if \<not> is_control_char c then
       (case find_line cs of Inl e \<Rightarrow> Inl e | Inr (line, rest) \<Rightarrow> Inr (c # line, rest))
     else if c \<noteq> CR then Inl None
     else case cs of [] \<Rightarrow> Inl (Some http_need_more)
       | d # rest \<Rightarrow> if d \<noteq> LF then Inl (Some http_bad_line_ending) else Inr ([], rest))"

definition trim_back :: "string \<Rightarrow> string" where
  "trim_back line = rev (dropWhile is_whitespace (rev line))"

definition parse_version :: "string \<Rightarrow> http_error_t + nat \<times> string" where
  "parse_version str =
    (if length str < 8 then Inl http_need_more
     else if take 5 str \<noteq> ''HTTP/'' \<or> \<not> is_digit (str ! 5) \<or> str ! 6 \<noteq> CHR ''.'' \<or> \<not> is_digit (str ! 7)
     then Inl http_bad_version
     else let v = digit_value (str ! 5) * 10 + digit_value (str ! 7)
       in if v < version_1_0 \<or> version_1_1 < v then Inl http_bad_version else Inr (v, drop 8 str))"

section \<open>Start lines\<close>

text \<open>The header with its start line, and the text that follows.\<close>

definition parse_request_line :: "string \<Rightarrow> request_header \<Rightarrow> http_error_t + request_header \<times> string" where
  "parse_request_line str out =
    (case dropWhile is_tchar str of [] \<Rightarrow> Inl http_need_more
     | c # rest \<Rightarrow>
       if c \<noteq> CHR '' '' \<or> takeWhile is_tchar str = [] then Inl http_bad_method
       else (case dropWhile is_target_char rest of [] \<Rightarrow> Inl http_need_more
         | d # rest1 \<Rightarrow>
           if d \<noteq> CHR '' '' \<or> takeWhile is_target_char rest = [] then Inl http_bad_target
           else (case parse_version rest1 of Inl e \<Rightarrow> Inl e
             | Inr (v, rest2) \<Rightarrow>
               if length rest2 < 2 then Inl http_need_more
               else if rest2 ! 0 \<noteq> CR \<or> rest2 ! 1 \<noteq> LF then Inl http_bad_version
               else Inr ((set_method_string (takeWhile is_tchar str) out)\<lparr>
                   request_target := takeWhile is_target_char rest, version := v\<rparr>, drop 2 rest2))))"

definition parse_status_line :: "string \<Rightarrow> response_header \<Rightarrow> http_error_t + response_header \<times> string" where
  "parse_status_line str out =
    (case parse_version str of Inl e \<Rightarrow> Inl e
     | Inr (v, rest) \<Rightarrow>
       (case rest of [] \<Rightarrow> Inl http_need_more
        | c # rest1 \<Rightarrow>
          if c \<noteq> CHR '' '' then Inl http_bad_version
          else if length rest1 < 4 then Inl http_need_more
          else if \<not> is_digit (rest1 ! 0) \<or> \<not> is_digit (rest1 ! 1) \<or> \<not> is_digit (rest1 ! 2) \<or> rest1 ! 3 \<noteq> CHR '' ''
          then Inl http_bad_status
          else let code = digit_value (rest1 ! 0) * 100 + digit_value (rest1 ! 1) * 10 + digit_value (rest1 ! 2)
            in (case find_line (drop 4 rest1) of Inl None \<Rightarrow> Inl http_bad_reason
              | Inl (Some e) \<Rightarrow> Inl e
              | Inr (line, rest2) \<Rightarrow> Inr ((set_result code out)\<lparr>version := v, reason_text := line\<rparr>, rest2))))"

section \<open>Fields\<close>

text \<open>The tokens up to the first element that is not valid, and whether there is none.\<close>

function token_list :: "bool \<Rightarrow> string \<Rightarrow> string list \<times> bool" where
  "token_list need_comma str =
    (case dropWhile is_whitespace str of [] \<Rightarrow> ([], True)
     | c # rest \<Rightarrow>
       if is_tchar c then
         (if need_comma then ([], False)
          else let (ts, valid) = token_list True (dropWhile is_tchar rest) in ((c # takeWhile is_tchar rest) # ts, valid))
       else if c \<noteq> CHR '','' then ([], False)
       else token_list False rest)"
  by auto
termination
proof (relation "measure (\<lambda>(_, str). length str)", simp)
  fix str c rest
  assume "dropWhile is_whitespace str = c # rest"
  then have "length (c # rest) \<le> length str" by (metis length_dropWhile_le)
  then show "((True, dropWhile is_tchar rest), b, str) \<in> measure (\<lambda>(_, str). length str)"
    and "((False, rest), b, str) \<in> measure (\<lambda>(_, str). length str)" for b
    using length_dropWhile_le [of is_tchar rest] by simp_all
qed

declare token_list.simps [simp del]

record message_framing =
  frame_chunked :: bool
  frame_encoded :: bool
  frame_length :: "nat option"

definition framing_init :: message_framing where
  "framing_init = \<lparr>frame_chunked = False, frame_encoded = False, frame_length = None\<rparr>"

fun frame_lengths :: "string list \<Rightarrow> message_framing \<Rightarrow> message_framing \<times> http_code" where
  "frame_lengths [] frame = (frame, None)"
| "frame_lengths (item # items) frame =
    (case (if item = [] \<or> \<not> is_digit (hd item) then None else from_chars item) of
       Some (number, []) \<Rightarrow>
         if frame_length frame \<noteq> None \<and> Some number \<noteq> frame_length frame
         then (frame, Some http_multiple_content_length)
         else frame_lengths items (frame\<lparr>frame_length := Some number\<rparr>)
     | _ \<Rightarrow> (frame, Some http_bad_content_length))"

definition frame_field :: "http_ops \<Rightarrow> message_framing \<Rightarrow> field \<Rightarrow> string \<Rightarrow> message_framing \<times> http_code" where
  "frame_field ops frame name val =
    (if name = field_connection then (frame, if snd (token_list False val) then None else Some http_bad_value)
     else if name = field_content_length then
       (if frame_chunked frame \<or> frame_encoded frame \<or> \<not> snd (token_list False val)
        then (frame, Some http_bad_content_length)
        else frame_lengths (split ops (CHR '','') val) frame)
     else if name = field_transfer_encoding then
       (if frame_chunked frame \<or> frame_encoded frame \<or> frame_length frame \<noteq> None
        then (frame, Some http_bad_transfer_encoding)
        else let (codings, valid) = token_list False val
          in if \<not> valid \<or> codings = [] then (frame, Some http_bad_transfer_encoding)
             else let found = dropWhile (\<lambda>coding. \<not> iequals coding ''chunked'') codings;
                      chunked = (found \<noteq> [] \<and> tl found = [])
               in (frame\<lparr>frame_chunked := chunked, frame_encoded := \<not> chunked\<rparr>, None))
     else (frame, None))"

text \<open>The value with the text of another line.\<close>

definition fold_value :: "string \<Rightarrow> string \<Rightarrow> string" where
  "fold_value val part = (if part = [] then val else if val = [] then part else val @ '' '' @ part)"

text \<open>The value of a field, with its folded lines, and the text that follows.\<close>

lemma find_line_shorter: "find_line str = Inr (line, rest) \<Longrightarrow> length rest < length str"
  by (induction str arbitrary: line) (auto split: if_splits sum.splits list.splits)

function field_lines :: "string \<Rightarrow> string \<Rightarrow> http_error_t + string \<times> string" where
  "field_lines val str =
    (let start = dropWhile is_whitespace str in
     if start = [] then Inl http_need_more
     else (case find_line start of Inl None \<Rightarrow> Inl http_bad_value | Inl (Some e) \<Rightarrow> Inl e
       | Inr (line, rest) \<Rightarrow>
         if rest = [] then Inl http_need_more
         else if is_whitespace (hd rest) then field_lines (fold_value val (trim_back line)) (tl rest)
         else Inr (fold_value val (trim_back line), rest)))"
  by auto
termination
proof (relation "measure (\<lambda>(_, str). length str)", simp)
  fix str start line :: string and rest b
  assume "start = dropWhile is_whitespace str" "find_line start = Inr b" "(line, rest) = b" "rest \<noteq> []"
  then have "length rest < length str" using find_line_shorter length_dropWhile_le by (metis order_less_le_trans)
  then show "((fold_value val (trim_back line), tl rest), val, str) \<in> measure (\<lambda>(_, str). length str)" for val by auto
qed

declare field_lines.simps [simp del]

definition field_of_name :: "string \<Rightarrow> field" where
  "field_of_name name = (if iequals name ''Proxy-Connection'' then field_connection else to_field name)"

text \<open>The rest, the end of the fields, the framing, the fields and the code.\<close>

definition parse_field :: "http_ops \<Rightarrow> bool \<Rightarrow> fields \<Rightarrow> message_framing \<Rightarrow> string \<Rightarrow>
    string \<times> bool \<times> message_framing \<times> fields \<times> http_code" where
  "parse_field ops retain fs frame str =
    (if length str < 2 then (str, False, frame, fs, Some http_need_more)
     else if hd str = CR then
       (if str ! 1 \<noteq> LF then (str, False, frame, fs, Some http_bad_line_ending)
        else (drop 2 str, True, frame, fs, None))
     else (case dropWhile is_tchar str of [] \<Rightarrow> (str, False, frame, fs, Some http_need_more)
       | c # rest \<Rightarrow>
         if c \<noteq> CHR '':'' \<or> takeWhile is_tchar str = [] then (str, False, frame, fs, Some http_bad_field)
         else (case field_lines [] rest of Inl e \<Rightarrow> (str, False, frame, fs, Some e)
           | Inr (val, rest1) \<Rightarrow>
             let name = takeWhile is_tchar str; (frame1, ec) = frame_field ops frame (field_of_name name) val
             in if ec \<noteq> None then (str, False, frame1, fs, ec)
                else (rest1, False, frame1, if retain then fields_insert name val fs else fs, None))))"

section \<open>Chunks\<close>

text \<open>The size, and the text after its digits.\<close>

fun chunk_digits :: "nat \<Rightarrow> string \<Rightarrow> (nat \<times> string) option" where
  "chunk_digits val [] = Some (val, [])"
| "chunk_digits val (c # cs) =
    (case to_nibble c of None \<Rightarrow> Some (val, c # cs)
     | Some nibble \<Rightarrow> if max_uint64 div 16 < val then None else chunk_digits (val * 16 + nibble) cs)"

definition parse_chunk_size :: "string \<Rightarrow> http_error_t + nat \<times> string" where
  "parse_chunk_size line =
    (case chunk_digits 0 line of None \<Rightarrow> Inl http_bad_chunk
     | Some (val, rest) \<Rightarrow> if length rest = length line then Inl http_bad_chunk else Inr (val, rest))"

text \<open>The character at the front, or the line end.\<close>

fun at_front :: "string \<Rightarrow> char" where
  "at_front [] = CR"
| "at_front (c # cs) = c"

text \<open>The text after the closing quote.\<close>

fun quoted_rest :: "string \<Rightarrow> string option" where
  "quoted_rest [] = None"
| "quoted_rest (c # cs) =
    (if c = CHR 34 then Some cs
     else if c = CHR 92 then (case cs of [] \<Rightarrow> None | _ # ds \<Rightarrow> quoted_rest ds)
     else quoted_rest cs)"

definition skip_whitespace :: "string \<Rightarrow> string" where
  "skip_whitespace = dropWhile is_whitespace"

text \<open>An extension (after its semicolon): None is invalid, otherwise what follows it and whether another semicolon is there.\<close>

definition chunk_extension :: "string \<Rightarrow> (string \<times> bool) option" where
  "chunk_extension str =
    (let start = skip_whitespace str in
     if \<not> is_tchar (at_front start) then None
     else let after = dropWhile is_tchar start; spaced = is_whitespace (at_front after); rest = skip_whitespace after in
       if at_front rest = CHR '';'' then Some (rest, True)
       else if at_front rest \<noteq> CHR ''='' then (if spaced then None else Some (rest, False))
       else let item = skip_whitespace (tl rest) in
         if at_front item \<noteq> CHR 34 then
           (if \<not> is_tchar (at_front item) then None else Some (dropWhile is_tchar item, False))
         else map_option (\<lambda>r. (r, False)) (quoted_rest (tl item)))"

lemma quoted_rest_length: "quoted_rest str = Some r \<Longrightarrow> length r < length str"
  by (induction str rule: quoted_rest.induct) (fastforce split: if_splits list.splits)+

lemma skip_whitespace_length: "length (skip_whitespace str) \<le> length str"
  by (simp add: skip_whitespace_def length_dropWhile_le)

lemma chunk_extension_length:
  assumes "chunk_extension str = Some (rest, again)"
  shows "length rest < length str"
proof -
  let ?start = "skip_whitespace str"
  let ?rest = "skip_whitespace (dropWhile is_tchar ?start)"
  let ?item = "skip_whitespace (tl ?rest)"
  have tchar: "is_tchar (at_front ?start)" using assms by (auto simp: chunk_extension_def Let_def split: if_splits)
  have "\<not> is_tchar CR" by code_simp
  with tchar obtain c cs where start: "?start = c # cs" "is_tchar c" by (cases ?start) auto
  have after: "length (dropWhile is_tchar ?start) < length str"
    using start skip_whitespace_length [of str] length_dropWhile_le [of is_tchar cs] by simp
  then have rest: "length ?rest < length str" using skip_whitespace_length order_le_less_trans by blast
  moreover have item: "length ?item \<le> length ?rest"
    using skip_whitespace_length [of "tl ?rest"] by (simp add: le_diff_conv order_trans)
  moreover have "length (dropWhile is_tchar ?item) \<le> length ?item" by (rule length_dropWhile_le)
  moreover have "quoted_rest (tl ?item) = Some r \<Longrightarrow> length r \<le> length ?item" for r
    using quoted_rest_length [of "tl ?item" r] by (simp add: less_imp_le order_less_le_trans)
  ultimately show ?thesis using assms by (fastforce simp: chunk_extension_def Let_def split: if_splits)
qed

function valid_chunk_extensions :: "string \<Rightarrow> bool" and more_chunk_extensions :: "string \<Rightarrow> bool" where
  "valid_chunk_extensions str =
    (if \<not> is_whitespace (at_front str) \<and> at_front str \<noteq> CHR '';'' then str = []
     else let rest = skip_whitespace str in
       if at_front rest \<noteq> CHR '';'' then False else more_chunk_extensions (tl rest))"
| "more_chunk_extensions str =
    (case chunk_extension str of None \<Rightarrow> False
     | Some (rest, True) \<Rightarrow> more_chunk_extensions (tl rest)
     | Some (rest, False) \<Rightarrow> valid_chunk_extensions rest)"
  by pat_completeness auto
termination
proof (relation "measure (case_sum length length)", simp)
  fix str rest :: string
  assume "rest = skip_whitespace str" and front: "\<not> at_front rest \<noteq> CHR '';''"
  then have "length rest \<le> length str" using skip_whitespace_length by simp
  moreover from front have "rest \<noteq> []" by auto
  ultimately show "(Inr (tl rest), Inl str) \<in> measure (case_sum length length)" by (cases rest) auto
next
  fix str a and rest :: string and b
  assume "chunk_extension str = Some a" "(rest, b) = a"
  then have "length rest < length str" using chunk_extension_length by metis
  then show "(Inr (tl rest), Inr str) \<in> measure (case_sum length length)"
    and "(Inl rest, Inr str) \<in> measure (case_sum length length)" by simp_all
qed

declare valid_chunk_extensions.simps [simp del] more_chunk_extensions.simps [simp del]

text \<open>The line without its end, and the text that follows.\<close>

fun find_chunk_line :: "string \<Rightarrow> http_error_t + string \<times> string" where
  "find_chunk_line [] = Inl http_need_more"
| "find_chunk_line (c # cs) =
    (if c \<noteq> CR then (case find_chunk_line cs of Inl e \<Rightarrow> Inl e | Inr (line, rest) \<Rightarrow> Inr (c # line, rest))
     else case cs of [] \<Rightarrow> Inl http_need_more
       | d # rest \<Rightarrow> if d \<noteq> LF then Inl http_bad_line_ending else Inr ([], rest))"

section \<open>Consumption\<close>

lemma field_lines_line:
  assumes "dropWhile is_whitespace str \<noteq> []" "find_line (dropWhile is_whitespace str) = Inr (line, rest)" "rest \<noteq> []"
  shows "field_lines val str = (if is_whitespace (hd rest) then field_lines (fold_value val (trim_back line)) (tl rest)
    else Inr (fold_value val (trim_back line), rest))"
  using assms by (subst field_lines.simps) (simp only: Let_def if_False sum.case prod.case)

lemma field_lines_success:
  assumes "field_lines val str = Inr (v, rest)"
  obtains line tail where "dropWhile is_whitespace str \<noteq> []" "find_line (dropWhile is_whitespace str) = Inr (line, tail)" "tail \<noteq> []"
  using assms by (subst (asm) field_lines.simps) (auto simp: Let_def split: if_splits sum.splits option.splits)

lemma field_lines_shorter: "field_lines val str = Inr (v, rest) \<Longrightarrow> length rest < length str"
proof (induction val str rule: field_lines.induct)
  case (1 val str)
  from field_lines_success [OF "1.prems"] obtain line tail
    where line: "dropWhile is_whitespace str \<noteq> []" "find_line (dropWhile is_whitespace str) = Inr (line, tail)" "tail \<noteq> []" .
  then have short: "length tail < length str" using find_line_shorter length_dropWhile_le by (metis order_less_le_trans)
  show ?case
  proof (cases "is_whitespace (hd tail)")
    case True
    with "1.prems" have "field_lines (fold_value val (trim_back line)) (tl tail) = Inr (v, rest)"
      using field_lines_line [OF line] by simp
    from "1.IH" [OF refl line(1,2) refl line(3) True this] short show ?thesis by simp
  next
    case False
    with "1.prems" short show ?thesis using field_lines_line [OF line] by simp
  qed
qed

lemma parse_field_shorter:
  "parse_field ops retain fs frame str = (rest, ended, frame1, fs1, None) \<Longrightarrow> length rest < length str"
proof -
  assume parsed: "parse_field ops retain fs frame str = (rest, ended, frame1, fs1, None)"
  have "length rest < length str" if "dropWhile is_tchar str = c # tail" "field_lines [] tail = Inr (v, rest)" for c tail v
    using field_lines_shorter [OF that(2)] length_dropWhile_le [of is_tchar str] that(1) by simp
  with parsed show ?thesis
    by (auto simp: parse_field_def Let_def split: if_splits list.splits sum.splits prod.splits)
qed

section \<open>Extension\<close>

text \<open>
  What is parsed from the front of a text, or found to be wrong with it, does not depend on the text that
  follows; only \<open>need_more\<close> does.
\<close>

lemma dropWhile_extend:
  assumes "dropWhile P str = c # rest"
  shows "dropWhile P (str @ x) = c # rest @ x" "takeWhile P (str @ x) = takeWhile P str"
proof -
  have "\<exists>y\<in>set str. \<not> P y" using assms by (metis dropWhile_eq_Nil_conv list.distinct(1))
  then show "dropWhile P (str @ x) = c # rest @ x" "takeWhile P (str @ x) = takeWhile P str"
    using assms by (auto simp: dropWhile_append1)
qed

lemma find_line_append:
  "find_line str \<noteq> Inl (Some http_need_more) \<Longrightarrow>
   find_line (str @ x) = map_sum id (\<lambda>(line, rest). (line, rest @ x)) (find_line str)"
proof (induction str)
  case (Cons c cs)
  show ?case
  proof (cases "is_control_char c")
    case True
    with Cons.prems show ?thesis by (cases cs) auto
  next
    case False
    with Cons.prems have "find_line cs \<noteq> Inl (Some http_need_more)" by auto
    from Cons.IH [OF this] False show ?thesis by (auto split: sum.splits)
  qed
qed simp

lemma find_line_extend:
  "find_line str = Inr (line, rest) \<Longrightarrow> find_line (str @ x) = Inr (line, rest @ x)"
  "find_line str = Inl e \<Longrightarrow> e \<noteq> Some http_need_more \<Longrightarrow> find_line (str @ x) = Inl e"
  using find_line_append [of str x] by simp_all

lemma parse_version_long:
  "8 \<le> length str \<Longrightarrow> parse_version (str @ x) = map_sum id (\<lambda>(v, rest). (v, rest @ x)) (parse_version str)"
  by (simp add: parse_version_def Let_def nth_append)

lemma parse_version_extend:
  assumes "parse_version str \<noteq> Inl http_need_more"
  shows "parse_version (str @ x) = map_sum id (\<lambda>(v, rest). (v, rest @ x)) (parse_version str)"
proof (rule parse_version_long)
  show "8 \<le> length str" using assms by (rule contrapos_np) (simp add: parse_version_def)
qed

lemma parse_request_line_Cons:
  assumes "dropWhile is_tchar str = c # rest"
  shows "parse_request_line str out =
    (if c \<noteq> CHR '' '' \<or> takeWhile is_tchar str = [] then Inl http_bad_method
     else (case dropWhile is_target_char rest of [] \<Rightarrow> Inl http_need_more
       | d # rest1 \<Rightarrow>
         if d \<noteq> CHR '' '' \<or> takeWhile is_target_char rest = [] then Inl http_bad_target
         else (case parse_version rest1 of Inl e \<Rightarrow> Inl e
           | Inr (v, rest2) \<Rightarrow>
             if length rest2 < 2 then Inl http_need_more
             else if rest2 ! 0 \<noteq> CR \<or> rest2 ! 1 \<noteq> LF then Inl http_bad_version
             else Inr ((set_method_string (takeWhile is_tchar str) out)\<lparr>
                 request_target := takeWhile is_target_char rest, version := v\<rparr>, drop 2 rest2))))"
  by (simp add: parse_request_line_def assms)

lemma parse_request_line_extend:
  assumes "parse_request_line str h \<noteq> Inl http_need_more"
  shows "parse_request_line (str @ x) h = map_sum id (\<lambda>(h1, rest). (h1, rest @ x)) (parse_request_line str h)"
proof (cases "dropWhile is_tchar str")
  case Nil
  with assms show ?thesis by (simp add: parse_request_line_def)
next
  case (Cons c rest)
  note line = parse_request_line_Cons [OF this] parse_request_line_Cons [OF dropWhile_extend(1) [OF this, of x]]
    and dropWhile_extend(2) [OF this, simp]
  show ?thesis
  proof (cases "c \<noteq> CHR '' '' \<or> takeWhile is_tchar str = []")
    case True
    then show ?thesis by (auto simp: line)
  next
    case False
    with assms obtain d rest1 where rest1: "dropWhile is_target_char rest = d # rest1"
      by (cases "dropWhile is_target_char rest") (simp_all add: line(1) del: dropWhile_eq_Nil_conv)
    note target = rest1 dropWhile_extend [OF rest1, of x]
    show ?thesis
    proof (cases "d \<noteq> CHR '' '' \<or> takeWhile is_target_char rest = []")
      case True
      with False show ?thesis by (auto simp: line target)
    next
      case False2: False
      with False assms have "parse_version rest1 \<noteq> Inl http_need_more" by (auto simp: line target)
      from parse_version_extend [OF this, of x] False False2 assms show ?thesis
        by (cases "parse_version rest1") (auto simp: line target nth_append split: if_splits)
    qed
  qed
qed

lemma parse_status_line_extend:
  assumes "parse_status_line str h \<noteq> Inl http_need_more"
  shows "parse_status_line (str @ x) h = map_sum id (\<lambda>(h1, rest). (h1, rest @ x)) (parse_status_line str h)"
proof (cases "parse_version str")
  case (Inl e)
  with assms parse_version_extend [of str x] show ?thesis by (auto simp: parse_status_line_def)
next
  case (Inr w)
  then obtain v rest where version: "parse_version str = Inr (v, rest)" by (cases w) auto
  have version2: "parse_version (str @ x) = Inr (v, rest @ x)" using parse_version_extend [of str x] version by simp
  note line = parse_status_line_def version version2
  show ?thesis
  proof (cases rest)
    case Nil
    with assms show ?thesis by (simp add: line)
  next
    case (Cons c rest1)
    show ?thesis
    proof (cases "find_line (drop 4 rest1)")
      case (Inl e)
      with assms Cons find_line_extend(2) [OF this, of x] show ?thesis
        by (cases e) (auto simp: line Let_def nth_append)
    next
      case (Inr u)
      then obtain l r where "find_line (drop 4 rest1) = Inr (l, r)" by (cases u) auto
      with assms Cons find_line_extend(1) [OF this, of x] show ?thesis
        by (auto simp: line Let_def nth_append)
    qed
  qed
qed

lemma field_lines_extend:
  assumes "field_lines val str \<noteq> Inl http_need_more"
  shows "field_lines val (str @ x) = map_sum id (\<lambda>(v, rest). (v, rest @ x)) (field_lines val str)"
  using assms
proof (induction val str rule: field_lines.induct)
  case (1 val str)
  show ?case
  proof (cases "dropWhile is_whitespace str")
    case Nil
    with "1.prems" show ?thesis by (subst (asm) field_lines.simps) simp
  next
    case (Cons c cs)
    note start = dropWhile_extend(1) [OF Cons, of x]
    show ?thesis
    proof (cases "find_line (c # cs)")
      case (Inl e)
      with "1.prems" Cons have "e \<noteq> Some http_need_more" by (subst (asm) field_lines.simps) auto
      from find_line_extend(2) [OF Inl this, of x] Inl Cons start show ?thesis
        by (subst (1 2) field_lines.simps) (simp add: Let_def split: option.splits)
    next
      case (Inr w)
      then obtain line rest where line: "find_line (c # cs) = Inr (line, rest)" by (cases w) auto
      with "1.prems" Cons have rest: "rest \<noteq> []" by (subst (asm) field_lines.simps) (auto simp: Let_def)
      have step: "field_lines val str = (if is_whitespace (hd rest) then field_lines (fold_value val (trim_back line)) (tl rest)
          else Inr (fold_value val (trim_back line), rest))"
        using field_lines_line [of str line rest val] Cons line rest by simp
      have extended: "field_lines val (str @ x) = (if is_whitespace (hd rest) then field_lines (fold_value val (trim_back line)) (tl rest @ x)
          else Inr (fold_value val (trim_back line), rest @ x))"
        using field_lines_line [of "str @ x" line "rest @ x" val] start find_line_extend(1) [OF line, of x] rest by simp
      show ?thesis
      proof (cases "is_whitespace (hd rest)")
        case True
        from "1.IH" [OF refl, of "(line, rest)" line rest] Cons line rest True "1.prems" step extended show ?thesis by simp
      qed (simp add: step extended)
    qed
  qed
qed

lemma frame_lengths_code: "snd (frame_lengths items frame) \<noteq> Some http_need_more"
  by (induction items arbitrary: frame) (auto split: option.splits prod.splits list.splits)

lemma frame_field_code: "snd (frame_field ops frame name val) \<noteq> Some http_need_more"
  by (simp add: frame_field_def frame_lengths_code Let_def split: prod.splits)

lemma parse_field_need_more:
  "parse_field ops retain fs frame str = (rest, ended, frame1, fs1, Some http_need_more) \<Longrightarrow>
   rest = str \<and> \<not> ended \<and> frame1 = frame \<and> fs1 = fs"
  using frame_field_code [of ops frame]
  by (auto simp: parse_field_def Let_def split: if_splits list.splits sum.splits prod.splits) (metis snd_conv)+

lemma parse_field_name:
  assumes "\<not> length str < 2" "hd str \<noteq> CR" "dropWhile is_tchar str = c # rest"
  shows "parse_field ops retain fs frame str =
    (if c \<noteq> CHR '':'' \<or> takeWhile is_tchar str = [] then (str, False, frame, fs, Some http_bad_field)
     else (case field_lines [] rest of Inl e \<Rightarrow> (str, False, frame, fs, Some e)
       | Inr (val, rest1) \<Rightarrow>
         (case frame_field ops frame (field_of_name (takeWhile is_tchar str)) val of (frame1, ec) \<Rightarrow>
           if ec \<noteq> None then (str, False, frame1, fs, ec)
           else (rest1, False, frame1, if retain then fields_insert (takeWhile is_tchar str) val fs else fs, None))))"
  using assms by (simp add: parse_field_def Let_def split: sum.splits prod.splits)

lemma parse_field_extend:
  assumes "parse_field ops retain fs frame str = (rest, ended, frame1, fs1, ec)" "ec \<noteq> Some http_need_more"
  shows "parse_field ops retain fs frame (str @ x) = (rest @ x, ended, frame1, fs1, ec)"
proof -
  from assms have len: "\<not> length str < 2" by (auto simp: parse_field_def)
  then have str: "str \<noteq> []" by auto
  show ?thesis
  proof (cases "hd str = CR")
    case True
    with assms len str show ?thesis by (auto simp: parse_field_def nth_append)
  next
    case False
    show ?thesis
    proof (cases "dropWhile is_tchar str")
      case Nil
      with assms len False show ?thesis by (simp add: parse_field_def)
    next
      case (Cons c tail)
      note field = parse_field_name [OF len False Cons]
      have len2: "\<not> length (str @ x) < 2" and hd2: "hd (str @ x) \<noteq> CR" using len False str by auto
      note field2 = parse_field_name [OF len2 hd2 dropWhile_extend(1) [OF Cons]] dropWhile_extend(2) [OF Cons]
      show ?thesis
      proof (cases "c \<noteq> CHR '':'' \<or> takeWhile is_tchar str = []")
        case True
        with assms show ?thesis unfolding field field2 by auto
      next
        case False2: False
        with assms have "field_lines [] tail \<noteq> Inl http_need_more" by (auto simp: field)
        from field_lines_extend [OF this, of x] False2 assms show ?thesis unfolding field field2
          by (cases "field_lines [] tail") (auto split: prod.splits if_splits)
      qed
    qed
  qed
qed

end
