(* ===== verification/Http_Machine.thy ===== *)
theory Http_Machine
  imports Http_Parser
begin

text \<open>
  The incremental parser of http messages (\<open>src/include/bitcoin/network/impl/messages/http/parser.ipp\<close>): a state machine
  that consumes received bytes. The start line, each field, each chunk line and each trailer field are
  consumed once complete, and body data as it arrives.
\<close>

section \<open>The parser\<close>

text \<open>
  The reader of a message body (\<open>Body::reader\<close>): a parameter of the parser. A code is clear, of the http
  category, or another one.
\<close>

datatype body_code = Http http_error_t | Code error_t

type_synonym parse_code = "body_code option"

record ('h, 'b) reader_ops =
  reader_init :: "'h \<Rightarrow> nat option \<Rightarrow> 'b \<Rightarrow> 'b \<times> parse_code"
  reader_put :: "string \<Rightarrow> 'b \<Rightarrow> 'b \<times> nat \<times> parse_code"
  reader_finish :: "'b \<Rightarrow> 'b \<times> parse_code"

text \<open>What the parser of requests and that of responses do not share.\<close>

record 'h message_kind =
  is_request :: bool
  start_line :: "string \<Rightarrow> 'h \<Rightarrow> http_error_t + 'h \<times> string"
  kind_bodiless :: "'h \<Rightarrow> bool"
  kind_load :: "'h \<Rightarrow> fields"
  kind_store :: "fields \<Rightarrow> 'h \<Rightarrow> 'h"

definition request_kind :: "request_header message_kind" where
  "request_kind = \<lparr>is_request = True, start_line = parse_request_line, kind_bodiless = \<lambda>_. False,
     kind_load = header_fields, kind_store = \<lambda>fs h. h\<lparr>header_fields := fs\<rparr>\<rparr>"

definition response_kind :: "response_header message_kind" where
  "response_kind = \<lparr>is_request = False, start_line = parse_status_line, kind_bodiless = bodiless,
     kind_load = header_fields, kind_store = \<lambda>fs h. h\<lparr>header_fields := fs\<rparr>\<rparr>"

datatype parse_state = Start_line | Fields | Body_length | Body_to_eof | Chunk_header | Chunk_body | Trailer | Done

record ('h, 'b) parser =
  pr_message :: 'h
  pr_body :: 'b
  header_limit :: nat
  body_limit :: nat
  pr_frame :: message_framing
  pr_state :: parse_state
  pr_header :: nat
  pr_remaining :: nat
  pr_total :: nat
  expect_crlf :: bool
  pr_skip :: bool
  pr_received :: bool

definition parser_init :: "'h \<Rightarrow> 'b \<Rightarrow> ('h, 'b) parser" where
  "parser_init message body = \<lparr>pr_message = message, pr_body = body, header_limit = 0, body_limit = 0,
     pr_frame = framing_init, pr_state = Start_line, pr_header = 0, pr_remaining = 0, pr_total = 0,
     expect_crlf = False, pr_skip = False, pr_received = False\<rparr>"

record ('h, 'b) parse_ops =
  text_ops :: http_ops
  kind :: "'h message_kind"
  reader :: "('h, 'b) reader_ops"

type_synonym ('h, 'b) put_result = "('h, 'b) parser \<times> nat \<times> parse_code"

definition http_code_of :: "http_code \<Rightarrow> parse_code" where
  "http_code_of = map_option Http"

definition window_size :: "('h, 'b) parser \<Rightarrow> nat" where
  "window_size p = header_limit p - min (header_limit p) (pr_header p)"

definition header_window :: "('h, 'b) parser \<Rightarrow> string \<Rightarrow> string" where
  "header_window p data = (if header_limit p = 0 then data else take (window_size p) data)"

definition header_limited :: "('h, 'b) parser \<Rightarrow> string \<Rightarrow> http_code \<Rightarrow> http_code" where
  "header_limited p data ec =
    (if ec = Some http_need_more \<and> header_limit p \<noteq> 0 \<and> window_size p \<le> length data
     then Some http_header_limit else ec)"

definition finish_parser :: "('h, 'b) parse_ops \<Rightarrow> ('h, 'b) parser \<Rightarrow> ('h, 'b) parser \<times> parse_code" where
  "finish_parser ops p =
    (let (body, ec) = reader_finish (reader ops) (pr_body p) in (p\<lparr>pr_body := body, pr_state := Done\<rparr>, ec))"

definition init_reader :: "('h, 'b) parse_ops \<Rightarrow> nat option \<Rightarrow> ('h, 'b) parser \<Rightarrow> ('h, 'b) parser \<times> parse_code" where
  "init_reader ops len p =
    (let (body, ec) = reader_init (reader ops) (pr_message p) len (pr_body p) in (p\<lparr>pr_body := body\<rparr>, ec))"

definition put_start_line :: "('h, 'b) parse_ops \<Rightarrow> string \<Rightarrow> ('h, 'b) parser \<Rightarrow> ('h, 'b) put_result" where
  "put_start_line ops data p =
    (if data = [] then (p, 0, None)
     else (case start_line (kind ops) (header_window p data) (pr_message p) of
         Inl e \<Rightarrow> (p, 0, http_code_of (header_limited p data (Some e)))
       | Inr (message, rest) \<Rightarrow>
           let used = length (header_window p data) - length rest
           in (p\<lparr>pr_message := message, pr_header := pr_header p + used, pr_state := Fields\<rparr>, used, None)))"

definition finish_header :: "('h, 'b) parse_ops \<Rightarrow> ('h, 'b) parser \<Rightarrow> ('h, 'b) parser \<times> parse_code" where
  "finish_header ops p =
    (if pr_skip p \<or> \<not> is_request (kind ops) \<and> kind_bodiless (kind ops) (pr_message p) then finish_parser ops p
     else (case frame_length (pr_frame p) of
         Some len \<Rightarrow>
           let p1 = p\<lparr>pr_remaining := len\<rparr> in
           if len = 0 then finish_parser ops p1
           else if body_limit p \<noteq> 0 \<and> body_limit p < len then (p1, Some (Http http_body_limit))
           else init_reader ops (Some len) (p1\<lparr>pr_state := Body_length\<rparr>)
       | None \<Rightarrow>
           if frame_chunked (pr_frame p) then init_reader ops None (p\<lparr>pr_state := Chunk_header\<rparr>)
           else if frame_encoded (pr_frame p) then
             (if is_request (kind ops) then (p, Some (Http http_bad_transfer_encoding))
              else init_reader ops None (p\<lparr>pr_state := Body_to_eof\<rparr>))
           else if is_request (kind ops) then finish_parser ops p
           else init_reader ops None (p\<lparr>pr_state := Body_to_eof\<rparr>)))"

definition update_fields :: "('h, 'b) parse_ops \<Rightarrow> message_framing \<Rightarrow> fields \<Rightarrow> ('h, 'b) parser \<Rightarrow> ('h, 'b) parser" where
  "update_fields ops frame fs p = p\<lparr>pr_message := kind_store (kind ops) fs (pr_message p), pr_frame := frame\<rparr>"

text \<open>The loop of \<open>put_fields\<close> and \<open>put_trailer\<close>: the parser, the size consumed, and the code.\<close>

lemma header_window_length: "length (header_window p data) \<le> length data"
  by (simp add: header_window_def)

function put_field_loop :: "('h, 'b) parse_ops \<Rightarrow> bool \<Rightarrow> string \<Rightarrow> ('h, 'b) parser \<Rightarrow> nat \<Rightarrow>
    ('h, 'b) parser \<times> nat \<times> http_code" where
  "put_field_loop ops retain data p used =
    (case parse_field (text_ops ops) retain (kind_load (kind ops) (pr_message p)) (pr_frame p) (header_window p data) of
       (rest, ended, frame, fs, ec) \<Rightarrow>
         if header_limited p data ec \<noteq> None then (update_fields ops frame fs p, used, header_limited p data ec)
         else let step = length (header_window p data) - length rest;
                  p1 = (update_fields ops frame fs p)\<lparr>pr_header := pr_header p + step\<rparr>
           in if ended then (p1, used + step, None)
              else put_field_loop ops retain (drop step data) p1 (used + step))"
  by pat_completeness auto
termination
proof (relation "measure (\<lambda>(_, _, data, _, _). length data)", simp)
  fix ops :: "('h, 'b) parse_ops" and retain data p used rest y ended z frame w fs ec step p1
  assume parsed: "(rest, y) = parse_field (text_ops ops) retain (kind_load (kind ops) (pr_message p)) (pr_frame p) (header_window p data)"
    "(ended, z) = y" "(frame, w) = z" "(fs, ec) = w" and none: "\<not> header_limited p data ec \<noteq> None"
    and step: "step = length (header_window p data) - length rest"
  from none have "ec = None" by (auto simp: header_limited_def split: if_splits)
  with parsed have "length rest < length (header_window p data)" using parse_field_shorter by metis
  with step header_window_length [of p data] show "((ops, retain, drop step data, p1, used + step), ops, retain, data, p, used)
    \<in> measure (\<lambda>(_, _, data, _, _). length data)" by simp
qed

declare put_field_loop.simps [simp del]

definition put_fields :: "('h, 'b) parse_ops \<Rightarrow> string \<Rightarrow> ('h, 'b) parser \<Rightarrow> ('h, 'b) put_result" where
  "put_fields ops data p =
    (case put_field_loop ops True data p 0 of (p1, used, ec) \<Rightarrow>
       if ec \<noteq> None then (p1, used, http_code_of ec)
       else let (p2, ec2) = finish_header ops p1 in (p2, used, ec2))"

definition complete_body :: "('h, 'b) parse_ops \<Rightarrow> ('h, 'b) parser \<Rightarrow> ('h, 'b) parser \<times> parse_code" where
  "complete_body ops p = (if pr_state p = Chunk_body then (p\<lparr>pr_state := Chunk_header\<rparr>, None) else finish_parser ops p)"

definition put_body :: "('h, 'b) parse_ops \<Rightarrow> string \<Rightarrow> ('h, 'b) parser \<Rightarrow> ('h, 'b) put_result" where
  "put_body ops data p =
    (let delimited = (pr_state p \<noteq> Body_to_eof) in
     if delimited \<and> pr_remaining p = 0 then (let (p1, ec) = complete_body ops p in (p1, 0, ec))
     else let n = (if delimited then min (length data) (pr_remaining p) else length data) in
       if \<not> delimited \<and> body_limit p \<noteq> 0 \<and> body_limit p < pr_total p + n then (p, 0, Some (Http http_body_limit))
       else if n = 0 then (p, 0, None)
       else let (body, used, ec) = reader_put (reader ops) (take n data) (pr_body p);
                p1 = p\<lparr>pr_body := body, pr_total := pr_total p + used,
                  pr_remaining := (if delimited then pr_remaining p - used else pr_remaining p)\<rparr>
         in if ec = None \<and> delimited \<and> pr_remaining p1 = 0
            then (let (p2, ec2) = complete_body ops p1 in (p2, used, ec2))
            else (p1, used, ec))"

definition put_chunk_header :: "('h, 'b) parse_ops \<Rightarrow> string \<Rightarrow> ('h, 'b) parser \<Rightarrow> ('h, 'b) put_result" where
  "put_chunk_header ops data p =
    (if length data < 2 then (p, 0, None)
     else if expect_crlf p \<and> take 2 data \<noteq> [CR, LF] then (p, 0, Some (Http http_bad_chunk))
     else let index = (if expect_crlf p then 2 else 0) in
       (case find_chunk_line (drop index data) of
          Inl e \<Rightarrow>
            if e = http_need_more
            then (p, 0, if header_limit p \<noteq> 0 \<and> header_limit p \<le> length data then Some (Http http_bad_chunk_extension) else None)
            else (p, 0, Some (Http e))
        | Inr (line, rest) \<Rightarrow>
            (case parse_chunk_size line of Inl e \<Rightarrow> (p, 0, Some (Http e))
             | Inr (val, extensions) \<Rightarrow>
                 if body_limit p \<noteq> 0 \<and> body_limit p - min (body_limit p) (pr_total p) < val
                 then (p, 0, Some (Http http_body_limit))
                 else if \<not> valid_chunk_extensions extensions then (p, 0, Some (Http http_bad_chunk_extension))
                 else (p\<lparr>pr_remaining := val, expect_crlf := True,
                     pr_state := (if val = 0 then Trailer else Chunk_body),
                     pr_header := (if val = 0 then pr_header p - 2 else pr_header p)\<rparr>,
                   length data - length rest, None))))"

definition put_trailer :: "('h, 'b) parse_ops \<Rightarrow> string \<Rightarrow> ('h, 'b) parser \<Rightarrow> ('h, 'b) put_result" where
  "put_trailer ops data p =
    (case put_field_loop ops False data p 0 of (p1, used, ec) \<Rightarrow>
       if ec \<noteq> None then (p1, used, http_code_of ec)
       else let (p2, ec2) = finish_parser ops p1 in (p2, used, ec2))"

definition put_state :: "('h, 'b) parse_ops \<Rightarrow> string \<Rightarrow> ('h, 'b) parser \<Rightarrow> ('h, 'b) put_result" where
  "put_state ops data p =
    (case pr_state p of Start_line \<Rightarrow> put_start_line ops data p
     | Fields \<Rightarrow> put_fields ops data p
     | Body_length \<Rightarrow> put_body ops data p | Body_to_eof \<Rightarrow> put_body ops data p | Chunk_body \<Rightarrow> put_body ops data p
     | Chunk_header \<Rightarrow> put_chunk_header ops data p
     | Trailer \<Rightarrow> put_trailer ops data p
     | Done \<Rightarrow> (p, 0, None))"

text \<open>The loop of \<open>put\<close>, on fuel.\<close>

fun put_loop :: "nat \<Rightarrow> ('h, 'b) parse_ops \<Rightarrow> string \<Rightarrow> ('h, 'b) parser \<Rightarrow> nat \<Rightarrow> ('h, 'b) put_result option" where
  "put_loop 0 ops data p used = None"
| "put_loop (Suc fuel) ops data p used =
    (if pr_state p = Done then Some (p, used, None)
     else case put_state ops data p of (p1, step, ec) \<Rightarrow>
       if pr_state p = Fields \<and> ec = None \<and> pr_state p1 \<noteq> Fields then Some (p1, used + step, None)
       else if ec \<noteq> None then Some (p1, used + step, ec)
       else if step = 0 \<and> pr_state p1 = pr_state p then Some (p1, used, Some (Http http_need_more))
       else put_loop fuel ops (drop step data) p1 (used + step))"

definition put_parser :: "('h, 'b) parse_ops \<Rightarrow> string \<Rightarrow> ('h, 'b) parser \<Rightarrow> ('h, 'b) put_result option" where
  "put_parser ops data p = put_loop (2 * length data + 3) ops data (p\<lparr>pr_received := pr_received p \<or> data \<noteq> []\<rparr>) 0"

definition put_eof :: "('h, 'b) parse_ops \<Rightarrow> ('h, 'b) parser \<Rightarrow> ('h, 'b) parser \<times> parse_code" where
  "put_eof ops p =
    (if pr_state p = Body_to_eof then finish_parser ops p
     else if pr_state p = Done then (p, None)
     else (p, Some (Http (if pr_received p then http_partial_message else http_end_of_stream))))"

definition is_header_done :: "('h, 'b) parser \<Rightarrow> bool" where
  "is_header_done p \<longleftrightarrow> pr_state p \<noteq> Start_line \<and> pr_state p \<noteq> Fields"

definition is_done :: "('h, 'b) parser \<Rightarrow> bool" where
  "is_done p \<longleftrightarrow> pr_state p = Done"

section \<open>Contracts\<close>

text \<open>What the parser relies on of a kind of message, and of a body reader.\<close>

locale message_kind_laws =
  fixes k :: "'h message_kind"
  assumes start_extend: "start_line k str h \<noteq> Inl http_need_more \<Longrightarrow>
      start_line k (str @ x) h = map_sum id (\<lambda>(h1, rest). (h1, rest @ x)) (start_line k str h)"
    and start_shorter: "start_line k str h = Inr (h1, rest) \<Longrightarrow> length rest < length str"
    and load_store: "kind_load k (kind_store k fs h) = fs"
    and store_load: "kind_store k (kind_load k h) h = h"
    and store_store: "kind_store k fs (kind_store k gs h) = kind_store k fs h"

locale body_reader_laws =
  fixes r :: "('h, 'b) reader_ops"
  assumes put_within: "reader_put r data b = (b1, used, ec) \<Longrightarrow> used \<le> length data"

lemma parse_request_line_shorter: "parse_request_line str h = Inr (h1, rest) \<Longrightarrow> length rest < length str"
proof -
  assume parsed: "parse_request_line str h = Inr (h1, rest)"
  then obtain c r1 where r1: "dropWhile is_tchar str = c # r1" by (cases "dropWhile is_tchar str") (auto simp: parse_request_line_def)
  with parsed obtain d r2 where r2: "dropWhile is_target_char r1 = d # r2"
    by (cases "dropWhile is_target_char r1") (auto simp: parse_request_line_Cons simp del: dropWhile_eq_Nil_conv split: if_splits)
  with parsed r1 have "length rest \<le> length r2"
    by (auto simp: parse_request_line_Cons parse_version_def Let_def split: if_splits sum.splits)
  moreover have "length r2 < length r1" using length_dropWhile_le [of is_target_char r1] r2 by simp
  moreover have "length r1 < length str" using length_dropWhile_le [of is_tchar str] r1 by simp
  ultimately show ?thesis by simp
qed

lemma parse_version_shorter: "parse_version str = Inr (v, rest) \<Longrightarrow> length rest < length str"
  by (auto simp: parse_version_def Let_def split: if_splits)

lemma parse_status_line_shorter: "parse_status_line str h = Inr (h1, rest) \<Longrightarrow> length rest < length str"
  by (auto simp: parse_status_line_def Let_def dest!: find_line_shorter parse_version_shorter
      split: if_splits sum.splits list.splits option.splits)

interpretation request: message_kind_laws request_kind
  by unfold_locales (auto simp: request_kind_def parse_request_line_extend parse_request_line_shorter)

interpretation response: message_kind_laws response_kind
  by unfold_locales (auto simp: response_kind_def parse_status_line_extend parse_status_line_shorter)

text \<open>The readers of \<open>empty_body\<close> and \<open>contiguous_body\<close> (\<open>bodies.hpp\<close>), the latter with the greatest size of its container.\<close>

definition empty_reader :: "('h, unit) reader_ops" where
  "empty_reader = \<lparr>reader_init = \<lambda>_ _ b. (b, None),
     reader_put = \<lambda>data b. (b, 0, if data = [] then None else Some (Http http_unexpected_body)),
     reader_finish = \<lambda>b. (b, None)\<rparr>"

definition contiguous_reader :: "nat \<Rightarrow> ('h, string) reader_ops" where
  "contiguous_reader max_size = \<lparr>
     reader_init = \<lambda>_ len val. (case len of Some n \<Rightarrow> if max_size < n then (val, Some (Http http_buffer_overflow)) else ([], None)
       | None \<Rightarrow> ([], None)),
     reader_put = \<lambda>data val. (if max_size - length val < length data then (val, 0, Some (Http http_buffer_overflow))
       else (val @ data, length data, None)),
     reader_finish = \<lambda>val. (val, None)\<rparr>"

interpretation empty: body_reader_laws empty_reader
  by unfold_locales (simp add: empty_reader_def)

interpretation contiguous: body_reader_laws "contiguous_reader n" for n
  by unfold_locales (auto simp: contiguous_reader_def split: if_splits)

section \<open>Segmentation of the header\<close>

lemma window_extend:
  "\<exists>y. header_window p (data @ x) = header_window p data @ y \<and>
    (header_limit p \<noteq> 0 \<and> window_size p \<le> length data \<longrightarrow> y = [])"
  by (cases "header_limit p = 0") (auto simp: header_window_def take_append)

lemma header_limited_failed: "header_limited p data (Some e) \<noteq> None"
  by (simp add: header_limited_def)

lemma header_limited_simps:
  "header_limited p data None = None"
  "e \<noteq> http_need_more \<Longrightarrow> header_limited p data (Some e) = Some e"
  "header_limited p data ec \<noteq> Some http_need_more \<Longrightarrow> header_limited p (data @ x) ec = header_limited p data ec"
  by (auto simp: header_limited_def split: if_splits)

lemma put_field_loop_parse:
  assumes "parse_field (text_ops ops) retain (kind_load (kind ops) (pr_message p)) (pr_frame p) (header_window p data) =
    (rest, ended, frame, fs, ec)"
  shows "put_field_loop ops retain data p used =
    (if header_limited p data ec \<noteq> None then (update_fields ops frame fs p, used, header_limited p data ec)
     else let step = length (header_window p data) - length rest;
              p1 = (update_fields ops frame fs p)\<lparr>pr_header := pr_header p + step\<rparr>
       in if ended then (p1, used + step, None)
          else put_field_loop ops retain (drop step data) p1 (used + step))"
  using assms by (subst put_field_loop.simps) simp

text \<open>What is parsed of an extended text, when the text alone is not what decides.\<close>

lemma parse_window_extend:
  assumes "parse_field ops retain fs frame (header_window p data) = (rest, ended, frame1, fs1, ec)"
    "header_limited p data ec \<noteq> Some http_need_more"
  obtains y where "header_window p (data @ x) = header_window p data @ y"
    "parse_field ops retain fs frame (header_window p (data @ x)) = (rest @ y, ended, frame1, fs1, ec)"
proof -
  obtain y where y: "header_window p (data @ x) = header_window p data @ y"
    "header_limit p \<noteq> 0 \<and> window_size p \<le> length data \<longrightarrow> y = []" using window_extend by blast
  have "parse_field ops retain fs frame (header_window p data @ y) = (rest @ y, ended, frame1, fs1, ec)"
  proof (cases "ec = Some http_need_more")
    case True
    with assms(2) have "y = []" using y(2) by (auto simp: header_limited_def split: if_splits)
    with assms(1) show ?thesis by simp
  qed (rule parse_field_extend [OF assms(1)])
  with y(1) that show ?thesis by simp
qed

lemma put_field_loop_within:
  "put_field_loop ops retain data p used = (p1, u, ec) \<Longrightarrow> used \<le> u \<and> u \<le> used + length data \<and> pr_state p1 = pr_state p \<and>
     pr_received p1 = pr_received p \<and> (ec = None \<longrightarrow> used < u)"
proof (induction "length data" arbitrary: data p used rule: less_induct)
  case less
  obtain rest ended frame fs ec0 where parsed: "parse_field (text_ops ops) retain (kind_load (kind ops) (pr_message p)) (pr_frame p)
    (header_window p data) = (rest, ended, frame, fs, ec0)" by (metis surj_pair)
  define step where "step = length (header_window p data) - length rest"
  note loop = put_field_loop_parse [OF parsed, folded step_def]
  show ?case
  proof (cases "ec0 = None")
    case False
    then have "header_limited p data ec0 \<noteq> None" by (auto simp: header_limited_def)
    with less.prems show ?thesis by (auto simp: loop update_fields_def)
  next
    case True
    with parsed have "length rest < length (header_window p data)" using parse_field_shorter by metis
    then have step: "0 < step" "step \<le> length data" using header_window_length [of p data] by (simp_all add: step_def)
    show ?thesis
    proof (cases ended)
      case True
      with less.prems step \<open>ec0 = None\<close> show ?thesis by (auto simp: loop update_fields_def header_limited_simps Let_def)
    next
      case False
      let ?p = "(update_fields ops frame fs p)\<lparr>pr_header := pr_header p + step\<rparr>"
      from False less.prems \<open>ec0 = None\<close> have rec: "put_field_loop ops retain (drop step data)
          ?p (used + step) = (p1, u, ec)"
        by (simp add: loop header_limited_simps Let_def)
      have state: "pr_state ?p = pr_state p" "pr_received ?p = pr_received p" by (simp_all add: update_fields_def)
      have "length (drop step data) < length data" using step by simp
      from less.hyps [OF this rec] step state show ?thesis by simp
    qed
  qed
qed

lemma put_field_loop_extend:
  assumes "put_field_loop ops retain data p used = (p1, u, ec)" "message_kind_laws (kind ops)"
  shows "put_field_loop ops retain (data @ x) p used =
    (if ec = Some http_need_more then put_field_loop ops retain (drop (u - used) data @ x) p1 u else (p1, u, ec))"
  using assms(1)
proof (induction "length data" arbitrary: data p used rule: less_induct)
  case less
  obtain rest ended frame fs ec0 where parsed: "parse_field (text_ops ops) retain (kind_load (kind ops) (pr_message p)) (pr_frame p)
    (header_window p data) = (rest, ended, frame, fs, ec0)" by (metis surj_pair)
  define step where "step = length (header_window p data) - length rest"
  note loop = put_field_loop_parse [OF parsed, folded step_def]
  show ?case
  proof (cases "header_limited p data ec0 = Some http_need_more")
    case True
    then have "ec0 = Some http_need_more" by (auto simp: header_limited_def split: if_splits)
    with parsed have "frame = pr_frame p" "fs = kind_load (kind ops) (pr_message p)"
      using parse_field_need_more by metis+
    then have "update_fields ops frame fs p = p"
      by (simp add: update_fields_def message_kind_laws.store_load [OF assms(2)])
    with True less.prems show ?thesis by (auto simp: loop)
  next
    case False
    obtain y where y: "header_window p (data @ x) = header_window p data @ y"
      "parse_field (text_ops ops) retain (kind_load (kind ops) (pr_message p)) (pr_frame p) (header_window p (data @ x)) =
        (rest @ y, ended, frame, fs, ec0)" by (rule parse_window_extend [OF parsed False])
    note loop2 = put_field_loop_parse [OF y(2)] and limited = header_limited_simps(3) [OF False, of x]
    have same: "length (header_window p (data @ x)) - length (rest @ y) = step" using y(1) by (simp add: step_def)
    show ?thesis
    proof (cases "ec0 = None \<and> \<not> ended")
      case True
      with parsed have "length rest < length (header_window p data)" using parse_field_shorter by metis
      then have step: "0 < step" "step \<le> length data" using header_window_length [of p data] by (simp_all add: step_def)
      let ?p = "(update_fields ops frame fs p)\<lparr>pr_header := pr_header p + step\<rparr>"
      from True less.prems have rec: "put_field_loop ops retain (drop step data) ?p (used + step) = (p1, u, ec)"
        by (simp add: loop header_limited_simps Let_def)
      have "length (drop step data) < length data" using step by simp
      from less.hyps [OF this rec] step True put_field_loop_within [OF rec] show ?thesis
        unfolding loop2 same limited by (simp add: header_limited_simps Let_def)
    next
      case ended: False
      then have "header_limited p data ec0 \<noteq> None \<or> ended" by (auto simp: header_limited_def)
      with less.prems False show ?thesis unfolding loop2 same limited by (auto simp: loop Let_def header_limited_simps)
    qed
  qed
qed

lemma put_field_loop_offset:
  "put_field_loop ops retain data p (k + used) = (case put_field_loop ops retain data p used of (p1, u, ec) \<Rightarrow> (p1, k + u, ec))"
proof (induction "length data" arbitrary: data p used rule: less_induct)
  case less
  obtain rest ended frame fs ec0 where parsed: "parse_field (text_ops ops) retain (kind_load (kind ops) (pr_message p)) (pr_frame p)
    (header_window p data) = (rest, ended, frame, fs, ec0)" by (metis surj_pair)
  define step where "step = length (header_window p data) - length rest"
  note loop = put_field_loop_parse [OF parsed, folded step_def]
  show ?case
  proof (cases "header_limited p data ec0 = None \<and> \<not> ended")
    case True
    then have "ec0 = None" by (auto simp: header_limited_def split: if_splits)
    with parsed have "length rest < length (header_window p data)" using parse_field_shorter by metis
    then have "0 < step" "step \<le> length data" using header_window_length [of p data] by (simp_all add: step_def)
    then have "length (drop step data) < length data" by simp
    from less.hyps [OF this, of _ "used + step"] True show ?thesis unfolding loop by (simp add: Let_def add.assoc)
  qed (auto simp: loop Let_def)
qed

lemma finish_parser_state: "pr_state (fst (finish_parser ops p)) = Done"
  by (simp add: finish_parser_def split: prod.splits)

lemma init_reader_state: "pr_state (fst (init_reader ops len p)) = pr_state p"
  by (simp add: init_reader_def split: prod.splits)

lemma finish_header_state:
  assumes "pr_state p = Fields"
  shows "pr_state (fst (finish_header ops p)) \<noteq> Start_line"
    "pr_state (fst (finish_header ops p)) = Fields \<Longrightarrow>
      snd (finish_header ops p) \<in> {Some (Http http_body_limit), Some (Http http_bad_transfer_encoding)}"
  using assms by (auto simp: finish_header_def Let_def finish_parser_state init_reader_state split: if_splits option.splits)

text \<open>The header states of a put: the start line and the fields, or the fields.\<close>

definition put_head :: "('h, 'b) parse_ops \<Rightarrow> string \<Rightarrow> ('h, 'b) parser \<Rightarrow> ('h, 'b) put_result" where
  "put_head ops data p =
    (if pr_state p = Fields then put_fields ops data p
     else (case put_start_line ops data p of (p1, step, ec) \<Rightarrow>
       if ec \<noteq> None then (p1, step, ec)
       else if step = 0 then (p1, 0, Some (Http http_need_more))
       else (case put_fields ops (drop step data) p1 of (p2, u, ec2) \<Rightarrow> (p2, step + u, ec2))))"

lemma put_fields_ends:
  assumes "put_fields ops data p = (p1, u, None)" "pr_state p = Fields"
  shows "pr_state p1 \<noteq> Fields"
proof -
  from assms(1) obtain p0 where loop: "put_field_loop ops True data p 0 = (p0, u, None)" "finish_header ops p0 = (p1, None)"
    by (auto simp: put_fields_def http_code_of_def Let_def split: prod.splits if_splits)
  with put_field_loop_within have "pr_state p0 = Fields" using assms(2) by metis
  from finish_header_state(2) [OF this, of ops] loop(2) show ?thesis by auto
qed

lemma put_loop_head:
  assumes "\<not> is_header_done p" "message_kind_laws (kind ops)"
  shows "put_loop (Suc (Suc k)) ops data p used = Some (case put_head ops data p of (p1, u, ec) \<Rightarrow> (p1, used + u, ec))"
proof -
  have fields: "put_loop (Suc k) ops data p used = Some (case put_fields ops data p of (p1, u, ec) \<Rightarrow> (p1, used + u, ec))"
    if "pr_state p = Fields" for k data p used
    using that put_fields_ends [of ops data p] by (auto simp: put_state_def split: prod.splits)
  show ?thesis
  proof (cases "pr_state p = Fields")
    case True
    then show ?thesis using fields by (simp add: put_head_def)
  next
    case False
    with assms(1) have start: "pr_state p = Start_line" by (simp add: is_header_done_def)
    show ?thesis
    proof (cases "data = [] \<or> snd (snd (put_start_line ops data p)) \<noteq> None")
      case True
      then consider "data = []" | p1 u e where "put_start_line ops data p = (p1, u, Some e)"
        by (metis option.exhaust prod.collapse)
      then show ?thesis using start by cases (simp_all add: put_head_def put_state_def put_start_line_def [of ops "[]"])
    next
      case go: False
      then obtain message rest where "start_line (kind ops) (header_window p data) (pr_message p) = Inr (message, rest)"
        by (auto simp: put_start_line_def http_code_of_def header_limited_failed split: sum.splits)
      moreover from message_kind_laws.start_shorter [OF assms(2) this]
      have "0 < length (header_window p data) - length rest" by simp
      ultimately obtain p1 step where one: "put_start_line ops data p = (p1, step, None)" "0 < step" "pr_state p1 = Fields"
        using go by (auto simp: put_start_line_def Let_def)
      have "put_loop (Suc (Suc k)) ops data p used = put_loop (Suc k) ops (drop step data) p1 (used + step)"
        using start one by (simp add: put_state_def)
      with fields [OF one(3)] one start show ?thesis by (simp add: put_head_def add.assoc split: prod.splits)
    qed
  qed
qed

lemma http_code_of_need_more [simp]: "http_code_of ec = Some (Http e) \<longleftrightarrow> ec = Some e" "http_code_of ec = None \<longleftrightarrow> ec = None"
  by (auto simp: http_code_of_def)

lemma put_fields_extend:
  assumes "put_fields ops data p = (p1, u, ec)" "pr_state p = Fields" "message_kind_laws (kind ops)"
  shows "put_fields ops (data @ x) p =
      (if ec = Some (Http http_need_more) \<and> pr_state p1 = Fields
       then (case put_fields ops (drop u data @ x) p1 of (p2, v, ec2) \<Rightarrow> (p2, u + v, ec2)) else (p1, u, ec))"
    "u \<le> length data"
proof -
  obtain p0 u0 ec0 where loop: "put_field_loop ops True data p 0 = (p0, u0, ec0)" by (metis surj_pair)
  have within: "u0 \<le> length data" "pr_state p0 = Fields" using put_field_loop_within [OF loop] assms(2) by simp_all
  note extend = put_field_loop_extend [OF loop assms(3), of x]
  show "u \<le> length data" using assms(1) loop within by (auto simp: put_fields_def Let_def split: if_splits prod.splits)
  show "put_fields ops (data @ x) p =
      (if ec = Some (Http http_need_more) \<and> pr_state p1 = Fields
       then (case put_fields ops (drop u data @ x) p1 of (p2, v, ec2) \<Rightarrow> (p2, u + v, ec2)) else (p1, u, ec))"
  proof (cases "ec0 = Some http_need_more")
    case True
    with assms(1) loop have "p1 = p0" "u = u0" "ec = Some (Http http_need_more)" by (auto simp: put_fields_def http_code_of_def)
    with True extend within put_field_loop_offset [of ops True "drop u0 data @ x" p0 u0 0] show ?thesis
      by (simp add: put_fields_def split: prod.splits)
  next
    case False
    with extend have "put_field_loop ops True (data @ x) p 0 = put_field_loop ops True data p 0" by (simp add: loop)
    then have same: "put_fields ops (data @ x) p = (p1, u, ec)" using assms(1) by (simp add: put_fields_def)
    have decided: "\<not> (ec = Some (Http http_need_more) \<and> pr_state p1 = Fields)"
    proof (cases "ec0 = None")
      case True
      with assms(1) loop have "finish_header ops p0 = (p1, ec)" by (auto simp: put_fields_def Let_def split: prod.splits)
      with finish_header_state(2) [OF within(2), of ops] show ?thesis by auto
    next
      case none: False
      with assms(1) loop False show ?thesis by (auto simp: put_fields_def http_code_of_def)
    qed
    show ?thesis unfolding same by (simp only: decided if_False)
  qed
qed

lemma put_fields_state:
  assumes "put_fields ops data p = (p1, u, ec)" "pr_state p = Fields"
  shows "pr_state p1 \<noteq> Start_line"
proof -
  obtain p0 u0 ec0 where loop: "put_field_loop ops True data p 0 = (p0, u0, ec0)" by (metis surj_pair)
  have "pr_state p0 = Fields" using put_field_loop_within [OF loop] assms(2) by simp
  with assms(1) loop finish_header_state(1) [of p0 ops] show ?thesis
    by (auto simp: put_fields_def Let_def split: if_splits prod.splits)
qed

lemma put_start_line_extend:
  assumes "put_start_line ops data p = (p1, u, ec)" "data \<noteq> []" "message_kind_laws (kind ops)"
  shows "ec = Some (Http http_need_more) \<and> p1 = p \<and> u = 0 \<or>
    ec \<noteq> Some (Http http_need_more) \<and> put_start_line ops (data @ x) p = (p1, u, ec)"
    "ec = None \<Longrightarrow> 0 < u \<and> u \<le> length data \<and> pr_state p1 = Fields"
proof -
  obtain y where y: "header_window p (data @ x) = header_window p data @ y"
    "header_limit p \<noteq> 0 \<and> window_size p \<le> length data \<longrightarrow> y = []" using window_extend by blast
  let ?parsed = "start_line (kind ops) (header_window p data) (pr_message p)"
  show "ec = Some (Http http_need_more) \<and> p1 = p \<and> u = 0 \<or>
    ec \<noteq> Some (Http http_need_more) \<and> put_start_line ops (data @ x) p = (p1, u, ec)"
  proof (cases "?parsed = Inl http_need_more")
    case True
    show ?thesis
    proof (cases "header_limit p \<noteq> 0 \<and> window_size p \<le> length data")
      case full: True
      with y have "header_window p (data @ x) = header_window p data" by simp
      with True full assms(1,2) show ?thesis by (auto simp: put_start_line_def http_code_of_def header_limited_def)
    next
      case False
      with True assms(1,2) show ?thesis by (auto simp: put_start_line_def http_code_of_def header_limited_def)
    qed
  next
    case False
    from message_kind_laws.start_extend [OF assms(3) False, of y] y(1) assms(1,2) False show ?thesis
      by (cases ?parsed) (auto simp: put_start_line_def http_code_of_def header_limited_def Let_def)
  qed
  assume "ec = None"
  with assms(1,2) obtain message rest where parsed: "?parsed = Inr (message, rest)"
    by (auto simp: put_start_line_def http_code_of_def header_limited_failed split: sum.splits)
  with assms(1,2) message_kind_laws.start_shorter [OF assms(3) parsed] header_window_length [of p data]
  show "0 < u \<and> u \<le> length data \<and> pr_state p1 = Fields" by (auto simp: put_start_line_def Let_def)
qed

lemma put_head_extend:
  assumes "put_head ops data p = (p1, u, ec)" "\<not> is_header_done p" "message_kind_laws (kind ops)"
  shows "put_head ops (data @ x) p =
      (if ec = Some (Http http_need_more) \<and> \<not> is_header_done p1
       then (case put_head ops (drop u data @ x) p1 of (p2, v, ec2) \<Rightarrow> (p2, u + v, ec2)) else (p1, u, ec)) \<and> u \<le> length data"
proof (cases "pr_state p = Fields")
  case True
  with assms(1) have put: "put_fields ops data p = (p1, u, ec)" by (simp add: put_head_def)
  have "is_header_done p1 \<longleftrightarrow> pr_state p1 \<noteq> Fields" using put_fields_state [OF put True] by (simp add: is_header_done_def)
  with put_fields_extend [OF put True assms(3)] True show ?thesis by (auto simp: put_head_def)
next
  case False
  with assms(2) have start: "pr_state p = Start_line" by (simp add: is_header_done_def)
  obtain ps us es where line: "put_start_line ops data p = (ps, us, es)" by (metis surj_pair)
  show ?thesis
  proof (cases "data = [] \<or> es = Some (Http http_need_more)")
    case True
    have "p1 = p \<and> u = 0 \<and> ec = Some (Http http_need_more)"
    proof (cases "data = []")
      case True
      with assms(1) start show ?thesis by (auto simp: put_head_def put_start_line_def)
    next
      case False
      with True put_start_line_extend(1) [OF line False assms(3)] assms(1) start line show ?thesis by (auto simp: put_head_def)
    qed
    with assms(2) show ?thesis by (simp split: prod.splits)
  next
    case go: False
    then have whole: "put_start_line ops (data @ x) p = (ps, us, es)" using put_start_line_extend(1) [OF line _ assms(3), of x] by blast
    show ?thesis
    proof (cases es)
      case (Some e)
      with assms(1) start line have "p1 = ps" "u = us" "ec = es" by (auto simp: put_head_def)
      moreover have "us = 0" using line Some by (auto simp: put_start_line_def Let_def split: if_splits sum.splits)
      ultimately show ?thesis using go whole start Some by (auto simp: put_head_def)
    next
      case None
      with put_start_line_extend(2) [OF line _ assms(3)] go have us: "0 < us" "us \<le> length data" "pr_state ps = Fields" by auto
      obtain pf uf where fields: "put_fields ops (drop us data) ps = (pf, uf, ec)" "p1 = pf" "u = us + uf"
        using assms(1) start line None us(1) by (auto simp: put_head_def split: prod.splits)
      have "is_header_done p1 \<longleftrightarrow> pr_state p1 \<noteq> Fields"
        using put_fields_state [OF fields(1) us(3)] fields(2) by (simp add: is_header_done_def)
      moreover have "drop us (data @ x) = drop us data @ x" using us(2) by simp
      ultimately show ?thesis using put_fields_extend [OF fields(1) us(3) assms(3)] fields(2,3) whole None us start
        by (auto simp: put_head_def add.commute split: prod.splits)
    qed
  qed
qed

lemma received_kept:
  "pr_received (fst (finish_parser ops p)) = pr_received p" "pr_received (fst (init_reader ops len p)) = pr_received p"
  by (simp_all add: finish_parser_def init_reader_def split: prod.splits)

lemma finish_header_received: "pr_received (fst (finish_header ops p)) = pr_received p"
  by (simp add: finish_header_def Let_def received_kept split: option.splits)

lemma put_fields_received: "pr_received (fst (put_fields ops data p)) = pr_received p"
proof -
  obtain p0 u0 ec0 where loop: "put_field_loop ops True data p 0 = (p0, u0, ec0)" by (metis surj_pair)
  then have "pr_received p0 = pr_received p" using put_field_loop_within by blast
  with finish_header_received [of ops p0] show ?thesis
    by (cases "finish_header ops p0") (simp add: put_fields_def loop Let_def)
qed

lemma put_head_received: "pr_received (fst (put_head ops data p)) = pr_received p"
proof -
  obtain p1 step ec where line: "put_start_line ops data p = (p1, step, ec)" by (metis surj_pair)
  then have "pr_received p1 = pr_received p" by (auto simp: put_start_line_def Let_def split: if_splits sum.splits)
  with put_fields_received [of ops "drop step data" p1] put_fields_received [of ops data p] show ?thesis
    by (cases "put_fields ops (drop step data) p1") (simp add: put_head_def line)
qed

lemma put_parser_head:
  assumes "\<not> is_header_done p" "message_kind_laws (kind ops)"
  shows "put_parser ops data p = Some (put_head ops data (p\<lparr>pr_received := pr_received p \<or> data \<noteq> []\<rparr>))"
proof -
  have "2 * length data + 3 = Suc (Suc (2 * length data + 1))" by simp
  moreover have "\<not> is_header_done (p\<lparr>pr_received := pr_received p \<or> data \<noteq> []\<rparr>)" using assms(1) by (simp add: is_header_done_def)
  from put_loop_head [OF this assms(2), of "2 * length data + 1" data 0]
  have "put_loop (Suc (Suc (2 * length data + 1))) ops data (p\<lparr>pr_received := pr_received p \<or> data \<noteq> []\<rparr>) 0 =
      Some (put_head ops data (p\<lparr>pr_received := pr_received p \<or> data \<noteq> []\<rparr>))"
    by (simp del: put_loop.simps split: prod.splits)
  ultimately show ?thesis unfolding put_parser_def by (simp only:)
qed

text \<open>
  C12. Where the bytes of a header are divided does not matter to the parser, whatever its limits. What a put
  concludes before the header is complete (the complete header, or an error) it also concludes when more bytes
  follow; and when it needs more, what it has consumed so far and then the rest with the following bytes
  give the result of one put of all of the bytes.
\<close>

theorem header_segmentation:
  assumes "message_kind_laws (kind ops)" "\<not> is_header_done p" "data \<noteq> []" "put_parser ops data p = Some (p1, u, ec)"
  shows "u \<le> length data \<and> put_parser ops (data @ x) p =
    (if ec = Some (Http http_need_more) \<and> \<not> is_header_done p1
     then map_option (\<lambda>(p2, v, ec2). (p2, u + v, ec2)) (put_parser ops (drop u data @ x) p1)
     else Some (p1, u, ec))"
proof -
  note put = put_parser_head [OF _ assms(1)]
  let ?p = "p\<lparr>pr_received := True\<rparr>"
  have head: "put_head ops data ?p = (p1, u, ec)" using put [OF assms(2), of data] assms(3,4) by simp
  have undone: "\<not> is_header_done ?p" using assms(2) by (simp add: is_header_done_def)
  have "pr_received p1" using put_head_received [of ops data ?p] head by simp
  then have "p1\<lparr>pr_received := pr_received p1 \<or> drop u data @ x \<noteq> []\<rparr> = p1" by simp
  with put_head_extend [OF head undone assms(1), of x] assms(3) show ?thesis
    using put [OF assms(2), of "data @ x"] put [of p1 "drop u data @ x"] by (auto split: prod.splits)
qed

text \<open>The parser of requests with a body in memory of at most nine bytes, and a part of a request.\<close>

definition small_ops :: "(request_header, string) parse_ops" where
  "small_ops = \<lparr>text_ops = memory_text, kind = request_kind, reader = contiguous_reader 9\<rparr>"

lemma small_ops_laws: "message_kind_laws (kind small_ops)" "body_reader_laws (reader small_ops)"
  using request.message_kind_laws_axioms contiguous.body_reader_laws_axioms by (simp_all add: small_ops_def)

theorem header_segmentation_witness:
  "put_parser small_ops (''GET '' @ ''/ HTTP/1.1'') (parser_init request_init []) =
    map_option (\<lambda>(p2, v, ec2). (p2, 0 + v, ec2))
      (put_parser small_ops (drop 0 ''GET '' @ ''/ HTTP/1.1'') ((parser_init request_init [])\<lparr>pr_received := True\<rparr>))"
proof -
  let ?p = "parser_init request_init [] :: (request_header, string) parser"
  have undone: "\<not> is_header_done ?p" by code_simp
  have "put_parser small_ops ''GET '' ?p = Some (?p\<lparr>pr_received := True\<rparr>, 0, Some (Http http_need_more))" by code_simp
  from header_segmentation [OF small_ops_laws(1) undone _ this, of "''/ HTTP/1.1''"] show ?thesis
    by (simp add: is_header_done_def parser_init_def)
qed

section \<open>Termination\<close>

fun state_rank :: "parse_state \<Rightarrow> nat" where
  "state_rank Body_length = 1"
| "state_rank Body_to_eof = 1"
| "state_rank Chunk_body = 1"
| "state_rank _ = 0"

lemma find_chunk_line_shorter: "find_chunk_line str = Inr (line, rest) \<Longrightarrow> length rest < length str"
  by (induction str arbitrary: line) (auto split: if_splits sum.splits list.splits)

lemma put_chunk_header_line:
  assumes "\<not> length data < 2" "\<not> (expect_crlf p \<and> take 2 data \<noteq> [CR, LF])"
    "find_chunk_line (drop (if expect_crlf p then 2 else 0) data) = Inr (line, rest)"
  shows "put_chunk_header ops data p =
    (case parse_chunk_size line of Inl e \<Rightarrow> (p, 0, Some (Http e))
     | Inr (val, extensions) \<Rightarrow>
         if body_limit p \<noteq> 0 \<and> body_limit p - min (body_limit p) (pr_total p) < val
         then (p, 0, Some (Http http_body_limit))
         else if \<not> valid_chunk_extensions extensions then (p, 0, Some (Http http_bad_chunk_extension))
         else (p\<lparr>pr_remaining := val, expect_crlf := True,
             pr_state := (if val = 0 then Trailer else Chunk_body),
             pr_header := (if val = 0 then pr_header p - 2 else pr_header p)\<rparr>,
           length data - length rest, None))"
  unfolding put_chunk_header_def Let_def using assms by (simp only: if_False sum.case prod.case)

lemma put_chunk_header_step:
  assumes "put_chunk_header ops data p = (p1, step, ec)"
  shows "step \<le> length data \<and> (step = 0 \<longrightarrow> p1 = p)"
proof (cases "find_chunk_line (drop (if expect_crlf p then 2 else 0) data)")
  case (Inl e)
  with assms show ?thesis by (auto simp: put_chunk_header_def Let_def split: if_splits)
next
  case (Inr w)
  then obtain line rest where line: "find_chunk_line (drop (if expect_crlf p then 2 else 0) data) = Inr (line, rest)" by (cases w) auto
  show ?thesis
  proof (cases "length data < 2 \<or> expect_crlf p \<and> take 2 data \<noteq> [CR, LF]")
    case True
    then have "step = 0" "p1 = p" using assms by (auto simp only: put_chunk_header_def if_True if_False prod.inject split: if_splits)
    then show ?thesis by simp
  next
    case False
    have "length rest < length data" using find_chunk_line_shorter [OF line] by simp
    moreover have "\<not> length data < 2" "\<not> (expect_crlf p \<and> take 2 data \<noteq> [CR, LF])" using False by auto
    ultimately show ?thesis using assms put_chunk_header_line [OF _ _ line]
      by (auto split: sum.splits if_splits)
  qed
qed

lemma complete_body_state: "pr_state (fst (complete_body ops q)) \<in> {Chunk_header, Done}"
  by (simp add: complete_body_def finish_parser_state)

lemma put_body_step:
  assumes "put_body ops data p = (p1, step, ec)" "body_reader_laws (reader ops)"
  shows "step \<le> length data \<and> (pr_state p1 = pr_state p \<or> state_rank (pr_state p1) = 0)"
proof -
  have rank: "complete_body ops q = (q1, e) \<Longrightarrow> state_rank (pr_state q1) = 0" for q q1 e
    using complete_body_state [of ops q] by auto
  define n where "n = (if pr_state p \<noteq> Body_to_eof then min (length data) (pr_remaining p) else length data)"
  obtain b1 used e where put: "reader_put (reader ops) (take n data) (pr_body p) = (b1, used, e)" by (metis surj_pair)
  have "n \<le> length data" by (simp add: n_def)
  with body_reader_laws.put_within [OF assms(2) put] have "used \<le> length data" by simp
  with assms(1) rank show ?thesis
    unfolding put_body_def Let_def n_def [symmetric] put prod.case
    by (fastforce split: if_splits prod.splits)
qed

lemma put_state_step:
  assumes "put_state ops data p = (p1, step, ec)" "body_reader_laws (reader ops)" "message_kind_laws (kind ops)"
  shows "step \<le> length data \<and>
    (ec = None \<longrightarrow> step = 0 \<longrightarrow> pr_state p1 = pr_state p \<or> state_rank (pr_state p) = 1 \<and> state_rank (pr_state p1) = 0)"
proof (cases "pr_state p")
  case Start_line
  with assms(1) have line: "put_start_line ops data p = (p1, step, ec)" by (simp add: put_state_def)
  show ?thesis
  proof (cases "data = [] \<or> ec \<noteq> None")
    case True
    with line show ?thesis by (auto simp: put_start_line_def Let_def split: if_splits sum.splits)
  next
    case False
    with put_start_line_extend(2) [OF line _ assms(3)] show ?thesis by auto
  qed
next
  case Fields
  with assms(1) have fields: "put_fields ops data p = (p1, step, ec)" by (simp add: put_state_def)
  obtain p0 u0 ec0 where loop: "put_field_loop ops True data p 0 = (p0, u0, ec0)" by (metis surj_pair)
  with fields put_field_loop_within [OF loop] show ?thesis
    by (auto simp: put_fields_def Let_def split: if_splits prod.splits)
next
  case Trailer
  with assms(1) have fields: "put_trailer ops data p = (p1, step, ec)" by (simp add: put_state_def)
  obtain p0 u0 ec0 where loop: "put_field_loop ops False data p 0 = (p0, u0, ec0)" by (metis surj_pair)
  with fields put_field_loop_within [OF loop] show ?thesis
    by (auto simp: put_trailer_def Let_def split: if_splits prod.splits)
next
  case Chunk_header
  with assms(1) put_chunk_header_step [of ops data p p1 step ec] show ?thesis by (auto simp: put_state_def)
next
  case Done
  with assms(1) show ?thesis by (simp add: put_state_def)
qed (use assms(1) put_body_step [of ops data p p1 step ec, OF _ assms(2)] in \<open>auto simp: put_state_def\<close>)

lemma put_loop_returns:
  assumes "body_reader_laws (reader ops)" "message_kind_laws (kind ops)"
  shows "2 * length data + state_rank (pr_state p) < fuel \<Longrightarrow>
    \<exists>p1 u ec. put_loop fuel ops data p used = Some (p1, u, ec) \<and> u \<le> used + length data"
proof (induction fuel arbitrary: data p used)
  case (Suc fuel)
  obtain p1 step ec where state: "put_state ops data p = (p1, step, ec)" by (metis surj_pair)
  note step = put_state_step [OF state assms]
  show ?case
  proof (cases "pr_state p = Done \<or> pr_state p = Fields \<and> ec = None \<and> pr_state p1 \<noteq> Fields \<or> ec \<noteq> None \<or>
      step = 0 \<and> pr_state p1 = pr_state p")
    case True
    with state step show ?thesis by auto
  next
    case False
    have "state_rank s \<le> 1" for s by (cases s) simp_all
    then have "state_rank (pr_state p1) \<le> 1" "state_rank (pr_state p) \<le> 1" by blast+
    with False step Suc.prems have "2 * length (drop step data) + state_rank (pr_state p1) < fuel" by auto
    from Suc.IH [OF this, of "used + step"] False state step show ?thesis by auto
  qed
qed simp

text \<open>
  C38. A put of any bytes in any state returns, within a number of steps of twice their length and three, and
  consumes no more than it is given: every step that neither consumes bytes nor fails leaves a body for
  the next state, or ends the loop for lack of bytes. (The body reader consumes no more than it
  is given.)
\<close>

theorem put_terminates:
  assumes "body_reader_laws (reader ops)" "message_kind_laws (kind ops)"
  shows "\<exists>p1 u ec. put_parser ops data p = Some (p1, u, ec) \<and> u \<le> length data"
proof -
  have "state_rank s < 3" for s by (cases s) simp_all
  then have "2 * length data + state_rank (pr_state p) < 2 * length data + 3" by simp
  with put_loop_returns [OF assms, of data "p\<lparr>pr_received := pr_received p \<or> data \<noteq> []\<rparr>" "2 * length data + 3" 0] show ?thesis
    by (simp add: put_parser_def)
qed

theorem put_terminates_witness:
  "\<exists>p1 u ec. put_parser small_ops ''GET / HTTP/1.1'' (parser_init request_init []) = Some (p1, u, ec) \<and> u \<le> length ''GET / HTTP/1.1''"
  by (rule put_terminates [OF small_ops_laws(2) small_ops_laws(1)])

end
