(* ===== verification/Http_Serializer.thy ===== *)
theory Http_Serializer
  imports Http_Machine
begin

text \<open>
  The serializer of http messages (\<open>src/src/messages/http/serializer.cpp\<close>,
  \<open>src/include/bitcoin/network/impl/messages/http/serializer.ipp\<close>): the text of a header, the coding of chunks,
  and the state machine that yields the buffers of a message from the writer of its body. What it writes,
  the parser of \<open>Http_Machine\<close> reads.
\<close>

section \<open>The header\<close>

definition version_text :: "http_ops \<Rightarrow> nat \<Rightarrow> string" where
  "version_text ops v = ''HTTP/'' @ serialize ops (v div 10) @ ''.'' @ serialize ops (v mod 10)"

fun append_fields :: "string \<Rightarrow> fields \<Rightarrow> string" where
  "append_fields out [] = out @ [CR, LF]"
| "append_fields out (item # items) =
    append_fields (out @ entry_name item @ '': '' @ entry_value item @ [CR, LF]) items"

definition serialize_request_header :: "http_ops \<Rightarrow> request_header \<Rightarrow> string" where
  "serialize_request_header ops h =
    append_fields (get_method_string h @ '' '' @ request_target h @ '' '' @ version_text ops (version h) @ [CR, LF]) (header_fields h)"

definition serialize_response_header :: "http_ops \<Rightarrow> response_header \<Rightarrow> string" where
  "serialize_response_header ops h =
    append_fields (version_text ops (version h) @ '' '' @ serialize ops (status_code h) @ '' '' @ get_reason h @ [CR, LF]) (header_fields h)"

section \<open>Chunks\<close>

definition hex_digits :: string where "hex_digits = ''0123456789abcdef''"

text \<open>The loop of \<open>chunk_header\<close>, which inserts each digit in front.\<close>

fun hex_text :: "nat \<Rightarrow> string \<Rightarrow> string" where
  "hex_text n out =
    (let out1 = hex_digits ! (n mod 16) # out in if n div 16 = 0 then out1 else hex_text (n div 16) out1)"

declare hex_text.simps [simp del]

definition chunk_header :: "nat \<Rightarrow> string" where
  "chunk_header n = hex_text n [] @ [CR, LF]"

definition chunk_end :: string where "chunk_end = [CR, LF]"

definition last_chunk :: string where "last_chunk = ''0'' @ [CR, LF, CR, LF]"

section \<open>The serializer\<close>

text \<open>
  The writer of a message body (\<open>Body::writer\<close>): a parameter. A get yields no buffer, or a buffer and
  whether more follow.
\<close>

record 'b body_writer =
  writer_init :: "'b \<Rightarrow> 'b \<times> parse_code"
  writer_get :: "'b \<Rightarrow> 'b \<times> (string \<times> bool) option \<times> parse_code"

datatype serialize_state = Send_header | Send_body | Sent

record ('h, 'b) serializer =
  sr_message :: 'h
  sr_header :: string
  sr_body :: 'b
  sr_chunked :: bool
  sr_state :: serialize_state

record ('h, 'b) write_ops =
  header_text :: "'h \<Rightarrow> string"
  writer :: "'b body_writer"

definition serializer_init :: "http_ops \<Rightarrow> 'z header_base_scheme \<Rightarrow> 'b \<Rightarrow> ('z header_base_scheme, 'b) serializer" where
  "serializer_init ops message body =
    \<lparr>sr_message = message, sr_header = [], sr_body = body, sr_chunked = get_chunked ops message, sr_state = Send_header\<rparr>"

definition append_body :: "('h, 'b) write_ops \<Rightarrow> ('h, 'b) serializer \<Rightarrow> string list \<Rightarrow>
    ('h, 'b) serializer \<times> string list \<times> parse_code" where
  "append_body w s buffers =
    (case writer_get (writer w) (sr_body s) of (body, out, ec) \<Rightarrow>
       let s1 = s\<lparr>sr_body := body\<rparr> in
       if ec \<noteq> None then (s1, buffers, ec)
       else let again = (case out of None \<Rightarrow> False | Some (_, b) \<Rightarrow> b);
                data = (case out of None \<Rightarrow> [] | Some (d, _) \<Rightarrow> d);
                s2 = (if again then s1 else s1\<lparr>sr_state := Sent\<rparr>)
         in if \<not> sr_chunked s then (s2, buffers @ (if data = [] then [] else [data]), None)
            else (s2, buffers @ (if data = [] then [] else [chunk_header (length data), data, chunk_end]) @
              (if again then [] else [last_chunk]), None))"

definition serializer_next :: "('h, 'b) write_ops \<Rightarrow> ('h, 'b) serializer \<Rightarrow> ('h, 'b) serializer \<times> string list \<times> parse_code" where
  "serializer_next w s =
    (case sr_state s of
       Send_header \<Rightarrow>
         let s1 = s\<lparr>sr_header := header_text w (sr_message s)\<rparr> in
         (case writer_init (writer w) (sr_body s1) of (body, ec) \<Rightarrow>
            if ec \<noteq> None then (s1\<lparr>sr_body := body\<rparr>, [], ec)
            else (case append_body w (s1\<lparr>sr_body := body, sr_state := Send_body\<rparr>) [sr_header s1] of (s2, buffers, ec2) \<Rightarrow>
              (s2, if ec2 \<noteq> None then [] else buffers, ec2)))
     | Send_body \<Rightarrow>
         (case append_body w s [] of (s1, buffers, ec) \<Rightarrow> (s1, if ec \<noteq> None then [] else buffers, ec))
     | Sent \<Rightarrow> (s, [], None))"

text \<open>The writes of a message: \<open>next\<close> until the message is done, or a code. Fuel bounds the calls.\<close>

fun write_message :: "nat \<Rightarrow> ('h, 'b) write_ops \<Rightarrow> ('h, 'b) serializer \<Rightarrow> string \<Rightarrow> (string \<times> parse_code) option" where
  "write_message 0 w s out = None"
| "write_message (Suc fuel) w s out =
    (case serializer_next w s of (s1, buffers, ec) \<Rightarrow>
       if ec \<noteq> None then Some (out, ec)
       else if sr_state s1 = Sent then Some (out @ concat buffers, None)
       else write_message fuel w s1 (out @ concat buffers))"

section \<open>Reading a header\<close>

lemma find_line_read: "\<forall>c\<in>set line. \<not> is_control_char c \<Longrightarrow> find_line (line @ CR # LF # rest) = Inr (line, rest)"
proof (induction line)
  case Nil
  have "is_control_char CR" by code_simp
  then show ?case by simp
qed simp

lemma trim_back_trimmed: "trimmed line \<Longrightarrow> trim_back line = line"
  using dropWhile_hd [of "rev line" is_whitespace] by (cases "line = []") (simp_all add: trimmed_def trim_back_def hd_rev)

text \<open>What the names and values of fields must be for their text to be read: neither is checked when it is set.\<close>

definition valid_field :: "entry \<Rightarrow> bool" where
  "valid_field item \<longleftrightarrow> entry_name item \<noteq> [] \<and> (\<forall>c\<in>set (entry_name item). is_tchar c) \<and>
     trimmed (entry_value item) \<and> (\<forall>c\<in>set (entry_value item). \<not> is_control_char c) \<and>
     entry_id item = to_field (entry_name item)"

text \<open>The text of a field, and of the fields with the empty line.\<close>

definition field_text :: "entry \<Rightarrow> string" where
  "field_text item = entry_name item @ '': '' @ entry_value item @ [CR, LF]"

fun fields_text :: "fields \<Rightarrow> string" where
  "fields_text [] = [CR, LF]"
| "fields_text (item # items) = field_text item @ fields_text items"

lemma append_fields_text: "append_fields out fs = out @ fields_text fs"
  by (induction fs arbitrary: out) (simp_all add: field_text_def)

lemma not_tchar: "\<not> is_tchar (CHR '':'')" "\<not> is_tchar CR" "\<not> is_tchar (CHR '' '')" "\<not> is_whitespace CR" "is_whitespace (CHR '' '')"
  by code_simp+

lemma tchar_not_whitespace: "is_tchar c \<Longrightarrow> \<not> is_whitespace c"
  using not_tchar(3) by (auto simp: is_whitespace_def is_tchar_def is_digit_def)

lemma field_lines_read:
  assumes "trimmed val" "\<forall>c\<in>set val. \<not> is_control_char c" "rest \<noteq> []" "\<not> is_whitespace (hd rest)"
  shows "field_lines [] (CHR '' '' # val @ CR # LF # rest) = Inr (val, rest)"
proof -
  have "dropWhile is_whitespace (CHR '' '' # val @ CR # LF # rest) = val @ CR # LF # rest"
    using assms(1) dropWhile_hd [of "val @ CR # LF # rest" is_whitespace] not_tchar
    by (cases val) (simp_all add: trimmed_def)
  with field_lines_line [of "CHR '' '' # val @ CR # LF # rest" val rest "[]"] find_line_read [OF assms(2)] assms(3,4)
  show ?thesis by (simp add: trim_back_trimmed [OF assms(1)] fold_value_def)
qed

lemma parse_field_read:
  assumes "valid_field item" "rest \<noteq> []" "\<not> is_whitespace (hd rest)"
    "frame_field ops frame (field_of_name (entry_name item)) (entry_value item) = (frame1, None)"
  shows "parse_field ops retain fs frame (field_text item @ rest) =
    (rest, False, frame1, if retain then fields_insert (entry_name item) (entry_value item) fs else fs, None)"
proof -
  let ?str = "entry_name item @ CHR '':'' # CHR '' '' # entry_value item @ CR # LF # rest"
  have name: "entry_name item \<noteq> []" "\<forall>c\<in>set (entry_name item). is_tchar c" using assms(1) by (simp_all add: valid_field_def)
  then have "dropWhile is_tchar ?str = CHR '':'' # CHR '' '' # entry_value item @ CR # LF # rest"
    "takeWhile is_tchar ?str = entry_name item"
    using not_tchar(1) by (simp_all add: dropWhile_append2 takeWhile_append2)
  moreover have "hd ?str \<noteq> CR" using name not_tchar(2) by (cases "entry_name item") auto
  moreover have "field_lines [] (CHR '' '' # entry_value item @ CR # LF # rest) = Inr (entry_value item, rest)"
    using field_lines_read assms(1-3) by (simp add: valid_field_def)
  ultimately show ?thesis using name(1) assms(4) by (simp add: parse_field_def field_text_def)
qed

lemma parse_field_read_end: "parse_field ops retain fs frame (CR # LF # rest) = (rest, True, frame, fs, None)"
  by (simp add: parse_field_def)

text \<open>Inserting the fields of a grouped list in order gives the list.\<close>

lemma last_base_grouped: "grouped (xs @ x # ys) \<Longrightarrow> last_base (entry_name x) xs \<in> {0, length xs}"
proof (induction xs)
  case (Cons z zs)
  then have same: "last_base (entry_name x) zs \<in> {0, length zs}" by simp
  show ?case
  proof (cases "\<exists>y\<in>set zs. names (entry_name x) y")
    case True
    then have "0 < last_base (entry_name x) zs" using last_base_pos by blast
    with True same show ?thesis by (simp add: last_base_Cons)
  next
    case none: False
    show ?thesis
    proof (cases "names (entry_name x) z \<and> zs \<noteq> []")
      case True
      then obtain u us where zs: "zs = u # us" by (cases zs) auto
      from True none have "\<not> names (entry_name z) u" "names (entry_name z) x"
        by (auto simp: zs names_def iequals_map)
      with Cons.prems show ?thesis by (simp add: zs)
    qed (use none in \<open>auto simp: last_base_Cons last_base_def\<close>)
  qed
qed (simp add: last_base_def)

lemma fields_insert_grouped:
  assumes "grouped (fs @ item # gs)" "valid_field item"
  shows "fields_insert (entry_name item) (entry_value item) fs = fs @ [item]"
proof -
  have "item = \<lparr>entry_id = to_field (entry_name item), entry_name = entry_name item, entry_value = entry_value item\<rparr>"
    using assms(2) by (simp add: valid_field_def)
  with last_base_grouped [OF assms(1)] show ?thesis by (auto simp: fields_insert_def fields_add_def Let_def)
qed

text \<open>The framing of the fields.\<close>

fun frame_fields :: "http_ops \<Rightarrow> message_framing \<Rightarrow> fields \<Rightarrow> message_framing \<times> http_code" where
  "frame_fields ops frame [] = (frame, None)"
| "frame_fields ops frame (item # items) =
    (case frame_field ops frame (field_of_name (entry_name item)) (entry_value item) of
       (frame1, None) \<Rightarrow> frame_fields ops frame1 items
     | (frame1, Some e) \<Rightarrow> (frame1, Some e))"

lemma window_covers:
  assumes "header_limit p = 0 \<or> pr_header p + length str \<le> header_limit p"
  shows "\<exists>y. header_window p (str @ x) = str @ y"
  using assms by (auto simp: header_window_def window_size_def)

lemma fields_text_front: "\<forall>item\<in>set gs. valid_field item \<Longrightarrow> fields_text gs @ x \<noteq> [] \<and> \<not> is_whitespace (hd (fields_text gs @ x))"
proof (cases gs)
  case (Cons item items)
  assume "\<forall>item\<in>set gs. valid_field item"
  with Cons have "entry_name item \<noteq> []" "is_tchar (hd (entry_name item))" by (auto simp: valid_field_def)
  with Cons show ?thesis using tchar_not_whitespace by (simp add: field_text_def)
qed (simp add: not_tchar)

lemma put_field_loop_element:
  assumes "header_window p (str @ x) = str @ y"
    "parse_field (text_ops ops) retain (kind_load (kind ops) (pr_message p)) (pr_frame p) (str @ y) = (y, ended, frame, fs, None)"
  shows "put_field_loop ops retain (str @ x) p used =
    (let p1 = (update_fields ops frame fs p)\<lparr>pr_header := pr_header p + length str\<rparr>
     in if ended then (p1, used + length str, None) else put_field_loop ops retain x p1 (used + length str))"
  using put_field_loop_parse [OF assms(2) [folded assms(1)], of used] by (simp add: header_limited_simps assms(1) Let_def)

lemma put_field_loop_read:
  assumes "message_kind_laws (kind ops)"
  shows "\<forall>item\<in>set gs. valid_field item \<Longrightarrow> grouped (kind_load (kind ops) (pr_message p) @ gs) \<Longrightarrow>
    frame_fields (text_ops ops) (pr_frame p) gs = (frame, None) \<Longrightarrow>
    header_limit p = 0 \<or> pr_header p + length (fields_text gs) \<le> header_limit p \<Longrightarrow>
    put_field_loop ops True (fields_text gs @ x) p used =
      ((update_fields ops frame (kind_load (kind ops) (pr_message p) @ gs) p)\<lparr>pr_header := pr_header p + length (fields_text gs)\<rparr>,
       used + length (fields_text gs), None)"
proof (induction gs arbitrary: p used)
  case Nil
  then have "header_limit p = 0 \<or> pr_header p + length [CR, LF] \<le> header_limit p" by simp
  from window_covers [OF this, of x] obtain y where window: "header_window p ([CR, LF] @ x) = [CR, LF] @ y" by blast
  show ?case using Nil(3) put_field_loop_element [OF window, of ops True True] parse_field_read_end by simp
next
  case (Cons item items)
  let ?load = "kind_load (kind ops) (pr_message p)"
  let ?rest = "fields_text items"
  from window_covers [of p "field_text item @ ?rest" x] Cons.prems(4) obtain y
    where window: "header_window p (field_text item @ ?rest @ x) = field_text item @ ?rest @ y" by auto
  from Cons.prems(3) obtain frame1 where framed:
    "frame_field (text_ops ops) (pr_frame p) (field_of_name (entry_name item)) (entry_value item) = (frame1, None)"
    "frame_fields (text_ops ops) frame1 items = (frame, None)" by (auto split: prod.splits option.splits)
  have valid: "valid_field item" "\<forall>item\<in>set items. valid_field item" using Cons.prems(1) by simp_all
  have parsed: "parse_field (text_ops ops) True ?load (pr_frame p) (field_text item @ ?rest @ y) =
      (?rest @ y, False, frame1, ?load @ [item], None)"
    using parse_field_read [OF valid(1) _ _ framed(1), of "?rest @ y"] fields_text_front [OF valid(2), of y]
      fields_insert_grouped [OF Cons.prems(2) valid(1)] by simp
  let ?p = "(update_fields ops frame1 (?load @ [item]) p)\<lparr>pr_header := pr_header p + length (field_text item)\<rparr>"
  have load: "kind_load (kind ops) (pr_message ?p) = ?load @ [item]"
    by (simp add: update_fields_def message_kind_laws.load_store [OF assms])
  have "put_field_loop ops True (field_text item @ ?rest @ x) p used =
      put_field_loop ops True (?rest @ x) ?p (used + length (field_text item))"
    using put_field_loop_element [OF window parsed, of used] by simp
  also have "\<dots> = ((update_fields ops frame ((?load @ [item]) @ items) ?p)\<lparr>pr_header := pr_header ?p + length ?rest\<rparr>,
       used + length (field_text item) + length ?rest, None)"
    using Cons.IH [of ?p "used + length (field_text item)"] valid(2) Cons.prems(2,4) framed(2) unfolding load
    by (simp add: update_fields_def add.assoc)
  finally show ?case by (simp add: update_fields_def message_kind_laws.store_store [OF assms])
qed

section \<open>Reading a start line\<close>

lemma digit_value_less: "is_digit c \<Longrightarrow> digit_value c < 10"
  unfolding is_digit_def digit_value_def by arith

lemma digit_value_zero:
  assumes "is_digit c" "digit_value c = 0"
  shows "c = CHR ''0''"
proof -
  from assms have "of_char c = (48 :: nat)" unfolding is_digit_def digit_value_def by arith
  also have "\<dots> = of_char (CHR ''0'')" by simp
  finally show ?thesis by (simp only: of_char_eq_iff)
qed

lemma decimal_value_bounds:
  assumes "\<forall>c\<in>set ds. is_digit c"
  shows "decimal_value ds < 10 ^ length ds" "ds \<noteq> [] \<Longrightarrow> hd ds \<noteq> CHR ''0'' \<Longrightarrow> 10 ^ (length ds - 1) \<le> decimal_value ds"
proof -
  have "decimal_value ds < 10 ^ length ds \<and> (ds \<noteq> [] \<longrightarrow> hd ds \<noteq> CHR ''0'' \<longrightarrow> 10 ^ (length ds - 1) \<le> decimal_value ds)"
    using assms
  proof (induction ds rule: rev_induct)
    case (snoc c ds)
    then have digit: "digit_value c < 10" using digit_value_less by simp
    show ?case
    proof (cases "ds = []")
      case True
      with True snoc.prems digit digit_value_zero [of c] show ?thesis by (cases "digit_value c = 0") (auto simp: decimal_value_def)
    next
      case False
      then obtain k where "length ds = Suc k" by (cases ds) auto
      with snoc digit False show ?thesis by (auto simp: decimal_value_snoc)
    qed
  qed (simp add: decimal_value_def)
  then show "decimal_value ds < 10 ^ length ds" "ds \<noteq> [] \<Longrightarrow> hd ds \<noteq> CHR ''0'' \<Longrightarrow> 10 ^ (length ds - 1) \<le> decimal_value ds"
    by simp_all
qed

context http_text
begin

lemma serialize_length:
  assumes "n < 10 ^ Suc k" "k = 0 \<or> 10 ^ k \<le> n"
  shows "length (serialize ops n) = Suc k"
proof (cases "hd (serialize ops n) = CHR ''0''")
  case True
  with serialize_front assms show ?thesis by fastforce
next
  case False
  let ?ds = "serialize ops n"
  have digits: "\<forall>c\<in>set ?ds. is_digit c" using serialize_digits(2) by blast
  from decimal_value_bounds(2) [OF digits] False serialize_digits(1) serialize_value [of n]
  have low: "10 ^ (length ?ds - 1) \<le> n" by simp
  with assms(1) have "10 ^ (length ?ds - 1) < (10 :: nat) ^ Suc k" by (rule le_less_trans [rotated])
  then have "length ?ds - 1 < Suc k" by (rule power_less_imp_less_exp [rotated]) simp
  moreover have "k < length ?ds"
  proof (cases "k = 0")
    case False
    with assms(2) decimal_value_bounds(1) [OF digits] serialize_value [of n] have "10 ^ k < (10 :: nat) ^ length ?ds" by linarith
    then show ?thesis by (rule power_less_imp_less_exp [rotated]) simp
  qed (use serialize_digits(1) in simp)
  ultimately show ?thesis by simp
qed

lemma serialize_digit:
  assumes "n < 10"
  obtains c where "serialize ops n = [c]" "is_digit c" "digit_value c = n"
proof -
  from serialize_length [of n 0] assms obtain c where c: "serialize ops n = [c]" by (auto simp: length_Suc_conv)
  with serialize_digits(2) [of c n] serialize_value [of n] that show ?thesis by (simp add: decimal_value_def)
qed

lemma serialize_status:
  assumes "100 \<le> n" "n < 1000"
  obtains a b c where "serialize ops n = [a, b, c]" "is_digit a" "is_digit b" "is_digit c"
    "digit_value a * 100 + digit_value b * 10 + digit_value c = n"
proof -
  from serialize_length [of n 2] assms obtain a b c where c: "serialize ops n = [a, b, c]"
    by (auto simp: length_Suc_conv numeral_2_eq_2)
  with serialize_digits(2) [of _ n] serialize_value [of n] that show ?thesis by (simp add: decimal_value_def)
qed

lemma parse_version_read:
  assumes "v \<in> {version_1_0, version_1_1}"
  shows "parse_version (version_text ops v @ rest) = Inr (v, rest)"
proof -
  have parts: "v div 10 = 1" "v mod 10 < 10" "10 \<le> v" "v \<le> 11" using assms by (auto simp: version_1_0_def version_1_1_def)
  then obtain c d where "serialize ops (v div 10) = [c]" "is_digit c" "digit_value c = 1"
    "serialize ops (v mod 10) = [d]" "is_digit d" "digit_value d = v mod 10"
    by (metis serialize_digit one_less_numeral_iff semiring_norm(76) numeral_One)
  moreover have "v = 10 + v mod 10" "v mod 10 \<le> 1" using parts by arith+
  ultimately show ?thesis using parts(1) by (simp add: version_text_def parse_version_def version_1_0_def version_1_1_def Let_def)
qed

lemma version_text_front: "version_text ops v @ rest = CHR ''H'' # tl (version_text ops v @ rest)"
  by (simp add: version_text_def)

end

text \<open>What the elements of a start line must be for their text to be read.\<close>

definition valid_request :: "request_header \<Rightarrow> bool" where
  "valid_request h \<longleftrightarrow> get_method_string h \<noteq> [] \<and> (\<forall>c\<in>set (get_method_string h). is_tchar c) \<and>
     request_target h \<noteq> [] \<and> (\<forall>c\<in>set (request_target h). is_target_char c) \<and>
     version h \<in> {version_1_0, version_1_1} \<and>
     set_method_string (get_method_string h) h = h \<and>
     (\<forall>item\<in>set (header_fields h). valid_field item) \<and> grouped (header_fields h)"

definition valid_response :: "response_header \<Rightarrow> bool" where
  "valid_response h \<longleftrightarrow> 100 \<le> status_code h \<and> status_code h < 1000 \<and> (\<forall>c\<in>set (get_reason h). \<not> is_control_char c) \<and>
     version h \<in> {version_1_0, version_1_1} \<and> set_result (status_code h) h = h \<and>
     (\<forall>item\<in>set (header_fields h). valid_field item) \<and> grouped (header_fields h)"

definition request_line :: "http_ops \<Rightarrow> request_header \<Rightarrow> string" where
  "request_line ops h = get_method_string h @ '' '' @ request_target h @ '' '' @ version_text ops (version h) @ [CR, LF]"

definition status_line :: "http_ops \<Rightarrow> response_header \<Rightarrow> string" where
  "status_line ops h = version_text ops (version h) @ '' '' @ serialize ops (status_code h) @ '' '' @ get_reason h @ [CR, LF]"

lemma serialize_header_text:
  "serialize_request_header ops h = request_line ops h @ fields_text (header_fields h)"
  "serialize_response_header ops g = status_line ops g @ fields_text (header_fields g)"
  by (simp_all add: serialize_request_header_def serialize_response_header_def append_fields_text request_line_def status_line_def)

lemma parse_request_line_read:
  assumes "http_text ops" "valid_request h"
  shows "parse_request_line (request_line ops h @ rest) out =
    Inr ((set_method_string (get_method_string h) out)\<lparr>request_target := request_target h, version := version h\<rparr>, rest)"
proof -
  let ?tail = "CHR '' '' # version_text ops (version h) @ CR # LF # rest"
  have line: "request_line ops h @ rest = get_method_string h @ CHR '' '' # request_target h @ ?tail" by (simp add: request_line_def)
  have space: "\<not> is_target_char (CHR '' '')" by code_simp
  have "dropWhile is_tchar (request_line ops h @ rest) = CHR '' '' # request_target h @ ?tail"
    "takeWhile is_tchar (request_line ops h @ rest) = get_method_string h"
    unfolding line using assms(2) not_tchar(3) by (simp_all add: valid_request_def dropWhile_append2 takeWhile_append2)
  moreover have "dropWhile is_target_char (request_target h @ ?tail) = ?tail"
    "takeWhile is_target_char (request_target h @ ?tail) = request_target h"
    using assms(2) space by (simp_all add: valid_request_def dropWhile_append2 takeWhile_append2)
  moreover have "parse_version (version_text ops (version h) @ CR # LF # rest) = Inr (version h, CR # LF # rest)"
    using http_text.parse_version_read [OF assms(1)] assms(2) by (simp add: valid_request_def)
  ultimately show ?thesis using assms(2) by (simp add: parse_request_line_def valid_request_def)
qed

lemma parse_status_line_read:
  assumes "http_text ops" "valid_response h"
  shows "parse_status_line (status_line ops h @ rest) out =
    Inr ((set_result (status_code h) out)\<lparr>version := version h, reason_text := get_reason h\<rparr>, rest)"
proof -
  obtain a b c where code: "serialize ops (status_code h) = [a, b, c]" "is_digit a" "is_digit b" "is_digit c"
    "digit_value a * 100 + digit_value b * 10 + digit_value c = status_code h"
    using http_text.serialize_status [OF assms(1), of "status_code h"] assms(2) by (auto simp: valid_response_def)
  let ?tail = "CHR '' '' # a # b # c # CHR '' '' # get_reason h @ CR # LF # rest"
  have "status_line ops h @ rest = version_text ops (version h) @ ?tail" by (simp add: status_line_def code(1))
  moreover have "parse_version (version_text ops (version h) @ ?tail) = Inr (version h, ?tail)"
    using http_text.parse_version_read [OF assms(1)] assms(2) by (simp add: valid_response_def)
  moreover have "find_line (get_reason h @ CR # LF # rest) = Inr (get_reason h, rest)"
    using find_line_read assms(2) by (simp add: valid_response_def)
  ultimately show ?thesis using code by (simp add: parse_status_line_def)
qed

lemma put_head_read:
  assumes "message_kind_laws (kind ops)" "pr_state p = Start_line" "line \<noteq> []"
    "\<And>rest. start_line (kind ops) (line @ rest) (pr_message p) = Inr (message, rest)"
    "kind_load (kind ops) message = []" "\<forall>item\<in>set gs. valid_field item" "grouped gs"
    "frame_fields (text_ops ops) (pr_frame p) gs = (frame, None)"
    "header_limit p = 0 \<or> pr_header p + length (line @ fields_text gs) \<le> header_limit p"
  shows "put_head ops ((line @ fields_text gs) @ x) p =
    (case finish_header ops (p\<lparr>pr_state := Fields, pr_message := kind_store (kind ops) gs message, pr_frame := frame,
        pr_header := pr_header p + length (line @ fields_text gs)\<rparr>) of
       (p1, ec) \<Rightarrow> (p1, length (line @ fields_text gs), ec))"
proof -
  from window_covers [of p "line @ fields_text gs" x] assms(9)
  obtain y where window: "header_window p (line @ fields_text gs @ x) = line @ fields_text gs @ y" by auto
  let ?p = "p\<lparr>pr_message := message, pr_header := pr_header p + length line, pr_state := Fields\<rparr>"
  have start: "put_start_line ops (line @ fields_text gs @ x) p = (?p, length line, None)"
    using assms(3) by (simp add: put_start_line_def window assms(4) Let_def)
  have "put_field_loop ops True (fields_text gs @ x) ?p 0 =
      ((update_fields ops frame gs ?p)\<lparr>pr_header := pr_header ?p + length (fields_text gs)\<rparr>, length (fields_text gs), None)"
    using put_field_loop_read [OF assms(1) assms(6), of ?p frame x 0] assms(5,7,8,9) by (simp add: add.assoc)
  with start assms(2,3) show ?thesis
    by (simp add: put_head_def put_fields_def update_fields_def add.assoc split: prod.splits)
qed

section \<open>Reading chunks\<close>

lemma hex_digit:
  assumes "n < 16"
  shows "to_nibble (hex_digits ! n) = Some n \<and> hex_digits ! n \<noteq> CR"
proof -
  have "\<forall>k\<in>set [0..<16]. to_nibble (hex_digits ! k) = Some k \<and> hex_digits ! k \<noteq> CR" by code_simp
  with assms show ?thesis by simp
qed

lemma hex_text_loop: "n div 16 = 0 \<Longrightarrow> hex_text n out = hex_digits ! (n mod 16) # out"
  "n div 16 \<noteq> 0 \<Longrightarrow> hex_text n out = hex_text (n div 16) (hex_digits ! (n mod 16) # out)"
  by (subst hex_text.simps, simp add: Let_def)+

lemma hex_text_line: "find_chunk_line (hex_text n out) = (case find_chunk_line out of Inl e \<Rightarrow> Inl e | Inr (line, rest) \<Rightarrow> Inr (hex_text n line, rest))"
proof (induction n out rule: hex_text.induct)
  case (1 n out)
  have "hex_digits ! (n mod 16) \<noteq> CR" using hex_digit by simp
  then show ?case using 1 by (cases "n div 16 = 0") (auto simp: hex_text_loop split: sum.splits)
qed

lemma hex_text_digits: "n \<le> max_uint64 \<Longrightarrow> chunk_digits 0 (hex_text n out) = chunk_digits n out"
proof (induction n out rule: hex_text.induct)
  case (1 n out)
  have digit: "to_nibble (hex_digits ! (n mod 16)) = Some (n mod 16)" using hex_digit by simp
  show ?case
  proof (cases "n div 16 = 0")
    case False
    have "n div 16 \<le> max_uint64 div 16" using "1.prems" div_le_mono by blast
    moreover have "n div 16 \<le> max_uint64" using "1.prems" by simp
    ultimately show ?thesis using 1(1) [OF refl False] digit by (simp add: hex_text_loop(2) [OF False])
  qed (use digit in \<open>simp add: hex_text_loop\<close>)
qed

lemma hex_text_append: "hex_text n out @ x = hex_text n (out @ x)"
proof (induction n out rule: hex_text.induct)
  case (1 n out)
  then show ?case by (cases "n div 16 = 0") (simp_all add: hex_text_loop)
qed

lemma hex_text_length: "length out < length (hex_text n out)"
proof (induction n out rule: hex_text.induct)
  case (1 n out)
  then show ?case by (cases "n div 16 = 0") (fastforce simp: hex_text_loop)+
qed

text \<open>A chunk line is found and read as the size it was written for.\<close>

lemma chunk_header_read: "n \<le> max_uint64 \<Longrightarrow>
    find_chunk_line (chunk_header n @ x) = Inr (hex_text n [], x) \<and> parse_chunk_size (hex_text n []) = Inr (n, [])"
  using hex_text_length [of "[]" n] by (simp add: chunk_header_def hex_text_append hex_text_line parse_chunk_size_def hex_text_digits)

lemma last_chunk_header: "last_chunk = chunk_header 0 @ chunk_end"
  by (simp add: last_chunk_def chunk_header_def chunk_end_def hex_text_loop hex_digits_def)

lemma no_extensions: "valid_chunk_extensions []"
  using not_tchar(4) by (subst valid_chunk_extensions.simps) simp

text \<open>The line end that follows the data of a chunk is read with the next chunk line.\<close>

definition pending_end :: "('h, 'b) parser \<Rightarrow> string" where
  "pending_end p = (if expect_crlf p then chunk_end else [])"

lemma put_chunk_header_read:
  assumes "n \<le> max_uint64" "body_limit p = 0 \<or> pr_total p + n \<le> body_limit p"
  shows "put_chunk_header ops (pending_end p @ chunk_header n @ x) p =
    (p\<lparr>pr_remaining := n, expect_crlf := True, pr_state := (if n = 0 then Trailer else Chunk_body),
       pr_header := (if n = 0 then pr_header p - 2 else pr_header p)\<rparr>, length (pending_end p @ chunk_header n), None)"
proof -
  let ?data = "pending_end p @ chunk_header n @ x"
  have "2 \<le> length (chunk_header n)" by (simp add: chunk_header_def)
  then have "\<not> length ?data < 2" by simp
  moreover have "\<not> (expect_crlf p \<and> take 2 ?data \<noteq> [CR, LF])" by (simp add: pending_end_def chunk_end_def)
  moreover have "drop (if expect_crlf p then 2 else 0) ?data = chunk_header n @ x" by (simp add: pending_end_def chunk_end_def)
  ultimately have "put_chunk_header ops ?data p =
    (case parse_chunk_size (hex_text n []) of Inl e \<Rightarrow> (p, 0, Some (Http e))
     | Inr (val, extensions) \<Rightarrow>
         if body_limit p \<noteq> 0 \<and> body_limit p - min (body_limit p) (pr_total p) < val
         then (p, 0, Some (Http http_body_limit))
         else if \<not> valid_chunk_extensions extensions then (p, 0, Some (Http http_bad_chunk_extension))
         else (p\<lparr>pr_remaining := val, expect_crlf := True,
             pr_state := (if val = 0 then Trailer else Chunk_body),
             pr_header := (if val = 0 then pr_header p - 2 else pr_header p)\<rparr>,
           length ?data - length x, None))"
    using put_chunk_header_line [of ?data p "hex_text n []" x ops] chunk_header_read [OF assms(1), of x] by simp
  with chunk_header_read [OF assms(1)] assms(2) show ?thesis by (auto simp: no_extensions)
qed

lemma put_body_read:
  assumes "reader ops = contiguous_reader m" "pr_state p = Chunk_body \<or> pr_state p = Body_length" "data \<noteq> []"
    "pr_remaining p = length data" "length (pr_body p @ data) \<le> m"
  shows "put_body ops (data @ x) p =
    (p\<lparr>pr_body := pr_body p @ data, pr_total := pr_total p + length data, pr_remaining := 0,
       pr_state := (if pr_state p = Chunk_body then Chunk_header else Done)\<rparr>, length data, None)"
  using assms(2-5)
  by (auto simp: put_body_def assms(1) contiguous_reader_def complete_body_def finish_parser_def Let_def)

lemma put_trailer_read:
  assumes "reader ops = contiguous_reader m" "header_limit p = 0 \<or> pr_header p + 2 \<le> header_limit p"
    "kind_store (kind ops) (kind_load (kind ops) (pr_message p)) (pr_message p) = pr_message p"
  shows "put_trailer ops (chunk_end @ x) p = (p\<lparr>pr_header := pr_header p + 2, pr_state := Done\<rparr>, 2, None)"
proof -
  from window_covers [of p chunk_end x] assms(2) obtain y where window: "header_window p (chunk_end @ x) = chunk_end @ y"
    by (auto simp: chunk_end_def)
  have "parse_field (text_ops ops) False (kind_load (kind ops) (pr_message p)) (pr_frame p) (chunk_end @ y) =
      (y, True, pr_frame p, kind_load (kind ops) (pr_message p), None)"
    by (simp add: chunk_end_def parse_field_read_end)
  from put_field_loop_element [OF window this, of 0] show ?thesis
    by (simp add: put_trailer_def update_fields_def assms finish_parser_def contiguous_reader_def chunk_end_def)
qed

definition chunk_text :: "string \<Rightarrow> string" where
  "chunk_text data = chunk_header (length data) @ data @ chunk_end"

text \<open>One step of the loop of \<open>put\<close> that neither ends the header nor fails.\<close>

lemma put_loop_step:
  assumes "put_state ops (str @ x) p = (p1, length str, None)" "pr_state p \<notin> {Done, Start_line, Fields}" "str \<noteq> []"
  shows "put_loop (Suc fuel) ops (str @ x) p used = put_loop fuel ops x p1 (used + length str)"
  using assms by simp

lemma put_loop_last:
  assumes "reader ops = contiguous_reader m" "message_kind_laws (kind ops)" "pr_state p = Chunk_header"
    "header_limit p = 0 \<or> 2 \<le> pr_header p \<and> pr_header p \<le> header_limit p" "body_limit p = 0 \<or> pr_total p \<le> body_limit p"
  shows "put_loop (Suc (Suc (Suc fuel))) ops (pending_end p @ last_chunk @ x) p used =
    Some (p\<lparr>pr_remaining := 0, expect_crlf := True, pr_header := pr_header p - 2 + 2, pr_state := Done\<rparr>,
      used + length (pending_end p @ last_chunk), None)"
proof -
  let ?p = "p\<lparr>pr_remaining := 0, expect_crlf := True, pr_state := Trailer, pr_header := pr_header p - 2\<rparr>"
  have "put_state ops ((pending_end p @ chunk_header 0) @ chunk_end @ x) p = (?p, length (pending_end p @ chunk_header 0), None)"
    using put_chunk_header_read [of 0 p ops "chunk_end @ x"] assms(3,5) by (simp add: put_state_def)
  from put_loop_step [OF this] assms(3) have
    "put_loop (Suc (Suc (Suc fuel))) ops (pending_end p @ last_chunk @ x) p used =
      put_loop (Suc (Suc fuel)) ops (chunk_end @ x) ?p (used + length (pending_end p @ chunk_header 0))"
    by (simp add: last_chunk_header chunk_header_def)
  also have "header_limit ?p = 0 \<or> pr_header ?p + 2 \<le> header_limit ?p" using assms(4) by auto
  then have "put_state ops (chunk_end @ x) ?p = (?p\<lparr>pr_header := pr_header ?p + 2, pr_state := Done\<rparr>, length chunk_end, None)"
    using put_trailer_read [OF assms(1) _ message_kind_laws.store_load [OF assms(2)], of ?p x]
    by (simp add: put_state_def chunk_end_def)
  from put_loop_step [OF this] have "put_loop (Suc (Suc fuel)) ops (chunk_end @ x) ?p (used + length (pending_end p @ chunk_header 0)) =
    Some (?p\<lparr>pr_header := pr_header ?p + 2, pr_state := Done\<rparr>, used + length (pending_end p @ chunk_header 0) + length chunk_end, None)"
    by (simp add: chunk_end_def)
  finally show ?thesis by (simp add: last_chunk_header)
qed

lemma put_loop_chunks:
  assumes "reader ops = contiguous_reader m" "message_kind_laws (kind ops)"
  shows "\<forall>d\<in>set ds. d \<noteq> [] \<Longrightarrow> length (pr_body p @ concat ds) \<le> m \<Longrightarrow> \<forall>d\<in>set ds. length d \<le> max_uint64 \<Longrightarrow>
    pr_state p = Chunk_header \<Longrightarrow> header_limit p = 0 \<or> 2 \<le> pr_header p \<and> pr_header p \<le> header_limit p \<Longrightarrow>
    body_limit p = 0 \<or> pr_total p + length (concat ds) \<le> body_limit p \<Longrightarrow> 2 * length ds + 3 \<le> fuel \<Longrightarrow>
    \<exists>p1. put_loop fuel ops (pending_end p @ concat (map chunk_text ds) @ last_chunk @ x) p used =
        Some (p1, used + length (pending_end p @ concat (map chunk_text ds) @ last_chunk), None) \<and>
      pr_state p1 = Done \<and> pr_body p1 = pr_body p @ concat ds \<and> pr_message p1 = pr_message p"
proof (induction ds arbitrary: p fuel used)
  case Nil
  then obtain k where "fuel = 3 + k" using le_Suc_ex by auto
  then have "fuel = Suc (Suc (Suc k))" by simp
  with put_loop_last [OF assms Nil(4,5), of k x used] Nil(6) show ?case by simp
next
  case (Cons d ds)
  from Cons.prems(7) obtain j where "fuel = (2 * length ds + 5) + j" using le_Suc_ex by fastforce
  then obtain k where fuel: "fuel = Suc (Suc k)" "2 * length ds + 3 \<le> k" by simp
  let ?line = "pending_end p @ chunk_header (length d)"
  let ?rest = "chunk_end @ concat (map chunk_text ds) @ last_chunk @ x"
  let ?p = "p\<lparr>pr_remaining := length d, expect_crlf := True, pr_state := Chunk_body\<rparr>"
  let ?q = "?p\<lparr>pr_body := pr_body p @ d, pr_total := pr_total p + length d, pr_remaining := 0, pr_state := Chunk_header\<rparr>"
  have "put_state ops (?line @ d @ ?rest) p = (?p, length ?line, None)"
    using put_chunk_header_read [of "length d" p ops "d @ ?rest"] Cons.prems(1,3,4,6) by (auto simp: put_state_def)
  from put_loop_step [OF this] Cons.prems(4) have header:
    "put_loop fuel ops (?line @ d @ ?rest) p used = put_loop (Suc k) ops (d @ ?rest) ?p (used + length ?line)"
    by (simp add: fuel(1) chunk_header_def)
  have "put_state ops (d @ ?rest) ?p = (?q, length d, None)"
    using put_body_read [OF assms(1), of ?p d ?rest] Cons.prems(1,2) by (simp add: put_state_def)
  from put_loop_step [OF this] Cons.prems(1) have body:
    "put_loop (Suc k) ops (d @ ?rest) ?p (used + length ?line) = put_loop k ops ?rest ?q (used + length ?line + length d)"
    by simp
  have "pending_end ?q = chunk_end" by (simp add: pending_end_def)
  with Cons.IH [of ?q k "used + length ?line + length d"] Cons.prems fuel(2) obtain p1 where
    "put_loop k ops ?rest ?q (used + length ?line + length d) =
      Some (p1, used + length ?line + length d + length (chunk_end @ concat (map chunk_text ds) @ last_chunk), None)"
    "pr_state p1 = Done" "pr_body p1 = pr_body p @ concat (d # ds)" "pr_message p1 = pr_message p" by auto
  with trans [OF header body] show ?case by (intro exI [of _ p1]) (simp add: chunk_text_def [of d] add.assoc)
qed

section \<open>Writing a message\<close>

text \<open>
  The contract of a writer: from the body \<open>b\<close> on, it yields the pieces \<open>ds\<close>, of which the last may be empty or
  missing, without a code.
\<close>

inductive writes :: "'b body_writer \<Rightarrow> 'b \<Rightarrow> string list \<Rightarrow> bool" for w where
  writes_none: "writer_get w b = (b1, None, None) \<Longrightarrow> writes w b [[]]"
| writes_last: "writer_get w b = (b1, Some (d, False), None) \<Longrightarrow> writes w b [d]"
| writes_more: "writer_get w b = (b1, Some (d, True), None) \<Longrightarrow> writes w b1 ds \<Longrightarrow> writes w b (d # ds)"

definition message_text :: "bool \<Rightarrow> string list \<Rightarrow> string" where
  "message_text chunked ds =
    (if chunked then concat (map chunk_text (filter (\<lambda>d. d \<noteq> []) ds)) @ last_chunk else concat ds)"

lemma append_body_last:
  assumes "writer_get (writer w) (sr_body s) = (b1, out, None)" "out = None \<and> d = [] \<or> out = Some (d, False)"
  shows "\<exists>s1 buffers. append_body w s bs = (s1, bs @ buffers, None) \<and> sr_state s1 = Sent \<and>
    concat buffers = message_text (sr_chunked s) [d]"
  using assms by (auto simp: append_body_def message_text_def chunk_text_def Let_def)

lemma append_body_more:
  assumes "writer_get (writer w) (sr_body s) = (b1, Some (d, True), None)"
  shows "\<exists>buffers. append_body w s bs = (s\<lparr>sr_body := b1\<rparr>, bs @ buffers, None) \<and>
    concat buffers @ message_text (sr_chunked s) ds = message_text (sr_chunked s) (d # ds)"
  using assms by (auto simp: append_body_def message_text_def chunk_text_def Let_def)

lemma write_body:
  "writes (writer w) b ds \<Longrightarrow> sr_body s = b \<Longrightarrow> sr_state s = Send_body \<Longrightarrow> length ds \<le> fuel \<Longrightarrow>
    write_message fuel w s out = Some (out @ message_text (sr_chunked s) ds, None)"
proof (induction arbitrary: s fuel out rule: writes.induct)
  case (writes_none b b1)
  then obtain k where "fuel = Suc k" by (cases fuel) auto
  with append_body_last [of w s b1 None "[]" "[]"] writes_none show ?case by (auto simp: serializer_next_def)
next
  case (writes_last b b1 d)
  then obtain k where "fuel = Suc k" by (cases fuel) auto
  with append_body_last [of w s b1 "Some (d, False)" d "[]"] writes_last show ?case by (auto simp: serializer_next_def)
next
  case (writes_more b b1 d ds)
  then obtain k where fuel: "fuel = Suc k" "length ds \<le> k" by (cases fuel) auto
  from append_body_more [of w s b1 d "[]" ds] writes_more(1,4)
  obtain buffers where body: "append_body w s [] = (s\<lparr>sr_body := b1\<rparr>, buffers, None)"
    "concat buffers @ message_text (sr_chunked s) ds = message_text (sr_chunked s) (d # ds)" by auto
  from writes_more.IH [of "s\<lparr>sr_body := b1\<rparr>" k "out @ concat buffers"] fuel(2) writes_more(5)
  have "write_message k w (s\<lparr>sr_body := b1\<rparr>) (out @ concat buffers) = Some (out @ concat buffers @ message_text (sr_chunked s) ds, None)"
    by simp
  with body fuel(1) writes_more(5) show ?case by (simp add: serializer_next_def)
qed

lemma write_message_text:
  assumes "writes (writer w) b ds" "writer_init (writer w) b0 = (b, None)" "length ds \<le> fuel"
    "sr_state s = Send_header" "sr_body s = b0"
  shows "write_message fuel w s [] = Some (header_text w (sr_message s) @ message_text (sr_chunked s) ds, None)"
proof -
  let ?s = "s\<lparr>sr_header := header_text w (sr_message s), sr_body := b, sr_state := Send_body\<rparr>"
  have header: "serializer_next w s = (case append_body w ?s [header_text w (sr_message s)] of (s1, buffers, ec) \<Rightarrow>
      (s1, if ec \<noteq> None then [] else buffers, ec))"
    using assms by (simp add: serializer_next_def Let_def)
  from assms(1,3) obtain k where fuel: "fuel = Suc k" by (cases fuel; cases rule: writes.cases) auto
  from assms(1) show ?thesis
  proof cases
    case (writes_none b1)
    with append_body_last [of w ?s b1 None "[]" "[header_text w (sr_message s)]"] header fuel show ?thesis by auto
  next
    case (writes_last b1 d)
    with append_body_last [of w ?s b1 "Some (d, False)" d "[header_text w (sr_message s)]"] header fuel show ?thesis by auto
  next
    case (writes_more b1 d es)
    from append_body_more [of w ?s b1 d "[header_text w (sr_message s)]" es] writes_more(2)
    obtain buffers where body: "append_body w ?s [header_text w (sr_message s)] = (?s\<lparr>sr_body := b1\<rparr>, header_text w (sr_message s) # buffers, None)"
      "concat buffers @ message_text (sr_chunked s) es = message_text (sr_chunked s) (d # es)" by auto
    with write_body [OF writes_more(3), of "?s\<lparr>sr_body := b1\<rparr>" k "header_text w (sr_message s) @ concat buffers"] header fuel
      assms(3) writes_more(1) show ?thesis by simp
  qed
qed

section \<open>Framing\<close>

text \<open>A frame states one length: that of chunks, that of another coding, a number, or none.\<close>

definition unambiguous :: "message_framing \<Rightarrow> bool" where
  "unambiguous frame \<longleftrightarrow> \<not> (frame_chunked frame \<and> frame_encoded frame) \<and>
     (frame_chunked frame \<or> frame_encoded frame \<longrightarrow> frame_length frame = None)"

lemma frame_lengths_flags: "frame_lengths items frame = (frame1, ec) \<Longrightarrow>
    frame_chunked frame1 = frame_chunked frame \<and> frame_encoded frame1 = frame_encoded frame"
  by (induction items frame rule: frame_lengths.induct) (auto split: if_splits option.splits prod.splits list.splits)

lemma frame_field_unambiguous: "frame_field ops frame f val = (frame1, ec) \<Longrightarrow> unambiguous frame \<Longrightarrow> unambiguous frame1"
  by (auto simp: frame_field_def unambiguous_def Let_def dest!: frame_lengths_flags split: if_splits prod.splits)

lemma parse_field_unambiguous: "parse_field ops retain fs frame str = (rest, ended, frame1, fs1, ec) \<Longrightarrow>
    unambiguous frame \<Longrightarrow> unambiguous frame1"
  by (auto simp: parse_field_def Let_def dest: frame_field_unambiguous split: if_splits list.splits sum.splits prod.splits)

lemma put_field_loop_unambiguous:
  "put_field_loop ops retain data p used = (p1, u, ec) \<Longrightarrow> unambiguous (pr_frame p) \<Longrightarrow> unambiguous (pr_frame p1)"
proof (induction "length data" arbitrary: data p used rule: less_induct)
  case less
  obtain rest ended frame fs ec0 where parsed: "parse_field (text_ops ops) retain (kind_load (kind ops) (pr_message p)) (pr_frame p)
    (header_window p data) = (rest, ended, frame, fs, ec0)" by (metis surj_pair)
  define step where "step = length (header_window p data) - length rest"
  note loop = put_field_loop_parse [OF parsed, folded step_def]
  have frame: "unambiguous frame" using parse_field_unambiguous [OF parsed less.prems(2)] .
  show ?case
  proof (cases "header_limited p data ec0 = None \<and> \<not> ended")
    case True
    let ?p = "(update_fields ops frame fs p)\<lparr>pr_header := pr_header p + step\<rparr>"
    from True have "ec0 = None" by (auto simp: header_limited_def split: if_splits)
    with parsed have "length rest < length (header_window p data)" using parse_field_shorter by metis
    then have "0 < step" "step \<le> length data" using header_window_length [of p data] by (simp_all add: step_def)
    then have "length (drop step data) < length data" by simp
    moreover have "put_field_loop ops retain (drop step data) ?p (used + step) = (p1, u, ec)"
      using less.prems(1) True by (simp add: loop Let_def)
    moreover have "unambiguous (pr_frame ?p)" using frame by (simp add: update_fields_def)
    ultimately show ?thesis using less.hyps by blast
  next
    case False
    with less.prems(1) frame show ?thesis
      by (cases "header_limited p data ec0") (auto simp: loop Let_def update_fields_def)
  qed
qed

lemma finish_header_frame: "pr_frame (fst (finish_header ops p)) = pr_frame p"
  by (simp add: finish_header_def finish_parser_def init_reader_def Let_def split: prod.splits option.splits)

lemma finish_parser_frame: "finish_parser ops p = (q, ec) \<Longrightarrow> pr_frame q = pr_frame p"
  by (auto simp: finish_parser_def split: prod.splits)

lemma complete_body_frame: "complete_body ops p = (q, ec) \<Longrightarrow> pr_frame q = pr_frame p"
  by (auto simp: complete_body_def finish_parser_frame split: if_splits)

lemma put_body_frame: "put_body ops data p = (q, u, ec) \<Longrightarrow> pr_frame q = pr_frame p"
  by (auto simp: put_body_def Let_def dest!: complete_body_frame split: if_splits prod.splits)

lemma put_chunk_header_frame: "put_chunk_header ops data p = (q, u, ec) \<Longrightarrow> pr_frame q = pr_frame p"
proof (cases "find_chunk_line (drop (if expect_crlf p then 2 else 0) data)")
  case (Inl e)
  assume "put_chunk_header ops data p = (q, u, ec)"
  with Inl show ?thesis by (auto simp: put_chunk_header_def Let_def split: if_splits)
next
  case (Inr w)
  assume put: "put_chunk_header ops data p = (q, u, ec)"
  from Inr obtain line rest where line: "find_chunk_line (drop (if expect_crlf p then 2 else 0) data) = Inr (line, rest)" by (cases w) auto
  show ?thesis
  proof (cases "length data < 2 \<or> expect_crlf p \<and> take 2 data \<noteq> [CR, LF]")
    case True
    with put show ?thesis by (auto simp only: put_chunk_header_def if_True if_False prod.inject split: if_splits)
  next
    case False
    with put put_chunk_header_line [OF _ _ line, of ops] show ?thesis by (auto split: sum.splits if_splits)
  qed
qed

lemma put_state_unambiguous:
  assumes "put_state ops data p = (p1, step, ec)" "unambiguous (pr_frame p)"
  shows "unambiguous (pr_frame p1)"
proof (cases "pr_state p")
  case Start_line
  with assms show ?thesis by (auto simp: put_state_def put_start_line_def Let_def split: if_splits sum.splits)
next
  case Fields
  obtain p0 u0 ec0 where loop: "put_field_loop ops True data p 0 = (p0, u0, ec0)" by (metis surj_pair)
  with put_field_loop_unambiguous [OF loop assms(2)] finish_header_frame [of ops p0] assms(1) Fields show ?thesis
    by (auto simp: put_state_def put_fields_def Let_def split: if_splits prod.splits)
next
  case Trailer
  obtain p0 u0 ec0 where loop: "put_field_loop ops False data p 0 = (p0, u0, ec0)" by (metis surj_pair)
  with put_field_loop_unambiguous [OF loop assms(2)] finish_parser_frame [of ops p0] assms(1) Trailer show ?thesis
    by (auto simp: put_state_def put_trailer_def Let_def split: if_splits prod.splits)
qed (use assms put_body_frame [of ops data p p1 step ec] put_chunk_header_frame [of ops data p p1 step ec] in \<open>auto simp: put_state_def\<close>)

lemma put_loop_unambiguous:
  "put_loop fuel ops data p used = Some (p1, u, ec) \<Longrightarrow> unambiguous (pr_frame p) \<Longrightarrow> unambiguous (pr_frame p1)"
proof (induction fuel arbitrary: data p used)
  case (Suc fuel)
  obtain p0 step e where state: "put_state ops data p = (p0, step, e)" by (metis surj_pair)
  with put_state_unambiguous [OF state Suc.prems(2)] Suc.IH [of _ p0] Suc.prems show ?case by (auto split: if_splits)
qed simp

text \<open>
  However a message is received, and wherever it is found to be wrong, the framing the parser holds never
  states two lengths: it is not chunked and otherwise coded at once, and neither with a content length.
  A message with both is an error, so that no two readers of the stream can differ on where a
  message ends.
\<close>

theorem framing_unambiguous:
  assumes "put_parser ops data p = Some (p1, u, ec)" "unambiguous (pr_frame p)"
  shows "unambiguous (pr_frame p1)"
  using put_loop_unambiguous [OF assms(1) [unfolded put_parser_def]] assms(2) by simp

lemma frame_fields_unambiguous: "frame_fields ops frame fs = (frame1, None) \<Longrightarrow> unambiguous frame \<Longrightarrow> unambiguous frame1"
proof (induction fs arbitrary: frame)
  case (Cons item items)
  then obtain frame2 where "frame_field ops frame (field_of_name (entry_name item)) (entry_value item) = (frame2, None)"
    "frame_fields ops frame2 items = (frame1, None)" by (auto split: prod.splits option.splits)
  with Cons frame_field_unambiguous show ?case by blast
qed simp

section \<open>Round trip of a message\<close>

text \<open>The parser of requests with a body in memory of at most \<open>m\<close> bytes, with its limits (zero is unlimited).\<close>

definition request_ops :: "http_ops \<Rightarrow> nat \<Rightarrow> (request_header, string) parse_ops" where
  "request_ops ops m = \<lparr>text_ops = ops, kind = request_kind, reader = contiguous_reader m\<rparr>"

definition request_parser :: "nat \<Rightarrow> nat \<Rightarrow> (request_header, string) parser" where
  "request_parser hl bl = (parser_init request_init [])\<lparr>header_limit := hl, body_limit := bl\<rparr>"

lemma request_ops_simps [simp]:
  "text_ops (request_ops ops m) = ops" "kind (request_ops ops m) = request_kind" "reader (request_ops ops m) = contiguous_reader m"
  by (simp_all add: request_ops_def)

lemma request_kind_simps [simp]:
  "is_request request_kind" "start_line request_kind = parse_request_line" "kind_load request_kind = header_fields"
  "kind_store request_kind = (\<lambda>fs h. h\<lparr>header_fields := fs\<rparr>)"
  by (simp_all add: request_kind_def)

text \<open>The parser with the header of the request, before and after the end of the header is handled.\<close>

definition read_request :: "nat \<Rightarrow> nat \<Rightarrow> request_header \<Rightarrow> message_framing \<Rightarrow> nat \<Rightarrow> (request_header, string) parser" where
  "read_request hl bl h frame used = (request_parser hl bl)\<lparr>pr_received := True, pr_state := Fields, pr_message := h,
     pr_frame := frame, pr_header := used\<rparr>"

lemma request_start:
  assumes "set_method_string t h = h"
  shows "((set_method_string t request_init)\<lparr>request_target := request_target h, version := version h\<rparr>)
    \<lparr>header_fields := header_fields h\<rparr> = h"
  using assms by (cases h) (simp add: set_method_string_def request_init_def)

lemma put_request_header:
  assumes "http_text ops" "valid_request h" "frame_fields ops framing_init (header_fields h) = (frame, None)"
    "hl = 0 \<or> length (serialize_request_header ops h) \<le> hl"
  shows "put_parser (request_ops ops m) (serialize_request_header ops h @ x) (request_parser hl bl) =
    (let used = length (serialize_request_header ops h);
         (p1, ec) = finish_header (request_ops ops m) (read_request hl bl h frame used) in Some (p1, used, ec))"
proof -
  let ?p = "(request_parser hl bl)\<lparr>pr_received := True\<rparr>"
  let ?line = "request_line ops h"
  have line: "?line \<noteq> []" by (simp add: request_line_def)
  have undone: "\<not> is_header_done (request_parser hl bl)" by (simp add: is_header_done_def request_parser_def parser_init_def)
  have put: "put_parser (request_ops ops m) (serialize_request_header ops h @ x) (request_parser hl bl) =
      Some (put_head (request_ops ops m) ((?line @ fields_text (header_fields h)) @ x) ?p)"
    using put_parser_head [OF undone, of "request_ops ops m" "serialize_request_header ops h @ x"] request.message_kind_laws_axioms line
    by (simp add: serialize_header_text request_parser_def parser_init_def)
  have start: "start_line (kind (request_ops ops m)) (?line @ rest) (pr_message ?p) =
      Inr ((set_method_string (get_method_string h) request_init)\<lparr>request_target := request_target h, version := version h\<rparr>, rest)" for rest
    using parse_request_line_read [OF assms(1,2)] by (simp add: request_parser_def parser_init_def)
  have head: "put_head (request_ops ops m) ((?line @ fields_text (header_fields h)) @ x) ?p =
    (case finish_header (request_ops ops m) (?p\<lparr>pr_state := Fields,
        pr_message := ((set_method_string (get_method_string h) request_init)\<lparr>request_target := request_target h, version := version h\<rparr>)
          \<lparr>header_fields := header_fields h\<rparr>,
        pr_frame := frame, pr_header := length (?line @ fields_text (header_fields h))\<rparr>) of
       (p1, ec) \<Rightarrow> (p1, length (?line @ fields_text (header_fields h)), ec))"
    using put_head_read [OF _ _ line start, of "header_fields h" frame x] request.message_kind_laws_axioms assms
    by (simp add: request_parser_def parser_init_def serialize_header_text valid_request_def set_method_string_def request_init_def)
  show ?thesis unfolding put head using request_start [of "get_method_string h" h] assms(2)
    by (simp add: valid_request_def read_request_def serialize_header_text Let_def split: prod.splits)
qed

lemma read_request_simps [simp]:
  "pr_state (read_request hl bl h frame used) = Fields" "pr_message (read_request hl bl h frame used) = h"
  "pr_frame (read_request hl bl h frame used) = frame" "pr_header (read_request hl bl h frame used) = used"
  "header_limit (read_request hl bl h frame used) = hl" "body_limit (read_request hl bl h frame used) = bl"
  "pr_total (read_request hl bl h frame used) = 0" "expect_crlf (read_request hl bl h frame used) = False"
  "pr_skip (read_request hl bl h frame used) = False" "pr_received (read_request hl bl h frame used) = True"
  "pr_body (read_request hl bl h frame used) = []"
  by (simp_all add: read_request_def request_parser_def parser_init_def)

lemma finish_chunked:
  assumes "frame_length frame = None" "frame_chunked frame"
  shows "finish_header (request_ops ops m) (read_request hl bl h frame used) =
    ((read_request hl bl h frame used)\<lparr>pr_state := Chunk_header, pr_body := []\<rparr>, None)"
  using assms by (simp add: finish_header_def init_reader_def contiguous_reader_def)

lemma finish_length:
  assumes "frame_length frame = Some n" "n \<le> m" "bl = 0 \<or> n \<le> bl"
  shows "finish_header (request_ops ops m) (read_request hl bl h frame used) =
    ((read_request hl bl h frame used)\<lparr>pr_remaining := n, pr_state := (if n = 0 then Done else Body_length), pr_body := []\<rparr>, None)"
  using assms by (auto simp: finish_header_def init_reader_def finish_parser_def contiguous_reader_def)

lemma chunks_length: "length ds \<le> length (concat (map chunk_text ds))"
proof (induction ds)
  case (Cons d ds)
  moreover have "0 < length (chunk_text d)" by (simp add: chunk_text_def chunk_end_def)
  ultimately show ?case by (simp only: list.map concat.simps length_append length_Cons)
qed simp

lemma filter_pieces: "concat (filter (\<lambda>d. d \<noteq> []) ds) = concat ds"
  by (induction ds) auto

lemma piece_length: "d \<in> set ds \<Longrightarrow> length d \<le> length (concat ds)"
  by (induction ds) auto

lemma put_parser_received: "pr_received p \<Longrightarrow> put_parser ops data p = put_loop (2 * length data + 3) ops data p 0"
proof -
  assume "pr_received p"
  then have "p\<lparr>pr_received := pr_received p \<or> data \<noteq> []\<rparr> = p" by simp
  then show ?thesis by (simp only: put_parser_def)
qed

lemma put_loop_done: "pr_state p = Done \<Longrightarrow> 0 < fuel \<Longrightarrow> put_loop fuel ops data p used = Some (p, used, None)"
  by (cases fuel) simp_all

lemma put_chunked_body:
  assumes "length (concat ds) \<le> m" "length (concat ds) \<le> max_uint64" "bl = 0 \<or> length (concat ds) \<le> bl"
    "2 \<le> used" "hl = 0 \<or> used \<le> hl"
  shows "\<exists>p1. put_parser (request_ops ops m) (message_text True ds @ x)
      ((read_request hl bl h frame used)\<lparr>pr_state := Chunk_header, pr_body := []\<rparr>) = Some (p1, length (message_text True ds), None) \<and>
    is_done p1 \<and> pr_body p1 = concat ds \<and> pr_message p1 = h"
proof -
  let ?ds = "filter (\<lambda>d. d \<noteq> []) ds"
  let ?p = "(read_request hl bl h frame used)\<lparr>pr_state := Chunk_header, pr_body := []\<rparr>"
  let ?data = "message_text True ds @ x"
  have "\<forall>d\<in>set ?ds. length d \<le> max_uint64" using piece_length [of _ ds] assms(2) le_trans by fastforce
  moreover have "length ?ds \<le> length ?data" using chunks_length [of ?ds] by (simp add: message_text_def)
  then have "2 * length ?ds + 3 \<le> 2 * length ?data + 3" by simp
  ultimately have "\<exists>p1. put_loop (2 * length ?data + 3) (request_ops ops m) (pending_end ?p @ concat (map chunk_text ?ds) @ last_chunk @ x) ?p 0 =
      Some (p1, 0 + length (pending_end ?p @ concat (map chunk_text ?ds) @ last_chunk), None) \<and>
      pr_state p1 = Done \<and> pr_body p1 = pr_body ?p @ concat ?ds \<and> pr_message p1 = pr_message ?p"
    using assms by (intro put_loop_chunks) (auto simp: filter_pieces request.message_kind_laws_axioms)
  then show ?thesis using put_parser_received [of ?p "request_ops ops m" ?data]
    by (simp add: pending_end_def message_text_def is_done_def filter_pieces)
qed

lemma put_length_body:
  assumes "length (concat ds) \<le> m"
  shows "\<exists>p1. put_parser (request_ops ops m) (message_text False ds @ x)
      ((read_request hl bl h frame used)\<lparr>pr_remaining := length (concat ds),
        pr_state := (if length (concat ds) = 0 then Done else Body_length), pr_body := []\<rparr>) =
        Some (p1, length (message_text False ds), None) \<and>
    is_done p1 \<and> pr_body p1 = concat ds \<and> pr_message p1 = h"
proof (cases "concat ds = []")
  case True
  then show ?thesis by (simp add: put_parser_received put_loop_done message_text_def is_done_def)
next
  case False
  let ?p = "(read_request hl bl h frame used)\<lparr>pr_remaining := length (concat ds), pr_state := Body_length, pr_body := []\<rparr>"
  let ?q = "?p\<lparr>pr_body := concat ds, pr_total := length (concat ds), pr_remaining := 0, pr_state := Done\<rparr>"
  have "put_state (request_ops ops m) (concat ds @ x) ?p = (?q, length (concat ds), None)"
    using put_body_read [of "request_ops ops m" m ?p "concat ds" x] False assms by (simp add: put_state_def)
  from put_loop_step [OF this _ False, of "2 * length (concat ds @ x) + 2" 0]
  have "put_loop (Suc (2 * length (concat ds @ x) + 2)) (request_ops ops m) (concat ds @ x) ?p 0 = Some (?q, length (concat ds), None)"
    by simp
  moreover have "Suc (2 * length (concat ds @ x) + 2) = 2 * length (concat ds @ x) + 3" by simp
  ultimately have "put_loop (2 * length (concat ds @ x) + 3) (request_ops ops m) (concat ds @ x) ?p 0 = Some (?q, length (concat ds), None)"
    by metis
  with False put_parser_received [of ?p "request_ops ops m" "concat ds @ x"] show ?thesis
    by (simp del: concat_eq_Nil_conv add: message_text_def is_done_def)
qed

text \<open>
  C11. The round trip of a request. What the serializer writes of a request with a body of any pieces, a
  parser reads back: one put consumes the header, a second one the body, and the parser is then done with the
  same header and the same body, and has consumed all that was written and nothing of what
  follows on the stream. The body is coded as chunks, or has the length that its header states, and the
  limits of the parser admit the header and the body.
\<close>

theorem request_roundtrip:
  assumes "http_text ops" "valid_request h" "header_text w = serialize_request_header ops"
    "writer_init (writer w) b0 = (b, None)" "writes (writer w) b ds" "length ds \<le> fuel"
    "frame_fields ops framing_init (header_fields h) = (frame, None)" "get_chunked ops h = frame_chunked frame"
    "frame_chunked frame \<or> frame_length frame = Some (length (concat ds))"
    "length (concat ds) \<le> m" "length (concat ds) \<le> max_uint64"
    "hl = 0 \<or> length (serialize_request_header ops h) \<le> hl" "bl = 0 \<or> length (concat ds) \<le> bl"
  shows "\<exists>out p1 u p2 v. write_message fuel w (serializer_init ops h b0) [] = Some (out, None) \<and>
    put_parser (request_ops ops m) (out @ x) (request_parser hl bl) = Some (p1, u, None) \<and> is_header_done p1 \<and> pr_message p1 = h \<and>
    put_parser (request_ops ops m) (drop u (out @ x)) p1 = Some (p2, v, None) \<and> is_done p2 \<and> pr_message p2 = h \<and>
    pr_body p2 = concat ds \<and> drop v (drop u (out @ x)) = x"
proof -
  let ?header = "serialize_request_header ops h"
  let ?body = "message_text (frame_chunked frame) ds"
  let ?p = "read_request hl bl h frame (length ?header)"
  have written: "write_message fuel w (serializer_init ops h b0) [] = Some (?header @ ?body, None)"
    using write_message_text [OF assms(5,4,6), of "serializer_init ops h b0"] assms(3,8) by (simp add: serializer_init_def)
  have "unambiguous framing_init" by (simp add: unambiguous_def framing_init_def)
  with frame_fields_unambiguous [OF assms(7)] have frame: "unambiguous frame" by blast
  have long: "2 \<le> length ?header" by (simp add: serialize_header_text request_line_def)
  define p1 where "p1 = (if frame_chunked frame then ?p\<lparr>pr_state := Chunk_header, pr_body := []\<rparr>
    else ?p\<lparr>pr_remaining := length (concat ds), pr_state := (if length (concat ds) = 0 then Done else Body_length), pr_body := []\<rparr>)"
  have "finish_header (request_ops ops m) ?p = (p1, None)"
  proof (cases "frame_chunked frame")
    case True
    with frame have "frame_length frame = None" by (simp add: unambiguous_def)
    from finish_chunked [OF this True] True show ?thesis by (simp add: p1_def)
  next
    case False
    with assms(9) have "frame_length frame = Some (length (concat ds))" by simp
    from finish_length [OF this assms(10,13)] show ?thesis unfolding p1_def if_not_P [OF False] .
  qed
  then have first: "put_parser (request_ops ops m) ((?header @ ?body) @ x) (request_parser hl bl) = Some (p1, length ?header, None)"
    using put_request_header [OF assms(1,2,7,12), of m "?body @ x" bl] by (simp add: Let_def)
  have "\<exists>p2. put_parser (request_ops ops m) (?body @ x) p1 = Some (p2, length ?body, None) \<and> is_done p2 \<and>
      pr_body p2 = concat ds \<and> pr_message p2 = h"
    using put_chunked_body [OF assms(10,11,13) long assms(12), of ops x h frame] put_length_body [OF assms(10), of ops x hl bl h frame]
    unfolding p1_def by (cases "frame_chunked frame") (simp_all only: if_True if_False)
  then obtain p2 where second: "put_parser (request_ops ops m) (?body @ x) p1 = Some (p2, length ?body, None)" "is_done p2"
    "pr_message p2 = h" "pr_body p2 = concat ds" by blast
  have header: "is_header_done p1" "pr_message p1 = h" by (simp_all add: p1_def is_header_done_def)
  have rest: "drop (length ?header) ((?header @ ?body) @ x) = ?body @ x" "drop (length ?body) (?body @ x) = x" by simp_all
  have "put_parser (request_ops ops m) (drop (length ?header) ((?header @ ?body) @ x)) p1 = Some (p2, length ?body, None)"
    "drop (length ?body) (drop (length ?header) ((?header @ ?body) @ x)) = x"
    unfolding rest by (rule second(1), rule refl)
  with written first header second(2-4) show ?thesis by (intro exI conjI)
qed

text \<open>A POST of three bytes in two chunks.\<close>

definition posted :: request_header where
  "posted = request_init\<lparr>request_verb := verb_post, request_target := ''/'',
     header_fields := [\<lparr>entry_id = field_transfer_encoding, entry_name = ''Transfer-Encoding'', entry_value = ''chunked''\<rparr>]\<rparr>"

text \<open>A writer of the pieces of a list.\<close>

definition list_writer :: "string list body_writer" where
  "list_writer = \<lparr>writer_init = \<lambda>ds. (ds, None),
     writer_get = \<lambda>ds. (case ds of [] \<Rightarrow> ([], None, None) | d # rest \<Rightarrow> (rest, Some (d, rest \<noteq> []), None))\<rparr>"

lemma list_writer_writes: "ds \<noteq> [] \<Longrightarrow> writes list_writer ds ds"
proof (induction ds)
  case (Cons d ds)
  then show ?case
    using writes_more [of list_writer "d # ds" ds d ds] writes_last [of list_writer "[d]" "[]" d]
    by (cases "ds = []") (simp_all add: list_writer_def)
qed simp

lemma posted_valid: "valid_request posted"
  by code_simp

lemma posted_frame: "frame_fields memory_text framing_init (header_fields posted) =
    (\<lparr>frame_chunked = True, frame_encoded = False, frame_length = None\<rparr>, None)"
  by code_simp

theorem framing_unambiguous_witness:
  "\<exists>p1 u ec. put_parser (request_ops memory_text 9) ''G'' (request_parser 0 0) = Some (p1, u, ec) \<and> unambiguous (pr_frame p1)"
proof -
  have put: "\<exists>p1 u ec. put_parser (request_ops memory_text 9) ''G'' (request_parser 0 0) = Some (p1, u, ec)"
    using put_parser_head [of "request_parser 0 0" "request_ops memory_text 9"] request.message_kind_laws_axioms
    by (simp add: is_header_done_def request_parser_def parser_init_def) (metis surj_pair)
  have "unambiguous (pr_frame (request_parser 0 0))" by (simp add: request_parser_def parser_init_def unambiguous_def framing_init_def)
  with put framing_unambiguous show ?thesis by blast
qed

theorem request_roundtrip_witness:
  "\<exists>out p1 u p2 v. write_message 2 \<lparr>header_text = serialize_request_header memory_text, writer = list_writer\<rparr>
      (serializer_init memory_text posted [''ab'', ''c'']) [] = Some (out, None) \<and>
    put_parser (request_ops memory_text 9) (out @ ''x'') (request_parser 0 3) = Some (p1, u, None) \<and> is_header_done p1 \<and> pr_message p1 = posted \<and>
    put_parser (request_ops memory_text 9) (drop u (out @ ''x'')) p1 = Some (p2, v, None) \<and> is_done p2 \<and> pr_message p2 = posted \<and>
    pr_body p2 = concat [''ab'', ''c''] \<and> drop v (drop u (out @ ''x'')) = ''x''"
proof (rule request_roundtrip [OF mem_text.http_text_axioms posted_valid _ _ _ _ posted_frame])
  show "writes (writer \<lparr>header_text = serialize_request_header memory_text, writer = list_writer\<rparr>) [''ab'', ''c''] [''ab'', ''c'']"
    using list_writer_writes by simp
  show "writer_init (writer \<lparr>header_text = serialize_request_header memory_text, writer = list_writer\<rparr>) [''ab'', ''c''] = ([''ab'', ''c''], None)"
    by (simp add: list_writer_def)
  show "get_chunked memory_text posted = frame_chunked \<lparr>frame_chunked = True, frame_encoded = False, frame_length = None\<rparr>"
    by code_simp
qed (simp_all add: max_uint64_def)

end
