(* ===== verification/Http_Bodies.thy ===== *)
theory Http_Bodies
  imports Http_Serializer
begin

text \<open>
  The bodies of http messages (\<open>src/include/bitcoin/network/messages/http/bodies.hpp\<close>): their readers, which a
  parser drives, and their writers, which a serializer drives. The reader of \<open>empty_body\<close> and that of
  \<open>contiguous_body\<close> are in \<open>Http_Machine\<close>. Also the parser and the serializer of a body without a header
  (\<open>body_parser\<close>, \<open>body_serializer\<close>).
\<close>

section \<open>Writers in memory\<close>

definition empty_writer :: "unit body_writer" where
  "empty_writer = \<lparr>writer_init = \<lambda>b. (b, None), writer_get = \<lambda>b. (b, None, None)\<rparr>"

definition contiguous_writer :: "string body_writer" where
  "contiguous_writer = \<lparr>writer_init = \<lambda>val. (val, None), writer_get = \<lambda>val. (val, Some (val, False), None)\<rparr>"

section \<open>Caller memory\<close>

text \<open>Memory of the caller, and the part of it that the span covers.\<close>

record span =
  span_memory :: string
  span_at :: nat
  span_size :: nat

definition store_bytes :: "nat \<Rightarrow> string \<Rightarrow> string \<Rightarrow> string" where
  "store_bytes at data memory = take at memory @ data @ drop (at + length data) memory"

definition span_reader :: "('h, span) reader_ops" where
  "span_reader = \<lparr>
     reader_init = \<lambda>_ len val. (val, case len of None \<Rightarrow> None
       | Some n \<Rightarrow> if span_size val < n then Some (Http http_buffer_overflow) else None),
     reader_put = \<lambda>data val.
       (if span_size val < length data then (val, 0, Some (Http http_buffer_overflow))
        else (\<lparr>span_memory = store_bytes (span_at val) data (span_memory val), span_at = span_at val + length data,
               span_size = span_size val - length data\<rparr>, length data, None)),
     reader_finish = \<lambda>val. (val, None)\<rparr>"

definition span_writer :: "span body_writer" where
  "span_writer = \<lparr>writer_init = \<lambda>val. (val, None),
     writer_get = \<lambda>val. (val, Some (take (span_size val) (drop (span_at val) (span_memory val)), False), None)\<rparr>"

text \<open>\<open>buffer_body\<close>: the memory, the position of the data (None is null), its size, and whether more follow.\<close>

record buffers =
  buf_memory :: string
  buf_data :: "nat option"
  buf_size :: nat
  buf_again :: bool

definition buffer_reader :: "('h, buffers) reader_ops" where
  "buffer_reader = \<lparr>
     reader_init = \<lambda>_ _ val. (val, None),
     reader_put = \<lambda>data val.
       (case buf_data val of None \<Rightarrow> (val, 0, Some (Http http_need_buffer))
        | Some at \<Rightarrow>
            let n = min (length data) (buf_size val)
            in (val\<lparr>buf_memory := store_bytes at (take n data) (buf_memory val), buf_data := Some (at + n), buf_size := buf_size val - n\<rparr>, n,
                if n < length data then Some (Http http_need_buffer) else None)),
     reader_finish = \<lambda>val. (val, None)\<rparr>"

text \<open>The writer, with its toggle.\<close>

definition buffer_writer :: "(buffers \<times> bool) body_writer" where
  "buffer_writer = \<lparr>writer_init = \<lambda>b. (b, None),
     writer_get = \<lambda>(val, toggle).
       let again = (if buf_again val then Some (Http http_need_buffer) else None) in
       if toggle then ((val, False), None, again)
       else (case buf_data val of
           Some at \<Rightarrow> ((val, True), Some (take (buf_size val) (drop at (buf_memory val)), buf_again val), None)
         | None \<Rightarrow> ((val, toggle), None, again))\<rparr>"

section \<open>Files\<close>

text \<open>
  A file (\<open>file.cpp\<close>, on a stream of the standard library) is a parameter: a read gives the bytes read and
  whether it succeeded. The writer holds the file and the size that remains.
\<close>

record 'f file_ops =
  file_is_open :: "'f \<Rightarrow> bool"
  file_size :: "'f \<Rightarrow> nat"
  file_read :: "nat \<Rightarrow> 'f \<Rightarrow> 'f \<times> string \<times> bool"
  file_write :: "string \<Rightarrow> 'f \<Rightarrow> 'f \<times> bool"

definition read_size :: nat where "read_size = 4096"

definition file_reader :: "'f file_ops \<Rightarrow> ('h, 'f) reader_ops" where
  "file_reader fl = \<lparr>
     reader_init = \<lambda>_ _ val. (val, if file_is_open fl val then None else Some (Code e_bad_stream)),
     reader_put = \<lambda>data val. (case file_write fl data val of (val1, ok) \<Rightarrow>
       if \<not> ok then (val1, 0, Some (Code e_bad_stream)) else (val1, length data, None)),
     reader_finish = \<lambda>val. (val, None)\<rparr>"

definition file_writer :: "'f file_ops \<Rightarrow> ('f \<times> nat) body_writer" where
  "file_writer fl = \<lparr>
     writer_init = \<lambda>(val, remaining).
       if \<not> file_is_open fl val then ((val, remaining), Some (Code e_bad_stream)) else ((val, file_size fl val), None),
     writer_get = \<lambda>(val, remaining).
       let n = min remaining read_size; (val1, data, ok) = file_read fl n val
       in if \<not> ok \<or> length data \<noteq> n then ((val1, remaining), None, Some (Code e_bad_stream))
          else ((val1, remaining - length data), Some (data, remaining - length data \<noteq> 0), None)\<rparr>"

section \<open>Contracts\<close>

text \<open>The readers consume no more than they are given.\<close>

interpretation span: body_reader_laws span_reader
  by unfold_locales (auto simp: span_reader_def split: if_splits)

interpretation buffers: body_reader_laws buffer_reader
  by unfold_locales (auto simp: buffer_reader_def Let_def split: option.splits)

interpretation files: body_reader_laws "file_reader fl" for fl
  by unfold_locales (auto simp: file_reader_def split: prod.splits if_splits)

text \<open>
  What the writer of a file relies on: a file with a size reads the next bytes of its contents, whole, as long as
  there are as many.
\<close>

locale file_contents =
  fixes fl :: "'f file_ops" and contents :: "'f \<Rightarrow> string"
  assumes read_next: "n \<le> length (contents val) \<Longrightarrow>
      \<exists>val1. file_read fl n val = (val1, take n (contents val), True) \<and> contents val1 = drop n (contents val)"
    and size_contents: "file_is_open fl val \<Longrightarrow> file_size fl val = length (contents val)"
begin

lemma file_pieces:
  "\<exists>ds. writes (file_writer fl) (val, length (contents val)) ds \<and> concat ds = contents val \<and> (\<forall>d\<in>set ds. length d \<le> read_size)"
proof (induction "length (contents val)" arbitrary: val rule: less_induct)
  case less
  define n where "n = min (length (contents val)) read_size"
  then obtain val1 where next1: "file_read fl n val = (val1, take n (contents val), True)" "contents val1 = drop n (contents val)"
    using read_next [of n val] by auto
  then have get: "writer_get (file_writer fl) (val, length (contents val)) =
    ((val1, length (contents val1)), Some (take n (contents val), length (contents val1) \<noteq> 0), None)"
    by (simp add: file_writer_def n_def Let_def)
  show ?case
  proof (cases "length (contents val1) = 0")
    case True
    with get have "writes (file_writer fl) (val, length (contents val)) [take n (contents val)]"
      by (intro writes_last [where ?b1.0 = "(val1, length (contents val1))"]) simp
    with True next1(2) show ?thesis by (intro exI [of _ "[take n (contents val)]"]) (simp add: n_def)
  next
    case False
    with next1(2) have "0 < length (contents val)" by (cases "contents val") auto
    then have "0 < n" by (simp add: n_def read_size_def)
    then have "length (contents val1) < length (contents val)" using next1(2) \<open>0 < length (contents val)\<close> by simp
    from less [OF this] obtain ds where ds: "writes (file_writer fl) (val1, length (contents val1)) ds" "concat ds = contents val1"
      "\<forall>d\<in>set ds. length d \<le> read_size" by blast
    have "writes (file_writer fl) (val, length (contents val)) (take n (contents val) # ds)"
      by (rule writes_more [OF _ ds(1)]) (use get False in simp)
    with ds next1(2) show ?thesis by (intro exI [of _ "take n (contents val) # ds"]) (simp add: n_def)
  qed
qed

end

text \<open>A file in memory: its contents, from the position on.\<close>

definition memory_file :: "string file_ops" where
  "memory_file = \<lparr>file_is_open = \<lambda>_. True, file_size = length, file_read = \<lambda>n f. (drop n f, take n f, True),
     file_write = \<lambda>data f. (f @ data, True)\<rparr>"

interpretation memory: file_contents memory_file "\<lambda>f. f"
  by unfold_locales (simp_all add: memory_file_def)

text \<open>What each body writes.\<close>

lemma body_writes:
  "writes empty_writer () [[]]"
  "writes contiguous_writer val [val]"
  "writes span_writer sp [take (span_size sp) (drop (span_at sp) (span_memory sp))]"
  by (rule writes.intros(1) [of _ _ "()"], simp add: empty_writer_def,
      rule writes.intros(2) [of _ _ val], simp add: contiguous_writer_def,
      rule writes.intros(2) [of _ _ sp], simp add: span_writer_def)

text \<open>
  A file is written whole as the body of a message, whatever its size: the writer yields its bytes in order,
  in pieces of at most the read size, and ends. (The file reads the bytes that its size promises.)
\<close>

theorem file_written:
  assumes "file_contents fl contents" "file_is_open fl val"
  shows "\<exists>b ds. writer_init (file_writer fl) (val, 0) = (b, None) \<and> writes (file_writer fl) b ds \<and>
    concat ds = contents val \<and> (\<forall>d\<in>set ds. length d \<le> read_size)"
proof -
  have "writer_init (file_writer fl) (val, 0) = ((val, length (contents val)), None)"
    using file_contents.size_contents [OF assms] assms(2) by (simp add: file_writer_def)
  with file_contents.file_pieces [OF assms(1), of val] show ?thesis by blast
qed

theorem file_written_witness:
  "\<exists>b ds. writer_init (file_writer memory_file) (''abc'', 0) = (b, None) \<and> writes (file_writer memory_file) b ds \<and>
    concat ds = ''abc'' \<and> (\<forall>d\<in>set ds. length d \<le> read_size)"
  by (rule file_written [OF memory.file_contents_axioms]) (simp add: memory_file_def)

section \<open>Bodies without a header\<close>

record 'b body_parser =
  bp_body :: 'b
  bp_limit :: nat
  bp_total :: nat
  bp_initialized :: bool
  bp_done :: bool

definition put_headless :: "('h, 'b) reader_ops \<Rightarrow> 'h \<Rightarrow> string \<Rightarrow> 'b body_parser \<Rightarrow> 'b body_parser \<times> nat \<times> parse_code" where
  "put_headless r message data p =
    (if bp_done p then (p, 0, None)
     else let (body, ec) = (if bp_initialized p then (bp_body p, None) else reader_init r message None (bp_body p));
              p1 = p\<lparr>bp_initialized := True, bp_body := body\<rparr>
       in if ec \<noteq> None then (p1, 0, ec)
          else let (body1, used, ec1) = reader_put r data (bp_body p1);
                   p2 = p1\<lparr>bp_body := body1, bp_total := min max_uint64 (bp_total p1 + used)\<rparr>
            in if bp_limit p2 \<noteq> 0 \<and> bp_limit p2 < bp_total p2 then (p2, used, Some (Http http_body_limit))
               else if ec1 \<noteq> None then (p2, used, ec1)
               else if used = 0 then (p2, 0, Some (Http http_need_more))
               else let (body2, ec2) = reader_finish r (bp_body p2)
                 in (p2\<lparr>bp_body := body2, bp_done := (ec2 = None)\<rparr>, used, ec2))"

record 'b body_serializer =
  bs_body :: 'b
  bs_initialized :: bool
  bs_done :: bool

definition headless_next :: "'b body_writer \<Rightarrow> 'b body_serializer \<Rightarrow> 'b body_serializer \<times> string list \<times> parse_code" where
  "headless_next w s =
    (if bs_done s then (s, [], None)
     else let (body, ec) = (if bs_initialized s then (bs_body s, None) else writer_init w (bs_body s));
              s1 = s\<lparr>bs_initialized := True, bs_body := body\<rparr>
       in if ec \<noteq> None then (s1, [], ec)
          else let (body1, out, ec1) = writer_get w (bs_body s1); s2 = s1\<lparr>bs_body := body1\<rparr>
            in if ec1 \<noteq> None then (s2, [], ec1)
               else (s2\<lparr>bs_done := (case out of None \<Rightarrow> True | Some (_, again) \<Rightarrow> \<not> again)\<rparr>,
                     [case out of None \<Rightarrow> [] | Some (data, _) \<Rightarrow> data], None))"

text \<open>A body reader that reads what it is given leaves a parser of its body done with one put of any bytes within the limit.\<close>

lemma headless_read:
  assumes "data \<noteq> []" "length data \<le> m" "m \<le> max_uint64" "limit = 0 \<or> length data \<le> limit"
  shows "put_headless (contiguous_reader m) message data
      \<lparr>bp_body = old, bp_limit = limit, bp_total = 0, bp_initialized = False, bp_done = False\<rparr> =
    (\<lparr>bp_body = data, bp_limit = limit, bp_total = length data, bp_initialized = True, bp_done = True\<rparr>, length data, None)"
  using assms by (auto simp: put_headless_def contiguous_reader_def Let_def)

end
