(* ===== verification/Http_Target.thy ===== *)
theory Http_Target
  imports Http_Fields "HOL-Library.Sublist"
begin

text \<open>
  Request targets and their files (\<open>src/src/messages/http/enums/target.cpp\<close>) and media types
  (\<open>src/src/messages/http/enums/media_type.cpp\<close>). The parser of uris is a class of libbitcoin-system and the
  file system is that of the standard library: both are parameters. A path is its (generic) text, and an
  exception is \<open>None\<close>.
\<close>

section \<open>Forms of a target\<close>

record uri =
  uri_scheme :: "string option"
  uri_path :: string
  uri_query :: bool
  uri_fragment :: bool

type_synonym uri_decode = "string \<Rightarrow> uri option"

definition max_url :: nat where "max_url = 1024"

definition is_origin_form :: "uri_decode \<Rightarrow> string \<Rightarrow> bool" where
  "is_origin_form decode t \<longleftrightarrow>
    (if max_url < length t then False
     else take 1 t = ''/'' \<and> take 2 t \<noteq> ''//'' \<and> (case decode t of None \<Rightarrow> False | Some u \<Rightarrow> \<not> uri_fragment u))"

definition is_absolute_form :: "uri_decode \<Rightarrow> string \<Rightarrow> bool" where
  "is_absolute_form decode t \<longleftrightarrow>
    (if max_url < length t then False
     else (case decode t of None \<Rightarrow> False
       | Some u \<Rightarrow> \<not> (uri_scheme u = None \<or> uri_fragment u) \<and> (uri_scheme u = Some ''http'' \<or> uri_scheme u = Some ''https'')))"

definition is_authority_form :: "uri_decode \<Rightarrow> string \<Rightarrow> bool" where
  "is_authority_form decode t \<longleftrightarrow>
    (if max_url < length t then False
     else take 2 t = ''//'' \<and> (case decode t of None \<Rightarrow> False | Some u \<Rightarrow> uri_path u = [] \<and> \<not> uri_query u \<and> \<not> uri_fragment u))"

definition is_asterisk_form :: "string \<Rightarrow> bool" where
  "is_asterisk_form t \<longleftrightarrow> t = ''*''"

datatype target = target_origin | target_absolute | target_authority | target_asterisk | target_unknown

definition to_target :: "uri_decode \<Rightarrow> string \<Rightarrow> verb \<Rightarrow> target" where
  "to_target decode t v =
    (if v \<in> {verb_get, verb_head, verb_post, verb_put, verb_delete, verb_trace} then
       (if is_origin_form decode t then target_origin else if is_absolute_form decode t then target_absolute else target_unknown)
     else if v = verb_options then
       (if is_asterisk_form t then target_asterisk else if is_origin_form decode t then target_origin
        else if is_absolute_form decode t then target_absolute else target_unknown)
     else if v = verb_connect then (if is_authority_form decode t then target_authority else target_unknown)
     else target_unknown)"

section \<open>Files of a target\<close>

text \<open>The expression \<open>^/([a-zA-Z0-9_\-\.]+/)*[a-zA-Z0-9_\-\.]+$\<close>, matched by the parts between separators.\<close>

definition is_safe_char :: "char \<Rightarrow> bool" where
  "is_safe_char c \<longleftrightarrow> 97 \<le> (of_char c :: nat) \<and> (of_char c :: nat) \<le> 122 \<or> 65 \<le> (of_char c :: nat) \<and> (of_char c :: nat) \<le> 90 \<or>
     is_digit c \<or> c \<in> set ''_-.''"

definition is_segment :: "string \<Rightarrow> bool" where
  "is_segment w \<longleftrightarrow> w \<noteq> [] \<and> (\<forall>c\<in>set w. is_safe_char c)"

fun has_dots :: "string \<Rightarrow> bool" where
  "has_dots (c # d # cs) = (c = CHR ''.'' \<and> d = CHR ''.'' \<or> has_dots (d # cs))"
| "has_dots _ = False"

definition is_safe_target :: "string \<Rightarrow> bool" where
  "is_safe_target t \<longleftrightarrow> take 1 t = ''/'' \<and> (\<forall>w\<in>set (parts (CHR ''/'') (drop 1 t)). is_segment w) \<and> \<not> has_dots t"

record file_system =
  is_absolute :: "string \<Rightarrow> bool"
  weakly_canonical :: "string \<Rightarrow> string option"
  path_exists :: "string \<Rightarrow> bool option"
  is_directory :: "string \<Rightarrow> bool option"
  is_regular_file :: "string \<Rightarrow> bool option"

definition path_contains :: "string \<Rightarrow> string \<Rightarrow> bool" where
  "path_contains base full \<longleftrightarrow> take (length base) full = base \<and> length base < length full"

text \<open>The existing path is of the kind.\<close>

definition unless_exists :: "file_system \<Rightarrow> (string \<Rightarrow> bool option) \<Rightarrow> string \<Rightarrow> bool option" where
  "unless_exists fs is_kind path =
    (case path_exists fs path of None \<Rightarrow> None | Some False \<Rightarrow> Some True | Some True \<Rightarrow> is_kind path)"

definition to_canonical :: "file_system \<Rightarrow> string \<Rightarrow> string \<Rightarrow> string" where
  "to_canonical fs root t =
    (if \<not> is_absolute fs root then []
     else (case weakly_canonical fs root of None \<Rightarrow> []
       | Some dir \<Rightarrow>
         if unless_exists fs (is_directory fs) dir \<noteq> Some True then []
         else (case weakly_canonical fs (root @ t) of None \<Rightarrow> []
           | Some path \<Rightarrow>
             if unless_exists fs (is_regular_file fs) path \<noteq> Some True then []
             else if path_contains dir path then path else [])))"

definition sanitize_origin :: "file_system \<Rightarrow> uri_decode \<Rightarrow> string \<Rightarrow> string \<Rightarrow> string" where
  "sanitize_origin fs decode base t = (if is_origin_form decode t \<and> is_safe_target t then to_canonical fs base t else [])"

section \<open>Safe targets\<close>

definition rooted :: "string list \<Rightarrow> string" where
  "rooted ws = concat (map (\<lambda>w. CHR ''/'' # w) ws)"






section \<open>Paths by their components\<close>


definition path_text :: "string list \<Rightarrow> string" where
  "path_text cs = (if cs = [] then ''/'' else rooted cs)"



lemma rooted_simps [simp]: "rooted [] = []" "rooted (w # ws) = CHR ''/'' # w @ rooted ws" "rooted (us @ ws) = rooted us @ rooted ws"
  by (simp_all add: rooted_def)


lemma rooted_empty [simp]: "rooted ws = [] \<longleftrightarrow> ws = []"
  by (cases ws) simp_all



lemma contains_self [simp]: "\<not> path_contains p p"
  by (simp add: path_contains_def)


section \<open>Lexical file systems\<close>

text \<open>
  A file system without links: the canonical form of an absolute path is that of its text, in which empty
  parts and dots are dropped and a double dot removes the part before it.
\<close>

definition resolve_part :: "string list \<Rightarrow> string \<Rightarrow> string list" where
  "resolve_part cs w = (if w = [] \<or> w = ''.'' then cs else if w = ''..'' then butlast cs else cs @ [w])"

definition resolve_text :: "string \<Rightarrow> string list" where
  "resolve_text p = foldl resolve_part [] (parts (CHR ''/'') p)"















text \<open>A file system without links, and one in which a link of the root leads to a sibling of it.\<close>

definition plain_files :: file_system where
  "plain_files = \<lparr>is_absolute = \<lambda>p. take 1 p = ''/'', weakly_canonical = \<lambda>p. Some (path_text (resolve_text p)),
     path_exists = \<lambda>_. Some True, is_directory = \<lambda>p. Some (p = ''/srv/www''), is_regular_file = \<lambda>p. Some (p \<noteq> ''/srv/www'')\<rparr>"

definition linked_files :: file_system where
  "linked_files = plain_files\<lparr>weakly_canonical := \<lambda>p. Some (if p = ''/srv/www/link'' then ''/srv/www-private/key''
     else path_text (resolve_text p))\<rparr>"

definition decode_any :: uri_decode where
  "decode_any = (\<lambda>t. Some \<lparr>uri_scheme = None, uri_path = t, uri_query = False, uri_fragment = False\<rparr>)"

lemma sibling_served: "sanitize_origin linked_files decode_any ''/srv/www'' ''/link'' = ''/srv/www-private/key''"
  by code_simp



section \<open>Media types\<close>

datatype media_type = application_javascript | application_json | application_octet_stream | application_pdf
  | application_xml | application_zip | audio_mpeg | font_woff | font_woff2 | image_gif | image_jpeg | image_png
  | image_svg_xml | image_x_icon | text_css | text_html | text_plain | video_mp4 | media_unknown

definition media_types_map :: "(string \<times> media_type) list" where
  "media_types_map = [(''application/javascript'', application_javascript), (''application/json'', application_json),
    (''application/octet-stream'', application_octet_stream), (''application/pdf'', application_pdf),
    (''application/xml'', application_xml), (''application/zip'', application_zip), (''audio/mpeg'', audio_mpeg),
    (''font/woff'', font_woff), (''font/woff2'', font_woff2), (''image/gif'', image_gif), (''image/jpeg'', image_jpeg),
    (''image/png'', image_png), (''image/svg+xml'', image_svg_xml), (''image/x-icon'', image_x_icon),
    (''text/css'', text_css), (''text/html'', text_html), (''text/plain'', text_plain), (''video/mp4'', video_mp4)]"

definition to_media_type :: "http_ops \<Rightarrow> string \<Rightarrow> media_type \<Rightarrow> media_type" where
  "to_media_type ops accept unlisted = (case map_of media_types_map (ascii_to_lower ops accept) of None \<Rightarrow> unlisted | Some m \<Rightarrow> m)"

definition from_media_type :: "media_type \<Rightarrow> string \<Rightarrow> string" where
  "from_media_type m unlisted = (case map_of (map (\<lambda>(str, k). (k, str)) media_types_map) m of None \<Rightarrow> unlisted | Some str \<Rightarrow> str)"

text \<open>Here the parts are those of \<open>split\<close> with its default whitespace, not that of http.\<close>

definition content_media_type :: "(char \<Rightarrow> string \<Rightarrow> string list) \<Rightarrow> http_ops \<Rightarrow> string \<Rightarrow> media_type \<Rightarrow> media_type" where
  "content_media_type split_all ops content_type unlisted =
    (if content_type = [] then unlisted
     else (case split_all (CHR '';'') content_type of [] \<Rightarrow> unlisted
       | part # _ \<Rightarrow> (case map_of media_types_map (ascii_to_lower ops part) of None \<Rightarrow> unlisted | Some m \<Rightarrow> m)))"

definition fields_media_type :: "(char \<Rightarrow> string \<Rightarrow> string list) \<Rightarrow> http_ops \<Rightarrow> fields \<Rightarrow> media_type \<Rightarrow> media_type" where
  "fields_media_type split_all ops fs unlisted = content_media_type split_all ops (field_at field_content_type fs) unlisted"

definition extension_types :: "(string \<times> media_type) list" where
  "extension_types = [(''.js'', application_javascript), (''.json'', application_json), (''.pdf'', application_pdf),
    (''.zip'', application_zip), (''.xml'', application_xml), (''.mp3'', audio_mpeg), (''.woff'', font_woff),
    (''.woff2'', font_woff2), (''.gif'', image_gif), (''.jpg'', image_jpeg), (''.jpeg'', image_jpeg), (''.png'', image_png),
    (''.svg'', image_svg_xml), (''.ico'', image_x_icon), (''.css'', text_css), (''.html'', text_html), (''.htm'', text_html),
    (''.txt'', text_plain), (''.mp4'', video_mp4)]"

definition extension_media_type :: "http_ops \<Rightarrow> string \<Rightarrow> media_type \<Rightarrow> media_type" where
  "extension_media_type ops extension unlisted =
    (case map_of extension_types (ascii_to_lower ops extension) of None \<Rightarrow> unlisted | Some m \<Rightarrow> m)"

lemma media_types_distinct: "distinct (map fst media_types_map)" "distinct (map snd media_types_map)"
  by code_simp+

lemma media_type_listed: "(str, m) \<in> set media_types_map \<Longrightarrow> from_media_type m unlisted = str \<and> map_of media_types_map str = Some m"
proof -
  assume listed: "(str, m) \<in> set media_types_map"
  have "distinct (map fst (map (\<lambda>(str, k). (k, str)) media_types_map))"
    using media_types_distinct(2) by (simp add: comp_def case_prod_beta)
  moreover have "(m, str) \<in> set (map (\<lambda>(str, k). (k, str)) media_types_map)" using listed by force
  ultimately have "map_of (map (\<lambda>(str, k). (k, str)) media_types_map) m = Some str" by (rule map_of_is_SomeI)
  with listed media_types_distinct(1) show ?thesis by (simp add: from_media_type_def)
qed

end
