(* ===== verification/Peer_Protocols.thy ===== *)
theory Peer_Protocols
  imports Address Error_Code
begin

text \<open>
  The protocols of a peer channel after its handshake (\<open>src/src/protocols\<close>): keep alive (\<open>protocol_ping_106\<close>,
  \<open>protocol_ping_60001\<close>), the exchange of addresses (\<open>protocol_address_in_209\<close>, \<open>protocol_address_out_209\<close> and
  their \<open>70016\<close> forms) and seeding (\<open>protocol_seed_209\<close>, \<open>70016\<close>). The state of each is its members, the code its
  channel is stopped with, and the log of what it asks of its channel and session. Every handler runs on the
  strand of the channel, so the interleavings are the sequences of the steps. A subscription ends when its
  handler returns false: after that no step of it is taken. Random numbers and shuffles are inputs.
\<close>

section \<open>Keep alive\<close>

datatype ping_effect = Ping_sent "nat option" | Pong_notified nat | Mark_ping | Mark_pong nat

text \<open>\<open>nonced\<close> selects the class: 60001 sends a nonce and expects it back, 106 does neither.\<close>

record pinging =
  ping_started :: bool
  ping_stopped :: "error_t option"
  ping_nonce :: nat
  on_ping :: bool
  on_pong :: bool
  ping_sending :: nat
  ping_timer :: bool
  ping_log :: "ping_effect list"

definition acknowledged :: nat where "acknowledged = 0"

definition max_int64 :: nat where "max_int64 = 2 ^ 63 - 1"

definition ping_init :: pinging where
  "ping_init = \<lparr>ping_started = False, ping_stopped = None, ping_nonce = acknowledged, on_ping = False, on_pong = False,
     ping_sending = 0, ping_timer = False, ping_log = []\<rparr>"

definition ping_stop :: "error_t \<Rightarrow> pinging \<Rightarrow> pinging" where
  "ping_stop ec s = (if ping_stopped s = None then s\<lparr>ping_stopped := Some ec\<rparr> else s)"

definition ping_is_stopped :: "error_t \<Rightarrow> pinging \<Rightarrow> bool" where
  "ping_is_stopped ec s \<longleftrightarrow> ping_stopped s \<noteq> None \<or> failed ec"

definition send_ping :: "bool \<Rightarrow> nat \<Rightarrow> pinging \<Rightarrow> pinging" where
  "send_ping nonced random s =
    (if \<not> nonced then s\<lparr>ping_sending := ping_sending s + 1, ping_log := ping_log s @ [Ping_sent None]\<rparr>
     else if ping_stopped s \<noteq> None then s
     else s\<lparr>ping_nonce := random, ping_sending := ping_sending s + 1, ping_log := ping_log s @ [Mark_ping, Ping_sent (Some random)]\<rparr>)"

definition ping_start :: "bool \<Rightarrow> nat \<Rightarrow> pinging \<Rightarrow> pinging" where
  "ping_start nonced random s =
    (if ping_started s then s
     else (send_ping nonced random (s\<lparr>on_pong := nonced, on_ping := True\<rparr>))\<lparr>ping_started := True\<rparr>)"

definition handle_send_ping :: "nat \<Rightarrow> error_t \<Rightarrow> pinging \<Rightarrow> pinging" where
  "handle_send_ping heartbeat ec s =
    (if ping_is_stopped ec s then s else if heartbeat \<noteq> 0 then s\<lparr>ping_timer := True\<rparr> else s)"

definition handle_ping_timer :: "bool \<Rightarrow> nat \<Rightarrow> error_t \<Rightarrow> pinging \<Rightarrow> pinging" where
  "handle_ping_timer nonced random ec s =
    (if ping_stopped s \<noteq> None then s
     else if failed ec then ping_stop ec s
     else if nonced \<and> ping_nonce s \<noteq> acknowledged then ping_stop e_channel_timeout s
     else send_ping nonced random s)"

definition handle_receive_ping :: "bool \<Rightarrow> error_t \<Rightarrow> nat \<Rightarrow> pinging \<Rightarrow> pinging \<times> bool" where
  "handle_receive_ping nonced ec nonce s =
    (if \<not> nonced then (s, ping_stopped s = None)
     else if ping_is_stopped ec s then (s, False)
     else (s\<lparr>ping_log := ping_log s @ [Pong_notified nonce]\<rparr>, True))"

definition handle_receive_pong :: "error_t \<Rightarrow> nat \<Rightarrow> pinging \<Rightarrow> pinging \<times> bool" where
  "handle_receive_pong ec nonce s =
    (if ping_is_stopped ec s then (s, False)
     else if nonce \<noteq> ping_nonce s then (ping_stop e_protocol_violation s, False)
     else (s\<lparr>ping_nonce := acknowledged, ping_log := ping_log s @ [Mark_pong nonce]\<rparr>, True))"

text \<open>
  The steps. A random nonce is in the range that the code asks for. A send fails only if its channel is stopped
  (\<open>protocol::stopped\<close>: any failure code from a send or receive handler implies the stop of the channel).
\<close>

definition random_nonce :: "nat \<Rightarrow> bool" where
  "random_nonce n \<longleftrightarrow> 2 \<le> n \<and> n \<le> max_int64"

inductive ping_step :: "bool \<Rightarrow> nat \<Rightarrow> pinging \<Rightarrow> pinging \<Rightarrow> bool" for nonced heartbeat where
  step_start: "random_nonce n \<Longrightarrow> \<not> ping_started s \<Longrightarrow> ping_step nonced heartbeat s (ping_start nonced n s)"
| step_sent: "0 < ping_sending s \<Longrightarrow> (failed ec \<Longrightarrow> ping_stopped s \<noteq> None) \<Longrightarrow>
    ping_step nonced heartbeat s (handle_send_ping heartbeat ec (s\<lparr>ping_sending := ping_sending s - 1\<rparr>))"
| step_timer: "ping_timer s \<Longrightarrow> random_nonce n \<Longrightarrow>
    ping_step nonced heartbeat s (handle_ping_timer nonced n ec (s\<lparr>ping_timer := False\<rparr>))"
| step_ping: "on_ping s \<Longrightarrow> handle_receive_ping nonced ec n s = (s1, again) \<Longrightarrow>
    ping_step nonced heartbeat s (s1\<lparr>on_ping := again\<rparr>)"
| step_pong: "on_pong s \<Longrightarrow> handle_receive_pong ec n s = (s1, again) \<Longrightarrow>
    ping_step nonced heartbeat s (s1\<lparr>on_pong := again\<rparr>)"
| step_stop: "ping_step nonced heartbeat s (ping_stop ec s)"

inductive ping_reach :: "bool \<Rightarrow> nat \<Rightarrow> pinging \<Rightarrow> bool" for nonced heartbeat where
  ping_created: "ping_reach nonced heartbeat ping_init"
| ping_stepped: "ping_reach nonced heartbeat s \<Longrightarrow> ping_step nonced heartbeat s s1 \<Longrightarrow> ping_reach nonced heartbeat s1"

text \<open>The dialogue: the nonces sent and those that came back, without the pongs of no ping.\<close>

fun in_dialogue :: "ping_effect \<Rightarrow> bool" where
  "in_dialogue (Ping_sent n) = (n \<noteq> None)"
| "in_dialogue (Mark_pong n) = (n \<noteq> acknowledged)"
| "in_dialogue _ = False"

definition exchange :: "nat \<Rightarrow> ping_effect list" where
  "exchange n = [Ping_sent (Some n), Mark_pong n]"

definition open_ping :: "nat \<Rightarrow> ping_effect list" where
  "open_ping n = (if n = acknowledged then [] else [Ping_sent (Some n)])"

text \<open>While the protocol runs, exactly one of a send and a timer is pending; without a heartbeat there is no timer.\<close>

definition ping_token :: "nat \<Rightarrow> pinging \<Rightarrow> bool" where
  "ping_token heartbeat s \<longleftrightarrow>
     (\<not> ping_started s \<longrightarrow> ping_sending s = 0 \<and> \<not> ping_timer s \<and> ping_nonce s = acknowledged) \<and>
     ping_sending s + of_bool (ping_timer s) \<le> 1 \<and>
     (ping_started s \<and> ping_stopped s = None \<and> heartbeat \<noteq> 0 \<longrightarrow> ping_sending s + of_bool (ping_timer s) = 1)"

definition ping_dialogue :: "pinging \<Rightarrow> bool" where
  "ping_dialogue s \<longleftrightarrow> (ping_nonce s = acknowledged \<or> random_nonce (ping_nonce s)) \<and>
     (\<exists>ns. list_all random_nonce ns \<and> filter in_dialogue (ping_log s) = concat (map exchange ns) @ open_ping (ping_nonce s))"

lemmas ping_handlers = ping_start_def send_ping_def handle_send_ping_def handle_ping_timer_def handle_receive_ping_def
  handle_receive_pong_def ping_stop_def ping_is_stopped_def

lemma random_nonce_not_acknowledged: "random_nonce n \<Longrightarrow> n \<noteq> acknowledged"
  by (simp add: random_nonce_def acknowledged_def)

lemma dialogue_sent:
  assumes "ping_dialogue s" "ping_nonce s = acknowledged" "random_nonce n"
    "ping_nonce s1 = n" "ping_log s1 = ping_log s @ [Mark_ping, Ping_sent (Some n)]"
  shows "ping_dialogue s1"
  using assms random_nonce_not_acknowledged by (auto simp: ping_dialogue_def open_ping_def)

lemma dialogue_answered:
  assumes "ping_dialogue s" "ping_nonce s1 = acknowledged" "ping_log s1 = ping_log s @ [Mark_pong (ping_nonce s)]"
  shows "ping_dialogue s1"
proof (cases "ping_nonce s = acknowledged")
  case True
  with assms show ?thesis by (auto simp: ping_dialogue_def open_ping_def)
next
  case False
  with assms(1) obtain ns where "list_all random_nonce ns" "random_nonce (ping_nonce s)"
    "filter in_dialogue (ping_log s) = concat (map exchange ns) @ open_ping (ping_nonce s)" by (auto simp: ping_dialogue_def)
  with False assms(2,3) show ?thesis
    unfolding ping_dialogue_def by (intro conjI exI [of _ "ns @ [ping_nonce s]"]) (simp_all add: open_ping_def exchange_def)
qed

lemma dialogue_same:
  assumes "ping_dialogue s" "ping_nonce s1 = ping_nonce s" "filter in_dialogue (ping_log s1) = filter in_dialogue (ping_log s)"
  shows "ping_dialogue s1"
  using assms by (simp add: ping_dialogue_def)

lemma ping_token_stop: "ping_token heartbeat s \<Longrightarrow> ping_token heartbeat (ping_stop ec s)"
  by (cases "ping_stopped s = None") (auto simp: ping_token_def ping_stop_def)

lemma ping_token_on: "ping_token heartbeat (s\<lparr>on_pong := b\<rparr>) = ping_token heartbeat s"
  by (simp add: ping_token_def)

lemma ping_token_answered: "ping_token heartbeat s \<Longrightarrow> ping_token heartbeat (s\<lparr>ping_nonce := acknowledged, ping_log := log\<rparr>)"
  by (auto simp: ping_token_def)

lemma ping_step_token:
  assumes "ping_step nonced heartbeat s s1" "ping_token heartbeat s"
  shows "ping_token heartbeat s1"
  using assms(1)
proof cases
  case (step_start n)
  with assms(2) show ?thesis by (cases nonced) (simp_all add: ping_token_def ping_handlers)
next
  case (step_sent ec)
  moreover have "ping_sending s = 1" "\<not> ping_timer s" "ping_started s"
    using assms(2) step_sent by (auto simp: ping_token_def)
  ultimately show ?thesis by (simp add: ping_token_def ping_handlers del: failed_iff)
next
  case (step_timer n ec)
  moreover have "ping_sending s = 0" "ping_started s" using assms(2) step_timer by (auto simp: ping_token_def)
  ultimately show ?thesis by (simp add: ping_token_def ping_handlers del: failed_iff)
next
  case (step_ping ec n s2 again)
  then have "s2 = s \<or> s2 = s\<lparr>ping_log := ping_log s @ [Pong_notified n]\<rparr>"
    by (auto simp: handle_receive_ping_def split: if_splits)
  with step_ping assms(2) show ?thesis by (auto simp: ping_token_def)
next
  case (step_pong ec n s2 again)
  then have "s2 = s \<or> s2 = ping_stop e_protocol_violation s \<or> s2 = s\<lparr>ping_nonce := acknowledged, ping_log := ping_log s @ [Mark_pong n]\<rparr>"
    by (auto simp: handle_receive_pong_def split: if_splits)
  with step_pong assms(2) ping_token_stop ping_token_answered show ?thesis by (auto simp: ping_token_on)
next
  case (step_stop ec)
  with assms(2) ping_token_stop show ?thesis by simp
qed

lemma ping_stop_simps [simp]: "ping_nonce (ping_stop ec s) = ping_nonce s" "ping_log (ping_stop ec s) = ping_log s"
  by (simp_all add: ping_stop_def)

lemma send_ping_dialogue:
  assumes "ping_dialogue s" "nonced \<Longrightarrow> ping_nonce s = acknowledged" "random_nonce n"
  shows "ping_dialogue (send_ping nonced n s)"
proof (cases "nonced \<and> ping_stopped s = None")
  case True
  then show ?thesis by (intro dialogue_sent [OF assms(1) _ assms(3)]) (simp_all add: send_ping_def assms(2))
next
  case False
  then show ?thesis by (intro dialogue_same [OF assms(1)]) (auto simp: send_ping_def)
qed

lemma ping_step_dialogue:
  assumes "ping_step nonced heartbeat s s1" "ping_dialogue s" "ping_token heartbeat s"
  shows "ping_dialogue s1"
  using assms(1)
proof cases
  case (step_start n)
  then have "ping_nonce s = acknowledged" using assms(3) by (simp add: ping_token_def)
  with send_ping_dialogue [of "s\<lparr>on_pong := nonced, on_ping := True\<rparr>" nonced n] assms(2) step_start show ?thesis
    by (simp add: ping_start_def ping_dialogue_def)
next
  case (step_sent ec)
  then show ?thesis by (intro dialogue_same [OF assms(2)]) (simp_all add: handle_send_ping_def)
next
  case (step_timer n ec)
  have idle: "ping_dialogue (s\<lparr>ping_timer := False\<rparr>)" using assms(2) by (simp add: ping_dialogue_def)
  have "ping_dialogue (ping_stop e s)" for e using assms(2) by (simp add: ping_dialogue_def)
  with step_timer idle send_ping_dialogue [OF idle] show ?thesis
    by (auto simp: handle_ping_timer_def ping_dialogue_def [of "ping_stop _ _"] ping_dialogue_def [of "ping_timer_update _ _"] split: if_splits)
next
  case (step_ping ec n s2 again)
  then show ?thesis by (intro dialogue_same [OF assms(2)]) (auto simp: handle_receive_ping_def split: if_splits)
next
  case (step_pong ec n s2 again)
  then consider "s2 = s \<or> s2 = ping_stop e_protocol_violation s"
    | "s2 = s\<lparr>ping_nonce := acknowledged, ping_log := ping_log s @ [Mark_pong n]\<rparr>" "n = ping_nonce s"
    by (auto simp: handle_receive_pong_def split: if_splits)
  then show ?thesis
  proof cases
    case 1
    with step_pong show ?thesis by (intro dialogue_same [OF assms(2)]) auto
  next
    case 2
    with step_pong show ?thesis by (intro dialogue_answered [OF assms(2)]) auto
  qed
next
  case (step_stop ec)
  then show ?thesis by (intro dialogue_same [OF assms(2)]) simp_all
qed

lemma ping_reach_inv: "ping_reach nonced heartbeat s \<Longrightarrow> ping_token heartbeat s \<and> ping_dialogue s"
proof (induction rule: ping_reach.induct)
  case ping_created
  show ?case by (auto simp: ping_token_def ping_dialogue_def ping_init_def open_ping_def intro: exI [of _ "[]"])
qed (use ping_step_token ping_step_dialogue in blast)

text \<open>
  C35. The keep alive of a channel, in every interleaving of its handlers: while the channel runs, exactly one of
  a write of a ping and the timer is pending, so it neither lapses nor doubles. The nonces sent and those
  answered alternate, each answer the nonce of the last ping, no nonce is the sentinel, and no ping is sent
  while one is unanswered: the timer then stops the channel.
\<close>

theorem ping_keeps_alive:
  assumes "ping_reach nonced heartbeat s"
  shows "(ping_started s \<and> ping_stopped s = None \<and> heartbeat \<noteq> 0 \<longrightarrow> ping_sending s + of_bool (ping_timer s) = 1) \<and>
    (\<exists>ns. list_all random_nonce ns \<and> filter in_dialogue (ping_log s) = concat (map exchange ns) @ open_ping (ping_nonce s)) \<and>
    (ping_stopped s = None \<and> nonced \<and> ping_nonce s \<noteq> acknowledged \<longrightarrow>
       ping_stopped (handle_ping_timer nonced n e_success s) = Some e_channel_timeout)"
  using ping_reach_inv [OF assms] by (simp add: ping_token_def ping_dialogue_def ping_handlers)

theorem ping_keeps_alive_witness:
  "\<exists>s. ping_reach True 5 s \<and> ping_nonce s = 7 \<and> ping_sending s + of_bool (ping_timer s) = 1 \<and>
    ping_stopped (handle_ping_timer True 9 e_success s) = Some e_channel_timeout"
proof -
  have "random_nonce 7" by (simp add: random_nonce_def max_int64_def)
  then have reach: "ping_reach True 5 (ping_start True 7 ping_init)"
    by (intro ping_stepped [OF ping_created] step_start) (simp_all add: ping_init_def)
  have "ping_nonce (ping_start True 7 ping_init) = 7" "ping_started (ping_start True 7 ping_init)"
    "ping_stopped (ping_start True 7 ping_init) = None" by (simp_all add: ping_handlers ping_init_def)
  with ping_keeps_alive [OF reach, of 9] reach show ?thesis
    by (intro exI [of _ "ping_start True 7 ping_init"]) (simp add: acknowledged_def)
qed

text \<open>
  A pong with the sentinel of an answered ping is accepted, although any pong already received is meant
  to be a violation.
\<close>

lemma pong_without_ping:
  "ping_stopped s = None \<Longrightarrow> ping_nonce s = acknowledged \<Longrightarrow> handle_receive_pong e_success 0 s =
    (s\<lparr>ping_nonce := acknowledged, ping_log := ping_log s @ [Mark_pong 0]\<rparr>, True)"
  by (simp add: ping_handlers acknowledged_def)

end
