(* ===== verification/Peer_Addresses.thy ===== *)
theory Peer_Addresses
  imports Address Error_Code "HOL-Library.Multiset"
begin

text \<open>
  The exchange of addresses on a peer channel (\<open>protocol_address_in_209\<close>, \<open>protocol_address_out_209\<close> and their
  \<open>70016\<close> forms) and on the channel of a seed (\<open>protocol_seed_209\<close>, \<open>70016\<close>), in \<open>src/src/protocols\<close>. As in
  \<open>Peer_Protocols\<close>, a state holds the members, the code the channel is stopped with and the log of what was
  asked. The pool of addresses, the choice of random numbers and shuffles are inputs of the steps.
\<close>

section \<open>The filter\<close>

text \<open>
  \<open>maybe_random::next\<close> (libbitcoin-system) gives a number between its bounds, or zero if they are reversed;
  \<open>maybe_random::shuffle\<close> gives a permutation.
\<close>

definition random_between :: "nat \<Rightarrow> nat \<Rightarrow> nat \<Rightarrow> bool" where
  "random_between low high n \<longleftrightarrow> (if high < low then n = 0 else low \<le> n \<and> n \<le> high)"

definition pool_gap :: "nat \<Rightarrow> nat \<Rightarrow> nat" where
  "pool_gap cap held = (if held \<le> cap then cap - held else cap + 2 ^ 64 - held)"

definition minimum_select :: "nat \<Rightarrow> nat \<Rightarrow> nat \<Rightarrow> nat" where
  "minimum_select cap held n = min (pool_gap cap held) n"

definition maximum_select :: "nat \<Rightarrow> nat \<Rightarrow> nat" where
  "maximum_select cap n = min cap n"

definition filter_addresses :: "(address_item \<Rightarrow> bool) \<Rightarrow> nat \<Rightarrow> address_item list \<Rightarrow> address_item list" where
  "filter_addresses refused select shuffled = (if select = 0 then [] else filter (\<lambda>item. \<not> refused item) (take select shuffled))"

text \<open>The inputs of the filter for the items, as the random generator may give them.\<close>

definition filter_input :: "nat \<Rightarrow> nat \<Rightarrow> address_item list \<Rightarrow> nat \<Rightarrow> address_item list \<Rightarrow> bool" where
  "filter_input cap held items select shuffled \<longleftrightarrow> mset shuffled = mset items \<and>
     random_between (minimum_select cap held (length items)) (maximum_select cap (length items)) select"

lemma filter_sound:
  assumes "filter_input cap held items select shuffled"
  shows "set (filter_addresses refused select shuffled) \<subseteq> set items \<and> length (filter_addresses refused select shuffled) \<le> cap \<and>
    (\<forall>item\<in>set (filter_addresses refused select shuffled). \<not> refused item)"
proof -
  have same: "set shuffled = set items" using assms by (metis filter_input_def set_mset_mset)
  have "select \<le> cap" using assms
    by (auto simp: filter_input_def random_between_def maximum_select_def split: if_splits)
  then have "length (filter (\<lambda>item. \<not> refused item) (take select shuffled)) \<le> cap"
    using length_filter_le [of "\<lambda>item. \<not> refused item" "take select shuffled"] by simp
  then show ?thesis using same by (auto simp: filter_addresses_def dest: in_set_takeD)
qed

text \<open>At least the gap of the pool is selected, or all of the items, as long as the pool is within its capacity.\<close>

lemma filter_fills:
  assumes "filter_input cap held items select shuffled" "held \<le> cap"
  shows "min (cap - held) (length items) \<le> select"
  using assms by (auto simp: filter_input_def random_between_def minimum_select_def maximum_select_def pool_gap_def split: if_splits)

section \<open>Inbound addresses\<close>

datatype address_effect = Address_asked | Relayed "address_item list" | Stored "address_item list" | Pool_asked
  | Relay_subscribed | Sent_items bool "address_item list" | Notified_items bool "address_item list" nat

definition maximum_advertisement :: nat where "maximum_advertisement = 10"

record address_in =
  in_outbound :: bool
  in_started :: bool
  in_first :: bool
  in_stopped :: "error_t option"
  in_subscribed :: bool
  in_log :: "address_effect list"

definition address_in_init :: "bool \<Rightarrow> address_in" where
  "address_in_init outbound = \<lparr>in_outbound = outbound, in_started = False, in_first = True, in_stopped = None,
     in_subscribed = False, in_log = []\<rparr>"

definition in_start :: "address_in \<Rightarrow> address_in" where
  "in_start s =
    (if in_started s then s
     else let s1 = s\<lparr>in_subscribed := True\<rparr>; s2 = (if in_outbound s then s1\<lparr>in_log := in_log s1 @ [Address_asked]\<rparr> else s1)
       in s2\<lparr>in_started := True\<rparr>)"

definition in_receive_address :: "(address_item \<Rightarrow> bool) \<Rightarrow> address_item \<Rightarrow> nat \<Rightarrow> address_item list \<Rightarrow>
    error_t \<Rightarrow> address_item list \<Rightarrow> address_in \<Rightarrow> address_in \<times> bool" where
  "in_receive_address refused outbound select shuffled ec items s =
    (if in_stopped s \<noteq> None \<or> failed ec then (s, False)
     else let advertisement = in_first s \<and> length items < maximum_advertisement; s1 = s\<lparr>in_first := False\<rparr>
       in if \<not> in_outbound s1 \<and> \<not> advertisement then (s1, True)
          else let s2 = (if advertisement then s1\<lparr>in_log := in_log s1 @ [Relayed items]\<rparr> else s1)
            in if length items = 1 \<and> item_eq (hd items) outbound then (s2, True)
               else (s2\<lparr>in_log := in_log s2 @ [Stored (filter_addresses refused select shuffled)]\<rparr>, True))"

definition in_stop :: "error_t \<Rightarrow> address_in \<Rightarrow> address_in" where
  "in_stop ec s = (if in_stopped s = None then s\<lparr>in_stopped := Some ec\<rparr> else s)"

inductive in_step :: "(address_item \<Rightarrow> bool) \<Rightarrow> nat \<Rightarrow> address_item \<Rightarrow> address_in \<Rightarrow> address_in \<Rightarrow> bool" for refused cap outbound where
  in_step_start: "in_step refused cap outbound s (in_start s)"
| in_step_address: "in_subscribed s \<Longrightarrow> filter_input cap held items select shuffled \<Longrightarrow>
    in_receive_address refused outbound select shuffled ec items s = (s1, again) \<Longrightarrow>
    in_step refused cap outbound s (s1\<lparr>in_subscribed := again\<rparr>)"
| in_step_stop: "in_step refused cap outbound s (in_stop ec s)"

inductive in_reach :: "(address_item \<Rightarrow> bool) \<Rightarrow> nat \<Rightarrow> address_item \<Rightarrow> bool \<Rightarrow> address_in \<Rightarrow> bool" for refused cap outbound way where
  in_created: "in_reach refused cap outbound way (address_in_init way)"
| in_stepped: "in_reach refused cap outbound way s \<Longrightarrow> in_step refused cap outbound s s1 \<Longrightarrow> in_reach refused cap outbound way s1"

fun is_relayed :: "address_effect \<Rightarrow> bool" where
  "is_relayed (Relayed _) = True"
| "is_relayed _ = False"

fun is_stored :: "address_effect \<Rightarrow> bool" where
  "is_stored (Stored _) = True"
| "is_stored _ = False"

fun effect_ok :: "(address_item \<Rightarrow> bool) \<Rightarrow> nat \<Rightarrow> address_effect \<Rightarrow> bool" where
  "effect_ok refused cap (Stored items) = (length items \<le> cap \<and> list_all (\<lambda>item. \<not> refused item) items)"
| "effect_ok refused cap (Relayed items) = (length items < maximum_advertisement)"
| "effect_ok refused cap _ = True"

definition in_inv :: "(address_item \<Rightarrow> bool) \<Rightarrow> nat \<Rightarrow> bool \<Rightarrow> address_in \<Rightarrow> bool" where
  "in_inv refused cap way s \<longleftrightarrow> in_outbound s = way \<and> list_all (effect_ok refused cap) (in_log s) \<and>
     length (filter is_relayed (in_log s)) + of_bool (in_first s) \<le> 1 \<and>
     (\<not> way \<longrightarrow> length (filter is_stored (in_log s)) + of_bool (in_first s) \<le> 1) \<and>
     (\<not> way \<longrightarrow> Address_asked \<notin> set (in_log s))"

lemma in_receive_address_inv:
  assumes "in_receive_address refused outbound select shuffled ec items s = (s1, again)" "in_inv refused cap way s"
    "filter_input cap held items select shuffled"
  shows "in_inv refused cap way s1"
proof -
  have stored: "effect_ok refused cap (Stored (filter_addresses refused select shuffled))"
    using filter_sound [OF assms(3), of refused] by (auto simp: list_all_iff)
  show ?thesis
  proof (cases "in_stopped s \<noteq> None \<or> failed ec")
    case True
    with assms(1,2) show ?thesis by (auto simp: in_receive_address_def simp del: failed_iff)
  next
    case False
    with assms(1,2) stored show ?thesis
      by (cases "in_first s"; cases way; cases "length items < maximum_advertisement")
        (auto simp: in_receive_address_def in_inv_def Let_def simp del: failed_iff split: if_splits)
  qed
qed

lemma in_step_inv: "in_step refused cap outbound s s1 \<Longrightarrow> in_inv refused cap way s \<Longrightarrow> in_inv refused cap way s1"
proof (induction rule: in_step.induct)
  case (in_step_address s held items select shuffled ec s1 again)
  from in_receive_address_inv [OF in_step_address(3,4,2)] show ?case by (simp add: in_inv_def)
qed (auto simp: in_inv_def in_start_def in_stop_def Let_def)

lemma in_reach_inv: "in_reach refused cap outbound way s \<Longrightarrow> in_inv refused cap way s"
proof (induction rule: in_reach.induct)
  case in_created
  show ?case by (simp add: in_inv_def address_in_init_def)
qed (rule in_step_inv)

text \<open>
  What a peer can make of its addresses, whatever it sends: at most one message of it is relayed to other
  peers, and that has fewer entries than the maximum of an advertisement; no stored message has an excluded address or
  more entries than the pool can hold; and a peer that connected to us can store one message at most
  and is not asked for addresses.
\<close>

theorem inbound_addresses_limited:
  assumes "in_reach refused cap outbound way s"
  shows "list_all (effect_ok refused cap) (in_log s) \<and> length (filter is_relayed (in_log s)) \<le> 1 \<and>
    (\<not> way \<longrightarrow> length (filter is_stored (in_log s)) \<le> 1 \<and> Address_asked \<notin> set (in_log s))"
  using in_reach_inv [OF assms] by (auto simp: in_inv_def)

theorem inbound_addresses_limited_witness:
  "\<exists>s. in_reach (\<lambda>_. False) 5 \<lparr>ai_timestamp = 0, ai_services = 0, ai_address = monostate, ai_port = 0\<rparr> False s \<and> in_log s = [Relayed []  , Stored []] \<and> length (filter is_relayed (in_log s)) \<le> 1"
proof -
  let ?s0 = "in_start (address_in_init False)"
  let ?s1 = "?s0\<lparr>in_first := False, in_log := [Relayed [], Stored []]\<rparr>"
  have start: "in_reach (\<lambda>_. False) 5 \<lparr>ai_timestamp = 0, ai_services = 0, ai_address = monostate, ai_port = 0\<rparr> False ?s0" by (rule in_stepped [OF in_created in_step_start])
  have "filter_input 5 0 [] 0 []"
    by (simp add: filter_input_def random_between_def minimum_select_def maximum_select_def)
  moreover have "in_receive_address (\<lambda>_. False) \<lparr>ai_timestamp = 0, ai_services = 0, ai_address = monostate, ai_port = 0\<rparr> 0 [] e_success [] ?s0 = (?s1, True)"
    by (simp add: in_receive_address_def in_start_def address_in_init_def filter_addresses_def maximum_advertisement_def)
  ultimately have "in_step (\<lambda>_. False) 5 \<lparr>ai_timestamp = 0, ai_services = 0, ai_address = monostate, ai_port = 0\<rparr> ?s0 (?s1\<lparr>in_subscribed := True\<rparr>)"
    by (intro in_step_address) (simp_all add: in_start_def address_in_init_def)
  from in_stepped [OF start this] have reach: "in_reach (\<lambda>_. False) 5 \<lparr>ai_timestamp = 0, ai_services = 0, ai_address = monostate, ai_port = 0\<rparr> False (?s1\<lparr>in_subscribed := True\<rparr>)" .
  from inbound_addresses_limited [OF this] reach show ?thesis
    by (intro exI [of _ "?s1\<lparr>in_subscribed := True\<rparr>"]) simp
qed

section \<open>Outbound addresses\<close>

text \<open>\<open>v2\<close> selects the class: 70016 sends all networks, 209 only those of its message.\<close>

record address_out =
  out_started :: bool
  out_stopped :: "error_t option"
  out_sent :: bool
  out_asking :: bool
  out_get_subscribed :: bool
  out_relaying :: bool
  out_log :: "address_effect list"

definition address_out_init :: address_out where
  "address_out_init = \<lparr>out_started = False, out_stopped = None, out_sent = False, out_asking = False,
     out_get_subscribed = False, out_relaying = False, out_log = []\<rparr>"

definition to_representable :: "address_item list \<Rightarrow> address_item list" where
  "to_representable items = filter (\<lambda>item. is_v1 (ai_address item)) items"

definition out_send_addresses :: "bool \<Rightarrow> address_item list \<Rightarrow> address_out \<Rightarrow> address_out" where
  "out_send_addresses v2 items s = s\<lparr>out_log := out_log s @ [Sent_items v2 (if v2 then items else to_representable items)]\<rparr>"

definition out_notify_addresses :: "bool \<Rightarrow> address_item list \<Rightarrow> nat \<Rightarrow> address_out \<Rightarrow> address_out" where
  "out_notify_addresses v2 items sender s =
    s\<lparr>out_log := out_log s @ [Notified_items v2 (if v2 then items else to_representable items) sender]\<rparr>"

definition out_start :: "bool \<Rightarrow> bool \<Rightarrow> address_item list \<Rightarrow> address_out \<Rightarrow> address_out" where
  "out_start v2 advertise selfs s =
    (if out_started s then s
     else (if advertise then out_send_addresses v2 selfs s else s)\<lparr>out_get_subscribed := True, out_started := True\<rparr>)"

definition out_receive_get_address :: "error_t \<Rightarrow> address_out \<Rightarrow> address_out \<times> bool" where
  "out_receive_get_address ec s =
    (if out_stopped s \<noteq> None \<or> failed ec then (s, False)
     else if out_sent s then (s, True)
     else (s\<lparr>out_asking := True, out_sent := True, out_relaying := True, out_log := out_log s @ [Pool_asked, Relay_subscribed]\<rparr>, True))"

definition out_fetch_address :: "bool \<Rightarrow> error_t \<Rightarrow> address_item list \<Rightarrow> address_out \<Rightarrow> address_out" where
  "out_fetch_address v2 ec items s = (if out_stopped s \<noteq> None \<or> failed ec then s else out_send_addresses v2 items s)"

definition out_broadcast_address :: "bool \<Rightarrow> nat \<Rightarrow> error_t \<Rightarrow> address_item list \<Rightarrow> nat \<Rightarrow> address_out \<Rightarrow> address_out \<times> bool" where
  "out_broadcast_address v2 self_id ec items sender s =
    (if out_stopped s \<noteq> None \<or> failed ec then (s, False)
     else if sender = self_id then (s, True)
     else (out_notify_addresses v2 items sender s, True))"

definition out_stop :: "error_t \<Rightarrow> address_out \<Rightarrow> address_out" where
  "out_stop ec s = (if out_stopped s = None then s\<lparr>out_stopped := Some ec\<rparr> else s)"

inductive out_step :: "bool \<Rightarrow> nat \<Rightarrow> address_out \<Rightarrow> address_out \<Rightarrow> bool" for v2 self_id where
  out_step_start: "out_step v2 self_id s (out_start v2 advertise selfs s)"
| out_step_get: "out_get_subscribed s \<Longrightarrow> out_receive_get_address ec s = (s1, again) \<Longrightarrow>
    out_step v2 self_id s (s1\<lparr>out_get_subscribed := again\<rparr>)"
| out_step_fetch: "out_asking s \<Longrightarrow> out_step v2 self_id s (out_fetch_address v2 ec items (s\<lparr>out_asking := False\<rparr>))"
| out_step_broadcast: "out_relaying s \<Longrightarrow> out_broadcast_address v2 self_id ec items sender s = (s1, again) \<Longrightarrow>
    out_step v2 self_id s (s1\<lparr>out_relaying := again\<rparr>)"
| out_step_stop: "out_step v2 self_id s (out_stop ec s)"

inductive out_reach :: "bool \<Rightarrow> nat \<Rightarrow> address_out \<Rightarrow> bool" for v2 self_id where
  out_created: "out_reach v2 self_id address_out_init"
| out_stepped: "out_reach v2 self_id s \<Longrightarrow> out_step v2 self_id s s1 \<Longrightarrow> out_reach v2 self_id s1"

fun out_effect_ok :: "bool \<Rightarrow> nat \<Rightarrow> address_effect \<Rightarrow> bool" where
  "out_effect_ok v2 self_id (Sent_items kind items) = (kind = v2 \<and> (v2 \<or> list_all (\<lambda>item. is_v1 (ai_address item)) items))"
| "out_effect_ok v2 self_id (Notified_items kind items sender) =
    (sender \<noteq> self_id \<and> kind = v2 \<and> (v2 \<or> list_all (\<lambda>item. is_v1 (ai_address item)) items))"
| "out_effect_ok v2 self_id _ = True"

fun is_reply :: "address_effect \<Rightarrow> bool" where
  "is_reply (Sent_items _ _) = True"
| "is_reply _ = False"

definition out_inv :: "bool \<Rightarrow> nat \<Rightarrow> address_out \<Rightarrow> bool" where
  "out_inv v2 self_id s \<longleftrightarrow> list_all (out_effect_ok v2 self_id) (out_log s) \<and>
     (\<not> out_started s \<longrightarrow> \<not> out_get_subscribed s \<and> \<not> out_sent s \<and> out_log s = []) \<and>
     count_list (out_log s) Pool_asked + of_bool (\<not> out_sent s) = 1 \<and>
     (\<not> out_sent s \<longrightarrow> \<not> out_asking s \<and> \<not> out_relaying s) \<and>
     length (filter is_reply (out_log s)) + of_bool (\<not> out_started s) + of_bool (\<not> out_sent s \<or> out_asking s) \<le> 2"

lemma representable_v1: "list_all (\<lambda>item. is_v1 (ai_address item)) (to_representable items)"
  by (simp add: to_representable_def list_all_iff)

lemmas out_handlers = out_start_def out_receive_get_address_def out_fetch_address_def out_broadcast_address_def out_stop_def
  out_send_addresses_def out_notify_addresses_def

lemma out_step_inv: "out_step v2 self_id s s1 \<Longrightarrow> out_inv v2 self_id s \<Longrightarrow> out_inv v2 self_id s1"
proof (induction rule: out_step.induct)
  case (out_step_start s advertise selfs)
  then show ?case by (cases "out_started s") (auto simp: out_inv_def out_handlers representable_v1)
next
  case (out_step_get s ec s1 again)
  then have "out_started s" by (auto simp: out_inv_def)
  with out_step_get show ?case
    by (cases "out_sent s"; cases "out_stopped s \<noteq> None \<or> failed ec") (auto simp: out_inv_def out_handlers simp del: failed_iff)
next
  case (out_step_fetch s ec items)
  then have "out_started s" "out_sent s" by (auto simp: out_inv_def)
  with out_step_fetch show ?case
    by (cases "out_stopped s \<noteq> None \<or> failed ec") (auto simp: out_inv_def out_handlers representable_v1 simp del: failed_iff)
next
  case (out_step_broadcast s ec items sender s1 again)
  then have "out_started s" "out_sent s" by (auto simp: out_inv_def)
  with out_step_broadcast show ?case
    by (cases "out_stopped s \<noteq> None \<or> failed ec") (auto simp: out_inv_def out_handlers representable_v1 simp del: failed_iff split: if_splits)
next
  case (out_step_stop s ec)
  then show ?case by (auto simp: out_inv_def out_handlers)
qed

lemma out_reach_inv: "out_reach v2 self_id s \<Longrightarrow> out_inv v2 self_id s"
proof (induction rule: out_reach.induct)
  case out_created
  show ?case by (simp add: out_inv_def address_out_init_def)
qed (rule out_step_inv)

text \<open>
  C37. What a peer gets of our addresses, whatever it asks: the pool is asked at most once, and at most two messages
  of addresses are sent to it on its own account (our own, and the answer to its first request); an
  address is never relayed to the peer it came from; and a peer that did not ask for the second form is only told
  addresses that the first form represents.
\<close>

theorem outbound_addresses_limited:
  assumes "out_reach v2 self_id s"
  shows "list_all (out_effect_ok v2 self_id) (out_log s) \<and> count_list (out_log s) Pool_asked \<le> 1 \<and>
    length (filter is_reply (out_log s)) \<le> 2"
  using out_reach_inv [OF assms] by (auto simp: out_inv_def)

theorem outbound_addresses_limited_witness:
  "\<exists>s. out_reach False 7 s \<and> out_log s = [Pool_asked, Relay_subscribed] \<and> count_list (out_log s) Pool_asked \<le> 1"
proof -
  let ?s0 = "out_start False False [] address_out_init"
  let ?s1 = "?s0\<lparr>out_asking := True, out_sent := True, out_relaying := True, out_log := [Pool_asked, Relay_subscribed]\<rparr>"
  have "out_reach False 7 ?s0" by (rule out_stepped [OF out_created out_step_start])
  moreover have "out_step False 7 ?s0 (?s1\<lparr>out_get_subscribed := True\<rparr>)"
    by (rule out_step_get [where ec = e_success]) (simp_all add: out_handlers address_out_init_def)
  ultimately have reach: "out_reach False 7 (?s1\<lparr>out_get_subscribed := True\<rparr>)" by (rule out_stepped)
  from outbound_addresses_limited [OF this] reach show ?thesis
    by (intro exI [of _ "?s1\<lparr>out_get_subscribed := True\<rparr>"]) simp
qed

end
