(* ===== verification/Seeding.thy ===== *)
theory Seeding
  imports Peer_Addresses "HOL-Library.Sublist"
begin

text \<open>
  The protocol of a seed channel (\<open>protocol_seed_209\<close>, \<open>protocol_seed_70016\<close>): addresses are asked for, stored
  and given, until the seeding is complete and the protocol stops its channel. The state holds the members, the
  pending operations (the write of the request, the stores with their sizes, the writes of addresses) and
  the code the channel is stopped with.
\<close>

section \<open>State and handlers\<close>

record seeding =
  seed_started :: bool
  seed_stopped :: "error_t option"
  sent_get_address :: bool
  received_address :: bool
  seed_timer :: bool
  seed_asking :: bool
  seed_storing :: "(nat \<times> nat) list"
  seed_giving :: nat
  on_address :: bool
  on_get_address :: bool
  seed_log :: "address_effect list"

definition seeding_init :: seeding where
  "seeding_init = \<lparr>seed_started = False, seed_stopped = None, sent_get_address = False, received_address = False,
     seed_timer = False, seed_asking = False, seed_storing = [], seed_giving = 0, on_address = False, on_get_address = False,
     seed_log = []\<rparr>"

definition seed_stop :: "error_t \<Rightarrow> seeding \<Rightarrow> seeding" where
  "seed_stop ec s = (if seed_stopped s = None then s\<lparr>seed_stopped := Some ec\<rparr> else s)"

definition seed_is_stopped :: "error_t \<Rightarrow> seeding \<Rightarrow> bool" where
  "seed_is_stopped ec s \<longleftrightarrow> seed_stopped s \<noteq> None \<or> failed ec"

definition seed_complete :: "seeding \<Rightarrow> bool" where
  "seed_complete s \<longleftrightarrow> sent_get_address s \<and> received_address s"

definition finish_seeding :: "seeding \<Rightarrow> seeding" where
  "finish_seeding s = (if seed_complete s then seed_stop e_seeding_complete s else s)"

definition seed_start :: "seeding \<Rightarrow> seeding" where
  "seed_start s =
    (if seed_started s then s
     else s\<lparr>on_address := True, on_get_address := True, seed_asking := True, seed_log := seed_log s @ [Address_asked],
       seed_started := True\<rparr>)"

definition seed_send_addresses :: "bool \<Rightarrow> address_item list \<Rightarrow> seeding \<Rightarrow> seeding" where
  "seed_send_addresses v2 items s =
    s\<lparr>seed_giving := seed_giving s + 1, seed_log := seed_log s @ [Sent_items v2 (if v2 then items else to_representable items)]\<rparr>"

definition seed_handle_timer :: "error_t \<Rightarrow> seeding \<Rightarrow> seeding" where
  "seed_handle_timer ec s =
    (if seed_stopped s \<noteq> None then s else if failed ec then seed_stop ec s else seed_stop e_channel_timeout s)"

definition handle_send_get_address :: "error_t \<Rightarrow> seeding \<Rightarrow> seeding" where
  "handle_send_get_address ec s =
    (if seed_is_stopped ec s then s else finish_seeding (s\<lparr>seed_timer := True, sent_get_address := True\<rparr>))"

definition seed_receive_address :: "(address_item \<Rightarrow> bool) \<Rightarrow> address_item \<Rightarrow> nat \<Rightarrow> address_item list \<Rightarrow>
    error_t \<Rightarrow> address_item list \<Rightarrow> seeding \<Rightarrow> seeding \<times> bool" where
  "seed_receive_address refused outbound select shuffled ec items s =
    (if seed_is_stopped ec s then (s, False)
     else if length items = 1 \<and> item_eq (hd items) outbound then (s, True)
     else let filtered = filter_addresses refused select shuffled
       in (s\<lparr>seed_log := seed_log s @ [Stored filtered], seed_storing := seed_storing s @ [(length filtered, length items)]\<rparr>, True))"

definition handle_save_addresses :: "error_t \<Rightarrow> nat \<Rightarrow> nat \<Rightarrow> seeding \<Rightarrow> seeding" where
  "handle_save_addresses ec end_size start_size s =
    (if seed_stopped s \<noteq> None then s
     else let emptied = (ec = e_address_not_found \<and> end_size = 0 \<and> start_size \<noteq> 0);
              s1 = (if failed ec \<and> \<not> emptied then seed_stop ec s else s)
       in finish_seeding (s1\<lparr>received_address := (start_size \<noteq> 1)\<rparr>))"

definition handle_send_address :: "error_t \<Rightarrow> seeding \<Rightarrow> seeding" where
  "handle_send_address ec s = (if seed_is_stopped ec s then s else finish_seeding s)"

definition seed_receive_get_address :: "bool \<Rightarrow> bool \<Rightarrow> address_item list \<Rightarrow> error_t \<Rightarrow> seeding \<Rightarrow> seeding \<times> bool" where
  "seed_receive_get_address v2 advertise selfs ec s =
    (if seed_is_stopped ec s then (s, False)
     else if advertise then (seed_send_addresses v2 selfs s, True)
     else (handle_send_address e_success s, True))"

section \<open>Steps\<close>

text \<open>
  A step with its event for the history: the request was written, a message of so many addresses was stored, or any
  other. The codes of the pool are those of \<open>hosts::save\<close>; the timer and the stops of the owner do not use the code of
  completion, which is the protocol's own.
\<close>

datatype seed_event = Request_Written error_t | Message_Stored error_t nat | Seed_Other

inductive seed_step :: "(address_item \<Rightarrow> bool) \<Rightarrow> nat \<Rightarrow> address_item \<Rightarrow> bool \<Rightarrow> seed_event \<Rightarrow> seeding \<Rightarrow> seeding \<Rightarrow> bool"
  for refused cap outbound v2 where
  seed_step_start: "seed_step refused cap outbound v2 Seed_Other s (seed_start s)"
| seed_step_asked: "seed_asking s \<Longrightarrow> (failed ec \<Longrightarrow> seed_stopped s \<noteq> None) \<Longrightarrow>
    seed_step refused cap outbound v2 (Request_Written ec) s (handle_send_get_address ec (s\<lparr>seed_asking := False\<rparr>))"
| seed_step_address: "on_address s \<Longrightarrow> filter_input cap held items select shuffled \<Longrightarrow>
    seed_receive_address refused outbound select shuffled ec items s = (s1, again) \<Longrightarrow>
    seed_step refused cap outbound v2 Seed_Other s (s1\<lparr>on_address := again\<rparr>)"
| seed_step_saved: "seed_storing s = (end_size, start_size) # rest \<Longrightarrow>
    ec \<in> {e_success, e_service_stopped, e_address_not_found} \<Longrightarrow>
    seed_step refused cap outbound v2 (Message_Stored ec start_size) s
      (handle_save_addresses ec end_size start_size (s\<lparr>seed_storing := rest\<rparr>))"
| seed_step_get: "on_get_address s \<Longrightarrow> seed_receive_get_address v2 advertise selfs ec s = (s1, again) \<Longrightarrow>
    seed_step refused cap outbound v2 Seed_Other s (s1\<lparr>on_get_address := again\<rparr>)"
| seed_step_given: "0 < seed_giving s \<Longrightarrow>
    seed_step refused cap outbound v2 Seed_Other s (handle_send_address ec (s\<lparr>seed_giving := seed_giving s - 1\<rparr>))"
| seed_step_timer: "seed_timer s \<Longrightarrow> ec \<noteq> e_seeding_complete \<Longrightarrow>
    seed_step refused cap outbound v2 Seed_Other s (seed_handle_timer ec (s\<lparr>seed_timer := False\<rparr>))"
| seed_step_stop: "ec \<noteq> e_seeding_complete \<Longrightarrow> seed_step refused cap outbound v2 Seed_Other s (seed_stop ec s)"

inductive seed_reach :: "(address_item \<Rightarrow> bool) \<Rightarrow> nat \<Rightarrow> address_item \<Rightarrow> bool \<Rightarrow> seed_event list \<Rightarrow> seeding \<Rightarrow> bool"
  for refused cap outbound v2 where
  seed_created: "seed_reach refused cap outbound v2 [] seeding_init"
| seed_stepped: "seed_reach refused cap outbound v2 events s \<Longrightarrow> seed_step refused cap outbound v2 e s s1 \<Longrightarrow>
    seed_reach refused cap outbound v2 (events @ [e]) s1"

text \<open>
  What the history says: the request was written; an answer was stored, that is a message of other than one address;
  and the answer is taken back, when the message stored last is a single address. The last is what the code does, while
  its comment says that such a message is ignored.
\<close>

definition request_written :: "seed_event list \<Rightarrow> bool" where
  "request_written events \<longleftrightarrow> Request_Written e_success \<in> set events"

definition stored_sizes :: "seed_event list \<Rightarrow> nat list" where
  "stored_sizes events = List.map_filter (\<lambda>e. case e of Message_Stored ec n \<Rightarrow> Some n | _ \<Rightarrow> None) events"

definition answer_stored :: "seed_event list \<Rightarrow> bool" where
  "answer_stored events \<longleftrightarrow> (\<exists>n \<in> set (stored_sizes events). n \<noteq> 1)"

definition taken_back :: "seed_event list \<Rightarrow> bool" where
  "taken_back events \<longleftrightarrow> stored_sizes events \<noteq> [] \<and> last (stored_sizes events) = 1"

definition answered :: "seed_event list \<Rightarrow> bool" where
  "answered events \<longleftrightarrow> stored_sizes events \<noteq> [] \<and> last (stored_sizes events) \<noteq> 1"

lemma answered_stored: "answered events \<longleftrightarrow> answer_stored events \<and> \<not> taken_back events"
  by (auto simp: answered_def answer_stored_def taken_back_def)

text \<open>
  A running protocol waits for the write of its request or for its timer; it is not complete, since it stops as soon
  as it is; and the code of completion is only that of a protocol that is complete or was stopped with it by the pool.
\<close>

definition seed_inv :: "(address_item \<Rightarrow> bool) \<Rightarrow> nat \<Rightarrow> seeding \<Rightarrow> bool" where
  "seed_inv refused cap s \<longleftrightarrow>
     (seed_stopped s = None \<longrightarrow> \<not> seed_complete s) \<and>
     (seed_started s \<and> seed_stopped s = None \<longrightarrow> (if sent_get_address s then seed_timer s \<and> \<not> seed_asking s else seed_asking s)) \<and>
     (\<not> seed_started s \<longrightarrow> \<not> sent_get_address s \<and> \<not> seed_asking s \<and> \<not> on_address s \<and> \<not> on_get_address s \<and> seed_storing s = []) \<and>
     list_all (effect_ok refused cap) (seed_log s)"

lemmas seed_handlers = seed_start_def handle_send_get_address_def seed_receive_address_def handle_save_addresses_def
  handle_send_address_def seed_receive_get_address_def seed_handle_timer_def seed_is_stopped_def

lemma finish_seeding_fields [simp]:
  "seed_started (finish_seeding s) = seed_started s" "sent_get_address (finish_seeding s) = sent_get_address s"
  "seed_asking (finish_seeding s) = seed_asking s" "seed_timer (finish_seeding s) = seed_timer s"
  "on_address (finish_seeding s) = on_address s" "on_get_address (finish_seeding s) = on_get_address s"
  "seed_storing (finish_seeding s) = seed_storing s" "seed_log (finish_seeding s) = seed_log s"
  "seed_complete (finish_seeding s) = seed_complete s"
  by (simp_all add: finish_seeding_def seed_stop_def seed_complete_def)

lemma seed_stop_fields [simp]:
  "seed_started (seed_stop ec s) = seed_started s" "sent_get_address (seed_stop ec s) = sent_get_address s"
  "seed_asking (seed_stop ec s) = seed_asking s" "seed_timer (seed_stop ec s) = seed_timer s"
  "on_address (seed_stop ec s) = on_address s" "on_get_address (seed_stop ec s) = on_get_address s"
  "seed_storing (seed_stop ec s) = seed_storing s" "seed_log (seed_stop ec s) = seed_log s"
  "seed_complete (seed_stop ec s) = seed_complete s" "seed_stopped (seed_stop ec s) \<noteq> None"
  by (simp_all add: seed_stop_def seed_complete_def)

lemma finish_seeding_running: "seed_stopped (finish_seeding s) = None \<longleftrightarrow> seed_stopped s = None \<and> \<not> seed_complete s"
  by (auto simp: finish_seeding_def seed_stop_def)

lemma seed_complete_simps [simp]:
  "seed_complete (s\<lparr>seed_asking := a\<rparr>) = seed_complete s" "seed_complete (s\<lparr>seed_storing := b\<rparr>) = seed_complete s"
  "seed_complete (s\<lparr>seed_giving := c\<rparr>) = seed_complete s" "seed_complete (s\<lparr>seed_timer := d\<rparr>) = seed_complete s"
  "seed_complete (s\<lparr>on_address := d\<rparr>) = seed_complete s" "seed_complete (s\<lparr>on_get_address := d\<rparr>) = seed_complete s"
  "seed_complete (s\<lparr>seed_log := l\<rparr>) = seed_complete s"
  by (simp_all add: seed_complete_def)

lemma seed_step_inv:
  assumes "seed_step refused cap outbound v2 e s s1" "seed_inv refused cap s"
  shows "seed_inv refused cap s1"
  using assms(1)
proof cases
  case seed_step_start
  with assms(2) show ?thesis by (auto simp: seed_inv_def seed_start_def seed_complete_def)
next
  case (seed_step_asked ec)
  with assms(2) show ?thesis
    by (cases "seed_stopped s = None") (auto simp: seed_inv_def seed_handlers finish_seeding_running simp del: failed_iff)
next
  case (seed_step_address held items select shuffled ec s2 again)
  have "effect_ok refused cap (Stored (filter_addresses refused select shuffled))"
    using filter_sound [OF seed_step_address(4), of refused] by (auto simp: list_all_iff)
  moreover have "s2 = s \<or> s2 = s\<lparr>seed_log := seed_log s @ [Stored (filter_addresses refused select shuffled)],
      seed_storing := seed_storing s @ [(length (filter_addresses refused select shuffled), length items)]\<rparr>"
    using seed_step_address(5) unfolding seed_receive_address_def Let_def by (simp only: split: if_splits) auto
  moreover have "seed_started s" using seed_step_address(3) assms(2) by (auto simp: seed_inv_def)
  ultimately show ?thesis using assms(2) seed_step_address(2) by (auto simp: seed_inv_def)
next
  case (seed_step_saved end_size start_size rest ec)
  have started: "seed_started s" using seed_step_saved(3) assms(2) unfolding seed_inv_def by (metis list.distinct(1))
  define s0 where "s0 = s\<lparr>seed_storing := rest\<rparr>"
  have inv0: "seed_inv refused cap s0" using assms(2) started by (simp add: s0_def seed_inv_def)
  define s2 where "s2 = (if failed ec \<and> \<not> (ec = e_address_not_found \<and> end_size = 0 \<and> start_size \<noteq> 0) then seed_stop ec s0 else s0)
    \<lparr>received_address := (start_size \<noteq> 1)\<rparr>"
  have "s1 = (if seed_stopped s0 \<noteq> None then s0 else finish_seeding s2)"
    unfolding seed_step_saved(2) handle_save_addresses_def Let_def s2_def s0_def ..
  moreover have "seed_inv refused cap (finish_seeding s2)" if "seed_stopped s0 = None"
  proof -
    have "seed_started s2 = seed_started s0" "sent_get_address s2 = sent_get_address s0" "seed_asking s2 = seed_asking s0"
      "seed_timer s2 = seed_timer s0" "seed_log s2 = seed_log s0" by (simp_all add: s2_def)
    moreover have "seed_started s0" using started by (simp add: s0_def)
    ultimately show ?thesis using inv0 that unfolding seed_inv_def finish_seeding_running by simp
  qed
  ultimately show ?thesis using inv0 by simp
next
  case (seed_step_get advertise selfs ec s2 again)
  with assms(2) show ?thesis
    by (cases "seed_stopped s = None")
      (auto simp: seed_inv_def seed_handlers seed_send_addresses_def finish_seeding_running simp del: failed_iff split: if_splits)
next
  case (seed_step_given ec)
  with assms(2) show ?thesis
    by (cases "seed_stopped s = None") (auto simp: seed_inv_def seed_handlers finish_seeding_running simp del: failed_iff)
next
  case (seed_step_timer ec)
  with assms(2) show ?thesis
    by (cases "seed_stopped s = None") (auto simp: seed_inv_def seed_handlers simp del: failed_iff)
next
  case (seed_step_stop ec)
  with assms(2) show ?thesis by (auto simp: seed_inv_def)
qed

lemma seed_reach_inv: "seed_reach refused cap outbound v2 events s \<Longrightarrow> seed_inv refused cap s"
proof (induction rule: seed_reach.induct)
  case seed_created
  show ?case by (simp add: seed_inv_def seeding_init_def seed_complete_def)
qed (rule seed_step_inv)

section \<open>Completion by the history\<close>

lemma history_simps [simp]:
  "request_written [] = False" "request_written (events @ [e]) = (request_written events \<or> e = Request_Written e_success)"
  "answered [] = False" "answered (events @ [Message_Stored ec n]) = (n \<noteq> 1)"
  "answered (events @ [Request_Written ec]) = answered events" "answered (events @ [Seed_Other]) = answered events"
  by (auto simp: request_written_def answered_def stored_sizes_def map_filter_def)

text \<open>The flags of a running protocol are those of its history, before and after a step.\<close>

definition flags_of :: "seed_event list \<Rightarrow> seeding \<Rightarrow> bool" where
  "flags_of events s \<longleftrightarrow> (seed_stopped s = None \<longrightarrow>
    sent_get_address s = request_written events \<and> received_address s = answered events)"

lemma finish_seeding_cases:
  "seed_stopped (finish_seeding s) = (if seed_stopped s = None \<and> seed_complete s then Some e_seeding_complete else seed_stopped s)"
  "received_address (finish_seeding s) = received_address s"
  by (simp_all add: finish_seeding_def seed_stop_def)

lemma seed_step_flags:
  assumes "seed_step refused cap outbound v2 e s s1" "flags_of events s" "seed_stopped s = None \<longrightarrow> \<not> seed_complete s"
  shows "flags_of (events @ [e]) s1 \<and>
    (seed_stopped s \<noteq> None \<longrightarrow> seed_stopped s1 = seed_stopped s) \<and>
    (seed_stopped s = None \<and> seed_stopped s1 = Some e_seeding_complete \<longrightarrow>
      request_written (events @ [e]) \<and> answered (events @ [e]))"
  using assms(1)
proof cases
  case seed_step_start
  with assms(2) show ?thesis by (auto simp: flags_of_def seed_start_def)
next
  case (seed_step_asked ec)
  with assms(2) show ?thesis
    by (cases "seed_stopped s")
      (auto simp: flags_of_def handle_send_get_address_def seed_is_stopped_def finish_seeding_cases seed_complete_def failed_iff)
next
  case (seed_step_address held items select shuffled ec s2 again)
  then have "s2 = s \<or> (\<exists>l k. s2 = s\<lparr>seed_log := l, seed_storing := k\<rparr>)"
    unfolding seed_receive_address_def Let_def by (simp only: split: if_splits) auto
  with assms(2) seed_step_address(1,2) show ?thesis by (auto simp: flags_of_def)
next
  case (seed_step_saved end_size start_size rest ec)
  show ?thesis
  proof (cases "seed_stopped s")
    case None
    then have "seed_stopped s1 = None \<or> seed_stopped s1 = Some e_seeding_complete \<longrightarrow>
        received_address s1 = (start_size \<noteq> 1) \<and> sent_get_address s1 = sent_get_address s"
      and "seed_stopped s1 = Some e_seeding_complete \<longrightarrow> seed_complete s1"
      using seed_step_saved(2,4)
      by (auto simp: handle_save_addresses_def Let_def finish_seeding_cases seed_stop_def)
    with assms(2) None seed_step_saved(1) show ?thesis by (auto simp: flags_of_def seed_complete_def)
  next
    case (Some a)
    with seed_step_saved(1,2) show ?thesis by (simp add: flags_of_def handle_save_addresses_def)
  qed
next
  case (seed_step_get advertise selfs ec s2 again)
  with assms(2,3) show ?thesis
    by (cases "seed_stopped s")
      (auto simp: flags_of_def seed_receive_get_address_def handle_send_address_def seed_is_stopped_def seed_send_addresses_def
        finish_seeding_def split: if_splits)
next
  case (seed_step_given ec)
  with assms(2,3) show ?thesis
    by (cases "seed_stopped s")
      (auto simp: flags_of_def handle_send_address_def seed_is_stopped_def finish_seeding_def)
next
  case (seed_step_timer ec)
  with assms(2) show ?thesis
    by (cases "seed_stopped s") (auto simp: flags_of_def seed_handle_timer_def seed_stop_def)
next
  case (seed_step_stop ec)
  with assms(2) show ?thesis by (cases "seed_stopped s") (auto simp: flags_of_def seed_stop_def)
qed

lemma seed_reach_flags: "seed_reach refused cap outbound v2 events s \<Longrightarrow> flags_of events s"
proof (induction rule: seed_reach.induct)
  case seed_created
  show ?case by (simp add: flags_of_def seeding_init_def)
next
  case (seed_stepped events s e s1)
  then show ?case using seed_step_flags seed_reach_inv unfolding seed_inv_def by blast
qed

lemma seed_reach_completes:
  "seed_reach refused cap outbound v2 events s \<Longrightarrow>
    (seed_stopped s = None \<longrightarrow> (\<forall>p. prefix p events \<longrightarrow> \<not> (request_written p \<and> answered p))) \<and>
    (seed_stopped s = Some e_seeding_complete \<longrightarrow> (\<exists>p. prefix p events \<and> request_written p \<and> answered p))"
proof (induction rule: seed_reach.induct)
  case seed_created
  show ?case by (simp add: seeding_init_def)
next
  case (seed_stepped events s e s1)
  have complete: "seed_stopped s = None \<longrightarrow> \<not> seed_complete s" using seed_reach_inv [OF seed_stepped(1)] by (simp add: seed_inv_def)
  note step = seed_step_flags [OF seed_stepped(2) seed_reach_flags [OF seed_stepped(1)] complete]
  have "seed_stopped s1 = None \<longrightarrow> \<not> seed_complete s1"
    using seed_step_inv [OF seed_stepped(2) seed_reach_inv [OF seed_stepped(1)]] by (simp add: seed_inv_def)
  then have "seed_stopped s1 = None \<longrightarrow> \<not> (request_written (events @ [e]) \<and> answered (events @ [e]))"
    using step unfolding flags_of_def seed_complete_def by blast
  with step seed_stepped(3) show ?case
    by (cases "seed_stopped s") (auto simp: prefix_snoc)
qed

text \<open>
  C36. Seeding ends, in every interleaving, and when it does is told by the history of the run. While it runs, its two
  flags are that the request was written and that an answer (a message of other than one address) was stored and not
  taken back, and at no time so far were both so: where the request was written and an answer stored, a single address
  had been stored last, which takes the answer back (a known exception: the code means to ignore it,
  \<open>answer_forgotten\<close>). It is stopped with the code of completion only after a time when both were so. A running
  protocol that was started waits for the write of its request, whose completion starts the timer, or for that timer,
  which stops the channel when it fires. And what it stores has no excluded address and no more than the pool can hold.
\<close>

theorem seeding_ends:
  assumes "seed_reach refused cap outbound v2 events s"
  shows "(seed_stopped s = None \<longrightarrow>
      sent_get_address s = request_written events \<and>
      received_address s = (answer_stored events \<and> \<not> taken_back events) \<and>
      (\<forall>p. prefix p events \<and> request_written p \<and> answer_stored p \<longrightarrow> taken_back p)) \<and>
    (seed_stopped s = Some e_seeding_complete \<longrightarrow>
      (\<exists>p. prefix p events \<and> request_written p \<and> answer_stored p \<and> \<not> taken_back p)) \<and>
    (seed_started s \<and> seed_stopped s = None \<longrightarrow>
      (if request_written events then seed_timer s else seed_asking s) \<and>
      seed_stopped (seed_handle_timer e_success s) = Some e_channel_timeout \<and>
      seed_timer (handle_send_get_address e_success s)) \<and>
    list_all (effect_ok refused cap) (seed_log s)"
proof -
  have "\<not> failed e_success" by simp
  then have ends: "seed_stopped s = None \<longrightarrow> seed_stopped (seed_handle_timer e_success s) = Some e_channel_timeout \<and>
      seed_timer (handle_send_get_address e_success s)"
    by (simp only: seed_handle_timer_def seed_stop_def handle_send_get_address_def seed_is_stopped_def) simp
  have "seed_inv refused cap s" "flags_of events s" using assms by (rule seed_reach_inv, rule seed_reach_flags)
  with ends seed_reach_completes [OF assms] show ?thesis
    unfolding seed_inv_def flags_of_def answered_stored by (auto split: if_splits)
qed

text \<open>A run: the request is written, nine addresses are stored, and the protocol is stopped as complete.\<close>

definition seed_self :: address_item where
  "seed_self = \<lparr>ai_timestamp = 0, ai_services = 0, ai_address = monostate, ai_port = 0\<rparr>"

definition seed_items :: "address_item list" where
  "seed_items = [seed_self, seed_self\<lparr>ai_port := 1\<rparr>]"

lemma seed_run:
  "\<exists>s. seed_reach (\<lambda>_. False) 5 seed_self False
      [Seed_Other, Seed_Other, Message_Stored e_success 2, Request_Written e_success] s \<and> seed_stopped s = Some e_seeding_complete"
proof -
  let ?s1 = "seed_start seeding_init"
  let ?s2 = "?s1\<lparr>seed_log := seed_log ?s1 @ [Stored seed_items], seed_storing := [(2, 2)]\<rparr>"
  let ?s3 = "handle_save_addresses e_success 2 2 (?s2\<lparr>seed_storing := []\<rparr>)"
  let ?step = "seed_step (\<lambda>_. False) 5 seed_self False"
  have received: "seed_receive_address (\<lambda>_. False) seed_self 2 seed_items e_success seed_items ?s1 = (?s2, True)"
    by (simp add: seed_receive_address_def seed_is_stopped_def seed_start_def seeding_init_def filter_addresses_def seed_items_def)
  have input: "filter_input 5 0 seed_items 2 seed_items"
    by (simp add: filter_input_def random_between_def minimum_select_def maximum_select_def pool_gap_def seed_items_def)
  have "on_address ?s1" by (simp add: seed_start_def seeding_init_def)
  from seed_step_address [OF this input received] have "?step Seed_Other ?s1 (?s2\<lparr>on_address := True\<rparr>)" .
  moreover have "?s2\<lparr>on_address := True\<rparr> = ?s2" by (simp add: seed_start_def seeding_init_def)
  ultimately have two: "?step Seed_Other ?s1 ?s2" by simp
  have three: "?step (Message_Stored e_success 2) ?s2 ?s3" by (rule seed_step_saved) simp_all
  have four: "?step (Request_Written e_success) ?s3 (handle_send_get_address e_success (?s3\<lparr>seed_asking := False\<rparr>))"
    by (rule seed_step_asked) (simp_all add: handle_save_addresses_def seed_start_def seeding_init_def finish_seeding_def seed_complete_def Let_def)
  have "seed_reach (\<lambda>_. False) 5 seed_self False ((([] @ [Seed_Other]) @ [Seed_Other]) @ [Message_Stored e_success 2]) ?s3"
    by (rule seed_stepped [OF seed_stepped [OF seed_stepped [OF seed_created seed_step_start] two] three])
  from seed_stepped [OF this four] show ?thesis
    by (intro exI conjI, simp)
      (simp add: handle_send_get_address_def handle_save_addresses_def seed_is_stopped_def seed_start_def seeding_init_def
        finish_seeding_def seed_complete_def seed_stop_def Let_def)
qed

theorem seeding_ends_witness:
  "\<exists>p. prefix p [Seed_Other, Seed_Other, Message_Stored e_success 2, Request_Written e_success] \<and> request_written p \<and> answer_stored p"
  using seed_run seeding_ends by blast

text \<open>
  A single address that is stored after the answer, before the write of the request is reported, takes the
  answer back: the seeding then ends with the timeout only.
\<close>

lemma answer_forgotten:
  "seed_stopped s = None \<Longrightarrow> \<not> sent_get_address s \<Longrightarrow>
   let s1 = handle_save_addresses e_success n 1 (handle_save_addresses e_success n 9 s)
   in seed_stopped (handle_send_get_address e_success s1) = None \<and> \<not> received_address s1"
  by (simp add: handle_save_addresses_def handle_send_get_address_def finish_seeding_def seed_complete_def seed_is_stopped_def Let_def)

section \<open>Rejections\<close>

text \<open>
  \<open>protocol_reject_70002\<close>: a rejection is logged, but one of a version is a violation. The message, the code the
  channel is stopped with, and whether the subscription goes on.
\<close>

definition receive_reject :: "string \<Rightarrow> error_t \<Rightarrow> string \<Rightarrow> error_t option \<Rightarrow> error_t option \<times> bool" where
  "receive_reject version_command ec message stopped =
    (if stopped \<noteq> None \<or> failed ec then (stopped, False)
     else if message = version_command then (Some e_protocol_violation, False)
     else (stopped, True))"

end
