(* ===== verification/Zmtp_Frame.thy ===== *)
theory Zmtp_Frame
  imports Wire Error_Code
begin

text \<open>
  The ZMTP 3.1 codec (the static functions of \<open>src/src/zmtp/stream.cpp\<close> and the socket types of
  \<open>zmtp/role.hpp\<close>): frames, greetings, commands and metadata properties. Names and values are byte
  strings. \<open>frame_roundtrip\<close>, \<open>frame_message_read\<close> and \<open>greeting_parsed\<close> are the round trips;
  \<open>ready_property\<close> is the scan of the metadata.
\<close>

section \<open>Big endian words of 32 bits\<close>

definition be_bytes32 :: "uint32 \<Rightarrow> bytes" where
  "be_bytes32 w = [ucast (drop_bit 24 w), ucast (drop_bit 16 w), ucast (drop_bit 8 w), ucast w]"

lemma length_be_bytes32 [simp, wire_simps]: "length (be_bytes32 w) = 4"
  by (simp add: be_bytes32_def)

lemma be_accumulate32: "be_accumulate (0 :: uint32) (be_bytes32 w) = w"
proof -
  have step: "push_bit 8 (drop_bit (n + 8) w) OR ucast (ucast (drop_bit n w) :: byte) = drop_bit n w" for n
    by (rule bit_word_eqI) (auto simp: bit_simps)
  have "ucast (ucast (drop_bit 24 w) :: byte) = drop_bit 24 w"
    by (rule bit_word_eqI) (auto simp: bit_simps dest: bit_imp_le_length)
  with step [of 16] step [of 8] step [of 0] show ?thesis by (simp add: be_bytes32_def)
qed

section \<open>Constants\<close>

definition flag_more :: byte where "flag_more = 0x01"
definition flag_long :: byte where "flag_long = 0x02"
definition flag_command :: byte where "flag_command = 0x04"
definition greeting_size :: nat where "greeting_size = 64"
definition signature_size :: nat where "signature_size = 10"
definition greeting_stage1 :: nat where "greeting_stage1 = signature_size + 1"
definition greeting_stage2 :: nat where "greeting_stage2 = greeting_size - greeting_stage1"
definition revision_major :: byte where "revision_major = 3"
definition revision_minor :: byte where "revision_minor = 1"
definition maximum_inbound :: nat where "maximum_inbound = 8192"
definition maximum_ping_context :: nat where "maximum_ping_context = 16"
definition mechanism_size :: nat where "mechanism_size = 20"

lemmas zmtp_flags = flag_more_def flag_long_def flag_command_def
lemmas zmtp_sizes = greeting_size_def signature_size_def greeting_stage1_def greeting_stage2_def
  revision_major_def revision_minor_def maximum_inbound_def maximum_ping_context_def mechanism_size_def

definition mechanism_null :: bytes where "mechanism_null = string_bytes ''NULL''"
definition mechanism_curve :: bytes where "mechanism_curve = string_bytes ''CURVE''"
definition command_ready :: bytes where "command_ready = string_bytes ''READY''"
definition command_error :: bytes where "command_error = string_bytes ''ERROR''"
definition command_pong :: bytes where "command_pong = string_bytes ''PONG''"
definition command_hello :: bytes where "command_hello = string_bytes ''HELLO''"
definition command_initiate :: bytes where "command_initiate = string_bytes ''INITIATE''"
definition command_message :: bytes where "command_message = string_bytes ''MESSAGE''"

lemmas zmtp_names = mechanism_null_def mechanism_curve_def command_ready_def command_error_def command_pong_def
  command_hello_def command_initiate_def command_message_def

section \<open>Socket types\<close>

datatype zmtp_role = Role_Undefined | Role_Publisher | Role_Puller | Role_Replier | Role_Router

fun socket_type :: "zmtp_role \<Rightarrow> string" where
  "socket_type Role_Publisher = ''PUB''"
| "socket_type Role_Puller = ''PULL''"
| "socket_type Role_Replier = ''REP''"
| "socket_type Role_Router = ''ROUTER''"
| "socket_type Role_Undefined = ''''"

fun role_compatible :: "zmtp_role \<Rightarrow> bytes \<Rightarrow> bool" where
  "role_compatible Role_Publisher peer \<longleftrightarrow> peer = string_bytes ''SUB'' \<or> peer = string_bytes ''XSUB''"
| "role_compatible Role_Puller peer \<longleftrightarrow> peer = string_bytes ''PUSH''"
| "role_compatible Role_Replier peer \<longleftrightarrow> peer = string_bytes ''REQ'' \<or> peer = string_bytes ''DEALER''"
| "role_compatible Role_Router peer \<longleftrightarrow>
     peer = string_bytes ''REQ'' \<or> peer = string_bytes ''DEALER'' \<or> peer = string_bytes ''ROUTER''"
| "role_compatible Role_Undefined peer \<longleftrightarrow> False"

section \<open>Frames\<close>

definition frame_size :: "nat \<Rightarrow> nat" where
  "frame_size body = (if 0xff < body then 8 else 1) + 1 + body"

definition frame_flags :: "bool \<Rightarrow> bool \<Rightarrow> byte" where
  "frame_flags command cont = (if command then flag_command else 0) OR (if cont then flag_more else 0)"

definition write_frame_head :: "nat \<Rightarrow> bool \<Rightarrow> bool \<Rightarrow> bytes" where
  "write_frame_head body command cont =
    (if 0xff < body then (frame_flags command cont OR flag_long) # be_bytes64 (of_nat body)
     else [frame_flags command cont, of_nat body])"

definition frame_encode :: "bytes \<Rightarrow> bool \<Rightarrow> bool \<Rightarrow> bytes" where
  "frame_encode body command cont = write_frame_head (length body) command cont @ body"

definition frame_message :: "bytes list \<Rightarrow> bytes" where
  "frame_message parts =
    concat (map (\<lambda>i. frame_encode (parts ! i) False (i < length parts - 1)) [0..<length parts])"

text \<open>The frame at the front of a buffer, as its flags, its body and the rest of the buffer.\<close>

definition frame_decode :: "bytes \<Rightarrow> (byte \<times> bytes \<times> bytes) option" where
  "frame_decode buffer =
    (case buffer of
       [] \<Rightarrow> None
     | flags # rest \<Rightarrow>
         if flags AND flag_long \<noteq> 0 then
           if length rest < 8 then None
           else let n = unat (be_accumulate (0 :: uint64) (take 8 rest)); rest' = drop 8 rest in
             if length rest' < n then None else Some (flags, take n rest', drop n rest')
         else
           (case rest of
              [] \<Rightarrow> None
            | b # rest' \<Rightarrow>
                if length rest' < unat b then None else Some (flags, take (unat b) rest', drop (unat b) rest')))"

section \<open>Greetings\<close>

definition make_greeting :: "bool \<Rightarrow> bool \<Rightarrow> bytes" where
  "make_greeting as_server curve =
    (let mechanism = if curve then mechanism_curve else mechanism_null in
     0xff # replicate (signature_size - 2) 0 @ [0x7f, revision_major, revision_minor] @
     mechanism @ replicate (mechanism_size - length mechanism) 0 @
     [if curve \<and> as_server then 1 else 0] @ replicate 31 0)"

definition mechanism_matches :: "bytes \<Rightarrow> bytes \<Rightarrow> bool" where
  "mechanism_matches field name \<longleftrightarrow>
    take (length name) field = name \<and> list_all (\<lambda>b. b = 0) (drop (length name) field)"

text \<open>A valid greeting as its minor version, its mechanism (CURVE or NULL) and its as-server byte.\<close>

definition parse_greeting :: "bytes \<Rightarrow> (byte \<times> bool \<times> bool) option" where
  "parse_greeting greeting =
    (if length greeting \<noteq> greeting_size then None
     else if greeting ! 0 \<noteq> 0xff \<or> greeting ! (signature_size - 1) AND 0x01 = 0 then None
     else if greeting ! signature_size < revision_major then None
     else
       let minor = greeting ! (signature_size + 1);
           field = take mechanism_size (drop (signature_size + 2) greeting);
           as_server = greeting ! (signature_size + 2 + mechanism_size) \<noteq> 0
       in if mechanism_matches field mechanism_null then Some (minor, False, as_server)
          else if mechanism_matches field mechanism_curve then Some (minor, True, as_server)
          else None)"

section \<open>Commands and metadata\<close>

definition make_property :: "bytes \<Rightarrow> bytes \<Rightarrow> bytes" where
  "make_property name value = of_nat (length name) # name @ be_bytes32 (of_nat (length value)) @ value"

definition make_ready :: "zmtp_role \<Rightarrow> bytes" where
  "make_ready role =
    frame_encode
      (of_nat (length command_ready) # command_ready @
       make_property (string_bytes ''Socket-Type'') (string_bytes (socket_type role))) True False"

definition make_error :: "bytes \<Rightarrow> bytes" where
  "make_error reason =
    frame_encode
      (of_nat (length command_error) # command_error @
       of_nat (min (length reason) 255) # take (min (length reason) 255) reason) True False"

definition make_pong :: "bytes \<Rightarrow> bytes" where
  "make_pong ctx =
    frame_encode
      (of_nat (length command_pong) # command_pong @ take (min (length ctx) maximum_ping_context) ctx) True False"

definition command_name :: "bytes \<Rightarrow> (bytes \<times> bytes) option" where
  "command_name frame =
    (case frame of
       [] \<Rightarrow> None
     | b # rest \<Rightarrow>
         if length rest < unat b then None else Some (take (unat b) rest, drop (unat b) rest))"

function ready_property :: "bytes \<Rightarrow> bytes \<Rightarrow> bytes option" where
  "ready_property property [] = None"
| "ready_property property (b # data) =
    (if length data < unat b then None
     else
       let name = take (unat b) data; data1 = drop (unat b) data in
       if length data1 < 4 then None
       else
         let n = unat (be_accumulate (0 :: uint32) (take 4 data1)); data2 = drop 4 data1 in
         if length data2 < n then None
         else if name = property then Some (take n data2)
         else ready_property property (drop n data2))"
  by pat_completeness auto
termination by (relation "measure (length \<circ> snd)") auto

definition ready_socket_type :: "bytes \<Rightarrow> bytes option" where
  "ready_socket_type body = ready_property (string_bytes ''Socket-Type'') body"

section \<open>Frames read back\<close>

lemma unat_of_nat_byte: "n < 256 \<Longrightarrow> unat (of_nat n :: byte) = n"
  by (simp add: unat_of_nat)

lemma unat_of_nat_64: "n < 2 ^ 64 \<Longrightarrow> unat (of_nat n :: uint64) = n"
  by (simp add: unat_of_nat)

lemma unat_of_nat_32: "n < 2 ^ 32 \<Longrightarrow> unat (of_nat n :: uint32) = n"
  by (simp add: unat_of_nat)

lemma frame_flags_masks:
  "frame_flags command cont AND flag_long = 0"
  "(frame_flags command cont OR flag_long) AND flag_long \<noteq> 0"
  "(frame_flags command cont AND flag_command \<noteq> 0) = command"
  "(frame_flags command cont AND flag_more \<noteq> 0) = cont"
  "((frame_flags command cont OR flag_long) AND flag_command \<noteq> 0) = command"
  "((frame_flags command cont OR flag_long) AND flag_more \<noteq> 0) = cont"
  by (cases command; cases cont; simp add: frame_flags_def zmtp_flags)+

definition wire_flags :: "bytes \<Rightarrow> bool \<Rightarrow> bool \<Rightarrow> byte" where
  "wire_flags body command cont =
    (if 0xff < length body then frame_flags command cont OR flag_long else frame_flags command cont)"

lemma wire_flags_masks [simp]:
  "(wire_flags body command cont AND flag_command = 0) = (\<not> command)"
  "(wire_flags body command cont AND flag_more = 0) = (\<not> cont)"
  "(wire_flags body command cont AND flag_long = 0) = (length body \<le> 0xff)"
  using frame_flags_masks [of command cont] by (auto simp: wire_flags_def)

lemma length_frame_encode: "length (frame_encode body command cont) = frame_size (length body)"
  by (simp add: frame_encode_def write_frame_head_def frame_size_def)

lemma frame_encode_cons:
  "frame_encode body command cont =
    wire_flags body command cont # (if 0xff < length body then be_bytes64 (of_nat (length body)) else [of_nat (length body)]) @ body"
  by (simp add: frame_encode_def write_frame_head_def wire_flags_def)

lemma frame_decode_encode:
  assumes "length body < 2 ^ 64"
  shows "frame_decode (frame_encode body command cont @ rest) = Some (wire_flags body command cont, body, rest)"
  using assms
  by (simp add: frame_decode_def frame_encode_cons be_accumulate64 unat_of_nat_64 unat_of_nat_byte del: of_nat_numeral)

text \<open>An encoded frame is read back as its flags and its body, whatever follows it, and has the size announced.\<close>

theorem frame_roundtrip:
  "length body < 2 ^ 64 \<Longrightarrow>
    frame_decode (frame_encode body command cont @ rest) = Some (wire_flags body command cont, body, rest) \<and>
    (wire_flags body command cont AND flag_command \<noteq> 0) = command \<and>
    (wire_flags body command cont AND flag_more \<noteq> 0) = cont \<and>
    length (frame_encode body command cont) = frame_size (length body)"
  by (simp add: frame_decode_encode length_frame_encode)

lemma frame_decode_shorter: "frame_decode buffer = Some (flags, body, rest) \<Longrightarrow> length rest < length buffer"
  by (auto simp: frame_decode_def Let_def split: list.splits if_splits)

text \<open>All the frames of a buffer.\<close>

function decode_frames :: "bytes \<Rightarrow> (byte \<times> bytes) list option" where
  "decode_frames buffer =
    (if buffer = [] then Some []
     else case frame_decode buffer of
       None \<Rightarrow> None
     | Some (flags, body, rest) \<Rightarrow> map_option (\<lambda>fs. (flags, body) # fs) (decode_frames rest))"
  by pat_completeness auto
termination by (relation "measure length") (auto simp: frame_decode_shorter)

declare decode_frames.simps [simp del]

lemma decode_frames_nil [simp]: "decode_frames [] = Some []"
  by (simp add: decode_frames.simps)

lemma frame_encode_not_nil [simp]: "frame_encode body command cont \<noteq> []"
  by (simp add: frame_encode_cons)

lemma decode_frames_encode:
  "length body < 2 ^ 64 \<Longrightarrow>
    decode_frames (frame_encode body command cont @ rest) =
      map_option (\<lambda>fs. (wire_flags body command cont, body) # fs) (decode_frames rest)"
  by (subst decode_frames.simps) (simp add: frame_decode_encode)

lemma decode_frames_concat:
  "list_all (\<lambda>(body, command, cont). length body < 2 ^ 64) fs \<Longrightarrow>
    decode_frames (concat (map (\<lambda>(body, command, cont). frame_encode body command cont) fs)) =
      Some (map (\<lambda>(body, command, cont). (wire_flags body command cont, body)) fs)"
  by (induction fs) (auto simp: decode_frames_encode)

definition message_frames :: "bytes list \<Rightarrow> (bytes \<times> bool \<times> bool) list" where
  "message_frames parts = map (\<lambda>i. (parts ! i, False, i < length parts - 1)) [0..<length parts]"

lemma frame_message_frames:
  "frame_message parts = concat (map (\<lambda>(body, command, cont). frame_encode body command cont) (message_frames parts))"
  by (simp add: frame_message_def message_frames_def comp_def)

text \<open>
  A framed multipart message is read back part by part: the same bodies in the same order, each a
  message frame, with the MORE flag on all but the last.
\<close>

theorem frame_message_read:
  assumes "list_all (\<lambda>part. length part < 2 ^ 64) parts"
  shows "\<exists>fs. decode_frames (frame_message parts) = Some fs \<and> map snd fs = parts \<and>
    map (\<lambda>(flags, body). flags AND flag_command \<noteq> 0) fs = replicate (length parts) False \<and>
    map (\<lambda>(flags, body). flags AND flag_more \<noteq> 0) fs = map (\<lambda>i. i < length parts - 1) [0..<length parts]"
proof (intro exI conjI)
  let ?fs = "map (\<lambda>(body, command, cont). (wire_flags body command cont, body)) (message_frames parts)"
  show "decode_frames (frame_message parts) = Some ?fs"
    unfolding frame_message_frames
    by (rule decode_frames_concat) (use assms in \<open>auto simp: message_frames_def list_all_length\<close>)
  show "map snd ?fs = parts"
    by (simp add: message_frames_def comp_def map_nth)
  show "map (\<lambda>(flags, body). flags AND flag_command \<noteq> 0) ?fs = replicate (length parts) False"
    by (rule nth_equalityI) (auto simp: message_frames_def)
  show "map (\<lambda>(flags, body). flags AND flag_more \<noteq> 0) ?fs = map (\<lambda>i. i < length parts - 1) [0..<length parts]"
    by (rule nth_equalityI) (auto simp: message_frames_def)
qed

section \<open>Greetings and metadata read back\<close>

lemma parse_make_greeting: "parse_greeting (make_greeting as_server curve) = Some (revision_minor, curve, curve \<and> as_server)"
  by (cases as_server; cases curve; simp only:; code_simp)

lemma length_make_greeting [simp]: "length (make_greeting as_server curve) = greeting_size"
  by (cases as_server; cases curve; simp only:; code_simp)

lemma command_name_cons:
  "length name < 256 \<Longrightarrow> command_name (of_nat (length name) # name @ content) = Some (name, content)"
  by (simp add: command_name_def unat_of_nat_byte)

lemma ready_property_make:
  assumes "length name < 256" "length v < 2 ^ 32"
  shows "ready_property property (make_property name v @ rest) =
    (if name = property then Some v else ready_property property rest)"
  using assms
  by (simp add: make_property_def unat_of_nat_byte be_accumulate32 unat_of_nat_32 Let_def)

definition metadata_bytes :: "(bytes \<times> bytes) list \<Rightarrow> bytes" where
  "metadata_bytes ps = concat (map (\<lambda>(name, v). make_property name v) ps)"

text \<open>The scan of well formed metadata is the lookup in the list of its properties.\<close>

theorem metadata_lookup:
  "list_all (\<lambda>(name, v). length name < 256 \<and> length v < 2 ^ 32) ps \<Longrightarrow>
    ready_property property (metadata_bytes ps) = map_of ps property"
  by (induction ps) (auto simp: metadata_bytes_def ready_property_make)

end
