(* ===== verification/Zmtp_Cipher.thy ===== *)
theory Zmtp_Cipher
  imports Zmtp_Frame
begin

text \<open>
  The CurveZMQ mechanism of a connection (\<open>src/src/zmtp/cipher.cpp\<close>, \<open>zmtp/cipher.hpp\<close>), both sides: the
  handshake commands HELLO, WELCOME, INITIATE and READY and the boxed MESSAGE. The primitives of the system
  library (x25519, hsalsa20, xsalsa20-poly1305) are a parameter, the generated keys and nonces are inputs. A
  box is the key it was made with. What is relied on of the primitives is in \<open>box_laws\<close> and
  \<open>exchange_laws\<close>: a box opens to what was sealed and to nothing else, and both sides derive one key.
  \<open>curve_handshake_agrees\<close> is the complete run, \<open>curve_ready_authenticates\<close> what a server has
  checked when it accepts, \<open>curve_messages_delivered\<close> and \<open>curve_messages_fresh\<close> the message phase.
\<close>

section \<open>Primitives and constants\<close>

record crypto =
  base_multiply :: "bytes \<Rightarrow> bytes option"
  point_multiply :: "bytes \<Rightarrow> bytes \<Rightarrow> bytes option"
  hsalsa20 :: "bytes \<Rightarrow> bytes"
  box_encrypt :: "bytes \<Rightarrow> bytes \<Rightarrow> bytes \<Rightarrow> bytes"
  box_decrypt :: "bytes \<Rightarrow> bytes \<Rightarrow> bytes \<Rightarrow> bytes option"

definition key_size :: nat where "key_size = 32"
definition tag_size :: nat where "tag_size = 16"
definition short_nonce_size :: nat where "short_nonce_size = 8"
definition long_nonce_size :: nat where "long_nonce_size = 16"
definition cookie_size :: nat where "cookie_size = long_nonce_size + tag_size + 2 * key_size"
definition hello_size :: nat where "hello_size = 200"
definition welcome_size :: nat where "welcome_size = 168"
definition initiate_minimum :: nat where "initiate_minimum = 257"
definition ready_minimum :: nat where "ready_minimum = 30"
definition message_minimum :: nat where "message_minimum = 33"
definition payload_more :: byte where "payload_more = 0x01"
definition payload_command :: byte where "payload_command = 0x02"
definition version_major :: byte where "version_major = 1"
definition version_minor :: byte where "version_minor = 0"
definition hello_padding :: nat where "hello_padding = 72"
definition hello_content :: nat where "hello_content = 64"
definition command_welcome :: bytes where "command_welcome = string_bytes ''WELCOME''"

lemmas curve_sizes = key_size_def tag_size_def short_nonce_size_def long_nonce_size_def cookie_size_def hello_size_def
  welcome_size_def initiate_minimum_def ready_minimum_def message_minimum_def version_major_def version_minor_def
  hello_padding_def hello_content_def

lemma length_names [simp]:
  "length command_hello = 5" "length command_welcome = 7" "length command_initiate = 8" "length command_ready = 5"
  "length command_message = 7" "length command_error = 5"
  by (simp_all add: zmtp_names command_welcome_def)

section \<open>State\<close>

record cipher =
  is_server :: bool
  own_secret :: bytes
  own_public :: bytes
  peer_public :: bytes
  transient_secret :: bytes
  transient_public :: bytes
  peer_transient :: bytes
  cookie_key :: bytes
  own_nonce :: uint64
  peer_nonce :: uint64
  hello_box :: "bytes option"
  vouch_box :: "bytes option"
  session_box :: "bytes option"

definition null_key :: bytes where "null_key = replicate key_size 0"

definition server_cipher :: "bytes \<Rightarrow> bytes \<Rightarrow> cipher" where
  "server_cipher secret public =
    \<lparr>is_server = True, own_secret = secret, own_public = public, peer_public = null_key,
     transient_secret = null_key, transient_public = null_key, peer_transient = null_key, cookie_key = null_key,
     own_nonce = 1, peer_nonce = 0, hello_box = None, vouch_box = None, session_box = None\<rparr>"

definition client_cipher :: "bytes \<Rightarrow> bytes \<Rightarrow> bytes \<Rightarrow> cipher" where
  "client_cipher secret public server =
    \<lparr>is_server = False, own_secret = secret, own_public = public, peer_public = server,
     transient_secret = null_key, transient_public = null_key, peer_transient = null_key, cookie_key = null_key,
     own_nonce = 1, peer_nonce = 0, hello_box = None, vouch_box = None, session_box = None\<rparr>"

section \<open>Keys, nonces and boxes\<close>

definition to_public :: "crypto \<Rightarrow> bytes \<Rightarrow> bytes option" where
  "to_public cr secret = base_multiply cr secret"

definition derive :: "crypto \<Rightarrow> bytes \<Rightarrow> bytes \<Rightarrow> bytes option" where
  "derive cr secret public =
    (case point_multiply cr secret public of None \<Rightarrow> None | Some point \<Rightarrow> Some (hsalsa20 cr point))"

definition make_nonce :: "string \<Rightarrow> uint64 \<Rightarrow> bytes" where
  "make_nonce prefix v = string_bytes prefix @ be_bytes64 v"

definition make_long_nonce :: "string \<Rightarrow> bytes \<Rightarrow> bytes" where
  "make_long_nonce prefix v = string_bytes prefix @ v"

definition short_nonce_value :: "bytes \<Rightarrow> nat \<Rightarrow> uint64" where
  "short_nonce_value data offset = be_accumulate 0 (take short_nonce_size (drop offset data))"

definition nonce_accept :: "uint64 \<Rightarrow> cipher \<Rightarrow> bool \<times> cipher" where
  "nonce_accept nonce c = (if nonce \<le> peer_nonce c then (False, c) else (True, c\<lparr>peer_nonce := nonce\<rparr>))"

definition seal :: "crypto \<Rightarrow> bytes \<Rightarrow> bytes \<Rightarrow> bytes \<Rightarrow> bytes \<Rightarrow> bytes" where
  "seal cr out box nonce plain = out @ box_encrypt cr box nonce plain"

definition open_box :: "crypto \<Rightarrow> bytes \<Rightarrow> bytes \<Rightarrow> bytes \<Rightarrow> bytes option" where
  "open_box cr box nonce sealed = (if length sealed < tag_size then None else box_decrypt cr box nonce sealed)"

definition named :: "bytes \<Rightarrow> bytes \<Rightarrow> bool" where
  "named body name \<longleftrightarrow>
    length name < length body \<and> unat (hd body) = length name \<and> take (length name) (tl body) = name"

definition name_bytes :: "bytes \<Rightarrow> bytes" where
  "name_bytes name = of_nat (length name) # name"


section \<open>Handshake commands\<close>

definition cipher_hello :: "crypto \<Rightarrow> bytes \<times> bytes \<Rightarrow> cipher \<Rightarrow> bytes option \<times> cipher" where
  "cipher_hello cr generated c =
    (if is_server c then (None, c)
     else let c = c\<lparr>transient_secret := fst generated, transient_public := snd generated\<rparr> in
     (case derive cr (transient_secret c) (peer_public c) of
        None \<Rightarrow> (None, c)
      | Some shared \<Rightarrow>
          let c = c\<lparr>hello_box := Some shared\<rparr>;
              out = name_bytes command_hello @ [version_major, version_minor] @ replicate hello_padding 0 @
                transient_public c @ be_bytes64 (own_nonce c);
              out = seal cr out shared (make_nonce ''CurveZMQHELLO---'' (own_nonce c)) (replicate hello_content 0);
              c = c\<lparr>own_nonce := own_nonce c + 1\<rparr>
          in (if length out = hello_size then Some out else None, c)))"

record welcome_random =
  wr_generated :: "bytes \<times> bytes"
  wr_cookie_key :: bytes
  wr_cookie_nonce :: bytes
  wr_welcome_nonce :: bytes

definition cipher_welcome :: "crypto \<Rightarrow> welcome_random \<Rightarrow> bytes \<Rightarrow> cipher \<Rightarrow> bytes option \<times> cipher" where
  "cipher_welcome cr rnd hello c =
    (if \<not> is_server c \<or> length hello \<noteq> hello_size \<or> \<not> named hello command_hello then (None, c)
     else if hello ! 6 \<noteq> version_major \<or> hello ! 7 \<noteq> version_minor then (None, c)
     else
       let offset = 6 + 2 + hello_padding;
           c = c\<lparr>peer_transient := take key_size (drop offset hello)\<rparr>;
           nonce = short_nonce_value hello (offset + key_size);
           offset = offset + key_size + short_nonce_size
       in (case derive cr (own_secret c) (peer_transient c) of
             None \<Rightarrow> (None, c)
           | Some shared \<Rightarrow>
               let c = c\<lparr>hello_box := Some shared\<rparr>; (accepted, c) = nonce_accept nonce c in
               if \<not> accepted then (None, c)
               else (case open_box cr shared (make_nonce ''CurveZMQHELLO---'' nonce) (drop offset hello) of
                  None \<Rightarrow> (None, c)
                | Some content \<Rightarrow>
                    let c = c\<lparr>transient_secret := fst (wr_generated rnd), transient_public := snd (wr_generated rnd),
                          cookie_key := wr_cookie_key rnd\<rparr>;
                        cookie = seal cr (wr_cookie_nonce rnd) (cookie_key c)
                          (make_long_nonce ''COOKIE--'' (wr_cookie_nonce rnd)) (peer_transient c @ transient_secret c);
                        out = seal cr (name_bytes command_welcome @ wr_welcome_nonce rnd) shared
                          (make_long_nonce ''WELCOME-'' (wr_welcome_nonce rnd)) (transient_public c @ cookie)
                    in (if length out = welcome_size then Some out else None, c))))"

definition cipher_initiate ::
  "crypto \<Rightarrow> bytes \<Rightarrow> bytes \<Rightarrow> bytes \<Rightarrow> cipher \<Rightarrow> bytes option \<times> cipher" where
  "cipher_initiate cr vouch_nonce welcome metadata c =
    (case hello_box c of
       None \<Rightarrow> (None, c)
     | Some hbox \<Rightarrow>
         if is_server c \<or> length welcome \<noteq> welcome_size \<or> \<not> named welcome command_welcome then (None, c)
         else
           let offset = 8; welcome_nonce = take long_nonce_size (drop offset welcome) in
           case open_box cr hbox (make_long_nonce ''WELCOME-'' welcome_nonce) (drop (offset + long_nonce_size) welcome) of
             None \<Rightarrow> (None, c)
           | Some plain \<Rightarrow>
               let c = c\<lparr>peer_transient := take key_size plain\<rparr>;
                   cookie = take cookie_size (drop key_size plain)
               in (case derive cr (transient_secret c) (peer_transient c) of
                     None \<Rightarrow> (None, c)
                   | Some session \<Rightarrow>
                       let c = c\<lparr>session_box := Some session\<rparr> in
                       (case derive cr (own_secret c) (peer_transient c) of
                          None \<Rightarrow> (None, c)
                        | Some vbox \<Rightarrow>
                            let c = c\<lparr>vouch_box := Some vbox\<rparr>;
                                vouch = seal cr vouch_nonce vbox (make_long_nonce ''VOUCH---'' vouch_nonce)
                                  (transient_public c @ peer_public c);
                                content = own_public c @ vouch @ metadata;
                                out = seal cr (name_bytes command_initiate @ cookie @ be_bytes64 (own_nonce c)) session
                                  (make_nonce ''CurveZMQINITIATE'' (own_nonce c)) content
                            in (Some out, c\<lparr>own_nonce := own_nonce c + 1\<rparr>))))"

definition cipher_ready :: "crypto \<Rightarrow> bytes \<Rightarrow> bytes \<Rightarrow> cipher \<Rightarrow> (bytes \<times> bytes) option \<times> cipher" where
  "cipher_ready cr initiate metadata c =
    (if \<not> is_server c \<or> length initiate < initiate_minimum \<or> \<not> named initiate command_initiate then (None, c)
     else
       let offset = 9; cookie_nonce = take long_nonce_size (drop offset initiate) in
       case open_box cr (cookie_key c) (make_long_nonce ''COOKIE--'' cookie_nonce)
           (take (cookie_size - long_nonce_size) (drop (offset + long_nonce_size) initiate)) of
         None \<Rightarrow> (None, c)
       | Some held \<Rightarrow>
           if take key_size held \<noteq> peer_transient c \<or> take key_size (drop key_size held) \<noteq> transient_secret c then (None, c)
           else
             let offset = offset + cookie_size;
                 nonce = short_nonce_value initiate offset;
                 offset = offset + short_nonce_size
             in case derive cr (transient_secret c) (peer_transient c) of
                  None \<Rightarrow> (None, c)
                | Some session \<Rightarrow>
                    let c = c\<lparr>session_box := Some session\<rparr>; (accepted, c) = nonce_accept nonce c in
                    if \<not> accepted then (None, c)
                    else case open_box cr session (make_nonce ''CurveZMQINITIATE'' nonce) (drop offset initiate) of
                        None \<Rightarrow> (None, c)
                      | Some content \<Rightarrow>
                          if length content < key_size + cookie_size then (None, c)
                          else let c = c\<lparr>peer_public := take key_size content\<rparr> in
                            case derive cr (transient_secret c) (peer_public c) of
                              None \<Rightarrow> (None, c)
                            | Some vbox \<Rightarrow>
                                let c = c\<lparr>vouch_box := Some vbox\<rparr>;
                                    vouch_nonce = take long_nonce_size (drop key_size content)
                                in case open_box cr vbox (make_long_nonce ''VOUCH---'' vouch_nonce)
                                    (take (cookie_size - long_nonce_size) (drop (key_size + long_nonce_size) content)) of
                                  None \<Rightarrow> (None, c)
                                | Some keys \<Rightarrow>
                                    if take key_size keys \<noteq> peer_transient c \<or> take key_size (drop key_size keys) \<noteq> own_public c
                                    then (None, c)
                                    else
                                      let peer_metadata = drop (key_size + cookie_size) content;
                                          out = seal cr (name_bytes command_ready @ be_bytes64 (own_nonce c)) session
                                            (make_nonce ''CurveZMQREADY---'' (own_nonce c)) metadata
                                      in (Some (out, peer_metadata),
                                          c\<lparr>own_nonce := own_nonce c + 1, transient_secret := null_key, cookie_key := null_key,
                                            hello_box := None, vouch_box := None\<rparr>))"

definition cipher_complete :: "crypto \<Rightarrow> bytes \<Rightarrow> cipher \<Rightarrow> bytes option \<times> cipher" where
  "cipher_complete cr ready c =
    (case session_box c of
       None \<Rightarrow> (None, c)
     | Some session \<Rightarrow>
         if is_server c \<or> length ready < ready_minimum \<or> \<not> named ready command_ready then (None, c)
         else
           let offset = 6; nonce = short_nonce_value ready offset; (accepted, c) = nonce_accept nonce c in
           if \<not> accepted then (None, c)
           else case open_box cr session (make_nonce ''CurveZMQREADY---'' nonce) (drop (offset + short_nonce_size) ready) of
               None \<Rightarrow> (None, c)
             | Some peer_metadata \<Rightarrow>
                 (Some peer_metadata, c\<lparr>transient_secret := null_key, hello_box := None, vouch_box := None\<rparr>))"

section \<open>Messages\<close>

definition message_prefix :: "bool \<Rightarrow> string" where
  "message_prefix from_server = (if from_server then ''CurveZMQMESSAGES'' else ''CurveZMQMESSAGEC'')"

definition cipher_encode :: "crypto \<Rightarrow> byte \<Rightarrow> bytes \<Rightarrow> cipher \<Rightarrow> bytes option \<times> cipher" where
  "cipher_encode cr flags body c =
    (case session_box c of
       None \<Rightarrow> (None, c)
     | Some session \<Rightarrow>
         (Some (seal cr (name_bytes command_message @ be_bytes64 (own_nonce c)) session
            (make_nonce (message_prefix (is_server c)) (own_nonce c)) (flags # body)),
          c\<lparr>own_nonce := own_nonce c + 1\<rparr>))"

definition cipher_decode :: "crypto \<Rightarrow> bytes \<Rightarrow> cipher \<Rightarrow> (byte \<times> bytes) option \<times> cipher" where
  "cipher_decode cr message c =
    (case session_box c of
       None \<Rightarrow> (None, c)
     | Some session \<Rightarrow>
         if length message < message_minimum \<or> \<not> named message command_message then (None, c)
         else
           let offset = 8; nonce = short_nonce_value message offset; (accepted, c) = nonce_accept nonce c in
           if \<not> accepted then (None, c)
           else case open_box cr session (make_nonce (message_prefix (\<not> is_server c)) nonce)
               (drop (offset + short_nonce_size) message) of
               None \<Rightarrow> (None, c)
             | Some plain \<Rightarrow> (Some (hd plain, tl plain), c))"

section \<open>What is relied on of the primitives\<close>

text \<open>A box opens to what was sealed, the tag is the only expansion, and nothing else opens.\<close>

definition box_laws :: "crypto \<Rightarrow> bool" where
  "box_laws cr \<longleftrightarrow>
    (\<forall>k n p. box_decrypt cr k n (box_encrypt cr k n p) = Some p) \<and>
    (\<forall>k n p. length (box_encrypt cr k n p) = length p + tag_size) \<and>
    (\<forall>k n x p. box_decrypt cr k n x = Some p \<longrightarrow> x = box_encrypt cr k n p)"

definition key_pair :: "crypto \<Rightarrow> bytes \<Rightarrow> bytes \<Rightarrow> bool" where
  "key_pair cr secret public \<longleftrightarrow> length secret = key_size \<and> length public = key_size \<and> to_public cr secret = Some public"

text \<open>The key agreement: both owners of two key pairs derive the same key.\<close>

definition exchange_laws :: "crypto \<Rightarrow> bool" where
  "exchange_laws cr \<longleftrightarrow>
    (\<forall>a A b B. key_pair cr a A \<and> key_pair cr b B \<longrightarrow>
      (\<exists>k. point_multiply cr a B = Some k \<and> point_multiply cr b A = Some k))"

lemma box_lawsD:
  assumes "box_laws cr"
  shows "box_decrypt cr k n (box_encrypt cr k n p) = Some p" "length (box_encrypt cr k n p) = length p + tag_size"
    "box_decrypt cr k n x = Some p \<Longrightarrow> x = box_encrypt cr k n p"
  using assms by (auto simp: box_laws_def)

lemma open_box_encrypt: "box_laws cr \<Longrightarrow> open_box cr k n (box_encrypt cr k n p) = Some p"
  by (simp add: open_box_def box_lawsD)

lemma open_boxD:
  assumes "box_laws cr" "open_box cr k n x = Some p"
  shows "x = box_encrypt cr k n p" "length x = length p + tag_size"
proof -
  have "box_decrypt cr k n x = Some p" using assms(2) by (simp add: open_box_def split: if_splits)
  then show x: "x = box_encrypt cr k n p" by (rule box_lawsD(3) [OF assms(1)])
  show "length x = length p + tag_size" by (simp add: x box_lawsD(2) [OF assms(1)])
qed

lemma derive_agrees:
  assumes "exchange_laws cr" "key_pair cr a A" "key_pair cr b B"
  obtains k where "derive cr a B = Some k" "derive cr b A = Some k"
proof -
  obtain p where "point_multiply cr a B = Some p" "point_multiply cr b A = Some p"
    using assms unfolding exchange_laws_def by blast
  then show ?thesis using that by (simp add: derive_def)
qed

lemma key_pairD: "key_pair cr s p \<Longrightarrow> length s = 32 \<and> length p = 32"
  by (simp add: key_pair_def key_size_def)

lemma named_bytes:
  "length name < 256 \<Longrightarrow> content \<noteq> [] \<Longrightarrow> named (name_bytes name @ content) name"
  by (simp add: named_def name_bytes_def unat_of_nat_byte)

lemma named_command_name: "named body name \<Longrightarrow> \<exists>content. command_name body = Some (name, content)"
  by (cases body) (auto simp: named_def command_name_def)

lemma namedD:
  assumes "named body name"
  shows "body = name_bytes name @ drop (length name + 1) body"
proof (cases body)
  case (Cons b bs)
  have b: "b = of_nat (length name)" using assms by (metis Cons list.sel(1) named_def word_unat_eq_iff unat_of_nat word_of_nat_eq_iff of_nat_unat ucast_id)
  have "take (length name) bs = name" using assms by (simp add: Cons named_def)
  then have "bs = name @ drop (length name) bs" by (metis append_take_drop_id)
  then show ?thesis by (simp add: Cons b name_bytes_def)
qed (use assms in \<open>simp add: named_def\<close>)

lemma length_name_bytes [simp]: "length (name_bytes name) = length name + 1"
  by (simp add: name_bytes_def)

lemma short_nonce_at:
  "length xs = offset \<Longrightarrow> short_nonce_value (xs @ be_bytes64 n @ rest) offset = n"
  by (simp add: short_nonce_value_def short_nonce_size_def be_accumulate64)

lemma drop_at: "length xs = n \<Longrightarrow> drop n (xs @ ys) = ys"
  by simp

lemma take_at: "length xs = n \<Longrightarrow> take n (xs @ ys) = xs"
  by simp

section \<open>The handshake commands as their counterparts read them\<close>

definition hello_bytes :: "crypto \<Rightarrow> bytes \<Rightarrow> bytes \<Rightarrow> uint64 \<Rightarrow> bytes" where
  "hello_bytes cr shared public n =
    name_bytes command_hello @ [version_major, version_minor] @ replicate hello_padding 0 @ public @ be_bytes64 n @
    box_encrypt cr shared (make_nonce ''CurveZMQHELLO---'' n) (replicate hello_content 0)"

definition cookie_bytes :: "crypto \<Rightarrow> bytes \<Rightarrow> bytes \<Rightarrow> bytes \<Rightarrow> bytes \<Rightarrow> bytes" where
  "cookie_bytes cr key nonce public secret =
    nonce @ box_encrypt cr key (make_long_nonce ''COOKIE--'' nonce) (public @ secret)"

definition welcome_bytes :: "crypto \<Rightarrow> bytes \<Rightarrow> bytes \<Rightarrow> bytes \<Rightarrow> bytes \<Rightarrow> bytes" where
  "welcome_bytes cr shared nonce public cookie =
    name_bytes command_welcome @ nonce @ box_encrypt cr shared (make_long_nonce ''WELCOME-'' nonce) (public @ cookie)"

definition vouch_bytes :: "crypto \<Rightarrow> bytes \<Rightarrow> bytes \<Rightarrow> bytes \<Rightarrow> bytes \<Rightarrow> bytes" where
  "vouch_bytes cr key nonce transient server =
    nonce @ box_encrypt cr key (make_long_nonce ''VOUCH---'' nonce) (transient @ server)"

definition initiate_bytes :: "crypto \<Rightarrow> bytes \<Rightarrow> bytes \<Rightarrow> uint64 \<Rightarrow> bytes \<Rightarrow> bytes" where
  "initiate_bytes cr session cookie n content =
    name_bytes command_initiate @ cookie @ be_bytes64 n @
    box_encrypt cr session (make_nonce ''CurveZMQINITIATE'' n) content"

definition ready_bytes :: "crypto \<Rightarrow> bytes \<Rightarrow> uint64 \<Rightarrow> bytes \<Rightarrow> bytes" where
  "ready_bytes cr session n metadata =
    name_bytes command_ready @ be_bytes64 n @ box_encrypt cr session (make_nonce ''CurveZMQREADY---'' n) metadata"

definition message_bytes :: "crypto \<Rightarrow> bool \<Rightarrow> bytes \<Rightarrow> uint64 \<Rightarrow> bytes \<Rightarrow> bytes" where
  "message_bytes cr from_server session n payload =
    name_bytes command_message @ be_bytes64 n @ box_encrypt cr session (make_nonce (message_prefix from_server) n) payload"

lemma length_commands:
  assumes "box_laws cr"
  shows "length (hello_bytes cr k p n) = 168 + length p"
    "length (cookie_bytes cr k v p s) = length v + 16 + length p + length s"
    "length (welcome_bytes cr k v p x) = 24 + length v + length p + length x"
    "length (vouch_bytes cr k v p s) = length v + 16 + length p + length s"
    "length (initiate_bytes cr k x n t) = 33 + length x + length t"
    "length (ready_bytes cr k n t) = 30 + length t"
    "length (message_bytes cr b k n t) = 32 + length t"
  using assms
  by (simp_all add: hello_bytes_def cookie_bytes_def welcome_bytes_def vouch_bytes_def initiate_bytes_def ready_bytes_def
      message_bytes_def box_lawsD curve_sizes)

lemma hello_sent:
  assumes "box_laws cr" "\<not> is_server c" "derive cr secret (peer_public c) = Some shared" "length public = 32"
  shows "cipher_hello cr (secret, public) c =
    (Some (hello_bytes cr shared public (own_nonce c)),
     c\<lparr>transient_secret := secret, transient_public := public, hello_box := Some shared, own_nonce := own_nonce c + 1\<rparr>)"
  using assms length_commands(1) [OF assms(1), of shared public "own_nonce c"]
  by (simp add: cipher_hello_def hello_bytes_def seal_def hello_size_def Let_def)

lemma hello_fields:
  assumes "length public = 32"
  shows "named (hello_bytes cr k public n) command_hello"
    "hello_bytes cr k public n ! 6 = version_major" "hello_bytes cr k public n ! 7 = version_minor"
    "take key_size (drop (8 + hello_padding) (hello_bytes cr k public n)) = public"
    "short_nonce_value (hello_bytes cr k public n) (8 + hello_padding + key_size) = n"
    "drop (8 + hello_padding + key_size + short_nonce_size) (hello_bytes cr k public n) =
      box_encrypt cr k (make_nonce ''CurveZMQHELLO---'' n) (replicate hello_content 0)"
proof -
  let ?box = "box_encrypt cr k (make_nonce ''CurveZMQHELLO---'' n) (replicate hello_content 0)"
  let ?head = "name_bytes command_hello @ [version_major, version_minor] @ replicate hello_padding 0"
  have head: "length ?head = 8 + hello_padding" by simp
  have h: "hello_bytes cr k public n = ?head @ public @ be_bytes64 n @ ?box" by (simp add: hello_bytes_def)
  have h': "hello_bytes cr k public n = (?head @ public) @ be_bytes64 n @ ?box" by (simp add: h)
  have h'': "hello_bytes cr k public n = ((?head @ public) @ be_bytes64 n) @ ?box" by (simp add: h)
  show "named (hello_bytes cr k public n) command_hello"
    unfolding hello_bytes_def by (rule named_bytes) simp_all
  show "hello_bytes cr k public n ! 6 = version_major" "hello_bytes cr k public n ! 7 = version_minor"
    by (simp_all add: hello_bytes_def nth_append)
  show "take key_size (drop (8 + hello_padding) (hello_bytes cr k public n)) = public"
    unfolding h by (simp only: drop_at [OF head]) (simp add: assms key_size_def)
  show "short_nonce_value (hello_bytes cr k public n) (8 + hello_padding + key_size) = n"
    unfolding h' by (rule short_nonce_at) (simp add: assms key_size_def)
  show "drop (8 + hello_padding + key_size + short_nonce_size) (hello_bytes cr k public n) = ?box"
    unfolding h'' by (rule drop_at) (simp add: assms key_size_def short_nonce_size_def)
qed

definition welcomed :: "welcome_random \<Rightarrow> bytes \<Rightarrow> bytes \<Rightarrow> uint64 \<Rightarrow> cipher \<Rightarrow> cipher" where
  "welcomed rnd shared public n c =
    c\<lparr>peer_transient := public, hello_box := Some shared, peer_nonce := n, transient_secret := fst (wr_generated rnd),
      transient_public := snd (wr_generated rnd), cookie_key := wr_cookie_key rnd\<rparr>"

definition random_ok :: "crypto \<Rightarrow> welcome_random \<Rightarrow> bool" where
  "random_ok cr rnd \<longleftrightarrow> key_pair cr (fst (wr_generated rnd)) (snd (wr_generated rnd)) \<and>
    length (wr_cookie_nonce rnd) = long_nonce_size \<and> length (wr_welcome_nonce rnd) = long_nonce_size"

lemma welcome_sent:
  assumes "box_laws cr" "is_server c" "derive cr (own_secret c) public = Some shared" "length public = 32"
    and "peer_nonce c < n" "random_ok cr rnd"
  shows "cipher_welcome cr rnd (hello_bytes cr shared public n) c =
    (Some (welcome_bytes cr shared (wr_welcome_nonce rnd) (snd (wr_generated rnd))
       (cookie_bytes cr (wr_cookie_key rnd) (wr_cookie_nonce rnd) public (fst (wr_generated rnd)))),
     welcomed rnd shared public n c)"
proof -
  have rnd: "length (fst (wr_generated rnd)) = 32" "length (snd (wr_generated rnd)) = 32"
    "length (wr_cookie_nonce rnd) = 16" "length (wr_welcome_nonce rnd) = 16"
    using assms(6) key_pairD by (auto simp: random_ok_def long_nonce_size_def)
  have out: "seal cr (name_bytes command_welcome @ wn) shared (make_long_nonce ''WELCOME-'' wn)
      (tp @ seal cr cn ck (make_long_nonce ''COOKIE--'' cn) st) =
    name_bytes command_welcome @ wn @ box_encrypt cr shared (make_long_nonce ''WELCOME-'' wn)
      (tp @ cn @ box_encrypt cr ck (make_long_nonce ''COOKIE--'' cn) st)" for wn tp cn ck st
    by (simp add: seal_def)
  show ?thesis
    using assms hello_fields [OF assms(4), of cr shared n] length_commands [OF assms(1)] rnd
    by (simp add: cipher_welcome_def hello_size_def Let_def nonce_accept_def open_box_encrypt out welcome_bytes_def
        cookie_bytes_def welcomed_def welcome_size_def box_lawsD(2) [OF assms(1)] tag_size_def)
qed

lemma welcome_fields:
  assumes "length v = 16"
  shows "named (welcome_bytes cr k v p x) command_welcome"
    "take long_nonce_size (drop 8 (welcome_bytes cr k v p x)) = v"
    "drop (8 + long_nonce_size) (welcome_bytes cr k v p x) = box_encrypt cr k (make_long_nonce ''WELCOME-'' v) (p @ x)"
  using assms
  by (simp_all add: welcome_bytes_def named_bytes name_bytes_def long_nonce_size_def named_def unat_of_nat_byte)

definition initiated :: "bytes \<Rightarrow> bytes \<Rightarrow> bytes \<Rightarrow> cipher \<Rightarrow> cipher" where
  "initiated session vouch_key public c =
    c\<lparr>peer_transient := public, session_box := Some session, vouch_box := Some vouch_key, own_nonce := own_nonce c + 1\<rparr>"

lemma initiate_sent:
  assumes "box_laws cr" "\<not> is_server c" "hello_box c = Some shared"
    and "derive cr (transient_secret c) public = Some session" "derive cr (own_secret c) public = Some vouch_key"
    and "length public = 32" "length welcome_nonce = 16" "length cookie = cookie_size"
  shows "cipher_initiate cr vouch_nonce (welcome_bytes cr shared welcome_nonce public cookie) metadata c =
    (Some (initiate_bytes cr session cookie (own_nonce c)
       (own_public c @ vouch_bytes cr vouch_key vouch_nonce (transient_public c) (peer_public c) @ metadata)),
     initiated session vouch_key public c)"
proof -
  have cookie: "take cookie_size cookie = cookie" using assms(8) by simp
  have fits: "take key_size (public @ cookie) = public" "take cookie_size (drop key_size (public @ cookie)) = cookie"
    using assms(6) cookie by (simp_all add: key_size_def)
  have "length (welcome_bytes cr shared welcome_nonce public cookie) = welcome_size"
    using assms by (simp add: length_commands curve_sizes)
  then show ?thesis
    using assms welcome_fields [OF assms(7), of cr shared public cookie] fits
    by (simp add: cipher_initiate_def open_box_encrypt Let_def seal_def initiate_bytes_def vouch_bytes_def initiated_def)
qed

lemma named_initiate: "named (initiate_bytes cr k x n t) command_initiate"
  unfolding initiate_bytes_def by (rule named_bytes) (simp_all add: be_bytes64_def)

lemma initiate_fields:
  assumes "length v = 16" "length p = 32" "length s = 32" "box_laws cr"
  shows "take long_nonce_size (drop 9 (initiate_bytes cr k (cookie_bytes cr ck v p s) n t)) = v"
    "take (cookie_size - long_nonce_size) (drop (9 + long_nonce_size) (initiate_bytes cr k (cookie_bytes cr ck v p s) n t)) =
      box_encrypt cr ck (make_long_nonce ''COOKIE--'' v) (p @ s)"
    "short_nonce_value (initiate_bytes cr k (cookie_bytes cr ck v p s) n t) (9 + cookie_size) = n"
    "drop (9 + cookie_size + short_nonce_size) (initiate_bytes cr k (cookie_bytes cr ck v p s) n t) =
      box_encrypt cr k (make_nonce ''CurveZMQINITIATE'' n) t"
proof -
  let ?name = "name_bytes command_initiate" and ?cookie = "cookie_bytes cr ck v p s"
  let ?held = "box_encrypt cr ck (make_long_nonce ''COOKIE--'' v) (p @ s)"
  let ?box = "box_encrypt cr k (make_nonce ''CurveZMQINITIATE'' n) t"
  let ?m = "initiate_bytes cr k ?cookie n t"
  have name: "length ?name = 9" by simp
  have cookie: "length (?name @ ?cookie) = 9 + cookie_size"
    using assms by (simp add: length_commands curve_sizes)
  have held: "length ?held = cookie_size - long_nonce_size"
    using assms by (simp add: box_lawsD(2) curve_sizes)
  have m1: "?m = ?name @ v @ ?held @ be_bytes64 n @ ?box" by (simp add: initiate_bytes_def cookie_bytes_def)
  have m2: "?m = (?name @ v) @ ?held @ be_bytes64 n @ ?box" by (simp add: m1)
  have m3: "?m = (?name @ ?cookie) @ be_bytes64 n @ ?box" by (simp add: initiate_bytes_def)
  have m4: "?m = ((?name @ ?cookie) @ be_bytes64 n) @ ?box" by (simp add: m3)
  show "take long_nonce_size (drop 9 ?m) = v"
    unfolding m1 by (simp only: drop_at [OF name]) (simp add: assms long_nonce_size_def)
  have "drop (9 + long_nonce_size) ?m = ?held @ be_bytes64 n @ ?box"
    unfolding m2 by (rule drop_at) (simp add: assms long_nonce_size_def)
  then show "take (cookie_size - long_nonce_size) (drop (9 + long_nonce_size) ?m) = ?held"
    by (simp only: take_at [OF held])
  show "short_nonce_value ?m (9 + cookie_size) = n"
    unfolding m3 by (rule short_nonce_at) (fact cookie)
  show "drop (9 + cookie_size + short_nonce_size) ?m = ?box"
    unfolding m4 by (rule drop_at) (use cookie in \<open>simp add: short_nonce_size_def\<close>)
qed

lemma content_fields:
  assumes "length p = 32" "length v = 16" "length t = 32" "length s = 32" "box_laws cr"
  shows "take key_size (p @ vouch_bytes cr k v t s @ rest) = p"
    "take long_nonce_size (drop key_size (p @ vouch_bytes cr k v t s @ rest)) = v"
    "take (cookie_size - long_nonce_size) (drop (key_size + long_nonce_size) (p @ vouch_bytes cr k v t s @ rest)) =
      box_encrypt cr k (make_long_nonce ''VOUCH---'' v) (t @ s)"
    "drop (key_size + cookie_size) (p @ vouch_bytes cr k v t s @ rest) = rest"
    "key_size + cookie_size \<le> length (p @ vouch_bytes cr k v t s @ rest)"
proof -
  let ?box = "box_encrypt cr k (make_long_nonce ''VOUCH---'' v) (t @ s)"
  let ?c = "p @ vouch_bytes cr k v t s @ rest"
  have box: "length ?box = cookie_size - long_nonce_size" using assms by (simp add: box_lawsD(2) curve_sizes)
  have c: "?c = (p @ v) @ ?box @ rest" by (simp add: vouch_bytes_def)
  have vouch: "length (p @ vouch_bytes cr k v t s) = key_size + cookie_size"
    using assms by (simp add: length_commands curve_sizes)
  show "take key_size ?c = p" by (rule take_at) (simp add: assms key_size_def)
  have "drop key_size ?c = v @ ?box @ rest"
    by (subst drop_at) (simp_all add: assms key_size_def vouch_bytes_def)
  then show "take long_nonce_size (drop key_size ?c) = v"
    by (simp add: assms long_nonce_size_def)
  have "drop (key_size + long_nonce_size) ?c = ?box @ rest"
    unfolding c by (rule drop_at) (simp add: assms key_size_def long_nonce_size_def)
  then show "take (cookie_size - long_nonce_size) (drop (key_size + long_nonce_size) ?c) = ?box"
    by (simp only: take_at [OF box])
  show "drop (key_size + cookie_size) ?c = rest"
    using drop_at [OF vouch, of rest] by simp
  show "key_size + cookie_size \<le> length ?c" using vouch by simp
qed

definition readied :: "bytes \<Rightarrow> bytes \<Rightarrow> uint64 \<Rightarrow> cipher \<Rightarrow> cipher" where
  "readied session client n c =
    c\<lparr>session_box := Some session, peer_nonce := n, peer_public := client, own_nonce := own_nonce c + 1,
      transient_secret := null_key, cookie_key := null_key, hello_box := None, vouch_box := None\<rparr>"

lemma ready_sent:
  assumes "box_laws cr" "is_server c"
    and "derive cr (transient_secret c) (peer_transient c) = Some session"
    and "derive cr (transient_secret c) client = Some vouch_key"
    and "length (transient_secret c) = 32" "length (peer_transient c) = 32" "length (own_public c) = 32"
    and "length cookie_nonce = 16" "length vouch_nonce = 16" "length client = 32" "peer_nonce c < n"
  shows "cipher_ready cr
      (initiate_bytes cr session (cookie_bytes cr (cookie_key c) cookie_nonce (peer_transient c) (transient_secret c)) n
        (client @ vouch_bytes cr vouch_key vouch_nonce (peer_transient c) (own_public c) @ metadata)) own_metadata c =
    (Some (ready_bytes cr session (own_nonce c) own_metadata, metadata), readied session client n c)"
proof -
  let ?cookie = "cookie_bytes cr (cookie_key c) cookie_nonce (peer_transient c) (transient_secret c)"
  let ?content = "client @ vouch_bytes cr vouch_key vouch_nonce (peer_transient c) (own_public c) @ metadata"
  let ?m = "initiate_bytes cr session ?cookie n ?content"
  have "length ?m \<ge> initiate_minimum"
    using assms by (simp add: length_commands initiate_minimum_def)
  then show ?thesis
    using assms content_fields [OF assms(10,9,6,7,1), of vouch_key metadata] named_initiate [of cr session ?cookie n ?content]
      initiate_fields [OF assms(8,6,5,1), of session "cookie_key c" n ?content]
    by (simp add: cipher_ready_def open_box_encrypt Let_def nonce_accept_def readied_def ready_bytes_def seal_def
        key_size_def linorder_not_less)
qed

lemma ready_fields:
  shows "named (ready_bytes cr k n t) command_ready"
    "short_nonce_value (ready_bytes cr k n t) 6 = n"
    "drop (6 + short_nonce_size) (ready_bytes cr k n t) = box_encrypt cr k (make_nonce ''CurveZMQREADY---'' n) t"
  unfolding ready_bytes_def
  by (rule named_bytes, simp, simp add: be_bytes64_def, rule short_nonce_at, simp, simp add: short_nonce_size_def)

lemma completed:
  assumes "box_laws cr" "\<not> is_server c" "session_box c = Some session" "peer_nonce c < n"
  shows "cipher_complete cr (ready_bytes cr session n metadata) c =
    (Some metadata, c\<lparr>peer_nonce := n, transient_secret := null_key, hello_box := None, vouch_box := None\<rparr>)"
  using assms ready_fields [of cr session n metadata] length_commands(6) [OF assms(1), of session n metadata]
  by (simp add: cipher_complete_def ready_minimum_def Let_def nonce_accept_def open_box_encrypt)

section \<open>The complete handshake\<close>

text \<open>A client and a server connected to each other; None as soon as one side refuses.\<close>

definition curve_exchange ::
  "crypto \<Rightarrow> bytes \<times> bytes \<Rightarrow> welcome_random \<Rightarrow> bytes \<Rightarrow> bytes \<Rightarrow> bytes \<Rightarrow> cipher \<Rightarrow> cipher \<Rightarrow>
    (bytes \<times> bytes \<times> cipher \<times> cipher) option" where
  "curve_exchange cr generated rnd vouch_nonce client_metadata server_metadata client server =
    (case cipher_hello cr generated client of (None, _) \<Rightarrow> None | (Some hello, client) \<Rightarrow>
     case cipher_welcome cr rnd hello server of (None, _) \<Rightarrow> None | (Some welcome, server) \<Rightarrow>
     case cipher_initiate cr vouch_nonce welcome client_metadata client of (None, _) \<Rightarrow> None | (Some initiate, client) \<Rightarrow>
     case cipher_ready cr initiate server_metadata server of (None, _) \<Rightarrow> None | (Some (ready, at_server), server) \<Rightarrow>
     case cipher_complete cr ready client of (None, _) \<Rightarrow> None | (Some at_client, client) \<Rightarrow>
       Some (at_server, at_client, client, server))"

text \<open>Two ciphers of one session: each accepts the next message of the other.\<close>

definition paired :: "cipher \<Rightarrow> cipher \<Rightarrow> bool" where
  "paired a b \<longleftrightarrow> session_box a \<noteq> None \<and> session_box a = session_box b \<and> is_server a \<noteq> is_server b \<and>
    peer_nonce b < own_nonce a \<and> peer_nonce a < own_nonce b"

lemma paired_sym: "paired a b \<Longrightarrow> paired b a"
  by (auto simp: paired_def)

lemma curve_exchange_agrees:
  assumes "box_laws cr" "exchange_laws cr"
    and "key_pair cr client_secret client_public" "key_pair cr server_secret server_public"
    and "key_pair cr (fst generated) (snd generated)" "random_ok cr rnd" "length vouch_nonce = long_nonce_size"
  shows "\<exists>client server.
    curve_exchange cr generated rnd vouch_nonce client_metadata server_metadata
      (client_cipher client_secret client_public server_public) (server_cipher server_secret server_public) =
      Some (client_metadata, server_metadata, client, server) \<and>
    peer_public server = client_public \<and> peer_public client = server_public \<and> paired client server \<and>
    transient_secret client = null_key \<and> transient_secret server = null_key \<and> cookie_key server = null_key"
proof -
  obtain ts tp where gen: "generated = (ts, tp)" by (cases generated)
  have server_pair: "key_pair cr (fst (wr_generated rnd)) (snd (wr_generated rnd))" using assms(6) by (simp add: random_ok_def)
  have client_pair: "key_pair cr ts tp" using assms(5) by (simp add: gen)
  obtain shared where shared: "derive cr ts server_public = Some shared" "derive cr server_secret tp = Some shared"
    using derive_agrees [OF assms(2) client_pair assms(4)] by blast
  obtain session where session: "derive cr ts (snd (wr_generated rnd)) = Some session"
    "derive cr (fst (wr_generated rnd)) tp = Some session"
    using derive_agrees [OF assms(2) client_pair server_pair] by blast
  obtain vk where vk: "derive cr client_secret (snd (wr_generated rnd)) = Some vk"
    "derive cr (fst (wr_generated rnd)) client_public = Some vk"
    using derive_agrees [OF assms(2) assms(3) server_pair] by blast
  have len: "length tp = 32" "length (fst (wr_generated rnd)) = 32" "length (snd (wr_generated rnd)) = 32"
    "length client_public = 32" "length server_public = 32" "length (wr_welcome_nonce rnd) = 16"
    "length (wr_cookie_nonce rnd) = 16" "length vouch_nonce = 16"
    using key_pairD client_pair server_pair assms by (auto simp: random_ok_def long_nonce_size_def)
  let ?c0 = "client_cipher client_secret client_public server_public" and ?s0 = "server_cipher server_secret server_public"
  let ?c1 = "?c0\<lparr>transient_secret := ts, transient_public := tp, hello_box := Some shared, own_nonce := own_nonce ?c0 + 1\<rparr>"
  let ?s1 = "welcomed rnd shared tp 1 ?s0"
  let ?cookie = "cookie_bytes cr (wr_cookie_key rnd) (wr_cookie_nonce rnd) tp (fst (wr_generated rnd))"
  let ?content = "client_public @ vouch_bytes cr vk vouch_nonce tp server_public @ client_metadata"
  let ?c2 = "initiated session vk (snd (wr_generated rnd)) ?c1"
  let ?s2 = "readied session client_public 2 ?s1"
  let ?c3 = "?c2\<lparr>peer_nonce := 1, transient_secret := null_key, hello_box := None, vouch_box := None\<rparr>"
  have hello: "cipher_hello cr generated ?c0 = (Some (hello_bytes cr shared tp 1), ?c1)"
    using hello_sent [of cr ?c0 ts shared tp] assms(1) shared len by (simp add: gen client_cipher_def)
  have welcomes: "cipher_welcome cr rnd (hello_bytes cr shared tp 1) ?s0 =
      (Some (welcome_bytes cr shared (wr_welcome_nonce rnd) (snd (wr_generated rnd)) ?cookie), ?s1)"
    using welcome_sent [of cr ?s0 tp shared 1 rnd] assms shared len by (simp add: server_cipher_def)
  have cookie: "length ?cookie = cookie_size"
    using len assms(1) by (simp add: length_commands curve_sizes)
  have initiate: "cipher_initiate cr vouch_nonce
      (welcome_bytes cr shared (wr_welcome_nonce rnd) (snd (wr_generated rnd)) ?cookie) client_metadata ?c1 =
      (Some (initiate_bytes cr session ?cookie 2 ?content), ?c2)"
    using initiate_sent [of cr ?c1 shared "snd (wr_generated rnd)" session vk "wr_welcome_nonce rnd" ?cookie vouch_nonce client_metadata]
      assms(1) session vk len cookie by (simp add: client_cipher_def)
  have ready: "cipher_ready cr (initiate_bytes cr session ?cookie 2 ?content) server_metadata ?s1 =
      (Some (ready_bytes cr session 1 server_metadata, client_metadata), ?s2)"
    using ready_sent [of cr ?s1 session client_public vk "wr_cookie_nonce rnd" vouch_nonce 2 client_metadata server_metadata]
      assms(1) session vk len by (simp add: server_cipher_def welcomed_def)
  have completes: "cipher_complete cr (ready_bytes cr session 1 server_metadata) ?c2 = (Some server_metadata, ?c3)"
    using completed [of cr ?c2 session 1 server_metadata] assms(1) by (simp add: client_cipher_def initiated_def)
  have "curve_exchange cr generated rnd vouch_nonce client_metadata server_metadata ?c0 ?s0 =
      Some (client_metadata, server_metadata, ?c3, ?s2)"
    by (simp only: curve_exchange_def hello welcomes initiate ready completes prod.case option.case)
  then show ?thesis
    by (intro exI conjI, assumption)
      (simp_all add: client_cipher_def server_cipher_def initiated_def readied_def welcomed_def paired_def)
qed

section \<open>What an accepted INITIATE proves\<close>

lemma append_fields:
  "length xs = n + m \<Longrightarrow> take n xs = a \<Longrightarrow> take m (drop n xs) = b \<Longrightarrow> xs = a @ b"
  by (metis append_take_drop_id length_drop add_diff_cancel_left' order_refl take_all)

lemma be_bytes64_at: "n + 8 \<le> length xs \<Longrightarrow> drop n xs = be_bytes64 (short_nonce_value xs n) @ drop (n + short_nonce_size) xs"
  by (metis append_take_drop_id be_bytes64_accumulate drop_drop length_drop length_take min.absorb2 add.commute
      le_diff_conv2 add_leD1 short_nonce_size_def short_nonce_value_def add_le_imp_le_diff)

lemma cipher_ready_inversion:
  assumes "cipher_ready cr initiate metadata c = (Some (out, peer_metadata), c')"
  obtains held session content vouch_key keys where
    "is_server c" "initiate_minimum \<le> length initiate" "named initiate command_initiate"
    "open_box cr (cookie_key c) (make_long_nonce ''COOKIE--'' (take long_nonce_size (drop 9 initiate)))
       (take (cookie_size - long_nonce_size) (drop (9 + long_nonce_size) initiate)) = Some held"
    "take key_size held = peer_transient c" "take key_size (drop key_size held) = transient_secret c"
    "derive cr (transient_secret c) (peer_transient c) = Some session"
    "peer_nonce c < short_nonce_value initiate (9 + cookie_size)"
    "open_box cr session (make_nonce ''CurveZMQINITIATE'' (short_nonce_value initiate (9 + cookie_size)))
       (drop (9 + cookie_size + short_nonce_size) initiate) = Some content"
    "key_size + cookie_size \<le> length content" "peer_public c' = take key_size content"
    "derive cr (transient_secret c) (take key_size content) = Some vouch_key"
    "open_box cr vouch_key (make_long_nonce ''VOUCH---'' (take long_nonce_size (drop key_size content)))
       (take (cookie_size - long_nonce_size) (drop (key_size + long_nonce_size) content)) = Some keys"
    "take key_size keys = peer_transient c" "take key_size (drop key_size keys) = own_public c"
    "peer_metadata = drop (key_size + cookie_size) content" "out = ready_bytes cr session (own_nonce c) metadata"
    "c' = readied session (take key_size content) (short_nonce_value initiate (9 + cookie_size)) c"
  using assms
  unfolding cipher_ready_def Let_def nonce_accept_def
  by (simp add: seal_def ready_bytes_def readied_def not_le not_less split: if_splits option.splits)

lemma cookie_split:
  "take long_nonce_size xs @ take (cookie_size - long_nonce_size) (drop long_nonce_size xs) = take cookie_size xs"
proof -
  have "long_nonce_size + (cookie_size - long_nonce_size) = cookie_size" by (simp add: curve_sizes)
  then show ?thesis by (metis take_add)
qed

lemma curve_ready_accepted:
  assumes laws: "box_laws cr"
    and lengths: "length (peer_transient c) = 32" "length (transient_secret c) = 32" "length (own_public c) = 32"
    and ready: "cipher_ready cr initiate metadata c = (Some (out, peer_metadata), c')"
  shows "\<exists>session vouch_key cookie_nonce vouch_nonce n.
    is_server c \<and> derive cr (transient_secret c) (peer_transient c) = Some session \<and>
    derive cr (transient_secret c) (peer_public c') = Some vouch_key \<and> peer_nonce c < n \<and>
    initiate = initiate_bytes cr session (cookie_bytes cr (cookie_key c) cookie_nonce (peer_transient c) (transient_secret c)) n
      (peer_public c' @ vouch_bytes cr vouch_key vouch_nonce (peer_transient c) (own_public c) @ peer_metadata) \<and>
    out = ready_bytes cr session (own_nonce c) metadata \<and> c' = readied session (peer_public c') n c"
proof -
  obtain held session content vouch_key keys where r:
    "is_server c" "initiate_minimum \<le> length initiate" "named initiate command_initiate"
    "open_box cr (cookie_key c) (make_long_nonce ''COOKIE--'' (take long_nonce_size (drop 9 initiate)))
       (take (cookie_size - long_nonce_size) (drop (9 + long_nonce_size) initiate)) = Some held"
    "take key_size held = peer_transient c" "take key_size (drop key_size held) = transient_secret c"
    "derive cr (transient_secret c) (peer_transient c) = Some session"
    "peer_nonce c < short_nonce_value initiate (9 + cookie_size)"
    "open_box cr session (make_nonce ''CurveZMQINITIATE'' (short_nonce_value initiate (9 + cookie_size)))
       (drop (9 + cookie_size + short_nonce_size) initiate) = Some content"
    "key_size + cookie_size \<le> length content" "peer_public c' = take key_size content"
    "derive cr (transient_secret c) (take key_size content) = Some vouch_key"
    "open_box cr vouch_key (make_long_nonce ''VOUCH---'' (take long_nonce_size (drop key_size content)))
       (take (cookie_size - long_nonce_size) (drop (key_size + long_nonce_size) content)) = Some keys"
    "take key_size keys = peer_transient c" "take key_size (drop key_size keys) = own_public c"
    "peer_metadata = drop (key_size + cookie_size) content" "out = ready_bytes cr session (own_nonce c) metadata"
    "c' = readied session (take key_size content) (short_nonce_value initiate (9 + cookie_size)) c"
    using cipher_ready_inversion [OF ready] by blast
  let ?n = "short_nonce_value initiate (9 + cookie_size)"
  let ?v = "take long_nonce_size (drop 9 initiate)" and ?w = "take long_nonce_size (drop key_size content)"
  note held = open_boxD [OF laws r(4)] and keys = open_boxD [OF laws r(13)] and box = open_boxD [OF laws r(9)]
  have "length held = key_size + key_size"
    using held(2) r(2) by (simp add: curve_sizes)
  then have held': "held = peer_transient c @ transient_secret c" using r(5,6) by (rule append_fields)
  have "length keys = key_size + key_size"
    using keys(2) r(10) by (simp add: curve_sizes)
  then have keys': "keys = peer_transient c @ own_public c" using r(14,15) by (rule append_fields)
  have "take cookie_size (drop 9 initiate) =
      cookie_bytes cr (cookie_key c) ?v (peer_transient c) (transient_secret c)"
    using held(1) by (simp add: cookie_bytes_def add.commute flip: held' cookie_split)
  moreover have "drop (9 + cookie_size) initiate = be_bytes64 ?n @ drop (9 + cookie_size + short_nonce_size) initiate"
    by (rule be_bytes64_at) (use r(2) in \<open>simp add: curve_sizes\<close>)
  moreover have "initiate = name_bytes command_initiate @ drop 9 initiate"
    using namedD [OF r(3)] by simp
  moreover have "drop 9 initiate = take cookie_size (drop 9 initiate) @ drop (9 + cookie_size) initiate"
    using append_take_drop_id [of cookie_size "drop 9 initiate"] by (simp only: drop_drop add.commute)
  ultimately have initiate: "initiate = initiate_bytes cr session
      (cookie_bytes cr (cookie_key c) ?v (peer_transient c) (transient_secret c)) ?n content"
    unfolding initiate_bytes_def using box(1) by metis
  have "take cookie_size (drop key_size content) = vouch_bytes cr vouch_key ?w (peer_transient c) (own_public c)"
    using keys(1) by (simp add: vouch_bytes_def add.commute flip: keys' cookie_split)
  then have "content = peer_public c' @ vouch_bytes cr vouch_key ?w (peer_transient c) (own_public c) @ peer_metadata"
    unfolding r(11,16) by (metis append_take_drop_id drop_drop add.commute)
  with initiate r show ?thesis by metis
qed

section \<open>The message phase\<close>

lemma encode_message:
  "session_box c = Some k \<Longrightarrow> cipher_encode cr flags body c =
    (Some (message_bytes cr (is_server c) k (own_nonce c) (flags # body)), c\<lparr>own_nonce := own_nonce c + 1\<rparr>)"
  by (simp add: cipher_encode_def message_bytes_def seal_def)

lemma message_fields:
  shows "named (message_bytes cr b k n t) command_message" "short_nonce_value (message_bytes cr b k n t) 8 = n"
    "drop (8 + short_nonce_size) (message_bytes cr b k n t) = box_encrypt cr k (make_nonce (message_prefix b) n) t"
  unfolding message_bytes_def
  by (rule named_bytes, simp, simp add: be_bytes64_def, rule short_nonce_at, simp, simp add: short_nonce_size_def)

lemma message_nonce_unique:
  "message_bytes cr b k n t = message_bytes cr b k n' t' \<Longrightarrow> n = n'"
  using message_fields(2) by metis

lemma decode_message:
  assumes "box_laws cr" "session_box c = Some k" "peer_nonce c < n"
  shows "cipher_decode cr (message_bytes cr (\<not> is_server c) k n (flags # body)) c =
    (Some (flags, body), c\<lparr>peer_nonce := n\<rparr>)"
  using assms message_fields [of cr "\<not> is_server c" k n "flags # body"]
    length_commands(7) [OF assms(1), of "\<not> is_server c" k n "flags # body"]
  by (simp add: cipher_decode_def message_minimum_def Let_def nonce_accept_def open_box_encrypt)

lemma decode_accepted:
  assumes laws: "box_laws cr" and key: "session_box c = Some k"
    and decode: "cipher_decode cr m c = (Some (flags, body), c')"
  shows "\<exists>n. m = message_bytes cr (\<not> is_server c) k n (flags # body) \<and> peer_nonce c < n \<and> c' = c\<lparr>peer_nonce := n\<rparr>"
proof -
  let ?n = "short_nonce_value m 8"
  obtain plain where d: "message_minimum \<le> length m" "named m command_message" "peer_nonce c < ?n"
    "open_box cr k (make_nonce (message_prefix (\<not> is_server c)) ?n) (drop (8 + short_nonce_size) m) = Some plain"
    "flags = hd plain" "body = tl plain" "c' = c\<lparr>peer_nonce := ?n\<rparr>"
    using decode key
    by (auto simp: cipher_decode_def Let_def nonce_accept_def not_le not_less split: if_splits option.splits)
  note box = open_boxD [OF laws d(4)]
  have "length plain \<ge> 1" using box(2) d(1) by (simp add: curve_sizes)
  then have "plain = flags # body" using d(5,6) by (cases plain) auto
  moreover have "m = name_bytes command_message @ drop 8 m"
    using namedD [OF d(2)] by simp
  moreover have "drop 8 m = be_bytes64 ?n @ drop (8 + short_nonce_size) m"
    by (rule be_bytes64_at) (use d(1) in \<open>simp add: curve_sizes\<close>)
  ultimately have "m = message_bytes cr (\<not> is_server c) k ?n (flags # body)"
    unfolding message_bytes_def using box(1) by metis
  with d show ?thesis by blast
qed

lemma decode_refused:
  assumes "cipher_decode cr m c = (None, c')"
  shows "c' = c\<lparr>peer_nonce := peer_nonce c'\<rparr>" "peer_nonce c \<le> peer_nonce c'"
  using assms
  by (auto simp: cipher_decode_def Let_def nonce_accept_def not_le split: if_splits option.splits)

text \<open>Frames boxed one after the other, and messages decoded one after the other (those accepted).\<close>

fun encode_all :: "crypto \<Rightarrow> (byte \<times> bytes) list \<Rightarrow> cipher \<Rightarrow> bytes list option \<times> cipher" where
  "encode_all cr [] c = (Some [], c)"
| "encode_all cr ((flags, body) # fs) c =
    (case cipher_encode cr flags body c of
       (None, c') \<Rightarrow> (None, c')
     | (Some m, c') \<Rightarrow> (case encode_all cr fs c' of (ms, c'') \<Rightarrow> (map_option ((#) m) ms, c'')))"

fun decode_all :: "crypto \<Rightarrow> bytes list \<Rightarrow> cipher \<Rightarrow> (bytes \<times> byte \<times> bytes) list \<times> cipher" where
  "decode_all cr [] c = ([], c)"
| "decode_all cr (m # ms) c =
    (case cipher_decode cr m c of
       (None, c') \<Rightarrow> decode_all cr ms c'
     | (Some f, c') \<Rightarrow> (case decode_all cr ms c' of (fs, c'') \<Rightarrow> ((m, f) # fs, c'')))"

lemma nonce_increment:
  fixes n :: uint64
  assumes "unat n + 1 < 2 ^ 64"
  shows "unat (n + 1) = unat n + 1"
  using word_add_nat [of n 1] assms by simp

lemma messages_delivered:
  assumes "box_laws cr"
  shows "paired a b \<Longrightarrow> unat (own_nonce a) + length fs < 2 ^ 64 \<Longrightarrow>
    \<exists>ms a' b'. encode_all cr fs a = (Some ms, a') \<and> decode_all cr ms b = (zip ms fs, b') \<and>
      length ms = length fs \<and> paired a' b'"
proof (induction fs arbitrary: a b)
  case Nil
  then show ?case by simp
next
  case (Cons f fs)
  obtain flags body where f: "f = (flags, body)" by (cases f)
  obtain k where k: "session_box a = Some k" "session_box b = Some k" using Cons.prems(1) by (auto simp: paired_def)
  let ?m = "message_bytes cr (is_server a) k (own_nonce a) (flags # body)"
  let ?a = "a\<lparr>own_nonce := own_nonce a + 1\<rparr>" and ?b = "b\<lparr>peer_nonce := own_nonce a\<rparr>"
  have side: "is_server a = (\<not> is_server b)" and fresh: "peer_nonce b < own_nonce a"
    using Cons.prems(1) by (auto simp: paired_def)
  have inc: "unat (own_nonce a + 1) = unat (own_nonce a) + 1"
    using Cons.prems(2) by (intro nonce_increment) simp
  have "paired ?a ?b"
    using Cons.prems(1) inc by (auto simp: paired_def word_less_nat_alt)
  from Cons.IH [OF this] Cons.prems(2) inc obtain ms a' b' where ih:
    "encode_all cr fs ?a = (Some ms, a')" "decode_all cr ms ?b = (zip ms fs, b')" "length ms = length fs" "paired a' b'"
    by auto
  have "encode_all cr (f # fs) a = (Some (?m # ms), a')"
    by (simp add: f encode_message [OF k(1)] ih)
  moreover have "decode_all cr (?m # ms) b = (zip (?m # ms) (f # fs), b')"
    by (simp add: f side decode_message [OF assms k(2) fresh] ih flip: side)
      (simp add: side decode_message [OF assms k(2) fresh] ih)
  ultimately show ?case using ih by (intro exI conjI) auto
qed

lemma decode_all_fresh:
  assumes "box_laws cr"
  shows "session_box c = Some k \<Longrightarrow> decode_all cr ms c = (fs, c') \<Longrightarrow>
    \<exists>ns. length ns = length fs \<and> sorted_wrt (<) (peer_nonce c # ns) \<and>
      fs = map2 (\<lambda>n f. (message_bytes cr (\<not> is_server c) k n (fst f # snd f), f)) ns (map snd fs)"
proof (induction ms arbitrary: c fs c')
  case Nil
  then show ?case by simp
next
  case (Cons m ms)
  obtain r c1 where r: "cipher_decode cr m c = (r, c1)" by (cases "cipher_decode cr m c")
  obtain fs1 c2 where rest: "decode_all cr ms c1 = (fs1, c2)" by (cases "decode_all cr ms c1")
  show ?case
  proof (cases r)
    case None
    then have c1: "session_box c1 = Some k" "is_server c1 = is_server c" "peer_nonce c \<le> peer_nonce c1"
      using decode_refused [of cr m c c1] r Cons.prems(1) by (metis cipher.select_convs(1,13) cipher.surjective cipher.update_convs(10))+
    have "fs1 = fs" using Cons.prems(2) r rest None by simp
    obtain ns where ns: "length ns = length fs1" "sorted_wrt (<) (peer_nonce c1 # ns)"
      "fs1 = map2 (\<lambda>n f. (message_bytes cr (\<not> is_server c) k n (fst f # snd f), f)) ns (map snd fs1)"
      using Cons.IH [OF c1(1) rest] unfolding c1(2) by blast
    have "sorted_wrt (<) (peer_nonce c # ns)" using ns(2) c1(3) by (auto intro: order.strict_trans1)
    with ns(1,3) show ?thesis unfolding \<open>fs1 = fs\<close> by blast
  next
    case (Some f)
    then obtain n where n: "m = message_bytes cr (\<not> is_server c) k n (fst f # snd f)" "peer_nonce c < n" "c1 = c\<lparr>peer_nonce := n\<rparr>"
      using decode_accepted [OF assms Cons.prems(1), of m "fst f" "snd f" c1] r by auto
    have c1: "session_box c1 = Some k" "is_server c1 = is_server c" "peer_nonce c1 = n" using Cons.prems(1) by (simp_all add: n)
    from Cons.IH [OF c1(1) rest] obtain ns where ns: "length ns = length fs1" "sorted_wrt (<) (n # ns)"
      "fs1 = map2 (\<lambda>n f. (message_bytes cr (\<not> is_server c) k n (fst f # snd f), f)) ns (map snd fs1)"
      unfolding c1 by blast
    have fs: "fs = (m, f) # fs1" using Cons.prems(2) r rest Some by simp
    show ?thesis
      by (rule exI [of _ "n # ns"]) (use ns n(1,2) in \<open>auto simp: fs intro: order.strict_trans\<close>)
  qed
qed

lemma distinct_messages:
  assumes "sorted_wrt (<) ns" "length ns = length fs"
  shows "distinct (map fst (map2 (\<lambda>n f. (message_bytes cr b k n (fst f # snd f), f)) ns fs))"
proof -
  have "distinct ns" using assms(1) by (simp add: strict_sorted_iff)
  then show ?thesis using assms(2)
    by (auto simp: distinct_conv_nth dest: message_nonce_unique)
qed

section \<open>Properties\<close>

text \<open>
  The handshake agrees: whatever the keys, nonces and metadata, a client that knows the public key of the
  server and the server complete it. Each gets the metadata of the other, the server learns the long term
  key of the client, both hold the same session key with nonces that the other accepts, and the keys of
  the handshake are erased.
\<close>

theorem curve_handshake_agrees:
  assumes "box_laws cr" "exchange_laws cr"
    and "key_pair cr client_secret client_public" "key_pair cr server_secret server_public"
    and "key_pair cr (fst generated) (snd generated)" "random_ok cr rnd" "length vouch_nonce = long_nonce_size"
  shows "\<exists>client server.
    curve_exchange cr generated rnd vouch_nonce client_metadata server_metadata
      (client_cipher client_secret client_public server_public) (server_cipher server_secret server_public) =
      Some (client_metadata, server_metadata, client, server) \<and>
    peer_public server = client_public \<and> peer_public client = server_public \<and> paired client server \<and>
    transient_secret client = null_key \<and> transient_secret server = null_key \<and> cookie_key server = null_key"
  by (rule curve_exchange_agrees [OF assms])

text \<open>
  C15. What a server has checked when it accepts an INITIATE, of any bytes: the cookie is the one of this
  connection, the content is boxed under the session key with a nonce that is fresh, and the vouch in it binds
  the transient key of the client to the server under the long term key that the server takes for the client.
\<close>

theorem curve_ready_authenticates:
  assumes "box_laws cr"
    and "length (peer_transient c) = 32" "length (transient_secret c) = 32" "length (own_public c) = 32"
    and "cipher_ready cr initiate metadata c = (Some (out, peer_metadata), c')"
  shows "\<exists>session vouch_key cookie_nonce vouch_nonce n.
    is_server c \<and> derive cr (transient_secret c) (peer_transient c) = Some session \<and>
    derive cr (transient_secret c) (peer_public c') = Some vouch_key \<and> peer_nonce c < n \<and>
    initiate = initiate_bytes cr session (cookie_bytes cr (cookie_key c) cookie_nonce (peer_transient c) (transient_secret c)) n
      (peer_public c' @ vouch_bytes cr vouch_key vouch_nonce (peer_transient c) (own_public c) @ peer_metadata) \<and>
    out = ready_bytes cr session (own_nonce c) metadata \<and> c' = readied session (peer_public c') n c"
  by (rule curve_ready_accepted [OF assms])

text \<open>
  After the handshake the frames that one side boxes are those the other side decodes, in order, and the two
  stay paired, as long as the nonce does not wrap.
\<close>

theorem curve_messages_delivered:
  assumes "box_laws cr" "paired a b" "unat (own_nonce a) + length fs < 2 ^ 64"
  shows "\<exists>ms a' b'. encode_all cr fs a = (Some ms, a') \<and> decode_all cr ms b = (zip ms fs, b') \<and>
    length ms = length fs \<and> paired a' b'"
  by (rule messages_delivered [OF assms])

text \<open>
  C17. Whatever messages arrive, those accepted are boxes of their flags and body under the session key, made with
  the prefix of the other side, and their nonces strictly increase: none is accepted twice.
\<close>

theorem curve_messages_fresh:
  assumes "box_laws cr" "session_box c = Some k" "decode_all cr ms c = (fs, c')"
  shows "(\<exists>ns. length ns = length fs \<and> sorted_wrt (<) (peer_nonce c # ns) \<and>
      fs = map2 (\<lambda>n f. (message_bytes cr (\<not> is_server c) k n (fst f # snd f), f)) ns (map snd fs)) \<and>
    distinct (map fst fs)"
proof -
  obtain ns where ns: "length ns = length fs" "sorted_wrt (<) (peer_nonce c # ns)"
    "fs = map2 (\<lambda>n f. (message_bytes cr (\<not> is_server c) k n (fst f # snd f), f)) ns (map snd fs)"
    using decode_all_fresh [OF assms] by blast
  have "distinct (map fst (map2 (\<lambda>n f. (message_bytes cr (\<not> is_server c) k n (fst f # snd f), f)) ns (map snd fs)))"
    by (rule distinct_messages) (use ns in simp_all)
  with ns show ?thesis by (metis (no_types, lifting))
qed

section \<open>Primitives that satisfy the laws, and witnesses\<close>

definition xor_mask :: "bytes \<Rightarrow> bytes \<Rightarrow> byte" where
  "xor_mask k n = foldr (XOR) (k @ n) 0"

definition xor_crypto :: crypto where
  "xor_crypto =
    \<lparr>base_multiply = Some, point_multiply = (\<lambda>a B. Some (map2 (XOR) a B)), hsalsa20 = id,
     box_encrypt = (\<lambda>k n p. map ((XOR) (xor_mask k n)) p @ replicate tag_size (xor_mask k n)),
     box_decrypt = (\<lambda>k n x. if length x < tag_size \<or> drop (length x - tag_size) x \<noteq> replicate tag_size (xor_mask k n)
       then None else Some (map ((XOR) (xor_mask k n)) (take (length x - tag_size) x)))\<rparr>"

lemma xor_twice: "map ((XOR) (m :: byte)) (map ((XOR) m) p) = p"
  by (induction p) (simp_all flip: xor.assoc)

lemma xor_box_laws: "box_laws xor_crypto"
proof -
  have "x = map ((XOR) m) (map ((XOR) m) (take (length x - tag_size) x)) @ replicate tag_size m"
    if "drop (length x - tag_size) x = replicate tag_size m" for m :: byte and x
    unfolding xor_twice by (metis append_take_drop_id that)
  then show ?thesis by (auto simp: box_laws_def xor_crypto_def xor_twice simp flip: map_map)
qed

lemma xor_exchange_laws: "exchange_laws xor_crypto"
proof -
  have "map2 (XOR) a b = map2 (XOR) b (a :: bytes)" for a b
    by (induction a b rule: list_induct2') (simp_all add: xor.commute)
  then show ?thesis by (auto simp: exchange_laws_def key_pair_def to_public_def xor_crypto_def)
qed

definition sample_key :: "byte \<Rightarrow> bytes" where
  "sample_key b = replicate key_size b"

lemma sample_key_pair: "key_pair xor_crypto (sample_key b) (sample_key b)"
  by (simp add: key_pair_def sample_key_def to_public_def xor_crypto_def)

definition sample_random :: welcome_random where
  "sample_random = \<lparr>wr_generated = (sample_key 4, sample_key 4), wr_cookie_key = sample_key 5,
     wr_cookie_nonce = replicate long_nonce_size 6, wr_welcome_nonce = replicate long_nonce_size 7\<rparr>"

lemma sample_random_ok: "random_ok xor_crypto sample_random"
  by (simp add: random_ok_def sample_random_def sample_key_pair)

theorem curve_handshake_agrees_witness:
  "\<exists>client server.
    curve_exchange xor_crypto (sample_key 3, sample_key 3) sample_random (replicate long_nonce_size 8) [1] [2]
      (client_cipher (sample_key 1) (sample_key 1) (sample_key 2)) (server_cipher (sample_key 2) (sample_key 2)) =
      Some ([1], [2], client, server) \<and> peer_public server = sample_key 1 \<and> paired client server"
  using curve_handshake_agrees [OF xor_box_laws xor_exchange_laws sample_key_pair [of 1] sample_key_pair [of 2], of
      "(sample_key 3, sample_key 3)" sample_random "replicate long_nonce_size 8" "[1]" "[2]"]
  by (auto simp: sample_key_pair sample_random_ok)

definition sample_cipher :: "bool \<Rightarrow> cipher" where
  "sample_cipher server = (if server then server_cipher (sample_key 2) (sample_key 2)
     else client_cipher (sample_key 1) (sample_key 1) (sample_key 2))\<lparr>session_box := Some (sample_key 9)\<rparr>"

lemma sample_paired: "paired (sample_cipher False) (sample_cipher True)"
  by (simp add: paired_def sample_cipher_def server_cipher_def client_cipher_def)

theorem curve_messages_delivered_witness:
  "\<exists>ms a b. encode_all xor_crypto [(0, [1, 2]), (1, [])] (sample_cipher False) = (Some ms, a) \<and>
    decode_all xor_crypto ms (sample_cipher True) = (zip ms [(0, [1, 2]), (1, [])], b) \<and> length ms = 2"
  using curve_messages_delivered [OF xor_box_laws sample_paired, of "[(0, [1, 2]), (1, [])]"]
  by (auto simp: sample_cipher_def client_cipher_def)

theorem curve_messages_fresh_witness:
  "\<exists>m fs c. decode_all xor_crypto [m, m, [1, 2]] (sample_cipher True) = (fs, c) \<and> fs \<noteq> [] \<and> distinct (map fst fs)"
proof -
  let ?m = "message_bytes xor_crypto False (sample_key 9) 1 [0, 5]"
  let ?ms = "[?m, ?m, [1, 2]]"
  obtain fs c where run: "decode_all xor_crypto ?ms (sample_cipher True) = (fs, c)" by fastforce
  have key: "session_box (sample_cipher True) = Some (sample_key 9)" by (simp add: sample_cipher_def)
  have "cipher_decode xor_crypto ?m (sample_cipher True) = (Some (0, [5]), (sample_cipher True)\<lparr>peer_nonce := 1\<rparr>)"
    using decode_message [OF xor_box_laws key, of 1 0 "[5]"] by (simp add: sample_cipher_def server_cipher_def)
  then have "fs \<noteq> []" using run by (auto split: prod.splits)
  with run curve_messages_fresh [OF xor_box_laws key run] show ?thesis by blast
qed

theorem curve_ready_authenticates_witness:
  "\<exists>initiate out c'. cipher_ready xor_crypto initiate [2] (welcomed sample_random (sample_key 0) (sample_key 3) 1
      (server_cipher (sample_key 2) (sample_key 2))) = (Some (out, [1]), c') \<and> peer_public c' = sample_key 1 \<and>
    (\<exists>vouch_key vouch_nonce cookie session n. initiate = initiate_bytes xor_crypto session cookie n
      (sample_key 1 @ vouch_bytes xor_crypto vouch_key vouch_nonce (sample_key 3) (sample_key 2) @ [1]))"
proof -
  let ?c = "welcomed sample_random (sample_key 0) (sample_key 3) 1 (server_cipher (sample_key 2) (sample_key 2))"
  have len: "length (sample_key b) = 32" for b by (simp add: sample_key_def key_size_def)
  have c: "is_server ?c" "peer_transient ?c = sample_key 3" "transient_secret ?c = sample_key 4" "own_public ?c = sample_key 2"
    "peer_nonce ?c = 1"
    by (simp_all add: welcomed_def server_cipher_def sample_random_def)
  obtain session where session: "derive xor_crypto (sample_key 4) (sample_key 3) = Some session"
    using derive_agrees [OF xor_exchange_laws sample_key_pair sample_key_pair] by blast
  obtain vk where vk: "derive xor_crypto (sample_key 4) (sample_key 1) = Some vk"
    using derive_agrees [OF xor_exchange_laws sample_key_pair sample_key_pair] by blast
  let ?n16 = "replicate 16 8" and ?i = "\<lambda>v t. initiate_bytes xor_crypto session
    (cookie_bytes xor_crypto (cookie_key ?c) v (sample_key 3) (sample_key 4)) 2 t"
  let ?m = "?i ?n16 (sample_key 1 @ vouch_bytes xor_crypto vk ?n16 (sample_key 3) (sample_key 2) @ [1])"
  have run: "cipher_ready xor_crypto ?m [2] ?c = (Some (ready_bytes xor_crypto session (own_nonce ?c) [2], [1]),
      readied session (sample_key 1) 2 ?c)"
    using ready_sent [OF xor_box_laws c(1), of session "sample_key 1" vk ?n16 ?n16 2 "[1]" "[2]"] session vk len c by simp
  have "peer_public (readied session (sample_key 1) 2 ?c) = sample_key 1" by (simp add: readied_def)
  with curve_ready_authenticates [OF xor_box_laws _ _ _ run] run len c show ?thesis by (metis (no_types))
qed

end
