(* ===== verification/Zmtp_Stream.thy ===== *)
theory Zmtp_Stream
  imports Zmtp_Cipher
begin

text \<open>
  The ZMTP stream over a socket (\<open>src/src/zmtp/stream.cpp\<close>, \<open>zmtp/context.cpp\<close>): the greeting and the
  mechanism handshake (NULL, and CURVE as server), the frame reader and the boxed writer. The asynchronous
  operations of a chain follow one another, so that each handler is a function of the completion of its
  operation that continues with the next. The socket is the bytes that arrive, the bytes sent, the codes of
  the coming writes (none left: success) and the code of a read beyond the bytes that arrive.
\<close>

section \<open>Context\<close>

record zmtp_context =
  ctx_curve :: bool
  ctx_secret :: bytes
  ctx_public :: bytes
  ctx_clients :: "bytes list"

definition empty_context :: zmtp_context where
  "empty_context = \<lparr>ctx_curve = False, ctx_secret = null_key, ctx_public = null_key, ctx_clients = []\<rparr>"

text \<open>The clients before the first key of a wrong size, and whether there is none such.\<close>

fun context_clients :: "bytes list \<Rightarrow> bytes list \<times> bool" where
  "context_clients [] = ([], True)"
| "context_clients (client # clients) =
    (if length client \<noteq> key_size then ([], False)
     else (case context_clients clients of (keys, ok) \<Rightarrow> (client # keys, ok)))"

definition make_context :: "crypto \<Rightarrow> bytes \<Rightarrow> bytes list \<Rightarrow> zmtp_context" where
  "make_context cr secret clients =
    (if length secret \<noteq> key_size then empty_context
     else (case context_clients clients of (keys, ok) \<Rightarrow>
       if \<not> ok then empty_context\<lparr>ctx_clients := keys\<rparr>
       else (case to_public cr secret of
          None \<Rightarrow> empty_context\<lparr>ctx_clients := keys, ctx_secret := secret\<rparr>
        | Some public \<Rightarrow> \<lparr>ctx_curve = True, ctx_secret = secret, ctx_public = public, ctx_clients = keys\<rparr>)))"

definition authorized :: "bytes \<Rightarrow> zmtp_context \<Rightarrow> bool" where
  "authorized client ctx \<longleftrightarrow> ctx_clients ctx = [] \<or> client \<in> set (ctx_clients ctx)"

section \<open>Socket and stream\<close>

record wire_socket =
  inbound :: bytes
  outbound :: bytes
  write_codes :: "error_t list"
  end_code :: error_t

definition socket_write :: "bytes \<Rightarrow> wire_socket \<Rightarrow> error_t \<times> wire_socket" where
  "socket_write data s =
    (case write_codes s of
       [] \<Rightarrow> (e_success, s\<lparr>outbound := outbound s @ data\<rparr>)
     | ec # ecs \<Rightarrow>
         (ec, s\<lparr>write_codes := ecs, outbound := if failed ec then outbound s else outbound s @ data\<rparr>))"

definition socket_read :: "nat \<Rightarrow> wire_socket \<Rightarrow> error_t \<times> bytes \<times> wire_socket" where
  "socket_read n s =
    (if length (inbound s) < n then (end_code s, [], s\<lparr>inbound := []\<rparr>)
     else (e_success, take n (inbound s), s\<lparr>inbound := drop n (inbound s)\<rparr>))"

record zmtp_stream =
  z_socket :: wire_socket
  z_context :: zmtp_context
  z_role :: zmtp_role
  z_identity :: bytes
  z_cipher :: "cipher option"
  z_secured :: bool

definition make_stream :: "wire_socket \<Rightarrow> zmtp_context \<Rightarrow> zmtp_role \<Rightarrow> zmtp_stream" where
  "make_stream s ctx role =
    \<lparr>z_socket = s, z_context = ctx, z_role = role, z_identity = [],
     z_cipher = if ctx_curve ctx then Some (server_cipher (ctx_secret ctx) (ctx_public ctx)) else None,
     z_secured = False\<rparr>"

definition z_write :: "bytes \<Rightarrow> zmtp_stream \<Rightarrow> error_t \<times> zmtp_stream" where
  "z_write data z = (case socket_write data (z_socket z) of (ec, s) \<Rightarrow> (ec, z\<lparr>z_socket := s\<rparr>))"

definition z_read :: "nat \<Rightarrow> zmtp_stream \<Rightarrow> error_t \<times> bytes \<times> zmtp_stream" where
  "z_read n z = (case socket_read n (z_socket z) of (ec, data, s) \<Rightarrow> (ec, data, z\<lparr>z_socket := s\<rparr>))"

record wire_frame =
  wf_flags :: byte
  wf_body :: bytes

definition frame_command :: "wire_frame \<Rightarrow> bool" where
  "frame_command f \<longleftrightarrow> wf_flags f AND flag_command \<noteq> 0"

definition frame_more :: "wire_frame \<Rightarrow> bool" where
  "frame_more f \<longleftrightarrow> wf_flags f AND flag_more \<noteq> 0"

abbreviation no_frame :: wire_frame where
  "no_frame \<equiv> \<lparr>wf_flags = 0, wf_body = []\<rparr>"

section \<open>Frame reader\<close>

text \<open>The frame read is delivered with the code (what is in it after a failure is not used).\<close>

definition handle_frame_body ::
  "crypto \<Rightarrow> error_t \<Rightarrow> wire_frame \<Rightarrow> zmtp_stream \<Rightarrow> error_t \<times> wire_frame \<times> zmtp_stream" where
  "handle_frame_body cr ec out z =
    (if failed ec \<or> \<not> z_secured z then (ec, out, z)
     else case command_name (wf_body out) of
         None \<Rightarrow> (e_protocol_violation, out, z)
       | Some (name, content) \<Rightarrow>
           if frame_command out \<and> name = command_error then (ec, out, z)
           else if name \<noteq> command_message then (e_protocol_violation, out, z)
           else (case z_cipher z of
               None \<Rightarrow> (e_protocol_violation, out, z)
             | Some c \<Rightarrow>
                 (case cipher_decode cr (wf_body out) c of
                    (None, c) \<Rightarrow> (e_protocol_violation, out, z\<lparr>z_cipher := Some c\<rparr>)
                  | (Some (payload, plain), c) \<Rightarrow>
                      (ec,
                       \<lparr>wf_flags = (if payload AND payload_more \<noteq> 0 then flag_more else 0) OR
                          (if payload AND payload_command \<noteq> 0 then flag_command else 0),
                        wf_body = plain\<rparr>,
                       z\<lparr>z_cipher := Some c\<rparr>))))"

definition handle_frame_length ::
  "crypto \<Rightarrow> error_t \<Rightarrow> bytes \<Rightarrow> bool \<Rightarrow> byte \<Rightarrow> nat \<Rightarrow> zmtp_stream \<Rightarrow> error_t \<times> wire_frame \<times> zmtp_stream" where
  "handle_frame_length cr ec data long_size flags maximum z =
    (if failed ec then (ec, no_frame, z)
     else
       let n = if long_size then unat (be_accumulate (0 :: uint64) data) else unat (hd data) in
       if maximum < n then (e_oversized_payload, no_frame, z)
       else if n = 0 then handle_frame_body cr e_success \<lparr>wf_flags = flags, wf_body = []\<rparr> z
       else (case z_read n z of (ec, body, z) \<Rightarrow>
          handle_frame_body cr ec \<lparr>wf_flags = flags, wf_body = body\<rparr> z))"

definition handle_frame_flags ::
  "crypto \<Rightarrow> error_t \<Rightarrow> bytes \<Rightarrow> nat \<Rightarrow> zmtp_stream \<Rightarrow> error_t \<times> wire_frame \<times> zmtp_stream" where
  "handle_frame_flags cr ec data maximum z =
    (if failed ec then (ec, no_frame, z)
     else
       let flags = hd data; long_size = flags AND flag_long \<noteq> 0 in
       (case z_read (if long_size then 8 else 1) z of (ec, data, z) \<Rightarrow>
          handle_frame_length cr ec data long_size flags maximum z))"

definition async_read_frame :: "crypto \<Rightarrow> nat \<Rightarrow> zmtp_stream \<Rightarrow> error_t \<times> wire_frame \<times> zmtp_stream" where
  "async_read_frame cr maximum z =
    (case z_read 1 z of (ec, data, z) \<Rightarrow> handle_frame_flags cr ec data maximum z)"

section \<open>Boxed writer\<close>

text \<open>
  The frames of a buffer boxed one by one; the bytes of the boxed frames, or None when a frame is malformed or not
  boxed.
\<close>

function box_frames :: "crypto \<Rightarrow> bytes \<Rightarrow> cipher \<Rightarrow> bytes option \<times> cipher" where
  "box_frames cr buffer c =
    (if buffer = [] then (Some [], c)
     else case frame_decode buffer of
         None \<Rightarrow> (None, c)
       | Some (flags, body, rest) \<Rightarrow>
           let payload = (if flags AND flag_more \<noteq> 0 then payload_more else 0) OR
             (if flags AND flag_command \<noteq> 0 then payload_command else 0)
           in case cipher_encode cr payload body c of
               (None, c) \<Rightarrow> (None, c)
             | (Some message, c) \<Rightarrow>
                 (case box_frames cr rest c of
                    (boxed, c) \<Rightarrow> (map_option (\<lambda>b. frame_encode message False False @ b) boxed, c)))"
  by pat_completeness auto
termination by (relation "measure (length \<circ> fst \<circ> snd)") (auto simp: frame_decode_shorter)

declare box_frames.simps [simp del]

definition z_async_write :: "crypto \<Rightarrow> bytes \<Rightarrow> zmtp_stream \<Rightarrow> error_t \<times> zmtp_stream" where
  "z_async_write cr data z =
    (if \<not> z_secured z then z_write data z
     else case z_cipher z of
         None \<Rightarrow> (e_protocol_violation, z)
       | Some c \<Rightarrow>
           (case box_frames cr data c of
              (None, c) \<Rightarrow> (e_protocol_violation, z\<lparr>z_cipher := Some c\<rparr>)
            | (Some boxed, c) \<Rightarrow> z_write boxed (z\<lparr>z_cipher := Some c\<rparr>)))"

text \<open>A sequence of buffers is gathered into one.\<close>

definition z_async_write_buffers :: "crypto \<Rightarrow> bytes list \<Rightarrow> zmtp_stream \<Rightarrow> error_t \<times> zmtp_stream" where
  "z_async_write_buffers cr buffers z =
    (if \<not> z_secured z then z_write (concat buffers) z else z_async_write cr (concat buffers) z)"

section \<open>Handshake\<close>

definition fail_handshake :: "string \<Rightarrow> zmtp_stream \<Rightarrow> error_t \<times> zmtp_stream" where
  "fail_handshake reason z = (e_protocol_violation, snd (z_write (make_error (string_bytes reason)) z))"

definition peer_compatible :: "bytes \<Rightarrow> zmtp_stream \<Rightarrow> bool \<times> zmtp_stream" where
  "peer_compatible metadata z =
    (case ready_socket_type metadata of
       None \<Rightarrow> (False, z)
     | Some type \<Rightarrow>
         if \<not> role_compatible (z_role z) type then (False, z)
         else (True, case ready_property (string_bytes ''Identity'') metadata of
             None \<Rightarrow> z | Some identity \<Rightarrow> z\<lparr>z_identity := identity\<rparr>))"

subsection \<open>The NULL mechanism\<close>

definition handle_ready :: "error_t \<Rightarrow> wire_frame \<Rightarrow> zmtp_stream \<Rightarrow> error_t \<times> zmtp_stream" where
  "handle_ready ec ready z =
    (if failed ec then (ec, z)
     else if \<not> frame_command ready then fail_handshake ''expected command'' z
     else case command_name (wf_body ready) of
         None \<Rightarrow> fail_handshake ''expected READY'' z
       | Some (name, metadata) \<Rightarrow>
           if name \<noteq> command_ready then fail_handshake ''expected READY'' z
           else (case peer_compatible metadata z of (ok, z) \<Rightarrow>
              if \<not> ok then fail_handshake ''incompatible socket type'' z else (e_success, z)))"

definition read_ready :: "crypto \<Rightarrow> zmtp_stream \<Rightarrow> error_t \<times> zmtp_stream" where
  "read_ready cr z = (case async_read_frame cr maximum_inbound z of (ec, ready, z) \<Rightarrow> handle_ready ec ready z)"

definition handle_ready_sent :: "crypto \<Rightarrow> error_t \<Rightarrow> zmtp_stream \<Rightarrow> error_t \<times> zmtp_stream" where
  "handle_ready_sent cr ec z = (if failed ec then (ec, z) else read_ready cr z)"

definition write_ready :: "crypto \<Rightarrow> zmtp_stream \<Rightarrow> error_t \<times> zmtp_stream" where
  "write_ready cr z = (case z_write (make_ready (z_role z)) z of (ec, z) \<Rightarrow> handle_ready_sent cr ec z)"

subsection \<open>The CURVE mechanism (server)\<close>

definition handle_curve_ready_sent :: "error_t \<Rightarrow> zmtp_stream \<Rightarrow> error_t \<times> zmtp_stream" where
  "handle_curve_ready_sent ec z = (if failed ec then (ec, z) else (e_success, z\<lparr>z_secured := True\<rparr>))"

text \<open>The cipher of the stream is engaged in these handlers (\<open>handle_greeting_stage2\<close> starts them).\<close>

definition handle_initiate :: "crypto \<Rightarrow> error_t \<Rightarrow> wire_frame \<Rightarrow> zmtp_stream \<Rightarrow> error_t \<times> zmtp_stream" where
  "handle_initiate cr ec initiate z =
    (if failed ec then (ec, z)
     else if \<not> frame_command initiate \<or> map_option fst (command_name (wf_body initiate)) \<noteq> Some command_initiate
       then fail_handshake ''expected INITIATE'' z
     else
       (case cipher_ready cr (wf_body initiate)
           (make_property (string_bytes ''Socket-Type'') (string_bytes (socket_type (z_role z)))) (the (z_cipher z)) of
          (None, c) \<Rightarrow> fail_handshake ''invalid INITIATE'' (z\<lparr>z_cipher := Some c\<rparr>)
        | (Some (ready, metadata), c) \<Rightarrow>
            let z = z\<lparr>z_cipher := Some c\<rparr> in
            if \<not> authorized (peer_public c) (z_context z) then fail_handshake ''400'' z
            else (case peer_compatible metadata z of (ok, z) \<Rightarrow>
               if \<not> ok then fail_handshake ''incompatible socket type'' z
               else (case z_write (frame_encode ready True False) z of (ec, z) \<Rightarrow> handle_curve_ready_sent ec z))))"

definition handle_welcome_sent :: "crypto \<Rightarrow> error_t \<Rightarrow> zmtp_stream \<Rightarrow> error_t \<times> zmtp_stream" where
  "handle_welcome_sent cr ec z =
    (if failed ec then (ec, z)
     else case async_read_frame cr maximum_inbound z of (ec, initiate, z) \<Rightarrow> handle_initiate cr ec initiate z)"

definition handle_hello :: "crypto \<Rightarrow> welcome_random \<Rightarrow> error_t \<Rightarrow> wire_frame \<Rightarrow> zmtp_stream \<Rightarrow> error_t \<times> zmtp_stream" where
  "handle_hello cr rnd ec hello z =
    (if failed ec then (ec, z)
     else if \<not> frame_command hello \<or> map_option fst (command_name (wf_body hello)) \<noteq> Some command_hello
       then fail_handshake ''expected HELLO'' z
     else
       (case cipher_welcome cr rnd (wf_body hello) (the (z_cipher z)) of
          (None, c) \<Rightarrow> fail_handshake ''invalid HELLO'' (z\<lparr>z_cipher := Some c\<rparr>)
        | (Some welcome, c) \<Rightarrow>
            (case z_write (frame_encode welcome True False) (z\<lparr>z_cipher := Some c\<rparr>) of (ec, z) \<Rightarrow>
               handle_welcome_sent cr ec z)))"

definition read_hello :: "crypto \<Rightarrow> welcome_random \<Rightarrow> zmtp_stream \<Rightarrow> error_t \<times> zmtp_stream" where
  "read_hello cr rnd z = (case async_read_frame cr maximum_inbound z of (ec, hello, z) \<Rightarrow> handle_hello cr rnd ec hello z)"

subsection \<open>The greeting\<close>

definition handle_greeting_stage2 ::
  "crypto \<Rightarrow> welcome_random \<Rightarrow> error_t \<Rightarrow> bytes \<Rightarrow> bool \<Rightarrow> zmtp_stream \<Rightarrow> error_t \<times> zmtp_stream" where
  "handle_greeting_stage2 cr rnd ec greeting as_server z =
    (if failed ec then (ec, z)
     else case parse_greeting greeting of
         None \<Rightarrow> (e_protocol_violation, z)
       | Some (minor, curve, peer_server) \<Rightarrow>
           if curve \<noteq> (z_cipher z \<noteq> None) \<or> curve \<and> (peer_server \<or> \<not> as_server) then fail_handshake ''mechanism mismatch'' z
           else if curve then read_hello cr rnd z
           else write_ready cr z)"

definition handle_greeting_stage1 ::
  "crypto \<Rightarrow> welcome_random \<Rightarrow> error_t \<Rightarrow> bytes \<Rightarrow> bool \<Rightarrow> zmtp_stream \<Rightarrow> error_t \<times> zmtp_stream" where
  "handle_greeting_stage1 cr rnd ec data as_server z =
    (if failed ec then (ec, z)
     else if hd data \<noteq> 0xff \<or> data ! (signature_size - 1) AND 0x01 = 0 \<or> data ! signature_size < revision_major
       then (e_protocol_violation, z)
     else case z_read greeting_stage2 z of (ec, data2, z) \<Rightarrow>
         handle_greeting_stage2 cr rnd ec (data @ data2) as_server z)"

definition read_greeting :: "crypto \<Rightarrow> welcome_random \<Rightarrow> bool \<Rightarrow> zmtp_stream \<Rightarrow> error_t \<times> zmtp_stream" where
  "read_greeting cr rnd as_server z =
    (case z_read greeting_stage1 z of (ec, data, z) \<Rightarrow> handle_greeting_stage1 cr rnd ec data as_server z)"

definition handle_greeting_sent ::
  "crypto \<Rightarrow> welcome_random \<Rightarrow> error_t \<Rightarrow> bool \<Rightarrow> zmtp_stream \<Rightarrow> error_t \<times> zmtp_stream" where
  "handle_greeting_sent cr rnd ec as_server z = (if failed ec then (ec, z) else read_greeting cr rnd as_server z)"

definition write_greeting :: "crypto \<Rightarrow> welcome_random \<Rightarrow> bool \<Rightarrow> zmtp_stream \<Rightarrow> error_t \<times> zmtp_stream" where
  "write_greeting cr rnd as_server z =
    (case z_write (make_greeting as_server (z_cipher z \<noteq> None)) z of (ec, z) \<Rightarrow> handle_greeting_sent cr rnd ec as_server z)"

definition zmtp_handshake :: "crypto \<Rightarrow> welcome_random \<Rightarrow> bool \<Rightarrow> zmtp_stream \<Rightarrow> error_t \<times> zmtp_stream" where
  "zmtp_handshake cr rnd as_server z = write_greeting cr rnd as_server z"

section \<open>The frame reader against the codec\<close>

abbreviation z_inbound :: "zmtp_stream \<Rightarrow> bytes" where
  "z_inbound z \<equiv> inbound (z_socket z)"

definition set_inbound :: "bytes \<Rightarrow> zmtp_stream \<Rightarrow> zmtp_stream" where
  "set_inbound data z = z\<lparr>z_socket := (z_socket z)\<lparr>inbound := data\<rparr>\<rparr>"

lemma set_inbound_simps [simp]:
  "z_inbound (set_inbound data z) = data" "z_secured (set_inbound data z) = z_secured z"
  "z_cipher (set_inbound data z) = z_cipher z" "z_role (set_inbound data z) = z_role z"
  "z_context (set_inbound data z) = z_context z" "z_identity (set_inbound data z) = z_identity z"
  "end_code (z_socket (set_inbound data z)) = end_code (z_socket z)"
  "write_codes (z_socket (set_inbound data z)) = write_codes (z_socket z)"
  "outbound (z_socket (set_inbound data z)) = outbound (z_socket z)"
  "set_inbound data' (set_inbound data z) = set_inbound data' z"
  by (simp_all add: set_inbound_def)

lemma z_read_enough: "n \<le> length (z_inbound z) \<Longrightarrow>
    z_read n z = (e_success, take n (z_inbound z), set_inbound (drop n (z_inbound z)) z)"
  by (simp add: z_read_def socket_read_def set_inbound_def)

lemma z_read_short: "length (z_inbound z) < n \<Longrightarrow> z_read n z = (end_code (z_socket z), [], set_inbound [] z)"
  by (simp add: z_read_def socket_read_def set_inbound_def)

lemma body_unsecured: "\<not> z_secured z \<Longrightarrow> handle_frame_body cr ec out z = (ec, out, z)"
  by (simp add: handle_frame_body_def)

lemma body_failed: "failed ec \<Longrightarrow> handle_frame_body cr ec out z = (ec, out, z)"
  by (simp add: handle_frame_body_def)

text \<open>The length and the body of a frame whose head was read, of the bytes that are left.\<close>

lemma frame_length_read:
  assumes "failed (end_code (z_socket z))"
    and "n = (if long_size then unat (be_accumulate (0 :: uint64) data) else unat (hd data))"
  shows "handle_frame_length cr e_success data long_size flags maximum z =
    (if maximum < n then (e_oversized_payload, no_frame, z)
     else if length (z_inbound z) < n then (end_code (z_socket z), \<lparr>wf_flags = flags, wf_body = []\<rparr>, set_inbound [] z)
     else handle_frame_body cr e_success \<lparr>wf_flags = flags, wf_body = take n (z_inbound z)\<rparr> (set_inbound (drop n (z_inbound z)) z))"
proof -
  have same: "set_inbound (z_inbound z) z = z" by (simp add: set_inbound_def)
  show ?thesis
  proof (cases "n = 0")
    case True
    then show ?thesis by (simp add: handle_frame_length_def Let_def same flip: assms(2))
  next
    case False
    then show ?thesis
      by (simp add: handle_frame_length_def Let_def z_read_enough z_read_short body_failed [OF assms(1)] flip: assms(2))
  qed
qed

lemma take_drop_rest: "take n (drop m xs) @ drop (n + m) xs = drop m xs"
  by (metis append_take_drop_id drop_drop)

lemma frame_read:
  assumes "failed (end_code (z_socket z))"
  shows "(case frame_decode (z_inbound z) of
      Some (flags, body, rest) \<Rightarrow>
        async_read_frame cr maximum z =
          (if length body \<le> maximum then handle_frame_body cr e_success \<lparr>wf_flags = flags, wf_body = body\<rparr> (set_inbound rest z)
           else (e_oversized_payload, no_frame, set_inbound (body @ rest) z))
    | None \<Rightarrow> failed (fst (async_read_frame cr maximum z)))"
proof (cases "z_inbound z")
  case Nil
  then show ?thesis using assms
    by (simp add: frame_decode_def async_read_frame_def z_read_short handle_frame_flags_def)
next
  case (Cons flags data)
  let ?z = "set_inbound data z"
  have read: "async_read_frame cr maximum z = handle_frame_flags cr e_success [flags] maximum ?z"
    by (simp add: async_read_frame_def z_read_enough Cons)
  show ?thesis
  proof (cases "flags AND flag_long \<noteq> 0")
    case True
    show ?thesis
    proof (cases "length data < 8")
      case True
      with \<open>flags AND flag_long \<noteq> 0\<close> assms show ?thesis
        by (simp add: read Cons frame_decode_def handle_frame_flags_def Let_def z_read_short handle_frame_length_def)
    next
      case False
      with \<open>flags AND flag_long \<noteq> 0\<close> assms show ?thesis
        by (auto simp: read Cons frame_decode_def handle_frame_flags_def Let_def z_read_enough frame_length_read [OF _ refl] take_drop_rest)
    qed
  next
    case False
    with assms show ?thesis
      by (cases data) (auto simp: read Cons frame_decode_def handle_frame_flags_def Let_def z_read_enough z_read_short
          handle_frame_length_def [of _ _ "[]"] frame_length_read [OF _ refl])
  qed
qed

lemma frame_read_encoded:
  assumes "failed (end_code (z_socket z))" "z_inbound z = frame_encode body command cont @ rest"
    and "length body \<le> maximum" "length body < 2 ^ 64"
  shows "async_read_frame cr maximum z =
    handle_frame_body cr e_success \<lparr>wf_flags = wire_flags body command cont, wf_body = body\<rparr> (set_inbound rest z)"
  using frame_read [OF assms(1), of cr maximum] assms by (simp add: frame_decode_encode)

section \<open>The NULL handshake\<close>

definition add_outbound :: "bytes \<Rightarrow> zmtp_stream \<Rightarrow> zmtp_stream" where
  "add_outbound data z = z\<lparr>z_socket := (z_socket z)\<lparr>outbound := outbound (z_socket z) @ data\<rparr>\<rparr>"

lemma add_outbound_simps [simp]:
  "z_inbound (add_outbound data z) = z_inbound z" "z_secured (add_outbound data z) = z_secured z"
  "z_cipher (add_outbound data z) = z_cipher z" "z_role (add_outbound data z) = z_role z"
  "z_context (add_outbound data z) = z_context z" "z_identity (add_outbound data z) = z_identity z"
  "end_code (z_socket (add_outbound data z)) = end_code (z_socket z)"
  "write_codes (z_socket (add_outbound data z)) = write_codes (z_socket z)"
  "outbound (z_socket (add_outbound data z)) = outbound (z_socket z) @ data"
  "add_outbound data' (add_outbound data z) = add_outbound (data @ data') z"
  "add_outbound data' (set_inbound data z) = set_inbound data (add_outbound data' z)"
  by (simp_all add: add_outbound_def set_inbound_def)

lemma z_write_ok: "write_codes (z_socket z) = [] \<Longrightarrow> z_write data z = (e_success, add_outbound data z)"
  by (simp add: z_write_def socket_write_def add_outbound_def)

lemma success_not_failed: "\<not> failed e_success"
  by simp

lemma failed_handshake: "failed (fst (fail_handshake reason z))"
  by (simp add: fail_handshake_def)

text \<open>After our greeting: what follows depends on the parse of the first 64 bytes.\<close>

lemma greeting_exchanged:
  assumes "failed (end_code (z_socket z))"
  shows "case parse_greeting (take greeting_size (z_inbound z)) of
      None \<Rightarrow> failed (fst (handle_greeting_sent cr rnd e_success as_server z))
    | Some (minor, curve, peer_server) \<Rightarrow>
        handle_greeting_sent cr rnd e_success as_server z =
          (let z = set_inbound (drop greeting_size (z_inbound z)) z in
           if curve \<noteq> (z_cipher z \<noteq> None) \<or> curve \<and> (peer_server \<or> \<not> as_server) then fail_handshake ''mechanism mismatch'' z
           else if curve then read_hello cr rnd z else write_ready cr z)"
proof -
  let ?in = "z_inbound z"
  have sent: "handle_greeting_sent cr rnd e_success as_server z = read_greeting cr rnd as_server z"
    by (simp add: handle_greeting_sent_def)
  consider "length ?in < 11" | "11 \<le> length ?in" "length ?in < 64" | "64 \<le> length ?in" by linarith
  then show ?thesis
  proof cases
    case 1
    then have "parse_greeting (take greeting_size ?in) = None" by (simp add: parse_greeting_def zmtp_sizes)
    with 1 assms show ?thesis
      by (simp add: sent read_greeting_def z_read_short handle_greeting_stage1_def zmtp_sizes)
  next
    case 2
    then have "parse_greeting (take greeting_size ?in) = None" by (simp add: parse_greeting_def zmtp_sizes)
    with 2 assms show ?thesis
      by (simp add: sent read_greeting_def z_read_enough z_read_short handle_greeting_stage1_def handle_greeting_stage2_def zmtp_sizes)
  next
    case 3
    have whole: "take 11 ?in @ take 53 (drop 11 ?in) = take 64 ?in"
      using take_add [of 11 53 ?in] by simp
    have head: "hd ?in = ?in ! 0" using 3 by (simp add: hd_conv_nth flip: length_greater_0_conv)
    show ?thesis
    proof (cases "?in ! 0 \<noteq> 0xff \<or> ?in ! 9 AND 1 = 0 \<or> ?in ! 10 < revision_major")
      case True
      then have "parse_greeting (take greeting_size ?in) = None"
        using 3 by (auto simp: parse_greeting_def greeting_size_def signature_size_def)
      with True 3 show ?thesis
        by (simp add: sent read_greeting_def z_read_enough handle_greeting_stage1_def greeting_stage1_def signature_size_def head)
    next
      case False
      then have "handle_greeting_sent cr rnd e_success as_server z =
        handle_greeting_stage2 cr rnd e_success (take 64 ?in) as_server (set_inbound (drop 64 ?in) z)"
        using 3 by (simp add: sent read_greeting_def z_read_enough handle_greeting_stage1_def greeting_stage1_def
            greeting_stage2_def greeting_size_def signature_size_def head whole)
      then show ?thesis
        by (auto simp: handle_greeting_stage2_def greeting_size_def Let_def split: option.splits)
    qed
  qed
qed

text \<open>The decision on the bytes as a whole: the identity and what is left, when the peer is accepted.\<close>

definition null_peer :: "zmtp_role \<Rightarrow> bytes \<Rightarrow> (bytes option \<times> bytes) option" where
  "null_peer role input =
    do {
      (minor, curve, server) \<leftarrow> parse_greeting (take greeting_size input);
      (flags, body, rest) \<leftarrow> frame_decode (drop greeting_size input);
      (name, metadata) \<leftarrow> command_name body;
      type \<leftarrow> ready_socket_type metadata;
      if \<not> curve \<and> length body \<le> maximum_inbound \<and> flags AND flag_command \<noteq> 0 \<and> name = command_ready \<and>
        role_compatible role type
      then Some (ready_property (string_bytes ''Identity'') metadata, rest) else None }"

definition null_accepted :: "bytes option \<Rightarrow> zmtp_stream \<Rightarrow> zmtp_stream" where
  "null_accepted identity z = (case identity of None \<Rightarrow> z | Some i \<Rightarrow> z\<lparr>z_identity := i\<rparr>)"

lemma ready_exchanged:
  assumes "failed (end_code (z_socket z))" "\<not> z_secured z"
  shows "case (do { (flags, body, rest) \<leftarrow> frame_decode (z_inbound z); (name, metadata) \<leftarrow> command_name body;
      type \<leftarrow> ready_socket_type metadata;
      if length body \<le> maximum_inbound \<and> flags AND flag_command \<noteq> 0 \<and> name = command_ready \<and> role_compatible (z_role z) type
      then Some (ready_property (string_bytes ''Identity'') metadata, rest) else None }) of
      None \<Rightarrow> failed (fst (read_ready cr z))
    | Some (identity, rest) \<Rightarrow> read_ready cr z = (e_success, null_accepted identity (set_inbound rest z))"
proof (cases "frame_decode (z_inbound z)")
  case None
  with frame_read [OF assms(1), of cr maximum_inbound] show ?thesis
    by (auto simp: read_ready_def handle_ready_def split: prod.splits)
next
  case (Some d)
  obtain flags body rest where d: "d = (flags, body, rest)" by (cases d)
  show ?thesis
  proof (cases "length body \<le> maximum_inbound")
    case False
    with frame_read [OF assms(1), of cr maximum_inbound] Some show ?thesis
      by (auto simp: d read_ready_def handle_ready_def split: prod.splits option.splits Option.bind_splits)
  next
    case True
    have "async_read_frame cr maximum_inbound z = (e_success, \<lparr>wf_flags = flags, wf_body = body\<rparr>, set_inbound rest z)"
      using frame_read [OF assms(1), of cr maximum_inbound] Some True assms(2) by (simp add: d body_unsecured)
    then show ?thesis
      using Some True failed_handshake
      by (auto simp: d read_ready_def handle_ready_def peer_compatible_def frame_command_def null_accepted_def
          success_not_failed simp del: failed_iff split: option.splits Option.bind_splits)
  qed
qed

text \<open>
  C18. The NULL handshake, read in pieces, accepts exactly the peers whose bytes as a whole are a valid NULL greeting
  followed by a READY command with a compatible socket type: it then has sent its greeting and its READY, holds
  the identity of the peer and leaves all that follows unread. In every other case it fails.
\<close>

theorem null_handshake_decides:
  assumes "failed (end_code s)" "write_codes s = []" "\<not> ctx_curve ctx"
  shows "case null_peer role (inbound s) of
      None \<Rightarrow> failed (fst (zmtp_handshake cr rnd as_server (make_stream s ctx role)))
    | Some (identity, rest) \<Rightarrow>
        zmtp_handshake cr rnd as_server (make_stream s ctx role) =
          (e_success, make_stream (s\<lparr>inbound := rest, outbound := outbound s @ make_greeting as_server False @ make_ready role\<rparr>)
            ctx role\<lparr>z_identity := (case identity of None \<Rightarrow> [] | Some i \<Rightarrow> i)\<rparr>)"
proof -
  let ?z = "make_stream s ctx role"
  let ?z1 = "add_outbound (make_greeting as_server False) ?z"
  let ?z2 = "add_outbound (make_ready role) (set_inbound (drop greeting_size (inbound s)) ?z1)"
  have z: "z_cipher ?z = None" "\<not> z_secured ?z" "z_role ?z = role" "z_socket ?z = s" "z_identity ?z = []"
    using assms(3) by (simp_all add: make_stream_def)
  have start: "zmtp_handshake cr rnd as_server ?z = handle_greeting_sent cr rnd e_success as_server ?z1"
    using z assms(2) by (simp add: zmtp_handshake_def write_greeting_def z_write_ok)
  have ready: "write_ready cr (set_inbound (drop greeting_size (inbound s)) ?z1) = read_ready cr ?z2"
    using z assms(2) by (simp add: write_ready_def z_write_ok handle_ready_sent_def)
  note greeting = greeting_exchanged [of ?z1 cr rnd as_server]
  note peer = ready_exchanged [of ?z2 cr]
  have final: "null_accepted identity (set_inbound rest ?z2) =
      make_stream (s\<lparr>inbound := rest, outbound := outbound s @ make_greeting as_server False @ make_ready role\<rparr>)
        ctx role\<lparr>z_identity := (case identity of None \<Rightarrow> [] | Some i \<Rightarrow> i)\<rparr>" for identity rest
    by (simp add: null_accepted_def make_stream_def set_inbound_def add_outbound_def split: option.splits)
  show ?thesis
  proof (cases "parse_greeting (take greeting_size (inbound s))")
    case None
    with greeting z assms(1) start show ?thesis by (simp add: null_peer_def)
  next
    case (Some g)
    obtain minor curve server where g: "g = (minor, curve, server)" by (cases g)
    show ?thesis
    proof (cases curve)
      case True
      have "null_peer role (inbound s) = None"
        using Some by (auto simp: null_peer_def g True split: Option.bind_splits)
      with greeting z assms(1) start Some True failed_handshake show ?thesis by (simp add: g Let_def del: failed_iff)
    next
      case False
      have "null_peer role (inbound s) =
        do { (flags, body, rest) \<leftarrow> frame_decode (z_inbound ?z2); (name, metadata) \<leftarrow> command_name body;
          type \<leftarrow> ready_socket_type metadata;
          if length body \<le> maximum_inbound \<and> flags AND flag_command \<noteq> 0 \<and> name = command_ready \<and> role_compatible (z_role ?z2) type
          then Some (ready_property (string_bytes ''Identity'') metadata, rest) else None }"
        using Some z by (simp add: null_peer_def g False)
      moreover have "zmtp_handshake cr rnd as_server ?z = read_ready cr ?z2"
        using greeting z assms(1) start Some ready by (simp add: g False Let_def)
      ultimately show ?thesis
        using peer z assms(1) final by (simp del: failed_iff split: option.splits prod.splits)
    qed
  qed
qed

section \<open>The CURVE handshake\<close>

text \<open>What no socket operation changes.\<close>

definition same_state :: "zmtp_stream \<Rightarrow> zmtp_stream \<Rightarrow> bool" where
  "same_state z z' \<longleftrightarrow> z_context z' = z_context z \<and> z_cipher z' = z_cipher z \<and> z_secured z' = z_secured z"

lemma same_state_trans: "same_state z z' \<Longrightarrow> same_state z' z'' \<Longrightarrow> same_state z z''"
  by (simp add: same_state_def)

lemma same_state_refl [simp]: "same_state z z"
  by (simp add: same_state_def)

lemma z_write_same: "z_write data z = (ec, z') \<Longrightarrow> same_state z z'"
  by (auto simp: z_write_def same_state_def split: prod.splits)

lemma z_read_same: "z_read n z = (ec, data, z') \<Longrightarrow> same_state z z'"
  by (auto simp: z_read_def same_state_def split: prod.splits)

lemma frame_length_same:
  assumes "\<not> z_secured z" "handle_frame_length cr ec data long_size flags maximum z = (ec', out, z')"
  shows "same_state z z'"
proof -
  obtain n where n: "n = (if long_size then unat (be_accumulate (0 :: uint64) data) else unat (hd data))" by simp
  obtain ec2 body z2 where r: "z_read n z = (ec2, body, z2)" by (metis surj_pair)
  have "same_state z z2" by (rule z_read_same [OF r])
  moreover from this have "\<not> z_secured z2" using assms(1) by (simp add: same_state_def)
  ultimately show ?thesis
    using assms by (auto simp: handle_frame_length_def Let_def body_unsecured r simp flip: n split: if_splits)
qed

lemma frame_read_same:
  assumes "\<not> z_secured z" "async_read_frame cr maximum z = (ec, out, z')"
  shows "same_state z z'"
proof -
  obtain ec1 d1 z1 where r1: "z_read 1 z = (ec1, d1, z1)" by (metis surj_pair)
  obtain ec2 d2 z2 where r2: "z_read (if hd d1 AND flag_long \<noteq> 0 then 8 else 1) z1 = (ec2, d2, z2)" by (metis surj_pair)
  have same: "same_state z z1" "same_state z1 z2" using z_read_same r1 r2 by blast+
  then have "\<not> z_secured z2" using assms(1) by (simp add: same_state_def)
  from frame_length_same [OF this] same assms(2) show ?thesis
    by (auto simp: async_read_frame_def r1 handle_frame_flags_def Let_def r2
        simp del: One_nat_def intro: same_state_trans split: if_splits)
qed

lemma fail_handshake_not_success: "fail_handshake reason z \<noteq> (e_success, z')"
  by (simp add: fail_handshake_def)

lemma peer_compatible_same: "peer_compatible metadata z = (ok, z') \<Longrightarrow> same_state z z'"
  by (auto simp: peer_compatible_def same_state_def split: option.splits if_splits)

definition admitted :: "zmtp_context \<Rightarrow> zmtp_stream \<Rightarrow> bool" where
  "admitted ctx z \<longleftrightarrow> z_secured z \<and> (\<exists>c. z_cipher z = Some c \<and> authorized (peer_public c) ctx)"

lemma initiate_admits:
  "handle_initiate cr ec initiate z = (e_success, z') \<Longrightarrow> admitted (z_context z) z'"
  by (auto simp: handle_initiate_def handle_curve_ready_sent_def fail_handshake_not_success admitted_def Let_def
      same_state_def dest!: z_write_same peer_compatible_same
      split: prod.splits if_splits option.splits)

lemma hello_admits:
  assumes "\<not> z_secured z" "read_hello cr rnd z = (e_success, z')"
  shows "admitted (z_context z) z'"
proof -
  obtain ec hello z1 where r: "async_read_frame cr maximum_inbound z = (ec, hello, z1)" by (metis surj_pair)
  have same: "same_state z z1" by (rule frame_read_same [OF assms(1) r])
  have "handle_hello cr rnd ec hello z1 = (e_success, z')" using assms(2) by (simp add: read_hello_def r)
  then obtain reply c ec2 z2 where w: "z_write (frame_encode reply True False) (z1\<lparr>z_cipher := Some c\<rparr>) = (ec2, z2)"
    "handle_welcome_sent cr ec2 z2 = (e_success, z')"
    by (auto simp: handle_hello_def fail_handshake_not_success split: prod.splits if_splits option.splits)
  obtain ec3 initiate z3 where i: "async_read_frame cr maximum_inbound z2 = (ec3, initiate, z3)" by (metis surj_pair)
  have two: "\<not> z_secured z2" "z_context z2 = z_context z"
    using z_write_same [OF w(1)] same assms(1) by (simp_all add: same_state_def)
  have "same_state z2 z3" by (rule frame_read_same [OF two(1) i])
  moreover have "handle_initiate cr ec3 initiate z3 = (e_success, z')"
    using w(2) by (auto simp: handle_welcome_sent_def i split: if_splits)
  ultimately show ?thesis using initiate_admits two(2) by (metis same_state_def)
qed

lemma stage2_admits:
  assumes "\<not> z_secured z" "z_cipher z \<noteq> None" "handle_greeting_stage2 cr rnd ec greeting as_server z = (e_success, z')"
  shows "as_server \<and> admitted (z_context z) z'"
  using assms hello_admits
  by (auto simp: handle_greeting_stage2_def fail_handshake_not_success split: if_splits option.splits)

lemma stage1_admits:
  assumes "\<not> z_secured z" "z_cipher z \<noteq> None" "handle_greeting_stage1 cr rnd ec data as_server z = (e_success, z')"
  shows "as_server \<and> admitted (z_context z) z'"
proof -
  obtain ec2 data2 z2 where r: "z_read greeting_stage2 z = (ec2, data2, z2)" by (metis surj_pair)
  have "handle_greeting_stage2 cr rnd ec2 (data @ data2) as_server z2 = (e_success, z')"
    using assms(3) by (auto simp: handle_greeting_stage1_def r split: if_splits)
  from stage2_admits [OF _ _ this] show ?thesis using z_read_same [OF r] assms(1,2) by (simp add: same_state_def)
qed

text \<open>
  C14. A stream of the CURVE mechanism succeeds only as a server and only with a client that is authorized,
  whatever the peer sends and whichever write fails; it then boxes all frames.
\<close>

theorem curve_only_authorized:
  assumes "ctx_curve ctx" "zmtp_handshake cr rnd as_server (make_stream s ctx role) = (e_success, z)"
  shows "as_server \<and> z_secured z \<and> (\<exists>c. z_cipher z = Some c \<and> authorized (peer_public c) ctx)"
proof -
  let ?z = "make_stream s ctx role"
  have z: "\<not> z_secured ?z" "z_cipher ?z \<noteq> None" "z_context ?z = ctx" using assms(1) by (simp_all add: make_stream_def)
  obtain ec z1 where w: "z_write (make_greeting as_server (z_cipher ?z \<noteq> None)) ?z = (ec, z1)" by (metis surj_pair)
  obtain ec2 data z2 where r: "z_read greeting_stage1 z1 = (ec2, data, z2)" by (metis surj_pair)
  have "handle_greeting_stage1 cr rnd ec2 data as_server z2 = (e_success, z)"
    using assms(2) unfolding zmtp_handshake_def write_greeting_def w
    by (auto simp: handle_greeting_sent_def read_greeting_def r split: if_splits)
  from stage1_admits [OF _ _ this] show ?thesis
    using z z_read_same [OF r] z_write_same [OF w] by (simp add: admitted_def same_state_def)
qed

section \<open>Boxed frames\<close>

definition payload_flags :: "bool \<Rightarrow> bool \<Rightarrow> byte" where
  "payload_flags command cont = (if cont then payload_more else 0) OR (if command then payload_command else 0)"

lemma payload_flags_back:
  "((if payload_flags command cont AND payload_more \<noteq> 0 then flag_more else 0) OR
    (if payload_flags command cont AND payload_command \<noteq> 0 then flag_command else 0)) = frame_flags command cont"
  by (cases command; cases cont; simp add: payload_flags_def frame_flags_def payload_more_def payload_command_def zmtp_flags)

lemma box_frames_nil [simp]: "box_frames cr [] c = (Some [], c)"
  by (simp add: box_frames.simps)

lemma box_frames_encode:
  assumes "length body < 2 ^ 64"
  shows "box_frames cr (frame_encode body command cont @ rest) c =
    (case cipher_encode cr (payload_flags command cont) body c of
       (None, c) \<Rightarrow> (None, c)
     | (Some m, c) \<Rightarrow> (case box_frames cr rest c of (boxed, c) \<Rightarrow> (map_option (\<lambda>b. frame_encode m False False @ b) boxed, c)))"
  using assms by (subst box_frames.simps) (simp add: frame_decode_encode payload_flags_def Let_def)

text \<open>Reading a number of frames, each with success.\<close>

fun read_frames :: "crypto \<Rightarrow> nat \<Rightarrow> nat \<Rightarrow> zmtp_stream \<Rightarrow> (wire_frame list \<times> zmtp_stream) option" where
  "read_frames cr maximum 0 z = Some ([], z)"
| "read_frames cr maximum (Suc n) z =
    (case async_read_frame cr maximum z of (ec, f, z) \<Rightarrow>
       if failed ec then None
       else map_option (\<lambda>(fs, z). (f # fs, z)) (read_frames cr maximum n z))"

lemma unbox_message:
  assumes "box_laws cr" "z_secured z" "z_cipher z = Some c" "session_box c = Some k" "peer_nonce c < n"
    and "failed (end_code (z_socket z))"
    and "z_inbound z = frame_encode (message_bytes cr (\<not> is_server c) k n (payload_flags command cont # body)) False False @ rest"
    and "length body + 33 \<le> maximum" "length body + 33 < 2 ^ 64"
  shows "async_read_frame cr maximum z =
    (e_success, \<lparr>wf_flags = frame_flags command cont, wf_body = body\<rparr>,
     (set_inbound rest z)\<lparr>z_cipher := Some (c\<lparr>peer_nonce := n\<rparr>)\<rparr>)"
proof -
  let ?m = "message_bytes cr (\<not> is_server c) k n (payload_flags command cont # body)"
  have size: "length ?m = length body + 33" using length_commands(7) [OF assms(1)] by simp
  have "command_name ?m = Some (command_message, be_bytes64 n @
      box_encrypt cr k (make_nonce (message_prefix (\<not> is_server c)) n) (payload_flags command cont # body))"
    by (simp add: message_bytes_def name_bytes_def command_name_cons [of command_message, simplified])
  moreover have "\<not> frame_command \<lparr>wf_flags = wire_flags ?m False False, wf_body = ?m\<rparr>"
    by (simp add: frame_command_def)
  moreover have "async_read_frame cr maximum z =
      handle_frame_body cr e_success \<lparr>wf_flags = wire_flags ?m False False, wf_body = ?m\<rparr> (set_inbound rest z)"
    by (rule frame_read_encoded) (use assms size in simp_all)
  ultimately show ?thesis
    using assms decode_message [OF assms(1,4,5)] payload_flags_back [of command cont]
    by (simp add: handle_frame_body_def)
qed

type_synonym plain_frame = "bytes \<times> bool \<times> bool"

definition frames_bytes :: "plain_frame list \<Rightarrow> bytes" where
  "frames_bytes fs = concat (map (\<lambda>(body, command, cont). frame_encode body command cont) fs)"

lemma boxed_read:
  assumes "box_laws cr"
  shows "paired a c \<Longrightarrow> unat (own_nonce a) + length fs < 2 ^ 64 \<Longrightarrow> list_all (\<lambda>(body, _). length body + 33 \<le> maximum) fs \<Longrightarrow>
    maximum < 2 ^ 64 \<Longrightarrow>
    \<exists>boxed a'. box_frames cr (frames_bytes fs) a = (Some boxed, a') \<and>
      (\<forall>z rest. z_secured z \<and> z_cipher z = Some c \<and> failed (end_code (z_socket z)) \<and> z_inbound z = boxed @ rest \<longrightarrow>
        (\<exists>c'. read_frames cr maximum (length fs) z =
           Some (map (\<lambda>(body, command, cont). \<lparr>wf_flags = frame_flags command cont, wf_body = body\<rparr>) fs,
             (set_inbound rest z)\<lparr>z_cipher := Some c'\<rparr>) \<and> paired a' c'))"
proof (induction fs arbitrary: a c)
  case Nil
  have "set_inbound (z_inbound z) z\<lparr>z_cipher := Some c\<rparr> = z" if "z_cipher z = Some c" for z
    using that by (simp add: set_inbound_def)
  with Nil.prems show ?case by (auto simp: frames_bytes_def intro!: exI [of _ c])
next
  case (Cons f fs)
  obtain body command cont where f: "f = (body, command, cont)" by (cases f)
  obtain k where k: "session_box a = Some k" "session_box c = Some k" using Cons.prems(1) by (auto simp: paired_def)
  let ?m = "message_bytes cr (is_server a) k (own_nonce a) (payload_flags command cont # body)"
  let ?a = "a\<lparr>own_nonce := own_nonce a + 1\<rparr>" and ?c = "c\<lparr>peer_nonce := own_nonce a\<rparr>"
  have side: "is_server a = (\<not> is_server c)" and fresh: "peer_nonce c < own_nonce a"
    using Cons.prems(1) by (auto simp: paired_def)
  have fits: "length body + 33 \<le> maximum" "length body + 33 < 2 ^ 64" using Cons.prems(3,4) by (simp_all add: f)
  have inc: "unat (own_nonce a + 1) = unat (own_nonce a) + 1"
    using Cons.prems(2) by (intro nonce_increment) simp
  have "paired ?a ?c"
    using Cons.prems(1) inc by (auto simp: paired_def word_less_nat_alt)
  from Cons.IH [OF this] Cons.prems(2-4) inc obtain boxed a' where box: "box_frames cr (frames_bytes fs) ?a = (Some boxed, a')"
    and reading: "\<And>z rest. z_secured z \<Longrightarrow> z_cipher z = Some ?c \<Longrightarrow> failed (end_code (z_socket z)) \<Longrightarrow>
      z_inbound z = boxed @ rest \<Longrightarrow> \<exists>c'. read_frames cr maximum (length fs) z =
           Some (map (\<lambda>(body, command, cont). \<lparr>wf_flags = frame_flags command cont, wf_body = body\<rparr>) fs,
             (set_inbound rest z)\<lparr>z_cipher := Some c'\<rparr>) \<and> paired a' c'"
    by auto
  have boxed: "box_frames cr (frames_bytes (f # fs)) a = (Some (frame_encode ?m False False @ boxed), a')"
    using fits box by (simp add: frames_bytes_def f box_frames_encode encode_message [OF k(1)])
  have "\<exists>c'. read_frames cr maximum (length (f # fs)) z =
      Some (map (\<lambda>(body, command, cont). \<lparr>wf_flags = frame_flags command cont, wf_body = body\<rparr>) (f # fs),
        (set_inbound rest z)\<lparr>z_cipher := Some c'\<rparr>) \<and> paired a' c'"
    if z: "z_secured z" "z_cipher z = Some c" "failed (end_code (z_socket z))"
      "z_inbound z = (frame_encode ?m False False @ boxed) @ rest" for z rest
  proof -
    let ?z = "(set_inbound (boxed @ rest) z)\<lparr>z_cipher := Some ?c\<rparr>"
    have first: "async_read_frame cr maximum z = (e_success, \<lparr>wf_flags = frame_flags command cont, wf_body = body\<rparr>, ?z)"
      by (rule unbox_message [OF assms z(1,2) k(2) fresh z(3) _ fits]) (use z(4) side in simp)
    have sock: "z_socket ?z = z_socket (set_inbound (boxed @ rest) z)" by simp
    from reading [of ?z rest] z obtain c' where "read_frames cr maximum (length fs) ?z =
      Some (map (\<lambda>(body, command, cont). \<lparr>wf_flags = frame_flags command cont, wf_body = body\<rparr>) fs,
        (set_inbound rest ?z)\<lparr>z_cipher := Some c'\<rparr>)" "paired a' c'" by auto
    then show ?thesis by (auto simp: first f set_inbound_def)
  qed
  with boxed show ?case by blast
qed

section \<open>Properties of a secured connection\<close>

text \<open>
  C16. What one side of a secured connection writes the other reads: a buffer of frames is boxed and sent, and a
  stream with the paired cipher that receives these bytes reads the same frames, in order and with the flags they
  were framed with, and nothing beyond them.
\<close>

theorem secured_frames_delivered:
  assumes "box_laws cr" "paired a c" "unat (own_nonce a) + length fs < 2 ^ 64"
    and "list_all (\<lambda>(body, _). length body + 33 \<le> maximum) fs" "maximum < 2 ^ 64"
    and "z_secured w" "z_cipher w = Some a" "write_codes (z_socket w) = []"
  shows "\<exists>boxed a'. z_async_write cr (frames_bytes fs) w = (e_success, add_outbound boxed (w\<lparr>z_cipher := Some a'\<rparr>)) \<and>
    (\<forall>z rest. z_secured z \<and> z_cipher z = Some c \<and> failed (end_code (z_socket z)) \<and> z_inbound z = boxed @ rest \<longrightarrow>
      (\<exists>c'. read_frames cr maximum (length fs) z =
         Some (map (\<lambda>(body, command, cont). \<lparr>wf_flags = frame_flags command cont, wf_body = body\<rparr>) fs,
           (set_inbound rest z)\<lparr>z_cipher := Some c'\<rparr>) \<and> paired a' c'))"
proof -
  obtain boxed a' where box: "box_frames cr (frames_bytes fs) a = (Some boxed, a')" and
    read: "\<forall>z rest. z_secured z \<and> z_cipher z = Some c \<and> failed (end_code (z_socket z)) \<and> z_inbound z = boxed @ rest \<longrightarrow>
      (\<exists>c'. read_frames cr maximum (length fs) z =
         Some (map (\<lambda>(body, command, cont). \<lparr>wf_flags = frame_flags command cont, wf_body = body\<rparr>) fs,
           (set_inbound rest z)\<lparr>z_cipher := Some c'\<rparr>) \<and> paired a' c')"
    using boxed_read [OF assms(1-5)] by blast
  have "z_async_write cr (frames_bytes fs) w = (e_success, add_outbound boxed (w\<lparr>z_cipher := Some a'\<rparr>))"
    using assms(6-8) by (simp add: z_async_write_def box z_write_ok)
  with read show ?thesis by blast
qed

text \<open>
  The commands of an honest client as the stream of the server reads them: the handshake of the stream runs that
  of the ciphers.
\<close>

lemma curve_handshake_stream:
  assumes ciphers: "cipher_welcome cr rnd hello (server_cipher (ctx_secret ctx) (ctx_public ctx)) = (Some reply, c1)"
      "cipher_ready cr initiate (make_property (string_bytes ''Socket-Type'') (string_bytes (socket_type role))) c1 =
        (Some (ready, md), c2)"
    and named: "named hello command_hello" "named initiate command_initiate"
    and sizes: "length hello \<le> maximum_inbound" "length initiate \<le> maximum_inbound"
    and s: "failed (end_code s)" "write_codes s = []" "ctx_curve ctx"
      "inbound s = make_greeting False True @ frame_encode hello True False @ frame_encode initiate True False @ rest"
    and peer: "authorized (peer_public c2) ctx" "ready_socket_type md = Some type" "role_compatible role type"
  shows "\<exists>z. zmtp_handshake cr rnd True (make_stream s ctx role) = (e_success, z) \<and> z_secured z \<and> z_cipher z = Some c2 \<and>
    z_inbound z = rest \<and> z_identity z = (case ready_property (string_bytes ''Identity'') md of None \<Rightarrow> [] | Some i \<Rightarrow> i) \<and>
    outbound (z_socket z) = outbound s @ make_greeting True True @ frame_encode reply True False @ frame_encode ready True False"
proof -
  let ?z = "make_stream s ctx role"
  let ?c0 = "server_cipher (ctx_secret ctx) (ctx_public ctx)"
  have z: "z_cipher ?z = Some ?c0" "\<not> z_secured ?z" "z_role ?z = role" "z_socket ?z = s" "z_identity ?z = []" "z_context ?z = ctx"
    using s(3) by (simp_all add: make_stream_def)
  let ?frames = "frame_encode hello True False @ frame_encode initiate True False @ rest"
  let ?z1 = "add_outbound (make_greeting True True) ?z"
  let ?z2 = "set_inbound ?frames ?z1"
  have small: "length hello < 2 ^ 64" "length initiate < 2 ^ 64" using sizes by (simp_all add: maximum_inbound_def)
  have greet: "parse_greeting (take greeting_size (inbound s)) = Some (revision_minor, True, False)"
    "drop greeting_size (inbound s) = ?frames"
    using parse_make_greeting [of False True] by (simp_all add: s(4))
  have "zmtp_handshake cr rnd True ?z = handle_greeting_sent cr rnd e_success True ?z1"
    using z s by (simp add: zmtp_handshake_def write_greeting_def z_write_ok)
  also have "\<dots> = read_hello cr rnd ?z2"
    using greeting_exchanged [of ?z1 cr rnd True] z s greet by (simp add: Let_def)
  also have "\<dots> = handle_hello cr rnd e_success \<lparr>wf_flags = wire_flags hello True False, wf_body = hello\<rparr>
      (set_inbound (frame_encode initiate True False @ rest) ?z1)"
    using frame_read_encoded [of ?z2 hello True False _ maximum_inbound cr] z s sizes small
    by (simp add: read_hello_def body_unsecured)
  also have "\<dots> = handle_welcome_sent cr e_success (add_outbound (frame_encode reply True False)
      ((set_inbound (frame_encode initiate True False @ rest) ?z1)\<lparr>z_cipher := Some c1\<rparr>))"
    using named_command_name [OF named(1)] ciphers(1) z s
    by (auto simp: handle_hello_def frame_command_def z_write_ok)
  also have "\<dots> = handle_initiate cr e_success \<lparr>wf_flags = wire_flags initiate True False, wf_body = initiate\<rparr>
      (set_inbound rest (add_outbound (frame_encode reply True False)
        ((set_inbound (frame_encode initiate True False @ rest) ?z1)\<lparr>z_cipher := Some c1\<rparr>)))" (is "_ = handle_initiate _ _ _ ?z3")
    using frame_read_encoded [of "add_outbound (frame_encode reply True False)
        ((set_inbound (frame_encode initiate True False @ rest) ?z1)\<lparr>z_cipher := Some c1\<rparr>)" initiate True False rest maximum_inbound cr]
      z s sizes small
    by (simp add: handle_welcome_sent_def body_unsecured)
  finally have run: "zmtp_handshake cr rnd True ?z =
    handle_initiate cr e_success \<lparr>wf_flags = wire_flags initiate True False, wf_body = initiate\<rparr> ?z3" .
  have z3: "z_cipher ?z3 = Some c1" "z_role ?z3 = role" "z_context ?z3 = ctx" "z_identity ?z3 = []" "z_inbound ?z3 = rest"
    "write_codes (z_socket ?z3) = []" "outbound (z_socket ?z3) = outbound s @ make_greeting True True @ frame_encode reply True False"
    using z s by (simp_all add: add_outbound_def set_inbound_def)
  show ?thesis
    unfolding run using named_command_name [OF named(2)] ciphers(2) peer z3
    by (auto simp: handle_initiate_def frame_command_def z_write_ok peer_compatible_def handle_curve_ready_sent_def
        Let_def split: option.splits)
qed

lemma ready_length:
  assumes "box_laws cr" "cipher_ready cr initiate metadata c = (Some (out, peer_metadata), c')"
  shows "length initiate = 257 + length peer_metadata" "named initiate command_initiate"
proof -
  obtain session content where r: "initiate_minimum \<le> length initiate" "named initiate command_initiate"
    "open_box cr session (make_nonce ''CurveZMQINITIATE'' (short_nonce_value initiate (9 + cookie_size)))
       (drop (9 + cookie_size + short_nonce_size) initiate) = Some content"
    "key_size + cookie_size \<le> length content" "peer_metadata = drop (key_size + cookie_size) content"
    using cipher_ready_inversion [OF assms(2)] by blast
  show "length initiate = 257 + length peer_metadata"
    using open_boxD(2) [OF assms(1) r(3)] r(1,4,5) by (simp add: curve_sizes)
  show "named initiate command_initiate" by (rule r(2))
qed

lemma welcome_hello:
  assumes "cipher_welcome cr rnd hello c = (Some reply, c')"
  shows "length hello = hello_size" "named hello command_hello"
  using assms by (simp_all add: cipher_welcome_def split: if_splits)

abbreviation own_metadata :: "zmtp_role \<Rightarrow> bytes" where
  "own_metadata role \<equiv> make_property (string_bytes ''Socket-Type'') (string_bytes (socket_type role))"

lemma curve_exchange_steps:
  assumes "curve_exchange cr generated rnd vouch_nonce md smd client server = Some (at_server, at_client, client', server')"
  obtains hello c1 reply s1 initiate c2 ready where
    "cipher_hello cr generated client = (Some hello, c1)" "cipher_welcome cr rnd hello server = (Some reply, s1)"
    "cipher_initiate cr vouch_nonce reply md c1 = (Some initiate, c2)"
    "cipher_ready cr initiate smd s1 = (Some (ready, at_server), server')"
    "cipher_complete cr ready c2 = (Some at_client, client')"
  using assms by (auto simp: curve_exchange_def split: prod.splits option.splits)

lemma curve_stream_run:
  assumes "box_laws cr" "exchange_laws cr"
    and "key_pair cr client_secret client_public" "key_pair cr (ctx_secret ctx) (ctx_public ctx)"
    and "key_pair cr (fst generated) (snd generated)" "random_ok cr rnd" "length vouch_nonce = long_nonce_size"
    and "ctx_curve ctx" "authorized client_public ctx" "ready_socket_type md = Some type" "role_compatible role type"
    and "length md + 257 \<le> maximum_inbound"
  shows "\<exists>hello c1 reply initiate c2 ready client server.
    cipher_hello cr generated (client_cipher client_secret client_public (ctx_public ctx)) = (Some hello, c1) \<and>
    cipher_initiate cr vouch_nonce reply md c1 = (Some initiate, c2) \<and>
    cipher_complete cr ready c2 = (Some (own_metadata role), client) \<and> paired client server \<and> peer_public server = client_public \<and>
    (\<forall>s rest. failed (end_code s) \<and> write_codes s = [] \<and>
      inbound s = make_greeting False True @ frame_encode hello True False @ frame_encode initiate True False @ rest \<longrightarrow>
      (\<exists>z. zmtp_handshake cr rnd True (make_stream s ctx role) = (e_success, z) \<and> z_secured z \<and> z_cipher z = Some server \<and>
        z_inbound z = rest \<and>
        outbound (z_socket z) =
          outbound s @ make_greeting True True @ frame_encode reply True False @ frame_encode ready True False))"
proof -
  obtain client server where agree: "curve_exchange cr generated rnd vouch_nonce md (own_metadata role)
      (client_cipher client_secret client_public (ctx_public ctx)) (server_cipher (ctx_secret ctx) (ctx_public ctx)) =
      Some (md, own_metadata role, client, server)" "peer_public server = client_public" "paired client server"
    using curve_exchange_agrees [OF assms(1-7), of md "own_metadata role"] by blast
  from agree(1) obtain hello c1 reply s1 initiate c2 ready where steps:
    "cipher_hello cr generated (client_cipher client_secret client_public (ctx_public ctx)) = (Some hello, c1)"
    "cipher_welcome cr rnd hello (server_cipher (ctx_secret ctx) (ctx_public ctx)) = (Some reply, s1)"
    "cipher_initiate cr vouch_nonce reply md c1 = (Some initiate, c2)"
    "cipher_ready cr initiate (own_metadata role) s1 = (Some (ready, md), server)"
    "cipher_complete cr ready c2 = (Some (own_metadata role), client)"
    by (rule curve_exchange_steps)
  have hello: "length hello \<le> maximum_inbound" "named hello command_hello"
    using welcome_hello [OF steps(2)] by (simp_all add: hello_size_def maximum_inbound_def)
  have initiate: "length initiate \<le> maximum_inbound" "named initiate command_initiate"
    using ready_length [OF assms(1) steps(4)] assms(12) by simp_all
  have "\<exists>z. zmtp_handshake cr rnd True (make_stream s ctx role) = (e_success, z) \<and> z_secured z \<and> z_cipher z = Some server \<and>
      z_inbound z = rest \<and>
      outbound (z_socket z) =
        outbound s @ make_greeting True True @ frame_encode reply True False @ frame_encode ready True False"
    if s: "failed (end_code s)" "write_codes s = []"
      "inbound s = make_greeting False True @ frame_encode hello True False @ frame_encode initiate True False @ rest" for s rest
    using curve_handshake_stream [OF steps(2,4) hello(2) initiate(2) hello(1) initiate(1) s(1,2) assms(8) s(3) _ assms(10,11)]
      assms(9) agree(2) by auto
  with steps agree show ?thesis by blast
qed

text \<open>
  C13. The CURVE handshake from the socket up: an authorized client with a compatible socket type, that sends its
  greeting, its HELLO and its INITIATE in frames, is admitted; the stream has sent its greeting, WELCOME and
  READY, which the client completes with, is secured by a cipher paired with the client's and leaves all that
  follows the INITIATE unread.
\<close>

theorem curve_stream_admits:
  assumes "box_laws cr" "exchange_laws cr"
    and "key_pair cr client_secret client_public" "key_pair cr (ctx_secret ctx) (ctx_public ctx)"
    and "key_pair cr (fst generated) (snd generated)" "random_ok cr rnd" "length vouch_nonce = long_nonce_size"
    and "ctx_curve ctx" "authorized client_public ctx" "ready_socket_type md = Some type" "role_compatible role type"
    and "length md + 257 \<le> maximum_inbound"
  shows "\<exists>hello c1 reply initiate c2 ready client server.
    cipher_hello cr generated (client_cipher client_secret client_public (ctx_public ctx)) = (Some hello, c1) \<and>
    cipher_initiate cr vouch_nonce reply md c1 = (Some initiate, c2) \<and>
    cipher_complete cr ready c2 = (Some (own_metadata role), client) \<and> paired client server \<and> peer_public server = client_public \<and>
    (\<forall>s rest. failed (end_code s) \<and> write_codes s = [] \<and>
      inbound s = make_greeting False True @ frame_encode hello True False @ frame_encode initiate True False @ rest \<longrightarrow>
      (\<exists>z. zmtp_handshake cr rnd True (make_stream s ctx role) = (e_success, z) \<and> z_secured z \<and> z_cipher z = Some server \<and>
        z_inbound z = rest \<and>
        outbound (z_socket z) =
          outbound s @ make_greeting True True @ frame_encode reply True False @ frame_encode ready True False))"
  by (rule curve_stream_run [OF assms])

section \<open>Witnesses\<close>

definition sample_context :: zmtp_context where
  "sample_context = \<lparr>ctx_curve = True, ctx_secret = sample_key 2, ctx_public = sample_key 2, ctx_clients = [sample_key 1]\<rparr>"

definition sample_metadata :: bytes where
  "sample_metadata = make_property (string_bytes ''Socket-Type'') (string_bytes ''PUSH'')"

lemma sample_type: "ready_socket_type sample_metadata = Some (string_bytes ''PUSH'')"
  using ready_property_make [of "string_bytes ''Socket-Type''" "string_bytes ''PUSH''" "string_bytes ''Socket-Type''" "[]"]
  by (simp add: ready_socket_type_def sample_metadata_def)

lemma sample_metadata_length: "length sample_metadata = 20"
  by (simp add: sample_metadata_def make_property_def)

lemma sample_context_facts:
  "ctx_curve sample_context" "authorized (sample_key 1) sample_context" "ctx_secret sample_context = sample_key 2"
  "ctx_public sample_context = sample_key 2" "length sample_metadata + 257 \<le> maximum_inbound"
  "role_compatible Role_Puller (string_bytes ''PUSH'')"
  "key_pair xor_crypto (ctx_secret sample_context) (ctx_public sample_context)"
  "key_pair xor_crypto (fst (sample_key 3, sample_key 3)) (snd (sample_key 3, sample_key 3))"
  by (simp_all add: sample_context_def authorized_def sample_key_pair sample_metadata_length maximum_inbound_def)

lemma sample_admitted:
  "\<exists>s z. zmtp_handshake xor_crypto sample_random True (make_stream s sample_context Role_Puller) = (e_success, z)"
proof -
  obtain hello initiate where run: "\<And>s rest. failed (end_code s) \<and> write_codes s = [] \<and>
      inbound s = make_greeting False True @ frame_encode hello True False @ frame_encode initiate True False @ rest \<Longrightarrow>
      (\<exists>z. zmtp_handshake xor_crypto sample_random True (make_stream s sample_context Role_Puller) = (e_success, z))"
    using curve_stream_run [OF xor_box_laws xor_exchange_laws sample_key_pair [of 1] sample_context_facts(7,8) sample_random_ok
        length_replicate [of _ 8] sample_context_facts(1,2) sample_type sample_context_facts(6,5)] by blast
  let ?s = "\<lparr>inbound = make_greeting False True @ frame_encode hello True False @ frame_encode initiate True False @ [],
    outbound = [], write_codes = [], end_code = e_operation_failed\<rparr>"
  have "failed (end_code ?s) \<and> write_codes ?s = [] \<and>
      inbound ?s = make_greeting False True @ frame_encode hello True False @ frame_encode initiate True False @ []" by simp
  from run [OF this] show ?thesis by blast
qed

theorem curve_only_authorized_witness:
  "\<exists>s z. zmtp_handshake xor_crypto sample_random True (make_stream s sample_context Role_Puller) = (e_success, z) \<and>
    z_secured z \<and> (\<exists>c. z_cipher z = Some c \<and> peer_public c = sample_key 1)"
proof -
  obtain s z where run: "zmtp_handshake xor_crypto sample_random True (make_stream s sample_context Role_Puller) = (e_success, z)"
    using sample_admitted by blast
  from curve_only_authorized [OF _ this] run show ?thesis
    by (auto simp: sample_context_def authorized_def)
qed

theorem curve_stream_admits_witness:
  "\<exists>hello c1 reply initiate c2 ready client server.
    cipher_hello xor_crypto (sample_key 3, sample_key 3) (client_cipher (sample_key 1) (sample_key 1) (sample_key 2)) = (Some hello, c1) \<and>
    cipher_initiate xor_crypto (replicate long_nonce_size 8) reply sample_metadata c1 = (Some initiate, c2) \<and>
    cipher_complete xor_crypto ready c2 = (Some (own_metadata Role_Puller), client) \<and> paired client server \<and>
    peer_public server = sample_key 1"
proof -
  show ?thesis
    using curve_stream_admits [OF xor_box_laws xor_exchange_laws sample_key_pair [of 1] sample_context_facts(7,8) sample_random_ok
        length_replicate sample_context_facts(1,2) sample_type sample_context_facts(6,5), of 8]
    unfolding sample_context_facts(4) by blast
qed

theorem secured_frames_delivered_witness:
  "\<exists>boxed a w. z_async_write xor_crypto (frames_bytes [([1, 2], False, True), ([3], False, False)])
      \<lparr>z_socket = \<lparr>inbound = [], outbound = [], write_codes = [], end_code = e_operation_failed\<rparr>, z_context = sample_context,
       z_role = Role_Puller, z_identity = [], z_cipher = Some (sample_cipher False), z_secured = True\<rparr> = (e_success, w) \<and>
    outbound (z_socket w) = boxed \<and> z_cipher w = Some a"
proof -
  let ?w = "\<lparr>z_socket = \<lparr>inbound = [], outbound = [], write_codes = [], end_code = e_operation_failed\<rparr>, z_context = sample_context,
       z_role = Role_Puller, z_identity = [], z_cipher = Some (sample_cipher False), z_secured = True\<rparr>"
  have "\<exists>boxed a'. z_async_write xor_crypto (frames_bytes [([1, 2], False, True), ([3], False, False)]) ?w =
      (e_success, add_outbound boxed (?w\<lparr>z_cipher := Some a'\<rparr>))"
    using secured_frames_delivered [OF xor_box_laws sample_paired, of "[([1, 2], False, True), ([3], False, False)]" 100 ?w]
    by (auto simp: sample_cipher_def client_cipher_def)
  then show ?thesis by auto
qed

theorem null_handshake_decides_witness:
  "\<exists>z. zmtp_handshake xor_crypto sample_random True
      (make_stream \<lparr>inbound = make_greeting False False @ frame_encode (of_nat (length command_ready) # command_ready @ sample_metadata) True False @ [7],
        outbound = [], write_codes = [], end_code = e_operation_failed\<rparr> empty_context Role_Puller) = (e_success, z) \<and>
    z_inbound z = [7] \<and> outbound (z_socket z) = make_greeting True False @ make_ready Role_Puller"
proof -
  let ?body = "of_nat (length command_ready) # command_ready @ sample_metadata"
  let ?in = "make_greeting False False @ frame_encode ?body True False @ [7]"
  let ?s = "\<lparr>inbound = ?in, outbound = [], write_codes = [], end_code = e_operation_failed\<rparr>"
  have "length ?body = 26" by (simp add: sample_metadata_length)
  then have "null_peer Role_Puller ?in = Some (ready_property (string_bytes ''Identity'') sample_metadata, [7])"
    using parse_make_greeting [of False False] frame_decode_encode [of ?body True False "[7]"]
      command_name_cons [of command_ready sample_metadata] sample_type
    by (simp add: null_peer_def maximum_inbound_def)
  then show ?thesis
    using null_handshake_decides [of ?s empty_context xor_crypto sample_random True Role_Puller]
    by (simp add: empty_context_def make_stream_def)
qed

end
