(* ===== verification/Tls_Codec.thy ===== *)
theory Tls_Codec
  imports Zmtp_Frame
begin

text \<open>
  The TLS presentation language (\<open>src/src/tls/codec.cpp\<close>) and the wire values of TLS 1.3
  (\<open>tls/constants.hpp\<close>). A reader is the bytes left and whether no read has failed; every operation
  returns its value and the reader after it. Writers are the bytes they append. The collection \<open>tls_read\<close> has
  the reads of what the writers wrote.
\<close>

named_theorems tls_read

section \<open>Wire values\<close>

definition legacy_version :: uint16 where "legacy_version = 0x0303"
definition version_13 :: uint16 where "version_13 = 0x0304"
definition record_header_size :: nat where "record_header_size = 5"
definition maximum_plaintext :: nat where "maximum_plaintext = 16384"
definition maximum_ciphertext :: nat where "maximum_ciphertext = maximum_plaintext + 256"

definition content_change_cipher_spec :: byte where "content_change_cipher_spec = 20"
definition content_alert :: byte where "content_alert = 21"
definition content_handshake :: byte where "content_handshake = 22"
definition content_application_data :: byte where "content_application_data = 23"

definition handshake_client_hello :: byte where "handshake_client_hello = 1"
definition handshake_server_hello :: byte where "handshake_server_hello = 2"
definition handshake_encrypted_extensions :: byte where "handshake_encrypted_extensions = 8"
definition handshake_certificate :: byte where "handshake_certificate = 11"
definition handshake_certificate_request :: byte where "handshake_certificate_request = 13"
definition handshake_certificate_verify :: byte where "handshake_certificate_verify = 15"
definition handshake_finished :: byte where "handshake_finished = 20"
definition handshake_key_update :: byte where "handshake_key_update = 24"
definition handshake_message_hash :: byte where "handshake_message_hash = 254"

definition extension_supported_groups :: uint16 where "extension_supported_groups = 10"
definition extension_signature_algorithms :: uint16 where "extension_signature_algorithms = 13"
definition extension_early_data :: uint16 where "extension_early_data = 42"
definition extension_supported_versions :: uint16 where "extension_supported_versions = 43"
definition extension_key_share :: uint16 where "extension_key_share = 51"

definition alert_close_notify :: byte where "alert_close_notify = 0"
definition alert_unexpected_message :: byte where "alert_unexpected_message = 10"
definition alert_bad_record_mac :: byte where "alert_bad_record_mac = 20"
definition alert_record_overflow :: byte where "alert_record_overflow = 22"
definition alert_handshake_failure :: byte where "alert_handshake_failure = 40"
definition alert_bad_certificate :: byte where "alert_bad_certificate = 42"
definition alert_certificate_expired :: byte where "alert_certificate_expired = 45"
definition alert_illegal_parameter :: byte where "alert_illegal_parameter = 47"
definition alert_unknown_ca :: byte where "alert_unknown_ca = 48"
definition alert_decode_error :: byte where "alert_decode_error = 50"
definition alert_decrypt_error :: byte where "alert_decrypt_error = 51"
definition alert_protocol_version :: byte where "alert_protocol_version = 70"
definition alert_user_canceled :: byte where "alert_user_canceled = 90"
definition alert_missing_extension :: byte where "alert_missing_extension = 109"
definition alert_certificate_required :: byte where "alert_certificate_required = 116"
definition alert_warning :: byte where "alert_warning = 1"
definition alert_fatal :: byte where "alert_fatal = 2"

definition aes_128_gcm_sha256 :: uint16 where "aes_128_gcm_sha256 = 0x1301"
definition aes_256_gcm_sha384 :: uint16 where "aes_256_gcm_sha384 = 0x1302"
definition chacha20_poly1305_sha256 :: uint16 where "chacha20_poly1305_sha256 = 0x1303"
definition secp256r1_group :: uint16 where "secp256r1_group = 0x0017"
definition secp384r1_group :: uint16 where "secp384r1_group = 0x0018"
definition x25519_group :: uint16 where "x25519_group = 0x001d"
definition ecdsa_secp256r1_sha256 :: uint16 where "ecdsa_secp256r1_sha256 = 0x0403"
definition ecdsa_secp384r1_sha384 :: uint16 where "ecdsa_secp384r1_sha384 = 0x0503"

definition retry_random :: bytes where
  "retry_random =
    [0xcf, 0x21, 0xad, 0x74, 0xe5, 0x9a, 0x61, 0x11, 0xbe, 0x1d, 0x8c, 0x02, 0x1e, 0x65, 0xb8, 0x91,
     0xc2, 0xa2, 0x11, 0x16, 0x7a, 0xbb, 0x8c, 0x5e, 0x07, 0x9e, 0x09, 0xe2, 0xc8, 0xa8, 0x33, 0x9c]"

lemmas content_types = content_change_cipher_spec_def content_alert_def content_handshake_def content_application_data_def
lemmas record_sizes = record_header_size_def maximum_plaintext_def maximum_ciphertext_def

section \<open>Reader\<close>

record tls_reader =
  tr_data :: bytes
  tr_valid :: bool

definition make_reader :: "bytes \<Rightarrow> tls_reader" where
  "make_reader data = \<lparr>tr_data = data, tr_valid = True\<rparr>"

definition reader_complete :: "tls_reader \<Rightarrow> bool" where
  "reader_complete r \<longleftrightarrow> tr_valid r \<and> tr_data r = []"

definition reader_invalidate :: "tls_reader \<Rightarrow> tls_reader" where
  "reader_invalidate r = r\<lparr>tr_valid := False, tr_data := []\<rparr>"

definition read_span :: "nat \<Rightarrow> tls_reader \<Rightarrow> bytes \<times> tls_reader" where
  "read_span n r =
    (if \<not> tr_valid r \<or> length (tr_data r) < n then ([], reader_invalidate r)
     else (take n (tr_data r), r\<lparr>tr_data := drop n (tr_data r)\<rparr>))"

definition read_8 :: "tls_reader \<Rightarrow> byte \<times> tls_reader" where
  "read_8 r = (case read_span 1 r of (bs, r) \<Rightarrow> (if bs = [] then 0 else hd bs, r))"

definition read_16 :: "tls_reader \<Rightarrow> uint16 \<times> tls_reader" where
  "read_16 r = (case read_span 2 r of (bs, r) \<Rightarrow>
     (if bs = [] then 0 else push_bit 8 (ucast (bs ! 0)) OR ucast (bs ! 1), r))"

definition read_24 :: "tls_reader \<Rightarrow> uint32 \<times> tls_reader" where
  "read_24 r = (case read_span 3 r of (bs, r) \<Rightarrow> (be_accumulate 0 bs, r))"

definition read_vector_8 :: "tls_reader \<Rightarrow> bytes \<times> tls_reader" where
  "read_vector_8 r = (case read_8 r of (n, r) \<Rightarrow> if tr_valid r then read_span (unat n) r else ([], r))"

definition read_vector_16 :: "tls_reader \<Rightarrow> bytes \<times> tls_reader" where
  "read_vector_16 r = (case read_16 r of (n, r) \<Rightarrow> if tr_valid r then read_span (unat n) r else ([], r))"

definition read_vector_24 :: "tls_reader \<Rightarrow> bytes \<times> tls_reader" where
  "read_vector_24 r = (case read_24 r of (n, r) \<Rightarrow> if tr_valid r then read_span (unat n) r else ([], r))"

text \<open>The loop over a list: its values, and the reader of the list after the last.\<close>

function read_words :: "tls_reader \<Rightarrow> uint16 list \<times> tls_reader" where
  "read_words r =
    (if tr_valid r \<and> tr_data r \<noteq> [] then
       (case read_16 r of (w, r') \<Rightarrow> (case read_words r' of (ws, r'') \<Rightarrow> (w # ws, r'')))
     else ([], r))"
  by pat_completeness auto
termination
  by (relation "measure (length \<circ> tr_data)")
    (auto simp: read_16_def read_span_def reader_invalidate_def split: if_splits)

declare read_words.simps [simp del]

definition read_list :: "bytes \<Rightarrow> tls_reader \<Rightarrow> uint16 list \<times> tls_reader" where
  "read_list bs r =
    (if \<not> tr_valid r then ([], r)
     else (case read_words (make_reader bs) of (ws, list) \<Rightarrow>
       if tr_valid list then (ws, r) else ([], reader_invalidate r)))"

definition read_list_8 :: "tls_reader \<Rightarrow> uint16 list \<times> tls_reader" where
  "read_list_8 r = (case read_vector_8 r of (bs, r) \<Rightarrow> read_list bs r)"

definition read_list_16 :: "tls_reader \<Rightarrow> uint16 list \<times> tls_reader" where
  "read_list_16 r = (case read_vector_16 r of (bs, r) \<Rightarrow> read_list bs r)"

section \<open>Writer\<close>

definition be_bytes24 :: "uint32 \<Rightarrow> bytes" where
  "be_bytes24 v = [ucast (drop_bit 16 v), ucast (drop_bit 8 v), ucast v]"

definition vector_8 :: "bytes \<Rightarrow> bytes" where "vector_8 bs = of_nat (length bs) # bs"
definition vector_16 :: "bytes \<Rightarrow> bytes" where "vector_16 bs = be_bytes16 (of_nat (length bs)) @ bs"
definition vector_24 :: "bytes \<Rightarrow> bytes" where "vector_24 bs = be_bytes24 (of_nat (length bs)) @ bs"

lemma length_vectors [simp]:
  "length (vector_8 bs) = length bs + 1" "length (vector_16 bs) = length bs + 2" "length (vector_24 bs) = length bs + 3"
  "length (be_bytes24 v) = 3"
  by (simp_all add: vector_8_def vector_16_def vector_24_def be_bytes24_def)

section \<open>Reads of what was written\<close>

lemma be_accumulate24:
  assumes "v < 2 ^ 24"
  shows "be_accumulate (0 :: uint32) (be_bytes24 v) = v"
proof -
  have step: "push_bit 8 (drop_bit (n + 8) v) OR ucast (ucast (drop_bit n v) :: byte) = drop_bit n v" for n
    by (rule bit_word_eqI) (auto simp: bit_simps)
  have "unat v < 2 ^ 24" using assms by (simp add: word_less_nat_alt)
  then have "take_bit 24 (unat v) = unat v" by (simp add: take_bit_nat_eq_self)
  then have "bit (unat v) n \<Longrightarrow> n < 24" for n by (metis bit_take_bit_iff)
  then have top: "bit v n \<Longrightarrow> n < 24" for n by (simp add: bit_unsigned_iff)
  have "ucast (ucast (drop_bit 16 v) :: byte) = drop_bit 16 v"
    by (rule bit_word_eqI) (auto simp: bit_simps dest: top)
  with step [of 8] step [of 0] show ?thesis by (simp add: be_bytes24_def)
qed

lemma read_span_make [tls_read]:
  "n = length xs \<Longrightarrow> read_span n (make_reader (xs @ rest)) = (xs, make_reader rest)"
  by (simp add: read_span_def make_reader_def)

lemma read_8_make [tls_read]: "read_8 (make_reader (b # rest)) = (b, make_reader rest)"
  using read_span_make [of 1 "[b]" rest] by (simp add: read_8_def)

lemma read_16_make [tls_read]: "read_16 (make_reader (be_bytes16 w @ rest)) = (w, make_reader rest)"
proof -
  have "push_bit 8 (ucast (ucast (drop_bit 8 w) :: byte)) OR ucast (ucast w :: byte) = w"
    by (rule bit_word_eqI) (auto simp: bit_simps)
  then show ?thesis
    using read_span_make [of 2 "be_bytes16 w" rest] by (simp add: read_16_def) (simp add: be_bytes16_def)
qed

lemma read_24_make [tls_read]: "v < 2 ^ 24 \<Longrightarrow> read_24 (make_reader (be_bytes24 v @ rest)) = (v, make_reader rest)"
  using read_span_make [of 3 "be_bytes24 v" rest] by (simp add: read_24_def be_accumulate24)

lemma make_reader_valid [simp]: "tr_valid (make_reader bs)" "tr_data (make_reader bs) = bs"
  by (simp_all add: make_reader_def)

lemma unat_of_nat_16: "n < 2 ^ 16 \<Longrightarrow> unat (of_nat n :: uint16) = n"
  by (simp add: unat_of_nat)

lemma read_vector_8_make [tls_read]:
  "length bs < 2 ^ 8 \<Longrightarrow> read_vector_8 (make_reader (vector_8 bs @ rest)) = (bs, make_reader rest)"
  by (simp add: read_vector_8_def vector_8_def read_8_make unat_of_nat_byte read_span_make)

lemma read_vector_16_make [tls_read]:
  "length bs < 2 ^ 16 \<Longrightarrow> read_vector_16 (make_reader (vector_16 bs @ rest)) = (bs, make_reader rest)"
  by (simp add: read_vector_16_def vector_16_def read_16_make unat_of_nat_16 read_span_make)

lemma read_vector_24_make [tls_read]:
  assumes "length bs < 2 ^ 24"
  shows "read_vector_24 (make_reader (vector_24 bs @ rest)) = (bs, make_reader rest)"
proof -
  have n: "unat (of_nat (length bs) :: uint32) = length bs" using assms by (intro unat_of_nat_32) simp
  then have "(of_nat (length bs) :: uint32) < 2 ^ 24" using assms by (simp add: word_less_nat_alt)
  with n show ?thesis by (simp add: read_vector_24_def vector_24_def read_24_make read_span_make)
qed

lemma read_words_make:
  "read_words (make_reader (concat (map be_bytes16 ws))) = (ws, make_reader [])"
proof (induction ws)
  case (Cons w ws)
  have "be_bytes16 w \<noteq> []" by (simp add: be_bytes16_def)
  with Cons show ?case by (subst read_words.simps) (simp add: read_16_make)
qed (simp add: read_words.simps)

definition list_8 :: "uint16 list \<Rightarrow> bytes" where "list_8 ws = vector_8 (concat (map be_bytes16 ws))"
definition list_16 :: "uint16 list \<Rightarrow> bytes" where "list_16 ws = vector_16 (concat (map be_bytes16 ws))"

lemma length_words: "length (concat (map be_bytes16 ws)) = 2 * length ws"
  by (induction ws) simp_all

lemma read_list_8_make [tls_read]:
  "length ws < 2 ^ 7 \<Longrightarrow> read_list_8 (make_reader (list_8 ws @ rest)) = (ws, make_reader rest)"
  by (simp add: read_list_8_def list_8_def read_vector_8_make length_words read_list_def read_words_make)

lemma read_list_16_make [tls_read]:
  "length ws < 2 ^ 15 \<Longrightarrow> read_list_16 (make_reader (list_16 ws @ rest)) = (ws, make_reader rest)"
  by (simp add: read_list_16_def list_16_def read_vector_16_make length_words read_list_def read_words_make)

text \<open>A failed read leaves nothing: all later reads are empty and the reader stays invalid.\<close>

lemma read_span_sound:
  assumes "read_span n r = (bs, r')"
  shows "tr_valid r' \<Longrightarrow> tr_valid r \<and> tr_data r = bs @ tr_data r' \<and> length bs = n"
    "\<not> tr_valid r' \<Longrightarrow> bs = [] \<and> tr_data r' = []"
  using assms by (auto simp: read_span_def reader_invalidate_def split: if_splits)

end
