(* ===== verification/Tls_Record.thy ===== *)
theory Tls_Record
  imports Tls_Codec
begin

text \<open>
  The key schedule, the transcript and the record protection of TLS 1.3 (\<open>src/src/tls/schedule.cpp\<close>,
  \<open>tls/record.cpp\<close>). The primitives of the system library are the parameter \<open>tls_crypto\<close>: a hash and
  the functions over it are selected by whether the suite uses SHA-384, an authenticated cipher by its suite.
  \<open>open_sealed\<close>: the side with the same keys and sequence opens what was sealed;
  \<open>record_nonce_inj\<close>: no two sequence numbers give the same nonce under one secret.
\<close>

section \<open>Primitives\<close>

datatype x509_curve = Curve_Secp256r1 | Curve_Secp384r1 | Curve_Other

record x509_certificate =
  cert_curve :: x509_curve
  cert_public_key :: bytes

datatype x509_code = X509_Success | X509_Expired | X509_Not_Yet_Valid | X509_Chain_Untrusted | X509_Other

record tls_crypto =
  hash_of :: "bool \<Rightarrow> bytes \<Rightarrow> bytes"
  hmac_code :: "bool \<Rightarrow> bytes \<Rightarrow> bytes \<Rightarrow> bytes"
  hkdf_extract :: "bool \<Rightarrow> bytes \<Rightarrow> bytes \<Rightarrow> bytes"
  hkdf_expand :: "bool \<Rightarrow> bytes \<Rightarrow> bytes \<Rightarrow> nat \<Rightarrow> bytes"
  aead_encrypt :: "uint16 \<Rightarrow> bytes \<Rightarrow> bytes \<Rightarrow> bytes \<Rightarrow> bytes \<Rightarrow> bytes"
  aead_decrypt :: "uint16 \<Rightarrow> bytes \<Rightarrow> bytes \<Rightarrow> bytes \<Rightarrow> bytes \<Rightarrow> bytes option"
  x25519_public :: "bytes \<Rightarrow> bytes"
  x25519_multiply :: "bytes \<Rightarrow> bytes \<Rightarrow> bytes option"
  nist_public :: "bool \<Rightarrow> bytes \<Rightarrow> bytes option"
  nist_agree :: "bool \<Rightarrow> bytes \<Rightarrow> bytes \<Rightarrow> bytes option"
  ecdsa_sign :: "bool \<Rightarrow> bytes \<Rightarrow> bytes \<Rightarrow> bytes"
  ecdsa_decode :: "bool \<Rightarrow> bytes \<Rightarrow> bytes option"
  ecdsa_verify :: "bool \<Rightarrow> bytes \<Rightarrow> bytes \<Rightarrow> bytes \<Rightarrow> bool"
  x509_parse :: "bytes \<Rightarrow> x509_certificate option"
  x509_verify :: "x509_certificate list \<Rightarrow> x509_certificate list \<Rightarrow> uint64 \<Rightarrow> x509_code"

section \<open>Key schedule\<close>

definition aes128_key_size :: nat where "aes128_key_size = 16"
definition aes256_key_size :: nat where "aes256_key_size = 32"
definition chacha_key_size :: nat where "chacha_key_size = 32"
definition iv_size :: nat where "iv_size = 12"
definition aead_tag_size :: nat where "aead_tag_size = 16"

definition is_sha384 :: "uint16 \<Rightarrow> bool" where
  "is_sha384 suite \<longleftrightarrow> suite = aes_256_gcm_sha384"

definition schedule_size :: "uint16 \<Rightarrow> nat" where
  "schedule_size suite = (if is_sha384 suite then 48 else 32)"

definition schedule_hash :: "tls_crypto \<Rightarrow> uint16 \<Rightarrow> bytes \<Rightarrow> bytes" where
  "schedule_hash cr suite data = hash_of cr (is_sha384 suite) data"

definition make_label :: "nat \<Rightarrow> string \<Rightarrow> bytes \<Rightarrow> bytes" where
  "make_label n label ctx = be_bytes16 (of_nat n) @ vector_8 (string_bytes (''tls13 '' @ label)) @ vector_8 ctx"

definition schedule_extract :: "tls_crypto \<Rightarrow> uint16 \<Rightarrow> bytes \<Rightarrow> bytes \<Rightarrow> bytes" where
  "schedule_extract cr suite salt material = hkdf_extract cr (is_sha384 suite) salt material"

definition expand_sized :: "tls_crypto \<Rightarrow> uint16 \<Rightarrow> nat \<Rightarrow> bytes \<Rightarrow> string \<Rightarrow> bytes \<Rightarrow> bytes" where
  "expand_sized cr suite n key label ctx = hkdf_expand cr (is_sha384 suite) key (make_label n label ctx) n"

definition expand_label :: "tls_crypto \<Rightarrow> uint16 \<Rightarrow> bytes \<Rightarrow> string \<Rightarrow> bytes \<Rightarrow> bytes" where
  "expand_label cr suite key label ctx = expand_sized cr suite (schedule_size suite) key label ctx"

definition derive_secret :: "tls_crypto \<Rightarrow> uint16 \<Rightarrow> bytes \<Rightarrow> string \<Rightarrow> bytes \<Rightarrow> bytes" where
  "derive_secret cr suite key label digest = expand_label cr suite key label digest"

definition early_secret :: "tls_crypto \<Rightarrow> uint16 \<Rightarrow> bytes" where
  "early_secret cr suite =
    schedule_extract cr suite (replicate (schedule_size suite) 0) (replicate (schedule_size suite) 0)"

definition handshake_secret :: "tls_crypto \<Rightarrow> uint16 \<Rightarrow> bytes \<Rightarrow> bytes \<Rightarrow> bytes" where
  "handshake_secret cr suite early shared =
    schedule_extract cr suite (derive_secret cr suite early ''derived'' (schedule_hash cr suite [])) shared"

definition master_secret :: "tls_crypto \<Rightarrow> uint16 \<Rightarrow> bytes \<Rightarrow> bytes" where
  "master_secret cr suite hs =
    schedule_extract cr suite (derive_secret cr suite hs ''derived'' (schedule_hash cr suite []))
      (replicate (schedule_size suite) 0)"

definition traffic_key :: "tls_crypto \<Rightarrow> uint16 \<Rightarrow> bytes \<Rightarrow> bytes" where
  "traffic_key cr suite traffic =
    (if is_sha384 suite then expand_sized cr suite aes256_key_size traffic ''key'' []
     else if suite = aes_128_gcm_sha256 then expand_sized cr suite aes128_key_size traffic ''key'' []
     else expand_sized cr suite chacha_key_size traffic ''key'' [])"

definition traffic_iv :: "tls_crypto \<Rightarrow> uint16 \<Rightarrow> bytes \<Rightarrow> bytes" where
  "traffic_iv cr suite traffic = expand_sized cr suite iv_size traffic ''iv'' []"

definition finished_data :: "tls_crypto \<Rightarrow> uint16 \<Rightarrow> bytes \<Rightarrow> bytes \<Rightarrow> bytes" where
  "finished_data cr suite traffic digest =
    hmac_code cr (is_sha384 suite) (expand_label cr suite traffic ''finished'' []) digest"

definition update_secret :: "tls_crypto \<Rightarrow> uint16 \<Rightarrow> bytes \<Rightarrow> bytes" where
  "update_secret cr suite traffic = expand_label cr suite traffic ''traffic upd'' []"

section \<open>Transcript\<close>

record tls_transcript =
  ts_sha384 :: bool
  ts_written :: bytes

definition transcript_init :: tls_transcript where
  "transcript_init = \<lparr>ts_sha384 = False, ts_written = []\<rparr>"

definition transcript_reset :: "uint16 \<Rightarrow> tls_transcript" where
  "transcript_reset suite = \<lparr>ts_sha384 = (suite = aes_256_gcm_sha384), ts_written = []\<rparr>"

definition transcript_write :: "bytes \<Rightarrow> tls_transcript \<Rightarrow> tls_transcript" where
  "transcript_write message t = t\<lparr>ts_written := ts_written t @ message\<rparr>"

definition transcript_hash :: "tls_crypto \<Rightarrow> tls_transcript \<Rightarrow> bytes" where
  "transcript_hash cr t = hash_of cr (ts_sha384 t) (ts_written t)"

section \<open>Record protection\<close>

text \<open>The cipher of a direction is its suite and key, none before keys are set.\<close>

record tls_record =
  rp_cipher :: "(uint16 \<times> bytes) option"
  rp_iv :: bytes
  rp_sequence :: uint64

definition record_init :: tls_record where
  "record_init = \<lparr>rp_cipher = None, rp_iv = replicate iv_size 0, rp_sequence = 0\<rparr>"

definition record_set_secret :: "tls_crypto \<Rightarrow> uint16 \<Rightarrow> bytes \<Rightarrow> tls_record \<Rightarrow> tls_record" where
  "record_set_secret cr suite traffic r =
    r\<lparr>rp_sequence := 0, rp_iv := traffic_iv cr suite traffic, rp_cipher := Some (suite, traffic_key cr suite traffic)\<rparr>"

definition is_protected :: "tls_record \<Rightarrow> bool" where
  "is_protected r \<longleftrightarrow> rp_cipher r \<noteq> None"

definition record_nonce :: "bytes \<Rightarrow> uint64 \<Rightarrow> bytes" where
  "record_nonce iv sequence =
    take (length iv - 8) iv @ map2 (XOR) (drop (length iv - 8) iv) (be_bytes64 sequence)"

definition next_nonce :: "tls_record \<Rightarrow> bytes \<times> tls_record" where
  "next_nonce r = (record_nonce (rp_iv r) (rp_sequence r), r\<lparr>rp_sequence := rp_sequence r + 1\<rparr>)"

definition protected_header :: "nat \<Rightarrow> bytes" where
  "protected_header n = content_application_data # be_bytes16 legacy_version @ be_bytes16 (of_nat n)"

text \<open>The bytes appended to the output.\<close>

definition record_seal :: "tls_crypto \<Rightarrow> byte \<Rightarrow> bytes \<Rightarrow> tls_record \<Rightarrow> bytes \<times> tls_record" where
  "record_seal cr type content r =
    (case rp_cipher r of
       None \<Rightarrow> (type # be_bytes16 legacy_version @ vector_16 content, r)
     | Some (suite, key) \<Rightarrow>
         let n = length content + 1 + aead_tag_size; header = protected_header n; (nonce, r) = next_nonce r
         in (header @ aead_encrypt cr suite key nonce header (content @ [type]), r))"

text \<open>The inner type and content; type zero when there is none.\<close>

definition inner_content :: "bytes \<Rightarrow> byte \<times> bytes" where
  "inner_content plain =
    (case dropWhile (\<lambda>b. b = 0) (rev plain) of [] \<Rightarrow> (0, []) | type # content \<Rightarrow> (type, rev content))"

definition record_open :: "tls_crypto \<Rightarrow> bytes \<Rightarrow> bytes \<Rightarrow> tls_record \<Rightarrow> (byte \<times> bytes) option \<times> tls_record" where
  "record_open cr header fragment r =
    (if length fragment \<le> aead_tag_size then (None, r)
     else
       let (nonce, r) = next_nonce r in
       (case rp_cipher r of
          None \<Rightarrow> (None, r)
        | Some (suite, key) \<Rightarrow>
            (case aead_decrypt cr suite key nonce header fragment of
               None \<Rightarrow> (None, r)
             | Some plain \<Rightarrow> (Some (inner_content plain), r))))"

section \<open>What is relied on of the cipher\<close>

definition aead_laws :: "tls_crypto \<Rightarrow> bool" where
  "aead_laws cr \<longleftrightarrow>
    (\<forall>suite key nonce aad p. aead_decrypt cr suite key nonce aad (aead_encrypt cr suite key nonce aad p) = Some p) \<and>
    (\<forall>suite key nonce aad p. length (aead_encrypt cr suite key nonce aad p) = length p + aead_tag_size) \<and>
    (\<forall>suite key nonce aad x p. aead_decrypt cr suite key nonce aad x = Some p \<longrightarrow> x = aead_encrypt cr suite key nonce aad p)"

lemma aead_lawsD:
  assumes "aead_laws cr"
  shows "aead_decrypt cr suite key nonce aad (aead_encrypt cr suite key nonce aad p) = Some p"
    "length (aead_encrypt cr suite key nonce aad p) = length p + aead_tag_size"
    "aead_decrypt cr suite key nonce aad x = Some p \<Longrightarrow> x = aead_encrypt cr suite key nonce aad p"
  using assms unfolding aead_laws_def by blast+

lemma length_protected_header [simp]: "length (protected_header n) = record_header_size"
  by (simp add: protected_header_def record_header_size_def)

lemma inner_content_snoc: "type \<noteq> 0 \<Longrightarrow> inner_content (content @ [type]) = (type, content)"
  by (simp add: inner_content_def)

text \<open>Opening a sealed record, by the record with the same keys and sequence.\<close>

lemma open_sealed:
  assumes "aead_laws cr" "is_protected r" "type \<noteq> 0"
  obtains fragment where "fst (record_seal cr type content r) = protected_header (length fragment) @ fragment"
    "record_open cr (protected_header (length fragment)) fragment r = (Some (type, content), snd (record_seal cr type content r))"
    "length fragment = length content + 1 + aead_tag_size"
proof -
  obtain suite key where c: "rp_cipher r = Some (suite, key)" using assms(2) by (auto simp: is_protected_def)
  let ?n = "length content + 1 + aead_tag_size"
  let ?f = "aead_encrypt cr suite key (record_nonce (rp_iv r) (rp_sequence r)) (protected_header ?n) (content @ [type])"
  have len: "length ?f = ?n" using aead_lawsD(2) [OF assms(1)] by simp
  show thesis
  proof
    show "fst (record_seal cr type content r) = protected_header (length ?f) @ ?f"
      unfolding len by (simp add: record_seal_def c next_nonce_def Let_def)
    show "record_open cr (protected_header (length ?f)) ?f r = (Some (type, content), snd (record_seal cr type content r))"
      unfolding len using len assms(3)
      by (simp add: record_open_def c next_nonce_def Let_def record_seal_def aead_lawsD(1) [OF assms(1)] inner_content_snoc)
    show "length ?f = ?n" by (rule len)
  qed
qed

section \<open>Nonces\<close>

lemma map2_xor_inj:
  fixes xs :: bytes
  assumes "length xs = length ys" "length ys = length zs" "map2 (XOR) xs ys = map2 (XOR) xs zs"
  shows "ys = zs"
proof (rule nth_equalityI)
  show "length ys = length zs" by (rule assms(2))
  fix i assume "i < length ys"
  then have "xs ! i XOR ys ! i = xs ! i XOR zs ! i"
    using assms(1,2) arg_cong [OF assms(3), of "\<lambda>l. l ! i"] by simp
  then have "xs ! i XOR (xs ! i XOR ys ! i) = xs ! i XOR (xs ! i XOR zs ! i)" by simp
  then show "ys ! i = zs ! i" by (simp flip: xor.assoc)
qed

lemma record_nonce_inj:
  assumes "8 \<le> length iv" "record_nonce iv a = record_nonce iv b"
  shows "a = b"
proof -
  have "map2 (XOR) (drop (length iv - 8) iv) (be_bytes64 a) = map2 (XOR) (drop (length iv - 8) iv) (be_bytes64 b)"
    using assms(2) by (simp add: record_nonce_def)
  then have "be_bytes64 a = be_bytes64 b"
    by (rule map2_xor_inj [rotated 2]) (use assms(1) in simp_all)
  then show ?thesis by (metis be_accumulate64)
qed

end
