(* ===== verification/Tls_Server.thy ===== *)
theory Tls_Server
  imports Tls_Record
begin

text \<open>
  The server side of a TLS 1.3 connection (\<open>src/src/tls/server.cpp\<close>, \<open>tls/context.cpp\<close>): transport bytes
  in, transport bytes and application bytes out. Every handler is a function from the state to its result (false
  once the connection failed) and the new state. The random values of a connection are fields of the state.
\<close>

section \<open>Context\<close>

record tls_context =
  tc_chain :: "bytes list"
  tc_key :: bytes
  tc_key384 :: bytes
  tc_curve :: x509_curve
  tc_public_key :: bytes
  tc_anchors :: "x509_certificate list"
  tc_has_key :: bool
  tc_time :: uint64
  tc_request :: bool
  tc_require :: bool

definition tls_context_init :: tls_context where
  "tls_context_init = \<lparr>tc_chain = [], tc_key = replicate 32 0, tc_key384 = replicate 48 0, tc_curve = Curve_Secp256r1,
     tc_public_key = [], tc_anchors = [], tc_has_key = False, tc_time = 0, tc_request = False, tc_require = False\<rparr>"

text \<open>A key or chain set alone matches, the pair must share the public key.\<close>

definition context_matches :: "tls_crypto \<Rightarrow> tls_context \<Rightarrow> bool" where
  "context_matches cr ctx \<longleftrightarrow>
    \<not> tc_has_key ctx \<or> tc_public_key ctx = [] \<or>
    (if tc_curve ctx = Curve_Secp256r1 then nist_public cr False (tc_key ctx) = Some (tc_public_key ctx)
     else nist_public cr True (tc_key384 ctx) = Some (tc_public_key ctx))"

text \<open>The certificates that the parser read of the text with their encodings (None when malformed).\<close>

definition set_chain :: "tls_crypto \<Rightarrow> (x509_certificate \<times> bytes) list option \<Rightarrow> tls_context \<Rightarrow> bool \<times> tls_context" where
  "set_chain cr parsed ctx =
    (case parsed of
       None \<Rightarrow> (False, ctx)
     | Some certificates \<Rightarrow>
         let ctx = ctx\<lparr>tc_chain := map snd certificates, tc_public_key := cert_public_key (fst (hd certificates))\<rparr> in
         if \<not> context_matches cr ctx then (False, ctx\<lparr>tc_chain := [], tc_public_key := []\<rparr>) else (True, ctx))"

text \<open>The key that the decoder read of the text for either curve.\<close>

definition set_key :: "tls_crypto \<Rightarrow> bytes option \<Rightarrow> bytes option \<Rightarrow> tls_context \<Rightarrow> bool \<times> tls_context" where
  "set_key cr decoded256 decoded384 ctx =
    (case (decoded256, decoded384) of
       (None, None) \<Rightarrow> (False, ctx)
     | _ \<Rightarrow>
         let new = ctx\<lparr>tc_key := (case decoded256 of Some k \<Rightarrow> k | None \<Rightarrow> replicate 32 0),
               tc_key384 := (case decoded256 of Some _ \<Rightarrow> replicate 48 0 | None \<Rightarrow> the decoded384),
               tc_curve := (if decoded256 \<noteq> None then Curve_Secp256r1 else Curve_Secp384r1), tc_has_key := True\<rparr>
         in if context_matches cr new then (True, new) else (False, ctx\<lparr>tc_has_key := False\<rparr>))"

definition add_anchors :: "x509_certificate list option \<Rightarrow> tls_context \<Rightarrow> bool \<times> tls_context" where
  "add_anchors parsed ctx =
    (case parsed of None \<Rightarrow> (False, ctx) | Some certificates \<Rightarrow> (True, ctx\<lparr>tc_anchors := tc_anchors ctx @ certificates\<rparr>))"

definition set_verify :: "bool \<Rightarrow> bool \<Rightarrow> tls_context \<Rightarrow> tls_context" where
  "set_verify request require ctx = ctx\<lparr>tc_request := request, tc_require := request \<and> require\<rparr>"

definition context_is_ready :: "tls_context \<Rightarrow> bool" where
  "context_is_ready ctx \<longleftrightarrow> tc_has_key ctx \<and> tc_chain ctx \<noteq> []"

lemma set_verify_consistent: "tc_require (set_verify request require ctx) \<longrightarrow> tc_request (set_verify request require ctx)"
  by (simp add: set_verify_def)

text \<open>
  A key that does not match the chain leaves the previous key in place, but the context no longer has a key, so that
  one that was ready no longer is.
\<close>

lemma set_key_forgets:
  assumes "context_is_ready ctx" "decoded256 \<noteq> None \<or> decoded384 \<noteq> None" "\<not> fst (set_key cr decoded256 decoded384 ctx)"
  shows "snd (set_key cr decoded256 decoded384 ctx) = ctx\<lparr>tc_has_key := False\<rparr> \<and>
    \<not> context_is_ready (snd (set_key cr decoded256 decoded384 ctx))"
  using assms by (auto simp: set_key_def context_is_ready_def Let_def split: option.splits if_splits)

text \<open>The time of verification: the fixed one, or the clock.\<close>

definition context_time :: "uint64 \<Rightarrow> tls_context \<Rightarrow> uint64" where
  "context_time clock ctx = (if tc_time ctx \<noteq> 0 then tc_time ctx else clock)"

section \<open>State\<close>

datatype tls_state = Client_Hello | Retry_Hello | Client_Certificate | Client_Certificate_Verify | Client_Finished
  | Established | Tls_Failed

record tls_server =
  sv_context :: tls_context
  sv_random :: bytes
  sv_secret :: bytes
  sv_generated :: bytes
  sv_clock :: uint64
  sv_state :: tls_state
  sv_suite :: uint16
  sv_group :: uint16
  sv_failure :: byte
  sv_failure_received :: bool
  sv_closed :: bool
  sv_close_sent :: bool
  sv_compatibility_sent :: bool
  sv_epoch :: nat
  sv_peer :: "x509_certificate list"
  sv_input :: bytes
  sv_handshake :: bytes
  sv_application :: bytes
  sv_output :: bytes
  sv_send :: tls_record
  sv_receive :: tls_record
  sv_transcript :: tls_transcript
  sv_handshake_secret :: bytes
  sv_client_handshake :: bytes
  sv_server_handshake :: bytes
  sv_client_traffic :: bytes
  sv_server_traffic :: bytes

text \<open>The randoms of a connection: the server random, the x25519 secret, the generated secret, and the clock.\<close>

definition make_server :: "tls_context \<Rightarrow> bytes \<Rightarrow> bytes \<Rightarrow> bytes \<Rightarrow> uint64 \<Rightarrow> tls_server" where
  "make_server ctx random ephemeral generated clock =
    \<lparr>sv_context = ctx, sv_random = random, sv_secret = ephemeral, sv_generated = generated, sv_clock = clock,
     sv_state = Client_Hello, sv_suite = 0, sv_group = 0, sv_failure = 0, sv_failure_received = False, sv_closed = False,
     sv_close_sent = False, sv_compatibility_sent = False, sv_epoch = 0, sv_peer = [], sv_input = [], sv_handshake = [],
     sv_application = [], sv_output = [], sv_send = record_init, sv_receive = record_init, sv_transcript = transcript_init,
     sv_handshake_secret = [], sv_client_handshake = [], sv_server_handshake = [], sv_client_traffic = [], sv_server_traffic = []\<rparr>"

definition is_established :: "tls_server \<Rightarrow> bool" where
  "is_established s \<longleftrightarrow> sv_state s = Established"

definition is_failed :: "tls_server \<Rightarrow> bool" where
  "is_failed s \<longleftrightarrow> sv_state s = Tls_Failed"

section \<open>Helpers\<close>

definition maximum_message :: nat where "maximum_message = 131072"
definition message_header_size :: nat where "message_header_size = 4"
definition maximum_records :: uint64 where "maximum_records = 16777216"
definition update_requested :: byte where "update_requested = 1"
definition update_not_requested :: byte where "update_not_requested = 0"
definition compatibility_payload :: byte where "compatibility_payload = 0x01"
definition server_verify :: string where "server_verify = ''TLS 1.3, server CertificateVerify''"
definition client_verify :: string where "client_verify = ''TLS 1.3, client CertificateVerify''"

definition preferred_suites :: "uint16 list" where
  "preferred_suites = [aes_128_gcm_sha256, aes_256_gcm_sha384, chacha20_poly1305_sha256]"

definition preferred_groups :: "uint16 list" where
  "preferred_groups = [x25519_group, secp256r1_group, secp384r1_group]"

text \<open>A nonempty list that fills the extension body.\<close>

definition to_list :: "bytes \<Rightarrow> bool \<Rightarrow> uint16 list option" where
  "to_list body narrow =
    (case (if narrow then read_list_8 else read_list_16) (make_reader body) of
       (ws, source) \<Rightarrow> if reader_complete source \<and> ws \<noteq> [] then Some ws else None)"

definition make_message :: "byte \<Rightarrow> bytes \<Rightarrow> bytes" where
  "make_message type body = type # vector_24 body"

definition verify_content :: "string \<Rightarrow> bytes \<Rightarrow> bytes" where
  "verify_content label digest = replicate 64 0x20 @ string_bytes label @ [0] @ digest"

definition to_alert :: "x509_code \<Rightarrow> byte" where
  "to_alert ec =
    (if ec = X509_Expired \<or> ec = X509_Not_Yet_Valid then alert_certificate_expired
     else if ec = X509_Chain_Untrusted then alert_unknown_ca else alert_bad_certificate)"

text \<open>The size of an uncompressed point of the two curves.\<close>

definition point_size :: "bool \<Rightarrow> nat" where
  "point_size wide = (if wide then 97 else 65)"

definition verify_signature :: "tls_crypto \<Rightarrow> bool \<Rightarrow> bytes \<Rightarrow> bytes \<Rightarrow> bytes \<Rightarrow> bool" where
  "verify_signature cr wide key der digest \<longleftrightarrow>
    length key = point_size wide \<and>
    (case ecdsa_decode cr wide der of None \<Rightarrow> False | Some signature \<Rightarrow> ecdsa_verify cr wide signature key digest)"

text \<open>The shared secret and own share of an ephemeral key.\<close>

definition nist_exchange :: "tls_crypto \<Rightarrow> bool \<Rightarrow> bytes \<Rightarrow> bytes \<Rightarrow> (bytes \<times> bytes) option" where
  "nist_exchange cr wide secret share =
    (if length share \<noteq> point_size wide then None
     else case (nist_public cr wide secret, nist_agree cr wide secret share) of
         (Some point, Some shared) \<Rightarrow> Some (shared, point)
       | _ \<Rightarrow> None)"

definition write_signature :: "tls_crypto \<Rightarrow> bool \<Rightarrow> uint16 \<Rightarrow> bytes \<Rightarrow> bytes \<Rightarrow> bytes" where
  "write_signature cr wide scheme key digest = be_bytes16 scheme @ vector_16 (ecdsa_sign cr wide key digest)"

definition tls_exchange :: "tls_crypto \<Rightarrow> bytes \<Rightarrow> tls_server \<Rightarrow> (bytes \<times> bytes) option" where
  "tls_exchange cr share s =
    (if sv_group s = secp256r1_group then nist_exchange cr False (sv_generated s) share
     else if sv_group s = secp384r1_group then nist_exchange cr True (sv_generated s) share
     else if length share \<noteq> 32 then None
     else map_option (\<lambda>shared. (shared, x25519_public cr (sv_secret s))) (x25519_multiply cr (sv_secret s) share))"

section \<open>Output\<close>

definition server_seal :: "tls_crypto \<Rightarrow> byte \<Rightarrow> bytes \<Rightarrow> tls_server \<Rightarrow> tls_server" where
  "server_seal cr type content s =
    (case record_seal cr type content (sv_send s) of (out, r) \<Rightarrow> s\<lparr>sv_output := sv_output s @ out, sv_send := r\<rparr>)"

definition tls_fail :: "tls_crypto \<Rightarrow> byte \<Rightarrow> tls_server \<Rightarrow> bool \<times> tls_server" where
  "tls_fail cr description s =
    (if is_failed s then (False, s)
     else (False, server_seal cr content_alert [alert_fatal, description] (s\<lparr>sv_state := Tls_Failed, sv_failure := description\<rparr>)))"

function tls_send :: "tls_crypto \<Rightarrow> byte \<Rightarrow> bytes \<Rightarrow> tls_server \<Rightarrow> tls_server" where
  "tls_send cr type data s =
    (if data = [] then s
     else tls_send cr type (drop maximum_plaintext data) (server_seal cr type (take maximum_plaintext data) s))"
  by pat_completeness auto
termination by (relation "measure (\<lambda>(_, _, data, _). length data)") (auto simp: maximum_plaintext_def)

declare tls_send.simps [simp del]

definition add_transcript :: "bytes \<Rightarrow> tls_server \<Rightarrow> tls_server" where
  "add_transcript message s = s\<lparr>sv_transcript := transcript_write message (sv_transcript s)\<rparr>"

definition server_transcript :: "tls_crypto \<Rightarrow> tls_server \<Rightarrow> bytes" where
  "server_transcript cr s = transcript_hash cr (sv_transcript s)"

definition set_receive :: "tls_crypto \<Rightarrow> bytes \<Rightarrow> tls_server \<Rightarrow> tls_server" where
  "set_receive cr traffic s =
    s\<lparr>sv_receive := record_set_secret cr (sv_suite s) traffic (sv_receive s), sv_epoch := sv_epoch s + 1\<rparr>"

definition set_send :: "tls_crypto \<Rightarrow> bytes \<Rightarrow> tls_server \<Rightarrow> tls_server" where
  "set_send cr traffic s = s\<lparr>sv_send := record_set_secret cr (sv_suite s) traffic (sv_send s)\<rparr>"

definition send_update :: "tls_crypto \<Rightarrow> tls_server \<Rightarrow> tls_server" where
  "send_update cr s =
    (let s = tls_send cr content_handshake (make_message handshake_key_update [update_not_requested]) s;
         s = s\<lparr>sv_server_traffic := update_secret cr (sv_suite s) (sv_server_traffic s)\<rparr>
     in set_send cr (sv_server_traffic s) s)"

definition send_compatibility :: "tls_crypto \<Rightarrow> bytes \<Rightarrow> tls_server \<Rightarrow> tls_server" where
  "send_compatibility cr session s =
    (if session = [] \<or> sv_compatibility_sent s then s
     else (server_seal cr content_change_cipher_spec [compatibility_payload] s)\<lparr>sv_compatibility_sent := True\<rparr>)"

definition hello_message :: "bytes \<Rightarrow> bytes \<Rightarrow> uint16 \<Rightarrow> bytes \<Rightarrow> bytes" where
  "hello_message random session suite key_share =
    make_message handshake_server_hello
      (be_bytes16 legacy_version @ random @ vector_8 session @ be_bytes16 suite @ [0] @
       vector_16 (be_bytes16 extension_key_share @ vector_16 key_share @
         be_bytes16 extension_supported_versions @ vector_16 (be_bytes16 version_13)))"

definition send_hello :: "tls_crypto \<Rightarrow> bytes \<Rightarrow> bytes \<Rightarrow> bytes \<Rightarrow> tls_server \<Rightarrow> tls_server" where
  "send_hello cr random session key_share s =
    (let hello = hello_message random session (sv_suite s) key_share
     in send_compatibility cr session (server_seal cr content_handshake hello (add_transcript hello s)))"

definition send_retry :: "tls_crypto \<Rightarrow> bytes \<Rightarrow> bytes \<Rightarrow> tls_server \<Rightarrow> tls_server" where
  "send_retry cr client_hello session s =
    (let digest = schedule_hash cr (sv_suite s) client_hello;
         synthetic = handshake_message_hash # vector_24 digest;
         s = add_transcript synthetic (s\<lparr>sv_transcript := transcript_reset (sv_suite s)\<rparr>)
     in (send_hello cr retry_random session (be_bytes16 (sv_group s)) s)\<lparr>sv_state := Retry_Hello\<rparr>)"

definition request_message :: bytes where
  "request_message =
    make_message handshake_certificate_request
      (vector_8 [] @ vector_16 (be_bytes16 extension_signature_algorithms @
        vector_16 (vector_16 (be_bytes16 ecdsa_secp256r1_sha256 @ be_bytes16 ecdsa_secp384r1_sha384))))"

definition certificate_message :: "bytes list \<Rightarrow> bytes" where
  "certificate_message chain =
    make_message handshake_certificate
      (vector_8 [] @ vector_24 (concat (map (\<lambda>certificate. vector_24 certificate @ be_bytes16 0) chain)))"

definition verify_message :: "tls_crypto \<Rightarrow> tls_context \<Rightarrow> bytes \<Rightarrow> bytes" where
  "verify_message cr ctx digest =
    (let content = verify_content server_verify digest in
     make_message handshake_certificate_verify
       (if tc_curve ctx = Curve_Secp256r1
        then write_signature cr False ecdsa_secp256r1_sha256 (tc_key ctx) (hash_of cr False content)
        else write_signature cr True ecdsa_secp384r1_sha384 (tc_key384 ctx) (hash_of cr True content)))"

definition send_flight :: "tls_crypto \<Rightarrow> tls_server \<Rightarrow> tls_server" where
  "send_flight cr s =
    (let extensions = make_message handshake_encrypted_extensions (be_bytes16 0);
         request = (if tc_request (sv_context s) then request_message else []);
         certificate = certificate_message (tc_chain (sv_context s));
         s = add_transcript certificate (add_transcript request (add_transcript extensions s));
         verify = verify_message cr (sv_context s) (server_transcript cr s);
         s = add_transcript verify s;
         finished = make_message handshake_finished
           (finished_data cr (sv_suite s) (sv_server_handshake s) (server_transcript cr s));
         s = add_transcript finished s;
         s = tls_send cr content_handshake (extensions @ request @ certificate @ verify @ finished) s;
         master = master_secret cr (sv_suite s) (sv_handshake_secret s);
         digest = server_transcript cr s;
         s = s\<lparr>sv_client_traffic := derive_secret cr (sv_suite s) master ''c ap traffic'' digest,
           sv_server_traffic := derive_secret cr (sv_suite s) master ''s ap traffic'' digest\<rparr>
     in set_send cr (sv_server_traffic s) s)"

section \<open>Client hello\<close>

record hello_extensions =
  he_seen :: "uint16 list"
  he_versions :: "uint16 list"
  he_groups :: "uint16 list"
  he_algorithms :: "uint16 list"
  he_shares :: bytes
  he_has_shares :: bool
  he_has_early :: bool

definition no_extensions :: hello_extensions where
  "no_extensions = \<lparr>he_seen = [], he_versions = [], he_groups = [], he_algorithms = [], he_shares = [],
     he_has_shares = False, he_has_early = False\<rparr>"

text \<open>One extension; the alert to fail with, or the extensions with it.\<close>

definition add_extension :: "uint16 \<Rightarrow> bytes \<Rightarrow> hello_extensions \<Rightarrow> byte + hello_extensions" where
  "add_extension type data e =
    (if type \<in> set (he_seen e) then Inl alert_illegal_parameter
     else
       let e = e\<lparr>he_seen := he_seen e @ [type]\<rparr> in
       if type = extension_supported_versions then
         (case to_list data True of None \<Rightarrow> Inl alert_decode_error | Some ws \<Rightarrow> Inr (e\<lparr>he_versions := ws\<rparr>))
       else if type = extension_supported_groups then
         (case to_list data False of None \<Rightarrow> Inl alert_decode_error | Some ws \<Rightarrow> Inr (e\<lparr>he_groups := ws\<rparr>))
       else if type = extension_signature_algorithms then
         (case to_list data False of None \<Rightarrow> Inl alert_decode_error | Some ws \<Rightarrow> Inr (e\<lparr>he_algorithms := ws\<rparr>))
       else if type = extension_key_share then Inr (e\<lparr>he_shares := data, he_has_shares := True\<rparr>)
       else if type = extension_early_data then Inr (e\<lparr>he_has_early := True\<rparr>)
       else Inr e)"

lemma read_span_shorter: "read_span n r = (bs, r') \<Longrightarrow> length (tr_data r') \<le> length (tr_data r)"
  by (auto simp: read_span_def reader_invalidate_def split: if_splits)

lemma read_16_shorter: "read_16 r = (w, r') \<Longrightarrow> length (tr_data r') \<le> length (tr_data r)"
  by (auto simp: read_16_def split: prod.splits dest: read_span_shorter)

lemma read_16_progress:
  "read_16 r = (w, r') \<Longrightarrow> tr_valid r \<Longrightarrow> tr_data r \<noteq> [] \<Longrightarrow> length (tr_data r') < length (tr_data r)"
  by (cases "tr_data r") (auto simp: read_16_def read_span_def reader_invalidate_def split: if_splits)

lemma read_vector_16_shorter: "read_vector_16 r = (bs, r') \<Longrightarrow> length (tr_data r') \<le> length (tr_data r)"
  by (auto simp: read_vector_16_def split: prod.splits if_splits dest!: read_span_shorter read_16_shorter)

lemma read_24_shorter: "read_24 r = (w, r') \<Longrightarrow> length (tr_data r') \<le> length (tr_data r)"
  by (auto simp: read_24_def split: prod.splits dest: read_span_shorter)

lemma read_24_progress:
  "read_24 r = (w, r') \<Longrightarrow> tr_valid r \<Longrightarrow> tr_data r \<noteq> [] \<Longrightarrow> length (tr_data r') < length (tr_data r)"
  by (cases "tr_data r") (auto simp: read_24_def read_span_def reader_invalidate_def split: if_splits)

lemma read_vector_24_progress:
  assumes "read_vector_24 r = (bs, r')" "tr_valid r" "tr_data r \<noteq> []"
  shows "length (tr_data r') < length (tr_data r)"
proof -
  obtain n r1 where n: "read_24 r = (n, r1)" by (cases "read_24 r")
  have "length (tr_data r') \<le> length (tr_data r1)"
    using assms(1) by (auto simp: read_vector_24_def n split: if_splits dest: read_span_shorter)
  with read_24_progress [OF n assms(2,3)] show ?thesis by simp
qed

lemma entry_progress:
  assumes "(w, r1) = read_16 r" "(bs, r2) = read_vector_16 r1" "tr_valid r" "tr_data r \<noteq> []"
  shows "length (tr_data r2) < length (tr_data r)"
  using read_16_progress [OF assms(1) [symmetric] assms(3,4)] read_vector_16_shorter [OF assms(2) [symmetric]] by simp

lemma certificate_progress:
  assumes "(der, r1) = read_vector_24 r" "(bs, r2) = read_vector_16 r1" "tr_valid r" "tr_data r \<noteq> []"
  shows "length (tr_data r2) < length (tr_data r)"
  using read_vector_24_progress [OF assms(1) [symmetric] assms(3,4)] read_vector_16_shorter [OF assms(2) [symmetric]] by simp

function read_extensions :: "tls_reader \<Rightarrow> hello_extensions \<Rightarrow> byte + hello_extensions" where
  "read_extensions list e =
    (if \<not> tr_valid list \<or> tr_data list = [] then Inr e
     else
       (case read_16 list of (type, list1) \<Rightarrow>
        case read_vector_16 list1 of (data, list2) \<Rightarrow>
          if \<not> tr_valid list2 then Inl alert_decode_error
          else (case add_extension type data e of Inl alert \<Rightarrow> Inl alert | Inr e \<Rightarrow> read_extensions list2 e)))"
  by pat_completeness auto
termination
  by (relation "measure (\<lambda>(list, _). length (tr_data list))")
    (auto intro: entry_progress)

declare read_extensions.simps [simp del]

text \<open>The shares offered, and the reader of the entries after them.\<close>

function read_shares :: "tls_reader \<Rightarrow> (uint16 \<times> bytes) list \<times> tls_reader" where
  "read_shares entries =
    (if \<not> tr_valid entries \<or> tr_data entries = [] then ([], entries)
     else
       (case read_16 entries of (key_group, entries1) \<Rightarrow>
        case read_vector_16 entries1 of (share, entries2) \<Rightarrow>
          (case read_shares entries2 of (offered, end) \<Rightarrow>
             (if tr_valid entries2 then (key_group, share) # offered else offered, end))))"
  by pat_completeness auto
termination
  by (relation "measure (length \<circ> tr_data)")
    (auto intro: entry_progress)

declare read_shares.simps [simp del]

definition share_of :: "(uint16 \<times> bytes) list \<Rightarrow> uint16 \<Rightarrow> bytes" where
  "share_of offered g = (case List.find (\<lambda>entry. fst entry = g) offered of None \<Rightarrow> [] | Some entry \<Rightarrow> snd entry)"

record client_hello =
  ch_session :: bytes
  ch_ciphers :: "uint16 list"
  ch_extensions :: hello_extensions

text \<open>The fields of the hello and its extensions, or the alert to fail with.\<close>

definition parse_client_hello :: "bytes \<Rightarrow> byte + client_hello" where
  "parse_client_hello body =
    (case read_16 (make_reader body) of (_, hello) \<Rightarrow>
     case read_span 32 hello of (_, hello) \<Rightarrow>
     case read_vector_8 hello of (session, hello) \<Rightarrow>
     case read_list_16 hello of (ciphers, hello) \<Rightarrow>
     case read_vector_8 hello of (compression, hello) \<Rightarrow>
       if reader_complete hello then Inl alert_protocol_version
       else
         case read_vector_16 hello of (extensions, hello) \<Rightarrow>
           if \<not> reader_complete hello \<or> 32 < length session \<or> ciphers = [] then Inl alert_decode_error
           else if length compression \<noteq> 1 \<or> hd compression \<noteq> 0 then Inl alert_illegal_parameter
           else (case read_extensions (make_reader extensions) no_extensions of
              Inl alert \<Rightarrow> Inl alert
            | Inr e \<Rightarrow> Inr \<lparr>ch_session = session, ch_ciphers = ciphers, ch_extensions = e\<rparr>))"

definition server_scheme :: "tls_context \<Rightarrow> uint16" where
  "server_scheme ctx = (if tc_curve ctx = Curve_Secp256r1 then ecdsa_secp256r1_sha256 else ecdsa_secp384r1_sha384)"

definition accept_share :: "tls_crypto \<Rightarrow> bytes \<Rightarrow> bytes \<Rightarrow> bytes \<Rightarrow> bytes \<Rightarrow> tls_server \<Rightarrow> tls_server" where
  "accept_share cr message session shared own s =
    (let s = send_hello cr (sv_random s) session (be_bytes16 (sv_group s) @ vector_16 own) (add_transcript message s);
         s = s\<lparr>sv_handshake_secret := handshake_secret cr (sv_suite s) (early_secret cr (sv_suite s)) shared\<rparr>;
         digest = server_transcript cr s;
         s = s\<lparr>sv_client_handshake := derive_secret cr (sv_suite s) (sv_handshake_secret s) ''c hs traffic'' digest,
           sv_server_handshake := derive_secret cr (sv_suite s) (sv_handshake_secret s) ''s hs traffic'' digest\<rparr>;
         s = set_send cr (sv_server_handshake s) s;
         s = set_receive cr (sv_client_handshake s) s;
         s = send_flight cr s
     in s\<lparr>sv_state := if tc_request (sv_context s) then Client_Certificate else Client_Finished\<rparr>)"

definition handle_client_hello :: "tls_crypto \<Rightarrow> bytes \<Rightarrow> bytes \<Rightarrow> tls_server \<Rightarrow> bool \<times> tls_server" where
  "handle_client_hello cr message body s =
    (let retried = (sv_state s = Retry_Hello) in
     case parse_client_hello body of
       Inl alert \<Rightarrow> tls_fail cr alert s
     | Inr hello \<Rightarrow>
         let e = ch_extensions hello; session = ch_session hello in
         if version_13 \<notin> set (he_versions e) then tls_fail cr alert_protocol_version s
         else case List.find (\<lambda>v. v \<in> set (ch_ciphers hello)) preferred_suites of
           None \<Rightarrow> tls_fail cr alert_handshake_failure s
         | Some suite \<Rightarrow>
             if retried \<and> (suite \<noteq> sv_suite s \<or> he_has_early e) then tls_fail cr alert_illegal_parameter s
             else if he_algorithms e = [] \<or> he_groups e = [] \<or> \<not> he_has_shares e then tls_fail cr alert_missing_extension s
             else if server_scheme (sv_context s) \<notin> set (he_algorithms e) then tls_fail cr alert_handshake_failure s
             else
               case read_vector_16 (make_reader (he_shares e)) of (shares, share_list) \<Rightarrow>
                 if \<not> reader_complete share_list then tls_fail cr alert_decode_error s
                 else
                   case read_shares (make_reader shares) of (offered, entries) \<Rightarrow>
                     if \<not> tr_valid entries then tls_fail cr alert_decode_error s
                     else
                       let mutual = (\<lambda>g. g \<in> set (he_groups e));
                           with_share = List.find (\<lambda>g. mutual g \<and> share_of offered g \<noteq> []) preferred_groups;
                           retry = List.find mutual preferred_groups
                       in case retry of
                           None \<Rightarrow> tls_fail cr alert_handshake_failure s
                         | Some retry_group \<Rightarrow>
                             let s = s\<lparr>sv_suite := suite\<rparr>;
                                 s = (if retried then s else s\<lparr>sv_transcript := transcript_reset suite\<rparr>)
                             in case with_share of
                                 None \<Rightarrow>
                                   if retried then tls_fail cr alert_illegal_parameter s
                                   else (True, send_retry cr message session (s\<lparr>sv_group := retry_group\<rparr>))
                               | Some g \<Rightarrow>
                                   if retried \<and> g \<noteq> sv_group s then tls_fail cr alert_illegal_parameter s
                                   else
                                     let s = s\<lparr>sv_group := g\<rparr> in
                                     (case tls_exchange cr (share_of offered g) s of
                                        None \<Rightarrow> tls_fail cr alert_illegal_parameter s
                                      | Some (shared, own) \<Rightarrow> (True, accept_share cr message session shared own s)))"

section \<open>Client authentication\<close>

function read_chain :: "tls_crypto \<Rightarrow> tls_reader \<Rightarrow> x509_certificate list \<Rightarrow> byte + x509_certificate list" where
  "read_chain cr entries chain =
    (if \<not> tr_valid entries then Inl alert_decode_error
     else if tr_data entries = [] then Inr chain
     else
       (case read_vector_24 entries of (der, entries1) \<Rightarrow>
        case read_vector_16 entries1 of (_, entries2) \<Rightarrow>
          if \<not> tr_valid entries2 then Inl alert_decode_error
          else (case x509_parse cr der of
              None \<Rightarrow> Inl alert_bad_certificate
            | Some certificate \<Rightarrow> read_chain cr entries2 (chain @ [certificate]))))"
  by pat_completeness auto
termination
  by (relation "measure (\<lambda>(_, entries, _). length (tr_data entries))")
    (auto intro: certificate_progress)

declare read_chain.simps [simp del]

definition handle_certificate :: "tls_crypto \<Rightarrow> bytes \<Rightarrow> bytes \<Rightarrow> tls_server \<Rightarrow> bool \<times> tls_server" where
  "handle_certificate cr message body s =
    (case read_vector_8 (make_reader body) of (request_context, certificate) \<Rightarrow>
     case read_vector_24 certificate of (entries, certificate) \<Rightarrow>
       if \<not> reader_complete certificate then tls_fail cr alert_decode_error s
       else if request_context \<noteq> [] then tls_fail cr alert_illegal_parameter s
       else case read_chain cr (make_reader entries) [] of
           Inl alert \<Rightarrow> tls_fail cr alert s
         | Inr chain \<Rightarrow>
             let s = add_transcript message s in
             if chain = [] then
               (if tc_require (sv_context s) then tls_fail cr alert_certificate_required s
                else (True, s\<lparr>sv_state := Client_Finished\<rparr>))
             else
               let ec = x509_verify cr chain (tc_anchors (sv_context s)) (context_time (sv_clock s) (sv_context s)) in
               if ec \<noteq> X509_Success then tls_fail cr (to_alert ec) s
               else (True, s\<lparr>sv_peer := chain, sv_state := Client_Certificate_Verify\<rparr>))"

definition handle_certificate_verify :: "tls_crypto \<Rightarrow> bytes \<Rightarrow> bytes \<Rightarrow> tls_server \<Rightarrow> bool \<times> tls_server" where
  "handle_certificate_verify cr message body s =
    (case read_16 (make_reader body) of (scheme, verify) \<Rightarrow>
     case read_vector_16 verify of (signature, verify) \<Rightarrow>
       if \<not> reader_complete verify then tls_fail cr alert_decode_error s
       else
         let leaf = hd (sv_peer s); content = verify_content client_verify (server_transcript cr s);
             narrow = (scheme = ecdsa_secp256r1_sha256 \<and> cert_curve leaf = Curve_Secp256r1);
             wide = (scheme = ecdsa_secp384r1_sha384 \<and> cert_curve leaf = Curve_Secp384r1)
         in if \<not> narrow \<and> \<not> wide then tls_fail cr alert_illegal_parameter s
            else if \<not> verify_signature cr (\<not> narrow) (cert_public_key leaf) signature (hash_of cr (\<not> narrow) content)
              then tls_fail cr alert_decrypt_error s
            else (True, (add_transcript message s)\<lparr>sv_state := Client_Finished\<rparr>))"

section \<open>Finished and key update\<close>

definition handle_finished :: "tls_crypto \<Rightarrow> bytes \<Rightarrow> bytes \<Rightarrow> tls_server \<Rightarrow> bool \<times> tls_server" where
  "handle_finished cr message body s =
    (let expected = finished_data cr (sv_suite s) (sv_client_handshake s) (server_transcript cr s) in
     if body \<noteq> expected then tls_fail cr alert_decrypt_error s
     else (True, (set_receive cr (sv_client_traffic s) (add_transcript message s))\<lparr>sv_state := Established\<rparr>))"

definition handle_key_update :: "tls_crypto \<Rightarrow> bytes \<Rightarrow> tls_server \<Rightarrow> bool \<times> tls_server" where
  "handle_key_update cr body s =
    (if length body \<noteq> 1 then tls_fail cr alert_decode_error s
     else if hd body \<noteq> update_not_requested \<and> hd body \<noteq> update_requested then tls_fail cr alert_illegal_parameter s
     else
       let s = s\<lparr>sv_client_traffic := update_secret cr (sv_suite s) (sv_client_traffic s)\<rparr>;
           s = set_receive cr (sv_client_traffic s) s
       in (True, if hd body = update_requested \<and> \<not> sv_close_sent s then send_update cr s else s))"

section \<open>Records\<close>

definition handle_message :: "tls_crypto \<Rightarrow> byte \<Rightarrow> bytes \<Rightarrow> bytes \<Rightarrow> tls_server \<Rightarrow> bool \<times> tls_server" where
  "handle_message cr type message body s =
    (if (sv_state s = Client_Hello \<or> sv_state s = Retry_Hello) \<and> type = handshake_client_hello
       then handle_client_hello cr message body s
     else if sv_state s = Client_Certificate \<and> type = handshake_certificate then handle_certificate cr message body s
     else if sv_state s = Client_Certificate_Verify \<and> type = handshake_certificate_verify
       then handle_certificate_verify cr message body s
     else if sv_state s = Client_Finished \<and> type = handshake_finished then handle_finished cr message body s
     else if sv_state s = Established \<and> type = handshake_key_update then handle_key_update cr body s
     else tls_fail cr alert_unexpected_message s)"

text \<open>The size in the header of a handshake message, and in that of a record.\<close>

definition handshake_body_size :: "bytes \<Rightarrow> nat" where
  "handshake_body_size buffer = unat (be_accumulate (0 :: uint32) (take 3 (drop 1 buffer)))"

definition record_fragment_size :: "bytes \<Rightarrow> nat" where
  "record_fragment_size header = unat (push_bit 8 (ucast (header ! 3)) OR ucast (header ! 4) :: uint16)"

text \<open>
  The loop over the messages of the handshake buffer. The handlers neither read nor write the buffer, which is the
  first argument.
\<close>

function handshake_messages :: "tls_crypto \<Rightarrow> bytes \<Rightarrow> tls_server \<Rightarrow> bool \<times> tls_server" where
  "handshake_messages cr buffer s =
    (if length buffer < message_header_size then (True, s\<lparr>sv_handshake := buffer\<rparr>)
     else
       let type = buffer ! 0; n = handshake_body_size buffer in
       if maximum_message < n then tls_fail cr alert_decode_error (s\<lparr>sv_handshake := buffer\<rparr>)
       else
         let total = message_header_size + n in
         if length buffer < total then (True, s\<lparr>sv_handshake := buffer\<rparr>)
         else
           let message = take total buffer; rest = drop total buffer in
           (case handle_message cr type message (drop message_header_size message) (s\<lparr>sv_handshake := rest\<rparr>) of
              (False, s') \<Rightarrow> (False, s')
            | (True, s') \<Rightarrow>
                if sv_epoch s \<noteq> sv_epoch s' \<and> rest \<noteq> [] then tls_fail cr alert_unexpected_message s'
                else handshake_messages cr rest s'))"
  by pat_completeness auto
termination by (relation "measure (\<lambda>(_, buffer, _). length buffer)") (auto simp: message_header_size_def)

declare handshake_messages.simps [simp del]

definition handle_handshake :: "tls_crypto \<Rightarrow> bytes \<Rightarrow> tls_server \<Rightarrow> bool \<times> tls_server" where
  "handle_handshake cr content s =
    (if content = [] then tls_fail cr alert_unexpected_message s
     else handshake_messages cr (sv_handshake s @ content) s)"

definition handle_alert :: "tls_crypto \<Rightarrow> bytes \<Rightarrow> tls_server \<Rightarrow> bool \<times> tls_server" where
  "handle_alert cr content s =
    (if length content \<noteq> 2 then tls_fail cr alert_decode_error s
     else if content ! 1 = alert_close_notify then (True, s\<lparr>sv_closed := True\<rparr>)
     else if content ! 1 = alert_user_canceled then (True, s)
     else (False, s\<lparr>sv_state := Tls_Failed, sv_failure := content ! 1, sv_failure_received := True\<rparr>))"

definition handle_content :: "tls_crypto \<Rightarrow> byte \<Rightarrow> bytes \<Rightarrow> tls_server \<Rightarrow> bool \<times> tls_server" where
  "handle_content cr type content s =
    (if type = content_alert then handle_alert cr content s
     else if type = content_handshake then handle_handshake cr content s
     else if type = content_application_data then
       (if \<not> is_established s then tls_fail cr alert_unexpected_message s
        else (True, s\<lparr>sv_application := sv_application s @ content\<rparr>))
     else tls_fail cr alert_unexpected_message s)"

definition handle_record :: "tls_crypto \<Rightarrow> byte \<Rightarrow> bytes \<Rightarrow> bytes \<Rightarrow> tls_server \<Rightarrow> bool \<times> tls_server" where
  "handle_record cr type header fragment s =
    (if type = content_change_cipher_spec then
       (if sv_state s = Client_Hello \<or> sv_state s = Established \<or> length fragment \<noteq> 1 \<or> hd fragment \<noteq> compatibility_payload
        then tls_fail cr alert_unexpected_message s else (True, s))
     else if \<not> is_protected (sv_receive s) then
       (if maximum_plaintext < length fragment then tls_fail cr alert_record_overflow s
        else if type = content_application_data then tls_fail cr alert_unexpected_message s
        else handle_content cr type fragment s)
     else if type \<noteq> content_application_data then tls_fail cr alert_unexpected_message s
     else
       (case record_open cr header fragment (sv_receive s) of
          (None, r) \<Rightarrow> tls_fail cr alert_bad_record_mac (s\<lparr>sv_receive := r\<rparr>)
        | (Some (inner, content), r) \<Rightarrow>
            let s = s\<lparr>sv_receive := r\<rparr> in
            if maximum_plaintext < length content then tls_fail cr alert_record_overflow s
            else handle_content cr inner content s))"

text \<open>
  The loop over the records available. Its result is whether the loop ended without a failure of a record,
  the bytes that are left and the state; the handlers neither read nor write the input.
\<close>

function receive_records :: "tls_crypto \<Rightarrow> bytes \<Rightarrow> tls_server \<Rightarrow> bool \<times> bytes \<times> tls_server" where
  "receive_records cr available s =
    (if is_failed s \<or> sv_closed s \<or> length available < record_header_size then (True, available, s)
     else
       let n = record_fragment_size available in
       if maximum_ciphertext < n then (False, available, snd (tls_fail cr alert_record_overflow s))
       else if length available < record_header_size + n then (True, available, s)
       else
         let fragment = take n (drop record_header_size available); rest = drop (record_header_size + n) available in
         (case handle_record cr (available ! 0) (take record_header_size available) fragment s of
            (False, s) \<Rightarrow> (False, rest, s)
          | (True, s) \<Rightarrow> receive_records cr rest s))"
  by pat_completeness auto
termination by (relation "measure (\<lambda>(_, available, _). length available)") (auto simp: record_header_size_def)

declare receive_records.simps [simp del]

text \<open>The input is set aside during the loop, which does not use it.\<close>

definition tls_receive :: "tls_crypto \<Rightarrow> bytes \<Rightarrow> tls_server \<Rightarrow> bool \<times> tls_server" where
  "tls_receive cr data s =
    (if is_failed s \<or> sv_closed s then (False, s)
     else
       let input = sv_input s @ data in
       (case receive_records cr input (s\<lparr>sv_input := []\<rparr>) of
          (False, _, s) \<Rightarrow> (False, s\<lparr>sv_input := input\<rparr>)
        | (True, rest, s) \<Rightarrow> (\<not> is_failed s, s\<lparr>sv_input := rest\<rparr>)))"

section \<open>Application data\<close>

definition tls_write :: "tls_crypto \<Rightarrow> bytes \<Rightarrow> tls_server \<Rightarrow> bool \<times> tls_server" where
  "tls_write cr data s =
    (if \<not> is_established s \<or> sv_close_sent s then (False, s)
     else
       let s = (if maximum_records \<le> rp_sequence (sv_send s) then send_update cr s else s)
       in (True, tls_send cr content_application_data data s))"

definition tls_read :: "nat \<Rightarrow> tls_server \<Rightarrow> bytes \<times> tls_server" where
  "tls_read n s = (take n (sv_application s), s\<lparr>sv_application := drop n (sv_application s)\<rparr>)"

definition tls_close :: "tls_crypto \<Rightarrow> tls_server \<Rightarrow> tls_server" where
  "tls_close cr s =
    (if sv_close_sent s \<or> is_failed s then s
     else (server_seal cr content_alert [alert_warning, alert_close_notify] s)\<lparr>sv_close_sent := True\<rparr>)"

section \<open>What the operations leave alone\<close>

text \<open>What sealing and sending leave alone: all but the output and the send record.\<close>

lemma server_seal_fields [simp]:
  "sv_input (server_seal cr type content s) = sv_input s" "sv_clock (server_seal cr type content s) = sv_clock s" "sv_context (server_seal cr type content s) = sv_context s"
  "sv_state (server_seal cr type content s) = sv_state s" "sv_suite (server_seal cr type content s) = sv_suite s"
  "sv_group (server_seal cr type content s) = sv_group s" "sv_closed (server_seal cr type content s) = sv_closed s"
  "sv_close_sent (server_seal cr type content s) = sv_close_sent s" "sv_epoch (server_seal cr type content s) = sv_epoch s"
  "sv_peer (server_seal cr type content s) = sv_peer s" "sv_handshake (server_seal cr type content s) = sv_handshake s"
  "sv_application (server_seal cr type content s) = sv_application s" "sv_receive (server_seal cr type content s) = sv_receive s"
  "sv_transcript (server_seal cr type content s) = sv_transcript s"
  "sv_client_handshake (server_seal cr type content s) = sv_client_handshake s"
  "is_protected (sv_send (server_seal cr type content s)) = is_protected (sv_send s)"
  by (simp_all add: server_seal_def record_seal_def next_nonce_def is_protected_def Let_def
      split: prod.splits option.splits)

lemma tls_send_fields [simp]:
  "sv_input (tls_send cr type data s) = sv_input s" "sv_clock (tls_send cr type data s) = sv_clock s" "sv_context (tls_send cr type data s) = sv_context s"
  "sv_state (tls_send cr type data s) = sv_state s" "sv_suite (tls_send cr type data s) = sv_suite s"
  "sv_group (tls_send cr type data s) = sv_group s" "sv_closed (tls_send cr type data s) = sv_closed s"
  "sv_close_sent (tls_send cr type data s) = sv_close_sent s" "sv_epoch (tls_send cr type data s) = sv_epoch s"
  "sv_peer (tls_send cr type data s) = sv_peer s" "sv_handshake (tls_send cr type data s) = sv_handshake s"
  "sv_application (tls_send cr type data s) = sv_application s" "sv_receive (tls_send cr type data s) = sv_receive s"
  "sv_transcript (tls_send cr type data s) = sv_transcript s"
  "sv_client_handshake (tls_send cr type data s) = sv_client_handshake s"
  "is_protected (sv_send (tls_send cr type data s)) = is_protected (sv_send s)"
  by (induction cr type data s rule: tls_send.induct; subst tls_send.simps; simp)+

lemma protected_set [simp]: "is_protected (record_set_secret cr suite traffic r)"
  by (simp add: is_protected_def record_set_secret_def)

lemma send_update_fields [simp]:
  "sv_input (send_update cr s) = sv_input s" "sv_clock (send_update cr s) = sv_clock s" "sv_context (send_update cr s) = sv_context s"
  "sv_state (send_update cr s) = sv_state s" "sv_suite (send_update cr s) = sv_suite s"
  "sv_closed (send_update cr s) = sv_closed s" "sv_close_sent (send_update cr s) = sv_close_sent s"
  "sv_epoch (send_update cr s) = sv_epoch s" "sv_peer (send_update cr s) = sv_peer s"
  "sv_handshake (send_update cr s) = sv_handshake s" "sv_application (send_update cr s) = sv_application s"
  "sv_receive (send_update cr s) = sv_receive s" "sv_transcript (send_update cr s) = sv_transcript s"
  "sv_client_handshake (send_update cr s) = sv_client_handshake s" "is_protected (sv_send (send_update cr s))"
  by (simp_all add: send_update_def set_send_def Let_def)

end
