(* ===== verification/Tls_Safety.thy ===== *)
theory Tls_Safety
  imports Tls_Server
begin

text \<open>
  Safety of the TLS server: the invariant of every reachable state (\<open>tls_reach_inv\<close>), from which an established
  connection has verified the Finished message and, where required, the certificate of its client, and what a
  peer can make the server hold is bounded; and that the division of the bytes received does not matter
  (\<open>segmentation\<close>).
\<close>

section \<open>Invariant\<close>

definition peer_verified :: "tls_crypto \<Rightarrow> tls_server \<Rightarrow> bool" where
  "peer_verified cr s \<longleftrightarrow> sv_peer s \<noteq> [] \<and>
    x509_verify cr (sv_peer s) (tc_anchors (sv_context s)) (context_time (sv_clock s) (sv_context s)) = X509_Success"

text \<open>The key of the leaf has signed the hash of the messages up to some point of the transcript.\<close>

definition peer_signed :: "tls_crypto \<Rightarrow> tls_server \<Rightarrow> bool" where
  "peer_signed cr s \<longleftrightarrow> (\<exists>pre post signature wide.
    ts_written (sv_transcript s) = pre @ post \<and>
    cert_curve (hd (sv_peer s)) = (if wide then Curve_Secp384r1 else Curve_Secp256r1) \<and>
    verify_signature cr wide (cert_public_key (hd (sv_peer s))) signature
      (hash_of cr wide (verify_content client_verify (hash_of cr (ts_sha384 (sv_transcript s)) pre))))"

definition peer_authenticated :: "tls_crypto \<Rightarrow> tls_server \<Rightarrow> bool" where
  "peer_authenticated cr s \<longleftrightarrow>
    sv_peer s = [] \<and> \<not> tc_require (sv_context s) \<or> peer_verified cr s \<and> peer_signed cr s"

text \<open>The last message of the transcript is the Finished of the client over all messages before it.\<close>

definition finished_verified :: "tls_crypto \<Rightarrow> tls_server \<Rightarrow> bool" where
  "finished_verified cr s \<longleftrightarrow> (\<exists>pre message.
    ts_written (sv_transcript s) = pre @ message \<and>
    drop message_header_size message =
      finished_data cr (sv_suite s) (sv_client_handshake s) (hash_of cr (ts_sha384 (sv_transcript s)) pre))"

definition tls_inv :: "tls_crypto \<Rightarrow> tls_server \<Rightarrow> bool" where
  "tls_inv cr s \<longleftrightarrow>
    (case sv_state s of
       Client_Hello \<Rightarrow> \<not> is_protected (sv_receive s) \<and> \<not> is_protected (sv_send s) \<and> sv_peer s = [] \<and> sv_application s = []
     | Retry_Hello \<Rightarrow> \<not> is_protected (sv_receive s) \<and> \<not> is_protected (sv_send s) \<and> sv_peer s = [] \<and> sv_application s = []
     | Client_Certificate \<Rightarrow> is_protected (sv_receive s) \<and> is_protected (sv_send s) \<and> sv_peer s = [] \<and> sv_application s = []
     | Client_Certificate_Verify \<Rightarrow>
         is_protected (sv_receive s) \<and> is_protected (sv_send s) \<and> peer_verified cr s \<and> sv_application s = []
     | Client_Finished \<Rightarrow>
         is_protected (sv_receive s) \<and> is_protected (sv_send s) \<and> peer_authenticated cr s \<and> sv_application s = []
     | Established \<Rightarrow>
         is_protected (sv_receive s) \<and> is_protected (sv_send s) \<and> peer_authenticated cr s \<and> finished_verified cr s
     | Tls_Failed \<Rightarrow> sv_application s = [] \<or> peer_authenticated cr s \<and> finished_verified cr s)"

definition tls_config_ok :: "tls_server \<Rightarrow> bool" where
  "tls_config_ok s \<longleftrightarrow> (tc_require (sv_context s) \<longrightarrow> tc_request (sv_context s))"

text \<open>A step from a state that has not failed.\<close>

definition tls_step_ok :: "tls_crypto \<Rightarrow> tls_server \<Rightarrow> bool \<times> tls_server \<Rightarrow> bool" where
  "tls_step_ok cr s r \<longleftrightarrow>
    tls_inv cr (snd r) \<and> fst r = (\<not> is_failed (snd r)) \<and> sv_context (snd r) = sv_context s \<and> sv_input (snd r) = sv_input s"

lemmas auth_defs = peer_authenticated_def peer_verified_def peer_signed_def finished_verified_def

text \<open>The authentication does not depend on the state, the buffers, the flags and the records.\<close>

lemma peer_verified_fields [simp]:
  "peer_verified cr (s\<lparr>sv_state := st\<rparr>) = peer_verified cr s"
  "peer_verified cr (s\<lparr>sv_failure := a\<rparr>) = peer_verified cr s"
  "peer_verified cr (s\<lparr>sv_failure_received := b\<rparr>) = peer_verified cr s"
  "peer_verified cr (s\<lparr>sv_handshake := x\<rparr>) = peer_verified cr s"
  "peer_verified cr (s\<lparr>sv_closed := b\<rparr>) = peer_verified cr s"
  "peer_verified cr (s\<lparr>sv_close_sent := b\<rparr>) = peer_verified cr s"
  "peer_verified cr (s\<lparr>sv_input := x\<rparr>) = peer_verified cr s"
  "peer_verified cr (s\<lparr>sv_application := x\<rparr>) = peer_verified cr s"
  "peer_verified cr (s\<lparr>sv_receive := r\<rparr>) = peer_verified cr s"
  "peer_verified cr (s\<lparr>sv_output := x\<rparr>) = peer_verified cr s"
  "peer_verified cr (s\<lparr>sv_send := r\<rparr>) = peer_verified cr s"
  "peer_verified cr (s\<lparr>sv_epoch := n\<rparr>) = peer_verified cr s"
  by (simp_all add: peer_verified_def)

lemma peer_signed_fields [simp]:
  "peer_signed cr (s\<lparr>sv_state := st\<rparr>) = peer_signed cr s"
  "peer_signed cr (s\<lparr>sv_failure := a\<rparr>) = peer_signed cr s"
  "peer_signed cr (s\<lparr>sv_failure_received := b\<rparr>) = peer_signed cr s"
  "peer_signed cr (s\<lparr>sv_handshake := x\<rparr>) = peer_signed cr s"
  "peer_signed cr (s\<lparr>sv_closed := b\<rparr>) = peer_signed cr s"
  "peer_signed cr (s\<lparr>sv_close_sent := b\<rparr>) = peer_signed cr s"
  "peer_signed cr (s\<lparr>sv_input := x\<rparr>) = peer_signed cr s"
  "peer_signed cr (s\<lparr>sv_application := x\<rparr>) = peer_signed cr s"
  "peer_signed cr (s\<lparr>sv_receive := r\<rparr>) = peer_signed cr s"
  "peer_signed cr (s\<lparr>sv_output := x\<rparr>) = peer_signed cr s"
  "peer_signed cr (s\<lparr>sv_send := r\<rparr>) = peer_signed cr s"
  "peer_signed cr (s\<lparr>sv_epoch := n\<rparr>) = peer_signed cr s"
  by (simp_all add: peer_signed_def)

lemma peer_authenticated_fields [simp]:
  "peer_authenticated cr (s\<lparr>sv_state := st\<rparr>) = peer_authenticated cr s"
  "peer_authenticated cr (s\<lparr>sv_failure := a\<rparr>) = peer_authenticated cr s"
  "peer_authenticated cr (s\<lparr>sv_failure_received := b\<rparr>) = peer_authenticated cr s"
  "peer_authenticated cr (s\<lparr>sv_handshake := x\<rparr>) = peer_authenticated cr s"
  "peer_authenticated cr (s\<lparr>sv_closed := b\<rparr>) = peer_authenticated cr s"
  "peer_authenticated cr (s\<lparr>sv_close_sent := b\<rparr>) = peer_authenticated cr s"
  "peer_authenticated cr (s\<lparr>sv_input := x\<rparr>) = peer_authenticated cr s"
  "peer_authenticated cr (s\<lparr>sv_application := x\<rparr>) = peer_authenticated cr s"
  "peer_authenticated cr (s\<lparr>sv_receive := r\<rparr>) = peer_authenticated cr s"
  "peer_authenticated cr (s\<lparr>sv_output := x\<rparr>) = peer_authenticated cr s"
  "peer_authenticated cr (s\<lparr>sv_send := r\<rparr>) = peer_authenticated cr s"
  "peer_authenticated cr (s\<lparr>sv_epoch := n\<rparr>) = peer_authenticated cr s"
  by (simp_all add: peer_authenticated_def)

lemma finished_verified_fields [simp]:
  "finished_verified cr (s\<lparr>sv_state := st\<rparr>) = finished_verified cr s"
  "finished_verified cr (s\<lparr>sv_failure := a\<rparr>) = finished_verified cr s"
  "finished_verified cr (s\<lparr>sv_failure_received := b\<rparr>) = finished_verified cr s"
  "finished_verified cr (s\<lparr>sv_handshake := x\<rparr>) = finished_verified cr s"
  "finished_verified cr (s\<lparr>sv_closed := b\<rparr>) = finished_verified cr s"
  "finished_verified cr (s\<lparr>sv_close_sent := b\<rparr>) = finished_verified cr s"
  "finished_verified cr (s\<lparr>sv_input := x\<rparr>) = finished_verified cr s"
  "finished_verified cr (s\<lparr>sv_application := x\<rparr>) = finished_verified cr s"
  "finished_verified cr (s\<lparr>sv_receive := r\<rparr>) = finished_verified cr s"
  "finished_verified cr (s\<lparr>sv_output := x\<rparr>) = finished_verified cr s"
  "finished_verified cr (s\<lparr>sv_send := r\<rparr>) = finished_verified cr s"
  "finished_verified cr (s\<lparr>sv_epoch := n\<rparr>) = finished_verified cr s"
  by (simp_all add: finished_verified_def)

lemma auth_sent [simp]:
  "peer_authenticated cr (server_seal cr' type content s) = peer_authenticated cr s"
  "peer_authenticated cr (tls_send cr' type content s) = peer_authenticated cr s"
  "peer_authenticated cr (send_update cr' s) = peer_authenticated cr s"
  "finished_verified cr (server_seal cr' type content s) = finished_verified cr s"
  "finished_verified cr (tls_send cr' type content s) = finished_verified cr s"
  "finished_verified cr (send_update cr' s) = finished_verified cr s"
  "peer_verified cr (server_seal cr' type content s) = peer_verified cr s"
  "peer_verified cr (tls_send cr' type content s) = peer_verified cr s"
  by (simp_all add: auth_defs)

text \<open>Signatures and verified messages stay when messages are added to the transcript.\<close>

lemma peer_signed_written:
  assumes "peer_signed cr s"
  shows "peer_signed cr (add_transcript message s)"
proof -
  obtain pre post signature wide where p: "ts_written (sv_transcript s) = pre @ post"
    "cert_curve (hd (sv_peer s)) = (if wide then Curve_Secp384r1 else Curve_Secp256r1)"
    "verify_signature cr wide (cert_public_key (hd (sv_peer s))) signature
      (hash_of cr wide (verify_content client_verify (hash_of cr (ts_sha384 (sv_transcript s)) pre)))"
    using assms unfolding peer_signed_def by blast
  then show ?thesis unfolding peer_signed_def
    by (intro exI [of _ pre] exI [of _ "post @ message"] exI [of _ signature] exI [of _ wide])
      (simp add: add_transcript_def transcript_write_def)
qed

lemma peer_authenticated_written:
  "peer_authenticated cr s \<Longrightarrow> peer_authenticated cr (add_transcript message s)"
  using peer_signed_written [of cr s message]
  by (auto simp: peer_authenticated_def peer_verified_def) (simp_all add: add_transcript_def)

lemma add_transcript_fields [simp]:
  "sv_state (add_transcript m s) = sv_state s" "sv_peer (add_transcript m s) = sv_peer s"
  "sv_receive (add_transcript m s) = sv_receive s" "sv_send (add_transcript m s) = sv_send s"
  "sv_application (add_transcript m s) = sv_application s" "sv_context (add_transcript m s) = sv_context s"
  "sv_clock (add_transcript m s) = sv_clock s" "sv_input (add_transcript m s) = sv_input s"
  "sv_handshake (add_transcript m s) = sv_handshake s" "sv_closed (add_transcript m s) = sv_closed s"
  "sv_epoch (add_transcript m s) = sv_epoch s" "peer_verified cr (add_transcript m s) = peer_verified cr s"
  by (simp_all add: add_transcript_def peer_verified_def)

lemma tls_inv_seal [simp]: "tls_inv cr (server_seal cr' type content s) = tls_inv cr s"
  by (simp add: tls_inv_def split: tls_state.splits)

lemma tls_inv_send [simp]: "tls_inv cr (tls_send cr' type data s) = tls_inv cr s"
  by (simp add: tls_inv_def split: tls_state.splits)

lemma tls_inv_flags [simp]:
  "tls_inv cr (s\<lparr>sv_handshake := x\<rparr>) = tls_inv cr s" "tls_inv cr (s\<lparr>sv_closed := b\<rparr>) = tls_inv cr s"
  "tls_inv cr (s\<lparr>sv_close_sent := b\<rparr>) = tls_inv cr s" "tls_inv cr (s\<lparr>sv_input := x\<rparr>) = tls_inv cr s"
  by (simp_all add: tls_inv_def split: tls_state.splits)

lemma tls_inv_update: "tls_inv cr s \<Longrightarrow> is_established s \<Longrightarrow> tls_inv cr (send_update cr' s)"
  by (simp add: tls_inv_def is_established_def)

lemma tls_inv_failed:
  "tls_inv cr s \<Longrightarrow> \<not> is_failed s \<Longrightarrow> tls_inv cr (s\<lparr>sv_state := Tls_Failed, sv_failure := alert\<rparr>)"
  "tls_inv cr s \<Longrightarrow> \<not> is_failed s \<Longrightarrow>
    tls_inv cr (s\<lparr>sv_state := Tls_Failed, sv_failure := alert, sv_failure_received := True\<rparr>)"
  by (cases "sv_state s"; simp add: tls_inv_def is_failed_def)+

section \<open>Every handler keeps the invariant\<close>

lemma fail_ok:
  assumes "tls_inv cr s" "\<not> is_failed s"
  shows "tls_step_ok cr s (tls_fail cr' alert s)"
  using tls_inv_failed(1) [OF assms] assms(2) by (simp add: tls_step_ok_def tls_fail_def) (simp add: is_failed_def)

lemma alert_ok:
  assumes "tls_inv cr s" "\<not> is_failed s"
  shows "tls_step_ok cr s (handle_alert cr content s)"
  using assms fail_ok [OF assms] tls_inv_failed(2) [OF assms]
  by (auto simp: handle_alert_def tls_step_ok_def is_failed_def)

lemma certificate_ok:
  assumes "tls_inv cr s" "sv_state s = Client_Certificate"
  shows "tls_step_ok cr s (handle_certificate cr message body s)"
proof -
  let ?s = "add_transcript message s"
  have nf: "\<not> is_failed s" "\<not> is_failed ?s" using assms(2) by (simp_all add: is_failed_def)
  have written: "tls_inv cr ?s" using assms by (simp add: tls_inv_def)
  have fails: "tls_step_ok cr s (tls_fail cr alert s)" "tls_step_ok cr s (tls_fail cr alert ?s)" for alert
    using fail_ok [OF assms(1) nf(1)] fail_ok [OF written nf(2)] by (simp_all add: tls_step_ok_def)
  have accepts: "tls_step_ok cr s (True, ?s\<lparr>sv_state := Client_Finished\<rparr>)" if "\<not> tc_require (sv_context s)"
    using assms that by (simp add: tls_step_ok_def tls_inv_def is_failed_def peer_authenticated_def)
  have verified: "tls_step_ok cr s (True, ?s\<lparr>sv_peer := chain, sv_state := Client_Certificate_Verify\<rparr>)"
    if "chain \<noteq> []" "x509_verify cr chain (tc_anchors (sv_context s)) (context_time (sv_clock s) (sv_context s)) = X509_Success" for chain
    using assms that by (simp add: tls_step_ok_def tls_inv_def is_failed_def peer_verified_def)
  show ?thesis
    by (simp add: handle_certificate_def Let_def fails accepts verified split: prod.splits sum.splits)
qed

lemma certificate_verify_ok:
  assumes "tls_inv cr s" "sv_state s = Client_Certificate_Verify"
  shows "tls_step_ok cr s (handle_certificate_verify cr message body s)"
proof -
  let ?s = "add_transcript message s"
  have nf: "\<not> is_failed s" using assms(2) by (simp add: is_failed_def)
  have fails: "tls_step_ok cr s (tls_fail cr alert s)" for alert by (rule fail_ok [OF assms(1) nf])
  have accepts: "tls_step_ok cr s (True, ?s\<lparr>sv_state := Client_Finished\<rparr>)"
    if "cert_curve (hd (sv_peer s)) = (if wide then Curve_Secp384r1 else Curve_Secp256r1)"
      "verify_signature cr wide (cert_public_key (hd (sv_peer s))) signature
        (hash_of cr wide (verify_content client_verify (server_transcript cr s)))" for wide signature
  proof -
    have "peer_signed cr s"
      unfolding peer_signed_def
      by (intro exI [of _ "ts_written (sv_transcript s)"] exI [of _ "[]"] exI [of _ signature] exI [of _ wide])
        (use that in \<open>simp add: server_transcript_def transcript_hash_def\<close>)
    moreover have "peer_verified cr s" using assms by (simp add: tls_inv_def)
    ultimately have "peer_authenticated cr ?s"
      by (intro peer_authenticated_written) (simp add: peer_authenticated_def)
    with assms show ?thesis by (simp add: tls_step_ok_def tls_inv_def is_failed_def)
  qed
  show ?thesis
    using accepts [of False] accepts [of True]
    by (auto simp: handle_certificate_verify_def Let_def fails split: prod.splits)
qed

lemma finished_ok:
  assumes "tls_inv cr s" "sv_state s = Client_Finished"
  shows "tls_step_ok cr s (handle_finished cr message (drop message_header_size message) s)"
proof -
  let ?s = "set_receive cr (sv_client_traffic s) (add_transcript message s)\<lparr>sv_state := Established\<rparr>"
  have nf: "\<not> is_failed s" using assms(2) by (simp add: is_failed_def)
  have "tls_inv cr ?s"
    if "drop message_header_size message = finished_data cr (sv_suite s) (sv_client_handshake s) (server_transcript cr s)"
  proof -
    have "peer_authenticated cr ?s"
      using assms peer_authenticated_written [of cr s message] by (simp add: tls_inv_def set_receive_def)
    moreover have "finished_verified cr ?s"
      unfolding finished_verified_def
      by (intro exI [of _ "ts_written (sv_transcript s)"] exI [of _ message])
        (use that in \<open>simp add: set_receive_def add_transcript_def transcript_write_def server_transcript_def transcript_hash_def\<close>)
    ultimately show ?thesis using assms by (simp add: tls_inv_def) (simp add: set_receive_def)
  qed
  then show ?thesis
    using fail_ok [OF assms(1) nf]
    by (auto simp: handle_finished_def Let_def tls_step_ok_def is_failed_def) (simp_all add: set_receive_def)
qed

lemma key_update_ok:
  assumes "tls_inv cr s" "sv_state s = Established"
  shows "tls_step_ok cr s (handle_key_update cr body s)"
proof -
  have nf: "\<not> is_failed s" using assms(2) by (simp add: is_failed_def)
  let ?t = "update_secret cr (sv_suite s) (sv_client_traffic s)"
  let ?s = "set_receive cr ?t (s\<lparr>sv_client_traffic := ?t\<rparr>)"
  have "peer_authenticated cr ?s = peer_authenticated cr s" "finished_verified cr ?s = finished_verified cr s"
    by (simp_all add: set_receive_def auth_defs)
  then have inv: "tls_inv cr ?s" using assms by (simp add: tls_inv_def) (simp add: set_receive_def)
  have est: "is_established ?s" using assms(2) by (simp add: is_established_def set_receive_def)
  show ?thesis
    using fail_ok [OF assms(1) nf] inv tls_inv_update [OF inv est] assms(2)
    by (simp add: handle_key_update_def Let_def tls_step_ok_def is_failed_def)
      (simp add: set_receive_def)
qed

lemma send_hello_fields [simp]:
  "sv_state (send_hello cr random session share s) = sv_state s" "sv_peer (send_hello cr random session share s) = sv_peer s"
  "sv_receive (send_hello cr random session share s) = sv_receive s"
  "is_protected (sv_send (send_hello cr random session share s)) = is_protected (sv_send s)"
  "sv_application (send_hello cr random session share s) = sv_application s"
  "sv_context (send_hello cr random session share s) = sv_context s"
  "sv_input (send_hello cr random session share s) = sv_input s"
  "sv_handshake (send_hello cr random session share s) = sv_handshake s"
  "sv_closed (send_hello cr random session share s) = sv_closed s"
  by (simp_all add: send_hello_def send_compatibility_def Let_def)

lemma send_flight_fields [simp]:
  "sv_state (send_flight cr s) = sv_state s" "sv_peer (send_flight cr s) = sv_peer s"
  "sv_receive (send_flight cr s) = sv_receive s" "is_protected (sv_send (send_flight cr s))"
  "sv_application (send_flight cr s) = sv_application s" "sv_context (send_flight cr s) = sv_context s"
  "sv_input (send_flight cr s) = sv_input s" "sv_handshake (send_flight cr s) = sv_handshake s"
  "sv_closed (send_flight cr s) = sv_closed s"
  by (simp_all add: send_flight_def set_send_def Let_def)

lemma accept_share_fields [simp]:
  "sv_state (accept_share cr message session shared own s) =
    (if tc_request (sv_context s) then Client_Certificate else Client_Finished)"
  "sv_peer (accept_share cr message session shared own s) = sv_peer s"
  "is_protected (sv_receive (accept_share cr message session shared own s))"
  "is_protected (sv_send (accept_share cr message session shared own s))"
  "sv_application (accept_share cr message session shared own s) = sv_application s"
  "sv_context (accept_share cr message session shared own s) = sv_context s"
  "sv_input (accept_share cr message session shared own s) = sv_input s"
  "sv_handshake (accept_share cr message session shared own s) = sv_handshake s"
  "sv_closed (accept_share cr message session shared own s) = sv_closed s"
  by (simp_all add: accept_share_def set_send_def set_receive_def Let_def)

lemma send_retry_fields [simp]:
  "sv_state (send_retry cr message session s) = Retry_Hello" "sv_peer (send_retry cr message session s) = sv_peer s"
  "sv_receive (send_retry cr message session s) = sv_receive s"
  "is_protected (sv_send (send_retry cr message session s)) = is_protected (sv_send s)"
  "sv_application (send_retry cr message session s) = sv_application s"
  "sv_context (send_retry cr message session s) = sv_context s" "sv_input (send_retry cr message session s) = sv_input s"
  "sv_handshake (send_retry cr message session s) = sv_handshake s" "sv_closed (send_retry cr message session s) = sv_closed s"
  by (simp_all add: send_retry_def Let_def)

definition awaits_hello :: "tls_server \<Rightarrow> bool" where
  "awaits_hello s \<longleftrightarrow> (sv_state s = Client_Hello \<or> sv_state s = Retry_Hello) \<and>
    \<not> is_protected (sv_receive s) \<and> \<not> is_protected (sv_send s) \<and> sv_peer s = [] \<and> sv_application s = []"

lemma awaits_hello_inv: "awaits_hello s \<Longrightarrow> tls_inv cr s" "awaits_hello s \<Longrightarrow> \<not> is_failed s"
  by (auto simp: awaits_hello_def tls_inv_def is_failed_def)

lemma awaits_hello_update [simp]:
  "awaits_hello (s\<lparr>sv_suite := x\<rparr>) = awaits_hello s" "awaits_hello (s\<lparr>sv_group := x\<rparr>) = awaits_hello s"
  "awaits_hello (s\<lparr>sv_transcript := t\<rparr>) = awaits_hello s"
  by (simp_all add: awaits_hello_def)

text \<open>A client hello fails, is retried or accepted, on a state that differs in the suite, the group and the transcript.\<close>

definition hello_same :: "tls_server \<Rightarrow> tls_server \<Rightarrow> bool" where
  "hello_same s s' \<longleftrightarrow> sv_context s' = sv_context s \<and> sv_input s' = sv_input s \<and> sv_handshake s' = sv_handshake s \<and>
    sv_closed s' = sv_closed s \<and> awaits_hello s' = awaits_hello s"

definition hello_outcome :: "tls_crypto \<Rightarrow> bytes \<Rightarrow> tls_server \<Rightarrow> bool \<times> tls_server \<Rightarrow> bool" where
  "hello_outcome cr message s r \<longleftrightarrow> (\<exists>s'. hello_same s s' \<and>
    ((\<exists>alert. r = tls_fail cr alert s') \<or> (\<exists>session. r = (True, send_retry cr message session s')) \<or>
     (\<exists>session shared own. r = (True, accept_share cr message session shared own s'))))"

lemma hello_outcomes:
  "hello_same s s' \<Longrightarrow> hello_outcome cr message s (tls_fail cr alert s')"
  "hello_same s s' \<Longrightarrow> hello_outcome cr message s (True, send_retry cr message session s')"
  "hello_same s s' \<Longrightarrow> hello_outcome cr message s (True, accept_share cr message session shared own s')"
  unfolding hello_outcome_def by blast+

lemma client_hello_cases: "hello_outcome cr message s (handle_client_hello cr message body s)"
proof -
  have same: "hello_same s s" "hello_same s (s\<lparr>sv_suite := x\<rparr>)" "hello_same s (s\<lparr>sv_suite := x, sv_transcript := t\<rparr>)"
    "hello_same s (s\<lparr>sv_suite := x, sv_group := g\<rparr>)" "hello_same s (s\<lparr>sv_suite := x, sv_group := g, sv_transcript := t\<rparr>)"
    "hello_same s (s\<lparr>sv_suite := x, sv_transcript := t, sv_group := g\<rparr>)" for x t g by (simp_all add: hello_same_def)
  show ?thesis
    unfolding handle_client_hello_def Let_def
    by (simp add: hello_outcomes same split: sum.splits option.splits prod.splits)
qed

lemma client_hello_ok:
  assumes "tls_inv cr s" "sv_state s = Client_Hello \<or> sv_state s = Retry_Hello" "tls_config_ok s"
  shows "tls_step_ok cr s (handle_client_hello cr message body s)"
proof -
  have "awaits_hello s" using assms by (auto simp: awaits_hello_def tls_inv_def)
  then obtain s' where s': "sv_context s' = sv_context s" "sv_input s' = sv_input s" "awaits_hello s'" and
    cases: "(\<exists>alert. handle_client_hello cr message body s = tls_fail cr alert s') \<or>
     (\<exists>session. handle_client_hello cr message body s = (True, send_retry cr message session s')) \<or>
     (\<exists>session shared own. handle_client_hello cr message body s = (True, accept_share cr message session shared own s'))"
    using client_hello_cases [of cr message s body] unfolding hello_outcome_def hello_same_def by blast
  have fails: "tls_step_ok cr s (tls_fail cr alert s')" for alert
    using fail_ok [OF awaits_hello_inv [OF s'(3)]] s'(1,2) by (simp add: tls_step_ok_def)
  have retries: "tls_step_ok cr s (True, send_retry cr message session s')" for session
    using s' by (simp add: tls_step_ok_def tls_inv_def is_failed_def awaits_hello_def)
  have accepts: "tls_step_ok cr s (True, accept_share cr message session shared own s')" for session shared own
    using s' assms(3) by (auto simp: tls_step_ok_def tls_inv_def is_failed_def awaits_hello_def peer_authenticated_def tls_config_ok_def)
  show ?thesis using cases fails retries accepts by auto
qed

lemma message_ok:
  assumes "tls_inv cr s" "\<not> is_failed s" "tls_config_ok s"
  shows "tls_step_ok cr s (handle_message cr type message (drop message_header_size message) s)"
  using client_hello_ok [OF assms(1) _ assms(3)] certificate_ok [OF assms(1)] certificate_verify_ok [OF assms(1)]
    finished_ok [OF assms(1)] key_update_ok [OF assms(1)] fail_ok [OF assms(1,2)]
  by (auto simp: handle_message_def)

lemma step_ok_trans:
  "tls_step_ok cr s (True, s') \<Longrightarrow> tls_step_ok cr s' r \<Longrightarrow> tls_step_ok cr s r"
  by (simp add: tls_step_ok_def)

lemma handshake_messages_ok:
  "tls_inv cr s \<Longrightarrow> \<not> is_failed s \<Longrightarrow> tls_config_ok s \<Longrightarrow> tls_step_ok cr s (handshake_messages cr buffer s)"
proof (induction buffer arbitrary: s rule: length_induct)
  case (1 buffer)
  have buffered: "tls_inv cr (s\<lparr>sv_handshake := x\<rparr>)" "\<not> is_failed (s\<lparr>sv_handshake := x\<rparr>)" "tls_config_ok (s\<lparr>sv_handshake := x\<rparr>)" for x
    using 1(2-4) by (simp_all add: is_failed_def tls_config_ok_def)
  have waits: "tls_step_ok cr s (True, s\<lparr>sv_handshake := x\<rparr>)" for x
    using buffered by (simp add: tls_step_ok_def)
  have fails: "tls_step_ok cr s (tls_fail cr alert (s\<lparr>sv_handshake := x\<rparr>))" for alert x
    using fail_ok [OF buffered(1,2)] by (simp add: tls_step_ok_def)
  let ?n = "handshake_body_size buffer"
  let ?total = "message_header_size + ?n"
  let ?m = "take ?total buffer" and ?rest = "drop ?total buffer"
  obtain ok s' where m: "handle_message cr (buffer ! 0) ?m (drop message_header_size ?m) (s\<lparr>sv_handshake := ?rest\<rparr>) = (ok, s')"
    by (metis surj_pair)
  have step: "tls_step_ok cr s (ok, s')"
    using message_ok [OF buffered, of ?rest "buffer ! 0" ?m] unfolding m by (simp add: tls_step_ok_def)
  show ?case
  proof (cases "length buffer < message_header_size \<or> maximum_message < ?n \<or> length buffer < ?total \<or> \<not> ok")
    case True
    then show ?thesis
      using waits fails step m by (subst handshake_messages.simps) (auto simp: Let_def)
  next
    case False
    then have go: "handshake_messages cr buffer s =
        (if sv_epoch s \<noteq> sv_epoch s' \<and> ?rest \<noteq> [] then tls_fail cr alert_unexpected_message s' else handshake_messages cr ?rest s')"
      using m by (subst handshake_messages.simps) (simp add: Let_def)
    have s': "tls_inv cr s'" "\<not> is_failed s'" "tls_config_ok s'"
      using step False 1(4) by (simp_all add: tls_step_ok_def tls_config_ok_def)
    have "length ?rest < length buffer" using False by (auto simp: message_header_size_def)
    then have rest: "tls_step_ok cr s' (handshake_messages cr ?rest s')" using 1(1) s' by blast
    have "ok" using False by simp
    then have "tls_step_ok cr s (True, s')" using step by simp
    then have "tls_step_ok cr s r" if "tls_step_ok cr s' r" for r using that by (rule step_ok_trans)
    with fail_ok [OF s'(1,2)] rest go show ?thesis by (simp split: if_splits)
  qed
qed

lemma content_ok:
  assumes "tls_inv cr s" "\<not> is_failed s" "tls_config_ok s"
  shows "tls_step_ok cr s (handle_content cr type content s)"
proof -
  have "tls_step_ok cr s (True, s\<lparr>sv_application := sv_application s @ content\<rparr>)" if "is_established s"
    using assms that by (simp add: tls_step_ok_def tls_inv_def is_established_def is_failed_def)
  then show ?thesis
    using fail_ok [OF assms(1,2)] alert_ok [OF assms(1,2)] handshake_messages_ok [OF assms]
    by (simp add: handle_content_def handle_handshake_def)
qed

lemma record_ok:
  assumes "tls_inv cr s" "\<not> is_failed s" "tls_config_ok s"
  shows "tls_step_ok cr s (handle_record cr type header fragment s)"
proof -
  have opened: "tls_inv cr (s\<lparr>sv_receive := r\<rparr>)" if "is_protected (sv_receive s)" "record_open cr header fragment (sv_receive s) = (x, r)" for x r
  proof -
    have "is_protected r"
      using that by (auto simp: record_open_def next_nonce_def is_protected_def Let_def split: if_splits option.splits)
    with assms(1) that(1) show ?thesis by (simp add: tls_inv_def split: tls_state.splits)
  qed
  have rest: "\<not> is_failed (s\<lparr>sv_receive := r\<rparr>)" "tls_config_ok (s\<lparr>sv_receive := r\<rparr>)" for r
    using assms(2,3) by (simp_all add: is_failed_def tls_config_ok_def)
  have lifted: "tls_step_ok cr s x" if "tls_step_ok cr (s\<lparr>sv_receive := r\<rparr>) x" for r x
    using that by (simp add: tls_step_ok_def)
  have boxed: "tls_step_ok cr s (case record_open cr header fragment (sv_receive s) of
      (None, r) \<Rightarrow> tls_fail cr alert_bad_record_mac (s\<lparr>sv_receive := r\<rparr>)
    | (Some (inner, content), r) \<Rightarrow>
        let s = s\<lparr>sv_receive := r\<rparr> in
        if maximum_plaintext < length content then tls_fail cr alert_record_overflow s else handle_content cr inner content s)"
    if "is_protected (sv_receive s)"
  proof -
    obtain x r where o: "record_open cr header fragment (sv_receive s) = (x, r)" by (metis surj_pair)
    note inv = opened [OF that o]
    show ?thesis
      using lifted [OF fail_ok [OF inv rest(1)]] lifted [OF content_ok [OF inv rest]]
      by (auto simp: o Let_def split: option.splits)
  qed
  have same: "tls_step_ok cr s (True, s)" using assms by (simp add: tls_step_ok_def)
  show ?thesis
    using fail_ok [OF assms(1,2)] content_ok [OF assms] boxed same
    by (auto simp: handle_record_def)
qed

lemma receive_records_ok:
  "tls_inv cr s \<Longrightarrow> tls_config_ok s \<Longrightarrow> receive_records cr available s = (ok, rest, s') \<Longrightarrow>
    tls_inv cr s' \<and> sv_context s' = sv_context s \<and> sv_input s' = sv_input s \<and> (\<not> is_failed s \<longrightarrow> ok = (\<not> is_failed s')) \<and>
    (is_failed s \<longrightarrow> s' = s) \<and>
    (ok \<longrightarrow> is_failed s' \<or> sv_closed s' \<or> length rest < record_header_size + maximum_ciphertext)"
proof (induction available arbitrary: s rule: length_induct)
  case (1 available)
  let ?n = "record_fragment_size available"
  let ?fragment = "take ?n (drop record_header_size available)" and ?rest = "drop (record_header_size + ?n) available"
  note run = 1(4)
  show ?case
  proof (cases "is_failed s \<or> sv_closed s \<or> length available < record_header_size + maximum_ciphertext \<and>
      (length available < record_header_size \<or> ?n \<le> maximum_ciphertext \<and> length available < record_header_size + ?n)")
    case True
    then have "(ok, rest, s') = (True, available, s)"
      using run by (subst (asm) receive_records.simps) (auto simp: Let_def split: if_splits)
    with 1(2) True show ?thesis by auto
  next
    case False
    then have live: "\<not> is_failed s" "\<not> sv_closed s" "record_header_size \<le> length available"
      by (auto simp: record_sizes)
    show ?thesis
    proof (cases "maximum_ciphertext < ?n")
      case True
      then have "(ok, rest, s') = (False, available, snd (tls_fail cr alert_record_overflow s))"
        using run live by (subst (asm) receive_records.simps) (simp add: Let_def)
      with fail_ok [OF 1(2) live(1), of cr alert_record_overflow] live(1) show ?thesis
        by (auto simp: tls_step_ok_def tls_fail_def)
    next
      case small: False
      show ?thesis
      proof (cases "length available < record_header_size + ?n")
        case True
        then have "(ok, rest, s') = (True, available, s)"
          using run small live by (subst (asm) receive_records.simps) (simp add: Let_def)
        with True small 1(2) live show ?thesis by auto
      next
        case whole: False
        obtain ok1 s1 where r: "handle_record cr (available ! 0) (take record_header_size available) ?fragment s = (ok1, s1)"
          by (metis surj_pair)
        have step: "tls_step_ok cr s (ok1, s1)"
          using record_ok [OF 1(2) live(1) 1(3)] r by metis
        show ?thesis
        proof (cases ok1)
          case True
          then have again: "receive_records cr ?rest s1 = (ok, rest, s')"
            using run small whole live r by (subst (asm) receive_records.simps) (simp add: Let_def)
          have shorter: "length ?rest < length available" using live(3) by (auto simp: record_header_size_def)
          have s1: "tls_inv cr s1" "tls_config_ok s1" "\<not> is_failed s1" "sv_context s1 = sv_context s" "sv_input s1 = sv_input s"
            using step 1(3) True by (simp_all add: tls_step_ok_def tls_config_ok_def)
          show ?thesis using 1(1) [rule_format, OF shorter s1(1,2) again] s1 live(1) by auto
        next
          case False
          then have "(ok, rest, s') = (False, ?rest, s1)"
            using run small whole live r by (subst (asm) receive_records.simps) (simp add: Let_def)
          with step False live(1) show ?thesis by (simp add: tls_step_ok_def)
        qed
      qed
    qed
  qed
qed

section \<open>The handshake buffer\<close>

definition handshake_bounded :: "tls_server \<Rightarrow> bool" where
  "handshake_bounded s \<longleftrightarrow> length (sv_handshake s) < message_header_size + maximum_message"

lemma handshake_messages_bounded:
  "handshake_messages cr buffer s = (True, s') \<Longrightarrow> handshake_bounded s'"
proof (induction buffer arbitrary: s rule: length_induct)
  case (1 buffer)
  let ?n = "handshake_body_size buffer"
  let ?total = "message_header_size + ?n"
  let ?m = "take ?total buffer" and ?rest = "drop ?total buffer"
  obtain ok s1 where m: "handle_message cr (buffer ! 0) ?m (drop message_header_size ?m) (s\<lparr>sv_handshake := ?rest\<rparr>) = (ok, s1)"
    by (metis surj_pair)
  have failing: "tls_fail cr alert x \<noteq> (True, s')" for alert x by (simp add: tls_fail_def)
  show ?case
  proof (cases "length buffer < message_header_size \<or> ?n \<le> maximum_message \<and> length buffer < ?total")
    case True
    then have "s' = s\<lparr>sv_handshake := buffer\<rparr>"
      using 1(2) by (subst (asm) handshake_messages.simps) (auto simp: Let_def split: if_splits)
    with True show ?thesis by (auto simp: handshake_bounded_def maximum_message_def)
  next
    case False
    moreover have "?n \<le> maximum_message"
      using 1(2) False failing by (subst (asm) handshake_messages.simps) (auto simp: Let_def split: if_splits)
    ultimately have "handshake_messages cr ?rest s1 = (True, s')" "length ?rest < length buffer"
      using 1(2) m failing by (subst (asm) handshake_messages.simps,
        auto simp: Let_def message_header_size_def split: if_splits bool.splits)
    then show ?thesis using 1(1) by blast
  qed
qed

lemma content_bounded:
  assumes "handle_content cr type content s = (True, s')" "handshake_bounded s"
  shows "handshake_bounded s'"
proof -
  have failing: "tls_fail cr alert x \<noteq> (True, s')" for alert x by (simp add: tls_fail_def)
  have same: "handshake_bounded (s\<lparr>sv_closed := b\<rparr>)" "handshake_bounded (s\<lparr>sv_application := x\<rparr>)" for b x
    using assms(2) by (simp_all add: handshake_bounded_def)
  show ?thesis
    using assms same by (auto simp: handle_content_def handle_alert_def handle_handshake_def failing
        split: if_splits dest: handshake_messages_bounded)
qed

lemma record_bounded:
  assumes "handle_record cr type header fragment s = (True, s')" "handshake_bounded s"
  shows "handshake_bounded s'"
proof -
  have failing: "tls_fail cr alert x \<noteq> (True, s')" for alert x by (simp add: tls_fail_def)
  have same: "handshake_bounded (s\<lparr>sv_receive := r\<rparr>)" for r using assms(2) by (simp add: handshake_bounded_def)
  show ?thesis
    using assms same by (auto simp: handle_record_def failing Let_def split: if_splits prod.splits option.splits
        dest: content_bounded)
qed

lemma receive_records_bounded:
  "receive_records cr available s = (True, rest, s') \<Longrightarrow> handshake_bounded s \<Longrightarrow> handshake_bounded s'"
proof (induction available arbitrary: s rule: length_induct)
  case (1 available)
  let ?n = "record_fragment_size available"
  let ?fragment = "take ?n (drop record_header_size available)" and ?rest = "drop (record_header_size + ?n) available"
  obtain ok1 s1 where r: "handle_record cr (available ! 0) (take record_header_size available) ?fragment s = (ok1, s1)"
    by (metis surj_pair)
  show ?case
  proof (cases "s' = s")
    case False
    then have "receive_records cr ?rest s1 = (True, rest, s')" "ok1" "length ?rest < length available"
      using 1(2) r by (subst (asm) receive_records.simps, auto simp: Let_def record_header_size_def split: if_splits bool.splits)+
    moreover have "handshake_bounded s1" using record_bounded r \<open>ok1\<close> 1(3) by metis
    ultimately show ?thesis using 1(1) by blast
  qed (use 1(3) in simp)
qed

section \<open>Reachable states\<close>

text \<open>A connection and the operations of its owner, who also consumes the output.\<close>

inductive tls_reach :: "tls_crypto \<Rightarrow> tls_context \<Rightarrow> tls_server \<Rightarrow> bool" for cr ctx where
  tls_created: "tls_reach cr ctx (make_server ctx random ephemeral generated clock)"
| tls_received: "tls_reach cr ctx s \<Longrightarrow> tls_reach cr ctx (snd (tls_receive cr data s))"
| tls_written: "tls_reach cr ctx s \<Longrightarrow> tls_reach cr ctx (snd (tls_write cr data s))"
| tls_readed: "tls_reach cr ctx s \<Longrightarrow> tls_reach cr ctx (snd (tls_read n s))"
| tls_closed: "tls_reach cr ctx s \<Longrightarrow> tls_reach cr ctx (tls_close cr s)"
| tls_consumed: "tls_reach cr ctx s \<Longrightarrow> tls_reach cr ctx (s\<lparr>sv_output := out\<rparr>)"

definition tls_bounded :: "tls_server \<Rightarrow> bool" where
  "tls_bounded s \<longleftrightarrow>
    (is_failed s \<or> sv_closed s \<or> length (sv_input s) < record_header_size + maximum_ciphertext \<and> handshake_bounded s)"

lemma tls_inv_output [simp]: "tls_inv cr (s\<lparr>sv_output := x\<rparr>) = tls_inv cr s"
  by (simp add: tls_inv_def split: tls_state.splits)

lemma receive_ok:
  assumes "tls_inv cr s" "tls_config_ok s" "tls_bounded s"
  shows "tls_inv cr (snd (tls_receive cr data s))" "sv_context (snd (tls_receive cr data s)) = sv_context s"
    "tls_bounded (snd (tls_receive cr data s))"
    "\<not> is_failed s \<Longrightarrow> \<not> sv_closed s \<Longrightarrow> fst (tls_receive cr data s) = (\<not> is_failed (snd (tls_receive cr data s)))"
proof -
  let ?s = "s\<lparr>sv_input := []\<rparr>"
  obtain ok rest s' where r: "receive_records cr (sv_input s @ data) ?s = (ok, rest, s')" by (metis surj_pair)
  have pre: "tls_inv cr ?s" "tls_config_ok ?s" "is_failed ?s = is_failed s"
    using assms by (simp_all add: tls_config_ok_def is_failed_def)
  note facts = receive_records_ok [OF pre(1,2) r]
  have flags: "is_failed (s'\<lparr>sv_input := x\<rparr>) = is_failed s'" for x by (simp add: is_failed_def)
  show "tls_inv cr (snd (tls_receive cr data s))" "sv_context (snd (tls_receive cr data s)) = sv_context s"
    using facts assms(1) by (auto simp: tls_receive_def r Let_def split: bool.splits)
  show "\<not> is_failed s \<Longrightarrow> \<not> sv_closed s \<Longrightarrow> fst (tls_receive cr data s) = (\<not> is_failed (snd (tls_receive cr data s)))"
    using facts pre(3) by (auto simp: tls_receive_def r Let_def flags split: bool.splits)
  show "tls_bounded (snd (tls_receive cr data s))"
  proof (cases "is_failed s \<or> sv_closed s")
    case True
    then show ?thesis using assms(3) by (auto simp: tls_receive_def)
  next
    case False
    then have "handshake_bounded ?s" using assms(3) by (simp add: tls_bounded_def handshake_bounded_def)
    then have "ok \<Longrightarrow> handshake_bounded (s'\<lparr>sv_input := rest\<rparr>)"
      using receive_records_bounded r by (auto simp: handshake_bounded_def)
    with False facts pre(3) show ?thesis
      by (auto simp: tls_receive_def r Let_def tls_bounded_def flags split: bool.splits)
  qed
qed

lemma tls_reach_inv:
  assumes "tc_require ctx \<longrightarrow> tc_request ctx"
  shows "tls_reach cr ctx s \<Longrightarrow> tls_inv cr s \<and> sv_context s = ctx \<and> tls_bounded s"
proof (induction rule: tls_reach.induct)
  case (tls_created random ephemeral generated clock)
  then show ?case
    by (simp add: make_server_def tls_inv_def is_protected_def record_init_def tls_bounded_def handshake_bounded_def
        record_sizes message_header_size_def)
next
  case (tls_received s data)
  then show ?case using receive_ok [of cr s data] assms by (simp add: tls_config_ok_def)
next
  case (tls_written s data)
  then show ?case
    by (auto simp: tls_write_def Let_def tls_bounded_def handshake_bounded_def is_failed_def intro: tls_inv_update)
next
  case (tls_readed s n)
  then have "tls_inv cr (s\<lparr>sv_application := drop n (sv_application s)\<rparr>)"
    by (auto simp: tls_inv_def split: tls_state.splits)
  with tls_readed show ?case by (simp add: tls_read_def tls_bounded_def handshake_bounded_def is_failed_def)
next
  case (tls_closed s)
  then show ?case by (auto simp: tls_close_def tls_bounded_def handshake_bounded_def is_failed_def)
next
  case (tls_consumed s out)
  then show ?case by (simp add: tls_bounded_def handshake_bounded_def is_failed_def)
qed

section \<open>Division of the bytes received\<close>

lemma record_size_append: "record_header_size \<le> length a \<Longrightarrow> record_fragment_size (a @ b) = record_fragment_size a"
  by (simp add: record_fragment_size_def record_header_size_def nth_append)

lemma receive_records_append:
  "receive_records cr a s = (ok, rest, s') \<Longrightarrow>
    (if ok then receive_records cr (a @ b) s = receive_records cr (rest @ b) s'
     else \<exists>left. receive_records cr (a @ b) s = (False, left, s'))"
proof (induction a arbitrary: s rule: length_induct)
  case (1 a)
  let ?n = "record_fragment_size a"
  let ?fragment = "take ?n (drop record_header_size a)" and ?rest = "drop (record_header_size + ?n) a"
  show ?case
  proof (cases "is_failed s \<or> sv_closed s \<or> length a < record_header_size \<or>
      ?n \<le> maximum_ciphertext \<and> length a < record_header_size + ?n")
    case True
    then have "(ok, rest, s') = (True, a, s)"
      using 1(2) by (subst (asm) receive_records.simps) (auto simp: Let_def split: if_splits)
    then show ?thesis by simp
  next
    case False
    then have live: "\<not> is_failed s" "\<not> sv_closed s" "record_header_size \<le> length a" by auto
    then have head: "(a @ b) ! 0 = a ! 0" "take record_header_size (a @ b) = take record_header_size a"
      "record_fragment_size (a @ b) = ?n"
      by (auto simp: record_header_size_def nth_append record_size_append)
    show ?thesis
    proof (cases "maximum_ciphertext < ?n")
      case True
      then have "ok = False" "s' = snd (tls_fail cr alert_record_overflow s)"
        using 1(2) live by (subst (asm) receive_records.simps, simp add: Let_def)+
      moreover have "receive_records cr (a @ b) s = (False, a @ b, snd (tls_fail cr alert_record_overflow s))"
        using True live head by (subst receive_records.simps) (simp add: Let_def)
      ultimately show ?thesis by simp
    next
      case small: False
      with False have whole: "record_header_size + ?n \<le> length a" by auto
      then have parts: "take ?n (drop record_header_size (a @ b)) = ?fragment"
        "drop (record_header_size + ?n) (a @ b) = ?rest @ b" by simp_all
      obtain ok1 s1 where r: "handle_record cr (a ! 0) (take record_header_size a) ?fragment s = (ok1, s1)"
        by (metis surj_pair)
      have run: "receive_records cr a s = (if ok1 then receive_records cr ?rest s1 else (False, ?rest, s1))"
        using live small whole r by (subst receive_records.simps) (simp add: Let_def)
      have run': "receive_records cr (a @ b) s = (if ok1 then receive_records cr (?rest @ b) s1 else (False, ?rest @ b, s1))"
        using live small whole r head parts by (subst receive_records.simps) (simp add: Let_def)
      have "length ?rest < length a" using live(3) by (auto simp: record_header_size_def)
      note shorter = this
      show ?thesis
      proof (cases ok1)
        case True
        then have again: "receive_records cr ?rest s1 = (ok, rest, s')" using 1(2) run by simp
        have "receive_records cr (a @ b) s = receive_records cr (?rest @ b) s1" using run' True by simp
        then show ?thesis using 1(1) [rule_format, OF shorter again] by (simp only:)
      next
        case False
        then show ?thesis using 1(2) run run' by simp
      qed
    qed
  qed
qed

lemma segmentation:
  fixes a b :: bytes
  assumes "tls_inv cr s" "tls_config_ok s"
  defines "s1 \<equiv> snd (tls_receive cr a s)"
  defines "s2 \<equiv> snd (tls_receive cr b s1)" and "t \<equiv> snd (tls_receive cr (a @ b) s)"
  shows "t\<lparr>sv_input := []\<rparr> = s2\<lparr>sv_input := []\<rparr>"
    "\<not> is_failed t \<Longrightarrow> \<not> sv_closed t \<Longrightarrow> t = s2 \<and> fst (tls_receive cr (a @ b) s) = fst (tls_receive cr b s1)"
proof -
  let ?s = "s\<lparr>sv_input := []\<rparr>"
  have pre: "tls_inv cr ?s" "tls_config_ok ?s" using assms(1,2) by (simp_all add: tls_config_ok_def)
  have flags: "is_failed (x\<lparr>sv_input := i\<rparr>) = is_failed x" for x i by (simp add: is_failed_def)
  obtain ok rest s' where r: "receive_records cr (sv_input s @ a) ?s = (ok, rest, s')" by (metis surj_pair)
  have input: "s'\<lparr>sv_input := []\<rparr> = s'" using receive_records_ok [OF pre r] by simp
  have outcome: "\<not> is_failed s \<longrightarrow> ok = (\<not> is_failed s')" using receive_records_ok [OF pre r] by (simp add: flags)
  have goal: "t\<lparr>sv_input := []\<rparr> = s2\<lparr>sv_input := []\<rparr> \<and>
    (\<not> is_failed t \<and> \<not> sv_closed t \<longrightarrow> t = s2 \<and> fst (tls_receive cr (a @ b) s) = fst (tls_receive cr b s1))"
  proof (cases "is_failed s \<or> sv_closed s")
    case True
    then have "s1 = s" "s2 = s" "t = s" by (auto simp: s1_def s2_def t_def tls_receive_def)
    with True show ?thesis by auto
  next
    case False
    show ?thesis
    proof (cases "ok \<and> \<not> sv_closed s'")
      case True
      then have s1: "s1 = s'\<lparr>sv_input := rest\<rparr>" using False r by (auto simp: s1_def tls_receive_def Let_def)
      have "receive_records cr (sv_input s @ a @ b) ?s = receive_records cr (rest @ b) s'"
        using receive_records_append [OF r, of b] True by simp
      then have joined: "receive_records cr (sv_input s @ a @ b) ?s = receive_records cr (rest @ b) s'" .
      have s1': "\<not> is_failed s1" "\<not> sv_closed s1" "s1\<lparr>sv_input := []\<rparr> = s'" "sv_input s1 = rest"
        using True outcome False input by (simp_all add: s1 flags)
      obtain ok2 left2 s3 where r2: "receive_records cr (rest @ b) s' = (ok2, left2, s3)" by (metis surj_pair)
      have "tls_inv cr s'" "tls_config_ok s'" "\<not> is_failed s'"
        using receive_records_ok [OF pre r] pre(2) True outcome False by (simp_all add: tls_config_ok_def)
      then have failed2: "ok2 = (\<not> is_failed s3)" using receive_records_ok [OF _ _ r2] by blast
      have whole: "tls_receive cr (a @ b) s = (if ok2 then (\<not> is_failed s3, s3\<lparr>sv_input := left2\<rparr>)
          else (False, s3\<lparr>sv_input := sv_input s @ a @ b\<rparr>))"
        using False joined r2 by (simp add: tls_receive_def Let_def split: bool.splits)
      have second: "tls_receive cr b s1 = (if ok2 then (\<not> is_failed s3, s3\<lparr>sv_input := left2\<rparr>)
          else (False, s3\<lparr>sv_input := rest @ b\<rparr>))"
        using s1' r2 by (simp add: tls_receive_def Let_def split: bool.splits)
      show ?thesis
        unfolding t_def s2_def whole second using failed2 by (cases ok2) (simp_all add: flags)
    next
      case stop: False
      have "\<exists>left. receive_records cr (sv_input s @ a @ b) ?s = (ok, left, s')"
      proof (cases ok)
        case True
        with stop have "receive_records cr (rest @ b) s' = (True, rest @ b, s')"
          by (subst receive_records.simps) simp
        with True receive_records_append [OF r, of b] show ?thesis by auto
      next
        case False
        then show ?thesis using receive_records_append [OF r, of b] by auto
      qed
      then obtain left where whole: "receive_records cr (sv_input s @ a @ b) ?s = (ok, left, s')" by blast
      have ended: "is_failed s' \<or> sv_closed s'" using stop outcome False by auto
      have left: "is_failed x \<or> sv_closed x" if "x\<lparr>sv_input := []\<rparr> = s'" for x
      proof -
        have "is_failed (x\<lparr>sv_input := []\<rparr>) = is_failed s'" "sv_closed (x\<lparr>sv_input := []\<rparr>) = sv_closed s'"
          by (simp_all only: that)
        then show ?thesis using ended by (simp only: flags) simp
      qed
      have one: "s1\<lparr>sv_input := []\<rparr> = s'" using False r input by (auto simp: s1_def tls_receive_def Let_def split: bool.splits)
      then have "s2 = s1" using left [OF one] by (auto simp: s2_def tls_receive_def)
      moreover have whole': "t\<lparr>sv_input := []\<rparr> = s'"
        using False whole input by (auto simp: t_def tls_receive_def Let_def split: bool.splits)
      ultimately show ?thesis using one left [OF whole'] by auto
    qed
  qed
  from goal show "t\<lparr>sv_input := []\<rparr> = s2\<lparr>sv_input := []\<rparr>" by simp
  from goal show "\<not> is_failed t \<Longrightarrow> \<not> sv_closed t \<Longrightarrow> t = s2 \<and> fst (tls_receive cr (a @ b) s) = fst (tls_receive cr b s1)" by simp
qed

end
