(* ===== verification/Tls_Exchange.thy ===== *)
theory Tls_Exchange
  imports Tls_Safety
begin

text \<open>
  What a client and the server exchange: the records that the server writes are opened by a client with its keys
  (\<open>tls_write_delivered\<close>), and what a client seals with the keys of the server is handled in its order
  (\<open>receive_sealed\<close>, \<open>receive_data\<close>, \<open>finished_message\<close>). The properties of the server close the theory, with a
  connection that reaches them. Their contexts are those that \<open>set_verify\<close> makes: a required certificate is requested.
\<close>

section \<open>Records as a peer opens them\<close>

definition record_at :: "bytes \<Rightarrow> bytes \<times> bytes \<times> bytes" where
  "record_at available = (let n = record_fragment_size available in
     (take record_header_size available, take n (drop record_header_size available), drop (record_header_size + n) available))"

text \<open>
  A client that reads: the protection of the records it reads, the traffic secret of the server and the application
  data so far. It follows the key updates of the server.
\<close>

record tls_client =
  cl_record :: tls_record
  cl_traffic :: bytes
  cl_data :: bytes

definition client_of :: "tls_server \<Rightarrow> tls_client" where
  "client_of s = \<lparr>cl_record = sv_send s, cl_traffic = sv_server_traffic s, cl_data = []\<rparr>"

definition client_content :: "tls_crypto \<Rightarrow> uint16 \<Rightarrow> byte \<Rightarrow> bytes \<Rightarrow> tls_client \<Rightarrow> tls_client" where
  "client_content cr suite type content c =
    (if type = content_application_data then c\<lparr>cl_data := cl_data c @ content\<rparr>
     else if type = content_handshake \<and> content = make_message handshake_key_update [update_not_requested] then
       (let traffic = update_secret cr suite (cl_traffic c)
        in c\<lparr>cl_traffic := traffic, cl_record := record_set_secret cr suite traffic (cl_record c)\<rparr>)
     else c)"

text \<open>The client after all records of the bytes, none when one of them does not open.\<close>

function client_opens :: "tls_crypto \<Rightarrow> uint16 \<Rightarrow> bytes \<Rightarrow> tls_client \<Rightarrow> tls_client option" where
  "client_opens cr suite available c =
    (if available = [] then Some c
     else if length available < record_header_size + record_fragment_size available then None
     else
       (case record_at available of (header, fragment, rest) \<Rightarrow>
        case record_open cr header fragment (cl_record c) of
          (None, _) \<Rightarrow> None
        | (Some (type, content), r) \<Rightarrow> client_opens cr suite rest (client_content cr suite type content (c\<lparr>cl_record := r\<rparr>))))"
  by pat_completeness auto
termination
  by (relation "measure (\<lambda>(_, _, available, _). length available)") (auto simp: record_at_def Let_def record_header_size_def)

declare client_opens.simps [simp del]

lemma fragment_size_header:
  assumes "n < 2 ^ 16"
  shows "record_fragment_size (protected_header n @ rest) = n"
proof -
  have "push_bit 8 (ucast (ucast (drop_bit 8 w) :: byte)) OR ucast (ucast w :: byte) = w" for w :: uint16
    by (rule bit_word_eqI) (auto simp: bit_simps)
  then show ?thesis
    using assms by (simp add: record_fragment_size_def protected_header_def be_bytes16_def unat_of_nat_16)
qed

lemma record_at_header:
  assumes "length fragment < 2 ^ 16"
  shows "record_at (protected_header (length fragment) @ fragment @ rest) =
    (protected_header (length fragment), fragment, rest)"
  using fragment_size_header [OF assms, of "fragment @ rest"] by (simp add: record_at_def Let_def)

lemma record_seal_protected:
  "is_protected r \<Longrightarrow> is_protected (snd (record_seal cr type content r))"
  by (auto simp: record_seal_def is_protected_def next_nonce_def Let_def split: option.splits)

lemma client_opens_sealed:
  assumes "aead_laws cr" "is_protected (cl_record c)" "type \<noteq> 0" "length content \<le> maximum_plaintext"
  shows "client_opens cr suite (fst (record_seal cr type content (cl_record c)) @ rest) c =
    client_opens cr suite rest (client_content cr suite type content (c\<lparr>cl_record := snd (record_seal cr type content (cl_record c))\<rparr>))"
proof -
  let ?r = "cl_record c"
  obtain fragment where f: "fst (record_seal cr type content ?r) = protected_header (length fragment) @ fragment"
    "record_open cr (protected_header (length fragment)) fragment ?r = (Some (type, content), snd (record_seal cr type content ?r))"
    "length fragment = length content + 1 + aead_tag_size"
    using open_sealed [OF assms(1-3)] by metis
  have small: "length fragment < 2 ^ 16" using f(3) assms(4) by (simp add: maximum_plaintext_def aead_tag_size_def)
  show ?thesis
    using f(2) fragment_size_header [OF small, of "fragment @ rest"] record_at_header [OF small, of rest]
    by (subst client_opens.simps) (auto simp: f(1) protected_header_def record_header_size_def)
qed

lemma content_types_nonzero [simp]: "content_application_data \<noteq> 0" "content_handshake \<noteq> 0" "content_alert \<noteq> 0"
  "content_handshake \<noteq> content_application_data"
  by (simp_all add: content_types)

section \<open>What the server writes\<close>

text \<open>The client reads on with the keys of the server.\<close>

definition in_step :: "tls_client \<Rightarrow> tls_server \<Rightarrow> bool" where
  "in_step c s \<longleftrightarrow> cl_record c = sv_send s \<and> cl_traffic c = sv_server_traffic s \<and> is_protected (sv_send s)"

lemma seal_output:
  "server_seal cr type content s =
    s\<lparr>sv_output := sv_output s @ fst (record_seal cr type content (sv_send s)), sv_send := snd (record_seal cr type content (sv_send s))\<rparr>"
  by (simp add: server_seal_def case_prod_unfold)

lemma tls_send_delivered:
  assumes "aead_laws cr" "in_step c s"
  shows "\<exists>out c'. sv_output (tls_send cr content_application_data data s) = sv_output s @ out \<and>
    in_step c' (tls_send cr content_application_data data s) \<and> cl_data c' = cl_data c @ data \<and>
    (\<forall>rest. client_opens cr suite (out @ rest) c = client_opens cr suite rest c')"
  using assms
proof (induction data arbitrary: s c rule: length_induct)
  case (1 data)
  show ?case
  proof (cases "data = []")
    case True
    then show ?thesis
      using 1(3) by (intro exI [of _ "[]"] exI [of _ c]) (simp add: tls_send.simps)
  next
    case False
    let ?part = "take maximum_plaintext data" and ?type = content_application_data
    let ?s = "server_seal cr ?type ?part s" and ?sealed = "record_seal cr ?type ?part (sv_send s)"
    let ?c = "c\<lparr>cl_record := snd ?sealed, cl_data := cl_data c @ ?part\<rparr>"
    have shorter: "length (drop maximum_plaintext data) < length data" using False by (simp add: maximum_plaintext_def)
    have step: "in_step ?c ?s" using 1(3) by (simp add: in_step_def seal_output record_seal_protected)
    obtain out c' where rest: "sv_output (tls_send cr ?type (drop maximum_plaintext data) ?s) = sv_output ?s @ out"
      "in_step c' (tls_send cr ?type (drop maximum_plaintext data) ?s)"
      "cl_data c' = cl_data ?c @ drop maximum_plaintext data"
      "\<And>rest. client_opens cr suite (out @ rest) ?c = client_opens cr suite rest c'"
      using 1(1) [rule_format, OF shorter 1(2) step] by blast
    have "client_opens cr suite ((fst ?sealed @ out) @ rest) c = client_opens cr suite rest c'" for rest
      using client_opens_sealed [OF 1(2), of c ?type ?part suite "out @ rest"] 1(3) rest(4) [of rest]
      by (simp add: in_step_def client_content_def)
    moreover have "tls_send cr ?type data s = tls_send cr ?type (drop maximum_plaintext data) ?s"
      using False by (subst tls_send.simps) simp
    ultimately show ?thesis
      using rest(1-3) by (intro exI [of _ "fst ?sealed @ out"] exI [of _ c']) (simp add: seal_output)
  qed
qed

lemma send_update_delivered:
  assumes "aead_laws cr" "in_step c s"
  shows "\<exists>out c'. sv_output (send_update cr s) = sv_output s @ out \<and> in_step c' (send_update cr s) \<and> cl_data c' = cl_data c \<and>
    (\<forall>rest. client_opens cr (sv_suite s) (out @ rest) c = client_opens cr (sv_suite s) rest c')"
proof -
  let ?update = "make_message handshake_key_update [update_not_requested]"
  let ?sealed = "record_seal cr content_handshake ?update (sv_send s)"
  let ?traffic = "update_secret cr (sv_suite s) (sv_server_traffic s)"
  let ?c = "c\<lparr>cl_traffic := ?traffic, cl_record := record_set_secret cr (sv_suite s) ?traffic (snd ?sealed)\<rparr>"
  have one: "?update \<noteq> []" "length ?update \<le> maximum_plaintext" by (simp_all add: make_message_def maximum_plaintext_def)
  then have "tls_send cr content_handshake ?update s = server_seal cr content_handshake ?update s"
    by (subst tls_send.simps, simp, subst tls_send.simps, simp)
  then have s: "send_update cr s = s\<lparr>sv_output := sv_output s @ fst ?sealed, sv_server_traffic := ?traffic,
      sv_send := record_set_secret cr (sv_suite s) ?traffic (snd ?sealed)\<rparr>"
    by (simp add: send_update_def Let_def set_send_def seal_output)
  have "client_opens cr (sv_suite s) (fst ?sealed @ rest) c = client_opens cr (sv_suite s) rest ?c" for rest
    using client_opens_sealed [OF assms(1) _ _ one(2), of c content_handshake "sv_suite s" rest] assms(2)
    by (simp add: in_step_def client_content_def Let_def)
  then show ?thesis
    using assms(2) by (intro exI [of _ "fst ?sealed"] exI [of _ ?c]) (simp add: s in_step_def)
qed

definition tls_writes :: "tls_crypto \<Rightarrow> bytes list \<Rightarrow> tls_server \<Rightarrow> tls_server" where
  "tls_writes cr datas s = fold (\<lambda>data s. snd (tls_write cr data s)) datas s"

lemma tls_write_delivered:
  assumes "aead_laws cr" "in_step c s" "is_established s" "\<not> sv_close_sent s"
  shows "\<exists>out c'. sv_output (snd (tls_write cr data s)) = sv_output s @ out \<and> in_step c' (snd (tls_write cr data s)) \<and>
    cl_data c' = cl_data c @ data \<and>
    (\<forall>rest. client_opens cr (sv_suite s) (out @ rest) c = client_opens cr (sv_suite s) rest c')"
proof (cases "maximum_records \<le> rp_sequence (sv_send s)")
  case True
  obtain out1 c1 where u: "sv_output (send_update cr s) = sv_output s @ out1" "in_step c1 (send_update cr s)" "cl_data c1 = cl_data c"
    "\<And>rest. client_opens cr (sv_suite s) (out1 @ rest) c = client_opens cr (sv_suite s) rest c1"
    using send_update_delivered [OF assms(1,2)] by blast
  show ?thesis
    using tls_send_delivered [OF assms(1) u(2), of data "sv_suite s"] True assms(3,4) u
    by (force simp: tls_write_def)
next
  case False
  then show ?thesis
    using tls_send_delivered [OF assms(1,2), of data "sv_suite s"] assms(3,4) by (simp add: tls_write_def)
qed

lemma tls_write_keeps:
  "sv_suite (snd (tls_write cr data s)) = sv_suite s" "sv_state (snd (tls_write cr data s)) = sv_state s"
  "sv_close_sent (snd (tls_write cr data s)) = sv_close_sent s"
  by (simp_all add: tls_write_def Let_def)

lemma writes_delivered:
  assumes "aead_laws cr" "in_step c s" "is_established s" "\<not> sv_close_sent s"
  shows "\<exists>out c'. sv_output (tls_writes cr datas s) = sv_output s @ out \<and> in_step c' (tls_writes cr datas s) \<and>
    cl_data c' = cl_data c @ concat datas \<and> client_opens cr (sv_suite s) out c = Some c'"
  using assms(2-)
proof (induction datas arbitrary: s c)
  case Nil
  then show ?case by (auto simp: tls_writes_def client_opens.simps)
next
  case (Cons data datas)
  let ?s = "snd (tls_write cr data s)"
  obtain out1 c1 where w: "sv_output ?s = sv_output s @ out1" "in_step c1 ?s" "cl_data c1 = cl_data c @ data"
    "\<And>rest. client_opens cr (sv_suite s) (out1 @ rest) c = client_opens cr (sv_suite s) rest c1"
    using tls_write_delivered [OF assms(1) Cons(2,3,4)] by metis
  obtain out2 c2 where r: "sv_output (tls_writes cr datas ?s) = sv_output ?s @ out2" "in_step c2 (tls_writes cr datas ?s)"
    "cl_data c2 = cl_data c1 @ concat datas" "client_opens cr (sv_suite ?s) out2 c1 = Some c2"
    using Cons(1) [OF w(2)] Cons(3,4) by (auto simp: tls_write_keeps is_established_def)
  have "tls_writes cr (data # datas) s = tls_writes cr datas ?s" by (simp add: tls_writes_def)
  with w r show ?case by (intro exI [of _ "out1 @ out2"] exI [of _ c2]) (simp add: tls_write_keeps)
qed

section \<open>What a client writes\<close>

primrec client_seals :: "tls_crypto \<Rightarrow> byte \<Rightarrow> bytes list \<Rightarrow> tls_record \<Rightarrow> bytes \<times> tls_record" where
  "client_seals cr type [] r = ([], r)"
| "client_seals cr type (part # parts) r =
    (case record_seal cr type part r of (out, r) \<Rightarrow> case client_seals cr type parts r of (outs, r) \<Rightarrow> (out @ outs, r))"

text \<open>One record that the client seals with the receive keys of the server.\<close>

lemma receive_sealed:
  assumes "aead_laws cr" "is_protected (sv_receive s)" "type \<noteq> 0" "length content \<le> maximum_plaintext"
    "\<not> is_failed s" "\<not> sv_closed s"
  shows "receive_records cr (fst (record_seal cr type content (sv_receive s)) @ rest) s =
    (case handle_content cr type content (s\<lparr>sv_receive := snd (record_seal cr type content (sv_receive s))\<rparr>) of
       (False, s) \<Rightarrow> (False, rest, s) | (True, s) \<Rightarrow> receive_records cr rest s)"
proof -
  let ?r = "sv_receive s"
  obtain fragment where f: "fst (record_seal cr type content ?r) = protected_header (length fragment) @ fragment"
    "record_open cr (protected_header (length fragment)) fragment ?r = (Some (type, content), snd (record_seal cr type content ?r))"
    "length fragment = length content + 1 + aead_tag_size"
    using open_sealed [OF assms(1-3)] by metis
  have small: "length fragment \<le> maximum_ciphertext" "length fragment < 2 ^ 16"
    using f(3) assms(4) by (simp_all add: maximum_ciphertext_def maximum_plaintext_def aead_tag_size_def)
  have sizes: "record_fragment_size (protected_header (length fragment) @ fragment @ rest) = length fragment"
    "(protected_header (length fragment) @ fragment @ rest) ! 0 = content_application_data"
    "length (protected_header (length fragment)) = record_header_size"
    using fragment_size_header [OF small(2), of "fragment @ rest"]
    by (simp_all add: protected_header_def record_header_size_def)
  have handled: "handle_record cr content_application_data (protected_header (length fragment)) fragment s =
      handle_content cr type content (s\<lparr>sv_receive := snd (record_seal cr type content ?r)\<rparr>)"
    using assms(2,4) f(2) by (simp add: handle_record_def content_types)
  have "receive_records cr (protected_header (length fragment) @ fragment @ rest) s =
    (case handle_record cr content_application_data (protected_header (length fragment)) fragment s of
       (False, s) \<Rightarrow> (False, rest, s) | (True, s) \<Rightarrow> receive_records cr rest s)"
    by (subst receive_records.simps) (use assms(5,6) sizes small(1) in \<open>simp add: Let_def\<close>)
  then show ?thesis unfolding handled f(1) by simp
qed

lemma receive_data:
  assumes "aead_laws cr"
  shows "is_protected (sv_receive s) \<Longrightarrow> is_established s \<Longrightarrow> \<not> sv_closed s \<Longrightarrow>
    \<forall>part \<in> set parts. length part \<le> maximum_plaintext \<Longrightarrow>
    receive_records cr (fst (client_seals cr content_application_data parts (sv_receive s))) s =
      (True, [], s\<lparr>sv_application := sv_application s @ concat parts,
        sv_receive := snd (client_seals cr content_application_data parts (sv_receive s))\<rparr>)"
proof (induction parts arbitrary: s)
  case Nil
  then show ?case by (simp add: receive_records.simps record_header_size_def)
next
  case (Cons part parts)
  let ?sealed = "record_seal cr content_application_data part (sv_receive s)"
  let ?s = "s\<lparr>sv_application := sv_application s @ part, sv_receive := snd ?sealed\<rparr>"
  have "\<not> is_failed s" using Cons(3) by (simp add: is_established_def is_failed_def)
  have "handle_content cr content_application_data part (s\<lparr>sv_receive := snd ?sealed\<rparr>) = (True, ?s)"
    using Cons(3) by (simp add: handle_content_def content_types is_established_def)
  then have "receive_records cr (fst ?sealed @ rest) s = receive_records cr rest ?s" for rest
    using receive_sealed [OF assms Cons(2) content_types_nonzero(1) _ \<open>\<not> is_failed s\<close> Cons(4), of part rest] Cons(5) by simp
  then show ?case
    using Cons(1) [of ?s] Cons(2-) by (simp add: case_prod_unfold record_seal_protected is_established_def)
qed

text \<open>One message that fills the handshake buffer.\<close>

lemma body_size_message:
  assumes "length body \<le> maximum_message"
  shows "handshake_body_size (make_message type body @ rest) = length body"
proof -
  have n: "length body < 2 ^ 24" using assms by (simp add: maximum_message_def)
  then have u: "unat (of_nat (length body) :: uint32) = length body" by (intro unat_of_nat_32) simp
  then have "(of_nat (length body) :: uint32) < 2 ^ 24" using n by (simp add: word_less_nat_alt)
  then have "be_accumulate (0 :: uint32) (be_bytes24 (of_nat (length body))) = of_nat (length body)"
    by (rule be_accumulate24)
  with u show ?thesis by (simp add: handshake_body_size_def make_message_def vector_24_def)
qed

lemma length_message [simp]: "length (make_message type body) = message_header_size + length body"
  by (simp add: make_message_def message_header_size_def)

lemma message_parts: "make_message type body ! 0 = type" "drop message_header_size (make_message type body) = body"
  by (simp_all add: make_message_def vector_24_def message_header_size_def)

lemma message_step:
  assumes "length body \<le> maximum_message"
    "handle_message cr type (make_message type body) body (s\<lparr>sv_handshake := rest\<rparr>) = (True, s')"
    "sv_epoch s' = sv_epoch s \<or> rest = []"
  shows "handshake_messages cr (make_message type body @ rest) s = handshake_messages cr rest s'"
proof -
  have "(make_message type body @ rest) ! 0 = type" by (simp add: make_message_def)
  then show ?thesis
    using assms body_size_message [OF assms(1), of type rest] message_parts(2) [of type body]
    by (subst handshake_messages.simps) (auto simp: Let_def)
qed

text \<open>A Finished message over the transcript with the key of the client ends the handshake.\<close>

lemma finished_message:
  assumes "sv_state s = Client_Finished" "sv_handshake s = []"
    "body = finished_data cr (sv_suite s) (sv_client_handshake s) (server_transcript cr s)" "length body \<le> maximum_message"
  shows "handle_handshake cr (make_message handshake_finished body) s =
    (True, (set_receive cr (sv_client_traffic s) (add_transcript (make_message handshake_finished body) s))\<lparr>
       sv_state := Established, sv_handshake := []\<rparr>)"
proof -
  let ?m = "make_message handshake_finished body"
  let ?s = "(set_receive cr (sv_client_traffic s) (add_transcript ?m (s\<lparr>sv_handshake := []\<rparr>)))\<lparr>sv_state := Established\<rparr>"
  have message: "handle_message cr handshake_finished ?m body (s\<lparr>sv_handshake := []\<rparr>) = (True, ?s)"
    using assms by (simp add: handle_message_def handle_finished_def server_transcript_def
        handshake_finished_def handshake_certificate_verify_def handshake_certificate_def)
  have "?m \<noteq> []" by (simp add: make_message_def)
  then have "handle_handshake cr ?m s = handshake_messages cr (?m @ []) s" using assms(2) by (simp add: handle_handshake_def)
  also have "\<dots> = handshake_messages cr [] ?s" by (rule message_step [OF assms(4) message]) simp
  also have "\<dots> = (True, ?s\<lparr>sv_handshake := []\<rparr>)"
    by (subst handshake_messages.simps) (simp add: message_header_size_def)
  finally show ?thesis using assms(2) by (simp add: set_receive_def add_transcript_def)
qed


section \<open>Properties\<close>

text \<open>
  C19. Authentication. In every state that a connection can reach, under any bytes of the peer and any use by its
  owner, once the connection is established (or has application data to read, also when it failed later) the last
  message of the handshake is a Finished message whose content is the verify data over all earlier messages under
  the client's handshake secret; and either the client presented no certificate and none is required, or its chain
  verifies against the anchors and the key of its leaf signed the handshake.
\<close>

theorem tls_established_authenticated:
  assumes "tls_reach cr ctx s" "tc_require ctx \<longrightarrow> tc_request ctx" "is_established s \<or> sv_application s \<noteq> []"
  shows "finished_verified cr s \<and>
    (sv_peer s = [] \<and> \<not> tc_require ctx \<or>
     x509_verify cr (sv_peer s) (tc_anchors ctx) (context_time (sv_clock s) ctx) = X509_Success \<and> peer_signed cr s)"
  using tls_reach_inv [OF assms(2,1)] assms(3)
  by (auto simp: tls_inv_def is_established_def peer_authenticated_def peer_verified_def split: tls_state.splits)

text \<open>
  C21. The division of the bytes of the peer into reads does not matter: after two receives the connection is in the
  state of one receive of both (up to the unread input of a connection that failed or closed, which is never read),
  with the same result while it is open.
\<close>

theorem tls_segmentation:
  assumes "tls_reach cr ctx s" "tc_require ctx \<longrightarrow> tc_request ctx"
    "s2 = snd (tls_receive cr second (snd (tls_receive cr first s)))" "t = snd (tls_receive cr (first @ second) s)"
  shows "t\<lparr>sv_input := []\<rparr> = s2\<lparr>sv_input := []\<rparr> \<and>
    (is_failed t \<or> sv_closed t \<or> t = s2 \<and>
      fst (tls_receive cr (first @ second) s) = fst (tls_receive cr second (snd (tls_receive cr first s))))"
proof -
  have "tls_inv cr s" "tls_config_ok s" using tls_reach_inv [OF assms(2,1)] assms(2) by (simp_all add: tls_config_ok_def)
  from segmentation [OF this, of first second] show ?thesis unfolding assms(3,4) by blast
qed

text \<open>
  C20. What the owner of an established connection writes is what a client with its keys reads: the output of any
  writes opens record by record to the concatenation of their data, also over the key updates that the record limit
  inserts, and leaves the client with the keys of the server.
\<close>

theorem tls_writes_delivered:
  assumes "aead_laws cr" "is_established s" "\<not> sv_close_sent s" "is_protected (sv_send s)"
  shows "\<exists>out c. sv_output (tls_writes cr datas s) = sv_output s @ out \<and>
    client_opens cr (sv_suite s) out (client_of s) = Some c \<and> cl_data c = concat datas \<and>
    cl_record c = sv_send (tls_writes cr datas s) \<and> cl_traffic c = sv_server_traffic (tls_writes cr datas s)"
proof -
  have "in_step (client_of s) s" using assms(4) by (simp add: in_step_def client_of_def)
  from writes_delivered [OF assms(1) this assms(2,3), of datas] show ?thesis
    by (auto simp: in_step_def client_of_def)
qed

text \<open>
  C24. A client that knows the keys gets through: in the last state of the handshake, its Finished message over the
  transcript, in one record, followed by any records of application data under its traffic secret, establishes the
  connection with exactly that data to read.
\<close>

theorem tls_finished_delivers:
  assumes "aead_laws cr" "sv_state s = Client_Finished" "\<not> sv_closed s" "is_protected (sv_receive s)"
    "sv_input s = []" "sv_handshake s = []"
    "body = finished_data cr (sv_suite s) (sv_client_handshake s) (server_transcript cr s)"
    "length body + message_header_size \<le> maximum_plaintext" "\<forall>part \<in> set parts. length part \<le> maximum_plaintext"
    "(finished, r) = record_seal cr content_handshake (make_message handshake_finished body) (sv_receive s)"
    "(data, r2) = client_seals cr content_application_data parts (record_set_secret cr (sv_suite s) (sv_client_traffic s) r)"
  shows "\<exists>s'. tls_receive cr (finished @ data) s = (True, s') \<and> is_established s' \<and>
    sv_application s' = sv_application s @ concat parts \<and> sv_receive s' = r2"
proof -
  let ?m = "make_message handshake_finished body"
  let ?r = "s\<lparr>sv_receive := r\<rparr>"
  let ?s = "(set_receive cr (sv_client_traffic s) (add_transcript ?m ?r))\<lparr>sv_state := Established, sv_handshake := []\<rparr>"
  have open_s: "\<not> is_failed s" using assms(2) by (simp add: is_failed_def)
  have small: "length ?m \<le> maximum_plaintext" "length body \<le> maximum_message"
    using assms(8) by (simp_all add: maximum_plaintext_def maximum_message_def)
  have parts: "fst (record_seal cr content_handshake ?m (sv_receive s)) = finished"
    "snd (record_seal cr content_handshake ?m (sv_receive s)) = r"
    using assms(10) by (metis fst_conv, metis snd_conv)
  have "handle_content cr content_handshake ?m ?r = handle_handshake cr ?m ?r" by (simp add: handle_content_def content_types)
  also have "\<dots> = (True, ?s)"
    using finished_message [of ?r body cr] assms(2,6,7) small(2) by (simp add: server_transcript_def set_receive_def add_transcript_def)
  finally have "receive_records cr (finished @ data) s = receive_records cr data ?s"
    using receive_sealed [OF assms(1,4) content_types_nonzero(2) small(1) open_s assms(3), of data] parts by simp
  also have "\<dots> = (True, [], ?s\<lparr>sv_application := sv_application s @ concat parts, sv_receive := r2\<rparr>)"
    using receive_data [OF assms(1), of ?s parts] assms(3,9) assms(11) [symmetric]
    by (simp add: set_receive_def add_transcript_def is_established_def)
  finally have run: "receive_records cr (finished @ data) s =
      (True, [], ?s\<lparr>sv_application := sv_application s @ concat parts, sv_receive := r2\<rparr>)" .
  have same: "s\<lparr>sv_input := []\<rparr> = s" using assms(5) by simp
  then show ?thesis
    using run open_s assms(3,5)
    by (simp add: same tls_receive_def Let_def is_failed_def is_established_def set_receive_def add_transcript_def)
qed

section \<open>A sample connection\<close>

text \<open>A cipher that appends a tag of zeros over functions that are empty, and the bytes of a client over it.\<close>

definition sample_leaf :: x509_certificate where
  "sample_leaf = \<lparr>cert_curve = Curve_Secp256r1, cert_public_key = replicate 65 4\<rparr>"

definition sample_tls :: tls_crypto where
  "sample_tls = \<lparr>hash_of = \<lambda>_ _. [], hmac_code = \<lambda>_ _ _. [], hkdf_extract = \<lambda>_ _ _. [], hkdf_expand = \<lambda>_ _ _ _. [],
     aead_encrypt = \<lambda>_ _ _ _ p. p @ replicate 16 0,
     aead_decrypt = \<lambda>_ _ _ _ x. if 16 \<le> length x \<and> drop (length x - 16) x = replicate 16 0 then Some (take (length x - 16) x) else None,
     x25519_public = \<lambda>k. k, x25519_multiply = \<lambda>_ k. Some k, nist_public = \<lambda>_ _. None, nist_agree = \<lambda>_ _ _. None,
     ecdsa_sign = \<lambda>_ _ _. [], ecdsa_decode = \<lambda>_ d. Some d, ecdsa_verify = \<lambda>_ _ _ _. True,
     x509_parse = \<lambda>_. Some sample_leaf,
     x509_verify = \<lambda>_ _ _. X509_Success\<rparr>"

definition sample_tls_context :: tls_context where
  "sample_tls_context = tls_context_init\<lparr>tc_has_key := True, tc_chain := [[1]], tc_request := True, tc_require := True\<rparr>"

definition sample_extension :: "uint16 \<Rightarrow> bytes \<Rightarrow> bytes" where
  "sample_extension type data = be_bytes16 type @ vector_16 data"

definition sample_share :: bytes where
  "sample_share = vector_16 (be_bytes16 x25519_group @ vector_16 (replicate 32 9))"

definition sample_body :: bytes where
  "sample_body = be_bytes16 legacy_version @ replicate 32 0 @ vector_8 [] @
     list_16 [aes_128_gcm_sha256] @ vector_8 [0] @ vector_16 (
       sample_extension extension_supported_versions (list_8 [version_13]) @
       sample_extension extension_supported_groups (list_16 [x25519_group]) @
       sample_extension extension_signature_algorithms (list_16 [ecdsa_secp256r1_sha256]) @
       sample_extension extension_key_share (sample_share))"

definition sample_hello :: bytes where
  "sample_hello = make_message handshake_client_hello sample_body"

definition sample_bytes :: bytes where
  "sample_bytes = content_handshake # be_bytes16 0x0301 @ vector_16 sample_hello"

definition sample_start :: tls_server where
  "sample_start = make_server sample_tls_context (replicate 32 1) (replicate 32 2) (replicate 32 3) 0"

definition sample_parsed :: client_hello where
  "sample_parsed = \<lparr>ch_session = [], ch_ciphers = [aes_128_gcm_sha256],
     ch_extensions = \<lparr>he_seen = [43, 10, 13, 51], he_versions = [version_13], he_groups = [x25519_group],
       he_algorithms = [ecdsa_secp256r1_sha256], he_shares = sample_share, he_has_shares = True, he_has_early = False\<rparr>\<rparr>"

lemma sample_steps:
  "parse_client_hello sample_body = Inr sample_parsed"
  "read_vector_16 (make_reader sample_share) = (be_bytes16 x25519_group @ vector_16 (replicate 32 9), make_reader [])"
  "read_shares (make_reader (be_bytes16 x25519_group @ vector_16 (replicate 32 9))) = ([(x25519_group, replicate 32 9)], make_reader [])"
  "List.find (\<lambda>v. v \<in> set [aes_128_gcm_sha256]) preferred_suites = Some aes_128_gcm_sha256"
  "List.find (\<lambda>g. g \<in> set [x25519_group] \<and> share_of [(x25519_group, replicate 32 9)] g \<noteq> []) preferred_groups = Some x25519_group"
  "List.find (\<lambda>g. g \<in> set [x25519_group]) preferred_groups = Some x25519_group"
  "share_of [(x25519_group, replicate 32 9)] x25519_group = replicate 32 9"
  by code_simp+

lemma sample_lengths: "length sample_body = 108" "length sample_hello = 112"
  by (simp_all add: sample_hello_def sample_body_def sample_extension_def sample_share_def list_8_def list_16_def message_header_size_def)

lemma sample_sizes:
  "record_fragment_size sample_bytes = 112" "sample_bytes ! 0 = content_handshake"
  "take record_header_size sample_bytes = content_handshake # be_bytes16 0x0301 @ be_bytes16 112"
  "length sample_bytes = record_header_size + 112" "drop record_header_size sample_bytes = sample_hello"
proof -
  have bytes: "sample_bytes = (content_handshake # be_bytes16 0x0301 @ be_bytes16 112) @ sample_hello"
    by (simp add: sample_bytes_def vector_16_def sample_lengths)
  have "record_fragment_size ((content_handshake # be_bytes16 0x0301 @ be_bytes16 112) @ rest) = 112" for rest
    by (simp add: record_fragment_size_def be_bytes16_def)
  then show "record_fragment_size sample_bytes = 112" unfolding bytes .
  show "sample_bytes ! 0 = content_handshake" "length sample_bytes = record_header_size + 112"
    "take record_header_size sample_bytes = content_handshake # be_bytes16 0x0301 @ be_bytes16 112"
    "drop record_header_size sample_bytes = sample_hello"
    by (simp_all add: bytes record_header_size_def sample_lengths be_bytes16_def)
qed

definition sample_chosen :: tls_server where
  "sample_chosen = sample_start\<lparr>sv_suite := aes_128_gcm_sha256, sv_transcript := transcript_reset aes_128_gcm_sha256,
     sv_group := x25519_group\<rparr>"

definition sample_greeted :: tls_server where
  "sample_greeted = accept_share sample_tls sample_hello [] (replicate 32 9) (replicate 32 2) sample_chosen"

lemma sample_start_fields:
  "sv_context sample_start = sample_tls_context" "sv_state sample_start = Client_Hello" "sv_input sample_start = []"
  "sv_handshake sample_start = []" "sv_closed sample_start = False" "sv_secret sample_start = replicate 32 2"
  "sv_epoch sample_start = 0" "sv_receive sample_start = record_init" "sv_peer sample_start = []"
  by (simp_all add: sample_start_def make_server_def)

lemma sample_scheme: "server_scheme sample_tls_context = ecdsa_secp256r1_sha256"
  by (simp add: server_scheme_def sample_tls_context_def tls_context_init_def)

lemma sample_hello_handled: "handle_client_hello sample_tls sample_hello sample_body sample_start = (True, sample_greeted)"
  using sample_steps sample_scheme
  by (simp add: handle_client_hello_def sample_parsed_def sample_start_fields sample_greeted_def sample_chosen_def
      reader_complete_def tls_exchange_def sample_tls_def x25519_group_def secp256r1_group_def secp384r1_group_def Let_def)

lemma sample_greeted_fields:
  "sv_state sample_greeted = Client_Certificate" "sv_peer sample_greeted = []" "is_protected (sv_receive sample_greeted)"
  "sv_context sample_greeted = sample_tls_context" "sv_handshake sample_greeted = []" "sv_closed sample_greeted = False"
  "sv_input sample_greeted = []" "sv_application sample_greeted = []"
  by (simp_all add: sample_greeted_def sample_chosen_def sample_start_fields)
    (simp_all add: sample_tls_context_def sample_start_def make_server_def)

lemma sample_received: "tls_receive sample_tls sample_bytes sample_start = (True, sample_greeted)"
proof -
  let ?s = sample_start
  have idle: "?s\<lparr>sv_handshake := []\<rparr> = ?s" "?s\<lparr>sv_input := []\<rparr> = ?s" "sample_greeted\<lparr>sv_input := []\<rparr> = sample_greeted"
    "sample_greeted\<lparr>sv_handshake := []\<rparr> = sample_greeted"
    using sample_start_fields(3,4) sample_greeted_fields(5,7) by simp_all
  have size: "length sample_body \<le> maximum_message" by (simp add: sample_lengths maximum_message_def)
  have handled: "handle_message sample_tls handshake_client_hello sample_hello sample_body (?s\<lparr>sv_handshake := []\<rparr>) =
      (True, sample_greeted)"
    using sample_hello_handled by (simp add: idle handle_message_def sample_start_fields)
  have "handshake_messages sample_tls sample_hello ?s = handshake_messages sample_tls [] sample_greeted"
    using message_step [OF size, where cr = sample_tls and type = handshake_client_hello and s = ?s and rest = "[]" and s' = sample_greeted] handled by (simp add: sample_hello_def)
  also have "\<dots> = (True, sample_greeted)"
    by (subst handshake_messages.simps) (simp add: message_header_size_def idle)
  finally have "handle_handshake sample_tls sample_hello ?s = (True, sample_greeted)"
    using sample_lengths(2) by (auto simp: handle_handshake_def sample_start_fields)
  then have one: "handle_record sample_tls content_handshake header sample_hello ?s = (True, sample_greeted)" for header
    by (simp add: handle_record_def content_types sample_start_fields is_protected_def record_init_def sample_lengths
        maximum_plaintext_def handle_content_def)
  have parts: "take 112 sample_hello = sample_hello" "drop (record_header_size + 112) sample_bytes = []"
    using sample_sizes sample_lengths by simp_all
  have "receive_records sample_tls sample_bytes ?s = receive_records sample_tls [] sample_greeted"
    by (subst receive_records.simps)
      (simp add: sample_sizes parts one Let_def is_failed_def sample_start_fields maximum_ciphertext_def)
  also have "\<dots> = (True, [], sample_greeted)"
    by (subst receive_records.simps) (simp add: record_header_size_def)
  finally show ?thesis
    by (simp add: tls_receive_def Let_def idle sample_start_fields is_failed_def sample_greeted_fields)
qed

text \<open>The answer of the client, over its certificate: the three messages in one record.\<close>

definition sample_certificate :: bytes where
  "sample_certificate = vector_8 [] @ vector_24 (vector_24 [1] @ vector_16 [])"

definition sample_verify :: bytes where
  "sample_verify = be_bytes16 ecdsa_secp256r1_sha256 @ vector_16 [1]"

definition sample_answer :: bytes where
  "sample_answer = make_message handshake_certificate sample_certificate @
     make_message handshake_certificate_verify sample_verify @ make_message handshake_finished []"

lemma sample_reads:
  "read_vector_8 (make_reader sample_certificate) = ([], make_reader (vector_24 (vector_24 [1] @ vector_16 [])))"
  "read_vector_24 (make_reader (vector_24 (vector_24 [1] @ vector_16 []))) = (vector_24 [1] @ vector_16 [], make_reader [])"
  "read_16 (make_reader sample_verify) = (ecdsa_secp256r1_sha256, make_reader (vector_16 [1]))"
  "read_vector_16 (make_reader (vector_16 [1])) = ([1], make_reader [])"
  by code_simp+

lemma sample_chain: "read_chain sample_tls (make_reader (vector_24 [1] @ vector_16 [])) [] = Inr [sample_leaf]"
proof -
  have "read_vector_24 (make_reader (vector_24 [1] @ vector_16 [])) = ([1], make_reader (vector_16 []))"
    "read_vector_16 (make_reader (vector_16 [])) = ([], make_reader [])" by code_simp+
  then show ?thesis
    by (subst read_chain.simps) (simp add: sample_tls_def vector_24_def read_chain.simps)
qed

lemma sample_certified:
  assumes "sv_state s = Client_Certificate" "sv_context s = sample_tls_context"
  shows "handle_message sample_tls handshake_certificate message sample_certificate s =
    (True, (add_transcript message s)\<lparr>sv_peer := [sample_leaf], sv_state := Client_Certificate_Verify\<rparr>)"
proof -
  have "x509_verify sample_tls chain anchors time = X509_Success" for chain anchors time by (simp add: sample_tls_def)
  then show ?thesis
    using assms sample_reads sample_chain by (simp add: handle_message_def handle_certificate_def reader_complete_def Let_def)
qed

lemma sample_verified:
  assumes "sv_state s = Client_Certificate_Verify" "sv_peer s = [sample_leaf]"
  shows "handle_message sample_tls handshake_certificate_verify message sample_verify s =
    (True, (add_transcript message s)\<lparr>sv_state := Client_Finished\<rparr>)"
proof -
  have "ecdsa_decode sample_tls wide der = Some der" "ecdsa_verify sample_tls wide signature key digest" for wide der signature key digest
    by (simp_all add: sample_tls_def)
  then show ?thesis
    using assms sample_reads
    by (simp add: handle_message_def handle_certificate_verify_def reader_complete_def Let_def sample_leaf_def
        verify_signature_def point_size_def ecdsa_secp256r1_sha256_def ecdsa_secp384r1_sha384_def)
qed

lemma sample_laws: "aead_laws sample_tls"
proof -
  have "x = take (length x - 16) x @ replicate 16 0" if "drop (length x - 16) x = replicate 16 0" for x :: bytes
    using append_take_drop_id [of "length x - 16" x] that by simp
  then show ?thesis by (auto simp: aead_laws_def sample_tls_def aead_tag_size_def)
qed

definition sample_record :: bytes where
  "sample_record = fst (record_seal sample_tls content_handshake sample_answer (sv_receive sample_greeted))"

definition sample_final :: "tls_server \<Rightarrow> tls_server" where
  "sample_final s =
    (let m1 = make_message handshake_certificate sample_certificate; m2 = make_message handshake_certificate_verify sample_verify;
         s = (add_transcript m2 (add_transcript m1 s))\<lparr>sv_peer := [sample_leaf]\<rparr>;
         s = set_receive sample_tls (sv_client_traffic s) (add_transcript (make_message handshake_finished []) s)
     in s\<lparr>sv_state := Established, sv_handshake := []\<rparr>)"

lemma sample_answered:
  assumes "sv_state s = Client_Certificate" "sv_context s = sample_tls_context"
  shows "handshake_messages sample_tls sample_answer s = (True, sample_final s)"
proof -
  let ?m1 = "make_message handshake_certificate sample_certificate" and ?m2 = "make_message handshake_certificate_verify sample_verify"
  let ?m3 = "make_message handshake_finished []"
  let ?s1 = "(add_transcript ?m1 (s\<lparr>sv_handshake := ?m2 @ ?m3\<rparr>))\<lparr>sv_peer := [sample_leaf], sv_state := Client_Certificate_Verify\<rparr>"
  let ?s2 = "(add_transcript ?m2 (?s1\<lparr>sv_handshake := ?m3\<rparr>))\<lparr>sv_state := Client_Finished\<rparr>"
  let ?s3 = "(set_receive sample_tls (sv_client_traffic ?s2) (add_transcript ?m3 (?s2\<lparr>sv_handshake := []\<rparr>)))\<lparr>sv_state := Established\<rparr>"
  have sizes: "length sample_certificate \<le> maximum_message" "length sample_verify \<le> maximum_message" "length ([] :: bytes) \<le> maximum_message"
    by (simp_all add: sample_certificate_def sample_verify_def maximum_message_def)
  have "handle_message sample_tls handshake_certificate ?m1 sample_certificate (s\<lparr>sv_handshake := ?m2 @ ?m3\<rparr>) = (True, ?s1)"
    by (rule sample_certified) (simp_all add: assms)
  from message_step [OF sizes(1) this]
  have 1: "handshake_messages sample_tls sample_answer s = handshake_messages sample_tls (?m2 @ ?m3) ?s1"
    by (simp add: sample_answer_def add_transcript_def)
  have "handle_message sample_tls handshake_certificate_verify ?m2 sample_verify (?s1\<lparr>sv_handshake := ?m3\<rparr>) = (True, ?s2)"
    by (rule sample_verified) simp_all
  from message_step [OF sizes(2) this]
  have 2: "handshake_messages sample_tls (?m2 @ ?m3) ?s1 = handshake_messages sample_tls (?m3 @ []) ?s2"
    by (simp add: add_transcript_def)
  have none: "finished_data sample_tls suite traffic digest = []" for suite traffic digest by (simp add: finished_data_def sample_tls_def)
  have "handle_message sample_tls handshake_finished ?m3 [] (?s2\<lparr>sv_handshake := []\<rparr>) = (True, ?s3)"
    by (simp add: handle_message_def handle_finished_def none handshake_finished_def handshake_certificate_verify_def
        handshake_certificate_def add_transcript_def)
  from message_step [OF sizes(3) this]
  have 3: "handshake_messages sample_tls (?m3 @ []) ?s2 = handshake_messages sample_tls [] ?s3" by simp
  have 4: "handshake_messages sample_tls [] ?s3 = (True, ?s3\<lparr>sv_handshake := []\<rparr>)"
    by (subst handshake_messages.simps) (simp add: message_header_size_def)
  show ?thesis using 1 2 3 4 by (simp add: sample_final_def Let_def set_receive_def add_transcript_def)
qed

lemma sample_finished:
  "\<exists>s. tls_receive sample_tls sample_record sample_greeted = (True, s) \<and> is_established s \<and> sv_peer s = [sample_leaf] \<and>
    \<not> sv_close_sent s \<and> is_protected (sv_send s) \<and> \<not> sv_closed s"
proof -
  let ?r = "snd (record_seal sample_tls content_handshake sample_answer (sv_receive sample_greeted))"
  let ?s = "sample_final (sample_greeted\<lparr>sv_receive := ?r\<rparr>)"
  have small: "length sample_answer \<le> maximum_plaintext" "sample_answer \<noteq> []"
    by (simp_all add: sample_answer_def sample_certificate_def sample_verify_def message_header_size_def maximum_plaintext_def make_message_def)
  have "handle_content sample_tls content_handshake sample_answer (sample_greeted\<lparr>sv_receive := ?r\<rparr>) = (True, ?s)"
    using small(2) by (simp add: handle_content_def content_types handle_handshake_def sample_greeted_fields sample_answered)
  moreover have "\<not> is_failed sample_greeted" "\<not> sv_closed sample_greeted" by (simp_all add: is_failed_def sample_greeted_fields)
  ultimately have "receive_records sample_tls (sample_record @ []) sample_greeted = receive_records sample_tls [] ?s"
    using receive_sealed [OF sample_laws sample_greeted_fields(3) content_types_nonzero(2) small(1), of "[]"]
    by (simp add: sample_record_def)
  also have "\<dots> = (True, [], ?s)"
    by (subst receive_records.simps) (simp add: record_header_size_def)
  finally have run: "receive_records sample_tls sample_record sample_greeted = (True, [], ?s)" by simp
  have same: "sample_greeted\<lparr>sv_input := []\<rparr> = sample_greeted" using sample_greeted_fields(7) by simp
  have "\<not> sv_close_sent sample_greeted" "is_protected (sv_send sample_greeted)"
    by (simp_all add: sample_greeted_def accept_share_def send_flight_def send_hello_def send_compatibility_def set_send_def
        set_receive_def Let_def sample_chosen_def sample_start_def make_server_def add_transcript_def)
  then show ?thesis
    by (simp add: tls_receive_def run same sample_greeted_fields is_failed_def Let_def is_established_def sample_final_def
        set_receive_def add_transcript_def)
qed

lemma tls_sample_reach: "tls_reach sample_tls sample_tls_context sample_start" "tls_reach sample_tls sample_tls_context sample_greeted"
  "tc_require sample_tls_context \<longrightarrow> tc_request sample_tls_context" "tc_require sample_tls_context"
proof -
  show start: "tls_reach sample_tls sample_tls_context sample_start" by (simp add: sample_start_def tls_created)
  from tls_received [OF this, of sample_bytes] show "tls_reach sample_tls sample_tls_context sample_greeted"
    by (simp add: sample_received)
qed (simp_all add: sample_tls_context_def tls_context_init_def)

theorem tls_established_authenticated_witness:
  "\<exists>s. tls_reach sample_tls sample_tls_context s \<and> is_established s \<and> finished_verified sample_tls s \<and> peer_signed sample_tls s"
proof -
  obtain s where s: "tls_receive sample_tls sample_record sample_greeted = (True, s)" "is_established s"
    using sample_finished by blast
  then have "tls_reach sample_tls sample_tls_context s"
    using tls_received [OF tls_sample_reach(2), of sample_record] by simp
  with tls_established_authenticated [OF this tls_sample_reach(3)] s(2) tls_sample_reach(4) show ?thesis by blast
qed

theorem tls_segmentation_witness:
  "snd (tls_receive sample_tls (drop 50 sample_bytes) (snd (tls_receive sample_tls (take 50 sample_bytes) sample_start))) = sample_greeted"
  using tls_segmentation [OF tls_sample_reach(1,3) refl refl, where first = "take 50 sample_bytes" and second = "drop 50 sample_bytes"]
  by (simp add: sample_received is_failed_def sample_greeted_fields)

theorem tls_writes_delivered_witness:
  "\<exists>s out c. is_established s \<and> sv_output (tls_writes sample_tls [[1, 2], [3]] s) = sv_output s @ out \<and>
    client_opens sample_tls (sv_suite s) out (client_of s) = Some c \<and> cl_data c = [1, 2, 3]"
proof -
  obtain s where s: "is_established s" "\<not> sv_close_sent s" "is_protected (sv_send s)"
    using sample_finished by blast
  from tls_writes_delivered [OF sample_laws this, of "[[1, 2], [3]]"] s(1) show ?thesis by auto
qed

theorem tls_finished_delivers_witness:
  "\<exists>bytes s. tls_receive sample_tls bytes (sample_greeted\<lparr>sv_state := Client_Finished\<rparr>) = (True, s) \<and> is_established s \<and>
    sv_application s = [1, 2, 3]"
proof -
  let ?s = "sample_greeted\<lparr>sv_state := Client_Finished\<rparr>"
  have none: "finished_data sample_tls suite traffic digest = []" for suite traffic digest by (simp add: finished_data_def sample_tls_def)
  obtain finished r where f: "(finished, r) = record_seal sample_tls content_handshake (make_message handshake_finished []) (sv_receive ?s)"
    by (metis surj_pair)
  obtain data r2 where d: "(data, r2) = client_seals sample_tls content_application_data [[1, 2], [3]]
      (record_set_secret sample_tls (sv_suite ?s) (sv_client_traffic ?s) r)" by (metis surj_pair)
  from tls_finished_delivers [OF sample_laws, where s = ?s, OF _ _ _ _ _ none [symmetric] _ _ f d] show ?thesis
    by (auto simp: sample_greeted_fields maximum_plaintext_def message_header_size_def)
qed

end
