(* ===== verification/Tls_Bounds.thy ===== *)
theory Tls_Bounds
  imports Tls_Exchange
begin

text \<open>
  What a peer can make the TLS server hold: the unread input and the handshake message that is not complete, which
  reachability bounds, and by how much a receipt grows the application data and the output of an established
  connection (\<open>receive_growth\<close>). Also, that only a close notification closes it (\<open>record_closes\<close>).
\<close>

section \<open>Closure\<close>

lemma fail_fields [simp]:
  "sv_closed (snd (tls_fail cr alert s)) = sv_closed s" "sv_application (snd (tls_fail cr alert s)) = sv_application s"
  "fst (tls_fail cr alert s) = False"
  by (simp_all add: tls_fail_def)

lemma message_closed: "sv_closed (snd (handle_message cr type message body s)) = sv_closed s"
proof -
  have hello: "sv_closed (snd (handle_client_hello cr message body s)) = sv_closed s"
    using client_hello_cases [of cr message s body] unfolding hello_outcome_def hello_same_def by fastforce
  have certificate: "sv_closed (snd (handle_certificate cr message body s)) = sv_closed s"
    by (simp add: handle_certificate_def Let_def split: prod.split sum.split)
  have verify: "sv_closed (snd (handle_certificate_verify cr message body s)) = sv_closed s"
    by (simp add: handle_certificate_verify_def Let_def split: prod.split)
  have finished: "sv_closed (snd (handle_finished cr message body s)) = sv_closed s"
    by (simp add: handle_finished_def Let_def set_receive_def)
  have update: "sv_closed (snd (handle_key_update cr body s)) = sv_closed s"
    by (simp add: handle_key_update_def Let_def) (simp add: set_receive_def)
  show ?thesis by (simp add: handle_message_def hello certificate verify finished update)
qed

lemma handshake_closed: "sv_closed (snd (handshake_messages cr buffer s)) = sv_closed s"
proof (induction buffer arbitrary: s rule: length_induct)
  case (1 buffer)
  let ?total = "message_header_size + handshake_body_size buffer"
  let ?m = "take ?total buffer" and ?rest = "drop ?total buffer"
  obtain ok s1 where m: "handle_message cr (buffer ! 0) ?m (drop message_header_size ?m) (s\<lparr>sv_handshake := ?rest\<rparr>) = (ok, s1)"
    by (metis surj_pair)
  have s1: "sv_closed s1 = sv_closed s"
    using message_closed [of cr "buffer ! 0" ?m "drop message_header_size ?m" "s\<lparr>sv_handshake := ?rest\<rparr>"] by (simp add: m)
  have "sv_closed (snd (handshake_messages cr ?rest s1)) = sv_closed s1" if "message_header_size \<le> length buffer"
    using 1 that by (auto simp: message_header_size_def)
  then show ?case using m s1 by (subst handshake_messages.simps) (auto simp: Let_def split: bool.split)
qed

text \<open>
  Only a record whose content is an alert of two bytes with the description of a close notification closes the
  server: in the clear before keys are set, and as what the record opens to after.
\<close>

lemma content_closes:
  assumes "\<not> sv_closed s" "sv_closed (snd (handle_content cr type content s))"
  shows "type = content_alert \<and> length content = 2 \<and> content ! 1 = alert_close_notify"
  using assms handshake_closed
  by (auto simp: handle_content_def handle_alert_def handle_handshake_def split: if_splits)

lemma record_closes:
  assumes "\<not> sv_closed s" "sv_closed (snd (handle_record cr type header fragment s))"
  shows "\<exists>content. length content = 2 \<and> content ! 1 = alert_close_notify \<and>
    (if is_protected (sv_receive s) then fst (record_open cr header fragment (sv_receive s)) = Some (content_alert, content)
     else type = content_alert \<and> fragment = content)"
proof (cases "is_protected (sv_receive s)")
  case False
  then show ?thesis using assms content_closes [OF assms(1)] by (auto simp: handle_record_def split: if_splits)
next
  case True
  obtain x r where o: "record_open cr header fragment (sv_receive s) = (x, r)" by (metis surj_pair)
  have open': "\<not> sv_closed (s\<lparr>sv_receive := r\<rparr>)" using assms(1) by simp
  show ?thesis
    using True assms content_closes [OF open']
    by (auto simp: handle_record_def o Let_def split: if_splits option.splits)
qed

section \<open>Sizes of records\<close>

lemma sealed_length:
  assumes "aead_laws cr" "is_protected r"
  shows "length (fst (record_seal cr type content r)) = record_header_size + length content + 1 + aead_tag_size"
  using assms by (auto simp: record_seal_def is_protected_def next_nonce_def Let_def aead_lawsD(2))

lemma server_seal_output:
  assumes "aead_laws cr" "is_protected (sv_send s)"
  shows "length (sv_output (server_seal cr type content s)) =
    length (sv_output s) + record_header_size + length content + 1 + aead_tag_size"
  using sealed_length [OF assms, of type content] by (simp add: server_seal_def case_prod_unfold)

lemma inner_content_length: "length (snd (inner_content plain)) \<le> length plain"
proof -
  have "length (dropWhile (\<lambda>b. b = 0) (rev plain)) \<le> length plain" using length_dropWhile_le [of _ "rev plain"] by simp
  then show ?thesis by (auto simp: inner_content_def split: list.split)
qed

lemma opened_length:
  assumes "aead_laws cr" "record_open cr header fragment r = (Some (type, content), r2)"
  shows "length content + aead_tag_size \<le> length fragment" "aead_tag_size < length fragment"
proof -
  obtain suite key nonce plain where "aead_decrypt cr suite key nonce header fragment = Some plain" and c: "(type, content) = inner_content plain"
    and "aead_tag_size < length fragment"
    using assms(2) by (auto simp: record_open_def next_nonce_def Let_def split: if_splits option.splits)
  then have "length fragment = length plain + aead_tag_size" using aead_lawsD(2,3) [OF assms(1)] by metis
  moreover have "length content \<le> length plain" using inner_content_length [of plain] c by (metis snd_conv)
  ultimately show "length content + aead_tag_size \<le> length fragment" "aead_tag_size < length fragment"
    using \<open>aead_tag_size < length fragment\<close> by simp_all
qed

section \<open>Growth of an established connection\<close>

text \<open>
  An established connection answers a record with one key update at most (\<open>update_record_size\<close> bytes), and once with an
  alert that ends it.
\<close>

definition update_record_size :: nat where "update_record_size = record_header_size + message_header_size + 1 + 1 + aead_tag_size"
definition alert_record_size :: nat where "alert_record_size = record_header_size + 2 + 1 + aead_tag_size"

definition ready :: "tls_server \<Rightarrow> bool" where
  "ready s \<longleftrightarrow> is_established s \<and> is_protected (sv_send s) \<and> is_protected (sv_receive s)"

definition grows :: "nat \<Rightarrow> nat \<Rightarrow> tls_server \<Rightarrow> bool \<times> tls_server \<Rightarrow> bool" where
  "grows output application s r \<longleftrightarrow>
    length (sv_output (snd r)) \<le> length (sv_output s) + (if fst r then output else output + alert_record_size) \<and>
    length (sv_application (snd r)) \<le> length (sv_application s) + application \<and> (fst r \<longrightarrow> ready (snd r))"

lemma fail_grows:
  assumes "aead_laws cr" "ready s"
  shows "grows 0 0 s (tls_fail cr alert s)"
proof -
  let ?s = "s\<lparr>sv_state := Tls_Failed, sv_failure := alert\<rparr>"
  have "is_protected (sv_send ?s)" using assms(2) by (simp add: ready_def)
  from server_seal_output [OF assms(1) this, of content_alert "[alert_fatal, alert]"] show ?thesis
    by (simp add: grows_def tls_fail_def alert_record_size_def)
qed

lemma fail_weaker: "grows 0 0 s y \<Longrightarrow> grows k n s y"
  by (auto simp: grows_def split: if_splits)

lemma update_output:
  assumes "aead_laws cr" "is_protected (sv_send s)"
  shows "length (sv_output (send_update cr s)) = length (sv_output s) + update_record_size"
proof -
  let ?data = "make_message handshake_key_update [update_not_requested]"
  have data: "length ?data = 5" by (simp add: make_message_def vector_24_def be_bytes24_def)
  then have "?data \<noteq> []" by fastforce
  moreover have "drop maximum_plaintext ?data = []" "take maximum_plaintext ?data = ?data" using data by (auto simp: maximum_plaintext_def)
  ultimately have "tls_send cr content_handshake ?data s = server_seal cr content_handshake ?data s"
    by (subst tls_send.simps) (simp add: tls_send.simps [of _ _ "[]"])
  then show ?thesis
    using server_seal_output [OF assms, of content_handshake ?data] data
    by (simp add: send_update_def Let_def set_send_def update_record_size_def message_header_size_def)
qed

lemma message_grows:
  assumes "aead_laws cr" "ready s"
  shows "grows update_record_size 0 s (handle_message cr type message body s) \<and>
    (fst (handle_message cr type message body s) \<longrightarrow> sv_epoch (snd (handle_message cr type message body s)) \<noteq> sv_epoch s)"
proof -
  note fails = fail_weaker [OF fail_grows [OF assms]]
  have state: "sv_state s = Established" using assms(2) by (simp add: ready_def is_established_def)
  let ?t = "update_secret cr (sv_suite s) (sv_client_traffic s)"
  let ?s = "set_receive cr ?t (s\<lparr>sv_client_traffic := ?t\<rparr>)"
  have s: "ready ?s" "sv_epoch ?s \<noteq> sv_epoch s" "sv_output ?s = sv_output s" "sv_application ?s = sv_application s"
    using assms(2) by (simp_all add: ready_def set_receive_def is_established_def)
  then have "grows update_record_size 0 s (True, ?s)" "grows update_record_size 0 s (True, send_update cr ?s)"
    using update_output [OF assms(1), of ?s] by (simp_all add: grows_def ready_def is_established_def)
  then show ?thesis
    using fails state s(2) by (simp add: handle_message_def handle_key_update_def Let_def)
qed

lemma handshake_grows:
  assumes "aead_laws cr" "ready s"
  shows "grows update_record_size 0 s (handshake_messages cr buffer s)"
proof -
  have buffered: "ready (s\<lparr>sv_handshake := x\<rparr>)" for x using assms(2) by (simp add: ready_def is_established_def)
  have same: "grows k n (s\<lparr>sv_handshake := x\<rparr>) r = grows k n s r" for x k n r by (simp add: grows_def)
  have waits: "grows update_record_size 0 s (True, s\<lparr>sv_handshake := x\<rparr>)" for x
    using buffered by (simp add: grows_def)
  have fails: "grows update_record_size 0 s (tls_fail cr alert (s\<lparr>sv_handshake := x\<rparr>))" for alert x
    using fail_weaker [OF fail_grows [OF assms(1) buffered, unfolded same]] .
  let ?n = "handshake_body_size buffer"
  let ?total = "message_header_size + ?n"
  let ?m = "take ?total buffer" and ?rest = "drop ?total buffer"
  obtain ok s1 where m: "handle_message cr (buffer ! 0) ?m (drop message_header_size ?m) (s\<lparr>sv_handshake := ?rest\<rparr>) = (ok, s1)"
    by (metis surj_pair)
  note step = message_grows [OF assms(1) buffered [of ?rest], of "buffer ! 0" ?m "drop message_header_size ?m", unfolded m same]
  show ?thesis
  proof (cases "length buffer < message_header_size \<or> maximum_message < ?n \<or> length buffer < ?total \<or> \<not> ok")
    case True
    then show ?thesis
      using waits fails step m by (subst handshake_messages.simps) (auto simp: Let_def)
  next
    case False
    then have ok: "ready s1" "sv_epoch s1 \<noteq> sv_epoch s" "grows update_record_size 0 s (True, s1)"
      using step by (simp_all add: grows_def)
    have over: "grows update_record_size 0 s (tls_fail cr alert_unexpected_message s1)"
      using fail_grows [OF assms(1) ok(1), of alert_unexpected_message] ok(3) by (simp add: grows_def)
    have last: "grows update_record_size 0 s (handshake_messages cr [] s1)"
      using ok by (subst handshake_messages.simps) (simp add: message_header_size_def grows_def ready_def is_established_def)
    show ?thesis using False m ok(2) over last by (subst handshake_messages.simps) (auto simp: Let_def)
  qed
qed

lemma content_grows:
  assumes "aead_laws cr" "ready s"
  shows "grows update_record_size (length content) s (handle_content cr type content s)"
proof -
  note fails = fail_weaker [OF fail_grows [OF assms]]
  have handshake: "grows update_record_size (length content) s (handshake_messages cr buffer s)" for buffer
    using handshake_grows [OF assms, of buffer] by (simp add: grows_def)
  have rest: "grows update_record_size (length content) s (handle_alert cr content s)"
    "grows update_record_size (length content) s (True, s\<lparr>sv_application := sv_application s @ content\<rparr>)"
    using assms(2) fails by (simp_all add: handle_alert_def grows_def ready_def is_established_def)
  then show ?thesis using fails handshake by (auto simp: handle_content_def handle_handshake_def)
qed

lemma record_grows:
  assumes "aead_laws cr" "ready s"
  shows "grows update_record_size (length fragment) s (handle_record cr type header fragment s)"
    "fst (handle_record cr type header fragment s) \<Longrightarrow> aead_tag_size < length fragment"
proof -
  obtain x r where o: "record_open cr header fragment (sv_receive s) = (x, r)" by (metis surj_pair)
  have "is_protected r"
    using o assms(2) by (auto simp: record_open_def next_nonce_def is_protected_def ready_def Let_def split: if_splits option.splits)
  then have opened: "ready (s\<lparr>sv_receive := r\<rparr>)" using assms(2) by (simp add: ready_def is_established_def)
  have same: "grows k n (s\<lparr>sv_receive := r\<rparr>) y = grows k n s y" for k n y by (simp add: grows_def)
  note fails = fail_weaker [OF fail_grows [OF assms]] fail_weaker [OF fail_grows [OF assms(1) opened, unfolded same]]
  have content: "grows update_record_size (length fragment) s (handle_content cr inner content (s\<lparr>sv_receive := r\<rparr>))"
    if "x = Some (inner, content)" for inner content
    using content_grows [OF assms(1) opened, of content inner, unfolded same] opened_length(1) [OF assms(1)] o that
    by (fastforce simp: grows_def)
  have parts: "sv_state s = Established" "is_protected (sv_receive s)" using assms(2) by (simp_all add: ready_def is_established_def)
  show "grows update_record_size (length fragment) s (handle_record cr type header fragment s)"
    using fails content parts by (auto simp: handle_record_def o Let_def split: option.split)
  show "fst (handle_record cr type header fragment s) \<Longrightarrow> aead_tag_size < length fragment"
    using opened_length(2) [OF assms(1)] o parts by (fastforce simp: handle_record_def Let_def split: if_splits option.splits)
qed

text \<open>No amplification: the answers are at most twice the bytes of the records, and one more update and an alert.\<close>

definition receipt_bounds :: "nat \<Rightarrow> tls_server \<Rightarrow> tls_server \<Rightarrow> bool" where
  "receipt_bounds n s s' \<longleftrightarrow>
    length (sv_application s') \<le> length (sv_application s) + n \<and>
    length (sv_output s') \<le> length (sv_output s) + 2 * n + update_record_size + alert_record_size"

lemma accumulates:
  fixes out :: nat
  assumes "out \<le> out1 + 2 * k + u + a" "out1 \<le> out0 + u" "u \<le> 2 * (h + n)" "m = h + n + k"
  shows "out \<le> out0 + 2 * m + u + a"
  using assms by simp

lemma records_grow:
  "aead_laws cr \<Longrightarrow> ready s \<Longrightarrow> receive_records cr available s = (ok, rest, s') \<Longrightarrow>
    receipt_bounds (length available) s s' \<and>
    (ok \<longrightarrow> length (sv_application s') + length rest \<le> length (sv_application s) + length available)"
proof (induction available arbitrary: s rule: length_induct)
  case (1 available)
  let ?n = "record_fragment_size available"
  let ?fragment = "take ?n (drop record_header_size available)" and ?rest = "drop (record_header_size + ?n) available"
  obtain ok1 s1 where r: "handle_record cr (available ! 0) (take record_header_size available) ?fragment s = (ok1, s1)"
    by (metis surj_pair)
  note step = record_grows [OF 1(2,3), where fragment = ?fragment and type = "available ! 0" and header = "take record_header_size available",
      unfolded r fst_conv]
  have none: "receipt_bounds n s s" for n by (simp add: receipt_bounds_def)
  have over: "receipt_bounds n s (snd (tls_fail cr alert s))" for n alert
    using fail_grows [OF 1(2,3), of alert] by (simp add: grows_def receipt_bounds_def)
  show ?case
  proof (cases "is_failed s \<or> sv_closed s \<or> length available < record_header_size \<or> maximum_ciphertext < ?n \<or>
      length available < record_header_size + ?n")
    case True
    then have "(ok, rest, s') = (True, available, s) \<or> (ok, rest, s') = (False, available, snd (tls_fail cr alert_record_overflow s))"
      using 1(4) by (subst (asm) receive_records.simps) (auto simp: Let_def split: if_splits)
    with none over show ?thesis by auto
  next
    case False
    then have size: "length available = record_header_size + ?n + length ?rest" "length ?fragment = ?n" by (auto simp: min_def)
    have run: "(ok, rest, s') = (if ok1 then receive_records cr ?rest s1 else (False, ?rest, s1))"
      using 1(4) False r by (subst (asm) receive_records.simps) (auto simp: Let_def)
    show ?thesis
    proof (cases ok1)
      case True
      then have s1: "ready s1" "length (sv_output s1) \<le> length (sv_output s) + update_record_size"
        "length (sv_application s1) \<le> length (sv_application s) + ?n" "aead_tag_size < ?n"
        using step size(2) by (simp_all add: grows_def)
      have "length ?rest < length available" using size by (simp add: record_header_size_def)
      moreover have "receive_records cr ?rest s1 = (ok, rest, s')" using run True by simp
      ultimately have later: "receipt_bounds (length ?rest) s1 s'"
        "ok \<longrightarrow> length (sv_application s') + length rest \<le> length (sv_application s1) + length ?rest"
        using 1(1) 1(2) s1(1) by blast+
      have update: "update_record_size \<le> 2 * (record_header_size + ?n)"
        using s1(4) by (simp add: update_record_size_def record_header_size_def message_header_size_def aead_tag_size_def)
      have "length (sv_application s') \<le> length (sv_application s1) + length ?rest"
        "length (sv_output s') \<le> length (sv_output s1) + 2 * length ?rest + update_record_size + alert_record_size"
        using later(1) by (simp_all add: receipt_bounds_def)
      with accumulates [OF this(2) s1(2) update size(1)] s1(3) size(1)
      have "receipt_bounds (length available) s s'" unfolding receipt_bounds_def by linarith
      moreover have "ok \<longrightarrow> length (sv_application s') + length rest \<le> length (sv_application s) + length available"
        using later(2) s1(3) size(1) by linarith
      ultimately show ?thesis by blast
    next
      case False
      then have "ok = False" "s' = s1" using run by simp_all
      have "grows update_record_size (length ?fragment) s (False, s1)" using step(1) False by simp
      then have "length (sv_output s1) \<le> length (sv_output s) + (update_record_size + alert_record_size)"
        "length (sv_application s1) \<le> length (sv_application s) + length ?fragment"
        by (simp_all only: grows_def fst_conv snd_conv if_False simp_thms)
      moreover have "length ?fragment \<le> length available" by simp
      ultimately have "receipt_bounds (length available) s s1" unfolding receipt_bounds_def by linarith
      with \<open>ok = False\<close> \<open>s' = s1\<close> show ?thesis by blast
    qed
  qed
qed

lemma receive_growth:
  assumes "aead_laws cr" "ready s"
  shows "receipt_bounds (length (sv_input s) + length data) s (snd (tls_receive cr data s))"
    "fst (tls_receive cr data s) \<Longrightarrow> length (sv_application (snd (tls_receive cr data s))) +
      length (sv_input (snd (tls_receive cr data s))) \<le> length (sv_application s) + length (sv_input s) + length data"
proof -
  obtain ok rest s' where r: "receive_records cr (sv_input s @ data) (s\<lparr>sv_input := []\<rparr>) = (ok, rest, s')" by (metis surj_pair)
  have "ready (s\<lparr>sv_input := []\<rparr>)" using assms(2) by (simp add: ready_def is_established_def)
  note grown = records_grow [OF assms(1) this r]
  show "receipt_bounds (length (sv_input s) + length data) s (snd (tls_receive cr data s))"
    "fst (tls_receive cr data s) \<Longrightarrow> length (sv_application (snd (tls_receive cr data s))) +
      length (sv_input (snd (tls_receive cr data s))) \<le> length (sv_application s) + length (sv_input s) + length data"
    using grown by (auto simp: tls_receive_def r Let_def receipt_bounds_def split: bool.splits if_splits)
qed

section \<open>Properties\<close>

text \<open>
  C26. The buffers that a peer fills. While a connection is open its unread input is less than one record, and the
  part of a handshake message that it keeps is less than one of the maximum size; it keeps no application data before
  it is established. A receipt then adds at most the bytes received and unread to the application data, and to the output
  at most twice these, one key update and one alert. The output of the handshake (one hello and one flight, and a retry
  at most) and what the owner itself writes are not bounded here.
\<close>

theorem tls_buffers_bounded:
  assumes "tls_reach cr ctx s" "tc_require ctx \<longrightarrow> tc_request ctx" "\<not> is_failed s" "\<not> sv_closed s" "aead_laws cr"
  shows "length (sv_input s) < record_header_size + maximum_ciphertext \<and>
    length (sv_handshake s) < message_header_size + maximum_message \<and>
    (if is_established s then
       let n = length (sv_input s) + length data; t = snd (tls_receive cr data s) in
       length (sv_application t) \<le> length (sv_application s) + n \<and>
       length (sv_output t) \<le> length (sv_output s) + 2 * n + update_record_size + alert_record_size
     else sv_application s = [])"
proof -
  have inv: "tls_inv cr s" "tls_bounded s" using tls_reach_inv [OF assms(2,1)] by simp_all
  have "ready s" if "is_established s" using inv(1) that by (simp add: tls_inv_def ready_def is_established_def)
  note growth = receive_growth(1) [OF assms(5) this, of data]
  have "sv_application s = []" if "\<not> is_established s"
    using inv(1) assms(3) that by (auto simp: tls_inv_def is_established_def is_failed_def split: tls_state.splits)
  with growth inv(2) assms(3,4) show ?thesis
    by (auto simp: Let_def receipt_bounds_def tls_bounded_def handshake_bounded_def)
qed

theorem tls_buffers_bounded_witness:
  "let s = snd (tls_receive sample_tls sample_record sample_greeted) in
    is_established s \<and> length (sv_input s) < record_header_size + maximum_ciphertext \<and>
    (\<not> is_failed s \<and> \<not> sv_closed s) \<and>
    length (sv_output (snd (tls_receive sample_tls [1, 2, 3] s))) \<le>
      length (sv_output s) + 2 * (length (sv_input s) + 3) + update_record_size + alert_record_size"
proof -
  obtain s where s: "tls_receive sample_tls sample_record sample_greeted = (True, s)" "is_established s" "\<not> sv_closed s"
    using sample_finished by blast
  then have reach: "tls_reach sample_tls sample_tls_context s"
    using tls_received [OF tls_sample_reach(2), of sample_record] by simp
  have "\<not> is_failed s" using s(2) by (simp add: is_failed_def is_established_def)
  with s(3) show ?thesis
    using tls_buffers_bounded [OF reach tls_sample_reach(3) _ _ sample_laws, of "[1, 2, 3]"] s by (simp add: Let_def)
qed

end
