(* ===== verification/Tls_Output.thy ===== *)
theory Tls_Output
  imports Tls_Exchange
begin

text \<open>
  The output of the TLS server is only written: every operation commutes with earlier output (\<open>operations_pre\<close>),
  so what the owner has taken of it does not matter. The rules are the collection \<open>pre\<close>.
\<close>

section \<open>Operations on a server with earlier output\<close>

text \<open>
  The server with earlier output. Every operation commutes with it, so the output is only appended to and nothing
  depends on it.
\<close>

definition out_pre :: "bytes \<Rightarrow> tls_server \<Rightarrow> tls_server" where
  "out_pre p s = s\<lparr>sv_output := p @ sv_output s\<rparr>"

named_theorems pre

lemma out_pre_fields [simp]:
  "sv_context (out_pre p s) = sv_context s" "sv_random (out_pre p s) = sv_random s" "sv_secret (out_pre p s) = sv_secret s"
  "sv_generated (out_pre p s) = sv_generated s" "sv_clock (out_pre p s) = sv_clock s" "sv_state (out_pre p s) = sv_state s"
  "sv_suite (out_pre p s) = sv_suite s" "sv_group (out_pre p s) = sv_group s" "sv_failure (out_pre p s) = sv_failure s"
  "sv_closed (out_pre p s) = sv_closed s" "sv_close_sent (out_pre p s) = sv_close_sent s"
  "sv_compatibility_sent (out_pre p s) = sv_compatibility_sent s" "sv_epoch (out_pre p s) = sv_epoch s"
  "sv_peer (out_pre p s) = sv_peer s" "sv_input (out_pre p s) = sv_input s" "sv_handshake (out_pre p s) = sv_handshake s"
  "sv_application (out_pre p s) = sv_application s" "sv_output (out_pre p s) = p @ sv_output s" "sv_send (out_pre p s) = sv_send s"
  "sv_receive (out_pre p s) = sv_receive s" "sv_transcript (out_pre p s) = sv_transcript s"
  "sv_handshake_secret (out_pre p s) = sv_handshake_secret s" "sv_client_handshake (out_pre p s) = sv_client_handshake s"
  "sv_server_handshake (out_pre p s) = sv_server_handshake s" "sv_client_traffic (out_pre p s) = sv_client_traffic s"
  "sv_server_traffic (out_pre p s) = sv_server_traffic s"
  "is_failed (out_pre p s) = is_failed s" "is_established (out_pre p s) = is_established s"
  by (simp_all add: out_pre_def is_failed_def is_established_def)

lemma out_pre_updates [pre]:
  "(out_pre p s)\<lparr>sv_state := a\<rparr> = out_pre p (s\<lparr>sv_state := a\<rparr>)" "(out_pre p s)\<lparr>sv_suite := c\<rparr> = out_pre p (s\<lparr>sv_suite := c\<rparr>)"
  "(out_pre p s)\<lparr>sv_group := c\<rparr> = out_pre p (s\<lparr>sv_group := c\<rparr>)" "(out_pre p s)\<lparr>sv_failure := d\<rparr> = out_pre p (s\<lparr>sv_failure := d\<rparr>)"
  "(out_pre p s)\<lparr>sv_failure_received := e\<rparr> = out_pre p (s\<lparr>sv_failure_received := e\<rparr>)"
  "(out_pre p s)\<lparr>sv_closed := e\<rparr> = out_pre p (s\<lparr>sv_closed := e\<rparr>)"
  "(out_pre p s)\<lparr>sv_close_sent := e\<rparr> = out_pre p (s\<lparr>sv_close_sent := e\<rparr>)"
  "(out_pre p s)\<lparr>sv_compatibility_sent := e\<rparr> = out_pre p (s\<lparr>sv_compatibility_sent := e\<rparr>)"
  "(out_pre p s)\<lparr>sv_epoch := f\<rparr> = out_pre p (s\<lparr>sv_epoch := f\<rparr>)" "(out_pre p s)\<lparr>sv_peer := g\<rparr> = out_pre p (s\<lparr>sv_peer := g\<rparr>)"
  "(out_pre p s)\<lparr>sv_input := h\<rparr> = out_pre p (s\<lparr>sv_input := h\<rparr>)"
  "(out_pre p s)\<lparr>sv_handshake := h\<rparr> = out_pre p (s\<lparr>sv_handshake := h\<rparr>)"
  "(out_pre p s)\<lparr>sv_application := h\<rparr> = out_pre p (s\<lparr>sv_application := h\<rparr>)"
  "(out_pre p s)\<lparr>sv_send := k\<rparr> = out_pre p (s\<lparr>sv_send := k\<rparr>)" "(out_pre p s)\<lparr>sv_receive := k\<rparr> = out_pre p (s\<lparr>sv_receive := k\<rparr>)"
  "(out_pre p s)\<lparr>sv_transcript := m\<rparr> = out_pre p (s\<lparr>sv_transcript := m\<rparr>)"
  "(out_pre p s)\<lparr>sv_handshake_secret := h\<rparr> = out_pre p (s\<lparr>sv_handshake_secret := h\<rparr>)"
  "(out_pre p s)\<lparr>sv_client_handshake := h\<rparr> = out_pre p (s\<lparr>sv_client_handshake := h\<rparr>)"
  "(out_pre p s)\<lparr>sv_server_handshake := h\<rparr> = out_pre p (s\<lparr>sv_server_handshake := h\<rparr>)"
  "(out_pre p s)\<lparr>sv_client_traffic := h\<rparr> = out_pre p (s\<lparr>sv_client_traffic := h\<rparr>)"
  "(out_pre p s)\<lparr>sv_server_traffic := h\<rparr> = out_pre p (s\<lparr>sv_server_traffic := h\<rparr>)"
  by (simp_all add: out_pre_def)

lemma seal_pre [pre]: "server_seal cr type content (out_pre p s) = out_pre p (server_seal cr type content s)"
  by (simp add: seal_output) (simp add: out_pre_def)

lemma fail_pre [pre]: "tls_fail cr alert (out_pre p s) = apsnd (out_pre p) (tls_fail cr alert s)"
  by (simp add: tls_fail_def pre)

lemma send_pre [pre]: "tls_send cr type data (out_pre p s) = out_pre p (tls_send cr type data s)"
proof (induction data arbitrary: s rule: length_induct)
  case (1 data)
  have "data = [] \<or> length (drop maximum_plaintext data) < length data" by (cases data) (simp_all add: maximum_plaintext_def)
  with 1 show ?case by (subst (1 2) tls_send.simps) (auto simp: pre)
qed

lemma helpers_pre [pre]:
  "add_transcript message (out_pre p s) = out_pre p (add_transcript message s)"
  "set_receive cr traffic (out_pre p s) = out_pre p (set_receive cr traffic s)"
  "set_send cr traffic (out_pre p s) = out_pre p (set_send cr traffic s)"
  "server_transcript cr (out_pre p s) = server_transcript cr s"
  "tls_exchange cr share (out_pre p s) = tls_exchange cr share s"
  by (simp_all add: add_transcript_def set_receive_def set_send_def server_transcript_def tls_exchange_def pre)

lemma sends_pre [pre]:
  "send_update cr (out_pre p s) = out_pre p (send_update cr s)"
  "send_compatibility cr session (out_pre p s) = out_pre p (send_compatibility cr session s)"
  by (simp_all add: send_update_def send_compatibility_def Let_def pre)

lemma hello_pre [pre]:
  "send_hello cr random session key_share (out_pre p s) = out_pre p (send_hello cr random session key_share s)"
  "send_flight cr (out_pre p s) = out_pre p (send_flight cr s)"
  by (simp_all add: send_hello_def send_flight_def Let_def pre)

lemma accept_pre [pre]:
  "send_retry cr message session (out_pre p s) = out_pre p (send_retry cr message session s)"
  "accept_share cr message session shared own (out_pre p s) = out_pre p (accept_share cr message session shared own s)"
  by (simp_all add: send_retry_def accept_share_def Let_def pre)

lemma pre_if: "(if b then out_pre p x else out_pre p y) = out_pre p (if b then x else y)"
  by simp

lemma client_hello_pre [pre]:
  "handle_client_hello cr message body (out_pre p s) = apsnd (out_pre p) (handle_client_hello cr message body s)"
  unfolding handle_client_hello_def Let_def
  by (simp add: pre pre_if option.case_distrib [where h = "apsnd (out_pre p)"] sum.case_distrib [where h = "apsnd (out_pre p)"]
      prod.case_distrib [where h = "apsnd (out_pre p)"] if_distrib [where f = "apsnd (out_pre p)"]
      cong: if_cong option.case_cong sum.case_cong prod.case_cong)

lemma handlers_pre [pre]:
  "handle_certificate cr message body (out_pre p s) = apsnd (out_pre p) (handle_certificate cr message body s)"
  "handle_certificate_verify cr message body (out_pre p s) = apsnd (out_pre p) (handle_certificate_verify cr message body s)"
  "handle_finished cr message body (out_pre p s) = apsnd (out_pre p) (handle_finished cr message body s)"
  "handle_key_update cr body (out_pre p s) = apsnd (out_pre p) (handle_key_update cr body s)"
  "handle_alert cr content (out_pre p s) = apsnd (out_pre p) (handle_alert cr content s)"
  by (simp_all add: handle_certificate_def handle_certificate_verify_def handle_finished_def handle_key_update_def handle_alert_def
      Let_def pre split: prod.split sum.split)

lemma message_pre [pre]: "handle_message cr type message body (out_pre p s) = apsnd (out_pre p) (handle_message cr type message body s)"
  by (simp add: handle_message_def pre)

lemma messages_pre [pre]: "handshake_messages cr buffer (out_pre p s) = apsnd (out_pre p) (handshake_messages cr buffer s)"
proof (induction buffer arbitrary: s rule: length_induct)
  case (1 buffer)
  let ?n = "message_header_size + handshake_body_size buffer"
  show ?case
  proof (cases "length buffer < message_header_size \<or> maximum_message < handshake_body_size buffer \<or> length buffer < ?n")
    case True
    then show ?thesis by (subst (1 2) handshake_messages.simps) (auto simp: Let_def pre)
  next
    case False
    obtain rest where rest: "drop ?n buffer = rest" by blast
    have "length (drop ?n buffer) < length buffer" using False by (auto simp: message_header_size_def)
    then have shorter: "length rest < length buffer" by (simp add: rest)
    obtain ok s' where m: "handle_message cr (buffer ! 0) (take ?n buffer) (drop message_header_size (take ?n buffer))
        (s\<lparr>sv_handshake := rest\<rparr>) = (ok, s')" by (metis surj_pair)
    show ?thesis
      using False m 1 [rule_format, OF shorter, of s']
      by (subst (1 2) handshake_messages.simps) (auto simp: Let_def pre rest split: bool.split)
  qed
qed

lemma content_pre [pre]:
  "handle_handshake cr content (out_pre p s) = apsnd (out_pre p) (handle_handshake cr content s)"
  "handle_content cr type content (out_pre p s) = apsnd (out_pre p) (handle_content cr type content s)"
  by (simp_all add: handle_handshake_def handle_content_def pre)

lemma record_pre [pre]:
  "handle_record cr type header fragment (out_pre p s) = apsnd (out_pre p) (handle_record cr type header fragment s)"
  by (simp add: handle_record_def Let_def pre split: prod.split option.split)

lemma records_pre [pre]: "receive_records cr available (out_pre p s) = apsnd (apsnd (out_pre p)) (receive_records cr available s)"
proof (induction available arbitrary: s rule: length_induct)
  case (1 available)
  let ?n = "record_header_size + record_fragment_size available"
  show ?case
  proof (cases "is_failed s \<or> sv_closed s \<or> length available < record_header_size \<or>
      maximum_ciphertext < record_fragment_size available \<or> length available < ?n")
    case True
    then show ?thesis by (subst (1 2) receive_records.simps) (auto simp: Let_def pre)
  next
    case False
    then have shorter: "length (drop ?n available) < length available" by (auto simp: record_header_size_def)
    obtain ok s' where m: "handle_record cr (available ! 0) (take record_header_size available)
        (take (record_fragment_size available) (drop record_header_size available)) s = (ok, s')" by (metis surj_pair)
    show ?thesis
      using False m 1 [rule_format, OF shorter, of s']
      by (subst (1 2) receive_records.simps) (simp add: Let_def pre split: bool.split)
  qed
qed

lemma operations_pre [pre]:
  "tls_receive cr data (out_pre p s) = apsnd (out_pre p) (tls_receive cr data s)"
  "tls_write cr data (out_pre p s) = apsnd (out_pre p) (tls_write cr data s)"
  "tls_close cr (out_pre p s) = out_pre p (tls_close cr s)"
  by (simp_all add: tls_receive_def tls_write_def tls_close_def Let_def pre split: prod.split bool.split)

end
