(* ===== verification/Tls_Stream.thy ===== *)
theory Tls_Stream
  imports Tls_Output Tls_Bounds Error_Code "HOL-Library.Multiset"
begin

text \<open>
  The stream over a socket that runs the server (\<open>src/src/tls/stream.cpp\<close>). An operation of the owner is a
  number, the handlers it is bound into are the constructors of \<open>tls_chain\<close>; a completion of the owner's handler
  is an entry of \<open>st_done\<close>. What the executor posts is a queue, run one by one. The socket has one read and one
  write in progress at most, which complete with the code and the bytes of an event.
  \<open>stream_operations_complete\<close>: every operation completes once, and one that has not is awaited;
  \<open>stream_orderly_close\<close>: the closure of the peer is reported only when it was announced, or by a failed write of the
  socket, and the end of the transport without it truncates the stream. A completion handler of the owner that calls
  the stream again before it returns is not modelled: its operation is an event after the one that completed it, so
  the test of \<open>writing_\<close> after the handlers of a write always sees no write in progress here.
\<close>

section \<open>Error codes\<close>

definition alert_unsupported_certificate :: byte where "alert_unsupported_certificate = 43"
definition alert_certificate_unknown :: byte where "alert_certificate_unknown = 46"
definition alert_internal_error :: byte where "alert_internal_error = 80"

definition tls_to_error_code :: "byte \<Rightarrow> error_t" where
  "tls_to_error_code alert =
    (if alert = alert_unexpected_message then e_tls_alert_unexpected_message
     else if alert = alert_bad_record_mac then e_tls_alert_bad_record_mac
     else if alert = alert_record_overflow then e_tls_alert_record_overflow
     else if alert = alert_handshake_failure then e_tls_alert_handshake_failure
     else if alert = alert_bad_certificate then e_tls_alert_bad_certificate
     else if alert = alert_unsupported_certificate then e_tls_alert_unsupported_certificate
     else if alert = alert_certificate_expired then e_tls_alert_certificate_expired
     else if alert = alert_certificate_unknown then e_tls_alert_certificate_unknown
     else if alert = alert_illegal_parameter then e_tls_alert_illegal_parameter
     else if alert = alert_unknown_ca then e_tls_alert_unknown_ca
     else if alert = alert_decode_error then e_tls_alert_decode_error
     else if alert = alert_decrypt_error then e_tls_alert_decrypt_error
     else if alert = alert_protocol_version then e_tls_alert_protocol_version
     else if alert = alert_internal_error then e_tls_alert_internal_error
     else if alert = alert_missing_extension then e_tls_alert_missing_extension
     else if alert = alert_certificate_required then e_tls_alert_certificate_required
     else e_tls_alert_unknown)"

section \<open>State\<close>

text \<open>The handlers that wait, with the number of their operation and the size of its buffer.\<close>

datatype tls_chain =
    Awaits_Handshake nat
  | Awaits_Read nat nat
  | Awaits_Written nat nat
  | Awaits_Close_Sent nat
  | Awaits_Closed nat

record tls_done =
  dn_id :: nat
  dn_code :: error_t
  dn_size :: nat
  dn_data :: bytes

datatype tls_posted = Posted_Done tls_done | Posted_Chain tls_chain error_t

record tls_stream =
  st_server :: tls_server
  st_sending :: bytes
  st_receivers :: "tls_chain list"
  st_waiting :: "tls_chain list"
  st_receiving :: bool
  st_writing :: bool
  st_batch :: "tls_chain list"
  st_posted :: "tls_posted list"
  st_done :: "tls_done list"
  st_wire :: "bytes list"

definition make_tls_stream :: "tls_server \<Rightarrow> tls_stream" where
  "make_tls_stream server = \<lparr>st_server = server, st_sending = [], st_receivers = [], st_waiting = [], st_receiving = False,
     st_writing = False, st_batch = [], st_posted = [], st_done = [], st_wire = []\<rparr>"

definition done_simple :: "nat \<Rightarrow> error_t \<Rightarrow> tls_done" where
  "done_simple n ec = \<lparr>dn_id = n, dn_code = ec, dn_size = 0, dn_data = []\<rparr>"

definition done_read :: "nat \<Rightarrow> error_t \<Rightarrow> bytes \<Rightarrow> tls_done" where
  "done_read n ec data = \<lparr>dn_id = n, dn_code = ec, dn_size = length data, dn_data = data\<rparr>"

definition done_written :: "nat \<Rightarrow> error_t \<Rightarrow> nat \<Rightarrow> tls_done" where
  "done_written n ec room = \<lparr>dn_id = n, dn_code = ec, dn_size = room, dn_data = []\<rparr>"

definition finish :: "tls_done \<Rightarrow> tls_stream \<Rightarrow> tls_stream" where
  "finish d s = s\<lparr>st_done := st_done s @ [d]\<rparr>"

definition post :: "tls_posted \<Rightarrow> tls_stream \<Rightarrow> tls_stream" where
  "post p s = s\<lparr>st_posted := st_posted s @ [p]\<rparr>"

section \<open>Transport\<close>

definition stream_failure :: "tls_stream \<Rightarrow> error_t" where
  "stream_failure s = tls_to_error_code (sv_failure (st_server s))"

definition stream_transport :: "error_t \<Rightarrow> tls_stream \<Rightarrow> error_t" where
  "stream_transport ec s =
    (if ec = e_peer_disconnect \<and> \<not> sv_closed (st_server s) then e_tls_stream_truncated else ec)"

text \<open>A read of the socket starts unless one is in progress.\<close>

definition stream_receive :: "tls_chain \<Rightarrow> tls_stream \<Rightarrow> tls_stream" where
  "stream_receive handler s = s\<lparr>st_receivers := st_receivers s @ [handler], st_receiving := True\<rparr>"

definition write_next :: "tls_stream \<Rightarrow> tls_stream" where
  "write_next s =
    (let handlers = st_waiting s; s = s\<lparr>st_waiting := []\<rparr>; output = sv_output (st_server s) in
     if output = [] then s\<lparr>st_posted := st_posted s @ map (\<lambda>handler. Posted_Chain handler e_success) handlers\<rparr>
     else s\<lparr>st_writing := True, st_sending := output, st_server := (st_server s)\<lparr>sv_output := []\<rparr>, st_batch := handlers,
         st_wire := st_wire s @ [output]\<rparr>)"

definition flush :: "tls_chain \<Rightarrow> tls_stream \<Rightarrow> tls_stream" where
  "flush handler s =
    (let s = s\<lparr>st_waiting := st_waiting s @ [handler]\<rparr> in if \<not> st_writing s then write_next s else s)"

section \<open>Handlers\<close>

definition stream_handle_handshake :: "error_t \<Rightarrow> nat \<Rightarrow> tls_stream \<Rightarrow> tls_stream" where
  "stream_handle_handshake ec n s =
    (if failed ec then finish (done_simple n ec) s
     else if is_failed (st_server s) then finish (done_simple n (stream_failure s)) s
     else if sv_closed (st_server s) then finish (done_simple n e_peer_disconnect) s
     else if is_established (st_server s) then finish (done_simple n e_success) s
     else stream_receive (Awaits_Handshake n) s)"

text \<open>The code and the data of a read that is complete without receiving.\<close>

definition try_read :: "nat \<Rightarrow> tls_stream \<Rightarrow> (error_t \<times> bytes) option \<times> tls_stream" where
  "try_read room s =
    (if room = 0 then (Some (e_success, []), s)
     else if sv_application (st_server s) \<noteq> [] then
       (case tls_read room (st_server s) of (data, server) \<Rightarrow> (Some (e_success, data), s\<lparr>st_server := server\<rparr>))
     else if sv_closed (st_server s) then (Some (e_peer_disconnect, []), s)
     else if is_failed (st_server s) then (Some (stream_failure s, []), s)
     else (None, s))"

definition handle_read_some :: "error_t \<Rightarrow> nat \<Rightarrow> nat \<Rightarrow> tls_stream \<Rightarrow> tls_stream" where
  "handle_read_some ec n room s =
    (if failed ec then finish (done_read n ec []) s
     else case try_read room s of
         (Some (result, data), s) \<Rightarrow> finish (done_read n result data) s
       | (None, s) \<Rightarrow> stream_receive (Awaits_Read n room) s)"

definition handle_close_received :: "error_t \<Rightarrow> nat \<Rightarrow> tls_stream \<Rightarrow> tls_stream" where
  "handle_close_received ec n s =
    (if failed ec then finish (done_simple n ec) s
     else if is_failed (st_server s) then finish (done_simple n (stream_failure s)) s
     else if sv_closed (st_server s) then finish (done_simple n e_success) s
     else stream_receive (Awaits_Closed n) s)"

definition handle_close_sent :: "error_t \<Rightarrow> nat \<Rightarrow> tls_stream \<Rightarrow> tls_stream" where
  "handle_close_sent ec n s =
    (if failed ec then finish (done_simple n ec) s else handle_close_received ec n s)"

text \<open>A handler with the code it is called with.\<close>

definition resume :: "error_t \<Rightarrow> tls_chain \<Rightarrow> tls_stream \<Rightarrow> tls_stream" where
  "resume ec handler s =
    (case handler of
       Awaits_Handshake n \<Rightarrow> stream_handle_handshake ec n s
     | Awaits_Read n room \<Rightarrow> handle_read_some ec n room s
     | Awaits_Written n room \<Rightarrow> finish (done_written n ec (if failed ec then 0 else room)) s
     | Awaits_Close_Sent n \<Rightarrow> handle_close_sent ec n s
     | Awaits_Closed n \<Rightarrow> handle_close_received ec n s)"

definition stream_handle_receive :: "tls_crypto \<Rightarrow> error_t \<Rightarrow> bytes \<Rightarrow> tls_stream \<Rightarrow> tls_stream" where
  "stream_handle_receive cr ec data s =
    (let handlers = st_receivers s; s = s\<lparr>st_receiving := False, st_receivers := []\<rparr> in
     if failed ec then (let result = stream_transport ec s in fold (resume result) handlers s)
     else
       let s = s\<lparr>st_server := snd (tls_receive cr data (st_server s))\<rparr> in
       if sv_output (st_server s) = [] then fold (resume e_success) handlers s else fold flush handlers s)"

definition stream_handle_write :: "error_t \<Rightarrow> tls_stream \<Rightarrow> tls_stream" where
  "stream_handle_write ec s =
    (let handlers = st_batch s; s = s\<lparr>st_writing := False, st_sending := [], st_batch := []\<rparr>;
         s = fold (resume ec) handlers s
     in if \<not> st_writing s \<and> st_waiting s \<noteq> [] then write_next s else s)"

section \<open>Operations\<close>

definition stream_handshake :: "nat \<Rightarrow> tls_stream \<Rightarrow> tls_stream" where
  "stream_handshake n s =
    (if \<not> context_is_ready (sv_context (st_server s)) then post (Posted_Done (done_simple n e_tls_alert_internal_error)) s
     else stream_receive (Awaits_Handshake n) s)"

definition do_read_some :: "nat \<Rightarrow> nat \<Rightarrow> tls_stream \<Rightarrow> tls_stream" where
  "do_read_some n room s =
    (case try_read room s of
       (Some (ec, data), s) \<Rightarrow> post (Posted_Done (done_read n ec data)) s
     | (None, s) \<Rightarrow> stream_receive (Awaits_Read n room) s)"

definition write_error :: "tls_stream \<Rightarrow> error_t" where
  "write_error s = (if is_failed (st_server s) then stream_failure s else e_connect_failed)"

definition do_write_some :: "tls_crypto \<Rightarrow> nat \<Rightarrow> bytes \<Rightarrow> tls_stream \<Rightarrow> tls_stream" where
  "do_write_some cr n data s =
    (if data = [] then post (Posted_Done (done_written n e_success 0)) s
     else
       let room = min (length data) maximum_plaintext in
       (case tls_write cr (take room data) (st_server s) of
          (False, server) \<Rightarrow> post (Posted_Done (done_written n (write_error s) 0)) (s\<lparr>st_server := server\<rparr>)
        | (True, server) \<Rightarrow> flush (Awaits_Written n room) (s\<lparr>st_server := server\<rparr>)))"

text \<open>A blocking write with the code of the write to the socket; its own code and size.\<close>

definition stream_do_write :: "tls_crypto \<Rightarrow> error_t \<Rightarrow> bytes \<Rightarrow> tls_stream \<Rightarrow> error_t \<times> nat \<times> tls_stream" where
  "stream_do_write cr ec data s =
    (if st_writing s then (e_operation_failed, 0, s)
     else if data = [] then (e_success, 0, s)
     else
       let room = min (length data) maximum_plaintext in
       (case tls_write cr (take room data) (st_server s) of
          (False, server) \<Rightarrow> (write_error s, 0, s\<lparr>st_server := server\<rparr>)
        | (True, server) \<Rightarrow> (ec, if failed ec then 0 else room,
            s\<lparr>st_server := server\<lparr>sv_output := []\<rparr>, st_wire := st_wire s @ [sv_output server]\<rparr>)))"

definition stream_shutdown :: "tls_crypto \<Rightarrow> nat \<Rightarrow> tls_stream \<Rightarrow> tls_stream" where
  "stream_shutdown cr n s =
    (if is_failed (st_server s) then post (Posted_Done (done_simple n e_success)) s
     else flush (Awaits_Close_Sent n) (s\<lparr>st_server := tls_close cr (st_server s)\<rparr>))"

definition run_posted :: "tls_stream \<Rightarrow> tls_stream" where
  "run_posted s =
    (case st_posted s of
       [] \<Rightarrow> s
     | Posted_Done d # rest \<Rightarrow> finish d (s\<lparr>st_posted := rest\<rparr>)
     | Posted_Chain handler ec # rest \<Rightarrow> resume ec handler (s\<lparr>st_posted := rest\<rparr>))"

section \<open>Steps\<close>

text \<open>Operations of the owner, completions of the socket (of what is in progress only) and the executor.\<close>

datatype tls_event =
    Start_Handshake nat
  | Start_Read nat nat
  | Start_Write nat bytes
  | Write_Now bytes error_t
  | Start_Shutdown nat
  | Socket_Received error_t bytes
  | Socket_Written error_t
  | Run_Posted

fun stream_event :: "tls_crypto \<Rightarrow> tls_event \<Rightarrow> tls_stream \<Rightarrow> tls_stream" where
  "stream_event cr (Start_Handshake n) s = stream_handshake n s"
| "stream_event cr (Start_Read n room) s = do_read_some n room s"
| "stream_event cr (Start_Write n data) s = do_write_some cr n data s"
| "stream_event cr (Write_Now data ec) s = snd (snd (stream_do_write cr ec data s))"
| "stream_event cr (Start_Shutdown n) s = stream_shutdown cr n s"
| "stream_event cr (Socket_Received ec data) s = (if st_receiving s then stream_handle_receive cr ec data s else s)"
| "stream_event cr (Socket_Written ec) s = (if st_writing s then stream_handle_write ec s else s)"
| "stream_event cr Run_Posted s = run_posted s"

definition stream_events :: "tls_crypto \<Rightarrow> tls_event list \<Rightarrow> tls_stream \<Rightarrow> tls_stream" where
  "stream_events cr events s = fold (stream_event cr) events s"

section \<open>Operations complete once\<close>

primrec chain_id :: "tls_chain \<Rightarrow> nat" where
  "chain_id (Awaits_Handshake n) = n"
| "chain_id (Awaits_Read n room) = n"
| "chain_id (Awaits_Written n room) = n"
| "chain_id (Awaits_Close_Sent n) = n"
| "chain_id (Awaits_Closed n) = n"

primrec posted_id :: "tls_posted \<Rightarrow> nat" where
  "posted_id (Posted_Done d) = dn_id d"
| "posted_id (Posted_Chain handler ec) = chain_id handler"

definition pending_ids :: "tls_stream \<Rightarrow> nat multiset" where
  "pending_ids s = mset (map chain_id (st_receivers s)) + mset (map chain_id (st_waiting s)) + mset (map chain_id (st_batch s)) +
     mset (map posted_id (st_posted s))"

definition stream_ids :: "tls_stream \<Rightarrow> nat multiset" where
  "stream_ids s = mset (map dn_id (st_done s)) + pending_ids s"

fun started_ids :: "tls_event \<Rightarrow> nat multiset" where
  "started_ids (Start_Handshake n) = {#n#}"
| "started_ids (Start_Read n room) = {#n#}"
| "started_ids (Start_Write n data) = {#n#}"
| "started_ids (Start_Shutdown n) = {#n#}"
| "started_ids e = {#}"

text \<open>Between events no output and no handler waits without a write in progress.\<close>

definition stream_ok :: "tls_stream \<Rightarrow> bool" where
  "stream_ok s \<longleftrightarrow>
    (st_writing s \<or> st_batch s = [] \<and> st_sending s = [] \<and> st_waiting s = [] \<and> sv_output (st_server s) = []) \<and>
    (st_receiving s \<longleftrightarrow> st_receivers s \<noteq> []) \<and>
    (sv_output (st_server s) \<noteq> [] \<longrightarrow> st_waiting s \<noteq> [])"

lemmas id_defs = stream_ids_def pending_ids_def

lemma done_ids [simp]: "dn_id (done_simple n ec) = n" "dn_id (done_read n ec data) = n" "dn_id (done_written n ec k) = n"
  by (simp_all add: done_simple_def done_read_def done_written_def)

lemma finish_fields [simp]:
  "st_server (finish d s) = st_server s" "st_waiting (finish d s) = st_waiting s" "st_writing (finish d s) = st_writing s"
  "st_batch (finish d s) = st_batch s" "st_sending (finish d s) = st_sending s" "st_posted (finish d s) = st_posted s"
  "st_wire (finish d s) = st_wire s" "st_receivers (finish d s) = st_receivers s" "st_receiving (finish d s) = st_receiving s"
  "st_done (finish d s) = st_done s @ [d]"
  by (simp_all add: finish_def)

lemma stream_receive_fields [simp]:
  "st_server (stream_receive handler s) = st_server s" "st_waiting (stream_receive handler s) = st_waiting s"
  "st_writing (stream_receive handler s) = st_writing s" "st_batch (stream_receive handler s) = st_batch s"
  "st_sending (stream_receive handler s) = st_sending s" "st_posted (stream_receive handler s) = st_posted s"
  "st_wire (stream_receive handler s) = st_wire s" "st_receivers (stream_receive handler s) = st_receivers s @ [handler]"
  "st_receiving (stream_receive handler s)" "st_done (stream_receive handler s) = st_done s"
  by (simp_all add: stream_receive_def)

lemma try_read_fields [simp]:
  "st_waiting (snd (try_read k s)) = st_waiting s" "st_writing (snd (try_read k s)) = st_writing s"
  "st_batch (snd (try_read k s)) = st_batch s" "st_sending (snd (try_read k s)) = st_sending s"
  "st_posted (snd (try_read k s)) = st_posted s" "st_wire (snd (try_read k s)) = st_wire s"
  "st_receivers (snd (try_read k s)) = st_receivers s" "st_receiving (snd (try_read k s)) = st_receiving s"
  "st_done (snd (try_read k s)) = st_done s" "sv_output (st_server (snd (try_read k s))) = sv_output (st_server s)"
  "sv_closed (st_server (snd (try_read k s))) = sv_closed (st_server s)"
  by (simp_all add: try_read_def tls_read_def)

lemma handle_read_some_cases:
  "handle_read_some ec n k s = (if failed ec then finish (done_read n ec []) s
     else case fst (try_read k s) of Some (result, data) \<Rightarrow> finish (done_read n result data) (snd (try_read k s))
       | None \<Rightarrow> stream_receive (Awaits_Read n k) (snd (try_read k s)))"
  by (simp add: handle_read_some_def case_prod_unfold split: option.splits)

lemma resume_fields [simp]:
  "st_waiting (resume ec handler s) = st_waiting s" "st_writing (resume ec handler s) = st_writing s"
  "st_batch (resume ec handler s) = st_batch s" "st_sending (resume ec handler s) = st_sending s"
  "st_posted (resume ec handler s) = st_posted s" "st_wire (resume ec handler s) = st_wire s"
  "sv_output (st_server (resume ec handler s)) = sv_output (st_server s)"
  "sv_closed (st_server (resume ec handler s)) = sv_closed (st_server s)"
  by (simp_all add: resume_def stream_handle_handshake_def handle_read_some_cases handle_close_sent_def handle_close_received_def
      split: tls_chain.split option.split)

lemma resume_receiving:
  "(st_receiving s \<longleftrightarrow> st_receivers s \<noteq> []) \<Longrightarrow> st_receiving (resume ec handler s) \<longleftrightarrow> st_receivers (resume ec handler s) \<noteq> []"
  by (simp add: resume_def stream_handle_handshake_def handle_read_some_cases handle_close_sent_def handle_close_received_def
      split: tls_chain.split option.split)

lemma resume_ids: "stream_ids (resume ec handler s) = stream_ids s + {#chain_id handler#}"
  by (simp add: resume_def stream_handle_handshake_def handle_read_some_cases handle_close_sent_def handle_close_received_def id_defs
      split: tls_chain.split option.split)

lemma fold_resume_fields [simp]:
  "st_waiting (fold (resume ec) handlers s) = st_waiting s" "st_writing (fold (resume ec) handlers s) = st_writing s"
  "st_batch (fold (resume ec) handlers s) = st_batch s" "st_sending (fold (resume ec) handlers s) = st_sending s"
  "st_posted (fold (resume ec) handlers s) = st_posted s" "st_wire (fold (resume ec) handlers s) = st_wire s"
  "sv_output (st_server (fold (resume ec) handlers s)) = sv_output (st_server s)"
  "sv_closed (st_server (fold (resume ec) handlers s)) = sv_closed (st_server s)"
  by (induction handlers arbitrary: s) simp_all

lemma fold_resume_receiving:
  "(st_receiving s \<longleftrightarrow> st_receivers s \<noteq> []) \<Longrightarrow>
    st_receiving (fold (resume ec) handlers s) \<longleftrightarrow> st_receivers (fold (resume ec) handlers s) \<noteq> []"
  by (induction handlers arbitrary: s) (simp_all add: resume_receiving)

lemma fold_resume_ids: "stream_ids (fold (resume ec) handlers s) = stream_ids s + mset (map chain_id handlers)"
  by (induction handlers arbitrary: s) (simp_all add: resume_ids)

lemma write_next_ids: "st_batch s = [] \<Longrightarrow> stream_ids (write_next s) = stream_ids s"
  by (simp add: write_next_def id_defs Let_def multiset.map_comp comp_def)

lemma write_next_fields [simp]:
  "st_receivers (write_next s) = st_receivers s" "st_receiving (write_next s) = st_receiving s" "st_done (write_next s) = st_done s"
  "st_waiting (write_next s) = []" "sv_output (st_server (write_next s)) = []"
  "sv_closed (st_server (write_next s)) = sv_closed (st_server s)"
  by (simp_all add: write_next_def Let_def)

lemma write_next_ok:
  "\<not> st_writing s \<Longrightarrow> st_batch s = [] \<Longrightarrow> st_sending s = [] \<Longrightarrow> (st_receiving s \<longleftrightarrow> st_receivers s \<noteq> []) \<Longrightarrow> stream_ok (write_next s)"
  by (simp add: stream_ok_def write_next_def Let_def)

definition stream_busy_ok :: "tls_stream \<Rightarrow> bool" where
  "stream_busy_ok s \<longleftrightarrow>
    (st_writing s \<or> st_batch s = [] \<and> st_sending s = [] \<and> st_waiting s = []) \<and> (st_receiving s \<longleftrightarrow> st_receivers s \<noteq> [])"

lemma flush_ok: "stream_busy_ok s \<Longrightarrow> stream_ok (flush handler s)"
  by (auto simp: flush_def Let_def stream_busy_ok_def write_next_ok) (simp_all add: stream_ok_def)

lemma flush_ids: "stream_busy_ok s \<Longrightarrow> stream_ids (flush handler s) = stream_ids s + {#chain_id handler#}"
  by (auto simp: flush_def Let_def stream_busy_ok_def write_next_ids) (simp_all add: id_defs)

lemma ok_busy: "stream_ok s \<Longrightarrow> stream_busy_ok s"
  by (auto simp: stream_ok_def stream_busy_ok_def)

lemma fold_flush:
  "stream_busy_ok s \<Longrightarrow> handlers \<noteq> [] \<Longrightarrow>
    stream_ok (fold flush handlers s) \<and> stream_ids (fold flush handlers s) = stream_ids s + mset (map chain_id handlers)"
proof (induction handlers arbitrary: s)
  case (Cons handler handlers)
  note step = flush_ok [OF Cons(2), of handler] flush_ids [OF Cons(2), of handler]
  show ?case
  proof (cases "handlers = []")
    case False
    from Cons(1) [OF ok_busy [OF step(1)] this] show ?thesis using step(2) by simp
  qed (use step in simp)
qed simp

lemma stream_busy_server [simp]: "stream_busy_ok (s\<lparr>st_server := server\<rparr>) = stream_busy_ok s"
  "stream_ids (s\<lparr>st_server := server\<rparr>) = stream_ids s"
  by (simp_all add: stream_busy_ok_def id_defs)

lemma handle_receive_ok:
  assumes "stream_ok s" "st_receiving s"
  shows "stream_ok (stream_handle_receive cr ec data s) \<and> stream_ids (stream_handle_receive cr ec data s) = stream_ids s"
proof -
  let ?s = "s\<lparr>st_receiving := False, st_receivers := []\<rparr>"
  let ?t = "?s\<lparr>st_server := snd (tls_receive cr data (st_server s))\<rparr>"
  have ids: "stream_ids ?s + mset (map chain_id (st_receivers s)) = stream_ids s" by (simp add: id_defs)
  have busy: "stream_busy_ok ?s" "stream_busy_ok ?t" and some: "st_receivers s \<noteq> []"
    using assms by (auto simp: stream_ok_def stream_busy_ok_def)
  have resumed: "stream_ok (fold (resume result) handlers x)"
    if "stream_busy_ok x" "sv_output (st_server x) = [] \<or> st_writing x \<and> st_waiting x \<noteq> []" for result handlers x
    using that fold_resume_receiving [of x result handlers] by (auto simp: stream_busy_ok_def stream_ok_def)
  show ?thesis
  proof (cases "failed ec")
    case True
    have "sv_output (st_server ?s) = [] \<or> st_writing ?s \<and> st_waiting ?s \<noteq> []" using assms by (auto simp: stream_ok_def)
    from resumed [OF busy(1) this] True ids show ?thesis
      by (simp add: stream_handle_receive_def fold_resume_ids Let_def)
  next
    case False
    show ?thesis
    proof (cases "sv_output (st_server ?t) = []")
      case True
      then have "sv_output (st_server ?t) = [] \<or> st_writing ?t \<and> st_waiting ?t \<noteq> []" by simp
      from resumed [OF busy(2) this] True False ids show ?thesis
        by (simp add: stream_handle_receive_def fold_resume_ids Let_def)
    next
      case flushed: False
      from fold_flush [OF busy(2) some] flushed False ids show ?thesis
        by (simp add: stream_handle_receive_def Let_def)
    qed
  qed
qed

lemma handle_write_ok:
  assumes "stream_ok s" "st_writing s"
  shows "stream_ok (stream_handle_write ec s) \<and> stream_ids (stream_handle_write ec s) = stream_ids s"
proof -
  let ?s = "s\<lparr>st_writing := False, st_sending := [], st_batch := []\<rparr>"
  let ?t = "fold (resume ec) (st_batch s) ?s"
  have ids: "stream_ids ?t = stream_ids s" unfolding fold_resume_ids by (simp add: id_defs)
  have receiving: "st_receiving ?t \<longleftrightarrow> st_receivers ?t \<noteq> []"
    by (rule fold_resume_receiving) (use assms in \<open>simp add: stream_ok_def\<close>)
  show ?thesis
  proof (cases "st_waiting s = []")
    case True
    then have "stream_ok ?t" using assms receiving by (auto simp: stream_ok_def)
    then show ?thesis using True ids by (simp add: stream_handle_write_def Let_def)
  next
    case False
    have "stream_ok (write_next ?t)" by (rule write_next_ok) (simp_all add: receiving)
    moreover have "stream_ids (write_next ?t) = stream_ids s" using write_next_ids [of ?t] ids by simp
    ultimately show ?thesis using False by (simp add: stream_handle_write_def Let_def)
  qed
qed

lemma tls_write_refused: "\<not> fst (tls_write cr data server) \<Longrightarrow> snd (tls_write cr data server) = server"
  by (auto simp: tls_write_def Let_def)

lemma post_ok [simp]: "stream_ok (post p s) = stream_ok s" "stream_ids (post p s) = stream_ids s + {#posted_id p#}"
  by (simp_all add: post_def stream_ok_def id_defs)

lemma receive_chain_ok:
  "stream_ok s \<Longrightarrow> stream_ok (stream_receive handler s)"
  "stream_ids (stream_receive handler s) = stream_ids s + {#chain_id handler#}"
  by (auto simp: stream_ok_def id_defs)

lemma try_read_ok: "stream_ok s \<Longrightarrow> stream_ok (snd (try_read k s))" "stream_ids (snd (try_read k s)) = stream_ids s"
  by (simp_all add: stream_ok_def id_defs)

lemma event_ok:
  assumes "stream_ok s"
  shows "stream_ok (stream_event cr e s) \<and> stream_ids (stream_event cr e s) = stream_ids s + started_ids e"
proof (cases e)
  case (Start_Handshake n)
  then show ?thesis using assms by (simp add: stream_handshake_def receive_chain_ok)
next
  case (Start_Read n k)
  obtain r s' where r: "try_read k s = (r, s')" by (cases "try_read k s")
  then have "stream_ok s'" "stream_ids s' = stream_ids s" using try_read_ok [where s = s and k = k] assms by simp_all
  then show ?thesis using Start_Read r by (cases r) (auto simp: do_read_some_def receive_chain_ok)
next
  case (Start_Write n data)
  obtain ok server where w: "tls_write cr (take (min (length data) maximum_plaintext) data) (st_server s) = (ok, server)"
    by (cases "tls_write cr (take (min (length data) maximum_plaintext) data) (st_server s)")
  show ?thesis
  proof (cases ok)
    case True
    have "stream_busy_ok (s\<lparr>st_server := server\<rparr>)" using ok_busy [OF assms] by simp
    note flushed = flush_ok [OF this] flush_ids [OF this]
    show ?thesis using Start_Write w True assms by (simp add: do_write_some_def Let_def flushed)
  next
    case False
    then have "server = st_server s" using tls_write_refused w by (metis fst_conv snd_conv)
    then show ?thesis using Start_Write w False assms by (simp add: do_write_some_def Let_def)
  qed
next
  case (Write_Now data ec)
  obtain ok server where w: "tls_write cr (take (min (length data) maximum_plaintext) data) (st_server s) = (ok, server)"
    by (cases "tls_write cr (take (min (length data) maximum_plaintext) data) (st_server s)")
  then have same: "\<not> ok \<Longrightarrow> server = st_server s" using tls_write_refused by (metis fst_conv snd_conv)
  show ?thesis
    using assms Write_Now w by (cases ok) (auto simp: stream_do_write_def Let_def stream_ok_def same id_defs)
next
  case (Start_Shutdown n)
  have "stream_busy_ok (s\<lparr>st_server := tls_close cr (st_server s)\<rparr>)" using ok_busy [OF assms] by simp
  note flushed = flush_ok [OF this] flush_ids [OF this]
  show ?thesis using Start_Shutdown assms by (simp add: stream_shutdown_def flushed)
next
  case (Socket_Received ec data)
  then show ?thesis using handle_receive_ok [OF assms] assms by simp
next
  case (Socket_Written ec)
  then show ?thesis using handle_write_ok [OF assms] assms by simp
next
  case Run_Posted
  show ?thesis
  proof (cases "st_posted s")
    case (Cons p rest)
    let ?s = "s\<lparr>st_posted := rest\<rparr>"
    have s: "stream_ok ?s" "stream_ids ?s + {#posted_id p#} = stream_ids s"
      using assms Cons by (simp_all add: stream_ok_def id_defs)
    have "stream_ok (resume ec handler ?s)" for ec handler
      using s(1) resume_receiving [of ?s ec handler] by (auto simp: stream_ok_def)
    moreover have "stream_ok (finish d ?s)" "stream_ids (finish d ?s) = stream_ids ?s + {#dn_id d#}" for d
      using s(1) by (simp_all add: stream_ok_def id_defs)
    ultimately show ?thesis
      using Run_Posted Cons s(2) by (cases p) (simp_all add: run_posted_def resume_ids)
  qed (use Run_Posted assms in \<open>simp add: run_posted_def\<close>)
qed

lemma events_ok:
  "stream_ok s \<Longrightarrow> stream_ok (stream_events cr events s) \<and>
    stream_ids (stream_events cr events s) = stream_ids s + (\<Sum>e \<leftarrow> events. started_ids e)"
proof (induction events arbitrary: s)
  case (Cons e events)
  from event_ok [OF Cons(2), of cr e] Cons(1) [of "stream_event cr e s"] show ?case by (simp add: stream_events_def)
qed (simp add: stream_events_def)

section \<open>The server under the stream\<close>

text \<open>The server with all output that went to the socket.\<close>

definition whole_server :: "tls_stream \<Rightarrow> tls_server" where
  "whole_server s = out_pre (concat (st_wire s)) (st_server s)"

text \<open>What an event asks of the server, by the state of the stream; reads apart.\<close>

fun server_operation :: "tls_crypto \<Rightarrow> tls_event \<Rightarrow> tls_stream \<Rightarrow> tls_server \<Rightarrow> tls_server" where
  "server_operation cr (Start_Write n data) s server =
    (if data = [] then server else snd (tls_write cr (take maximum_plaintext data) server))"
| "server_operation cr (Write_Now data ec) s server =
    (if st_writing s \<or> data = [] then server else snd (tls_write cr (take maximum_plaintext data) server))"
| "server_operation cr (Start_Shutdown n) s server = tls_close cr server"
| "server_operation cr (Socket_Received ec data) s server =
    (if st_receiving s \<and> \<not> failed ec then snd (tls_receive cr data server) else server)"
| "server_operation cr e s server = server"

text \<open>The same but for application data that was read.\<close>

definition reads_to :: "tls_server \<Rightarrow> tls_server \<Rightarrow> bool" where
  "reads_to a b \<longleftrightarrow> (\<exists>k. b = a\<lparr>sv_application := drop k (sv_application a)\<rparr>)"

lemma reads_to_refl [simp]: "reads_to a a"
  unfolding reads_to_def by (rule exI [of _ 0]) simp

lemma reads_to_drop: "reads_to a (a\<lparr>sv_application := drop k (sv_application a)\<rparr>)"
  unfolding reads_to_def by blast

lemma reads_to_trans: "reads_to a b \<Longrightarrow> reads_to b c \<Longrightarrow> reads_to a c"
  unfolding reads_to_def by (metis (no_types, lifting) drop_drop tls_server.select_convs(18) tls_server.surjective tls_server.update_convs(18))

lemma reads_to_pre: "reads_to a b \<Longrightarrow> reads_to (out_pre p a) (out_pre p b)"
  by (auto simp: reads_to_def pre)

lemma whole_server_fields [simp]:
  "whole_server (finish d s) = whole_server s" "whole_server (stream_receive handler s) = whole_server s"
  "whole_server (post q s) = whole_server s"
  by (simp_all add: whole_server_def post_def)

lemma try_read_server: "reads_to (st_server s) (st_server (snd (try_read k s)))"
  by (simp add: try_read_def tls_read_def reads_to_drop)

lemma resume_server: "reads_to (st_server s) (st_server (resume ec handler s))"
  using try_read_server
  by (auto simp: resume_def stream_handle_handshake_def handle_read_some_cases handle_close_sent_def handle_close_received_def
      split: tls_chain.split option.split)

lemma fold_resume_server: "reads_to (st_server s) (st_server (fold (resume ec) handlers s))"
proof (induction handlers arbitrary: s)
  case (Cons handler handlers)
  from reads_to_trans [OF resume_server Cons] show ?case by simp
qed simp

lemma whole_resume: "reads_to (whole_server s) (whole_server (fold (resume ec) handlers s))"
  using reads_to_pre [OF fold_resume_server] by (simp add: whole_server_def)

lemma write_next_whole: "whole_server (write_next s) = whole_server s"
  by (simp add: write_next_def whole_server_def Let_def out_pre_def)

lemma flush_whole: "whole_server (flush handler s) = whole_server s"
  by (simp add: flush_def Let_def write_next_whole) (simp add: whole_server_def)

lemma fold_flush_whole: "whole_server (fold flush handlers s) = whole_server s"
  by (induction handlers arbitrary: s) (simp_all add: flush_whole)

lemma take_min: "take (min (length data) n) data = take n data"
  by (metis min_def take_all_iff order_refl)

lemma whole_server_update: "whole_server (s\<lparr>st_server := server\<rparr>) = out_pre (concat (st_wire s)) server"
  by (simp add: whole_server_def)

lemma event_refines: "reads_to (server_operation cr e s (whole_server s)) (whole_server (stream_event cr e s))"
proof (cases e)
  case (Start_Handshake n)
  then show ?thesis by (simp add: stream_handshake_def)
next
  case (Start_Read n k)
  have "whole_server (do_read_some n k s) = whole_server (snd (try_read k s))"
    by (simp add: do_read_some_def case_prod_unfold split: option.split)
  then show ?thesis using Start_Read reads_to_pre [OF try_read_server] by (simp add: whole_server_def)
next
  case (Start_Write n data)
  obtain ok server where w: "tls_write cr (take maximum_plaintext data) (st_server s) = (ok, server)" by (metis surj_pair)
  then have "snd (tls_write cr (take maximum_plaintext data) (whole_server s)) = out_pre (concat (st_wire s)) server"
    by (simp add: whole_server_def pre)
  then show ?thesis
    using Start_Write w by (cases ok) (auto simp: do_write_some_def Let_def take_min flush_whole whole_server_update)
next
  case (Write_Now data ec)
  obtain ok server where w: "tls_write cr (take maximum_plaintext data) (st_server s) = (ok, server)" by (metis surj_pair)
  then have "snd (tls_write cr (take maximum_plaintext data) (whole_server s)) = out_pre (concat (st_wire s)) server"
    by (simp add: whole_server_def pre)
  moreover have "out_pre (p @ sv_output server) (server\<lparr>sv_output := []\<rparr>) = out_pre p server" for p by (simp add: out_pre_def)
  ultimately show ?thesis
    using Write_Now w by (cases ok) (auto simp: stream_do_write_def Let_def take_min whole_server_update whole_server_def)
next
  case (Start_Shutdown n)
  have "is_failed server \<Longrightarrow> tls_close cr server = server" for server by (simp add: tls_close_def)
  then show ?thesis
    using Start_Shutdown by (simp add: stream_shutdown_def flush_whole whole_server_update) (simp add: whole_server_def pre)
next
  case (Socket_Received ec data)
  let ?s = "s\<lparr>st_receiving := False, st_receivers := []\<rparr>"
  have same: "whole_server ?s = whole_server s" by (simp add: whole_server_def)
  have received: "whole_server (?s\<lparr>st_server := snd (tls_receive cr data (st_server s))\<rparr>) = snd (tls_receive cr data (whole_server s))"
    by (simp add: whole_server_def pre)
  show ?thesis
    using Socket_Received whole_resume [of ?s] whole_resume [of "?s\<lparr>st_server := snd (tls_receive cr data (st_server s))\<rparr>"]
    by (simp add: stream_handle_receive_def Let_def fold_flush_whole same received)
next
  case (Socket_Written ec)
  let ?s = "s\<lparr>st_writing := False, st_sending := [], st_batch := []\<rparr>"
  have same: "whole_server ?s = whole_server s" by (simp add: whole_server_def)
  show ?thesis
    using Socket_Written whole_resume [of ?s] by (simp add: stream_handle_write_def Let_def write_next_whole same)
next
  case Run_Posted
  have "reads_to (whole_server s) (whole_server (resume ec handler (s\<lparr>st_posted := rest\<rparr>)))" for ec handler rest
    using whole_resume [of "s\<lparr>st_posted := rest\<rparr>" ec "[handler]"] by (simp add: whole_server_def)
  moreover have "whole_server (s\<lparr>st_posted := rest\<rparr>) = whole_server s" for rest by (simp add: whole_server_def)
  ultimately show ?thesis
    using Run_Posted by (auto simp: run_posted_def split: list.split tls_posted.split)
qed

text \<open>So the server of a stream is one that a connection can reach, and its safety holds under the stream.\<close>

lemma stream_reach:
  "tls_reach cr ctx (whole_server (stream_events cr events (make_tls_stream (make_server ctx random ephemeral generated clock))))"
proof (induction events rule: rev_induct)
  case Nil
  show ?case by (simp add: stream_events_def make_tls_stream_def whole_server_def out_pre_def tls_created)
next
  case (snoc e events)
  let ?s = "stream_events cr events (make_tls_stream (make_server ctx random ephemeral generated clock))"
  have "tls_reach cr ctx (server_operation cr e ?s (whole_server ?s))"
    using snoc by (cases e) (simp_all add: tls_received tls_written tls_closed)
  moreover obtain k where "whole_server (stream_event cr e ?s) = snd (tls_read k (server_operation cr e ?s (whole_server ?s)))"
    using event_refines [of cr e ?s] by (auto simp: reads_to_def tls_read_def)
  ultimately have "tls_reach cr ctx (whole_server (stream_event cr e ?s))" using tls_readed by metis
  then show ?case by (simp add: stream_events_def)
qed

section \<open>Codes\<close>

primrec posted_ok :: "bool \<Rightarrow> tls_posted \<Rightarrow> bool" where
  "posted_ok closed (Posted_Done d) = (dn_code d = e_peer_disconnect \<longrightarrow> closed)"
| "posted_ok closed (Posted_Chain handler ec) = (ec = e_success)"

text \<open>
  Operations that a failed write of the socket completes with the disconnection, as its code is not mapped: those
  bound to the batch of the write.
\<close>

fun lost_by :: "tls_event \<Rightarrow> tls_stream \<Rightarrow> nat set" where
  "lost_by (Socket_Written ec) s = (if st_writing s \<and> ec = e_peer_disconnect then chain_id ` set (st_batch s) else {})"
| "lost_by e s = {}"

primrec lost_writes :: "tls_crypto \<Rightarrow> tls_event list \<Rightarrow> tls_stream \<Rightarrow> nat set" where
  "lost_writes cr [] s = {}"
| "lost_writes cr (e # events) s = lost_by e s \<union> lost_writes cr events (stream_event cr e s)"

definition codes_ok :: "nat set \<Rightarrow> tls_stream \<Rightarrow> bool" where
  "codes_ok lost s \<longleftrightarrow>
    (\<forall>d \<in> set (st_done s). dn_code d = e_peer_disconnect \<longrightarrow> sv_closed (st_server s) \<or> dn_id d \<in> lost) \<and>
    (\<forall>q \<in> set (st_posted s). posted_ok (sv_closed (st_server s)) q)"

lemma done_codes [simp]: "dn_code (done_simple n ec) = ec" "dn_code (done_read n ec data) = ec" "dn_code (done_written n ec k) = ec"
  by (simp_all add: done_simple_def done_read_def done_written_def)

lemma failure_code: "stream_failure s \<noteq> e_peer_disconnect"
  by (simp add: stream_failure_def tls_to_error_code_def)

lemma try_read_code: "fst (try_read k s) = Some (e_peer_disconnect, data) \<Longrightarrow> sv_closed (st_server s)"
  using failure_code by (auto simp: try_read_def tls_read_def split: if_splits)

lemma resume_codes:
  assumes "codes_ok lost s" "ec = e_peer_disconnect \<Longrightarrow> sv_closed (st_server s) \<or> chain_id handler \<in> lost"
  shows "codes_ok lost (resume ec handler s)"
proof -
  have "sv_closed (st_server (resume ec handler s)) = sv_closed (st_server s)" "st_posted (resume ec handler s) = st_posted s"
    by simp_all
  moreover have "\<exists>new. st_done (resume ec handler s) = st_done s @ new \<and>
      (\<forall>d \<in> set new. dn_code d = e_peer_disconnect \<longrightarrow> sv_closed (st_server s) \<or> dn_id d \<in> lost)"
    using assms(2) failure_code [of s] try_read_code [of _ s]
    by (auto simp: resume_def stream_handle_handshake_def handle_read_some_cases handle_close_sent_def handle_close_received_def
        split: tls_chain.split option.split)
  ultimately show ?thesis using assms(1) by (auto simp: codes_ok_def)
qed

lemma fold_resume_codes:
  "codes_ok lost s \<Longrightarrow> (ec = e_peer_disconnect \<Longrightarrow> sv_closed (st_server s) \<or> chain_id ` set handlers \<subseteq> lost) \<Longrightarrow>
    codes_ok lost (fold (resume ec) handlers s)"
proof (induction handlers arbitrary: s)
  case (Cons handler handlers)
  have "codes_ok lost (resume ec handler s)" by (rule resume_codes) (use Cons(2,3) in auto)
  then show ?case using Cons(1) [of "resume ec handler s"] Cons(3) by auto
qed simp

lemma posted_ok_later: "posted_ok closed q \<Longrightarrow> (closed \<Longrightarrow> closed2) \<Longrightarrow> posted_ok closed2 q"
  by (cases q) auto

lemma write_next_codes: "codes_ok lost s \<Longrightarrow> codes_ok lost (write_next s)"
  by (auto simp: write_next_def Let_def codes_ok_def)

lemma flush_codes: "codes_ok lost s \<Longrightarrow> codes_ok lost (flush handler s)"
  using write_next_codes [of lost "s\<lparr>st_waiting := st_waiting s @ [handler]\<rparr>"] by (simp add: flush_def Let_def) (simp add: codes_ok_def)

lemma fold_flush_codes: "codes_ok lost s \<Longrightarrow> codes_ok lost (fold flush handlers s)"
  by (induction handlers arbitrary: s) (simp_all add: flush_codes)

lemma server_codes:
  "codes_ok lost s \<Longrightarrow> (sv_closed (st_server s) \<Longrightarrow> sv_closed server) \<Longrightarrow> codes_ok lost (s\<lparr>st_server := server\<rparr>)"
  using posted_ok_later by (auto simp: codes_ok_def)

lemma post_codes: "codes_ok lost s \<Longrightarrow> dn_code d \<noteq> e_peer_disconnect \<or> sv_closed (st_server s) \<Longrightarrow> codes_ok lost (post (Posted_Done d) s)"
  by (auto simp: codes_ok_def post_def)

lemma receive_codes: "codes_ok lost s \<Longrightarrow> codes_ok lost (stream_receive handler s)"
  by (simp add: codes_ok_def)

lemma tls_receive_closed: "sv_closed s \<Longrightarrow> snd (tls_receive cr data s) = s"
  by (simp add: tls_receive_def)

lemma tls_write_closed: "sv_closed (snd (tls_write cr data s)) = sv_closed s"
  by (simp add: tls_write_def Let_def)

lemma tls_close_closed: "sv_closed (tls_close cr s) = sv_closed s"
  by (simp add: tls_close_def)

lemma write_error_code: "write_error s \<noteq> e_peer_disconnect"
  using failure_code by (simp add: write_error_def)

lemma event_codes:
  assumes "codes_ok lost s" "lost_by e s \<subseteq> lost"
  shows "codes_ok lost (stream_event cr e s)"
proof (cases e)
  case (Start_Handshake n)
  then show ?thesis
    using assms(1) by (simp add: stream_handshake_def post_codes receive_codes)
next
  case (Start_Read n k)
  obtain r s' where r: "try_read k s = (r, s')" by (cases "try_read k s")
  have "codes_ok lost (snd (try_read k s))" using assms(1) by (simp add: codes_ok_def)
  then have ok: "codes_ok lost s'" by (simp add: r)
  have "r = Some (e_peer_disconnect, data) \<Longrightarrow> sv_closed (st_server s')" for data
    using try_read_code [of k s data] try_read_fields(11) [of k s] by (simp add: r)
  then show ?thesis
    using Start_Read r ok by (cases r) (auto simp: do_read_some_def receive_codes intro!: post_codes)
next
  case (Start_Write n data)
  obtain ok server where w: "tls_write cr (take (min (length data) maximum_plaintext) data) (st_server s) = (ok, server)"
    by (cases "tls_write cr (take (min (length data) maximum_plaintext) data) (st_server s)")
  then have "sv_closed server = sv_closed (st_server s)" using tls_write_closed by (metis snd_conv)
  then have "codes_ok lost (s\<lparr>st_server := server\<rparr>)" using server_codes assms(1) by simp
  then show ?thesis
    using Start_Write w assms(1) by (cases ok) (simp_all add: do_write_some_def Let_def flush_codes post_codes write_error_code)
next
  case (Write_Now data ec)
  obtain ok server where w: "tls_write cr (take (min (length data) maximum_plaintext) data) (st_server s) = (ok, server)"
    by (cases "tls_write cr (take (min (length data) maximum_plaintext) data) (st_server s)")
  then have closed: "sv_closed server = sv_closed (st_server s)" using tls_write_closed by (metis snd_conv)
  have "codes_ok lost (s\<lparr>st_server := server\<rparr>)" "codes_ok lost (s\<lparr>st_server := server\<lparr>sv_output := []\<rparr>\<rparr>)"
    using server_codes assms(1) closed by simp_all
  then show ?thesis
    using Write_Now w assms(1) by (cases ok) (auto simp: stream_do_write_def Let_def codes_ok_def)
next
  case (Start_Shutdown n)
  have "codes_ok lost (s\<lparr>st_server := tls_close cr (st_server s)\<rparr>)" using server_codes assms(1) tls_close_closed by simp
  then show ?thesis
    using Start_Shutdown assms(1) by (simp add: stream_shutdown_def flush_codes post_codes)
next
  case (Socket_Received ec data)
  let ?s = "s\<lparr>st_receiving := False, st_receivers := []\<rparr>"
  let ?t = "?s\<lparr>st_server := snd (tls_receive cr data (st_server s))\<rparr>"
  have s: "codes_ok lost ?s" using assms(1) by (simp add: codes_ok_def)
  have t: "codes_ok lost ?t" by (rule server_codes [OF s]) (simp add: tls_receive_closed)
  have "stream_transport ec ?s = e_peer_disconnect \<Longrightarrow> sv_closed (st_server ?s)" by (auto simp: stream_transport_def split: if_splits)
  with Socket_Received s t show ?thesis
    using assms(1) fold_resume_codes [OF s, of "stream_transport ec ?s"] fold_resume_codes [OF t, of e_success] fold_flush_codes [OF t]
    by (simp add: stream_handle_receive_def Let_def)
next
  case (Socket_Written ec)
  let ?s = "s\<lparr>st_writing := False, st_sending := [], st_batch := []\<rparr>"
  have s: "codes_ok lost ?s" using assms(1) by (simp add: codes_ok_def)
  show ?thesis
  proof (cases "st_writing s")
    case True
    then have "ec = e_peer_disconnect \<Longrightarrow> chain_id ` set (st_batch s) \<subseteq> lost" using assms(2) Socket_Written by simp
    with fold_resume_codes [OF s, of ec] have "codes_ok lost (fold (resume ec) (st_batch s) ?s)" by blast
  then show ?thesis using Socket_Written True write_next_codes by (simp add: stream_handle_write_def Let_def)
  qed (use Socket_Written assms(1) in simp)
next
  case Run_Posted
  show ?thesis
  proof (cases "st_posted s")
    case (Cons q rest)
    have s: "codes_ok lost (s\<lparr>st_posted := rest\<rparr>)" and q: "posted_ok (sv_closed (st_server s)) q"
      using assms(1) Cons by (simp_all add: codes_ok_def)
    show ?thesis
    proof (cases q)
      case (Posted_Done d)
      then show ?thesis using Run_Posted Cons s q by (auto simp: run_posted_def codes_ok_def)
    next
      case (Posted_Chain handler ec)
      then show ?thesis using Run_Posted Cons q resume_codes [OF s, of ec handler] by (simp add: run_posted_def)
    qed
  qed (use Run_Posted assms(1) in \<open>simp add: run_posted_def\<close>)
qed

lemma events_codes:
  "codes_ok lost s \<Longrightarrow> lost_writes cr events s \<subseteq> lost \<Longrightarrow> codes_ok lost (stream_events cr events s)"
  by (induction events arbitrary: s) (simp_all add: stream_events_def event_codes)

text \<open>The completion of a handler that waits, when it is called with a failure.\<close>

primrec ended_with :: "error_t \<Rightarrow> tls_chain \<Rightarrow> tls_done" where
  "ended_with ec (Awaits_Handshake n) = done_simple n ec"
| "ended_with ec (Awaits_Read n room) = done_read n ec []"
| "ended_with ec (Awaits_Written n room) = done_written n ec 0"
| "ended_with ec (Awaits_Close_Sent n) = done_simple n ec"
| "ended_with ec (Awaits_Closed n) = done_simple n ec"

lemma resume_failed: "failed ec \<Longrightarrow> resume ec handler s = finish (ended_with ec handler) s"
  by (cases handler)
    (simp_all add: resume_def stream_handle_handshake_def handle_read_some_def handle_close_sent_def handle_close_received_def)

lemma fold_resume_failed:
  "failed ec \<Longrightarrow> st_done (fold (resume ec) handlers s) = st_done s @ map (ended_with ec) handlers \<and>
    st_receivers (fold (resume ec) handlers s) = st_receivers s"
  by (induction handlers arbitrary: s) (simp_all add: resume_failed)

lemma transport_over:
  assumes "stream_ok s"
  shows "st_done (stream_event cr (Socket_Received e_peer_disconnect data) s) = st_done s @
      map (ended_with (if sv_closed (st_server s) then e_peer_disconnect else e_tls_stream_truncated)) (st_receivers s) \<and>
    st_receivers (stream_event cr (Socket_Received e_peer_disconnect data) s) = []"
proof (cases "st_receiving s")
  case True
  have "failed e_peer_disconnect" "failed e_tls_stream_truncated" by (simp_all add: failed_iff)
  then show ?thesis
    using True by (simp add: stream_handle_receive_def Let_def stream_transport_def fold_resume_failed)
next
  case False
  then show ?thesis using assms by (simp add: stream_ok_def)
qed

section \<open>Properties\<close>

definition in_progress :: "tls_stream \<Rightarrow> bool" where
  "in_progress s \<longleftrightarrow> st_receiving s \<or> st_writing s \<or> st_posted s \<noteq> []"

lemma make_stream_ok: "sv_output server = [] \<Longrightarrow> stream_ok (make_tls_stream server) \<and> stream_ids (make_tls_stream server) = {#}"
  by (simp add: make_tls_stream_def stream_ok_def id_defs)

text \<open>
  C23. Every operation that was started on the stream either completed exactly once or is still pending, whatever the
  order of operations and of completions of the socket and the executor; while one is pending a read or a write of
  the socket is in progress or a completion is posted, so it is never forgotten; and no output of the server waits
  unless a write is in progress.
\<close>

theorem stream_operations_complete:
  "let s = stream_events cr events (make_tls_stream (make_server ctx random ephemeral generated clock)) in
    mset (map dn_id (st_done s)) + pending_ids s = (\<Sum>e \<leftarrow> events. started_ids e) \<and>
    (pending_ids s = {#} \<or> in_progress s) \<and>
    (sv_output (st_server s) = [] \<or> st_writing s)"
proof -
  let ?new = "make_tls_stream (make_server ctx random ephemeral generated clock)"
  have "stream_ok ?new \<and> stream_ids ?new = {#}" by (rule make_stream_ok) (simp add: make_server_def)
  then have "stream_ok (stream_events cr events ?new)" "stream_ids (stream_events cr events ?new) = (\<Sum>e \<leftarrow> events. started_ids e)"
    using events_ok [of ?new cr events] by simp_all
  then show ?thesis by (auto simp: Let_def stream_ids_def stream_ok_def pending_ids_def in_progress_def)
qed

text \<open>
  C22. The stream runs the server: with all output that was given to the socket in its order, the server after an event
  is that after the one operation of the event (a write of at most one record, a receive of exactly the bytes that
  the socket delivered, a close), up to application data that was read from the front. So no output is lost,
  repeated or reordered, and what holds of the server holds of it under the stream.
\<close>

theorem stream_refines_server:
  "\<exists>k. whole_server (stream_event cr e s) =
    (server_operation cr e s (whole_server s))\<lparr>sv_application := drop k (sv_application (server_operation cr e s (whole_server s)))\<rparr>"
  using event_refines [of cr e s] unfolding reads_to_def .

text \<open>
  C25. The closure of the transport. First, an operation reports the disconnection of the peer only if the server is
  closed, which only a close notification does (\<open>record_closes\<close>), or if it was bound to a write of the socket that itself
  failed with that code, which the code does not map (a known exception, \<open>write_disconnect_unmapped\<close>). Second, when
  the transport ends, every operation that waits for input completes, in order and without data: with the
  disconnection if the server is closed, and as a truncated stream otherwise; none waits on.
\<close>

theorem stream_orderly_close:
  "let s = stream_events cr events (make_tls_stream (make_server ctx random ephemeral generated clock));
      over = stream_event cr (Socket_Received e_peer_disconnect data) s
    in (\<forall>d \<in> set (st_done s). dn_code d = e_peer_disconnect \<longrightarrow> sv_closed (st_server s) \<or>
          dn_id d \<in> lost_writes cr events (make_tls_stream (make_server ctx random ephemeral generated clock))) \<and>
      st_done over = st_done s @
        map (ended_with (if sv_closed (st_server s) then e_peer_disconnect else e_tls_stream_truncated)) (st_receivers s) \<and>
      st_receivers over = []"
proof -
  let ?new = "make_tls_stream (make_server ctx random ephemeral generated clock)"
  have "codes_ok (lost_writes cr events ?new) ?new" by (simp add: codes_ok_def make_tls_stream_def)
  from events_codes [OF this subset_refl] have codes: "codes_ok (lost_writes cr events ?new) (stream_events cr events ?new)" .
  have "stream_ok ?new" using make_stream_ok by (simp add: make_server_def)
  then have "stream_ok (stream_events cr events ?new)" using events_ok by blast
  from transport_over [OF this] codes show ?thesis by (simp add: Let_def codes_ok_def)
qed

text \<open>
  A write that fails with that code is not mapped: a read that waits for the alert or the key update that its bytes
  caused reports it as an orderly disconnection.
\<close>

lemma write_disconnect_unmapped:
  assumes "st_writing s" "st_batch s = [Awaits_Read n k]" "\<not> sv_closed (st_server s)"
  shows "\<exists>d \<in> set (st_done (stream_event cr (Socket_Written e_peer_disconnect) s)). dn_id d = n \<and> dn_code d = e_peer_disconnect \<and>
    \<not> sv_closed (st_server (stream_event cr (Socket_Written e_peer_disconnect) s))"
proof -
  have "failed e_peer_disconnect" by (simp add: failed_iff)
  then show ?thesis
    using assms by (simp add: stream_handle_write_def Let_def resume_def handle_read_some_def)
qed

text \<open>A closure that is announced: the peer's notification and the end of the transport, then a read. One that is not.\<close>

definition sample_closing :: "tls_event list" where
  "sample_closing = [Start_Read 7 4, Socket_Received e_success [content_alert, 3, 3, 0, 2, alert_warning, alert_close_notify]]"

lemma sample_closed:
  "st_done (stream_events sample_tls sample_closing (make_tls_stream sample_start)) = [done_read 7 e_peer_disconnect []]"
  "lost_writes sample_tls sample_closing (make_tls_stream sample_start) = {}"
  by code_simp (simp add: sample_closing_def)

lemma sample_reading:
  "let s = stream_events sample_tls [Start_Read 7 4] (make_tls_stream sample_start) in
    st_receivers s = [Awaits_Read 7 4] \<and> st_done s = [] \<and> \<not> sv_closed (st_server s)"
  by code_simp

theorem stream_orderly_close_witness:
  "sv_closed (st_server (stream_events sample_tls sample_closing (make_tls_stream sample_start))) \<and>
    st_done (stream_event sample_tls (Socket_Received e_peer_disconnect [])
      (stream_events sample_tls [Start_Read 7 4] (make_tls_stream sample_start))) = [done_read 7 e_tls_stream_truncated []]"
  using stream_orderly_close [of sample_tls sample_closing sample_tls_context "replicate 32 1" "replicate 32 2" "replicate 32 3" 0]
    stream_orderly_close [of sample_tls "[Start_Read 7 4]" sample_tls_context "replicate 32 1" "replicate 32 2" "replicate 32 3" 0]
    sample_closed sample_reading
  unfolding sample_start_def [symmetric] Let_def by simp

end
