(* ===== verification/Spec2Isabelle.thy ===== *)
theory Spec2Isabelle
  imports Error_Code Utf8 Ws_Frame Flat_Buffer Ws_Reader Races Subscribers Address Hosts Peer_Body Locator Handshake Proxy_Batch Channel
    Socks Connector Http_Bodies Http_Target Peer_Protocols Seeding Zmtp_Stream Tls_Bounds Tls_Stream
begin

text \<open>
  A verification development of libbitcoin-network: the networking library of the libbitcoin node.

  \<^bold>\<open>The program.\<close> A channel exchanges messages with a peer over a socket. The socket moves bytes, framed for
  the transport (the bitcoin peer protocol, WebSocket, HTTP, JSON-RPC). The proxy queues the writes of
  a channel and arms its reads. The channel dispatches each message read to the protocols attached to it,
  which answer on the same channel. Sessions create channels, run the version handshake on them and keep
  the pool of known addresses. All work of a channel runs on one strand, so its components are state
  machines that process one job at a time. They are modelled as records with one function per method and,
  where the order of events matters, by an inductive step relation over which invariants are proved.

  \<^bold>\<open>Theories.\<close> Paths are below \<open>src/\<close>.

  \<^item> \<open>Prelude\<close>: bytes, machine words as natural numbers, sizes, endian byte strings.
  \<^item> \<open>Error_Code\<close>: the codes of \<open>error.hpp\<close> and the mapping of http errors (\<open>error.cpp\<close>). A code is
    \<open>failed\<close> if it is not \<open>e_success\<close>.
  \<^item> \<open>Utf8\<close> (\<open>ws/frame.cpp\<close>): the incremental validator accepts exactly the encodings of code points.
  \<^item> \<open>Ws_Frame\<close> (\<open>ws/frame.cpp\<close>): headers, masking and close payloads; parsing inverts serialization and
    accepts only canonical lengths; masking is piecewise.
  \<^item> \<open>Flat_Buffer\<close> (\<open>messages/http/flat_buffer.cpp\<close>): the buffer refines a queue of bytes.
  \<^item> \<open>Ws_Reader\<close> (\<open>ws/reader.cpp\<close>): the reader reassembles the fragments of a message in any division
    of the input, and stays within its bound.
  \<^item> \<open>Races\<close> (\<open>impl/async/races\<close>): each race invokes its handler once, with the result it promises.
  \<^item> \<open>Subscribers\<close> (\<open>impl/async\<close>): what a handler sees over any sequence of operations. The locale
    \<open>notifier\<close> is interpreted for both list based classes.
  \<^item> \<open>Address\<close>, \<open>Hosts\<close> (\<open>config\<close>, \<open>net/hosts.cpp\<close>): the address pool with its invariant, capacity and
    duplicates, and when the count it publishes is its size.
  \<^item> \<open>Wire\<close>: the byte reader and writer of libbitcoin-system as a record of operations, with their laws in
    the locales \<open>byte_wire\<close> and \<open>limit_wire\<close>, and the notions of decoding and encoding a format.
  \<^item> \<open>Messages_Simple\<close>, \<open>Messages_Address\<close>, \<open>Messages_Chain\<close>, \<open>Messages_Alert\<close> (\<open>messages/peer/detail\<close>):
    every message with its deserializers, serializers and size; the round trips and lengths are proved
    in the locales. Blocks, headers and transactions belong to libbitcoin-system: they are a
    record of operations with the laws of the locale \<open>chain_wire\<close>.
  \<^item> \<open>Registry\<close> (\<open>messages/peer/registry.hpp\<close>, \<open>message.cpp\<close>, \<open>interfaces/peer_dispatch.hpp\<close>): the union
    of the messages, their commands and identifiers, and the frames. The locale \<open>peer_wire\<close> collects the
    laws. All these locales are interpreted on readers and writers over byte lists in memory, which
    shows that the laws can hold and provides the witnesses.
  \<^item> \<open>Peer_Body\<close> (\<open>messages/peer/body.cpp\<close>, \<open>net/socket_peer.cpp\<close>): the body reader and writer and the read
    of a message from a socket: round trip of every message, soundness of what is accepted, termination.
  \<^item> \<open>Locator\<close> (\<open>messages/peer/detail/get_blocks.cpp\<close>): the heights of a block locator.
  \<^item> \<open>Handshake\<close> (\<open>protocols/protocol_version_*.cpp\<close>, \<open>sessions/session_peer.cpp\<close>): the version handshake; the
    outcome, the order of the messages, completion, and refusal by the first requirement that a version misses.
  \<^item> \<open>Proxy\<close>, \<open>Proxy_Queue\<close>, \<open>Proxy_Batch\<close> (\<open>net/proxy.cpp\<close>, \<open>proxy_queue.cpp\<close>, \<open>proxy_actions.cpp\<close>): the write
    queue, the backlog, the throttle and the batches.
  \<^item> \<open>Socks\<close> and \<open>Connector\<close> (\<open>net/connector_socks.cpp\<close>, \<open>net/connector.cpp\<close>): the handlers of the SOCKS5 negotiation, run
    against the bytes of a server and proved equivalent to the specified dialogue; and the race of the timer with
    the chain of resolve, connect and negotiation, as events in any order.
  \<^item> \<open>Channel\<close> (\<open>channels/channel.cpp\<close>, \<open>channel_peer.cpp\<close>): the gate and the read cycle.
  \<^item> \<open>Peer_Protocols\<close>, \<open>Peer_Addresses\<close>, \<open>Seeding\<close> (\<open>protocols/protocol_ping_*.cpp\<close>, \<open>protocol_address_*.cpp\<close>,
    \<open>protocol_seed_*.cpp\<close>, \<open>protocol_reject_70002.cpp\<close>): keep alive, the exchange of addresses and seeding, each as a step
    relation over its completions, with what stays pending, what is bounded and how it ends; that of seeding is told by
    the history of its run.
  \<^item> \<open>Http_Enums\<close>, \<open>Http_Fields\<close> (\<open>messages/http/enums\<close>, \<open>fields.cpp\<close>, \<open>header.cpp\<close>): verbs, field names and statuses;
    the fields of a header, which refine a map from names to lists of values, and the accessors of keep-alive,
    chunked and content length. The locale \<open>http_text\<close> has the laws of the text functions.
  \<^item> \<open>Http_Parser\<close>, \<open>Http_Machine\<close> (\<open>parser.cpp\<close>, \<open>parser.ipp\<close>): the parse functions, and the parser as a state
    machine over received bytes, for any kind of message (\<open>message_kind_laws\<close>) and any body
    (\<open>body_reader_laws\<close>): where a header is divided does not matter, and every put returns.
  \<^item> \<open>Http_Serializer\<close> (\<open>serializer.cpp\<close>, \<open>serializer.ipp\<close>): the text of headers and chunks and the serializer; the
    round trip of a request through the serializer and the parser, and the framing a parser can hold.
  \<^item> \<open>Http_Bodies\<close> (\<open>bodies.hpp\<close>): the readers and writers of bodies, each interpreted as \<open>body_reader_laws\<close>; a file
    is written whole. \<open>Http_Target\<close> (\<open>enums/target.cpp\<close>, \<open>enums/media_type.cpp\<close>): the targets that are safe and
    the paths of the files that are served for them, by their components; media types.
  \<^item> \<open>Zmtp_Frame\<close>, \<open>Zmtp_Cipher\<close>, \<open>Zmtp_Stream\<close> (\<open>zmtp\<close>): the ZMTP codec, the CURVE mechanism of both sides, and the
    stream with its NULL and CURVE handshakes, its frame reader and its boxed writer. A handshake from the bytes of the
    socket agrees on a session, admits authorized clients only, and messages arrive once and in order.
  \<^item> \<open>Tls_Codec\<close>, \<open>Tls_Record\<close>, \<open>Tls_Server\<close> (\<open>tls/codec.cpp\<close>, \<open>schedule.cpp\<close>, \<open>record.cpp\<close>, \<open>context.cpp\<close>,
    \<open>server.cpp\<close>): the presentation language, the key schedule and record protection, and the server side of a
    TLS 1.3 connection, a function of its state per handler.
  \<^item> \<open>Tls_Safety\<close>, \<open>Tls_Exchange\<close>, \<open>Tls_Bounds\<close>, \<open>Tls_Output\<close>: the invariant of every reachable server, what a client
    and the server read of each other, what a peer can make the server hold, and that its output is only appended to.
  \<^item> \<open>Tls_Stream\<close> (\<open>tls/stream.cpp\<close>): the stream over a socket refines the server and completes every operation once;
    what is reported when the transport ends.

  \<^bold>\<open>Interactions.\<close> \<open>Peer_Body\<close> reads the messages that \<open>Registry\<close> parses; a channel arms the read with a
  frame (\<open>create_frame\<close>) and dispatches its message; the handlers of \<open>Handshake\<close> are such handlers, and
  the hold of the gate that they take when both messages have arrived is the pause of \<open>Channel\<close>, under
  which no further message is read. What they send is queued by \<open>Proxy\<close>.

  \<^bold>\<open>Parameters.\<close> Code outside of the repository: the byte reader and writer, the chain objects and the hash,
  the operations on ip addresses, the clock, splitting of texts and decimal numbers, uris, the file system
  (\<open>canonical_law\<close>), and the primitives of cryptography: boxes and exchanges (\<open>box_laws\<close>, \<open>exchange_laws\<close>), authenticated
  ciphers (\<open>aead_laws\<close>), hashes, curves, signatures and certificates. Each is an argument, with the laws relied on as
  the assumptions of a locale or as a named premise. Random values and the clock of a connection are inputs. Inputs of the environment (completion codes, sizes, elapsed time, what
  handlers do) are arguments of the steps and arbitrary.

  \<^bold>\<open>Bounds and fuel.\<close> Sizes are natural numbers, with the saturation or wrap-around of \<open>size_t\<close> written out
  where it matters; fields of messages are machine words. \<open>peer_read\<close> runs on fuel 2, since a message takes
  one read for the heading and one for the payload (\<open>peer_read_terminates\<close>); the loops of the
  locator end within 73 heights. A put of the HTTP parser runs on fuel of twice the bytes and three
  (\<open>put_terminates\<close>), the serializer on the number of buffers of its writer.

  \<^bold>\<open>Not modelled.\<close> The io backends, the scheduler and the thread pool (operating system), the BIP324 transport,
  JSON-RPC bodies, the choice of an HTTP body by media type, sessions other than the selection of the handshake, the
  acceptors, the alert protocol (which only logs), text of the configuration, logging. Of the TLS stream, the gathering of
  buffers (\<open>impl/tls/stream.ipp\<close>) and handlers of the owner that call it again before they return. Next in the plan:
  the BIP324 cipher and stream, the batch prologue of the JSON-RPC reader, the acceptors.
\<close>

end
